(* ===== verification/Prelude.thy ===== *)
theory Prelude
  imports Main "HOL-Library.Monad_Syntax" "HOL-Library.Signed_Division"
begin

text \<open>
  Shared notions of the development: the result types (a panic is \<open>None\<close>, a
  \<open>QlError\<close> returned through \<open>QlResult\<close> is \<open>Inl\<close>), 32-bit signed arithmetic with
  its overflow check, constant-table lookup with Rust's bounds check, the
  truncating \<open>/\<close> and \<open>%\<close> of Rust on signed integers, decimal formatting, and the
  simplification rules the component theories share.
\<close>

section \<open>Panics and errors\<close>

text \<open>
  A Rust function that may panic is a function into \<open>option\<close>: \<open>None\<close> is the panic.
  A function that returns \<open>QlResult\<close> is a function into \<open>ql_error + 'a\<close>, and one that
  may do both into \<open>(ql_error + 'a) option\<close>. \<open>assert_that\<close> is \<open>assert!\<close>.
\<close>

type_synonym 'a panicking = "'a option"

definition assert_that :: "bool \<Rightarrow> unit option" where
  "assert_that b = (if b then Some () else None)"

lemma assert_that_simps [simp]:
  "assert_that True = Some ()"
  "assert_that False = None"
  "assert_that b = Some u \<longleftrightarrow> b"
  "assert_that b = None \<longleftrightarrow> \<not> b"
  by (simp_all add: assert_that_def)

lemma assert_that_bind [simp]: "b \<Longrightarrow> (assert_that b \<bind> f) = f ()"
  by simp

declare Option.bind_cong [fundef_cong]

named_theorems some_intros \<open>facts of the form: on valid arguments the operation returns\<close>
named_theorems valid_intros \<open>facts of the form: the operation returns a well-formed value\<close>

text \<open>The recoverable failures of the modelled functions, one constructor for each
  kind of \<open>fail!\<close>/\<open>require!\<close> site (the message text is not kept).\<close>

datatype ql_error =
    NoCalendarImplementation
  | UnknownFrequency
  | CannotConvertPeriod
  | NotAnImmDate
  | InvalidImmCode
  | InvalidMonthLetter
  | OutsideSupportedRange
  | NotAnAsxDate
  | InvalidAsxCode
  | NotAnEcbDate
  | InvalidEcbCode
  | EcbDatesUnknown
  | NoKnownEcbDates
  | NullTimeSeriesDate
  | PeriodStringTooShort
  | UnknownPeriodUnit
  | NoNumberOfUnits
  | UnparsableNumber
  | ImpossibleAddition
  | InvalidDateFormat

type_synonym 'a ql_result = "ql_error + 'a"

section \<open>Signed 32-bit integers\<close>

text \<open>
  \<open>Integer\<close> is \<open>i32\<close>. A sum, difference or product is computed on \<open>int\<close> and checked:
  overflow is a panic, as in a build with overflow checks.
\<close>

definition i32_range :: "int \<Rightarrow> bool" where
  "i32_range n \<longleftrightarrow> - 2147483648 \<le> n \<and> n \<le> 2147483647"

definition i32 :: "int \<Rightarrow> int option" where
  "i32 n = (if i32_range n then Some n else None)"

lemma i32_eq_Some [simp]: "i32 n = Some k \<longleftrightarrow> k = n \<and> i32_range n"
  by (auto simp: i32_def)

lemma i32_in_range: "i32_range n \<Longrightarrow> i32 n = Some n"
  by simp

lemma i32_rangeI: "- 2147483648 \<le> n \<Longrightarrow> n \<le> 2147483647 \<Longrightarrow> i32_range n"
  by (simp add: i32_range_def)

text \<open>Rust's signed \<open>/\<close> and \<open>%\<close> truncate towards zero: \<open>sdiv\<close> and \<open>smod\<close>.\<close>

lemma sdiv_nonneg: "0 \<le> a \<Longrightarrow> 0 < b \<Longrightarrow> a sdiv b = a div b" for a b :: int
  by (simp add: signed_divide_int_def sgn_if)

lemma smod_nonneg: "0 \<le> a \<Longrightarrow> 0 < b \<Longrightarrow> a smod b = a mod b" for a b :: int
  by (simp add: signed_modulo_int_def sgn_if)

lemma smod_zero_iff: "a smod b = 0 \<longleftrightarrow> b dvd a" for a b :: int
  by (auto simp: signed_modulo_int_def sgn_if dvd_eq_mod_eq_0 [symmetric])

lemma sdiv_mult_exact: "b dvd a \<Longrightarrow> a sdiv b * b = a" for a b :: int
  by (metis add.right_neutral sdiv_mult_smod_eq smod_zero_iff)

text \<open>Division and remainder with their checks: a zero divisor panics, and so does
  dividing the least value by -1.\<close>

definition i32_div :: "int \<Rightarrow> int \<Rightarrow> int option" where
  "i32_div a b = (if b = 0 then None else i32 (a sdiv b))"

definition i32_rem :: "int \<Rightarrow> int \<Rightarrow> int option" where
  "i32_rem a b = (if b = 0 then None else if i32_range (a sdiv b) then Some (a smod b) else None)"

lemma mod_eqI: "a = b * q + r \<Longrightarrow> 0 \<le> r \<Longrightarrow> r < b \<Longrightarrow> a mod b = r" for a b :: int
  by simp

lemma div_eqI: "a = b * q + r \<Longrightarrow> 0 \<le> r \<Longrightarrow> r < b \<Longrightarrow> a div b = q" for a b :: int
  by simp

lemma mod_dvd_near: "a mod b = c mod b \<Longrightarrow> \<bar>a - c\<bar> < b \<Longrightarrow> a = c" for a b c :: int
  by (metis diff_eq_diff_eq dvd_imp_le_int mod_eq_dvd_iff abs_of_nonneg abs_ge_zero not_less eq_iff_diff_eq_0 order_le_less_trans abs_of_pos)

section \<open>Constant tables\<close>

text \<open>
  Indexing a constant array by an \<open>i32\<close> cast to \<open>usize\<close>: a negative index becomes a
  huge one, so both ends are the bounds-check panic.
\<close>

fun tbl_get :: "'a list \<Rightarrow> int \<Rightarrow> 'a option" where
  "tbl_get [] i = None"
| "tbl_get (x # xs) i = (if i = 0 then Some x else tbl_get xs (i - 1))"

lemma tbl_get_nth:
  "tbl_get xs i = (if 0 \<le> i \<and> i < int (length xs) then Some (xs ! nat i) else None)"
proof (induction xs arbitrary: i)
  case Nil
  then show ?case by simp
next
  case (Cons x xs)
  then show ?case by (auto simp: nth_Cons' nat_diff_distrib)
qed

lemma tbl_get_map_upto:
  assumes "a \<le> k" "k \<le> b"
  shows "tbl_get (map f [a..b]) (k - a) = Some (f k)"
  using assms by (simp add: tbl_get_nth nth_upto)

lemma tbl_get_Cons_map_upto:
  assumes "a \<le> k" "k \<le> b"
  shows "tbl_get (x # map f [a..b]) (k - (a - 1)) = Some (f k)"
  using assms tbl_get_map_upto [OF assms, of f] by (simp add: algebra_simps)

lemma tbl_get_Some_bounds: "tbl_get xs i = Some x \<Longrightarrow> 0 \<le> i \<and> i < int (length xs)"
  by (simp add: tbl_get_nth split: if_splits)

lemma tbl_get_negative [simp]: "i < 0 \<Longrightarrow> tbl_get xs i = None"
  by (simp add: tbl_get_nth)

lemma tbl_get_in_set: "tbl_get xs i = Some x \<Longrightarrow> x \<in> set xs"
  by (auto simp: tbl_get_nth split: if_splits)

text \<open>Facts checked for every index of a table, by evaluation.\<close>

definition all_upto :: "int \<Rightarrow> int \<Rightarrow> (int \<Rightarrow> bool) \<Rightarrow> bool" where
  "all_upto i j P = list_all P [i..j]"

lemma all_uptoD: "all_upto i j P \<Longrightarrow> i \<le> k \<Longrightarrow> k \<le> j \<Longrightarrow> P k"
  by (simp add: all_upto_def list_all_iff)

section \<open>Decimal formatting\<close>

text \<open>\<open>{}\<close> and \<open>{:0w}\<close> of a non-negative integer.\<close>

definition digit_char :: "int \<Rightarrow> char" where
  "digit_char n = char_of (nat (48 + n))"

function show_dec :: "int \<Rightarrow> string" where
  "show_dec n = (if n < 10 then [digit_char n] else show_dec (n div 10) @ [digit_char (n mod 10)])"
  by pat_completeness auto
termination
  by (relation "measure nat") auto

declare show_dec.simps [simp del]

definition pad_dec :: "nat \<Rightarrow> int \<Rightarrow> string" where
  "pad_dec w n = (let s = show_dec n in replicate (w - length s) (CHR ''0'') @ s)"

definition show_int :: "int \<Rightarrow> string" where
  "show_int n = (if n < 0 then CHR ''-'' # show_dec (- n) else show_dec n)"

end
