(* ===== verification/Time_Enums.thy ===== *)
theory Time_Enums
  imports Prelude
begin

text \<open>
  The enumerations of \<open>time/\<close>: \<open>Weekday\<close> (weekday.rs), \<open>Month\<close> (date.rs), \<open>TimeUnit\<close>
  (timeunit.rs), \<open>Frequency\<close> (frequency.rs), \<open>BusinessDayConvention\<close>
  (businessdayconvention.rs) and \<open>DateGeneration\<close> (dategenerationrule.rs), with their
  ordinals, their checked construction from an ordinal, their derived orders and
  their \<open>Display\<close> names.
\<close>

section \<open>Weekday\<close>

datatype weekday = Sunday | Monday | Tuesday | Wednesday | Thursday | Friday | Saturday

fun weekday_ordinal :: "weekday \<Rightarrow> int" where
  "weekday_ordinal Sunday = 1"
| "weekday_ordinal Monday = 2"
| "weekday_ordinal Tuesday = 3"
| "weekday_ordinal Wednesday = 4"
| "weekday_ordinal Thursday = 5"
| "weekday_ordinal Friday = 6"
| "weekday_ordinal Saturday = 7"

definition weekday_from_ordinal :: "int \<Rightarrow> weekday option" where
  "weekday_from_ordinal n =
     (if n = 1 then Some Sunday
      else if n = 2 then Some Monday
      else if n = 3 then Some Tuesday
      else if n = 4 then Some Wednesday
      else if n = 5 then Some Thursday
      else if n = 6 then Some Friday
      else if n = 7 then Some Saturday
      else None)"

fun weekday_name :: "weekday \<Rightarrow> string" where
  "weekday_name Sunday = ''Sunday''"
| "weekday_name Monday = ''Monday''"
| "weekday_name Tuesday = ''Tuesday''"
| "weekday_name Wednesday = ''Wednesday''"
| "weekday_name Thursday = ''Thursday''"
| "weekday_name Friday = ''Friday''"
| "weekday_name Saturday = ''Saturday''"

lemma weekday_ordinal_range: "1 \<le> weekday_ordinal w \<and> weekday_ordinal w \<le> 7"
  by (cases w) simp_all

lemma weekday_from_ordinal_ordinal [simp]: "weekday_from_ordinal (weekday_ordinal w) = Some w"
  by (cases w) (simp_all add: weekday_from_ordinal_def)

lemma weekday_from_ordinal_Some:
  "weekday_from_ordinal n = Some w \<longleftrightarrow> n = weekday_ordinal w"
  by (cases w) (auto simp: weekday_from_ordinal_def split: if_splits)

lemma weekday_from_ordinal_total:
  "1 \<le> n \<Longrightarrow> n \<le> 7 \<Longrightarrow> \<exists>w. weekday_from_ordinal n = Some w \<and> weekday_ordinal w = n"
  by (auto simp: weekday_from_ordinal_def)

lemma weekday_ordinal_inject [simp]: "weekday_ordinal v = weekday_ordinal w \<longleftrightarrow> v = w"
  by (metis option.inject weekday_from_ordinal_ordinal)

instantiation weekday :: linorder
begin

definition less_eq_weekday :: "weekday \<Rightarrow> weekday \<Rightarrow> bool" where
  "v \<le> w \<longleftrightarrow> weekday_ordinal v \<le> weekday_ordinal w"

definition less_weekday :: "weekday \<Rightarrow> weekday \<Rightarrow> bool" where
  "v < w \<longleftrightarrow> weekday_ordinal v < weekday_ordinal w"

instance
  by standard (auto simp: less_eq_weekday_def less_weekday_def)

end

section \<open>Month\<close>

datatype month =
    January | February | March | April | May | June
  | July | August | September | October | November | December

fun month_ordinal :: "month \<Rightarrow> int" where
  "month_ordinal January = 1"
| "month_ordinal February = 2"
| "month_ordinal March = 3"
| "month_ordinal April = 4"
| "month_ordinal May = 5"
| "month_ordinal June = 6"
| "month_ordinal July = 7"
| "month_ordinal August = 8"
| "month_ordinal September = 9"
| "month_ordinal October = 10"
| "month_ordinal November = 11"
| "month_ordinal December = 12"

definition month_from_ordinal :: "int \<Rightarrow> month option" where
  "month_from_ordinal n =
     (if n = 1 then Some January
      else if n = 2 then Some February
      else if n = 3 then Some March
      else if n = 4 then Some April
      else if n = 5 then Some May
      else if n = 6 then Some June
      else if n = 7 then Some July
      else if n = 8 then Some August
      else if n = 9 then Some September
      else if n = 10 then Some October
      else if n = 11 then Some November
      else if n = 12 then Some December
      else None)"

fun month_name :: "month \<Rightarrow> string" where
  "month_name January = ''January''"
| "month_name February = ''February''"
| "month_name March = ''March''"
| "month_name April = ''April''"
| "month_name May = ''May''"
| "month_name June = ''June''"
| "month_name July = ''July''"
| "month_name August = ''August''"
| "month_name September = ''September''"
| "month_name October = ''October''"
| "month_name November = ''November''"
| "month_name December = ''December''"

lemma month_ordinal_range: "1 \<le> month_ordinal m \<and> month_ordinal m \<le> 12"
  by (cases m) simp_all

lemma month_from_ordinal_ordinal [simp]: "month_from_ordinal (month_ordinal m) = Some m"
  by (cases m) (simp_all add: month_from_ordinal_def)

lemma month_from_ordinal_Some: "month_from_ordinal n = Some m \<longleftrightarrow> n = month_ordinal m"
  by (cases m) (auto simp: month_from_ordinal_def split: if_splits)

lemma month_from_ordinal_total:
  "1 \<le> n \<Longrightarrow> n \<le> 12 \<Longrightarrow> \<exists>m. month_from_ordinal n = Some m \<and> month_ordinal m = n"
  by (auto simp: month_from_ordinal_def) arith

lemma month_ordinal_inject [simp]: "month_ordinal m = month_ordinal n \<longleftrightarrow> m = n"
  by (metis option.inject month_from_ordinal_ordinal)

instantiation month :: linorder
begin

definition less_eq_month :: "month \<Rightarrow> month \<Rightarrow> bool" where
  "m \<le> n \<longleftrightarrow> month_ordinal m \<le> month_ordinal n"

definition less_month :: "month \<Rightarrow> month \<Rightarrow> bool" where
  "m < n \<longleftrightarrow> month_ordinal m < month_ordinal n"

instance
  by standard (auto simp: less_eq_month_def less_month_def)

end

section \<open>Time units and frequencies\<close>

datatype time_unit =
    Days | Weeks | Months | Years
  | Hours | Minutes | Seconds | Milliseconds | Microseconds

fun time_unit_name :: "time_unit \<Rightarrow> string" where
  "time_unit_name Days = ''Days''"
| "time_unit_name Weeks = ''Weeks''"
| "time_unit_name Months = ''Months''"
| "time_unit_name Years = ''Years''"
| "time_unit_name Hours = ''Hours''"
| "time_unit_name Minutes = ''Minutes''"
| "time_unit_name Seconds = ''Seconds''"
| "time_unit_name Milliseconds = ''Milliseconds''"
| "time_unit_name Microseconds = ''Microseconds''"

datatype frequency =
    NoFrequency | Once | Annual | Semiannual | EveryFourthMonth | Quarterly | Bimonthly
  | Monthly | EveryFourthWeek | Biweekly | Weekly | Daily | OtherFrequency

text \<open>The discriminants of the \<open>repr(i16)\<close> enumeration.\<close>

fun frequency_code :: "frequency \<Rightarrow> int" where
  "frequency_code NoFrequency = - 1"
| "frequency_code Once = 0"
| "frequency_code Annual = 1"
| "frequency_code Semiannual = 2"
| "frequency_code EveryFourthMonth = 3"
| "frequency_code Quarterly = 4"
| "frequency_code Bimonthly = 6"
| "frequency_code Monthly = 12"
| "frequency_code EveryFourthWeek = 13"
| "frequency_code Biweekly = 26"
| "frequency_code Weekly = 52"
| "frequency_code Daily = 365"
| "frequency_code OtherFrequency = 999"

fun frequency_name :: "frequency \<Rightarrow> string" where
  "frequency_name NoFrequency = ''No-Frequency''"
| "frequency_name Once = ''Once''"
| "frequency_name Annual = ''Annual''"
| "frequency_name Semiannual = ''Semiannual''"
| "frequency_name EveryFourthMonth = ''Every-Fourth-Month''"
| "frequency_name Quarterly = ''Quarterly''"
| "frequency_name Bimonthly = ''Bimonthly''"
| "frequency_name Monthly = ''Monthly''"
| "frequency_name EveryFourthWeek = ''Every-fourth-week''"
| "frequency_name Biweekly = ''Biweekly''"
| "frequency_name Weekly = ''Weekly''"
| "frequency_name Daily = ''Daily''"
| "frequency_name OtherFrequency = ''Unknown frequency''"

section \<open>Business-day conventions and date-generation rules\<close>

datatype business_day_convention =
    Following | ModifiedFollowing | Preceding | ModifiedPreceding | Unadjusted
  | HalfMonthModifiedFollowing | Nearest

fun business_day_convention_name :: "business_day_convention \<Rightarrow> string" where
  "business_day_convention_name Following = ''Following''"
| "business_day_convention_name ModifiedFollowing = ''Modified Following''"
| "business_day_convention_name Preceding = ''Preceding''"
| "business_day_convention_name ModifiedPreceding = ''Modified Preceding''"
| "business_day_convention_name Unadjusted = ''Unadjusted''"
| "business_day_convention_name HalfMonthModifiedFollowing = ''Half-Month Modified Following''"
| "business_day_convention_name Nearest = ''Nearest''"

datatype date_generation =
    Backward | Forward | Zero | ThirdWednesday | ThirdWednesdayInclusive
  | Twentieth | TwentiethIMM | OldCDS | CDS | CDS2015

fun date_generation_name :: "date_generation \<Rightarrow> string" where
  "date_generation_name Backward = ''Backward''"
| "date_generation_name Forward = ''Forward''"
| "date_generation_name Zero = ''Zero''"
| "date_generation_name ThirdWednesday = ''ThirdWednesday''"
| "date_generation_name ThirdWednesdayInclusive = ''ThirdWednesdayInclusive''"
| "date_generation_name Twentieth = ''Twentieth''"
| "date_generation_name TwentiethIMM = ''TwentiethIMM''"
| "date_generation_name OldCDS = ''OldCDS''"
| "date_generation_name CDS = ''CDS''"
| "date_generation_name CDS2015 = ''CDS2015''"

end
