(* ===== verification/Periods.thy ===== *)
theory Periods
  imports Time_Enums
begin

text \<open>
  \<open>time/period.rs\<close>: a \<open>Period\<close> is a signed length in a \<open>TimeUnit\<close>. Its comparison is
  partial (\<open>None\<close> where the day ranges overlap), its arithmetic converts units where
  the calendar algebra allows and panics elsewhere, and every \<open>i32\<close> operation is
  overflow-checked. The fractional conversions \<open>years\<close>, \<open>months\<close>, \<open>weeks\<close> and \<open>days\<close>
  return \<open>f64\<close> values; they are in \<open>Date_Text\<close>.
\<close>

section \<open>The type and its conversions\<close>

record period =
  period_length :: int
  period_units :: time_unit

definition period_new :: "int \<Rightarrow> time_unit \<Rightarrow> period" where
  "period_new n u = \<lparr>period_length = n, period_units = u\<rparr>"

lemma period_new_simps [simp]:
  "period_length (period_new n u) = n"
  "period_units (period_new n u) = u"
  by (simp_all add: period_new_def)

lemma period_new_eta [simp]: "period_new (period_length p) (period_units p) = p"
  by (simp add: period_new_def)

definition period_normalize :: "period \<Rightarrow> period option" where
  "period_normalize p =
     (if period_length p = 0 then Some (p\<lparr>period_units := Days\<rparr>)
      else if period_units p = Months \<and> period_length p smod 12 = 0 then
        Some (period_new (period_length p sdiv 12) Years)
      else if period_units p = Days \<and> period_length p smod 7 = 0 then
        Some (period_new (period_length p sdiv 7) Weeks)
      else if period_units p \<in> {Days, Weeks, Months, Years} then Some p
      else None)"

definition period_frequency :: "period \<Rightarrow> frequency option" where
  "period_frequency p =
     (let length = \<bar>period_length p\<bar> in
      if length = 0 then
        Some (if period_units p = Years then Once else NoFrequency)
      else if period_units p = Years \<and> length = 1 then Some Annual
      else if period_units p = Months \<and> 12 mod length = 0 \<and> length \<le> 12 then
        (let k = 12 div length in
         Some (if k = 1 then Annual
               else if k = 2 then Semiannual
               else if k = 3 then EveryFourthMonth
               else if k = 4 then Quarterly
               else if k = 6 then Bimonthly
               else Monthly))
      else if period_units p = Weeks then
        Some (if length = 1 then Weekly
              else if length = 2 then Biweekly
              else if length = 4 then EveryFourthWeek
              else OtherFrequency)
      else if period_units p = Days \<and> length = 1 then Some Daily
      else if period_units p \<in> {Days, Months, Years} then Some OtherFrequency
      else None)"

fun period_try_from :: "frequency \<Rightarrow> period ql_result" where
  "period_try_from NoFrequency = Inr (period_new 0 Days)"
| "period_try_from Once = Inr (period_new 0 Years)"
| "period_try_from Annual = Inr (period_new 1 Years)"
| "period_try_from EveryFourthWeek = Inr (period_new (52 sdiv frequency_code EveryFourthWeek) Weeks)"
| "period_try_from Biweekly = Inr (period_new (52 sdiv frequency_code Biweekly) Weeks)"
| "period_try_from Weekly = Inr (period_new (52 sdiv frequency_code Weekly) Weeks)"
| "period_try_from Daily = Inr (period_new 1 Days)"
| "period_try_from OtherFrequency = Inl UnknownFrequency"
| "period_try_from f = Inr (period_new (12 sdiv frequency_code f) Months)"

fun short_unit :: "time_unit \<Rightarrow> string" where
  "short_unit Days = ''D''"
| "short_unit Weeks = ''W''"
| "short_unit Months = ''M''"
| "short_unit Years = ''Y''"
| "short_unit Hours = ''h''"
| "short_unit Minutes = ''m''"
| "short_unit Seconds = ''s''"
| "short_unit Milliseconds = ''ms''"
| "short_unit Microseconds = ''us''"

definition period_display :: "period \<Rightarrow> string" where
  "period_display p = show_int (period_length p) @ short_unit (period_units p)"

section \<open>The partial order\<close>

datatype ordering = Less | Equal | Greater

definition day_bounds :: "int \<Rightarrow> int \<Rightarrow> int \<Rightarrow> (int \<times> int) option" where
  "day_bounds lo_factor hi_factor n = do {
     a \<leftarrow> i32 (lo_factor * n);
     b \<leftarrow> i32 (hi_factor * n);
     Some (min a b, max a b)
   }"

definition days_min_max :: "period \<Rightarrow> (int \<times> int) option" where
  "days_min_max p =
     (case period_units p of
        Days \<Rightarrow> Some (period_length p, period_length p)
      | Weeks \<Rightarrow> do { k \<leftarrow> i32 (7 * period_length p); Some (k, k) }
      | Months \<Rightarrow> day_bounds 28 31 (period_length p)
      | Years \<Rightarrow> day_bounds 365 366 (period_length p)
      | _ \<Rightarrow> None)"

text \<open>\<open>less\<close> returns \<open>Option<bool>\<close> and may panic: the outer option is the panic, the inner
  one the undecidable comparison.\<close>

definition period_less :: "period \<Rightarrow> period \<Rightarrow> bool option option" where
  "period_less p1 p2 =
     (if period_length p1 = 0 then Some (Some (period_length p2 > 0))
      else if period_length p2 = 0 then Some (Some (period_length p1 < 0))
      else if period_units p1 = period_units p2 then
        Some (Some (period_length p1 < period_length p2))
      else if period_units p1 = Months \<and> period_units p2 = Years then do {
        k \<leftarrow> i32 (12 * period_length p2);
        Some (Some (period_length p1 < k))
      }
      else if period_units p1 = Years \<and> period_units p2 = Months then do {
        k \<leftarrow> i32 (12 * period_length p1);
        Some (Some (k < period_length p2))
      }
      else if period_units p1 = Days \<and> period_units p2 = Weeks then do {
        k \<leftarrow> i32 (7 * period_length p2);
        Some (Some (period_length p1 < k))
      }
      else if period_units p1 = Weeks \<and> period_units p2 = Days then do {
        k \<leftarrow> i32 (7 * period_length p1);
        Some (Some (k < period_length p2))
      }
      else do {
        (p1lo, p1hi) \<leftarrow> days_min_max p1;
        (p2lo, p2hi) \<leftarrow> days_min_max p2;
        Some (if p1hi < p2lo then Some True
              else if p1lo > p2hi then Some False
              else None)
      })"

definition period_partial_cmp :: "period \<Rightarrow> period \<Rightarrow> ordering option option" where
  "period_partial_cmp p1 p2 = do {
     a \<leftarrow> period_less p1 p2;
     b \<leftarrow> period_less p2 p1;
     Some (if a = Some True then Some Less
           else if b = Some True then Some Greater
           else if a = Some False \<and> b = Some False then Some Equal
           else None)
   }"

definition period_eq :: "period \<Rightarrow> period \<Rightarrow> bool option" where
  "period_eq p1 p2 = do {
     c \<leftarrow> period_partial_cmp p1 p2;
     Some (c = Some Equal)
   }"

text \<open>The derived \<open>>=\<close> of \<open>PartialOrd\<close>: greater or equal, false when undecidable.\<close>

definition period_ge :: "period \<Rightarrow> period \<Rightarrow> bool option" where
  "period_ge p1 p2 = do {
     c \<leftarrow> period_partial_cmp p1 p2;
     Some (c = Some Greater \<or> c = Some Equal)
   }"

section \<open>Arithmetic\<close>

definition period_neg :: "period \<Rightarrow> period option" where
  "period_neg p = do {
     n \<leftarrow> i32 (- period_length p);
     Some (period_new n (period_units p))
   }"

definition period_add :: "period \<Rightarrow> period \<Rightarrow> period option" where
  "period_add self p =
     (if period_length self = 0 then Some (period_new (period_length p) (period_units p))
      else if period_units self = period_units p then do {
        n \<leftarrow> i32 (period_length self + period_length p);
        Some (period_new n (period_units self))
      }
      else if period_units self = Years \<and> period_units p = Months then do {
        k \<leftarrow> i32 (period_length self * 12);
        n \<leftarrow> i32 (k + period_length p);
        Some (period_new n Months)
      }
      else if period_units self = Months \<and> period_units p = Years then do {
        k \<leftarrow> i32 (period_length p * 12);
        n \<leftarrow> i32 (period_length self + k);
        Some (period_new n Months)
      }
      else if period_units self = Weeks \<and> period_units p = Days then do {
        k \<leftarrow> i32 (period_length self * 7);
        n \<leftarrow> i32 (k + period_length p);
        Some (period_new n Days)
      }
      else if period_units self = Days \<and> period_units p = Weeks then do {
        k \<leftarrow> i32 (period_length p * 7);
        n \<leftarrow> i32 (period_length self + k);
        Some (period_new n Days)
      }
      else do {
        assert_that (period_length p = 0);
        Some self
      })"

definition period_sub :: "period \<Rightarrow> period \<Rightarrow> period option" where
  "period_sub self p = do {
     q \<leftarrow> period_neg p;
     period_add self q
   }"

definition period_mul :: "period \<Rightarrow> int \<Rightarrow> period option" where
  "period_mul p n = do {
     k \<leftarrow> i32 (period_length p * n);
     Some (period_new k (period_units p))
   }"

definition period_div :: "period \<Rightarrow> int \<Rightarrow> period option" where
  "period_div self n = do {
     assert_that (n \<noteq> 0);
     r \<leftarrow> i32_rem (period_length self) n;
     if r = 0 then do {
       k \<leftarrow> i32_div (period_length self) n;
       Some (self\<lparr>period_length := k\<rparr>)
     } else do {
       (len, units) \<leftarrow>
         (case period_units self of
            Years \<Rightarrow> do { l \<leftarrow> i32 (period_length self * 12); Some (l, Months) }
          | Weeks \<Rightarrow> do { l \<leftarrow> i32 (period_length self * 7); Some (l, Days) }
          | u \<Rightarrow> Some (period_length self, u));
       r \<leftarrow> i32_rem len n;
       assert_that (r = 0);
       k \<leftarrow> i32_div len n;
       Some (period_new k units)
     }
   }"

section \<open>What a period stands for\<close>

text \<open>Months and years measure months, days and weeks measure days; the two kinds do not
  convert into each other.\<close>

datatype measure_kind = InMonths | InDays

fun period_value :: "period \<Rightarrow> (measure_kind \<times> int) option" where
  "period_value p =
     (case period_units p of
        Months \<Rightarrow> Some (InMonths, period_length p)
      | Years \<Rightarrow> Some (InMonths, 12 * period_length p)
      | Days \<Rightarrow> Some (InDays, period_length p)
      | Weeks \<Rightarrow> Some (InDays, 7 * period_length p)
      | _ \<Rightarrow> None)"

declare period_value.simps [simp del]
lemmas period_value_def = period_value.simps

named_theorems period_defs \<open>the operations on periods\<close>
declare period_normalize_def [period_defs] period_add_def [period_defs] period_neg_def [period_defs]
  period_sub_def [period_defs] period_mul_def [period_defs] period_div_def [period_defs]
  i32_div_def [period_defs] i32_rem_def [period_defs]

lemma sdiv_cancel: "b dvd a \<Longrightarrow> b * (a sdiv b) = a" for a b :: int
  using sdiv_mult_exact [of b a] by (simp add: mult.commute)

lemma normalize_value:
  assumes "period_normalize p = Some q" "period_length p \<noteq> 0"
  shows "period_value q = period_value p"
  using assms
  by (auto simp: period_normalize_def period_value_def smod_zero_iff sdiv_cancel
      split: if_splits time_unit.splits)

lemma normalize_zero: "period_length p = 0 \<Longrightarrow> period_normalize p = Some (period_new 0 Days)"
  by (simp add: period_normalize_def period_new_def)

lemma normalize_idempotent:
  assumes "period_normalize p = Some q"
  shows "period_normalize q = Some q"
proof (cases "period_length p = 0")
  case True
  with assms show ?thesis by (auto simp: period_normalize_def period_new_def)
next
  case False
  then have "period_length q \<noteq> 0"
    using assms sdiv_mult_exact [of 12 "period_length p"] sdiv_mult_exact [of 7 "period_length p"]
    by (auto simp: period_normalize_def smod_zero_iff split: if_splits)
  with False assms show ?thesis
    by (auto simp: period_normalize_def split: if_splits)
qed

text \<open>Two periods of the same non-zero value have the same normal form.\<close>

lemma normalize_canonical:
  assumes "period_value p = period_value q" "period_value p \<noteq> None" "period_length p \<noteq> 0"
  shows "period_normalize p = period_normalize q \<and> period_normalize p \<noteq> None"
proof -
  have d: "12 * k smod 12 = 0" "12 * k sdiv 12 = k" "7 * k smod 7 = 0" "7 * k sdiv 7 = k" for k :: int
    using sdiv_mult_exact [of 12 "12 * k"] sdiv_mult_exact [of 7 "7 * k"]
    by (simp_all add: smod_zero_iff)
  show ?thesis
    using assms
    by (cases p; cases q)
      (auto simp: period_normalize_def period_value_def period_new_def d split: time_unit.splits)
qed

lemma period_add_value:
  assumes "period_add p q = Some r" "period_value p = Some (k, a)" "period_value q = Some (k, b)"
  shows "period_value r = Some (k, a + b)"
  using assms
  by (auto simp: period_add_def period_value_def bind_eq_Some_conv split: if_splits time_unit.splits)

text \<open>Addition returns exactly when the lengths convert (or one is zero) and nothing overflows.\<close>

lemma period_add_mixed:
  assumes "period_value p = Some (k, a)" "period_value q = Some (l, b)" "k \<noteq> l" "a \<noteq> 0"
  shows "period_add p q = (if b = 0 then Some p else None)"
  using assms
  by (auto simp: period_add_def period_value_def split: if_splits time_unit.splits)

lemma period_mul_value:
  assumes "period_mul p n = Some r" "period_value p = Some (k, a)"
  shows "period_value r = Some (k, a * n)"
  using assms
  by (auto simp: period_mul_def period_value_def bind_eq_Some_conv split: time_unit.splits)

lemma period_neg_value:
  assumes "period_neg p = Some r" "period_value p = Some (k, a)"
  shows "period_value r = Some (k, - a)"
  using assms
  by (auto simp: period_neg_def period_value_def bind_eq_Some_conv split: time_unit.splits)

lemma period_sub_value:
  assumes "period_sub p q = Some r" "period_value p = Some (k, a)" "period_value q = Some (k, b)"
  shows "period_value r = Some (k, a - b)"
proof -
  obtain q' where q': "period_neg q = Some q'" "period_add p q' = Some r"
    using assms(1) by (auto simp: period_sub_def bind_eq_Some_conv)
  then show ?thesis
    using period_add_value [OF q'(2) assms(2)] period_neg_value [OF q'(1) assms(3)] by simp
qed

text \<open>Division is exact: multiplying back gives the value divided.\<close>

lemma period_div_value:
  assumes "period_div p n = Some r" "period_value p = Some (k, a)"
  shows "n \<noteq> 0 \<and> (\<exists>b. period_value r = Some (k, b) \<and> b * n = a)"
proof -
  have e: "x smod n = 0 \<Longrightarrow> x sdiv n * n = x" for x
    by (simp add: smod_zero_iff sdiv_mult_exact)
  show ?thesis
    using assms
    by (auto simp: period_div_def period_value_def i32_div_def i32_rem_def bind_eq_Some_conv e
        mult.assoc mult.commute [of _ 12] mult.commute [of _ 7]
        split: if_splits time_unit.splits)
qed

section \<open>Frequencies\<close>

lemma try_from_frequency:
  assumes "period_try_from f = Inr p"
  shows "period_frequency p = Some f"
  using assms
  by (cases f) (auto simp: period_frequency_def Let_def signed_divide_int_def)

lemma try_from_fails_iff: "(\<exists>e. period_try_from f = Inl e) \<longleftrightarrow> f = OtherFrequency"
  by (cases f) simp_all

section \<open>The comparison\<close>

lemma day_bounds_Some:
  "day_bounds a b n = Some r \<longleftrightarrow>
     i32_range (a * n) \<and> i32_range (b * n) \<and> r = (min (a * n) (b * n), max (a * n) (b * n))"
  by (auto simp: day_bounds_def bind_eq_Some_conv)

text \<open>The days a period can span, without the overflow checks of \<open>days_min_max\<close>.\<close>

fun period_range :: "period \<Rightarrow> int \<times> int" where
  "period_range p =
     (let n = period_length p in
      case period_units p of
        Days \<Rightarrow> (n, n)
      | Weeks \<Rightarrow> (7 * n, 7 * n)
      | Months \<Rightarrow> (min (28 * n) (31 * n), max (28 * n) (31 * n))
      | _ \<Rightarrow> (min (365 * n) (366 * n), max (365 * n) (366 * n)))"

declare period_range.simps [simp del]

lemma days_min_max_range: "days_min_max p = Some r \<Longrightarrow> period_range p = r"
  by (auto simp: days_min_max_def period_range.simps Let_def day_bounds_Some bind_eq_Some_conv
      split: time_unit.splits)

text \<open>What a decided comparison says: either the two periods are of one kind and their
  values compare, or their day ranges are apart.\<close>

lemma period_less_decided:
  assumes "period_less p q = Some (Some b)" "period_value p = Some (k, m)" "period_value q = Some (l, n)"
  shows "(k = l \<and> (b \<longleftrightarrow> m < n))
    \<or> (k \<noteq> l \<and> b \<and> snd (period_range p) < fst (period_range q))
    \<or> (k \<noteq> l \<and> \<not> b \<and> snd (period_range q) \<le> fst (period_range p))"
proof (cases "period_length p = 0 \<or> period_length q = 0")
  case True
  with assms show ?thesis
    by (auto simp: period_less_def period_value_def period_range.simps Let_def
        split: if_splits time_unit.splits)
next
  case False
  then show ?thesis
  proof (cases "k = l")
    case True
    with False assms show ?thesis
      by (auto simp: period_less_def period_value_def bind_eq_Some_conv split: if_splits time_unit.splits)
  next
    case kl: False
    then have "do { (p1lo, p1hi) \<leftarrow> days_min_max p; (p2lo, p2hi) \<leftarrow> days_min_max q;
        Some (if p1hi < p2lo then Some True else if p1lo > p2hi then Some False else None) } = Some (Some b)"
      using False assms
      by (auto simp: period_less_def period_value_def split: if_splits time_unit.splits)
    then show ?thesis
      using kl by (cases b) (auto simp: bind_eq_Some_conv split: if_splits prod.splits dest!: days_min_max_range)
  qed
qed

lemma period_range_ordered: "fst (period_range p) \<le> snd (period_range p)"
  by (auto simp: period_range.simps Let_def split: time_unit.splits)

lemma period_value_None:
  "period_value p = None \<Longrightarrow> days_min_max p = None"
  by (auto simp: period_value_def days_min_max_def split: time_unit.splits)

lemma period_less_asym:
  assumes "period_less p q = Some (Some True)" "period_less q p = Some (Some True)"
  shows False
proof (cases "period_length p = 0 \<or> period_length q = 0 \<or> period_units p = period_units q")
  case True
  with assms show ?thesis by (auto simp: period_less_def split: if_splits)
next
  case False
  then obtain k m l n where v: "period_value p = Some (k, m)" "period_value q = Some (l, n)"
    using assms period_value_None [of p] period_value_None [of q]
    by (cases "period_value p"; cases "period_value q")
      (auto simp: period_less_def bind_eq_Some_conv period_value_def
        split: if_splits time_unit.splits)
  show ?thesis
    using period_less_decided [OF assms(1) v] period_less_decided [OF assms(2) v(2,1)]
      period_range_ordered [of p] period_range_ordered [of q] by auto
qed

fun flip :: "ordering \<Rightarrow> ordering" where
  "flip Less = Greater"
| "flip Equal = Equal"
| "flip Greater = Less"

lemma period_cmp_swap:
  assumes "period_partial_cmp p q = Some c"
  shows "period_partial_cmp q p = Some (map_option flip c)"
proof -
  obtain a b where ab: "period_less p q = Some a" "period_less q p = Some b"
    using assms by (auto simp: period_partial_cmp_def bind_eq_Some_conv)
  have "a \<noteq> Some True \<or> b \<noteq> Some True" using ab period_less_asym [of p q] by auto
  moreover have "a = None \<or> a = Some True \<or> a = Some False" by (cases a) auto
  moreover have "b = None \<or> b = Some True \<or> b = Some False" by (cases b) auto
  ultimately show ?thesis using assms ab by (auto simp: period_partial_cmp_def)
qed

end
