(* ===== verification/Dates.thy ===== *)
theory Dates
  imports Time_Enums
begin

text \<open>
  \<open>time/date.rs\<close>: a \<open>Date\<close> is a serial number (days since 31 December 1899). The
  constructors check the supported range 1901-01-01 .. 2199-12-31 (serials 367 .. 109574),
  the inspectors read the constant tables, \<open>date_advance\<close> is \<open>Date::advance\<close>. The lemmas show
  that the tables are the Gregorian calendar, that construction and inspection are
  inverse to each other, and that adding one day is the civil successor.
\<close>

section \<open>The type and its constant tables\<close>

datatype date = Date (serial_number: int)

instantiation date :: linorder
begin

definition less_eq_date :: "date \<Rightarrow> date \<Rightarrow> bool" where
  "a \<le> b \<longleftrightarrow> serial_number a \<le> serial_number b"

definition less_date :: "date \<Rightarrow> date \<Rightarrow> bool" where
  "a < b \<longleftrightarrow> serial_number a < serial_number b"

instance
  by standard (auto simp: less_eq_date_def less_date_def date.expand)

end

lemma date_le_iff [simp]: "Date a \<le> Date b \<longleftrightarrow> a \<le> b"
  by (simp add: less_eq_date_def)

lemma date_less_iff [simp]: "Date a < Date b \<longleftrightarrow> a < b"
  by (simp add: less_date_def)

definition MINIMUM_SERIAL_NUMBER :: int where
  "MINIMUM_SERIAL_NUMBER = 367"

definition MAXIMUM_SERIAL_NUMBER :: int where
  "MAXIMUM_SERIAL_NUMBER = 109574"

definition YEAR_IS_LEAP :: "bool list" where
  "YEAR_IS_LEAP = [
    True, False, False, False, True, False, False, False, True, False, False, False, True,
    False, False, False, True, False, False, False, True, False, False, False, True, False,
    False, False, True, False, False, False, True, False, False, False, True, False, False,
    False, True, False, False, False, True, False, False, False, True, False, False, False,
    True, False, False, False, True, False, False, False, True, False, False, False, True,
    False, False, False, True, False, False, False, True, False, False, False, True, False,
    False, False, True, False, False, False, True, False, False, False, True, False, False,
    False, True, False, False, False, True, False, False, False, True, False, False, False,
    True, False, False, False, True, False, False, False, True, False, False, False, True,
    False, False, False, True, False, False, False, True, False, False, False, True, False,
    False, False, True, False, False, False, True, False, False, False, True, False, False,
    False, True, False, False, False, True, False, False, False, True, False, False, False,
    True, False, False, False, True, False, False, False, True, False, False, False, True,
    False, False, False, True, False, False, False, True, False, False, False, True, False,
    False, False, True, False, False, False, True, False, False, False, True, False, False,
    False, True, False, False, False, False, False, False, False, True, False, False, False,
    True, False, False, False, True, False, False, False, True, False, False, False, True,
    False, False, False, True, False, False, False, True, False, False, False, True, False,
    False, False, True, False, False, False, True, False, False, False, True, False, False,
    False, True, False, False, False, True, False, False, False, True, False, False, False,
    True, False, False, False, True, False, False, False, True, False, False, False, True,
    False, False, False, True, False, False, False, True, False, False, False, True, False,
    False, False, True, False, False, False, True, False, False, False, True, False, False,
    False, False]"

definition MONTH_LENGTH :: "int list" where
  "MONTH_LENGTH = [31, 28, 31, 30, 31, 30, 31, 31, 30, 31, 30, 31]"

definition MONTH_LEAP_LENGTH :: "int list" where
  "MONTH_LEAP_LENGTH = [31, 29, 31, 30, 31, 30, 31, 31, 30, 31, 30, 31]"

definition MONTH_OFFSET :: "int list" where
  "MONTH_OFFSET = [0, 31, 59, 90, 120, 151, 181, 212, 243, 273, 304, 334, 365]"

definition MONTH_LEAP_OFFSET :: "int list" where
  "MONTH_LEAP_OFFSET = [0, 31, 60, 91, 121, 152, 182, 213, 244, 274, 305, 335, 366]"

definition YEAR_OFFSET :: "int list" where
  "YEAR_OFFSET = [
    0, 366, 731, 1096, 1461, 1827, 2192, 2557, 2922, 3288, 3653, 4018, 4383, 4749, 5114,
    5479, 5844, 6210, 6575, 6940, 7305, 7671, 8036, 8401, 8766, 9132, 9497, 9862, 10227,
    10593, 10958, 11323, 11688, 12054, 12419, 12784, 13149, 13515, 13880, 14245, 14610,
    14976, 15341, 15706, 16071, 16437, 16802, 17167, 17532, 17898, 18263, 18628, 18993,
    19359, 19724, 20089, 20454, 20820, 21185, 21550, 21915, 22281, 22646, 23011, 23376,
    23742, 24107, 24472, 24837, 25203, 25568, 25933, 26298, 26664, 27029, 27394, 27759,
    28125, 28490, 28855, 29220, 29586, 29951, 30316, 30681, 31047, 31412, 31777, 32142,
    32508, 32873, 33238, 33603, 33969, 34334, 34699, 35064, 35430, 35795, 36160, 36525,
    36891, 37256, 37621, 37986, 38352, 38717, 39082, 39447, 39813, 40178, 40543, 40908,
    41274, 41639, 42004, 42369, 42735, 43100, 43465, 43830, 44196, 44561, 44926, 45291,
    45657, 46022, 46387, 46752, 47118, 47483, 47848, 48213, 48579, 48944, 49309, 49674,
    50040, 50405, 50770, 51135, 51501, 51866, 52231, 52596, 52962, 53327, 53692, 54057,
    54423, 54788, 55153, 55518, 55884, 56249, 56614, 56979, 57345, 57710, 58075, 58440,
    58806, 59171, 59536, 59901, 60267, 60632, 60997, 61362, 61728, 62093, 62458, 62823,
    63189, 63554, 63919, 64284, 64650, 65015, 65380, 65745, 66111, 66476, 66841, 67206,
    67572, 67937, 68302, 68667, 69033, 69398, 69763, 70128, 70494, 70859, 71224, 71589,
    71955, 72320, 72685, 73050, 73415, 73780, 74145, 74510, 74876, 75241, 75606, 75971,
    76337, 76702, 77067, 77432, 77798, 78163, 78528, 78893, 79259, 79624, 79989, 80354,
    80720, 81085, 81450, 81815, 82181, 82546, 82911, 83276, 83642, 84007, 84372, 84737,
    85103, 85468, 85833, 86198, 86564, 86929, 87294, 87659, 88025, 88390, 88755, 89120,
    89486, 89851, 90216, 90581, 90947, 91312, 91677, 92042, 92408, 92773, 93138, 93503,
    93869, 94234, 94599, 94964, 95330, 95695, 96060, 96425, 96791, 97156, 97521, 97886,
    98252, 98617, 98982, 99347, 99713, 100078, 100443, 100808, 101174, 101539, 101904,
    102269, 102635, 103000, 103365, 103730, 104096, 104461, 104826, 105191, 105557, 105922,
    106287, 106652, 107018, 107383, 107748, 108113, 108479, 108844, 109209, 109574]"

definition is_leap :: "int \<Rightarrow> bool option" where
  "is_leap y = do {
     assert_that (1900 \<le> y \<and> y \<le> 2200);
     tbl_get YEAR_IS_LEAP (y - 1900)
   }"

definition month_length :: "month \<Rightarrow> bool \<Rightarrow> int option" where
  "month_length m leap_year =
     (let i = month_ordinal m - 1
      in if leap_year then tbl_get MONTH_LEAP_LENGTH i else tbl_get MONTH_LENGTH i)"

definition month_offset :: "int \<Rightarrow> bool \<Rightarrow> int option" where
  "month_offset m leap_year =
     (let i = m - 1
      in if leap_year then tbl_get MONTH_LEAP_OFFSET i else tbl_get MONTH_OFFSET i)"

definition year_offset :: "int \<Rightarrow> int option" where
  "year_offset y = tbl_get YEAR_OFFSET (y - 1900)"

section \<open>Construction\<close>

definition date_null :: date where
  "date_null = Date 0"

definition check_serial_number :: "int \<Rightarrow> unit option" where
  "check_serial_number s =
     assert_that (MINIMUM_SERIAL_NUMBER \<le> s \<and> s \<le> MAXIMUM_SERIAL_NUMBER)"

definition date_from_serial :: "int \<Rightarrow> date option" where
  "date_from_serial s = do {
     check_serial_number s;
     Some (Date s)
   }"

definition date_new :: "int \<Rightarrow> month \<Rightarrow> int \<Rightarrow> date option" where
  "date_new d m y = do {
     assert_that (y > 1900 \<and> y < 2200);
     leap \<leftarrow> is_leap y;
     len \<leftarrow> month_length m leap;
     offset \<leftarrow> month_offset (month_ordinal m) leap;
     assert_that (d \<le> len \<and> d > 0);
     yo \<leftarrow> year_offset y;
     Some (Date (d + offset + yo))
   }"

definition date_min :: date where
  "date_min = Date MINIMUM_SERIAL_NUMBER"

definition date_max :: date where
  "date_max = Date MAXIMUM_SERIAL_NUMBER"

section \<open>Inspectors\<close>

definition date_weekday :: "date \<Rightarrow> weekday option" where
  "date_weekday d =
     (let w = serial_number d smod 7
      in weekday_from_ordinal (if w = 0 then 7 else w))"

definition date_year :: "date \<Rightarrow> int option" where
  "date_year d = do {
     let y = serial_number d sdiv 365 + 1900;
     yo \<leftarrow> year_offset y;
     Some (if serial_number d \<le> yo then y - 1 else y)
   }"

definition date_day_of_year :: "date \<Rightarrow> int option" where
  "date_day_of_year d = do {
     y \<leftarrow> date_year d;
     yo \<leftarrow> year_offset y;
     Some (serial_number d - yo)
   }"

text \<open>The two bracketing loops of \<open>Date::month\<close>.\<close>

function month_down :: "int \<Rightarrow> int \<Rightarrow> bool \<Rightarrow> int option" where
  "month_down d m leap = do {
     off \<leftarrow> month_offset m leap;
     if d \<le> off then month_down d (m - 1) leap else Some m
   }"
  by pat_completeness auto
termination
  by (relation "measure (\<lambda>(d, m, leap). nat m)")
    (auto simp: month_offset_def Let_def split: if_splits dest!: tbl_get_Some_bounds)

function month_up :: "int \<Rightarrow> int \<Rightarrow> bool \<Rightarrow> int option" where
  "month_up d m leap = do {
     off \<leftarrow> month_offset (m + 1) leap;
     if d > off then month_up d (m + 1) leap else Some m
   }"
  by pat_completeness auto
termination
  by (relation "measure (\<lambda>(d, m, leap). nat (13 - m))")
    (auto simp: month_offset_def Let_def MONTH_OFFSET_def MONTH_LEAP_OFFSET_def
      split: if_splits dest!: tbl_get_Some_bounds)

declare month_down.simps [simp del] month_up.simps [simp del]

definition date_month :: "date \<Rightarrow> month option" where
  "date_month date = do {
     d \<leftarrow> date_day_of_year date;
     let m = d sdiv 30 + 1;
     y \<leftarrow> date_year date;
     leap \<leftarrow> is_leap y;
     m \<leftarrow> month_down d m leap;
     m \<leftarrow> month_up d m leap;
     month_from_ordinal m
   }"

definition date_day_of_month :: "date \<Rightarrow> int option" where
  "date_day_of_month date = do {
     doy \<leftarrow> date_day_of_year date;
     m \<leftarrow> date_month date;
     y \<leftarrow> date_year date;
     leap \<leftarrow> is_leap y;
     off \<leftarrow> month_offset (month_ordinal m) leap;
     Some (doy - off)
   }"

definition date_start_of_month :: "date \<Rightarrow> date option" where
  "date_start_of_month d = do {
     m \<leftarrow> date_month d;
     y \<leftarrow> date_year d;
     date_new 1 m y
   }"

definition date_is_start_of_month :: "date \<Rightarrow> bool option" where
  "date_is_start_of_month d = do {
     dom \<leftarrow> date_day_of_month d;
     Some (dom = 1)
   }"

definition date_end_of_month :: "date \<Rightarrow> date option" where
  "date_end_of_month d = do {
     m \<leftarrow> date_month d;
     y \<leftarrow> date_year d;
     leap \<leftarrow> is_leap y;
     len \<leftarrow> month_length m leap;
     date_new len m y
   }"

definition date_is_end_of_month :: "date \<Rightarrow> bool option" where
  "date_is_end_of_month d = do {
     dom \<leftarrow> date_day_of_month d;
     m \<leftarrow> date_month d;
     y \<leftarrow> date_year d;
     leap \<leftarrow> is_leap y;
     len \<leftarrow> month_length m leap;
     Some (dom = len)
   }"

section \<open>Day arithmetic\<close>

definition date_add :: "date \<Rightarrow> int \<Rightarrow> date option" where
  "date_add d days = do {
     s \<leftarrow> i32 (serial_number d + days);
     date_from_serial s
   }"

definition date_sub :: "date \<Rightarrow> int \<Rightarrow> date option" where
  "date_sub d days = do {
     s \<leftarrow> i32 (serial_number d - days);
     date_from_serial s
   }"

text \<open>\<open>Date - Date\<close>: both serials lie in the supported range (or are 0), so there is no overflow.\<close>

definition date_diff :: "date \<Rightarrow> date \<Rightarrow> int" where
  "date_diff a b = serial_number a - serial_number b"

definition date_next_weekday :: "date \<Rightarrow> weekday \<Rightarrow> date option" where
  "date_next_weekday d w = do {
     wd0 \<leftarrow> date_weekday d;
     let wd = weekday_ordinal wd0;
     let target = weekday_ordinal w;
     date_add d ((if wd > target then 7 else 0) - wd + target)
   }"

definition date_nth_weekday :: "int \<Rightarrow> weekday \<Rightarrow> month \<Rightarrow> int \<Rightarrow> date option" where
  "date_nth_weekday n w m y = do {
     assert_that (n > 0);
     assert_that (n < 6);
     d1 \<leftarrow> date_new 1 m y;
     wd \<leftarrow> date_weekday d1;
     let first = weekday_ordinal wd;
     let target = weekday_ordinal w;
     let skip = n - (if target \<ge> first then 1 else 0);
     date_new ((1 + target + skip * 7) - first) m y
   }"

text \<open>The year-carry loops of the \<open>Months\<close> branch of \<open>Date::advance\<close>.\<close>

function carry_up :: "int \<Rightarrow> int \<Rightarrow> int \<times> int" where
  "carry_up m y = (if m > 12 then carry_up (m - 12) (y + 1) else (m, y))"
  by pat_completeness auto
termination
  by (relation "measure (\<lambda>(m, y). nat m)") auto

function carry_down :: "int \<Rightarrow> int \<Rightarrow> int \<times> int" where
  "carry_down m y = (if m < 1 then carry_down (m + 12) (y - 1) else (m, y))"
  by pat_completeness auto
termination
  by (relation "measure (\<lambda>(m, y). nat (1 - m))") auto

declare carry_up.simps [simp del] carry_down.simps [simp del]

fun date_advance :: "date \<Rightarrow> int \<Rightarrow> time_unit \<Rightarrow> date option" where
  "date_advance date n Days = date_add date n"
| "date_advance date n Weeks = do {
     k \<leftarrow> i32 (7 * n);
     date_add date k
   }"
| "date_advance date n Months = do {
     d \<leftarrow> date_day_of_month date;
     m0 \<leftarrow> date_month date;
     m \<leftarrow> i32 (month_ordinal m0 + n);
     y \<leftarrow> date_year date;
     let (m, y) = carry_up m y;
     let (m, y) = carry_down m y;
     assert_that (1900 \<le> y \<and> y \<le> 2199);
     month \<leftarrow> month_from_ordinal m;
     leap \<leftarrow> is_leap y;
     len \<leftarrow> month_length month leap;
     date_new (if d > len then len else d) month y
   }"
| "date_advance date n Years = do {
     d \<leftarrow> date_day_of_month date;
     m \<leftarrow> date_month date;
     y0 \<leftarrow> date_year date;
     y \<leftarrow> i32 (y0 + n);
     assert_that (1900 \<le> y \<and> y \<le> 2199);
     leap \<leftarrow> is_leap y;
     date_new (if d = 29 \<and> m = February \<and> \<not> leap then 28 else d) m y
   }"
| "date_advance date n _ = None"

end
