(* ===== verification/Gregorian.thy ===== *)
theory Gregorian
  imports Dates
begin

text \<open>
  What \<open>date.rs\<close> computes: its tables are the Gregorian calendar, construction from
  day, month and year and the inspectors are inverse to each other, serial arithmetic is
  the civil successor, weekdays advance with the serial number, and \<open>advance\<close> by months
  and years moves the month index and clips the day to the month.
\<close>

section \<open>The tables are the Gregorian calendar\<close>

definition gregorian_leap :: "int \<Rightarrow> bool" where
  "gregorian_leap y \<longleftrightarrow> 4 dvd y \<and> (100 dvd y \<longrightarrow> 400 dvd y)"

text \<open>Days from 31 December 1899 to the end of the year before \<open>y\<close> (with the fictitious
  29 February 1900 of the serial numbering).\<close>

definition days_before_year :: "int \<Rightarrow> int" where
  "days_before_year y =
     365 * (y - 1900) + (y - 1) div 4 - (y - 1) div 100 + (y - 1) div 400 - 459"

lemma YEAR_OFFSET_eq: "YEAR_OFFSET = 0 # map days_before_year [1901..2200]"
  by code_simp

lemma YEAR_IS_LEAP_eq: "YEAR_IS_LEAP = True # map gregorian_leap [1901..2200]"
  by code_simp

lemma year_offset_closed:
  assumes "1901 \<le> y" "y \<le> 2200"
  shows "year_offset y = Some (days_before_year y)"
  unfolding year_offset_def YEAR_OFFSET_eq
  using tbl_get_Cons_map_upto [OF assms, of 0 days_before_year] by (simp del: upto_rec_numeral)

lemma is_leap_closed:
  assumes "1901 \<le> y" "y \<le> 2200"
  shows "is_leap y = Some (gregorian_leap y)"
  unfolding is_leap_def YEAR_IS_LEAP_eq
  using assms tbl_get_Cons_map_upto [OF assms, of True gregorian_leap] by (simp del: upto_rec_numeral)

lemma year_offset_1900: "year_offset 1900 = Some 0"
  by (simp add: year_offset_def YEAR_OFFSET_def)

lemma is_leap_1900: "is_leap 1900 = Some True"
  by (simp add: is_leap_def YEAR_IS_LEAP_def)

lemma days_before_year_table:
  "all_upto 1901 2200 (\<lambda>y.
     days_before_year (y + 1) = days_before_year y + (if gregorian_leap y then 366 else 365)
     \<and> 365 * (y - 1900) < days_before_year y \<and> days_before_year y < 365 * (y - 1900) + 75)"
  by code_simp

lemma days_before_year_Suc:
  assumes "1901 \<le> y" "y \<le> 2200"
  shows "days_before_year (y + 1) = days_before_year y + (if gregorian_leap y then 366 else 365)"
  using all_uptoD [OF days_before_year_table assms] by blast

lemma days_before_year_bounds:
  assumes "1901 \<le> y" "y \<le> 2200"
  shows "365 * (y - 1900) < days_before_year y" "days_before_year y < 365 * (y - 1900) + 75"
  using all_uptoD [OF days_before_year_table assms] by blast+

lemma days_before_year_mono:
  assumes "1901 \<le> y" "y < z" "z \<le> 2200"
  shows "days_before_year (y + 1) \<le> days_before_year z"
proof (cases "z = y + 1")
  case False
  with assms have "365 * (y + 1 - 1900) + 75 \<le> 365 * (z - 1900)" by simp
  with days_before_year_bounds(1) [of z] days_before_year_bounds(2) [of "y + 1"] assms
  show ?thesis by simp
qed simp

lemma days_before_year_ends:
  "days_before_year 1901 = 366" "days_before_year 2200 = 109574"
  by (simp_all add: days_before_year_def)

section \<open>Months within a year\<close>

fun mlen :: "month \<Rightarrow> bool \<Rightarrow> int" where
  "mlen February leap = (if leap then 29 else 28)"
| "mlen April leap = 30"
| "mlen June leap = 30"
| "mlen September leap = 30"
| "mlen November leap = 30"
| "mlen _ leap = 31"

fun moff :: "month \<Rightarrow> bool \<Rightarrow> int" where
  "moff January leap = 0"
| "moff February leap = 31"
| "moff March leap = (if leap then 60 else 59)"
| "moff April leap = (if leap then 91 else 90)"
| "moff May leap = (if leap then 121 else 120)"
| "moff June leap = (if leap then 152 else 151)"
| "moff July leap = (if leap then 182 else 181)"
| "moff August leap = (if leap then 213 else 212)"
| "moff September leap = (if leap then 244 else 243)"
| "moff October leap = (if leap then 274 else 273)"
| "moff November leap = (if leap then 305 else 304)"
| "moff December leap = (if leap then 335 else 334)"

lemma month_length_eq [simp]: "month_length m leap = Some (mlen m leap)"
  by (cases m) (simp_all add: month_length_def MONTH_LENGTH_def MONTH_LEAP_LENGTH_def)

lemma month_offset_eq [simp]: "month_offset (month_ordinal m) leap = Some (moff m leap)"
  by (cases m) (simp_all add: month_offset_def MONTH_OFFSET_def MONTH_LEAP_OFFSET_def)

lemma mlen_bounds: "28 \<le> mlen m leap" "mlen m leap \<le> 31"
  by (cases m; simp)+

lemma moff_bounds: "0 \<le> moff m leap" "moff m leap + mlen m leap \<le> (if leap then 366 else 365)"
  by (cases m; simp)+

lemma moff_mono: "month_ordinal m < month_ordinal n \<Longrightarrow> moff m leap + mlen m leap \<le> moff n leap"
  by (cases m; cases n) simp_all

definition month_at :: "bool \<Rightarrow> int \<Rightarrow> month option" where
  "month_at leap d = do {
     m \<leftarrow> month_down d (d sdiv 30 + 1) leap;
     m \<leftarrow> month_up d m leap;
     month_from_ordinal m
   }"

definition month_brackets :: "bool \<Rightarrow> int \<Rightarrow> bool" where
  "month_brackets leap d \<longleftrightarrow>
     (case month_at leap d of
        None \<Rightarrow> False
      | Some m \<Rightarrow> moff m leap < d \<and> d \<le> moff m leap + mlen m leap)"

lemma month_brackets_table:
  "all_upto 1 365 (month_brackets False)"
  "all_upto 1 366 (month_brackets True)"
  by code_simp+

lemma month_at_correct:
  assumes "1 \<le> d" "d \<le> (if leap then 366 else 365)"
  shows "\<exists>m. month_at leap d = Some m \<and> moff m leap < d \<and> d \<le> moff m leap + mlen m leap"
proof -
  have "month_brackets leap d"
    using assms all_uptoD [OF month_brackets_table(1), of d] all_uptoD [OF month_brackets_table(2), of d]
    by (cases leap) simp_all
  then show ?thesis by (simp add: month_brackets_def split: option.splits)
qed

section \<open>Valid dates: construction and inspection are inverse\<close>

definition valid_date :: "date \<Rightarrow> bool" where
  "valid_date d \<longleftrightarrow> MINIMUM_SERIAL_NUMBER \<le> serial_number d \<and> serial_number d \<le> MAXIMUM_SERIAL_NUMBER"

lemma valid_date_iff: "valid_date d \<longleftrightarrow> 367 \<le> serial_number d \<and> serial_number d \<le> 109574"
  by (simp add: valid_date_def MINIMUM_SERIAL_NUMBER_def MAXIMUM_SERIAL_NUMBER_def)

lemma date_from_serial_Some [simp]:
  "date_from_serial s = Some d \<longleftrightarrow> d = Date s \<and> valid_date d"
  by (auto simp: date_from_serial_def check_serial_number_def valid_date_def bind_eq_Some_conv)

lemma date_new_Some:
  "date_new dd m y = Some d \<longleftrightarrow>
     1901 \<le> y \<and> y \<le> 2199 \<and> 1 \<le> dd \<and> dd \<le> mlen m (gregorian_leap y)
     \<and> d = Date (dd + moff m (gregorian_leap y) + days_before_year y)"
  by (cases "1901 \<le> y \<and> y \<le> 2199")
    (auto simp: date_new_def bind_eq_Some_conv is_leap_closed year_offset_closed)

lemma date_new_valid:
  assumes "date_new dd m y = Some d"
  shows "valid_date d"
proof -
  from assms have y: "1901 \<le> y" "y \<le> 2199" and dd: "1 \<le> dd" "dd \<le> mlen m (gregorian_leap y)"
    and d: "serial_number d = dd + moff m (gregorian_leap y) + days_before_year y"
    by (auto simp: date_new_Some)
  have "days_before_year 1901 \<le> days_before_year y"
    using days_before_year_mono [of 1901 y] days_before_year_Suc [of 1901] y
    by (cases "y = 1901") (simp_all split: if_splits)
  moreover have "days_before_year (y + 1) \<le> days_before_year 2200"
    using days_before_year_mono [of y 2200] y by simp
  ultimately show ?thesis
    using dd d y moff_bounds [of m "gregorian_leap y"] days_before_year_Suc [of y] days_before_year_ends
    by (simp add: valid_date_iff split: if_splits)
qed

lemma date_year_unique:
  assumes "1901 \<le> y" "y \<le> 2199" "1901 \<le> z" "z \<le> 2199"
    and "days_before_year y < s" "s \<le> days_before_year (y + 1)"
    and "days_before_year z < s" "s \<le> days_before_year (z + 1)"
  shows "y = z"
  using assms days_before_year_mono [of y z] days_before_year_mono [of z y] by linarith

lemma date_year_correct:
  assumes "valid_date d"
  shows "\<exists>y. date_year d = Some y \<and> 1901 \<le> y \<and> y \<le> 2199
           \<and> days_before_year y < serial_number d \<and> serial_number d \<le> days_before_year (y + 1)"
proof -
  define s where "s = serial_number d"
  define k where "k = s div 365"
  have s: "367 \<le> s" "s \<le> 109574" using assms by (simp_all add: s_def valid_date_iff)
  have k: "365 * k \<le> s" "s < 365 * k + 365" by (simp_all add: k_def)
  then have kb: "1 \<le> k" "k \<le> 300" using s by linarith+
  have yo: "year_offset (k + 1900) = Some (days_before_year (k + 1900))"
    using kb by (simp add: year_offset_closed)
  then have eq: "date_year d = Some (if s \<le> days_before_year (k + 1900) then k + 1899 else k + 1900)"
    using s by (simp add: date_year_def s_def [symmetric] sdiv_nonneg k_def [symmetric])
  show ?thesis
  proof (cases "s \<le> days_before_year (k + 1900)")
    case True
    then have "k \<noteq> 1" using s days_before_year_ends(1) by auto
    then have "days_before_year (k + 1899) < s"
      using k kb days_before_year_bounds(2) [of "k + 1899"] by simp
    with True eq kb \<open>k \<noteq> 1\<close> show ?thesis by (simp add: s_def add.commute)
  next
    case False
    then have "k \<noteq> 300" using s days_before_year_ends(2) by auto
    then have "s \<le> days_before_year (k + 1901)"
      using k kb days_before_year_bounds(1) [of "k + 1901"] by simp
    with False eq kb \<open>k \<noteq> 300\<close> show ?thesis by (simp add: s_def add.commute)
  qed
qed


lemma date_inspect:
  assumes "valid_date d"
  obtains dd m y where "date_year d = Some y" "date_month d = Some m"
    "date_day_of_month d = Some dd" "date_day_of_year d = Some (moff m (gregorian_leap y) + dd)"
    "date_new dd m y = Some d"
proof -
  obtain y where y: "date_year d = Some y" "1901 \<le> y" "y \<le> 2199"
    and lo: "days_before_year y < serial_number d" and hi: "serial_number d \<le> days_before_year (y + 1)"
    using date_year_correct [OF assms] by blast
  define doy where "doy = serial_number d - days_before_year y"
  have doy: "date_day_of_year d = Some doy"
    using y by (simp add: date_day_of_year_def year_offset_closed doy_def)
  have "1 \<le> doy" "doy \<le> (if gregorian_leap y then 366 else 365)"
    using lo hi y days_before_year_Suc [of y] by (simp_all add: doy_def split: if_splits)
  then obtain m where m: "month_at (gregorian_leap y) doy = Some m"
    "moff m (gregorian_leap y) < doy" "doy \<le> moff m (gregorian_leap y) + mlen m (gregorian_leap y)"
    using month_at_correct by blast
  have month: "date_month d = Some m"
    using m(1) y doy by (simp add: date_month_def month_at_def is_leap_closed)
  define dd where "dd = doy - moff m (gregorian_leap y)"
  have "date_day_of_month d = Some dd"
    using y doy month by (simp add: date_day_of_month_def is_leap_closed dd_def)
  moreover have "date_new dd m y = Some d"
    using m y by (cases d) (simp add: date_new_Some dd_def doy_def)
  ultimately show ?thesis
    using that y(1) month doy by (simp add: dd_def)
qed

lemma date_new_inject:
  assumes "date_new dd m y = Some d" and "date_new dd' m' y' = Some d"
  shows "dd = dd' \<and> m = m' \<and> y = y'"
proof -
  let ?L = "gregorian_leap y" and ?L' = "gregorian_leap y'"
  from assms have b: "1901 \<le> y" "y \<le> 2199" "1 \<le> dd" "dd \<le> mlen m ?L"
      "serial_number d = dd + moff m ?L + days_before_year y"
    and b': "1901 \<le> y'" "y' \<le> 2199" "1 \<le> dd'" "dd' \<le> mlen m' ?L'"
      "serial_number d = dd' + moff m' ?L' + days_before_year y'"
    by (auto simp: date_new_Some)
  have y: "y = y'"
    using b b' moff_bounds [of m ?L] moff_bounds [of m' ?L']
      days_before_year_Suc [of y] days_before_year_Suc [of y']
    by (intro date_year_unique [where s = "serial_number d"]) (simp_all split: if_splits)
  moreover have "month_ordinal m = month_ordinal m'"
    using b b' y moff_mono [of m m' ?L] moff_mono [of m' m ?L] by force
  ultimately show ?thesis using b b' by simp
qed

text \<open>The civil components of a date, read by the inspectors.\<close>

definition date_civil :: "date \<Rightarrow> (int \<times> month \<times> int) option" where
  "date_civil d = do {
     dd \<leftarrow> date_day_of_month d;
     m \<leftarrow> date_month d;
     y \<leftarrow> date_year d;
     Some (dd, m, y)
   }"

lemma date_civil_Some:
  "date_civil d = Some (dd, m, y) \<longleftrightarrow>
     date_day_of_month d = Some dd \<and> date_month d = Some m \<and> date_year d = Some y"
  by (auto simp: date_civil_def bind_eq_Some_conv)

lemma date_new_inspect:
  assumes "date_new dd m y = Some d"
  shows "date_year d = Some y" "date_month d = Some m" "date_day_of_month d = Some dd"
    "date_day_of_year d = Some (moff m (gregorian_leap y) + dd)"
proof -
  obtain dd' m' y' where i: "date_year d = Some y'" "date_month d = Some m'"
    "date_day_of_month d = Some dd'" "date_day_of_year d = Some (moff m' (gregorian_leap y') + dd')"
    and n: "date_new dd' m' y' = Some d"
    using date_inspect [OF date_new_valid [OF assms]] by blast
  from date_new_inject [OF assms n] i
  show "date_year d = Some y" "date_month d = Some m" "date_day_of_month d = Some dd"
    "date_day_of_year d = Some (moff m (gregorian_leap y) + dd)" by simp_all
qed

text \<open>The inspectors and the constructor are inverse to each other on the supported range.\<close>

lemma date_civil_roundtrip:
  "valid_date d \<and> date_civil d = Some (dd, m, y) \<longleftrightarrow> date_new dd m y = Some d"
proof
  assume *: "valid_date d \<and> date_civil d = Some (dd, m, y)"
  then obtain dd' m' y' where "date_civil d = Some (dd', m', y')" "date_new dd' m' y' = Some d"
    by (metis date_civil_Some date_inspect)
  with * show "date_new dd m y = Some d" by simp
next
  assume *: "date_new dd m y = Some d"
  then show "valid_date d \<and> date_civil d = Some (dd, m, y)"
    using date_new_valid date_new_inspect by (simp add: date_civil_Some)
qed

section \<open>The civil calendar\<close>

text \<open>The day after a civil date, by the rules of the Gregorian calendar.\<close>

definition next_month :: "month \<Rightarrow> month" where
  "next_month m = the (month_from_ordinal (month_ordinal m mod 12 + 1))"

fun next_day :: "int \<times> month \<times> int \<Rightarrow> int \<times> month \<times> int" where
  "next_day (dd, m, y) =
     (if dd < mlen m (gregorian_leap y) then (dd + 1, m, y)
      else if m = December then (1, January, y + 1)
      else (1, next_month m, y))"

lemma moff_next_month:
  "m \<noteq> December \<Longrightarrow> moff (next_month m) leap = moff m leap + mlen m leap"
  by (cases m) (simp_all add: next_month_def month_from_ordinal_def)

lemma moff_December: "moff December leap + 31 = (if leap then 366 else 365)"
  by simp

lemma date_add_Some:
  "valid_date d \<Longrightarrow>
     date_add d n = Some d' \<longleftrightarrow> d' = Date (serial_number d + n) \<and> valid_date d'"
  by (auto simp: date_add_def bind_eq_Some_conv i32_range_def valid_date_iff)

lemma date_sub_Some:
  "valid_date d \<Longrightarrow>
     date_sub d n = Some d' \<longleftrightarrow> d' = Date (serial_number d - n) \<and> valid_date d'"
  by (auto simp: date_sub_def bind_eq_Some_conv i32_range_def valid_date_iff)

text \<open>Adding one day to the serial number is the civil successor.\<close>

lemma date_add_one_civil:
  assumes "date_new dd m y = Some d" "d < date_max" "next_day (dd, m, y) = (dd', m', y')"
  shows "\<exists>d'. date_add d 1 = Some d' \<and> date_new dd' m' y' = Some d'"
proof -
  have v: "valid_date d" using assms(1) by (rule date_new_valid)
  then have v': "valid_date (Date (serial_number d + 1))"
    using assms(2) by (cases d) (simp add: valid_date_iff date_max_def MAXIMUM_SERIAL_NUMBER_def)
  have y: "1901 \<le> y" "y \<le> 2199" and s: "serial_number d = dd + moff m (gregorian_leap y) + days_before_year y"
    and dd: "1 \<le> dd" "dd \<le> mlen m (gregorian_leap y)"
    using assms(1) by (auto simp: date_new_Some)
  have last: "y < 2199" if "m = December" "dd = 31"
    using that assms(2) s y days_before_year_Suc [of y] days_before_year_ends
    by (cases "y = 2199") (auto simp: date_max_def less_date_def MAXIMUM_SERIAL_NUMBER_def split: if_splits)
  have "date_new dd' m' y' = Some (Date (serial_number d + 1))"
  proof (cases "dd < mlen m (gregorian_leap y)")
    case True
    with assms(3) y s dd show ?thesis by (simp add: date_new_Some)
  next
    case False
    with dd have e: "dd = mlen m (gregorian_leap y)" by simp
    show ?thesis
    proof (cases "m = December")
      case True
      with assms(3) False e s y last days_before_year_Suc [of y] show ?thesis
        by (simp add: date_new_Some split: if_splits)
    next
      case False2: False
      have "moff (next_month m) (gregorian_leap y) = moff m (gregorian_leap y) + mlen m (gregorian_leap y)"
        using False2 by (rule moff_next_month)
      with assms(3) False False2 e s y mlen_bounds [of "next_month m" "gregorian_leap y"] show ?thesis
        by (auto simp: date_new_Some)
    qed
  qed
  with v v' show ?thesis by (auto simp: date_add_Some)
qed

section \<open>Weekdays\<close>

definition weekday_of :: "int \<Rightarrow> weekday" where
  "weekday_of s = the (weekday_from_ordinal ((s - 1) mod 7 + 1))"

lemma weekday_ordinal_of: "weekday_ordinal (weekday_of s) = (s - 1) mod 7 + 1"
proof -
  have "1 \<le> (s - 1) mod 7 + 1" "(s - 1) mod 7 + 1 \<le> 7" by (simp_all add: add.commute)
  then obtain w where "weekday_from_ordinal ((s - 1) mod 7 + 1) = Some w"
      "weekday_ordinal w = (s - 1) mod 7 + 1"
    using weekday_from_ordinal_total by blast
  then show ?thesis by (simp add: weekday_of_def)
qed

lemma date_weekday_eq:
  assumes "valid_date d"
  shows "date_weekday d = Some (weekday_of (serial_number d))"
proof -
  have "(if serial_number d smod 7 = 0 then 7 else serial_number d smod 7)
        = (serial_number d - 1) mod 7 + 1"
  proof -
    have s: "serial_number d smod 7 = serial_number d mod 7"
      using assms by (simp add: valid_date_iff smod_nonneg)
    show ?thesis
    proof (cases "serial_number d mod 7 = 0")
      case True
      then have "(serial_number d - 1) mod 7 = 6"
        by (intro mod_eqI [where q = "serial_number d div 7 - 1"]) (auto simp: dvd_def mod_0_imp_dvd)
      with True s show ?thesis by simp
    next
      case False
      then have "0 < serial_number d mod 7" by (simp add: order_less_le)
      then have "(serial_number d - 1) mod 7 = serial_number d mod 7 - 1"
        by (intro mod_eqI [where q = "serial_number d div 7"]) auto
      with False s show ?thesis by simp
    qed
  qed
  then show ?thesis
    using weekday_ordinal_of by (simp add: date_weekday_def Let_def weekday_from_ordinal_Some)
qed

lemma weekday_of_eq_iff: "weekday_of s = weekday_of t \<longleftrightarrow> s mod 7 = t mod 7"
proof -
  have "weekday_of s = weekday_of t \<longleftrightarrow> (s - 1) mod 7 = (t - 1) mod 7"
    using weekday_ordinal_of by (metis add_right_cancel weekday_ordinal_inject)
  also have "\<dots> \<longleftrightarrow> s mod 7 = t mod 7" by (simp add: mod_eq_dvd_iff)
  finally show ?thesis .
qed

text \<open>\<open>next_weekday\<close> is the first date on or after \<open>d\<close> with the weekday asked for.\<close>

definition weekday_gap :: "weekday \<Rightarrow> weekday \<Rightarrow> int" where
  "weekday_gap v w =
     (if weekday_ordinal v > weekday_ordinal w then 7 else 0) - weekday_ordinal v + weekday_ordinal w"

lemma weekday_gap_range: "0 \<le> weekday_gap v w" "weekday_gap v w < 7"
  by (cases v; cases w; simp add: weekday_gap_def)+

lemma weekday_gap_hits: "weekday_of (s + weekday_gap (weekday_of s) w) = w"
proof -
  let ?t = "s + weekday_gap (weekday_of s) w" and ?q = "(s - 1) div 7"
  let ?j = "if weekday_ordinal (weekday_of s) > weekday_ordinal w then ?q + 1 else ?q"
  have s: "s - 1 = 7 * ?q + (weekday_ordinal (weekday_of s) - 1)" by (simp add: weekday_ordinal_of)
  have "(?t - 1) mod 7 = weekday_ordinal w - 1"
    using s weekday_ordinal_range [of w]
    by (intro mod_eqI [where q = ?j]) (auto simp: weekday_gap_def)
  then have "weekday_ordinal (weekday_of ?t) = weekday_ordinal w" by (simp add: weekday_ordinal_of)
  then show ?thesis by simp
qed

lemma date_next_weekday_eq:
  "valid_date d \<Longrightarrow>
     date_next_weekday d w = date_add d (weekday_gap (weekday_of (serial_number d)) w)"
  by (simp add: date_next_weekday_def date_weekday_eq weekday_gap_def)

lemma date_next_weekday_least:
  assumes "valid_date d" "date_next_weekday d w = Some d'"
  shows "date_weekday d' = Some w \<and> d \<le> d'
    \<and> (\<forall>e. valid_date e \<and> d \<le> e \<and> date_weekday e = Some w \<longrightarrow> d' \<le> e)"
proof -
  let ?s = "serial_number d"
  define g where "g = weekday_gap (weekday_of ?s) w"
  have d': "d' = Date (?s + g)" "valid_date d'"
    using assms by (auto simp: date_next_weekday_eq date_add_Some g_def)
  have hit: "weekday_of (?s + g) = w" by (simp add: g_def weekday_gap_hits)
  have g: "0 \<le> g" "g < 7" by (simp_all add: g_def weekday_gap_range)
  have "d' \<le> e" if "valid_date e" "d \<le> e" "date_weekday e = Some w" for e
  proof -
    have "weekday_of (serial_number e) = weekday_of (?s + g)"
      using that hit by (simp add: date_weekday_eq)
    then have "(serial_number e) mod 7 = (?s + g) mod 7" by (simp add: weekday_of_eq_iff)
    moreover have "?s \<le> serial_number e" using that by (simp add: less_eq_date_def)
    ultimately have "?s + g \<le> serial_number e"
      using g mod_dvd_near [of "serial_number e" 7 "?s + g"] by (cases "serial_number e < ?s + g") auto
    then show ?thesis by (simp add: d' less_eq_date_def)
  qed
  moreover have "date_weekday d' = Some w" using d' hit by (simp add: date_weekday_eq)
  moreover have "d \<le> d'" using d' g by (simp add: less_eq_date_def)
  ultimately show ?thesis by blast
qed

text \<open>\<open>nth_weekday\<close>: the \<open>n\<close>-th day with weekday \<open>w\<close> of a month.\<close>

lemma date_new_shift:
  assumes "date_new 1 m y = Some d1" "1 \<le> k" "k \<le> mlen m (gregorian_leap y)"
  shows "date_new k m y = Some (Date (serial_number d1 + (k - 1)))"
  using assms by (auto simp: date_new_Some)

lemma date_new_Some_day:
  "date_new k m y = Some d \<Longrightarrow>
     \<exists>d1. date_new 1 m y = Some d1 \<and> serial_number d = serial_number d1 + (k - 1)"
  using mlen_bounds [of m "gregorian_leap y"] by (auto simp: date_new_Some)

lemma date_nth_weekday_iff:
  assumes "1 \<le> n" "n \<le> 5"
  shows "date_nth_weekday n w m y = Some d \<longleftrightarrow>
     (\<exists>k. date_new k m y = Some d \<and> date_weekday d = Some w \<and> (k - 1) div 7 = n - 1)"
proof (cases "date_new 1 m y")
  case None
  then show ?thesis
    using assms date_new_Some_day by (fastforce simp: date_nth_weekday_def)
next
  case (Some d1)
  let ?s = "serial_number d1"
  let ?f = "weekday_ordinal (weekday_of ?s)" and ?t = "weekday_ordinal w"
  define k where "k = 1 + ?t + (n - (if ?t \<ge> ?f then 1 else 0)) * 7 - ?f"
  have v1: "valid_date d1" using Some by (rule date_new_valid)
  have eq: "date_nth_weekday n w m y = date_new k m y"
    using assms Some v1 by (simp add: date_nth_weekday_def date_weekday_eq k_def Let_def)
  have kdiv: "(k - 1) div 7 = n - 1"
    using weekday_ordinal_range [of w] weekday_ordinal_range [of "weekday_of ?s"] assms
    by (intro div_eqI [where r = "?t - ?f + (if ?t \<ge> ?f then 0 else 7)"]) (auto simp: k_def)
  have kw: "weekday_of (?s + (k - 1)) = w"
  proof -
    have "?s - 1 = 7 * ((?s - 1) div 7) + (?f - 1)" by (simp add: weekday_ordinal_of)
    then have "(?s + (k - 1) - 1) mod 7 = ?t - 1"
      using weekday_ordinal_range [of w]
      by (intro mod_eqI [where q = "(?s - 1) div 7 + (n - (if ?t \<ge> ?f then 1 else 0))"])
        (auto simp: k_def algebra_simps)
    then have "weekday_ordinal (weekday_of (?s + (k - 1))) = ?t" by (simp add: weekday_ordinal_of)
    then show ?thesis by simp
  qed
  have kuniq: "j = k" if "weekday_of (?s + (j - 1)) = w" "(j - 1) div 7 = n - 1" for j
  proof -
    have "(?s + (j - 1)) mod 7 = (?s + (k - 1)) mod 7"
      using that kw by (simp flip: weekday_of_eq_iff)
    moreover have "j - 1 = 7 * (n - 1) + (j - 1) mod 7" "k - 1 = 7 * (n - 1) + (k - 1) mod 7"
      using that(2) kdiv div_mult_mod_eq [of "j - 1" 7] div_mult_mod_eq [of "k - 1" 7] by simp_all
    ultimately show ?thesis
      using mod_dvd_near [of "?s + (j - 1)" 7 "?s + (k - 1)"]
        pos_mod_bound [of 7 "j - 1"] pos_mod_bound [of 7 "k - 1"]
        pos_mod_sign [of 7 "j - 1"] pos_mod_sign [of 7 "k - 1"]
      by linarith
  qed
  show ?thesis
  proof
    assume *: "date_nth_weekday n w m y = Some d"
    then have d: "date_new k m y = Some d" by (simp add: eq)
    with Some date_new_Some_day [OF d] have "serial_number d = ?s + (k - 1)" by auto
    with d kw have "date_weekday d = Some w" by (simp add: date_weekday_eq date_new_valid)
    with d kdiv show "\<exists>k. date_new k m y = Some d \<and> date_weekday d = Some w \<and> (k - 1) div 7 = n - 1"
      by blast
  next
    assume "\<exists>j. date_new j m y = Some d \<and> date_weekday d = Some w \<and> (j - 1) div 7 = n - 1"
    then obtain j where j: "date_new j m y = Some d" "date_weekday d = Some w" "(j - 1) div 7 = n - 1"
      by blast
    with Some date_new_Some_day [OF j(1)] have "serial_number d = ?s + (j - 1)" by auto
    with j have "weekday_of (?s + (j - 1)) = w" by (simp add: date_weekday_eq date_new_valid)
    with j kuniq have "j = k" by blast
    with j eq show "date_nth_weekday n w m y = Some d" by simp
  qed
qed

section \<open>Month and year arithmetic\<close>

lemma carry_up_eq: "1 \<le> m \<Longrightarrow> carry_up m y = ((m - 1) mod 12 + 1, y + (m - 1) div 12)"
proof (induction m y rule: carry_up.induct)
  case (1 m y)
  show ?case
  proof (cases "m > 12")
    case True
    have "(m - 12 - 1) mod 12 = (m - 1) mod 12" "(m - 12 - 1) div 12 = (m - 1) div 12 - 1"
      using mod_mult_self2 [of "m - 1" 12 "- 1"] div_mult_self2 [of 12 "m - 1" "- 1"] by simp_all
    with True 1 show ?thesis by (simp add: carry_up.simps [of m y])
  next
    case False
    with 1 show ?thesis by (simp add: carry_up.simps [of m y])
  qed
qed

lemma carry_down_eq: "m \<le> 12 \<Longrightarrow> carry_down m y = ((m - 1) mod 12 + 1, y + (m - 1) div 12)"
proof (induction m y rule: carry_down.induct)
  case (1 m y)
  show ?case
  proof (cases "m < 1")
    case True
    have "(m + 12 - 1) mod 12 = (m - 1) mod 12" "(m + 12 - 1) div 12 = (m - 1) div 12 + 1"
      using mod_mult_self2 [of "m - 1" 12 1] div_mult_self2 [of 12 "m - 1" 1] by simp_all
    with True 1 show ?thesis by (simp add: carry_down.simps [of m y])
  next
    case False
    with 1 show ?thesis by (simp add: carry_down.simps [of m y])
  qed
qed

lemma carry_both:
  "(case carry_up m y of (m', y') \<Rightarrow> carry_down m' y') = ((m - 1) mod 12 + 1, y + (m - 1) div 12)"
proof (cases "1 \<le> m")
  case True
  have "(m - 1) mod 12 + 1 \<le> 12" by (simp add: add.commute)
  then show ?thesis using True by (simp add: carry_up_eq carry_down_eq)
next
  case False
  then have "carry_up m y = (m, y)" by (simp add: carry_up.simps)
  with False show ?thesis by (simp add: carry_down_eq)
qed

text \<open>The month with index \<open>t\<close>, counting months from January of year 0.\<close>

definition month_index :: "month \<Rightarrow> int \<Rightarrow> int" where
  "month_index m y = 12 * y + (month_ordinal m - 1)"

definition index_month :: "int \<Rightarrow> month" where
  "index_month t = the (month_from_ordinal (t mod 12 + 1))"

lemma index_month_ordinal: "month_ordinal (index_month t) = t mod 12 + 1"
proof -
  have "1 \<le> t mod 12 + 1" "t mod 12 + 1 \<le> 12" by (simp_all add: add.commute)
  then obtain m where "month_from_ordinal (t mod 12 + 1) = Some m" "month_ordinal m = t mod 12 + 1"
    using month_from_ordinal_total by blast
  then show ?thesis by (simp add: index_month_def)
qed

lemma index_month_from: "month_from_ordinal (t mod 12 + 1) = Some (index_month t)"
  by (metis index_month_ordinal month_from_ordinal_ordinal)

lemma date_new_outside: "\<not> (1901 \<le> y \<and> y \<le> 2199) \<Longrightarrow> date_new dd m y = None"
  by (auto simp: date_new_def)

definition clip_day :: "int \<Rightarrow> month \<Rightarrow> int \<Rightarrow> int" where
  "clip_day dd m y = min dd (mlen m (gregorian_leap y))"

lemma date_advance_months:
  assumes "date_new dd m y = Some d" "i32_range (month_ordinal m + n)"
  shows "date_advance d n Months =
     (let t = month_index m y + n; y' = t div 12; m' = index_month t
      in if 1901 \<le> y' \<and> y' \<le> 2199 then date_new (clip_day dd m' y') m' y' else None)"
proof -
  define t where "t = month_index m y + n"
  have idx: "(month_ordinal m + n - 1) mod 12 = t mod 12" "y + (month_ordinal m + n - 1) div 12 = t div 12"
    using mod_mult_self2 [of "month_ordinal m + n - 1" 12 y] div_mult_self2 [of 12 "month_ordinal m + n - 1" y]
    by (simp_all add: t_def month_index_def algebra_simps)
  note i = date_new_inspect [OF assms(1)]
  have eq: "date_advance d n Months =
     do { assert_that (1900 \<le> t div 12 \<and> t div 12 \<le> 2199);
          leap \<leftarrow> is_leap (t div 12);
          date_new (if dd > mlen (index_month t) leap then mlen (index_month t) leap else dd)
            (index_month t) (t div 12) }"
    using i assms(2) carry_both [of "month_ordinal m + n" y]
    by (cases "carry_up (month_ordinal m + n) y")
      (simp add: i32_in_range idx index_month_from case_prod_beta split: prod.splits)
  show ?thesis
  proof (cases "1901 \<le> t div 12 \<and> t div 12 \<le> 2199")
    case True
    then show ?thesis
      using eq by (simp add: is_leap_closed clip_day_def min_def t_def [symmetric] Let_def)
  next
    case False
    then have "date_advance d n Months = None"
      unfolding eq by (cases "t div 12 = 1900") (auto simp: date_new_outside is_leap_1900)
    with False show ?thesis by (auto simp: t_def [symmetric] Let_def simp del: date_advance.simps)
  qed
qed

lemma date_advance_years:
  assumes "date_new dd m y = Some d" "i32_range (y + n)"
  shows "date_advance d n Years =
     (if 1901 \<le> y + n \<and> y + n \<le> 2199 then date_new (clip_day dd m (y + n)) m (y + n) else None)"
proof (cases "1901 \<le> y + n \<and> y + n \<le> 2199")
  case True
  have "1 \<le> dd" "dd \<le> mlen m (gregorian_leap y)" using assms(1) by (auto simp: date_new_Some)
  then have "(if dd = 29 \<and> m = February \<and> \<not> gregorian_leap (y + n) then 28 else dd) = clip_day dd m (y + n)"
    by (cases m) (auto simp: clip_day_def min_def split: if_splits)
  with True date_new_inspect [OF assms(1)] assms(2) show ?thesis
    by (simp add: is_leap_closed i32_in_range)
next
  case False
  with date_new_inspect [OF assms(1)] assms(2) show ?thesis
    by (auto simp: i32_in_range bind_eq_None_conv date_new_def)
qed

text \<open>A year is twelve months.\<close>

lemma date_advance_years_months:
  assumes "date_new dd m y = Some d" "\<bar>n\<bar> \<le> 1000"
  shows "date_advance d n Years = date_advance d (12 * n) Months"
proof -
  have y: "1901 \<le> y" "y \<le> 2199" using assms(1) by (auto simp: date_new_Some)
  have r: "i32_range (y + n)" "i32_range (month_ordinal m + 12 * n)"
    using assms(2) y month_ordinal_range [of m] by (auto simp: i32_range_def)
  have "(month_index m y + 12 * n) div 12 = y + n"
    using month_ordinal_range [of m] by (simp add: month_index_def)
  moreover have "(month_index m y + 12 * n) mod 12 + 1 = month_ordinal m"
    using month_ordinal_range [of m] by (simp add: month_index_def)
  then have "index_month (month_index m y + 12 * n) = m"
    by (simp add: index_month_def)
  ultimately show ?thesis
    unfolding date_advance_years [OF assms(1) r(1)] date_advance_months [OF assms(1) r(2)]
    by (simp add: Let_def add.commute)
qed

section \<open>Order\<close>

lemma valid_date_new_ex:
  assumes "valid_date d"
  shows "\<exists>dd m y. date_new dd m y = Some d"
  using date_inspect [OF assms] by metis

lemma date_month_index_less:
  assumes "date_new dd m y = Some d" "date_new dd' m' y' = Some d'"
    and "month_index m y < month_index m' y'"
  shows "d < d'"
proof -
  let ?L = "gregorian_leap y" and ?L' = "gregorian_leap y'"
  from assms(1,2) have b: "1901 \<le> y" "y \<le> 2199" "dd \<le> mlen m ?L"
      "serial_number d = dd + moff m ?L + days_before_year y"
    and b': "1901 \<le> y'" "y' \<le> 2199" "1 \<le> dd'"
      "serial_number d' = dd' + moff m' ?L' + days_before_year y'"
    by (auto simp: date_new_Some)
  consider "y < y'" | "y = y'" "month_ordinal m < month_ordinal m'"
    using assms(3) month_ordinal_range [of m] month_ordinal_range [of m'] by (force simp: month_index_def)
  then have "serial_number d < serial_number d'"
  proof cases
    case 1
    then show ?thesis
      using b b' days_before_year_mono [of y y'] days_before_year_Suc [of y]
        moff_bounds [of m ?L] moff_bounds [of m' ?L'] by (simp split: if_splits)
  next
    case 2
    then show ?thesis using b b' moff_mono [of m m' ?L] by simp
  qed
  then show ?thesis by (simp add: less_date_def)
qed

lemma date_same_month_less:
  assumes "date_new dd m y = Some d" "date_new dd' m y = Some d'"
  shows "d < d' \<longleftrightarrow> dd < dd'"
  using assms by (auto simp: date_new_Some)

lemma date_same_month_le:
  assumes "date_new dd m y = Some d" "date_new dd' m y = Some d'"
  shows "d \<le> d' \<longleftrightarrow> dd \<le> dd'"
  using assms by (auto simp: date_new_Some)

text \<open>Comparing serial numbers compares year, month and day in that order.\<close>

lemma date_less_civil:
  assumes "date_new dd m y = Some d" "date_new dd' m' y' = Some d'"
  shows "d < d' \<longleftrightarrow> y < y' \<or> (y = y' \<and> (m < m' \<or> (m = m' \<and> dd < dd')))"
proof (cases "month_index m y = month_index m' y'")
  case True
  then have eq: "12 * y + month_ordinal m = 12 * y' + month_ordinal m'"
    by (simp add: month_index_def)
  then have "y = y'"
    using month_ordinal_range [of m] month_ordinal_range [of m'] by presburger
  moreover from this eq have "m = m'" by simp
  ultimately have "m = m'" "y = y'" by simp_all
  with assms date_same_month_less show ?thesis by auto
next
  case False
  then have "d < d' \<longleftrightarrow> month_index m y < month_index m' y'"
    using date_month_index_less [OF assms] date_month_index_less [OF assms(2,1)] by (meson linorder_neqE not_less_iff_gr_or_eq)
  with False show ?thesis
    using month_ordinal_range [of m] month_ordinal_range [of m']
    by (auto simp: month_index_def less_month_def)
qed

section \<open>Months' ends\<close>

lemma month_end_exists:
  assumes "date_new dd m y = Some d"
  obtains e where "date_new (mlen m (gregorian_leap y)) m y = Some e" "d \<le> e"
  using assms mlen_bounds [of m "gregorian_leap y"] by (auto simp: date_new_Some)

lemma date_end_of_month_eq:
  assumes "date_new dd m y = Some d"
  shows "date_end_of_month d = date_new (mlen m (gregorian_leap y)) m y"
proof -
  have "1901 \<le> y" "y \<le> 2199" using assms by (auto simp: date_new_Some)
  with date_new_inspect [OF assms] show ?thesis
    by (simp add: date_end_of_month_def is_leap_closed)
qed

lemma date_is_end_of_month_eq:
  assumes "date_new dd m y = Some d"
  shows "date_is_end_of_month d = Some (dd = mlen m (gregorian_leap y))"
proof -
  have "1901 \<le> y" "y \<le> 2199" using assms by (auto simp: date_new_Some)
  with date_new_inspect [OF assms] show ?thesis
    by (simp add: date_is_end_of_month_def is_leap_closed)
qed

lemma date_start_of_month_eq:
  assumes "date_new dd m y = Some d"
  shows "date_start_of_month d = date_new 1 m y"
  using date_new_inspect [OF assms] by (simp add: date_start_of_month_def)

section \<open>Totality on valid dates\<close>

lemma date_year_total [some_intros]: "valid_date d \<Longrightarrow> \<exists>y. date_year d = Some y"
  and date_month_total [some_intros]: "valid_date d \<Longrightarrow> \<exists>m. date_month d = Some m"
  and date_day_of_month_total [some_intros]: "valid_date d \<Longrightarrow> \<exists>dd. date_day_of_month d = Some dd"
  and date_day_of_year_total [some_intros]: "valid_date d \<Longrightarrow> \<exists>dd. date_day_of_year d = Some dd"
  and date_weekday_total [some_intros]: "valid_date d \<Longrightarrow> \<exists>w. date_weekday d = Some w"
  by (blast elim: date_inspect, blast elim: date_inspect, blast elim: date_inspect,
      blast elim: date_inspect, simp add: date_weekday_eq)

lemma date_year_range: "valid_date d \<Longrightarrow> date_year d = Some y \<Longrightarrow> 1901 \<le> y \<and> y \<le> 2199"
  using date_year_correct by fastforce

section \<open>What adding to a date can return\<close>

lemma date_add_valid [valid_intros]: "date_add d n = Some d' \<Longrightarrow> valid_date d'"
  by (auto simp: date_add_def bind_eq_Some_conv)

lemma date_sub_valid [valid_intros]: "date_sub d n = Some d' \<Longrightarrow> valid_date d'"
  by (auto simp: date_sub_def bind_eq_Some_conv)

lemma date_add_serial: "date_add d n = Some d' \<Longrightarrow> serial_number d' = serial_number d + n"
  by (auto simp: date_add_def bind_eq_Some_conv)

lemma date_sub_serial: "date_sub d n = Some d' \<Longrightarrow> serial_number d' = serial_number d - n"
  by (auto simp: date_sub_def bind_eq_Some_conv)

lemma date_new_valid' [valid_intros]: "date_new dd m y = Some d \<Longrightarrow> valid_date d"
  by (rule date_new_valid)

lemma date_advance_valid [valid_intros]: "date_advance d n u = Some d' \<Longrightarrow> valid_date d'"
  by (cases u)
    (auto simp: bind_eq_Some_conv case_prod_beta intro: valid_intros)

text \<open>Adding and subtracting days are inverse where neither leaves the range.\<close>

lemma date_add_sub_inverse:
  "valid_date d \<Longrightarrow> date_add d n = Some d' \<Longrightarrow> date_sub d' n = Some d \<and> date_add d' (- n) = Some d"
  by (cases d) (auto simp: date_add_Some date_sub_Some)

lemma date_diff_add:
  "valid_date a \<Longrightarrow> valid_date b \<Longrightarrow> date_add a (date_diff b a) = Some b"
  by (cases b) (simp add: date_add_Some date_diff_def)

end
