(* ===== verification/Date_Periods.thy ===== *)
theory Date_Periods
  imports Periods Gregorian
begin

text \<open>
  \<open>Date + Period\<close> and \<open>Date - Period\<close> (date.rs) and what the comparison of periods says of
  them: a span of months or years covers the number of days \<open>days_min_max\<close> gives it, and a
  decided comparison of two periods orders the dates they lead to, from any date.
\<close>

section \<open>Dates plus periods\<close>

definition date_plus :: "date \<Rightarrow> period \<Rightarrow> date option" where
  "date_plus d p = date_advance d (period_length p) (period_units p)"

definition date_minus :: "date \<Rightarrow> period \<Rightarrow> date option" where
  "date_minus d p = do {
     n \<leftarrow> i32 (- period_length p);
     date_advance d n (period_units p)
   }"

section \<open>How many days a number of months or years is\<close>

text \<open>The serial number of the day before the month with index \<open>t\<close> starts.\<close>

definition month_start :: "int \<Rightarrow> int" where
  "month_start t = moff (index_month t) (gregorian_leap (t div 12)) + days_before_year (t div 12)"

definition month_days :: "int \<Rightarrow> int" where
  "month_days t = mlen (index_month t) (gregorian_leap (t div 12))"

abbreviation (input) first_month :: int where "first_month \<equiv> 22812"
abbreviation (input) last_month :: int where "last_month \<equiv> 26399"

lemma month_index_inverse [simp]:
  "month_index m y div 12 = y" "index_month (month_index m y) = m"
proof -
  show "month_index m y div 12 = y"
    using month_ordinal_range [of m] by (simp add: month_index_def)
  have "month_index m y mod 12 + 1 = month_ordinal m"
    using month_ordinal_range [of m] by (simp add: month_index_def)
  then show "index_month (month_index m y) = m" by (simp add: index_month_def)
qed

lemma index_month_cases:
  "index_month t = December \<longleftrightarrow> t mod 12 = 11"
  "index_month t = February \<longleftrightarrow> t mod 12 = 1"
  "index_month t = January \<longleftrightarrow> t mod 12 = 0"
  using index_month_ordinal [of t] by (cases "index_month t"; simp)+

lemma next_month_ordinal: "month_ordinal (next_month m) = month_ordinal m mod 12 + 1"
  by (cases m) (simp_all add: next_month_def month_from_ordinal_def)

lemma index_month_Suc: "index_month (t + 1) = next_month (index_month t)"
proof -
  have "month_ordinal (index_month (t + 1)) = month_ordinal (next_month (index_month t))"
    unfolding next_month_ordinal index_month_ordinal by (simp add: mod_simps)
  then show ?thesis by simp
qed

lemma next_month_December: "next_month December = January"
  by (simp add: next_month_def month_from_ordinal_def)

lemma month_start_Suc:
  assumes "first_month \<le> t" "t \<le> last_month"
  shows "month_start (t + 1) = month_start t + month_days t"
proof -
  let ?y = "t div 12"
  have y: "1901 \<le> ?y" "?y \<le> 2199" using assms by simp_all
  show ?thesis
  proof (cases "index_month t = December")
    case True
    then have "(t + 1) div 12 = ?y + 1" by (simp add: index_month_cases) presburger
    then show ?thesis
      using True y days_before_year_Suc [of ?y]
      by (simp add: month_start_def month_days_def index_month_Suc next_month_December)
  next
    case False
    then have "(t + 1) div 12 = ?y" by (simp add: index_month_cases) presburger
    then show ?thesis
      using False by (simp add: month_start_def month_days_def index_month_Suc moff_next_month)
  qed
qed

lemma month_days_bounds: "28 \<le> month_days t" "month_days t \<le> 31"
  by (simp_all add: month_days_def mlen_bounds)

lemma month_start_span:
  assumes "first_month \<le> t" "t + int n \<le> last_month + 1"
  shows "28 * int n \<le> month_start (t + int n) - month_start t
       \<and> month_start (t + int n) - month_start t \<le> 31 * int n"
  using assms
proof (induction n)
  case (Suc n)
  then have s: "month_start (t + int (Suc n)) = month_start (t + int n) + month_days (t + int n)"
    using month_start_Suc [of "t + int n"] by (simp add: ac_simps)
  show ?case using Suc month_days_bounds [of "t + int n"] unfolding s by simp
qed simp

lemma month_start_less:
  assumes "first_month \<le> t" "t < u" "u \<le> last_month + 1"
  shows "28 * (u - t) \<le> month_start u - month_start t" "month_start u - month_start t \<le> 31 * (u - t)"
  using month_start_span [of t "nat (u - t)"] assms by simp_all

lemma date_new_month_start:
  "date_new dd m y = Some d \<longleftrightarrow>
     first_month \<le> month_index m y \<and> month_index m y \<le> last_month
     \<and> 1 \<le> dd \<and> dd \<le> month_days (month_index m y)
     \<and> d = Date (month_start (month_index m y) + dd)"
proof -
  have "first_month \<le> month_index m y \<and> month_index m y \<le> last_month \<longleftrightarrow> 1901 \<le> y \<and> y \<le> 2199"
    using month_ordinal_range [of m] by (auto simp: month_index_def)
  then show ?thesis by (auto simp: date_new_Some month_start_def month_days_def)
qed

text \<open>A successful shift by months, in terms of month indices.\<close>

lemma date_advance_months_Some:
  assumes "date_new dd m y = Some d" "date_advance d n Months = Some d'"
  defines "t \<equiv> month_index m y"
  shows "first_month \<le> t + n \<and> t + n \<le> last_month
    \<and> serial_number d = month_start t + dd \<and> dd \<le> month_days t \<and> 1 \<le> dd
    \<and> serial_number d' = month_start (t + n) + min dd (month_days (t + n))"
proof -
  have r: "i32_range (month_ordinal m + n)"
    using assms(2) date_new_inspect [OF assms(1)] by (auto simp: bind_eq_Some_conv)
  have "date_new (clip_day dd (index_month (t + n)) ((t + n) div 12)) (index_month (t + n)) ((t + n) div 12) = Some d'"
    using assms(2) unfolding date_advance_months [OF assms(1) r] t_def
    by (simp add: Let_def split: if_splits del: date_advance.simps)
  moreover have "month_index (index_month (t + n)) ((t + n) div 12) = t + n"
    by (simp add: month_index_def index_month_ordinal)
  ultimately show ?thesis
    using assms(1) by (simp add: date_new_month_start clip_day_def month_days_def t_def [symmetric])
qed

lemma shift_months_days:
  assumes "first_month \<le> t" "t \<le> last_month" "first_month \<le> t + n" "t + n \<le> last_month"
    and "1 \<le> dd" "dd \<le> month_days t"
  defines "k \<equiv> month_start (t + n) + min dd (month_days (t + n)) - (month_start t + dd)"
  shows "min (28 * n) (31 * n) \<le> k \<and> k \<le> max (28 * n) (31 * n)"
proof -
  consider "n = 0" | "0 < n" | "n < 0" by linarith
  then show ?thesis
  proof cases
    case 1
    with assms show ?thesis by simp
  next
    case 2
    have step: "month_start (t + 1) = month_start t + month_days t"
      using assms by (intro month_start_Suc)
    have "28 * (n - 1) \<le> month_start (t + n) - month_start (t + 1)"
      using month_start_less(1) [of "t + 1" "t + n"] assms 2 by (cases "n = 1") simp_all
    with step 2 month_start_less [of t "t + n"] assms month_days_bounds [of "t + n"] show ?thesis
      by (simp add: min_def split: if_splits)
  next
    case 3
    have step: "month_start (t + n + 1) = month_start (t + n) + month_days (t + n)"
      using assms by (intro month_start_Suc) simp_all
    have "month_start t - month_start (t + n + 1) \<le> 31 * (- n - 1)"
      using month_start_less(2) [of "t + n + 1" t] assms 3 by (cases "n = - 1") simp_all
    with step 3 month_start_less [of "t + n" t] assms month_days_bounds [of t] show ?thesis
      by (simp add: min_def split: if_splits)
  qed
qed

lemma date_advance_months_days:
  assumes "valid_date d" "date_advance d n Months = Some d'"
  shows "min (28 * n) (31 * n) \<le> date_diff d' d \<and> date_diff d' d \<le> max (28 * n) (31 * n)"
proof -
  obtain dd m y where n: "date_new dd m y = Some d" using valid_date_new_ex assms(1) by blast
  note * = date_advance_months_Some [OF n assms(2)]
  from n have "first_month \<le> month_index m y" "month_index m y \<le> last_month"
    by (simp_all add: date_new_month_start)
  with * show ?thesis
    using shift_months_days [of "month_index m y" n dd] by (simp add: date_diff_def)
qed

text \<open>Twelve months are a year of 365 or 366 days, the longer one when a leap day is passed.\<close>

lemma same_month_next_year:
  assumes "1901 \<le> y" "y + 1 \<le> 2200"
  shows "moff m (gregorian_leap (y + 1)) + days_before_year (y + 1)
       - (moff m (gregorian_leap y) + days_before_year y)
    = (if gregorian_leap (if month_ordinal m \<le> 2 then y else y + 1) then 366 else 365)"
  using days_before_year_Suc [of y] assms by (cases m) simp_all

lemma month_start_year:
  assumes "first_month \<le> t" "t + 12 \<le> last_month + 1"
  shows "month_start (t + 12) - month_start t =
    (if gregorian_leap (if t mod 12 \<le> 1 then t div 12 else t div 12 + 1) then 366 else 365)"
proof -
  have y: "1901 \<le> t div 12" "t div 12 + 1 \<le> 2200" using assms by simp_all
  have e: "(t + 12) div 12 = t div 12 + 1" "index_month (t + 12) = index_month t"
    by (simp_all add: index_month_def)
  have o: "month_ordinal (index_month t) \<le> 2 \<longleftrightarrow> t mod 12 \<le> 1"
    by (simp add: index_month_ordinal)
  show ?thesis
    unfolding month_start_def e same_month_next_year [OF y] o ..
qed

lemma month_start_years:
  assumes "first_month \<le> t" "t + 12 * int n \<le> last_month + 1"
  shows "365 * int n \<le> month_start (t + 12 * int n) - month_start t
       \<and> month_start (t + 12 * int n) - month_start t \<le> 366 * int n
       \<and> (n \<noteq> 0 \<and> t mod 12 = 1 \<and> gregorian_leap (t div 12) \<longrightarrow>
            365 * int n < month_start (t + 12 * int n) - month_start t)
       \<and> (n \<noteq> 0 \<and> t mod 12 = 1 \<and> \<not> gregorian_leap (t div 12) \<longrightarrow>
            month_start (t + 12 * int n) - month_start t < 366 * int n)"
  using assms
proof (induction n)
  case (Suc n)
  have q: "(t + 12 * int n) mod 12 = t mod 12" "(t + 12 * int n) div 12 = t div 12 + int n"
    "t + 12 * int (Suc n) = t + 12 * int n + 12" by simp_all
  have "month_start (t + 12 * int (Suc n)) - month_start (t + 12 * int n) =
      (if gregorian_leap (if t mod 12 \<le> 1 then t div 12 + int n else t div 12 + int n + 1) then 366 else 365)"
    using month_start_year [of "t + 12 * int n"] Suc.prems unfolding q by simp
  then have s: "month_start (t + 12 * int (Suc n)) = month_start (t + 12 * int n) +
      (if gregorian_leap (if t mod 12 \<le> 1 then t div 12 + int n else t div 12 + int n + 1) then 366 else 365)"
    by linarith
  show ?case using Suc unfolding s by (cases "n = 0") simp_all
qed simp

lemma date_advance_years_Some:
  assumes "valid_date d" "date_advance d n Years = Some d'"
  shows "date_advance d (12 * n) Months = Some d'"
proof -
  obtain dd m y where c: "date_new dd m y = Some d" using valid_date_new_ex assms(1) by blast
  have y: "1901 \<le> y" "y \<le> 2199" using c by (auto simp: date_new_Some)
  have r: "i32_range (y + n)"
    using assms(2) date_new_inspect [OF c] by (auto simp: bind_eq_Some_conv)
  have "1901 \<le> y + n \<and> y + n \<le> 2199"
    using assms(2) unfolding date_advance_years [OF c r] by (simp split: if_splits)
  then have "\<bar>n\<bar> \<le> 1000" using y by linarith
  then show ?thesis using date_advance_years_months [OF c] assms(2) by simp
qed

lemma date_advance_months_mono:
  assumes "valid_date d" "date_advance d n Months = Some a" "date_advance d k Months = Some b" "n < k"
  shows "a < b"
proof -
  obtain dd m y where c: "date_new dd m y = Some d" using valid_date_new_ex assms(1) by blast
  let ?t = "month_index m y"
  note A = date_advance_months_Some [OF c assms(2)] and B = date_advance_months_Some [OF c assms(3)]
  have "month_start (?t + n + 1) = month_start (?t + n) + month_days (?t + n)"
    using A by (intro month_start_Suc) simp_all
  moreover have "month_start (?t + n + 1) \<le> month_start (?t + k)"
  proof (cases "k = n + 1")
    case False
    then show ?thesis using month_start_less(1) [of "?t + n + 1" "?t + k"] A B assms(4) by simp
  qed (simp add: ac_simps)
  ultimately have "serial_number a < serial_number b"
    using A B month_days_bounds [of "?t + k"] by (simp add: min_def)
  then show ?thesis by (simp add: less_date_def)
qed

lemma date_advance_years_days:
  assumes "valid_date d" "date_advance d n Years = Some d'"
  shows "min (365 * n) (366 * n) \<le> date_diff d' d \<and> date_diff d' d \<le> max (365 * n) (366 * n)"
proof -
  obtain dd m y where c: "date_new dd m y = Some d" using valid_date_new_ex assms(1) by blast
  define t where "t = month_index m y"
  note S = date_advance_months_Some [OF c date_advance_years_Some [OF assms], folded t_def]
  have t: "first_month \<le> t" "t \<le> last_month"
    using c by (simp_all add: date_new_month_start t_def)
  have same: "index_month (t + 12 * n) = index_month t" "(t + 12 * n) mod 12 = t mod 12"
    "(t + 12 * n) div 12 = t div 12 + n"
    by (simp_all add: index_month_def)
  have clip: "min dd (month_days (t + 12 * n)) =
      (if t mod 12 = 1 \<and> dd = 29 \<and> \<not> gregorian_leap (t div 12 + n) then 28 else dd)"
    using S unfolding month_days_def same index_month_cases(2) [symmetric]
    by (cases "index_month t") (auto simp: min_def split: if_splits)
  have feb: "t mod 12 = 1 \<Longrightarrow> dd = 29 \<Longrightarrow> gregorian_leap (t div 12)"
    using S unfolding month_days_def index_month_cases(2) [symmetric] by (auto split: if_splits)
  show ?thesis
  proof (cases "0 \<le> n")
    case True
    then show ?thesis
      using month_start_years [of t "nat n"] S t clip feb
      by (cases "n = 0") (auto simp: date_diff_def split: if_splits)
  next
    case False
    then show ?thesis
      using month_start_years [of "t + 12 * n" "nat (- n)"] S t clip feb same
      by (auto simp: date_diff_def split: if_splits)
  qed
qed

lemma date_plus_range:
  assumes "valid_date d" "date_plus d p = Some d'"
  shows "fst (period_range p) \<le> date_diff d' d \<and> date_diff d' d \<le> snd (period_range p)"
proof (cases "period_units p")
  case Months
  with date_advance_months_days [OF assms(1)] assms(2) show ?thesis
    by (simp add: date_plus_def period_range.simps Let_def)
next
  case Years
  with date_advance_years_days [OF assms(1)] assms(2) show ?thesis
    by (simp add: date_plus_def period_range.simps Let_def)
qed (use assms in \<open>auto simp: date_plus_def period_range.simps Let_def date_diff_def bind_eq_Some_conv
        dest: date_add_serial\<close>)

lemma date_plus_months:
  assumes "valid_date d" "date_plus d p = Some d'" "period_value p = Some (InMonths, n)"
  shows "date_advance d n Months = Some d'"
  using assms date_advance_years_Some [OF assms(1)]
  by (auto simp: date_plus_def period_value_def split: time_unit.splits)

lemma date_plus_days:
  assumes "date_plus d p = Some d'" "period_value p = Some (InDays, n)"
  shows "date_diff d' d = n"
  using assms by (auto simp: date_plus_def period_value_def date_diff_def bind_eq_Some_conv
      dest!: date_add_serial split: time_unit.splits)

lemma date_plus_units:
  assumes "date_plus d p = Some d'"
  shows "\<exists>k n. period_value p = Some (k, n)"
  using assms by (cases "period_units p") (auto simp: date_plus_def period_value_def)

lemma period_less_dates:
  assumes "valid_date d" "date_plus d p = Some a" "date_plus d q = Some b"
    and less: "period_less p q = Some (Some c)"
  shows "if c then a < b else b \<le> a"
proof -
  obtain k m where p: "period_value p = Some (k, m)" using date_plus_units assms(2) by blast
  obtain l n where q: "period_value q = Some (l, n)" using date_plus_units assms(3) by blast
  have ranges: "fst (period_range p) \<le> date_diff a d" "date_diff a d \<le> snd (period_range p)"
    "fst (period_range q) \<le> date_diff b d" "date_diff b d \<le> snd (period_range q)"
    using date_plus_range [OF assms(1)] assms(2,3) by blast+
  show ?thesis
  proof (cases "k = l")
    case True
    then have c: "c \<longleftrightarrow> m < n" using period_less_decided [OF less p q] by blast
    show ?thesis
    proof (cases k)
      case InMonths
      then have A: "date_advance d m Months = Some a" and B: "date_advance d n Months = Some b"
        using True p q date_plus_months [OF assms(1)] assms(2,3) by blast+
      consider "m < n" | "m = n" | "n < m" by linarith
      then show ?thesis
        using c A B date_advance_months_mono [OF assms(1) A B] date_advance_months_mono [OF assms(1) B A]
        by cases (simp_all del: date_advance.simps)
    next
      case InDays
      then have "date_diff a d = m" "date_diff b d = n"
        using True p q date_plus_days [OF assms(2)] date_plus_days [OF assms(3)] by auto
      then show ?thesis using c by (auto simp: date_diff_def less_date_def less_eq_date_def)
    qed
  next
    case False
    then show ?thesis
      using period_less_decided [OF less p q] ranges
      by (auto simp: date_diff_def less_date_def less_eq_date_def)
  qed
qed

end
