(* ===== verification/Date_Properties.thy ===== *)
theory Date_Properties
  imports Date_Periods
begin

text \<open>
  The properties of dates and periods, each with the concrete instance that shows its hypotheses
  can hold.
\<close>

section \<open>Dates\<close>

text \<open>C1. Construction and inspection are inverse: \<open>Date::new(d, m, y)\<close> returns a date exactly
  when that date is in the supported range and its day, month and year read back as \<open>d\<close>, \<open>m\<close>,
  \<open>y\<close>.\<close>

theorem construct_inspect_inverse:
  "date_new dd m y = Some d \<longleftrightarrow>
     valid_date d \<and> date_day_of_month d = Some dd \<and> date_month d = Some m \<and> date_year d = Some y"
proof
  assume n: "date_new dd m y = Some d"
  show "valid_date d \<and> date_day_of_month d = Some dd \<and> date_month d = Some m \<and> date_year d = Some y"
    using date_new_valid' [OF n] date_new_inspect [OF n] by simp
next
  assume v: "valid_date d \<and> date_day_of_month d = Some dd \<and> date_month d = Some m \<and> date_year d = Some y"
  then show "date_new dd m y = Some d"
    by (elim conjE date_inspect [of d]) simp
qed

text \<open>C2. Adding one day to the serial number is the civil successor: the next day of the month,
  the first of the next month, or New Year's Day, by the Gregorian leap rule.\<close>

theorem plus_one_is_next_civil_day:
  assumes "date_new dd m y = Some d" "d < date_max" "next_day (dd, m, y) = (dd', m', y')"
  shows "\<exists>d'. date_add d 1 = Some d' \<and> date_new dd' m' y' = Some d'"
  by (rule date_add_one_civil [OF assms])

lemma plus_one_is_next_civil_day_witness:
  "\<exists>d'. date_add (Date 73109) 1 = Some d' \<and> date_new 1 March 2100 = Some d'"
proof -
  have "date_new 28 February 2100 = Some (Date 73109)" by code_simp
  moreover have "Date 73109 < date_max" by code_simp
  moreover have "next_day (28, February, 2100) = (1, March, 2100)" by code_simp
  ultimately show ?thesis by (rule plus_one_is_next_civil_day)
qed

text \<open>The serial order of dates is the order of their civil fields.\<close>

lemma date_order_is_civil_order:
  assumes "date_new dd m y = Some d" "date_new dd' m' y' = Some d'"
  shows "d < d' \<longleftrightarrow> y < y' \<or> y = y' \<and> (m < m' \<or> m = m' \<and> dd < dd')"
  by (rule date_less_civil [OF assms])

text \<open>\<open>next_weekday\<close> is the least date not before the given one with the given weekday.\<close>

lemma next_weekday_is_least:
  assumes "valid_date d" "date_next_weekday d w = Some d'"
  shows "date_weekday d' = Some w \<and> d \<le> d' \<and>
     (\<forall>e. valid_date e \<and> d \<le> e \<and> date_weekday e = Some w \<longrightarrow> d' \<le> e)"
  by (rule date_next_weekday_least [OF assms])

text \<open>\<open>nth_weekday\<close> finds the day of the month with the given weekday in the given
  week of seven days, and panics when the month has no such day.\<close>

lemma nth_weekday_in_its_week:
  assumes "1 \<le> n" "n \<le> 5"
  shows "date_nth_weekday n w m y = Some d \<longleftrightarrow>
     (\<exists>k. date_new k m y = Some d \<and> date_weekday d = Some w \<and> (k - 1) div 7 = n - 1)"
  by (rule date_nth_weekday_iff [OF assms])

text \<open>C3. Advancing by months moves the month index by \<open>n\<close> and clips the day to the length of
  the month reached; outside the supported years it panics.\<close>

theorem advance_months_closed_form:
  assumes "date_new dd m y = Some d" "i32_range (month_ordinal m + n)"
  shows "date_advance d n Months =
     (let t = month_index m y + n; y' = t div 12; m' = index_month t
      in if 1901 \<le> y' \<and> y' \<le> 2199 then date_new (clip_day dd m' y') m' y' else None)"
  by (rule date_advance_months [OF assms])

lemma advance_months_closed_form_witness:
  "date_advance (Date 45322) 1 Months = date_new 29 February 2024"
proof -
  have "date_new 31 January 2024 = Some (Date 45322)" by code_simp
  from advance_months_closed_form [OF this, of 1] show ?thesis
    by (simp add: i32_range_def month_index_def index_month_def month_from_ordinal_def clip_day_def
        gregorian_leap_def)
qed

section \<open>Periods\<close>

text \<open>Normalisation is canonical: two periods of the same number of months (or of days) have
  the same normal form, whatever their units.\<close>

lemma normalize_is_canonical:
  assumes "period_value p = period_value q" "period_value p \<noteq> None" "period_length p \<noteq> 0"
  shows "period_normalize p = period_normalize q \<and> period_normalize p \<noteq> None"
  by (rule normalize_canonical [OF assms])

text \<open>Addition of periods, when it returns, adds the number of months (or of days).\<close>

lemma period_addition_adds:
  assumes "period_add p q = Some r" "period_value p = Some (k, a)" "period_value q = Some (k, b)"
  shows "period_value r = Some (k, a + b)"
  by (rule period_add_value [OF assms])

text \<open>C4. A comparison of periods that is decided is right for every start date: the shorter
  period never ends later.\<close>

theorem period_order_sound_for_dates:
  assumes "valid_date d" "date_plus d p = Some a" "date_plus d q = Some b"
    and "period_less p q = Some (Some c)"
  shows "if c then a < b else b \<le> a"
  by (rule period_less_dates [OF assms])

lemma period_order_sound_for_dates_witness:
  "if True then Date 45353 < Date 45382 else Date 45382 \<le> Date 45353"
  by (rule period_order_sound_for_dates [of "Date 45322" "period_new 31 Days" _ "period_new 2 Months"])
    (simp add: valid_date_iff, code_simp+)

text \<open>The comparison is antisymmetric: comparing the other way round flips the answer and is
  undecided in the same cases.\<close>

lemma period_comparison_flips:
  assumes "period_partial_cmp p q = Some c"
  shows "period_partial_cmp q p = Some (map_option flip c)"
  by (rule period_cmp_swap [OF assms])

text \<open>The period of a frequency has that frequency.\<close>

lemma frequency_round_trip:
  assumes "period_try_from f = Inr p"
  shows "period_frequency p = Some f"
  by (rule try_from_frequency [OF assms])

end
