(* ===== verification/Calendar.thy ===== *)
theory Calendar
  imports Date_Periods
begin

text \<open>
  \<open>time/calendar.rs\<close>: a \<open>Calendar\<close> is a market implementation (the trait object
  \<open>CalendarImpl\<close>, here a record of its methods) with the sets of added and removed
  holidays on top. Its state-changing methods return the calendar updated. Every loop of the source
  is a recursive function whose termination is proved: a date that leaves the supported range is a
  panic, so no loop runs for ever.
\<close>

section \<open>Implementations and calendars\<close>

record calendar_impl =
  ci_name :: string
  ci_is_business_day :: "date \<Rightarrow> bool option"
  ci_is_weekend :: "weekday \<Rightarrow> bool"
  ci_is_weekend_on :: "date \<Rightarrow> bool option"
  ci_holiday_horizon :: "int option"
  ci_holiday_first_year :: "int option"

text \<open>The provided methods of the trait: the weekday-only weekend test, no horizon, no first year.\<close>

definition default_is_weekend_on :: "(weekday \<Rightarrow> bool) \<Rightarrow> date \<Rightarrow> bool option" where
  "default_is_weekend_on is_weekend date = do {
     w \<leftarrow> date_weekday date;
     Some (is_weekend w)
   }"

definition calendar_impl_new ::
  "string \<Rightarrow> (date \<Rightarrow> bool option) \<Rightarrow> (weekday \<Rightarrow> bool) \<Rightarrow> calendar_impl" where
  "calendar_impl_new name is_business_day is_weekend =
     \<lparr>ci_name = name, ci_is_business_day = is_business_day, ci_is_weekend = is_weekend,
      ci_is_weekend_on = default_is_weekend_on is_weekend,
      ci_holiday_horizon = None, ci_holiday_first_year = None\<rparr>"

definition is_weekend_sat_sun :: "weekday \<Rightarrow> bool" where
  "is_weekend_sat_sun w \<longleftrightarrow> w = Saturday \<or> w = Sunday"

record calendar =
  imp :: calendar_impl
  added_holidays :: "date set"
  removed_holidays :: "date set"

definition calendar_from_impl :: "calendar_impl \<Rightarrow> calendar" where
  "calendar_from_impl i = \<lparr>imp = i, added_holidays = {}, removed_holidays = {}\<rparr>"

definition empty_impl :: calendar_impl where
  "empty_impl = calendar_impl_new '''' (\<lambda>_. Some False) (\<lambda>_. False)"

definition calendar_empty :: calendar where
  "calendar_empty = calendar_from_impl empty_impl"

definition calendar_name :: "calendar \<Rightarrow> string" where
  "calendar_name cal = ci_name (imp cal)"

definition calendar_is_empty :: "calendar \<Rightarrow> bool" where
  "calendar_is_empty cal \<longleftrightarrow> ci_name (imp cal) = []"

definition calendar_eq :: "calendar \<Rightarrow> calendar \<Rightarrow> bool" where
  "calendar_eq a b \<longleftrightarrow> calendar_name a = calendar_name b"

definition is_business_day :: "calendar \<Rightarrow> date \<Rightarrow> bool option" where
  "is_business_day cal d =
     (if d \<in> added_holidays cal then Some False
      else if d \<in> removed_holidays cal then Some True
      else ci_is_business_day (imp cal) d)"

definition is_holiday :: "calendar \<Rightarrow> date \<Rightarrow> bool option" where
  "is_holiday cal d = do {
     b \<leftarrow> is_business_day cal d;
     Some (\<not> b)
   }"

definition is_weekend :: "calendar \<Rightarrow> weekday \<Rightarrow> bool" where
  "is_weekend cal w = ci_is_weekend (imp cal) w"

definition is_weekend_on :: "calendar \<Rightarrow> date \<Rightarrow> bool option" where
  "is_weekend_on cal d = ci_is_weekend_on (imp cal) d"

definition holiday_horizon :: "calendar \<Rightarrow> int option" where
  "holiday_horizon cal = ci_holiday_horizon (imp cal)"

definition holiday_first_year :: "calendar \<Rightarrow> int option" where
  "holiday_first_year cal = ci_holiday_first_year (imp cal)"

section \<open>Holiday overrides\<close>

definition reset_added_and_removed_holidays :: "calendar \<Rightarrow> calendar" where
  "reset_added_and_removed_holidays cal =
     cal\<lparr>added_holidays := {}, removed_holidays := {}\<rparr>"

definition add_holiday :: "calendar \<Rightarrow> date \<Rightarrow> calendar option" where
  "add_holiday cal d = do {
     let cal = cal\<lparr>removed_holidays := removed_holidays cal - {d}\<rparr>;
     b \<leftarrow> ci_is_business_day (imp cal) d;
     Some (if b then cal\<lparr>added_holidays := insert d (added_holidays cal)\<rparr> else cal)
   }"

definition remove_holiday :: "calendar \<Rightarrow> date \<Rightarrow> calendar option" where
  "remove_holiday cal d = do {
     let cal = cal\<lparr>added_holidays := added_holidays cal - {d}\<rparr>;
     b \<leftarrow> ci_is_business_day (imp cal) d;
     Some (if \<not> b then cal\<lparr>removed_holidays := insert d (removed_holidays cal)\<rparr> else cal)
   }"

section \<open>The rolling loops\<close>

lemma date_add_bounds:
  "date_add d n = Some d' \<Longrightarrow>
     serial_number d' = serial_number d + n \<and> 367 \<le> serial_number d' \<and> serial_number d' \<le> 109574"
  using date_add_valid date_add_serial valid_date_iff by blast

lemma date_sub_bounds:
  "date_sub d n = Some d' \<Longrightarrow>
     serial_number d' = serial_number d - n \<and> 367 \<le> serial_number d' \<and> serial_number d' \<le> 109574"
  using date_sub_valid date_sub_serial valid_date_iff by blast

text \<open>\<open>while hol(d) { d += 1 }\<close> and \<open>while hol(d) { d -= 1 }\<close>.\<close>

function roll_forward :: "(date \<Rightarrow> bool option) \<Rightarrow> date \<Rightarrow> date option" where
  "roll_forward hol d = do {
     h \<leftarrow> hol d;
     if h then do { d \<leftarrow> date_add d 1; roll_forward hol d } else Some d
   }"
  by pat_completeness auto
termination
  by (relation "measure (\<lambda>(hol, d). nat (109575 - serial_number d))") (auto dest!: date_add_bounds)

function roll_backward :: "(date \<Rightarrow> bool option) \<Rightarrow> date \<Rightarrow> date option" where
  "roll_backward hol d = do {
     h \<leftarrow> hol d;
     if h then do { d \<leftarrow> date_sub d 1; roll_backward hol d } else Some d
   }"
  by pat_completeness auto
termination
  by (relation "measure (\<lambda>(hol, d). nat (serial_number d))") (auto dest!: date_sub_bounds)

text \<open>\<open>while hol(d1) && hol(d2) { d1 += 1; d2 -= 1 }\<close>, with both dates returned.\<close>

function roll_nearest :: "(date \<Rightarrow> bool option) \<Rightarrow> date \<Rightarrow> date \<Rightarrow> (date \<times> date) option" where
  "roll_nearest hol d1 d2 = do {
     h1 \<leftarrow> hol d1;
     h2 \<leftarrow> if h1 then hol d2 else Some False;
     if h1 \<and> h2 then do {
       d1 \<leftarrow> date_add d1 1;
       d2 \<leftarrow> date_sub d2 1;
       roll_nearest hol d1 d2
     } else Some (d1, d2)
   }"
  by pat_completeness auto
termination
  by (relation "measure (\<lambda>(hol, d1, d2). nat (109575 - serial_number d1))")
    (auto dest!: date_add_bounds)

text \<open>The \<open>Days\<close> branches of \<open>advance\<close>: \<open>n\<close> times, one step and a roll.\<close>

function advance_forward :: "(date \<Rightarrow> bool option) \<Rightarrow> int \<Rightarrow> date \<Rightarrow> date option" where
  "advance_forward hol n d =
     (if n > 0 then do {
        d \<leftarrow> date_add d 1;
        d \<leftarrow> roll_forward hol d;
        advance_forward hol (n - 1) d
      } else Some d)"
  by pat_completeness auto
termination
  by (relation "measure (\<lambda>(hol, n, d). nat n)") auto

function advance_backward :: "(date \<Rightarrow> bool option) \<Rightarrow> int \<Rightarrow> date \<Rightarrow> date option" where
  "advance_backward hol n d =
     (if n < 0 then do {
        d \<leftarrow> date_sub d 1;
        d \<leftarrow> roll_backward hol d;
        advance_backward hol (n + 1) d
      } else Some d)"
  by pat_completeness auto
termination
  by (relation "measure (\<lambda>(hol, n, d). nat (- n))") auto

declare roll_forward.simps [simp del] roll_backward.simps [simp del] roll_nearest.simps [simp del]
  advance_forward.simps [simp del] advance_backward.simps [simp del]

section \<open>Adjustment\<close>

fun convention_rank :: "business_day_convention \<Rightarrow> nat" where
  "convention_rank ModifiedFollowing = 1"
| "convention_rank HalfMonthModifiedFollowing = 1"
| "convention_rank ModifiedPreceding = 1"
| "convention_rank _ = 0"

function try_adjust :: "calendar \<Rightarrow> date \<Rightarrow> business_day_convention \<Rightarrow> date ql_result option" where
  "try_adjust cal d c = do {
     assert_that (d \<noteq> date_null);
     if c = Unadjusted then Some (Inr d)
     else if calendar_is_empty cal then Some (Inl NoCalendarImplementation)
     else if c = Following \<or> c = ModifiedFollowing \<or> c = HalfMonthModifiedFollowing then do {
       d1 \<leftarrow> roll_forward (is_holiday cal) d;
       if c = ModifiedFollowing \<or> c = HalfMonthModifiedFollowing then do {
         m1 \<leftarrow> date_month d1;
         m \<leftarrow> date_month d;
         if m1 \<noteq> m then try_adjust cal d Preceding
         else if c = HalfMonthModifiedFollowing then do {
           dom \<leftarrow> date_day_of_month d;
           dom1 \<leftarrow> date_day_of_month d1;
           if dom \<le> 15 \<and> dom1 > 15 then try_adjust cal d Preceding else Some (Inr d1)
         } else Some (Inr d1)
       } else Some (Inr d1)
     }
     else if c = Preceding \<or> c = ModifiedPreceding then do {
       d1 \<leftarrow> roll_backward (is_holiday cal) d;
       if c = ModifiedPreceding then do {
         m1 \<leftarrow> date_month d1;
         m \<leftarrow> date_month d;
         if m1 \<noteq> m then try_adjust cal d Following else Some (Inr d1)
       } else Some (Inr d1)
     }
     else if c = Nearest then do {
       (d1, d2) \<leftarrow> roll_nearest (is_holiday cal) d d;
       h1 \<leftarrow> is_holiday cal d1;
       Some (Inr (if h1 then d2 else d1))
     }
     else None
   }"
  by pat_completeness auto
termination
  by (relation "measure (\<lambda>(cal, d, c). convention_rank c)") auto

declare try_adjust.simps [simp del]

text \<open>\<open>adjust\<close> turns the error of \<open>try_adjust\<close> into a panic.\<close>

definition adjust :: "calendar \<Rightarrow> date \<Rightarrow> business_day_convention \<Rightarrow> date option" where
  "adjust cal d c = do {
     r \<leftarrow> try_adjust cal d c;
     case r of Inl e \<Rightarrow> None | Inr d' \<Rightarrow> Some d'
   }"

definition start_of_month :: "calendar \<Rightarrow> date \<Rightarrow> date option" where
  "start_of_month cal d = do {
     s \<leftarrow> date_start_of_month d;
     adjust cal s Following
   }"

definition is_start_of_month :: "calendar \<Rightarrow> date \<Rightarrow> bool option" where
  "is_start_of_month cal d = do {
     s \<leftarrow> start_of_month cal d;
     Some (d \<le> s)
   }"

definition end_of_month :: "calendar \<Rightarrow> date \<Rightarrow> date option" where
  "end_of_month cal d = do {
     e \<leftarrow> date_end_of_month d;
     adjust cal e Preceding
   }"

definition is_end_of_month :: "calendar \<Rightarrow> date \<Rightarrow> bool option" where
  "is_end_of_month cal d = do {
     e \<leftarrow> end_of_month cal d;
     Some (d \<ge> e)
   }"

section \<open>Lists of days\<close>

function holiday_list :: "calendar \<Rightarrow> date \<Rightarrow> date \<Rightarrow> bool \<Rightarrow> date list option" where
  "holiday_list cal d to include_weekends =
     (if d \<le> to then do {
        h \<leftarrow> is_holiday cal d;
        keep \<leftarrow> if h \<and> \<not> include_weekends then do { w \<leftarrow> is_weekend_on cal d; Some (\<not> w) }
               else Some h;
        rest \<leftarrow> if d = to then Some []
               else do { d' \<leftarrow> date_add d 1; holiday_list cal d' to include_weekends };
        Some (if keep then d # rest else rest)
      } else Some [])"
  by pat_completeness auto
termination
  by (relation "measure (\<lambda>(cal, d, to, w). nat (109575 - serial_number d))")
    (auto dest!: date_add_bounds)

function business_day_list :: "calendar \<Rightarrow> date \<Rightarrow> date \<Rightarrow> date list option" where
  "business_day_list cal d to =
     (if d \<le> to then do {
        b \<leftarrow> is_business_day cal d;
        rest \<leftarrow> if d = to then Some []
               else do { d' \<leftarrow> date_add d 1; business_day_list cal d' to };
        Some (if b then d # rest else rest)
      } else Some [])"
  by pat_completeness auto
termination
  by (relation "measure (\<lambda>(cal, d, to). nat (109575 - serial_number d))")
    (auto dest!: date_add_bounds)

declare holiday_list.simps [simp del] business_day_list.simps [simp del]

section \<open>Advancing and counting\<close>

definition advance ::
  "calendar \<Rightarrow> date \<Rightarrow> int \<Rightarrow> time_unit \<Rightarrow> business_day_convention \<Rightarrow> bool \<Rightarrow> date option" where
  "advance cal d n u c eom = do {
     assert_that (d \<noteq> date_null);
     assert_that (\<not> calendar_is_empty cal);
     if n = 0 then adjust cal d c
     else if u = Days then
       (if n > 0 then advance_forward (is_holiday cal) n d
        else advance_backward (is_holiday cal) n d)
     else if u = Weeks then do {
       d1 \<leftarrow> date_plus d (period_new n u);
       adjust cal d1 c
     }
     else do {
       d1 \<leftarrow> date_plus d (period_new n u);
       snap \<leftarrow> if eom then (if c = Unadjusted then date_is_end_of_month d else is_end_of_month cal d)
              else Some False;
       if snap then (if c = Unadjusted then date_end_of_month d1 else end_of_month cal d1)
       else adjust cal d1 c
     }
   }"

definition advance_by_period ::
  "calendar \<Rightarrow> date \<Rightarrow> period \<Rightarrow> business_day_convention \<Rightarrow> bool \<Rightarrow> date option" where
  "advance_by_period cal d p c eom = advance cal d (period_length p) (period_units p) c eom"

text \<open>The counting loop; the count is at most the number of supported dates and cannot
  overflow.\<close>

function count_business_days :: "calendar \<Rightarrow> date \<Rightarrow> date \<Rightarrow> int \<Rightarrow> int option" where
  "count_business_days cal d to res =
     (if d < to then do {
        b \<leftarrow> is_business_day cal d;
        d' \<leftarrow> date_add d 1;
        count_business_days cal d' to (res + of_bool b)
      } else Some res)"
  by pat_completeness auto
termination
  by (relation "measure (\<lambda>(cal, d, to, res). nat (109575 - serial_number d))")
    (auto dest!: date_add_bounds)

declare count_business_days.simps [simp del]

definition days_between_impl :: "calendar \<Rightarrow> date \<Rightarrow> date \<Rightarrow> bool \<Rightarrow> bool \<Rightarrow> int option" where
  "days_between_impl cal from to include_first include_last = do {
     l \<leftarrow> if include_last then is_business_day cal to else Some False;
     d \<leftarrow> if include_first then Some from else date_add from 1;
     count_business_days cal d to (of_bool l)
   }"

definition business_days_between :: "calendar \<Rightarrow> date \<Rightarrow> date \<Rightarrow> bool \<Rightarrow> bool \<Rightarrow> int option" where
  "business_days_between cal from to include_first include_last =
     (if from < to then days_between_impl cal from to include_first include_last
      else if from > to then map_option uminus (days_between_impl cal to from include_last include_first)
      else if include_first \<and> include_last then map_option of_bool (is_business_day cal from)
      else Some 0)"

end
