(* ===== verification/Business_Days.thy ===== *)
theory Business_Days
  imports Calendar
begin

text \<open>
  The contract between a market and the date arithmetic on top of it. All that the loops of
  \<open>calendar.rs\<close> ask of a market is that its holiday test answers on every supported date:
  the locale \<open>market_days\<close>. Inside it the loops are characterised: rolling finds the
  least open day at or after (greatest at or before) a date, the nearest roll the closest one,
  advancing by days the date at which that many open days have passed.
\<close>

section \<open>The line of dates\<close>

lemma valid_between: "valid_date a \<Longrightarrow> valid_date b \<Longrightarrow> a \<le> e \<Longrightarrow> e \<le> b \<Longrightarrow> valid_date e"
  by (auto simp: valid_date_iff less_eq_date_def)

lemma finite_between: "finite {e :: date. a < e \<and> e \<le> b}"
proof -
  have "{e. a < e \<and> e \<le> b} \<subseteq> Date ` {serial_number a .. serial_number b}"
    by (auto simp: less_date_def less_eq_date_def image_iff intro!: exI [of _ "serial_number _"])
      (metis atLeastAtMost_iff date.collapse less_imp_le)
  then show ?thesis by (rule finite_subset) simp
qed

definition succ_date :: "date \<Rightarrow> date" where
  "succ_date d = Date (serial_number d + 1)"

definition pred_date :: "date \<Rightarrow> date" where
  "pred_date d = Date (serial_number d - 1)"

lemma date_add_one: "valid_date d \<Longrightarrow> date_add d 1 = (if valid_date (succ_date d) then Some (succ_date d) else None)"
  using date_add_Some [of d 1] by (cases "date_add d 1") (auto simp: succ_date_def)

lemma date_sub_one: "valid_date d \<Longrightarrow> date_sub d 1 = (if valid_date (pred_date d) then Some (pred_date d) else None)"
  using date_sub_Some [of d 1] by (cases "date_sub d 1") (auto simp: pred_date_def)

lemma succ_date_le_iff: "succ_date d \<le> e \<longleftrightarrow> d < e"
  by (auto simp: succ_date_def less_eq_date_def less_date_def)

lemma le_pred_date_iff: "e \<le> pred_date d \<longleftrightarrow> e < d"
  by (auto simp: pred_date_def less_eq_date_def less_date_def)

lemma less_succ_date: "d < succ_date d"
  by (simp add: succ_date_def less_date_def)

lemma pred_date_less: "pred_date d < d"
  by (simp add: pred_date_def less_date_def)

lemma valid_succ: "valid_date d \<Longrightarrow> d < e \<Longrightarrow> valid_date e \<Longrightarrow> valid_date (succ_date d)"
  by (auto simp: valid_date_iff succ_date_def less_date_def)

lemma valid_pred: "valid_date d \<Longrightarrow> e < d \<Longrightarrow> valid_date e \<Longrightarrow> valid_date (pred_date d)"
  by (auto simp: valid_date_iff pred_date_def less_date_def)

text \<open>Induction towards the ends of the supported range.\<close>

lemma date_up_induct [consumes 1, case_names step]:
  assumes "valid_date d"
    and "\<And>d. valid_date d \<Longrightarrow> (valid_date (succ_date d) \<Longrightarrow> P (succ_date d)) \<Longrightarrow> P d"
  shows "P d"
  using assms(1)
proof (induction "nat (109574 - serial_number d)" arbitrary: d rule: less_induct)
  case less
  show ?case
    by (rule assms(2) [OF less.prems], rule less.hyps) (auto simp: succ_date_def valid_date_iff)
qed

lemma date_down_induct [consumes 1, case_names step]:
  assumes "valid_date d"
    and "\<And>d. valid_date d \<Longrightarrow> (valid_date (pred_date d) \<Longrightarrow> P (pred_date d)) \<Longrightarrow> P d"
  shows "P d"
  using assms(1)
proof (induction "nat (serial_number d)" arbitrary: d rule: less_induct)
  case less
  show ?case
    by (rule assms(2) [OF less.prems], rule less.hyps) (auto simp: pred_date_def valid_date_iff)
qed

section \<open>First and last open days\<close>

text \<open>\<open>first_open hol d e\<close>: \<open>e\<close> is the least open day at or after \<open>d\<close>;
  \<open>last_open hol d e\<close>: the greatest at or before it.\<close>

definition first_open :: "(date \<Rightarrow> bool option) \<Rightarrow> date \<Rightarrow> date \<Rightarrow> bool" where
  "first_open hol d e \<longleftrightarrow>
     d \<le> e \<and> valid_date e \<and> hol e = Some False \<and> (\<forall>x. d \<le> x \<and> x < e \<longrightarrow> hol x = Some True)"

definition last_open :: "(date \<Rightarrow> bool option) \<Rightarrow> date \<Rightarrow> date \<Rightarrow> bool" where
  "last_open hol d e \<longleftrightarrow>
     e \<le> d \<and> valid_date e \<and> hol e = Some False \<and> (\<forall>x. e < x \<and> x \<le> d \<longrightarrow> hol x = Some True)"

lemma first_open_unique: "first_open hol d e \<Longrightarrow> first_open hol d e' \<Longrightarrow> e = e'"
  by (metis first_open_def linorder_neqE option.inject)

lemma last_open_unique: "last_open hol d e \<Longrightarrow> last_open hol d e' \<Longrightarrow> e = e'"
  by (metis last_open_def linorder_neqE option.inject)

lemma first_open_least: "first_open hol d e \<Longrightarrow> d \<le> x \<Longrightarrow> hol x = Some False \<Longrightarrow> e \<le> x"
  by (force simp: first_open_def not_le [symmetric])

lemma last_open_greatest: "last_open hol d e \<Longrightarrow> x \<le> d \<Longrightarrow> hol x = Some False \<Longrightarrow> x \<le> e"
  by (force simp: last_open_def not_le [symmetric])

lemma first_open_here: "valid_date d \<Longrightarrow> hol d = Some False \<Longrightarrow> first_open hol d e \<longleftrightarrow> e = d"
  by (auto simp: first_open_def)

lemma last_open_here: "valid_date d \<Longrightarrow> hol d = Some False \<Longrightarrow> last_open hol d e \<longleftrightarrow> e = d"
  by (auto simp: last_open_def)
    (metis antisym_conv2 option.inject order.refl)

lemma first_open_succ: "hol d = Some True \<Longrightarrow> first_open hol d e \<longleftrightarrow> first_open hol (succ_date d) e"
  unfolding first_open_def succ_date_le_iff
  by (metis antisym_conv2 less_imp_le option.inject)

lemma last_open_pred: "hol d = Some True \<Longrightarrow> last_open hol d e \<longleftrightarrow> last_open hol (pred_date d) e"
  unfolding last_open_def le_pred_date_iff
  by (metis antisym_conv2 less_imp_le option.inject)

locale market_days =
  fixes hol :: "date \<Rightarrow> bool option"
  assumes hol_total: "valid_date d \<Longrightarrow> \<exists>b. hol d = Some b"
begin

lemma roll_forward_iff:
  assumes "valid_date d"
  shows "roll_forward hol d = Some e \<longleftrightarrow> first_open hol d e"
  using assms
proof (induction rule: date_up_induct)
  case (step d)
  obtain b where b: "hol d = Some b" using hol_total [OF step.hyps] by auto
  show ?case
  proof (cases b)
    case False
    then show ?thesis using b step.hyps by (auto simp: roll_forward.simps [of hol d] first_open_here)
  next
    case True
    have "\<not> valid_date (succ_date d) \<Longrightarrow> \<not> first_open hol (succ_date d) e"
      using step.hyps by (auto simp: first_open_def valid_date_iff succ_date_def less_eq_date_def)
    then show ?thesis using b True step.IH
      by (simp add: roll_forward.simps [of hol d] date_add_one [OF step.hyps] first_open_succ)
  qed
qed

lemma roll_backward_iff:
  assumes "valid_date d"
  shows "roll_backward hol d = Some e \<longleftrightarrow> last_open hol d e"
  using assms
proof (induction rule: date_down_induct)
  case (step d)
  obtain b where b: "hol d = Some b" using hol_total [OF step.hyps] by auto
  show ?case
  proof (cases b)
    case False
    then show ?thesis using b step.hyps by (auto simp: roll_backward.simps [of hol d] last_open_here)
  next
    case True
    have "\<not> valid_date (pred_date d) \<Longrightarrow> \<not> last_open hol (pred_date d) e"
      using step.hyps by (auto simp: last_open_def valid_date_iff pred_date_def less_eq_date_def)
    then show ?thesis using b True step.IH
      by (simp add: roll_backward.simps [of hol d] date_sub_one [OF step.hyps] last_open_pred)
  qed
qed

text \<open>A roll panics exactly when it finds no open day before the end of the range.\<close>

lemma roll_forward_total:
  assumes "valid_date d" "d \<le> x" "valid_date x" "hol x = Some False"
  shows "\<exists>e. roll_forward hol d = Some e \<and> e \<le> x"
  using assms
proof (induction rule: date_up_induct)
  case (step d)
  show ?case
  proof (cases "hol d = Some False")
    case True
    then show ?thesis using step.prems by (auto simp: roll_forward.simps [of hol d])
  next
    case False
    then have h: "hol d = Some True" using hol_total [OF step.hyps] by auto
    then have "d < x" using step.prems by (cases "d = x") auto
    then show ?thesis using step h valid_succ [OF step.hyps]
      by (auto simp: roll_forward.simps [of hol d] date_add_one succ_date_le_iff)
  qed
qed

lemma roll_backward_total:
  assumes "valid_date d" "x \<le> d" "valid_date x" "hol x = Some False"
  shows "\<exists>e. roll_backward hol d = Some e \<and> x \<le> e"
  using assms
proof (induction rule: date_down_induct)
  case (step d)
  show ?case
  proof (cases "hol d = Some False")
    case True
    then show ?thesis using step.prems by (auto simp: roll_backward.simps [of hol d])
  next
    case False
    then have h: "hol d = Some True" using hol_total [OF step.hyps] by auto
    then have "x < d" using step.prems by (cases "d = x") auto
    then show ?thesis using step h valid_pred [OF step.hyps]
      by (auto simp: roll_backward.simps [of hol d] date_sub_one le_pred_date_iff)
  qed
qed

end

section \<open>Counting open days\<close>


definition open_in :: "(date \<Rightarrow> bool option) \<Rightarrow> date set \<Rightarrow> int" where
  "open_in hol A = int (card {e \<in> A. hol e = Some False})"

lemma finite_dates: "finite {a..b :: date}" "finite {a..<b :: date}" "finite {a<..b :: date}"
proof -
  have "{a..b} \<subseteq> Date ` {serial_number a .. serial_number b}"
    by (auto simp: less_eq_date_def image_iff intro!: bexI [of _ "serial_number _"])
  then show f: "finite {a..b}" by (rule finite_subset) simp
  show "finite {a..<b}" by (rule finite_subset [OF _ f]) auto
  show "finite {a<..b}" by (rule finite_subset [OF _ f]) auto
qed

lemma open_in_nonneg: "0 \<le> open_in hol A"
  by (simp add: open_in_def)

lemma open_in_empty [simp]: "open_in hol {} = 0"
  by (simp add: open_in_def)

lemma open_in_Un:
  assumes "finite A" "finite B" "A \<inter> B = {}"
  shows "open_in hol (A \<union> B) = open_in hol A + open_in hol B"
proof -
  have "{e \<in> A \<union> B. hol e = Some False} = {e \<in> A. hol e = Some False} \<union> {e \<in> B. hol e = Some False}"
    by auto
  then show ?thesis using assms unfolding open_in_def
    by (simp add: card_Un_disjoint disjoint_iff)
qed

lemma open_in_single: "b \<in> A \<Longrightarrow> hol b = Some False \<Longrightarrow> (\<And>x. x \<in> A \<Longrightarrow> x \<noteq> b \<Longrightarrow> hol x \<noteq> Some False) \<Longrightarrow> open_in hol A = 1"
proof -
  assume "b \<in> A" "hol b = Some False" "\<And>x. x \<in> A \<Longrightarrow> x \<noteq> b \<Longrightarrow> hol x \<noteq> Some False"
  then have "{e \<in> A. hol e = Some False} = {b}" by auto
  then show "open_in hol A = 1" by (simp add: open_in_def)
qed

lemma open_in_pos:
  assumes "finite A" "b \<in> A" "hol b = Some False"
  shows "1 \<le> open_in hol A"
proof -
  have "0 < card {e \<in> A. hol e = Some False}"
    using assms by (subst card_gt_0_iff) auto
  then show ?thesis unfolding open_in_def by linarith
qed

lemma open_in_after_split:
  assumes "a \<le> b" "b \<le> c"
  shows "open_in hol {a<..c} = open_in hol {a<..b} + open_in hol {b<..c}"
proof -
  have "{a<..c} = {a<..b} \<union> {b<..c}" using assms by auto
  then show ?thesis by (simp add: open_in_Un finite_dates disjoint_iff)
qed

lemma open_in_before_split:
  assumes "a \<le> b" "b \<le> c"
  shows "open_in hol {a..<c} = open_in hol {a..<b} + open_in hol {b..<c}"
proof -
  have "{a..<c} = {a..<b} \<union> {b..<c}" using assms by auto
  then show ?thesis by (simp add: open_in_Un finite_dates disjoint_iff not_le)
qed

lemma open_in_first: "first_open hol (succ_date a) b \<Longrightarrow> open_in hol {a<..b} = 1"
  by (rule open_in_single [of b]) (auto simp: first_open_def succ_date_le_iff)

lemma open_in_last: "last_open hol (pred_date b) a \<Longrightarrow> open_in hol {a..<b} = 1"
  by (rule open_in_single [of a]) (auto simp: last_open_def le_pred_date_iff)

definition shift_date :: "date \<Rightarrow> int \<Rightarrow> date" where
  "shift_date d k = Date (serial_number d + k)"

lemma shift_date_0 [simp]: "shift_date d 0 = d"
  by (simp add: shift_date_def)

lemma serial_shift [simp]: "serial_number (shift_date d k) = serial_number d + k"
  by (simp add: shift_date_def)

lemma shift_date_succ: "shift_date (succ_date d) k = shift_date d (k + 1)"
  by (simp add: shift_date_def succ_date_def)

lemma shift_date_pred: "shift_date (pred_date d) k = shift_date d (k - 1)"
  by (simp add: shift_date_def pred_date_def)

context market_days
begin

text \<open>Advancing by \<open>n\<close> days forward is the date with \<open>n\<close> open days in between.\<close>

lemma advance_forward_sound:
  assumes "valid_date d" "0 \<le> n" "advance_forward hol n d = Some e"
  shows "valid_date e \<and> d \<le> e \<and> open_in hol {d<..e} = n \<and> (0 < n \<longrightarrow> hol e = Some False)"
  using assms
proof (induction "nat n" arbitrary: n d)
  case 0
  then show ?case by (auto simp: advance_forward.simps [of hol 0] split: if_splits)
next
  case (Suc k)
  then have n: "0 < n" "k = nat (n - 1)" "0 \<le> n - 1" by auto
  obtain d1 where d1: "valid_date (succ_date d)" "roll_forward hol (succ_date d) = Some d1"
    and rec: "advance_forward hol (n - 1) d1 = Some e"
    using Suc.prems n by (auto simp: advance_forward.simps [of hol n] date_add_one bind_eq_Some_conv split: if_splits)
  have f: "first_open hol (succ_date d) d1" by (rule roll_forward_iff [OF d1(1), THEN iffD1, OF d1(2)])
  then have v: "valid_date d1" "d < d1" "hol d1 = Some False"
    by (auto simp: first_open_def succ_date_le_iff)
  have ih: "valid_date e \<and> d1 \<le> e \<and> open_in hol {d1<..e} = n - 1 \<and> (0 < n - 1 \<longrightarrow> hol e = Some False)"
    by (rule Suc.hyps(1) [OF n(2) v(1) n(3) rec])
  have "open_in hol {d<..e} = 1 + open_in hol {d1<..e}"
    using open_in_after_split [of d d1 e hol] ih v open_in_first [OF f] by simp
  moreover have "n = 1 \<Longrightarrow> e = d1" using rec by (simp add: advance_forward.simps)
  ultimately show ?case using ih v by auto
qed

lemma advance_forward_complete:
  assumes "valid_date d" "valid_date e" "hol e = Some False" "d < e" "open_in hol {d<..e} = n"
  shows "advance_forward hol n d = Some e"
  using assms
proof (induction "nat n" arbitrary: n d)
  case 0
  then show ?case using open_in_pos [of "{d<..e}" e hol] by (simp add: finite_dates)
next
  case (Suc k)
  have v: "valid_date (succ_date d)" by (rule valid_succ [of d e]) (use Suc.prems in auto)
  obtain d1 where d1: "roll_forward hol (succ_date d) = Some d1" "d1 \<le> e"
    using roll_forward_total [OF v, of e] Suc.prems by (auto simp: succ_date_le_iff)
  then have f: "first_open hol (succ_date d) d1" using roll_forward_iff [OF v] by simp
  then have o: "valid_date d1" "d < d1" by (auto simp: first_open_def succ_date_le_iff)
  have s: "n = 1 + open_in hol {d1<..e}"
    using open_in_after_split [of d d1 e hol] d1 o open_in_first [OF f] Suc.prems by simp
  have "advance_forward hol (n - 1) d1 = Some e"
  proof (cases "d1 = e")
    case True
    then show ?thesis using s by (simp add: advance_forward.simps)
  next
    case False
    then show ?thesis using Suc d1(2) o s by (intro Suc.hyps(1)) auto
  qed
  moreover have "0 < n" using Suc.hyps(2) by simp
  ultimately show ?case using d1(1) v Suc.prems
    by (simp add: advance_forward.simps [of hol n d] date_add_one)
qed

lemma advance_forward_iff:
  assumes "valid_date d" "0 < n"
  shows "advance_forward hol n d = Some e \<longleftrightarrow>
     d < e \<and> valid_date e \<and> hol e = Some False \<and> open_in hol {d<..e} = n"
proof -
  have "\<not> d < e \<Longrightarrow> open_in hol {d<..e} = 0" by simp
  then show ?thesis
    using advance_forward_sound [of d n e] advance_forward_complete [of d e n] assms by fastforce
qed

lemma advance_backward_sound:
  assumes "valid_date d" "n \<le> 0" "advance_backward hol n d = Some e"
  shows "valid_date e \<and> e \<le> d \<and> open_in hol {e..<d} = - n \<and> (n < 0 \<longrightarrow> hol e = Some False)"
  using assms
proof (induction "nat (- n)" arbitrary: n d)
  case 0
  then show ?case by (auto simp: advance_backward.simps [of hol 0] split: if_splits)
next
  case (Suc k)
  then have n: "n < 0" "k = nat (- (n + 1))" "n + 1 \<le> 0" by auto
  obtain d1 where d1: "valid_date (pred_date d)" "roll_backward hol (pred_date d) = Some d1"
    and rec: "advance_backward hol (n + 1) d1 = Some e"
    using Suc.prems n by (auto simp: advance_backward.simps [of hol n] date_sub_one bind_eq_Some_conv split: if_splits)
  have f: "last_open hol (pred_date d) d1" by (rule roll_backward_iff [OF d1(1), THEN iffD1, OF d1(2)])
  then have v: "valid_date d1" "d1 < d" "hol d1 = Some False"
    by (auto simp: last_open_def le_pred_date_iff)
  have ih: "valid_date e \<and> e \<le> d1 \<and> open_in hol {e..<d1} = - (n + 1) \<and> (n + 1 < 0 \<longrightarrow> hol e = Some False)"
    by (rule Suc.hyps(1) [OF n(2) v(1) n(3) rec])
  have "open_in hol {e..<d} = open_in hol {e..<d1} + 1"
    using open_in_before_split [of e d1 d hol] ih v open_in_last [OF f] by simp
  moreover have "n = - 1 \<Longrightarrow> e = d1" using rec by (simp add: advance_backward.simps)
  ultimately show ?case using ih v by auto
qed

lemma advance_backward_complete:
  assumes "valid_date d" "valid_date e" "hol e = Some False" "e < d" "open_in hol {e..<d} = - n"
  shows "advance_backward hol n d = Some e"
  using assms
proof (induction "nat (- n)" arbitrary: n d)
  case 0
  then show ?case using open_in_pos [of "{e..<d}" e hol] by (simp add: finite_dates)
next
  case (Suc k)
  have v: "valid_date (pred_date d)" by (rule valid_pred [of d e]) (use Suc.prems in auto)
  obtain d1 where d1: "roll_backward hol (pred_date d) = Some d1" "e \<le> d1"
    using roll_backward_total [OF v, of e] Suc.prems by (auto simp: le_pred_date_iff)
  then have f: "last_open hol (pred_date d) d1" using roll_backward_iff [OF v] by simp
  then have o: "valid_date d1" "d1 < d" by (auto simp: last_open_def le_pred_date_iff)
  have s: "- n = open_in hol {e..<d1} + 1"
    using open_in_before_split [of e d1 d hol] d1 o open_in_last [OF f] Suc.prems by simp
  have "advance_backward hol (n + 1) d1 = Some e"
  proof (cases "d1 = e")
    case True
    then show ?thesis using s by (simp add: advance_backward.simps)
  next
    case False
    then show ?thesis using Suc d1(2) o s by (intro Suc.hyps(1)) auto
  qed
  moreover have "n < 0" using Suc.hyps(2) by simp
  ultimately show ?case using d1(1) v Suc.prems
    by (simp add: advance_backward.simps [of hol n d] date_sub_one)
qed

lemma advance_backward_iff:
  assumes "valid_date d" "n < 0"
  shows "advance_backward hol n d = Some e \<longleftrightarrow>
     e < d \<and> valid_date e \<and> hol e = Some False \<and> open_in hol {e..<d} = - n"
proof -
  have "\<not> e < d \<Longrightarrow> open_in hol {e..<d} = 0" by simp
  then show ?thesis
    using advance_backward_sound [of d n e] advance_backward_complete [of d e n] assms by fastforce
qed

text \<open>The nearest roll moves both dates by the same least distance.\<close>

lemma roll_nearest_sound:
  assumes "valid_date d1" "valid_date d2" "roll_nearest hol d1 d2 = Some (e1, e2)"
  shows "\<exists>k\<ge>0. e1 = shift_date d1 k \<and> e2 = shift_date d2 (- k) \<and> valid_date e1 \<and> valid_date e2 \<and>
     (hol e1 = Some False \<or> hol e2 = Some False) \<and>
     (\<forall>j. 0 \<le> j \<and> j < k \<longrightarrow> hol (shift_date d1 j) = Some True \<and> hol (shift_date d2 (- j)) = Some True)"
  using assms
proof (induction arbitrary: d2 rule: date_up_induct)
  case (step d1)
  obtain h1 where h1: "hol d1 = Some h1" using hol_total [OF step.hyps] by auto
  obtain h2 where h2: "hol d2 = Some h2" using hol_total [OF step.prems(1)] by auto
  show ?case
  proof (cases "h1 \<and> h2")
    case False
    with h1 h2 step.prems step.hyps show ?thesis
      by (intro exI [of _ 0]) (cases h1; auto simp: roll_nearest.simps [of hol d1])
  next
    case True
    then have h: "hol d1 = Some True" "hol d2 = Some True" using h1 h2 by auto
    then have v: "valid_date (succ_date d1)" "valid_date (pred_date d2)"
      and r: "roll_nearest hol (succ_date d1) (pred_date d2) = Some (e1, e2)"
      using step.prems step.hyps
      by (auto simp: roll_nearest.simps [of hol d1] date_add_one date_sub_one bind_eq_Some_conv split: if_splits)
    from step.IH [OF v r] obtain k where k: "0 \<le> k" "e1 = shift_date (succ_date d1) k"
      "e2 = shift_date (pred_date d2) (- k)" "valid_date e1" "valid_date e2"
      "hol e1 = Some False \<or> hol e2 = Some False"
      and all: "\<And>j. 0 \<le> j \<Longrightarrow> j < k \<Longrightarrow> hol (shift_date (succ_date d1) j) = Some True \<and>
         hol (shift_date (pred_date d2) (- j)) = Some True"
      by auto
    have "hol (shift_date d1 j) = Some True \<and> hol (shift_date d2 (- j)) = Some True"
      if "0 \<le> j" "j < k + 1" for j
      using all [of "j - 1"] that h by (cases "j = 0") (auto simp: shift_date_succ shift_date_pred)
    moreover have "e1 = shift_date d1 (k + 1)" "e2 = shift_date d2 (- (k + 1))"
      using k by (simp_all add: shift_date_def succ_date_def pred_date_def)
    ultimately show ?thesis using k(1,4-6) by (intro exI [of _ "k + 1"]) simp
  qed
qed

lemma roll_nearest_complete:
  assumes "0 \<le> k" "valid_date (shift_date d1 k)" "valid_date (shift_date d2 (- k))"
    and "valid_date d1" "valid_date d2"
    and "hol (shift_date d1 k) = Some False \<or> hol (shift_date d2 (- k)) = Some False"
    and "\<And>j. 0 \<le> j \<Longrightarrow> j < k \<Longrightarrow> hol (shift_date d1 j) = Some True \<and> hol (shift_date d2 (- j)) = Some True"
  shows "roll_nearest hol d1 d2 = Some (shift_date d1 k, shift_date d2 (- k))"
  using assms
proof (induction "nat k" arbitrary: k d1 d2)
  case 0
  obtain h1 where h1: "hol d1 = Some h1" using hol_total 0(5) by auto
  obtain h2 where h2: "hol d2 = Some h2" using hol_total 0(6) by auto
  show ?case using 0 h1 h2 by (cases h1) (auto simp: roll_nearest.simps [of hol d1])
next
  case (Suc n)
  have h: "hol d1 = Some True" "hol d2 = Some True" using Suc.hyps(2) Suc.prems(7) [of 0] by auto
  have v: "valid_date (succ_date d1)" "valid_date (pred_date d2)"
    using Suc.hyps(2) Suc.prems(2-5) by (auto simp: valid_date_iff succ_date_def pred_date_def shift_date_def)
  have "roll_nearest hol (succ_date d1) (pred_date d2) =
      Some (shift_date (succ_date d1) (k - 1), shift_date (pred_date d2) (- (k - 1)))"
    using Suc.hyps(2) Suc.prems(1-6) v Suc.prems(7) [of "_ + 1"]
    by (intro Suc.hyps(1)) (auto simp: shift_date_succ shift_date_pred)
  then show ?case using h v Suc.prems(4,5)
    by (simp add: roll_nearest.simps [of hol d1] date_add_one date_sub_one shift_date_succ shift_date_pred)
qed

end

end
