(* ===== verification/Calendar_Laws.thy ===== *)
theory Calendar_Laws
  imports Business_Days
begin

text \<open>
  What the operations of \<open>Calendar\<close> promise, for every calendar whose market has a name and
  answers on every supported date (\<open>well_formed\<close>): the overrides, the adjustment under each
  convention, the lists of days, advancing and counting.
\<close>

section \<open>Well-formed calendars\<close>

definition total_days :: "(date \<Rightarrow> bool option) \<Rightarrow> bool" where
  "total_days f \<longleftrightarrow> (\<forall>d. valid_date d \<longrightarrow> f d \<noteq> None)"

definition well_formed :: "calendar \<Rightarrow> bool" where
  "well_formed cal \<longleftrightarrow> ci_name (imp cal) \<noteq> [] \<and> total_days (ci_is_business_day (imp cal))"

lemma is_business_day_total:
  "well_formed cal \<Longrightarrow> valid_date d \<Longrightarrow> \<exists>b. is_business_day cal d = Some b"
  by (auto simp: well_formed_def total_days_def is_business_day_def)

lemma is_holiday_iff: "is_holiday cal d = Some b \<longleftrightarrow> is_business_day cal d = Some (\<not> b)"
  by (auto simp: is_holiday_def bind_eq_Some_conv)

lemma market_days_of: "well_formed cal \<Longrightarrow> market_days (is_holiday cal)"
  by unfold_locales (auto simp: is_holiday_def dest: is_business_day_total)

lemmas roll_forward_first = market_days.roll_forward_iff [OF market_days_of]
  and roll_backward_last = market_days.roll_backward_iff [OF market_days_of]

lemma not_empty: "well_formed cal \<Longrightarrow> \<not> calendar_is_empty cal"
  by (simp add: well_formed_def calendar_is_empty_def)

lemma valid_not_null: "valid_date d \<Longrightarrow> d \<noteq> date_null"
  by (auto simp: valid_date_iff date_null_def)

section \<open>Overrides\<close>

text \<open>The overlay is clean: an added holiday is a business day of the market, a removed one is a
  holiday of the market. So an override never coincides with the market's own answer.\<close>

definition clean_overrides :: "calendar \<Rightarrow> bool" where
  "clean_overrides cal \<longleftrightarrow>
     (\<forall>d\<in>added_holidays cal. ci_is_business_day (imp cal) d = Some True) \<and>
     (\<forall>d\<in>removed_holidays cal. ci_is_business_day (imp cal) d = Some False)"

lemma clean_from_impl: "clean_overrides (calendar_from_impl i)"
  by (simp add: clean_overrides_def calendar_from_impl_def)

lemma add_holiday_effect:
  assumes "add_holiday cal d = Some cal'"
  obtains b where "ci_is_business_day (imp cal) d = Some b" "imp cal' = imp cal"
    "added_holidays cal' = (if b then insert d (added_holidays cal) else added_holidays cal)"
    "removed_holidays cal' = removed_holidays cal - {d}"
  using assms by (auto simp: add_holiday_def Let_def bind_eq_Some_conv)

lemma remove_holiday_effect:
  assumes "remove_holiday cal d = Some cal'"
  obtains b where "ci_is_business_day (imp cal) d = Some b" "imp cal' = imp cal"
    "removed_holidays cal' = (if b then removed_holidays cal else insert d (removed_holidays cal))"
    "added_holidays cal' = added_holidays cal - {d}"
  using assms by (auto simp: remove_holiday_def Let_def bind_eq_Some_conv)

lemma clean_add: "clean_overrides cal \<Longrightarrow> add_holiday cal d = Some cal' \<Longrightarrow> clean_overrides cal'"
  by (elim add_holiday_effect) (auto simp: clean_overrides_def)

lemma clean_remove: "clean_overrides cal \<Longrightarrow> remove_holiday cal d = Some cal' \<Longrightarrow> clean_overrides cal'"
  by (elim remove_holiday_effect) (auto simp: clean_overrides_def)

lemma clean_disjoint: "clean_overrides cal \<Longrightarrow> added_holidays cal \<inter> removed_holidays cal = {}"
  by (force simp: clean_overrides_def)

lemma add_holiday_imp: "add_holiday cal d = Some cal' \<Longrightarrow> imp cal' = imp cal"
  by (elim add_holiday_effect)

lemma remove_holiday_imp: "remove_holiday cal d = Some cal' \<Longrightarrow> imp cal' = imp cal"
  by (elim remove_holiday_effect)

lemma well_formed_imp: "imp cal' = imp cal \<Longrightarrow> well_formed cal' = well_formed cal"
  by (simp add: well_formed_def)

lemma add_holiday_lookup:
  assumes "clean_overrides cal" "add_holiday cal d = Some cal'"
  shows "is_business_day cal' e = (if e = d then Some False else is_business_day cal e)"
  using assms(2)
  by (rule add_holiday_effect) (use assms(1) in \<open>auto simp: is_business_day_def clean_overrides_def\<close>)

lemma remove_holiday_lookup:
  assumes "clean_overrides cal" "remove_holiday cal d = Some cal'"
  shows "is_business_day cal' e = (if e = d then Some True else is_business_day cal e)"
  using assms(2)
  by (rule remove_holiday_effect) (use assms(1) in \<open>auto simp: is_business_day_def clean_overrides_def\<close>)

text \<open>A clean overlay is determined by what the calendar answers: the last override of a date
  wins, and overrides of different dates commute.\<close>

lemma clean_overrides_ext:
  assumes "clean_overrides a" "clean_overrides b" "imp a = imp b"
    and "\<And>d. is_business_day a d = is_business_day b d"
  shows "a = b"
proof (rule calendar.equality)
  have *: "added_holidays c = {d. ci_is_business_day (imp c) d = Some True \<and> is_business_day c d = Some False}"
    "removed_holidays c = {d. ci_is_business_day (imp c) d = Some False \<and> is_business_day c d = Some True}"
    if "clean_overrides c" for c
    using that by (auto simp: clean_overrides_def is_business_day_def split: if_splits)
  show "added_holidays a = added_holidays b" "removed_holidays a = removed_holidays b"
    using * [OF assms(1)] * [OF assms(2)] assms(3,4) by simp_all
qed (use assms in simp_all)

lemma reset_lookup:
  "is_business_day (reset_added_and_removed_holidays cal) d = ci_is_business_day (imp cal) d"
  by (simp add: reset_added_and_removed_holidays_def is_business_day_def)

section \<open>Adjustment\<close>

lemma try_adjust_Unadjusted: "valid_date d \<Longrightarrow> try_adjust cal d Unadjusted = Some (Inr d)"
  using valid_not_null by (simp add: try_adjust.simps)

lemma try_adjust_Following:
  assumes "well_formed cal" "valid_date d"
  shows "try_adjust cal d Following = map_option Inr (roll_forward (is_holiday cal) d)"
  using assms by (cases "roll_forward (is_holiday cal) d")
    (simp_all add: try_adjust.simps [of _ _ Following] not_empty valid_not_null)

lemma try_adjust_Preceding:
  assumes "well_formed cal" "valid_date d"
  shows "try_adjust cal d Preceding = map_option Inr (roll_backward (is_holiday cal) d)"
  using assms by (cases "roll_backward (is_holiday cal) d")
    (simp_all add: try_adjust.simps [of _ _ Preceding] not_empty valid_not_null)

lemma adjust_of_map [simp]: "try_adjust cal d c = map_option Inr x \<Longrightarrow> adjust cal d c = x"
  by (cases x) (simp_all add: adjust_def)

lemma adjust_Unadjusted: "valid_date d \<Longrightarrow> adjust cal d Unadjusted = Some d"
  by (simp add: adjust_def try_adjust_Unadjusted)

lemma adjust_Following: "well_formed cal \<Longrightarrow> valid_date d \<Longrightarrow>
    adjust cal d Following = Some e \<longleftrightarrow> first_open (is_holiday cal) d e"
  by (simp add: try_adjust_Following roll_forward_first)

lemma adjust_Preceding: "well_formed cal \<Longrightarrow> valid_date d \<Longrightarrow>
    adjust cal d Preceding = Some e \<longleftrightarrow> last_open (is_holiday cal) d e"
  by (simp add: try_adjust_Preceding roll_backward_last)

lemma bd_holiday_False: "is_holiday cal d = Some False \<longleftrightarrow> is_business_day cal d = Some True"
  by (simp add: is_holiday_iff)

lemma same_month_split: "date_month d1 = Some m1 \<Longrightarrow> date_month d = Some m \<Longrightarrow>
    (date_month d1 = date_month d) = (m1 = m)"
  by simp

text \<open>Modified following: the next business day, unless it falls in another month; then the
  previous one. Modified preceding is its mirror image.\<close>

lemma adjust_ModifiedFollowing:
  assumes wf: "well_formed cal" and v: "valid_date d"
  shows "adjust cal d ModifiedFollowing = Some e \<longleftrightarrow>
     (\<exists>f. first_open (is_holiday cal) d f \<and>
        (if date_month f = date_month d then e = f else last_open (is_holiday cal) d e))"
proof (cases "roll_forward (is_holiday cal) d")
  case None
  then have "\<not> first_open (is_holiday cal) d f" for f
    using roll_forward_first [OF wf v, of f] by simp
  then show ?thesis using None wf v
    by (simp add: adjust_def try_adjust.simps [of _ _ ModifiedFollowing] not_empty valid_not_null)
next
  case (Some f)
  have fo: "first_open (is_holiday cal) d f" using Some roll_forward_first [OF wf v] by blast
  then have vf: "valid_date f" by (simp add: first_open_def)
  obtain m1 m where m: "date_month f = Some m1" "date_month d = Some m"
    using date_month_total [OF vf] date_month_total [OF v] by blast
  have "first_open (is_holiday cal) d g \<longleftrightarrow> g = f" for g
    using fo first_open_unique by blast
  moreover have "adjust cal d ModifiedFollowing = (if m1 = m then Some f else adjust cal d Preceding)"
    using Some m wf v
    by (simp add: adjust_def try_adjust.simps [of _ _ ModifiedFollowing] not_empty valid_not_null)
  ultimately show ?thesis using m adjust_Preceding [OF wf v] by auto
qed

lemma adjust_ModifiedPreceding:
  assumes wf: "well_formed cal" and v: "valid_date d"
  shows "adjust cal d ModifiedPreceding = Some e \<longleftrightarrow>
     (\<exists>f. last_open (is_holiday cal) d f \<and>
        (if date_month f = date_month d then e = f else first_open (is_holiday cal) d e))"
proof (cases "roll_backward (is_holiday cal) d")
  case None
  then have "\<not> last_open (is_holiday cal) d f" for f
    using roll_backward_last [OF wf v, of f] by simp
  then show ?thesis using None wf v
    by (simp add: adjust_def try_adjust.simps [of _ _ ModifiedPreceding] not_empty valid_not_null)
next
  case (Some f)
  have fo: "last_open (is_holiday cal) d f" using Some roll_backward_last [OF wf v] by blast
  then have vf: "valid_date f" by (simp add: last_open_def)
  obtain m1 m where m: "date_month f = Some m1" "date_month d = Some m"
    using date_month_total [OF vf] date_month_total [OF v] by blast
  have "last_open (is_holiday cal) d g \<longleftrightarrow> g = f" for g
    using fo last_open_unique by blast
  moreover have "adjust cal d ModifiedPreceding = (if m1 = m then Some f else adjust cal d Following)"
    using Some m wf v
    by (simp add: adjust_def try_adjust.simps [of _ _ ModifiedPreceding] not_empty valid_not_null)
  ultimately show ?thesis using m adjust_Following [OF wf v] by auto
qed

text \<open>Half-month modified following also stays in its half of the month.\<close>

lemma adjust_HalfMonth:
  assumes wf: "well_formed cal" and v: "valid_date d"
    and f: "first_open (is_holiday cal) d f"
    and days: "date_day_of_month d = Some k" "date_day_of_month f = Some kf"
  shows "adjust cal d HalfMonthModifiedFollowing = Some e \<longleftrightarrow>
     (if date_month f = date_month d \<and> \<not> (k \<le> 15 \<and> 15 < kf) then e = f
      else last_open (is_holiday cal) d e)"
proof -
  have r: "roll_forward (is_holiday cal) d = Some f" using f roll_forward_first [OF wf v] by simp
  have vf: "valid_date f" using f by (simp add: first_open_def)
  obtain m1 m where m: "date_month f = Some m1" "date_month d = Some m"
    using date_month_total [OF vf] date_month_total [OF v] by blast
  have "adjust cal d HalfMonthModifiedFollowing =
      (if m1 = m \<and> \<not> (k \<le> 15 \<and> 15 < kf) then Some f else adjust cal d Preceding)"
    using r m wf v days
    by (simp add: adjust_def try_adjust.simps [of _ _ HalfMonthModifiedFollowing] not_empty valid_not_null)
  then show ?thesis using m adjust_Preceding [OF wf v] by auto
qed

text \<open>Nearest: the business day at the least distance, the later one on a tie.\<close>

lemma adjust_Nearest_roll:
  assumes wf: "well_formed cal" and v: "valid_date d" and a: "adjust cal d Nearest = Some e"
  shows "\<exists>k\<ge>0. (e = shift_date d k \<or> e = shift_date d (- k) \<and> is_holiday cal (shift_date d k) = Some True) \<and>
     valid_date e \<and> is_business_day cal e = Some True \<and>
     (\<forall>j. \<bar>j\<bar> < k \<longrightarrow> is_holiday cal (shift_date d j) = Some True)"
proof -
  obtain e1 e2 h1 where r: "roll_nearest (is_holiday cal) d d = Some (e1, e2)"
    "is_holiday cal e1 = Some h1" "e = (if h1 then e2 else e1)"
    using a wf v by (auto simp: adjust_def try_adjust.simps [of _ _ Nearest] not_empty valid_not_null bind_eq_Some_conv)
  obtain k where k: "0 \<le> k" "e1 = shift_date d k" "e2 = shift_date d (- k)" "valid_date e1" "valid_date e2"
    "is_holiday cal e1 = Some False \<or> is_holiday cal e2 = Some False"
    and all: "\<And>j. 0 \<le> j \<Longrightarrow> j < k \<Longrightarrow> is_holiday cal (shift_date d j) = Some True \<and>
        is_holiday cal (shift_date d (- j)) = Some True"
    using market_days.roll_nearest_sound [OF market_days_of [OF wf] v v r(1)] by auto
  have "is_holiday cal (shift_date d j) = Some True" if "\<bar>j\<bar> < k" for j
    using all [of j] all [of "- j"] that by (cases "0 \<le> j") auto
  then show ?thesis using k r by (intro exI [of _ k]) (auto simp: is_holiday_iff)
qed

lemma shift_to: "e = shift_date d (serial_number e - serial_number d)"
  by (simp add: shift_date_def)

lemma adjust_Nearest_minimal:
  assumes "well_formed cal" "valid_date d" "adjust cal d Nearest = Some e"
    and "is_business_day cal x = Some True"
  shows "\<bar>serial_number e - serial_number d\<bar> \<le> \<bar>serial_number x - serial_number d\<bar> \<and>
     (e < d \<longrightarrow> serial_number x \<noteq> 2 * serial_number d - serial_number e)"
proof -
  obtain k where k: "0 \<le> k"
    "e = shift_date d k \<or> e = shift_date d (- k) \<and> is_holiday cal (shift_date d k) = Some True"
    and all: "\<And>j. \<bar>j\<bar> < k \<Longrightarrow> is_holiday cal (shift_date d j) = Some True"
    using adjust_Nearest_roll [OF assms(1-3)] by blast
  have "\<not> \<bar>serial_number x - serial_number d\<bar> < k"
    using all [of "serial_number x - serial_number d"] assms(4) by (auto simp: is_holiday_iff shift_date_def)
  moreover have "x = shift_date d k \<Longrightarrow> e = shift_date d k"
    using k(2) assms(4) by (auto simp: is_holiday_iff)
  ultimately show ?thesis using k
    by (auto simp: less_date_def shift_date_def date.expand)
qed

section \<open>Results of an adjustment\<close>

lemma adjust_result:
  assumes wf: "well_formed cal" and v: "valid_date d" and a: "adjust cal d c = Some e"
  shows "valid_date e \<and> (c \<noteq> Unadjusted \<longrightarrow> is_business_day cal e = Some True)"
proof (cases c)
  case Following
  then show ?thesis using a adjust_Following [OF wf v] by (auto simp: first_open_def is_holiday_iff)
next
  case ModifiedFollowing
  then show ?thesis using a adjust_ModifiedFollowing [OF wf v]
    by (auto simp: first_open_def last_open_def is_holiday_iff split: if_splits)
next
  case Preceding
  then show ?thesis using a adjust_Preceding [OF wf v] by (auto simp: last_open_def is_holiday_iff)
next
  case ModifiedPreceding
  then show ?thesis using a adjust_ModifiedPreceding [OF wf v]
    by (auto simp: first_open_def last_open_def is_holiday_iff split: if_splits)
next
  case Unadjusted
  then show ?thesis using a v by (simp add: adjust_Unadjusted)
next
  case HalfMonthModifiedFollowing
  obtain f where f: "first_open (is_holiday cal) d f"
    using a HalfMonthModifiedFollowing roll_forward_first [OF wf v]
    by (auto simp: adjust_def try_adjust.simps [of _ _ HalfMonthModifiedFollowing] not_empty [OF wf]
        bind_eq_Some_conv)
  then have vf: "valid_date f" by (simp add: first_open_def)
  obtain k kf where "date_day_of_month d = Some k" "date_day_of_month f = Some kf"
    using date_day_of_month_total [OF v] date_day_of_month_total [OF vf] by blast
  then show ?thesis using adjust_HalfMonth [OF wf v f] a HalfMonthModifiedFollowing f
    by (auto simp: first_open_def last_open_def is_holiday_iff split: if_splits)
next
  case Nearest
  then show ?thesis using a adjust_Nearest_roll [OF wf v] by auto
qed

lemma adjust_fixed:
  assumes wf: "well_formed cal" and v: "valid_date d" and b: "is_business_day cal d = Some True"
  shows "adjust cal d c = Some d"
proof -
  have h: "is_holiday cal d = Some False" using b by (simp add: is_holiday_iff)
  then have f: "roll_forward (is_holiday cal) d = Some d" "roll_backward (is_holiday cal) d = Some d"
    "roll_nearest (is_holiday cal) d d = Some (d, d)"
    by (simp_all add: roll_forward.simps [of _ d] roll_backward.simps [of _ d] roll_nearest.simps [of _ d])
  obtain m k where "date_month d = Some m" "date_day_of_month d = Some k"
    using date_month_total [OF v] date_day_of_month_total [OF v] by blast
  then show ?thesis using f h not_empty [OF wf] valid_not_null [OF v]
    unfolding adjust_def by (subst try_adjust.simps) (cases c; force)
qed

lemma adjust_idem:
  assumes "well_formed cal" "valid_date d" "adjust cal d c = Some e" "c \<noteq> Unadjusted"
  shows "adjust cal e c' = Some e"
  using adjust_result [OF assms(1-3)] assms(4) adjust_fixed [OF assms(1)] by blast

text \<open>An unnamed calendar adjusts nothing: the error value, and a panic of \<open>adjust\<close>.\<close>

lemma try_adjust_empty:
  "valid_date d \<Longrightarrow> c \<noteq> Unadjusted \<Longrightarrow> calendar_is_empty cal \<Longrightarrow>
     try_adjust cal d c = Some (Inl NoCalendarImplementation) \<and> adjust cal d c = None"
  using valid_not_null by (simp add: adjust_def try_adjust.simps [of _ _ c])

lemma try_adjust_null: "try_adjust cal date_null c = None"
  by (simp add: try_adjust.simps)

lemma try_adjust_not_error:
  assumes "well_formed cal" "valid_date d"
  shows "try_adjust cal d c \<noteq> Some (Inl e)"
  using not_empty [OF assms(1)] valid_not_null [OF assms(2)] try_adjust_Following [OF assms]
    try_adjust_Preceding [OF assms]
  by (subst try_adjust.simps) (auto simp: bind_eq_Some_conv split: if_splits)

lemma try_adjust_ok:
  "well_formed cal \<Longrightarrow> valid_date d \<Longrightarrow> try_adjust cal d c = map_option Inr (adjust cal d c)"
  using try_adjust_not_error [of cal d c]
  by (cases "try_adjust cal d c") (auto simp: adjust_def split: sum.splits)

lemma adjust_Following_mono:
  assumes wf: "well_formed cal" and v: "valid_date d" "valid_date d'" "d \<le> d'"
    and a: "adjust cal d Following = Some e" "adjust cal d' Following = Some e'"
  shows "e \<le> e'"
proof -
  have "first_open (is_holiday cal) d e" "first_open (is_holiday cal) d' e'"
    using a adjust_Following [OF wf] v by auto
  then show ?thesis using first_open_least [of _ d e e'] v(3) by (auto simp: first_open_def)
qed

lemma adjust_Preceding_mono:
  assumes wf: "well_formed cal" and v: "valid_date d" "valid_date d'" "d \<le> d'"
    and a: "adjust cal d Preceding = Some e" "adjust cal d' Preceding = Some e'"
  shows "e \<le> e'"
proof -
  have "last_open (is_holiday cal) d e" "last_open (is_holiday cal) d' e'"
    using a adjust_Preceding [OF wf] v by auto
  then show ?thesis using last_open_greatest [of _ d' e' e] v(3) by (auto simp: last_open_def)
qed

section \<open>Lists of days\<close>

definition dates_from_to :: "date \<Rightarrow> date \<Rightarrow> date list" where
  "dates_from_to a b = map Date [serial_number a .. serial_number b]"

lemma set_dates_from_to: "set (dates_from_to a b) = {a..b}"
  by (force simp: dates_from_to_def less_eq_date_def image_iff)

lemma sorted_dates_from_to: "sorted_wrt (<) (dates_from_to a b)"
  by (simp add: dates_from_to_def sorted_wrt_map sorted_wrt_upto)

lemma dates_from_to_step: "a \<le> b \<Longrightarrow> dates_from_to a b = a # dates_from_to (succ_date a) b"
  by (simp add: dates_from_to_def succ_date_def less_eq_date_def upto_rec1)

lemma dates_from_to_empty: "\<not> a \<le> b \<Longrightarrow> dates_from_to a b = []"
  by (simp add: dates_from_to_def less_eq_date_def)

lemma date_after_end: "valid_date d \<Longrightarrow> valid_date to \<Longrightarrow> d < to \<Longrightarrow>
    date_add d 1 = Some (succ_date d) \<and> valid_date (succ_date d)"
  using valid_succ [of d to] date_add_one [of d] by auto

text \<open>A loop that collects the days passing a test returns the filtered range of dates.\<close>

lemma collect_loop:
  assumes loop: "\<And>d. f d = (if d \<le> to then do {
        k \<leftarrow> test d;
        rest \<leftarrow> if d = to then Some [] else do { d' \<leftarrow> date_add d 1; f d' };
        Some (if k then d # rest else rest) } else Some [])"
    and test: "total_days test" and to: "valid_date to" and d: "valid_date d"
  shows "f d = Some (filter (\<lambda>x. test x = Some True) (dates_from_to d to))"
  using d
proof (induction rule: date_up_induct)
  case (step d)
  obtain k where k: "test d = Some k" using test step.hyps by (auto simp: total_days_def)
  consider "\<not> d \<le> to" | "d = to" | "d < to" by fastforce
  then show ?case
  proof cases
    case 1
    then show ?thesis by (simp add: loop [of d] dates_from_to_empty)
  next
    case 2
    have "\<not> succ_date to \<le> to" by (simp add: succ_date_le_iff)
    then show ?thesis using 2 k by (simp add: loop [of to] dates_from_to_step dates_from_to_empty)
  next
    case 3
    have s: "date_add d 1 = Some (succ_date d)" "valid_date (succ_date d)"
      using date_after_end [OF step.hyps to 3] by auto
    show ?thesis using less_imp_le [OF 3] less_imp_neq [OF 3] k s(1) step.IH [OF s(2)] by (subst loop) (simp add: dates_from_to_step [of d])
  qed
qed

text \<open>Both lists are the days of the range, in increasing order, that pass the test.\<close>

lemma business_day_list_eq:
  assumes "well_formed cal" "valid_date d" "valid_date to"
  shows "business_day_list cal d to =
     Some (filter (\<lambda>x. is_business_day cal x = Some True) (dates_from_to d to))"
proof (rule collect_loop [OF _ _ assms(3,2)])
  show "total_days (is_business_day cal)"
    using is_business_day_total [OF assms(1)] by (auto simp: total_days_def)
qed (rule business_day_list.simps)

definition listed_holiday :: "calendar \<Rightarrow> bool \<Rightarrow> date \<Rightarrow> bool option" where
  "listed_holiday cal include_weekends d = do {
     h \<leftarrow> is_holiday cal d;
     if h \<and> \<not> include_weekends then do { w \<leftarrow> is_weekend_on cal d; Some (\<not> w) } else Some h
   }"

lemma listed_holiday_iff:
  "listed_holiday cal include_weekends x = Some True \<longleftrightarrow>
     is_holiday cal x = Some True \<and> (include_weekends \<or> is_weekend_on cal x = Some False)"
  by (auto simp: listed_holiday_def bind_eq_Some_conv)

lemma holiday_list_eq:
  assumes "well_formed cal" "total_days (is_weekend_on cal)" "valid_date d" "valid_date to"
  shows "holiday_list cal d to include_weekends =
     Some (filter (\<lambda>x. is_holiday cal x = Some True \<and>
        (include_weekends \<or> is_weekend_on cal x = Some False)) (dates_from_to d to))"
proof -
  have "total_days (listed_holiday cal include_weekends)"
    using market_days.hol_total [OF market_days_of, OF assms(1)] assms(2)
    by (force simp: total_days_def listed_holiday_def)
  note total = this
  have "holiday_list cal d to include_weekends =
      Some (filter (\<lambda>x. listed_holiday cal include_weekends x = Some True) (dates_from_to d to))"
  proof (rule collect_loop [OF _ total assms(4,3)])
    show "holiday_list cal d to include_weekends = (if d \<le> to then do {
        k \<leftarrow> listed_holiday cal include_weekends d;
        rest \<leftarrow> if d = to then Some [] else do { d' \<leftarrow> date_add d 1; holiday_list cal d' to include_weekends };
        Some (if k then d # rest else rest) } else Some [])" for d
      by (subst holiday_list.simps) (simp add: listed_holiday_def bind_assoc)
  qed
  then show ?thesis by (simp add: listed_holiday_iff)
qed

section \<open>Advancing and counting\<close>

lemma open_in_business: "open_in (is_holiday cal) A = int (card {x \<in> A. is_business_day cal x = Some True})"
  by (simp add: open_in_def is_holiday_iff)

text \<open>Advancing by \<open>n > 0\<close> days is the business day with exactly \<open>n\<close> business days after the
  start and up to it; the convention plays no part.\<close>

lemma advance_days_iff:
  assumes "well_formed cal" "valid_date d" "0 < n"
  shows "advance cal d n Days c eom = Some e \<longleftrightarrow>
     d < e \<and> valid_date e \<and> is_business_day cal e = Some True \<and>
     int (card {x. d < x \<and> x \<le> e \<and> is_business_day cal x = Some True}) = n"
proof -
  have "advance cal d n Days c eom = advance_forward (is_holiday cal) n d"
    using assms by (simp add: advance_def not_empty valid_not_null)
  then show ?thesis using market_days.advance_forward_iff [OF market_days_of [OF assms(1)] assms(2,3)]
    by (simp add: is_holiday_iff open_in_business)
qed

lemma advance_days_back_iff:
  assumes "well_formed cal" "valid_date d" "n < 0"
  shows "advance cal d n Days c eom = Some e \<longleftrightarrow>
     e < d \<and> valid_date e \<and> is_business_day cal e = Some True \<and>
     int (card {x. e \<le> x \<and> x < d \<and> is_business_day cal x = Some True}) = - n"
proof -
  have "advance cal d n Days c eom = advance_backward (is_holiday cal) n d"
    using assms by (simp add: advance_def not_empty valid_not_null)
  then show ?thesis using market_days.advance_backward_iff [OF market_days_of [OF assms(1)] assms(2,3)]
    by (simp add: is_holiday_iff open_in_business)
qed

lemma count_business_days_eq:
  assumes "well_formed cal" "valid_date d" "valid_date to"
  shows "count_business_days cal d to res = Some (res + open_in (is_holiday cal) {d..<to})"
  using assms(2)
proof (induction arbitrary: res rule: date_up_induct)
  case (step d)
  show ?case
  proof (cases "d < to")
    case False
    then show ?thesis by (simp add: count_business_days.simps [of cal d])
  next
    case True
    have s: "date_add d 1 = Some (succ_date d)" "valid_date (succ_date d)"
      using date_after_end [OF step.hyps assms(3) True] by auto
    obtain b where b: "is_business_day cal d = Some b" using is_business_day_total [OF assms(1) step.hyps] by auto
    have "{d..<to} = {d} \<union> {succ_date d..<to}" "{d} \<inter> {succ_date d..<to} = {}"
      using True by (auto simp: succ_date_le_iff)
    then have "open_in (is_holiday cal) {d..<to} =
        open_in (is_holiday cal) {d} + open_in (is_holiday cal) {succ_date d..<to}"
      using open_in_Un [OF _ finite_dates(2)] by (metis finite.emptyI finite.insertI)
    moreover have "{x. x = d \<and> is_business_day cal x = Some True} = (if b then {d} else {})"
      using b by auto
    then have "open_in (is_holiday cal) {d} = of_bool b"
      by (simp add: open_in_business)
    ultimately show ?thesis using True s b step.IH by (simp add: count_business_days.simps [of cal d])
  qed
qed

text \<open>The day count: business days of the interval, each endpoint counted when asked for.\<close>

definition business_days_in :: "calendar \<Rightarrow> date set \<Rightarrow> int" where
  "business_days_in cal A = int (card {x \<in> A. is_business_day cal x = Some True})"

lemma open_in_business_days: "open_in (is_holiday cal) A = business_days_in cal A"
  by (simp add: business_days_in_def open_in_business)

lemma business_days_in_Un:
  "finite A \<Longrightarrow> finite B \<Longrightarrow> A \<inter> B = {} \<Longrightarrow>
     business_days_in cal (A \<union> B) = business_days_in cal A + business_days_in cal B"
  using open_in_Un [of A B "is_holiday cal"] by (simp add: open_in_business_days)

lemma business_days_in_single:
  "is_business_day cal d = Some b \<Longrightarrow> business_days_in cal {d} = of_bool b"
proof -
  assume "is_business_day cal d = Some b"
  then have "{x \<in> {d}. is_business_day cal x = Some True} = (if b then {d} else {})" by auto
  then show ?thesis by (simp add: business_days_in_def)
qed

definition interval :: "date \<Rightarrow> date \<Rightarrow> bool \<Rightarrow> bool \<Rightarrow> date set" where
  "interval a b incf incl = {x. (a < x \<or> incf \<and> x = a) \<and> (x < b \<or> incl \<and> x = b)}"

lemma days_between_impl_eq:
  assumes wf: "well_formed cal" and v: "valid_date a" "valid_date b" "a < b"
  shows "days_between_impl cal a b incf incl = Some (business_days_in cal (interval a b incf incl))"
proof -
  obtain bb where bb: "is_business_day cal b = Some bb" using is_business_day_total [OF wf v(2)] by auto
  define d where "d = (if incf then a else succ_date a)"
  have d: "valid_date d" "(if incf then Some a else date_add a 1) = Some d"
    using date_after_end [OF v(1,2,3)] v by (auto simp: d_def)
  have "interval a b incf incl = {d..<b} \<union> (if incl then {b} else {})"
    using v(3) by (auto simp: interval_def d_def succ_date_le_iff less_imp_le)
  then have "business_days_in cal (interval a b incf incl) = business_days_in cal {d..<b} + of_bool (incl \<and> bb)"
    using business_days_in_Un [OF finite_dates(2) _, of "{b}" d b cal] business_days_in_single [OF bb]
    by auto
  then show ?thesis using count_business_days_eq [OF wf d(1) v(2), of "of_bool (incl \<and> bb)"] bb d(2)
    by (cases incl) (simp_all add: days_between_impl_def open_in_business_days)
qed

lemma business_days_between_eq:
  assumes wf: "well_formed cal" and v: "valid_date a" "valid_date b"
  shows "business_days_between cal a b incf incl = Some
     (if a \<le> b then business_days_in cal (interval a b incf incl)
      else - business_days_in cal (interval b a incl incf))"
proof -
  obtain ba where ba: "is_business_day cal a = Some ba" using is_business_day_total [OF wf v(1)] by auto
  consider "a < b" | "b < a" | "a = b" by fastforce
  then show ?thesis
  proof cases
    case 3
    have "interval a a incf incl = (if incf \<and> incl then {a} else {})" by (auto simp: interval_def)
    then show ?thesis using 3 business_days_in_single [OF ba] ba
      by (simp add: business_days_between_def business_days_in_def)
  qed (use days_between_impl_eq [OF wf] v in \<open>auto simp: business_days_between_def\<close>)
qed

lemma business_days_in_after: "business_days_in cal (interval a b False True) = open_in (is_holiday cal) {a<..b}"
proof -
  have "interval a b False True = {a<..b}" by (auto simp: interval_def)
  then show ?thesis by (simp add: open_in_business_days)
qed

text \<open>The count is additive and antisymmetric.\<close>

lemma business_days_between_swap:
  assumes "well_formed cal" "valid_date a" "valid_date b" "a \<noteq> b"
  shows "business_days_between cal b a incl incf = map_option uminus (business_days_between cal a b incf incl)"
  using assms by (auto simp: business_days_between_eq)

lemma business_days_between_add:
  assumes "well_formed cal" "valid_date a" "valid_date b" "valid_date c" "a \<le> b" "b \<le> c"
    and "business_days_between cal a b False True = Some m" "business_days_between cal b c False True = Some n"
  shows "business_days_between cal a c False True = Some (m + n)"
  using assms open_in_after_split [of a b c "is_holiday cal"]
  by (auto simp: business_days_between_eq business_days_in_after)

text \<open>Advancing by the counted days comes back to the business day counted to.\<close>

lemma advance_counted:
  assumes wf: "well_formed cal" and v: "valid_date a" "valid_date b" "is_business_day cal b = Some True"
    and n: "business_days_between cal a b False True = Some n" "a < b"
  shows "advance cal a n Days c eom = Some b"
proof -
  have "n = open_in (is_holiday cal) {a<..b}"
    using n business_days_between_eq [OF wf v(1,2)] by (simp add: business_days_in_after less_imp_le)
  moreover have "1 \<le> open_in (is_holiday cal) {a<..b}"
    using n(2) v(3) by (intro open_in_pos [of _ b]) (auto simp: finite_dates is_holiday_iff)
  ultimately show ?thesis using advance_days_iff [OF wf v(1)] v n by (simp add: open_in_business)
qed

lemma counted_advance:
  assumes wf: "well_formed cal" and v: "valid_date a" "0 < n"
    and a: "advance cal a n Days c eom = Some b"
  shows "business_days_between cal a b False True = Some n"
  using advance_days_iff [OF wf v] a
  by (auto simp: business_days_between_eq [OF wf v(1)] business_days_in_after open_in_business)

text \<open>The list of business days is as long as the count with both ends included.\<close>

lemma length_business_day_list:
  assumes wf: "well_formed cal" and v: "valid_date a" "valid_date b" "a \<le> b"
    and l: "business_day_list cal a b = Some xs"
  shows "business_days_between cal a b True True = Some (int (length xs)) \<and> sorted_wrt (<) xs"
proof -
  have xs: "xs = filter (\<lambda>x. is_business_day cal x = Some True) (dates_from_to a b)"
    using l business_day_list_eq [OF wf v(1,2)] by simp
  then have s: "sorted_wrt (<) xs" using sorted_dates_from_to by (simp add: sorted_wrt_filter)
  then have "distinct xs" using strict_sorted_iff by blast
  then have "length xs = card (set xs)" by (simp add: distinct_card)
  moreover have "set xs = {x \<in> interval a b True True. is_business_day cal x = Some True}"
    using xs v(3) by (auto simp: set_dates_from_to interval_def)
  ultimately show ?thesis using s v business_days_between_eq [OF wf v(1,2)]
    by (simp add: business_days_in_def)
qed

section \<open>Months\<close>

text \<open>With the end-of-month flag, a business month-end advances to a business month-end.\<close>

lemma advance_months_snap:
  assumes wf: "well_formed cal" and v: "valid_date d" and u: "u = Months \<or> u = Years" and n: "n \<noteq> 0"
    and d1: "date_plus d (period_new n u) = Some d1"
    and e: "is_end_of_month cal d = Some True" and c: "c \<noteq> Unadjusted"
  shows "advance cal d n u c True = end_of_month cal d1"
  using assms by (auto simp: advance_def not_empty valid_not_null)

text \<open>Without it (or away from the month-end), the shifted date is adjusted.\<close>

lemma advance_months_plain:
  assumes wf: "well_formed cal" and v: "valid_date d" and u: "u = Months \<or> u = Years" and n: "n \<noteq> 0"
    and d1: "date_plus d (period_new n u) = Some d1"
    and e: "eom \<longrightarrow> c \<noteq> Unadjusted \<and> is_end_of_month cal d = Some False"
  shows "advance cal d n u c eom = adjust cal d1 c"
  using assms by (cases eom) (auto simp: advance_def not_empty valid_not_null)

lemma advance_weeks:
  assumes wf: "well_formed cal" and v: "valid_date d" and n: "n \<noteq> 0"
    and d1: "date_plus d (period_new n Weeks) = Some d1"
  shows "advance cal d n Weeks c eom = adjust cal d1 c"
  using assms by (simp add: advance_def not_empty valid_not_null)

lemma advance_zero:
  assumes "well_formed cal" "valid_date d"
  shows "advance cal d 0 u c eom = adjust cal d c"
  using assms by (simp add: advance_def not_empty valid_not_null)

lemma date_plus_valid: "date_plus d p = Some d' \<Longrightarrow> valid_date d'"
  by (simp add: date_plus_def date_advance_valid)

lemma date_end_of_month_valid: "date_end_of_month d = Some e \<Longrightarrow> valid_date e"
  by (auto simp: date_end_of_month_def bind_eq_Some_conv intro: valid_intros)

lemma date_start_of_month_valid: "date_start_of_month d = Some e \<Longrightarrow> valid_date e"
  by (auto simp: date_start_of_month_def bind_eq_Some_conv intro: valid_intros)

lemma advance_result:
  assumes wf: "well_formed cal" and v: "valid_date d"
    and a: "advance cal d n u c eom = Some e" and c: "c \<noteq> Unadjusted"
  shows "valid_date e \<and> is_business_day cal e = Some True"
proof -
  have adj: "valid_date x \<Longrightarrow> adjust cal x c' = Some e \<Longrightarrow> c' \<noteq> Unadjusted \<Longrightarrow> ?thesis" for x c'
    using adjust_result [OF wf, of x c' e] by blast
  have em: "end_of_month cal x = Some e \<Longrightarrow> ?thesis" for x
    using adj by (auto simp: end_of_month_def bind_eq_Some_conv dest: date_end_of_month_valid)
  have ad: "date_plus x p = Some y \<Longrightarrow> adjust cal y c = Some e \<Longrightarrow> ?thesis" for x p y
    using adj c date_plus_valid by blast
  consider "n = 0" | "u = Days" "0 < n" | "u = Days" "n < 0" | "n \<noteq> 0" "u \<noteq> Days" by fastforce
  then show ?thesis
  proof cases
    case 1
    then show ?thesis using a c v adj advance_zero [OF wf v] by simp
  next
    case 2
    then show ?thesis using a advance_days_iff [OF wf v] by simp
  next
    case 3
    then show ?thesis using a advance_days_back_iff [OF wf v] by simp
  next
    case 4
    then show ?thesis using a c
      by (auto simp: advance_def bind_eq_Some_conv split: if_splits dest: ad em)
  qed
qed

section \<open>Histories of overrides\<close>

text \<open>The calendars that holiday edits can reach from a given one.\<close>

inductive override_step :: "calendar \<Rightarrow> calendar \<Rightarrow> bool" where
  add: "add_holiday cal d = Some cal' \<Longrightarrow> override_step cal cal'"
| remove: "remove_holiday cal d = Some cal' \<Longrightarrow> override_step cal cal'"
| reset: "override_step cal (reset_added_and_removed_holidays cal)"

inductive_cases override_stepE: "override_step cal cal'"
inductive_simps override_step_iff: "override_step cal cal'"

inductive edited :: "calendar \<Rightarrow> calendar \<Rightarrow> bool" for cal where
  start: "edited cal cal"
| step: "edited cal cal' \<Longrightarrow> override_step cal' cal'' \<Longrightarrow> edited cal cal''"

lemma clean_reset: "clean_overrides (reset_added_and_removed_holidays cal)"
  by (simp add: clean_overrides_def reset_added_and_removed_holidays_def)

lemma reset_imp: "imp (reset_added_and_removed_holidays cal) = imp cal"
  by (simp add: reset_added_and_removed_holidays_def)

lemma clean_step: "override_step cal cal' \<Longrightarrow> clean_overrides cal \<Longrightarrow> clean_overrides cal' \<and> imp cal' = imp cal"
proof (induction rule: override_step.induct)
  case (add cal d cal')
  then show ?case using clean_add add_holiday_imp by blast
next
  case (remove cal d cal')
  then show ?case using clean_remove remove_holiday_imp by blast
next
  case (reset cal)
  show ?case by (intro conjI clean_reset reset_imp)
qed

lemma edited_clean: "edited cal cal' \<Longrightarrow> clean_overrides cal \<Longrightarrow> clean_overrides cal' \<and> imp cal' = imp cal"
proof (induction rule: edited.induct)
  case (step cal' cal'')
  then show ?case using clean_step [OF step.hyps(2)] by metis
qed simp

lemma edited_clean_fresh:
  "edited (calendar_from_impl i) cal \<Longrightarrow> clean_overrides cal \<and> imp cal = i"
  using edited_clean [OF _ clean_from_impl] by (metis calendar.select_convs(1) calendar_from_impl_def)

lemma edited_determined:
  assumes "edited (calendar_from_impl i) a" "edited (calendar_from_impl i) b"
    and "\<And>d. is_business_day a d = is_business_day b d"
  shows "a = b"
  using assms edited_clean_fresh [OF assms(1)] edited_clean_fresh [OF assms(2)]
  by (intro clean_overrides_ext) auto

end
