(* ===== verification/Live_Markets.thy ===== *)
theory Live_Markets
  imports Calendar_Laws
begin

text \<open>
  The interfaces a market offers. \<open>market\<close>: a named implementation that answers on every
  supported date; \<open>live_market\<close>: one that also has a business day in every window of
  \<open>gap + 1\<close> days. The first gives the whole algebra of \<open>Calendar_Laws\<close>; the second makes
  the adjustments total and monotone and keeps the modified conventions in their month.
\<close>

section \<open>The month of a date\<close>

lemma date_month_index:
  assumes "valid_date d"
  obtains t where "first_month \<le> t" "t \<le> last_month" "date_month d = Some (index_month t)"
    "date_year d = Some (t div 12)" "month_start t < serial_number d" "serial_number d \<le> month_start (t + 1)"
proof -
  obtain dd m y where i: "date_year d = Some y" "date_month d = Some m" "date_new dd m y = Some d"
    using date_inspect [OF assms] by metis
  let ?t = "month_index m y"
  have n: "first_month \<le> ?t" "?t \<le> last_month" "1 \<le> dd" "dd \<le> month_days ?t"
    "d = Date (month_start ?t + dd)"
    using i(3) by (auto simp: date_new_month_start)
  show ?thesis
    by (rule that [of ?t]) (use i n month_start_Suc [OF n(1,2)] in auto)
qed

lemma month_start_mono: "first_month \<le> t \<Longrightarrow> t \<le> u \<Longrightarrow> u \<le> last_month + 1 \<Longrightarrow> month_start t \<le> month_start u"
  using month_start_less(1) [of t u] by (cases "t = u") auto

lemma month_start_first: "month_start first_month = 366"
  by (simp add: month_start_def index_month_def month_from_ordinal_def days_before_year_def)

lemma month_unique:
  assumes "first_month \<le> t" "t \<le> last_month" "first_month \<le> u" "u \<le> last_month"
    and "month_start t < a" "a \<le> month_start (t + 1)" "month_start u < a" "a \<le> month_start (u + 1)"
  shows "t = u"
  using month_start_mono [of "t + 1" u] month_start_mono [of "u + 1" t] assms
  by (cases t u rule: linorder_cases) auto

lemma same_month_index:
  assumes "index_month t = index_month u" "\<bar>t - u\<bar> < 12"
  shows "t = u"
proof -
  have "t mod 12 = u mod 12" using assms(1) index_month_ordinal [of t] index_month_ordinal [of u] by simp
  then show ?thesis using assms(2) by (rule mod_dvd_near)
qed

text \<open>Dates less than eleven months apart with the same month lie in the same month of the same
  year, and so do all dates in between.\<close>

lemma month_close:
  assumes "first_month \<le> t" "t \<le> last_month" "first_month \<le> u" "u \<le> last_month"
    and "month_start t < a" "a \<le> month_start (t + 1)" "month_start u < b" "b \<le> month_start (u + 1)"
    and "\<bar>a - b\<bar> \<le> 28"
  shows "\<bar>t - u\<bar> \<le> 1"
proof (rule ccontr)
  assume "\<not> \<bar>t - u\<bar> \<le> 1"
  then consider "t + 2 \<le> u" | "u + 2 \<le> t" by linarith
  then show False
  proof cases
    case 1
    then have "28 * (u - (t + 1)) \<le> month_start u - month_start (t + 1)"
      using assms by (intro month_start_less) auto
    then show False using assms 1 by (simp add: abs_le_iff)
  next
    case 2
    then have "28 * (t - (u + 1)) \<le> month_start t - month_start (u + 1)"
      using assms by (intro month_start_less) auto
    then show False using assms 2 by (simp add: abs_le_iff)
  qed
qed

lemma same_month_between:
  assumes "valid_date d" "valid_date f" "d \<le> x" "x \<le> f"
    and "date_month f = date_month d \<and> date_year f = date_year d"
  shows "date_month x = date_month f"
proof -
  obtain t where t: "first_month \<le> t" "t \<le> last_month" "date_month d = Some (index_month t)"
    "date_year d = Some (t div 12)" "month_start t < serial_number d" "serial_number d \<le> month_start (t + 1)"
    using date_month_index [OF assms(1)] .
  obtain u where u: "first_month \<le> u" "u \<le> last_month" "date_month f = Some (index_month u)"
    "date_year f = Some (u div 12)" "month_start u < serial_number f" "serial_number f \<le> month_start (u + 1)"
    using date_month_index [OF assms(2)] .
  obtain w where w: "first_month \<le> w" "w \<le> last_month" "date_month x = Some (index_month w)"
    "date_year x = Some (w div 12)" "month_start w < serial_number x" "serial_number x \<le> month_start (w + 1)"
    using date_month_index [OF valid_between [OF assms(1-4)]] .
  have "t = u"
    using t(3,4) u(3,4) assms(5) index_month_ordinal [of t] index_month_ordinal [of u]
    by (metis add_right_cancel div_mult_mod_eq option.inject)
  then have "w = t"
    by (intro month_unique [OF w(1,2) t(1,2) w(5,6)])
      (use t(5) u(6) assms(3,4) in \<open>auto simp: less_eq_date_def\<close>)
  then show ?thesis using w(3) t(3) assms(5) by simp
qed

section \<open>Markets\<close>

locale market =
  fixes i :: calendar_impl
  assumes named: "ci_name i \<noteq> []"
    and total: "valid_date d \<Longrightarrow> ci_is_business_day i d \<noteq> None"
begin

lemma market_well_formed: "imp cal = i \<Longrightarrow> well_formed cal"
  using named total by (simp add: well_formed_def total_days_def)

lemma fresh_well_formed [simp]: "well_formed (calendar_from_impl i)"
  by (simp add: market_well_formed calendar_from_impl_def)

lemma fresh_business_day [simp]: "is_business_day (calendar_from_impl i) d = ci_is_business_day i d"
  by (simp add: is_business_day_def calendar_from_impl_def)

end

text \<open>The contract of the rolling loops follows: a fresh calendar of a market meets it.\<close>

sublocale market \<subseteq> days: market_days "is_holiday (calendar_from_impl i)"
  by (rule market_days_of) simp

locale live_market = market +
  fixes gap :: int
  assumes gap_range: "0 \<le> gap" "gap \<le> 27"
    and open_within: "valid_date d \<Longrightarrow> valid_date (shift_date d gap) \<Longrightarrow>
      \<exists>k. 0 \<le> k \<and> k \<le> gap \<and> ci_is_business_day i (shift_date d k) = Some True"
begin

abbreviation fresh :: calendar where
  "fresh \<equiv> calendar_from_impl i"

lemma following_within:
  assumes "valid_date d" "valid_date (shift_date d gap)"
  shows "\<exists>e. first_open (is_holiday fresh) d e \<and> serial_number e \<le> serial_number d + gap"
proof -
  obtain k where k: "0 \<le> k" "k \<le> gap" "ci_is_business_day i (shift_date d k) = Some True"
    using open_within [OF assms] by blast
  have v: "valid_date (shift_date d k)" using k assms by (auto simp: valid_date_iff)
  have h: "is_holiday fresh (shift_date d k) = Some False" using k by (simp add: is_holiday_iff)
  have "\<exists>e. roll_forward (is_holiday fresh) d = Some e \<and> e \<le> shift_date d k"
    by (rule market_days.roll_forward_total [OF market_days_of [OF fresh_well_formed] assms(1) _ v h])
      (use k in \<open>simp add: less_eq_date_def\<close>)
  then show ?thesis using roll_forward_first [OF fresh_well_formed assms(1)] k(2)
    by (auto simp: less_eq_date_def)
qed

lemma preceding_within:
  assumes "valid_date d" "valid_date (shift_date d (- gap))"
  shows "\<exists>e. last_open (is_holiday fresh) d e \<and> serial_number d - gap \<le> serial_number e"
proof -
  have "shift_date (shift_date d (- gap)) gap = d" by (simp add: shift_date_def)
  then obtain k where k: "0 \<le> k" "k \<le> gap" "ci_is_business_day i (shift_date (shift_date d (- gap)) k) = Some True"
    using open_within [OF assms(2)] assms(1) by auto
  let ?x = "shift_date (shift_date d (- gap)) k"
  have v: "valid_date ?x" using k assms by (auto simp: valid_date_iff)
  have h: "is_holiday fresh ?x = Some False" using k by (simp add: is_holiday_iff)
  have "\<exists>e. roll_backward (is_holiday fresh) d = Some e \<and> ?x \<le> e"
    by (rule market_days.roll_backward_total [OF market_days_of [OF fresh_well_formed] assms(1) _ v h])
      (use k in \<open>simp add: less_eq_date_def\<close>)
  then show ?thesis using roll_backward_last [OF fresh_well_formed assms(1)] k(1)
    by (auto simp: less_eq_date_def)
qed

text \<open>No run of holidays inside the supported range is longer than \<open>gap\<close> days.\<close>

lemma closed_run_short:
  assumes "valid_date a" "valid_date b" "\<And>x. a \<le> x \<Longrightarrow> x \<le> b \<Longrightarrow> is_holiday fresh x = Some True"
  shows "serial_number b - serial_number a < gap"
proof (rule ccontr)
  assume "\<not> serial_number b - serial_number a < gap"
  then have "valid_date (shift_date a gap)" "shift_date a gap \<le> b"
    using assms(1,2) gap_range by (auto simp: valid_date_iff less_eq_date_def)
  moreover obtain k where "0 \<le> k" "k \<le> gap" "ci_is_business_day i (shift_date a k) = Some True"
    using open_within [OF assms(1) calculation(1)] by blast
  ultimately show False using assms(3) [of "shift_date a k"]
    by (auto simp: less_eq_date_def is_holiday_iff)
qed

text \<open>The modified-following result: a business day of the same month, within \<open>gap\<close> days.\<close>

lemma modified_following_same_month:
  assumes v: "valid_date d" "valid_date (shift_date d gap)"
  shows "\<exists>e. adjust fresh d ModifiedFollowing = Some e \<and> is_business_day fresh e = Some True \<and>
     date_month e = date_month d \<and> date_year e = date_year d \<and>
     \<bar>serial_number e - serial_number d\<bar> \<le> gap"
proof -
  obtain f where f: "first_open (is_holiday fresh) d f" "serial_number f \<le> serial_number d + gap"
    using following_within [OF v] by blast
  then have vf: "valid_date f" and df: "serial_number d \<le> serial_number f"
    and fb: "is_business_day fresh f = Some True"
    and closed_up: "\<And>x. d \<le> x \<Longrightarrow> x < f \<Longrightarrow> is_holiday fresh x = Some True"
    by (auto simp: first_open_def less_eq_date_def is_holiday_iff)
  obtain t where t: "first_month \<le> t" "t \<le> last_month" "date_month d = Some (index_month t)"
    "date_year d = Some (t div 12)" "month_start t < serial_number d" "serial_number d \<le> month_start (t + 1)"
    using date_month_index [OF v(1)] .
  obtain u where u: "first_month \<le> u" "u \<le> last_month" "date_month f = Some (index_month u)"
    "date_year f = Some (u div 12)" "month_start u < serial_number f" "serial_number f \<le> month_start (u + 1)"
    using date_month_index [OF vf] .
  have near: "\<bar>t - u\<bar> \<le> 1"
    by (rule month_close [OF t(1,2) u(1,2) t(5,6) u(5,6)]) (use f(2) df gap_range in auto)
  show ?thesis
  proof (cases "date_month f = date_month d")
    case True
    then have "t = u" using t(3) u(3) near by (intro same_month_index) auto
    then show ?thesis using True adjust_ModifiedFollowing [OF fresh_well_formed v(1)] f fb t u df
      by (intro exI [of _ f]) auto
  next
    case False
    then have "t \<noteq> u" using t(3) u(3) by auto
    moreover have "t \<le> u"
      using month_start_mono [of "u + 1" t] t u df by (cases "t \<le> u") auto
    ultimately have tu: "month_start (t + 1) < serial_number f"
      using month_start_mono [of "t + 1" u] t u by auto
    let ?s = "Date (month_start t + 1)"
    have ms: "366 \<le> month_start t" "month_start t + 28 \<le> month_start (t + 1)"
      using month_start_mono [of first_month t] month_start_first month_start_Suc [OF t(1,2)]
        month_days_bounds [of t] t by auto
    then have vs: "valid_date ?s" using v(1) t(5) by (auto simp: valid_date_iff)
    have vp: "valid_date (pred_date f)" using vs tu vf ms by (auto simp: valid_date_iff pred_date_def)
    have "\<exists>x. ?s \<le> x \<and> x < f \<and> is_holiday fresh x \<noteq> Some True"
    proof (rule ccontr)
      assume "\<not> ?thesis"
      then have "serial_number (pred_date f) - serial_number ?s < gap"
        by (intro closed_run_short [OF vs vp]) (auto simp: le_pred_date_iff)
      then show False using gap_range tu ms by (simp add: pred_date_def)
    qed
    then obtain x where x: "?s \<le> x" "x < f" "is_holiday fresh x \<noteq> Some True" by blast
    then have "x \<le> d" using closed_up [of x] by force
    moreover have vx: "valid_date x" using valid_between [OF vs vf, of x] x by simp
    moreover have "is_holiday fresh x = Some False"
      using x(3) market_days.hol_total [OF market_days_of [OF fresh_well_formed] vx] by auto
    ultimately obtain e where e: "roll_backward (is_holiday fresh) d = Some e" "x \<le> e"
      using market_days.roll_backward_total [OF market_days_of [OF fresh_well_formed] v(1)] by blast
    then have lo: "last_open (is_holiday fresh) d e"
      using roll_backward_last [OF fresh_well_formed v(1)] by simp
    then have ve: "valid_date e" and ed: "e \<le> d" and eb: "is_business_day fresh e = Some True"
      and closed_down: "\<And>x. e < x \<Longrightarrow> x \<le> d \<Longrightarrow> is_holiday fresh x = Some True"
      by (auto simp: last_open_def is_holiday_iff)
    obtain w where w: "first_month \<le> w" "w \<le> last_month" "date_month e = Some (index_month w)"
      "date_year e = Some (w div 12)" "month_start w < serial_number e" "serial_number e \<le> month_start (w + 1)"
      using date_month_index [OF ve] .
    have "w = t"
      by (rule month_unique [OF w(1,2) t(1,2) w(5,6)])
        (use x(1) e(2) ed t(6) in \<open>auto simp: less_eq_date_def\<close>)
    moreover have "serial_number (pred_date f) - serial_number (succ_date e) < gap"
    proof (rule closed_run_short [OF _ vp])
      show "valid_date (succ_date e)" using ve vf ed df tu t(6)
        by (auto simp: valid_date_iff succ_date_def less_eq_date_def)
      show "is_holiday fresh y = Some True" if "succ_date e \<le> y" "y \<le> pred_date f" for y
        using that closed_up [of y] closed_down [of y] by (force simp: succ_date_le_iff le_pred_date_iff)
    qed
    ultimately show ?thesis
      using False adjust_ModifiedFollowing [OF fresh_well_formed v(1), of e] f(1) lo eb t w tu ed
      by (intro exI [of _ e]) (auto simp: pred_date_def succ_date_def less_eq_date_def)
  qed
qed

text \<open>Modified following is monotone in a live market.\<close>

lemma modified_following_mono:
  assumes v: "valid_date d" "valid_date d'" "d \<le> d'"
    and a: "adjust fresh d ModifiedFollowing = Some e" "adjust fresh d' ModifiedFollowing = Some e'"
    and r: "valid_date (shift_date d' gap)"
  shows "e \<le> e'"
proof -
  note mf = adjust_ModifiedFollowing [OF fresh_well_formed]
  obtain f where f: "first_open (is_holiday fresh) d f"
    "if date_month f = date_month d then e = f else last_open (is_holiday fresh) d e"
    using a(1) mf [OF v(1)] by blast
  obtain f' where f': "first_open (is_holiday fresh) d' f'"
    "if date_month f' = date_month d' then e' = f' else last_open (is_holiday fresh) d' e'"
    using a(2) mf [OF v(2)] by blast
  show ?thesis
  proof (cases "date_month f = date_month d \<and> date_month f' \<noteq> date_month d'")
    case False
    then show ?thesis
      using f f' v(3) first_open_least [OF f(1), of f'] last_open_greatest [of _ d' e' e]
      by (auto simp: first_open_def last_open_def split: if_splits)
  next
    case True
    then have e: "e = f" and e': "last_open (is_holiday fresh) d' e'" using f(2) f'(2) by auto
    show ?thesis
    proof (cases "f \<le> d'")
      case le: True
      then show ?thesis using e last_open_greatest [OF e', of f] f(1) by (simp add: first_open_def)
    next
      case False
      then have "first_open (is_holiday fresh) d' f" using f(1) v(3) by (auto simp: first_open_def)
      then have "f' = f" using f'(1) first_open_unique by blast
      have vr: "valid_date (shift_date d gap)"
        using r v gap_range by (auto simp: valid_date_iff less_eq_date_def)
      have "date_month f = date_month d \<and> date_year f = date_year d"
        using modified_following_same_month [OF v(1) vr] a(1) e by auto
      then have "date_month d' = date_month f"
        using same_month_between [OF v(1) _ v(3), of f] f(1) False by (auto simp: first_open_def)
      then show ?thesis using True \<open>f' = f\<close> by simp
    qed
  qed
qed

end

end
