(* ===== verification/Easter.thy ===== *)
theory Easter
  imports Live_Markets
begin

text \<open>
  The two Easter tables of \<open>time/calendar.rs\<close>, each entry the one-based day of the year of Easter
  Monday, for the years 1901 to 2199. The tables are compared entry by entry with the Gregorian and
  the Julian computus; a market that reads them sees a Monday.
\<close>

section \<open>The tables\<close>

definition WESTERN_EASTER_MONDAY :: "int list" where
  "WESTERN_EASTER_MONDAY = [
     98, 90, 103, 95, 114, 106, 91, 111, 102, 87, 107, 99, 83, 103, 95,
     115, 99, 91, 111, 96, 87, 107, 92, 112, 103, 95, 108, 100, 91, 111,
     96, 88, 107, 92, 112, 104, 88, 108, 100, 85, 104, 96, 116, 101, 92,
     112, 97, 89, 108, 100, 85, 105, 96, 109, 101, 93, 112, 97, 89, 109,
     93, 113, 105, 90, 109, 101, 86, 106, 97, 89, 102, 94, 113, 105, 90,
     110, 101, 86, 106, 98, 110, 102, 94, 114, 98, 90, 110, 95, 86, 106,
     91, 111, 102, 94, 107, 99, 90, 103, 95, 115, 106, 91, 111, 103, 87,
     107, 99, 84, 103, 95, 115, 100, 91, 111, 96, 88, 107, 92, 112, 104,
     95, 108, 100, 92, 111, 96, 88, 108, 92, 112, 104, 89, 108, 100, 85,
     105, 96, 116, 101, 93, 112, 97, 89, 109, 100, 85, 105, 97, 109, 101,
     93, 113, 97, 89, 109, 94, 113, 105, 90, 110, 101, 86, 106, 98, 89,
     102, 94, 114, 105, 90, 110, 102, 86, 106, 98, 111, 102, 94, 114, 99,
     90, 110, 95, 87, 106, 91, 111, 103, 94, 107, 99, 91, 103, 95, 115,
     107, 91, 111, 103, 88, 108, 100, 85, 105, 96, 109, 101, 93, 112, 97,
     89, 109, 93, 113, 105, 90, 109, 101, 86, 106, 97, 89, 102, 94, 113,
     105, 90, 110, 101, 86, 106, 98, 110, 102, 94, 114, 98, 90, 110, 95,
     86, 106, 91, 111, 102, 94, 107, 99, 90, 103, 95, 115, 106, 91, 111,
     103, 87, 107, 99, 84, 103, 95, 115, 100, 91, 111, 96, 88, 107, 92,
     112, 104, 95, 108, 100, 92, 111, 96, 88, 108, 92, 112, 104, 89, 108,
     100, 85, 105, 96, 116, 101, 93, 112, 97, 89, 109, 100, 85, 105]"

definition ORTHODOX_EASTER_MONDAY :: "int list" where
  "ORTHODOX_EASTER_MONDAY = [
     105, 118, 110, 102, 121, 106, 126, 118, 102, 122, 114, 99, 118, 110, 95,
     115, 106, 126, 111, 103, 122, 107, 99, 119, 110, 123, 115, 107, 126, 111,
     103, 123, 107, 99, 119, 104, 123, 115, 100, 120, 111, 96, 116, 108, 127,
     112, 104, 124, 115, 100, 120, 112, 96, 116, 108, 128, 112, 104, 124, 109,
     100, 120, 105, 125, 116, 101, 121, 113, 104, 117, 109, 101, 120, 105, 125,
     117, 101, 121, 113, 98, 117, 109, 129, 114, 105, 125, 110, 102, 121, 106,
     98, 118, 109, 122, 114, 106, 118, 110, 102, 122, 106, 126, 118, 103, 122,
     114, 99, 119, 110, 95, 115, 107, 126, 111, 103, 123, 107, 99, 119, 111,
     123, 115, 107, 127, 111, 103, 123, 108, 99, 119, 104, 124, 115, 100, 120,
     112, 96, 116, 108, 128, 112, 104, 124, 116, 100, 120, 112, 97, 116, 108,
     128, 113, 104, 124, 109, 101, 120, 105, 125, 117, 101, 121, 113, 105, 117,
     109, 101, 121, 105, 125, 110, 102, 121, 113, 98, 118, 109, 129, 114, 106,
     125, 110, 102, 122, 106, 98, 118, 110, 122, 114, 99, 119, 110, 102, 115,
     107, 126, 118, 103, 123, 115, 100, 120, 112, 96, 116, 108, 128, 112, 104,
     124, 109, 100, 120, 105, 125, 116, 108, 121, 113, 104, 124, 109, 101, 120,
     105, 125, 117, 101, 121, 113, 98, 117, 109, 129, 114, 105, 125, 110, 102,
     121, 113, 98, 118, 109, 129, 114, 106, 125, 110, 102, 122, 106, 126, 118,
     103, 122, 114, 99, 119, 110, 102, 115, 107, 126, 111, 103, 123, 114, 99,
     119, 111, 130, 115, 107, 127, 111, 103, 123, 108, 99, 119, 104, 124, 115,
     100, 120, 112, 103, 116, 108, 128, 119, 104, 124, 116, 100, 120, 112]"

definition western_easter_monday :: "int \<Rightarrow> int option" where
  "western_easter_monday y = tbl_get WESTERN_EASTER_MONDAY (y - 1901)"

definition orthodox_easter_monday :: "int \<Rightarrow> int option" where
  "orthodox_easter_monday y = tbl_get ORTHODOX_EASTER_MONDAY (y - 1901)"

section \<open>The computus\<close>

text \<open>The Gregorian computus (Meeus/Jones/Butcher), as a day of the year: the Sunday after the
  ecclesiastical full moon, then one day more.\<close>

definition gregorian_easter_monday :: "int \<Rightarrow> int" where
  "gregorian_easter_monday y =
     (let a = y mod 19; b = y div 100; c = y mod 100; d = b div 4; e = b mod 4;
          f = (b + 8) div 25; g = (b - f + 1) div 3;
          h = (19 * a + b - d - g + 15) mod 30;
          i = c div 4; k = c mod 4;
          l = (32 + 2 * e + 2 * i - h - k) mod 7;
          m = (a + 11 * h + 22 * l) div 451;
          n = h + l - 7 * m + 114
      in (if n div 31 = 3 then 59 else 90) + (if gregorian_leap y then 1 else 0) + n mod 31 + 1 + 1)"

text \<open>The Julian computus, moved to the Gregorian calendar: the two calendars are 13 days apart
  from 1900 to 2099 and 14 days in the 2100s.\<close>

definition julian_easter_monday :: "int \<Rightarrow> int" where
  "julian_easter_monday y =
     (let a = y mod 4; b = y mod 7; c = y mod 19;
          d = (19 * c + 15) mod 30;
          e = (2 * a + 4 * b - d + 34) mod 7;
          n = d + e + 114
      in (if n div 31 = 3 then 59 else 90) + (if gregorian_leap y then 1 else 0) + n mod 31 + 1
         + (if y < 2100 then 13 else 14) + 1)"

lemma western_table: "WESTERN_EASTER_MONDAY = map gregorian_easter_monday [1901..2199]"
  by code_simp

lemma orthodox_table: "ORTHODOX_EASTER_MONDAY = map julian_easter_monday [1901..2199]"
  by code_simp

lemma western_easter_eq:
  assumes "1901 \<le> y" "y \<le> 2199"
  shows "western_easter_monday y = Some (gregorian_easter_monday y)"
  using tbl_get_map_upto [OF assms] unfolding western_easter_monday_def western_table by blast

lemma orthodox_easter_eq:
  assumes "1901 \<le> y" "y \<le> 2199"
  shows "orthodox_easter_monday y = Some (julian_easter_monday y)"
  using tbl_get_map_upto [OF assms] unfolding orthodox_easter_monday_def orthodox_table by blast

lemma easter_outside:
  assumes "\<not> (1901 \<le> y \<and> y \<le> 2199)"
  shows "western_easter_monday y = None" "orthodox_easter_monday y = None"
proof -
  have "length WESTERN_EASTER_MONDAY = 299" "length ORTHODOX_EASTER_MONDAY = 299"
    by (simp_all add: western_table orthodox_table del: upto_rec_numeral)
  then show "western_easter_monday y = None" "orthodox_easter_monday y = None"
    using assms by (auto simp: western_easter_monday_def orthodox_easter_monday_def tbl_get_nth)
qed

lemma easter_checks:
  "list_all (\<lambda>e. 82 \<le> e \<and> e \<le> 117) WESTERN_EASTER_MONDAY"
  "list_all (\<lambda>e. 95 \<le> e \<and> e \<le> 130) ORTHODOX_EASTER_MONDAY"
  "list_all (\<lambda>(y, e). (days_before_year y + e) mod 7 = 2) (zip [1901..2199] WESTERN_EASTER_MONDAY)"
  "list_all (\<lambda>(y, e). (days_before_year y + e) mod 7 = 2) (zip [1901..2199] ORTHODOX_EASTER_MONDAY)"
  by code_simp+

lemma in_zip_map: "x \<in> set xs \<Longrightarrow> (x, f x) \<in> set (zip xs (map f xs))"
  by (induction xs) auto

lemma gregorian_easter_facts:
  assumes "1901 \<le> y" "y \<le> 2199"
  shows "82 \<le> gregorian_easter_monday y \<and> gregorian_easter_monday y \<le> 117 \<and>
     (days_before_year y + gregorian_easter_monday y) mod 7 = 2"
proof -
  have "y \<in> set [1901..2199]" using assms by (simp del: upto_rec_numeral)
  then have "gregorian_easter_monday y \<in> set (map gregorian_easter_monday [1901..2199])" "(y, gregorian_easter_monday y) \<in> set (zip [1901..2199] (map gregorian_easter_monday [1901..2199]))"
    by (simp del: upto_rec_numeral, rule in_zip_map)
  then show ?thesis using easter_checks(1)[unfolded western_table list_all_iff, THEN bspec]
      easter_checks(3)[unfolded western_table list_all_iff, THEN bspec] by blast
qed

lemma julian_easter_facts:
  assumes "1901 \<le> y" "y \<le> 2199"
  shows "95 \<le> julian_easter_monday y \<and> julian_easter_monday y \<le> 130 \<and>
     (days_before_year y + julian_easter_monday y) mod 7 = 2"
proof -
  have "y \<in> set [1901..2199]" using assms by (simp del: upto_rec_numeral)
  then have "julian_easter_monday y \<in> set (map julian_easter_monday [1901..2199])" "(y, julian_easter_monday y) \<in> set (zip [1901..2199] (map julian_easter_monday [1901..2199]))"
    by (simp del: upto_rec_numeral, rule in_zip_map)
  then show ?thesis using easter_checks(2)[unfolded orthodox_table list_all_iff, THEN bspec]
      easter_checks(4)[unfolded orthodox_table list_all_iff, THEN bspec] by blast
qed

section \<open>What a market reads off a date\<close>

lemma date_fields:
  assumes "valid_date d"
  obtains w dd m y where "date_weekday d = Some w" "date_day_of_month d = Some dd"
    "date_month d = Some m" "date_year d = Some y" "date_new dd m y = Some d"
    "date_day_of_year d = Some (moff m (gregorian_leap y) + dd)" "1901 \<le> y" "y \<le> 2199"
    "w = weekday_of (serial_number d)" "serial_number d = days_before_year y + (moff m (gregorian_leap y) + dd)"
proof -
  obtain dd m y where i: "date_year d = Some y" "date_month d = Some m" "date_new dd m y = Some d"
    "date_day_of_month d = Some dd" "date_day_of_year d = Some (moff m (gregorian_leap y) + dd)"
    using date_inspect [OF assms] by metis
  show ?thesis
    by (rule that [OF _ i(4,2,1,3,5)]) (use i(3) date_weekday_eq [OF assms] in \<open>auto simp: date_new_Some\<close>)
qed

text \<open>Easter Monday is a Monday, Good Friday a Friday, Ascension and Corpus Christi are
  Thursdays, for either church.\<close>

lemma weekday_from_easter:
  assumes v: "valid_date d" and y: "date_year d = Some y"
    and em: "western_easter_monday y = Some em \<or> orthodox_easter_monday y = Some em"
    and dd: "date_day_of_year d = Some (em + n)"
  shows "date_weekday d = Some (weekday_of (2 + n))"
proof -
  obtain dd' m y' where f: "date_weekday d = Some (weekday_of (serial_number d))" "date_year d = Some y'"
    "date_day_of_year d = Some (moff m (gregorian_leap y') + dd')" "1901 \<le> y'" "y' \<le> 2199"
    "serial_number d = days_before_year y' + (moff m (gregorian_leap y') + dd')"
    using date_fields [OF v] by metis
  then have s: "serial_number d = (days_before_year y + em) + n" and r: "1901 \<le> y" "y \<le> 2199"
    using y dd by auto
  have "(days_before_year y + em) mod 7 = 2"
    using em gregorian_easter_facts [OF r] julian_easter_facts [OF r]
    by (auto simp: western_easter_eq [OF r] orthodox_easter_eq [OF r])
  then have "serial_number d mod 7 = (2 + n) mod 7" unfolding s by (metis mod_add_left_eq)
  then show ?thesis using f(1) by (simp add: weekday_of_eq_iff)
qed

end
