(* ===== verification/Market_Rules.thy ===== *)
theory Market_Rules
  imports Easter
begin

text \<open>
  The vocabulary of the market implementations in \<open>time/calendars/\<close>: Rust's short-circuit
  operators on tests that can panic, membership in a table of dates, and the rules by which a test
  is shown total and closed on weekends. \<open>weekend_market\<close> is the interface of the markets that
  never open on their weekend.
\<close>

section \<open>Short-circuit operators and totality\<close>

text \<open>\<open>a || b\<close> and \<open>a && b\<close> where the operands can panic: the right one runs only when the left
  one does not decide.\<close>

definition lor :: "bool option \<Rightarrow> bool option \<Rightarrow> bool option" where
  "lor a b = do { x \<leftarrow> a; if x then Some True else b }"

definition land :: "bool option \<Rightarrow> bool option \<Rightarrow> bool option" where
  "land a b = do { x \<leftarrow> a; if x then b else Some False }"

definition lnot :: "bool option \<Rightarrow> bool option" where
  "lnot a = do { x \<leftarrow> a; Some (\<not> x) }"

lemma lor_Some [simp]: "lor (Some x) (Some y) = Some (x \<or> y)"
  by (simp add: lor_def)

lemma land_Some [simp]: "land (Some x) (Some y) = Some (x \<and> y)"
  by (simp add: land_def)

lemma lnot_Some [simp]: "lnot (Some x) = Some (\<not> x)"
  by (simp add: lnot_def)

lemma lor_True [simp]: "lor (Some True) b = Some True"
  and lor_False [simp]: "lor (Some False) b = b"
  and land_True [simp]: "land (Some True) b = b"
  and land_False [simp]: "land (Some False) b = Some False"
  by (simp_all add: lor_def land_def)

text \<open>Rules that show a test total by its structure alone.\<close>

named_theorems total_rules \<open>the operation does not panic\<close>

lemma bind_total [total_rules]: "x \<noteq> None \<Longrightarrow> (\<And>a. x = Some a \<Longrightarrow> f a \<noteq> None) \<Longrightarrow> x \<bind> f \<noteq> None"
  by auto

lemma Some_total [total_rules]: "Some a \<noteq> None"
  by simp

lemma if_total [total_rules]: "a \<noteq> None \<Longrightarrow> b \<noteq> None \<Longrightarrow> (if c then a else b) \<noteq> None"
  by simp

lemma Let_total [total_rules]: "f a \<noteq> None \<Longrightarrow> (let x = a in f x) \<noteq> None"
  by simp

lemma lor_total [total_rules]: "a \<noteq> None \<Longrightarrow> b \<noteq> None \<Longrightarrow> lor a b \<noteq> None"
  by (auto simp: lor_def)

lemma land_total [total_rules]: "a \<noteq> None \<Longrightarrow> b \<noteq> None \<Longrightarrow> land a b \<noteq> None"
  by (auto simp: land_def)

lemma lnot_total [total_rules]: "a \<noteq> None \<Longrightarrow> lnot a \<noteq> None"
  by (auto simp: lnot_def)

lemma inspect_total [total_rules]:
  assumes "valid_date d"
  shows "date_weekday d \<noteq> None" "date_day_of_month d \<noteq> None" "date_day_of_year d \<noteq> None"
    "date_month d \<noteq> None" "date_year d \<noteq> None"
  using assms by (auto elim!: date_fields)

lemma easter_total [total_rules]:
  assumes "valid_date d" "date_year d = Some y"
  shows "western_easter_monday y \<noteq> None" "orthodox_easter_monday y \<noteq> None"
  using assms by (auto elim!: date_fields simp: western_easter_eq orthodox_easter_eq)

section \<open>Tables of dates\<close>

text \<open>\<open>TABLE.iter().any(test)\<close>: the first entry that passes, or panics, decides.\<close>

fun any_opt :: "('a \<Rightarrow> bool option) \<Rightarrow> 'a list \<Rightarrow> bool option" where
  "any_opt p [] = Some False"
| "any_opt p (x # xs) = lor (p x) (any_opt p xs)"

text \<open>An array literal of \<open>Date::new\<close> calls.\<close>

fun dates_of :: "(int \<times> month \<times> int) list \<Rightarrow> date list option" where
  "dates_of [] = Some []"
| "dates_of ((d, m, y) # xs) = do {
     x \<leftarrow> date_new d m y;
     r \<leftarrow> dates_of xs;
     Some (x # r)
   }"

definition civil_ok :: "int \<times> month \<times> int \<Rightarrow> bool" where
  "civil_ok = (\<lambda>(d, m, y). 1902 \<le> y \<and> y \<le> 2198 \<and> 1 \<le> d \<and> d \<le> mlen m (gregorian_leap y))"

lemma date_new_civil_ok:
  assumes "civil_ok (d, m, y)"
  shows "date_new d m y = Some (Date (days_before_year y + moff m (gregorian_leap y) + d))"
  using assms by (auto simp: civil_ok_def date_new_Some)

lemma any_opt_total [total_rules]:
  assumes "list_all civil_ok xs" "\<And>d m y. civil_ok (d, m, y) \<Longrightarrow> p (d, m, y) \<noteq> None"
  shows "any_opt p xs \<noteq> None"
  using assms(1)
proof (induction xs)
  case (Cons x xs)
  then show ?case using assms(2) lor_total by (cases x) auto
qed simp

lemma any_opt_table:
  assumes "list_all civil_ok xs"
  shows "any_opt (\<lambda>(d, m, y). do { x \<leftarrow> date_new d m y; Some (e = x) }) xs =
     Some (\<exists>(d, m, y)\<in>set xs. date_new d m y = Some e)"
  using assms
proof (induction xs)
  case (Cons x xs)
  then show ?case
    by (cases x) (auto simp: date_new_civil_ok)
qed simp

lemma dates_of_total [total_rules]: "list_all civil_ok xs \<Longrightarrow> dates_of xs \<noteq> None"
  by (induction xs rule: dates_of.induct) (auto simp: date_new_civil_ok)

lemma date_new_total [total_rules]: "civil_ok (d, m, y) \<Longrightarrow> date_new d m y \<noteq> None"
  by (simp add: date_new_civil_ok)

lemma date_new_in_year_total [total_rules]:
  assumes "valid_date date" "date_year date = Some y" "1 \<le> k \<and> k \<le> 28"
  shows "date_new k m y \<noteq> None"
  using assms(1)
proof (rule date_fields)
  fix y' :: int assume "date_year date = Some y'" "1901 \<le> y'" "y' \<le> 2199"
  then have "date_new k m y = Some (Date (days_before_year y + moff m (gregorian_leap y) + k))"
    using assms(2,3) mlen_bounds(1) [of m "gregorian_leap y"] by (auto simp: date_new_Some)
  then show ?thesis by simp
qed

lemma date_new_weekday_total [total_rules]: "date_new k m y = Some d \<Longrightarrow> date_weekday d \<noteq> None"
  using inspect_total(1) date_new_valid' by blast

lemma near_table_total [total_rules]:
  assumes "civil_ok (dd, m, y)" "date_new dd m y = Some p" "0 \<le> k \<and> k \<le> 100"
  shows "date_add p k \<noteq> None" "date_sub p k \<noteq> None"
proof -
  have v: "valid_date p" and y: "1902 \<le> y" "y \<le> 2198"
    using assms(1,2) date_new_valid' by (auto simp: civil_ok_def)
  have ends: "date_new 1 January 1902 = Some (Date 732)" "date_new 31 December 2198 = Some (Date 109209)"
    by code_simp+
  have "1 \<le> dd" "dd \<le> 31" using assms(1) mlen_bounds(2) [of m "gregorian_leap y"] by (auto simp: civil_ok_def)
  moreover have "\<not> m < January" "\<not> December < m"
    using month_ordinal_range [of m] by (simp_all add: less_month_def)
  ultimately have "\<not> p < Date 732" "\<not> Date 109209 < p"
    unfolding date_less_civil [OF assms(2) ends(1)] date_less_civil [OF ends(2) assms(2)] using y by auto
  then have "732 \<le> serial_number p" "serial_number p \<le> 109209"
    by (auto simp: less_date_def)
  then have "valid_date (Date (serial_number p + k))" "valid_date (Date (serial_number p - k))"
    using assms(3) by (auto simp: valid_date_iff)
  then show "date_add p k \<noteq> None" "date_sub p k \<noteq> None"
    using date_add_Some [OF v, of k] date_sub_Some [OF v, of k] by auto
qed

lemma case_prod_total [total_rules]: "f a b \<noteq> None \<Longrightarrow> (case (a, b) of (x, y) \<Rightarrow> f x y) \<noteq> None"
  by simp

section \<open>Building a market\<close>

lemma impl_fields [simp]:
  "ci_name (calendar_impl_new n b w) = n"
  "ci_is_business_day (calendar_impl_new n b w) = b"
  "ci_is_weekend (calendar_impl_new n b w) = w"
  "ci_is_weekend_on (calendar_impl_new n b w) = default_is_weekend_on w"
  "ci_holiday_horizon (calendar_impl_new n b w) = None"
  "ci_holiday_first_year (calendar_impl_new n b w) = None"
  by (simp_all add: calendar_impl_new_def)

lemma default_weekend_on: "valid_date d \<Longrightarrow> default_is_weekend_on f d = map_option f (date_weekday d)"
  by (cases "date_weekday d") (simp_all add: default_is_weekend_on_def)

locale weekend_market = market +
  assumes weekend_total: "valid_date d \<Longrightarrow> ci_is_weekend_on i d \<noteq> None"
    and weekend_closed: "valid_date d \<Longrightarrow> ci_is_weekend_on i d = Some True \<Longrightarrow> ci_is_business_day i d = Some False"
begin

lemma business_day_not_weekend:
  assumes "valid_date d" "ci_is_business_day i d = Some True"
  shows "ci_is_weekend_on i d = Some False"
  using assms weekend_total [of d] weekend_closed [of d] by force

text \<open>The holidays of a range split into the listed weekday holidays and the weekend days.\<close>

lemma holidays_split:
  assumes "valid_date a" "valid_date b"
    and "holiday_list (calendar_from_impl i) a b True = Some xs"
    and "holiday_list (calendar_from_impl i) a b False = Some ys"
  shows "set xs = set ys \<union> {x \<in> {a..b}. ci_is_weekend_on i x = Some True} \<and>
     set ys \<inter> {x. ci_is_weekend_on i x = Some True} = {}"
proof -
  let ?c = "calendar_from_impl i"
  have t: "total_days (is_weekend_on ?c)" and w: "is_weekend_on ?c = ci_is_weekend_on i"
    using weekend_total by (auto simp: total_days_def is_weekend_on_def calendar_from_impl_def)
  have v: "x \<in> {a..b} \<Longrightarrow> valid_date x" for x using valid_between [OF assms(1,2)] by auto
  have "set xs = {x \<in> {a..b}. ci_is_business_day i x = Some False}"
    "set ys = {x \<in> {a..b}. ci_is_business_day i x = Some False \<and> ci_is_weekend_on i x = Some False}"
    using assms(3,4) by (auto simp: holiday_list_eq [OF fresh_well_formed t assms(1,2)] w
        set_dates_from_to is_holiday_iff)
  then show ?thesis using v weekend_total weekend_closed by auto (metis (full_types) option.exhaust)
qed

end

lemma weekend_marketI:
  assumes "ci_name i \<noteq> []"
    and "\<And>d. valid_date d \<Longrightarrow> ci_is_business_day i d \<noteq> None"
    and "ci_is_weekend_on i = default_is_weekend_on f"
    and "\<And>d w. valid_date d \<Longrightarrow> date_weekday d = Some w \<Longrightarrow> f w \<Longrightarrow> ci_is_business_day i d = Some False"
  shows "weekend_market i"
proof
  show "ci_is_weekend_on i d \<noteq> None" if "valid_date d" for d
    using that inspect_total(1) [OF that] by (auto simp: assms(3) default_is_weekend_on_def)
  show "ci_is_business_day i d = Some False" if "valid_date d" "ci_is_weekend_on i d = Some True" for d
    using that assms(4) [OF that(1)] by (auto simp: assms(3) default_is_weekend_on_def bind_eq_Some_conv)
qed (use assms(1,2) in auto)

section \<open>Markets that open midweek\<close>

text \<open>
  Every window of nine days contains a Tuesday, Wednesday and Thursday in a row. A market whose
  midweek closures never fill such a row therefore opens within any nine days.
\<close>

lemma tuesday_ahead:
  obtains k :: int where "0 \<le> k" "k \<le> 6" "weekday_of (s + k) = Tuesday"
proof -
  let ?k = "(3 - s) mod 7"
  have "(s + ?k) mod 7 = 3 mod 7" by (simp add: mod_add_right_eq)
  then have "weekday_of (s + ?k) = weekday_of 3" by (simp only: weekday_of_eq_iff)
  then have "weekday_of (s + ?k) = Tuesday" by (simp add: weekday_of_def weekday_from_ordinal_def)
  moreover have "0 \<le> ?k" "?k \<le> 6" by (simp_all add: pos_mod_bound [of 7 "3 - s", simplified] zle_diff1_eq [symmetric])
  ultimately show ?thesis using that by blast
qed

lemma weekday_after: "weekday_of (s + 1) = (case weekday_of s of
    Sunday \<Rightarrow> Monday | Monday \<Rightarrow> Tuesday | Tuesday \<Rightarrow> Wednesday | Wednesday \<Rightarrow> Thursday
  | Thursday \<Rightarrow> Friday | Friday \<Rightarrow> Saturday | Saturday \<Rightarrow> Sunday)"
proof -
  have w: "weekday_of s = weekday_of (s mod 7)" "weekday_of (s + 1) = weekday_of (s mod 7 + 1)"
    by (simp_all add: weekday_of_eq_iff mod_simps)
  have "0 \<le> s mod 7" "s mod 7 < 7" by simp_all
  then have "s mod 7 = 0 \<or> s mod 7 = 1 \<or> s mod 7 = 2 \<or> s mod 7 = 3 \<or> s mod 7 = 4 \<or> s mod 7 = 5 \<or> s mod 7 = 6"
    by linarith
  then show ?thesis unfolding w
    by (elim disjE) (simp_all add: weekday_of_def weekday_from_ordinal_def)
qed

definition midweek_rows_open :: "(weekday \<Rightarrow> int \<Rightarrow> month \<Rightarrow> int \<Rightarrow> bool) \<Rightarrow> bool" where
  "midweek_rows_open closed \<longleftrightarrow>
     (\<forall>dd m y dd' m' y' dd'' m'' y''.
        next_day (dd, m, y) = (dd', m', y') \<longrightarrow> next_day (dd', m', y') = (dd'', m'', y'') \<longrightarrow>
        \<not> (closed Tuesday dd m y \<and> closed Wednesday dd' m' y' \<and> closed Thursday dd'' m'' y''))"

lemma open_within_nine:
  assumes total: "\<And>d. valid_date d \<Longrightarrow> bd d \<noteq> None"
    and closed: "\<And>d w dd m y. valid_date d \<Longrightarrow> date_weekday d = Some w \<Longrightarrow>
        w = Tuesday \<or> w = Wednesday \<or> w = Thursday \<Longrightarrow> date_new dd m y = Some d \<Longrightarrow>
        bd d = Some False \<Longrightarrow> closed w dd m y"
    and rows: "midweek_rows_open closed"
    and v: "valid_date d" "valid_date (shift_date d 8)"
  shows "\<exists>k. 0 \<le> k \<and> k \<le> 8 \<and> bd (shift_date d k) = Some True"
proof (rule ccontr)
  assume none: "\<not> ?thesis"
  have shut: "bd (shift_date d k) = Some False" if "0 \<le> k" "k \<le> 8" for k
  proof -
    have "valid_date (shift_date d k)" using v that by (auto simp: valid_date_iff)
    then show ?thesis using none that total [of "shift_date d k"] by auto
  qed
  obtain k where k: "0 \<le> k" "k \<le> 6" "weekday_of (serial_number d + k) = Tuesday"
    using tuesday_ahead [of "serial_number d"] by blast
  let ?t = "shift_date d k" and ?w = "shift_date d (k + 1)" and ?h = "shift_date d (k + 2)"
  have val: "valid_date ?t" "valid_date ?w" "valid_date ?h" using v k by (auto simp: valid_date_iff)
  have wd: "date_weekday ?t = Some Tuesday" "date_weekday ?w = Some Wednesday" "date_weekday ?h = Some Thursday"
    using k(3) weekday_after [of "serial_number d + k"] weekday_after [of "serial_number d + k + 1"]
    by (simp_all add: date_weekday_eq [OF val(1)] date_weekday_eq [OF val(2)] date_weekday_eq [OF val(3)] add.assoc)
  obtain dd m y where c: "date_new dd m y = Some ?t" using date_inspect [OF val(1)] by metis
  obtain dd' m' y' where n: "next_day (dd, m, y) = (dd', m', y')" by (cases "next_day (dd, m, y)")
  obtain dd'' m'' y'' where n': "next_day (dd', m', y') = (dd'', m'', y'')" by (cases "next_day (dd', m', y')")
  have s: "succ_date ?t = ?w" "succ_date ?w = ?h" by (simp_all add: succ_date_def shift_date_def)
  have "?t < date_max" "?w < date_max"
    using val by (auto simp: valid_date_iff less_date_def date_max_def MAXIMUM_SERIAL_NUMBER_def)
  then have c': "date_new dd' m' y' = Some ?w"
    using date_add_one_civil [OF c _ n] date_add_one [OF val(1)] s val by auto
  then have c'': "date_new dd'' m'' y'' = Some ?h"
    using date_add_one_civil [OF c' _ n'] date_add_one [OF val(2)] s val \<open>?w < date_max\<close> by auto
  have "closed Tuesday dd m y" "closed Wednesday dd' m' y'" "closed Thursday dd'' m'' y''"
    using closed [OF val(1) wd(1) _ c shut] closed [OF val(2) wd(2) _ c' shut]
      closed [OF val(3) wd(3) _ c'' shut] k by auto
  then show False using rows n n' unfolding midweek_rows_open_def by blast
qed

lemma midweek_not_easter:
  assumes "valid_date d" "date_weekday d = Some w" "w = Tuesday \<or> w = Wednesday \<or> w = Thursday"
    and "date_year d = Some y" "date_day_of_year d = Some n" "western_easter_monday y = Some em"
  shows "n \<noteq> em \<and> n \<noteq> em - 3"
  using weekday_from_easter [OF assms(1,4), of em 0] weekday_from_easter [OF assms(1,4), of em "- 3"] assms(2,3,5,6)
  by (auto simp: weekday_of_def weekday_from_ordinal_def)

lemma live_marketI:
  assumes "ci_name i \<noteq> []"
    and "\<And>d. valid_date d \<Longrightarrow> ci_is_business_day i d \<noteq> None"
    and "\<And>d w dd m y. valid_date d \<Longrightarrow> date_weekday d = Some w \<Longrightarrow>
        w = Tuesday \<or> w = Wednesday \<or> w = Thursday \<Longrightarrow> date_new dd m y = Some d \<Longrightarrow>
        ci_is_business_day i d = Some False \<Longrightarrow> closed w dd m y"
    and "midweek_rows_open closed"
  shows "live_market i 8"
proof
  show "\<exists>k\<ge>0. k \<le> 8 \<and> ci_is_business_day i (shift_date d k) = Some True"
    if "valid_date d" "valid_date (shift_date d 8)" for d
    using open_within_nine [of "ci_is_business_day i" closed d] assms(2-4) that by blast
qed (use assms(1,2) in auto)

end
