(* ===== verification/Markets_Plain.thy ===== *)
theory Markets_Plain
  imports Market_Rules
begin

text \<open>
  \<open>time/calendars/\<close>: calendars without national rules: no holidays, weekends only, and TARGET
  (\<open>nullcalendar.rs, weekendsonly.rs, target.rs\<close>). Each market
  is the predicate its \<open>is_business_day\<close> computes, clause by clause, and the record of its
  methods; each is shown to answer on every supported date, and to be closed on its weekend.
\<close>

section \<open>\<open>nullcalendar.rs\<close>\<close>

definition nullcalendar_is_business_day :: "date \<Rightarrow> bool option" where
  "nullcalendar_is_business_day date = Some True"

definition nullcalendar_is_weekend :: "weekday \<Rightarrow> bool" where
  "nullcalendar_is_weekend w \<longleftrightarrow>
     False"

definition nullcalendar_impl :: calendar_impl where
  "nullcalendar_impl = calendar_impl_new ''Null''
     nullcalendar_is_business_day nullcalendar_is_weekend"

definition nullcalendar_new :: calendar where
  "nullcalendar_new = calendar_from_impl nullcalendar_impl"

lemma nullcalendar_is_business_day_total [total_rules]: "valid_date date \<Longrightarrow> nullcalendar_is_business_day date \<noteq> None"
  unfolding nullcalendar_is_business_day_def by (rule total_rules | assumption | (simp add: civil_ok_def; fail))+

interpretation nullcalendar: market nullcalendar_impl
  by standard (simp_all add: nullcalendar_impl_def nullcalendar_is_business_day_total)

section \<open>\<open>weekendsonly.rs\<close>\<close>

definition weekendsonly_is_business_day :: "date \<Rightarrow> bool option" where
  "weekendsonly_is_business_day date = do {
     lnot (do { x1 \<leftarrow> date_weekday date; Some (is_weekend_sat_sun x1) })
   }"

definition weekendsonly_impl :: calendar_impl where
  "weekendsonly_impl = calendar_impl_new ''weekends only''
     weekendsonly_is_business_day is_weekend_sat_sun"

definition weekendsonly_new :: calendar where
  "weekendsonly_new = calendar_from_impl weekendsonly_impl"

lemma weekendsonly_is_business_day_total [total_rules]: "valid_date date \<Longrightarrow> weekendsonly_is_business_day date \<noteq> None"
  unfolding weekendsonly_is_business_day_def by (rule total_rules | assumption | (simp add: civil_ok_def; fail))+

lemma weekendsonly_is_business_day_weekend:
  assumes "valid_date date" "date_weekday date = Some w" "is_weekend_sat_sun w"
  shows "weekendsonly_is_business_day date = Some False"
  using assms(1)
  by (rule date_fields)
    (use assms(2,3) in \<open>simp add: weekendsonly_is_business_day_def western_easter_eq orthodox_easter_eq\<close>)

interpretation weekendsonly: weekend_market weekendsonly_impl
  by (rule weekend_marketI [where f = is_weekend_sat_sun]) (simp_all add: weekendsonly_impl_def weekendsonly_is_business_day_total weekendsonly_is_business_day_weekend)

section \<open>\<open>target.rs\<close>\<close>

definition target_is_business_day :: "date \<Rightarrow> bool option" where
  "target_is_business_day date = do {
     w \<leftarrow> date_weekday date;
     d \<leftarrow> date_day_of_month date;
     dd \<leftarrow> date_day_of_year date;
     m \<leftarrow> date_month date;
     y \<leftarrow> date_year date;
     em \<leftarrow> western_easter_monday y;
     Some (\<not> (is_weekend_sat_sun w
         \<or> (d = 1 \<and> m = January)
         \<or> (dd = (em - 3) \<and> y \<ge> 2000)
         \<or> (dd = em \<and> y \<ge> 2000)
         \<or> (d = 1 \<and> m = May \<and> y \<ge> 2000)
         \<or> (d = 25 \<and> m = December)
         \<or> (d = 26 \<and> m = December \<and> y \<ge> 2000)
         \<or> (d = 31 \<and> m = December \<and> (y = 1998 \<or> y = 1999 \<or> y = 2001))))
   }"

definition target_impl :: calendar_impl where
  "target_impl = calendar_impl_new ''TARGET''
     target_is_business_day is_weekend_sat_sun"

definition target_new :: calendar where
  "target_new = calendar_from_impl target_impl"

lemma target_is_business_day_total [total_rules]: "valid_date date \<Longrightarrow> target_is_business_day date \<noteq> None"
  unfolding target_is_business_day_def by (rule total_rules | assumption | (simp add: civil_ok_def; fail))+

lemma target_is_business_day_weekend:
  assumes "valid_date date" "date_weekday date = Some w" "is_weekend_sat_sun w"
  shows "target_is_business_day date = Some False"
  using assms(1)
  by (rule date_fields)
    (use assms(2,3) in \<open>simp add: target_is_business_day_def western_easter_eq orthodox_easter_eq\<close>)

interpretation target: weekend_market target_impl
  by (rule weekend_marketI [where f = is_weekend_sat_sun]) (simp_all add: target_impl_def target_is_business_day_total target_is_business_day_weekend)

section \<open>The markets are live\<close>

interpretation nullcalendar_live: live_market nullcalendar_impl 0
  by standard (auto simp: nullcalendar_impl_def nullcalendar_is_business_day_def)

definition no_midweek :: "weekday \<Rightarrow> int \<Rightarrow> month \<Rightarrow> int \<Rightarrow> bool" where
  "no_midweek w d m y \<longleftrightarrow> False"

lemma weekendsonly_closed_midweek:
  assumes "valid_date d" "date_weekday d = Some w" "w = Tuesday \<or> w = Wednesday \<or> w = Thursday"
    and "date_new dd m y = Some d" "weekendsonly_is_business_day d = Some False"
  shows "no_midweek w dd m y"
  using assms by (auto simp: weekendsonly_is_business_day_def is_weekend_sat_sun_def)

lemma no_midweek_rows: "midweek_rows_open no_midweek"
  by (simp add: midweek_rows_open_def no_midweek_def)

interpretation weekendsonly_live: live_market weekendsonly_impl 8
  by (rule live_marketI [OF _ _ _ no_midweek_rows])
    (simp_all add: weekendsonly_impl_def weekendsonly_is_business_day_total weekendsonly_closed_midweek)

text \<open>TARGET never closes on a Tuesday, the Wednesday and the Thursday after it.\<close>

definition target_midweek :: "weekday \<Rightarrow> int \<Rightarrow> month \<Rightarrow> int \<Rightarrow> bool" where
  "target_midweek w d m y \<longleftrightarrow>
     (d = 1 \<and> (m = January \<or> m = May)) \<or> ((d = 25 \<or> d = 26 \<or> d = 31) \<and> m = December)"

lemma target_closed_midweek:
  assumes "valid_date d" "date_weekday d = Some w" "w = Tuesday \<or> w = Wednesday \<or> w = Thursday"
    and "date_new dd m y = Some d" "target_is_business_day d = Some False"
  shows "target_midweek w dd m y"
proof -
  note i = date_new_inspect [OF assms(4)]
  obtain em where em: "western_easter_monday y = Some em"
    using easter_total(1) [OF assms(1) i(1)] by auto
  show ?thesis
    using assms(2,3,5) i em midweek_not_easter [OF assms(1-3) i(1,4) em]
    by (auto simp: target_is_business_day_def target_midweek_def is_weekend_sat_sun_def)
qed

lemma target_midweek_rows: "midweek_rows_open target_midweek"
  unfolding midweek_rows_open_def target_midweek_def
  by (auto split: if_splits simp: next_month_December)

interpretation target_live: live_market target_impl 8
  by (rule live_marketI [OF _ _ _ target_midweek_rows])
    (simp_all add: target_impl_def target_is_business_day_total target_closed_midweek)

end
