(* ===== verification/Calendar_Properties.thy ===== *)
theory Calendar_Properties
  imports Markets_Plain
begin

text \<open>
  The properties of calendars, each with the concrete instance that shows its hypotheses can hold:
  the adjustment conventions, advancing and counting, the lists of days, the holiday overrides.
\<close>

section \<open>A concrete calendar for the instances\<close>

lemma weekendsonly_ready: "well_formed weekendsonly_new" "clean_overrides weekendsonly_new"
  unfolding weekendsonly_new_def
  by (rule weekendsonly.fresh_well_formed) (rule clean_from_impl)

lemma some_dates: "valid_date (Date 45352)" "valid_date (Date 45353)" "valid_date (Date 45354)"
    "valid_date (Date 45355)" "valid_date (Date 45356)" "valid_date (Date 45359)"
  by code_simp+

section \<open>Adjustment\<close>

text \<open>C5. \<open>Following\<close> adjusts a date to the first business day on or after it, and
  \<open>Preceding\<close> to the last one on or before it; they return exactly when there is one.\<close>

theorem following_and_preceding_are_next_and_previous:
  assumes "well_formed cal" "valid_date d"
  shows "(adjust cal d Following = Some e \<longleftrightarrow>
            d \<le> e \<and> valid_date e \<and> is_business_day cal e = Some True \<and>
            (\<forall>x. d \<le> x \<and> x < e \<longrightarrow> is_business_day cal x = Some False)) \<and>
         (adjust cal d Preceding = Some e \<longleftrightarrow>
            e \<le> d \<and> valid_date e \<and> is_business_day cal e = Some True \<and>
            (\<forall>x. e < x \<and> x \<le> d \<longrightarrow> is_business_day cal x = Some False))"
  unfolding adjust_Following [OF assms] adjust_Preceding [OF assms] first_open_def last_open_def
  by (auto simp: is_holiday_iff)

lemma following_and_preceding_are_next_and_previous_witness:
  "is_business_day weekendsonly_new (Date 45355) = Some True \<and>
   is_business_day weekendsonly_new (Date 45354) = Some False"
proof -
  have a: "adjust weekendsonly_new (Date 45353) Following = Some (Date 45355)" by code_simp
  have "Date 45353 \<le> Date 45354 \<and> Date 45354 < Date 45355" by code_simp
  then show ?thesis
    using following_and_preceding_are_next_and_previous
      [OF weekendsonly_ready(1) some_dates(2), of "Date 45355"] a by blast
qed

text \<open>Under every convention but \<open>Unadjusted\<close>, an adjusted date is a supported business day,
  and adjusting it again under any convention changes nothing.\<close>

lemma adjustment_is_idempotent:
  assumes "well_formed cal" "valid_date d" "adjust cal d c = Some e" "c \<noteq> Unadjusted"
  shows "valid_date e \<and> is_business_day cal e = Some True \<and> adjust cal e c' = Some e"
  using adjust_result [OF assms(1-3)] adjust_idem [OF assms] assms(4) by blast

text \<open>\<open>ModifiedFollowing\<close> takes the next business day unless it falls in another month, and
  then the previous one; \<open>ModifiedPreceding\<close> is its mirror image.\<close>

lemma modified_conventions_by_cases:
  assumes "well_formed cal" "valid_date d" "adjust cal d Following = Some f" "adjust cal d Preceding = Some p"
  shows "adjust cal d ModifiedFollowing = Some (if date_month f = date_month d then f else p) \<and>
    adjust cal d ModifiedPreceding = Some (if date_month p = date_month d then p else f)"
  using adjust_ModifiedFollowing [OF assms(1,2)] adjust_ModifiedPreceding [OF assms(1,2)]
    assms(3,4) unfolding adjust_Following [OF assms(1,2)] adjust_Preceding [OF assms(1,2)] by auto

text \<open>\<open>Nearest\<close> minimises the distance to the date over all business days, and between two
  business days at the same distance it takes the later one.\<close>

lemma nearest_is_closest:
  assumes "well_formed cal" "valid_date d" "adjust cal d Nearest = Some e"
    and "is_business_day cal x = Some True"
  shows "\<bar>serial_number e - serial_number d\<bar> \<le> \<bar>serial_number x - serial_number d\<bar> \<and>
     (e < d \<longrightarrow> serial_number x \<noteq> 2 * serial_number d - serial_number e)"
  by (rule adjust_Nearest_minimal [OF assms])

text \<open>A calendar without an implementation reports that as an error value from
  \<open>try_adjust\<close>, and \<open>adjust\<close> panics; a calendar with one never reports the error.\<close>

lemma adjustment_errors:
  assumes "valid_date d" "c \<noteq> Unadjusted"
  shows "try_adjust calendar_empty d c = Some (Inl NoCalendarImplementation) \<and>
    adjust calendar_empty d c = None \<and>
    (well_formed cal \<longrightarrow> (\<forall>err. try_adjust cal d c \<noteq> Some (Inl err)))"
proof -
  have "calendar_is_empty calendar_empty" by code_simp
  from try_adjust_empty [OF assms this] show ?thesis using try_adjust_not_error [OF _ assms(1)] by simp
qed

section \<open>Advancing and counting\<close>

text \<open>C6. Advancing by \<open>n > 0\<close> days returns the business day with exactly \<open>n\<close> business days after
  the start and up to it; by \<open>n < 0\<close> days, the one with \<open>- n\<close> business days from it to before the
  start. The convention and the end-of-month flag play no part.\<close>

theorem advance_is_nth_business_day:
  assumes "well_formed cal" "valid_date d" "n \<noteq> 0"
  shows "advance cal d n Days c eom = Some e \<longleftrightarrow>
     valid_date e \<and> is_business_day cal e = Some True \<and>
     (if 0 < n then d < e \<and> int (card {x. d < x \<and> x \<le> e \<and> is_business_day cal x = Some True}) = n
      else e < d \<and> int (card {x. e \<le> x \<and> x < d \<and> is_business_day cal x = Some True}) = - n)"
  using advance_days_iff [OF assms(1,2), of n c eom e] advance_days_back_iff [OF assms(1,2), of n c eom e]
    assms(3) by (cases "0 < n") auto

lemma advance_is_nth_business_day_witness:
  "int (card {x. Date 45352 < x \<and> x \<le> Date 45356 \<and> is_business_day weekendsonly_new x = Some True}) = 2"
proof -
  have "advance weekendsonly_new (Date 45352) 2 Days Following False = Some (Date 45356)" by code_simp
  then show ?thesis
    using advance_is_nth_business_day
      [OF weekendsonly_ready(1) some_dates(1), of 2 Following False "Date 45356"] by simp
qed

text \<open>\<open>business_days_between\<close> inverts \<open>advance\<close>: advancing a date by the business days counted
  up to a later business day reaches that day, and the days counted to an advanced date are the
  days advanced by.\<close>

lemma counting_inverts_advancing:
  assumes "well_formed cal" "valid_date a" "valid_date b" "is_business_day cal b = Some True" "a < b" "0 < n"
  shows "business_days_between cal a b False True = Some n \<longleftrightarrow> advance cal a n Days c eom = Some b"
  using advance_counted [OF assms(1-4) _ assms(5)] counted_advance [OF assms(1,2,6)] by blast

text \<open>The count of business days is additive over adjacent intervals and changes sign when the
  ends are exchanged with their inclusion flags.\<close>

lemma counting_is_additive:
  assumes "well_formed cal" "valid_date a" "valid_date b" "valid_date c" "a \<le> b" "b \<le> c"
    and "business_days_between cal a b False True = Some m" "business_days_between cal b c False True = Some n"
  shows "business_days_between cal a c False True = Some (m + n) \<and>
    (a \<noteq> c \<longrightarrow> business_days_between cal c a True False = Some (- (m + n)))"
  using business_days_between_add [OF assms] business_days_between_swap [OF assms(1,2,4), of True False]
  by simp

text \<open>\<open>business_day_list\<close> returns the business days of the closed range in increasing order, so
  that its length is the count with both ends included.\<close>

lemma business_day_list_matches_count:
  assumes "well_formed cal" "valid_date a" "valid_date b" "a \<le> b"
  shows "\<exists>xs. business_day_list cal a b = Some xs \<and> sorted_wrt (<) xs \<and>
     set xs = {x. a \<le> x \<and> x \<le> b \<and> is_business_day cal x = Some True} \<and>
     business_days_between cal a b True True = Some (int (length xs))"
  using length_business_day_list [OF assms] business_day_list_eq [OF assms(1-3)]
  by (auto simp: set_dates_from_to)

text \<open>C7. Advancing by a period never leaves the market's days: whatever the unit, the sign and the
  end-of-month flag, a result under a convention other than \<open>Unadjusted\<close> is a business day; and
  with the flag, the last business day of a month advances by months or years to the last
  business day of a month.\<close>

theorem advance_lands_on_business_day:
  assumes "well_formed cal" "valid_date d" "advance cal d n u c eom = Some e" "c \<noteq> Unadjusted"
  shows "valid_date e \<and> is_business_day cal e = Some True \<and>
    (eom \<and> n \<noteq> 0 \<and> (u = Months \<or> u = Years) \<and> is_end_of_month cal d = Some True \<longrightarrow>
       (\<exists>d1. date_plus d (period_new n u) = Some d1 \<and> end_of_month cal d1 = Some e))"
proof (intro conjI impI)
  assume h: "eom \<and> n \<noteq> 0 \<and> (u = Months \<or> u = Years) \<and> is_end_of_month cal d = Some True"
  then obtain d1 where d1: "date_plus d (period_new n u) = Some d1"
    using assms by (auto simp: advance_def bind_eq_Some_conv split: if_splits)
  then show "\<exists>d1. date_plus d (period_new n u) = Some d1 \<and> end_of_month cal d1 = Some e"
    using advance_months_snap [OF assms(1,2) _ _ d1 _ assms(4)] assms(3) h by auto
qed (use advance_result [OF assms] in auto)

lemma advance_lands_on_business_day_witness:
  "is_business_day weekendsonly_new (Date 45412) = Some True \<and> end_of_month weekendsonly_new (Date 45411) = Some (Date 45412)"
proof -
  have "valid_date (Date 45380)"
    "advance weekendsonly_new (Date 45380) 1 Months Following True = Some (Date 45412)"
    "is_end_of_month weekendsonly_new (Date 45380) = Some True"
    "date_plus (Date 45380) (period_new 1 Months) = Some (Date 45411)" by code_simp+
  with advance_lands_on_business_day [OF weekendsonly_ready(1) this(1,2)] show ?thesis by simp
qed

section \<open>Holiday overrides\<close>

text \<open>Adding a holiday changes the answer for that date alone, to a holiday; removing one, to a
  business day; a reset restores the market's own answers.\<close>

lemma override_changes_one_day:
  assumes "clean_overrides cal" "add_holiday cal d = Some cal1" "remove_holiday cal d = Some cal2"
  shows "is_business_day cal1 e = (if e = d then Some False else is_business_day cal e) \<and>
    is_business_day cal2 e = (if e = d then Some True else is_business_day cal e) \<and>
    is_business_day (reset_added_and_removed_holidays cal) e = ci_is_business_day (imp cal) e"
  using add_holiday_lookup [OF assms(1,2)] remove_holiday_lookup [OF assms(1,3)] reset_lookup by simp

text \<open>C8. Along every history of added, removed and reset holidays the overlay stays clean: the
  market is unchanged, an override always differs from the market's own answer, no date is both
  added and removed, and two histories that give the same answers give the same calendar.\<close>

theorem override_histories_are_canonical:
  assumes "edited (calendar_from_impl i) a" "edited (calendar_from_impl i) b"
    and "\<And>d. is_business_day a d = is_business_day b d"
  shows "imp a = i \<and> added_holidays a \<inter> removed_holidays a = {} \<and>
    (\<forall>d\<in>added_holidays a. ci_is_business_day i d = Some True) \<and>
    (\<forall>d\<in>removed_holidays a. ci_is_business_day i d = Some False) \<and> a = b"
  using edited_clean_fresh [OF assms(1)] clean_disjoint [of a] edited_determined [OF assms]
  by (auto simp: clean_overrides_def)

lemma override_histories_are_canonical_witness:
  "imp (reset_added_and_removed_holidays weekendsonly_new) = weekendsonly_impl \<and>
   weekendsonly_new = reset_added_and_removed_holidays weekendsonly_new"
proof -
  have "edited (calendar_from_impl weekendsonly_impl) weekendsonly_new"
    unfolding weekendsonly_new_def by (rule edited.start)
  moreover from this have "edited (calendar_from_impl weekendsonly_impl) (reset_added_and_removed_holidays weekendsonly_new)"
    by (rule edited.step) (rule override_step.reset)
  moreover have "is_business_day weekendsonly_new d = is_business_day (reset_added_and_removed_holidays weekendsonly_new) d" for d
    unfolding reset_lookup by (simp add: is_business_day_def weekendsonly_new_def calendar_from_impl_def)
  ultimately show ?thesis
    using override_histories_are_canonical [of weekendsonly_impl weekendsonly_new] reset_imp
    by (metis)
qed

end
