(* ===== verification/Composite_Calendars.thy ===== *)
theory Composite_Calendars
  imports Market_Rules "HOL-Library.Word"
begin

unbundle bit_operations_syntax

text \<open>
  \<open>calendars/bespokecalendar.rs\<close> and \<open>calendars/jointcalendar.rs\<close>: the calendars
  built at run time. A bespoke calendar is a name and a 32-bit mask of weekend days; every handle
  it gave out reads the current mask (\<open>bespoke_relink\<close>). A joint calendar asks its members.
\<close>

section \<open>Bespoke calendars\<close>

record bespoke =
  bespoke_name :: string
  weekend_mask :: "32 word"

definition bespoke_new :: "string \<Rightarrow> bespoke" where
  "bespoke_new name = \<lparr>bespoke_name = name, weekend_mask = 0\<rparr>"

definition weekday_bit :: "weekday \<Rightarrow> 32 word" where
  "weekday_bit w = push_bit (nat (weekday_ordinal w)) 1"

definition bespoke_add_weekend :: "bespoke \<Rightarrow> weekday \<Rightarrow> bespoke" where
  "bespoke_add_weekend b w = b\<lparr>weekend_mask := weekend_mask b OR weekday_bit w\<rparr>"

definition bespoke_is_weekend :: "bespoke \<Rightarrow> weekday \<Rightarrow> bool" where
  "bespoke_is_weekend b w \<longleftrightarrow> (weekend_mask b AND weekday_bit w) \<noteq> 0"

definition bespoke_is_business_day :: "bespoke \<Rightarrow> date \<Rightarrow> bool option" where
  "bespoke_is_business_day b date = do {
     w \<leftarrow> date_weekday date;
     Some (\<not> bespoke_is_weekend b w)
   }"

definition bespoke_impl :: "bespoke \<Rightarrow> calendar_impl" where
  "bespoke_impl b = calendar_impl_new (bespoke_name b) (bespoke_is_business_day b) (bespoke_is_weekend b)"

definition bespoke_calendar :: "bespoke \<Rightarrow> calendar" where
  "bespoke_calendar b = calendar_from_impl (bespoke_impl b)"

text \<open>What a handle given out earlier, with its own overrides, shows of the current state.\<close>

definition bespoke_relink :: "bespoke \<Rightarrow> calendar \<Rightarrow> calendar" where
  "bespoke_relink b cal = cal\<lparr>imp := bespoke_impl b\<rparr>"

lemma weekday_bit_nth: "bit (weekday_bit w) n \<longleftrightarrow> n = nat (weekday_ordinal w)"
proof -
  have "nat (weekday_ordinal w) < 32" by (cases w) simp_all
  then show ?thesis unfolding weekday_bit_def
    by (auto simp: bit_exp_iff)
qed

lemma bespoke_is_weekend_bit: "bespoke_is_weekend b w \<longleftrightarrow> bit (weekend_mask b) (nat (weekday_ordinal w))"
  by (simp add: bespoke_is_weekend_def weekday_bit_def and_exp_eq_0_iff_not_bit)

lemma weekday_ordinal_nat: "nat (weekday_ordinal v) = nat (weekday_ordinal w) \<longleftrightarrow> v = w"
  by (cases v; cases w) simp_all

text \<open>The mask is a set of weekdays: empty at first, and adding a day adds exactly that day.\<close>

lemma bespoke_new_open: "\<not> bespoke_is_weekend (bespoke_new name) w"
  by (simp add: bespoke_is_weekend_def bespoke_new_def)

lemma bespoke_add_weekend_iff:
  "bespoke_is_weekend (bespoke_add_weekend b v) w \<longleftrightarrow> w = v \<or> bespoke_is_weekend b w"
  by (auto simp: bespoke_is_weekend_bit bespoke_add_weekend_def bit_or_iff weekday_bit_nth weekday_ordinal_nat)

lemma bespoke_fold_weekends:
  "bespoke_is_weekend (fold (\<lambda>w b. bespoke_add_weekend b w) ws b) w \<longleftrightarrow> w \<in> set ws \<or> bespoke_is_weekend b w"
  by (induction ws arbitrary: b) (auto simp: bespoke_add_weekend_iff)

lemma bespoke_add_idem: "bespoke_add_weekend (bespoke_add_weekend b w) w = bespoke_add_weekend b w"
  by (simp add: bespoke_add_weekend_def or.assoc)

lemma bespoke_add_commute:
  "bespoke_add_weekend (bespoke_add_weekend b v) w = bespoke_add_weekend (bespoke_add_weekend b w) v"
  by (simp add: bespoke_add_weekend_def or.assoc) (metis or.commute)

lemma bespoke_total: "valid_date d \<Longrightarrow> bespoke_is_business_day b d \<noteq> None"
  unfolding bespoke_is_business_day_def by (rule total_rules | assumption)+

text \<open>A handle given out before a weekend day is added sees it, unless an override decides.\<close>

lemma bespoke_relink_lookup:
  assumes "date_weekday d = Some v"
  shows "is_business_day (bespoke_relink (bespoke_add_weekend b w) cal) d =
     (if d \<in> added_holidays cal then Some False else if d \<in> removed_holidays cal then Some True
      else if v = w then Some False else is_business_day (bespoke_relink b cal) d)"
  using assms by (simp add: is_business_day_def bespoke_relink_def bespoke_impl_def
      bespoke_is_business_day_def bespoke_add_weekend_iff)

lemma bespoke_weekend_market: "bespoke_name b \<noteq> [] \<Longrightarrow> weekend_market (bespoke_impl b)"
  by (rule weekend_marketI [where f = "bespoke_is_weekend b"])
    (use bespoke_total in \<open>auto simp: bespoke_impl_def bespoke_is_business_day_def\<close>)

section \<open>Joint calendars\<close>

datatype joint_calendar_rule = JoinHolidays | JoinBusinessDays

fun all_opt :: "('a \<Rightarrow> bool option) \<Rightarrow> 'a list \<Rightarrow> bool option" where
  "all_opt p [] = Some True"
| "all_opt p (x # xs) = land (p x) (all_opt p xs)"

definition joint_name :: "joint_calendar_rule \<Rightarrow> calendar list \<Rightarrow> string" where
  "joint_name rule cs =
     (case rule of JoinHolidays \<Rightarrow> ''JoinHolidays('' | JoinBusinessDays \<Rightarrow> ''JoinBusinessDays('')
     @ concat (map (\<lambda>(i, c). (if i > 0 then '', '' else '''') @ calendar_name c) (zip [0..<length cs] cs))
     @ '')''"

definition joint_is_weekend :: "joint_calendar_rule \<Rightarrow> calendar list \<Rightarrow> weekday \<Rightarrow> bool" where
  "joint_is_weekend rule cs w =
     (case rule of JoinHolidays \<Rightarrow> list_ex (\<lambda>c. is_weekend c w) cs
      | JoinBusinessDays \<Rightarrow> list_all (\<lambda>c. is_weekend c w) cs)"

definition joint_is_weekend_on :: "joint_calendar_rule \<Rightarrow> calendar list \<Rightarrow> date \<Rightarrow> bool option" where
  "joint_is_weekend_on rule cs date =
     (case rule of JoinHolidays \<Rightarrow> any_opt (\<lambda>c. is_weekend_on c date) cs
      | JoinBusinessDays \<Rightarrow> all_opt (\<lambda>c. is_weekend_on c date) cs)"

definition joint_is_business_day :: "joint_calendar_rule \<Rightarrow> calendar list \<Rightarrow> date \<Rightarrow> bool option" where
  "joint_is_business_day rule cs date =
     (case rule of JoinHolidays \<Rightarrow> all_opt (\<lambda>c. is_business_day c date) cs
      | JoinBusinessDays \<Rightarrow> any_opt (\<lambda>c. is_business_day c date) cs)"

fun fold1 :: "(int \<Rightarrow> int \<Rightarrow> int) \<Rightarrow> int list \<Rightarrow> int option" where
  "fold1 f [] = None"
| "fold1 f (x # xs) = Some (fold f xs x)"

definition joint_holiday_horizon :: "calendar list \<Rightarrow> int option" where
  "joint_holiday_horizon cs = fold1 min (List.map_filter holiday_horizon cs)"

definition joint_holiday_first_year :: "calendar list \<Rightarrow> int option" where
  "joint_holiday_first_year cs = fold1 max (List.map_filter holiday_first_year cs)"

definition joint_impl :: "joint_calendar_rule \<Rightarrow> calendar list \<Rightarrow> calendar_impl" where
  "joint_impl rule cs =
     \<lparr>ci_name = joint_name rule cs, ci_is_business_day = joint_is_business_day rule cs,
      ci_is_weekend = joint_is_weekend rule cs, ci_is_weekend_on = joint_is_weekend_on rule cs,
      ci_holiday_horizon = joint_holiday_horizon cs, ci_holiday_first_year = joint_holiday_first_year cs\<rparr>"

definition joint_new :: "calendar list \<Rightarrow> joint_calendar_rule \<Rightarrow> calendar option" where
  "joint_new cs rule = do {
     assert_that (cs \<noteq> []);
     Some (calendar_from_impl (joint_impl rule cs))
   }"

definition joint_of_two :: "calendar \<Rightarrow> calendar \<Rightarrow> joint_calendar_rule \<Rightarrow> calendar option" where
  "joint_of_two c1 c2 rule = joint_new [c1, c2] rule"

lemma all_opt_Some:
  "(\<And>x. x \<in> set xs \<Longrightarrow> p x \<noteq> None) \<Longrightarrow> all_opt p xs = Some (\<forall>x\<in>set xs. p x = Some True)"
  by (induction xs) force+

lemma any_opt_Some:
  "(\<And>x. x \<in> set xs \<Longrightarrow> p x \<noteq> None) \<Longrightarrow> any_opt p xs = Some (\<exists>x\<in>set xs. p x = Some True)"
  by (induction xs) force+

lemma joint_business_day:
  assumes "\<And>c. c \<in> set cs \<Longrightarrow> well_formed c" "valid_date d"
  shows "joint_is_business_day JoinHolidays cs d = Some (\<forall>c\<in>set cs. is_business_day c d = Some True)"
    and "joint_is_business_day JoinBusinessDays cs d = Some (\<exists>c\<in>set cs. is_business_day c d = Some True)"
proof -
  have "\<And>c. c \<in> set cs \<Longrightarrow> is_business_day c d \<noteq> None"
    using is_business_day_total [OF _ assms(2)] assms(1) by force
  then show "joint_is_business_day JoinHolidays cs d = Some (\<forall>c\<in>set cs. is_business_day c d = Some True)"
    "joint_is_business_day JoinBusinessDays cs d = Some (\<exists>c\<in>set cs. is_business_day c d = Some True)"
    by (simp_all add: joint_is_business_day_def all_opt_Some any_opt_Some)
qed

lemma joint_name_nonempty: "joint_name rule cs \<noteq> []"
  by (simp add: joint_name_def)

lemma joint_market:
  assumes "\<And>c. c \<in> set cs \<Longrightarrow> well_formed c"
  shows "market (joint_impl rule cs)"
  by standard (use joint_business_day [OF assms] in
      \<open>cases rule; simp add: joint_impl_def joint_name_nonempty\<close>)+

lemma joint_new_Some: "cs \<noteq> [] \<Longrightarrow> joint_new cs rule = Some (calendar_from_impl (joint_impl rule cs))"
  by (simp add: joint_new_def)

lemma joint_lookup:
  assumes "joint_new cs rule = Some j" "\<And>c. c \<in> set cs \<Longrightarrow> well_formed c" "valid_date d"
  shows "is_business_day j d = Some (case rule of
     JoinHolidays \<Rightarrow> \<forall>c\<in>set cs. is_business_day c d = Some True
   | JoinBusinessDays \<Rightarrow> \<exists>c\<in>set cs. is_business_day c d = Some True)"
proof -
  have "j = calendar_from_impl (joint_impl rule cs)" using assms(1) by (auto simp: joint_new_def bind_eq_Some_conv)
  then show ?thesis using joint_business_day [OF assms(2,3)]
    by (cases rule) (simp_all add: is_business_day_def calendar_from_impl_def joint_impl_def)
qed

lemma joint_well_formed:
  assumes "joint_new cs rule = Some j" "\<And>c. c \<in> set cs \<Longrightarrow> well_formed c"
  shows "well_formed j"
  using assms market.fresh_well_formed [OF joint_market [OF assms(2)]]
  by (auto simp: joint_new_def bind_eq_Some_conv)

text \<open>Following on the joint holidays lands no earlier than following on any member.\<close>

lemma joint_following_later:
  assumes j: "joint_new cs JoinHolidays = Some j" and wf: "\<And>c. c \<in> set cs \<Longrightarrow> well_formed c"
    and c: "c \<in> set cs" and v: "valid_date d"
    and a: "adjust j d Following = Some e" "adjust c d Following = Some e'"
  shows "e' \<le> e"
proof -
  have e: "first_open (is_holiday j) d e" using a(1) adjust_Following [OF joint_well_formed [OF j wf] v] by simp
  then have "is_business_day j e = Some True" "valid_date e" "d \<le> e"
    by (auto simp: first_open_def is_holiday_iff)
  then have "is_business_day c e = Some True" using joint_lookup [OF j wf, of e] c by simp
  then show ?thesis
    using a(2) adjust_Following [OF wf [OF c] v] \<open>d \<le> e\<close> first_open_least [of "is_holiday c" d e' e]
    by (simp add: is_holiday_iff)
qed

lemma fold1_bounds:
  "fold1 min xs = (if xs = [] then None else Some (Min (set xs)))"
  "fold1 max xs = (if xs = [] then None else Some (Max (set xs)))"
  by (cases xs; simp only: fold1.simps Min.set_eq_fold Max.set_eq_fold list.distinct if_True if_False)+

end
