(* ===== verification/Markets_West.thy ===== *)
theory Markets_West
  imports Market_Rules
begin

text \<open>
  \<open>time/calendars/\<close>: western European markets
  (\<open>unitedkingdom.rs, germany.rs, france.rs, italy.rs, austria.rs, switzerland.rs, malta.rs\<close>). Each market
  is the predicate its \<open>is_business_day\<close> computes, clause by clause, and the record of its
  methods; each is shown to answer on every supported date, and to be closed on its weekend.
\<close>

section \<open>\<open>unitedkingdom.rs\<close>\<close>

definition unitedkingdom_is_bank_holiday :: "int \<Rightarrow> weekday \<Rightarrow> month \<Rightarrow> int \<Rightarrow> bool" where
  "unitedkingdom_is_bank_holiday d w m y \<longleftrightarrow>
     (d \<le> 7 \<and> w = Monday \<and> m = May \<and> y \<noteq> 1995 \<and> y \<noteq> 2020)
     \<or> (d = 8 \<and> m = May \<and> (y = 1995 \<or> y = 2020))
     \<or> (d \<ge> 25 \<and> w = Monday \<and> m = May \<and> y \<noteq> 2002 \<and> y \<noteq> 2012 \<and> y \<noteq> 2022)
     \<or> ((d = 3 \<or> d = 4) \<and> m = June \<and> y = 2002)
     \<or> ((d = 4 \<or> d = 5) \<and> m = June \<and> y = 2012)
     \<or> ((d = 2 \<or> d = 3) \<and> m = June \<and> y = 2022)
     \<or> (d \<ge> 25 \<and> w = Monday \<and> m = August)
     \<or> (d = 29 \<and> m = April \<and> y = 2011)
     \<or> (d = 19 \<and> m = September \<and> y = 2022)
     \<or> (d = 8 \<and> m = May \<and> y = 2023)"

definition unitedkingdom_uk_is_business_day :: "date \<Rightarrow> bool option" where
  "unitedkingdom_uk_is_business_day date = do {
     w \<leftarrow> date_weekday date;
     d \<leftarrow> date_day_of_month date;
     dd \<leftarrow> date_day_of_year date;
     m \<leftarrow> date_month date;
     y \<leftarrow> date_year date;
     em \<leftarrow> western_easter_monday y;
     Some (\<not> (is_weekend_sat_sun w
         \<or> ((d = 1 \<or> ((d = 2 \<or> d = 3) \<and> w = Monday)) \<and> m = January)
         \<or> dd = (em - 3)
         \<or> dd = em
         \<or> unitedkingdom_is_bank_holiday d w m y
         \<or> ((d = 25 \<or> (d = 27 \<and> (w = Monday \<or> w = Tuesday))) \<and> m = December)
         \<or> ((d = 26 \<or> (d = 28 \<and> (w = Monday \<or> w = Tuesday))) \<and> m = December)
         \<or> (d = 31 \<and> m = December \<and> y = 1999)))
   }"

definition unitedkingdom_settlement_impl :: calendar_impl where
  "unitedkingdom_settlement_impl = calendar_impl_new ''UK settlement''
     unitedkingdom_uk_is_business_day is_weekend_sat_sun"

definition unitedkingdom_exchange_impl :: calendar_impl where
  "unitedkingdom_exchange_impl = calendar_impl_new ''London stock exchange''
     unitedkingdom_uk_is_business_day is_weekend_sat_sun"

definition unitedkingdom_metals_impl :: calendar_impl where
  "unitedkingdom_metals_impl = calendar_impl_new ''London metals exchange''
     unitedkingdom_uk_is_business_day is_weekend_sat_sun"

datatype unitedkingdom_market = UnitedKingdom_Settlement | UnitedKingdom_Exchange | UnitedKingdom_Metals

fun unitedkingdom_new :: "unitedkingdom_market \<Rightarrow> calendar" where
  "unitedkingdom_new UnitedKingdom_Settlement = calendar_from_impl unitedkingdom_settlement_impl"
| "unitedkingdom_new UnitedKingdom_Exchange = calendar_from_impl unitedkingdom_exchange_impl"
| "unitedkingdom_new UnitedKingdom_Metals = calendar_from_impl unitedkingdom_metals_impl"

lemma unitedkingdom_uk_is_business_day_total [total_rules]: "valid_date date \<Longrightarrow> unitedkingdom_uk_is_business_day date \<noteq> None"
  unfolding unitedkingdom_uk_is_business_day_def by (rule total_rules | assumption | (simp add: civil_ok_def; fail))+

lemma unitedkingdom_uk_is_business_day_weekend:
  assumes "valid_date date" "date_weekday date = Some w" "is_weekend_sat_sun w"
  shows "unitedkingdom_uk_is_business_day date = Some False"
  using assms(1)
  by (rule date_fields)
    (use assms(2,3) in \<open>simp add: unitedkingdom_uk_is_business_day_def unitedkingdom_is_bank_holiday_def western_easter_eq orthodox_easter_eq\<close>)

interpretation unitedkingdom_settlement: weekend_market unitedkingdom_settlement_impl
  by (rule weekend_marketI [where f = is_weekend_sat_sun]) (simp_all add: unitedkingdom_settlement_impl_def unitedkingdom_uk_is_business_day_total unitedkingdom_uk_is_business_day_weekend)

interpretation unitedkingdom_exchange: weekend_market unitedkingdom_exchange_impl
  by (rule weekend_marketI [where f = is_weekend_sat_sun]) (simp_all add: unitedkingdom_exchange_impl_def unitedkingdom_uk_is_business_day_total unitedkingdom_uk_is_business_day_weekend)

interpretation unitedkingdom_metals: weekend_market unitedkingdom_metals_impl
  by (rule weekend_marketI [where f = is_weekend_sat_sun]) (simp_all add: unitedkingdom_metals_impl_def unitedkingdom_uk_is_business_day_total unitedkingdom_uk_is_business_day_weekend)

section \<open>\<open>germany.rs\<close>\<close>

definition germany_settlement_is_business_day :: "date \<Rightarrow> bool option" where
  "germany_settlement_is_business_day date = do {
     w \<leftarrow> date_weekday date;
     d \<leftarrow> date_day_of_month date;
     dd \<leftarrow> date_day_of_year date;
     m \<leftarrow> date_month date;
     y \<leftarrow> date_year date;
     em \<leftarrow> western_easter_monday y;
     Some (\<not> (is_weekend_sat_sun w
         \<or> (d = 1 \<and> m = January)
         \<or> dd = (em - 3)
         \<or> dd = em
         \<or> dd = (em + 38)
         \<or> dd = (em + 49)
         \<or> dd = (em + 59)
         \<or> (d = 1 \<and> m = May)
         \<or> (d = 3 \<and> m = October)
         \<or> (d = 24 \<and> m = December)
         \<or> (d = 25 \<and> m = December)
         \<or> (d = 26 \<and> m = December)))
   }"

definition germany_settlement_impl :: calendar_impl where
  "germany_settlement_impl = calendar_impl_new ''German settlement''
     germany_settlement_is_business_day is_weekend_sat_sun"

definition germany_frankfurtstockexchange_is_business_day :: "date \<Rightarrow> bool option" where
  "germany_frankfurtstockexchange_is_business_day date = do {
     w \<leftarrow> date_weekday date;
     d \<leftarrow> date_day_of_month date;
     dd \<leftarrow> date_day_of_year date;
     m \<leftarrow> date_month date;
     y \<leftarrow> date_year date;
     em \<leftarrow> western_easter_monday y;
     Some (\<not> (is_weekend_sat_sun w
         \<or> (d = 1 \<and> m = January)
         \<or> dd = (em - 3)
         \<or> dd = em
         \<or> (d = 1 \<and> m = May)
         \<or> (d = 24 \<and> m = December)
         \<or> (d = 25 \<and> m = December)
         \<or> (d = 26 \<and> m = December)))
   }"

definition germany_frankfurtstockexchange_impl :: calendar_impl where
  "germany_frankfurtstockexchange_impl = calendar_impl_new ''Frankfurt stock exchange''
     germany_frankfurtstockexchange_is_business_day is_weekend_sat_sun"

definition germany_xetra_is_business_day :: "date \<Rightarrow> bool option" where
  "germany_xetra_is_business_day date = do {
     w \<leftarrow> date_weekday date;
     d \<leftarrow> date_day_of_month date;
     dd \<leftarrow> date_day_of_year date;
     m \<leftarrow> date_month date;
     y \<leftarrow> date_year date;
     em \<leftarrow> western_easter_monday y;
     Some (\<not> (is_weekend_sat_sun w
         \<or> (d = 1 \<and> m = January)
         \<or> dd = (em - 3)
         \<or> dd = em
         \<or> (d = 1 \<and> m = May)
         \<or> (d = 24 \<and> m = December)
         \<or> (d = 25 \<and> m = December)
         \<or> (d = 26 \<and> m = December)))
   }"

definition germany_xetra_impl :: calendar_impl where
  "germany_xetra_impl = calendar_impl_new ''Xetra''
     germany_xetra_is_business_day is_weekend_sat_sun"

definition germany_eurex_is_business_day :: "date \<Rightarrow> bool option" where
  "germany_eurex_is_business_day date = do {
     w \<leftarrow> date_weekday date;
     d \<leftarrow> date_day_of_month date;
     dd \<leftarrow> date_day_of_year date;
     m \<leftarrow> date_month date;
     y \<leftarrow> date_year date;
     em \<leftarrow> western_easter_monday y;
     Some (\<not> (is_weekend_sat_sun w
         \<or> (d = 1 \<and> m = January)
         \<or> dd = (em - 3)
         \<or> dd = em
         \<or> (d = 1 \<and> m = May)
         \<or> (d = 24 \<and> m = December)
         \<or> (d = 25 \<and> m = December)
         \<or> (d = 26 \<and> m = December)
         \<or> (d = 31 \<and> m = December)))
   }"

definition germany_eurex_impl :: calendar_impl where
  "germany_eurex_impl = calendar_impl_new ''Eurex''
     germany_eurex_is_business_day is_weekend_sat_sun"

definition germany_euwax_is_business_day :: "date \<Rightarrow> bool option" where
  "germany_euwax_is_business_day date = do {
     w \<leftarrow> date_weekday date;
     d \<leftarrow> date_day_of_month date;
     dd \<leftarrow> date_day_of_year date;
     m \<leftarrow> date_month date;
     y \<leftarrow> date_year date;
     em \<leftarrow> western_easter_monday y;
     Some (\<not> (w = Saturday
         \<or> w = Sunday
         \<or> (d = 1 \<and> m = January)
         \<or> dd = (em - 3)
         \<or> dd = em
         \<or> (d = 1 \<and> m = May)
         \<or> dd = (em + 49)
         \<or> (d = 24 \<and> m = December)
         \<or> (d = 25 \<and> m = December)
         \<or> (d = 26 \<and> m = December)))
   }"

definition germany_euwax_impl :: calendar_impl where
  "germany_euwax_impl = calendar_impl_new ''Euwax''
     germany_euwax_is_business_day is_weekend_sat_sun"

datatype germany_market = Germany_Settlement | Germany_FrankfurtStockExchange | Germany_Xetra | Germany_Eurex | Germany_Euwax

fun germany_new :: "germany_market \<Rightarrow> calendar" where
  "germany_new Germany_Settlement = calendar_from_impl germany_settlement_impl"
| "germany_new Germany_FrankfurtStockExchange = calendar_from_impl germany_frankfurtstockexchange_impl"
| "germany_new Germany_Xetra = calendar_from_impl germany_xetra_impl"
| "germany_new Germany_Eurex = calendar_from_impl germany_eurex_impl"
| "germany_new Germany_Euwax = calendar_from_impl germany_euwax_impl"

lemma germany_settlement_is_business_day_total [total_rules]: "valid_date date \<Longrightarrow> germany_settlement_is_business_day date \<noteq> None"
  unfolding germany_settlement_is_business_day_def by (rule total_rules | assumption | (simp add: civil_ok_def; fail))+

lemma germany_frankfurtstockexchange_is_business_day_total [total_rules]: "valid_date date \<Longrightarrow> germany_frankfurtstockexchange_is_business_day date \<noteq> None"
  unfolding germany_frankfurtstockexchange_is_business_day_def by (rule total_rules | assumption | (simp add: civil_ok_def; fail))+

lemma germany_xetra_is_business_day_total [total_rules]: "valid_date date \<Longrightarrow> germany_xetra_is_business_day date \<noteq> None"
  unfolding germany_xetra_is_business_day_def by (rule total_rules | assumption | (simp add: civil_ok_def; fail))+

lemma germany_eurex_is_business_day_total [total_rules]: "valid_date date \<Longrightarrow> germany_eurex_is_business_day date \<noteq> None"
  unfolding germany_eurex_is_business_day_def by (rule total_rules | assumption | (simp add: civil_ok_def; fail))+

lemma germany_euwax_is_business_day_total [total_rules]: "valid_date date \<Longrightarrow> germany_euwax_is_business_day date \<noteq> None"
  unfolding germany_euwax_is_business_day_def by (rule total_rules | assumption | (simp add: civil_ok_def; fail))+

lemma germany_settlement_is_business_day_weekend:
  assumes "valid_date date" "date_weekday date = Some w" "is_weekend_sat_sun w"
  shows "germany_settlement_is_business_day date = Some False"
  using assms(1)
  by (rule date_fields)
    (use assms(2,3) in \<open>simp add: germany_settlement_is_business_day_def western_easter_eq orthodox_easter_eq\<close>)

interpretation germany_settlement: weekend_market germany_settlement_impl
  by (rule weekend_marketI [where f = is_weekend_sat_sun]) (simp_all add: germany_settlement_impl_def germany_settlement_is_business_day_total germany_settlement_is_business_day_weekend)

lemma germany_frankfurtstockexchange_is_business_day_weekend:
  assumes "valid_date date" "date_weekday date = Some w" "is_weekend_sat_sun w"
  shows "germany_frankfurtstockexchange_is_business_day date = Some False"
  using assms(1)
  by (rule date_fields)
    (use assms(2,3) in \<open>simp add: germany_frankfurtstockexchange_is_business_day_def western_easter_eq orthodox_easter_eq\<close>)

interpretation germany_frankfurtstockexchange: weekend_market germany_frankfurtstockexchange_impl
  by (rule weekend_marketI [where f = is_weekend_sat_sun]) (simp_all add: germany_frankfurtstockexchange_impl_def germany_frankfurtstockexchange_is_business_day_total germany_frankfurtstockexchange_is_business_day_weekend)

lemma germany_xetra_is_business_day_weekend:
  assumes "valid_date date" "date_weekday date = Some w" "is_weekend_sat_sun w"
  shows "germany_xetra_is_business_day date = Some False"
  using assms(1)
  by (rule date_fields)
    (use assms(2,3) in \<open>simp add: germany_xetra_is_business_day_def western_easter_eq orthodox_easter_eq\<close>)

interpretation germany_xetra: weekend_market germany_xetra_impl
  by (rule weekend_marketI [where f = is_weekend_sat_sun]) (simp_all add: germany_xetra_impl_def germany_xetra_is_business_day_total germany_xetra_is_business_day_weekend)

lemma germany_eurex_is_business_day_weekend:
  assumes "valid_date date" "date_weekday date = Some w" "is_weekend_sat_sun w"
  shows "germany_eurex_is_business_day date = Some False"
  using assms(1)
  by (rule date_fields)
    (use assms(2,3) in \<open>simp add: germany_eurex_is_business_day_def western_easter_eq orthodox_easter_eq\<close>)

interpretation germany_eurex: weekend_market germany_eurex_impl
  by (rule weekend_marketI [where f = is_weekend_sat_sun]) (simp_all add: germany_eurex_impl_def germany_eurex_is_business_day_total germany_eurex_is_business_day_weekend)

lemma germany_euwax_is_business_day_weekend:
  assumes "valid_date date" "date_weekday date = Some w" "is_weekend_sat_sun w"
  shows "germany_euwax_is_business_day date = Some False"
  using assms(1)
  by (rule date_fields)
    (use assms(2,3) in \<open>auto simp: is_weekend_sat_sun_def germany_euwax_is_business_day_def western_easter_eq orthodox_easter_eq\<close>)

interpretation germany_euwax: weekend_market germany_euwax_impl
  by (rule weekend_marketI [where f = is_weekend_sat_sun]) (simp_all add: germany_euwax_impl_def germany_euwax_is_business_day_total germany_euwax_is_business_day_weekend)

section \<open>\<open>france.rs\<close>\<close>

definition france_settlement_is_business_day :: "date \<Rightarrow> bool option" where
  "france_settlement_is_business_day date = do {
     w \<leftarrow> date_weekday date;
     d \<leftarrow> date_day_of_month date;
     dd \<leftarrow> date_day_of_year date;
     m \<leftarrow> date_month date;
     y \<leftarrow> date_year date;
     em \<leftarrow> western_easter_monday y;
     Some (\<not> (is_weekend_sat_sun w
         \<or> (d = 1 \<and> m = January)
         \<or> dd = em
         \<or> (d = 1 \<and> m = May)
         \<or> (d = 8 \<and> m = May)
         \<or> (d = 10 \<and> m = May)
         \<or> (d = 21 \<and> m = May)
         \<or> (d = 14 \<and> m = July)
         \<or> (d = 15 \<and> m = August)
         \<or> (d = 1 \<and> m = November)
         \<or> (d = 11 \<and> m = November)
         \<or> (d = 25 \<and> m = December)))
   }"

definition france_settlement_impl :: calendar_impl where
  "france_settlement_impl = calendar_impl_new ''French settlement''
     france_settlement_is_business_day is_weekend_sat_sun"

definition france_exchange_is_business_day :: "date \<Rightarrow> bool option" where
  "france_exchange_is_business_day date = do {
     w \<leftarrow> date_weekday date;
     d \<leftarrow> date_day_of_month date;
     dd \<leftarrow> date_day_of_year date;
     m \<leftarrow> date_month date;
     y \<leftarrow> date_year date;
     em \<leftarrow> western_easter_monday y;
     Some (\<not> (is_weekend_sat_sun w
         \<or> (d = 1 \<and> m = January)
         \<or> dd = (em - 3)
         \<or> dd = em
         \<or> (d = 1 \<and> m = May)
         \<or> (d = 24 \<and> m = December)
         \<or> (d = 25 \<and> m = December)
         \<or> (d = 26 \<and> m = December)
         \<or> (d = 31 \<and> m = December)))
   }"

definition france_exchange_impl :: calendar_impl where
  "france_exchange_impl = calendar_impl_new ''Paris stock exchange''
     france_exchange_is_business_day is_weekend_sat_sun"

datatype france_market = France_Settlement | France_Exchange

fun france_new :: "france_market \<Rightarrow> calendar" where
  "france_new France_Settlement = calendar_from_impl france_settlement_impl"
| "france_new France_Exchange = calendar_from_impl france_exchange_impl"

lemma france_settlement_is_business_day_total [total_rules]: "valid_date date \<Longrightarrow> france_settlement_is_business_day date \<noteq> None"
  unfolding france_settlement_is_business_day_def by (rule total_rules | assumption | (simp add: civil_ok_def; fail))+

lemma france_exchange_is_business_day_total [total_rules]: "valid_date date \<Longrightarrow> france_exchange_is_business_day date \<noteq> None"
  unfolding france_exchange_is_business_day_def by (rule total_rules | assumption | (simp add: civil_ok_def; fail))+

lemma france_settlement_is_business_day_weekend:
  assumes "valid_date date" "date_weekday date = Some w" "is_weekend_sat_sun w"
  shows "france_settlement_is_business_day date = Some False"
  using assms(1)
  by (rule date_fields)
    (use assms(2,3) in \<open>simp add: france_settlement_is_business_day_def western_easter_eq orthodox_easter_eq\<close>)

interpretation france_settlement: weekend_market france_settlement_impl
  by (rule weekend_marketI [where f = is_weekend_sat_sun]) (simp_all add: france_settlement_impl_def france_settlement_is_business_day_total france_settlement_is_business_day_weekend)

lemma france_exchange_is_business_day_weekend:
  assumes "valid_date date" "date_weekday date = Some w" "is_weekend_sat_sun w"
  shows "france_exchange_is_business_day date = Some False"
  using assms(1)
  by (rule date_fields)
    (use assms(2,3) in \<open>simp add: france_exchange_is_business_day_def western_easter_eq orthodox_easter_eq\<close>)

interpretation france_exchange: weekend_market france_exchange_impl
  by (rule weekend_marketI [where f = is_weekend_sat_sun]) (simp_all add: france_exchange_impl_def france_exchange_is_business_day_total france_exchange_is_business_day_weekend)

section \<open>\<open>italy.rs\<close>\<close>

definition italy_settlement_is_business_day :: "date \<Rightarrow> bool option" where
  "italy_settlement_is_business_day date = do {
     w \<leftarrow> date_weekday date;
     d \<leftarrow> date_day_of_month date;
     dd \<leftarrow> date_day_of_year date;
     m \<leftarrow> date_month date;
     y \<leftarrow> date_year date;
     em \<leftarrow> western_easter_monday y;
     Some (\<not> (is_weekend_sat_sun w
         \<or> (d = 1 \<and> m = January)
         \<or> (d = 6 \<and> m = January)
         \<or> dd = em
         \<or> (d = 25 \<and> m = April)
         \<or> (d = 1 \<and> m = May)
         \<or> (d = 2 \<and> m = June \<and> y \<ge> 2000)
         \<or> (d = 15 \<and> m = August)
         \<or> (d = 1 \<and> m = November)
         \<or> (d = 8 \<and> m = December)
         \<or> (d = 25 \<and> m = December)
         \<or> (d = 26 \<and> m = December)
         \<or> (d = 31 \<and> m = December \<and> y = 1999)))
   }"

definition italy_settlement_impl :: calendar_impl where
  "italy_settlement_impl = calendar_impl_new ''Italian settlement''
     italy_settlement_is_business_day is_weekend_sat_sun"

definition italy_exchange_is_business_day :: "date \<Rightarrow> bool option" where
  "italy_exchange_is_business_day date = do {
     w \<leftarrow> date_weekday date;
     d \<leftarrow> date_day_of_month date;
     dd \<leftarrow> date_day_of_year date;
     m \<leftarrow> date_month date;
     y \<leftarrow> date_year date;
     em \<leftarrow> western_easter_monday y;
     Some (\<not> (is_weekend_sat_sun w
         \<or> (d = 1 \<and> m = January)
         \<or> dd = (em - 3)
         \<or> dd = em
         \<or> (d = 1 \<and> m = May)
         \<or> (d = 15 \<and> m = August)
         \<or> (d = 24 \<and> m = December)
         \<or> (d = 25 \<and> m = December)
         \<or> (d = 26 \<and> m = December)
         \<or> (d = 31 \<and> m = December)))
   }"

definition italy_exchange_impl :: calendar_impl where
  "italy_exchange_impl = calendar_impl_new ''Milan stock exchange''
     italy_exchange_is_business_day is_weekend_sat_sun"

datatype italy_market = Italy_Settlement | Italy_Exchange

fun italy_new :: "italy_market \<Rightarrow> calendar" where
  "italy_new Italy_Settlement = calendar_from_impl italy_settlement_impl"
| "italy_new Italy_Exchange = calendar_from_impl italy_exchange_impl"

lemma italy_settlement_is_business_day_total [total_rules]: "valid_date date \<Longrightarrow> italy_settlement_is_business_day date \<noteq> None"
  unfolding italy_settlement_is_business_day_def by (rule total_rules | assumption | (simp add: civil_ok_def; fail))+

lemma italy_exchange_is_business_day_total [total_rules]: "valid_date date \<Longrightarrow> italy_exchange_is_business_day date \<noteq> None"
  unfolding italy_exchange_is_business_day_def by (rule total_rules | assumption | (simp add: civil_ok_def; fail))+

lemma italy_settlement_is_business_day_weekend:
  assumes "valid_date date" "date_weekday date = Some w" "is_weekend_sat_sun w"
  shows "italy_settlement_is_business_day date = Some False"
  using assms(1)
  by (rule date_fields)
    (use assms(2,3) in \<open>simp add: italy_settlement_is_business_day_def western_easter_eq orthodox_easter_eq\<close>)

interpretation italy_settlement: weekend_market italy_settlement_impl
  by (rule weekend_marketI [where f = is_weekend_sat_sun]) (simp_all add: italy_settlement_impl_def italy_settlement_is_business_day_total italy_settlement_is_business_day_weekend)

lemma italy_exchange_is_business_day_weekend:
  assumes "valid_date date" "date_weekday date = Some w" "is_weekend_sat_sun w"
  shows "italy_exchange_is_business_day date = Some False"
  using assms(1)
  by (rule date_fields)
    (use assms(2,3) in \<open>simp add: italy_exchange_is_business_day_def western_easter_eq orthodox_easter_eq\<close>)

interpretation italy_exchange: weekend_market italy_exchange_impl
  by (rule weekend_marketI [where f = is_weekend_sat_sun]) (simp_all add: italy_exchange_impl_def italy_exchange_is_business_day_total italy_exchange_is_business_day_weekend)

section \<open>\<open>austria.rs\<close>\<close>

definition austria_settlement_is_business_day :: "date \<Rightarrow> bool option" where
  "austria_settlement_is_business_day date = do {
     w \<leftarrow> date_weekday date;
     d \<leftarrow> date_day_of_month date;
     dd \<leftarrow> date_day_of_year date;
     m \<leftarrow> date_month date;
     y \<leftarrow> date_year date;
     em \<leftarrow> western_easter_monday y;
     Some (\<not> (is_weekend_sat_sun w
         \<or> (d = 1 \<and> m = January)
         \<or> (d = 6 \<and> m = January)
         \<or> dd = em
         \<or> dd = (em + 38)
         \<or> dd = (em + 49)
         \<or> dd = (em + 59)
         \<or> (d = 1 \<and> m = May)
         \<or> (d = 15 \<and> m = August)
         \<or> (d = 26 \<and> m = October \<and> y \<ge> 1967)
         \<or> (d = 12 \<and> m = November \<and> 1919 \<le> y \<and> y \<le> 1934)
         \<or> (d = 1 \<and> m = November)
         \<or> (d = 8 \<and> m = December)
         \<or> (d = 25 \<and> m = December)
         \<or> (d = 26 \<and> m = December)))
   }"

definition austria_settlement_impl :: calendar_impl where
  "austria_settlement_impl = calendar_impl_new ''Austrian settlement''
     austria_settlement_is_business_day is_weekend_sat_sun"

definition austria_exchange_is_business_day :: "date \<Rightarrow> bool option" where
  "austria_exchange_is_business_day date = do {
     w \<leftarrow> date_weekday date;
     d \<leftarrow> date_day_of_month date;
     dd \<leftarrow> date_day_of_year date;
     m \<leftarrow> date_month date;
     y \<leftarrow> date_year date;
     em \<leftarrow> western_easter_monday y;
     Some (\<not> (is_weekend_sat_sun w
         \<or> (d = 1 \<and> m = January)
         \<or> dd = (em - 3)
         \<or> dd = em
         \<or> dd = (em + 49)
         \<or> (d = 1 \<and> m = May)
         \<or> (d = 26 \<and> m = October \<and> y \<ge> 1967)
         \<or> (d = 12 \<and> m = November \<and> 1919 \<le> y \<and> y \<le> 1934)
         \<or> (d = 24 \<and> m = December)
         \<or> (d = 25 \<and> m = December)
         \<or> (d = 26 \<and> m = December)
         \<or> (d = 31 \<and> m = December)))
   }"

definition austria_exchange_impl :: calendar_impl where
  "austria_exchange_impl = calendar_impl_new ''Vienna stock exchange''
     austria_exchange_is_business_day is_weekend_sat_sun"

datatype austria_market = Austria_Settlement | Austria_Exchange

fun austria_new :: "austria_market \<Rightarrow> calendar" where
  "austria_new Austria_Settlement = calendar_from_impl austria_settlement_impl"
| "austria_new Austria_Exchange = calendar_from_impl austria_exchange_impl"

lemma austria_settlement_is_business_day_total [total_rules]: "valid_date date \<Longrightarrow> austria_settlement_is_business_day date \<noteq> None"
  unfolding austria_settlement_is_business_day_def by (rule total_rules | assumption | (simp add: civil_ok_def; fail))+

lemma austria_exchange_is_business_day_total [total_rules]: "valid_date date \<Longrightarrow> austria_exchange_is_business_day date \<noteq> None"
  unfolding austria_exchange_is_business_day_def by (rule total_rules | assumption | (simp add: civil_ok_def; fail))+

lemma austria_settlement_is_business_day_weekend:
  assumes "valid_date date" "date_weekday date = Some w" "is_weekend_sat_sun w"
  shows "austria_settlement_is_business_day date = Some False"
  using assms(1)
  by (rule date_fields)
    (use assms(2,3) in \<open>simp add: austria_settlement_is_business_day_def western_easter_eq orthodox_easter_eq\<close>)

interpretation austria_settlement: weekend_market austria_settlement_impl
  by (rule weekend_marketI [where f = is_weekend_sat_sun]) (simp_all add: austria_settlement_impl_def austria_settlement_is_business_day_total austria_settlement_is_business_day_weekend)

lemma austria_exchange_is_business_day_weekend:
  assumes "valid_date date" "date_weekday date = Some w" "is_weekend_sat_sun w"
  shows "austria_exchange_is_business_day date = Some False"
  using assms(1)
  by (rule date_fields)
    (use assms(2,3) in \<open>simp add: austria_exchange_is_business_day_def western_easter_eq orthodox_easter_eq\<close>)

interpretation austria_exchange: weekend_market austria_exchange_impl
  by (rule weekend_marketI [where f = is_weekend_sat_sun]) (simp_all add: austria_exchange_impl_def austria_exchange_is_business_day_total austria_exchange_is_business_day_weekend)

section \<open>\<open>switzerland.rs\<close>\<close>

definition switzerland_is_business_day :: "date \<Rightarrow> bool option" where
  "switzerland_is_business_day date = do {
     w \<leftarrow> date_weekday date;
     d \<leftarrow> date_day_of_month date;
     dd \<leftarrow> date_day_of_year date;
     m \<leftarrow> date_month date;
     y \<leftarrow> date_year date;
     em \<leftarrow> western_easter_monday y;
     Some (\<not> (is_weekend_sat_sun w
         \<or> (d = 1 \<and> m = January)
         \<or> (d = 2 \<and> m = January)
         \<or> dd = (em - 3)
         \<or> dd = em
         \<or> dd = (em + 38)
         \<or> dd = (em + 49)
         \<or> (d = 1 \<and> m = May)
         \<or> (d = 1 \<and> m = August)
         \<or> (d = 25 \<and> m = December)
         \<or> (d = 26 \<and> m = December)))
   }"

definition switzerland_impl :: calendar_impl where
  "switzerland_impl = calendar_impl_new ''Switzerland''
     switzerland_is_business_day is_weekend_sat_sun"

definition switzerland_new :: calendar where
  "switzerland_new = calendar_from_impl switzerland_impl"

lemma switzerland_is_business_day_total [total_rules]: "valid_date date \<Longrightarrow> switzerland_is_business_day date \<noteq> None"
  unfolding switzerland_is_business_day_def by (rule total_rules | assumption | (simp add: civil_ok_def; fail))+

lemma switzerland_is_business_day_weekend:
  assumes "valid_date date" "date_weekday date = Some w" "is_weekend_sat_sun w"
  shows "switzerland_is_business_day date = Some False"
  using assms(1)
  by (rule date_fields)
    (use assms(2,3) in \<open>simp add: switzerland_is_business_day_def western_easter_eq orthodox_easter_eq\<close>)

interpretation switzerland: weekend_market switzerland_impl
  by (rule weekend_marketI [where f = is_weekend_sat_sun]) (simp_all add: switzerland_impl_def switzerland_is_business_day_total switzerland_is_business_day_weekend)

section \<open>\<open>malta.rs\<close>\<close>

definition malta_is_weekend :: "weekday \<Rightarrow> bool" where
  "malta_is_weekend w \<longleftrightarrow>
     w = Friday
     \<or> w = Saturday"

definition malta_mse_is_business_day :: "date \<Rightarrow> bool option" where
  "malta_mse_is_business_day date = do {
     w \<leftarrow> date_weekday date;
     d \<leftarrow> date_day_of_month date;
     m \<leftarrow> date_month date;
     y \<leftarrow> date_year date;
     em \<leftarrow> western_easter_monday y;
     let gf = (em - 3);
     lnot (lor (Some (malta_is_weekend w
         \<or> (d = 1 \<and> m = January)
         \<or> (d = 10 \<and> m = February)
         \<or> (d = 19 \<and> m = March)
         \<or> (d = 31 \<and> m = March)))
        (lor (do { x6 \<leftarrow> date_day_of_year date; Some (x6 = gf) })
        (lor (do { x7 \<leftarrow> date_day_of_year date; Some (x7 = em) })
        (Some ((d = 1 \<and> m = May)
         \<or> (d = 29 \<and> m = June)
         \<or> (d = 15 \<and> m = August)
         \<or> (d = 8 \<and> m = September)
         \<or> (d = 21 \<and> m = September)
         \<or> (d = 8 \<and> m = December)
         \<or> (d = 13 \<and> m = December)
         \<or> (d = 24 \<and> m = December)
         \<or> (d = 25 \<and> m = December)
         \<or> (d = 26 \<and> m = December)
         \<or> (d = 31 \<and> m = December))))))
   }"

definition malta_mse_impl :: calendar_impl where
  "malta_mse_impl = calendar_impl_new ''Malta Stock Exchange''
     malta_mse_is_business_day malta_is_weekend"

datatype malta_market = Malta_Mse

fun malta_new :: "malta_market \<Rightarrow> calendar" where
  "malta_new Malta_Mse = calendar_from_impl malta_mse_impl"

lemma malta_mse_is_business_day_total [total_rules]: "valid_date date \<Longrightarrow> malta_mse_is_business_day date \<noteq> None"
  unfolding malta_mse_is_business_day_def by (rule total_rules | assumption | (simp add: civil_ok_def; fail))+

lemma malta_mse_is_business_day_weekend:
  assumes "valid_date date" "date_weekday date = Some w" "malta_is_weekend w"
  shows "malta_mse_is_business_day date = Some False"
  using assms(1)
  by (rule date_fields)
    (use assms(2,3) in \<open>simp add: malta_mse_is_business_day_def western_easter_eq orthodox_easter_eq\<close>)

interpretation malta_mse: weekend_market malta_mse_impl
  by (rule weekend_marketI [where f = malta_is_weekend]) (simp_all add: malta_mse_impl_def malta_mse_is_business_day_total malta_mse_is_business_day_weekend)

section \<open>The United Kingdom market is live\<close>

definition unitedkingdom_midweek :: "weekday \<Rightarrow> int \<Rightarrow> month \<Rightarrow> int \<Rightarrow> bool" where
  "unitedkingdom_midweek w d m y \<longleftrightarrow>
     (d = 1 \<and> m = January) \<or> unitedkingdom_is_bank_holiday d w m y \<or>
     ((d = 25 \<or> d = 26 \<or> ((d = 27 \<or> d = 28) \<and> w = Tuesday) \<or> d = 31) \<and> m = December)"

lemma unitedkingdom_closed_midweek:
  assumes "valid_date d" "date_weekday d = Some w" "w = Tuesday \<or> w = Wednesday \<or> w = Thursday"
    and "date_new dd m y = Some d" "unitedkingdom_uk_is_business_day d = Some False"
  shows "unitedkingdom_midweek w dd m y"
proof -
  note i = date_new_inspect [OF assms(4)]
  obtain em where em: "western_easter_monday y = Some em"
    using easter_total(1) [OF assms(1) i(1)] by auto
  show ?thesis
    using assms(2,3,5) i em midweek_not_easter [OF assms(1-3) i(1,4) em]
    by (auto simp: unitedkingdom_uk_is_business_day_def unitedkingdom_midweek_def is_weekend_sat_sun_def)
qed

lemma unitedkingdom_midweek_rows: "midweek_rows_open unitedkingdom_midweek"
  unfolding midweek_rows_open_def
proof (intro allI impI notI, elim conjE)
  fix d d' d'' y y' y'' :: int and m m' m''
  assume n: "next_day (d, m, y) = (d', m', y')" "next_day (d', m', y') = (d'', m'', y'')"
    and t: "unitedkingdom_midweek Tuesday d m y" "unitedkingdom_midweek Wednesday d' m' y'"
      "unitedkingdom_midweek Thursday d'' m'' y''"
  have m: "m = June \<and> m' = June \<and> m'' = June \<or> m = December"
    using n t unfolding unitedkingdom_midweek_def unitedkingdom_is_bank_holiday_def
    by (cases m) (simp_all split: if_splits, auto)
  show False
    using n t m by (auto simp: unitedkingdom_midweek_def unitedkingdom_is_bank_holiday_def split: if_splits)
qed

interpretation unitedkingdom_live: live_market unitedkingdom_settlement_impl 8
  by (rule live_marketI [OF _ _ _ unitedkingdom_midweek_rows])
    (simp_all add: unitedkingdom_settlement_impl_def unitedkingdom_uk_is_business_day_total
      unitedkingdom_closed_midweek)

end
