(* ===== verification/Markets_Americas.thy ===== *)
theory Markets_Americas
  imports Market_Rules
begin

text \<open>
  \<open>time/calendars/\<close>: American markets
  (\<open>unitedstates.rs, canada.rs, mexico.rs, brazil.rs, argentina.rs, chile.rs\<close>). Each market
  is the predicate its \<open>is_business_day\<close> computes, clause by clause, and the record of its
  methods; each is shown to answer on every supported date, and to be closed on its weekend.
\<close>

section \<open>\<open>unitedstates.rs\<close>\<close>

definition unitedstates_is_washington_birthday :: "int \<Rightarrow> month \<Rightarrow> int \<Rightarrow> weekday \<Rightarrow> bool" where
  "unitedstates_is_washington_birthday d m y w \<longleftrightarrow>
     (if y \<ge> 1971 then d \<ge> 15
     \<and> d \<le> 21
     \<and> w = Monday
     \<and> m = February else (d = 22 \<or> (d = 23 \<and> w = Monday) \<or> (d = 21 \<and> w = Friday))
     \<and> m = February)"

definition unitedstates_is_memorial_day :: "int \<Rightarrow> month \<Rightarrow> int \<Rightarrow> weekday \<Rightarrow> bool" where
  "unitedstates_is_memorial_day d m y w \<longleftrightarrow>
     (if y \<ge> 1971 then d \<ge> 25
     \<and> w = Monday
     \<and> m = May else (d = 30 \<or> (d = 31 \<and> w = Monday) \<or> (d = 29 \<and> w = Friday))
     \<and> m = May)"

definition unitedstates_is_labor_day :: "int \<Rightarrow> month \<Rightarrow> int \<Rightarrow> weekday \<Rightarrow> bool" where
  "unitedstates_is_labor_day d m y w \<longleftrightarrow>
     d \<le> 7
     \<and> w = Monday
     \<and> m = September"

definition unitedstates_is_columbus_day :: "int \<Rightarrow> month \<Rightarrow> int \<Rightarrow> weekday \<Rightarrow> bool" where
  "unitedstates_is_columbus_day d m y w \<longleftrightarrow>
     d \<ge> 8
     \<and> d \<le> 14
     \<and> w = Monday
     \<and> m = October
     \<and> y \<ge> 1971"

definition unitedstates_is_veterans_day :: "int \<Rightarrow> month \<Rightarrow> int \<Rightarrow> weekday \<Rightarrow> bool" where
  "unitedstates_is_veterans_day d m y w \<longleftrightarrow>
     (if y \<le> 1970 \<or> y \<ge> 1978 then (d = 11 \<or> (d = 12 \<and> w = Monday) \<or> (d = 10 \<and> w = Friday))
     \<and> m = November else d \<ge> 22
     \<and> d \<le> 28
     \<and> w = Monday
     \<and> m = October)"

definition unitedstates_is_veterans_day_no_saturday :: "int \<Rightarrow> month \<Rightarrow> int \<Rightarrow> weekday \<Rightarrow> bool" where
  "unitedstates_is_veterans_day_no_saturday d m y w \<longleftrightarrow>
     (if y \<le> 1970 \<or> y \<ge> 1978 then (d = 11 \<or> (d = 12 \<and> w = Monday))
     \<and> m = November else d \<ge> 22
     \<and> d \<le> 28
     \<and> w = Monday
     \<and> m = October)"

definition unitedstates_is_juneteenth :: "int \<Rightarrow> month \<Rightarrow> int \<Rightarrow> weekday \<Rightarrow> bool \<Rightarrow> bool" where
  "unitedstates_is_juneteenth d m y w move_to_friday \<longleftrightarrow>
     (d = 19 \<or> (d = 20 \<and> w = Monday) \<or> (d = 18 \<and> w = Friday \<and> move_to_friday))
     \<and> m = June
     \<and> y \<ge> 2022"

definition unitedstates_settlement_is_business_day :: "date \<Rightarrow> bool option" where
  "unitedstates_settlement_is_business_day date = do {
     w \<leftarrow> date_weekday date;
     d \<leftarrow> date_day_of_month date;
     m \<leftarrow> date_month date;
     y \<leftarrow> date_year date;
     Some (\<not> (is_weekend_sat_sun w
         \<or> ((d = 1 \<or> (d = 2 \<and> w = Monday)) \<and> m = January)
         \<or> (d = 31 \<and> w = Friday \<and> m = December)
         \<or> (d \<ge> 15 \<and> d \<le> 21 \<and> w = Monday \<and> m = January \<and> y \<ge> 1983)
         \<or> unitedstates_is_washington_birthday d m y w
         \<or> unitedstates_is_memorial_day d m y w
         \<or> unitedstates_is_juneteenth d m y w True
         \<or> ((d = 4 \<or> (d = 5 \<and> w = Monday) \<or> (d = 3 \<and> w = Friday)) \<and> m = July)
         \<or> unitedstates_is_labor_day d m y w
         \<or> unitedstates_is_columbus_day d m y w
         \<or> unitedstates_is_veterans_day d m y w
         \<or> (d \<ge> 22 \<and> d \<le> 28 \<and> w = Thursday \<and> m = November)
         \<or> ((d = 25 \<or> (d = 26 \<and> w = Monday) \<or> (d = 24 \<and> w = Friday)) \<and> m = December)))
   }"

definition unitedstates_government_bond_closed_rules :: "weekday \<Rightarrow> int \<Rightarrow> int \<Rightarrow> month \<Rightarrow> int \<Rightarrow> int \<Rightarrow> bool" where
  "unitedstates_government_bond_closed_rules w d dd m y em \<longleftrightarrow>
     is_weekend_sat_sun w
       \<or> ((d = 1 \<or> (d = 2 \<and> w = Monday)) \<and> m = January)
       \<or> (d \<ge> 15 \<and> d \<le> 21 \<and> w = Monday \<and> m = January \<and> y \<ge> 1983)
       \<or> unitedstates_is_washington_birthday d m y w
       \<or> (dd = (em - 3) \<and> (y < 1996 \<or> d > 7))
       \<or> unitedstates_is_memorial_day d m y w
       \<or> unitedstates_is_juneteenth d m y w True
       \<or> ((d = 4 \<or> (d = 5 \<and> w = Monday) \<or> (d = 3 \<and> w = Friday)) \<and> m = July)
       \<or> unitedstates_is_labor_day d m y w
       \<or> unitedstates_is_columbus_day d m y w
       \<or> unitedstates_is_veterans_day_no_saturday d m y w
       \<or> (d \<ge> 22 \<and> d \<le> 28 \<and> w = Thursday \<and> m = November)
       \<or> ((d = 25 \<or> (d = 26 \<and> w = Monday) \<or> (d = 24 \<and> w = Friday)) \<and> m = December)"

definition unitedstates_government_bond_closed_rules_2 :: "int \<Rightarrow> month \<Rightarrow> int \<Rightarrow> bool" where
  "unitedstates_government_bond_closed_rules_2 d m y \<longleftrightarrow>
     (y = 2018 \<and> m = December \<and> d = 5)
      \<or> (y = 2012 \<and> m = October \<and> d = 30)
      \<or> (y = 2004 \<and> m = June \<and> d = 11)"

definition unitedstates_government_bond_is_business_day :: "date \<Rightarrow> bool option" where
  "unitedstates_government_bond_is_business_day date = do {
     w \<leftarrow> date_weekday date;
     d \<leftarrow> date_day_of_month date;
     dd \<leftarrow> date_day_of_year date;
     m \<leftarrow> date_month date;
     y \<leftarrow> date_year date;
     em \<leftarrow> western_easter_monday y;
     if unitedstates_government_bond_closed_rules w d dd m y em then Some False
     else if unitedstates_government_bond_closed_rules_2 d m y then Some False
       else Some True
   }"

definition unitedstates_settlement_impl :: calendar_impl where
  "unitedstates_settlement_impl = calendar_impl_new ''US settlement''
     unitedstates_settlement_is_business_day is_weekend_sat_sun"

definition unitedstates_liborimpact_is_business_day :: "date \<Rightarrow> bool option" where
  "unitedstates_liborimpact_is_business_day date = do {
     w \<leftarrow> date_weekday date;
     d \<leftarrow> date_day_of_month date;
     m \<leftarrow> date_month date;
     y \<leftarrow> date_year date;
     if ((d = 5 \<and> w = Monday) \<or> (d = 3 \<and> w = Friday))
       \<and> m = July
       \<and> y \<ge> 2015 then Some True
     else unitedstates_settlement_is_business_day date
   }"

definition unitedstates_liborimpact_impl :: calendar_impl where
  "unitedstates_liborimpact_impl = calendar_impl_new ''US with Libor impact''
     unitedstates_liborimpact_is_business_day is_weekend_sat_sun"

definition unitedstates_nyse_closed_rules :: "weekday \<Rightarrow> int \<Rightarrow> int \<Rightarrow> month \<Rightarrow> int \<Rightarrow> int \<Rightarrow> bool" where
  "unitedstates_nyse_closed_rules w d dd m y em \<longleftrightarrow>
     is_weekend_sat_sun w
       \<or> ((d = 1 \<or> (d = 2 \<and> w = Monday)) \<and> m = January)
       \<or> unitedstates_is_washington_birthday d m y w
       \<or> dd = (em - 3)
       \<or> unitedstates_is_memorial_day d m y w
       \<or> unitedstates_is_juneteenth d m y w True
       \<or> ((d = 4 \<or> (d = 5 \<and> w = Monday) \<or> (d = 3 \<and> w = Friday)) \<and> m = July)
       \<or> unitedstates_is_labor_day d m y w
       \<or> (d \<ge> 22 \<and> d \<le> 28 \<and> w = Thursday \<and> m = November)
       \<or> ((d = 25 \<or> (d = 26 \<and> w = Monday) \<or> (d = 24 \<and> w = Friday)) \<and> m = December)"

definition unitedstates_nyse_closed_rules_2 :: "weekday \<Rightarrow> int \<Rightarrow> int \<Rightarrow> month \<Rightarrow> int \<Rightarrow> bool" where
  "unitedstates_nyse_closed_rules_2 w d dd m y \<longleftrightarrow>
     (y = 2025 \<and> m = January \<and> d = 9)
          \<or> (y = 2018 \<and> m = December \<and> d = 5)
          \<or> (y = 2012 \<and> m = October \<and> (d = 29 \<or> d = 30))
          \<or> (y = 2007 \<and> m = January \<and> d = 2)
          \<or> (y = 2004 \<and> m = June \<and> d = 11)
          \<or> (y = 2001 \<and> m = September \<and> 11 \<le> d \<and> d \<le> 14)
          \<or> (y = 1994 \<and> m = April \<and> d = 27)
          \<or> (y = 1985 \<and> m = September \<and> d = 27)
          \<or> (y = 1977 \<and> m = July \<and> d = 14)
          \<or> (y = 1973 \<and> m = January \<and> d = 25)
          \<or> (y = 1972 \<and> m = December \<and> d = 28)
          \<or> (y = 1969 \<and> m = July \<and> d = 21)
          \<or> (y = 1969 \<and> m = March \<and> d = 31)
          \<or> (y = 1969 \<and> m = February \<and> d = 10)
          \<or> (y = 1968 \<and> m = July \<and> d = 5)
          \<or> (y = 1968 \<and> dd \<ge> 163 \<and> w = Wednesday)
          \<or> (y = 1968 \<and> m = April \<and> d = 9)
          \<or> (y = 1963 \<and> m = November \<and> d = 25)
          \<or> (y = 1961 \<and> m = May \<and> d = 29)
          \<or> (y = 1958 \<and> m = December \<and> d = 26)
          \<or> ((y = 1954 \<or> y = 1956 \<or> y = 1965) \<and> m = December \<and> d = 24)"

definition unitedstates_nyse_is_business_day :: "date \<Rightarrow> bool option" where
  "unitedstates_nyse_is_business_day date = do {
     w \<leftarrow> date_weekday date;
     d \<leftarrow> date_day_of_month date;
     dd \<leftarrow> date_day_of_year date;
     m \<leftarrow> date_month date;
     y \<leftarrow> date_year date;
     em \<leftarrow> western_easter_monday y;
     if unitedstates_nyse_closed_rules w d dd m y em then Some False
     else if y \<ge> 1998
         \<and> d \<ge> 15
         \<and> d \<le> 21
         \<and> w = Monday
         \<and> m = January then Some False
       else if (y \<le> 1968 \<or> (y \<le> 1980 \<and> (y mod 4) = 0))
           \<and> m = November
           \<and> d \<le> 7
           \<and> w = Tuesday then Some False
         else if unitedstates_nyse_closed_rules_2 w d dd m y then Some False
           else Some True
   }"

definition unitedstates_nyse_impl :: calendar_impl where
  "unitedstates_nyse_impl = calendar_impl_new ''New York stock exchange''
     unitedstates_nyse_is_business_day is_weekend_sat_sun"

definition unitedstates_governmentbond_impl :: calendar_impl where
  "unitedstates_governmentbond_impl = calendar_impl_new ''US government bond market''
     unitedstates_government_bond_is_business_day is_weekend_sat_sun"

definition unitedstates_sofr_is_business_day :: "date \<Rightarrow> bool option" where
  "unitedstates_sofr_is_business_day date = do {
     dy \<leftarrow> date_day_of_year date;
     y \<leftarrow> date_year date;
     c24 \<leftarrow> do { em23 \<leftarrow> western_easter_monday y; Some (dy = (em23 - 3)) };
     if c24 then Some False
     else unitedstates_government_bond_is_business_day date
   }"

definition unitedstates_sofr_impl :: calendar_impl where
  "unitedstates_sofr_impl = calendar_impl_new ''SOFR fixing calendar''
     unitedstates_sofr_is_business_day is_weekend_sat_sun"

definition unitedstates_nerc_is_business_day :: "date \<Rightarrow> bool option" where
  "unitedstates_nerc_is_business_day date = do {
     w \<leftarrow> date_weekday date;
     d \<leftarrow> date_day_of_month date;
     m \<leftarrow> date_month date;
     y \<leftarrow> date_year date;
     Some (\<not> (is_weekend_sat_sun w
         \<or> ((d = 1 \<or> (d = 2 \<and> w = Monday)) \<and> m = January)
         \<or> unitedstates_is_memorial_day d m y w
         \<or> ((d = 4 \<or> (d = 5 \<and> w = Monday)) \<and> m = July)
         \<or> unitedstates_is_labor_day d m y w
         \<or> (d \<ge> 22 \<and> d \<le> 28 \<and> w = Thursday \<and> m = November)
         \<or> ((d = 25 \<or> (d = 26 \<and> w = Monday)) \<and> m = December)))
   }"

definition unitedstates_nerc_impl :: calendar_impl where
  "unitedstates_nerc_impl = calendar_impl_new ''North American Energy Reliability Council''
     unitedstates_nerc_is_business_day is_weekend_sat_sun"

definition unitedstates_federalreserve_is_business_day :: "date \<Rightarrow> bool option" where
  "unitedstates_federalreserve_is_business_day date = do {
     w \<leftarrow> date_weekday date;
     d \<leftarrow> date_day_of_month date;
     m \<leftarrow> date_month date;
     y \<leftarrow> date_year date;
     Some (\<not> (is_weekend_sat_sun w
         \<or> ((d = 1 \<or> (d = 2 \<and> w = Monday)) \<and> m = January)
         \<or> (d \<ge> 15 \<and> d \<le> 21 \<and> w = Monday \<and> m = January \<and> y \<ge> 1983)
         \<or> unitedstates_is_washington_birthday d m y w
         \<or> unitedstates_is_memorial_day d m y w
         \<or> unitedstates_is_juneteenth d m y w False
         \<or> ((d = 4 \<or> (d = 5 \<and> w = Monday)) \<and> m = July)
         \<or> unitedstates_is_labor_day d m y w
         \<or> unitedstates_is_columbus_day d m y w
         \<or> unitedstates_is_veterans_day_no_saturday d m y w
         \<or> (d \<ge> 22 \<and> d \<le> 28 \<and> w = Thursday \<and> m = November)
         \<or> ((d = 25 \<or> (d = 26 \<and> w = Monday)) \<and> m = December)))
   }"

definition unitedstates_federalreserve_impl :: calendar_impl where
  "unitedstates_federalreserve_impl = calendar_impl_new ''Federal Reserve Bankwire System''
     unitedstates_federalreserve_is_business_day is_weekend_sat_sun"

datatype unitedstates_market = UnitedStates_Settlement | UnitedStates_Nyse | UnitedStates_GovernmentBond | UnitedStates_Nerc | UnitedStates_LiborImpact | UnitedStates_FederalReserve | UnitedStates_Sofr

fun unitedstates_new :: "unitedstates_market \<Rightarrow> calendar" where
  "unitedstates_new UnitedStates_Settlement = calendar_from_impl unitedstates_settlement_impl"
| "unitedstates_new UnitedStates_Nyse = calendar_from_impl unitedstates_nyse_impl"
| "unitedstates_new UnitedStates_GovernmentBond = calendar_from_impl unitedstates_governmentbond_impl"
| "unitedstates_new UnitedStates_Nerc = calendar_from_impl unitedstates_nerc_impl"
| "unitedstates_new UnitedStates_LiborImpact = calendar_from_impl unitedstates_liborimpact_impl"
| "unitedstates_new UnitedStates_FederalReserve = calendar_from_impl unitedstates_federalreserve_impl"
| "unitedstates_new UnitedStates_Sofr = calendar_from_impl unitedstates_sofr_impl"

lemma unitedstates_settlement_is_business_day_total [total_rules]: "valid_date date \<Longrightarrow> unitedstates_settlement_is_business_day date \<noteq> None"
  unfolding unitedstates_settlement_is_business_day_def by (rule total_rules | assumption | (simp add: civil_ok_def; fail))+

lemma unitedstates_government_bond_is_business_day_total [total_rules]: "valid_date date \<Longrightarrow> unitedstates_government_bond_is_business_day date \<noteq> None"
  unfolding unitedstates_government_bond_is_business_day_def by (rule total_rules | assumption | (simp add: civil_ok_def; fail))+

lemma unitedstates_liborimpact_is_business_day_total [total_rules]: "valid_date date \<Longrightarrow> unitedstates_liborimpact_is_business_day date \<noteq> None"
  unfolding unitedstates_liborimpact_is_business_day_def by (rule total_rules | assumption | (simp add: civil_ok_def; fail))+

lemma unitedstates_nyse_is_business_day_total [total_rules]: "valid_date date \<Longrightarrow> unitedstates_nyse_is_business_day date \<noteq> None"
  unfolding unitedstates_nyse_is_business_day_def by (rule total_rules | assumption | (simp add: civil_ok_def; fail))+

lemma unitedstates_sofr_is_business_day_total [total_rules]: "valid_date date \<Longrightarrow> unitedstates_sofr_is_business_day date \<noteq> None"
  unfolding unitedstates_sofr_is_business_day_def by (rule total_rules | assumption | (simp add: civil_ok_def; fail))+

lemma unitedstates_nerc_is_business_day_total [total_rules]: "valid_date date \<Longrightarrow> unitedstates_nerc_is_business_day date \<noteq> None"
  unfolding unitedstates_nerc_is_business_day_def by (rule total_rules | assumption | (simp add: civil_ok_def; fail))+

lemma unitedstates_federalreserve_is_business_day_total [total_rules]: "valid_date date \<Longrightarrow> unitedstates_federalreserve_is_business_day date \<noteq> None"
  unfolding unitedstates_federalreserve_is_business_day_def by (rule total_rules | assumption | (simp add: civil_ok_def; fail))+

lemma unitedstates_settlement_is_business_day_weekend:
  assumes "valid_date date" "date_weekday date = Some w" "is_weekend_sat_sun w"
  shows "unitedstates_settlement_is_business_day date = Some False"
  using assms(1)
  by (rule date_fields)
    (use assms(2,3) in \<open>simp add: unitedstates_settlement_is_business_day_def unitedstates_is_washington_birthday_def unitedstates_is_memorial_day_def unitedstates_is_labor_day_def unitedstates_is_columbus_day_def unitedstates_is_veterans_day_def unitedstates_is_juneteenth_def western_easter_eq orthodox_easter_eq\<close>)

interpretation unitedstates_settlement: weekend_market unitedstates_settlement_impl
  by (rule weekend_marketI [where f = is_weekend_sat_sun]) (simp_all add: unitedstates_settlement_impl_def unitedstates_settlement_is_business_day_total unitedstates_settlement_is_business_day_weekend)

lemma unitedstates_liborimpact_is_business_day_weekend:
  assumes "valid_date date" "date_weekday date = Some w" "is_weekend_sat_sun w"
  shows "unitedstates_liborimpact_is_business_day date = Some False"
proof -
  have "w \<noteq> Monday" "w \<noteq> Friday" using assms(3) by (auto simp: is_weekend_sat_sun_def)
  then show ?thesis
    using assms(2) unitedstates_settlement_is_business_day_weekend [OF assms] inspect_total [OF assms(1)]
    by (auto simp: unitedstates_liborimpact_is_business_day_def bind_eq_Some_conv)
qed

interpretation unitedstates_liborimpact: weekend_market unitedstates_liborimpact_impl
  by (rule weekend_marketI [where f = is_weekend_sat_sun]) (simp_all add: unitedstates_liborimpact_impl_def unitedstates_liborimpact_is_business_day_total unitedstates_liborimpact_is_business_day_weekend)

lemma unitedstates_nyse_is_business_day_weekend:
  assumes "valid_date date" "date_weekday date = Some w" "is_weekend_sat_sun w"
  shows "unitedstates_nyse_is_business_day date = Some False"
  using assms(1)
  by (rule date_fields)
    (use assms(2,3) in \<open>simp add: unitedstates_nyse_is_business_day_def unitedstates_nyse_closed_rules_def unitedstates_nyse_closed_rules_2_def western_easter_eq orthodox_easter_eq\<close>)

interpretation unitedstates_nyse: weekend_market unitedstates_nyse_impl
  by (rule weekend_marketI [where f = is_weekend_sat_sun]) (simp_all add: unitedstates_nyse_impl_def unitedstates_nyse_is_business_day_total unitedstates_nyse_is_business_day_weekend)

lemma unitedstates_government_bond_is_business_day_weekend:
  assumes "valid_date date" "date_weekday date = Some w" "is_weekend_sat_sun w"
  shows "unitedstates_government_bond_is_business_day date = Some False"
  using assms(1)
  by (rule date_fields)
    (use assms(2,3) in \<open>simp add: unitedstates_government_bond_is_business_day_def unitedstates_government_bond_closed_rules_def unitedstates_government_bond_closed_rules_2_def western_easter_eq orthodox_easter_eq\<close>)

interpretation unitedstates_governmentbond: weekend_market unitedstates_governmentbond_impl
  by (rule weekend_marketI [where f = is_weekend_sat_sun]) (simp_all add: unitedstates_governmentbond_impl_def unitedstates_government_bond_is_business_day_total unitedstates_government_bond_is_business_day_weekend)

lemma unitedstates_sofr_is_business_day_weekend:
  assumes "valid_date date" "date_weekday date = Some w" "is_weekend_sat_sun w"
  shows "unitedstates_sofr_is_business_day date = Some False"
  using assms(1)
  by (rule date_fields)
    (use assms(2,3) in \<open>simp add: unitedstates_sofr_is_business_day_def unitedstates_government_bond_is_business_day_def unitedstates_government_bond_closed_rules_def unitedstates_government_bond_closed_rules_2_def western_easter_eq orthodox_easter_eq\<close>)

interpretation unitedstates_sofr: weekend_market unitedstates_sofr_impl
  by (rule weekend_marketI [where f = is_weekend_sat_sun]) (simp_all add: unitedstates_sofr_impl_def unitedstates_sofr_is_business_day_total unitedstates_sofr_is_business_day_weekend)

lemma unitedstates_nerc_is_business_day_weekend:
  assumes "valid_date date" "date_weekday date = Some w" "is_weekend_sat_sun w"
  shows "unitedstates_nerc_is_business_day date = Some False"
  using assms(1)
  by (rule date_fields)
    (use assms(2,3) in \<open>simp add: unitedstates_nerc_is_business_day_def unitedstates_is_memorial_day_def unitedstates_is_labor_day_def western_easter_eq orthodox_easter_eq\<close>)

interpretation unitedstates_nerc: weekend_market unitedstates_nerc_impl
  by (rule weekend_marketI [where f = is_weekend_sat_sun]) (simp_all add: unitedstates_nerc_impl_def unitedstates_nerc_is_business_day_total unitedstates_nerc_is_business_day_weekend)

lemma unitedstates_federalreserve_is_business_day_weekend:
  assumes "valid_date date" "date_weekday date = Some w" "is_weekend_sat_sun w"
  shows "unitedstates_federalreserve_is_business_day date = Some False"
  using assms(1)
  by (rule date_fields)
    (use assms(2,3) in \<open>simp add: unitedstates_federalreserve_is_business_day_def unitedstates_is_washington_birthday_def unitedstates_is_memorial_day_def unitedstates_is_labor_day_def unitedstates_is_columbus_day_def unitedstates_is_veterans_day_no_saturday_def unitedstates_is_juneteenth_def western_easter_eq orthodox_easter_eq\<close>)

interpretation unitedstates_federalreserve: weekend_market unitedstates_federalreserve_impl
  by (rule weekend_marketI [where f = is_weekend_sat_sun]) (simp_all add: unitedstates_federalreserve_impl_def unitedstates_federalreserve_is_business_day_total unitedstates_federalreserve_is_business_day_weekend)

section \<open>\<open>canada.rs\<close>\<close>

definition canada_settlement_is_business_day :: "date \<Rightarrow> bool option" where
  "canada_settlement_is_business_day date = do {
     w \<leftarrow> date_weekday date;
     d \<leftarrow> date_day_of_month date;
     dd \<leftarrow> date_day_of_year date;
     m \<leftarrow> date_month date;
     y \<leftarrow> date_year date;
     em \<leftarrow> western_easter_monday y;
     Some (\<not> (is_weekend_sat_sun w
         \<or> ((d = 1 \<or> ((d = 2 \<or> d = 3) \<and> w = Monday)) \<and> m = January)
         \<or> (d \<ge> 15 \<and> d \<le> 21 \<and> w = Monday \<and> m = February \<and> y \<ge> 2008)
         \<or> dd = (em - 3)
         \<or> (d > 17 \<and> d \<le> 24 \<and> w = Monday \<and> m = May)
         \<or> ((d = 1 \<or> ((d = 2 \<or> d = 3) \<and> w = Monday)) \<and> m = July)
         \<or> (d \<le> 7 \<and> w = Monday \<and> m = August)
         \<or> (d \<le> 7 \<and> w = Monday \<and> m = September)
         \<or> (((d = 30 \<and> m = September) \<or> (d \<le> 2 \<and> m = October \<and> w = Monday)) \<and> y \<ge> 2021)
         \<or> (d > 7 \<and> d \<le> 14 \<and> w = Monday \<and> m = October)
         \<or> ((d = 11 \<or> ((d = 12 \<or> d = 13) \<and> w = Monday)) \<and> m = November)
         \<or> ((d = 25 \<or> (d = 27 \<and> (w = Monday \<or> w = Tuesday))) \<and> m = December)
         \<or> ((d = 26 \<or> (d = 28 \<and> (w = Monday \<or> w = Tuesday))) \<and> m = December)))
   }"

definition canada_settlement_impl :: calendar_impl where
  "canada_settlement_impl = calendar_impl_new ''Canada''
     canada_settlement_is_business_day is_weekend_sat_sun"

definition canada_tsx_is_business_day :: "date \<Rightarrow> bool option" where
  "canada_tsx_is_business_day date = do {
     w \<leftarrow> date_weekday date;
     d \<leftarrow> date_day_of_month date;
     dd \<leftarrow> date_day_of_year date;
     m \<leftarrow> date_month date;
     y \<leftarrow> date_year date;
     em \<leftarrow> western_easter_monday y;
     Some (\<not> (is_weekend_sat_sun w
         \<or> ((d = 1 \<or> ((d = 2 \<or> d = 3) \<and> w = Monday)) \<and> m = January)
         \<or> (d \<ge> 15 \<and> d \<le> 21 \<and> w = Monday \<and> m = February \<and> y \<ge> 2008)
         \<or> dd = (em - 3)
         \<or> (d > 17 \<and> d \<le> 24 \<and> w = Monday \<and> m = May)
         \<or> ((d = 1 \<or> ((d = 2 \<or> d = 3) \<and> w = Monday)) \<and> m = July)
         \<or> (d \<le> 7 \<and> w = Monday \<and> m = August)
         \<or> (d \<le> 7 \<and> w = Monday \<and> m = September)
         \<or> (d > 7 \<and> d \<le> 14 \<and> w = Monday \<and> m = October)
         \<or> ((d = 25 \<or> (d = 27 \<and> (w = Monday \<or> w = Tuesday))) \<and> m = December)
         \<or> ((d = 26 \<or> (d = 28 \<and> (w = Monday \<or> w = Tuesday))) \<and> m = December)))
   }"

definition canada_tsx_impl :: calendar_impl where
  "canada_tsx_impl = calendar_impl_new ''TSX''
     canada_tsx_is_business_day is_weekend_sat_sun"

datatype canada_market = Canada_Settlement | Canada_Tsx

fun canada_new :: "canada_market \<Rightarrow> calendar" where
  "canada_new Canada_Settlement = calendar_from_impl canada_settlement_impl"
| "canada_new Canada_Tsx = calendar_from_impl canada_tsx_impl"

lemma canada_settlement_is_business_day_total [total_rules]: "valid_date date \<Longrightarrow> canada_settlement_is_business_day date \<noteq> None"
  unfolding canada_settlement_is_business_day_def by (rule total_rules | assumption | (simp add: civil_ok_def; fail))+

lemma canada_tsx_is_business_day_total [total_rules]: "valid_date date \<Longrightarrow> canada_tsx_is_business_day date \<noteq> None"
  unfolding canada_tsx_is_business_day_def by (rule total_rules | assumption | (simp add: civil_ok_def; fail))+

lemma canada_settlement_is_business_day_weekend:
  assumes "valid_date date" "date_weekday date = Some w" "is_weekend_sat_sun w"
  shows "canada_settlement_is_business_day date = Some False"
  using assms(1)
  by (rule date_fields)
    (use assms(2,3) in \<open>simp add: canada_settlement_is_business_day_def western_easter_eq orthodox_easter_eq\<close>)

interpretation canada_settlement: weekend_market canada_settlement_impl
  by (rule weekend_marketI [where f = is_weekend_sat_sun]) (simp_all add: canada_settlement_impl_def canada_settlement_is_business_day_total canada_settlement_is_business_day_weekend)

lemma canada_tsx_is_business_day_weekend:
  assumes "valid_date date" "date_weekday date = Some w" "is_weekend_sat_sun w"
  shows "canada_tsx_is_business_day date = Some False"
  using assms(1)
  by (rule date_fields)
    (use assms(2,3) in \<open>simp add: canada_tsx_is_business_day_def western_easter_eq orthodox_easter_eq\<close>)

interpretation canada_tsx: weekend_market canada_tsx_impl
  by (rule weekend_marketI [where f = is_weekend_sat_sun]) (simp_all add: canada_tsx_impl_def canada_tsx_is_business_day_total canada_tsx_is_business_day_weekend)

section \<open>\<open>mexico.rs\<close>\<close>

definition mexico_bmv_is_business_day :: "date \<Rightarrow> bool option" where
  "mexico_bmv_is_business_day date = do {
     w \<leftarrow> date_weekday date;
     d \<leftarrow> date_day_of_month date;
     dd \<leftarrow> date_day_of_year date;
     m \<leftarrow> date_month date;
     y \<leftarrow> date_year date;
     em \<leftarrow> western_easter_monday y;
     Some (\<not> (is_weekend_sat_sun w
         \<or> (d = 1 \<and> m = January)
         \<or> (y \<le> 2005 \<and> d = 5 \<and> m = February)
         \<or> (y \<ge> 2006 \<and> d \<le> 7 \<and> w = Monday \<and> m = February)
         \<or> (y \<le> 2005 \<and> d = 21 \<and> m = March)
         \<or> (y \<ge> 2006 \<and> 15 \<le> d \<and> d \<le> 21 \<and> w = Monday \<and> m = March)
         \<or> dd = (em - 4)
         \<or> dd = (em - 3)
         \<or> (d = 1 \<and> m = May)
         \<or> (d = 16 \<and> m = September)
         \<or> (d = 1 \<and> m = October \<and> y \<ge> 2024 \<and> ((y - 2024) mod 6) = 0)
         \<or> (d = 2 \<and> m = November)
         \<or> (y \<le> 2005 \<and> d = 20 \<and> m = November)
         \<or> (y \<ge> 2006 \<and> 15 \<le> d \<and> d \<le> 21 \<and> w = Monday \<and> m = November)
         \<or> (d = 12 \<and> m = December)
         \<or> (d = 25 \<and> m = December)))
   }"

definition mexico_bmv_impl :: calendar_impl where
  "mexico_bmv_impl = calendar_impl_new ''Mexican stock exchange''
     mexico_bmv_is_business_day is_weekend_sat_sun"

datatype mexico_market = Mexico_Bmv

fun mexico_new :: "mexico_market \<Rightarrow> calendar" where
  "mexico_new Mexico_Bmv = calendar_from_impl mexico_bmv_impl"

lemma mexico_bmv_is_business_day_total [total_rules]: "valid_date date \<Longrightarrow> mexico_bmv_is_business_day date \<noteq> None"
  unfolding mexico_bmv_is_business_day_def by (rule total_rules | assumption | (simp add: civil_ok_def; fail))+

lemma mexico_bmv_is_business_day_weekend:
  assumes "valid_date date" "date_weekday date = Some w" "is_weekend_sat_sun w"
  shows "mexico_bmv_is_business_day date = Some False"
  using assms(1)
  by (rule date_fields)
    (use assms(2,3) in \<open>simp add: mexico_bmv_is_business_day_def western_easter_eq orthodox_easter_eq\<close>)

interpretation mexico_bmv: weekend_market mexico_bmv_impl
  by (rule weekend_marketI [where f = is_weekend_sat_sun]) (simp_all add: mexico_bmv_impl_def mexico_bmv_is_business_day_total mexico_bmv_is_business_day_weekend)

section \<open>\<open>brazil.rs\<close>\<close>

definition brazil_settlement_is_business_day :: "date \<Rightarrow> bool option" where
  "brazil_settlement_is_business_day date = do {
     w \<leftarrow> date_weekday date;
     d \<leftarrow> date_day_of_month date;
     m \<leftarrow> date_month date;
     y \<leftarrow> date_year date;
     dd \<leftarrow> date_day_of_year date;
     em \<leftarrow> western_easter_monday y;
     Some (\<not> (is_weekend_sat_sun w
         \<or> (d = 1 \<and> m = January)
         \<or> (d = 21 \<and> m = April)
         \<or> (d = 1 \<and> m = May)
         \<or> (d = 7 \<and> m = September)
         \<or> (d = 12 \<and> m = October)
         \<or> (d = 2 \<and> m = November)
         \<or> (d = 15 \<and> m = November)
         \<or> (d = 20 \<and> m = November \<and> y \<ge> 2024)
         \<or> (d = 25 \<and> m = December)
         \<or> dd = (em - 3)
         \<or> dd = (em - 49)
         \<or> dd = (em - 48)
         \<or> dd = (em + 59)))
   }"

definition brazil_settlement_impl :: calendar_impl where
  "brazil_settlement_impl = calendar_impl_new ''Brazil''
     brazil_settlement_is_business_day is_weekend_sat_sun"

definition brazil_exchange_is_business_day :: "date \<Rightarrow> bool option" where
  "brazil_exchange_is_business_day date = do {
     w \<leftarrow> date_weekday date;
     d \<leftarrow> date_day_of_month date;
     m \<leftarrow> date_month date;
     y \<leftarrow> date_year date;
     dd \<leftarrow> date_day_of_year date;
     em \<leftarrow> western_easter_monday y;
     Some (\<not> (is_weekend_sat_sun w
         \<or> (d = 1 \<and> m = January)
         \<or> (d = 25 \<and> m = January \<and> y < 2022)
         \<or> (d = 21 \<and> m = April)
         \<or> (d = 1 \<and> m = May)
         \<or> (d = 9 \<and> m = July \<and> y < 2022)
         \<or> (d = 7 \<and> m = September)
         \<or> (d = 12 \<and> m = October)
         \<or> (d = 2 \<and> m = November)
         \<or> (d = 15 \<and> m = November)
         \<or> (d = 20 \<and> m = November \<and> y \<ge> 2007 \<and> y \<noteq> 2022 \<and> y \<noteq> 2023)
         \<or> (d = 24 \<and> m = December)
         \<or> (d = 25 \<and> m = December)
         \<or> dd = (em - 3)
         \<or> dd = (em - 49)
         \<or> dd = (em - 48)
         \<or> dd = (em + 59)
         \<or> (m = December \<and> (d = 31 \<or> (d \<ge> 29 \<and> w = Friday)))))
   }"

definition brazil_exchange_impl :: calendar_impl where
  "brazil_exchange_impl = calendar_impl_new ''BOVESPA''
     brazil_exchange_is_business_day is_weekend_sat_sun"

datatype brazil_market = Brazil_Settlement | Brazil_Exchange

fun brazil_new :: "brazil_market \<Rightarrow> calendar" where
  "brazil_new Brazil_Settlement = calendar_from_impl brazil_settlement_impl"
| "brazil_new Brazil_Exchange = calendar_from_impl brazil_exchange_impl"

lemma brazil_settlement_is_business_day_total [total_rules]: "valid_date date \<Longrightarrow> brazil_settlement_is_business_day date \<noteq> None"
  unfolding brazil_settlement_is_business_day_def by (rule total_rules | assumption | (simp add: civil_ok_def; fail))+

lemma brazil_exchange_is_business_day_total [total_rules]: "valid_date date \<Longrightarrow> brazil_exchange_is_business_day date \<noteq> None"
  unfolding brazil_exchange_is_business_day_def by (rule total_rules | assumption | (simp add: civil_ok_def; fail))+

lemma brazil_settlement_is_business_day_weekend:
  assumes "valid_date date" "date_weekday date = Some w" "is_weekend_sat_sun w"
  shows "brazil_settlement_is_business_day date = Some False"
  using assms(1)
  by (rule date_fields)
    (use assms(2,3) in \<open>simp add: brazil_settlement_is_business_day_def western_easter_eq orthodox_easter_eq\<close>)

interpretation brazil_settlement: weekend_market brazil_settlement_impl
  by (rule weekend_marketI [where f = is_weekend_sat_sun]) (simp_all add: brazil_settlement_impl_def brazil_settlement_is_business_day_total brazil_settlement_is_business_day_weekend)

lemma brazil_exchange_is_business_day_weekend:
  assumes "valid_date date" "date_weekday date = Some w" "is_weekend_sat_sun w"
  shows "brazil_exchange_is_business_day date = Some False"
  using assms(1)
  by (rule date_fields)
    (use assms(2,3) in \<open>simp add: brazil_exchange_is_business_day_def western_easter_eq orthodox_easter_eq\<close>)

interpretation brazil_exchange: weekend_market brazil_exchange_impl
  by (rule weekend_marketI [where f = is_weekend_sat_sun]) (simp_all add: brazil_exchange_impl_def brazil_exchange_is_business_day_total brazil_exchange_is_business_day_weekend)

section \<open>\<open>argentina.rs\<close>\<close>

definition argentina_merval_is_business_day :: "date \<Rightarrow> bool option" where
  "argentina_merval_is_business_day date = do {
     w \<leftarrow> date_weekday date;
     d \<leftarrow> date_day_of_month date;
     dd \<leftarrow> date_day_of_year date;
     m \<leftarrow> date_month date;
     y \<leftarrow> date_year date;
     em \<leftarrow> western_easter_monday y;
     Some (\<not> (is_weekend_sat_sun w
         \<or> (d = 1 \<and> m = January)
         \<or> dd = (em - 4)
         \<or> dd = (em - 3)
         \<or> (d = 1 \<and> m = May)
         \<or> (d = 25 \<and> m = May)
         \<or> (15 \<le> d \<and> d \<le> 21 \<and> w = Monday \<and> m = June)
         \<or> (d = 9 \<and> m = July)
         \<or> (15 \<le> d \<and> d \<le> 21 \<and> w = Monday \<and> m = August)
         \<or> ((d = 10 \<or> d = 11 \<or> d = 12 \<or> d = 15 \<or> d = 16) \<and> w = Monday \<and> m = October)
         \<or> (d = 8 \<and> m = December)
         \<or> (d = 24 \<and> m = December)
         \<or> ((d = 31 \<or> (d = 30 \<and> w = Friday)) \<and> m = December)))
   }"

definition argentina_merval_impl :: calendar_impl where
  "argentina_merval_impl = calendar_impl_new ''Buenos Aires stock exchange''
     argentina_merval_is_business_day is_weekend_sat_sun"

datatype argentina_market = Argentina_Merval

fun argentina_new :: "argentina_market \<Rightarrow> calendar" where
  "argentina_new Argentina_Merval = calendar_from_impl argentina_merval_impl"

lemma argentina_merval_is_business_day_total [total_rules]: "valid_date date \<Longrightarrow> argentina_merval_is_business_day date \<noteq> None"
  unfolding argentina_merval_is_business_day_def by (rule total_rules | assumption | (simp add: civil_ok_def; fail))+

lemma argentina_merval_is_business_day_weekend:
  assumes "valid_date date" "date_weekday date = Some w" "is_weekend_sat_sun w"
  shows "argentina_merval_is_business_day date = Some False"
  using assms(1)
  by (rule date_fields)
    (use assms(2,3) in \<open>simp add: argentina_merval_is_business_day_def western_easter_eq orthodox_easter_eq\<close>)

interpretation argentina_merval: weekend_market argentina_merval_impl
  by (rule weekend_marketI [where f = is_weekend_sat_sun]) (simp_all add: argentina_merval_impl_def argentina_merval_is_business_day_total argentina_merval_is_business_day_weekend)

section \<open>\<open>chile.rs\<close>\<close>

definition chile_ABORIGINAL_PEOPLE_DAY :: "int list" where
  "chile_ABORIGINAL_PEOPLE_DAY = [
     21, 21, 21, 20, 20, 21, 21, 20, 20, 21, 21, 20, 20, 21, 21, 20, 20, 21, 21, 20, 20, 21,
     21, 20, 20, 21, 21, 20, 20, 20, 21, 20, 20, 20, 21, 20, 20, 20, 21, 20, 20, 20, 21, 20,
     20, 20, 21, 20, 20, 20, 21, 20, 20, 20, 21, 20, 20, 20, 20, 20, 20, 20, 20, 20, 20, 20,
     20, 20, 20, 20, 20, 20, 20, 20, 20, 20, 20, 20, 20, 21, 21, 21, 21, 21, 21, 21, 21, 20,
     21, 21, 21, 20, 21, 21, 21, 20, 21, 21, 21, 20, 21, 21, 21, 20, 21, 21, 21, 20, 21, 21,
     21, 20, 21, 21, 21, 20, 20, 21, 21, 20, 20, 21, 21, 20, 20, 21, 21, 20, 20, 21, 21, 20,
     20, 21, 21, 20, 20, 21, 21, 20, 20, 21, 21, 20, 20, 21, 21, 20, 20, 20, 21, 20, 20, 20,
     21, 20, 20, 20, 21, 20, 20, 20, 21, 20, 20, 20, 21, 20, 20, 20, 21, 20, 20, 20, 21, 20,
     20, 20, 20]"

definition chile_is_aboriginal_people_day :: "int \<Rightarrow> month \<Rightarrow> int \<Rightarrow> bool" where
  "chile_is_aboriginal_people_day d m y \<longleftrightarrow>
     (if m \<noteq> June \<or> y < 2021 then False
      else let idx = y - 2021
           in idx < int (length chile_ABORIGINAL_PEOPLE_DAY) \<and>
              Some d = tbl_get chile_ABORIGINAL_PEOPLE_DAY idx)"

definition chile_sse_is_business_day :: "date \<Rightarrow> bool option" where
  "chile_sse_is_business_day date = do {
     w \<leftarrow> date_weekday date;
     d \<leftarrow> date_day_of_month date;
     m \<leftarrow> date_month date;
     y \<leftarrow> date_year date;
     dd \<leftarrow> date_day_of_year date;
     em \<leftarrow> western_easter_monday y;
     Some (\<not> (is_weekend_sat_sun w
         \<or> (d = 1 \<and> m = January)
         \<or> (d = 2 \<and> m = January \<and> w = Monday \<and> y > 2016)
         \<or> (d = 16 \<and> m = January \<and> y = 2018)
         \<or> dd = (em - 3)
         \<or> dd = (em - 2)
         \<or> (d = 19 \<and> m = April \<and> y = 2017)
         \<or> (d = 1 \<and> m = May)
         \<or> (d = 21 \<and> m = May)
         \<or> chile_is_aboriginal_people_day d m y
         \<or> (d \<ge> 26 \<and> d \<le> 29 \<and> m = June \<and> w = Monday)
         \<or> (d = 2 \<and> m = July \<and> w = Monday)
         \<or> (d = 16 \<and> m = July)
         \<or> (d = 15 \<and> m = August)
         \<or> (d = 16 \<and> m = September \<and> y = 2022)
         \<or> (d = 17 \<and> m = September \<and> ((w = Monday \<and> y \<ge> 2007) \<or> (w = Friday \<and> y > 2016)))
         \<or> (d = 18 \<and> m = September)
         \<or> (d = 19 \<and> m = September)
         \<or> (d = 20 \<and> m = September \<and> w = Friday \<and> y \<ge> 2007)
         \<or> (d \<ge> 9 \<and> d \<le> 12 \<and> m = October \<and> w = Monday)
         \<or> (d = 15 \<and> m = October \<and> w = Monday)
         \<or> (((d = 27 \<and> m = October \<and> w = Friday) \<or> (d = 31 \<and> m = October \<and> w \<noteq> Tuesday \<and> w \<noteq> Wednesday) \<or> (d = 2 \<and> m = November \<and> w = Friday)) \<and> y \<ge> 2008)
         \<or> (d = 1 \<and> m = November)
         \<or> (d = 8 \<and> m = December)
         \<or> (d = 25 \<and> m = December)
         \<or> (d = 31 \<and> m = December)))
   }"

definition chile_sse_impl :: calendar_impl where
  "chile_sse_impl = calendar_impl_new ''Santiago Stock Exchange''
     chile_sse_is_business_day is_weekend_sat_sun"

datatype chile_market = Chile_Sse

fun chile_new :: "chile_market \<Rightarrow> calendar" where
  "chile_new Chile_Sse = calendar_from_impl chile_sse_impl"

lemma chile_sse_is_business_day_total [total_rules]: "valid_date date \<Longrightarrow> chile_sse_is_business_day date \<noteq> None"
  unfolding chile_sse_is_business_day_def by (rule total_rules | assumption | (simp add: civil_ok_def; fail))+

lemma chile_sse_is_business_day_weekend:
  assumes "valid_date date" "date_weekday date = Some w" "is_weekend_sat_sun w"
  shows "chile_sse_is_business_day date = Some False"
  using assms(1)
  by (rule date_fields)
    (use assms(2,3) in \<open>simp add: chile_sse_is_business_day_def chile_is_aboriginal_people_day_def western_easter_eq orthodox_easter_eq\<close>)

interpretation chile_sse: weekend_market chile_sse_impl
  by (rule weekend_marketI [where f = is_weekend_sat_sun]) (simp_all add: chile_sse_impl_def chile_sse_is_business_day_total chile_sse_is_business_day_weekend)

section \<open>The United States settlement market is live\<close>

definition unitedstates_midweek :: "weekday \<Rightarrow> int \<Rightarrow> month \<Rightarrow> int \<Rightarrow> bool" where
  "unitedstates_midweek w d m y \<longleftrightarrow>
     (d = 1 \<and> m = January) \<or> (d = 22 \<and> m = February) \<or> (d = 30 \<and> m = May) \<or>
     (d = 19 \<and> m = June) \<or> (d = 4 \<and> m = July) \<or> (d = 11 \<and> m = November) \<or>
     (22 \<le> d \<and> d \<le> 28 \<and> w = Thursday \<and> m = November) \<or> (d = 25 \<and> m = December)"

lemma unitedstates_closed_midweek:
  assumes "valid_date d" "date_weekday d = Some w" "w = Tuesday \<or> w = Wednesday \<or> w = Thursday"
    and "date_new dd m y = Some d" "unitedstates_settlement_is_business_day d = Some False"
  shows "unitedstates_midweek w dd m y"
  using assms(2,3,5) date_new_inspect [OF assms(4)]
  by (auto simp: unitedstates_settlement_is_business_day_def unitedstates_midweek_def is_weekend_sat_sun_def
      unitedstates_is_washington_birthday_def unitedstates_is_memorial_day_def unitedstates_is_juneteenth_def
      unitedstates_is_labor_day_def unitedstates_is_columbus_day_def unitedstates_is_veterans_day_def
      split: if_splits)

lemma unitedstates_midweek_rows: "midweek_rows_open unitedstates_midweek"
  unfolding midweek_rows_open_def unitedstates_midweek_def
  by (auto split: if_splits)

interpretation unitedstates_live: live_market unitedstates_settlement_impl 8
  by (rule live_marketI [OF _ _ _ unitedstates_midweek_rows])
    (simp_all add: unitedstates_settlement_impl_def unitedstates_settlement_is_business_day_total
      unitedstates_closed_midweek)

end
