(* ===== verification/Market_Properties.thy ===== *)
theory Market_Properties
  imports Calendar_Properties Composite_Calendars Markets_West Markets_Americas
begin

text \<open>
  The properties of the market calendars: the Easter tables, the markets in which every
  modified-following adjustment succeeds, single national rules, and the composite calendars.
\<close>

section \<open>Easter\<close>

text \<open>C9. The two Easter Monday tables are the Gregorian and the Julian computus for every
  supported year, and a year outside the range panics.\<close>

theorem easter_tables_are_the_computus:
  "western_easter_monday y = (if 1901 \<le> y \<and> y \<le> 2199 then Some (gregorian_easter_monday y) else None) \<and>
   orthodox_easter_monday y = (if 1901 \<le> y \<and> y \<le> 2199 then Some (julian_easter_monday y) else None)"
  using western_easter_eq [of y] orthodox_easter_eq [of y] easter_outside [of y] by auto

text \<open>Either table gives a Monday: a date whose day of the year is the entry of its year is a
  Monday, and the day three before it, by which the markets close on Good Friday, a Friday.\<close>

lemma easter_monday_is_a_monday:
  assumes "valid_date d" "date_year d = Some y"
    and "western_easter_monday y = Some em \<or> orthodox_easter_monday y = Some em"
  shows "(date_day_of_year d = Some em \<longrightarrow> date_weekday d = Some Monday) \<and>
    (date_day_of_year d = Some (em - 3) \<longrightarrow> date_weekday d = Some Friday)"
proof -
  have "weekday_of 2 = Monday" "weekday_of (- 1) = Friday" by code_simp+
  then show ?thesis
    using weekday_from_easter [OF assms, of 0] weekday_from_easter [OF assms, of "-3"] by simp
qed

section \<open>Markets that always open\<close>

text \<open>In the TARGET, United Kingdom and United States settlement markets a
  modified-following adjustment never panics (more than eight days from the last date) and lands
  on a business day of the same month and year, at most eight days away.\<close>

lemma modified_following_stays_in_month:
  assumes "valid_date d" "valid_date (shift_date d 8)"
    and "i \<in> {target_impl, unitedkingdom_settlement_impl, unitedstates_settlement_impl}"
  shows "\<exists>e. adjust (calendar_from_impl i) d ModifiedFollowing = Some e \<and>
     is_business_day (calendar_from_impl i) e = Some True \<and>
     date_month e = date_month d \<and> date_year e = date_year d \<and>
     \<bar>serial_number e - serial_number d\<bar> \<le> 8"
  using assms(3) target_live.modified_following_same_month [OF assms(1,2)]
    unitedkingdom_live.modified_following_same_month [OF assms(1,2)]
    unitedstates_live.modified_following_same_month [OF assms(1,2)]
  by (elim insertE emptyE) (simp_all only:)

text \<open>In the same markets modified following preserves the order of dates, although it rolls
  some dates forwards and some backwards.\<close>

lemma modified_following_monotone:
  assumes "i \<in> {target_impl, unitedkingdom_settlement_impl, unitedstates_settlement_impl}"
    and "valid_date d" "valid_date d'" "d \<le> d'" "valid_date (shift_date d' 8)"
    and "adjust (calendar_from_impl i) d ModifiedFollowing = Some e"
    and "adjust (calendar_from_impl i) d' ModifiedFollowing = Some e'"
  shows "e \<le> e'"
  using assms(1,6,7) target_live.modified_following_mono [OF assms(2-4) _ _ assms(5)]
    unitedkingdom_live.modified_following_mono [OF assms(2-4) _ _ assms(5)]
    unitedstates_live.modified_following_mono [OF assms(2-4) _ _ assms(5)]
  by (elim insertE emptyE) (simp_all only:)

section \<open>National rules\<close>

definition closed_weekday :: "(date \<Rightarrow> bool option) \<Rightarrow> int \<Rightarrow> month \<Rightarrow> int \<Rightarrow> bool" where
  "closed_weekday open_on k m y \<longleftrightarrow>
     (case date_new k m y of None \<Rightarrow> False
      | Some d \<Rightarrow> map_option is_weekend_sat_sun (date_weekday d) = Some False \<and> open_on d = Some False)"

lemma date_new_weekday_of:
  assumes "date_new k m y = Some d"
  shows "date_weekday d = Some (weekday_of (days_before_year y + moff m (gregorian_leap y) + k))"
  using date_weekday_eq [OF date_new_valid' [OF assms]] assms by (auto simp: date_new_Some algebra_simps)

lemma uk_late_december:
  assumes "date_new k December y = Some d" "25 \<le> k" "k \<le> 28" "date_weekday d = Some w"
  shows "closed_weekday unitedkingdom_uk_is_business_day k December y \<longleftrightarrow>
     \<not> is_weekend_sat_sun w \<and> (k = 25 \<or> k = 26 \<or> w = Monday \<or> w = Tuesday)"
proof -
  note i = date_new_inspect [OF assms(1)]
  have r: "1901 \<le> y" "y \<le> 2199" using assms(1) by (auto simp: date_new_Some algebra_simps)
  have "gregorian_easter_monday y < moff December (gregorian_leap y) + k"
    using gregorian_easter_facts [OF r] assms(2) by (cases "gregorian_leap y") auto
  then show ?thesis using assms i western_easter_eq [OF r]
    by (auto simp: closed_weekday_def unitedkingdom_uk_is_business_day_def unitedkingdom_is_bank_holiday_def)
qed

text \<open>Christmas and Boxing Day substitution in the United Kingdom: in every year exactly two
  weekdays from 25 to 28 December are holidays, whichever of them fall on the weekend.\<close>

lemma uk_christmas_substitution:
  assumes "1901 \<le> y" "y \<le> 2199"
  shows "length (filter (\<lambda>k. closed_weekday unitedkingdom_uk_is_business_day k December y) [25, 26, 27, 28]) = 2"
proof -
  let ?s = "days_before_year y + moff December (gregorian_leap y)"
  have c: "closed_weekday unitedkingdom_uk_is_business_day k December y \<longleftrightarrow>
      \<not> is_weekend_sat_sun (weekday_of (?s + k)) \<and>
      (k = 25 \<or> k = 26 \<or> weekday_of (?s + k) = Monday \<or> weekday_of (?s + k) = Tuesday)"
    if k: "k \<in> {25, 26, 27, 28}" for k
  proof -
    obtain d where d: "date_new k December y = Some d"
      using k assms by (auto simp: date_new_Some algebra_simps)
    show ?thesis using uk_late_december [OF d _ _ date_new_weekday_of [OF d]] k by auto
  qed
  have "weekday_of (?s + 26) = weekday_of ((?s + 25) + 1)" "weekday_of (?s + 27) = weekday_of ((?s + 26) + 1)"
    "weekday_of (?s + 28) = weekday_of ((?s + 27) + 1)" by (simp_all add: algebra_simps)
  then show ?thesis unfolding weekday_after
    by (cases "weekday_of (?s + 25)") (simp_all add: c is_weekend_sat_sun_def)
qed

lemma nth_weekday_of_date:
  assumes "date_new k m y = Some d" "date_weekday d = Some w" "1 \<le> n" "n \<le> 5"
  shows "date_nth_weekday n w m y = Some d \<longleftrightarrow> (k - 1) div 7 = n - 1"
proof -
  have "date_new k' m y = Some d \<Longrightarrow> k' = k" for k'
    using assms(1) by (auto simp: date_new_Some)
  then show ?thesis using date_nth_weekday_iff [OF assms(3,4), of w m y d] assms(1,2) by blast
qed

text \<open>The day-of-month windows by which the United States market is coded are the statutory
  weekdays: among the Mondays of September the market closes on the first exactly (Labor Day);
  among the Thursdays of November but the 11th, on the fourth exactly (Thanksgiving); from 1983,
  among the Mondays of January after the 2nd, on the third exactly (Martin Luther King's birthday).\<close>

lemma us_holidays_are_nth_weekdays:
  assumes "date_new k m y = Some d" "date_weekday d = Some w"
  shows "(m = September \<and> w = Monday \<longrightarrow>
      (unitedstates_settlement_is_business_day d = Some False \<longleftrightarrow> date_nth_weekday 1 Monday September y = Some d)) \<and>
    (m = November \<and> w = Thursday \<and> k \<noteq> 11 \<longrightarrow>
      (unitedstates_settlement_is_business_day d = Some False \<longleftrightarrow> date_nth_weekday 4 Thursday November y = Some d)) \<and>
    (m = January \<and> w = Monday \<and> 2 < k \<and> 1983 \<le> y \<longrightarrow>
      (unitedstates_settlement_is_business_day d = Some False \<longleftrightarrow> date_nth_weekday 3 Monday January y = Some d))"
proof -
  note i = date_new_inspect [OF assms(1)]
  have k: "1 \<le> k" using assms(1) by (simp add: date_new_Some)
  note rules = unitedstates_settlement_is_business_day_def is_weekend_sat_sun_def
    unitedstates_is_washington_birthday_def unitedstates_is_memorial_day_def unitedstates_is_juneteenth_def
    unitedstates_is_labor_day_def unitedstates_is_columbus_day_def unitedstates_is_veterans_day_def
  have "m = September \<Longrightarrow> w = Monday \<Longrightarrow> unitedstates_settlement_is_business_day d = Some False \<longleftrightarrow> (k - 1) div 7 = 0"
    "m = November \<Longrightarrow> w = Thursday \<Longrightarrow> k \<noteq> 11 \<Longrightarrow> unitedstates_settlement_is_business_day d = Some False \<longleftrightarrow> (k - 1) div 7 = 3"
    "m = January \<Longrightarrow> w = Monday \<Longrightarrow> 2 < k \<Longrightarrow> 1983 \<le> y \<Longrightarrow>
      unitedstates_settlement_is_business_day d = Some False \<longleftrightarrow> (k - 1) div 7 = 2"
    using i assms(2) k by (simp_all add: rules) linarith+
  then show ?thesis using nth_weekday_of_date [OF assms] by auto
qed

text \<open>In a market that closes on its weekend, the holidays listed with weekends are those listed
  without them and the weekend days of the range, disjointly. TARGET is such a market.\<close>

lemma holiday_lists_partition:
  assumes "weekend_market i" "valid_date a" "valid_date b"
    and "holiday_list (calendar_from_impl i) a b True = Some xs"
    and "holiday_list (calendar_from_impl i) a b False = Some ys"
  shows "set xs = set ys \<union> {x \<in> {a..b}. ci_is_weekend_on i x = Some True} \<and>
     set ys \<inter> {x. ci_is_weekend_on i x = Some True} = {}"
  by (rule weekend_market.holidays_split [OF assms])

section \<open>Composite calendars\<close>

text \<open>A joint calendar is open when every member is (joining holidays) or when some member is
  (joining business days); and following on the joint holidays is never earlier than on a member.\<close>

lemma joint_calendar_semantics:
  assumes "joint_new cs rule = Some j" "\<And>c. c \<in> set cs \<Longrightarrow> well_formed c" "valid_date d"
  shows "is_business_day j d = Some (case rule of
       JoinHolidays \<Rightarrow> \<forall>c\<in>set cs. is_business_day c d = Some True
     | JoinBusinessDays \<Rightarrow> \<exists>c\<in>set cs. is_business_day c d = Some True) \<and>
    (\<forall>c\<in>set cs. \<forall>e e'. rule = JoinHolidays \<and> adjust j d Following = Some e \<and>
       adjust c d Following = Some e' \<longrightarrow> e' \<le> e)"
  using joint_lookup [OF assms] joint_following_later [OF _ assms(2) _ assms(3), where j = j] assms(1) by auto

text \<open>The 32-bit mask of a bespoke calendar is the set of the weekdays added to it, in any order
  and with any repetition: the calendar is closed on exactly those.\<close>

lemma bespoke_mask_is_a_set:
  assumes "date_weekday d = Some w"
  shows "is_business_day (bespoke_calendar (fold (\<lambda>v b. bespoke_add_weekend b v) ws (bespoke_new name))) d =
    Some (w \<notin> set ws)"
  using assms by (simp add: is_business_day_def bespoke_calendar_def calendar_from_impl_def bespoke_impl_def
      bespoke_is_business_day_def bespoke_fold_weekends bespoke_new_open)

end
