(* ===== verification/Schedule.thy ===== *)
theory Schedule
  imports Markets_Plain
begin

text \<open>
  \<open>time/schedule.rs\<close>: the payment schedule, its generation from a rule, its accessors and
  truncations, and the fluent builder. A \<open>Vec\<close> is a list; indexing outside it, and every
  \<open>assert!\<close>, \<open>expect\<close> and \<open>panic!\<close>, is \<open>None\<close>. The null date stands for an omitted stub date, as in
  the code.
\<close>

section \<open>The schedule\<close>

record schedule =
  sched_tenor :: "period option"
  sched_calendar :: calendar
  sched_convention :: business_day_convention
  sched_termination_convention :: "business_day_convention option"
  sched_rule :: "date_generation option"
  sched_end_of_month :: "bool option"
  sched_first_date :: date
  sched_next_to_last_date :: date
  sched_dates :: "date list"
  sched_is_regular :: "bool list"

definition allows_end_of_month :: "period \<Rightarrow> bool option" where
  "allows_end_of_month tenor =
     (if period_units tenor = Months \<or> period_units tenor = Years
      then period_ge tenor (period_new 1 Months) else Some False)"

definition is_imm_wednesday :: "date \<Rightarrow> bool option" where
  "is_imm_wednesday d = do {
     w \<leftarrow> date_weekday d;
     if w = Wednesday then do { k \<leftarrow> date_day_of_month d; Some (15 \<le> k \<and> k \<le> 21) } else Some False
   }"

definition schedule_with_metadata ::
  "date list \<Rightarrow> calendar \<Rightarrow> business_day_convention \<Rightarrow> business_day_convention option \<Rightarrow> period option \<Rightarrow>
   date_generation option \<Rightarrow> bool option \<Rightarrow> bool list \<Rightarrow> schedule option" where
  "schedule_with_metadata dates cal conv tconv tenor rule eom regular = do {
     eom' \<leftarrow> (case tenor of
         Some t \<Rightarrow> do { a \<leftarrow> allows_end_of_month t; Some (if a then eom else Some False) }
       | None \<Rightarrow> Some eom);
     assert_that (regular = [] \<or> length regular = length dates - 1);
     Some \<lparr>sched_tenor = tenor, sched_calendar = cal, sched_convention = conv,
           sched_termination_convention = tconv, sched_rule = rule, sched_end_of_month = eom',
           sched_first_date = date_null, sched_next_to_last_date = date_null,
           sched_dates = dates, sched_is_regular = regular\<rparr>
   }"

definition schedule_from_dates :: "date list \<Rightarrow> schedule option" where
  "schedule_from_dates dates = schedule_with_metadata dates nullcalendar_new Unadjusted None None None None []"

section \<open>Twentieths\<close>

definition previous_twentieth :: "date \<Rightarrow> date_generation \<Rightarrow> date option" where
  "previous_twentieth d rule = do {
     m \<leftarrow> date_month d;
     y \<leftarrow> date_year d;
     r0 \<leftarrow> date_new 20 m y;
     result \<leftarrow> if r0 > d then date_minus r0 (period_new 1 Months) else Some r0;
     if rule \<in> {TwentiethIMM, OldCDS, CDS, CDS2015} then do {
       m' \<leftarrow> date_month result;
       let k = month_ordinal m' in
       if k mod 3 \<noteq> 0 then date_minus result (period_new (k mod 3) Months) else Some result
     } else Some result
   }"

definition next_twentieth :: "date \<Rightarrow> date_generation \<Rightarrow> date option" where
  "next_twentieth d rule = do {
     m \<leftarrow> date_month d;
     y \<leftarrow> date_year d;
     r0 \<leftarrow> date_new 20 m y;
     result \<leftarrow> if r0 < d then date_plus r0 (period_new 1 Months) else Some r0;
     if rule \<in> {TwentiethIMM, OldCDS, CDS, CDS2015} then do {
       m' \<leftarrow> date_month result;
       let k = month_ordinal m' in
       if k mod 3 \<noteq> 0 then date_plus result (period_new (3 - k mod 3) Months) else Some result
     } else Some result
   }"

section \<open>Validation\<close>

definition check_first_date :: "date_generation \<Rightarrow> date \<Rightarrow> date \<Rightarrow> date \<Rightarrow> unit option" where
  "check_first_date rule effective termination first =
     (if first = date_null then Some ()
      else case rule of
        Backward \<Rightarrow> assert_that (first > effective \<and> first \<le> termination)
      | Forward \<Rightarrow> assert_that (first > effective \<and> first \<le> termination)
      | ThirdWednesday \<Rightarrow> do { k \<leftarrow> is_imm_wednesday first; assert_that k }
      | _ \<Rightarrow> None)"

definition check_next_to_last_date :: "date_generation \<Rightarrow> date \<Rightarrow> date \<Rightarrow> date \<Rightarrow> unit option" where
  "check_next_to_last_date rule effective termination ntl =
     (if ntl = date_null then Some ()
      else case rule of
        Backward \<Rightarrow> assert_that (ntl \<ge> effective \<and> ntl < termination)
      | Forward \<Rightarrow> assert_that (ntl \<ge> effective \<and> ntl < termination)
      | ThirdWednesday \<Rightarrow> do { k \<leftarrow> is_imm_wednesday ntl; assert_that k }
      | _ \<Rightarrow> None)"

section \<open>Generation\<close>

text \<open>The rows under construction: the dates in the order they are pushed, and one regularity
  flag between any two.\<close>

type_synonym rows = "date list \<times> bool list"

definition last_date :: "date list \<Rightarrow> date option" where
  "last_date ds = (if ds = [] then None else Some (last ds))"

definition differ_adjusted :: "calendar \<Rightarrow> business_day_convention \<Rightarrow> date \<Rightarrow> date \<Rightarrow> bool option" where
  "differ_adjusted cal conv a b = do {
     x \<leftarrow> adjust cal a conv;
     y \<leftarrow> adjust cal b conv;
     Some (x \<noteq> y)
   }"

definition push_row :: "date \<Rightarrow> bool \<Rightarrow> rows \<Rightarrow> rows" where
  "push_row d k rows = (fst rows @ [d], snd rows @ [k])"

text \<open>Pushes a date unless it adjusts to the same day as the last one; the flag says whether one
  step (\<open>tenor\<close>, or \<open>- tenor\<close> when generating backwards) leads to it from the last one.\<close>

definition push_stub ::
  "(period \<Rightarrow> period option) \<Rightarrow> calendar \<Rightarrow> business_day_convention \<Rightarrow> bool \<Rightarrow> period \<Rightarrow> date \<Rightarrow> rows \<Rightarrow> rows option" where
  "push_stub step cal conv eom tenor stub rows = do {
     previous \<leftarrow> last_date (fst rows);
     k \<leftarrow> differ_adjusted cal conv previous stub;
     if k then do {
       p \<leftarrow> step tenor;
       t \<leftarrow> advance_by_period nullcalendar_new previous p conv eom;
       Some (push_row stub (t = stub) rows)
     } else Some rows
   }"

text \<open>The generating \<open>loop\<close> of both directions: \<open>step\<close> is negation or the identity, \<open>beyond\<close>
  the exit test. The date is always \<open>periods\<close> tenors from the seed, so that the month-end
  truncation does not accumulate. The period counter is a checked \<open>i32\<close>.\<close>

function generate_loop ::
  "(period \<Rightarrow> period option) \<Rightarrow> (date \<Rightarrow> bool) \<Rightarrow> calendar \<Rightarrow> business_day_convention \<Rightarrow> bool \<Rightarrow> period \<Rightarrow>
   date \<Rightarrow> date \<Rightarrow> int \<Rightarrow> rows \<Rightarrow> rows option" where
  "generate_loop step beyond cal conv eom tenor stub seed periods rows = do {
     p \<leftarrow> period_mul tenor periods;
     q \<leftarrow> step p;
     temp \<leftarrow> advance_by_period nullcalendar_new seed q conv eom;
     if beyond temp then
       (if stub \<noteq> date_null then push_stub step cal conv eom tenor stub rows else Some rows)
     else do {
       previous \<leftarrow> last_date (fst rows);
       k \<leftarrow> differ_adjusted cal conv previous temp;
       periods' \<leftarrow> i32 (periods + 1);
       generate_loop step beyond cal conv eom tenor stub seed periods' (if k then push_row temp True rows else rows)
     }
   }"
  by pat_completeness auto
termination
  by (relation "measure (\<lambda>(_, _, _, _, _, _, _, _, periods, _). nat (2147483648 - periods))")
    (auto simp: i32_range_def)

declare generate_loop.simps [simp del]

definition zero_rows :: "date \<Rightarrow> date \<Rightarrow> rows" where
  "zero_rows effective termination = ([effective, termination], [True])"

definition backward_rows ::
  "calendar \<Rightarrow> business_day_convention \<Rightarrow> bool \<Rightarrow> period \<Rightarrow> date \<Rightarrow> date \<Rightarrow> date \<Rightarrow> date \<Rightarrow> (rows \<times> date) option" where
  "backward_rows cal conv eom tenor effective termination first ntl = do {
     (rows, seed) \<leftarrow>
       if ntl \<noteq> date_null then do {
         p \<leftarrow> period_mul tenor 1;
         q \<leftarrow> period_neg p;
         temp \<leftarrow> advance_by_period nullcalendar_new termination q conv eom;
         Some (([termination, ntl], [temp = ntl]), ntl)
       } else Some (([termination], []), termination);
     let exit = (if first \<noteq> date_null then first else effective);
     rows \<leftarrow> generate_loop period_neg (\<lambda>t. t < exit) cal conv eom tenor first seed 1 rows;
     rows \<leftarrow> push_stub period_neg cal conv eom tenor effective rows;
     Some ((rev (fst rows), rev (snd rows)), seed)
   }"
definition twentieth_rule :: "date_generation \<Rightarrow> bool" where
  "twentieth_rule rule \<longleftrightarrow> rule \<in> {Twentieth, TwentiethIMM, OldCDS, CDS, CDS2015}"

text \<open>The first rows of the other rules: for the two CDS rules the twentieth before the effective
  date, and a quarter earlier still when it only adjusts past that date.\<close>

definition forward_start ::
  "calendar \<Rightarrow> business_day_convention \<Rightarrow> date_generation \<Rightarrow> date \<Rightarrow> rows option" where
  "forward_start cal conv rule effective =
     (if rule = CDS \<or> rule = CDS2015 then do {
        prev \<leftarrow> previous_twentieth effective rule;
        a \<leftarrow> adjust cal prev conv;
        if a > effective then do {
          d \<leftarrow> date_minus prev (period_new 3 Months);
          Some ([d, prev], [True])
        } else Some ([prev], [])
      } else Some ([effective], []))"

definition forward_first ::
  "business_day_convention \<Rightarrow> bool \<Rightarrow> period \<Rightarrow> date_generation \<Rightarrow> date \<Rightarrow> date \<Rightarrow> date \<Rightarrow> rows \<Rightarrow> (rows \<times> date) option" where
  "forward_first conv eom tenor rule effective first seed rows =
     (if first \<noteq> date_null then do {
        p \<leftarrow> period_mul tenor 1;
        temp \<leftarrow> advance_by_period nullcalendar_new seed p conv eom;
        Some (push_row first (temp = first) rows, first)
      }
      else if twentieth_rule rule then do {
        n0 \<leftarrow> next_twentieth effective rule;
        next \<leftarrow> if rule = OldCDS \<and> date_diff n0 effective < 30
               then do { n1 \<leftarrow> date_add n0 1; next_twentieth n1 rule } else Some n0;
        Some (if next \<noteq> effective then (push_row next (rule = CDS \<or> rule = CDS2015) rows, next)
              else (rows, seed))
      }
      else Some (rows, seed))"

definition forward_end ::
  "calendar \<Rightarrow> business_day_convention \<Rightarrow> date_generation \<Rightarrow> date \<Rightarrow> rows \<Rightarrow> rows option" where
  "forward_end cal tconv rule termination rows = do {
     previous \<leftarrow> last_date (fst rows);
     k \<leftarrow> differ_adjusted cal tconv previous termination;
     if k then
       (if twentieth_rule rule then do {
          t \<leftarrow> next_twentieth termination rule;
          Some (push_row t True rows)
        } else Some (push_row termination False rows))
     else Some rows
   }"

definition forward_rows ::
  "calendar \<Rightarrow> business_day_convention \<Rightarrow> business_day_convention \<Rightarrow> bool \<Rightarrow> period \<Rightarrow> date_generation \<Rightarrow>
   date \<Rightarrow> date \<Rightarrow> date \<Rightarrow> date \<Rightarrow> (rows \<times> date) option" where
  "forward_rows cal conv tconv eom tenor rule effective termination first ntl = do {
     assert_that (rule = Forward \<or> \<not> eom);
     rows0 \<leftarrow> forward_start cal conv rule effective;
     seed0 \<leftarrow> last_date (fst rows0);
     (rows1, seed) \<leftarrow> forward_first conv eom tenor rule effective first seed0 rows0;
     let exit = (if ntl \<noteq> date_null then ntl else termination);
     rows2 \<leftarrow> generate_loop Some (\<lambda>t. t > exit) cal conv eom tenor ntl seed 1 rows1;
     rows3 \<leftarrow> forward_end cal tconv rule termination rows2;
     Some (rows3, seed)
   }"

section \<open>The passes over the generated dates\<close>

fun map_opt :: "('a \<Rightarrow> 'b option) \<Rightarrow> 'a list \<Rightarrow> 'b list option" where
  "map_opt f [] = Some []"
| "map_opt f (x # xs) = do { y \<leftarrow> f x; ys \<leftarrow> map_opt f xs; Some (y # ys) }"

text \<open>\<open>for i in 1..dates.len() - 1\<close>: every date but the first and the last.\<close>

definition map_inner :: "(date \<Rightarrow> date option) \<Rightarrow> date list \<Rightarrow> date list option" where
  "map_inner f ds =
     (case ds of
        [] \<Rightarrow> None
      | [d] \<Rightarrow> Some [d]
      | d # rest \<Rightarrow> do { mid \<leftarrow> map_opt f (butlast rest); Some (d # mid @ [last rest]) })"

definition map_head :: "(date \<Rightarrow> date option) \<Rightarrow> date list \<Rightarrow> date list option" where
  "map_head f ds = (case ds of [] \<Rightarrow> None | d # rest \<Rightarrow> do { d' \<leftarrow> f d; Some (d' # rest) })"

definition map_last :: "(date \<Rightarrow> date option) \<Rightarrow> date list \<Rightarrow> date list option" where
  "map_last f ds = do { d \<leftarrow> last_date ds; d' \<leftarrow> f d; Some (butlast ds @ [d']) }"

definition third_wednesday :: "date \<Rightarrow> date option" where
  "third_wednesday d = do {
     m \<leftarrow> date_month d;
     y \<leftarrow> date_year d;
     date_nth_weekday 3 Wednesday m y
   }"

definition wednesday_pass :: "date_generation \<Rightarrow> date list \<Rightarrow> date list option" where
  "wednesday_pass rule ds =
     (if rule = ThirdWednesday then map_inner third_wednesday ds
      else if rule = ThirdWednesdayInclusive then map_opt third_wednesday ds
      else Some ds)"

definition adjust_pass ::
  "calendar \<Rightarrow> business_day_convention \<Rightarrow> business_day_convention \<Rightarrow> date_generation \<Rightarrow> bool \<Rightarrow> date \<Rightarrow> date list \<Rightarrow> date list option" where
  "adjust_pass cal conv tconv rule eom seed ds0 = do {
     ds1 \<leftarrow> if conv \<noteq> Unadjusted \<and> rule \<noteq> OldCDS then map_head (\<lambda>d. adjust cal d conv) ds0 else Some ds0;
     ds2 \<leftarrow> if tconv \<noteq> Unadjusted \<and> rule \<noteq> CDS \<and> rule \<noteq> CDS2015
           then map_last (\<lambda>d. adjust cal d tconv) ds1 else Some ds1;
     snap \<leftarrow> if eom \<and> seed \<noteq> date_null then is_end_of_month cal seed else Some False;
     if snap then map_inner (\<lambda>d. do { e \<leftarrow> date_end_of_month d; adjust cal e conv }) ds2
     else map_inner (\<lambda>d. adjust cal d conv) ds2
   }"

text \<open>An adjustment may bring the last two dates together, or cross them; the last wins. The
  same at the start, where the first wins.\<close>

definition merge_last :: "rows \<Rightarrow> rows" where
  "merge_last rows =
     (let ds = fst rows; rs = snd rows; n = length ds; m = length rs in
      if 2 \<le> n \<and> ds ! (n - 2) \<ge> ds ! (n - 1)
      then (butlast (ds[n - 2 := ds ! (n - 1)]),
            butlast (if 2 \<le> m then rs[m - 2 := (ds ! (n - 2) = ds ! (n - 1))] else rs))
      else rows)"

definition merge_first :: "rows \<Rightarrow> rows option" where
  "merge_first rows =
     (let ds = fst rows; rs = snd rows in
      if 2 \<le> length ds \<and> ds ! 1 \<le> ds ! 0
      then (if rs = [] then None
            else Some (tl (ds[1 := ds ! 0]),
                       tl (if 2 \<le> length rs then rs[1 := (ds ! 1 = ds ! 0)] else rs)))
      else Some rows)"

section \<open>\<open>Schedule::new\<close>\<close>

definition schedule_generate ::
  "calendar \<Rightarrow> business_day_convention \<Rightarrow> business_day_convention \<Rightarrow> bool \<Rightarrow> period \<Rightarrow> date_generation \<Rightarrow>
   date \<Rightarrow> date \<Rightarrow> date \<Rightarrow> date \<Rightarrow> (rows \<times> date) option" where
  "schedule_generate cal conv tconv eom tenor rule effective termination first ntl =
     (case rule of
        Zero \<Rightarrow> Some (zero_rows effective termination, date_null)
      | Backward \<Rightarrow> backward_rows cal conv eom tenor effective termination first ntl
      | _ \<Rightarrow> forward_rows cal conv tconv eom tenor rule effective termination first ntl)"

definition schedule_passes ::
  "calendar \<Rightarrow> business_day_convention \<Rightarrow> business_day_convention \<Rightarrow> date_generation \<Rightarrow> bool \<Rightarrow> date \<Rightarrow> rows \<Rightarrow> rows option" where
  "schedule_passes cal conv tconv rule eom seed rows = do {
     ds1 \<leftarrow> wednesday_pass rule (fst rows);
     ds2 \<leftarrow> adjust_pass cal conv tconv rule eom seed ds1;
     merge_first (merge_last (ds2, snd rows))
   }"

text \<open>A zero tenor means the \<open>Zero\<close> rule; a negative one is refused.\<close>

definition effective_rule :: "period \<Rightarrow> date_generation \<Rightarrow> date_generation option" where
  "effective_rule tenor rule =
     (if period_length tenor = 0 then Some Zero
      else do { assert_that (period_length tenor > 0); Some rule })"

definition schedule_new ::
  "date \<Rightarrow> date \<Rightarrow> period \<Rightarrow> calendar \<Rightarrow> business_day_convention \<Rightarrow> business_day_convention \<Rightarrow>
   date_generation \<Rightarrow> bool \<Rightarrow> date \<Rightarrow> date \<Rightarrow> schedule option" where
  "schedule_new effective termination tenor0 cal conv tconv rule0 eom0 first0 ntl0 = do {
     allows \<leftarrow> allows_end_of_month tenor0;
     let eom = (allows \<and> eom0);
     let first = (if first0 = effective then date_null else first0);
     let ntl = (if ntl0 = termination then date_null else ntl0);
     assert_that (termination \<noteq> date_null);
     assert_that (effective \<noteq> date_null);
     assert_that (effective < termination);
     rule \<leftarrow> effective_rule tenor0 rule0;
     check_first_date rule effective termination first;
     check_next_to_last_date rule effective termination ntl;
     let tenor = (if rule = Zero then period_new 0 Years else tenor0);
     (rows, seed) \<leftarrow> schedule_generate cal conv tconv eom tenor rule effective termination first ntl;
     rows' \<leftarrow> schedule_passes cal conv tconv rule eom seed rows;
     assert_that (1 < length (fst rows'));
     Some \<lparr>sched_tenor = Some tenor, sched_calendar = cal, sched_convention = conv,
           sched_termination_convention = Some tconv, sched_rule = Some rule,
           sched_end_of_month = Some eom, sched_first_date = first, sched_next_to_last_date = ntl,
           sched_dates = fst rows', sched_is_regular = snd rows'\<rparr>
   }"

section \<open>Accessors\<close>

definition schedule_len :: "schedule \<Rightarrow> nat" where
  "schedule_len s = length (sched_dates s)"

definition schedule_is_empty :: "schedule \<Rightarrow> bool" where
  "schedule_is_empty s \<longleftrightarrow> sched_dates s = []"

definition schedule_date :: "schedule \<Rightarrow> nat \<Rightarrow> date option" where
  "schedule_date s i = (if i < length (sched_dates s) then Some (sched_dates s ! i) else None)"

definition schedule_start_date :: "schedule \<Rightarrow> date option" where
  "schedule_start_date s = do { assert_that (sched_dates s \<noteq> []); Some (sched_dates s ! 0) }"

definition schedule_end_date :: "schedule \<Rightarrow> date option" where
  "schedule_end_date s = do {
     assert_that (sched_dates s \<noteq> []);
     Some (sched_dates s ! (length (sched_dates s) - 1))
   }"

text \<open>The meta information: each accessor \<open>expect\<close>s its part.\<close>

definition schedule_tenor :: "schedule \<Rightarrow> period option" where
  "schedule_tenor s = sched_tenor s"

definition schedule_has_tenor :: "schedule \<Rightarrow> bool" where
  "schedule_has_tenor s \<longleftrightarrow> sched_tenor s \<noteq> None"

definition termination_date_business_day_convention :: "schedule \<Rightarrow> business_day_convention option" where
  "termination_date_business_day_convention s = sched_termination_convention s"

definition has_termination_date_business_day_convention :: "schedule \<Rightarrow> bool" where
  "has_termination_date_business_day_convention s \<longleftrightarrow> sched_termination_convention s \<noteq> None"

definition schedule_rule :: "schedule \<Rightarrow> date_generation option" where
  "schedule_rule s = sched_rule s"

definition schedule_has_rule :: "schedule \<Rightarrow> bool" where
  "schedule_has_rule s \<longleftrightarrow> sched_rule s \<noteq> None"

definition schedule_end_of_month :: "schedule \<Rightarrow> bool option" where
  "schedule_end_of_month s = sched_end_of_month s"

definition schedule_has_end_of_month :: "schedule \<Rightarrow> bool" where
  "schedule_has_end_of_month s \<longleftrightarrow> sched_end_of_month s \<noteq> None"

definition schedule_has_is_regular :: "schedule \<Rightarrow> bool" where
  "schedule_has_is_regular s \<longleftrightarrow> sched_is_regular s \<noteq> []"

definition schedule_is_regular :: "schedule \<Rightarrow> bool list option" where
  "schedule_is_regular s = do { assert_that (sched_is_regular s \<noteq> []); Some (sched_is_regular s) }"

definition schedule_is_regular_at :: "schedule \<Rightarrow> nat \<Rightarrow> bool option" where
  "schedule_is_regular_at s i = do {
     assert_that (sched_is_regular s \<noteq> []);
     assert_that (1 \<le> i \<and> i \<le> length (sched_is_regular s));
     Some (sched_is_regular s ! (i - 1))
   }"

text \<open>\<open>partition_point\<close> of a slice is the standard library's branch-light binary search.\<close>

function partition_loop :: "('a \<Rightarrow> bool) \<Rightarrow> 'a list \<Rightarrow> nat \<Rightarrow> nat \<Rightarrow> nat" where
  "partition_loop p xs base n =
     (if n \<le> 1 then base + (if p (xs ! base) then 1 else 0)
      else let half = n div 2; mid = base + half
           in partition_loop p xs (if p (xs ! mid) then mid else base) (n - half))"
  by pat_completeness auto
termination
  by (relation "measure (\<lambda>(p, xs, base, n). n)") auto

declare partition_loop.simps [simp del]

definition partition_point :: "('a \<Rightarrow> bool) \<Rightarrow> 'a list \<Rightarrow> nat" where
  "partition_point p xs = (if xs = [] then 0 else partition_loop p xs 0 (length xs))"

definition lower_bound :: "schedule \<Rightarrow> date \<Rightarrow> nat option" where
  "lower_bound s ref_date = do {
     assert_that (ref_date \<noteq> date_null);
     Some (partition_point (\<lambda>d. d < ref_date) (sched_dates s))
   }"

text \<open>The outer option is the panic on a null date, the inner one the code's own.\<close>

definition next_date :: "schedule \<Rightarrow> date \<Rightarrow> date option option" where
  "next_date s ref_date = do {
     i \<leftarrow> lower_bound s ref_date;
     Some (schedule_date s i)
   }"

definition previous_date :: "schedule \<Rightarrow> date \<Rightarrow> date option option" where
  "previous_date s ref_date = do {
     i \<leftarrow> lower_bound s ref_date;
     if i = 0 then Some None else do { d \<leftarrow> schedule_date s (i - 1); Some (Some d) }
   }"

section \<open>Truncation\<close>

definition schedule_after :: "schedule \<Rightarrow> date \<Rightarrow> schedule option" where
  "schedule_after s t = do {
     l \<leftarrow> last_date (sched_dates s);
     assert_that (t < l);
     h \<leftarrow> schedule_date s 0;
     if t > h then do {
       cut \<leftarrow> lower_bound s t;
       let ds = drop cut (sched_dates s);
       let rs = drop (min cut (length (sched_is_regular s))) (sched_is_regular s);
       d0 \<leftarrow> schedule_date (s\<lparr>sched_dates := ds\<rparr>) 0;
       let (ds, rs, tc) = (if t \<noteq> d0 then (t # ds, False # rs, Some Unadjusted)
                           else (ds, rs, Some (sched_convention s)));
       Some (s\<lparr>sched_dates := ds, sched_is_regular := rs, sched_termination_convention := tc,
               sched_next_to_last_date := (if sched_next_to_last_date s \<le> t then date_null else sched_next_to_last_date s),
               sched_first_date := (if sched_first_date s \<le> t then date_null else sched_first_date s)\<rparr>)
     } else Some s
   }"

text \<open>\<open>pop_after\<close> is the \<open>while\<close> loop of \<open>until\<close>.\<close>

function pop_after :: "date \<Rightarrow> rows \<Rightarrow> rows option" where
  "pop_after t rows = do {
     l \<leftarrow> last_date (fst rows);
     if l > t then pop_after t (butlast (fst rows), if snd rows = [] then [] else butlast (snd rows))
     else Some rows
   }"
  by pat_completeness auto
termination
  by (relation "measure (\<lambda>(t, rows). length (fst rows))") (auto simp: last_date_def split: if_splits)

declare pop_after.simps [simp del]

definition schedule_until :: "schedule \<Rightarrow> date \<Rightarrow> schedule option" where
  "schedule_until s t = do {
     assert_that (sched_dates s \<noteq> []);
     h \<leftarrow> schedule_date s 0;
     assert_that (t > h);
     l \<leftarrow> last_date (sched_dates s);
     if t < l then do {
       rows \<leftarrow> pop_after t (sched_dates s, sched_is_regular s);
       l' \<leftarrow> last_date (fst rows);
       let (rows, tc) = (if t \<noteq> l' then (push_row t False rows, Some Unadjusted)
                         else (rows, Some (sched_convention s)));
       Some (s\<lparr>sched_dates := fst rows, sched_is_regular := snd rows, sched_termination_convention := tc,
               sched_next_to_last_date := (if sched_next_to_last_date s \<ge> t then date_null else sched_next_to_last_date s),
               sched_first_date := (if sched_first_date s \<ge> t then date_null else sched_first_date s)\<rparr>)
     } else Some s
   }"

section \<open>The builder\<close>

record make_schedule =
  mk_calendar :: "calendar option"
  mk_effective_date :: date
  mk_termination_date :: date
  mk_tenor :: "period option"
  mk_convention :: "business_day_convention option"
  mk_termination_convention :: "business_day_convention option"
  mk_rule :: date_generation
  mk_end_of_month :: bool
  mk_first_date :: date
  mk_next_to_last_date :: date

definition make_schedule_new :: make_schedule where
  "make_schedule_new = \<lparr>mk_calendar = None, mk_effective_date = date_null, mk_termination_date = date_null,
     mk_tenor = None, mk_convention = None, mk_termination_convention = None, mk_rule = Backward,
     mk_end_of_month = False, mk_first_date = date_null, mk_next_to_last_date = date_null\<rparr>"

definition schedule_from :: "date \<Rightarrow> make_schedule \<Rightarrow> make_schedule" where
  "schedule_from d b = b\<lparr>mk_effective_date := d\<rparr>"

definition schedule_to :: "date \<Rightarrow> make_schedule \<Rightarrow> make_schedule" where
  "schedule_to d b = b\<lparr>mk_termination_date := d\<rparr>"

definition with_tenor :: "period \<Rightarrow> make_schedule \<Rightarrow> make_schedule" where
  "with_tenor p b = b\<lparr>mk_tenor := Some p\<rparr>"

definition with_calendar :: "calendar \<Rightarrow> make_schedule \<Rightarrow> make_schedule" where
  "with_calendar c b = b\<lparr>mk_calendar := Some c\<rparr>"

definition with_convention :: "business_day_convention \<Rightarrow> make_schedule \<Rightarrow> make_schedule" where
  "with_convention c b = b\<lparr>mk_convention := Some c\<rparr>"

definition with_termination_date_convention :: "business_day_convention \<Rightarrow> make_schedule \<Rightarrow> make_schedule" where
  "with_termination_date_convention c b = b\<lparr>mk_termination_convention := Some c\<rparr>"

definition with_rule :: "date_generation \<Rightarrow> make_schedule \<Rightarrow> make_schedule" where
  "with_rule r b = b\<lparr>mk_rule := r\<rparr>"

definition forwards :: "make_schedule \<Rightarrow> make_schedule" where
  "forwards b = with_rule Forward b"

definition backwards :: "make_schedule \<Rightarrow> make_schedule" where
  "backwards b = with_rule Backward b"

definition with_end_of_month :: "bool \<Rightarrow> make_schedule \<Rightarrow> make_schedule" where
  "with_end_of_month flag b = b\<lparr>mk_end_of_month := flag\<rparr>"

definition with_first_date :: "date \<Rightarrow> make_schedule \<Rightarrow> make_schedule" where
  "with_first_date d b = b\<lparr>mk_first_date := d\<rparr>"

definition with_next_to_last_date :: "date \<Rightarrow> make_schedule \<Rightarrow> make_schedule" where
  "with_next_to_last_date d b = b\<lparr>mk_next_to_last_date := d\<rparr>"

definition with_frequency :: "frequency \<Rightarrow> make_schedule \<Rightarrow> make_schedule option" where
  "with_frequency f b =
     (case period_try_from f of Inl e \<Rightarrow> None | Inr p \<Rightarrow> Some (b\<lparr>mk_tenor := Some p\<rparr>))"

definition make_schedule_build :: "make_schedule \<Rightarrow> schedule option" where
  "make_schedule_build b = do {
     assert_that (mk_effective_date b \<noteq> date_null);
     assert_that (mk_termination_date b \<noteq> date_null);
     tenor \<leftarrow> mk_tenor b;
     let conv = (case mk_convention b of Some c \<Rightarrow> c
                 | None \<Rightarrow> if mk_calendar b \<noteq> None then Following else Unadjusted);
     let tconv = (case mk_termination_convention b of Some c \<Rightarrow> c | None \<Rightarrow> conv);
     let cal = (case mk_calendar b of Some c \<Rightarrow> c | None \<Rightarrow> nullcalendar_new);
     schedule_new (mk_effective_date b) (mk_termination_date b) tenor cal conv tconv
       (mk_rule b) (mk_end_of_month b) (mk_first_date b) (mk_next_to_last_date b)
   }"

end
