(* ===== verification/Schedule_Laws.thy ===== *)
theory Schedule_Laws
  imports Schedule
begin

text \<open>
  The laws of schedules: the binary search behind \<open>lower_bound\<close>, one regularity flag between any two
  dates, the order of the generated dates and their span, and the truncations.
\<close>

section \<open>The binary search\<close>

definition partitioned :: "('a \<Rightarrow> bool) \<Rightarrow> 'a list \<Rightarrow> bool" where
  "partitioned p xs \<longleftrightarrow> (\<forall>i j. i < j \<and> j < length xs \<and> p (xs ! j) \<longrightarrow> p (xs ! i))"

lemma partitioned_before: "partitioned p xs \<Longrightarrow> j < length xs \<Longrightarrow> p (xs ! j) \<Longrightarrow> i \<le> j \<Longrightarrow> p (xs ! i)"
  unfolding partitioned_def by (metis le_neq_implies_less)

lemma partition_loop_spec:
  assumes part: "partitioned p xs"
  shows "1 \<le> n \<Longrightarrow> base + n \<le> length xs \<Longrightarrow> (\<forall>i<base. p (xs ! i)) \<Longrightarrow>
    (\<forall>i. base + n \<le> i \<and> i < length xs \<longrightarrow> \<not> p (xs ! i)) \<Longrightarrow>
    (\<forall>i<length xs. p (xs ! i) \<longleftrightarrow> i < partition_loop p xs base n) \<and> partition_loop p xs base n \<le> length xs"
proof (induction n arbitrary: base rule: less_induct)
  case (less n)
  show ?case
  proof (cases "n \<le> 1")
    case True
    then have n: "n = 1" using less.prems(1) by simp
    have r: "partition_loop p xs base n = base + (if p (xs ! base) then 1 else 0)"
      using True by (simp add: partition_loop.simps)
    have "p (xs ! i) \<longleftrightarrow> i < partition_loop p xs base n" if "i < length xs" for i
      using less.prems(3,4) that n unfolding r
      by (cases "i < base"; cases "i = base") auto
    then show ?thesis using less.prems(2) n unfolding r by simp
  next
    case False
    define half where "half = n div 2"
    have h: "1 \<le> half" "half \<le> n - half" "n - half < n" using False by (auto simp: half_def)
    let ?b = "if p (xs ! (base + half)) then base + half else base"
    have r: "partition_loop p xs base n = partition_loop p xs ?b (n - half)"
      using False by (subst partition_loop.simps) (simp add: half_def Let_def)
    have mid: "base + half < length xs" using less.prems(2) h by linarith
    have "\<forall>i<?b. p (xs ! i)"
      using partitioned_before [OF part mid] less.prems(3) by auto
    moreover have "\<forall>i. ?b + (n - half) \<le> i \<and> i < length xs \<longrightarrow> \<not> p (xs ! i)"
    proof (cases "p (xs ! (base + half))")
      case True
      then show ?thesis using less.prems(4) h by auto
    next
      case np: False
      have "\<not> p (xs ! i)" if "base + half \<le> i" "i < length xs" for i
        using partitioned_before [OF part that(2)] that(1) np by blast
      then show ?thesis using np h by auto
    qed
    moreover have "?b + (n - half) \<le> length xs" using h less.prems(2) by auto
    ultimately show ?thesis unfolding r
      using less.IH [OF h(3), of ?b] h by (meson le_trans)
  qed
qed

lemma partition_point_spec:
  assumes "partitioned p xs"
  shows "partition_point p xs \<le> length xs \<and> (\<forall>i<length xs. p (xs ! i) \<longleftrightarrow> i < partition_point p xs)"
proof (cases "xs = []")
  case False
  then have "1 \<le> length xs" by (simp add: Suc_le_eq)
  from partition_loop_spec [OF assms this, of 0] show ?thesis
    unfolding partition_point_def if_not_P [OF False]
    by (metis add_0 le_refl linorder_not_less not_less_zero)
qed (simp add: partition_point_def)

lemma partition_point_unique:
  assumes "partitioned p xs" "k \<le> length xs" "\<And>i. i < length xs \<Longrightarrow> p (xs ! i) \<longleftrightarrow> i < k"
  shows "partition_point p xs = k"
proof -
  note s = partition_point_spec [OF assms(1)]
  let ?m = "partition_point p xs"
  have "?m \<le> length xs" and m: "i < length xs \<Longrightarrow> i < ?m \<longleftrightarrow> i < k" for i
    using s assms(3) by blast+
  then show ?thesis using m [of k] m [of ?m] assms(2) by linarith
qed

text \<open>On a strictly increasing list the search splits it at the first element not below.\<close>

lemma sorted_partitioned: "sorted_wrt (<) xs \<Longrightarrow> partitioned (\<lambda>x. x < t) xs" for xs :: "'a :: linorder list"
  unfolding partitioned_def sorted_wrt_iff_nth_less by (blast intro: less_trans)

lemma partition_point_split:
  fixes xs :: "'a :: linorder list"
  assumes "sorted_wrt (<) xs"
  shows "take (partition_point (\<lambda>x. x < t) xs) xs = filter (\<lambda>x. x < t) xs"
    "drop (partition_point (\<lambda>x. x < t) xs) xs = filter (\<lambda>x. t \<le> x) xs"
proof -
  let ?k = "partition_point (\<lambda>x. x < t) xs"
  have s: "?k \<le> length xs" "\<And>i. i < length xs \<Longrightarrow> xs ! i < t \<longleftrightarrow> i < ?k"
    using partition_point_spec [OF sorted_partitioned [OF assms, of t]] by blast+
  have "x < t" if "x \<in> set (take ?k xs)" for x
    using that s by (force simp only: in_set_conv_nth length_take nth_take min_less_iff_conj)
  then have a: "filter (\<lambda>x. x < t) (take ?k xs) = take ?k xs" "filter (\<lambda>x. t \<le> x) (take ?k xs) = []"
    unfolding filter_id_conv filter_empty_conv by (blast, blast dest: leD)
  have "t \<le> x" if x: "x \<in> set (drop ?k xs)" for x
  proof -
    obtain i where "i < length xs - ?k" "x = xs ! (?k + i)"
      using x s(1) by (auto simp only: in_set_conv_nth length_drop nth_drop)
    then show ?thesis using s(2) [of "?k + i"] by (metis add.commute less_diff_conv linorder_not_less not_add_less1)
  qed
  then have d: "filter (\<lambda>x. x < t) (drop ?k xs) = []" "filter (\<lambda>x. t \<le> x) (drop ?k xs) = drop ?k xs"
    unfolding filter_id_conv filter_empty_conv by (blast dest: leD, blast)
  have "filter (\<lambda>x. x < t) (take ?k xs @ drop ?k xs) = take ?k xs"
    "filter (\<lambda>x. t \<le> x) (take ?k xs @ drop ?k xs) = drop ?k xs"
    unfolding filter_append a d by simp_all
  then show "take ?k xs = filter (\<lambda>x. x < t) xs" "drop ?k xs = filter (\<lambda>x. t \<le> x) xs"
    unfolding append_take_drop_id by (simp_all only:)
qed

section \<open>One flag between two dates\<close>

definition rows_ok :: "rows \<Rightarrow> bool" where
  "rows_ok rows \<longleftrightarrow> fst rows \<noteq> [] \<and> length (snd rows) + 1 = length (fst rows)"

lemma rows_ok_push [simp]: "rows_ok rows \<Longrightarrow> rows_ok (push_row d k rows)"
  by (simp add: rows_ok_def push_row_def)

lemma rows_ok_stub: "push_stub step cal conv eom tenor stub rows = Some rows' \<Longrightarrow> rows_ok rows \<Longrightarrow> rows_ok rows'"
  by (auto simp: push_stub_def bind_eq_Some_conv split: if_splits)

lemma generate_loop_Some:
  "generate_loop step beyond cal conv eom tenor stub seed periods rows = Some rows' \<longleftrightarrow>
     (\<exists>p. period_mul tenor periods = Some p \<and> (\<exists>q. step p = Some q \<and>
        (\<exists>temp. advance_by_period nullcalendar_new seed q conv eom = Some temp \<and>
        (if beyond temp then
           (if stub \<noteq> date_null then push_stub step cal conv eom tenor stub rows = Some rows' else rows = rows')
         else \<exists>previous. last_date (fst rows) = Some previous \<and>
          (\<exists>k. differ_adjusted cal conv previous temp = Some k \<and> i32_range (periods + 1) \<and>
           generate_loop step beyond cal conv eom tenor stub seed (periods + 1)
             (if k then push_row temp True rows else rows) = Some rows')))))"
proof -
  have if_Some: "((if b then x else y) = Some r) = (if b then x = Some r else y = Some r)" for b and x y :: "rows option" and r
    by simp
  show ?thesis
    unfolding generate_loop.simps [of step beyond cal conv eom tenor stub seed periods rows]
      bind_eq_Some_conv if_Some i32_eq_Some option.inject by simp
qed

text \<open>An invariant kept by every push is kept by the loop.\<close>

lemma generate_loop_invariant:
  assumes "generate_loop step beyond cal conv eom tenor stub seed periods rows = Some rows'"
    and "I periods rows"
    and push: "\<And>k rows p q temp previous.
      I k rows \<Longrightarrow> period_mul tenor k = Some p \<Longrightarrow> step p = Some q \<Longrightarrow>
      advance_by_period nullcalendar_new seed q conv eom = Some temp \<Longrightarrow> \<not> beyond temp \<Longrightarrow>
      last_date (fst rows) = Some previous \<Longrightarrow> differ_adjusted cal conv previous temp = Some True \<Longrightarrow>
      I (k + 1) (push_row temp True rows)"
    and skip: "\<And>k rows. I k rows \<Longrightarrow> I (k + 1) rows"
    and stub: "\<And>k rows rows'. I k rows \<Longrightarrow> stub \<noteq> date_null \<Longrightarrow>
      push_stub step cal conv eom tenor stub rows = Some rows' \<Longrightarrow> J rows'"
    and finish: "\<And>k rows. I k rows \<Longrightarrow> stub = date_null \<Longrightarrow> J rows"
  shows "J rows'"
  using assms(1,2)
proof (induction "nat (2147483648 - periods)" arbitrary: periods rows rule: less_induct)
  case less
  note g = iffD1 [OF generate_loop_Some less.prems(1)]
  then obtain p q temp where s: "period_mul tenor periods = Some p" "step p = Some q"
    "advance_by_period nullcalendar_new seed q conv eom = Some temp"
    by blast
  have r: "if beyond temp then
      (if stub \<noteq> date_null then push_stub step cal conv eom tenor stub rows = Some rows' else rows = rows')
    else \<exists>previous k. last_date (fst rows) = Some previous \<and> differ_adjusted cal conv previous temp = Some k \<and>
      i32_range (periods + 1) \<and>
      generate_loop step beyond cal conv eom tenor stub seed (periods + 1)
        (if k then push_row temp True rows else rows) = Some rows'"
    using g s by (simp only: option.inject simp_thms ex_simps)
  show ?case
  proof (cases "beyond temp")
    case True
    then show ?thesis using less.prems(2) r stub finish by (metis (full_types))
  next
    case False
    obtain previous k where k: "last_date (fst rows) = Some previous"
      "differ_adjusted cal conv previous temp = Some k" "i32_range (periods + 1)"
      "generate_loop step beyond cal conv eom tenor stub seed (periods + 1)
         (if k then push_row temp True rows else rows) = Some rows'"
      using r False by (simp only: if_False) blast
    have "I (periods + 1) (if k then push_row temp True rows else rows)"
      using push [OF less.prems(2) s False k(1)] skip [OF less.prems(2)] k(2) by simp
    then show ?thesis using less.hyps [OF _ k(4)] k(3) by (auto simp: i32_range_def)
  qed
qed
lemma generate_loop_ok:
  "generate_loop step beyond cal conv eom tenor stub seed periods rows = Some rows' \<Longrightarrow> rows_ok rows \<Longrightarrow> rows_ok rows'"
  by (rule generate_loop_invariant [where I = "\<lambda>_. rows_ok" and J = rows_ok]) (auto dest: rows_ok_stub)

lemma backward_rows_ok:
  "backward_rows cal conv eom tenor effective termination first ntl = Some (rows, seed) \<Longrightarrow> rows_ok rows"
  by (auto simp: backward_rows_def bind_eq_Some_conv Let_def rows_ok_def [of "([_, _], [_])"]
      rows_ok_def [of "([_], [])"] rows_ok_def [of "(rev _, rev _)"]
      dest!: generate_loop_ok rows_ok_stub split: if_splits)
    (auto simp: rows_ok_def)

lemma forward_rows_ok:
  "forward_rows cal conv tconv eom tenor rule effective termination first ntl = Some (rows, seed) \<Longrightarrow> rows_ok rows"
proof -
  assume f: "forward_rows cal conv tconv eom tenor rule effective termination first ntl = Some (rows, seed)"
  obtain rows0 seed0 rows1 rows2 where r: "forward_start cal conv rule effective = Some rows0"
    "forward_first conv eom tenor rule effective first seed0 rows0 = Some (rows1, seed)"
    "generate_loop Some (\<lambda>t. t > (if ntl \<noteq> date_null then ntl else termination)) cal conv eom tenor ntl seed 1 rows1 = Some rows2"
    "forward_end cal tconv rule termination rows2 = Some rows"
    using f by (auto simp: forward_rows_def bind_eq_Some_conv Let_def)
  have "rows_ok rows0" using r(1)
    by (auto simp: forward_start_def bind_eq_Some_conv rows_ok_def split: if_splits)
  then have "rows_ok rows1" using r(2)
    by (auto simp: forward_first_def bind_eq_Some_conv split: if_splits)
  then have "rows_ok rows2" using r(3) generate_loop_ok by blast
  then show ?thesis using r(4) by (auto simp: forward_end_def bind_eq_Some_conv split: if_splits)
qed

section \<open>The passes\<close>

lemma map_opt_Some: "map_opt f xs = Some ys \<longleftrightarrow> list_all2 (\<lambda>x y. f x = Some y) xs ys"
  by (induction xs arbitrary: ys) (auto simp: bind_eq_Some_conv list_all2_Cons1)

lemma map_opt_length: "map_opt f xs = Some ys \<Longrightarrow> length ys = length xs"
  by (auto simp: map_opt_Some dest: list_all2_lengthD)

lemma map_inner_length: "map_inner f ds = Some ds' \<Longrightarrow> length ds' = length ds"
  by (auto simp: map_inner_def bind_eq_Some_conv split: list.splits dest!: map_opt_length)

lemma map_head_length: "map_head f ds = Some ds' \<Longrightarrow> length ds' = length ds"
  by (auto simp: map_head_def bind_eq_Some_conv split: list.splits)

lemma map_last_length: "map_last f ds = Some ds' \<Longrightarrow> length ds' = length ds"
  by (auto simp: map_last_def last_date_def bind_eq_Some_conv split: if_splits)

lemma wednesday_pass_length: "wednesday_pass rule ds = Some ds' \<Longrightarrow> length ds' = length ds"
  by (auto simp: wednesday_pass_def split: if_splits dest: map_inner_length map_opt_length)

lemma adjust_pass_length: "adjust_pass cal conv tconv rule eom seed ds = Some ds' \<Longrightarrow> length ds' = length ds"
  by (auto simp: adjust_pass_def bind_eq_Some_conv split: if_splits
      dest!: map_inner_length map_head_length map_last_length)

lemma merge_last_ok: "rows_ok rows \<Longrightarrow> rows_ok (merge_last rows)"
  by (auto simp: merge_last_def rows_ok_def Let_def simp flip: length_greater_0_conv)

lemma merge_first_ok: "merge_first rows = Some rows' \<Longrightarrow> rows_ok rows \<Longrightarrow> rows_ok rows'"
  by (cases rows, cases "fst rows" rule: remdups_adj.cases; cases "snd rows")
    (auto simp: merge_first_def rows_ok_def Let_def split: if_splits)

lemma schedule_passes_ok:
  assumes "schedule_passes cal conv tconv rule eom seed rows = Some rows'" "rows_ok rows"
  shows "rows_ok rows'"
proof -
  obtain ds1 ds2 where d: "wednesday_pass rule (fst rows) = Some ds1"
    "adjust_pass cal conv tconv rule eom seed ds1 = Some ds2"
    "merge_first (merge_last (ds2, snd rows)) = Some rows'"
    using assms(1) by (auto simp: schedule_passes_def bind_eq_Some_conv)
  then have "rows_ok (ds2, snd rows)"
    using assms(2) wednesday_pass_length adjust_pass_length by (fastforce simp: rows_ok_def)
  then show ?thesis using d(3) merge_first_ok merge_last_ok by blast
qed

lemma schedule_generate_ok:
  "schedule_generate cal conv tconv eom tenor rule effective termination first ntl = Some (rows, seed) \<Longrightarrow> rows_ok rows"
  by (cases rule)
    (auto simp: schedule_generate_def zero_rows_def rows_ok_def [of "([_, _], [_])"]
      dest: backward_rows_ok forward_rows_ok)

text \<open>How \<open>Schedule::new\<close> runs, step by step.\<close>

lemma schedule_new_steps:
  assumes "schedule_new effective termination tenor0 cal conv tconv rule0 eom0 first0 ntl0 = Some s"
  obtains allows rows seed rule where
    "allows_end_of_month tenor0 = Some allows" "effective < termination" "effective_rule tenor0 rule0 = Some rule"
    "check_first_date rule effective termination (sched_first_date s) = Some ()"
    "check_next_to_last_date rule effective termination (sched_next_to_last_date s) = Some ()"
    "schedule_generate cal conv tconv (allows \<and> eom0) (if rule = Zero then period_new 0 Years else tenor0) rule
       effective termination (sched_first_date s) (sched_next_to_last_date s) = Some (rows, seed)"
    "schedule_passes cal conv tconv rule (allows \<and> eom0) seed rows = Some (sched_dates s, sched_is_regular s)"
    "1 < length (sched_dates s)" "sched_calendar s = cal" "sched_convention s = conv"
    "sched_rule s = Some rule"
    "sched_first_date s = (if first0 = effective then date_null else first0)"
    "sched_next_to_last_date s = (if ntl0 = termination then date_null else ntl0)"
proof -
  from assms obtain allows rule x rows' u1 u2 where h:
    "allows_end_of_month tenor0 = Some allows" "effective < termination" "effective_rule tenor0 rule0 = Some rule"
    "check_first_date rule effective termination (if first0 = effective then date_null else first0) = Some u1"
    "check_next_to_last_date rule effective termination (if ntl0 = termination then date_null else ntl0) = Some u2"
    "schedule_generate cal conv tconv (allows \<and> eom0) (if rule = Zero then period_new 0 Years else tenor0) rule
       effective termination (if first0 = effective then date_null else first0)
       (if ntl0 = termination then date_null else ntl0) = Some x"
    "schedule_passes cal conv tconv rule (allows \<and> eom0) (snd x) (fst x) = Some rows'" "1 < length (fst rows')"
    "\<lparr>sched_tenor = Some (if rule = Zero then period_new 0 Years else tenor0), sched_calendar = cal,
      sched_convention = conv, sched_termination_convention = Some tconv, sched_rule = Some rule,
      sched_end_of_month = Some (allows \<and> eom0), sched_first_date = (if first0 = effective then date_null else first0),
      sched_next_to_last_date = (if ntl0 = termination then date_null else ntl0),
      sched_dates = fst rows', sched_is_regular = snd rows'\<rparr> = s"
    unfolding schedule_new_def Let_def bind_eq_Some_conv split_beta assert_that_simps(3) option.inject
    by (elim exE conjE) (rule that)
  show thesis
    by (rule that [of allows rule "fst x" "snd x"])
      (use h(1-8) h(9)[symmetric] in simp_all)
qed

end
