(* ===== verification/Schedule_Order.thy ===== *)
theory Schedule_Order
  imports Schedule_Laws
begin

text \<open>
  The order of a generated schedule. When the convention keeps the order of dates, the dates that
  \<open>Schedule::new\<close> generates forwards or backwards come out strictly increasing, from the adjusted
  effective date to the adjusted termination date.
\<close>

section \<open>Stepping over the null calendar\<close>

lemma null_well_formed: "well_formed nullcalendar_new"
  unfolding nullcalendar_new_def by (rule nullcalendar.fresh_well_formed)

lemma null_open: "is_business_day nullcalendar_new d = Some True"
  by (simp add: is_business_day_def nullcalendar_new_def calendar_from_impl_def nullcalendar_impl_def
      nullcalendar_is_business_day_def)

lemma null_adjust: "valid_date d \<Longrightarrow> adjust nullcalendar_new d c = Some d"
  by (rule adjust_fixed [OF null_well_formed _ null_open])

lemma card_dates: "int (card {x :: date. a < x \<and> x \<le> b}) = max 0 (serial_number b - serial_number a)"
proof -
  have "{x. a < x \<and> x \<le> b} = Date ` {serial_number a<..serial_number b}"
    by (force simp: less_date_def less_eq_date_def image_iff)
  moreover have "inj Date" by (simp add: inj_def)
  ultimately show ?thesis by (simp add: card_image inj_on_subset)
qed

lemma card_dates_down: "int (card {x :: date. a \<le> x \<and> x < b}) = max 0 (serial_number b - serial_number a)"
proof -
  have "{x. a \<le> x \<and> x < b} = Date ` {serial_number a..<serial_number b}"
    by (force simp: less_date_def less_eq_date_def image_iff)
  moreover have "inj Date" by (simp add: inj_def)
  ultimately show ?thesis by (simp add: card_image inj_on_subset)
qed

lemma null_advance_days:
  assumes "valid_date d" "n \<noteq> 0"
  shows "advance nullcalendar_new d n Days c eom = date_add d n"
proof -
  have "advance nullcalendar_new d n Days c eom = Some e \<longleftrightarrow> date_add d n = Some e" for e
  proof (cases "0 < n")
    case True
    show ?thesis
      unfolding advance_days_iff [OF null_well_formed assms(1) True] date_add_Some [OF assms(1)]
      using True card_dates [of d e] by (auto simp: null_open less_date_def date.expand)
  next
    case False
    then have n: "n < 0" using assms(2) by simp
    show ?thesis
      unfolding advance_days_back_iff [OF null_well_formed assms(1) n] date_add_Some [OF assms(1)]
      using n card_dates_down [of e d] by (auto simp: null_open less_date_def date.expand)
  qed
  then show ?thesis by (metis option.exhaust)
qed

lemma null_advance:
  assumes "valid_date d" "period_length p \<noteq> 0"
  shows "advance_by_period nullcalendar_new d p c False = date_plus d p"
proof (cases "period_units p = Days")
  case True
  then show ?thesis using null_advance_days [OF assms]
    by (simp add: advance_by_period_def date_plus_def)
next
  case False
  have "date_plus d p \<bind> (\<lambda>d1. adjust nullcalendar_new d1 c) = date_plus d p"
    using null_adjust date_plus_valid by (cases "date_plus d p") fastforce+
  moreover have w: "period_units p = u \<Longrightarrow> date_plus d (period_new (period_length p) u) = date_plus d p" for u
    by (simp add: date_plus_def del: date_advance.simps)
  ultimately show ?thesis using False assms valid_not_null [OF assms(1)] not_empty [OF null_well_formed]
    by (simp add: advance_by_period_def advance_def w)
qed

text \<open>One unit, more of it: a later date.\<close>

lemma date_plus_more:
  assumes "valid_date d" "date_plus d p = Some a" "date_plus d q = Some b"
    and "period_units p = period_units q" "period_length p < period_length q"
  shows "a < b"
proof -
  have "period_less p q = Some (Some True)" using assms(4,5) by (auto simp: period_less_def)
  from period_less_dates [OF assms(1-3) this] show ?thesis by simp
qed

lemma date_plus_sign:
  assumes "valid_date d" "date_plus d p = Some a"
  shows "0 < period_length p \<Longrightarrow> d < a" "period_length p < 0 \<Longrightarrow> a < d"
  using date_plus_range [OF assms] date_plus_units [OF assms(2)]
  by (auto simp: period_range.simps Let_def date_diff_def less_date_def period_value_def split: time_unit.splits)

text \<open>The date the loop computes for a counter \<open>k\<close>.\<close>

definition temp_date ::
  "(period \<Rightarrow> period option) \<Rightarrow> business_day_convention \<Rightarrow> period \<Rightarrow> date \<Rightarrow> int \<Rightarrow> date \<Rightarrow> bool" where
  "temp_date step conv tenor seed k t \<longleftrightarrow>
     (\<exists>p q. period_mul tenor k = Some p \<and> step p = Some q \<and>
        advance_by_period nullcalendar_new seed q conv False = Some t)"

lemma temp_date_forward:
  assumes "valid_date seed" "0 < period_length tenor" "1 \<le> k" "temp_date Some conv tenor seed k t"
  shows "date_plus seed (period_new (period_length tenor * k) (period_units tenor)) = Some t"
  using assms null_advance [OF assms(1), of "period_new (period_length tenor * k) (period_units tenor)"]
  by (auto simp: temp_date_def period_mul_def bind_eq_Some_conv)

lemma temp_date_backward:
  assumes "valid_date seed" "0 < period_length tenor" "1 \<le> k" "temp_date period_neg conv tenor seed k t"
  shows "date_plus seed (period_new (- (period_length tenor * k)) (period_units tenor)) = Some t"
  using assms null_advance [OF assms(1), of "period_new (- (period_length tenor * k)) (period_units tenor)"]
  by (auto simp: temp_date_def period_mul_def period_neg_def bind_eq_Some_conv)

lemma temps_rise:
  assumes "valid_date seed" "0 < period_length tenor" "1 \<le> j" "temp_date Some conv tenor seed j t"
  shows "valid_date t \<and> seed < t" "j < k \<Longrightarrow> temp_date Some conv tenor seed k t' \<Longrightarrow> t < t'"
proof -
  note a = temp_date_forward [OF assms]
  have "0 < period_length tenor * j" using assms(2,3) by simp
  then show "valid_date t \<and> seed < t" using date_plus_sign(1) [OF assms(1) a] date_plus_valid [OF a] by simp
  assume k: "j < k" and b: "temp_date Some conv tenor seed k t'"
  have "period_length tenor * j < period_length tenor * k" using assms(2) k by simp
  then show "t < t'"
    using date_plus_more [OF assms(1) a temp_date_forward [OF assms(1,2) _ b]] k assms(3) by simp
qed

lemma temps_fall:
  assumes "valid_date seed" "0 < period_length tenor" "1 \<le> j" "temp_date period_neg conv tenor seed j t"
  shows "valid_date t \<and> t < seed" "j < k \<Longrightarrow> temp_date period_neg conv tenor seed k t' \<Longrightarrow> t' < t"
proof -
  note a = temp_date_backward [OF assms]
  have "0 < period_length tenor * j" using assms(2,3) by simp
  then show "valid_date t \<and> t < seed" using date_plus_sign(2) [OF assms(1) a] date_plus_valid [OF a] by simp
  assume k: "j < k" and b: "temp_date period_neg conv tenor seed k t'"
  have "period_length tenor * j < period_length tenor * k" using assms(2) k by simp
  then show "t' < t"
    using date_plus_more [OF assms(1) temp_date_backward [OF assms(1,2) _ b] a] k assms(3) by simp
qed
section \<open>Conventions that keep the order\<close>

text \<open>A convention keeps the order of the dates up to a bound when it never takes a later date to an
  earlier one. \<open>Unadjusted\<close>, \<open>Following\<close> and \<open>Preceding\<close> do in every well-formed calendar, and
  \<open>ModifiedFollowing\<close> in a market that opens often enough.\<close>

definition order_preserving :: "calendar \<Rightarrow> business_day_convention \<Rightarrow> date \<Rightarrow> bool" where
  "order_preserving cal conv hi \<longleftrightarrow>
     (\<forall>x y u v. valid_date x \<and> valid_date y \<and> x \<le> y \<and> y \<le> hi \<and>
        adjust cal x conv = Some u \<and> adjust cal y conv = Some v \<longrightarrow> u \<le> v)"

lemma order_preserving_simple:
  assumes "well_formed cal" "conv = Unadjusted \<or> conv = Following \<or> conv = Preceding"
  shows "order_preserving cal conv hi"
  unfolding order_preserving_def
proof (intro allI impI, elim conjE)
  fix x y u v
  assume h: "valid_date x" "valid_date y" "x \<le> y"
    and a: "adjust cal x conv = Some u" "adjust cal y conv = Some v"
  show "u \<le> v" using assms(2)
  proof (elim disjE)
    assume "conv = Unadjusted"
    then show ?thesis using a h adjust_Unadjusted [OF h(1)] adjust_Unadjusted [OF h(2)] by simp
  next
    assume "conv = Following"
    then show ?thesis using adjust_Following_mono [OF assms(1) h] a by blast
  next
    assume "conv = Preceding"
    then show ?thesis using adjust_Preceding_mono [OF assms(1) h] a by blast
  qed
qed

lemma order_preserving_live:
  assumes "live_market i gap" "valid_date (shift_date hi gap)"
  shows "order_preserving (calendar_from_impl i) ModifiedFollowing hi"
  unfolding order_preserving_def
proof (intro allI impI, elim conjE)
  fix x y u v
  assume h: "valid_date x" "valid_date y" "x \<le> y" "y \<le> hi"
    and a: "adjust (calendar_from_impl i) x ModifiedFollowing = Some u"
      "adjust (calendar_from_impl i) y ModifiedFollowing = Some v"
  have "0 \<le> gap" using assms(1) by (simp add: live_market_def live_market_axioms_def)
  then have "valid_date (shift_date y gap)"
    using h(2,4) assms(2) by (auto simp: valid_date_iff less_eq_date_def)
  then show "u \<le> v" using live_market.modified_following_mono [OF assms(1) h(1-3) a] by blast
qed

section \<open>Runs of dates\<close>

text \<open>\<open>run_ok lt cal conv hi n h e ds\<close>: the dates pushed so far, in the direction \<open>lt\<close>, start with \<open>h\<close> and
  do not pass \<open>e\<close>; all but the first \<open>n\<close> of them adjust to strictly progressing days.\<close>

definition adjusts_apart :: "(date \<Rightarrow> date \<Rightarrow> bool) \<Rightarrow> calendar \<Rightarrow> business_day_convention \<Rightarrow> date \<Rightarrow> date \<Rightarrow> bool" where
  "adjusts_apart lt cal conv x y \<longleftrightarrow>
     (\<exists>u v. adjust cal x conv = Some u \<and> adjust cal y conv = Some v \<and> lt u v)"

definition run_ok ::
  "(date \<Rightarrow> date \<Rightarrow> bool) \<Rightarrow> calendar \<Rightarrow> business_day_convention \<Rightarrow> date \<Rightarrow> nat \<Rightarrow> date \<Rightarrow> date \<Rightarrow> date list \<Rightarrow> bool" where
  "run_ok lt cal conv hi n h e ds \<longleftrightarrow>
     n < length ds \<and> hd ds = h \<and> sorted_wrt lt ds \<and> sorted_wrt (adjusts_apart lt cal conv) (drop n ds) \<and>
     (\<forall>x\<in>set ds. valid_date x \<and> x \<le> hi \<and> (x = e \<or> lt x e))"

lemma sorted_wrt_snoc:
  assumes "transp r" "sorted_wrt r xs" "xs \<noteq> [] \<Longrightarrow> r (last xs) y"
  shows "sorted_wrt r (xs @ [y])"
proof -
  have "r x y" if "x \<in> set xs" for x
  proof (cases "x = last xs")
    case False
    have "xs = butlast xs @ [last xs]" using that by (metis append_butlast_last_id empty_iff empty_set)
    moreover from this have "x \<in> set (butlast xs)" using that False
      by (metis insert_iff list.simps(15) rotate1.simps(2) set_rotate1)
    ultimately have "r x (last xs)" using assms(2) by (metis last_in_set list.set_intros(1) sorted_wrt_append)
    then show ?thesis using assms(1,3) that by (metis empty_iff empty_set transpD)
  next
    case True
    have "xs \<noteq> []" using that by auto
    then show ?thesis using True assms(3) by simp
  qed
  then show ?thesis using assms(2) by (simp add: sorted_wrt_append)
qed

text \<open>The two directions.\<close>

definition direction :: "(date \<Rightarrow> date \<Rightarrow> bool) \<Rightarrow> bool" where
  "direction lt \<longleftrightarrow> lt = (<) \<or> lt = (>)"

lemma direction_transp: "direction lt \<Longrightarrow> transp lt \<and> (\<forall>x y. lt x y \<or> x = y \<or> lt y x) \<and> (\<forall>x. \<not> lt x x)"
  by (auto simp: direction_def transp_def)

lemma adjusts_apart_transp: "direction lt \<Longrightarrow> transp (adjusts_apart lt cal conv)"
  using direction_transp unfolding adjusts_apart_def transp_def by (metis option.inject)

lemma direction_preserving:
  assumes "direction lt" "order_preserving cal conv hi" "valid_date x" "valid_date y" "x \<le> hi" "y \<le> hi"
    and "lt x y" "adjust cal x conv = Some u" "adjust cal y conv = Some v"
  shows "u = v \<or> lt u v"
  using assms unfolding direction_def order_preserving_def by (metis order_le_less)

lemma run_push:
  assumes d: "direction lt" and op: "order_preserving cal conv hi"
    and r: "run_ok lt cal conv hi n h e ds"
    and t: "valid_date t" "t \<le> hi" "t = e \<or> lt t e" "lt (last ds) t"
    and k: "differ_adjusted cal conv (last ds) t = Some True"
  shows "run_ok lt cal conv hi n h e (ds @ [t])"
proof -
  have ne: "ds \<noteq> []" "drop n ds \<noteq> []" "last (drop n ds) = last ds"
    using r by (auto simp: run_ok_def)
  obtain u v where uv: "adjust cal (last ds) conv = Some u" "adjust cal t conv = Some v" "u \<noteq> v"
    using k by (auto simp: differ_adjusted_def bind_eq_Some_conv)
  have "valid_date (last ds) \<and> last ds \<le> hi" using r ne by (simp add: run_ok_def)
  then have "adjusts_apart lt cal conv (last ds) t"
    using direction_preserving [OF d op _ t(1) _ t(2,4) uv(1,2)] uv by (auto simp: adjusts_apart_def)
  then have "sorted_wrt (adjusts_apart lt cal conv) (drop n ds @ [t])"
    using r ne by (intro sorted_wrt_snoc adjusts_apart_transp [OF d]) (auto simp: run_ok_def)
  moreover have "sorted_wrt lt (ds @ [t])"
    using r t(4) direction_transp [OF d] by (intro sorted_wrt_snoc) (auto simp: run_ok_def)
  ultimately show ?thesis using r ne t by (auto simp: run_ok_def)
qed

text \<open>A stub date at the end of the run, if it adjusts to another day.\<close>

lemma run_stub:
  assumes d: "direction lt" and op: "order_preserving cal conv hi"
    and r: "run_ok lt cal conv hi n h e ds" and e: "valid_date e" "e \<le> hi"
    and p: "push_stub step cal conv eom tenor e (ds, rs) = Some rows'"
  shows "run_ok lt cal conv hi n h e (fst rows') \<and> adjust cal (last (fst rows')) conv = adjust cal e conv"
proof -
  have ne: "ds \<noteq> []" using r by (auto simp: run_ok_def)
  obtain k where k: "differ_adjusted cal conv (last ds) e = Some k"
    using p ne by (auto simp: push_stub_def last_date_def bind_eq_Some_conv)
  show ?thesis
  proof (cases k)
    case True
    then have "last ds \<noteq> e" using k by (auto simp: differ_adjusted_def bind_eq_Some_conv)
    then have "lt (last ds) e" using r ne by (auto simp: run_ok_def)
    moreover have "fst rows' = ds @ [e]"
      using p k True ne by (auto simp: push_stub_def last_date_def bind_eq_Some_conv push_row_def)
    ultimately show ?thesis using run_push [OF d op r e _ _] k True by auto
  next
    case False
    then show ?thesis using p k ne r
      by (auto simp: push_stub_def last_date_def differ_adjusted_def bind_eq_Some_conv)
  qed
qed
text \<open>The loop keeps the run.\<close>

lemma loop_run:
  assumes d: "direction lt" and op: "order_preserving cal conv hi"
    and g: "generate_loop step beyond cal conv False tenor stub seed 1 rows = Some rows'"
    and r: "run_ok lt cal conv hi n h e (fst rows)" "last (fst rows) = seed"
    and t0: "\<And>k t. 1 \<le> k \<Longrightarrow> temp_date step conv tenor seed k t \<Longrightarrow> valid_date t \<and> lt seed t"
    and t1: "\<And>j k t t'. 1 \<le> j \<Longrightarrow> j < k \<Longrightarrow> temp_date step conv tenor seed j t \<Longrightarrow>
      temp_date step conv tenor seed k t' \<Longrightarrow> lt t t'"
    and b: "\<And>k t. 1 \<le> k \<Longrightarrow> temp_date step conv tenor seed k t \<Longrightarrow> \<not> beyond t \<Longrightarrow> t \<le> hi \<and> (t = e \<or> lt t e)"
    and stub: "stub \<noteq> date_null \<Longrightarrow> stub = e \<and> valid_date e \<and> e \<le> hi"
  shows "run_ok lt cal conv hi n h e (fst rows')"
proof -
  let ?I = "\<lambda>k (rows :: rows). run_ok lt cal conv hi n h e (fst rows) \<and> 1 \<le> k \<and>
    (\<forall>j t. k \<le> j \<and> temp_date step conv tenor seed j t \<longrightarrow> lt (last (fst rows)) t)"
  show ?thesis
  proof (rule generate_loop_invariant [OF g, where I = ?I and J = "\<lambda>rows. run_ok lt cal conv hi n h e (fst rows)"])
    show "?I 1 rows" using r t0 by auto
  next
    fix k rows p q temp previous
    assume I: "?I k rows" and s: "period_mul tenor k = Some p" "step p = Some q"
      "advance_by_period nullcalendar_new seed q conv False = Some temp" "\<not> beyond temp"
      "last_date (fst rows) = Some previous" "differ_adjusted cal conv previous temp = Some True"
    have t: "temp_date step conv tenor seed k temp" using s by (auto simp: temp_date_def)
    have k: "1 \<le> k" using I by simp
    have l: "previous = last (fst rows)" using s(5) by (auto simp: last_date_def split: if_splits)
    have "lt (last (fst rows)) temp" using I t by blast
    then have "run_ok lt cal conv hi n h e (fst rows @ [temp])"
      using I t0 [OF k t] b [OF k t s(4)] s(6) l by (intro run_push [OF d op]) auto
    moreover have "lt temp t'" if "k + 1 \<le> j" "temp_date step conv tenor seed j t'" for j t'
      using t1 [OF k _ t that(2)] that(1) by simp
    ultimately show "?I (k + 1) (push_row temp True rows)" using k by (auto simp: push_row_def)
  next
    fix k rows
    assume I: "?I k rows"
    show "?I (k + 1) rows"
    proof (intro conjI allI impI)
      fix j t
      assume j: "k + 1 \<le> j \<and> temp_date step conv tenor seed j t"
      then have "k \<le> j" by simp
      then show "lt (last (fst rows)) t" using I j by blast
    qed (use I in auto)
  next
    fix k rows rows'
    assume "?I k rows" "stub \<noteq> date_null" "push_stub step cal conv False tenor stub rows = Some rows'"
    then show "run_ok lt cal conv hi n h e (fst rows')"
      using run_stub [OF d op] stub by (metis prod.collapse)
  qed blast
qed

lemma run_ok_widen:
  assumes "direction lt" "run_ok lt cal conv hi n h e ds" "e = e' \<or> lt e e'"
  shows "run_ok lt cal conv hi n h e' ds"
  using assms direction_transp [OF assms(1)] unfolding run_ok_def by (metis transpD)

lemma run_single: "direction lt \<Longrightarrow> valid_date h \<Longrightarrow> h \<le> hi \<Longrightarrow> h = e \<or> lt h e \<Longrightarrow> run_ok lt cal conv hi 0 h e [h]"
  by (simp add: run_ok_def)

lemma run_pair:
  "direction lt \<Longrightarrow> valid_date h \<Longrightarrow> h \<le> hi \<Longrightarrow> valid_date b \<Longrightarrow> b \<le> hi \<Longrightarrow> lt h b \<Longrightarrow> b = e \<or> lt b e \<Longrightarrow>
     run_ok lt cal conv hi 1 h e [h, b]"
  using direction_transp [of lt] by (auto simp: run_ok_def transp_def)

text \<open>Backward generation runs down from the termination date to the effective date.\<close>

lemma backward_run:
  assumes g: "backward_rows cal conv False tenor effective termination first ntl = Some (rows, seed)"
    and op: "order_preserving cal conv termination"
    and v: "valid_date effective" "valid_date termination" "effective < termination" "0 < period_length tenor"
    and f: "first \<noteq> date_null \<Longrightarrow> valid_date first \<and> effective < first \<and> first \<le> termination"
    and l: "ntl \<noteq> date_null \<Longrightarrow> valid_date ntl \<and> effective \<le> ntl \<and> ntl < termination"
    and fl: "first \<noteq> date_null \<Longrightarrow> ntl \<noteq> date_null \<Longrightarrow> first \<le> ntl"
  shows "\<exists>n\<le>1. run_ok (>) cal conv termination n termination effective (rev (fst rows)) \<and>
    adjust cal (hd (fst rows)) conv = adjust cal effective conv"
proof -
  have d: "direction (>)" by (simp add: direction_def)
  define e where "e = (if first \<noteq> date_null then first else effective)"
  define sd where "sd = (if ntl \<noteq> date_null then ntl else termination)"
  define n :: nat where "n = (if ntl \<noteq> date_null then 1 else 0)"
  obtain rows0 rows1 rows2 where s: "fst rows0 = (if ntl \<noteq> date_null then [termination, ntl] else [termination])"
    "generate_loop period_neg (\<lambda>t. t < e) cal conv False tenor first sd 1 rows0 = Some rows1"
    "push_stub period_neg cal conv False tenor effective rows1 = Some rows2" "fst rows = rev (fst rows2)"
    using g by (auto simp: backward_rows_def bind_eq_Some_conv Let_def e_def sd_def split: if_splits)
  have e: "valid_date e" "effective \<le> e" "e \<le> sd" "sd \<le> termination" "valid_date sd"
    using v f l fl by (auto simp: e_def sd_def)
  then have e': "sd = e \<or> sd > e" "e = effective \<or> e > effective"
    by (auto simp: order_le_less)
  have start: "run_ok (>) cal conv termination n termination e (fst rows0)" "last (fst rows0) = sd"
    using run_single [OF d v(2)] run_pair [OF d v(2) _ e(5)] l e e' v s(1)
    by (auto simp: n_def sd_def)
  have "run_ok (>) cal conv termination n termination e (fst rows1)"
  proof (rule loop_run [OF d op s(2) start])
    show "valid_date t \<and> sd > t" if "1 \<le> k" "temp_date period_neg conv tenor sd k t" for k t
      using temps_fall(1) [OF e(5) v(4) that] .
    show "t > t'" if "1 \<le> j" "j < k" "temp_date period_neg conv tenor sd j t" "temp_date period_neg conv tenor sd k t'" for j k t t'
      using temps_fall(2) [OF e(5) v(4) that(1,3,2,4)] .
    show "t \<le> termination \<and> (t = e \<or> t > e)" if "1 \<le> k" "temp_date period_neg conv tenor sd k t" "\<not> t < e" for k t
      using temps_fall(1) [OF e(5) v(4) that(1,2)] that(3) e(4) by auto
    show "first = e \<and> valid_date e \<and> e \<le> termination" if "first \<noteq> date_null"
      using that e by (simp add: e_def)
  qed
  then have "run_ok (>) cal conv termination n termination effective (fst rows1)"
    using run_ok_widen [OF d _ e'(2)] by blast
  then have "run_ok (>) cal conv termination n termination effective (fst rows2) \<and>
      adjust cal (last (fst rows2)) conv = adjust cal effective conv"
    using run_stub [OF d op _ v(1)] s(3) v(3) by (metis less_imp_le prod.collapse)
  then show ?thesis using s(4)
    by (intro exI [of _ n]) (auto simp: n_def hd_rev run_ok_def)
qed

text \<open>Forward generation runs up from the effective date to the termination date.\<close>

lemma forward_run:
  assumes g: "forward_rows cal conv conv False tenor Forward effective termination first ntl = Some (rows, seed)"
    and op: "order_preserving cal conv termination"
    and v: "valid_date effective" "valid_date termination" "effective < termination" "0 < period_length tenor"
    and f: "first \<noteq> date_null \<Longrightarrow> valid_date first \<and> effective < first \<and> first \<le> termination"
    and l: "ntl \<noteq> date_null \<Longrightarrow> valid_date ntl \<and> effective \<le> ntl \<and> ntl < termination"
    and fl: "first \<noteq> date_null \<Longrightarrow> ntl \<noteq> date_null \<Longrightarrow> first \<le> ntl"
  shows "\<exists>n\<le>1. run_ok (<) cal conv termination n effective termination (fst rows) \<and>
    adjust cal (last (fst rows)) conv = adjust cal termination conv"
proof -
  have d: "direction (<)" by (simp add: direction_def)
  define e where "e = (if ntl \<noteq> date_null then ntl else termination)"
  define n :: nat where "n = (if first \<noteq> date_null then 1 else 0)"
  obtain rows1 rows2 where s: "fst rows1 = (if first \<noteq> date_null then [effective, first] else [effective])"
    "seed = (if first \<noteq> date_null then first else effective)"
    "generate_loop Some (\<lambda>t. t > e) cal conv False tenor ntl seed 1 rows1 = Some rows2"
    "forward_end cal conv Forward termination rows2 = Some rows"
    using g by (auto simp: forward_rows_def forward_start_def forward_first_def twentieth_rule_def last_date_def
        push_row_def bind_eq_Some_conv Let_def e_def split: if_splits)
  have e: "valid_date e" "e \<le> termination" "seed \<le> e" "effective \<le> seed" "valid_date seed"
    using v f l fl s(2) by (auto simp: e_def)
  then have e': "seed = e \<or> seed < e" "e = termination \<or> e < termination"
    by (auto simp: order_le_less)
  have start: "run_ok (<) cal conv termination n effective e (fst rows1)" "last (fst rows1) = seed"
    using run_single [OF d v(1)] run_pair [OF d v(1) _ e(5)] f e e' v s(1,2)
    by (auto simp: n_def)
  have "run_ok (<) cal conv termination n effective e (fst rows2)"
  proof (rule loop_run [OF d op s(3) start])
    show "valid_date t \<and> seed < t" if "1 \<le> k" "temp_date Some conv tenor seed k t" for k t
      using temps_rise(1) [OF e(5) v(4) that] .
    show "t < t'" if "1 \<le> j" "j < k" "temp_date Some conv tenor seed j t" "temp_date Some conv tenor seed k t'" for j k t t'
      using temps_rise(2) [OF e(5) v(4) that(1,3,2,4)] .
    show "t \<le> termination \<and> (t = e \<or> t < e)" if "\<not> t > e" for t
      using that e(2) by auto
    show "ntl = e \<and> valid_date e \<and> e \<le> termination" if "ntl \<noteq> date_null"
      using that e by (simp add: e_def)
  qed
  then have r: "run_ok (<) cal conv termination n effective termination (fst rows2)"
    using run_ok_widen [OF d _ e'(2)] by blast
  then have ne: "fst rows2 \<noteq> []" by (auto simp: run_ok_def)
  obtain k where k1: "differ_adjusted cal conv (last (fst rows2)) termination = Some k"
    using s(4) ne by (auto simp: forward_end_def last_date_def bind_eq_Some_conv)
  have "fst rows = (if k then fst rows2 @ [termination] else fst rows2)"
    using s(4) ne k1 by (cases k) (auto simp: forward_end_def last_date_def push_row_def twentieth_rule_def)
  note k = k1 this
  have "run_ok (<) cal conv termination n effective termination (fst rows)"
  proof (cases k)
    case True
    then have "last (fst rows2) \<noteq> termination" using k(1) by (auto simp: differ_adjusted_def bind_eq_Some_conv)
    then have "last (fst rows2) < termination" using r ne by (auto simp: run_ok_def)
    then show ?thesis using run_push [OF d op r v(2)] k True by simp
  qed (use r k in simp)
  moreover have "adjust cal (last (fst rows)) conv = adjust cal termination conv"
    using k by (auto simp: differ_adjusted_def bind_eq_Some_conv)
  ultimately show ?thesis by (intro exI [of _ n]) (simp add: n_def)
qed
section \<open>The passes on a run\<close>

lemma map_ends:
  "map_head f (a # m) = do { a' \<leftarrow> f a; Some (a' # m) }"
  "map_last f (a # m @ [b]) = do { b' \<leftarrow> f b; Some (a # m @ [b']) }"
  "map_inner f (a # m @ [b]) = do { m' \<leftarrow> map_opt f m; Some (a # m' @ [b]) }"
    apply (simp add: map_head_def)
   apply (simp add: map_last_def last_date_def)
  apply (cases m; simp add: map_inner_def bind_assoc)
  done

text \<open>With one convention for all dates, and no month-end snapping, the passes adjust every date.\<close>

lemma adjust_pass_map:
  assumes p: "adjust_pass cal conv conv rule False seed ds = Some ds'"
    and rule: "rule = Backward \<or> rule = Forward \<or> rule = Zero" and len: "2 \<le> length ds"
    and v: "\<forall>x\<in>set ds. valid_date x"
  shows "list_all2 (\<lambda>x y. adjust cal x conv = Some y) ds ds'"
proof -
  obtain a m b where ds: "ds = a # m @ [b]"
    using len by (metis (no_types, lifting) One_nat_def Suc_1 Suc_le_length_iff append_Nil append_butlast_last_id list.distinct(1))
  have u: "conv = Unadjusted \<Longrightarrow> adjust cal a conv = Some a \<and> adjust cal b conv = Some b"
    using v ds by (simp add: adjust_Unadjusted)
  obtain a' b' m' where "adjust cal a conv = Some a'" "adjust cal b conv = Some b'"
    "map_opt (\<lambda>d. adjust cal d conv) m = Some m'" "ds' = a' # m' @ [b']"
  proof (cases "conv = Unadjusted")
    case True
    then show ?thesis using p u that unfolding ds
      by (simp add: adjust_pass_def map_ends bind_eq_Some_conv) blast
  next
    case False
    then have "rule \<noteq> OldCDS" "rule \<noteq> CDS" "rule \<noteq> CDS2015" using rule by auto
    then show ?thesis using p False that unfolding ds
      by (auto simp: adjust_pass_def map_ends bind_eq_Some_conv)
  qed
  then show ?thesis unfolding ds by (simp add: map_opt_Some list_all2_appendI)
qed

text \<open>What the merges make of a sorted list whose only equal neighbours are at one end.\<close>

lemma merge_last_snoc:
  "merge_last (xs @ [a, b], rs) = (if b \<le> a then (xs @ [b], butlast (if 2 \<le> length rs then rs[length rs - 2 := (a = b)] else rs))
     else (xs @ [a, b], rs))"
  by (simp add: merge_last_def Let_def nth_append butlast_append list_update_append)

lemma merge_first_Cons:
  "merge_first (a # b # xs, rs) = (if b \<le> a then (if rs = [] then None
       else Some (a # xs, tl (if 2 \<le> length rs then rs[1 := (b = a)] else rs)))
     else Some (a # b # xs, rs))"
  by (simp add: merge_first_def Let_def)

lemma merge_strict:
  assumes m: "merge_first (merge_last (ds, rs)) = Some (ds', rs')" "1 < length ds'"
    and s: "sorted_wrt (\<le>) ds" "sorted_wrt (<) (tl ds) \<or> sorted_wrt (<) (butlast ds)" "2 \<le> length ds"
  shows "sorted_wrt (<) ds' \<and> hd ds' = hd ds \<and> last ds' = last ds \<and> set ds' \<subseteq> set ds"
proof -
  obtain xs a b where ds: "ds = xs @ [a, b]"
    using s(3) by (metis (no_types, opaque_lifting) One_nat_def Suc_1 append.assoc append_Cons append_Nil
        append_butlast_last_id length_append_singleton list.size(3) not_less_eq_eq le0 rev_exhaust nat.simps(3))
  obtain es ts where l: "merge_last (ds, rs) = (es, ts)" by fastforce
  have e: "es = (if b \<le> a then xs @ [b] else ds)"
    using l merge_last_snoc [of xs a b rs] ds by (auto split: if_splits)
  have ab: "b \<le> a \<Longrightarrow> a = b" using s(1) unfolding ds by (auto simp: sorted_wrt_append)
  have E: "sorted_wrt (\<le>) es" "set es \<subseteq> set ds" "last es = last ds"
    using s(1) ab unfolding e ds by (auto simp: sorted_wrt_append)
  have strict: "sorted_wrt (<) (tl es)"
    using s(2) ab unfolding e ds
    by (cases xs) (auto simp: sorted_wrt_append butlast_append)
  show ?thesis
  proof (cases "1 < length es")
    case False
    then have "es = ds'" using m(1) unfolding l by (auto simp: merge_first_def Let_def split: if_splits)
    then show ?thesis using False m(2) by simp
  next
    case True
    then obtain c d ys where es: "es = c # d # ys"
      by (cases es rule: remdups_adj.cases) auto
    have cd: "c \<le> d" using E(1) es by simp
    have ds': "ds' = (if d \<le> c then c # ys else es)"
      using m(1) unfolding l es merge_first_Cons by (auto split: if_splits)
    have hd: "hd ds = c" using es ab unfolding e ds by (cases xs) (auto split: if_splits)
    show ?thesis
      using E strict cd m(2) hd unfolding ds' es
      by (cases ys) (auto simp: order.strict_trans1)
  qed
qed
section \<open>The generated schedule\<close>

lemma all2_sorted:
  assumes "list_all2 (\<lambda>x y. adjust cal x conv = Some y) xs ys"
  shows "order_preserving cal conv hi \<Longrightarrow> sorted_wrt (<) xs \<Longrightarrow> \<forall>x\<in>set xs. valid_date x \<and> x \<le> hi \<Longrightarrow> sorted_wrt (\<le>) ys"
    and "sorted_wrt (adjusts_apart (<) cal conv) xs \<Longrightarrow> sorted_wrt (<) ys"
proof -
  have n: "length ys = length xs" "\<And>i. i < length xs \<Longrightarrow> adjust cal (xs ! i) conv = Some (ys ! i)"
    using assms by (auto simp: list_all2_conv_all_nth)
  show "sorted_wrt (\<le>) ys" if op: "order_preserving cal conv hi" and s: "sorted_wrt (<) xs"
    and v: "\<forall>x\<in>set xs. valid_date x \<and> x \<le> hi"
    unfolding sorted_wrt_iff_nth_less
  proof (intro allI impI)
    fix i j
    assume ij: "i < j" "j < length ys"
    then have x: "xs ! i < xs ! j" "valid_date (xs ! i)" "valid_date (xs ! j)" "xs ! j \<le> hi"
      using s v n(1) by (auto simp: sorted_wrt_iff_nth_less)
    have "adjust cal (xs ! i) conv = Some (ys ! i)" "adjust cal (xs ! j) conv = Some (ys ! j)"
      using n ij by simp_all
    then show "ys ! i \<le> ys ! j"
      using op [unfolded order_preserving_def, rule_format, of "xs ! i" "xs ! j" "ys ! i" "ys ! j"] x by auto
  qed
  show "sorted_wrt (<) ys" if "sorted_wrt (adjusts_apart (<) cal conv) xs"
    using that n by (fastforce simp: sorted_wrt_iff_nth_less adjusts_apart_def)
qed

lemma passes_increasing:
  assumes p: "schedule_passes cal conv conv rule False seed rows = Some (ds', rs')" "1 < length ds'"
    and rule: "rule = Backward \<or> rule = Forward \<or> rule = Zero"
    and op: "order_preserving cal conv hi"
    and s: "sorted_wrt (<) (fst rows)" "\<forall>x\<in>set (fst rows). valid_date x \<and> x \<le> hi"
    and a: "sorted_wrt (adjusts_apart (<) cal conv) (tl (fst rows)) \<or>
      sorted_wrt (adjusts_apart (<) cal conv) (butlast (fst rows))"
  shows "sorted_wrt (<) ds' \<and> adjust cal (hd (fst rows)) conv = Some (hd ds') \<and>
    adjust cal (last (fst rows)) conv = Some (last ds') \<and>
    (\<forall>d\<in>set ds'. \<exists>x\<in>set (fst rows). adjust cal x conv = Some d)"
proof -
  obtain ds2 where d: "adjust_pass cal conv conv rule False seed (fst rows) = Some ds2"
    "merge_first (merge_last (ds2, snd rows)) = Some (ds', rs')"
    using p(1) rule by (auto simp: schedule_passes_def wednesday_pass_def bind_eq_Some_conv)
  have len: "2 \<le> length (fst rows)"
  proof (rule ccontr)
    assume "\<not> 2 \<le> length (fst rows)"
    then have "\<not> 2 \<le> length ds2" using adjust_pass_length [OF d(1)] by simp
    then have "ds' = ds2" using d(2) by (auto simp: merge_last_def merge_first_def Let_def split: if_splits)
    then show False using \<open>\<not> 2 \<le> length ds2\<close> p(2) by simp
  qed
  note m = adjust_pass_map [OF d(1) rule len]
  have all: "list_all2 (\<lambda>x y. adjust cal x conv = Some y) (fst rows) ds2" using m s(2) by blast
  then have tb: "list_all2 (\<lambda>x y. adjust cal x conv = Some y) (tl (fst rows)) (tl ds2)"
    "list_all2 (\<lambda>x y. adjust cal x conv = Some y) (butlast (fst rows)) (butlast ds2)"
    by (auto simp: list_all2_conv_all_nth nth_tl nth_butlast)
  have l2: "2 \<le> length ds2" using len all by (simp add: list_all2_lengthD)
  then have ne: "ds2 \<noteq> []" "fst rows \<noteq> []" "0 < length ds2" using len by auto
  have "sorted_wrt (<) ds' \<and> hd ds' = hd ds2 \<and> last ds' = last ds2 \<and> set ds' \<subseteq> set ds2"
    using merge_strict [OF d(2) p(2) all2_sorted(1) [OF all op s] _ l2] a all2_sorted(2) tb by blast
  moreover have "adjust cal (hd (fst rows)) conv = Some (hd ds2)" "adjust cal (last (fst rows)) conv = Some (last ds2)"
    using all l2 ne hd_conv_nth [of "fst rows"] hd_conv_nth [of ds2] last_conv_nth [of "fst rows"] last_conv_nth [of ds2]
    by (auto simp: list_all2_conv_all_nth)
  moreover have "\<forall>d\<in>set ds2. \<exists>x\<in>set (fst rows). adjust cal x conv = Some d"
    using all by (force simp: list_all2_conv_all_nth set_conv_nth)
  ultimately show ?thesis by (metis subsetD)
qed

lemma run_up:
  assumes "run_ok (<) cal conv hi n h e xs" "n \<le> 1"
  shows "sorted_wrt (<) xs \<and> sorted_wrt (adjusts_apart (<) cal conv) (tl xs) \<and> hd xs = h \<and>
    (\<forall>x\<in>set xs. valid_date x \<and> x \<le> hi \<and> x \<le> e \<and> h \<le> x)"
proof -
  have "sorted_wrt (adjusts_apart (<) cal conv) (tl xs)"
    using assms by (cases xs) (auto simp: run_ok_def le_Suc_eq)
  moreover have "\<forall>x\<in>set xs. h \<le> x"
    using assms(1) by (cases xs) (auto simp: run_ok_def)
  ultimately show ?thesis using assms(1) by (auto simp: run_ok_def)
qed

lemma run_down:
  assumes "run_ok (>) cal conv hi n h e (rev xs)" "n \<le> 1"
  shows "sorted_wrt (<) xs \<and> sorted_wrt (adjusts_apart (<) cal conv) (butlast xs) \<and> last xs = h \<and>
    (\<forall>x\<in>set xs. valid_date x \<and> x \<le> hi \<and> e \<le> x \<and> x \<le> h)"
proof -
  have ne: "xs \<noteq> []" using assms(1) by (auto simp: run_ok_def)
  have flip: "(\<lambda>x y. adjusts_apart (>) cal conv y x) = adjusts_apart (<) cal conv"
    by (auto simp: adjusts_apart_def fun_eq_iff)
  have s: "sorted_wrt (<) xs" using assms(1) by (simp add: run_ok_def sorted_wrt_rev)
  have "drop n (rev xs) = rev (if n = 0 then xs else butlast xs)"
    using assms(2) by (auto simp: drop_Suc le_Suc_eq butlast_rev [of "rev xs", simplified])
  then have "sorted_wrt (adjusts_apart (<) cal conv) (if n = 0 then xs else butlast xs)"
    using assms(1) by (simp add: run_ok_def sorted_wrt_rev flip)
  moreover have "sorted_wrt R (butlast ys)" if "sorted_wrt R ys" for R :: "date \<Rightarrow> date \<Rightarrow> bool" and ys
    using that by (cases ys rule: rev_cases) (auto simp: sorted_wrt_append)
  ultimately have "sorted_wrt (adjusts_apart (<) cal conv) (butlast xs)" by (auto split: if_splits)
  moreover have "last xs = h" using assms(1) ne by (simp add: run_ok_def hd_rev)
  moreover from this have "\<forall>x\<in>set xs. x \<le> h"
    using s by (cases xs rule: rev_cases) (auto simp: sorted_wrt_append)
  ultimately show ?thesis using assms(1) s by (auto simp: run_ok_def)
qed

lemma checked_stubs:
  assumes "check_first_date rule effective termination first = Some ()"
    "check_next_to_last_date rule effective termination ntl = Some ()" "rule = Backward \<or> rule = Forward \<or> rule = Zero"
  shows "first \<noteq> date_null \<Longrightarrow> effective < first \<and> first \<le> termination"
    "ntl \<noteq> date_null \<Longrightarrow> effective \<le> ntl \<and> ntl < termination"
  using assms by (auto simp: check_first_date_def check_next_to_last_date_def split: if_splits)

lemma schedule_increasing:
  assumes n: "schedule_new effective termination tenor cal conv conv rule False first ntl = Some s"
    and rule: "rule = Backward \<or> rule = Forward"
    and op: "order_preserving cal conv termination"
    and v: "valid_date effective" "valid_date termination" "first = date_null \<or> valid_date first"
      "ntl = date_null \<or> valid_date ntl" "first = date_null \<or> ntl = date_null \<or> first \<le> ntl"
  shows "sorted_wrt (<) (sched_dates s) \<and> adjust cal effective conv = Some (hd (sched_dates s)) \<and>
    adjust cal termination conv = Some (last (sched_dates s)) \<and>
    (\<forall>d\<in>set (sched_dates s). \<exists>x. effective \<le> x \<and> x \<le> termination \<and> valid_date x \<and> adjust cal x conv = Some d)"
proof -
  let ?f = "sched_first_date s" and ?l = "sched_next_to_last_date s"
  from n obtain rows seed rule' where s: "effective < termination" "effective_rule tenor rule = Some rule'"
    "check_first_date rule' effective termination ?f = Some ()"
    "check_next_to_last_date rule' effective termination ?l = Some ()"
    "schedule_generate cal conv conv False (if rule' = Zero then period_new 0 Years else tenor) rule'
       effective termination ?f ?l = Some (rows, seed)"
    "schedule_passes cal conv conv rule' False seed rows = Some (sched_dates s, sched_is_regular s)"
    "1 < length (sched_dates s)" "?f = (if first = effective then date_null else first)"
    "?l = (if ntl = termination then date_null else ntl)"
    by (rule schedule_new_steps) simp
  have r: "rule' = Backward \<or> rule' = Forward \<or> rule' = Zero" "rule' \<noteq> Zero \<Longrightarrow> 0 < period_length tenor"
    using s(2) rule by (auto simp: effective_rule_def bind_eq_Some_conv split: if_splits)
  note stubs = checked_stubs [OF s(3,4) r(1)]
  have f: "?f \<noteq> date_null \<Longrightarrow> valid_date ?f \<and> effective < ?f \<and> ?f \<le> termination"
    and l: "?l \<noteq> date_null \<Longrightarrow> valid_date ?l \<and> effective \<le> ?l \<and> ?l < termination"
    and fl: "?f \<noteq> date_null \<Longrightarrow> ?l \<noteq> date_null \<Longrightarrow> ?f \<le> ?l"
    using stubs v(3-5) s(8,9) by (auto split: if_splits)
  have "(\<forall>x\<in>set (fst rows). valid_date x \<and> x \<le> termination \<and> effective \<le> x) \<and> sorted_wrt (<) (fst rows) \<and>
      (sorted_wrt (adjusts_apart (<) cal conv) (tl (fst rows)) \<or> sorted_wrt (adjusts_apart (<) cal conv) (butlast (fst rows))) \<and>
      adjust cal (hd (fst rows)) conv = adjust cal effective conv \<and>
      adjust cal (last (fst rows)) conv = adjust cal termination conv"
    using r(1)
  proof (elim disjE)
    assume b: "rule' = Backward"
    then have g: "backward_rows cal conv False tenor effective termination ?f ?l = Some (rows, seed)"
      using s(5) by (simp add: schedule_generate_def)
    obtain k where k: "k \<le> 1" "run_ok (>) cal conv termination k termination effective (rev (fst rows))"
      "adjust cal (hd (fst rows)) conv = adjust cal effective conv"
      using backward_run [OF g op v(1,2) s(1) r(2) f l fl] b by blast
    show ?thesis using run_down [OF k(2,1)] k(3) by auto
  next
    assume b: "rule' = Forward"
    then have g: "forward_rows cal conv conv False tenor Forward effective termination ?f ?l = Some (rows, seed)"
      using s(5) by (simp add: schedule_generate_def)
    obtain k where k: "k \<le> 1" "run_ok (<) cal conv termination k effective termination (fst rows)"
      "adjust cal (last (fst rows)) conv = adjust cal termination conv"
      using forward_run [OF g op v(1,2) s(1) r(2) f l fl] b by blast
    show ?thesis using run_up [OF k(2,1)] k(3) by auto
  next
    assume "rule' = Zero"
    then show ?thesis using s(1,5) v by (auto simp: schedule_generate_def zero_rows_def)
  qed
  then show ?thesis
    using passes_increasing [OF s(6,7) r(1) op] by (metis (no_types, lifting))
qed

end
