(* ===== verification/Schedule_Cuts.thy ===== *)
theory Schedule_Cuts
  imports Schedule_Laws
begin

text \<open>
  Looking up and truncating a schedule whose dates increase: \<open>lower_bound\<close>, \<open>next_date\<close>,
  \<open>previous_date\<close>, \<open>after\<close> and \<open>until\<close>; and the twentieths of the credit-default-swap rules.
\<close>

section \<open>Look-up\<close>

lemma lower_bound_count:
  assumes "sorted_wrt (<) (sched_dates s)" "t \<noteq> date_null"
  shows "lower_bound s t = Some (length (filter (\<lambda>d. d < t) (sched_dates s)))"
proof -
  let ?ds = "sched_dates s" and ?k = "partition_point (\<lambda>d. d < t) (sched_dates s)"
  have "?k \<le> length ?ds" using partition_point_spec [OF sorted_partitioned [OF assms(1)]] by blast
  then have "length (filter (\<lambda>d. d < t) ?ds) = ?k"
    unfolding partition_point_split(1) [OF assms(1), symmetric] by simp
  then show ?thesis using assms(2) by (simp add: lower_bound_def)
qed

lemma split_sorted:
  fixes t :: "'a :: linorder"
  assumes "sorted_wrt (<) ds"
  shows "ds = filter (\<lambda>d. d < t) ds @ filter (\<lambda>d. t \<le> d) ds"
proof -
  have "ds = take (partition_point (\<lambda>d. d < t) ds) ds @ drop (partition_point (\<lambda>d. d < t) ds) ds" by simp
  then show ?thesis unfolding partition_point_split [OF assms] .
qed

lemma sorted_last:
  fixes x :: "'a :: linorder"
  assumes "sorted_wrt (<) xs" "x \<in> set xs"
  shows "x \<le> last xs"
  using assms by (cases xs rule: rev_cases) (auto simp: sorted_wrt_append)

text \<open>\<open>next_date\<close> is the least date of the schedule not before the given one, \<open>previous_date\<close> the
  greatest one before it.\<close>

lemma next_date_least:
  assumes "sorted_wrt (<) (sched_dates s)" "t \<noteq> date_null"
  shows "next_date s t = Some (case filter (\<lambda>d. t \<le> d) (sched_dates s) of [] \<Rightarrow> None | d # _ \<Rightarrow> Some d)"
proof -
  let ?b = "filter (\<lambda>d. d < t) (sched_dates s)" and ?a = "filter (\<lambda>d. t \<le> d) (sched_dates s)"
  have "sched_dates s = ?b @ ?a" by (rule split_sorted [OF assms(1)])
  then have "schedule_date s (length ?b) = (case ?a of [] \<Rightarrow> None | d # _ \<Rightarrow> Some d)"
    unfolding schedule_date_def by (metis (no_types, lifting) append_Nil2 length_append less_add_same_cancel1
        length_greater_0_conv list.case_eq_if nth_append_length hd_conv_nth list.collapse less_irrefl)
  then show ?thesis by (simp add: next_date_def lower_bound_count [OF assms])
qed

lemma previous_date_greatest:
  assumes "sorted_wrt (<) (sched_dates s)" "t \<noteq> date_null"
  shows "previous_date s t = Some (let b = filter (\<lambda>d. d < t) (sched_dates s) in if b = [] then None else Some (last b))"
proof -
  let ?b = "filter (\<lambda>d. d < t) (sched_dates s)" and ?a = "filter (\<lambda>d. t \<le> d) (sched_dates s)"
  have s: "sched_dates s = ?b @ ?a" by (rule split_sorted [OF assms(1)])
  have "schedule_date s (length ?b - 1) = Some (last ?b)" if ne: "?b \<noteq> []"
  proof -
    have "length ?b - 1 < length ?b" using ne by simp
    then have "length ?b - 1 < length (?b @ ?a)" "(?b @ ?a) ! (length ?b - 1) = last ?b"
      using ne by (simp_all only: length_append nth_append last_conv_nth [OF ne] if_True trans_less_add1)
    then show ?thesis unfolding schedule_date_def s [symmetric] by simp
  qed
  then show ?thesis by (simp add: previous_date_def lower_bound_count [OF assms] Let_def)
qed

section \<open>Truncation\<close>

lemma schedule_after_dates:
  assumes s: "sorted_wrt (<) (sched_dates s)" and ok: "rows_ok (sched_dates s, sched_is_regular s)"
    and t: "t \<noteq> date_null" "hd (sched_dates s) < t" "t < last (sched_dates s)"
  shows "\<exists>s'. schedule_after s t = Some s' \<and>
    sched_dates s' = (if t \<in> set (sched_dates s) then [] else [t]) @ filter (\<lambda>d. t \<le> d) (sched_dates s) \<and>
    rows_ok (sched_dates s', sched_is_regular s')"
proof -
  let ?ds = "sched_dates s" and ?rs = "sched_is_regular s"
  let ?b = "filter (\<lambda>d. d < t) ?ds" and ?a = "filter (\<lambda>d. t \<le> d) ?ds"
  have ne: "?ds \<noteq> []" using ok by (simp add: rows_ok_def)
  have sp: "?ds = ?b @ ?a" by (rule split_sorted [OF s])
  have a: "?a \<noteq> []" using t(3) last_in_set [OF ne] by (force simp: filter_empty_conv)
  have cut: "length ?b + length ?a = length ?ds" using sp by (metis length_append)
  have len: "length ?rs + 1 = length ?ds" using ok by (simp add: rows_ok_def)
  have drop: "drop (length ?b) ?ds = ?a" using sp by (metis append_eq_conv_conj)
  have sa: "sorted_wrt (<) ?a" using s by (simp add: sorted_wrt_filter)
  obtain d rest where da: "?a = d # rest" using a by (cases ?a) auto
  have mem: "t \<in> set ?ds \<longleftrightarrow> t = d"
  proof -
    have "t \<in> set ?ds \<longleftrightarrow> t \<in> set ?a" by simp
    moreover have "t \<le> d" using da by (metis list.set_intros(1) mem_Collect_eq set_filter)
    ultimately show ?thesis using sa unfolding da by auto
  qed
  have h: "schedule_date s 0 = Some (hd ?ds)" using ne by (simp add: schedule_date_def hd_conv_nth)
  have d0: "schedule_date (s\<lparr>sched_dates := drop (length ?b) ?ds\<rparr>) 0 = Some d"
    unfolding drop da by (simp add: schedule_date_def)
  let ?r = "drop (min (length ?b) (length ?rs)) ?rs"
  have "schedule_after s t = Some (s\<lparr>sched_dates := (if t \<noteq> d then t # ?a else ?a),
      sched_is_regular := (if t \<noteq> d then False # ?r else ?r),
      sched_termination_convention := (if t \<noteq> d then Some Unadjusted else Some (sched_convention s)),
      sched_next_to_last_date := (if sched_next_to_last_date s \<le> t then date_null else sched_next_to_last_date s),
      sched_first_date := (if sched_first_date s \<le> t then date_null else sched_first_date s)\<rparr>)"
    using ne t h d0 unfolding schedule_after_def lower_bound_count [OF s t(1)] last_date_def Let_def
      Option.bind_lunit drop
    by (cases "t = d") (simp_all only: if_False if_True not_False_eq_True
        Option.bind_lunit assert_that_simps simp_thms prod.case)
  moreover have "length ?r + length ?b + 1 = length ?ds"
    using len cut a by (cases ?a) auto
  ultimately show ?thesis using mem a cut by (auto simp: rows_ok_def)
qed

lemma pop_after_spec:
  assumes "sorted_wrt (<) ds" "rows_ok (ds, rs)" "hd ds \<le> t"
  shows "\<exists>rs'. pop_after t (ds, rs) = Some (filter (\<lambda>d. d \<le> t) ds, rs') \<and> rows_ok (filter (\<lambda>d. d \<le> t) ds, rs')"
  using assms
proof (induction ds arbitrary: rs rule: rev_induct)
  case Nil
  then show ?case by (simp add: rows_ok_def)
next
  case (snoc x xs)
  have sx: "sorted_wrt (<) xs" "\<And>y. y \<in> set xs \<Longrightarrow> y < x" using snoc.prems(1) by (auto simp: sorted_wrt_append)
  show ?case
  proof (cases "x \<le> t")
    case True
    have "y \<le> t" if "y \<in> set (xs @ [x])" for y
    proof (cases "y = x")
      case False
      then have "y < x" using that sx(2) by auto
      then show ?thesis using True by (rule order_trans [OF less_imp_le])
    qed (simp add: True)
    then have "filter (\<lambda>d. d \<le> t) (xs @ [x]) = xs @ [x]" by (intro filter_True) blast
    moreover have "\<not> t < x" using True by simp
    ultimately show ?thesis using snoc.prems(2)
      by (simp add: pop_after.simps [of t "(xs @ [x], rs)"] last_date_def)
  next
    case False
    then have ne: "xs \<noteq> []" using snoc.prems(3) by (cases xs) auto
    then have rs: "rs \<noteq> []" using snoc.prems(2) by (auto simp: rows_ok_def)
    have "rows_ok (xs, butlast rs)" "hd xs \<le> t" using snoc.prems(2,3) ne by (auto simp: rows_ok_def)
    then obtain rs' where "pop_after t (xs, butlast rs) = Some (filter (\<lambda>d. d \<le> t) xs, rs')"
      "rows_ok (filter (\<lambda>d. d \<le> t) xs, rs')"
      using snoc.IH [OF sx(1)] by blast
    moreover have "pop_after t (xs @ [x], rs) = pop_after t (xs, butlast rs)"
      using False rs by (simp add: pop_after.simps [of t "(xs @ [x], rs)"] last_date_def not_le)
    ultimately show ?thesis using False by auto
  qed
qed

lemma schedule_until_dates:
  assumes s: "sorted_wrt (<) (sched_dates s)" and ok: "rows_ok (sched_dates s, sched_is_regular s)"
    and t: "hd (sched_dates s) < t" "t < last (sched_dates s)"
  shows "\<exists>s'. schedule_until s t = Some s' \<and>
    sched_dates s' = filter (\<lambda>d. d \<le> t) (sched_dates s) @ (if t \<in> set (sched_dates s) then [] else [t]) \<and>
    rows_ok (sched_dates s', sched_is_regular s')"
proof -
  let ?ds = "sched_dates s" and ?rs = "sched_is_regular s" and ?b = "filter (\<lambda>d. d \<le> t) (sched_dates s)"
  have ne: "?ds \<noteq> []" using ok by (simp add: rows_ok_def)
  obtain rs' where p: "pop_after t (?ds, ?rs) = Some (?b, rs')" "rows_ok (?b, rs')"
    using pop_after_spec [OF s ok less_imp_le [OF t(1)]] by blast
  have b: "?b \<noteq> []" using p(2) by (simp add: rows_ok_def)
  have sb: "sorted_wrt (<) ?b" using s by (simp add: sorted_wrt_filter)
  have mem: "t \<in> set ?ds \<longleftrightarrow> t = last ?b"
  proof
    assume "t \<in> set ?ds"
    then have "t \<in> set ?b" by simp
    then have "t \<le> last ?b" using sorted_last [OF sb] by blast
    moreover have "last ?b \<le> t" using last_in_set [OF b] by simp
    ultimately show "t = last ?b" by simp
  next
    assume "t = last ?b"
    then show "t \<in> set ?ds" using last_in_set [OF b] by simp
  qed
  have h: "schedule_date s 0 = Some (hd ?ds)" using ne by (simp add: schedule_date_def hd_conv_nth)
  show ?thesis using ne t h p b mem
    by (auto simp: schedule_until_def last_date_def Let_def push_row_def rows_ok_def)
qed
section \<open>Twentieths\<close>

definition twentieth :: "int \<Rightarrow> date" where
  "twentieth t = Date (month_start t + 20)"

definition main_month :: "date_generation \<Rightarrow> int \<Rightarrow> bool" where
  "main_month rule t \<longleftrightarrow> (rule \<in> {TwentiethIMM, OldCDS, CDS, CDS2015} \<longrightarrow> t mod 3 = 2)"

lemma twentieth_date:
  assumes "first_month \<le> t" "t \<le> last_month"
  shows "date_new 20 (index_month t) (t div 12) = Some (twentieth t)"
    "date_month (twentieth t) = Some (index_month t)" "date_day_of_month (twentieth t) = Some 20"
proof -
  have "month_index (index_month t) (t div 12) = t" by (simp add: month_index_def index_month_ordinal)
  then show n: "date_new 20 (index_month t) (t div 12) = Some (twentieth t)"
    using assms month_days_bounds [of t] by (simp add: date_new_month_start twentieth_def)
  show "date_month (twentieth t) = Some (index_month t)" "date_day_of_month (twentieth t) = Some 20"
    using date_new_inspect [OF n] by simp_all
qed

lemma twentieth_shift:
  assumes "first_month \<le> t" "t \<le> last_month" "date_advance (twentieth t) n Months = Some b"
  shows "first_month \<le> t + n \<and> t + n \<le> last_month \<and> b = twentieth (t + n)"
proof -
  have "month_index (index_month t) (t div 12) = t" by (simp add: month_index_def index_month_ordinal)
  then show ?thesis
    using date_advance_months_Some [OF twentieth_date(1) [OF assms(1,2)] assms(3)] month_days_bounds [of "t + n"]
    by (simp add: twentieth_def date.expand)
qed

lemma twentieth_mono: "first_month \<le> t \<Longrightarrow> t < u \<Longrightarrow> u \<le> last_month \<Longrightarrow> twentieth t < twentieth u"
  using month_start_less(1) [of t u] by (simp add: twentieth_def less_date_def)

lemma twentieth_cases:
  assumes "valid_date x" "date_day_of_month x = Some 20"
  obtains u where "first_month \<le> u" "u \<le> last_month" "x = twentieth u" "date_month x = Some (index_month u)"
proof -
  obtain m y where i: "date_month x = Some m" "date_new 20 m y = Some x"
    using date_inspect [OF assms(1)] assms(2) by (metis option.inject)
  show ?thesis
    by (rule that [of "month_index m y"]) (use i in \<open>auto simp: date_new_month_start twentieth_def\<close>)
qed

lemma ordinal_mod_3: "month_ordinal (index_month t) mod 3 = (t + 1) mod 3"
proof -
  have "t mod 12 mod 3 = t mod 3" by (simp add: mod_mod_cancel)
  then show ?thesis unfolding index_month_ordinal by (metis mod_add_left_eq)
qed

lemma main_month_below:
  fixes s :: int
  shows "(s - (s + 1) mod 3) mod 3 = 2" "u mod 3 = 2 \<Longrightarrow> u \<le> s \<Longrightarrow> u \<le> s - (s + 1) mod 3"
  by presburger+

lemma main_month_above:
  fixes s :: int
  shows "(s + 1) mod 3 \<noteq> 0 \<Longrightarrow> (s + (3 - (s + 1) mod 3)) mod 3 = 2" "(s + 1) mod 3 = 0 \<Longrightarrow> s mod 3 = 2"
    "u mod 3 = 2 \<Longrightarrow> s \<le> u \<Longrightarrow> (s + 1) mod 3 \<noteq> 0 \<Longrightarrow> s + (3 - (s + 1) mod 3) \<le> u"
  by presburger+

lemma twentieth_le_iff:
  assumes "first_month \<le> t" "t \<le> last_month" "first_month \<le> u" "u \<le> last_month"
  shows "twentieth t \<le> twentieth u \<longleftrightarrow> t \<le> u"
  using twentieth_mono [of t u] twentieth_mono [of u t] assms by (cases t u rule: linorder_cases) auto

text \<open>The twentieth of the month of a date, or of the month before: the last one not after it.\<close>

lemma last_twentieth:
  assumes d: "valid_date d" and m: "date_month d = Some m" "date_year d = Some y" "date_new 20 m y = Some r0"
    and r: "(if r0 > d then date_minus r0 (period_new 1 Months) else Some r0) = Some r"
  shows "\<exists>s. first_month \<le> s \<and> s \<le> last_month \<and> r = twentieth s \<and> r \<le> d \<and>
    (\<forall>u. first_month \<le> u \<and> u \<le> last_month \<and> twentieth u \<le> d \<longrightarrow> u \<le> s)"
proof -
  obtain t where t: "first_month \<le> t" "t \<le> last_month" "date_month d = Some (index_month t)"
    "date_year d = Some (t div 12)" "month_start t < serial_number d" "serial_number d \<le> month_start (t + 1)"
    using date_month_index [OF d] .
  have r0: "r0 = twentieth t" using twentieth_date(1) [OF t(1,2)] t(3,4) m by simp
  have up: "d < twentieth u" if "t < u" "u \<le> last_month" for u
    using month_start_mono [of "t + 1" u] that t(1,6) by (simp add: twentieth_def less_date_def)
  show ?thesis
  proof (cases "r0 > d")
    case False
    then show ?thesis using r r0 t(1,2) up by (intro exI [of _ t]) (auto simp: not_less [symmetric])
  next
    case True
    then have "date_advance (twentieth t) (- 1) Months = Some r"
      using r r0 by (auto simp: date_minus_def bind_eq_Some_conv simp del: date_advance.simps)
    from twentieth_shift [OF t(1,2) this]
    have s: "first_month \<le> t - 1" "t - 1 \<le> last_month" "r = twentieth (t - 1)" by auto
    have "month_start (t - 1 + 1) = month_start (t - 1) + month_days (t - 1)"
      by (rule month_start_Suc [OF s(1,2)])
    then have "r \<le> d" using s(3) t(5) month_days_bounds [of "t - 1"]
      by (simp add: twentieth_def less_eq_date_def)
    moreover have "u \<le> t - 1" if "first_month \<le> u" "u \<le> last_month" "twentieth u \<le> d" for u
      using that True r0 twentieth_le_iff [OF t(1,2) that(1,2)] by auto
    ultimately show ?thesis using s by blast
  qed
qed

lemma previous_twentieth_spec:
  assumes d: "valid_date d" and p: "previous_twentieth d rule = Some r"
  shows "\<exists>t. first_month \<le> t \<and> t \<le> last_month \<and> r = twentieth t \<and> main_month rule t \<and> r \<le> d \<and>
    (\<forall>u. first_month \<le> u \<and> u \<le> last_month \<and> main_month rule u \<and> twentieth u \<le> d \<longrightarrow> u \<le> t)"
proof -
  obtain m y r0 r1 where m: "date_month d = Some m" "date_year d = Some y" "date_new 20 m y = Some r0"
    "(if r0 > d then date_minus r0 (period_new 1 Months) else Some r0) = Some r1"
    "(if rule \<in> {TwentiethIMM, OldCDS, CDS, CDS2015} then do {
       m' \<leftarrow> date_month r1;
       let k = month_ordinal m' in
       if k mod 3 \<noteq> 0 then date_minus r1 (period_new (k mod 3) Months) else Some r1
     } else Some r1) = Some r"
    using p unfolding previous_twentieth_def bind_eq_Some_conv by blast
  obtain s where s: "first_month \<le> s" "s \<le> last_month" "r1 = twentieth s" "r1 \<le> d"
    and max: "\<And>u. first_month \<le> u \<Longrightarrow> u \<le> last_month \<Longrightarrow> twentieth u \<le> d \<Longrightarrow> u \<le> s"
    using last_twentieth [OF d m(1-4)] by blast
  show ?thesis
  proof (cases "rule \<in> {TwentiethIMM, OldCDS, CDS, CDS2015}")
    case False
    then have "r = r1" using m(5) by simp
    then show ?thesis using s max False by (intro exI [of _ s]) (simp add: main_month_def)
  next
    case True
    have o: "month_ordinal (index_month s) mod 3 = (s + 1) mod 3" by (rule ordinal_mod_3)
    have "(if (s + 1) mod 3 \<noteq> 0 then date_minus r1 (period_new ((s + 1) mod 3) Months) else Some r1) = Some r"
      using m(5) True s(3) twentieth_date(2) [OF s(1,2)] by (simp only: if_True Option.bind_lunit Let_def o)
    then have "(s + 1) mod 3 \<noteq> 0 \<Longrightarrow> date_advance (twentieth s) (- ((s + 1) mod 3)) Months = Some r"
      "(s + 1) mod 3 = 0 \<Longrightarrow> r = r1"
      using s(3) by (auto simp: date_minus_def bind_eq_Some_conv simp del: date_advance.simps split: if_splits)
    then have r: "first_month \<le> s - (s + 1) mod 3 \<and> s - (s + 1) mod 3 \<le> last_month \<and> r = twentieth (s - (s + 1) mod 3)"
      using twentieth_shift [OF s(1,2), of "- ((s + 1) mod 3)" r] s(1-3)
      by (cases "(s + 1) mod 3 = 0") (simp_all del: date_advance.simps)
    then have "r \<le> r1" using s twentieth_le_iff [of "s - (s + 1) mod 3" s] by simp
    then show ?thesis using r s(4) max main_month_below(1) [of s] main_month_below(2) [where s = s] True
      by (intro exI [of _ "s - (s + 1) mod 3"]) (auto simp: main_month_def)
  qed
qed

text \<open>The mirror image: the first twentieth not before a date.\<close>

lemma first_twentieth:
  assumes d: "valid_date d" and m: "date_month d = Some m" "date_year d = Some y" "date_new 20 m y = Some r0"
    and r: "(if r0 < d then date_plus r0 (period_new 1 Months) else Some r0) = Some r"
  shows "\<exists>s. first_month \<le> s \<and> s \<le> last_month \<and> r = twentieth s \<and> d \<le> r \<and>
    (\<forall>u. first_month \<le> u \<and> u \<le> last_month \<and> d \<le> twentieth u \<longrightarrow> s \<le> u)"
proof -
  obtain t where t: "first_month \<le> t" "t \<le> last_month" "date_month d = Some (index_month t)"
    "date_year d = Some (t div 12)" "month_start t < serial_number d" "serial_number d \<le> month_start (t + 1)"
    using date_month_index [OF d] .
  have r0: "r0 = twentieth t" using twentieth_date(1) [OF t(1,2)] t(3,4) m by simp
  have below: "t \<le> u" if "first_month \<le> u" "u \<le> last_month" "d \<le> twentieth u" for u
  proof (rule ccontr)
    assume "\<not> t \<le> u"
    then have "month_start u + month_days u \<le> month_start t"
      using month_start_mono [of "u + 1" t] month_start_Suc [OF that(1,2)] that t(2) by simp
    then show False using that(3) t(5) month_days_bounds [of u] by (simp add: twentieth_def less_eq_date_def)
  qed
  show ?thesis
  proof (cases "r0 < d")
    case False
    then show ?thesis using r r0 t(1,2) below by (intro exI [of _ t]) auto
  next
    case True
    then have "date_advance (twentieth t) 1 Months = Some r"
      using r r0 by (simp add: date_plus_def del: date_advance.simps)
    from twentieth_shift [OF t(1,2) this]
    have s: "first_month \<le> t + 1" "t + 1 \<le> last_month" "r = twentieth (t + 1)" by auto
    have "d \<le> r" using s(3) t(6) by (simp add: twentieth_def less_eq_date_def)
    moreover have "t + 1 \<le> u" if "first_month \<le> u" "u \<le> last_month" "d \<le> twentieth u" for u
    proof -
      have "u \<noteq> t" using that(3) True r0 by auto
      then show ?thesis using below [OF that] by simp
    qed
    ultimately show ?thesis using s by blast
  qed
qed

lemma next_twentieth_spec:
  assumes d: "valid_date d" and p: "next_twentieth d rule = Some r"
  shows "\<exists>t. first_month \<le> t \<and> t \<le> last_month \<and> r = twentieth t \<and> main_month rule t \<and> d \<le> r \<and>
    (\<forall>u. first_month \<le> u \<and> u \<le> last_month \<and> main_month rule u \<and> d \<le> twentieth u \<longrightarrow> t \<le> u)"
proof -
  obtain m y r0 r1 where m: "date_month d = Some m" "date_year d = Some y" "date_new 20 m y = Some r0"
    "(if r0 < d then date_plus r0 (period_new 1 Months) else Some r0) = Some r1"
    "(if rule \<in> {TwentiethIMM, OldCDS, CDS, CDS2015} then do {
       m' \<leftarrow> date_month r1;
       let k = month_ordinal m' in
       if k mod 3 \<noteq> 0 then date_plus r1 (period_new (3 - k mod 3) Months) else Some r1
     } else Some r1) = Some r"
    using p unfolding next_twentieth_def bind_eq_Some_conv by blast
  obtain s where s: "first_month \<le> s" "s \<le> last_month" "r1 = twentieth s" "d \<le> r1"
    and min: "\<And>u. first_month \<le> u \<Longrightarrow> u \<le> last_month \<Longrightarrow> d \<le> twentieth u \<Longrightarrow> s \<le> u"
    using first_twentieth [OF d m(1-4)] by blast
  have o: "month_ordinal (index_month s) mod 3 = (s + 1) mod 3" by (rule ordinal_mod_3)
  let ?n = "3 - (s + 1) mod 3"
  show ?thesis
  proof (cases "rule \<in> {TwentiethIMM, OldCDS, CDS, CDS2015} \<and> (s + 1) mod 3 \<noteq> 0")
    case False
    have "r = r1"
      using m(5) False s(3) twentieth_date(2) [OF s(1,2)] o by (auto simp: Let_def split: if_splits)
    then show ?thesis using s min False main_month_above(2) [of s]
      by (intro exI [of _ s]) (auto simp: main_month_def)
  next
    case True
    then have "date_advance (twentieth s) ?n Months = Some r"
      using m(5) s(3) twentieth_date(2) [OF s(1,2)] o by (simp add: Let_def date_plus_def del: date_advance.simps)
    from twentieth_shift [OF s(1,2) this]
    have r: "first_month \<le> s + ?n" "s + ?n \<le> last_month" "r = twentieth (s + ?n)" by auto
    have "0 \<le> ?n" by simp
    then have "d \<le> r" using s r twentieth_le_iff [of s "s + ?n"] by (metis le_add_same_cancel1 order_trans)
    then show ?thesis using r min main_month_above(1) [of s] main_month_above(3) [where s = s] True
      by (intro exI [of _ "s + ?n"]) (auto simp: main_month_def)
  qed
qed

end
