(* ===== verification/Schedule_Properties.thy ===== *)
theory Schedule_Properties
  imports Schedule_Order Schedule_Cuts Calendar_Properties
begin

text \<open>
  The properties of schedules, each with the concrete instance that shows its hypotheses can hold,
  and the two behaviours of the code that contradict its documentation.
\<close>

section \<open>A concrete schedule for the instances\<close>

definition weekly_schedule :: "schedule option" where
  "weekly_schedule = schedule_new (Date 45353) (Date 45366) (period_new 1 Weeks) weekendsonly_new Following Following
     Backward False date_null date_null"

lemma weekly_schedule_value:
  "map_option sched_dates weekly_schedule = Some [Date 45355, Date 45359, Date 45366]"
  "map_option sched_is_regular weekly_schedule = Some [False, True]"
  by code_simp+

lemma weekly_schedule_Some:
  obtains s where "schedule_new (Date 45353) (Date 45366) (period_new 1 Weeks) weekendsonly_new Following Following
      Backward False date_null date_null = Some s" "sched_dates s = [Date 45355, Date 45359, Date 45366]"
    "sched_is_regular s = [False, True]"
  using weekly_schedule_value unfolding weekly_schedule_def by auto

section \<open>Generation\<close>

text \<open>C10. Every schedule that \<open>Schedule::new\<close> returns, under any rule, has at least two dates and
  exactly one regularity flag for each period between consecutive dates.\<close>

theorem schedule_has_one_flag_per_period:
  assumes "schedule_new effective termination tenor cal conv tconv rule eom first ntl = Some s"
  shows "2 \<le> length (sched_dates s) \<and> length (sched_is_regular s) + 1 = length (sched_dates s)"
proof -
  from assms obtain allows rows seed rule' where s:
    "schedule_generate cal conv tconv (allows \<and> eom) (if rule' = Zero then period_new 0 Years else tenor) rule'
       effective termination (sched_first_date s) (sched_next_to_last_date s) = Some (rows, seed)"
    "schedule_passes cal conv tconv rule' (allows \<and> eom) seed rows = Some (sched_dates s, sched_is_regular s)"
    "1 < length (sched_dates s)"
    by (rule schedule_new_steps) simp
  show ?thesis using schedule_passes_ok [OF s(2) schedule_generate_ok [OF s(1)]] s(3)
    by (simp add: rows_ok_def)
qed

lemma schedule_has_one_flag_per_period_witness:
  "length (the (map_option sched_is_regular weekly_schedule)) + 1 = length (the (map_option sched_dates weekly_schedule))"
proof -
  obtain s where s: "schedule_new (Date 45353) (Date 45366) (period_new 1 Weeks) weekendsonly_new Following Following
      Backward False date_null date_null = Some s" by (rule weekly_schedule_Some)
  from schedule_has_one_flag_per_period [OF s] s show ?thesis by (simp add: weekly_schedule_def)
qed

text \<open>The end-of-month flag counts only with a tenor that allows it.\<close>

lemma schedule_new_without_flag:
  "\<not> (eom \<and> allows_end_of_month tenor = Some True) \<Longrightarrow>
     schedule_new effective termination tenor cal conv tconv rule eom first ntl =
     schedule_new effective termination tenor cal conv tconv rule False first ntl"
  by (cases "allows_end_of_month tenor") (auto simp: schedule_new_def)

text \<open>C11. Generated backwards or forwards without an end-of-month flag in force (it is not set, or the tenor is not
  one of months or years, from one month up) and under one convention that keeps the order of dates, as \<open>Unadjusted\<close>,
  \<open>Following\<close> and \<open>Preceding\<close> do on every well-formed calendar, a schedule is strictly increasing, runs from the
  adjusted effective date to the adjusted termination date, and holds only adjusted dates of that interval. When both
  stub dates are given, the first must not come after the next-to-last.\<close>

theorem schedule_strictly_increasing:
  assumes "schedule_new effective termination tenor cal conv conv rule eom first ntl = Some s"
    and "\<not> (eom \<and> allows_end_of_month tenor = Some True)"
    and "rule = Backward \<or> rule = Forward"
    and "order_preserving cal conv termination \<or> well_formed cal \<and> conv \<in> {Unadjusted, Following, Preceding}"
    and "valid_date effective" "valid_date termination" "first = date_null \<or> valid_date first"
      "ntl = date_null \<or> valid_date ntl" "first = date_null \<or> ntl = date_null \<or> first \<le> ntl"
  shows "sorted_wrt (<) (sched_dates s) \<and> adjust cal effective conv = Some (hd (sched_dates s)) \<and>
    adjust cal termination conv = Some (last (sched_dates s)) \<and>
    (\<forall>d\<in>set (sched_dates s). \<exists>x. effective \<le> x \<and> x \<le> termination \<and> valid_date x \<and> adjust cal x conv = Some d)"
proof -
  have "order_preserving cal conv termination" using assms(4) order_preserving_simple by blast
  with schedule_increasing [OF assms(1) [unfolded schedule_new_without_flag [OF assms(2)]] assms(3) _ assms(5-9)]
  show ?thesis by blast
qed

lemma schedule_strictly_increasing_witness:
  "adjust weekendsonly_new (Date 45353) Following = Some (Date 45355) \<and>
   sorted_wrt (<) [Date 45355, Date 45359, Date 45366]"
proof -
  obtain s where s: "schedule_new (Date 45353) (Date 45366) (period_new 1 Weeks) weekendsonly_new Following Following
      Backward False date_null date_null = Some s" "sched_dates s = [Date 45355, Date 45359, Date 45366]"
    by (rule weekly_schedule_Some)
  have o: "order_preserving weekendsonly_new Following (Date 45366) \<or>
      well_formed weekendsonly_new \<and> Following \<in> {Unadjusted, Following, Preceding}"
    using weekendsonly_ready(1) by blast
  have "valid_date (Date 45353)" "valid_date (Date 45366)" by code_simp+
  from schedule_strictly_increasing [OF s(1) _ _ o this] show ?thesis using s(2) by simp
qed

text \<open>With the flag in force a date can repeat: monthly and backward from 1 January to 29 February 2024, with the first date 10 January, that date
  moves to the end of January, where the loop has already been.\<close>

lemma month_end_days:
  "date_new 29 February 2024 = Some (Date 45351)" "date_new 31 January 2024 = Some (Date 45322)"
  "date_new 10 January 2024 = Some (Date 45301)" "date_new 29 January 2024 = Some (Date 45320)"
  "date_new 29 December 2023 = Some (Date 45289)" "date_new 31 December 2023 = Some (Date 45291)"
  "date_new 10 December 2023 = Some (Date 45270)"
  by (simp_all add: date_new_Some gregorian_leap_def days_before_year_def)

lemma month_end_dates:
  "date_plus (Date 45351) (period_new (-1) Months) = Some (Date 45320)"
  "date_plus (Date 45351) (period_new (-2) Months) = Some (Date 45289)"
  "date_plus (Date 45322) (period_new (-1) Months) = Some (Date 45291)"
  "date_plus (Date 45301) (period_new (-1) Months) = Some (Date 45270)"
  "date_is_end_of_month (Date 45351) = Some True" "date_is_end_of_month (Date 45322) = Some True"
  "date_is_end_of_month (Date 45301) = Some False" "date_end_of_month (Date 45320) = Some (Date 45322)"
  "date_end_of_month (Date 45289) = Some (Date 45291)" "date_end_of_month (Date 45291) = Some (Date 45291)"
  "date_end_of_month (Date 45301) = Some (Date 45322)" "date_end_of_month (Date 45322) = Some (Date 45322)"
  "date_end_of_month (Date 45351) = Some (Date 45351)"
  by (simp_all add: month_end_days [THEN date_advance_months] month_end_days [THEN date_is_end_of_month_eq]
      month_end_days [THEN date_end_of_month_eq] date_plus_def i32_range_def month_index_def index_month_def
      month_from_ordinal_def clip_day_def gregorian_leap_def month_end_days del: date_advance.simps)

lemma null_calendar_month_end:
  "is_end_of_month nullcalendar_new (Date 45351) = Some True" "calendar_is_empty nullcalendar_new = False"
proof -
  have "adjust nullcalendar_new (Date 45351) Preceding = Some (Date 45351)" by code_simp
  then show "is_end_of_month nullcalendar_new (Date 45351) = Some True"
    by (simp add: is_end_of_month_def end_of_month_def month_end_dates)
  show "calendar_is_empty nullcalendar_new = False" by code_simp
qed

lemma month_end_steps:
  "advance_by_period nullcalendar_new (Date 45351) (period_new (-1) Months) Unadjusted True = Some (Date 45322)"
  "advance_by_period nullcalendar_new (Date 45351) (period_new (-2) Months) Unadjusted True = Some (Date 45291)"
  "advance_by_period nullcalendar_new (Date 45322) (period_new (-1) Months) Unadjusted True = Some (Date 45291)"
  "advance_by_period nullcalendar_new (Date 45301) (period_new (-1) Months) Unadjusted True = Some (Date 45270)"
  by (simp_all add: advance_by_period_def advance_def month_end_dates null_calendar_month_end adjust_Unadjusted valid_date_iff date_null_def
      period_new_def [of "_ :: int" Months, symmetric])

lemma month_end_periods:
  "allows_end_of_month (period_new 1 Months) = Some True" "period_length (period_new 1 Months) = 1"
  "period_mul (period_new 1 Months) 1 = Some (period_new 1 Months)"
  "period_mul (period_new 1 Months) 2 = Some (period_new 2 Months)"
  "period_neg (period_new 1 Months) = Some (period_new (-1) Months)"
  "period_neg (period_new 2 Months) = Some (period_new (-2) Months)"
proof -
  show "allows_end_of_month (period_new 1 Months) = Some True" by code_simp
  show "period_length (period_new 1 Months) = 1" by code_simp
  show "period_mul (period_new 1 Months) 1 = Some (period_new 1 Months)" by code_simp
  show "period_mul (period_new 1 Months) 2 = Some (period_new 2 Months)" by code_simp
  show "period_neg (period_new 1 Months) = Some (period_new (-1) Months)" by code_simp
  show "period_neg (period_new 2 Months) = Some (period_new (-2) Months)" by code_simp
qed

lemma end_of_month_flag_repeats_a_date:
  "map_option sched_dates
     (schedule_new (Date 45292) (Date 45351) (period_new 1 Months) nullcalendar_new
       Unadjusted Unadjusted Backward True (Date 45301) date_null) =
   Some [Date 45292, Date 45322, Date 45322, Date 45351]"
proof -
  note run_simps = month_end_steps month_end_dates null_calendar_month_end month_end_periods less_date_def last_date_def push_stub_def push_row_def i32_def i32_range_def date_null_def
    differ_adjusted_def adjust_Unadjusted valid_date_iff
  have "generate_loop period_neg (\<lambda>t. t < Date 45301) nullcalendar_new Unadjusted True (period_new 1 Months) (Date 45301) (Date 45351) 1
      ([Date 45351], []) = Some ([Date 45351, Date 45322, Date 45301], [True, False])"
    by (subst generate_loop.simps, subst generate_loop.simps) (simp add: run_simps)
  then have "backward_rows nullcalendar_new Unadjusted True (period_new 1 Months) (Date 45292) (Date 45351) (Date 45301) date_null =
      Some (([Date 45292, Date 45301, Date 45322, Date 45351], [False, False, True]), Date 45351)"
    by (simp add: backward_rows_def run_simps)
  then show ?thesis
    by (simp add: schedule_new_def schedule_generate_def schedule_passes_def wednesday_pass_def adjust_pass_def map_inner_def
        merge_last_def merge_first_def effective_rule_def check_first_date_def check_next_to_last_date_def less_eq_date_def
        assert_that_def run_simps)
qed

text \<open>\<open>Schedule::new\<close> panics on what it documents as refused: it returns only when the effective date
  precedes the termination date, the tenor is not negative, and a stub date kept under the
  \<open>Backward\<close> and \<open>Forward\<close> rules lies in its interval; the twentieth rules accept no stub date.\<close>

lemma schedule_refuses_bad_input:
  assumes "schedule_new effective termination tenor cal conv tconv rule eom first ntl = Some s"
  shows "effective < termination \<and> 0 \<le> period_length tenor \<and>
    (0 < period_length tenor \<and> (rule = Backward \<or> rule = Forward) \<longrightarrow>
       (first = date_null \<or> effective \<le> first \<and> first \<le> termination) \<and>
       (ntl = date_null \<or> effective \<le> ntl \<and> ntl \<le> termination)) \<and>
    (0 < period_length tenor \<and> twentieth_rule rule \<longrightarrow>
       first \<in> {date_null, effective} \<and> ntl \<in> {date_null, termination})"
proof -
  from assms obtain rule' where s: "effective < termination" "effective_rule tenor rule = Some rule'"
    "check_first_date rule' effective termination (if first = effective then date_null else first) = Some ()"
    "check_next_to_last_date rule' effective termination (if ntl = termination then date_null else ntl) = Some ()"
    by (rule schedule_new_steps) simp
  have "0 \<le> period_length tenor" "0 < period_length tenor \<Longrightarrow> rule' = rule"
    using s(2) by (auto simp: effective_rule_def bind_eq_Some_conv split: if_splits)
  then show ?thesis using s(1,3,4)
    by (auto simp: check_first_date_def check_next_to_last_date_def twentieth_rule_def split: if_splits)
qed

section \<open>Look-up and truncation\<close>

text \<open>On an increasing schedule the binary search behind \<open>lower_bound\<close> counts the dates before the
  given one; \<open>next_date\<close> is the first date not before it and \<open>previous_date\<close> the last one before it,
  when there is one. A null date panics.\<close>

lemma schedule_lookup_by_binary_search:
  assumes "sorted_wrt (<) (sched_dates s)" "t \<noteq> date_null"
  defines "before \<equiv> filter (\<lambda>d. d < t) (sched_dates s)" and "rest \<equiv> filter (\<lambda>d. t \<le> d) (sched_dates s)"
  shows "lower_bound s t = Some (length before) \<and>
    next_date s t = Some (if rest = [] then None else Some (hd rest)) \<and>
    previous_date s t = Some (if before = [] then None else Some (last before)) \<and>
    lower_bound s date_null = None"
  using lower_bound_count [OF assms(1,2)] next_date_least [OF assms(1,2)] previous_date_greatest [OF assms(1,2)]
  by (cases rest) (simp_all add: before_def rest_def lower_bound_def)

text \<open>Truncating an increasing schedule with its flags at a date strictly inside its span never
  panics: \<open>after\<close> keeps exactly the dates on or after it and \<open>until\<close> those on or before it, each
  gaining the truncation date when the schedule does not hold it; one flag per period remains.\<close>

lemma schedule_truncation:
  assumes "sorted_wrt (<) (sched_dates s)" "length (sched_is_regular s) + 1 = length (sched_dates s)"
    and "t \<noteq> date_null" "hd (sched_dates s) < t" "t < last (sched_dates s)"
  shows "(\<exists>a. schedule_after s t = Some a \<and> length (sched_is_regular a) + 1 = length (sched_dates a) \<and>
      sched_dates a = (if t \<in> set (sched_dates s) then [] else [t]) @ filter (\<lambda>d. t \<le> d) (sched_dates s)) \<and>
    (\<exists>b. schedule_until s t = Some b \<and> length (sched_is_regular b) + 1 = length (sched_dates b) \<and>
      sched_dates b = filter (\<lambda>d. d \<le> t) (sched_dates s) @ (if t \<in> set (sched_dates s) then [] else [t]))"
proof -
  have "rows_ok (sched_dates s, sched_is_regular s)" using assms(2) by (auto simp: rows_ok_def)
  then show ?thesis
    using schedule_after_dates [OF assms(1) _ assms(3-5)] schedule_until_dates [OF assms(1) _ assms(4,5)]
    by (fastforce simp: rows_ok_def)
qed

section \<open>Twentieths\<close>

text \<open>\<open>previous_twentieth\<close> returns the last twentieth of a month (of a main IMM month under the IMM
  and CDS rules) not after a date, and \<open>next_twentieth\<close> the first one not before it.\<close>

lemma twentieths_are_nearest:
  assumes "valid_date d" "previous_twentieth d rule = Some p" "next_twentieth d rule = Some n"
    and "valid_date x" "date_day_of_month x = Some 20" "date_month x = Some m"
    and "rule \<in> {TwentiethIMM, OldCDS, CDS, CDS2015} \<longrightarrow> month_ordinal m mod 3 = 0"
  shows "date_day_of_month p = Some 20 \<and> date_day_of_month n = Some 20 \<and> p \<le> d \<and> d \<le> n \<and>
    (x \<le> d \<longrightarrow> x \<le> p) \<and> (d \<le> x \<longrightarrow> n \<le> x)"
proof -
  obtain u where u: "first_month \<le> u" "u \<le> last_month" "x = twentieth u" "date_month x = Some (index_month u)"
    using twentieth_cases [OF assms(4,5)] .
  have m: "main_month rule u" unfolding main_month_def
  proof
    assume "rule \<in> {TwentiethIMM, OldCDS, CDS, CDS2015}"
    then have "(u + 1) mod 3 = 0" using assms(6,7) u(4) ordinal_mod_3 [of u] by simp
    then show "u mod 3 = 2" by (rule main_month_above(2))
  qed
  obtain s where s: "first_month \<le> s" "s \<le> last_month" "p = twentieth s" "p \<le> d" "twentieth u \<le> d \<Longrightarrow> u \<le> s"
    using previous_twentieth_spec [OF assms(1,2)] u(1,2) m by blast
  obtain t where t: "first_month \<le> t" "t \<le> last_month" "n = twentieth t" "d \<le> n" "d \<le> twentieth u \<Longrightarrow> t \<le> u"
    using next_twentieth_spec [OF assms(1,3)] u(1,2) m by blast
  show ?thesis
    using s t u(3) twentieth_date(3) twentieth_le_iff [OF u(1,2) s(1,2)] twentieth_le_iff [OF t(1,2) u(1,2)] by simp
qed

section \<open>Behaviours that contradict the documentation\<close>

text \<open>A first date after the next-to-last date is accepted and gives a schedule whose dates do not
  increase, although the type promises a non-decreasing sequence.\<close>

lemma crossed_stubs_break_the_order:
  "map_option sched_dates (schedule_new (Date 45352) (Date 45382) (period_new 1 Months) nullcalendar_new
     Unadjusted Unadjusted Backward False (Date 45372) (Date 45362)) =
   Some [Date 45352, Date 45372, Date 45362, Date 45382]"
  by code_simp

text \<open>A schedule built from dates alone has no flags; truncating it invents a single one, which is
  then reported as the flags of all its periods.\<close>

lemma truncation_invents_a_flag:
  "do { s \<leftarrow> schedule_from_dates [Date 45352, Date 45359, Date 45366, Date 45373];
        a \<leftarrow> schedule_after s (Date 45355);
        Some (sched_dates a, schedule_is_regular a) } =
   Some ([Date 45355, Date 45359, Date 45366, Date 45373], Some [False])"
  by code_simp

end
