(* ===== verification/Markets_North.thy ===== *)
theory Markets_North
  imports Market_Rules
begin

text \<open>
  \<open>time/calendars/\<close>: northern and central European markets
  (\<open>denmark.rs, finland.rs, iceland.rs, norway.rs, sweden.rs, poland.rs, czechrepublic.rs, slovakia.rs, hungary.rs\<close>). Each market
  is the predicate its \<open>is_business_day\<close> computes, clause by clause, and the record of its
  methods; each is shown to answer on every supported date, and to be closed on its weekend.
\<close>

section \<open>\<open>denmark.rs\<close>\<close>

definition denmark_is_business_day :: "date \<Rightarrow> bool option" where
  "denmark_is_business_day date = do {
     w \<leftarrow> date_weekday date;
     d \<leftarrow> date_day_of_month date;
     dd \<leftarrow> date_day_of_year date;
     m \<leftarrow> date_month date;
     y \<leftarrow> date_year date;
     em \<leftarrow> western_easter_monday y;
     Some (\<not> (is_weekend_sat_sun w
         \<or> dd = (em - 4)
         \<or> dd = (em - 3)
         \<or> dd = em
         \<or> (dd = (em + 25) \<and> y \<le> 2023)
         \<or> dd = (em + 38)
         \<or> (dd = (em + 39) \<and> y \<ge> 2009)
         \<or> dd = (em + 49)
         \<or> (d = 1 \<and> m = January)
         \<or> (d = 5 \<and> m = June)
         \<or> (d = 24 \<and> m = December)
         \<or> (d = 25 \<and> m = December)
         \<or> (d = 26 \<and> m = December)
         \<or> (d = 31 \<and> m = December)))
   }"

definition denmark_impl :: calendar_impl where
  "denmark_impl = calendar_impl_new ''Denmark''
     denmark_is_business_day is_weekend_sat_sun"

definition denmark_new :: calendar where
  "denmark_new = calendar_from_impl denmark_impl"

lemma denmark_is_business_day_total [total_rules]: "valid_date date \<Longrightarrow> denmark_is_business_day date \<noteq> None"
  unfolding denmark_is_business_day_def by (rule total_rules | assumption | (simp add: civil_ok_def; fail))+

lemma denmark_is_business_day_weekend:
  assumes "valid_date date" "date_weekday date = Some w" "is_weekend_sat_sun w"
  shows "denmark_is_business_day date = Some False"
  using assms(1)
  by (rule date_fields)
    (use assms(2,3) in \<open>simp add: denmark_is_business_day_def western_easter_eq orthodox_easter_eq\<close>)

interpretation denmark: weekend_market denmark_impl
  by (rule weekend_marketI [where f = is_weekend_sat_sun]) (simp_all add: denmark_impl_def denmark_is_business_day_total denmark_is_business_day_weekend)

section \<open>\<open>finland.rs\<close>\<close>

definition finland_is_business_day :: "date \<Rightarrow> bool option" where
  "finland_is_business_day date = do {
     w \<leftarrow> date_weekday date;
     d \<leftarrow> date_day_of_month date;
     dd \<leftarrow> date_day_of_year date;
     m \<leftarrow> date_month date;
     y \<leftarrow> date_year date;
     em \<leftarrow> western_easter_monday y;
     Some (\<not> (is_weekend_sat_sun w
         \<or> (d = 1 \<and> m = January)
         \<or> (d = 6 \<and> m = January)
         \<or> dd = (em - 3)
         \<or> dd = em
         \<or> dd = (em + 38)
         \<or> (d = 1 \<and> m = May)
         \<or> (w = Friday \<and> 19 \<le> d \<and> d \<le> 25 \<and> m = June)
         \<or> (d = 6 \<and> m = December)
         \<or> (d = 24 \<and> m = December)
         \<or> (d = 25 \<and> m = December)
         \<or> (d = 26 \<and> m = December)))
   }"

definition finland_impl :: calendar_impl where
  "finland_impl = calendar_impl_new ''Finland''
     finland_is_business_day is_weekend_sat_sun"

definition finland_new :: calendar where
  "finland_new = calendar_from_impl finland_impl"

lemma finland_is_business_day_total [total_rules]: "valid_date date \<Longrightarrow> finland_is_business_day date \<noteq> None"
  unfolding finland_is_business_day_def by (rule total_rules | assumption | (simp add: civil_ok_def; fail))+

lemma finland_is_business_day_weekend:
  assumes "valid_date date" "date_weekday date = Some w" "is_weekend_sat_sun w"
  shows "finland_is_business_day date = Some False"
  using assms(1)
  by (rule date_fields)
    (use assms(2,3) in \<open>simp add: finland_is_business_day_def western_easter_eq orthodox_easter_eq\<close>)

interpretation finland: weekend_market finland_impl
  by (rule weekend_marketI [where f = is_weekend_sat_sun]) (simp_all add: finland_impl_def finland_is_business_day_total finland_is_business_day_weekend)

section \<open>\<open>iceland.rs\<close>\<close>

definition iceland_icex_is_business_day :: "date \<Rightarrow> bool option" where
  "iceland_icex_is_business_day date = do {
     w \<leftarrow> date_weekday date;
     d \<leftarrow> date_day_of_month date;
     dd \<leftarrow> date_day_of_year date;
     m \<leftarrow> date_month date;
     y \<leftarrow> date_year date;
     em \<leftarrow> western_easter_monday y;
     Some (\<not> (is_weekend_sat_sun w
         \<or> (d = 1 \<and> m = January)
         \<or> dd = (em - 4)
         \<or> dd = (em - 3)
         \<or> dd = em
         \<or> (19 \<le> d \<and> d \<le> 25 \<and> w = Thursday \<and> m = April)
         \<or> dd = (em + 38)
         \<or> dd = (em + 49)
         \<or> (d = 1 \<and> m = May)
         \<or> (d = 17 \<and> m = June)
         \<or> (d \<le> 7 \<and> w = Monday \<and> m = August)
         \<or> (d = 25 \<and> m = December)
         \<or> (d = 26 \<and> m = December)))
   }"

definition iceland_icex_impl :: calendar_impl where
  "iceland_icex_impl = calendar_impl_new ''Iceland stock exchange''
     iceland_icex_is_business_day is_weekend_sat_sun"

datatype iceland_market = Iceland_Icex

fun iceland_new :: "iceland_market \<Rightarrow> calendar" where
  "iceland_new Iceland_Icex = calendar_from_impl iceland_icex_impl"

lemma iceland_icex_is_business_day_total [total_rules]: "valid_date date \<Longrightarrow> iceland_icex_is_business_day date \<noteq> None"
  unfolding iceland_icex_is_business_day_def by (rule total_rules | assumption | (simp add: civil_ok_def; fail))+

lemma iceland_icex_is_business_day_weekend:
  assumes "valid_date date" "date_weekday date = Some w" "is_weekend_sat_sun w"
  shows "iceland_icex_is_business_day date = Some False"
  using assms(1)
  by (rule date_fields)
    (use assms(2,3) in \<open>simp add: iceland_icex_is_business_day_def western_easter_eq orthodox_easter_eq\<close>)

interpretation iceland_icex: weekend_market iceland_icex_impl
  by (rule weekend_marketI [where f = is_weekend_sat_sun]) (simp_all add: iceland_icex_impl_def iceland_icex_is_business_day_total iceland_icex_is_business_day_weekend)

section \<open>\<open>norway.rs\<close>\<close>

definition norway_is_business_day :: "date \<Rightarrow> bool option" where
  "norway_is_business_day date = do {
     w \<leftarrow> date_weekday date;
     d \<leftarrow> date_day_of_month date;
     dd \<leftarrow> date_day_of_year date;
     m \<leftarrow> date_month date;
     y \<leftarrow> date_year date;
     em \<leftarrow> western_easter_monday y;
     Some (\<not> (is_weekend_sat_sun w
         \<or> dd = (em - 4)
         \<or> dd = (em - 3)
         \<or> dd = em
         \<or> dd = (em + 38)
         \<or> dd = (em + 49)
         \<or> (d = 1 \<and> m = January)
         \<or> (d = 1 \<and> m = May)
         \<or> (d = 17 \<and> m = May)
         \<or> (d = 24 \<and> m = December \<and> y \<ge> 2002)
         \<or> (d = 25 \<and> m = December)
         \<or> (d = 26 \<and> m = December)))
   }"

definition norway_impl :: calendar_impl where
  "norway_impl = calendar_impl_new ''Norway''
     norway_is_business_day is_weekend_sat_sun"

definition norway_new :: calendar where
  "norway_new = calendar_from_impl norway_impl"

lemma norway_is_business_day_total [total_rules]: "valid_date date \<Longrightarrow> norway_is_business_day date \<noteq> None"
  unfolding norway_is_business_day_def by (rule total_rules | assumption | (simp add: civil_ok_def; fail))+

lemma norway_is_business_day_weekend:
  assumes "valid_date date" "date_weekday date = Some w" "is_weekend_sat_sun w"
  shows "norway_is_business_day date = Some False"
  using assms(1)
  by (rule date_fields)
    (use assms(2,3) in \<open>simp add: norway_is_business_day_def western_easter_eq orthodox_easter_eq\<close>)

interpretation norway: weekend_market norway_impl
  by (rule weekend_marketI [where f = is_weekend_sat_sun]) (simp_all add: norway_impl_def norway_is_business_day_total norway_is_business_day_weekend)

section \<open>\<open>sweden.rs\<close>\<close>

definition sweden_is_business_day :: "date \<Rightarrow> bool option" where
  "sweden_is_business_day date = do {
     w \<leftarrow> date_weekday date;
     d \<leftarrow> date_day_of_month date;
     dd \<leftarrow> date_day_of_year date;
     m \<leftarrow> date_month date;
     y \<leftarrow> date_year date;
     em \<leftarrow> western_easter_monday y;
     Some (\<not> (is_weekend_sat_sun w
         \<or> dd = (em - 3)
         \<or> dd = em
         \<or> dd = (em + 38)
         \<or> (dd = (em + 49) \<and> y < 2005)
         \<or> (d = 1 \<and> m = January)
         \<or> (d = 6 \<and> m = January)
         \<or> (d = 1 \<and> m = May)
         \<or> (d = 6 \<and> m = June \<and> y \<ge> 2005)
         \<or> (w = Friday \<and> 19 \<le> d \<and> d \<le> 25 \<and> m = June)
         \<or> (d = 24 \<and> m = December)
         \<or> (d = 25 \<and> m = December)
         \<or> (d = 26 \<and> m = December)
         \<or> (d = 31 \<and> m = December)))
   }"

definition sweden_impl :: calendar_impl where
  "sweden_impl = calendar_impl_new ''Sweden''
     sweden_is_business_day is_weekend_sat_sun"

definition sweden_new :: calendar where
  "sweden_new = calendar_from_impl sweden_impl"

lemma sweden_is_business_day_total [total_rules]: "valid_date date \<Longrightarrow> sweden_is_business_day date \<noteq> None"
  unfolding sweden_is_business_day_def by (rule total_rules | assumption | (simp add: civil_ok_def; fail))+

lemma sweden_is_business_day_weekend:
  assumes "valid_date date" "date_weekday date = Some w" "is_weekend_sat_sun w"
  shows "sweden_is_business_day date = Some False"
  using assms(1)
  by (rule date_fields)
    (use assms(2,3) in \<open>simp add: sweden_is_business_day_def western_easter_eq orthodox_easter_eq\<close>)

interpretation sweden: weekend_market sweden_impl
  by (rule weekend_marketI [where f = is_weekend_sat_sun]) (simp_all add: sweden_impl_def sweden_is_business_day_total sweden_is_business_day_weekend)

section \<open>\<open>poland.rs\<close>\<close>

definition poland_settlement_is_business_day :: "date \<Rightarrow> bool option" where
  "poland_settlement_is_business_day date = do {
     w \<leftarrow> date_weekday date;
     d \<leftarrow> date_day_of_month date;
     dd \<leftarrow> date_day_of_year date;
     m \<leftarrow> date_month date;
     y \<leftarrow> date_year date;
     em \<leftarrow> western_easter_monday y;
     Some (\<not> (is_weekend_sat_sun w
         \<or> dd = em
         \<or> dd = (em + 59)
         \<or> (d = 1 \<and> m = January)
         \<or> (d = 6 \<and> m = January \<and> y \<ge> 2011)
         \<or> (d = 1 \<and> m = May)
         \<or> (d = 3 \<and> m = May)
         \<or> (d = 15 \<and> m = August)
         \<or> (d = 1 \<and> m = November)
         \<or> (d = 11 \<and> m = November)
         \<or> (d = 25 \<and> m = December)
         \<or> (d = 26 \<and> m = December)))
   }"

definition poland_settlement_impl :: calendar_impl where
  "poland_settlement_impl = calendar_impl_new ''Poland Settlement''
     poland_settlement_is_business_day is_weekend_sat_sun"

definition poland_wse_is_business_day :: "date \<Rightarrow> bool option" where
  "poland_wse_is_business_day date = do {
     d \<leftarrow> date_day_of_month date;
     m \<leftarrow> date_month date;
     if m = December
       \<and> (d = 24 \<or> d = 31) then Some False
     else poland_settlement_is_business_day date
   }"

definition poland_wse_impl :: calendar_impl where
  "poland_wse_impl = calendar_impl_new ''Warsaw stock exchange''
     poland_wse_is_business_day is_weekend_sat_sun"

datatype poland_market = Poland_Settlement | Poland_Wse

fun poland_new :: "poland_market \<Rightarrow> calendar" where
  "poland_new Poland_Settlement = calendar_from_impl poland_settlement_impl"
| "poland_new Poland_Wse = calendar_from_impl poland_wse_impl"

lemma poland_settlement_is_business_day_total [total_rules]: "valid_date date \<Longrightarrow> poland_settlement_is_business_day date \<noteq> None"
  unfolding poland_settlement_is_business_day_def by (rule total_rules | assumption | (simp add: civil_ok_def; fail))+

lemma poland_wse_is_business_day_total [total_rules]: "valid_date date \<Longrightarrow> poland_wse_is_business_day date \<noteq> None"
  unfolding poland_wse_is_business_day_def by (rule total_rules | assumption | (simp add: civil_ok_def; fail))+

lemma poland_settlement_is_business_day_weekend:
  assumes "valid_date date" "date_weekday date = Some w" "is_weekend_sat_sun w"
  shows "poland_settlement_is_business_day date = Some False"
  using assms(1)
  by (rule date_fields)
    (use assms(2,3) in \<open>simp add: poland_settlement_is_business_day_def western_easter_eq orthodox_easter_eq\<close>)

interpretation poland_settlement: weekend_market poland_settlement_impl
  by (rule weekend_marketI [where f = is_weekend_sat_sun]) (simp_all add: poland_settlement_impl_def poland_settlement_is_business_day_total poland_settlement_is_business_day_weekend)

lemma poland_wse_is_business_day_weekend:
  assumes "valid_date date" "date_weekday date = Some w" "is_weekend_sat_sun w"
  shows "poland_wse_is_business_day date = Some False"
  using assms(1)
  by (rule date_fields)
    (use assms(2,3) in \<open>simp add: poland_wse_is_business_day_def poland_settlement_is_business_day_def western_easter_eq orthodox_easter_eq\<close>)

interpretation poland_wse: weekend_market poland_wse_impl
  by (rule weekend_marketI [where f = is_weekend_sat_sun]) (simp_all add: poland_wse_impl_def poland_wse_is_business_day_total poland_wse_is_business_day_weekend)

section \<open>\<open>czechrepublic.rs\<close>\<close>

definition czechrepublic_pse_is_business_day :: "date \<Rightarrow> bool option" where
  "czechrepublic_pse_is_business_day date = do {
     w \<leftarrow> date_weekday date;
     d \<leftarrow> date_day_of_month date;
     dd \<leftarrow> date_day_of_year date;
     m \<leftarrow> date_month date;
     y \<leftarrow> date_year date;
     em \<leftarrow> western_easter_monday y;
     Some (\<not> (is_weekend_sat_sun w
         \<or> (d = 1 \<and> m = January)
         \<or> (dd = (em - 3) \<and> y \<ge> 2016)
         \<or> dd = em
         \<or> (d = 1 \<and> m = May)
         \<or> (d = 8 \<and> m = May)
         \<or> (d = 5 \<and> m = July)
         \<or> (d = 6 \<and> m = July)
         \<or> (d = 28 \<and> m = September)
         \<or> (d = 28 \<and> m = October)
         \<or> (d = 17 \<and> m = November)
         \<or> (d = 24 \<and> m = December)
         \<or> (d = 25 \<and> m = December)
         \<or> (d = 26 \<and> m = December)
         \<or> (d = 2 \<and> m = January \<and> y = 2004)
         \<or> (d = 31 \<and> m = December \<and> y = 2004)))
   }"

definition czechrepublic_pse_impl :: calendar_impl where
  "czechrepublic_pse_impl = calendar_impl_new ''Prague stock exchange''
     czechrepublic_pse_is_business_day is_weekend_sat_sun"

datatype czechrepublic_market = CzechRepublic_Pse

fun czechrepublic_new :: "czechrepublic_market \<Rightarrow> calendar" where
  "czechrepublic_new CzechRepublic_Pse = calendar_from_impl czechrepublic_pse_impl"

lemma czechrepublic_pse_is_business_day_total [total_rules]: "valid_date date \<Longrightarrow> czechrepublic_pse_is_business_day date \<noteq> None"
  unfolding czechrepublic_pse_is_business_day_def by (rule total_rules | assumption | (simp add: civil_ok_def; fail))+

lemma czechrepublic_pse_is_business_day_weekend:
  assumes "valid_date date" "date_weekday date = Some w" "is_weekend_sat_sun w"
  shows "czechrepublic_pse_is_business_day date = Some False"
  using assms(1)
  by (rule date_fields)
    (use assms(2,3) in \<open>simp add: czechrepublic_pse_is_business_day_def western_easter_eq orthodox_easter_eq\<close>)

interpretation czechrepublic_pse: weekend_market czechrepublic_pse_impl
  by (rule weekend_marketI [where f = is_weekend_sat_sun]) (simp_all add: czechrepublic_pse_impl_def czechrepublic_pse_is_business_day_total czechrepublic_pse_is_business_day_weekend)

section \<open>\<open>slovakia.rs\<close>\<close>

definition slovakia_bsse_is_business_day :: "date \<Rightarrow> bool option" where
  "slovakia_bsse_is_business_day date = do {
     w \<leftarrow> date_weekday date;
     d \<leftarrow> date_day_of_month date;
     dd \<leftarrow> date_day_of_year date;
     m \<leftarrow> date_month date;
     y \<leftarrow> date_year date;
     em \<leftarrow> western_easter_monday y;
     Some (\<not> (is_weekend_sat_sun w
         \<or> (d = 1 \<and> m = January)
         \<or> (d = 6 \<and> m = January)
         \<or> dd = (em - 3)
         \<or> dd = em
         \<or> (d = 1 \<and> m = May)
         \<or> (d = 8 \<and> m = May)
         \<or> (d = 5 \<and> m = July)
         \<or> (d = 29 \<and> m = August)
         \<or> (d = 1 \<and> m = September)
         \<or> (d = 15 \<and> m = September)
         \<or> (d = 1 \<and> m = November)
         \<or> (d = 17 \<and> m = November)
         \<or> (d = 24 \<and> m = December)
         \<or> (d = 25 \<and> m = December)
         \<or> (d = 26 \<and> m = December)
         \<or> (24 \<le> d \<and> d \<le> 31 \<and> m = December \<and> y = 2004)
         \<or> (24 \<le> d \<and> d \<le> 31 \<and> m = December \<and> y = 2005)))
   }"

definition slovakia_bsse_impl :: calendar_impl where
  "slovakia_bsse_impl = calendar_impl_new ''Bratislava stock exchange''
     slovakia_bsse_is_business_day is_weekend_sat_sun"

datatype slovakia_market = Slovakia_Bsse

fun slovakia_new :: "slovakia_market \<Rightarrow> calendar" where
  "slovakia_new Slovakia_Bsse = calendar_from_impl slovakia_bsse_impl"

lemma slovakia_bsse_is_business_day_total [total_rules]: "valid_date date \<Longrightarrow> slovakia_bsse_is_business_day date \<noteq> None"
  unfolding slovakia_bsse_is_business_day_def by (rule total_rules | assumption | (simp add: civil_ok_def; fail))+

lemma slovakia_bsse_is_business_day_weekend:
  assumes "valid_date date" "date_weekday date = Some w" "is_weekend_sat_sun w"
  shows "slovakia_bsse_is_business_day date = Some False"
  using assms(1)
  by (rule date_fields)
    (use assms(2,3) in \<open>simp add: slovakia_bsse_is_business_day_def western_easter_eq orthodox_easter_eq\<close>)

interpretation slovakia_bsse: weekend_market slovakia_bsse_impl
  by (rule weekend_marketI [where f = is_weekend_sat_sun]) (simp_all add: slovakia_bsse_impl_def slovakia_bsse_is_business_day_total slovakia_bsse_is_business_day_weekend)

section \<open>\<open>hungary.rs\<close>\<close>

definition hungary_is_business_day :: "date \<Rightarrow> bool option" where
  "hungary_is_business_day date = do {
     w \<leftarrow> date_weekday date;
     d \<leftarrow> date_day_of_month date;
     dd \<leftarrow> date_day_of_year date;
     m \<leftarrow> date_month date;
     y \<leftarrow> date_year date;
     em \<leftarrow> western_easter_monday y;
     Some (\<not> (is_weekend_sat_sun w
         \<or> (dd = (em - 3) \<and> y \<ge> 2017)
         \<or> dd = em
         \<or> dd = (em + 49)
         \<or> (d = 1 \<and> m = January)
         \<or> (d = 15 \<and> m = March)
         \<or> (d = 1 \<and> m = May)
         \<or> (d = 20 \<and> m = August)
         \<or> (d = 23 \<and> m = October)
         \<or> (d = 1 \<and> m = November)
         \<or> (d = 25 \<and> m = December)
         \<or> (d = 26 \<and> m = December)))
   }"

definition hungary_impl :: calendar_impl where
  "hungary_impl = calendar_impl_new ''Hungary''
     hungary_is_business_day is_weekend_sat_sun"

definition hungary_new :: calendar where
  "hungary_new = calendar_from_impl hungary_impl"

lemma hungary_is_business_day_total [total_rules]: "valid_date date \<Longrightarrow> hungary_is_business_day date \<noteq> None"
  unfolding hungary_is_business_day_def by (rule total_rules | assumption | (simp add: civil_ok_def; fail))+

lemma hungary_is_business_day_weekend:
  assumes "valid_date date" "date_weekday date = Some w" "is_weekend_sat_sun w"
  shows "hungary_is_business_day date = Some False"
  using assms(1)
  by (rule date_fields)
    (use assms(2,3) in \<open>simp add: hungary_is_business_day_def western_easter_eq orthodox_easter_eq\<close>)

interpretation hungary: weekend_market hungary_impl
  by (rule weekend_marketI [where f = is_weekend_sat_sun]) (simp_all add: hungary_impl_def hungary_is_business_day_total hungary_is_business_day_weekend)

end
