(* ===== verification/Markets_East.thy ===== *)
theory Markets_East
  imports Market_Rules
begin

text \<open>
  \<open>time/calendars/\<close>: eastern European and Central Asian markets and the Islamic holiday tables
  (\<open>croatia.rs, slovenia.rs, serbia.rs, montenegro.rs, romania.rs, ukraine.rs, russia.rs, islamicholidays.rs, northmacedonia.rs, uzbekistan.rs, turkey.rs\<close>). Each market
  is the predicate its \<open>is_business_day\<close> computes, clause by clause, and the record of its
  methods; each is shown to answer on every supported date, and to be closed on its weekend.
\<close>

section \<open>\<open>croatia.rs\<close>\<close>

definition croatia_zse_is_business_day :: "date \<Rightarrow> bool option" where
  "croatia_zse_is_business_day date = do {
     w \<leftarrow> date_weekday date;
     d \<leftarrow> date_day_of_month date;
     dd \<leftarrow> date_day_of_year date;
     m \<leftarrow> date_month date;
     y \<leftarrow> date_year date;
     em \<leftarrow> western_easter_monday y;
     Some (\<not> (is_weekend_sat_sun w
         \<or> (d = 1 \<and> m = January)
         \<or> (d = 6 \<and> m = January)
         \<or> (dd = (em - 3) \<and> y \<ge> 2016)
         \<or> dd = em
         \<or> (d = 1 \<and> m = May)
         \<or> (d = 30 \<and> m = May)
         \<or> dd = (em + 59)
         \<or> (d = 22 \<and> m = June)
         \<or> (d = 5 \<and> m = August)
         \<or> (d = 15 \<and> m = August)
         \<or> (d = 18 \<and> m = November)
         \<or> (d = 24 \<and> m = December)
         \<or> (d = 25 \<and> m = December)
         \<or> (d = 26 \<and> m = December)
         \<or> (d = 31 \<and> m = December)))
   }"

definition croatia_zse_impl :: calendar_impl where
  "croatia_zse_impl = calendar_impl_new ''Zagreb stock exchange''
     croatia_zse_is_business_day is_weekend_sat_sun"

datatype croatia_market = Croatia_Zse

fun croatia_new :: "croatia_market \<Rightarrow> calendar" where
  "croatia_new Croatia_Zse = calendar_from_impl croatia_zse_impl"

lemma croatia_zse_is_business_day_total [total_rules]: "valid_date date \<Longrightarrow> croatia_zse_is_business_day date \<noteq> None"
  unfolding croatia_zse_is_business_day_def by (rule total_rules | assumption | (simp add: civil_ok_def; fail))+

lemma croatia_zse_is_business_day_weekend:
  assumes "valid_date date" "date_weekday date = Some w" "is_weekend_sat_sun w"
  shows "croatia_zse_is_business_day date = Some False"
  using assms(1)
  by (rule date_fields)
    (use assms(2,3) in \<open>simp add: croatia_zse_is_business_day_def western_easter_eq orthodox_easter_eq\<close>)

interpretation croatia_zse: weekend_market croatia_zse_impl
  by (rule weekend_marketI [where f = is_weekend_sat_sun]) (simp_all add: croatia_zse_impl_def croatia_zse_is_business_day_total croatia_zse_is_business_day_weekend)

section \<open>\<open>slovenia.rs\<close>\<close>

definition slovenia_lse_is_business_day :: "date \<Rightarrow> bool option" where
  "slovenia_lse_is_business_day date = do {
     w \<leftarrow> date_weekday date;
     d \<leftarrow> date_day_of_month date;
     dd \<leftarrow> date_day_of_year date;
     m \<leftarrow> date_month date;
     y \<leftarrow> date_year date;
     em \<leftarrow> western_easter_monday y;
     Some (\<not> (is_weekend_sat_sun w
         \<or> (d = 1 \<and> m = January)
         \<or> (d = 2 \<and> m = January)
         \<or> dd = (em - 3)
         \<or> dd = em
         \<or> (d = 1 \<and> m = May)
         \<or> (d = 2 \<and> m = May)
         \<or> (d = 25 \<and> m = June)
         \<or> (d = 15 \<and> m = August)
         \<or> (d = 31 \<and> m = October)
         \<or> (d = 24 \<and> m = December)
         \<or> (d = 25 \<and> m = December)
         \<or> (d = 26 \<and> m = December)
         \<or> (d = 31 \<and> m = December)))
   }"

definition slovenia_lse_impl :: calendar_impl where
  "slovenia_lse_impl = calendar_impl_new ''Ljubljana stock exchange''
     slovenia_lse_is_business_day is_weekend_sat_sun"

datatype slovenia_market = Slovenia_Lse

fun slovenia_new :: "slovenia_market \<Rightarrow> calendar" where
  "slovenia_new Slovenia_Lse = calendar_from_impl slovenia_lse_impl"

lemma slovenia_lse_is_business_day_total [total_rules]: "valid_date date \<Longrightarrow> slovenia_lse_is_business_day date \<noteq> None"
  unfolding slovenia_lse_is_business_day_def by (rule total_rules | assumption | (simp add: civil_ok_def; fail))+

lemma slovenia_lse_is_business_day_weekend:
  assumes "valid_date date" "date_weekday date = Some w" "is_weekend_sat_sun w"
  shows "slovenia_lse_is_business_day date = Some False"
  using assms(1)
  by (rule date_fields)
    (use assms(2,3) in \<open>simp add: slovenia_lse_is_business_day_def western_easter_eq orthodox_easter_eq\<close>)

interpretation slovenia_lse: weekend_market slovenia_lse_impl
  by (rule weekend_marketI [where f = is_weekend_sat_sun]) (simp_all add: slovenia_lse_impl_def slovenia_lse_is_business_day_total slovenia_lse_is_business_day_weekend)

section \<open>\<open>serbia.rs\<close>\<close>

definition serbia_bse_is_business_day :: "date \<Rightarrow> bool option" where
  "serbia_bse_is_business_day date = do {
     w \<leftarrow> date_weekday date;
     d \<leftarrow> date_day_of_month date;
     dd \<leftarrow> date_day_of_year date;
     m \<leftarrow> date_month date;
     y \<leftarrow> date_year date;
     em \<leftarrow> western_easter_monday y;
     lnot (lor (Some (is_weekend_sat_sun w
         \<or> (d = 1 \<and> m = January)
         \<or> (d = 2 \<and> m = January)
         \<or> (d = 7 \<and> m = January)
         \<or> (d = 15 \<and> m = February)
         \<or> (d = 16 \<and> m = February)))
        (lor (land (Some (d = 17 \<and> m = February)) (land (do { x7 \<leftarrow> date_new 15 February y; x8 \<leftarrow> date_weekday x7; Some (is_weekend_sat_sun x8) }) (do { x9 \<leftarrow> date_new 16 February y; x10 \<leftarrow> date_weekday x9; Some (is_weekend_sat_sun x10) })))
        (Some ((dd = (em - 3) \<and> y \<ge> 2016)
         \<or> dd = em
         \<or> (d = 1 \<and> m = May)
         \<or> (d = 11 \<and> m = November)
         \<or> (d = 31 \<and> m = December)))))
   }"

definition serbia_bse_impl :: calendar_impl where
  "serbia_bse_impl = calendar_impl_new ''Belgrade stock exchange''
     serbia_bse_is_business_day is_weekend_sat_sun"

datatype serbia_market = Serbia_Bse

fun serbia_new :: "serbia_market \<Rightarrow> calendar" where
  "serbia_new Serbia_Bse = calendar_from_impl serbia_bse_impl"

lemma serbia_bse_is_business_day_total [total_rules]: "valid_date date \<Longrightarrow> serbia_bse_is_business_day date \<noteq> None"
  unfolding serbia_bse_is_business_day_def by (rule total_rules | assumption | (simp add: civil_ok_def; fail))+

lemma serbia_bse_is_business_day_weekend:
  assumes "valid_date date" "date_weekday date = Some w" "is_weekend_sat_sun w"
  shows "serbia_bse_is_business_day date = Some False"
  using assms(1)
  by (rule date_fields)
    (use assms(2,3) in \<open>simp add: serbia_bse_is_business_day_def western_easter_eq orthodox_easter_eq\<close>)

interpretation serbia_bse: weekend_market serbia_bse_impl
  by (rule weekend_marketI [where f = is_weekend_sat_sun]) (simp_all add: serbia_bse_impl_def serbia_bse_is_business_day_total serbia_bse_is_business_day_weekend)

section \<open>\<open>montenegro.rs\<close>\<close>

definition montenegro_mnse_is_business_day :: "date \<Rightarrow> bool option" where
  "montenegro_mnse_is_business_day date = do {
     w \<leftarrow> date_weekday date;
     d \<leftarrow> date_day_of_month date;
     m \<leftarrow> date_month date;
     Some (\<not> (is_weekend_sat_sun w
         \<or> (d = 1 \<and> m = January)
         \<or> (d = 2 \<and> m = January)
         \<or> (d = 1 \<and> m = May)
         \<or> (d = 2 \<and> m = May)
         \<or> (d = 21 \<and> m = May)
         \<or> (d = 22 \<and> m = May)
         \<or> (d = 13 \<and> m = July)
         \<or> (d = 14 \<and> m = July)
         \<or> (d = 13 \<and> m = November)
         \<or> (d = 14 \<and> m = November)))
   }"

definition montenegro_mnse_impl :: calendar_impl where
  "montenegro_mnse_impl = calendar_impl_new ''Montenegro Stock Exchange''
     montenegro_mnse_is_business_day is_weekend_sat_sun"

datatype montenegro_market = Montenegro_Mnse

fun montenegro_new :: "montenegro_market \<Rightarrow> calendar" where
  "montenegro_new Montenegro_Mnse = calendar_from_impl montenegro_mnse_impl"

lemma montenegro_mnse_is_business_day_total [total_rules]: "valid_date date \<Longrightarrow> montenegro_mnse_is_business_day date \<noteq> None"
  unfolding montenegro_mnse_is_business_day_def by (rule total_rules | assumption | (simp add: civil_ok_def; fail))+

lemma montenegro_mnse_is_business_day_weekend:
  assumes "valid_date date" "date_weekday date = Some w" "is_weekend_sat_sun w"
  shows "montenegro_mnse_is_business_day date = Some False"
  using assms(1)
  by (rule date_fields)
    (use assms(2,3) in \<open>simp add: montenegro_mnse_is_business_day_def western_easter_eq orthodox_easter_eq\<close>)

interpretation montenegro_mnse: weekend_market montenegro_mnse_impl
  by (rule weekend_marketI [where f = is_weekend_sat_sun]) (simp_all add: montenegro_mnse_impl_def montenegro_mnse_is_business_day_total montenegro_mnse_is_business_day_weekend)

section \<open>\<open>romania.rs\<close>\<close>

definition romania_public_is_business_day :: "date \<Rightarrow> bool option" where
  "romania_public_is_business_day date = do {
     w \<leftarrow> date_weekday date;
     d \<leftarrow> date_day_of_month date;
     dd \<leftarrow> date_day_of_year date;
     m \<leftarrow> date_month date;
     y \<leftarrow> date_year date;
     em \<leftarrow> orthodox_easter_monday y;
     Some (\<not> (is_weekend_sat_sun w
         \<or> (d = 1 \<and> m = January)
         \<or> (d = 2 \<and> m = January)
         \<or> (d = 24 \<and> m = January)
         \<or> dd = em
         \<or> (d = 1 \<and> m = May)
         \<or> dd = (em + 49)
         \<or> (d = 1 \<and> m = June \<and> y \<ge> 2017)
         \<or> (d = 15 \<and> m = August)
         \<or> (d = 30 \<and> m = November)
         \<or> (d = 1 \<and> m = December)
         \<or> (d = 25 \<and> m = December)
         \<or> (d = 26 \<and> m = December)))
   }"

definition romania_public_impl :: calendar_impl where
  "romania_public_impl = calendar_impl_new ''Romania''
     romania_public_is_business_day is_weekend_sat_sun"

definition romania_bvb_is_business_day :: "date \<Rightarrow> bool option" where
  "romania_bvb_is_business_day date = do {
     c10 \<leftarrow> lnot (romania_public_is_business_day date);
     if c10 then Some False
     else do {
       d \<leftarrow> date_day_of_month date;
       m \<leftarrow> date_month date;
       y \<leftarrow> date_year date;
       if m = December
         \<and> y = 2014
         \<and> (d = 24 \<or> d = 31) then Some False
       else Some True
     }
   }"

definition romania_bvb_impl :: calendar_impl where
  "romania_bvb_impl = calendar_impl_new ''Bucharest stock exchange''
     romania_bvb_is_business_day is_weekend_sat_sun"

datatype romania_market = Romania_Public | Romania_Bvb

fun romania_new :: "romania_market \<Rightarrow> calendar" where
  "romania_new Romania_Public = calendar_from_impl romania_public_impl"
| "romania_new Romania_Bvb = calendar_from_impl romania_bvb_impl"

lemma romania_public_is_business_day_total [total_rules]: "valid_date date \<Longrightarrow> romania_public_is_business_day date \<noteq> None"
  unfolding romania_public_is_business_day_def by (rule total_rules | assumption | (simp add: civil_ok_def; fail))+

lemma romania_bvb_is_business_day_total [total_rules]: "valid_date date \<Longrightarrow> romania_bvb_is_business_day date \<noteq> None"
  unfolding romania_bvb_is_business_day_def by (rule total_rules | assumption | (simp add: civil_ok_def; fail))+

lemma romania_public_is_business_day_weekend:
  assumes "valid_date date" "date_weekday date = Some w" "is_weekend_sat_sun w"
  shows "romania_public_is_business_day date = Some False"
  using assms(1)
  by (rule date_fields)
    (use assms(2,3) in \<open>simp add: romania_public_is_business_day_def western_easter_eq orthodox_easter_eq\<close>)

interpretation romania_public: weekend_market romania_public_impl
  by (rule weekend_marketI [where f = is_weekend_sat_sun]) (simp_all add: romania_public_impl_def romania_public_is_business_day_total romania_public_is_business_day_weekend)

lemma romania_bvb_is_business_day_weekend:
  assumes "valid_date date" "date_weekday date = Some w" "is_weekend_sat_sun w"
  shows "romania_bvb_is_business_day date = Some False"
  using assms(1)
  by (rule date_fields)
    (use assms(2,3) in \<open>simp add: romania_bvb_is_business_day_def romania_public_is_business_day_def western_easter_eq orthodox_easter_eq\<close>)

interpretation romania_bvb: weekend_market romania_bvb_impl
  by (rule weekend_marketI [where f = is_weekend_sat_sun]) (simp_all add: romania_bvb_impl_def romania_bvb_is_business_day_total romania_bvb_is_business_day_weekend)

section \<open>\<open>ukraine.rs\<close>\<close>

definition ukraine_use_is_business_day :: "date \<Rightarrow> bool option" where
  "ukraine_use_is_business_day date = do {
     w \<leftarrow> date_weekday date;
     d \<leftarrow> date_day_of_month date;
     dd \<leftarrow> date_day_of_year date;
     m \<leftarrow> date_month date;
     y \<leftarrow> date_year date;
     em \<leftarrow> orthodox_easter_monday y;
     Some (\<not> (is_weekend_sat_sun w
         \<or> ((d = 1 \<or> ((d = 2 \<or> d = 3) \<and> w = Monday)) \<and> m = January)
         \<or> ((d = 7 \<or> ((d = 8 \<or> d = 9) \<and> w = Monday)) \<and> m = January)
         \<or> ((d = 8 \<or> ((d = 9 \<or> d = 10) \<and> w = Monday)) \<and> m = March)
         \<or> dd = em
         \<or> dd = (em + 49)
         \<or> ((d = 1 \<or> d = 2 \<or> (d = 3 \<and> w = Monday)) \<and> m = May)
         \<or> ((d = 9 \<or> ((d = 10 \<or> d = 11) \<and> w = Monday)) \<and> m = May)
         \<or> (d = 28 \<and> m = June)
         \<or> (d = 24 \<and> m = August)
         \<or> (d = 14 \<and> m = October \<and> y \<ge> 2015)))
   }"

definition ukraine_use_impl :: calendar_impl where
  "ukraine_use_impl = calendar_impl_new ''Ukrainian stock exchange''
     ukraine_use_is_business_day is_weekend_sat_sun"

datatype ukraine_market = Ukraine_Use

fun ukraine_new :: "ukraine_market \<Rightarrow> calendar" where
  "ukraine_new Ukraine_Use = calendar_from_impl ukraine_use_impl"

lemma ukraine_use_is_business_day_total [total_rules]: "valid_date date \<Longrightarrow> ukraine_use_is_business_day date \<noteq> None"
  unfolding ukraine_use_is_business_day_def by (rule total_rules | assumption | (simp add: civil_ok_def; fail))+

lemma ukraine_use_is_business_day_weekend:
  assumes "valid_date date" "date_weekday date = Some w" "is_weekend_sat_sun w"
  shows "ukraine_use_is_business_day date = Some False"
  using assms(1)
  by (rule date_fields)
    (use assms(2,3) in \<open>simp add: ukraine_use_is_business_day_def western_easter_eq orthodox_easter_eq\<close>)

interpretation ukraine_use: weekend_market ukraine_use_impl
  by (rule weekend_marketI [where f = is_weekend_sat_sun]) (simp_all add: ukraine_use_impl_def ukraine_use_is_business_day_total ukraine_use_is_business_day_weekend)

section \<open>\<open>russia.rs\<close>\<close>

definition russia_MOEX_FIRST_YEAR :: int where
  "russia_MOEX_FIRST_YEAR = 2012"

definition russia_is_extra_holiday_settlement_impl :: "int \<Rightarrow> month \<Rightarrow> int \<Rightarrow> bool" where
  "russia_is_extra_holiday_settlement_impl d month year \<longleftrightarrow>
     (if year = 2017 then (case month of February \<Rightarrow> d = 24 | May \<Rightarrow> d = 8 | November \<Rightarrow> d = 6 | _ \<Rightarrow> False)
      else (if year = 2018 then (case month of March \<Rightarrow> d = 9 | April \<Rightarrow> d = 30 | May \<Rightarrow> d = 2 | June \<Rightarrow> d = 11 | December \<Rightarrow> d = 31 | _ \<Rightarrow> False)
      else (if year = 2019 then (case month of May \<Rightarrow> d = 2 \<or> d = 3 \<or> d = 10 | _ \<Rightarrow> False)
      else (if year = 2020 then (case month of March \<Rightarrow> d = 30 \<or> d = 31 | April \<Rightarrow> d = 1 \<or> d = 2 \<or> d = 3 | May \<Rightarrow> d = 4 \<or> d = 5 | _ \<Rightarrow> False)
      else False))))"

definition russia_settlement_closed_rules :: "weekday \<Rightarrow> int \<Rightarrow> month \<Rightarrow> int \<Rightarrow> bool" where
  "russia_settlement_closed_rules w d m y \<longleftrightarrow>
     is_weekend_sat_sun w
       \<or> (y \<le> 2005 \<and> d \<le> 2 \<and> m = January)
       \<or> (y \<ge> 2005 \<and> d \<le> 5 \<and> m = January)
       \<or> (y = 2012 \<and> d = 6 \<and> m = January)
       \<or> ((d = 7 \<or> ((d = 8 \<or> d = 9) \<and> w = Monday)) \<and> m = January)
       \<or> ((d = 23 \<or> ((d = 24 \<or> d = 25) \<and> w = Monday)) \<and> m = February)
       \<or> ((d = 8 \<or> ((d = 9 \<or> d = 10) \<and> w = Monday)) \<and> m = March)
       \<or> ((d = 1 \<or> ((d = 2 \<or> d = 3) \<and> w = Monday)) \<and> m = May)
       \<or> ((d = 9 \<or> ((d = 10 \<or> d = 11) \<and> w = Monday)) \<and> m = May)
       \<or> ((d = 12 \<or> ((d = 13 \<or> d = 14) \<and> w = Monday)) \<and> m = June)
       \<or> ((d = 4 \<or> ((d = 5 \<or> d = 6) \<and> w = Monday)) \<and> m = November)"

definition russia_settlement_is_business_day :: "date \<Rightarrow> bool option" where
  "russia_settlement_is_business_day date = do {
     w \<leftarrow> date_weekday date;
     d \<leftarrow> date_day_of_month date;
     m \<leftarrow> date_month date;
     y \<leftarrow> date_year date;
     if russia_settlement_closed_rules w d m y then Some False
     else if russia_is_extra_holiday_settlement_impl d m y then Some False
       else Some True
   }"

definition russia_settlement_impl :: calendar_impl where
  "russia_settlement_impl = calendar_impl_new ''Russian settlement''
     russia_settlement_is_business_day is_weekend_sat_sun"

definition russia_is_working_weekend :: "int \<Rightarrow> month \<Rightarrow> int \<Rightarrow> bool" where
  "russia_is_working_weekend d month year \<longleftrightarrow>
     (if year = 2012 then (case month of March \<Rightarrow> d = 11 | April \<Rightarrow> d = 28 | May \<Rightarrow> d = 5 \<or> d = 12 | June \<Rightarrow> d = 9 | _ \<Rightarrow> False)
      else (if year = 2016 then (case month of February \<Rightarrow> d = 20 | _ \<Rightarrow> False)
      else (if year = 2018 then (case month of April \<Rightarrow> d = 28 | June \<Rightarrow> d = 9 | December \<Rightarrow> d = 29 | _ \<Rightarrow> False)
      else False)))"

definition russia_is_extra_holiday_exchange_impl :: "int \<Rightarrow> month \<Rightarrow> int \<Rightarrow> bool" where
  "russia_is_extra_holiday_exchange_impl d month year \<longleftrightarrow>
     (if year = 2012 then (case month of January \<Rightarrow> d = 2 | March \<Rightarrow> d = 9 | April \<Rightarrow> d = 30 | June \<Rightarrow> d = 11 | _ \<Rightarrow> False)
      else (if year = 2013 then (case month of January \<Rightarrow> d = 1 \<or> d = 2 \<or> d = 3 \<or> d = 4 \<or> d = 7 | _ \<Rightarrow> False)
      else (if year = 2014 then (case month of January \<Rightarrow> d = 1 \<or> d = 2 \<or> d = 3 \<or> d = 7 | _ \<Rightarrow> False)
      else (if year = 2015 then (case month of January \<Rightarrow> d = 1 \<or> d = 2 \<or> d = 7 | _ \<Rightarrow> False)
      else (if year = 2016 then (case month of January \<Rightarrow> d = 1 \<or> d = 7 \<or> d = 8 | May \<Rightarrow> d = 2 \<or> d = 3 | June \<Rightarrow> d = 13 | December \<Rightarrow> d = 30 | _ \<Rightarrow> False)
      else (if year = 2017 then (case month of January \<Rightarrow> d = 2 | May \<Rightarrow> d = 8 | _ \<Rightarrow> False)
      else (if year = 2018 then (case month of January \<Rightarrow> d = 1 \<or> d = 2 \<or> d = 8 | December \<Rightarrow> d = 31 | _ \<Rightarrow> False)
      else (if year = 2019 then (case month of January \<Rightarrow> d = 1 \<or> d = 2 \<or> d = 7 | December \<Rightarrow> d = 31 | _ \<Rightarrow> False)
      else (if year = 2020 then (case month of January \<Rightarrow> d = 1 \<or> d = 2 \<or> d = 7 | February \<Rightarrow> d = 24 | June \<Rightarrow> d = 24 | July \<Rightarrow> d = 1 | _ \<Rightarrow> False)
      else False)))))))))"

definition russia_exchange_closed_rules :: "weekday \<Rightarrow> int \<Rightarrow> month \<Rightarrow> bool" where
  "russia_exchange_closed_rules w d m \<longleftrightarrow>
     is_weekend_sat_sun w
        \<or> (d = 23 \<and> m = February)
        \<or> ((d = 8 \<or> ((d = 9 \<or> d = 10) \<and> w = Monday)) \<and> m = March)
        \<or> (d = 1 \<and> m = May)
        \<or> ((d = 9 \<or> ((d = 10 \<or> d = 11) \<and> w = Monday)) \<and> m = May)
        \<or> (d = 12 \<and> m = June)
        \<or> ((d = 4 \<or> ((d = 5 \<or> d = 6) \<and> w = Monday)) \<and> m = November)
        \<or> (d = 31 \<and> m = December)"

definition russia_exchange_is_business_day :: "date \<Rightarrow> bool option" where
  "russia_exchange_is_business_day date = do {
     w \<leftarrow> date_weekday date;
     d \<leftarrow> date_day_of_month date;
     m \<leftarrow> date_month date;
     y \<leftarrow> date_year date;
     if y < russia_MOEX_FIRST_YEAR then None
     else if russia_is_working_weekend d m y then Some True
       else if russia_exchange_closed_rules w d m then Some False
         else if russia_is_extra_holiday_exchange_impl d m y then Some False
           else Some True
   }"

definition russia_exchange_impl :: calendar_impl where
  "russia_exchange_impl = (calendar_impl_new ''Moscow exchange''
     russia_exchange_is_business_day is_weekend_sat_sun)
     \<lparr>ci_holiday_first_year := Some russia_MOEX_FIRST_YEAR\<rparr>"

datatype russia_market = Russia_Settlement | Russia_Moex

fun russia_new :: "russia_market \<Rightarrow> calendar" where
  "russia_new Russia_Settlement = calendar_from_impl russia_settlement_impl"
| "russia_new Russia_Moex = calendar_from_impl russia_exchange_impl"

lemma russia_settlement_is_business_day_total [total_rules]: "valid_date date \<Longrightarrow> russia_settlement_is_business_day date \<noteq> None"
  unfolding russia_settlement_is_business_day_def by (rule total_rules | assumption | (simp add: civil_ok_def; fail))+

lemma russia_settlement_is_business_day_weekend:
  assumes "valid_date date" "date_weekday date = Some w" "is_weekend_sat_sun w"
  shows "russia_settlement_is_business_day date = Some False"
  using assms(1)
  by (rule date_fields)
    (use assms(2,3) in \<open>simp add: russia_settlement_is_business_day_def russia_is_extra_holiday_settlement_impl_def russia_settlement_closed_rules_def western_easter_eq orthodox_easter_eq\<close>)

interpretation russia_settlement: weekend_market russia_settlement_impl
  by (rule weekend_marketI [where f = is_weekend_sat_sun]) (simp_all add: russia_settlement_impl_def russia_settlement_is_business_day_total russia_settlement_is_business_day_weekend)

section \<open>\<open>islamicholidays.rs\<close>\<close>

definition islamicholidays_is_eid_al_fitr_dates :: "(int \<times> month \<times> int) list" where
  "islamicholidays_is_eid_al_fitr_dates = [
     (20, March, 2026), (10, March, 2027), (27, February, 2028), (15, February, 2029),
     (5, February, 2030), (25, January, 2031), (14, January, 2032), (2, January, 2033),
     (23, December, 2033), (12, December, 2034), (1, December, 2035), (19, November, 2036),
     (8, November, 2037), (29, October, 2038), (19, October, 2039), (7, October, 2040)]"

definition islamicholidays_is_eid_al_fitr :: "date \<Rightarrow> bool option" where
  "islamicholidays_is_eid_al_fitr d = do {
     any_opt (\<lambda>(day, m, y). do { x1 \<leftarrow> date_new day m y; Some (d = x1) }) islamicholidays_is_eid_al_fitr_dates
   }"

definition islamicholidays_is_eid_al_adha_dates :: "(int \<times> month \<times> int) list" where
  "islamicholidays_is_eid_al_adha_dates = [
     (27, May, 2026), (17, May, 2027), (5, May, 2028), (24, April, 2029), (13, April, 2030),
     (3, April, 2031), (22, March, 2032), (11, March, 2033), (28, February, 2034),
     (18, February, 2035), (7, February, 2036), (27, January, 2037), (16, January, 2038),
     (5, January, 2039), (26, December, 2039), (15, December, 2040)]"

definition islamicholidays_is_eid_al_adha :: "date \<Rightarrow> bool option" where
  "islamicholidays_is_eid_al_adha d = do {
     any_opt (\<lambda>(day, m, y). do { x2 \<leftarrow> date_new day m y; Some (d = x2) }) islamicholidays_is_eid_al_adha_dates
   }"

lemma islamicholidays_is_eid_al_fitr_dates_ok: "list_all civil_ok islamicholidays_is_eid_al_fitr_dates"
  by code_simp

lemma islamicholidays_is_eid_al_adha_dates_ok: "list_all civil_ok islamicholidays_is_eid_al_adha_dates"
  by code_simp

lemma islamicholidays_is_eid_al_fitr_total [total_rules]: "valid_date date \<Longrightarrow> islamicholidays_is_eid_al_fitr date \<noteq> None"
  unfolding islamicholidays_is_eid_al_fitr_def by (rule total_rules islamicholidays_is_eid_al_fitr_dates_ok | assumption | (simp add: civil_ok_def; fail))+

lemma islamicholidays_is_eid_al_adha_total [total_rules]: "valid_date date \<Longrightarrow> islamicholidays_is_eid_al_adha date \<noteq> None"
  unfolding islamicholidays_is_eid_al_adha_def by (rule total_rules islamicholidays_is_eid_al_adha_dates_ok | assumption | (simp add: civil_ok_def; fail))+

section \<open>\<open>northmacedonia.rs\<close>\<close>

definition northmacedonia_HOLIDAY_HORIZON :: int where
  "northmacedonia_HOLIDAY_HORIZON = 2040"

definition northmacedonia_mse_is_business_day :: "date \<Rightarrow> bool option" where
  "northmacedonia_mse_is_business_day date = do {
     w \<leftarrow> date_weekday date;
     d \<leftarrow> date_day_of_month date;
     dd \<leftarrow> date_day_of_year date;
     m \<leftarrow> date_month date;
     y \<leftarrow> date_year date;
     em \<leftarrow> orthodox_easter_monday y;
     lnot (lor (Some (is_weekend_sat_sun w))
        (lor (islamicholidays_is_eid_al_fitr date)
        (lor (islamicholidays_is_eid_al_adha date)
        (Some ((d = 1 \<and> m = January)
         \<or> (d = 7 \<and> m = January)
         \<or> dd = em
         \<or> (d = 1 \<and> m = May)
         \<or> (d = 24 \<and> m = May)
         \<or> (d = 2 \<and> m = August)
         \<or> (d = 8 \<and> m = September)
         \<or> (d = 11 \<and> m = October)
         \<or> (d = 23 \<and> m = October)
         \<or> (d = 8 \<and> m = December))))))
   }"

definition northmacedonia_mse_impl :: calendar_impl where
  "northmacedonia_mse_impl = (calendar_impl_new ''Macedonian Stock Exchange''
     northmacedonia_mse_is_business_day is_weekend_sat_sun)
     \<lparr>ci_holiday_horizon := Some northmacedonia_HOLIDAY_HORIZON\<rparr>"

datatype northmacedonia_market = NorthMacedonia_Mse

fun northmacedonia_new :: "northmacedonia_market \<Rightarrow> calendar" where
  "northmacedonia_new NorthMacedonia_Mse = calendar_from_impl northmacedonia_mse_impl"

lemma northmacedonia_mse_is_business_day_total [total_rules]: "valid_date date \<Longrightarrow> northmacedonia_mse_is_business_day date \<noteq> None"
  unfolding northmacedonia_mse_is_business_day_def by (rule total_rules | assumption | (simp add: civil_ok_def; fail))+

lemma northmacedonia_mse_is_business_day_weekend:
  assumes "valid_date date" "date_weekday date = Some w" "is_weekend_sat_sun w"
  shows "northmacedonia_mse_is_business_day date = Some False"
  using assms(1)
  by (rule date_fields)
    (use assms(2,3) in \<open>simp add: northmacedonia_mse_is_business_day_def western_easter_eq orthodox_easter_eq\<close>)

interpretation northmacedonia_mse: weekend_market northmacedonia_mse_impl
  by (rule weekend_marketI [where f = is_weekend_sat_sun]) (simp_all add: northmacedonia_mse_impl_def northmacedonia_mse_is_business_day_total northmacedonia_mse_is_business_day_weekend)

section \<open>\<open>uzbekistan.rs\<close>\<close>

definition uzbekistan_HOLIDAY_HORIZON :: int where
  "uzbekistan_HOLIDAY_HORIZON = 2040"

definition uzbekistan_is_business_day :: "date \<Rightarrow> bool option" where
  "uzbekistan_is_business_day date = do {
     w \<leftarrow> date_weekday date;
     d \<leftarrow> date_day_of_month date;
     m \<leftarrow> date_month date;
     lnot (lor (Some (is_weekend_sat_sun w))
        (lor (islamicholidays_is_eid_al_fitr date)
        (lor (islamicholidays_is_eid_al_adha date)
        (Some ((d = 1 \<and> m = January)
         \<or> (d = 8 \<and> m = March)
         \<or> (d = 21 \<and> m = March)
         \<or> (d = 9 \<and> m = May)
         \<or> (d = 1 \<and> m = September)
         \<or> (d = 1 \<and> m = October)
         \<or> (d = 8 \<and> m = December))))))
   }"

definition uzbekistan_impl :: calendar_impl where
  "uzbekistan_impl = (calendar_impl_new ''Uzbekistan Stock Exchange''
     uzbekistan_is_business_day is_weekend_sat_sun)
     \<lparr>ci_holiday_horizon := Some uzbekistan_HOLIDAY_HORIZON\<rparr>"

datatype uzbekistan_market = Uzbekistan_Uzse

fun uzbekistan_new :: "uzbekistan_market \<Rightarrow> calendar" where
  "uzbekistan_new Uzbekistan_Uzse = calendar_from_impl uzbekistan_impl"

lemma uzbekistan_is_business_day_total [total_rules]: "valid_date date \<Longrightarrow> uzbekistan_is_business_day date \<noteq> None"
  unfolding uzbekistan_is_business_day_def by (rule total_rules | assumption | (simp add: civil_ok_def; fail))+

lemma uzbekistan_is_business_day_weekend:
  assumes "valid_date date" "date_weekday date = Some w" "is_weekend_sat_sun w"
  shows "uzbekistan_is_business_day date = Some False"
  using assms(1)
  by (rule date_fields)
    (use assms(2,3) in \<open>simp add: uzbekistan_is_business_day_def western_easter_eq orthodox_easter_eq\<close>)

interpretation uzbekistan: weekend_market uzbekistan_impl
  by (rule weekend_marketI [where f = is_weekend_sat_sun]) (simp_all add: uzbekistan_impl_def uzbekistan_is_business_day_total uzbekistan_is_business_day_weekend)

section \<open>\<open>turkey.rs\<close>\<close>

definition turkey_HOLIDAY_HORIZON :: int where
  "turkey_HOLIDAY_HORIZON = 2034"

definition turkey_closed_rules :: "weekday \<Rightarrow> int \<Rightarrow> month \<Rightarrow> int \<Rightarrow> bool" where
  "turkey_closed_rules w d m y \<longleftrightarrow>
     is_weekend_sat_sun w
       \<or> (d = 1 \<and> m = January)
       \<or> (d = 23 \<and> m = April)
       \<or> (d = 1 \<and> m = May)
       \<or> (d = 19 \<and> m = May)
       \<or> (d = 15 \<and> m = July \<and> y \<ge> 2017)
       \<or> (d = 30 \<and> m = August)
       \<or> (d = 29 \<and> m = October)"

definition turkey_closed_rules_2 :: "int \<Rightarrow> month \<Rightarrow> int \<Rightarrow> bool" where
  "turkey_closed_rules_2 d m y \<longleftrightarrow>
     (if y = 2004 then (m = February \<and> d \<le> 4) \<or> (m = November \<and> d \<ge> 14 \<and> d \<le> 16)
      else (if y = 2005 then (m = January \<and> d \<ge> 19 \<and> d \<le> 21) \<or> (m = November \<and> d \<ge> 2 \<and> d \<le> 5)
      else (if y = 2006 then (m = January \<and> d \<ge> 10 \<and> d \<le> 13) \<or> (m = October \<and> d \<ge> 23 \<and> d \<le> 25) \<or> (m = December \<and> d = 31)
      else (if y = 2007 then (m = January \<and> d \<le> 3) \<or> (m = October \<and> d \<ge> 12 \<and> d \<le> 14) \<or> (m = December \<and> d \<ge> 20 \<and> d \<le> 23)
      else (if y = 2008 then (m = September \<and> d = 30) \<or> (m = October \<and> d \<le> 2) \<or> (m = December \<and> d \<ge> 8 \<and> d \<le> 11)
      else (if y = 2009 then (m = September \<and> d \<ge> 20 \<and> d \<le> 22) \<or> (m = November \<and> d \<ge> 27 \<and> d \<le> 30)
      else (if y = 2010 then (m = September \<and> d \<ge> 9 \<and> d \<le> 11) \<or> (m = November \<and> d \<ge> 16 \<and> d \<le> 19)
      else (if y = 2011 then (m = October \<and> d = 1) \<or> (m = November \<and> d \<ge> 9 \<and> d \<le> 13)
      else (if y = 2012 then (m = August \<and> d \<ge> 18 \<and> d \<le> 21) \<or> (m = October \<and> d \<ge> 24 \<and> d \<le> 28)
      else (if y = 2013 then (m = August \<and> d \<ge> 7 \<and> d \<le> 10) \<or> (m = October \<and> d \<ge> 14 \<and> d \<le> 18) \<or> (m = October \<and> d = 28)
      else (if y = 2014 then (m = July \<and> d \<ge> 27 \<and> d \<le> 30) \<or> (m = October \<and> d \<ge> 4 \<and> d \<le> 7) \<or> (m = October \<and> d = 29)
      else (if y = 2015 then (m = July \<and> d \<ge> 17 \<and> d \<le> 19) \<or> (m = October \<and> d \<ge> 24 \<and> d \<le> 27)
      else (if y = 2016 then (m = July \<and> d \<ge> 5 \<and> d \<le> 7) \<or> (m = September \<and> d \<ge> 12 \<and> d \<le> 15)
      else (if y = 2017 then (m = June \<and> d \<ge> 25 \<and> d \<le> 27) \<or> (m = September \<and> d \<ge> 1 \<and> d \<le> 4)
      else (if y = 2018 then (m = June \<and> d \<ge> 15 \<and> d \<le> 17) \<or> (m = August \<and> d \<ge> 21 \<and> d \<le> 24)
      else (if y = 2019 then (m = June \<and> d \<ge> 4 \<and> d \<le> 6) \<or> (m = August \<and> d \<ge> 11 \<and> d \<le> 14)
      else (if y = 2020 then (m = May \<and> d \<ge> 24 \<and> d \<le> 26) \<or> (m = July \<and> d = 31) \<or> (m = August \<and> d \<ge> 1 \<and> d \<le> 3)
      else (if y = 2021 then (m = May \<and> d \<ge> 13 \<and> d \<le> 15) \<or> (m = July \<and> d \<ge> 20 \<and> d \<le> 23)
      else (if y = 2022 then (m = May \<and> d \<ge> 2 \<and> d \<le> 4) \<or> (m = July \<and> d \<ge> 9 \<and> d \<le> 12)
      else (if y = 2023 then (m = April \<and> d \<ge> 21 \<and> d \<le> 23) \<or> (m = June \<and> d \<ge> 28 \<and> d \<le> 30)
      else (if y = 2024 then (m = April \<and> d \<ge> 10 \<and> d \<le> 12) \<or> (m = June \<and> d \<ge> 17 \<and> d \<le> 19)
      else (if y = 2025 then (m = March \<and> d = 31) \<or> (m = April \<and> d \<ge> 1 \<and> d \<le> 2) \<or> (m = June \<and> d \<ge> 6 \<and> d \<le> 9)
      else (if y = 2026 then (m = March \<and> d \<ge> 20 \<and> d \<le> 22) \<or> (m = May \<and> d \<ge> 26 \<and> d \<le> 29)
      else (if y = 2027 then (m = March \<and> d \<ge> 10 \<and> d \<le> 12) \<or> (m = May \<and> d \<ge> 16 \<and> d \<le> 19)
      else (if y = 2028 then (m = February \<and> d \<ge> 27 \<and> d \<le> 29) \<or> (m = May \<and> d \<ge> 4 \<and> d \<le> 7)
      else (if y = 2029 then (m = February \<and> d \<ge> 15 \<and> d \<le> 17) \<or> (m = April \<and> d \<ge> 23 \<and> d \<le> 26)
      else (if y = 2030 then (m = February \<and> d \<ge> 5 \<and> d \<le> 7) \<or> (m = April \<and> d \<ge> 13 \<and> d \<le> 16)
      else (if y = 2031 then (m = January \<and> d \<ge> 25 \<and> d \<le> 27) \<or> (m = April \<and> d \<ge> 2 \<and> d \<le> 5)
      else (if y = 2032 then (m = January \<and> d \<ge> 14 \<and> d \<le> 16) \<or> (m = March \<and> d \<ge> 21 \<and> d \<le> 24)
      else (if y = 2033 then (m = January \<and> d \<ge> 3 \<and> d \<le> 5) \<or> (m = December \<and> d = 23) \<or> (m = March \<and> d \<ge> 11 \<and> d \<le> 14)
      else y = 2034 \<and> ((m = December \<and> d \<ge> 12 \<and> d \<le> 14) \<or> (m = February \<and> d = 28) \<or> (m = March \<and> d \<ge> 1 \<and> d \<le> 3))))))))))))))))))))))))))))))))"

definition turkey_is_business_day :: "date \<Rightarrow> bool option" where
  "turkey_is_business_day date = do {
     w \<leftarrow> date_weekday date;
     d \<leftarrow> date_day_of_month date;
     m \<leftarrow> date_month date;
     y \<leftarrow> date_year date;
     if turkey_closed_rules w d m y then Some False
     else if turkey_closed_rules_2 d m y then Some False
       else Some True
   }"

definition turkey_impl :: calendar_impl where
  "turkey_impl = (calendar_impl_new ''Turkey''
     turkey_is_business_day is_weekend_sat_sun)
     \<lparr>ci_holiday_horizon := Some turkey_HOLIDAY_HORIZON\<rparr>"

definition turkey_new :: calendar where
  "turkey_new = calendar_from_impl turkey_impl"

lemma turkey_is_business_day_total [total_rules]: "valid_date date \<Longrightarrow> turkey_is_business_day date \<noteq> None"
  unfolding turkey_is_business_day_def by (rule total_rules | assumption | (simp add: civil_ok_def; fail))+

lemma turkey_is_business_day_weekend:
  assumes "valid_date date" "date_weekday date = Some w" "is_weekend_sat_sun w"
  shows "turkey_is_business_day date = Some False"
  using assms(1)
  by (rule date_fields)
    (use assms(2,3) in \<open>simp add: turkey_is_business_day_def turkey_closed_rules_def turkey_closed_rules_2_def western_easter_eq orthodox_easter_eq\<close>)

interpretation turkey: weekend_market turkey_impl
  by (rule weekend_marketI [where f = is_weekend_sat_sun]) (simp_all add: turkey_impl_def turkey_is_business_day_total turkey_is_business_day_weekend)

end
