(* ===== verification/Markets_China.thy ===== *)
theory Markets_China
  imports Market_Rules
begin

text \<open>
  \<open>time/calendars/\<close>: the Chinese, Hong Kong and Taiwan markets
  (\<open>china.rs, hongkong.rs, taiwan.rs\<close>). Each market
  is the predicate its \<open>is_business_day\<close> computes, clause by clause, and the record of its
  methods; each is shown to answer on every supported date, and to be closed on its weekend.
\<close>

section \<open>\<open>china.rs\<close>\<close>

definition china_HOLIDAY_HORIZON :: int where
  "china_HOLIDAY_HORIZON = 2026"

definition china_is_weekend :: "weekday \<Rightarrow> bool" where
  "china_is_weekend w \<longleftrightarrow>
     w = Saturday
     \<or> w = Sunday"

definition china_sse_is_business_day :: "date \<Rightarrow> bool option" where
  "china_sse_is_business_day date = do {
     w \<leftarrow> date_weekday date;
     d \<leftarrow> date_day_of_month date;
     m \<leftarrow> date_month date;
     y \<leftarrow> date_year date;
     Some (\<not> (china_is_weekend w
         \<or> (d = 1 \<and> m = January)
         \<or> (y = 2005 \<and> d = 3 \<and> m = January)
         \<or> (y = 2006 \<and> (d = 2 \<or> d = 3) \<and> m = January)
         \<or> (y = 2007 \<and> d \<le> 3 \<and> m = January)
         \<or> (y = 2007 \<and> d = 31 \<and> m = December)
         \<or> (y = 2009 \<and> d = 2 \<and> m = January)
         \<or> (y = 2011 \<and> d = 3 \<and> m = January)
         \<or> (y = 2012 \<and> (d = 2 \<or> d = 3) \<and> m = January)
         \<or> (y = 2013 \<and> d \<le> 3 \<and> m = January)
         \<or> (y = 2014 \<and> d = 1 \<and> m = January)
         \<or> (y = 2015 \<and> d \<le> 3 \<and> m = January)
         \<or> (y = 2017 \<and> d = 2 \<and> m = January)
         \<or> (y = 2018 \<and> d = 1 \<and> m = January)
         \<or> (y = 2018 \<and> d = 31 \<and> m = December)
         \<or> (y = 2019 \<and> d = 1 \<and> m = January)
         \<or> (y = 2020 \<and> d = 1 \<and> m = January)
         \<or> (y = 2021 \<and> d = 1 \<and> m = January)
         \<or> (y = 2022 \<and> d = 3 \<and> m = January)
         \<or> (y = 2023 \<and> d = 2 \<and> m = January)
         \<or> (y = 2026 \<and> (d = 1 \<or> d = 2) \<and> m = January)
         \<or> (y = 2004 \<and> d \<ge> 19 \<and> d \<le> 28 \<and> m = January)
         \<or> (y = 2005 \<and> d \<ge> 7 \<and> d \<le> 15 \<and> m = February)
         \<or> (y = 2006 \<and> ((d \<ge> 26 \<and> m = January) \<or> (d \<le> 3 \<and> m = February)))
         \<or> (y = 2007 \<and> d \<ge> 17 \<and> d \<le> 25 \<and> m = February)
         \<or> (y = 2008 \<and> d \<ge> 6 \<and> d \<le> 12 \<and> m = February)
         \<or> (y = 2009 \<and> d \<ge> 26 \<and> d \<le> 30 \<and> m = January)
         \<or> (y = 2010 \<and> d \<ge> 15 \<and> d \<le> 19 \<and> m = February)
         \<or> (y = 2011 \<and> d \<ge> 2 \<and> d \<le> 8 \<and> m = February)
         \<or> (y = 2012 \<and> d \<ge> 23 \<and> d \<le> 28 \<and> m = January)
         \<or> (y = 2013 \<and> d \<ge> 11 \<and> d \<le> 15 \<and> m = February)
         \<or> (y = 2014 \<and> d \<ge> 31 \<and> m = January)
         \<or> (y = 2014 \<and> d \<le> 6 \<and> m = February)
         \<or> (y = 2015 \<and> d \<ge> 18 \<and> d \<le> 24 \<and> m = February)
         \<or> (y = 2016 \<and> d \<ge> 8 \<and> d \<le> 12 \<and> m = February)
         \<or> (y = 2017 \<and> ((d \<ge> 27 \<and> m = January) \<or> (d \<le> 2 \<and> m = February)))
         \<or> (y = 2018 \<and> d \<ge> 15 \<and> d \<le> 21 \<and> m = February)
         \<or> (y = 2019 \<and> d \<ge> 4 \<and> d \<le> 8 \<and> m = February)
         \<or> (y = 2020 \<and> (d = 24 \<or> (d \<ge> 27 \<and> d \<le> 31)) \<and> m = January)
         \<or> (y = 2021 \<and> (d = 11 \<or> d = 12 \<or> d = 15 \<or> d = 16 \<or> d = 17) \<and> m = February)
         \<or> (y = 2022 \<and> ((d = 31 \<and> m = January) \<or> (d \<le> 4 \<and> m = February)))
         \<or> (y = 2023 \<and> d \<ge> 23 \<and> d \<le> 27 \<and> m = January)
         \<or> (y = 2024 \<and> (d = 9 \<or> (d \<ge> 12 \<and> d \<le> 16)) \<and> m = February)
         \<or> (y = 2025 \<and> ((d \<ge> 28 \<and> d \<le> 31 \<and> m = January) \<or> (d \<ge> 3 \<and> d \<le> 4 \<and> m = February)))
         \<or> (y = 2026 \<and> ((d \<ge> 16 \<and> d \<le> 20) \<or> d = 23) \<and> m = February)
         \<or> (y \<le> 2008 \<and> d = 4 \<and> m = April)
         \<or> (y = 2009 \<and> d = 6 \<and> m = April)
         \<or> (y = 2010 \<and> d = 5 \<and> m = April)
         \<or> (y = 2011 \<and> d \<ge> 3 \<and> d \<le> 5 \<and> m = April)
         \<or> (y = 2012 \<and> d \<ge> 2 \<and> d \<le> 4 \<and> m = April)
         \<or> (y = 2013 \<and> d \<ge> 4 \<and> d \<le> 5 \<and> m = April)
         \<or> (y = 2014 \<and> d = 7 \<and> m = April)
         \<or> (y = 2015 \<and> d \<ge> 5 \<and> d \<le> 6 \<and> m = April)
         \<or> (y = 2016 \<and> d = 4 \<and> m = April)
         \<or> (y = 2017 \<and> d \<ge> 3 \<and> d \<le> 4 \<and> m = April)
         \<or> (y = 2018 \<and> d \<ge> 5 \<and> d \<le> 6 \<and> m = April)
         \<or> (y = 2019 \<and> d = 5 \<and> m = April)
         \<or> (y = 2020 \<and> d = 6 \<and> m = April)
         \<or> (y = 2021 \<and> d = 5 \<and> m = April)
         \<or> (y = 2022 \<and> d \<ge> 4 \<and> d \<le> 5 \<and> m = April)
         \<or> (y = 2023 \<and> d = 5 \<and> m = April)
         \<or> (y = 2024 \<and> d \<ge> 4 \<and> d \<le> 5 \<and> m = April)
         \<or> (y = 2025 \<and> d = 4 \<and> m = April)
         \<or> (y = 2026 \<and> d = 6 \<and> m = April)
         \<or> (y \<le> 2007 \<and> d \<ge> 1 \<and> d \<le> 7 \<and> m = May)
         \<or> (y = 2008 \<and> d \<ge> 1 \<and> d \<le> 2 \<and> m = May)
         \<or> (y = 2009 \<and> d = 1 \<and> m = May)
         \<or> (y = 2010 \<and> d = 3 \<and> m = May)
         \<or> (y = 2011 \<and> d = 2 \<and> m = May)
         \<or> (y = 2012 \<and> ((d = 30 \<and> m = April) \<or> (d = 1 \<and> m = May)))
         \<or> (y = 2013 \<and> ((d \<ge> 29 \<and> m = April) \<or> (d = 1 \<and> m = May)))
         \<or> (y = 2014 \<and> d \<ge> 1 \<and> d \<le> 3 \<and> m = May)
         \<or> (y = 2015 \<and> d = 1 \<and> m = May)
         \<or> (y = 2016 \<and> d \<ge> 1 \<and> d \<le> 2 \<and> m = May)
         \<or> (y = 2017 \<and> d = 1 \<and> m = May)
         \<or> (y = 2018 \<and> ((d = 30 \<and> m = April) \<or> (d = 1 \<and> m = May)))
         \<or> (y = 2019 \<and> d \<ge> 1 \<and> d \<le> 3 \<and> m = May)
         \<or> (y = 2020 \<and> (d = 1 \<or> d = 4 \<or> d = 5) \<and> m = May)
         \<or> (y = 2021 \<and> (d = 3 \<or> d = 4 \<or> d = 5) \<and> m = May)
         \<or> (y = 2022 \<and> d \<ge> 2 \<and> d \<le> 4 \<and> m = May)
         \<or> (y = 2023 \<and> d \<ge> 1 \<and> d \<le> 3 \<and> m = May)
         \<or> (y = 2024 \<and> d \<ge> 1 \<and> d \<le> 3 \<and> m = May)
         \<or> (y = 2025 \<and> (d = 1 \<or> d = 2 \<or> d = 5) \<and> m = May)
         \<or> (y = 2026 \<and> (d = 1 \<or> d = 4 \<or> d = 5) \<and> m = May)
         \<or> (y \<le> 2008 \<and> d = 9 \<and> m = June)
         \<or> (y = 2009 \<and> (d = 28 \<or> d = 29) \<and> m = May)
         \<or> (y = 2010 \<and> d \<ge> 14 \<and> d \<le> 16 \<and> m = June)
         \<or> (y = 2011 \<and> d \<ge> 4 \<and> d \<le> 6 \<and> m = June)
         \<or> (y = 2012 \<and> d \<ge> 22 \<and> d \<le> 24 \<and> m = June)
         \<or> (y = 2013 \<and> d \<ge> 10 \<and> d \<le> 12 \<and> m = June)
         \<or> (y = 2014 \<and> d = 2 \<and> m = June)
         \<or> (y = 2015 \<and> d = 22 \<and> m = June)
         \<or> (y = 2016 \<and> d \<ge> 9 \<and> d \<le> 10 \<and> m = June)
         \<or> (y = 2017 \<and> d \<ge> 29 \<and> d \<le> 30 \<and> m = May)
         \<or> (y = 2018 \<and> d = 18 \<and> m = June)
         \<or> (y = 2019 \<and> d = 7 \<and> m = June)
         \<or> (y = 2020 \<and> d \<ge> 25 \<and> d \<le> 26 \<and> m = June)
         \<or> (y = 2021 \<and> d = 14 \<and> m = June)
         \<or> (y = 2022 \<and> d = 3 \<and> m = June)
         \<or> (y = 2023 \<and> d \<ge> 22 \<and> d \<le> 23 \<and> m = June)
         \<or> (y = 2024 \<and> d = 10 \<and> m = June)
         \<or> (y = 2025 \<and> d = 2 \<and> m = June)
         \<or> (y = 2026 \<and> d = 19 \<and> m = June)
         \<or> (y \<le> 2008 \<and> d = 15 \<and> m = September)
         \<or> (y = 2010 \<and> d \<ge> 22 \<and> d \<le> 24 \<and> m = September)
         \<or> (y = 2011 \<and> d \<ge> 10 \<and> d \<le> 12 \<and> m = September)
         \<or> (y = 2012 \<and> d = 30 \<and> m = September)
         \<or> (y = 2013 \<and> d \<ge> 19 \<and> d \<le> 20 \<and> m = September)
         \<or> (y = 2014 \<and> d = 8 \<and> m = September)
         \<or> (y = 2015 \<and> d = 27 \<and> m = September)
         \<or> (y = 2016 \<and> d \<ge> 15 \<and> d \<le> 16 \<and> m = September)
         \<or> (y = 2018 \<and> d = 24 \<and> m = September)
         \<or> (y = 2019 \<and> d = 13 \<and> m = September)
         \<or> (y = 2021 \<and> (d = 20 \<or> d = 21) \<and> m = September)
         \<or> (y = 2022 \<and> d = 12 \<and> m = September)
         \<or> (y = 2023 \<and> d = 29 \<and> m = September)
         \<or> (y = 2024 \<and> d \<ge> 16 \<and> d \<le> 17 \<and> m = September)
         \<or> (y = 2026 \<and> d = 25 \<and> m = September)
         \<or> (y \<le> 2007 \<and> d \<ge> 1 \<and> d \<le> 7 \<and> m = October)
         \<or> (y = 2008 \<and> ((d \<ge> 29 \<and> m = September) \<or> (d \<le> 3 \<and> m = October)))
         \<or> (y = 2009 \<and> d \<ge> 1 \<and> d \<le> 8 \<and> m = October)
         \<or> (y = 2010 \<and> d \<ge> 1 \<and> d \<le> 7 \<and> m = October)
         \<or> (y = 2011 \<and> d \<ge> 1 \<and> d \<le> 7 \<and> m = October)
         \<or> (y = 2012 \<and> d \<ge> 1 \<and> d \<le> 7 \<and> m = October)
         \<or> (y = 2013 \<and> d \<ge> 1 \<and> d \<le> 7 \<and> m = October)
         \<or> (y = 2014 \<and> d \<ge> 1 \<and> d \<le> 7 \<and> m = October)
         \<or> (y = 2015 \<and> d \<ge> 1 \<and> d \<le> 7 \<and> m = October)
         \<or> (y = 2016 \<and> d \<ge> 3 \<and> d \<le> 7 \<and> m = October)
         \<or> (y = 2017 \<and> d \<ge> 2 \<and> d \<le> 6 \<and> m = October)
         \<or> (y = 2018 \<and> d \<ge> 1 \<and> d \<le> 5 \<and> m = October)
         \<or> (y = 2019 \<and> d \<ge> 1 \<and> d \<le> 7 \<and> m = October)
         \<or> (y = 2020 \<and> d \<ge> 1 \<and> d \<le> 2 \<and> m = October)
         \<or> (y = 2020 \<and> d \<ge> 5 \<and> d \<le> 8 \<and> m = October)
         \<or> (y = 2021 \<and> (d = 1 \<or> d = 4 \<or> d = 5 \<or> d = 6 \<or> d = 7) \<and> m = October)
         \<or> (y = 2022 \<and> d \<ge> 3 \<and> d \<le> 7 \<and> m = October)
         \<or> (y = 2023 \<and> d \<ge> 2 \<and> d \<le> 6 \<and> m = October)
         \<or> (y = 2024 \<and> ((d \<ge> 1 \<and> d \<le> 4) \<or> d = 7) \<and> m = October)
         \<or> (y = 2025 \<and> ((d \<ge> 1 \<and> d \<le> 3) \<or> (d \<ge> 6 \<and> d \<le> 8)) \<and> m = October)
         \<or> (y = 2026 \<and> ((d \<ge> 1 \<and> d \<le> 2) \<or> (d \<ge> 5 \<and> d \<le> 7)) \<and> m = October)
         \<or> (y = 2015 \<and> d \<ge> 3 \<and> d \<le> 4 \<and> m = September)))
   }"

definition china_sse_impl :: calendar_impl where
  "china_sse_impl = (calendar_impl_new ''Shanghai stock exchange''
     china_sse_is_business_day china_is_weekend)
     \<lparr>ci_holiday_horizon := Some china_HOLIDAY_HORIZON\<rparr>"

definition china_working_weekends :: "(int \<times> month \<times> int) list" where
  "china_working_weekends = [
     (5, February, 2005), (6, February, 2005), (30, April, 2005), (8, May, 2005),
     (8, October, 2005), (9, October, 2005), (31, December, 2005), (28, January, 2006),
     (29, April, 2006), (30, April, 2006), (30, September, 2006), (30, December, 2006),
     (31, December, 2006), (17, February, 2007), (25, February, 2007), (28, April, 2007),
     (29, April, 2007), (29, September, 2007), (30, September, 2007), (29, December, 2007),
     (2, February, 2008), (3, February, 2008), (4, May, 2008), (27, September, 2008),
     (28, September, 2008), (4, January, 2009), (24, January, 2009), (1, February, 2009),
     (31, May, 2009), (27, September, 2009), (10, October, 2009), (20, February, 2010),
     (21, February, 2010), (12, June, 2010), (13, June, 2010), (19, September, 2010),
     (25, September, 2010), (26, September, 2010), (9, October, 2010), (30, January, 2011),
     (12, February, 2011), (2, April, 2011), (8, October, 2011), (9, October, 2011),
     (31, December, 2011), (21, January, 2012), (29, January, 2012), (31, March, 2012),
     (1, April, 2012), (28, April, 2012), (29, September, 2012), (5, January, 2013),
     (6, January, 2013), (16, February, 2013), (17, February, 2013), (7, April, 2013),
     (27, April, 2013), (28, April, 2013), (8, June, 2013), (9, June, 2013),
     (22, September, 2013), (29, September, 2013), (12, October, 2013), (26, January, 2014),
     (8, February, 2014), (4, May, 2014), (28, September, 2014), (11, October, 2014),
     (4, January, 2015), (15, February, 2015), (28, February, 2015), (6, September, 2015),
     (10, October, 2015), (6, February, 2016), (14, February, 2016), (12, June, 2016),
     (18, September, 2016), (8, October, 2016), (9, October, 2016), (22, January, 2017),
     (4, February, 2017), (1, April, 2017), (27, May, 2017), (30, September, 2017),
     (11, February, 2018), (24, February, 2018), (8, April, 2018), (28, April, 2018),
     (29, September, 2018), (30, September, 2018), (29, December, 2018), (2, February, 2019),
     (3, February, 2019), (28, April, 2019), (5, May, 2019), (29, September, 2019),
     (12, October, 2019), (19, January, 2020), (26, April, 2020), (9, May, 2020),
     (28, June, 2020), (27, September, 2020), (10, October, 2020), (7, February, 2021),
     (20, February, 2021), (25, April, 2021), (8, May, 2021), (18, September, 2021),
     (26, September, 2021), (9, October, 2021), (29, January, 2022), (30, January, 2022),
     (2, April, 2022), (24, April, 2022), (7, May, 2022), (8, October, 2022),
     (9, October, 2022), (28, January, 2023), (29, January, 2023), (23, April, 2023),
     (6, May, 2023), (25, June, 2023), (7, October, 2023), (8, October, 2023),
     (4, February, 2024), (9, February, 2024), (18, February, 2024), (7, April, 2024),
     (28, April, 2024), (11, May, 2024), (14, September, 2024), (29, September, 2024),
     (12, October, 2024), (26, January, 2025), (8, February, 2025), (27, April, 2025),
     (28, September, 2025), (11, October, 2025), (4, January, 2026), (14, February, 2026),
     (28, February, 2026), (9, May, 2026), (20, September, 2026), (10, October, 2026)]"

definition china_ib_is_business_day :: "date \<Rightarrow> bool option" where
  "china_ib_is_business_day date = do {
     working_weekends \<leftarrow> dates_of china_working_weekends;
     lor (china_sse_is_business_day date)
        (Some ((date \<in> set working_weekends)))
   }"

definition china_ib_impl :: calendar_impl where
  "china_ib_impl = (calendar_impl_new ''China inter bank market''
     china_ib_is_business_day china_is_weekend)
     \<lparr>ci_holiday_horizon := Some china_HOLIDAY_HORIZON\<rparr>"

datatype china_market = China_Sse | China_Ib

fun china_new :: "china_market \<Rightarrow> calendar" where
  "china_new China_Sse = calendar_from_impl china_sse_impl"
| "china_new China_Ib = calendar_from_impl china_ib_impl"

lemma china_working_weekends_ok: "list_all civil_ok china_working_weekends"
  by code_simp

lemma china_sse_is_business_day_total [total_rules]: "valid_date date \<Longrightarrow> china_sse_is_business_day date \<noteq> None"
  unfolding china_sse_is_business_day_def by (rule total_rules | assumption | (simp add: civil_ok_def; fail))+

lemma china_ib_is_business_day_total [total_rules]: "valid_date date \<Longrightarrow> china_ib_is_business_day date \<noteq> None"
  unfolding china_ib_is_business_day_def by (rule total_rules china_working_weekends_ok | assumption | (simp add: civil_ok_def; fail))+

lemma china_sse_is_business_day_weekend:
  assumes "valid_date date" "date_weekday date = Some w" "china_is_weekend w"
  shows "china_sse_is_business_day date = Some False"
  using assms(1)
  by (rule date_fields)
    (use assms(2,3) in \<open>simp add: china_sse_is_business_day_def western_easter_eq orthodox_easter_eq\<close>)

interpretation china_sse: weekend_market china_sse_impl
  by (rule weekend_marketI [where f = china_is_weekend]) (simp_all add: china_sse_impl_def china_sse_is_business_day_total china_sse_is_business_day_weekend)

interpretation china_ib: market china_ib_impl
  by standard (simp_all add: china_ib_impl_def china_ib_is_business_day_total)

section \<open>\<open>hongkong.rs\<close>\<close>

definition hongkong_HOLIDAY_HORIZON :: int where
  "hongkong_HOLIDAY_HORIZON = 2025"

definition hongkong_hkex_closed_rules :: "weekday \<Rightarrow> int \<Rightarrow> int \<Rightarrow> month \<Rightarrow> int \<Rightarrow> bool" where
  "hongkong_hkex_closed_rules w d dd m em \<longleftrightarrow>
     is_weekend_sat_sun w
       \<or> ((d = 1 \<or> (d = 2 \<and> w = Monday)) \<and> m = January)
       \<or> dd = (em - 3)
       \<or> dd = em
       \<or> ((d = 1 \<or> (d = 2 \<and> w = Monday)) \<and> m = May)
       \<or> ((d = 1 \<or> (d = 2 \<and> w = Monday)) \<and> m = July)
       \<or> ((d = 1 \<or> (d = 2 \<and> w = Monday)) \<and> m = October)
       \<or> (d = 25 \<and> m = December)
       \<or> (d = 26 \<and> m = December)"

definition hongkong_hkex_closed_2004 :: "int \<Rightarrow> month \<Rightarrow> int \<Rightarrow> bool" where
  "hongkong_hkex_closed_2004 d m y \<longleftrightarrow>
     y = 2004 \<and> (((d = 22 \<or> d = 23 \<or> d = 24) \<and> m = January) \<or> (d = 5 \<and> m = April) \<or> (d = 26 \<and> m = May) \<or> (d = 22 \<and> m = June) \<or> (d = 29 \<and> m = September) \<or> (d = 22 \<and> m = October))"

definition hongkong_hkex_closed_2005 :: "int \<Rightarrow> month \<Rightarrow> int \<Rightarrow> bool" where
  "hongkong_hkex_closed_2005 d m y \<longleftrightarrow>
     y = 2005 \<and> (((d = 9 \<or> d = 10 \<or> d = 11) \<and> m = February) \<or> (d = 5 \<and> m = April) \<or> (d = 16 \<and> m = May) \<or> (d = 11 \<and> m = June) \<or> (d = 19 \<and> m = September) \<or> (d = 11 \<and> m = October))"

definition hongkong_hkex_closed_2006 :: "int \<Rightarrow> month \<Rightarrow> int \<Rightarrow> bool" where
  "hongkong_hkex_closed_2006 d m y \<longleftrightarrow>
     y = 2006 \<and> ((d \<ge> 28 \<and> d \<le> 31 \<and> m = January) \<or> (d = 5 \<and> m = April) \<or> (d = 5 \<and> m = May) \<or> (d = 31 \<and> m = May) \<or> (d = 7 \<and> m = October) \<or> (d = 30 \<and> m = October))"

definition hongkong_hkex_closed_2007 :: "int \<Rightarrow> month \<Rightarrow> int \<Rightarrow> bool" where
  "hongkong_hkex_closed_2007 d m y \<longleftrightarrow>
     y = 2007 \<and> ((d \<ge> 17 \<and> d \<le> 20 \<and> m = February) \<or> (d = 5 \<and> m = April) \<or> (d = 24 \<and> m = May) \<or> (d = 19 \<and> m = June) \<or> (d = 26 \<and> m = September) \<or> (d = 19 \<and> m = October))"

definition hongkong_hkex_closed_2008 :: "int \<Rightarrow> month \<Rightarrow> int \<Rightarrow> bool" where
  "hongkong_hkex_closed_2008 d m y \<longleftrightarrow>
     y = 2008 \<and> ((d \<ge> 7 \<and> d \<le> 9 \<and> m = February) \<or> (d = 4 \<and> m = April) \<or> (d = 12 \<and> m = May) \<or> (d = 9 \<and> m = June) \<or> (d = 15 \<and> m = September) \<or> (d = 7 \<and> m = October))"

definition hongkong_hkex_closed_2009 :: "int \<Rightarrow> month \<Rightarrow> int \<Rightarrow> bool" where
  "hongkong_hkex_closed_2009 d m y \<longleftrightarrow>
     y = 2009 \<and> ((d \<ge> 26 \<and> d \<le> 28 \<and> m = January) \<or> (d = 4 \<and> m = April) \<or> (d = 2 \<and> m = May) \<or> (d = 28 \<and> m = May) \<or> (d = 3 \<and> m = October) \<or> (d = 26 \<and> m = October))"

definition hongkong_hkex_closed_2010 :: "int \<Rightarrow> month \<Rightarrow> int \<Rightarrow> bool" where
  "hongkong_hkex_closed_2010 d m y \<longleftrightarrow>
     y = 2010 \<and> (((d = 15 \<or> d = 16) \<and> m = February) \<or> (d = 6 \<and> m = April) \<or> (d = 21 \<and> m = May) \<or> (d = 16 \<and> m = June) \<or> (d = 23 \<and> m = September))"

definition hongkong_hkex_closed_2011 :: "int \<Rightarrow> month \<Rightarrow> int \<Rightarrow> bool" where
  "hongkong_hkex_closed_2011 d m y \<longleftrightarrow>
     y = 2011 \<and> (((d = 3 \<or> d = 4) \<and> m = February) \<or> (d = 5 \<and> m = April) \<or> (d = 10 \<and> m = May) \<or> (d = 6 \<and> m = June) \<or> (d = 13 \<and> m = September) \<or> (d = 5 \<and> m = October) \<or> (d = 27 \<and> m = December))"

definition hongkong_hkex_closed_2012 :: "int \<Rightarrow> month \<Rightarrow> int \<Rightarrow> bool" where
  "hongkong_hkex_closed_2012 d m y \<longleftrightarrow>
     y = 2012 \<and> ((d \<ge> 23 \<and> d \<le> 25 \<and> m = January) \<or> (d = 4 \<and> m = April) \<or> (d = 10 \<and> m = May) \<or> (d = 1 \<and> m = October) \<or> (d = 23 \<and> m = October))"

definition hongkong_hkex_closed_2013 :: "int \<Rightarrow> month \<Rightarrow> int \<Rightarrow> bool" where
  "hongkong_hkex_closed_2013 d m y \<longleftrightarrow>
     y = 2013 \<and> ((d \<ge> 11 \<and> d \<le> 13 \<and> m = February) \<or> (d = 4 \<and> m = April) \<or> (d = 17 \<and> m = May) \<or> (d = 12 \<and> m = June) \<or> (d = 20 \<and> m = September) \<or> (d = 14 \<and> m = October))"

definition hongkong_hkex_closed_2014 :: "int \<Rightarrow> month \<Rightarrow> int \<Rightarrow> bool" where
  "hongkong_hkex_closed_2014 d m y \<longleftrightarrow>
     y = 2014 \<and> ((d = 31 \<and> m = January) \<or> (d \<le> 3 \<and> m = February) \<or> (d = 6 \<and> m = May) \<or> (d = 2 \<and> m = June) \<or> (d = 9 \<and> m = September) \<or> (d = 2 \<and> m = October))"

definition hongkong_hkex_closed_2015 :: "int \<Rightarrow> month \<Rightarrow> int \<Rightarrow> bool" where
  "hongkong_hkex_closed_2015 d m y \<longleftrightarrow>
     y = 2015 \<and> ((d = 19 \<and> m = February) \<or> (d = 20 \<and> m = February) \<or> (d = 7 \<and> m = April) \<or> (d = 25 \<and> m = May) \<or> (d = 20 \<and> m = June) \<or> (d = 3 \<and> m = September) \<or> (d = 28 \<and> m = September) \<or> (d = 21 \<and> m = October))"

definition hongkong_hkex_closed_2016 :: "int \<Rightarrow> month \<Rightarrow> int \<Rightarrow> bool" where
  "hongkong_hkex_closed_2016 d m y \<longleftrightarrow>
     y = 2016 \<and> ((d \<ge> 8 \<and> d \<le> 10 \<and> m = February) \<or> (d = 4 \<and> m = April) \<or> (d = 9 \<and> m = June) \<or> (d = 16 \<and> m = September) \<or> (d = 10 \<and> m = October) \<or> (d = 27 \<and> m = December))"

definition hongkong_hkex_closed_2017 :: "int \<Rightarrow> month \<Rightarrow> int \<Rightarrow> bool" where
  "hongkong_hkex_closed_2017 d m y \<longleftrightarrow>
     y = 2017 \<and> (((d = 30 \<or> d = 31) \<and> m = January) \<or> (d = 4 \<and> m = April) \<or> (d = 3 \<and> m = May) \<or> (d = 30 \<and> m = May) \<or> (d = 5 \<and> m = October))"

definition hongkong_hkex_closed_2018 :: "int \<Rightarrow> month \<Rightarrow> int \<Rightarrow> bool" where
  "hongkong_hkex_closed_2018 d m y \<longleftrightarrow>
     y = 2018 \<and> ((d = 16 \<and> m = February) \<or> (d = 19 \<and> m = February) \<or> (d = 5 \<and> m = April) \<or> (d = 22 \<and> m = May) \<or> (d = 18 \<and> m = June) \<or> (d = 25 \<and> m = September) \<or> (d = 17 \<and> m = October))"

definition hongkong_hkex_closed_2019 :: "int \<Rightarrow> month \<Rightarrow> int \<Rightarrow> bool" where
  "hongkong_hkex_closed_2019 d m y \<longleftrightarrow>
     y = 2019 \<and> ((d \<ge> 5 \<and> d \<le> 7 \<and> m = February) \<or> (d = 5 \<and> m = April) \<or> (d = 7 \<and> m = June) \<or> (d = 7 \<and> m = October))"

definition hongkong_hkex_closed_2020 :: "int \<Rightarrow> month \<Rightarrow> int \<Rightarrow> bool" where
  "hongkong_hkex_closed_2020 d m y \<longleftrightarrow>
     y = 2020 \<and> (((d = 27 \<or> d = 28) \<and> m = January) \<or> (d = 4 \<and> m = April) \<or> (d = 30 \<and> m = April) \<or> (d = 25 \<and> m = June) \<or> (d = 2 \<and> m = October) \<or> (d = 26 \<and> m = October))"

definition hongkong_hkex_closed_2021 :: "int \<Rightarrow> month \<Rightarrow> int \<Rightarrow> bool" where
  "hongkong_hkex_closed_2021 d m y \<longleftrightarrow>
     y = 2021 \<and> (((d = 12 \<or> d = 15) \<and> m = February) \<or> (d = 5 \<and> m = April) \<or> (d = 19 \<and> m = May) \<or> (d = 14 \<and> m = June) \<or> (d = 22 \<and> m = September) \<or> (d = 14 \<and> m = October))"

definition hongkong_hkex_closed_2022 :: "int \<Rightarrow> month \<Rightarrow> int \<Rightarrow> bool" where
  "hongkong_hkex_closed_2022 d m y \<longleftrightarrow>
     y = 2022 \<and> ((d \<ge> 1 \<and> d \<le> 3 \<and> m = February) \<or> (d = 5 \<and> m = April) \<or> (d = 9 \<and> m = May) \<or> (d = 3 \<and> m = June) \<or> (d = 12 \<and> m = September) \<or> (d = 4 \<and> m = October))"

definition hongkong_hkex_closed_2023 :: "int \<Rightarrow> month \<Rightarrow> int \<Rightarrow> bool" where
  "hongkong_hkex_closed_2023 d m y \<longleftrightarrow>
     y = 2023 \<and> ((d \<ge> 23 \<and> d \<le> 25 \<and> m = January) \<or> (d = 5 \<and> m = April) \<or> (d = 26 \<and> m = May) \<or> (d = 22 \<and> m = June) \<or> (d = 23 \<and> m = October))"

definition hongkong_hkex_closed_2024 :: "int \<Rightarrow> month \<Rightarrow> int \<Rightarrow> bool" where
  "hongkong_hkex_closed_2024 d m y \<longleftrightarrow>
     y = 2024 \<and> (((d = 12 \<or> d = 13) \<and> m = February) \<or> (d = 4 \<and> m = April) \<or> (d = 15 \<and> m = May) \<or> (d = 10 \<and> m = June) \<or> (d = 18 \<and> m = September) \<or> (d = 11 \<and> m = October))"

definition hongkong_hkex_closed_2025 :: "int \<Rightarrow> month \<Rightarrow> int \<Rightarrow> bool" where
  "hongkong_hkex_closed_2025 d m y \<longleftrightarrow>
     y = 2025 \<and> ((d \<ge> 29 \<and> d \<le> 31 \<and> m = January) \<or> (d = 4 \<and> m = April) \<or> (d = 5 \<and> m = May) \<or> (d = 7 \<and> m = October) \<or> (d = 29 \<and> m = October))"

definition hongkong_hkex_is_business_day :: "date \<Rightarrow> bool option" where
  "hongkong_hkex_is_business_day date = do {
     w \<leftarrow> date_weekday date;
     d \<leftarrow> date_day_of_month date;
     dd \<leftarrow> date_day_of_year date;
     m \<leftarrow> date_month date;
     y \<leftarrow> date_year date;
     em \<leftarrow> western_easter_monday y;
     if hongkong_hkex_closed_rules w d dd m em then Some False
     else if hongkong_hkex_closed_2004 d m y then Some False
       else if hongkong_hkex_closed_2005 d m y then Some False
         else if hongkong_hkex_closed_2006 d m y then Some False
           else if hongkong_hkex_closed_2007 d m y then Some False
             else if hongkong_hkex_closed_2008 d m y then Some False
               else if hongkong_hkex_closed_2009 d m y then Some False
                 else if hongkong_hkex_closed_2010 d m y then Some False
                   else if hongkong_hkex_closed_2011 d m y then Some False
                     else if hongkong_hkex_closed_2012 d m y then Some False
                       else if hongkong_hkex_closed_2013 d m y then Some False
                         else if hongkong_hkex_closed_2014 d m y then Some False
                           else if hongkong_hkex_closed_2015 d m y then Some False
                             else if hongkong_hkex_closed_2016 d m y then Some False
                               else if hongkong_hkex_closed_2017 d m y then Some False
                                 else if hongkong_hkex_closed_2018 d m y then Some False
                                   else if hongkong_hkex_closed_2019 d m y then Some False
                                     else if hongkong_hkex_closed_2020 d m y then Some False
                                       else if hongkong_hkex_closed_2021 d m y then Some False
                                         else if hongkong_hkex_closed_2022 d m y then Some False
                                           else if hongkong_hkex_closed_2023 d m y then Some False
                                             else if hongkong_hkex_closed_2024 d m y then Some False
                                               else if hongkong_hkex_closed_2025 d m y then Some False
                                                 else Some True
   }"

definition hongkong_hkex_impl :: calendar_impl where
  "hongkong_hkex_impl = (calendar_impl_new ''Hong Kong stock exchange''
     hongkong_hkex_is_business_day is_weekend_sat_sun)
     \<lparr>ci_holiday_horizon := Some hongkong_HOLIDAY_HORIZON\<rparr>"

datatype hongkong_market = HongKong_HKEx

fun hongkong_new :: "hongkong_market \<Rightarrow> calendar" where
  "hongkong_new HongKong_HKEx = calendar_from_impl hongkong_hkex_impl"

lemma hongkong_hkex_is_business_day_total [total_rules]: "valid_date date \<Longrightarrow> hongkong_hkex_is_business_day date \<noteq> None"
  unfolding hongkong_hkex_is_business_day_def by (rule total_rules | assumption | (simp add: civil_ok_def; fail))+

lemma hongkong_hkex_is_business_day_weekend:
  assumes "valid_date date" "date_weekday date = Some w" "is_weekend_sat_sun w"
  shows "hongkong_hkex_is_business_day date = Some False"
  using assms(1)
  by (rule date_fields)
    (use assms(2,3) in \<open>simp add: hongkong_hkex_is_business_day_def hongkong_hkex_closed_rules_def hongkong_hkex_closed_2004_def hongkong_hkex_closed_2005_def hongkong_hkex_closed_2006_def hongkong_hkex_closed_2007_def hongkong_hkex_closed_2008_def hongkong_hkex_closed_2009_def hongkong_hkex_closed_2010_def hongkong_hkex_closed_2011_def hongkong_hkex_closed_2012_def hongkong_hkex_closed_2013_def hongkong_hkex_closed_2014_def hongkong_hkex_closed_2015_def hongkong_hkex_closed_2016_def hongkong_hkex_closed_2017_def hongkong_hkex_closed_2018_def hongkong_hkex_closed_2019_def hongkong_hkex_closed_2020_def hongkong_hkex_closed_2021_def hongkong_hkex_closed_2022_def hongkong_hkex_closed_2023_def hongkong_hkex_closed_2024_def hongkong_hkex_closed_2025_def western_easter_eq orthodox_easter_eq\<close>)

interpretation hongkong_hkex: weekend_market hongkong_hkex_impl
  by (rule weekend_marketI [where f = is_weekend_sat_sun]) (simp_all add: hongkong_hkex_impl_def hongkong_hkex_is_business_day_total hongkong_hkex_is_business_day_weekend)

section \<open>\<open>taiwan.rs\<close>\<close>

definition taiwan_HOLIDAY_HORIZON :: int where
  "taiwan_HOLIDAY_HORIZON = 2026"

definition taiwan_tsec_closed_rules :: "weekday \<Rightarrow> int \<Rightarrow> month \<Rightarrow> bool" where
  "taiwan_tsec_closed_rules w d m \<longleftrightarrow>
     is_weekend_sat_sun w
       \<or> (d = 1 \<and> m = January)
       \<or> (d = 28 \<and> m = February)
       \<or> (d = 1 \<and> m = May)
       \<or> (d = 10 \<and> m = October)"

definition taiwan_tsec_closed_2002 :: "int \<Rightarrow> month \<Rightarrow> int \<Rightarrow> bool" where
  "taiwan_tsec_closed_2002 d m y \<longleftrightarrow>
     y = 2002 \<and> ((d \<ge> 9 \<and> d \<le> 17 \<and> m = February) \<or> (d = 5 \<and> m = April))"

definition taiwan_tsec_closed_2003 :: "int \<Rightarrow> month \<Rightarrow> int \<Rightarrow> bool" where
  "taiwan_tsec_closed_2003 d m y \<longleftrightarrow>
     y = 2003 \<and> ((d \<ge> 31 \<and> m = January) \<or> (d \<le> 5 \<and> m = February) \<or> (d = 4 \<and> m = June) \<or> (d = 11 \<and> m = September))"

definition taiwan_tsec_closed_2004 :: "int \<Rightarrow> month \<Rightarrow> int \<Rightarrow> bool" where
  "taiwan_tsec_closed_2004 d m y \<longleftrightarrow>
     y = 2004 \<and> ((d \<ge> 21 \<and> d \<le> 26 \<and> m = January) \<or> (d = 22 \<and> m = June) \<or> (d = 28 \<and> m = September))"

definition taiwan_tsec_closed_2005 :: "int \<Rightarrow> month \<Rightarrow> int \<Rightarrow> bool" where
  "taiwan_tsec_closed_2005 d m y \<longleftrightarrow>
     y = 2005 \<and> ((d \<ge> 6 \<and> d \<le> 13 \<and> m = February) \<or> (d = 5 \<and> m = April) \<or> (d = 2 \<and> m = May))"

definition taiwan_tsec_closed_2006 :: "int \<Rightarrow> month \<Rightarrow> int \<Rightarrow> bool" where
  "taiwan_tsec_closed_2006 d m y \<longleftrightarrow>
     y = 2006 \<and> ((d \<ge> 28 \<and> m = January) \<or> (d \<le> 5 \<and> m = February) \<or> (d = 5 \<and> m = April) \<or> (d = 31 \<and> m = May) \<or> (d = 6 \<and> m = October))"

definition taiwan_tsec_closed_2007 :: "int \<Rightarrow> month \<Rightarrow> int \<Rightarrow> bool" where
  "taiwan_tsec_closed_2007 d m y \<longleftrightarrow>
     y = 2007 \<and> ((d \<ge> 17 \<and> d \<le> 25 \<and> m = February) \<or> (d = 5 \<and> m = April) \<or> (d = 6 \<and> m = April) \<or> (d = 18 \<and> m = June) \<or> (d = 19 \<and> m = June) \<or> (d = 24 \<and> m = September) \<or> (d = 25 \<and> m = September))"

definition taiwan_tsec_closed_2008 :: "int \<Rightarrow> month \<Rightarrow> int \<Rightarrow> bool" where
  "taiwan_tsec_closed_2008 d m y \<longleftrightarrow>
     y = 2008 \<and> ((d \<ge> 4 \<and> d \<le> 11 \<and> m = February) \<or> (d = 4 \<and> m = April))"

definition taiwan_tsec_closed_2009 :: "int \<Rightarrow> month \<Rightarrow> int \<Rightarrow> bool" where
  "taiwan_tsec_closed_2009 d m y \<longleftrightarrow>
     y = 2009 \<and> ((d = 2 \<and> m = January) \<or> (d \<ge> 24 \<and> m = January) \<or> (d = 4 \<and> m = April) \<or> ((d = 28 \<or> d = 29) \<and> m = May) \<or> (d = 3 \<and> m = October))"

definition taiwan_tsec_closed_2010 :: "int \<Rightarrow> month \<Rightarrow> int \<Rightarrow> bool" where
  "taiwan_tsec_closed_2010 d m y \<longleftrightarrow>
     y = 2010 \<and> ((d \<ge> 13 \<and> d \<le> 21 \<and> m = January) \<or> (d = 5 \<and> m = April) \<or> (d = 16 \<and> m = May) \<or> (d = 22 \<and> m = September))"

definition taiwan_tsec_closed_2011 :: "int \<Rightarrow> month \<Rightarrow> int \<Rightarrow> bool" where
  "taiwan_tsec_closed_2011 d m y \<longleftrightarrow>
     y = 2011 \<and> ((d \<ge> 2 \<and> d \<le> 7 \<and> m = February) \<or> (d = 4 \<and> m = April) \<or> (d = 5 \<and> m = April) \<or> (d = 2 \<and> m = May) \<or> (d = 6 \<and> m = June) \<or> (d = 12 \<and> m = September))"

definition taiwan_tsec_closed_2012 :: "int \<Rightarrow> month \<Rightarrow> int \<Rightarrow> bool" where
  "taiwan_tsec_closed_2012 d m y \<longleftrightarrow>
     y = 2012 \<and> ((d \<ge> 23 \<and> d \<le> 27 \<and> m = January) \<or> (d = 27 \<and> m = February) \<or> (d = 4 \<and> m = April) \<or> (d = 1 \<and> m = May) \<or> (d = 23 \<and> m = June) \<or> (d = 30 \<and> m = September) \<or> (d = 31 \<and> m = December))"

definition taiwan_tsec_closed_2013 :: "int \<Rightarrow> month \<Rightarrow> int \<Rightarrow> bool" where
  "taiwan_tsec_closed_2013 d m y \<longleftrightarrow>
     y = 2013 \<and> ((d \<ge> 10 \<and> d \<le> 15 \<and> m = February) \<or> (d = 4 \<and> m = April) \<or> (d = 5 \<and> m = April) \<or> (d = 1 \<and> m = May) \<or> (d = 12 \<and> m = June) \<or> (d \<ge> 19 \<and> d \<le> 20 \<and> m = September))"

definition taiwan_tsec_closed_2014 :: "int \<Rightarrow> month \<Rightarrow> int \<Rightarrow> bool" where
  "taiwan_tsec_closed_2014 d m y \<longleftrightarrow>
     y = 2014 \<and> ((d \<ge> 28 \<and> d \<le> 30 \<and> m = January) \<or> (d = 31 \<and> m = January) \<or> (d \<le> 4 \<and> m = February) \<or> (d = 4 \<and> m = April) \<or> (d = 5 \<and> m = April) \<or> (d = 2 \<and> m = June) \<or> (d = 8 \<and> m = September))"

definition taiwan_tsec_closed_2015 :: "int \<Rightarrow> month \<Rightarrow> int \<Rightarrow> bool" where
  "taiwan_tsec_closed_2015 d m y \<longleftrightarrow>
     y = 2015 \<and> ((d = 2 \<and> m = January) \<or> (d \<ge> 18 \<and> d \<le> 23 \<and> m = February) \<or> (d = 27 \<and> m = February) \<or> (d = 3 \<and> m = April) \<or> (d = 6 \<and> m = April) \<or> (d = 19 \<and> m = June) \<or> (d = 28 \<and> m = September) \<or> (d = 9 \<and> m = October))"

definition taiwan_tsec_closed_2016 :: "int \<Rightarrow> month \<Rightarrow> int \<Rightarrow> bool" where
  "taiwan_tsec_closed_2016 d m y \<longleftrightarrow>
     y = 2016 \<and> ((d \<ge> 8 \<and> d \<le> 12 \<and> m = February) \<or> (d = 29 \<and> m = February) \<or> (d = 4 \<and> m = April) \<or> (d = 5 \<and> m = April) \<or> (d = 2 \<and> m = May) \<or> (d = 9 \<and> m = June) \<or> (d = 10 \<and> m = June) \<or> (d = 15 \<and> m = September) \<or> (d = 16 \<and> m = September))"

definition taiwan_tsec_closed_2017 :: "int \<Rightarrow> month \<Rightarrow> int \<Rightarrow> bool" where
  "taiwan_tsec_closed_2017 d m y \<longleftrightarrow>
     y = 2017 \<and> ((d = 2 \<and> m = January) \<or> (d \<ge> 27 \<and> m = January) \<or> (d = 1 \<and> m = February) \<or> (d = 27 \<and> m = February) \<or> (d = 3 \<and> m = April) \<or> (d = 4 \<and> m = April) \<or> (d = 29 \<and> m = May) \<or> (d = 30 \<and> m = May) \<or> (d = 4 \<and> m = October) \<or> (d = 9 \<and> m = October))"

definition taiwan_tsec_closed_2018 :: "int \<Rightarrow> month \<Rightarrow> int \<Rightarrow> bool" where
  "taiwan_tsec_closed_2018 d m y \<longleftrightarrow>
     y = 2018 \<and> ((d \<ge> 15 \<and> d \<le> 20 \<and> m = February) \<or> (d = 4 \<and> m = April) \<or> (d = 5 \<and> m = April) \<or> (d = 6 \<and> m = April) \<or> (d = 18 \<and> m = June) \<or> (d = 24 \<and> m = September) \<or> (d = 31 \<and> m = December))"

definition taiwan_tsec_closed_2019 :: "int \<Rightarrow> month \<Rightarrow> int \<Rightarrow> bool" where
  "taiwan_tsec_closed_2019 d m y \<longleftrightarrow>
     y = 2019 \<and> ((d \<ge> 4 \<and> d \<le> 8 \<and> m = February) \<or> (d = 1 \<and> m = March) \<or> (d = 4 \<and> m = April) \<or> (d = 5 \<and> m = April) \<or> (d = 7 \<and> m = June) \<or> (d = 13 \<and> m = September) \<or> (d = 11 \<and> m = October))"

definition taiwan_tsec_closed_2020 :: "int \<Rightarrow> month \<Rightarrow> int \<Rightarrow> bool" where
  "taiwan_tsec_closed_2020 d m y \<longleftrightarrow>
     y = 2020 \<and> ((d = 23 \<and> m = January) \<or> (d \<ge> 24 \<and> d \<le> 29 \<and> m = January) \<or> (d = 2 \<and> m = April) \<or> (d = 3 \<and> m = April) \<or> (d = 25 \<and> m = June) \<or> (d = 26 \<and> m = June) \<or> (d = 1 \<and> m = October) \<or> (d = 2 \<and> m = October) \<or> (d = 9 \<and> m = October))"

definition taiwan_tsec_closed_2021 :: "int \<Rightarrow> month \<Rightarrow> int \<Rightarrow> bool" where
  "taiwan_tsec_closed_2021 d m y \<longleftrightarrow>
     y = 2021 \<and> ((d = 10 \<and> m = February) \<or> (d \<ge> 11 \<and> d \<le> 16 \<and> m = February) \<or> (d = 1 \<and> m = March) \<or> (d = 2 \<and> m = April) \<or> (d = 5 \<and> m = April) \<or> (d = 30 \<and> m = April) \<or> (d = 14 \<and> m = June) \<or> (d = 20 \<and> m = September) \<or> (d = 21 \<and> m = September) \<or> (d = 11 \<and> m = October) \<or> (d = 31 \<and> m = December))"

definition taiwan_tsec_closed_2022 :: "int \<Rightarrow> month \<Rightarrow> int \<Rightarrow> bool" where
  "taiwan_tsec_closed_2022 d m y \<longleftrightarrow>
     y = 2022 \<and> ((d = 31 \<and> m = January) \<or> (d \<le> 4 \<and> m = February) \<or> (d = 4 \<and> m = April) \<or> (d = 5 \<and> m = April) \<or> (d = 2 \<and> m = May) \<or> (d = 3 \<and> m = June) \<or> (d = 9 \<and> m = September))"

definition taiwan_tsec_closed_2023 :: "int \<Rightarrow> month \<Rightarrow> int \<Rightarrow> bool" where
  "taiwan_tsec_closed_2023 d m y \<longleftrightarrow>
     y = 2023 \<and> ((d = 2 \<and> m = January) \<or> (d = 20 \<and> m = January) \<or> (d \<ge> 21 \<and> d \<le> 24 \<and> m = January) \<or> (d \<ge> 25 \<and> d \<le> 27 \<and> m = January) \<or> (d = 27 \<and> m = February) \<or> (d = 3 \<and> m = April) \<or> (d = 4 \<and> m = April) \<or> (d = 5 \<and> m = April) \<or> (d = 22 \<and> m = June) \<or> (d = 23 \<and> m = June) \<or> (d = 29 \<and> m = September) \<or> (d = 9 \<and> m = October))"

definition taiwan_tsec_closed_2024 :: "int \<Rightarrow> month \<Rightarrow> int \<Rightarrow> bool" where
  "taiwan_tsec_closed_2024 d m y \<longleftrightarrow>
     y = 2024 \<and> ((d = 8 \<and> m = February) \<or> (d \<ge> 9 \<and> d \<le> 12 \<and> m = February) \<or> (d \<ge> 13 \<and> d \<le> 14 \<and> m = February) \<or> (d = 4 \<and> m = April) \<or> (d = 5 \<and> m = April) \<or> (d = 10 \<and> m = June) \<or> (d = 17 \<and> m = September))"

definition taiwan_tsec_closed_2025 :: "int \<Rightarrow> month \<Rightarrow> int \<Rightarrow> bool" where
  "taiwan_tsec_closed_2025 d m y \<longleftrightarrow>
     y = 2025 \<and> ((d \<ge> 23 \<and> d \<le> 24 \<and> m = January) \<or> (d \<ge> 27 \<and> d \<le> 31 \<and> m = January) \<or> (d = 3 \<and> m = April) \<or> (d = 4 \<and> m = April) \<or> (d = 30 \<and> m = May) \<or> (d = 6 \<and> m = October))"

definition taiwan_tsec_closed_2026 :: "int \<Rightarrow> month \<Rightarrow> int \<Rightarrow> bool" where
  "taiwan_tsec_closed_2026 d m y \<longleftrightarrow>
     y = 2026 \<and> ((d \<ge> 12 \<and> d \<le> 13 \<and> m = February) \<or> (d \<ge> 16 \<and> d \<le> 20 \<and> m = February) \<or> (d = 27 \<and> m = February) \<or> (d = 3 \<and> m = April) \<or> (d = 6 \<and> m = April) \<or> (d = 19 \<and> m = June) \<or> (d = 25 \<and> m = September) \<or> (d = 9 \<and> m = October))"

definition taiwan_tsec_is_business_day :: "date \<Rightarrow> bool option" where
  "taiwan_tsec_is_business_day date = do {
     w \<leftarrow> date_weekday date;
     d \<leftarrow> date_day_of_month date;
     m \<leftarrow> date_month date;
     y \<leftarrow> date_year date;
     if taiwan_tsec_closed_rules w d m then Some False
     else if taiwan_tsec_closed_2002 d m y then Some False
       else if taiwan_tsec_closed_2003 d m y then Some False
         else if taiwan_tsec_closed_2004 d m y then Some False
           else if taiwan_tsec_closed_2005 d m y then Some False
             else if taiwan_tsec_closed_2006 d m y then Some False
               else if taiwan_tsec_closed_2007 d m y then Some False
                 else if taiwan_tsec_closed_2008 d m y then Some False
                   else if taiwan_tsec_closed_2009 d m y then Some False
                     else if taiwan_tsec_closed_2010 d m y then Some False
                       else if taiwan_tsec_closed_2011 d m y then Some False
                         else if taiwan_tsec_closed_2012 d m y then Some False
                           else if taiwan_tsec_closed_2013 d m y then Some False
                             else if taiwan_tsec_closed_2014 d m y then Some False
                               else if taiwan_tsec_closed_2015 d m y then Some False
                                 else if taiwan_tsec_closed_2016 d m y then Some False
                                   else if taiwan_tsec_closed_2017 d m y then Some False
                                     else if taiwan_tsec_closed_2018 d m y then Some False
                                       else if taiwan_tsec_closed_2019 d m y then Some False
                                         else if taiwan_tsec_closed_2020 d m y then Some False
                                           else if taiwan_tsec_closed_2021 d m y then Some False
                                             else if taiwan_tsec_closed_2022 d m y then Some False
                                               else if taiwan_tsec_closed_2023 d m y then Some False
                                                 else if taiwan_tsec_closed_2024 d m y then Some False
                                                   else if taiwan_tsec_closed_2025 d m y then Some False
                                                     else if taiwan_tsec_closed_2026 d m y then Some False
                                                       else Some True
   }"

definition taiwan_tsec_impl :: calendar_impl where
  "taiwan_tsec_impl = (calendar_impl_new ''Taiwan stock exchange''
     taiwan_tsec_is_business_day is_weekend_sat_sun)
     \<lparr>ci_holiday_horizon := Some taiwan_HOLIDAY_HORIZON\<rparr>"

datatype taiwan_market = Taiwan_Tsec

fun taiwan_new :: "taiwan_market \<Rightarrow> calendar" where
  "taiwan_new Taiwan_Tsec = calendar_from_impl taiwan_tsec_impl"

lemma taiwan_tsec_is_business_day_total [total_rules]: "valid_date date \<Longrightarrow> taiwan_tsec_is_business_day date \<noteq> None"
  unfolding taiwan_tsec_is_business_day_def by (rule total_rules | assumption | (simp add: civil_ok_def; fail))+

lemma taiwan_tsec_is_business_day_weekend:
  assumes "valid_date date" "date_weekday date = Some w" "is_weekend_sat_sun w"
  shows "taiwan_tsec_is_business_day date = Some False"
  using assms(1)
  by (rule date_fields)
    (use assms(2,3) in \<open>simp add: taiwan_tsec_is_business_day_def taiwan_tsec_closed_rules_def taiwan_tsec_closed_2002_def taiwan_tsec_closed_2003_def taiwan_tsec_closed_2004_def taiwan_tsec_closed_2005_def taiwan_tsec_closed_2006_def taiwan_tsec_closed_2007_def taiwan_tsec_closed_2008_def taiwan_tsec_closed_2009_def taiwan_tsec_closed_2010_def taiwan_tsec_closed_2011_def taiwan_tsec_closed_2012_def taiwan_tsec_closed_2013_def taiwan_tsec_closed_2014_def taiwan_tsec_closed_2015_def taiwan_tsec_closed_2016_def taiwan_tsec_closed_2017_def taiwan_tsec_closed_2018_def taiwan_tsec_closed_2019_def taiwan_tsec_closed_2020_def taiwan_tsec_closed_2021_def taiwan_tsec_closed_2022_def taiwan_tsec_closed_2023_def taiwan_tsec_closed_2024_def taiwan_tsec_closed_2025_def taiwan_tsec_closed_2026_def western_easter_eq orthodox_easter_eq\<close>)

interpretation taiwan_tsec: weekend_market taiwan_tsec_impl
  by (rule weekend_marketI [where f = is_weekend_sat_sun]) (simp_all add: taiwan_tsec_impl_def taiwan_tsec_is_business_day_total taiwan_tsec_is_business_day_weekend)

end
