(* ===== verification/Markets_Asia.thy ===== *)
theory Markets_Asia
  imports Market_Rules
begin

text \<open>
  \<open>time/calendars/\<close>: South and South-East Asian markets
  (\<open>india.rs, indonesia.rs, singapore.rs\<close>). Each market
  is the predicate its \<open>is_business_day\<close> computes, clause by clause, and the record of its
  methods; each is shown to answer on every supported date, and to be closed on its weekend.
\<close>

section \<open>\<open>india.rs\<close>\<close>

definition india_HOLIDAY_HORIZON :: int where
  "india_HOLIDAY_HORIZON = 2026"

definition india_nse_closed_rules :: "weekday \<Rightarrow> int \<Rightarrow> int \<Rightarrow> month \<Rightarrow> int \<Rightarrow> bool" where
  "india_nse_closed_rules w d dd m em \<longleftrightarrow>
     is_weekend_sat_sun w
       \<or> (d = 26 \<and> m = January)
       \<or> dd = (em - 3)
       \<or> (d = 14 \<and> m = April)
       \<or> (d = 1 \<and> m = May)
       \<or> (d = 15 \<and> m = August)
       \<or> (d = 2 \<and> m = October)
       \<or> (d = 25 \<and> m = December)"

definition india_nse_closed_2005 :: "int \<Rightarrow> month \<Rightarrow> int \<Rightarrow> bool" where
  "india_nse_closed_2005 d m y \<longleftrightarrow>
     y = 2005 \<and> ((d = 21 \<and> m = January) \<or> (d = 7 \<and> m = September) \<or> (d = 12 \<and> m = October) \<or> (d = 1 \<and> m = November) \<or> (d = 3 \<and> m = November) \<or> (d = 15 \<and> m = November))"

definition india_nse_closed_2006 :: "int \<Rightarrow> month \<Rightarrow> int \<Rightarrow> bool" where
  "india_nse_closed_2006 d m y \<longleftrightarrow>
     y = 2006 \<and> ((d = 11 \<and> m = January) \<or> (d = 9 \<and> m = February) \<or> (d = 15 \<and> m = March) \<or> (d = 6 \<and> m = April) \<or> (d = 11 \<and> m = April) \<or> (d = 1 \<and> m = May) \<or> (d = 24 \<and> m = October) \<or> (d = 25 \<and> m = October))"

definition india_nse_closed_2007 :: "int \<Rightarrow> month \<Rightarrow> int \<Rightarrow> bool" where
  "india_nse_closed_2007 d m y \<longleftrightarrow>
     y = 2007 \<and> ((d = 1 \<and> m = January) \<or> (d = 30 \<and> m = January) \<or> (d = 16 \<and> m = February) \<or> (d = 27 \<and> m = March) \<or> (d = 1 \<and> m = May) \<or> (d = 2 \<and> m = May) \<or> (d = 9 \<and> m = November) \<or> (d = 21 \<and> m = December))"

definition india_nse_closed_2008 :: "int \<Rightarrow> month \<Rightarrow> int \<Rightarrow> bool" where
  "india_nse_closed_2008 d m y \<longleftrightarrow>
     y = 2008 \<and> ((d = 6 \<and> m = March) \<or> (d = 20 \<and> m = March) \<or> (d = 18 \<and> m = April) \<or> (d = 1 \<and> m = May) \<or> (d = 19 \<and> m = May) \<or> (d = 3 \<and> m = September) \<or> (d = 2 \<and> m = October) \<or> (d = 9 \<and> m = October) \<or> (d = 28 \<and> m = October) \<or> (d = 30 \<and> m = October) \<or> (d = 13 \<and> m = November) \<or> (d = 9 \<and> m = December))"

definition india_nse_closed_2009 :: "int \<Rightarrow> month \<Rightarrow> int \<Rightarrow> bool" where
  "india_nse_closed_2009 d m y \<longleftrightarrow>
     y = 2009 \<and> ((d = 8 \<and> m = January) \<or> (d = 23 \<and> m = February) \<or> (d = 10 \<and> m = March) \<or> (d = 11 \<and> m = March) \<or> (d = 3 \<and> m = April) \<or> (d = 7 \<and> m = April) \<or> (d = 1 \<and> m = May) \<or> (d = 21 \<and> m = September) \<or> (d = 28 \<and> m = September) \<or> (d = 19 \<and> m = October) \<or> (d = 2 \<and> m = November) \<or> (d = 28 \<and> m = December))"

definition india_nse_closed_2010 :: "int \<Rightarrow> month \<Rightarrow> int \<Rightarrow> bool" where
  "india_nse_closed_2010 d m y \<longleftrightarrow>
     y = 2010 \<and> ((d = 1 \<and> m = January) \<or> (d = 12 \<and> m = February) \<or> (d = 1 \<and> m = March) \<or> (d = 24 \<and> m = March) \<or> (d = 10 \<and> m = September) \<or> (d = 5 \<and> m = November) \<or> (d = 17 \<and> m = November) \<or> (d = 17 \<and> m = December))"

definition india_nse_closed_2011 :: "int \<Rightarrow> month \<Rightarrow> int \<Rightarrow> bool" where
  "india_nse_closed_2011 d m y \<longleftrightarrow>
     y = 2011 \<and> ((d = 2 \<and> m = March) \<or> (d = 12 \<and> m = April) \<or> (d = 31 \<and> m = August) \<or> (d = 1 \<and> m = September) \<or> (d = 6 \<and> m = October) \<or> (d = 26 \<and> m = October) \<or> (d = 27 \<and> m = October) \<or> (d = 7 \<and> m = November) \<or> (d = 10 \<and> m = November) \<or> (d = 6 \<and> m = December))"

definition india_nse_closed_2012 :: "int \<Rightarrow> month \<Rightarrow> int \<Rightarrow> bool" where
  "india_nse_closed_2012 d m y \<longleftrightarrow>
     y = 2012 \<and> ((d = 20 \<and> m = February) \<or> (d = 8 \<and> m = March) \<or> (d = 5 \<and> m = April) \<or> (d = 20 \<and> m = August) \<or> (d = 19 \<and> m = September) \<or> (d = 24 \<and> m = October) \<or> (d = 14 \<and> m = November) \<or> (d = 28 \<and> m = November))"

definition india_nse_closed_2013 :: "int \<Rightarrow> month \<Rightarrow> int \<Rightarrow> bool" where
  "india_nse_closed_2013 d m y \<longleftrightarrow>
     y = 2013 \<and> ((d = 27 \<and> m = March) \<or> (d = 19 \<and> m = April) \<or> (d = 24 \<and> m = April) \<or> (d = 9 \<and> m = August) \<or> (d = 9 \<and> m = September) \<or> (d = 16 \<and> m = October) \<or> (d = 4 \<and> m = November) \<or> (d = 14 \<and> m = November))"

definition india_nse_closed_2014 :: "int \<Rightarrow> month \<Rightarrow> int \<Rightarrow> bool" where
  "india_nse_closed_2014 d m y \<longleftrightarrow>
     y = 2014 \<and> ((d = 27 \<and> m = February) \<or> (d = 17 \<and> m = March) \<or> (d = 8 \<and> m = April) \<or> (d = 29 \<and> m = July) \<or> (d = 29 \<and> m = August) \<or> (d = 3 \<and> m = October) \<or> (d = 6 \<and> m = October) \<or> (d = 24 \<and> m = October) \<or> (d = 4 \<and> m = November) \<or> (d = 6 \<and> m = November))"

definition india_nse_closed_2019 :: "int \<Rightarrow> month \<Rightarrow> int \<Rightarrow> bool" where
  "india_nse_closed_2019 d m y \<longleftrightarrow>
     y = 2019 \<and> ((d = 19 \<and> m = February) \<or> (d = 4 \<and> m = March) \<or> (d = 21 \<and> m = March) \<or> (d = 1 \<and> m = April) \<or> (d = 17 \<and> m = April) \<or> (d = 29 \<and> m = April) \<or> (d = 5 \<and> m = June) \<or> (d = 12 \<and> m = August) \<or> (d = 2 \<and> m = September) \<or> (d = 10 \<and> m = September) \<or> (d = 8 \<and> m = October) \<or> (d = 21 \<and> m = October) \<or> (d = 28 \<and> m = October) \<or> (d = 12 \<and> m = November))"

definition india_nse_closed_2020 :: "int \<Rightarrow> month \<Rightarrow> int \<Rightarrow> bool" where
  "india_nse_closed_2020 d m y \<longleftrightarrow>
     y = 2020 \<and> ((d = 19 \<and> m = February) \<or> (d = 21 \<and> m = February) \<or> (d = 10 \<and> m = March) \<or> (d = 25 \<and> m = March) \<or> (d = 1 \<and> m = April) \<or> (d = 2 \<and> m = April) \<or> (d = 6 \<and> m = April) \<or> (d = 7 \<and> m = May) \<or> (d = 25 \<and> m = May) \<or> (d = 30 \<and> m = October) \<or> (d = 16 \<and> m = November) \<or> (d = 30 \<and> m = November))"

definition india_nse_closed_2021 :: "int \<Rightarrow> month \<Rightarrow> int \<Rightarrow> bool" where
  "india_nse_closed_2021 d m y \<longleftrightarrow>
     y = 2021 \<and> ((d = 19 \<and> m = February) \<or> (d = 11 \<and> m = March) \<or> (d = 29 \<and> m = March) \<or> (d = 13 \<and> m = April) \<or> (d = 14 \<and> m = April) \<or> (d = 21 \<and> m = April) \<or> (d = 26 \<and> m = May) \<or> (d = 21 \<and> m = July) \<or> (d = 10 \<and> m = September) \<or> (d = 15 \<and> m = October) \<or> (d = 19 \<and> m = October) \<or> (d = 5 \<and> m = November) \<or> (d = 19 \<and> m = November))"

definition india_nse_closed_2022 :: "int \<Rightarrow> month \<Rightarrow> int \<Rightarrow> bool" where
  "india_nse_closed_2022 d m y \<longleftrightarrow>
     y = 2022 \<and> ((d = 1 \<and> m = March) \<or> (d = 18 \<and> m = March) \<or> (d = 3 \<and> m = May) \<or> (d = 16 \<and> m = May) \<or> (d = 31 \<and> m = August) \<or> (d = 5 \<and> m = October) \<or> (d = 26 \<and> m = October) \<or> (d = 8 \<and> m = November))"

definition india_nse_closed_2023 :: "int \<Rightarrow> month \<Rightarrow> int \<Rightarrow> bool" where
  "india_nse_closed_2023 d m y \<longleftrightarrow>
     y = 2023 \<and> ((d = 7 \<and> m = March) \<or> (d = 22 \<and> m = March) \<or> (d = 30 \<and> m = March) \<or> (d = 4 \<and> m = April) \<or> (d = 5 \<and> m = May) \<or> (d = 29 \<and> m = June) \<or> (d = 16 \<and> m = August) \<or> (d = 19 \<and> m = September) \<or> (d = 29 \<and> m = September) \<or> (d = 24 \<and> m = October) \<or> (d = 14 \<and> m = November) \<or> (d = 27 \<and> m = November))"

definition india_nse_closed_2024 :: "int \<Rightarrow> month \<Rightarrow> int \<Rightarrow> bool" where
  "india_nse_closed_2024 d m y \<longleftrightarrow>
     y = 2024 \<and> ((d = 22 \<and> m = January) \<or> (d = 19 \<and> m = February) \<or> (d = 8 \<and> m = March) \<or> (d = 25 \<and> m = March) \<or> (d = 1 \<and> m = April) \<or> (d = 9 \<and> m = April) \<or> (d = 11 \<and> m = April) \<or> (d = 17 \<and> m = April) \<or> (d = 21 \<and> m = April) \<or> (d = 20 \<and> m = May) \<or> (d = 23 \<and> m = May) \<or> (d = 17 \<and> m = June) \<or> (d = 17 \<and> m = July) \<or> (d = 16 \<and> m = September) \<or> (d = 1 \<and> m = November) \<or> (d = 15 \<and> m = November))"

definition india_nse_closed_2025 :: "int \<Rightarrow> month \<Rightarrow> int \<Rightarrow> bool" where
  "india_nse_closed_2025 d m y \<longleftrightarrow>
     y = 2025 \<and> ((d = 19 \<and> m = February) \<or> (d = 26 \<and> m = February) \<or> (d = 14 \<and> m = March) \<or> (d = 31 \<and> m = March) \<or> (d = 10 \<and> m = April) \<or> (d = 12 \<and> m = May) \<or> (d = 5 \<and> m = September) \<or> (d = 22 \<and> m = October) \<or> (d = 5 \<and> m = November))"

definition india_nse_closed_2026 :: "int \<Rightarrow> month \<Rightarrow> int \<Rightarrow> bool" where
  "india_nse_closed_2026 d m y \<longleftrightarrow>
     y = 2026 \<and> ((d = 15 \<and> m = January) \<or> (d = 19 \<and> m = February) \<or> (d = 3 \<and> m = March) \<or> (d = 19 \<and> m = March) \<or> (d = 26 \<and> m = March) \<or> (d = 31 \<and> m = March) \<or> (d = 1 \<and> m = April) \<or> (d = 28 \<and> m = May) \<or> (d = 26 \<and> m = June) \<or> (d = 26 \<and> m = August) \<or> (d = 14 \<and> m = September) \<or> (d = 20 \<and> m = October) \<or> (d = 10 \<and> m = November) \<or> (d = 24 \<and> m = November))"

definition india_nse_is_business_day :: "date \<Rightarrow> bool option" where
  "india_nse_is_business_day date = do {
     w \<leftarrow> date_weekday date;
     d \<leftarrow> date_day_of_month date;
     m \<leftarrow> date_month date;
     y \<leftarrow> date_year date;
     dd \<leftarrow> date_day_of_year date;
     em \<leftarrow> western_easter_monday y;
     if india_nse_closed_rules w d dd m em then Some False
     else if india_nse_closed_2005 d m y then Some False
       else if india_nse_closed_2006 d m y then Some False
         else if india_nse_closed_2007 d m y then Some False
           else if india_nse_closed_2008 d m y then Some False
             else if india_nse_closed_2009 d m y then Some False
               else if india_nse_closed_2010 d m y then Some False
                 else if india_nse_closed_2011 d m y then Some False
                   else if india_nse_closed_2012 d m y then Some False
                     else if india_nse_closed_2013 d m y then Some False
                       else if india_nse_closed_2014 d m y then Some False
                         else if india_nse_closed_2019 d m y then Some False
                           else if india_nse_closed_2020 d m y then Some False
                             else if india_nse_closed_2021 d m y then Some False
                               else if india_nse_closed_2022 d m y then Some False
                                 else if india_nse_closed_2023 d m y then Some False
                                   else if india_nse_closed_2024 d m y then Some False
                                     else if india_nse_closed_2025 d m y then Some False
                                       else if india_nse_closed_2026 d m y then Some False
                                         else Some True
   }"

definition india_nse_impl :: calendar_impl where
  "india_nse_impl = (calendar_impl_new ''National Stock Exchange of India''
     india_nse_is_business_day is_weekend_sat_sun)
     \<lparr>ci_holiday_horizon := Some india_HOLIDAY_HORIZON\<rparr>"

datatype india_market = India_Nse

fun india_new :: "india_market \<Rightarrow> calendar" where
  "india_new India_Nse = calendar_from_impl india_nse_impl"

lemma india_nse_is_business_day_total [total_rules]: "valid_date date \<Longrightarrow> india_nse_is_business_day date \<noteq> None"
  unfolding india_nse_is_business_day_def by (rule total_rules | assumption | (simp add: civil_ok_def; fail))+

lemma india_nse_is_business_day_weekend:
  assumes "valid_date date" "date_weekday date = Some w" "is_weekend_sat_sun w"
  shows "india_nse_is_business_day date = Some False"
  using assms(1)
  by (rule date_fields)
    (use assms(2,3) in \<open>simp add: india_nse_is_business_day_def india_nse_closed_rules_def india_nse_closed_2005_def india_nse_closed_2006_def india_nse_closed_2007_def india_nse_closed_2008_def india_nse_closed_2009_def india_nse_closed_2010_def india_nse_closed_2011_def india_nse_closed_2012_def india_nse_closed_2013_def india_nse_closed_2014_def india_nse_closed_2019_def india_nse_closed_2020_def india_nse_closed_2021_def india_nse_closed_2022_def india_nse_closed_2023_def india_nse_closed_2024_def india_nse_closed_2025_def india_nse_closed_2026_def western_easter_eq orthodox_easter_eq\<close>)

interpretation india_nse: weekend_market india_nse_impl
  by (rule weekend_marketI [where f = is_weekend_sat_sun]) (simp_all add: india_nse_impl_def india_nse_is_business_day_total india_nse_is_business_day_weekend)

section \<open>\<open>indonesia.rs\<close>\<close>

definition indonesia_HOLIDAY_HORIZON :: int where
  "indonesia_HOLIDAY_HORIZON = 2014"

definition indonesia_bej_closed_rules :: "weekday \<Rightarrow> int \<Rightarrow> int \<Rightarrow> month \<Rightarrow> int \<Rightarrow> bool" where
  "indonesia_bej_closed_rules w d dd m em \<longleftrightarrow>
     is_weekend_sat_sun w
       \<or> (d = 1 \<and> m = January)
       \<or> dd = (em - 3)
       \<or> dd = (em + 38)
       \<or> (d = 17 \<and> m = August)
       \<or> (d = 25 \<and> m = December)"

definition indonesia_bej_closed_2005 :: "int \<Rightarrow> month \<Rightarrow> int \<Rightarrow> bool" where
  "indonesia_bej_closed_2005 d m y \<longleftrightarrow>
     y = 2005 \<and> ((d = 21 \<and> m = January) \<or> (d = 9 \<and> m = February) \<or> (d = 10 \<and> m = February) \<or> (d = 11 \<and> m = March) \<or> (d = 22 \<and> m = April) \<or> (d = 24 \<and> m = May) \<or> (d = 2 \<and> m = September) \<or> ((d = 3 \<or> d = 4) \<and> m = November) \<or> ((d = 2 \<or> d = 7 \<or> d = 8) \<and> m = November) \<or> (d = 26 \<and> m = December))"

definition indonesia_bej_closed_2006 :: "int \<Rightarrow> month \<Rightarrow> int \<Rightarrow> bool" where
  "indonesia_bej_closed_2006 d m y \<longleftrightarrow>
     y = 2006 \<and> ((d = 10 \<and> m = January) \<or> (d = 31 \<and> m = January) \<or> (d = 30 \<and> m = March) \<or> (d = 10 \<and> m = April) \<or> (d = 21 \<and> m = August) \<or> ((d = 24 \<or> d = 25) \<and> m = October) \<or> ((d = 23 \<or> d = 26 \<or> d = 27) \<and> m = October))"

definition indonesia_bej_closed_2007 :: "int \<Rightarrow> month \<Rightarrow> int \<Rightarrow> bool" where
  "indonesia_bej_closed_2007 d m y \<longleftrightarrow>
     y = 2007 \<and> ((d = 19 \<and> m = March) \<or> (d = 1 \<and> m = June) \<or> (d = 20 \<and> m = December) \<or> (d = 18 \<and> m = May) \<or> ((d = 12 \<or> d = 15 \<or> d = 16) \<and> m = October) \<or> ((d = 21 \<or> d = 24) \<and> m = October))"

definition indonesia_bej_closed_2008 :: "int \<Rightarrow> month \<Rightarrow> int \<Rightarrow> bool" where
  "indonesia_bej_closed_2008 d m y \<longleftrightarrow>
     y = 2008 \<and> (((d = 10 \<or> d = 11) \<and> m = January) \<or> ((d = 7 \<or> d = 8) \<and> m = February) \<or> (d = 7 \<and> m = March) \<or> (d = 20 \<and> m = March) \<or> (d = 20 \<and> m = May) \<or> (d = 30 \<and> m = July) \<or> (d = 18 \<and> m = August) \<or> (d = 30 \<and> m = September) \<or> ((d = 1 \<or> d = 2 \<or> d = 3) \<and> m = October) \<or> (d = 8 \<and> m = December) \<or> (d = 29 \<and> m = December) \<or> (d = 31 \<and> m = December))"

definition indonesia_bej_closed_2009 :: "int \<Rightarrow> month \<Rightarrow> int \<Rightarrow> bool" where
  "indonesia_bej_closed_2009 d m y \<longleftrightarrow>
     y = 2009 \<and> ((d = 2 \<and> m = January) \<or> (d = 26 \<and> m = January) \<or> (d = 9 \<and> m = March) \<or> (d = 26 \<and> m = March) \<or> (d = 9 \<and> m = April) \<or> (d = 20 \<and> m = July) \<or> (d \<ge> 18 \<and> d \<le> 23 \<and> m = September) \<or> (d = 27 \<and> m = November) \<or> (d = 18 \<and> m = December) \<or> (d = 24 \<and> m = December) \<or> (d = 31 \<and> m = December))"

definition indonesia_bej_closed_2010 :: "int \<Rightarrow> month \<Rightarrow> int \<Rightarrow> bool" where
  "indonesia_bej_closed_2010 d m y \<longleftrightarrow>
     y = 2010 \<and> ((d = 26 \<and> m = February) \<or> (d = 16 \<and> m = March) \<or> (d = 28 \<and> m = May) \<or> (d \<ge> 8 \<and> d \<le> 14 \<and> m = September) \<or> (d = 17 \<and> m = November) \<or> (d = 7 \<and> m = December) \<or> (d = 24 \<and> m = December) \<or> (d = 31 \<and> m = December))"

definition indonesia_bej_closed_2011 :: "int \<Rightarrow> month \<Rightarrow> int \<Rightarrow> bool" where
  "indonesia_bej_closed_2011 d m y \<longleftrightarrow>
     y = 2011 \<and> ((d = 3 \<and> m = February) \<or> (d = 15 \<and> m = February) \<or> (d = 17 \<and> m = May) \<or> (d = 29 \<and> m = June) \<or> (d \<ge> 29 \<and> m = August) \<or> (d \<le> 2 \<and> m = September) \<or> (d = 26 \<and> m = December))"

definition indonesia_bej_closed_2012 :: "int \<Rightarrow> month \<Rightarrow> int \<Rightarrow> bool" where
  "indonesia_bej_closed_2012 d m y \<longleftrightarrow>
     y = 2012 \<and> ((d = 23 \<and> m = January) \<or> (d = 23 \<and> m = March) \<or> (d \<ge> 20 \<and> d \<le> 22 \<and> m = August) \<or> (d = 26 \<and> m = October) \<or> (d \<ge> 15 \<and> d \<le> 16 \<and> m = November) \<or> (d = 24 \<and> m = December) \<or> (d = 31 \<and> m = December))"

definition indonesia_bej_closed_2013 :: "int \<Rightarrow> month \<Rightarrow> int \<Rightarrow> bool" where
  "indonesia_bej_closed_2013 d m y \<longleftrightarrow>
     y = 2013 \<and> ((d = 24 \<and> m = January) \<or> (d = 12 \<and> m = March) \<or> (d = 6 \<and> m = June) \<or> (d \<ge> 5 \<and> d \<le> 9 \<and> m = August) \<or> (d \<ge> 14 \<and> d \<le> 15 \<and> m = October) \<or> (d = 5 \<and> m = November) \<or> (d = 26 \<and> m = December) \<or> (d = 31 \<and> m = December))"

definition indonesia_bej_closed_2014 :: "int \<Rightarrow> month \<Rightarrow> int \<Rightarrow> bool" where
  "indonesia_bej_closed_2014 d m y \<longleftrightarrow>
     y = 2014 \<and> ((d = 14 \<and> m = January) \<or> (d = 31 \<and> m = January) \<or> (d = 31 \<and> m = March) \<or> (d = 1 \<and> m = May) \<or> (d = 15 \<and> m = May) \<or> (d = 27 \<and> m = May) \<or> (d = 29 \<and> m = May) \<or> (d \<ge> 28 \<and> m = July) \<or> (d = 1 \<and> m = August) \<or> (d = 26 \<and> m = December) \<or> (d = 31 \<and> m = December))"

definition indonesia_bej_is_business_day :: "date \<Rightarrow> bool option" where
  "indonesia_bej_is_business_day date = do {
     w \<leftarrow> date_weekday date;
     d \<leftarrow> date_day_of_month date;
     m \<leftarrow> date_month date;
     y \<leftarrow> date_year date;
     dd \<leftarrow> date_day_of_year date;
     em \<leftarrow> western_easter_monday y;
     if indonesia_bej_closed_rules w d dd m em then Some False
     else if indonesia_bej_closed_2005 d m y then Some False
       else if indonesia_bej_closed_2006 d m y then Some False
         else if indonesia_bej_closed_2007 d m y then Some False
           else if indonesia_bej_closed_2008 d m y then Some False
             else if indonesia_bej_closed_2009 d m y then Some False
               else if indonesia_bej_closed_2010 d m y then Some False
                 else if indonesia_bej_closed_2011 d m y then Some False
                   else if indonesia_bej_closed_2012 d m y then Some False
                     else if indonesia_bej_closed_2013 d m y then Some False
                       else if indonesia_bej_closed_2014 d m y then Some False
                         else Some True
   }"

definition indonesia_bej_impl :: calendar_impl where
  "indonesia_bej_impl = (calendar_impl_new ''Jakarta stock exchange''
     indonesia_bej_is_business_day is_weekend_sat_sun)
     \<lparr>ci_holiday_horizon := Some indonesia_HOLIDAY_HORIZON\<rparr>"

datatype indonesia_market = Indonesia_Bej | Indonesia_Jsx | Indonesia_Idx

fun indonesia_new :: "indonesia_market \<Rightarrow> calendar" where
  "indonesia_new Indonesia_Bej = calendar_from_impl indonesia_bej_impl"
| "indonesia_new Indonesia_Jsx = calendar_from_impl indonesia_bej_impl"
| "indonesia_new Indonesia_Idx = calendar_from_impl indonesia_bej_impl"

lemma indonesia_bej_is_business_day_total [total_rules]: "valid_date date \<Longrightarrow> indonesia_bej_is_business_day date \<noteq> None"
  unfolding indonesia_bej_is_business_day_def by (rule total_rules | assumption | (simp add: civil_ok_def; fail))+

lemma indonesia_bej_is_business_day_weekend:
  assumes "valid_date date" "date_weekday date = Some w" "is_weekend_sat_sun w"
  shows "indonesia_bej_is_business_day date = Some False"
  using assms(1)
  by (rule date_fields)
    (use assms(2,3) in \<open>simp add: indonesia_bej_is_business_day_def indonesia_bej_closed_rules_def indonesia_bej_closed_2005_def indonesia_bej_closed_2006_def indonesia_bej_closed_2007_def indonesia_bej_closed_2008_def indonesia_bej_closed_2009_def indonesia_bej_closed_2010_def indonesia_bej_closed_2011_def indonesia_bej_closed_2012_def indonesia_bej_closed_2013_def indonesia_bej_closed_2014_def western_easter_eq orthodox_easter_eq\<close>)

interpretation indonesia_bej: weekend_market indonesia_bej_impl
  by (rule weekend_marketI [where f = is_weekend_sat_sun]) (simp_all add: indonesia_bej_impl_def indonesia_bej_is_business_day_total indonesia_bej_is_business_day_weekend)

section \<open>\<open>singapore.rs\<close>\<close>

definition singapore_HOLIDAY_HORIZON :: int where
  "singapore_HOLIDAY_HORIZON = 2026"

definition singapore_sgx_closed_rules :: "weekday \<Rightarrow> int \<Rightarrow> int \<Rightarrow> month \<Rightarrow> int \<Rightarrow> int \<Rightarrow> bool" where
  "singapore_sgx_closed_rules w d dd m y em \<longleftrightarrow>
     is_weekend_sat_sun w
       \<or> ((d = 1 \<or> (d = 2 \<and> w = Monday)) \<and> m = January)
       \<or> dd = (em - 3)
       \<or> (d = 1 \<and> m = May)
       \<or> ((d = 9 \<or> (d = 10 \<and> w = Monday)) \<and> m = August)
       \<or> (d = 25 \<and> m = December)
       \<or> ((d = 22 \<or> d = 23) \<and> m = January \<and> y = 2004)
       \<or> ((d = 9 \<or> d = 10) \<and> m = February \<and> y = 2005)
       \<or> ((d = 30 \<or> d = 31) \<and> m = January \<and> y = 2006)
       \<or> ((d = 19 \<or> d = 20) \<and> m = February \<and> y = 2007)
       \<or> ((d = 7 \<or> d = 8) \<and> m = February \<and> y = 2008)
       \<or> ((d = 26 \<or> d = 27) \<and> m = January \<and> y = 2009)
       \<or> ((d = 15 \<or> d = 16) \<and> m = January \<and> y = 2010)
       \<or> ((d = 23 \<or> d = 24) \<and> m = January \<and> y = 2012)
       \<or> ((d = 11 \<or> d = 12) \<and> m = February \<and> y = 2013)
       \<or> (d = 31 \<and> m = January \<and> y = 2014)
       \<or> (d = 1 \<and> m = February \<and> y = 2014)
       \<or> ((d = 1 \<or> d = 2) \<and> m = February \<and> y = 2004)
       \<or> (d = 21 \<and> m = January \<and> y = 2005)
       \<or> (d = 10 \<and> m = January \<and> y = 2006)
       \<or> (d = 2 \<and> m = January \<and> y = 2007)
       \<or> (d = 20 \<and> m = December \<and> y = 2007)
       \<or> (d = 8 \<and> m = December \<and> y = 2008)
       \<or> (d = 27 \<and> m = November \<and> y = 2009)
       \<or> (d = 17 \<and> m = November \<and> y = 2010)
       \<or> (d = 26 \<and> m = October \<and> y = 2012)
       \<or> (d = 15 \<and> m = October \<and> y = 2013)
       \<or> (d = 6 \<and> m = October \<and> y = 2014)
       \<or> (d = 2 \<and> m = June \<and> y = 2004)
       \<or> (d = 22 \<and> m = May \<and> y = 2005)
       \<or> (d = 12 \<and> m = May \<and> y = 2006)
       \<or> (d = 31 \<and> m = May \<and> y = 2007)
       \<or> (d = 18 \<and> m = May \<and> y = 2008)
       \<or> (d = 9 \<and> m = May \<and> y = 2009)
       \<or> (d = 28 \<and> m = May \<and> y = 2010)
       \<or> (d = 5 \<and> m = May \<and> y = 2012)
       \<or> (d = 24 \<and> m = May \<and> y = 2013)
       \<or> (d = 13 \<and> m = May \<and> y = 2014)
       \<or> (d = 11 \<and> m = November \<and> y = 2004)
       \<or> (d = 8 \<and> m = November \<and> y = 2007)
       \<or> (d = 28 \<and> m = October \<and> y = 2008)
       \<or> (d = 16 \<and> m = November \<and> y = 2009)
       \<or> (d = 5 \<and> m = November \<and> y = 2010)
       \<or> (d = 13 \<and> m = November \<and> y = 2012)
       \<or> (d = 2 \<and> m = November \<and> y = 2013)
       \<or> (d = 23 \<and> m = October \<and> y = 2014)
       \<or> (d = 1 \<and> m = November \<and> y = 2005)
       \<or> ((d = 14 \<or> d = 15) \<and> m = November \<and> y = 2004)
       \<or> (d = 3 \<and> m = November \<and> y = 2005)
       \<or> (d = 24 \<and> m = October \<and> y = 2006)
       \<or> (d = 13 \<and> m = October \<and> y = 2007)
       \<or> (d = 1 \<and> m = October \<and> y = 2008)
       \<or> (d = 21 \<and> m = September \<and> y = 2009)
       \<or> (d = 10 \<and> m = September \<and> y = 2010)
       \<or> (d = 20 \<and> m = August \<and> y = 2012)
       \<or> (d = 8 \<and> m = August \<and> y = 2013)
       \<or> (d = 28 \<and> m = July \<and> y = 2014)"

definition singapore_sgx_closed_rules_2 :: "int \<Rightarrow> month \<Rightarrow> int \<Rightarrow> bool" where
  "singapore_sgx_closed_rules_2 d m y \<longleftrightarrow>
     y = 2019
      \<and> (((d = 5 \<or> d = 6) \<and> m = February) \<or> (d = 20 \<and> m = May) \<or> (d = 5 \<and> m = June) \<or> (d = 12 \<and> m = August) \<or> (d = 28 \<and> m = October))"

definition singapore_sgx_closed_rules_3 :: "int \<Rightarrow> month \<Rightarrow> int \<Rightarrow> bool" where
  "singapore_sgx_closed_rules_3 d m y \<longleftrightarrow>
     y = 2020
        \<and> ((d = 27 \<and> m = January) \<or> (d = 7 \<and> m = May) \<or> (d = 25 \<and> m = May) \<or> (d = 31 \<and> m = July) \<or> (d = 14 \<and> m = November))"

definition singapore_sgx_closed_rules_4 :: "int \<Rightarrow> month \<Rightarrow> int \<Rightarrow> bool" where
  "singapore_sgx_closed_rules_4 d m y \<longleftrightarrow>
     y = 2021
          \<and> ((d = 12 \<and> m = February) \<or> (d = 13 \<and> m = May) \<or> (d = 26 \<and> m = May) \<or> (d = 20 \<and> m = July) \<or> (d = 4 \<and> m = November))"

definition singapore_sgx_closed_rules_5 :: "int \<Rightarrow> month \<Rightarrow> int \<Rightarrow> bool" where
  "singapore_sgx_closed_rules_5 d m y \<longleftrightarrow>
     y = 2022
            \<and> (((d = 1 \<or> d = 2) \<and> m = February) \<or> (d = 2 \<and> m = May) \<or> (d = 3 \<and> m = May) \<or> (d = 16 \<and> m = May) \<or> (d = 11 \<and> m = July) \<or> (d = 24 \<and> m = October) \<or> (d = 26 \<and> m = December))"

definition singapore_sgx_closed_rules_6 :: "int \<Rightarrow> month \<Rightarrow> int \<Rightarrow> bool" where
  "singapore_sgx_closed_rules_6 d m y \<longleftrightarrow>
     y = 2023
              \<and> (((d = 23 \<or> d = 24) \<and> m = January) \<or> (d = 22 \<and> m = April) \<or> (d = 2 \<and> m = June) \<or> (d = 29 \<and> m = June) \<or> (d = 1 \<and> m = September) \<or> (d = 13 \<and> m = November))"

definition singapore_sgx_closed_rules_7 :: "int \<Rightarrow> month \<Rightarrow> int \<Rightarrow> bool" where
  "singapore_sgx_closed_rules_7 d m y \<longleftrightarrow>
     y = 2024
                \<and> ((d = 12 \<and> m = February) \<or> (d = 10 \<and> m = April) \<or> (d = 22 \<and> m = May) \<or> (d = 17 \<and> m = June) \<or> (d = 31 \<and> m = October))"

definition singapore_sgx_closed_rules_8 :: "int \<Rightarrow> month \<Rightarrow> int \<Rightarrow> bool" where
  "singapore_sgx_closed_rules_8 d m y \<longleftrightarrow>
     y = 2025
                  \<and> (((d = 29 \<or> d = 30) \<and> m = January) \<or> (d = 31 \<and> m = March) \<or> (d = 12 \<and> m = May) \<or> (d = 20 \<and> m = October))"

definition singapore_sgx_closed_rules_9 :: "int \<Rightarrow> month \<Rightarrow> int \<Rightarrow> bool" where
  "singapore_sgx_closed_rules_9 d m y \<longleftrightarrow>
     y = 2026
                    \<and> (((d = 17 \<or> d = 18) \<and> m = February) \<or> (d = 20 \<and> m = March) \<or> (d = 27 \<and> m = May) \<or> (d = 1 \<and> m = June) \<or> (d = 9 \<and> m = November))"

definition singapore_sgx_is_business_day :: "date \<Rightarrow> bool option" where
  "singapore_sgx_is_business_day date = do {
     w \<leftarrow> date_weekday date;
     d \<leftarrow> date_day_of_month date;
     dd \<leftarrow> date_day_of_year date;
     m \<leftarrow> date_month date;
     y \<leftarrow> date_year date;
     em \<leftarrow> western_easter_monday y;
     if singapore_sgx_closed_rules w d dd m y em then Some False
     else if singapore_sgx_closed_rules_2 d m y then Some False
       else if singapore_sgx_closed_rules_3 d m y then Some False
         else if singapore_sgx_closed_rules_4 d m y then Some False
           else if singapore_sgx_closed_rules_5 d m y then Some False
             else if singapore_sgx_closed_rules_6 d m y then Some False
               else if singapore_sgx_closed_rules_7 d m y then Some False
                 else if singapore_sgx_closed_rules_8 d m y then Some False
                   else if singapore_sgx_closed_rules_9 d m y then Some False
                     else Some True
   }"

definition singapore_sgx_impl :: calendar_impl where
  "singapore_sgx_impl = (calendar_impl_new ''Singapore exchange''
     singapore_sgx_is_business_day is_weekend_sat_sun)
     \<lparr>ci_holiday_horizon := Some singapore_HOLIDAY_HORIZON\<rparr>"

datatype singapore_market = Singapore_Sgx

fun singapore_new :: "singapore_market \<Rightarrow> calendar" where
  "singapore_new Singapore_Sgx = calendar_from_impl singapore_sgx_impl"

lemma singapore_sgx_is_business_day_total [total_rules]: "valid_date date \<Longrightarrow> singapore_sgx_is_business_day date \<noteq> None"
  unfolding singapore_sgx_is_business_day_def by (rule total_rules | assumption | (simp add: civil_ok_def; fail))+

lemma singapore_sgx_is_business_day_weekend:
  assumes "valid_date date" "date_weekday date = Some w" "is_weekend_sat_sun w"
  shows "singapore_sgx_is_business_day date = Some False"
  using assms(1)
  by (rule date_fields)
    (use assms(2,3) in \<open>simp add: singapore_sgx_is_business_day_def singapore_sgx_closed_rules_def singapore_sgx_closed_rules_2_def singapore_sgx_closed_rules_3_def singapore_sgx_closed_rules_4_def singapore_sgx_closed_rules_5_def singapore_sgx_closed_rules_6_def singapore_sgx_closed_rules_7_def singapore_sgx_closed_rules_8_def singapore_sgx_closed_rules_9_def western_easter_eq orthodox_easter_eq\<close>)

interpretation singapore_sgx: weekend_market singapore_sgx_impl
  by (rule weekend_marketI [where f = is_weekend_sat_sun]) (simp_all add: singapore_sgx_impl_def singapore_sgx_is_business_day_total singapore_sgx_is_business_day_weekend)

end
