(* ===== verification/Markets_Korea.thy ===== *)
theory Markets_Korea
  imports Market_Rules
begin

text \<open>
  \<open>time/calendars/\<close>: the South Korean and Thai markets
  (\<open>southkorea.rs, thailand.rs\<close>). Each market
  is the predicate its \<open>is_business_day\<close> computes, clause by clause, and the record of its
  methods; each is shown to answer on every supported date, and to be closed on its weekend.
\<close>

section \<open>\<open>southkorea.rs\<close>\<close>

definition southkorea_HOLIDAY_HORIZON :: int where
  "southkorea_HOLIDAY_HORIZON = 2050"

definition southkorea_settlement_is_business_day :: "date \<Rightarrow> bool option" where
  "southkorea_settlement_is_business_day date = do {
     w \<leftarrow> date_weekday date;
     d \<leftarrow> date_day_of_month date;
     m \<leftarrow> date_month date;
     y \<leftarrow> date_year date;
     Some (\<not> (is_weekend_sat_sun w
         \<or> (d = 1 \<and> m = January)
         \<or> (d = 1 \<and> m = March)
         \<or> (w = Monday \<and> (d = 2 \<or> d = 3) \<and> m = March \<and> y > 2021)
         \<or> (d = 5 \<and> m = April \<and> y \<le> 2005)
         \<or> (d = 1 \<and> m = May)
         \<or> (d = 5 \<and> m = May)
         \<or> (w = Monday \<and> (d = 6 \<or> d = 7) \<and> m = May \<and> y > 2013)
         \<or> (d = 6 \<and> m = June)
         \<or> (d = 17 \<and> m = July \<and> y \<le> 2007)
         \<or> (d = 15 \<and> m = August)
         \<or> (w = Monday \<and> (d = 16 \<or> d = 17) \<and> m = August \<and> y > 2020)
         \<or> (d = 3 \<and> m = October)
         \<or> (w = Monday \<and> (d = 4 \<or> d = 5) \<and> m = October \<and> y > 2020)
         \<or> (d = 25 \<and> m = December)
         \<or> (w = Monday \<and> (d = 26 \<or> d = 27) \<and> m = December \<and> y > 2022)
         \<or> ((d = 21 \<or> d = 22 \<or> d = 23) \<and> m = January \<and> y = 2004)
         \<or> ((d = 8 \<or> d = 9 \<or> d = 10) \<and> m = February \<and> y = 2005)
         \<or> ((d = 28 \<or> d = 29 \<or> d = 30) \<and> m = January \<and> y = 2006)
         \<or> (d = 19 \<and> m = February \<and> y = 2007)
         \<or> ((d = 6 \<or> d = 7 \<or> d = 8) \<and> m = February \<and> y = 2008)
         \<or> ((d = 25 \<or> d = 26 \<or> d = 27) \<and> m = January \<and> y = 2009)
         \<or> ((d = 13 \<or> d = 14 \<or> d = 15) \<and> m = February \<and> y = 2010)
         \<or> ((d = 2 \<or> d = 3 \<or> d = 4) \<and> m = February \<and> y = 2011)
         \<or> ((d = 23 \<or> d = 24) \<and> m = January \<and> y = 2012)
         \<or> (d = 11 \<and> m = February \<and> y = 2013)
         \<or> ((d = 30 \<or> d = 31) \<and> m = January \<and> y = 2014)
         \<or> ((d = 18 \<or> d = 19 \<or> d = 20) \<and> m = February \<and> y = 2015)
         \<or> (d \<ge> 7 \<and> d \<le> 10 \<and> m = February \<and> y = 2016)
         \<or> (d \<ge> 27 \<and> d \<le> 30 \<and> m = January \<and> y = 2017)
         \<or> ((d = 15 \<or> d = 16 \<or> d = 17) \<and> m = February \<and> y = 2018)
         \<or> ((d = 4 \<or> d = 5 \<or> d = 6) \<and> m = February \<and> y = 2019)
         \<or> (d \<ge> 24 \<and> d \<le> 27 \<and> m = January \<and> y = 2020)
         \<or> ((d = 11 \<or> d = 12 \<or> d = 13) \<and> m = February \<and> y = 2021)
         \<or> (((d = 31 \<and> m = January) \<or> ((d = 1 \<or> d = 2) \<and> m = February)) \<and> y = 2022)
         \<or> ((d = 23 \<or> d = 24) \<and> m = January \<and> y = 2023)
         \<or> (d \<ge> 9 \<and> d \<le> 12 \<and> m = February \<and> y = 2024)
         \<or> ((d = 28 \<or> d = 29 \<or> d = 30) \<and> m = January \<and> y = 2025)
         \<or> ((d = 16 \<or> d = 17 \<or> d = 18) \<and> m = February \<and> y = 2026)
         \<or> ((d = 8 \<or> d = 9) \<and> m = February \<and> y = 2027)
         \<or> ((d = 26 \<or> d = 27 \<or> d = 28) \<and> m = January \<and> y = 2028)
         \<or> ((d = 12 \<or> d = 13 \<or> d = 14) \<and> m = February \<and> y = 2029)
         \<or> ((d = 4 \<or> d = 5) \<and> m = February \<and> y = 2030)
         \<or> ((d = 22 \<or> d = 23 \<or> d = 24) \<and> m = January \<and> y = 2031)
         \<or> ((d = 10 \<or> d = 11 \<or> d = 12) \<and> m = February \<and> y = 2032)
         \<or> (((d = 31 \<and> m = January) \<or> ((d = 1 \<or> d = 2) \<and> m = February)) \<and> y = 2033)
         \<or> ((d = 20 \<or> d = 21) \<and> m = February \<and> y = 2034)
         \<or> ((d = 7 \<or> d = 8 \<or> d = 9) \<and> m = February \<and> y = 2035)
         \<or> ((d = 28 \<or> d = 29 \<or> d = 30) \<and> m = January \<and> y = 2036)
         \<or> ((d = 16 \<or> d = 17) \<and> m = February \<and> y = 2037)
         \<or> ((d = 3 \<or> d = 4 \<or> d = 5) \<and> m = February \<and> y = 2038)
         \<or> ((d = 24 \<or> d = 25 \<or> d = 26) \<and> m = January \<and> y = 2039)
         \<or> ((d = 13 \<or> d = 14) \<and> m = February \<and> y = 2040)
         \<or> (((d = 31 \<and> m = January) \<or> ((d = 1 \<or> d = 2) \<and> m = February)) \<and> y = 2041)
         \<or> ((d = 21 \<or> d = 22 \<or> d = 23) \<and> m = January \<and> y = 2042)
         \<or> ((d = 9 \<or> d = 10 \<or> d = 11) \<and> m = February \<and> y = 2043)
         \<or> ((((d = 29 \<or> d = 30 \<or> d = 31) \<and> m = January) \<or> (d = 1 \<and> m = February)) \<and> y = 2044)
         \<or> ((d = 16 \<or> d = 17 \<or> d = 18) \<and> m = February \<and> y = 2045)
         \<or> ((d = 5 \<or> d = 6 \<or> d = 7) \<and> m = February \<and> y = 2046)
         \<or> (d \<ge> 25 \<and> d \<le> 28 \<and> m = January \<and> y = 2047)
         \<or> ((d = 13 \<or> d = 14 \<or> d = 15) \<and> m = February \<and> y = 2048)
         \<or> ((d = 1 \<or> d = 2 \<or> d = 3) \<and> m = February \<and> y = 2049)
         \<or> ((d = 24 \<or> d = 25) \<and> m = January \<and> y = 2050)
         \<or> (d = 15 \<and> m = April \<and> y = 2004)
         \<or> (d = 31 \<and> m = May \<and> y = 2006)
         \<or> (d = 19 \<and> m = December \<and> y = 2007)
         \<or> (d = 9 \<and> m = April \<and> y = 2008)
         \<or> (d = 2 \<and> m = June \<and> y = 2010)
         \<or> (d = 11 \<and> m = April \<and> y = 2012)
         \<or> (d = 19 \<and> m = December \<and> y = 2012)
         \<or> (d = 4 \<and> m = June \<and> y = 2014)
         \<or> (d = 13 \<and> m = April \<and> y = 2016)
         \<or> (d = 9 \<and> m = May \<and> y = 2017)
         \<or> (d = 13 \<and> m = June \<and> y = 2018)
         \<or> (d = 15 \<and> m = April \<and> y = 2020)
         \<or> (d = 9 \<and> m = March \<and> y = 2022)
         \<or> (d = 1 \<and> m = June \<and> y = 2022)
         \<or> (d = 10 \<and> m = April \<and> y = 2024)
         \<or> (d = 26 \<and> m = May \<and> y = 2004)
         \<or> (d = 15 \<and> m = May \<and> y = 2005)
         \<or> (d = 5 \<and> m = May \<and> y = 2006)
         \<or> (d = 24 \<and> m = May \<and> y = 2007)
         \<or> (d = 12 \<and> m = May \<and> y = 2008)
         \<or> (d = 2 \<and> m = May \<and> y = 2009)
         \<or> (d = 21 \<and> m = May \<and> y = 2010)
         \<or> (d = 10 \<and> m = May \<and> y = 2011)
         \<or> (d = 28 \<and> m = May \<and> y = 2012)
         \<or> (d = 17 \<and> m = May \<and> y = 2013)
         \<or> (d = 6 \<and> m = May \<and> y = 2014)
         \<or> (d = 25 \<and> m = May \<and> y = 2015)
         \<or> (d = 14 \<and> m = May \<and> y = 2016)
         \<or> (d = 3 \<and> m = May \<and> y = 2017)
         \<or> (d = 22 \<and> m = May \<and> y = 2018)
         \<or> (d = 12 \<and> m = May \<and> y = 2019)
         \<or> (d = 30 \<and> m = April \<and> y = 2020)
         \<or> (d = 19 \<and> m = May \<and> y = 2021)
         \<or> (d = 8 \<and> m = May \<and> y = 2022)
         \<or> (d = 29 \<and> m = May \<and> y = 2023)
         \<or> (d = 15 \<and> m = May \<and> y = 2024)
         \<or> (d = 6 \<and> m = May \<and> y = 2025)
         \<or> (d = 25 \<and> m = May \<and> y = 2026)
         \<or> (d = 13 \<and> m = May \<and> y = 2027)
         \<or> (d = 2 \<and> m = May \<and> y = 2028)
         \<or> (d = 21 \<and> m = May \<and> y = 2029)
         \<or> (d = 9 \<and> m = May \<and> y = 2030)
         \<or> (d = 28 \<and> m = May \<and> y = 2031)
         \<or> (d = 17 \<and> m = May \<and> y = 2032)
         \<or> (d = 6 \<and> m = May \<and> y = 2033)
         \<or> (d = 25 \<and> m = May \<and> y = 2034)
         \<or> (d = 15 \<and> m = May \<and> y = 2035)
         \<or> (d = 6 \<and> m = May \<and> y = 2036)
         \<or> (d = 22 \<and> m = May \<and> y = 2037)
         \<or> (d = 11 \<and> m = May \<and> y = 2038)
         \<or> (d = 2 \<and> m = May \<and> y = 2039)
         \<or> (d = 18 \<and> m = May \<and> y = 2040)
         \<or> (d = 7 \<and> m = May \<and> y = 2041)
         \<or> (d = 26 \<and> m = May \<and> y = 2042)
         \<or> (d = 18 \<and> m = May \<and> y = 2043)
         \<or> (d = 6 \<and> m = May \<and> y = 2044)
         \<or> (d = 24 \<and> m = May \<and> y = 2045)
         \<or> (d = 14 \<and> m = May \<and> y = 2046)
         \<or> (d = 2 \<and> m = May \<and> y = 2047)
         \<or> (d = 20 \<and> m = May \<and> y = 2048)
         \<or> (d = 10 \<and> m = May \<and> y = 2049)
         \<or> (d = 30 \<and> m = May \<and> y = 2050)
         \<or> (d = 14 \<and> m = August \<and> y = 2015)
         \<or> (d = 17 \<and> m = August \<and> y = 2020)
         \<or> (d = 2 \<and> m = October \<and> y = 2023)
         \<or> (d = 1 \<and> m = October \<and> y = 2024)
         \<or> (d = 27 \<and> m = January \<and> y = 2025)
         \<or> ((d = 27 \<or> d = 28 \<or> d = 29) \<and> m = September \<and> y = 2004)
         \<or> ((d = 17 \<or> d = 18 \<or> d = 19) \<and> m = September \<and> y = 2005)
         \<or> ((d = 5 \<or> d = 6 \<or> d = 7) \<and> m = October \<and> y = 2006)
         \<or> ((d = 24 \<or> d = 25 \<or> d = 26) \<and> m = September \<and> y = 2007)
         \<or> ((d = 13 \<or> d = 14 \<or> d = 15) \<and> m = September \<and> y = 2008)
         \<or> ((d = 2 \<or> d = 3 \<or> d = 4) \<and> m = October \<and> y = 2009)
         \<or> ((d = 21 \<or> d = 22 \<or> d = 23) \<and> m = September \<and> y = 2010)
         \<or> ((d = 12 \<or> d = 13) \<and> m = September \<and> y = 2011)
         \<or> (d = 1 \<and> m = October \<and> y = 2012)
         \<or> ((d = 18 \<or> d = 19 \<or> d = 20) \<and> m = September \<and> y = 2013)
         \<or> ((d = 8 \<or> d = 9 \<or> d = 10) \<and> m = September \<and> y = 2014)
         \<or> ((d = 28 \<or> d = 29) \<and> m = September \<and> y = 2015)
         \<or> ((d = 14 \<or> d = 15 \<or> d = 16) \<and> m = September \<and> y = 2016)
         \<or> (d \<ge> 3 \<and> d \<le> 6 \<and> m = October \<and> y = 2017)
         \<or> (d \<ge> 23 \<and> d \<le> 26 \<and> m = September \<and> y = 2018)
         \<or> ((d = 12 \<or> d = 13 \<or> d = 14) \<and> m = September \<and> y = 2019)
         \<or> (((d = 30 \<and> m = September) \<or> ((d = 1 \<or> d = 2) \<and> m = October)) \<and> y = 2020)
         \<or> ((d = 20 \<or> d = 21 \<or> d = 22) \<and> m = September \<and> y = 2021)
         \<or> ((d = 9 \<or> d = 10 \<or> d = 11) \<and> m = September \<and> y = 2022)
         \<or> (d \<ge> 9 \<and> d \<le> 12 \<and> m = September \<and> y = 2022)
         \<or> ((d = 28 \<or> d = 29 \<or> d = 30) \<and> m = September \<and> y = 2023)
         \<or> ((d = 16 \<or> d = 17 \<or> d = 18) \<and> m = September \<and> y = 2024)
         \<or> ((d = 6 \<or> d = 7 \<or> d = 8) \<and> m = October \<and> y = 2025)
         \<or> ((d = 24 \<or> d = 25 \<or> d = 26) \<and> m = September \<and> y = 2026)
         \<or> ((d = 14 \<or> d = 15 \<or> d = 16) \<and> m = September \<and> y = 2027)
         \<or> (d \<ge> 2 \<and> d \<le> 5 \<and> m = October \<and> y = 2028)
         \<or> (d \<ge> 21 \<and> d \<le> 24 \<and> m = September \<and> y = 2029)
         \<or> ((d = 11 \<or> d = 12 \<or> d = 13) \<and> m = September \<and> y = 2030)
         \<or> (((d = 30 \<and> m = September) \<or> ((d = 1 \<or> d = 2) \<and> m = October)) \<and> y = 2031)
         \<or> ((d = 20 \<or> d = 21) \<and> m = September \<and> y = 2032)
         \<or> ((d = 7 \<or> d = 8 \<or> d = 9) \<and> m = September \<and> y = 2033)
         \<or> ((d = 26 \<or> d = 27 \<or> d = 28) \<and> m = September \<and> y = 2034)
         \<or> ((d = 17 \<or> d = 18) \<and> m = September \<and> y = 2035)
         \<or> (d \<ge> 3 \<and> d \<le> 7 \<and> m = October \<and> y = 2036)
         \<or> ((d = 23 \<or> d = 24 \<or> d = 25) \<and> m = September \<and> y = 2037)
         \<or> ((d = 13 \<or> d = 14 \<or> d = 15) \<and> m = September \<and> y = 2038)
         \<or> ((d = 3 \<or> d = 4 \<or> d = 5) \<and> m = October \<and> y = 2039)
         \<or> ((d = 20 \<or> d = 21 \<or> d = 22) \<and> m = September \<and> y = 2040)
         \<or> ((d = 9 \<or> d = 10 \<or> d = 11) \<and> m = September \<and> y = 2041)
         \<or> ((d = 29 \<or> d = 30) \<and> m = September \<and> y = 2042)
         \<or> ((d = 16 \<or> d = 17 \<or> d = 18) \<and> m = September \<and> y = 2043)
         \<or> ((d = 4 \<or> d = 5 \<or> d = 6) \<and> m = October \<and> y = 2044)
         \<or> ((d = 25 \<or> d = 26 \<or> d = 27) \<and> m = September \<and> y = 2045)
         \<or> (d \<ge> 14 \<and> d \<le> 17 \<and> m = September \<and> y = 2046)
         \<or> ((d = 4 \<or> d = 5 \<or> d = 7) \<and> m = October \<and> y = 2047)
         \<or> ((d = 21 \<or> d = 22 \<or> d = 23) \<and> m = September \<and> y = 2048)
         \<or> (d \<ge> 10 \<and> d \<le> 13 \<and> m = September \<and> y = 2049)
         \<or> ((((d = 29 \<or> d = 30) \<and> m = September) \<or> (d = 1 \<and> m = October)) \<and> y = 2050)
         \<or> (d = 9 \<and> m = October \<and> y \<ge> 2013)
         \<or> (w = Monday \<and> (d = 10 \<or> d = 11) \<and> m = October \<and> y > 2020)))
   }"

definition southkorea_settlement_impl :: calendar_impl where
  "southkorea_settlement_impl = (calendar_impl_new ''South-Korean settlement''
     southkorea_settlement_is_business_day is_weekend_sat_sun)
     \<lparr>ci_holiday_horizon := Some southkorea_HOLIDAY_HORIZON\<rparr>"

definition southkorea_krx_is_business_day :: "date \<Rightarrow> bool option" where
  "southkorea_krx_is_business_day date = do {
     c9 \<leftarrow> lnot (southkorea_settlement_is_business_day date);
     if c9 then Some False
     else do {
       d \<leftarrow> date_day_of_month date;
       w \<leftarrow> date_weekday date;
       m \<leftarrow> date_month date;
       y \<leftarrow> date_year date;
       if (((d = 29 \<or> d = 30) \<and> w = Friday) \<or> d = 31)
         \<and> m = December then Some False
       else if (d = 6 \<and> m = May \<and> y = 2016)
           \<or> (d = 2 \<and> m = October \<and> y = 2017) then Some False
         else Some True
     }
   }"

definition southkorea_krx_impl :: calendar_impl where
  "southkorea_krx_impl = (calendar_impl_new ''South-Korea exchange''
     southkorea_krx_is_business_day is_weekend_sat_sun)
     \<lparr>ci_holiday_horizon := Some southkorea_HOLIDAY_HORIZON\<rparr>"

datatype southkorea_market = SouthKorea_Settlement | SouthKorea_Krx

fun southkorea_new :: "southkorea_market \<Rightarrow> calendar" where
  "southkorea_new SouthKorea_Settlement = calendar_from_impl southkorea_settlement_impl"
| "southkorea_new SouthKorea_Krx = calendar_from_impl southkorea_krx_impl"

lemma southkorea_settlement_is_business_day_total [total_rules]: "valid_date date \<Longrightarrow> southkorea_settlement_is_business_day date \<noteq> None"
  unfolding southkorea_settlement_is_business_day_def by (rule total_rules | assumption | (simp add: civil_ok_def; fail))+

lemma southkorea_krx_is_business_day_total [total_rules]: "valid_date date \<Longrightarrow> southkorea_krx_is_business_day date \<noteq> None"
  unfolding southkorea_krx_is_business_day_def by (rule total_rules | assumption | (simp add: civil_ok_def; fail))+

lemma southkorea_settlement_is_business_day_weekend:
  assumes "valid_date date" "date_weekday date = Some w" "is_weekend_sat_sun w"
  shows "southkorea_settlement_is_business_day date = Some False"
  using assms(1)
  by (rule date_fields)
    (use assms(2,3) in \<open>simp add: southkorea_settlement_is_business_day_def western_easter_eq orthodox_easter_eq\<close>)

interpretation southkorea_settlement: weekend_market southkorea_settlement_impl
  by (rule weekend_marketI [where f = is_weekend_sat_sun]) (simp_all add: southkorea_settlement_impl_def southkorea_settlement_is_business_day_total southkorea_settlement_is_business_day_weekend)

lemma southkorea_krx_is_business_day_weekend:
  assumes "valid_date date" "date_weekday date = Some w" "is_weekend_sat_sun w"
  shows "southkorea_krx_is_business_day date = Some False"
  using assms(1)
  by (rule date_fields)
    (use assms(2,3) in \<open>simp add: southkorea_krx_is_business_day_def southkorea_settlement_is_business_day_def western_easter_eq orthodox_easter_eq\<close>)

interpretation southkorea_krx: weekend_market southkorea_krx_impl
  by (rule weekend_marketI [where f = is_weekend_sat_sun]) (simp_all add: southkorea_krx_impl_def southkorea_krx_is_business_day_total southkorea_krx_is_business_day_weekend)

section \<open>\<open>thailand.rs\<close>\<close>

definition thailand_HOLIDAY_HORIZON :: int where
  "thailand_HOLIDAY_HORIZON = 2025"

definition thailand_set_closed_rules :: "weekday \<Rightarrow> int \<Rightarrow> month \<Rightarrow> int \<Rightarrow> bool" where
  "thailand_set_closed_rules w d m y \<longleftrightarrow>
     is_weekend_sat_sun w
       \<or> ((d = 1 \<or> (d = 3 \<and> w = Monday)) \<and> m = January)
       \<or> ((d = 6 \<or> ((d = 7 \<or> d = 8) \<and> w = Monday)) \<and> m = April)
       \<or> ((d = 13 \<or> d = 14 \<or> d = 15) \<and> m = April \<and> y \<noteq> 2020)
       \<or> (d = 16 \<and> (w = Monday \<or> w = Tuesday) \<and> m = April \<and> y \<noteq> 2020)
       \<or> ((d = 1 \<or> ((d = 2 \<or> d = 3) \<and> w = Monday)) \<and> m = May)
       \<or> ((d = 4 \<or> ((d = 5 \<or> d = 6) \<and> w = Monday)) \<and> m = May \<and> y \<ge> 2019)
       \<or> ((d = 3 \<or> ((d = 4 \<or> d = 5) \<and> w = Monday)) \<and> m = June \<and> y \<ge> 2019)
       \<or> ((d = 28 \<or> ((d = 29 \<or> d = 30) \<and> w = Monday)) \<and> m = July \<and> y \<ge> 2017)
       \<or> ((d = 12 \<or> ((d = 13 \<or> d = 14) \<and> w = Monday)) \<and> m = August)
       \<or> ((d = 13 \<or> ((d = 14 \<or> d = 15) \<and> w = Monday)) \<and> m = October \<and> y \<ge> 2017)
       \<or> ((d = 23 \<or> ((d = 24 \<or> d = 25) \<and> w = Monday)) \<and> m = October \<and> y \<noteq> 2021)
       \<or> ((d = 5 \<or> ((d = 6 \<or> d = 7) \<and> w = Monday)) \<and> m = December)
       \<or> ((d = 10 \<or> ((d = 11 \<or> d = 12) \<and> w = Monday)) \<and> m = December)
       \<or> (d = 31 \<and> m = December)
       \<or> (d = 2 \<and> w = Monday \<and> m = January \<and> y \<noteq> 2024)"

definition thailand_set_closed_rules_2 :: "int \<Rightarrow> month \<Rightarrow> int \<Rightarrow> bool" where
  "thailand_set_closed_rules_2 d m y \<longleftrightarrow>
     y = 2000
      \<and> ((d = 21 \<and> m = February) \<or> (d = 5 \<and> m = May) \<or> (d = 17 \<and> m = May) \<or> (d = 17 \<and> m = July) \<or> (d = 23 \<and> m = October))"

definition thailand_set_closed_rules_3 :: "int \<Rightarrow> month \<Rightarrow> int \<Rightarrow> bool" where
  "thailand_set_closed_rules_3 d m y \<longleftrightarrow>
     y = 2001
        \<and> ((d = 8 \<and> m = February) \<or> (d = 7 \<and> m = May) \<or> (d = 8 \<and> m = May) \<or> (d = 6 \<and> m = July) \<or> (d = 23 \<and> m = October))"

definition thailand_set_closed_rules_4 :: "int \<Rightarrow> month \<Rightarrow> int \<Rightarrow> bool" where
  "thailand_set_closed_rules_4 d m y \<longleftrightarrow>
     y = 2005
          \<and> ((d = 23 \<and> m = February) \<or> (d = 5 \<and> m = May) \<or> (d = 23 \<and> m = May) \<or> (d = 1 \<and> m = July) \<or> (d = 22 \<and> m = July) \<or> (d = 24 \<and> m = October))"

definition thailand_set_closed_rules_5 :: "int \<Rightarrow> month \<Rightarrow> int \<Rightarrow> bool" where
  "thailand_set_closed_rules_5 d m y \<longleftrightarrow>
     y = 2006
            \<and> ((d = 13 \<and> m = February) \<or> (d = 19 \<and> m = April) \<or> (d = 5 \<and> m = May) \<or> (d = 12 \<and> m = May) \<or> (d = 12 \<and> m = June) \<or> (d = 13 \<and> m = June) \<or> (d = 11 \<and> m = July) \<or> (d = 23 \<and> m = October))"

definition thailand_set_closed_rules_6 :: "int \<Rightarrow> month \<Rightarrow> int \<Rightarrow> bool" where
  "thailand_set_closed_rules_6 d m y \<longleftrightarrow>
     y = 2007
              \<and> ((d = 5 \<and> m = March) \<or> (d = 7 \<and> m = May) \<or> (d = 31 \<and> m = May) \<or> (d = 30 \<and> m = July) \<or> (d = 23 \<and> m = October) \<or> (d = 24 \<and> m = December))"

definition thailand_set_closed_rules_7 :: "int \<Rightarrow> month \<Rightarrow> int \<Rightarrow> bool" where
  "thailand_set_closed_rules_7 d m y \<longleftrightarrow>
     y = 2008
                \<and> ((d = 21 \<and> m = February) \<or> (d = 5 \<and> m = May) \<or> (d = 19 \<and> m = May) \<or> (d = 1 \<and> m = July) \<or> (d = 17 \<and> m = July) \<or> (d = 23 \<and> m = October))"

definition thailand_set_closed_rules_8 :: "int \<Rightarrow> month \<Rightarrow> int \<Rightarrow> bool" where
  "thailand_set_closed_rules_8 d m y \<longleftrightarrow>
     y = 2009
                  \<and> ((d = 2 \<and> m = January) \<or> (d = 9 \<and> m = February) \<or> (d = 5 \<and> m = May) \<or> (d = 8 \<and> m = May) \<or> (d = 1 \<and> m = July) \<or> (d = 6 \<and> m = July) \<or> (d = 7 \<and> m = July) \<or> (d = 23 \<and> m = October))"

definition thailand_set_closed_rules_9 :: "int \<Rightarrow> month \<Rightarrow> int \<Rightarrow> bool" where
  "thailand_set_closed_rules_9 d m y \<longleftrightarrow>
     y = 2010
                    \<and> ((d = 1 \<and> m = March) \<or> (d = 5 \<and> m = May) \<or> (d = 20 \<and> m = May) \<or> (d = 21 \<and> m = May) \<or> (d = 28 \<and> m = May) \<or> (d = 1 \<and> m = July) \<or> (d = 26 \<and> m = July) \<or> (d = 13 \<and> m = August) \<or> (d = 25 \<and> m = October))"

definition thailand_set_closed_rules_10 :: "int \<Rightarrow> month \<Rightarrow> int \<Rightarrow> bool" where
  "thailand_set_closed_rules_10 d m y \<longleftrightarrow>
     y = 2011
                      \<and> ((d = 18 \<and> m = February) \<or> (d = 5 \<and> m = May) \<or> (d = 16 \<and> m = May) \<or> (d = 17 \<and> m = May) \<or> (d = 1 \<and> m = July) \<or> (d = 15 \<and> m = July) \<or> (d = 24 \<and> m = October))"

definition thailand_set_closed_rules_11 :: "int \<Rightarrow> month \<Rightarrow> int \<Rightarrow> bool" where
  "thailand_set_closed_rules_11 d m y \<longleftrightarrow>
     y = 2012
                        \<and> ((d = 3 \<and> m = January) \<or> (d = 7 \<and> m = March) \<or> (d = 9 \<and> m = April) \<or> (d = 7 \<and> m = May) \<or> (d = 4 \<and> m = June) \<or> (d = 2 \<and> m = August) \<or> (d = 23 \<and> m = October))"

definition thailand_set_closed_rules_12 :: "int \<Rightarrow> month \<Rightarrow> int \<Rightarrow> bool" where
  "thailand_set_closed_rules_12 d m y \<longleftrightarrow>
     y = 2013
                          \<and> ((d = 25 \<and> m = February) \<or> (d = 6 \<and> m = May) \<or> (d = 24 \<and> m = May) \<or> (d = 1 \<and> m = July) \<or> (d = 22 \<and> m = July) \<or> (d = 23 \<and> m = October) \<or> (d = 30 \<and> m = December))"

definition thailand_set_closed_rules_13 :: "int \<Rightarrow> month \<Rightarrow> int \<Rightarrow> bool" where
  "thailand_set_closed_rules_13 d m y \<longleftrightarrow>
     y = 2014
                            \<and> ((d = 14 \<and> m = February) \<or> (d = 5 \<and> m = May) \<or> (d = 13 \<and> m = May) \<or> (d = 1 \<and> m = July) \<or> (d = 11 \<and> m = July) \<or> (d = 11 \<and> m = August) \<or> (d = 23 \<and> m = October))"

definition thailand_set_closed_rules_14 :: "int \<Rightarrow> month \<Rightarrow> int \<Rightarrow> bool" where
  "thailand_set_closed_rules_14 d m y \<longleftrightarrow>
     y = 2015
                              \<and> ((d = 2 \<and> m = January) \<or> (d = 4 \<and> m = March) \<or> (d = 4 \<and> m = May) \<or> (d = 5 \<and> m = May) \<or> (d = 1 \<and> m = June) \<or> (d = 1 \<and> m = July) \<or> (d = 30 \<and> m = July) \<or> (d = 23 \<and> m = October))"

definition thailand_set_closed_rules_15 :: "int \<Rightarrow> month \<Rightarrow> int \<Rightarrow> bool" where
  "thailand_set_closed_rules_15 d m y \<longleftrightarrow>
     y = 2016
                                \<and> ((d = 22 \<and> m = February) \<or> (d = 5 \<and> m = May) \<or> (d = 6 \<and> m = May) \<or> (d = 20 \<and> m = May) \<or> (d = 1 \<and> m = July) \<or> (d = 18 \<and> m = July) \<or> (d = 19 \<and> m = July) \<or> (d = 24 \<and> m = October))"

definition thailand_set_closed_rules_16 :: "int \<Rightarrow> month \<Rightarrow> int \<Rightarrow> bool" where
  "thailand_set_closed_rules_16 d m y \<longleftrightarrow>
     y = 2017
                                  \<and> ((d = 13 \<and> m = February) \<or> (d = 10 \<and> m = May) \<or> (d = 10 \<and> m = July) \<or> (d = 23 \<and> m = October) \<or> (d = 26 \<and> m = October))"

definition thailand_set_closed_rules_17 :: "int \<Rightarrow> month \<Rightarrow> int \<Rightarrow> bool" where
  "thailand_set_closed_rules_17 d m y \<longleftrightarrow>
     y = 2018
                                    \<and> ((d = 1 \<and> m = March) \<or> (d = 29 \<and> m = May) \<or> (d = 27 \<and> m = July) \<or> (d = 23 \<and> m = October))"

definition thailand_set_closed_rules_18 :: "int \<Rightarrow> month \<Rightarrow> int \<Rightarrow> bool" where
  "thailand_set_closed_rules_18 d m y \<longleftrightarrow>
     y = 2019
                                      \<and> ((d = 19 \<and> m = February) \<or> (d = 6 \<and> m = May) \<or> (d = 20 \<and> m = May) \<or> (d = 16 \<and> m = July))"

definition thailand_set_closed_rules_19 :: "int \<Rightarrow> month \<Rightarrow> int \<Rightarrow> bool" where
  "thailand_set_closed_rules_19 d m y \<longleftrightarrow>
     y = 2020
                                        \<and> ((d = 10 \<and> m = February) \<or> (d = 6 \<and> m = May) \<or> (d = 6 \<and> m = July) \<or> (d = 27 \<and> m = July) \<or> (d = 4 \<and> m = September) \<or> (d = 7 \<and> m = September) \<or> (d = 11 \<and> m = December))"

definition thailand_set_closed_rules_20 :: "int \<Rightarrow> month \<Rightarrow> int \<Rightarrow> bool" where
  "thailand_set_closed_rules_20 d m y \<longleftrightarrow>
     y = 2021
                                          \<and> ((d = 12 \<and> m = February) \<or> (d = 26 \<and> m = February) \<or> (d = 26 \<and> m = May) \<or> (d = 26 \<and> m = July) \<or> (d = 24 \<and> m = September) \<or> (d = 22 \<and> m = October))"

definition thailand_set_closed_rules_21 :: "int \<Rightarrow> month \<Rightarrow> int \<Rightarrow> bool" where
  "thailand_set_closed_rules_21 d m y \<longleftrightarrow>
     y = 2022
                                            \<and> ((d = 16 \<and> m = February) \<or> (d = 16 \<and> m = May) \<or> (d = 13 \<and> m = July) \<or> (d = 29 \<and> m = July) \<or> (d = 14 \<and> m = October) \<or> (d = 24 \<and> m = October))"

definition thailand_set_closed_rules_22 :: "int \<Rightarrow> month \<Rightarrow> int \<Rightarrow> bool" where
  "thailand_set_closed_rules_22 d m y \<longleftrightarrow>
     y = 2023
                                              \<and> ((d = 6 \<and> m = March) \<or> (d = 5 \<and> m = May) \<or> (d = 5 \<and> m = June) \<or> (d = 1 \<and> m = August) \<or> (d = 23 \<and> m = October) \<or> (d = 29 \<and> m = December))"

definition thailand_set_closed_rules_23 :: "int \<Rightarrow> month \<Rightarrow> int \<Rightarrow> bool" where
  "thailand_set_closed_rules_23 d m y \<longleftrightarrow>
     y = 2024
                                                \<and> ((d = 26 \<and> m = February) \<or> (d = 8 \<and> m = April) \<or> (d = 12 \<and> m = April) \<or> (d = 6 \<and> m = May) \<or> (d = 22 \<and> m = May) \<or> (d = 22 \<and> m = July) \<or> (d = 23 \<and> m = October))"

definition thailand_set_closed_rules_24 :: "int \<Rightarrow> month \<Rightarrow> int \<Rightarrow> bool" where
  "thailand_set_closed_rules_24 d m y \<longleftrightarrow>
     y = 2025
                                                  \<and> ((d = 12 \<and> m = February) \<or> (d = 7 \<and> m = April) \<or> (d = 5 \<and> m = May) \<or> (d = 12 \<and> m = May) \<or> (d = 10 \<and> m = July) \<or> (d = 23 \<and> m = October))"

definition thailand_set_is_business_day :: "date \<Rightarrow> bool option" where
  "thailand_set_is_business_day date = do {
     w \<leftarrow> date_weekday date;
     d \<leftarrow> date_day_of_month date;
     m \<leftarrow> date_month date;
     y \<leftarrow> date_year date;
     if thailand_set_closed_rules w d m y then Some False
     else if thailand_set_closed_rules_2 d m y then Some False
       else if thailand_set_closed_rules_3 d m y then Some False
         else if thailand_set_closed_rules_4 d m y then Some False
           else if thailand_set_closed_rules_5 d m y then Some False
             else if thailand_set_closed_rules_6 d m y then Some False
               else if thailand_set_closed_rules_7 d m y then Some False
                 else if thailand_set_closed_rules_8 d m y then Some False
                   else if thailand_set_closed_rules_9 d m y then Some False
                     else if thailand_set_closed_rules_10 d m y then Some False
                       else if thailand_set_closed_rules_11 d m y then Some False
                         else if thailand_set_closed_rules_12 d m y then Some False
                           else if thailand_set_closed_rules_13 d m y then Some False
                             else if thailand_set_closed_rules_14 d m y then Some False
                               else if thailand_set_closed_rules_15 d m y then Some False
                                 else if thailand_set_closed_rules_16 d m y then Some False
                                   else if thailand_set_closed_rules_17 d m y then Some False
                                     else if thailand_set_closed_rules_18 d m y then Some False
                                       else if thailand_set_closed_rules_19 d m y then Some False
                                         else if thailand_set_closed_rules_20 d m y then Some False
                                           else if thailand_set_closed_rules_21 d m y then Some False
                                             else if thailand_set_closed_rules_22 d m y then Some False
                                               else if thailand_set_closed_rules_23 d m y then Some False
                                                 else if thailand_set_closed_rules_24 d m y then Some False
                                                   else Some True
   }"

definition thailand_set_impl :: calendar_impl where
  "thailand_set_impl = (calendar_impl_new ''Thailand stock exchange''
     thailand_set_is_business_day is_weekend_sat_sun)
     \<lparr>ci_holiday_horizon := Some thailand_HOLIDAY_HORIZON\<rparr>"

definition thailand_new :: calendar where
  "thailand_new = calendar_from_impl thailand_set_impl"

lemma thailand_set_is_business_day_total [total_rules]: "valid_date date \<Longrightarrow> thailand_set_is_business_day date \<noteq> None"
  unfolding thailand_set_is_business_day_def by (rule total_rules | assumption | (simp add: civil_ok_def; fail))+

lemma thailand_set_is_business_day_weekend:
  assumes "valid_date date" "date_weekday date = Some w" "is_weekend_sat_sun w"
  shows "thailand_set_is_business_day date = Some False"
  using assms(1)
  by (rule date_fields)
    (use assms(2,3) in \<open>simp add: thailand_set_is_business_day_def thailand_set_closed_rules_def thailand_set_closed_rules_2_def thailand_set_closed_rules_3_def thailand_set_closed_rules_4_def thailand_set_closed_rules_5_def thailand_set_closed_rules_6_def thailand_set_closed_rules_7_def thailand_set_closed_rules_8_def thailand_set_closed_rules_9_def thailand_set_closed_rules_10_def thailand_set_closed_rules_11_def thailand_set_closed_rules_12_def thailand_set_closed_rules_13_def thailand_set_closed_rules_14_def thailand_set_closed_rules_15_def thailand_set_closed_rules_16_def thailand_set_closed_rules_17_def thailand_set_closed_rules_18_def thailand_set_closed_rules_19_def thailand_set_closed_rules_20_def thailand_set_closed_rules_21_def thailand_set_closed_rules_22_def thailand_set_closed_rules_23_def thailand_set_closed_rules_24_def western_easter_eq orthodox_easter_eq\<close>)

interpretation thailand_set: weekend_market thailand_set_impl
  by (rule weekend_marketI [where f = is_weekend_sat_sun]) (simp_all add: thailand_set_impl_def thailand_set_is_business_day_total thailand_set_is_business_day_weekend)

end
