(* ===== verification/Markets_South.thy ===== *)
theory Markets_South
  imports Market_Rules
begin

text \<open>
  \<open>time/calendars/\<close>: Middle Eastern, African and Oceanian markets
  (\<open>israel.rs, saudiarabia.rs, botswana.rs, southafrica.rs, australia.rs, newzealand.rs\<close>). Each market
  is the predicate its \<open>is_business_day\<close> computes, clause by clause, and the record of its
  methods; each is shown to answer on every supported date, and to be closed on its weekend.
\<close>

section \<open>\<open>israel.rs\<close>\<close>

definition israel_HOLIDAY_HORIZON :: int where
  "israel_HOLIDAY_HORIZON = 2050"

text \<open>A shift that leaves the supported range is absent.\<close>

definition israel_shift :: "date \<Rightarrow> int \<Rightarrow> date option" where
  "israel_shift date delta =
     (let serial = serial_number date + delta
      in if serial_number date_min \<le> serial \<and> serial \<le> serial_number date_max
         then Some (Date serial) else None)"

text \<open>\<open>shift(date, delta).is_some_and(f)\<close>.\<close>

definition shifted_is :: "date \<Rightarrow> int \<Rightarrow> (date \<Rightarrow> bool option) \<Rightarrow> bool option" where
  "shifted_is date delta f = (case israel_shift date delta of None \<Rightarrow> Some False | Some d \<Rightarrow> f d)"

lemma israel_shift_valid: "israel_shift date delta = Some d \<Longrightarrow> valid_date d"
  by (auto simp: israel_shift_def Let_def valid_date_iff date_min_def date_max_def
      MINIMUM_SERIAL_NUMBER_def MAXIMUM_SERIAL_NUMBER_def split: if_splits)

lemma shifted_is_total [total_rules]:
  "(\<And>d. valid_date d \<Longrightarrow> f d \<noteq> None) \<Longrightarrow> shifted_is date delta f \<noteq> None"
  using israel_shift_valid by (auto simp: shifted_is_def split: option.splits)

definition israel_is_purim_dates :: "(int \<times> month \<times> int) list" where
  "israel_is_purim_dates = [
     (21, March, 2000), (9, March, 2001), (26, February, 2002), (18, March, 2003),
     (7, March, 2004), (25, March, 2005), (14, March, 2006), (4, March, 2007),
     (21, March, 2008), (10, March, 2009), (28, February, 2010), (20, March, 2011),
     (8, March, 2012), (24, February, 2013), (16, March, 2014), (5, March, 2015),
     (24, March, 2016), (12, March, 2017), (1, March, 2018), (21, March, 2019),
     (10, March, 2020), (26, February, 2021), (17, March, 2022), (7, March, 2023),
     (24, March, 2024), (14, March, 2025), (3, March, 2026), (23, March, 2027),
     (12, March, 2028), (1, March, 2029), (19, March, 2030), (9, March, 2031),
     (26, February, 2032), (15, March, 2033), (5, March, 2034), (25, March, 2035),
     (13, March, 2036), (1, March, 2037), (21, March, 2038), (10, March, 2039),
     (28, February, 2040), (17, March, 2041), (6, March, 2042), (26, March, 2043),
     (13, March, 2044), (3, March, 2045), (22, March, 2046), (12, March, 2047),
     (28, February, 2048), (18, March, 2049), (8, March, 2050)]"

definition israel_is_purim :: "date \<Rightarrow> bool option" where
  "israel_is_purim d = do {
     any_opt (\<lambda>(day, m, y). do { x1 \<leftarrow> date_new day m y; Some (d = x1) }) israel_is_purim_dates
   }"

definition israel_is_passover1st_dates :: "(int \<times> month \<times> int) list" where
  "israel_is_passover1st_dates = [
     (20, April, 2000), (8, April, 2001), (28, March, 2002), (17, April, 2003),
     (6, April, 2004), (24, April, 2005), (13, April, 2006), (3, April, 2007),
     (20, April, 2008), (9, April, 2009), (30, March, 2010), (19, April, 2011),
     (7, April, 2012), (26, March, 2013), (15, April, 2014), (4, April, 2015),
     (23, April, 2016), (11, April, 2017), (31, March, 2018), (20, April, 2019),
     (9, April, 2020), (28, March, 2021), (16, April, 2022), (6, April, 2023),
     (23, April, 2024), (13, April, 2025), (2, April, 2026), (22, April, 2027),
     (11, April, 2028), (31, March, 2029), (18, April, 2030), (8, April, 2031),
     (27, March, 2032), (14, April, 2033), (4, April, 2034), (24, April, 2035),
     (12, April, 2036), (31, March, 2037), (20, April, 2038), (9, April, 2039),
     (29, March, 2040), (16, April, 2041), (5, April, 2042), (25, April, 2043),
     (12, April, 2044), (2, April, 2045), (21, April, 2046), (11, April, 2047),
     (29, March, 2048), (17, April, 2049), (7, April, 2050)]"

definition israel_is_passover1st :: "date \<Rightarrow> bool option" where
  "israel_is_passover1st d = do {
     any_opt (\<lambda>(day, m, y). do { x2 \<leftarrow> date_new day m y; Some (d = x2) }) israel_is_passover1st_dates
   }"

definition israel_is_independence_day_dates :: "(int \<times> month \<times> int) list" where
  "israel_is_independence_day_dates = [
     (10, May, 2000), (26, April, 2001), (17, April, 2002), (7, May, 2003),
     (27, April, 2004), (12, May, 2005), (3, May, 2006), (24, April, 2007), (8, May, 2008),
     (29, April, 2009), (20, April, 2010), (10, May, 2011), (26, April, 2012),
     (16, April, 2013), (6, May, 2014), (23, April, 2015), (12, May, 2016), (2, May, 2017),
     (19, April, 2018), (9, May, 2019), (29, April, 2020), (15, April, 2021), (5, May, 2022),
     (26, April, 2023), (14, May, 2024), (1, May, 2025), (22, April, 2026), (12, May, 2027),
     (2, May, 2028), (19, April, 2029), (8, May, 2030), (29, April, 2031), (15, April, 2032),
     (4, May, 2033), (25, April, 2034), (15, May, 2035), (1, May, 2036), (21, April, 2037),
     (10, May, 2038), (28, April, 2039), (18, April, 2040), (7, May, 2041),
     (24, April, 2042), (14, May, 2043), (3, May, 2044), (20, April, 2045), (10, May, 2046),
     (1, May, 2047), (16, April, 2048), (6, May, 2049), (27, April, 2050)]"

definition israel_is_independence_day :: "date \<Rightarrow> bool option" where
  "israel_is_independence_day d = do {
     any_opt (\<lambda>(day, m, y). do { x3 \<leftarrow> date_new day m y; Some (d = x3) }) israel_is_independence_day_dates
   }"

definition israel_is_memorial_day :: "date \<Rightarrow> bool option" where
  "israel_is_memorial_day d = shifted_is d 1 israel_is_independence_day"

definition israel_is_shavuot_dates :: "(int \<times> month \<times> int) list" where
  "israel_is_shavuot_dates = [
     (9, June, 2000), (28, May, 2001), (17, May, 2002), (6, June, 2003), (26, May, 2004),
     (13, June, 2005), (2, June, 2006), (23, May, 2007), (9, June, 2008), (29, May, 2009),
     (19, May, 2010), (8, June, 2011), (27, May, 2012), (15, May, 2013), (4, June, 2014),
     (24, May, 2015), (12, June, 2016), (31, May, 2017), (20, May, 2018), (9, June, 2019),
     (29, May, 2020), (17, May, 2021), (5, June, 2022), (26, May, 2023), (12, June, 2024),
     (2, June, 2025), (22, May, 2026), (11, June, 2027), (31, May, 2028), (20, May, 2029),
     (7, June, 2030), (28, May, 2031), (16, May, 2032), (3, June, 2033), (24, May, 2034),
     (13, June, 2035), (1, June, 2036), (20, May, 2037), (9, June, 2038), (29, May, 2039),
     (18, May, 2040), (5, June, 2041), (25, May, 2042), (14, June, 2043), (1, June, 2044),
     (22, May, 2045), (10, June, 2046), (31, May, 2047), (18, May, 2048), (6, June, 2049),
     (27, May, 2050)]"

definition israel_is_shavuot :: "date \<Rightarrow> bool option" where
  "israel_is_shavuot d = do {
     any_opt (\<lambda>(day, m, y). do { x4 \<leftarrow> date_new day m y; Some (d = x4) }) israel_is_shavuot_dates
   }"

definition israel_is_fast_day_dates :: "(int \<times> month \<times> int) list" where
  "israel_is_fast_day_dates = [
     (10, August, 2000), (29, July, 2001), (18, July, 2002), (7, August, 2003),
     (27, July, 2004), (14, August, 2005), (3, August, 2006), (24, July, 2007),
     (10, August, 2008), (30, July, 2009), (20, July, 2010), (9, August, 2011),
     (29, July, 2012), (16, July, 2013), (5, August, 2014), (26, July, 2015),
     (14, August, 2016), (1, August, 2017), (22, July, 2018), (11, August, 2019),
     (30, July, 2020), (18, July, 2021), (7, August, 2022), (27, July, 2023),
     (13, August, 2024), (3, August, 2025), (23, July, 2026), (12, August, 2027),
     (1, August, 2028), (22, July, 2029), (8, August, 2030), (29, July, 2031),
     (18, July, 2032), (4, August, 2033), (25, July, 2034), (14, August, 2035),
     (3, August, 2036), (21, July, 2037), (10, August, 2038), (31, July, 2039),
     (19, July, 2040), (6, August, 2041), (27, July, 2042), (16, August, 2043),
     (2, August, 2044), (23, July, 2045), (12, August, 2046), (1, August, 2047),
     (19, July, 2048), (8, August, 2049), (28, July, 2050)]"

definition israel_is_fast_day :: "date \<Rightarrow> bool option" where
  "israel_is_fast_day d = do {
     any_opt (\<lambda>(day, m, y). do { x5 \<leftarrow> date_new day m y; Some (d = x5) }) israel_is_fast_day_dates
   }"

definition israel_is_new_years_day_dates :: "(int \<times> month \<times> int) list" where
  "israel_is_new_years_day_dates = [
     (30, September, 2000), (17, September, 2001), (7, September, 2002),
     (27, September, 2003), (16, September, 2004), (4, October, 2005), (23, September, 2006),
     (13, September, 2007), (30, September, 2008), (19, September, 2009),
     (9, September, 2010), (29, September, 2011), (17, September, 2012),
     (5, September, 2013), (25, September, 2014), (14, September, 2015), (3, October, 2016),
     (21, September, 2017), (10, September, 2018), (30, September, 2019),
     (19, September, 2020), (7, September, 2021), (26, September, 2022),
     (16, September, 2023), (3, October, 2024), (23, September, 2025), (12, September, 2026),
     (2, October, 2027), (21, September, 2028), (10, September, 2029), (28, September, 2030),
     (18, September, 2031), (6, September, 2032), (24, September, 2033),
     (14, September, 2034), (4, October, 2035), (22, September, 2036), (10, September, 2037),
     (30, September, 2038), (19, September, 2039), (8, September, 2040),
     (26, September, 2041), (15, September, 2042), (5, October, 2043), (22, September, 2044),
     (12, September, 2045), (1, October, 2046), (21, September, 2047), (8, September, 2048),
     (27, September, 2049), (17, September, 2050)]"

definition israel_is_new_years_day :: "date \<Rightarrow> bool option" where
  "israel_is_new_years_day d = do {
     any_opt (\<lambda>(day, m, y). do { x6 \<leftarrow> date_new day m y; Some (d = x6) }) israel_is_new_years_day_dates
   }"

definition israel_is_yom_kippur :: "date \<Rightarrow> bool option" where
  "israel_is_yom_kippur d = shifted_is d (- 9) israel_is_new_years_day"

definition israel_is_sukkot :: "date \<Rightarrow> bool option" where
  "israel_is_sukkot d = shifted_is d (- 5) israel_is_yom_kippur"

definition israel_is_simchat_torah :: "date \<Rightarrow> bool option" where
  "israel_is_simchat_torah d = shifted_is d (- 7) israel_is_sukkot"

definition israel_tase_weekend :: "date \<Rightarrow> bool option" where
  "israel_tase_weekend date = do {
     w \<leftarrow> date_weekday date;
     x8 \<leftarrow> date_new 5 January 2026;
     if date \<ge> x8 then Some (w = Saturday
           \<or> w = Sunday)
     else Some (w = Friday
           \<or> w = Saturday)
   }"

definition israel_telaviv_is_business_day :: "date \<Rightarrow> bool option" where
  "israel_telaviv_is_business_day date = do {
     y \<leftarrow> date_year date;
     weekend \<leftarrow> israel_tase_weekend date;
     lnot (lor (Some (weekend))
        (lor (israel_is_purim date)
        (lor (land (Some (y \<le> 2020)) (shifted_is date 1 israel_is_passover1st))
        (lor (israel_is_passover1st date)
        (lor (shifted_is date (- 5) israel_is_passover1st)
        (lor (shifted_is date (- 6) israel_is_passover1st)
        (lor (israel_is_memorial_day date)
        (lor (israel_is_independence_day date)
        (lor (land (Some (y \<le> 2020)) (shifted_is date 1 israel_is_shavuot))
        (lor (israel_is_shavuot date)
        (lor (israel_is_fast_day date)
        (lor (land (Some (y \<le> 2019)) (shifted_is date 1 israel_is_new_years_day))
        (lor (israel_is_new_years_day date)
        (lor (shifted_is date (- 1) israel_is_new_years_day)
        (lor (shifted_is date 1 israel_is_yom_kippur)
        (lor (israel_is_yom_kippur date)
        (lor (shifted_is date 1 israel_is_sukkot)
        (lor (israel_is_sukkot date)
        (lor (shifted_is date 1 israel_is_simchat_torah)
        (israel_is_simchat_torah date))))))))))))))))))))
   }"

definition israel_telaviv_is_weekend :: "weekday \<Rightarrow> bool" where
  "israel_telaviv_is_weekend w \<longleftrightarrow>
     w = Saturday
     \<or> w = Sunday"

definition israel_telaviv_impl :: calendar_impl where
  "israel_telaviv_impl = (calendar_impl_new ''Tel Aviv stock exchange''
     israel_telaviv_is_business_day israel_telaviv_is_weekend)
     \<lparr>ci_is_weekend_on := israel_tase_weekend, ci_holiday_horizon := Some israel_HOLIDAY_HORIZON\<rparr>"

definition israel_telbor_is_business_day :: "date \<Rightarrow> bool option" where
  "israel_telbor_is_business_day date = do {
     w \<leftarrow> date_weekday date;
     d \<leftarrow> date_day_of_month date;
     m \<leftarrow> date_month date;
     y \<leftarrow> date_year date;
     lnot (lor (Some (is_weekend_sat_sun w
         \<or> (d = 1 \<and> m = January)
         \<or> (((d = 9 \<and> m = April) \<or> (d = 17 \<and> m = September)) \<and> y = 2019)
         \<or> (d = 2 \<and> m = March \<and> y = 2020)
         \<or> (((d = 22 \<and> m = April) \<or> (d = 27 \<and> m = May)) \<and> y = 2019)
         \<or> ((((d = 10 \<or> d = 13) \<and> m = April) \<or> ((d = 8 \<or> d = 25) \<and> m = May)) \<and> y = 2020)))
        (lor (israel_is_purim date)
        (lor (shifted_is date (- 1) israel_is_purim)
        (lor (shifted_is date 1 israel_is_passover1st)
        (lor (israel_is_passover1st date)
        (lor (shifted_is date (- 6) israel_is_passover1st)
        (lor (israel_is_independence_day date)
        (lor (israel_is_shavuot date)
        (lor (israel_is_fast_day date)
        (lor (israel_is_new_years_day date)
        (lor (shifted_is date (- 1) israel_is_new_years_day)
        (lor (israel_is_yom_kippur date)
        (lor (israel_is_sukkot date)
        (lor (israel_is_simchat_torah date)
        (Some ((d \<ge> 25 \<and> w = Monday \<and> m = May \<and> y \<noteq> 2002 \<and> y \<noteq> 2012)
         \<or> (d = 25 \<and> m = December)
         \<or> (d = 26 \<and> m = December \<and> y \<ge> 2000 \<and> y \<noteq> 2020)))))))))))))))))
   }"

definition israel_telbor_is_weekend :: "weekday \<Rightarrow> bool" where
  "israel_telbor_is_weekend w \<longleftrightarrow>
     w = Saturday
     \<or> w = Sunday"

definition israel_telbor_impl :: calendar_impl where
  "israel_telbor_impl = (calendar_impl_new ''Telbor fixing calendar''
     israel_telbor_is_business_day israel_telbor_is_weekend)
     \<lparr>ci_holiday_horizon := Some israel_HOLIDAY_HORIZON\<rparr>"

definition israel_shir_is_business_day :: "date \<Rightarrow> bool option" where
  "israel_shir_is_business_day date = do {
     w \<leftarrow> date_weekday date;
     d \<leftarrow> date_day_of_month date;
     dd \<leftarrow> date_day_of_year date;
     m \<leftarrow> date_month date;
     y \<leftarrow> date_year date;
     lnot (lor (Some (is_weekend_sat_sun w))
        (lor (israel_is_purim date)
        (lor (shifted_is date (- 1) israel_is_purim)
        (lor (shifted_is date 1 israel_is_passover1st)
        (lor (israel_is_passover1st date)
        (lor (shifted_is date (- 6) israel_is_passover1st)
        (lor (israel_is_independence_day date)
        (lor (israel_is_shavuot date)
        (lor (israel_is_fast_day date)
        (lor (shifted_is date 1 israel_is_new_years_day)
        (lor (israel_is_new_years_day date)
        (lor (shifted_is date (- 1) israel_is_new_years_day)
        (lor (shifted_is date 1 israel_is_yom_kippur)
        (lor (israel_is_yom_kippur date)
        (lor (israel_is_sukkot date)
        (lor (israel_is_simchat_torah date)
        (lor (Some ((d = 27 \<and> m = February \<and> y = 2024)
         \<or> (d = 1 \<and> m = January)))
        (lor (do { em19 \<leftarrow> western_easter_monday y; Some (dd = (em19 - 3)) })
        (Some ((d \<ge> 25 \<and> w = Monday \<and> m = May \<and> y \<noteq> 2022)
         \<or> (d = 3 \<and> m = June \<and> y = 2022)
         \<or> (d = 25 \<and> m = December)
         \<or> (d = 26 \<and> m = December)
         \<or> (d = 1 \<and> m = November \<and> y = 2022)
         \<or> (d = 2 \<and> m = January \<and> y = 2023)
         \<or> (d = 10 \<and> m = April \<and> y = 2023)))))))))))))))))))))
   }"

definition israel_shir_impl :: calendar_impl where
  "israel_shir_impl = (calendar_impl_new ''SHIR fixing calendar''
     israel_shir_is_business_day is_weekend_sat_sun)
     \<lparr>ci_holiday_horizon := Some israel_HOLIDAY_HORIZON\<rparr>"

datatype israel_market = Israel_Settlement | Israel_Tase | Israel_Shir | Israel_Telbor

fun israel_new :: "israel_market \<Rightarrow> calendar" where
  "israel_new Israel_Settlement = calendar_from_impl israel_telaviv_impl"
| "israel_new Israel_Tase = calendar_from_impl israel_telaviv_impl"
| "israel_new Israel_Telbor = calendar_from_impl israel_telbor_impl"
| "israel_new Israel_Shir = calendar_from_impl israel_shir_impl"

lemma israel_is_purim_dates_ok: "list_all civil_ok israel_is_purim_dates"
  by code_simp

lemma israel_is_passover1st_dates_ok: "list_all civil_ok israel_is_passover1st_dates"
  by code_simp

lemma israel_is_independence_day_dates_ok: "list_all civil_ok israel_is_independence_day_dates"
  by code_simp

lemma israel_is_shavuot_dates_ok: "list_all civil_ok israel_is_shavuot_dates"
  by code_simp

lemma israel_is_fast_day_dates_ok: "list_all civil_ok israel_is_fast_day_dates"
  by code_simp

lemma israel_is_new_years_day_dates_ok: "list_all civil_ok israel_is_new_years_day_dates"
  by code_simp

lemma israel_is_purim_total [total_rules]: "valid_date date \<Longrightarrow> israel_is_purim date \<noteq> None"
  unfolding israel_is_purim_def by (rule total_rules israel_is_purim_dates_ok | assumption | (simp add: civil_ok_def; fail))+

lemma israel_is_passover1st_total [total_rules]: "valid_date date \<Longrightarrow> israel_is_passover1st date \<noteq> None"
  unfolding israel_is_passover1st_def by (rule total_rules israel_is_passover1st_dates_ok | assumption | (simp add: civil_ok_def; fail))+

lemma israel_is_independence_day_total [total_rules]: "valid_date date \<Longrightarrow> israel_is_independence_day date \<noteq> None"
  unfolding israel_is_independence_day_def by (rule total_rules israel_is_independence_day_dates_ok | assumption | (simp add: civil_ok_def; fail))+

lemma israel_is_memorial_day_total [total_rules]: "valid_date date \<Longrightarrow> israel_is_memorial_day date \<noteq> None"
  unfolding israel_is_memorial_day_def by (rule total_rules | assumption | (simp add: civil_ok_def; fail))+

lemma israel_is_shavuot_total [total_rules]: "valid_date date \<Longrightarrow> israel_is_shavuot date \<noteq> None"
  unfolding israel_is_shavuot_def by (rule total_rules israel_is_shavuot_dates_ok | assumption | (simp add: civil_ok_def; fail))+

lemma israel_is_fast_day_total [total_rules]: "valid_date date \<Longrightarrow> israel_is_fast_day date \<noteq> None"
  unfolding israel_is_fast_day_def by (rule total_rules israel_is_fast_day_dates_ok | assumption | (simp add: civil_ok_def; fail))+

lemma israel_is_new_years_day_total [total_rules]: "valid_date date \<Longrightarrow> israel_is_new_years_day date \<noteq> None"
  unfolding israel_is_new_years_day_def by (rule total_rules israel_is_new_years_day_dates_ok | assumption | (simp add: civil_ok_def; fail))+

lemma israel_is_yom_kippur_total [total_rules]: "valid_date date \<Longrightarrow> israel_is_yom_kippur date \<noteq> None"
  unfolding israel_is_yom_kippur_def by (rule total_rules | assumption | (simp add: civil_ok_def; fail))+

lemma israel_is_sukkot_total [total_rules]: "valid_date date \<Longrightarrow> israel_is_sukkot date \<noteq> None"
  unfolding israel_is_sukkot_def by (rule total_rules | assumption | (simp add: civil_ok_def; fail))+

lemma israel_is_simchat_torah_total [total_rules]: "valid_date date \<Longrightarrow> israel_is_simchat_torah date \<noteq> None"
  unfolding israel_is_simchat_torah_def by (rule total_rules | assumption | (simp add: civil_ok_def; fail))+

lemma israel_tase_weekend_total [total_rules]: "valid_date date \<Longrightarrow> israel_tase_weekend date \<noteq> None"
  unfolding israel_tase_weekend_def by (rule total_rules | assumption | (simp add: civil_ok_def; fail))+

lemma israel_telaviv_is_business_day_total [total_rules]: "valid_date date \<Longrightarrow> israel_telaviv_is_business_day date \<noteq> None"
  unfolding israel_telaviv_is_business_day_def by (rule total_rules | assumption | (simp add: civil_ok_def; fail))+

lemma israel_telbor_is_business_day_total [total_rules]: "valid_date date \<Longrightarrow> israel_telbor_is_business_day date \<noteq> None"
  unfolding israel_telbor_is_business_day_def by (rule total_rules | assumption | (simp add: civil_ok_def; fail))+

lemma israel_shir_is_business_day_total [total_rules]: "valid_date date \<Longrightarrow> israel_shir_is_business_day date \<noteq> None"
  unfolding israel_shir_is_business_day_def by (rule total_rules | assumption | (simp add: civil_ok_def; fail))+

lemma israel_telaviv_weekend:
  assumes "valid_date date" "israel_tase_weekend date = Some True"
  shows "israel_telaviv_is_business_day date = Some False"
  using assms inspect_total [OF assms(1)] by (auto simp: israel_telaviv_is_business_day_def)

interpretation israel_telaviv: weekend_market israel_telaviv_impl
  by standard (simp_all add: israel_telaviv_impl_def israel_telaviv_is_business_day_total
      israel_tase_weekend_total israel_telaviv_weekend)

lemma israel_telbor_is_business_day_weekend:
  assumes "valid_date date" "date_weekday date = Some w" "israel_telbor_is_weekend w"
  shows "israel_telbor_is_business_day date = Some False"
proof -
  have "is_weekend_sat_sun w" using assms(3) by (simp add: is_weekend_sat_sun_def israel_telbor_is_weekend_def)
  then show ?thesis using assms(2) inspect_total [OF assms(1)]
    by (auto simp: israel_telbor_is_business_day_def)
qed

interpretation israel_telbor: weekend_market israel_telbor_impl
  by (rule weekend_marketI [where f = israel_telbor_is_weekend]) (simp_all add: israel_telbor_impl_def israel_telbor_is_business_day_total israel_telbor_is_business_day_weekend)

lemma israel_shir_is_business_day_weekend:
  assumes "valid_date date" "date_weekday date = Some w" "is_weekend_sat_sun w"
  shows "israel_shir_is_business_day date = Some False"
  using assms(1)
  by (rule date_fields)
    (use assms(2,3) in \<open>simp add: israel_shir_is_business_day_def israel_is_purim_def israel_is_passover1st_def israel_is_independence_day_def israel_is_shavuot_def israel_is_fast_day_def israel_is_new_years_day_def israel_is_yom_kippur_def israel_is_sukkot_def israel_is_simchat_torah_def western_easter_eq orthodox_easter_eq\<close>)

interpretation israel_shir: weekend_market israel_shir_impl
  by (rule weekend_marketI [where f = is_weekend_sat_sun]) (simp_all add: israel_shir_impl_def israel_shir_is_business_day_total israel_shir_is_business_day_weekend)

section \<open>\<open>saudiarabia.rs\<close>\<close>

definition saudiarabia_HOLIDAY_HORIZON :: int where
  "saudiarabia_HOLIDAY_HORIZON = 2022"

definition saudiarabia_is_true_weekend :: "date \<Rightarrow> bool option" where
  "saudiarabia_is_true_weekend d = do {
     w \<leftarrow> date_weekday d;
     x2 \<leftarrow> date_new 29 June 2013;
     if d < x2 then Some (w = Thursday
           \<or> w = Friday)
     else Some (w = Friday
           \<or> w = Saturday)
   }"

definition saudiarabia_is_eid_al_adha_EID_AL_ADHA :: "(int \<times> month \<times> int) list" where
  "saudiarabia_is_eid_al_adha_EID_AL_ADHA = [
     (7, April, 1998), (27, March, 1999), (16, March, 2000), (5, March, 2001),
     (23, February, 2002), (12, February, 2003), (1, February, 2004), (21, January, 2005),
     (10, January, 2006), (31, December, 2006), (20, December, 2007), (8, December, 2008),
     (27, November, 2009), (16, November, 2010), (6, November, 2011), (26, October, 2012),
     (15, October, 2013), (4, October, 2014), (24, September, 2015), (11, September, 2016),
     (1, September, 2017), (23, August, 2018), (12, August, 2019), (31, July, 2020),
     (20, July, 2021), (10, July, 2022)]"

definition saudiarabia_is_eid_al_adha :: "date \<Rightarrow> bool option" where
  "saudiarabia_is_eid_al_adha d = do {
     any_opt (\<lambda>(day, m, y). do {
         p \<leftarrow> date_new day m y;
         land (do { p4 \<leftarrow> date_sub p 1; Some (d \<ge> p4) })
            (do { p5 \<leftarrow> date_add p 4; Some (d \<le> p5) })
       }) saudiarabia_is_eid_al_adha_EID_AL_ADHA
   }"

definition saudiarabia_is_eid_al_fitr_EID_AL_FITR :: "(int \<times> month \<times> int) list" where
  "saudiarabia_is_eid_al_fitr_EID_AL_FITR = [
     (16, December, 2001), (5, December, 2002), (25, November, 2003), (13, November, 2004),
     (3, November, 2005), (23, October, 2006), (12, October, 2007), (30, September, 2008),
     (20, September, 2009), (10, September, 2010), (30, August, 2011), (19, August, 2012),
     (8, August, 2013), (28, July, 2014), (17, July, 2015), (6, July, 2016),
     (25, June, 2017), (15, June, 2018), (4, June, 2019), (24, May, 2020), (13, May, 2021),
     (2, May, 2022), (21, April, 2023), (10, April, 2024), (30, March, 2025),
     (20, March, 2026), (9, March, 2027), (26, February, 2028), (14, February, 2029)]"

definition saudiarabia_is_eid_al_fitr :: "date \<Rightarrow> bool option" where
  "saudiarabia_is_eid_al_fitr d = do {
     any_opt (\<lambda>(day, m, y). do {
         p \<leftarrow> date_new day m y;
         land (do { p7 \<leftarrow> date_sub p 1; Some (d \<ge> p7) })
            (do { p8 \<leftarrow> date_add p 4; Some (d \<le> p8) })
       }) saudiarabia_is_eid_al_fitr_EID_AL_FITR
   }"

definition saudiarabia_tadawul_is_business_day :: "date \<Rightarrow> bool option" where
  "saudiarabia_tadawul_is_business_day date = do {
     d \<leftarrow> date_day_of_month date;
     m \<leftarrow> date_month date;
     y \<leftarrow> date_year date;
     lnot (lor (saudiarabia_is_true_weekend date)
        (lor (saudiarabia_is_eid_al_adha date)
        (lor (saudiarabia_is_eid_al_fitr date)
        (Some ((d = 23 \<and> m = September)
         \<or> (d = 26 \<and> m = February \<and> y = 2011)
         \<or> (d = 19 \<and> m = March \<and> y = 2011))))))
   }"

definition saudiarabia_tadawul_is_weekend :: "weekday \<Rightarrow> bool" where
  "saudiarabia_tadawul_is_weekend w \<longleftrightarrow>
     w = Friday
     \<or> w = Saturday"

definition saudiarabia_tadawul_impl :: calendar_impl where
  "saudiarabia_tadawul_impl = (calendar_impl_new ''Tadawul''
     saudiarabia_tadawul_is_business_day saudiarabia_tadawul_is_weekend)
     \<lparr>ci_is_weekend_on := saudiarabia_is_true_weekend, ci_holiday_horizon := Some saudiarabia_HOLIDAY_HORIZON\<rparr>"

datatype saudiarabia_market = SaudiArabia_Tadawul

fun saudiarabia_new :: "saudiarabia_market \<Rightarrow> calendar" where
  "saudiarabia_new SaudiArabia_Tadawul = calendar_from_impl saudiarabia_tadawul_impl"

lemma saudiarabia_is_eid_al_adha_EID_AL_ADHA_ok: "list_all civil_ok saudiarabia_is_eid_al_adha_EID_AL_ADHA"
  by code_simp

lemma saudiarabia_is_eid_al_fitr_EID_AL_FITR_ok: "list_all civil_ok saudiarabia_is_eid_al_fitr_EID_AL_FITR"
  by code_simp

lemma saudiarabia_is_true_weekend_total [total_rules]: "valid_date date \<Longrightarrow> saudiarabia_is_true_weekend date \<noteq> None"
  unfolding saudiarabia_is_true_weekend_def by (rule total_rules | assumption | (simp add: civil_ok_def; fail))+

lemma saudiarabia_is_eid_al_adha_total [total_rules]: "valid_date date \<Longrightarrow> saudiarabia_is_eid_al_adha date \<noteq> None"
  unfolding saudiarabia_is_eid_al_adha_def by (rule total_rules saudiarabia_is_eid_al_adha_EID_AL_ADHA_ok | assumption | (simp add: civil_ok_def; fail))+

lemma saudiarabia_is_eid_al_fitr_total [total_rules]: "valid_date date \<Longrightarrow> saudiarabia_is_eid_al_fitr date \<noteq> None"
  unfolding saudiarabia_is_eid_al_fitr_def by (rule total_rules saudiarabia_is_eid_al_fitr_EID_AL_FITR_ok | assumption | (simp add: civil_ok_def; fail))+

lemma saudiarabia_tadawul_is_business_day_total [total_rules]: "valid_date date \<Longrightarrow> saudiarabia_tadawul_is_business_day date \<noteq> None"
  unfolding saudiarabia_tadawul_is_business_day_def by (rule total_rules | assumption | (simp add: civil_ok_def; fail))+

lemma saudiarabia_weekend:
  assumes "valid_date date" "saudiarabia_is_true_weekend date = Some True"
  shows "saudiarabia_tadawul_is_business_day date = Some False"
  using assms inspect_total [OF assms(1)] by (auto simp: saudiarabia_tadawul_is_business_day_def)

interpretation saudiarabia_tadawul: weekend_market saudiarabia_tadawul_impl
  by standard (simp_all add: saudiarabia_tadawul_impl_def saudiarabia_tadawul_is_business_day_total
      saudiarabia_is_true_weekend_total saudiarabia_weekend)

section \<open>\<open>botswana.rs\<close>\<close>

definition botswana_is_business_day :: "date \<Rightarrow> bool option" where
  "botswana_is_business_day date = do {
     w \<leftarrow> date_weekday date;
     d \<leftarrow> date_day_of_month date;
     dd \<leftarrow> date_day_of_year date;
     m \<leftarrow> date_month date;
     y \<leftarrow> date_year date;
     em \<leftarrow> western_easter_monday y;
     Some (\<not> (is_weekend_sat_sun w
         \<or> ((d = 1 \<or> (d = 2 \<and> w = Monday) \<or> (d = 3 \<and> w = Tuesday)) \<and> m = January)
         \<or> dd = (em - 3)
         \<or> dd = em
         \<or> ((d = 1 \<or> (d = 2 \<and> w = Monday)) \<and> m = May)
         \<or> dd = (em + 38)
         \<or> ((d = 1 \<or> (d = 2 \<and> w = Monday)) \<and> m = July)
         \<or> (d \<ge> 15 \<and> d \<le> 21 \<and> w = Monday \<and> m = July)
         \<or> (d = 30 \<and> m = September)
         \<or> (d = 1 \<and> w = Monday \<and> m = October)
         \<or> ((d = 1 \<or> (d = 2 \<and> w = Monday) \<or> (d = 3 \<and> w = Tuesday)) \<and> m = October)
         \<or> (d = 25 \<and> m = December)
         \<or> ((d = 26 \<or> (d = 27 \<and> w = Monday)) \<and> m = December)))
   }"

definition botswana_impl :: calendar_impl where
  "botswana_impl = calendar_impl_new ''Botswana''
     botswana_is_business_day is_weekend_sat_sun"

definition botswana_new :: calendar where
  "botswana_new = calendar_from_impl botswana_impl"

lemma botswana_is_business_day_total [total_rules]: "valid_date date \<Longrightarrow> botswana_is_business_day date \<noteq> None"
  unfolding botswana_is_business_day_def by (rule total_rules | assumption | (simp add: civil_ok_def; fail))+

lemma botswana_is_business_day_weekend:
  assumes "valid_date date" "date_weekday date = Some w" "is_weekend_sat_sun w"
  shows "botswana_is_business_day date = Some False"
  using assms(1)
  by (rule date_fields)
    (use assms(2,3) in \<open>simp add: botswana_is_business_day_def western_easter_eq orthodox_easter_eq\<close>)

interpretation botswana: weekend_market botswana_impl
  by (rule weekend_marketI [where f = is_weekend_sat_sun]) (simp_all add: botswana_impl_def botswana_is_business_day_total botswana_is_business_day_weekend)

section \<open>\<open>southafrica.rs\<close>\<close>

definition southafrica_is_business_day :: "date \<Rightarrow> bool option" where
  "southafrica_is_business_day date = do {
     w \<leftarrow> date_weekday date;
     d \<leftarrow> date_day_of_month date;
     dd \<leftarrow> date_day_of_year date;
     m \<leftarrow> date_month date;
     y \<leftarrow> date_year date;
     em \<leftarrow> western_easter_monday y;
     Some (\<not> (is_weekend_sat_sun w
         \<or> ((d = 1 \<or> (d = 2 \<and> w = Monday)) \<and> m = January)
         \<or> dd = (em - 3)
         \<or> dd = em
         \<or> ((d = 21 \<or> (d = 22 \<and> w = Monday)) \<and> m = March)
         \<or> ((d = 27 \<or> (d = 28 \<and> w = Monday)) \<and> m = April)
         \<or> (d = 14 \<and> m = April \<and> y = 2004)
         \<or> ((d = 1 \<or> (d = 2 \<and> w = Monday)) \<and> m = May)
         \<or> ((d = 16 \<or> (d = 17 \<and> w = Monday)) \<and> m = June)
         \<or> ((d = 9 \<or> (d = 10 \<and> w = Monday)) \<and> m = August)
         \<or> ((d = 24 \<or> (d = 25 \<and> w = Monday)) \<and> m = September)
         \<or> ((d = 16 \<or> (d = 17 \<and> w = Monday)) \<and> m = December)
         \<or> (d = 25 \<and> m = December)
         \<or> ((d = 26 \<or> (d = 27 \<and> w = Monday)) \<and> m = December)
         \<or> (d = 22 \<and> m = April \<and> y = 2009)
         \<or> (d = 3 \<and> m = August \<and> y = 2016)
         \<or> (d = 1 \<and> m = November \<and> y = 2021)
         \<or> (d = 27 \<and> m = December \<and> y = 2022)
         \<or> (d = 15 \<and> m = December \<and> y = 2023)
         \<or> (d = 29 \<and> m = May \<and> y = 2024)))
   }"

definition southafrica_impl :: calendar_impl where
  "southafrica_impl = calendar_impl_new ''South Africa''
     southafrica_is_business_day is_weekend_sat_sun"

definition southafrica_new :: calendar where
  "southafrica_new = calendar_from_impl southafrica_impl"

lemma southafrica_is_business_day_total [total_rules]: "valid_date date \<Longrightarrow> southafrica_is_business_day date \<noteq> None"
  unfolding southafrica_is_business_day_def by (rule total_rules | assumption | (simp add: civil_ok_def; fail))+

lemma southafrica_is_business_day_weekend:
  assumes "valid_date date" "date_weekday date = Some w" "is_weekend_sat_sun w"
  shows "southafrica_is_business_day date = Some False"
  using assms(1)
  by (rule date_fields)
    (use assms(2,3) in \<open>simp add: southafrica_is_business_day_def western_easter_eq orthodox_easter_eq\<close>)

interpretation southafrica: weekend_market southafrica_impl
  by (rule weekend_marketI [where f = is_weekend_sat_sun]) (simp_all add: southafrica_impl_def southafrica_is_business_day_total southafrica_is_business_day_weekend)

section \<open>\<open>australia.rs\<close>\<close>

definition australia_settlement_is_business_day :: "date \<Rightarrow> bool option" where
  "australia_settlement_is_business_day date = do {
     w \<leftarrow> date_weekday date;
     d \<leftarrow> date_day_of_month date;
     dd \<leftarrow> date_day_of_year date;
     m \<leftarrow> date_month date;
     y \<leftarrow> date_year date;
     em \<leftarrow> western_easter_monday y;
     Some (\<not> (is_weekend_sat_sun w
         \<or> ((d = 1 \<or> ((d = 2 \<or> d = 3) \<and> w = Monday)) \<and> m = January)
         \<or> ((d = 26 \<or> ((d = 27 \<or> d = 28) \<and> w = Monday)) \<and> m = January)
         \<or> dd = (em - 3)
         \<or> dd = em
         \<or> (d = 25 \<and> m = April)
         \<or> (d > 7 \<and> d \<le> 14 \<and> w = Monday \<and> m = June)
         \<or> (d \<le> 7 \<and> w = Monday \<and> m = August)
         \<or> (d \<le> 7 \<and> w = Monday \<and> m = October)
         \<or> ((d = 25 \<or> (d = 27 \<and> (w = Monday \<or> w = Tuesday))) \<and> m = December)
         \<or> ((d = 26 \<or> (d = 28 \<and> (w = Monday \<or> w = Tuesday))) \<and> m = December)
         \<or> (d = 22 \<and> m = September \<and> y = 2022)))
   }"

definition australia_settlement_impl :: calendar_impl where
  "australia_settlement_impl = calendar_impl_new ''Australia settlement''
     australia_settlement_is_business_day is_weekend_sat_sun"

definition australia_asx_is_business_day :: "date \<Rightarrow> bool option" where
  "australia_asx_is_business_day date = do {
     w \<leftarrow> date_weekday date;
     d \<leftarrow> date_day_of_month date;
     dd \<leftarrow> date_day_of_year date;
     m \<leftarrow> date_month date;
     y \<leftarrow> date_year date;
     em \<leftarrow> western_easter_monday y;
     Some (\<not> (is_weekend_sat_sun w
         \<or> ((d = 1 \<or> ((d = 2 \<or> d = 3) \<and> w = Monday)) \<and> m = January)
         \<or> ((d = 26 \<or> ((d = 27 \<or> d = 28) \<and> w = Monday)) \<and> m = January)
         \<or> dd = (em - 3)
         \<or> dd = em
         \<or> (d = 25 \<and> m = April)
         \<or> (d > 7 \<and> d \<le> 14 \<and> w = Monday \<and> m = June)
         \<or> ((d = 25 \<or> (d = 27 \<and> (w = Monday \<or> w = Tuesday))) \<and> m = December)
         \<or> ((d = 26 \<or> (d = 28 \<and> (w = Monday \<or> w = Tuesday))) \<and> m = December)
         \<or> (d = 22 \<and> m = September \<and> y = 2022)))
   }"

definition australia_asx_impl :: calendar_impl where
  "australia_asx_impl = calendar_impl_new ''Australia exchange''
     australia_asx_is_business_day is_weekend_sat_sun"

datatype australia_market = Australia_Settlement | Australia_Asx

fun australia_new :: "australia_market \<Rightarrow> calendar" where
  "australia_new Australia_Settlement = calendar_from_impl australia_settlement_impl"
| "australia_new Australia_Asx = calendar_from_impl australia_asx_impl"

lemma australia_settlement_is_business_day_total [total_rules]: "valid_date date \<Longrightarrow> australia_settlement_is_business_day date \<noteq> None"
  unfolding australia_settlement_is_business_day_def by (rule total_rules | assumption | (simp add: civil_ok_def; fail))+

lemma australia_asx_is_business_day_total [total_rules]: "valid_date date \<Longrightarrow> australia_asx_is_business_day date \<noteq> None"
  unfolding australia_asx_is_business_day_def by (rule total_rules | assumption | (simp add: civil_ok_def; fail))+

lemma australia_settlement_is_business_day_weekend:
  assumes "valid_date date" "date_weekday date = Some w" "is_weekend_sat_sun w"
  shows "australia_settlement_is_business_day date = Some False"
  using assms(1)
  by (rule date_fields)
    (use assms(2,3) in \<open>simp add: australia_settlement_is_business_day_def western_easter_eq orthodox_easter_eq\<close>)

interpretation australia_settlement: weekend_market australia_settlement_impl
  by (rule weekend_marketI [where f = is_weekend_sat_sun]) (simp_all add: australia_settlement_impl_def australia_settlement_is_business_day_total australia_settlement_is_business_day_weekend)

lemma australia_asx_is_business_day_weekend:
  assumes "valid_date date" "date_weekday date = Some w" "is_weekend_sat_sun w"
  shows "australia_asx_is_business_day date = Some False"
  using assms(1)
  by (rule date_fields)
    (use assms(2,3) in \<open>simp add: australia_asx_is_business_day_def western_easter_eq orthodox_easter_eq\<close>)

interpretation australia_asx: weekend_market australia_asx_impl
  by (rule weekend_marketI [where f = is_weekend_sat_sun]) (simp_all add: australia_asx_impl_def australia_asx_is_business_day_total australia_asx_is_business_day_weekend)

section \<open>\<open>newzealand.rs\<close>\<close>

definition newzealand_HOLIDAY_HORIZON :: int where
  "newzealand_HOLIDAY_HORIZON = 2052"

definition newzealand_common_is_business_day :: "date \<Rightarrow> bool option" where
  "newzealand_common_is_business_day date = do {
     w \<leftarrow> date_weekday date;
     d \<leftarrow> date_day_of_month date;
     dd \<leftarrow> date_day_of_year date;
     m \<leftarrow> date_month date;
     y \<leftarrow> date_year date;
     em \<leftarrow> western_easter_monday y;
     Some (\<not> (is_weekend_sat_sun w
         \<or> ((d = 1 \<or> (d = 3 \<and> (w = Monday \<or> w = Tuesday))) \<and> m = January)
         \<or> ((d = 2 \<or> (d = 4 \<and> (w = Monday \<or> w = Tuesday))) \<and> m = January)
         \<or> (d = 6 \<and> m = February)
         \<or> ((d = 7 \<or> d = 8) \<and> w = Monday \<and> m = February \<and> y > 2013)
         \<or> dd = (em - 3)
         \<or> dd = em
         \<or> (d = 25 \<and> m = April)
         \<or> ((d = 26 \<or> d = 27) \<and> w = Monday \<and> m = April \<and> y > 2013)
         \<or> (d \<le> 7 \<and> w = Monday \<and> m = June)
         \<or> (d \<ge> 22 \<and> d \<le> 28 \<and> w = Monday \<and> m = October)
         \<or> ((d = 25 \<or> (d = 27 \<and> (w = Monday \<or> w = Tuesday))) \<and> m = December)
         \<or> ((d = 26 \<or> (d = 28 \<and> (w = Monday \<or> w = Tuesday))) \<and> m = December)
         \<or> (d = 20 \<and> m = June \<and> y = 2025)
         \<or> (d = 21 \<and> m = June \<and> (y = 2030 \<or> y = 2052))
         \<or> (d = 24 \<and> m = June \<and> (y = 2022 \<or> y = 2033 \<or> y = 2044))
         \<or> (d = 25 \<and> m = June \<and> (y = 2027 \<or> y = 2038 \<or> y = 2049))
         \<or> (d = 28 \<and> m = June \<and> y = 2024)
         \<or> (d = 29 \<and> m = June \<and> (y = 2035 \<or> y = 2046))
         \<or> (d = 30 \<and> m = June \<and> y = 2051)
         \<or> (d = 2 \<and> m = July \<and> y = 2032)
         \<or> (d = 3 \<and> m = July \<and> (y = 2043 \<or> y = 2048))
         \<or> (d = 6 \<and> m = July \<and> (y = 2029 \<or> y = 2040))
         \<or> (d = 7 \<and> m = July \<and> (y = 2034 \<or> y = 2045))
         \<or> (d = 10 \<and> m = July \<and> (y = 2026 \<or> y = 2037))
         \<or> (d = 11 \<and> m = July \<and> (y = 2031 \<or> y = 2042))
         \<or> (d = 14 \<and> m = July \<and> (y = 2023 \<or> y = 2028))
         \<or> (d = 15 \<and> m = July \<and> (y = 2039 \<or> y = 2050))
         \<or> (d = 18 \<and> m = July \<and> y = 2036)
         \<or> (d = 19 \<and> m = July \<and> (y = 2041 \<or> y = 2047))
         \<or> (d = 26 \<and> m = September \<and> y = 2022)))
   }"

definition newzealand_wellington_is_business_day :: "date \<Rightarrow> bool option" where
  "newzealand_wellington_is_business_day date = do {
     c10 \<leftarrow> lnot (newzealand_common_is_business_day date);
     if c10 then Some False
     else do {
       w \<leftarrow> date_weekday date;
       d \<leftarrow> date_day_of_month date;
       m \<leftarrow> date_month date;
       Some (\<not> (d \<ge> 19
           \<and> d \<le> 25
           \<and> w = Monday
           \<and> m = January))
     }
   }"

definition newzealand_wellington_impl :: calendar_impl where
  "newzealand_wellington_impl = (calendar_impl_new ''New Zealand (Wellington)''
     newzealand_wellington_is_business_day is_weekend_sat_sun)
     \<lparr>ci_holiday_horizon := Some newzealand_HOLIDAY_HORIZON\<rparr>"

definition newzealand_auckland_is_business_day :: "date \<Rightarrow> bool option" where
  "newzealand_auckland_is_business_day date = do {
     c14 \<leftarrow> lnot (newzealand_common_is_business_day date);
     if c14 then Some False
     else do {
       w \<leftarrow> date_weekday date;
       d \<leftarrow> date_day_of_month date;
       m \<leftarrow> date_month date;
       Some (\<not> ((d \<ge> 26 \<and> w = Monday \<and> m = January)
           \<or> (d = 1 \<and> w = Monday \<and> m = February)))
     }
   }"

definition newzealand_auckland_impl :: calendar_impl where
  "newzealand_auckland_impl = (calendar_impl_new ''New Zealand (Auckland)''
     newzealand_auckland_is_business_day is_weekend_sat_sun)
     \<lparr>ci_holiday_horizon := Some newzealand_HOLIDAY_HORIZON\<rparr>"

datatype newzealand_market = NewZealand_Wellington | NewZealand_Auckland

fun newzealand_new :: "newzealand_market \<Rightarrow> calendar" where
  "newzealand_new NewZealand_Wellington = calendar_from_impl newzealand_wellington_impl"
| "newzealand_new NewZealand_Auckland = calendar_from_impl newzealand_auckland_impl"

lemma newzealand_common_is_business_day_total [total_rules]: "valid_date date \<Longrightarrow> newzealand_common_is_business_day date \<noteq> None"
  unfolding newzealand_common_is_business_day_def by (rule total_rules | assumption | (simp add: civil_ok_def; fail))+

lemma newzealand_wellington_is_business_day_total [total_rules]: "valid_date date \<Longrightarrow> newzealand_wellington_is_business_day date \<noteq> None"
  unfolding newzealand_wellington_is_business_day_def by (rule total_rules | assumption | (simp add: civil_ok_def; fail))+

lemma newzealand_auckland_is_business_day_total [total_rules]: "valid_date date \<Longrightarrow> newzealand_auckland_is_business_day date \<noteq> None"
  unfolding newzealand_auckland_is_business_day_def by (rule total_rules | assumption | (simp add: civil_ok_def; fail))+

lemma newzealand_wellington_is_business_day_weekend:
  assumes "valid_date date" "date_weekday date = Some w" "is_weekend_sat_sun w"
  shows "newzealand_wellington_is_business_day date = Some False"
  using assms(1)
  by (rule date_fields)
    (use assms(2,3) in \<open>simp add: newzealand_wellington_is_business_day_def newzealand_common_is_business_day_def western_easter_eq orthodox_easter_eq\<close>)

interpretation newzealand_wellington: weekend_market newzealand_wellington_impl
  by (rule weekend_marketI [where f = is_weekend_sat_sun]) (simp_all add: newzealand_wellington_impl_def newzealand_wellington_is_business_day_total newzealand_wellington_is_business_day_weekend)

lemma newzealand_auckland_is_business_day_weekend:
  assumes "valid_date date" "date_weekday date = Some w" "is_weekend_sat_sun w"
  shows "newzealand_auckland_is_business_day date = Some False"
  using assms(1)
  by (rule date_fields)
    (use assms(2,3) in \<open>simp add: newzealand_auckland_is_business_day_def newzealand_common_is_business_day_def western_easter_eq orthodox_easter_eq\<close>)

interpretation newzealand_auckland: weekend_market newzealand_auckland_impl
  by (rule weekend_marketI [where f = is_weekend_sat_sun]) (simp_all add: newzealand_auckland_impl_def newzealand_auckland_is_business_day_total newzealand_auckland_is_business_day_weekend)

end
