(* ===== verification/Ascii.thy ===== *)
theory Ascii
  imports Prelude
begin

text \<open>
  Byte strings. A Rust \<open>&str\<close> that the code reads through \<open>as_bytes\<close> is a list of 8-bit
  characters; the \<open>u8\<close> predicates and conversions the code uses are written out.
\<close>

definition byte :: "char \<Rightarrow> int" where
  "byte c = int (of_char c :: nat)"

definition is_ascii_digit :: "char \<Rightarrow> bool" where
  "is_ascii_digit c \<longleftrightarrow> 48 \<le> byte c \<and> byte c \<le> 57"

definition to_ascii_uppercase :: "char \<Rightarrow> char" where
  "to_ascii_uppercase c = (if 97 \<le> byte c \<and> byte c \<le> 122 then char_of (of_char c - 32 :: nat) else c)"

text \<open>\<open>b - b'0'\<close> of a digit.\<close>

definition digit_value :: "char \<Rightarrow> int" where
  "digit_value c = byte c - 48"

lemma byte_range: "0 \<le> byte c" "byte c < 256"
proof -
  have "(of_char c :: nat) < 256" by (metis of_char_mod_256 mod_less_divisor zero_less_numeral)
  then show "0 \<le> byte c" "byte c < 256" by (simp_all add: byte_def)
qed

lemma byte_inject [simp]: "byte c = byte d \<longleftrightarrow> c = d"
  by (simp add: byte_def)

lemma digit_value_range: "is_ascii_digit c \<Longrightarrow> 0 \<le> digit_value c \<and> digit_value c \<le> 9"
  by (simp add: is_ascii_digit_def digit_value_def)

lemma byte_digit_char: "0 \<le> n \<Longrightarrow> n \<le> 9 \<Longrightarrow> byte (digit_char n) = 48 + n"
  by (simp add: byte_def digit_char_def)

lemma digit_char_digit: "0 \<le> n \<Longrightarrow> n \<le> 9 \<Longrightarrow> is_ascii_digit (digit_char n) \<and> digit_value (digit_char n) = n"
  by (simp add: is_ascii_digit_def digit_value_def byte_digit_char)

lemma digit_char_value: "is_ascii_digit c \<Longrightarrow> digit_char (digit_value c) = c"
proof -
  assume "is_ascii_digit c"
  then have "byte (digit_char (digit_value c)) = byte c"
    using digit_value_range byte_digit_char by (simp add: digit_value_def)
  then show ?thesis by simp
qed

lemma digit_not_lower: "is_ascii_digit c \<Longrightarrow> to_ascii_uppercase c = c"
  by (simp add: is_ascii_digit_def to_ascii_uppercase_def)

text \<open>\<open>position\<close>: the index of the first element that passes.\<close>

fun position :: "('a \<Rightarrow> bool) \<Rightarrow> 'a list \<Rightarrow> nat option" where
  "position p [] = None"
| "position p (x # xs) = (if p x then Some 0 else map_option Suc (position p xs))"

lemma position_Some: "position p xs = Some i \<Longrightarrow> i < length xs \<and> p (xs ! i)"
  by (induction xs arbitrary: i) (auto split: if_splits)

lemma position_nth: "distinct xs \<Longrightarrow> i < length xs \<Longrightarrow> position (\<lambda>x. x = xs ! i) xs = Some i"
proof (induction xs arbitrary: i)
  case (Cons x xs)
  then show ?case by (cases i) auto
qed simp

lemma position_None: "position p xs = None \<longleftrightarrow> (\<forall>x\<in>set xs. \<not> p x)"
  by (induction xs) auto

end
