(* ===== verification/Futures_Dates.thy ===== *)
theory Futures_Dates
  imports Schedule_Cuts Ascii
begin

text \<open>
  \<open>time/imm.rs\<close> and \<open>time/asx.rs\<close>: the delivery dates of the International Money Market (the third
  Wednesday of a month) and of the Australian Securities Exchange (the second Friday), and their
  two-character codes. The two modules are the same code over different constants, which the record
  \<open>exchange\<close> holds; each function of either module is the common one at its constants.
\<close>

section \<open>The code\<close>

record exchange =
  ex_weekday :: weekday
  ex_week :: int
  ex_first_day :: int
  ex_last_day :: int
  ex_main_codes :: string

definition imm :: exchange where
  "imm = \<lparr>ex_weekday = Wednesday, ex_week = 3, ex_first_day = 15, ex_last_day = 21, ex_main_codes = ''HMZU''\<rparr>"

definition asx :: exchange where
  "asx = \<lparr>ex_weekday = Friday, ex_week = 2, ex_first_day = 8, ex_last_day = 14, ex_main_codes = ''HMUZ''\<rparr>"

definition ALL_MONTH_CODES :: string where
  "ALL_MONTH_CODES = ''FGHJKMNQUVXZ''"

definition is_delivery_date :: "exchange \<Rightarrow> date \<Rightarrow> bool \<Rightarrow> bool option" where
  "is_delivery_date ex date main_cycle = do {
     w \<leftarrow> date_weekday date;
     if w \<noteq> ex_weekday ex then Some False
     else do {
       d \<leftarrow> date_day_of_month date;
       if \<not> (ex_first_day ex \<le> d \<and> d \<le> ex_last_day ex) then Some False
       else if \<not> main_cycle then Some True
       else do {
         m \<leftarrow> date_month date;
         Some (m \<in> {March, June, September, December})
       }
     }
   }"

definition is_delivery_code :: "exchange \<Rightarrow> string \<Rightarrow> bool \<Rightarrow> bool" where
  "is_delivery_code ex code main_cycle \<longleftrightarrow>
     length code = 2 \<and> is_ascii_digit (code ! 1) \<and>
     to_ascii_uppercase (code ! 0) \<in> set (if main_cycle then ex_main_codes ex else ALL_MONTH_CODES)"

definition delivery_code :: "exchange \<Rightarrow> ql_error \<Rightarrow> date \<Rightarrow> string ql_result option" where
  "delivery_code ex err date = do {
     k \<leftarrow> is_delivery_date ex date False;
     if \<not> k then Some (Inl err)
     else do {
       m \<leftarrow> date_month date;
       c \<leftarrow> tbl_get ALL_MONTH_CODES (month_ordinal m - 1);
       y \<leftarrow> date_year date;
       Some (Inr (c # show_int (y mod 10)))
     }
   }"

text \<open>\<open>next_date\<close> calls itself from the day after the last possible delivery day when the month's
  delivery date is not after the given date.\<close>

definition next_month_of :: "exchange \<Rightarrow> bool \<Rightarrow> int \<Rightarrow> int \<Rightarrow> int \<Rightarrow> int \<times> int" where
  "next_month_of ex main_cycle d m y =
     (let offset = (if main_cycle then 3 else 1); skip = offset - m mod offset in
      if skip \<noteq> offset \<or> d > ex_last_day ex
      then (if skip + m \<le> 12 then (skip + m, y) else (skip + m - 12, y + 1))
      else (m, y))"

definition delivery_step :: "exchange \<Rightarrow> date \<Rightarrow> bool \<Rightarrow> (date \<times> month \<times> int) option" where
  "delivery_step ex date main_cycle = do {
     y \<leftarrow> date_year date;
     m0 \<leftarrow> date_month date;
     d \<leftarrow> date_day_of_month date;
     let (k, y') = next_month_of ex main_cycle d (month_ordinal m0) y;
     m \<leftarrow> month_from_ordinal k;
     result \<leftarrow> date_nth_weekday (ex_week ex) (ex_weekday ex) m y';
     Some (result, m, y')
   }"

partial_function (option) next_delivery_date :: "exchange \<Rightarrow> date \<Rightarrow> bool \<Rightarrow> date option" where
  "next_delivery_date ex date main_cycle =
     delivery_step ex date main_cycle \<bind> (\<lambda>(result, m, y).
       if result \<le> date then date_new (ex_last_day ex + 1) m y \<bind> (\<lambda>d. next_delivery_date ex d main_cycle)
       else Some result)"

declare next_delivery_date.simps [code]

definition delivery_date :: "exchange \<Rightarrow> ql_error \<Rightarrow> string \<Rightarrow> date \<Rightarrow> date ql_result option" where
  "delivery_date ex err code reference_date =
     (if \<not> is_delivery_code ex code False then Some (Inl err)
      else case position (\<lambda>c. c = to_ascii_uppercase (code ! 0)) ALL_MONTH_CODES of
        None \<Rightarrow> Some (Inl InvalidMonthLetter)
      | Some index \<Rightarrow> do {
          m \<leftarrow> month_from_ordinal (int index + 1);
          ry \<leftarrow> date_year reference_date;
          let y0 = digit_value (code ! 1);
          let y = (if y0 = 0 \<and> ry \<le> 1909 then y0 + 10 else y0) + (ry - ry mod 10);
          d1 \<leftarrow> date_new 1 m y;
          result \<leftarrow> next_delivery_date ex d1 False;
          if result < reference_date then do {
            max_year \<leftarrow> date_year date_max;
            if y + 10 \<le> max_year then do {
              d2 \<leftarrow> date_new 1 m (y + 10);
              map_option Inr (next_delivery_date ex d2 False)
            } else Some (Inl OutsideSupportedRange)
          } else Some (Inr result)
        })"

definition next_date_from_code ::
  "exchange \<Rightarrow> ql_error \<Rightarrow> string \<Rightarrow> bool \<Rightarrow> date \<Rightarrow> date ql_result option" where
  "next_date_from_code ex err code main_cycle reference_date = do {
     r \<leftarrow> delivery_date ex err code reference_date;
     case r of Inl e \<Rightarrow> Some (Inl e)
     | Inr d \<Rightarrow> do { d' \<leftarrow> date_add d 1; map_option Inr (next_delivery_date ex d' main_cycle) }
   }"

definition next_code :: "exchange \<Rightarrow> ql_error \<Rightarrow> date \<Rightarrow> bool \<Rightarrow> string ql_result option" where
  "next_code ex err date main_cycle = do {
     d \<leftarrow> next_delivery_date ex date main_cycle;
     delivery_code ex err d
   }"

definition next_code_from_code ::
  "exchange \<Rightarrow> ql_error \<Rightarrow> ql_error \<Rightarrow> string \<Rightarrow> bool \<Rightarrow> date \<Rightarrow> string ql_result option" where
  "next_code_from_code ex cerr derr code main_cycle reference_date = do {
     r \<leftarrow> next_date_from_code ex cerr code main_cycle reference_date;
     case r of Inl e \<Rightarrow> Some (Inl e) | Inr d \<Rightarrow> delivery_code ex derr d
   }"

text \<open>The functions of the two modules.\<close>

definition imm_is_imm_date :: "date \<Rightarrow> bool \<Rightarrow> bool option" where
  "imm_is_imm_date = is_delivery_date imm"

definition imm_is_imm_code :: "string \<Rightarrow> bool \<Rightarrow> bool" where
  "imm_is_imm_code = is_delivery_code imm"

definition imm_code :: "date \<Rightarrow> string ql_result option" where
  "imm_code = delivery_code imm NotAnImmDate"

definition imm_date :: "string \<Rightarrow> date \<Rightarrow> date ql_result option" where
  "imm_date = delivery_date imm InvalidImmCode"

definition imm_next_date :: "date \<Rightarrow> bool \<Rightarrow> date option" where
  "imm_next_date = next_delivery_date imm"

definition imm_next_date_from_code :: "string \<Rightarrow> bool \<Rightarrow> date \<Rightarrow> date ql_result option" where
  "imm_next_date_from_code = next_date_from_code imm InvalidImmCode"

definition imm_next_code :: "date \<Rightarrow> bool \<Rightarrow> string ql_result option" where
  "imm_next_code = next_code imm NotAnImmDate"

definition imm_next_code_from_code :: "string \<Rightarrow> bool \<Rightarrow> date \<Rightarrow> string ql_result option" where
  "imm_next_code_from_code = next_code_from_code imm InvalidImmCode NotAnImmDate"

definition asx_is_asx_date :: "date \<Rightarrow> bool \<Rightarrow> bool option" where
  "asx_is_asx_date = is_delivery_date asx"

definition asx_is_asx_code :: "string \<Rightarrow> bool \<Rightarrow> bool" where
  "asx_is_asx_code = is_delivery_code asx"

definition asx_code :: "date \<Rightarrow> string ql_result option" where
  "asx_code = delivery_code asx NotAnAsxDate"

definition asx_date :: "string \<Rightarrow> date \<Rightarrow> date ql_result option" where
  "asx_date = delivery_date asx InvalidAsxCode"

definition asx_next_date :: "date \<Rightarrow> bool \<Rightarrow> date option" where
  "asx_next_date = next_delivery_date asx"

definition asx_next_date_from_code :: "string \<Rightarrow> bool \<Rightarrow> date \<Rightarrow> date ql_result option" where
  "asx_next_date_from_code = next_date_from_code asx InvalidAsxCode"

definition asx_next_code :: "date \<Rightarrow> bool \<Rightarrow> string ql_result option" where
  "asx_next_code = next_code asx NotAnAsxDate"

definition asx_next_code_from_code :: "string \<Rightarrow> bool \<Rightarrow> date \<Rightarrow> string ql_result option" where
  "asx_next_code_from_code = next_code_from_code asx InvalidAsxCode NotAnAsxDate"


section \<open>The delivery date of a month\<close>

text \<open>The constants of an exchange are those of the \<open>n\<close>-th block of seven days of a month.\<close>

definition exchange_ok :: "exchange \<Rightarrow> bool" where
  "exchange_ok ex \<longleftrightarrow> 2 \<le> ex_week ex \<and> ex_week ex \<le> 3 \<and> ex_first_day ex = 7 * (ex_week ex - 1) + 1 \<and>
     ex_last_day ex = ex_first_day ex + 6"

lemma exchanges_ok: "exchange_ok imm" "exchange_ok asx"
  by (simp_all add: exchange_ok_def imm_def asx_def)

definition delivery_day :: "exchange \<Rightarrow> int \<Rightarrow> int" where
  "delivery_day ex t = ex_first_day ex + weekday_gap (weekday_of (month_start t + ex_first_day ex)) (ex_weekday ex)"

definition delivery :: "exchange \<Rightarrow> int \<Rightarrow> date" where
  "delivery ex t = Date (month_start t + delivery_day ex t)"

lemma delivery_day_range:
  assumes "exchange_ok ex"
  shows "ex_first_day ex \<le> delivery_day ex t" "delivery_day ex t \<le> ex_last_day ex"
    "1 \<le> delivery_day ex t" "delivery_day ex t \<le> 28"
  using assms weekday_gap_range [of "weekday_of (month_start t + ex_first_day ex)" "ex_weekday ex"]
  by (auto simp: delivery_day_def exchange_ok_def)

lemma delivery_new:
  assumes "exchange_ok ex" "first_month \<le> t" "t \<le> last_month"
  shows "date_new (delivery_day ex t) (index_month t) (t div 12) = Some (delivery ex t)"
    "valid_date (delivery ex t)" "date_weekday (delivery ex t) = Some (ex_weekday ex)"
    "date_month (delivery ex t) = Some (index_month t)" "date_year (delivery ex t) = Some (t div 12)"
    "date_day_of_month (delivery ex t) = Some (delivery_day ex t)"
proof -
  have i: "month_index (index_month t) (t div 12) = t" by (simp add: month_index_def index_month_ordinal)
  show n: "date_new (delivery_day ex t) (index_month t) (t div 12) = Some (delivery ex t)"
    using assms(2,3) delivery_day_range [OF assms(1), of t] month_days_bounds [of t]
    by (simp add: date_new_month_start i delivery_def)
  show v: "valid_date (delivery ex t)" by (rule date_new_valid' [OF n])
  have "weekday_of (serial_number (delivery ex t)) = ex_weekday ex"
    using weekday_gap_hits [of "month_start t + ex_first_day ex" "ex_weekday ex"]
    by (simp add: delivery_def delivery_day_def add.assoc)
  then show "date_weekday (delivery ex t) = Some (ex_weekday ex)"
    using date_weekday_eq [OF v] by simp
  show "date_month (delivery ex t) = Some (index_month t)" "date_year (delivery ex t) = Some (t div 12)"
    "date_day_of_month (delivery ex t) = Some (delivery_day ex t)"
    using date_new_inspect [OF n] by simp_all
qed

lemma delivery_nth:
  assumes "exchange_ok ex"
  shows "date_nth_weekday (ex_week ex) (ex_weekday ex) m y = Some d \<longleftrightarrow>
    first_month \<le> month_index m y \<and> month_index m y \<le> last_month \<and> d = delivery ex (month_index m y)"
proof
  let ?t = "month_index m y"
  have w: "1 \<le> ex_week ex" "ex_week ex \<le> 5" using assms by (auto simp: exchange_ok_def)
  note nth = date_nth_weekday_iff [OF w, of "ex_weekday ex" m y d]
  { assume "date_nth_weekday (ex_week ex) (ex_weekday ex) m y = Some d"
    then obtain k where k: "date_new k m y = Some d" "date_weekday d = Some (ex_weekday ex)" "(k - 1) div 7 = ex_week ex - 1"
      using nth by blast
    have t: "first_month \<le> ?t" "?t \<le> last_month" "d = Date (month_start ?t + k)"
      using k(1) by (auto simp: date_new_month_start)
    have "weekday_of (serial_number d) = weekday_of (serial_number (delivery ex ?t))"
      using k(2) delivery_new(2,3) [OF assms t(1,2)] date_weekday_eq date_new_valid' [OF k(1)] by (metis option.inject)
    then have "(month_start ?t + k) mod 7 = (month_start ?t + delivery_day ex ?t) mod 7"
      using t(3) by (simp add: weekday_of_eq_iff delivery_def)
    moreover have "ex_first_day ex \<le> k" "k \<le> ex_last_day ex" using k(3) assms by (auto simp: exchange_ok_def)
    then have "\<bar>(month_start ?t + k) - (month_start ?t + delivery_day ex ?t)\<bar> < 7"
      using delivery_day_range(1,2) [OF assms, of ?t] assms by (auto simp: exchange_ok_def)
    ultimately have "month_start ?t + k = month_start ?t + delivery_day ex ?t" by (rule mod_dvd_near)
    then show "first_month \<le> ?t \<and> ?t \<le> last_month \<and> d = delivery ex ?t"
      using t by (simp add: delivery_def) }
  { assume h: "first_month \<le> ?t \<and> ?t \<le> last_month \<and> d = delivery ex ?t"
    have "(delivery_day ex ?t - 1) div 7 = ex_week ex - 1"
      using delivery_day_range(1,2) [OF assms, of ?t] assms by (auto simp: exchange_ok_def)
    moreover have "date_new (delivery_day ex ?t) m y = Some d" "date_weekday d = Some (ex_weekday ex)"
      using delivery_new(1,3) [OF assms, of ?t] h by auto
    ultimately show "date_nth_weekday (ex_week ex) (ex_weekday ex) m y = Some d" using nth by blast }
qed

section \<open>The next delivery date\<close>

definition delivery_month :: "bool \<Rightarrow> int \<Rightarrow> bool" where
  "delivery_month main_cycle t \<longleftrightarrow> (main_cycle \<longrightarrow> t mod 3 = 2)"

definition month_jump :: "exchange \<Rightarrow> bool \<Rightarrow> int \<Rightarrow> int \<Rightarrow> int" where
  "month_jump ex main_cycle d t =
     (if main_cycle then (if (t + 1) mod 3 \<noteq> 0 \<or> d > ex_last_day ex then 3 - (t + 1) mod 3 else 0)
      else (if d > ex_last_day ex then 1 else 0))"

lemma next_month_of_index:
  "next_month_of ex main_cycle d (t mod 12 + 1) (t div 12) =
     ((t + month_jump ex main_cycle d t) mod 12 + 1, (t + month_jump ex main_cycle d t) div 12)"
proof -
  let ?j = "month_jump ex main_cycle d t"
  have m3: "(t mod 12 + 1) mod 3 = (t + 1) mod 3" by (metis index_month_ordinal ordinal_mod_3)
  have j: "0 \<le> ?j" "?j \<le> 3" by (auto simp: month_jump_def)
  have e: "next_month_of ex main_cycle d (t mod 12 + 1) (t div 12) =
      (if t mod 12 + ?j < 12 then (t mod 12 + ?j + 1, t div 12) else (t mod 12 + ?j - 12 + 1, t div 12 + 1))"
    by (auto simp: next_month_of_def month_jump_def Let_def m3)
  define q r where "q = t div 12" and "r = t mod 12"
  have t: "t = 12 * q + r" "0 \<le> r" "r < 12" by (simp_all add: q_def r_def)
  have "(t + ?j) mod 12 = r + ?j \<and> (t + ?j) div 12 = q" if "r + ?j < 12"
    using mod_eqI [of "t + ?j" 12 q "r + ?j"] div_eqI [of "t + ?j" 12 q "r + ?j"] t j that by simp
  moreover have "(t + ?j) mod 12 = r + ?j - 12 \<and> (t + ?j) div 12 = q + 1" if "\<not> r + ?j < 12"
    using mod_eqI [of "t + ?j" 12 "q + 1" "r + ?j - 12"] div_eqI [of "t + ?j" 12 "q + 1" "r + ?j - 12"] t j that
    by simp
  ultimately show ?thesis using e unfolding q_def [symmetric] r_def [symmetric] by simp
qed

lemma delivery_step_eq:
  fixes main_cycle :: bool
  assumes ex: "exchange_ok ex" and t: "first_month \<le> t" "t \<le> last_month"
    and d: "date_year d = Some (t div 12)" "date_month d = Some (index_month t)" "date_day_of_month d = Some k"
  defines "u \<equiv> t + month_jump ex main_cycle k t"
  shows "delivery_step ex d main_cycle =
    (if u \<le> last_month then Some (delivery ex u, index_month u, u div 12) else None)"
proof -
  have m: "month_from_ordinal (u mod 12 + 1) = Some (index_month u)"
    using index_month_ordinal [of u] by (simp add: month_from_ordinal_Some)
  have i: "month_index (index_month u) (u div 12) = u" by (simp add: month_index_def index_month_ordinal)
  have u: "first_month \<le> u" using t(1) by (auto simp: u_def month_jump_def)
  have "date_nth_weekday (ex_week ex) (ex_weekday ex) (index_month u) (u div 12) =
      (if u \<le> last_month then Some (delivery ex u) else None)"
    using delivery_nth [OF ex, of "index_month u" "u div 12"] u unfolding i
    by (cases "date_nth_weekday (ex_week ex) (ex_weekday ex) (index_month u) (u div 12)") auto
  then show ?thesis
    using d m by (simp add: delivery_step_def index_month_ordinal next_month_of_index u_def)
qed

text \<open>The index of the month of the next delivery date.\<close>

definition next_delivery_month :: "exchange \<Rightarrow> bool \<Rightarrow> date \<Rightarrow> int \<Rightarrow> int" where
  "next_delivery_month ex main_cycle d t =
     (if main_cycle then
        (if (t + 1) mod 3 \<noteq> 0 \<or> delivery ex t \<le> d then t + (3 - (t + 1) mod 3) else t)
      else (if delivery ex t \<le> d then t + 1 else t))"

lemma next_delivery_date_eq:
  fixes main_cycle :: bool
  assumes ex: "exchange_ok ex" and v: "valid_date d"
    and t: "first_month \<le> t" "t \<le> last_month" "date_month d = Some (index_month t)"
      "date_year d = Some (t div 12)" "month_start t < serial_number d" "serial_number d \<le> month_start (t + 1)"
  defines "u \<equiv> next_delivery_month ex main_cycle d t"
  shows "next_delivery_date ex d main_cycle = (if u \<le> last_month then Some (delivery ex u) else None) \<and>
    (u \<le> last_month \<longrightarrow> d < delivery ex u)"
proof -
  obtain k where k: "date_day_of_month d = Some k" using date_day_of_month_total [OF v] by blast
  have "date_new k (index_month t) (t div 12) = Some d"
    using date_inspect [OF v] k t(3,4) by (metis option.inject)
  moreover have i: "month_index (index_month t) (t div 12) = t" by (simp add: month_index_def index_month_ordinal)
  ultimately have dk: "serial_number d = month_start t + k" "1 \<le> k" "k \<le> month_days t"
    by (auto simp: date_new_month_start)
  let ?j = "month_jump ex main_cycle k t"
  note step = delivery_step_eq [OF ex t(1,2,4,3) k, of main_cycle]
  have later: "d < delivery ex (t + n)" if "1 \<le> n" "t + n \<le> last_month" for n
    using month_start_mono [of "t + 1" "t + n"] t(1,6) that delivery_day_range(3) [OF ex, of "t + n"]
    by (simp add: delivery_def less_date_def)
  have le: "delivery ex t \<le> d \<longleftrightarrow> delivery_day ex t \<le> k"
    using dk(1) by (simp add: delivery_def less_eq_date_def)
  show ?thesis
  proof (cases "?j = 0 \<and> delivery ex t \<le> d")
    case False
    have u: "u = t + ?j"
      using False le delivery_day_range(2) [OF ex, of t]
      by (auto simp: u_def next_delivery_month_def month_jump_def split: if_splits)
    have "0 \<le> ?j" by (simp add: month_jump_def) presburger
    then have "u \<le> last_month \<Longrightarrow> d < delivery ex u"
      using False later [of ?j] u by (cases "?j = 0") auto
    then show ?thesis using u step by (subst next_delivery_date.simps) (auto simp: not_le)
  next
    case True
    let ?l = "ex_last_day ex + 1"
    have kl: "k \<le> ex_last_day ex" "main_cycle \<Longrightarrow> (t + 1) mod 3 = 0" using True by (auto simp: month_jump_def split: if_splits)
    have l: "1 \<le> ?l" "?l \<le> month_days t" using ex month_days_bounds [of t] by (auto simp: exchange_ok_def)
    define d2 where "d2 = Date (month_start t + ?l)"
    have n2: "date_new ?l (index_month t) (t div 12) = Some d2"
      using t(1,2) l by (simp add: date_new_month_start i d2_def)
    note i2 = date_new_inspect [OF n2]
    have u: "u = t + month_jump ex main_cycle ?l t"
      using True kl by (auto simp: u_def next_delivery_month_def month_jump_def)
    have j1: "1 \<le> month_jump ex main_cycle ?l t" using kl by (auto simp: month_jump_def)
    have "d2 < delivery ex u" if "u \<le> last_month"
      using month_start_mono [of "t + 1" u] month_start_Suc [OF t(1,2)] t(1) l(2) that u j1
        delivery_day_range(3) [OF ex, of u]
      by (simp add: delivery_def less_date_def d2_def)
    moreover have "d \<le> d2" using dk(1) kl(1) by (simp add: d2_def less_eq_date_def)
    moreover have "next_delivery_date ex d main_cycle = next_delivery_date ex d2 main_cycle"
      using step True t(2) n2 by (subst next_delivery_date.simps) simp
    moreover have "next_delivery_date ex d2 main_cycle = (if u \<le> last_month then Some (delivery ex u) else None)"
      using delivery_step_eq [OF ex t(1,2) i2(1-3), of main_cycle] calculation(1) u
      by (subst next_delivery_date.simps) (auto simp: not_le)
    ultimately show ?thesis by auto
  qed
qed

lemma main_month_iff: "index_month t \<in> {March, June, September, December} \<longleftrightarrow> t mod 3 = 2"
proof -
  have "index_month t \<in> {March, June, September, December} \<longleftrightarrow> month_ordinal (index_month t) mod 3 = 0"
    by (cases "index_month t") simp_all
  also have "\<dots> \<longleftrightarrow> (t + 1) mod 3 = 0" by (simp add: ordinal_mod_3)
  also have "\<dots> \<longleftrightarrow> t mod 3 = 2" by presburger
  finally show ?thesis .
qed

lemma is_delivery_date_iff:
  assumes ex: "exchange_ok ex" and v: "valid_date x"
  shows "is_delivery_date ex x main_cycle = Some True \<longleftrightarrow>
    (\<exists>t. first_month \<le> t \<and> t \<le> last_month \<and> delivery_month main_cycle t \<and> x = delivery ex t)"
proof
  assume d: "is_delivery_date ex x main_cycle = Some True"
  obtain k m y where i: "date_day_of_month x = Some k" "date_month x = Some m" "date_new k m y = Some x"
    using date_inspect [OF v] by metis
  have w: "date_weekday x = Some (ex_weekday ex)" "ex_first_day ex \<le> k" "k \<le> ex_last_day ex"
    "main_cycle \<Longrightarrow> m \<in> {March, June, September, December}"
    using d i by (auto simp: is_delivery_date_def bind_eq_Some_conv split: if_splits)
  have "(k - 1) div 7 = ex_week ex - 1" using w(2,3) ex by (auto simp: exchange_ok_def)
  then have "date_nth_weekday (ex_week ex) (ex_weekday ex) m y = Some x"
    using date_nth_weekday_iff [of "ex_week ex" "ex_weekday ex" m y x] ex i(3) w(1) by (auto simp: exchange_ok_def)
  then have t: "first_month \<le> month_index m y" "month_index m y \<le> last_month" "x = delivery ex (month_index m y)"
    using delivery_nth [OF ex] by blast+
  have "delivery_month main_cycle (month_index m y)"
    using w(4) main_month_iff [of "month_index m y"] by (simp add: delivery_month_def)
  then show "\<exists>t. first_month \<le> t \<and> t \<le> last_month \<and> delivery_month main_cycle t \<and> x = delivery ex t"
    using t by blast
next
  assume "\<exists>t. first_month \<le> t \<and> t \<le> last_month \<and> delivery_month main_cycle t \<and> x = delivery ex t"
  then obtain t where t: "first_month \<le> t" "t \<le> last_month" "delivery_month main_cycle t" "x = delivery ex t" by blast
  show "is_delivery_date ex x main_cycle = Some True"
    using t(3) main_month_iff [of t] delivery_new [OF ex t(1,2)] delivery_day_range [OF ex, of t]
    by (simp add: is_delivery_date_def t(4) delivery_month_def)
qed

lemma delivery_le_iff:
  assumes "exchange_ok ex" "first_month \<le> t" "t \<le> last_month" "first_month \<le> u" "u \<le> last_month"
  shows "delivery ex t \<le> delivery ex u \<longleftrightarrow> t \<le> u"
proof -
  have "delivery ex a < delivery ex b" if "first_month \<le> a" "a < b" "b \<le> last_month" for a b
    using month_start_less(1) [of a b] that delivery_day_range [OF assms(1), of a] delivery_day_range [OF assms(1), of b]
    by (simp add: delivery_def less_date_def)
  then show ?thesis using assms by (cases t u rule: linorder_cases) fastforce+
qed

lemma next_delivery_least:
  assumes ex: "exchange_ok ex" and v: "valid_date d"
  shows "case next_delivery_date ex d main_cycle of
      Some r \<Rightarrow> valid_date r \<and> is_delivery_date ex r main_cycle = Some True \<and> d < r \<and>
        (\<forall>x. valid_date x \<and> is_delivery_date ex x main_cycle = Some True \<and> d < x \<longrightarrow> r \<le> x)
    | None \<Rightarrow> \<forall>x. valid_date x \<and> is_delivery_date ex x main_cycle = Some True \<longrightarrow> x \<le> d"
proof -
  obtain t where t: "first_month \<le> t" "t \<le> last_month" "date_month d = Some (index_month t)"
    "date_year d = Some (t div 12)" "month_start t < serial_number d" "serial_number d \<le> month_start (t + 1)"
    using date_month_index [OF v] .
  define u where "u = next_delivery_month ex main_cycle d t"
  note n = next_delivery_date_eq [OF ex v t, of main_cycle, folded u_def]
  have "(t + (3 - (t + 1) mod 3)) mod 3 = 2" "t \<le> t + (3 - (t + 1) mod 3)"
    by presburger+
  then have "t \<le> u" "delivery_month main_cycle u"
    using main_month_above(2) [of t] by (auto simp: u_def next_delivery_month_def delivery_month_def)
  then have fu: "first_month \<le> u" using t(1) by simp
  have first: "u \<le> w" if w: "first_month \<le> w" "w \<le> last_month" "delivery_month main_cycle w" "d < delivery ex w" for w
  proof -
    have "t \<le> w"
    proof (rule ccontr)
      assume "\<not> t \<le> w"
      then have "month_start w + month_days w \<le> month_start t"
        using month_start_mono [of "w + 1" t] month_start_Suc [OF w(1,2)] w(1) t(2) by simp
      then show False using w(4) t(5) delivery_day_range(4) [OF ex, of w] month_days_bounds [of w]
        by (simp add: delivery_def less_date_def)
    qed
    moreover have "w \<noteq> t" if "delivery ex t \<le> d" using that w(4) by auto
    ultimately show ?thesis
      using main_month_above(3) [of w t] w(3)
      by (cases "delivery ex t \<le> d"; cases main_cycle; cases "(t + 1) mod 3 = 0")
        (auto simp: u_def next_delivery_month_def delivery_month_def, presburger+)
  qed
  show ?thesis
  proof (cases "u \<le> last_month")
    case True
    have "delivery ex u \<le> x" if "valid_date x" "is_delivery_date ex x main_cycle = Some True" "d < x" for x
      using first delivery_le_iff [OF ex fu True] is_delivery_date_iff [OF ex that(1)] that(2,3) by auto
    then show ?thesis
      using n True fu delivery_new(2) [OF ex fu True] is_delivery_date_iff [OF ex] \<open>delivery_month main_cycle u\<close> by auto
  next
    case False
    have "x \<le> d" if x: "valid_date x" "is_delivery_date ex x main_cycle = Some True" for x
      using first is_delivery_date_iff [OF ex x(1)] x(2) False by (fastforce simp: not_less [symmetric])
    then show ?thesis using n False by simp
  qed
qed
section \<open>Codes\<close>

lemma month_codes: "length ALL_MONTH_CODES = 12" "distinct ALL_MONTH_CODES"
    "list_all (\<lambda>c. to_ascii_uppercase c = c) ALL_MONTH_CODES"
  by code_simp+

lemma delivery_code_eq:
  assumes "exchange_ok ex" "first_month \<le> t" "t \<le> last_month"
  shows "delivery_code ex err (delivery ex t) =
    Some (Inr [ALL_MONTH_CODES ! nat (t mod 12), digit_char (t div 12 mod 10)])"
proof -
  have "is_delivery_date ex (delivery ex t) False = Some True"
    using is_delivery_date_iff [OF assms(1) delivery_new(2) [OF assms]] assms(2,3) by (auto simp: delivery_month_def)
  moreover have "0 \<le> t mod 12" "t mod 12 < 12" "t div 12 mod 10 < 10" by simp_all
  then have "tbl_get ALL_MONTH_CODES (t mod 12) = Some (ALL_MONTH_CODES ! nat (t mod 12))"
    "show_int (t div 12 mod 10) = [digit_char (t div 12 mod 10)]"
    by (simp_all add: tbl_get_nth month_codes(1) show_int_def show_dec.simps)
  ultimately show ?thesis
    using delivery_new(4,5) [OF assms] by (simp add: delivery_code_def index_month_ordinal)
qed

lemma delivery_code_Some:
  assumes "exchange_ok ex" "valid_date x" "delivery_code ex err x = Some (Inr c)"
  obtains t where "first_month \<le> t" "t \<le> last_month" "x = delivery ex t"
    "c = [ALL_MONTH_CODES ! nat (t mod 12), digit_char (t div 12 mod 10)]"
proof -
  have "is_delivery_date ex x False = Some True"
    using assms(3) by (auto simp: delivery_code_def bind_eq_Some_conv split: if_splits)
  then obtain t where t: "first_month \<le> t" "t \<le> last_month" "x = delivery ex t"
    using is_delivery_date_iff [OF assms(1,2)] by blast
  then show ?thesis using that delivery_code_eq [OF assms(1) t(1,2)] assms(3) by simp
qed

lemma first_of_month_next:
  assumes ex: "exchange_ok ex" and d: "date_new 1 m y = Some d"
  shows "next_delivery_date ex d False = Some (delivery ex (month_index m y)) \<and>
    first_month \<le> month_index m y \<and> month_index m y \<le> last_month"
proof -
  let ?t = "month_index m y"
  have t: "first_month \<le> ?t" "?t \<le> last_month" "d = Date (month_start ?t + 1)"
    using d by (auto simp: date_new_month_start)
  have "month_start (?t + 1) = month_start ?t + month_days ?t" by (rule month_start_Suc [OF t(1,2)])
  then have "month_start ?t < serial_number d" "serial_number d \<le> month_start (?t + 1)"
    using t(3) month_days_bounds [of ?t] by simp_all
  note n = next_delivery_date_eq [OF ex date_new_valid' [OF d] t(1,2) _ _ this, of False]
  have "\<not> delivery ex ?t \<le> d"
    using delivery_day_range(1) [OF ex, of ?t] ex t(3) by (simp add: delivery_def less_eq_date_def exchange_ok_def)
  then show ?thesis using n date_new_inspect [OF d] t by (simp add: next_delivery_month_def)
qed

lemma length_two_list: "length xs = 2 \<longleftrightarrow> (\<exists>a b. xs = [a, b])"
  by (auto simp: numeral_2_eq_2 length_Suc_conv)

lemma same_digit:
  assumes "a mod 10 = b mod (10::int)" "b < a + 10"
  shows "b \<le> a" "b \<noteq> a \<Longrightarrow> b + 10 \<le> a"
proof -
  obtain k where "a = b + 10 * k" using assms(1) by (metis mod_eqE)
  with assms(2) show "b \<le> a" "b \<noteq> a \<Longrightarrow> b + 10 \<le> a" by auto
qed

text \<open>The year a code is resolved to: the first one with its last digit whose delivery date in the
  code's month is not before the reference date.\<close>

lemma delivery_date_resolves:
  assumes ex: "exchange_ok ex" and v: "valid_date ref" and r: "delivery_date ex err code ref = Some (Inr d)"
  obtains m y where "ALL_MONTH_CODES ! nat (month_ordinal m - 1) = to_ascii_uppercase (code ! 0)"
    "first_month \<le> month_index m y" "month_index m y \<le> last_month" "d = delivery ex (month_index m y)"
    "ref \<le> d" "y mod 10 = digit_value (code ! 1)" "is_ascii_digit (code ! 1)" "length code = 2"
    "\<And>y'. y' mod 10 = y mod 10 \<Longrightarrow> first_month \<le> month_index m y' \<Longrightarrow> month_index m y' \<le> last_month \<Longrightarrow>
      ref \<le> delivery ex (month_index m y') \<Longrightarrow> y \<le> y'"
proof -
  have code: "is_ascii_digit (code ! 1)" "length code = 2"
    using r by (auto simp: delivery_date_def is_delivery_code_def split: if_splits)
  obtain index m ry where i: "position (\<lambda>c. c = to_ascii_uppercase (code ! 0)) ALL_MONTH_CODES = Some index"
    "month_from_ordinal (int index + 1) = Some m" "date_year ref = Some ry"
    using r by (auto simp: delivery_date_def bind_eq_Some_conv split: if_splits option.splits)
  define y0 where "y0 = digit_value (code ! 1)"
  define y where "y = (if y0 = 0 \<and> ry \<le> 1909 then y0 + 10 else y0) + (ry - ry mod 10)"
  have y0: "0 \<le> y0" "y0 \<le> 9" using digit_value_range [OF code(1)] by (auto simp: y0_def)
  have o: "month_ordinal m = int index + 1" using i(2) by (simp add: month_from_ordinal_Some)
  then have letter: "ALL_MONTH_CODES ! nat (month_ordinal m - 1) = to_ascii_uppercase (code ! 0)"
    using position_Some [OF i(1)] by simp
  let ?D = "\<lambda>y. delivery ex (month_index m y)"
  obtain d1 where d1: "date_new 1 m y = Some d1"
    using r i by (auto simp: delivery_date_def bind_eq_Some_conv y0_def y_def Let_def split: if_splits)
  note n1 = first_of_month_next [OF ex d1]
  have maxy: "date_year date_max = Some 2199" by code_simp
  have res: "if ?D y < ref then \<exists>d2. date_new 1 m (y + 10) = Some d2 \<and> next_delivery_date ex d2 False = Some d
      else d = ?D y"
    using r i n1 d1 maxy
    by (auto simp: delivery_date_def bind_eq_Some_conv y0_def y_def Let_def split: if_splits)
  obtain mr where mr: "date_year ref = Some (mr div 12)" "first_month \<le> mr" "mr \<le> last_month"
    "month_start mr < serial_number ref" "serial_number ref \<le> month_start (mr + 1)"
    using date_month_index [OF v] by metis
  have year: "y' \<ge> ry" if "first_month \<le> month_index m y'" "month_index m y' \<le> last_month" "ref \<le> ?D y'" for y'
  proof (rule ccontr)
    assume "\<not> ry \<le> y'"
    then have "y' < mr div 12" using mr(1) i(3) by simp
    then have "month_index m y' < mr" using month_ordinal_range [of m] unfolding month_index_def by presburger
    then have "month_start (month_index m y') + month_days (month_index m y') \<le> month_start mr"
      using month_start_mono [of "month_index m y' + 1" mr] month_start_Suc [OF that(1,2)] that mr(3) by simp
    then show False using that(3) mr(4) delivery_day_range(4) [OF ex, of "month_index m y'"]
        month_days_bounds [of "month_index m y'"]
      by (simp add: delivery_def less_eq_date_def)
  qed
  have later: "ref \<le> ?D y'" if "ry < y'" "first_month \<le> month_index m y'" "month_index m y' \<le> last_month" for y'
  proof -
    have "mr div 12 < y'" using that(1) mr(1) i(3) by simp
    then have "mr + 1 \<le> month_index m y'" using month_ordinal_range [of m] unfolding month_index_def by presburger
    then show ?thesis
      using month_start_mono [of "mr + 1" "month_index m y'"] mr that(3) delivery_day_range(3) [OF ex, of "month_index m y'"]
      by (simp add: delivery_def less_eq_date_def)
  qed
  have first: "1901 \<le> ry" using mr(1,2) i(3) by simp
  define q r where "q = ry div 10" and "r = ry mod 10"
  then have qr: "ry = 10 * q + r" "0 \<le> r" "r \<le> 9" using pos_mod_bound [of 10 ry] by simp_all
  then have y: "y = (if y0 = 0 \<and> ry \<le> 1909 then 10 else y0) + 10 * q"
    by (simp add: y_def minus_mod_eq_mult_div q_def)
  have decade: "ry < y + 10" "y < ry + 10" "y mod 10 = y0"
    using y qr y0 first by (auto split: if_splits) presburger
  have next_one: "y \<le> y'" if "y' mod 10 = y mod 10" "ry \<le> y'" for y'
    using same_digit [of y' y] that decade(2) by simp
  have next_ten: "y + 10 \<le> y'" if "y' mod 10 = (y + 10) mod 10" "ry \<le> y'" "y' \<noteq> y" for y'
    using same_digit [of y' y] that decade(2) by auto
  show thesis
  proof (cases "?D y < ref")
    case False
    show thesis
    proof (rule that [OF letter, of y])
      show "d = ?D y" "ref \<le> d" using res False by auto
      show "y \<le> y'" if "y' mod 10 = y mod 10" "first_month \<le> month_index m y'" "month_index m y' \<le> last_month"
        "ref \<le> ?D y'" for y'
        using next_one [OF that(1) year [OF that(2-4)]] .
    qed (use n1 decade code y0_def in auto)
  next
    case True
    then obtain d2 where d2: "date_new 1 m (y + 10) = Some d2" "next_delivery_date ex d2 False = Some d"
      using res by auto
    note n2 = first_of_month_next [OF ex d2(1)]
    show thesis
    proof (rule that [OF letter, of "y + 10"])
      show d: "d = ?D (y + 10)" using n2 d2(2) by simp
      show "ref \<le> d" using later [OF decade(1)] n2 d by simp
      show "y + 10 \<le> y'" if "y' mod 10 = (y + 10) mod 10" "first_month \<le> month_index m y'"
        "month_index m y' \<le> last_month" "ref \<le> ?D y'" for y'
      proof (rule next_ten [OF that(1) year [OF that(2-4)]])
        show "y' \<noteq> y" using that(4) True by auto
      qed
    qed (use n2 decade code y0_def in auto)
  qed
qed


lemma delivery_date_round_trip:
  assumes ex: "exchange_ok ex" and v: "valid_date ref" and r: "delivery_date ex err code ref = Some (Inr d)"
  shows "delivery_code ex err' d = Some (Inr (map to_ascii_uppercase code)) \<and> valid_date d \<and> ref \<le> d \<and>
    (\<forall>x. valid_date x \<and> ref \<le> x \<and> delivery_code ex err' x = Some (Inr (map to_ascii_uppercase code)) \<longrightarrow> d \<le> x)"
proof -
  obtain m y where my: "ALL_MONTH_CODES ! nat (month_ordinal m - 1) = to_ascii_uppercase (code ! 0)"
    "first_month \<le> month_index m y" "month_index m y \<le> last_month" "d = delivery ex (month_index m y)"
    "ref \<le> d" "y mod 10 = digit_value (code ! 1)" "is_ascii_digit (code ! 1)" "length code = 2"
    "\<And>y'. y' mod 10 = y mod 10 \<Longrightarrow> first_month \<le> month_index m y' \<Longrightarrow> month_index m y' \<le> last_month \<Longrightarrow>
      ref \<le> delivery ex (month_index m y') \<Longrightarrow> y \<le> y'"
    by (rule delivery_date_resolves [OF ex v r]) (rule that, assumption+)
  have upper: "map to_ascii_uppercase code = [ALL_MONTH_CODES ! nat (month_ordinal m - 1), digit_char (y mod 10)]"
    using my(1,6,7,8) by (auto simp: length_two_list digit_not_lower digit_char_value)
  have split: "month_index m z mod 12 = month_ordinal m - 1" "month_index m z div 12 = z" for z
    using month_ordinal_range [of m] by (simp_all add: month_index_def)
  have "d \<le> x" if x: "valid_date x" "ref \<le> x"
    "delivery_code ex err' x = Some (Inr (map to_ascii_uppercase code))" for x
  proof -
    obtain t where t: "first_month \<le> t" "t \<le> last_month" "x = delivery ex t"
      "map to_ascii_uppercase code = [ALL_MONTH_CODES ! nat (t mod 12), digit_char (t div 12 mod 10)]"
      using delivery_code_Some [OF ex x(1,3)] .
    have "nat (t mod 12) = nat (month_ordinal m - 1)"
      using t(4) month_ordinal_range [of m] upper nth_eq_iff_index_eq [OF month_codes(2)]
      by (simp add: month_codes(1) nat_less_iff)
    then have "t mod 12 = month_ordinal m - 1" using month_ordinal_range [of m] by (simp add: eq_nat_nat_iff)
    then have tm: "t = month_index m (t div 12)" using mult_div_mod_eq [of 12 t] by (simp add: month_index_def)
    have "digit_value (digit_char (t div 12 mod 10)) = digit_value (digit_char (y mod 10))"
      using t(4) upper by simp
    then have "t div 12 mod 10 = y mod 10"
      using digit_char_digit [of "t div 12 mod 10"] digit_char_digit [of "y mod 10"] by simp
    from my(9) [OF this] have "y \<le> t div 12" using t tm x(2) by metis
    then have "month_index m y \<le> t" by (subst tm) (simp add: month_index_def)
    then show ?thesis using delivery_le_iff [OF ex my(2,3) t(1,2)] my(4) t(3) by simp
  qed
  then show ?thesis
    using delivery_code_eq [OF ex my(2,3)] my(4,5) delivery_new(2) [OF ex my(2,3)] upper split by simp
qed

section \<open>Properties\<close>

text \<open>The next delivery date of the IMM or the ASX is the least delivery date (of the main cycle, when
  it is asked for) after the given one; the computation panics exactly when the supported range
  holds no later one.\<close>

lemma next_futures_date_is_least:
  assumes "ex = imm \<or> ex = asx" "valid_date d"
  shows "case next_delivery_date ex d main_cycle of
      Some r \<Rightarrow> valid_date r \<and> is_delivery_date ex r main_cycle = Some True \<and> d < r \<and>
        (\<forall>x. valid_date x \<and> is_delivery_date ex x main_cycle = Some True \<and> d < x \<longrightarrow> r \<le> x)
    | None \<Rightarrow> \<forall>x. valid_date x \<and> is_delivery_date ex x main_cycle = Some True \<longrightarrow> x \<le> d"
  using next_delivery_least assms exchanges_ok by blast

text \<open>The date of a delivery code is the first delivery date on or after the reference date whose
  code it is (letters in either case), for both exchanges; resolving a code and coding the date are
  inverse.\<close>

lemma futures_code_round_trip:
  assumes "ex = imm \<or> ex = asx" "valid_date ref" "delivery_date ex err code ref = Some (Inr d)"
  shows "delivery_code ex err' d = Some (Inr (map to_ascii_uppercase code)) \<and> valid_date d \<and> ref \<le> d \<and>
    (\<forall>x. valid_date x \<and> ref \<le> x \<and> delivery_code ex err' x = Some (Inr (map to_ascii_uppercase code)) \<longrightarrow> d \<le> x)"
  using delivery_date_round_trip assms exchanges_ok by blast

end
