(* ===== verification/Observable.thy ===== *)
theory Observable
  imports Prelude
begin

text \<open>
  \<open>patterns/observable.rs\<close>: the registries of observers, the notification rounds, the thread's list of
  undelivered notifications and its drain. The call stack is part of the state: each frame is a
  running \<open>update\<close>, a round of \<open>notify_observers\<close> or the drain, so that one step is one iteration of
  a loop of the code, and an update may do anything an observer can do before it returns.

  Observers and observables are named by numbers, which stand for their addresses; a fresh observer
  has a fresh number, because a weak reference keeps its allocation. A strong reference is either
  held by code outside this module (\<open>strong\<close>) or by a frame. A \<open>RefCell\<close> is borrowed mutably while its
  observer updates, and \<open>outside\<close> holds the borrows of other code. The answer of
  \<open>defer_reentrant_update\<close> is a parameter \<open>answer\<close>: it is the observer's own.
\<close>

section \<open>The state\<close>

type_synonym observer = nat
type_synonym observable = nat

record entry =
  entry_observer :: observer
  defer_reentrant :: bool

datatype borrow = Shared_Borrow | Mut_Borrow

datatype frame =
  Updating observer
| Round "(observer \<times> bool) list"
| Drain "observer list" "observer list"

record world =
  registry :: "observable \<Rightarrow> entry list"
  strong :: "observer set"
  created :: nat
  outside :: "observer \<rightharpoonup> borrow"
  pending :: "observer list"
  depth :: nat
  draining :: bool
  frames :: "frame list"

definition new_world :: world where
  "new_world = \<lparr>registry = (\<lambda>_. []), strong = {}, created = 0, outside = Map.empty, pending = [],
     depth = 0, draining = False, frames = []\<rparr>"

text \<open>What a step does that others can see: a round starts over a snapshot, an update starts, the
  drain finds an observer still borrowed, the stack unwinds.\<close>

datatype event =
  Notified "(observer \<times> bool) list"
| Updates observer
| Stalled observer
| Panicked

primrec frame_refs :: "frame \<Rightarrow> observer set" where
  "frame_refs (Updating x) = {x}"
| "frame_refs (Round snapshot) = fst ` set snapshot"
| "frame_refs (Drain batch stalled) = {}"

text \<open>\<open>strong_count() > 0\<close>, and a successful \<open>upgrade()\<close>.\<close>

definition alive :: "world \<Rightarrow> observer \<Rightarrow> bool" where
  "alive w x \<longleftrightarrow> x \<in> strong w \<or> (\<exists>f\<in>set (frames w). x \<in> frame_refs f)"

text \<open>\<open>try_borrow\<close> fails on a mutable borrow, \<open>try_borrow_mut\<close> on any.\<close>

definition mut_borrowed :: "world \<Rightarrow> observer \<Rightarrow> bool" where
  "mut_borrowed w x \<longleftrightarrow> outside w x = Some Mut_Borrow \<or> Updating x \<in> set (frames w)"

definition borrowed :: "world \<Rightarrow> observer \<Rightarrow> bool" where
  "borrowed w x \<longleftrightarrow> outside w x \<noteq> None \<or> Updating x \<in> set (frames w)"

section \<open>Operations\<close>

definition observer_entry_new :: "(observer \<Rightarrow> bool) \<Rightarrow> world \<Rightarrow> observer \<Rightarrow> entry" where
  "observer_entry_new answer w x =
     \<lparr>entry_observer = x, defer_reentrant = (if mut_borrowed w x then True else answer x)\<rparr>"

definition live_entries :: "world \<Rightarrow> observable \<Rightarrow> entry list" where
  "live_entries w ob = filter (\<lambda>e. alive w (entry_observer e)) (registry w ob)"

definition register_observer ::
  "(observer \<Rightarrow> bool) \<Rightarrow> observable \<Rightarrow> observer \<Rightarrow> world \<Rightarrow> bool \<times> world" where
  "register_observer answer ob x w =
     (let es = live_entries w ob in
      if x \<in> entry_observer ` set es then (False, w\<lparr>registry := (registry w)(ob := es)\<rparr>)
      else (True, w\<lparr>registry := (registry w)(ob := es @ [observer_entry_new answer w x])\<rparr>))"

definition unregister_observer :: "observable \<Rightarrow> observer \<Rightarrow> world \<Rightarrow> bool \<times> world" where
  "unregister_observer ob x w =
     (x \<in> entry_observer ` set (registry w ob),
      w\<lparr>registry := (registry w)(ob := filter (\<lambda>e. entry_observer e \<noteq> x \<and> alive w (entry_observer e)) (registry w ob))\<rparr>)"

definition defer_update :: "observer \<Rightarrow> world \<Rightarrow> world" where
  "defer_update x w = (if x \<in> set (pending w) then w else w\<lparr>pending := pending w @ [x]\<rparr>)"

definition start_update :: "observer \<Rightarrow> world \<Rightarrow> event list \<times> world" where
  "start_update x w = ([Updates x], w\<lparr>frames := Updating x # frames w\<rparr>)"

definition deliver :: "observer \<Rightarrow> world \<Rightarrow> event list \<times> world" where
  "deliver x w = (if borrowed w x then ([], defer_update x w) else start_update x w)"

text \<open>\<open>notify_observers\<close> up to its loop; the frame holds what is left of the snapshot.\<close>

definition notify_observers :: "observable \<Rightarrow> world \<Rightarrow> event list \<times> world" where
  "notify_observers ob w =
     (let es = live_entries w ob;
          snapshot = map (\<lambda>e. (entry_observer e, defer_reentrant e)) es
      in ([Notified snapshot],
          w\<lparr>registry := (registry w)(ob := es), depth := depth w + 1, frames := Round snapshot # frames w\<rparr>))"

definition drain_pending :: "world \<Rightarrow> world" where
  "drain_pending w =
     (if draining w then w else w\<lparr>draining := True, frames := Drain [] [] # frames w\<rparr>)"

text \<open>One iteration of the loop of the top frame.\<close>

definition round_step :: "(observer \<times> bool) list \<Rightarrow> frame list \<Rightarrow> world \<Rightarrow> event list \<times> world" where
  "round_step snapshot fs w = (case snapshot of
     [] \<Rightarrow> let w = w\<lparr>frames := fs, depth := depth w - 1\<rparr>
           in ([], if depth w = 0 then drain_pending w else w)
   | (x, replay) # rest \<Rightarrow>
       let w' = w\<lparr>frames := Round rest # fs\<rparr> in
       if \<not> borrowed w x then start_update x w'
       else ([], if replay then defer_update x w' else w'))"

definition drain_step :: "observer list \<Rightarrow> observer list \<Rightarrow> frame list \<Rightarrow> world \<Rightarrow> event list \<times> world" where
  "drain_step batch stalled fs w = (case batch of
     [] \<Rightarrow> if pending w = [] then ([], w\<lparr>pending := stalled, draining := False, frames := fs\<rparr>)
           else ([], w\<lparr>pending := [], frames := Drain (pending w) stalled # fs\<rparr>)
   | x # rest \<Rightarrow>
       let w' = w\<lparr>frames := Drain rest stalled # fs\<rparr> in
       if \<not> alive w x then ([], w')
       else if \<not> borrowed w x then start_update x w'
       else ([Stalled x], w\<lparr>frames := Drain rest (if x \<in> set stalled then stalled else stalled @ [x]) # fs\<rparr>))"

definition machine_step :: "world \<Rightarrow> (event list \<times> world) option" where
  "machine_step w = (case frames w of
     Round snapshot # fs \<Rightarrow> Some (round_step snapshot fs w)
   | Drain batch stalled # fs \<Rightarrow> Some (drain_step batch stalled fs w)
   | _ \<Rightarrow> None)"

section \<open>The code around it\<close>

text \<open>What an update, or code outside any notification, may do. \<open>Deliver\<close> is private to the crate and
  called in updates only. A panic unwinds the whole stack: the guards of the depth and of the drain
  run, and a frame's own list is lost.\<close>

datatype action =
  Create
| Retain observer
| Release observer
| Register observable observer
| Unregister observable observer
| Notify observable
| Deliver observer
| Borrow observer borrow
| Unborrow observer
| Return
| Panic

definition is_round :: "frame \<Rightarrow> bool" where
  "is_round f = (case f of Round _ \<Rightarrow> True | _ \<Rightarrow> False)"

definition is_drain :: "frame \<Rightarrow> bool" where
  "is_drain f = (case f of Drain _ _ \<Rightarrow> True | _ \<Rightarrow> False)"

definition is_updating :: "frame \<Rightarrow> bool" where
  "is_updating f = (case f of Updating _ \<Rightarrow> True | _ \<Rightarrow> False)"

definition unwind :: "world \<Rightarrow> world" where
  "unwind w = w\<lparr>depth := depth w - length (filter is_round (frames w)),
     draining := (draining w \<and> filter is_drain (frames w) = []), frames := []\<rparr>"

fun perform :: "(observer \<Rightarrow> bool) \<Rightarrow> action \<Rightarrow> world \<Rightarrow> (event list \<times> world) option" where
  "perform answer Create w = Some ([], w\<lparr>strong := insert (created w) (strong w), created := created w + 1\<rparr>)"
| "perform answer (Retain x) w = (if alive w x then Some ([], w\<lparr>strong := insert x (strong w)\<rparr>) else None)"
| "perform answer (Release x) w =
     (if x \<in> strong w \<and> outside w x = None then Some ([], w\<lparr>strong := strong w - {x}\<rparr>) else None)"
| "perform answer (Register ob x) w =
     (if alive w x then Some ([], snd (register_observer answer ob x w)) else None)"
| "perform answer (Unregister ob x) w =
     (if alive w x then Some ([], snd (unregister_observer ob x w)) else None)"
| "perform answer (Notify ob) w = Some (notify_observers ob w)"
| "perform answer (Deliver x) w = (if alive w x \<and> frames w \<noteq> [] then Some (deliver x w) else None)"
| "perform answer (Borrow x b) w =
     (if alive w x \<and> \<not> borrowed w x then Some ([], w\<lparr>outside := (outside w)(x \<mapsto> b)\<rparr>) else None)"
| "perform answer (Unborrow x) w =
     (if outside w x \<noteq> None then Some ([], w\<lparr>outside := (outside w)(x := None)\<rparr>) else None)"
| "perform answer Return w = (case frames w of Updating x # fs \<Rightarrow> Some ([], w\<lparr>frames := fs\<rparr>) | _ \<Rightarrow> None)"
| "perform answer Panic w = Some ([Panicked], unwind w)"

text \<open>Code outside the module runs when no frame does, or when the top frame is an update.\<close>

definition user_turn :: "world \<Rightarrow> bool" where
  "user_turn w = (case frames w of [] \<Rightarrow> True | f # fs \<Rightarrow> is_updating f)"

inductive step :: "(observer \<Rightarrow> bool) \<Rightarrow> world \<Rightarrow> event list \<Rightarrow> world \<Rightarrow> bool" for answer where
  user: "user_turn w \<Longrightarrow> perform answer a w = Some (es, w') \<Longrightarrow> step answer w es w'"
| machine: "machine_step w = Some (es, w') \<Longrightarrow> step answer w es w'"

inductive run :: "(observer \<Rightarrow> bool) \<Rightarrow> world \<Rightarrow> event list \<Rightarrow> world \<Rightarrow> bool" for answer w where
  run_nil: "run answer w [] w"
| run_step: "run answer w es v \<Longrightarrow> step answer v fs u \<Longrightarrow> run answer w (es @ fs) u"

text \<open>\<open>ResetThenNotify\<close>: its update runs the reset it was built with, which is the owner's, and hands
  the notification on.\<close>

datatype target = Broadcast observable | Deliver_To observer

primrec reset_then_notify :: "action list \<Rightarrow> target \<Rightarrow> action list" where
  "reset_then_notify reset (Broadcast ob) = reset @ [Notify ob]"
| "reset_then_notify reset (Deliver_To x) = reset @ [Deliver x]"

definition forwarding :: "observable \<Rightarrow> action list" where
  "forwarding ob = reset_then_notify [] (Broadcast ob)"

text \<open>A run in which every observer has a fixed update body and the outer code a fixed list of
  actions; \<open>scripts\<close> holds what is left of the running bodies, and the outer code catches a panic.\<close>

definition push_body :: "(observer \<Rightarrow> action list) \<Rightarrow> event list \<Rightarrow> action list list \<Rightarrow> action list list" where
  "push_body body es scripts = (case es of [Updates x] \<Rightarrow> body x # scripts | [Panicked] \<Rightarrow> [last scripts] | _ \<Rightarrow> scripts)"

definition exec_step ::
  "(observer \<Rightarrow> bool) \<Rightarrow> (observer \<Rightarrow> action list) \<Rightarrow> action list list \<Rightarrow> world \<Rightarrow>
   (event list \<times> action list list \<times> world) option" where
  "exec_step answer body scripts w = (case machine_step w of
     Some (es, w') \<Rightarrow> Some (es, push_body body es scripts, w')
   | None \<Rightarrow> (case scripts of
       [] \<Rightarrow> None
     | [] # rest \<Rightarrow> map_option (\<lambda>(es, w'). (es, rest, w')) (perform answer Return w)
     | (a # script) # rest \<Rightarrow>
         map_option (\<lambda>(es, w'). (es, push_body body es (script # rest), w')) (perform answer a w)))"

fun exec ::
  "(observer \<Rightarrow> bool) \<Rightarrow> (observer \<Rightarrow> action list) \<Rightarrow> nat \<Rightarrow> action list list \<Rightarrow> world \<Rightarrow> (event list \<times> world) option" where
  "exec answer body 0 scripts w = None"
| "exec answer body (Suc n) scripts w =
     (if frames w = [] \<and> scripts = [[]] then Some ([], w)
      else case exec_step answer body scripts w of None \<Rightarrow> None
        | Some (es, scripts', w') \<Rightarrow> map_option (map_prod ((@) es) id) (exec answer body n scripts' w'))"

end
