(* ===== verification/Observable_Laws.thy ===== *)
theory Observable_Laws
  imports Observable
begin

text \<open>
  The invariant of the notification machine, and what a run owes the observers it notified.
\<close>

section \<open>The invariant\<close>

fun wf_frames :: "frame list \<Rightarrow> bool" where
  "wf_frames [] \<longleftrightarrow> True"
| "wf_frames (f # fs) \<longleftrightarrow> wf_frames fs \<and> (is_drain f \<longrightarrow> fs = []) \<and> (is_updating f \<longrightarrow> fs \<noteq> [])"

fun updating :: "frame list \<Rightarrow> observer list" where
  "updating [] = []"
| "updating (Updating x # fs) = x # updating fs"
| "updating (_ # fs) = updating fs"

abbreviation rounds :: "frame list \<Rightarrow> nat" where "rounds fs \<equiv> length (filter is_round fs)"

definition machine_ok :: "world \<Rightarrow> bool" where
  "machine_ok w \<longleftrightarrow> wf_frames (frames w) \<and> depth w = rounds (frames w) \<and>
     (draining w \<longleftrightarrow> (\<exists>f\<in>set (frames w). is_drain f)) \<and>
     distinct (updating (frames w)) \<and> (\<forall>x\<in>set (updating (frames w)). outside w x = None)"

definition lists_ok :: "world \<Rightarrow> bool" where
  "lists_ok w \<longleftrightarrow> distinct (pending w) \<and> (\<forall>ob. distinct (map entry_observer (registry w ob))) \<and>
     (\<forall>b s. Drain b s \<in> set (frames w) \<longrightarrow> distinct b \<and> distinct s)"

definition alive_ok :: "world \<Rightarrow> bool" where
  "alive_ok w \<longleftrightarrow> (\<forall>x. alive w x \<longrightarrow> x < created w)"

lemma frame_kinds [simp]:
  "is_round (Round s)" "\<not> is_round (Updating x)" "\<not> is_round (Drain b st)"
  "is_drain (Drain b st)" "\<not> is_drain (Updating x)" "\<not> is_drain (Round s)"
  "is_updating (Updating x)" "\<not> is_updating (Round s)" "\<not> is_updating (Drain b st)"
  by (simp_all add: is_round_def is_drain_def is_updating_def)

lemma set_updating: "x \<in> set (updating fs) \<longleftrightarrow> Updating x \<in> set fs"
  by (induction fs rule: updating.induct) auto

text \<open>Every stack ends in a round or the drain, so a stack with neither is empty.\<close>

lemma only_updates: "wf_frames fs \<Longrightarrow> rounds fs = 0 \<Longrightarrow> \<not> (\<exists>f\<in>set fs. is_drain f) \<Longrightarrow> fs = []"
proof (induction fs)
  case (Cons f fs)
  then show ?case by (cases f) auto
qed simp

lemma not_borrowed: "\<not> borrowed w x \<Longrightarrow> outside w x = None \<and> x \<notin> set (updating (frames w))"
  by (auto simp: borrowed_def set_updating)

lemmas operation_defs = notify_observers_def deliver_def start_update_def defer_update_def
  register_observer_def unregister_observer_def unwind_def

lemma machine_ok_perform:
  assumes "machine_ok w" "user_turn w" "perform answer a w = Some (es, w')"
  shows "machine_ok w'"
proof -
  have "machine_ok w'" if "a = Return"
    using assms that by (auto simp: machine_ok_def split: list.splits frame.splits)
  moreover have "machine_ok w'" if "a = Deliver x" for x
    using assms that not_borrowed [of w x]
    by (auto simp: machine_ok_def operation_defs split: if_splits)
  moreover have "machine_ok w'" if "a = Borrow x b" for x b
    using assms that not_borrowed [of w x] by (auto simp: machine_ok_def split: if_splits)
  moreover have "machine_ok w'" if "a = Panic"
    using assms that by (auto simp: machine_ok_def operation_defs filter_empty_conv)
  ultimately show ?thesis
    using assms
    by (cases a) (auto simp: machine_ok_def operation_defs Let_def split: if_splits)
qed

text \<open>The eight things an iteration can do.\<close>

lemma machine_cases [consumes 1, case_names round_update round_busy round_end drain_dead drain_update
    drain_stall drain_batch drain_end]:
  assumes "machine_step w = Some (es, w')"
  obtains
    (round_update) x d rest fs where "frames w = Round ((x, d) # rest) # fs" "\<not> borrowed w x"
      "es = [Updates x]" "w' = w\<lparr>frames := Updating x # Round rest # fs\<rparr>"
  | (round_busy) x d rest fs where "frames w = Round ((x, d) # rest) # fs" "borrowed w x" "es = []"
      "w' = (if d then defer_update x (w\<lparr>frames := Round rest # fs\<rparr>) else w\<lparr>frames := Round rest # fs\<rparr>)"
  | (round_end) fs where "frames w = Round [] # fs" "es = []"
      "w' = (if depth w - 1 = 0 then drain_pending (w\<lparr>frames := fs, depth := depth w - 1\<rparr>)
             else w\<lparr>frames := fs, depth := depth w - 1\<rparr>)"
  | (drain_dead) x rest st fs where "frames w = Drain (x # rest) st # fs" "\<not> alive w x" "es = []"
      "w' = w\<lparr>frames := Drain rest st # fs\<rparr>"
  | (drain_update) x rest st fs where "frames w = Drain (x # rest) st # fs" "alive w x" "\<not> borrowed w x"
      "es = [Updates x]" "w' = w\<lparr>frames := Updating x # Drain rest st # fs\<rparr>"
  | (drain_stall) x rest st fs where "frames w = Drain (x # rest) st # fs" "alive w x" "borrowed w x"
      "es = [Stalled x]" "w' = w\<lparr>frames := Drain rest (if x \<in> set st then st else st @ [x]) # fs\<rparr>"
  | (drain_batch) st fs where "frames w = Drain [] st # fs" "pending w \<noteq> []" "es = []"
      "w' = w\<lparr>pending := [], frames := Drain (pending w) st # fs\<rparr>"
  | (drain_end) st fs where "frames w = Drain [] st # fs" "pending w = []" "es = []"
      "w' = w\<lparr>pending := st, draining := False, frames := fs\<rparr>"
proof -
  from assms consider (r) snapshot fs where "frames w = Round snapshot # fs" "round_step snapshot fs w = (es, w')"
    | (d) batch st fs where "frames w = Drain batch st # fs" "drain_step batch st fs w = (es, w')"
    by (auto simp: machine_step_def split: list.splits frame.splits)
  then show thesis
  proof cases
    case r
    then show thesis
      by (cases snapshot; cases "hd snapshot")
        (auto simp: round_step_def Let_def start_update_def intro: round_end round_update round_busy split: if_splits)
  next
    case d
    then show thesis
      by (cases batch) (auto simp: drain_step_def Let_def start_update_def split: if_splits
          intro: drain_dead drain_update drain_stall drain_batch drain_end)
  qed
qed

lemma machine_ok_step:
  assumes ok: "machine_ok w" and m: "machine_step w = Some (es, w')"
  shows "machine_ok w'"
  using m
proof (cases rule: machine_cases)
  case (round_end fs)
  then have "fs = []" if "depth w = 1" "\<not> (\<exists>f\<in>set fs. is_drain f)"
    using only_updates [of fs] ok that by (simp add: machine_ok_def)
  then show ?thesis using round_end ok by (auto simp: machine_ok_def drain_pending_def)
qed (use ok in \<open>auto simp: machine_ok_def defer_update_def dest!: not_borrowed\<close>)

lemma lists_ok_perform:
  assumes "lists_ok w" "perform answer a w = Some (es, w')"
  shows "lists_ok w'"
proof -
  have f: "distinct (map entry_observer (filter P (registry w ob)))" for P ob
    using assms(1) by (simp add: lists_ok_def distinct_map_filter)
  show ?thesis
    using assms f
    by (cases a) (auto simp: lists_ok_def operation_defs Let_def live_entries_def observer_entry_new_def
        split: if_splits frame.splits list.splits)
qed

lemma lists_ok_step:
  assumes ok: "lists_ok w" and m: "machine_step w = Some (es, w')"
  shows "lists_ok w'"
  using m
proof (cases rule: machine_cases)
  case (drain_stall x rest st fs)
  then have "distinct (x # rest)" "distinct st" using ok unfolding lists_ok_def by (metis list.set_intros(1))+
  then show ?thesis using drain_stall ok by (auto simp: lists_ok_def)
next
  case (drain_dead x rest st fs)
  then have "distinct (x # rest)" "distinct st" using ok unfolding lists_ok_def by (metis list.set_intros(1))+
  then show ?thesis using drain_dead ok by (auto simp: lists_ok_def)
next
  case (drain_update x rest st fs)
  then have "distinct (x # rest)" "distinct st" using ok unfolding lists_ok_def by (metis list.set_intros(1))+
  then show ?thesis using drain_update ok by (auto simp: lists_ok_def)
next
  case (drain_batch st fs)
  then have "distinct st" using ok unfolding lists_ok_def by (metis list.set_intros(1))
  then show ?thesis using drain_batch ok by (auto simp: lists_ok_def)
next
  case (drain_end st fs)
  then have "distinct st" using ok unfolding lists_ok_def by (metis list.set_intros(1))
  then show ?thesis using drain_end ok by (auto simp: lists_ok_def)
qed (use ok in \<open>auto simp: lists_ok_def defer_update_def drain_pending_def\<close>)

text \<open>An observer that exists and is not alive never comes back.\<close>

lemma alive_simps [simp]:
  "alive (registry_update r w) x = alive w x" "alive (pending_update p w) x = alive w x"
  "alive (depth_update n w) x = alive w x" "alive (draining_update d w) x = alive w x"
  "alive (outside_update b w) x = alive w x" "alive (created_update c w) x = alive w x"
  "alive (defer_update y w) x = alive w x" "alive (snd (register_observer answer ob y w)) x = alive w x"
  "alive (snd (unregister_observer ob y w)) x = alive w x"
  by (simp_all add: alive_def defer_update_def register_observer_def unregister_observer_def Let_def)

lemma alive_frames: "alive (frames_update f w) x \<longleftrightarrow> x \<in> strong w \<or> (\<exists>f\<in>set (f (frames w)). x \<in> frame_refs f)"
  by (simp add: alive_def)

lemma alive_strong: "alive (strong_update f w) x \<longleftrightarrow> x \<in> f (strong w) \<or> (\<exists>f\<in>set (frames w). x \<in> frame_refs f)"
  by (simp add: alive_def)

lemma aliveI [intro]: "x \<in> strong w \<Longrightarrow> alive w x" "f \<in> set (frames w) \<Longrightarrow> x \<in> frame_refs f \<Longrightarrow> alive w x"
  by (auto simp: alive_def)

lemma created_perform: "perform answer a w = Some (es, w') \<Longrightarrow> created w \<le> created w'"
  by (cases a) (auto simp: operation_defs Let_def split: if_splits frame.splits list.splits)

lemma alive_perform:
  assumes "perform answer a w = Some (es, w')" "alive w' x"
  shows "alive w x \<or> x = created w \<and> created w < created w'"
proof -
  have "alive w x" if "a = Return"
    using assms that by (auto simp: alive_def split: list.splits frame.splits)
  moreover have "alive w x" if "a = Notify ob" for ob
    using assms that by (auto simp: notify_observers_def Let_def live_entries_def alive_frames)
  moreover have "alive w x" if "a = Panic"
    using assms that by (auto simp: unwind_def alive_frames alive_def)
  ultimately show ?thesis
    using assms by (cases a) (auto simp: deliver_def start_update_def alive_strong alive_frames split: if_splits)
qed

lemma alive_step:
  assumes "machine_step w = Some (es, w')" "alive w' x"
  shows "alive w x"
  using assms
  by (cases rule: machine_cases) (auto simp: alive_def defer_update_def drain_pending_def split: if_splits)

lemma created_step:
  assumes "machine_step w = Some (es, w')"
  shows "created w' = created w"
  using assms by (cases rule: machine_cases) (auto simp: defer_update_def drain_pending_def)

section \<open>Runs\<close>

definition registered_ok :: "world \<Rightarrow> bool" where
  "registered_ok w \<longleftrightarrow> (\<forall>ob. \<forall>e\<in>set (registry w ob). entry_observer e < created w)"

lemma registered_ok_perform:
  assumes "registered_ok w" "alive_ok w" "perform answer a w = Some (es, w')"
  shows "registered_ok w'"
  using assms
  by (cases a) (fastforce simp: registered_ok_def operation_defs Let_def live_entries_def observer_entry_new_def
      alive_ok_def split: if_splits frame.splits list.splits)+

lemma registered_ok_machine:
  assumes "registered_ok w" "machine_step w = Some (es, w')"
  shows "registered_ok w'"
  using assms(2,1)
  by (cases rule: machine_cases) (auto simp: registered_ok_def defer_update_def drain_pending_def)

definition world_ok :: "world \<Rightarrow> bool" where
  "world_ok w \<longleftrightarrow> machine_ok w \<and> lists_ok w \<and> alive_ok w \<and> registered_ok w"

lemma world_ok_new: "world_ok new_world"
  by (simp add: world_ok_def machine_ok_def lists_ok_def alive_ok_def registered_ok_def alive_def new_world_def)

lemma world_ok_perform:
  assumes "perform answer a w = Some (es, w')" "user_turn w" "world_ok w"
  shows "world_ok w'"
proof -
  have "alive_ok w'"
    using alive_perform [OF assms(1)] created_perform [OF assms(1)] assms(3) by (fastforce simp: world_ok_def alive_ok_def)
  then show ?thesis
    using machine_ok_perform [OF _ assms(2,1)] lists_ok_perform [OF _ assms(1)]
      registered_ok_perform [OF _ _ assms(1)] assms(3) by (simp add: world_ok_def)
qed

lemma world_ok_machine:
  assumes "machine_step w = Some (es, w')" "world_ok w"
  shows "world_ok w'"
  using machine_ok_step [OF _ assms(1)] lists_ok_step [OF _ assms(1)] alive_step [OF assms(1)]
    created_step [OF assms(1)] registered_ok_machine [OF _ assms(1)] assms(2)
  by (simp add: world_ok_def alive_ok_def)

lemma world_ok_step: "step answer w es w' \<Longrightarrow> world_ok w \<Longrightarrow> world_ok w'"
  by (induction rule: step.induct) (auto intro: world_ok_perform world_ok_machine)

lemma world_ok_run: "run answer w es v \<Longrightarrow> world_ok w \<Longrightarrow> world_ok v"
  by (induction rule: run.induct) (auto intro: world_ok_step)

text \<open>Who a run owes an update: a round owes one to every observer of its snapshot whose entry asks
  for a replay; starting the update settles it, and an observer that the drain finds borrowed by
  outside code is left to a later notification.\<close>

fun owe :: "event \<Rightarrow> observer set \<Rightarrow> observer set" where
  "owe (Notified snapshot) xs = xs \<union> {x. (x, True) \<in> set snapshot}"
| "owe (Updates x) xs = xs - {x}"
| "owe (Stalled x) xs = xs - {x}"
| "owe Panicked xs = {}"

abbreviation owed :: "event list \<Rightarrow> observer set" where "owed es \<equiv> fold owe es {}"

primrec frame_waiting :: "frame \<Rightarrow> observer set" where
  "frame_waiting (Updating x) = {}"
| "frame_waiting (Round snapshot) = {x. (x, True) \<in> set snapshot}"
| "frame_waiting (Drain batch stalled) = set batch"

definition waiting :: "world \<Rightarrow> observer set" where
  "waiting w = set (pending w) \<union> (\<Union>f\<in>set (frames w). frame_waiting f)"

definition owed_ok :: "observer set \<Rightarrow> world \<Rightarrow> bool" where
  "owed_ok xs w \<longleftrightarrow> (\<forall>x\<in>xs. x < created w \<and> (alive w x \<longrightarrow> x \<in> waiting w \<and> frames w \<noteq> []))"

lemma waiting_simps [simp]:
  "waiting (registry_update r w) = waiting w" "waiting (depth_update n w) = waiting w"
  "waiting (draining_update d w) = waiting w" "waiting (outside_update b w) = waiting w"
  "waiting (strong_update q w) = waiting w" "waiting (created_update c w) = waiting w"
  "waiting (defer_update y w) = insert y (waiting w)"
  by (auto simp: waiting_def defer_update_def)

lemma owed_ok_machine:
  assumes ok: "owed_ok xs w" "machine_ok w" and m: "machine_step w = Some (es, w')"
  shows "owed_ok (fold owe es xs) w'"
proof -
  have *: "x \<in> waiting w'" if "x \<in> waiting w" "es \<noteq> [Updates x]" "es \<noteq> [Stalled x]" "alive w x" for x
    using m that
    by (cases rule: machine_cases) (auto simp: waiting_def defer_update_def drain_pending_def split: if_splits)
  have empty: "waiting w = {}" if "frames w' = []"
    using m that ok(2)
    by (cases rule: machine_cases)
      (auto simp: waiting_def defer_update_def drain_pending_def machine_ok_def split: if_splits)
  have settled: "fold owe es xs = (case es of [Updates x] \<Rightarrow> xs - {x} | [Stalled x] \<Rightarrow> xs - {x} | _ \<Rightarrow> xs)"
    using m by (cases rule: machine_cases) auto
  then have "x \<in> xs \<and> es \<noteq> [Updates x] \<and> es \<noteq> [Stalled x]" if "x \<in> fold owe es xs" for x
    using that by (auto split: list.splits event.splits)
  then show ?thesis
    using ok(1) * empty alive_step [OF m] created_step [OF m] unfolding owed_ok_def by (metis empty_iff)
qed

lemma owed_ok_perform:
  assumes ok: "owed_ok xs w" "world_ok w" and u: "user_turn w" and p: "perform answer a w = Some (es, w')"
  shows "owed_ok (fold owe es xs) w'"
proof -
  have alive: "alive w x" if "alive w' x" "x < created w" for x
    using alive_perform [OF p that(1)] that(2) by auto
  note created = created_perform [OF p]
  consider (notify) ob where "a = Notify ob" | (deliver) y where "a = Deliver y" | (panic) "a = Panic" | (ret) "a = Return"
    | (other) "frames w' = frames w" "pending w' = pending w" "es = []"
    using p by (cases a) (auto simp: operation_defs Let_def split: if_splits)
  then show ?thesis
  proof cases
    case notify
    define snapshot where "snapshot = map (\<lambda>e. (entry_observer e, defer_reentrant e)) (live_entries w ob)"
    have n: "es = [Notified snapshot]" "frames w' = Round snapshot # frames w" "pending w' = pending w"
      "created w' = created w"
      using p notify by (auto simp: notify_observers_def Let_def snapshot_def)
    have "x < created w" if "(x, True) \<in> set snapshot" for x
      using that ok(2) by (auto simp: snapshot_def live_entries_def world_ok_def alive_ok_def)
    then show ?thesis using n ok(1) alive by (auto simp: owed_ok_def waiting_def)
  next
    case deliver
    then have "frames w' \<noteq> []" using p by (auto simp: operation_defs split: if_splits)
    moreover have "x \<in> waiting w'" if "x \<in> waiting w" for x
      using that p deliver by (auto simp: operation_defs waiting_def split: if_splits)
    moreover have "fold owe es xs \<subseteq> xs" using p deliver by (auto simp: operation_defs split: if_splits)
    ultimately show ?thesis using ok(1) alive created unfolding owed_ok_def by fastforce
  next
    case panic
    then show ?thesis using p by (auto simp: owed_ok_def)
  next
    case ret
    then obtain x fs where r: "frames w = Updating x # fs" "w' = w\<lparr>frames := fs\<rparr>" "es = []"
      using p by (auto split: list.splits frame.splits)
    then have "fs \<noteq> []" using ok(2) by (simp add: world_ok_def machine_ok_def)
    then show ?thesis using r ok(1) alive by (auto simp: owed_ok_def waiting_def)
  next
    case other
    then show ?thesis using ok(1) alive created by (fastforce simp: owed_ok_def waiting_def)
  qed
qed

lemma owed_ok_run:
  assumes "run answer w es v" "world_ok w" "owed_ok {} w"
  shows "owed_ok (owed es) v"
  using assms(1)
proof (induction rule: run.induct)
  case (run_step es v fs u)
  note ok = run_step.IH world_ok_run [OF run_step.hyps(1) assms(2)]
  show ?case
    using run_step.hyps(2)
  proof cases
    case (user a)
    then show ?thesis using owed_ok_perform [OF ok user] by simp
  next
    case machine
    then show ?thesis using owed_ok_machine [OF ok(1) _ machine] ok(2) by (simp add: world_ok_def)
  qed
qed (simp add: assms(3))

lemma owed_after:
  "x \<in> xs \<Longrightarrow> Updates x \<notin> set es \<Longrightarrow> Stalled x \<notin> set es \<Longrightarrow> Panicked \<notin> set es \<Longrightarrow> x \<in> fold owe es xs"
proof (induction es arbitrary: xs)
  case (Cons e es)
  then show ?case by (cases e) auto
qed simp

end
