(* ===== verification/Observable_Properties.thy ===== *)
theory Observable_Properties
  imports Observable_Laws
begin

text \<open>
  What the observer registry and the notification rounds guarantee, for observers whose updates may
  do anything an observer can do.
\<close>

section \<open>Registration\<close>

definition live_observers :: "world \<Rightarrow> observable \<Rightarrow> observer set" where
  "live_observers w ob = {x. alive w x \<and> x \<in> entry_observer ` set (registry w ob)}"

lemma live_observers_entries: "live_observers w ob = entry_observer ` set (live_entries w ob)"
  by (auto simp: live_observers_def live_entries_def)

lemma live_observers_cong:
  "registry v ob = registry w ob \<Longrightarrow> alive v = alive w \<Longrightarrow> live_observers v ob = live_observers w ob"
  by (simp add: live_observers_def)

lemma live_observers_register:
  assumes "alive w x"
  shows "live_observers (snd (register_observer answer ob x w)) ob' =
    (if ob' = ob then insert x (live_observers w ob) else live_observers w ob')"
  using assms by (auto simp: live_observers_def)
    (auto simp: register_observer_def Let_def live_entries_def observer_entry_new_def split: if_splits)

lemma live_observers_unregister:
  assumes "alive w x"
  shows "live_observers (snd (unregister_observer ob x w)) ob' =
    (if ob' = ob then live_observers w ob - {x} else live_observers w ob')"
  by (auto simp: live_observers_def) (auto simp: unregister_observer_def split: if_splits)

text \<open>C14. The registry is the set of live observers of the C++ code: registering inserts an observer and
  tells whether it was absent, unregistering removes it and tells whether it was present, neither
  touches another observable, and a notification goes once to each live observer and to nobody else.\<close>

theorem registry_is_a_set_of_live_observers:
  assumes "run answer new_world es w" "alive w x"
  shows "fst (register_observer answer ob x w) = (x \<notin> live_observers w ob) \<and>
    live_observers (snd (register_observer answer ob x w)) ob' =
      (if ob' = ob then insert x (live_observers w ob) else live_observers w ob') \<and>
    fst (unregister_observer ob x w) = (x \<in> live_observers w ob) \<and>
    live_observers (snd (unregister_observer ob x w)) ob' =
      (if ob' = ob then live_observers w ob - {x} else live_observers w ob') \<and>
    (\<exists>snapshot. fst (notify_observers ob w) = [Notified snapshot] \<and> distinct (map fst snapshot) \<and>
      fst ` set snapshot = live_observers w ob)"
proof -
  have ok: "lists_ok w" using world_ok_run [OF assms(1) world_ok_new] by (simp add: world_ok_def)
  have d: "distinct (map entry_observer (live_entries w ob))"
    using ok by (simp add: lists_ok_def live_entries_def distinct_map_filter)
  have "fst (register_observer answer ob x w) = (x \<notin> live_observers w ob)"
    by (simp add: register_observer_def Let_def live_observers_entries)
  moreover have "fst (unregister_observer ob x w) = (x \<in> live_observers w ob)"
    using assms(2) by (simp add: unregister_observer_def live_observers_def)
  ultimately show ?thesis
    using d live_observers_register [OF assms(2)] live_observers_unregister [OF assms(2)]
    by (simp add: notify_observers_def Let_def live_observers_entries comp_def image_image)
qed

section \<open>Runs of scripts\<close>

lemma run_trans: "run answer v fs u \<Longrightarrow> run answer w es v \<Longrightarrow> run answer w (es @ fs) u"
proof (induction rule: run.induct)
  case (run_step fs v' gs u)
  then show ?case using run.run_step [of answer w "es @ fs" v' gs u] by simp
qed simp

lemma run_Cons: "step answer w es v \<Longrightarrow> run answer v fs u \<Longrightarrow> run answer w (es @ fs) u"
  using run_trans [of answer v fs u w es] run.run_step [OF run_nil, of answer w es v] by simp

lemma user_turn_iff: "machine_step w = None \<longleftrightarrow> user_turn w"
  by (auto simp: machine_step_def user_turn_def split: list.splits frame.splits)

lemma exec_step_sound: "exec_step answer body scripts w = Some (es, scripts', w') \<Longrightarrow> step answer w es w'"
  using user_turn_iff [of w]
  by (auto simp: exec_step_def intro: machine user simp del: perform.simps split: option.splits list.splits)

lemma exec_sound: "exec answer body n scripts w = Some (es, w') \<Longrightarrow> run answer w es w' \<and> frames w' = []"
proof (induction n arbitrary: scripts w es)
  case (Suc n)
  then show ?case
    by (auto simp: run_nil split: if_splits option.splits) (meson exec_step_sound run_Cons)+
qed simp

section \<open>Delivery\<close>

text \<open>C12. No notification is lost. When the stack is empty again after a round, every observer that was
  registered and live when the round started, whose entry asks for a replay, and that still lives,
  has been updated since, whatever the updates in between registered, dropped or notified, unless
  code outside any update kept it borrowed or a panic unwound the stack.\<close>

theorem notifications_are_delivered:
  assumes "run answer new_world es w" "frames w = []"
    and "es = es1 @ Notified snapshot # es2" "(x, True) \<in> set snapshot" "alive w x"
    and "Stalled x \<notin> set es2" "Panicked \<notin> set es2"
  shows "Updates x \<in> set es2"
proof (rule ccontr)
  assume "Updates x \<notin> set es2"
  then have "x \<in> owed es" using assms(3,4,6,7) by (auto intro: owed_after)
  moreover have "owed_ok (owed es) w"
    using owed_ok_run [OF assms(1) world_ok_new] by (simp add: owed_ok_def)
  ultimately show False using assms(2,5) by (simp add: owed_ok_def)
qed

text \<open>An observer that notifies the observable it is registered with while it updates: the re-entrant
  notification finds it busy and is replayed by the drain.\<close>

definition reentrant_body :: "observer \<Rightarrow> action list" where
  "reentrant_body x = [Notify 0, Unregister 0 x]"

lemma notifications_are_delivered_witness:
  "map_option fst (exec (\<lambda>_. True) reentrant_body 30 [[Create, Register 0 0, Notify 0]] new_world) =
     Some [Notified [(0, True)], Updates 0, Notified [(0, True)], Updates 0, Notified []] \<and>
   Updates 0 \<in> set [Updates 0, Notified []]"
proof -
  let ?run = "exec (\<lambda>_. True) reentrant_body 30 [[Create, Register 0 0, Notify 0]] new_world"
  let ?es = "[Notified [(0, True)], Updates 0, Notified [(0, True)], Updates 0, Notified []]"
  have e: "map_option (\<lambda>(es, w). (es, frames w, alive w 0)) ?run = Some (?es, [], True)"
    by code_simp
  then obtain w where w: "?run = Some (?es, w)" "alive w 0" by auto
  have "Updates 0 \<in> set [Updates 0, Notified []]"
    by (rule notifications_are_delivered [where ?es1.0 = "[Notified [(0, True)], Updates 0]" and snapshot = "[(0, True)]"])
      (use exec_sound [OF w(1)] w(2) in auto)
  then show ?thesis using w(1) by simp
qed

text \<open>C13. In every reachable state an observer is updated by at most one frame, the depth counter is the
  number of rounds on the stack, the drain latch is set exactly while the one drain is on it, and no
  observer is queued or registered twice. In particular both latches are clear whenever the stack
  is empty, after a panic as well.\<close>

theorem reentrancy_guards_hold:
  assumes "run answer new_world es w"
  shows "distinct (updating (frames w)) \<and> depth w = length (filter is_round (frames w)) \<and>
    length (filter is_drain (frames w)) = of_bool (draining w) \<and>
    distinct (pending w) \<and> distinct (map entry_observer (registry w ob))"
proof -
  have ok: "machine_ok w" "lists_ok w" using world_ok_run [OF assms world_ok_new] by (simp_all add: world_ok_def)
  have "wf_frames fs \<Longrightarrow> length (filter is_drain fs) = of_bool (\<exists>f\<in>set fs. is_drain f)" for fs
    by (induction fs) auto
  then show ?thesis using ok by (simp add: machine_ok_def lists_ok_def)
qed

lemma reentrancy_guards_hold_witness:
  "map_option fst (exec (\<lambda>_. True) (\<lambda>_. [Panic]) 30 [[Create, Register 0 0, Notify 0]] new_world) =
     Some [Notified [(0, True)], Updates 0, Panicked] \<and> (0::nat) = length []"
proof -
  let ?run = "exec (\<lambda>_. True) (\<lambda>_. [Panic]) 30 [[Create, Register 0 0, Notify 0]] new_world"
  have "map_option (\<lambda>(es, w). (es, frames w, depth w)) ?run = Some ([Notified [(0, True)], Updates 0, Panicked], [], 0)"
    by code_simp
  then obtain w where w: "?run = Some ([Notified [(0, True)], Updates 0, Panicked], w)" "frames w = []" "depth w = 0"
    by auto
  from reentrancy_guards_hold [OF conjunct1 [OF exec_sound [OF w(1)]], of 0]
  have "depth w = length (filter is_round (frames w))" by blast
  then show ?thesis using w by simp
qed

lemma registry_is_a_set_of_live_observers_witness:
  "fst (register_observer (\<lambda>_. True) 0 0 (snd (the (perform (\<lambda>_. True) Create new_world))))"
proof -
  let ?w = "snd (the (perform (\<lambda>_. True) Create new_world))"
  have "run (\<lambda>_. True) new_world ([] @ []) ?w"
    by (rule run_step [OF run_nil user [where a = Create]]) (simp_all add: user_turn_def new_world_def)
  moreover have "alive ?w 0" "0 \<notin> live_observers ?w 0"
    by (simp_all add: live_observers_def new_world_def alive_def)
  ultimately show ?thesis
    using registry_is_a_set_of_live_observers [of "\<lambda>_. True" "[] @ []" ?w 0 0 0] by blast
qed

end
