(* ===== verification/Handles.thy ===== *)
theory Handles
  imports Observable_Properties
begin

text \<open>
  \<open>handle.rs\<close>: the relinkable link behind every handle. A link observes its pointee through a private
  forwarder, which hands notifications on to the link's own observable; all copies of a handle share
  the link. A pointee is named by a number; its observable is a parameter \<open>observable_of\<close>, and
  \<open>live\<close> is the set of the pointees that something still owns.
\<close>

section \<open>The code\<close>

type_synonym pointee = nat

record link =
  link_current :: "pointee option"
  link_weak_slot :: "pointee option"
  link_observable :: observable
  link_forwarder :: observer

text \<open>A link holds its forwarder strongly, and so does a world in which the link exists.\<close>

type_synonym linked = "link \<times> world"

definition resolved :: "pointee set \<Rightarrow> link \<Rightarrow> pointee option" where
  "resolved live l = (case link_current l of
     Some p \<Rightarrow> Some p
   | None \<Rightarrow> (case link_weak_slot l of None \<Rightarrow> None | Some p \<Rightarrow> if p \<in> live then Some p else None))"

definition link_is_empty :: "pointee set \<Rightarrow> link \<Rightarrow> bool" where
  "link_is_empty live l \<longleftrightarrow> resolved live l = None"

definition drop_subscription :: "(pointee \<Rightarrow> observable) \<Rightarrow> linked \<Rightarrow> world" where
  "drop_subscription observable_of lw = (case lw of (l, w) \<Rightarrow> case link_current l of
     None \<Rightarrow> w
   | Some old \<Rightarrow> snd (unregister_observer (observable_of old) (link_forwarder l) w))"

definition link_to :: "(observer \<Rightarrow> bool) \<Rightarrow> (pointee \<Rightarrow> observable) \<Rightarrow> pointee option \<Rightarrow> linked \<Rightarrow> linked" where
  "link_to answer observable_of p lw = (case lw of (l, w) \<Rightarrow>
     let w = drop_subscription observable_of (l, w);
         w = (case p of None \<Rightarrow> w
              | Some new \<Rightarrow> snd (register_observer answer (observable_of new) (link_forwarder l) w))
     in (l\<lparr>link_current := p, link_weak_slot := None\<rparr>, w))"

definition link_weak :: "(pointee \<Rightarrow> observable) \<Rightarrow> pointee \<Rightarrow> linked \<Rightarrow> linked" where
  "link_weak observable_of p lw = (case lw of (l, w) \<Rightarrow>
     (l\<lparr>link_current := None, link_weak_slot := Some p\<rparr>, drop_subscription observable_of (l, w)))"

definition link_unregistered :: "(pointee \<Rightarrow> observable) \<Rightarrow> pointee \<Rightarrow> linked \<Rightarrow> linked" where
  "link_unregistered observable_of p lw = (case lw of (l, w) \<Rightarrow>
     (l\<lparr>link_current := Some p, link_weak_slot := None\<rparr>, drop_subscription observable_of (l, w)))"

text \<open>\<open>Link::new\<close> creates the link's observable \<open>ob\<close> and its forwarder.\<close>

definition link_new ::
  "(observer \<Rightarrow> bool) \<Rightarrow> (pointee \<Rightarrow> observable) \<Rightarrow> observable \<Rightarrow> pointee option \<Rightarrow> world \<Rightarrow> linked" where
  "link_new answer observable_of ob p w =
     (let f = created w;
          w = w\<lparr>strong := insert f (strong w), created := f + 1\<rparr>
      in link_to answer observable_of p
           (\<lparr>link_current = None, link_weak_slot = None, link_observable = ob, link_forwarder = f\<rparr>, w))"

definition handle_empty :: "(observer \<Rightarrow> bool) \<Rightarrow> (pointee \<Rightarrow> observable) \<Rightarrow> observable \<Rightarrow> world \<Rightarrow> linked" where
  "handle_empty answer observable_of ob w = link_new answer observable_of ob None w"

definition handle_new ::
  "(observer \<Rightarrow> bool) \<Rightarrow> (pointee \<Rightarrow> observable) \<Rightarrow> observable \<Rightarrow> pointee \<Rightarrow> world \<Rightarrow> linked" where
  "handle_new answer observable_of ob p w = link_new answer observable_of ob (Some p) w"

definition handle_new_unregistered ::
  "(observer \<Rightarrow> bool) \<Rightarrow> (pointee \<Rightarrow> observable) \<Rightarrow> observable \<Rightarrow> pointee \<Rightarrow> world \<Rightarrow> linked" where
  "handle_new_unregistered answer observable_of ob p w =
     link_unregistered observable_of p (link_new answer observable_of ob None w)"

text \<open>\<open>None\<close> is the error of an empty handle.\<close>

definition current_link :: "pointee set \<Rightarrow> link \<Rightarrow> pointee option" where
  "current_link live l = (if link_is_empty live l then None else resolved live l)"

definition handle_register :: "(observer \<Rightarrow> bool) \<Rightarrow> observer \<Rightarrow> linked \<Rightarrow> bool \<times> linked" where
  "handle_register answer x lw = (case lw of (l, w) \<Rightarrow>
     map_prod id (Pair l) (register_observer answer (link_observable l) x w))"

definition handle_unregister :: "observer \<Rightarrow> linked \<Rightarrow> bool \<times> linked" where
  "handle_unregister x lw = (case lw of (l, w) \<Rightarrow>
     map_prod id (Pair l) (unregister_observer (link_observable l) x w))"

text \<open>Relinking notifies after the link is released.\<close>

definition notify_link :: "linked \<Rightarrow> event list \<times> linked" where
  "notify_link lw = (case lw of (l, w) \<Rightarrow> map_prod id (Pair l) (notify_observers (link_observable l) w))"

definition relink_to ::
  "(observer \<Rightarrow> bool) \<Rightarrow> (pointee \<Rightarrow> observable) \<Rightarrow> pointee \<Rightarrow> linked \<Rightarrow> event list \<times> linked" where
  "relink_to answer observable_of p lw = notify_link (link_to answer observable_of (Some p) lw)"

definition relink_to_weak :: "(pointee \<Rightarrow> observable) \<Rightarrow> pointee \<Rightarrow> linked \<Rightarrow> event list \<times> linked" where
  "relink_to_weak observable_of p lw = notify_link (link_weak observable_of p lw)"

definition relink_reset :: "(observer \<Rightarrow> bool) \<Rightarrow> (pointee \<Rightarrow> observable) \<Rightarrow> linked \<Rightarrow> event list \<times> linked" where
  "relink_reset answer observable_of lw = notify_link (link_to answer observable_of None lw)"

section \<open>Histories of a relinkable handle\<close>

datatype relink_op = Relink_To pointee | Relink_Weak pointee | Relink_Reset

fun relink ::
  "(observer \<Rightarrow> bool) \<Rightarrow> (pointee \<Rightarrow> observable) \<Rightarrow> relink_op \<Rightarrow> linked \<Rightarrow> event list \<times> linked" where
  "relink answer observable_of (Relink_To p) lw = relink_to answer observable_of p lw"
| "relink answer observable_of (Relink_Weak p) lw = relink_to_weak observable_of p lw"
| "relink answer observable_of Relink_Reset lw = relink_reset answer observable_of lw"

text \<open>An action of other code, which has no access to the forwarder.\<close>

definition foreign :: "observer \<Rightarrow> action \<Rightarrow> bool" where
  "foreign f a = (case a of Register ob x \<Rightarrow> x \<noteq> f | Unregister ob x \<Rightarrow> x \<noteq> f | Release x \<Rightarrow> x \<noteq> f | _ \<Rightarrow> True)"

text \<open>The pointee that the handle observes after the last relink is the third component.\<close>

inductive handle_run ::
  "(observer \<Rightarrow> bool) \<Rightarrow> (pointee \<Rightarrow> observable) \<Rightarrow> linked \<Rightarrow> pointee option \<Rightarrow> bool" for answer observable_of where
  fresh_empty: "run answer new_world es w \<Longrightarrow> user_turn w \<Longrightarrow>
    handle_run answer observable_of (handle_empty answer observable_of ob w) None"
| fresh: "run answer new_world es w \<Longrightarrow> user_turn w \<Longrightarrow>
    handle_run answer observable_of (handle_new answer observable_of ob p w) (Some p)"
| fresh_unregistered: "run answer new_world es w \<Longrightarrow> user_turn w \<Longrightarrow>
    handle_run answer observable_of (handle_new_unregistered answer observable_of ob p w) None"
| relinked: "handle_run answer observable_of lw q \<Longrightarrow> user_turn (snd lw) \<Longrightarrow>
    relink answer observable_of r lw = (es, lw') \<Longrightarrow>
    handle_run answer observable_of lw' (case r of Relink_To p \<Rightarrow> Some p | _ \<Rightarrow> None)"
| other: "handle_run answer observable_of (l, w) q \<Longrightarrow> user_turn w \<Longrightarrow> foreign (link_forwarder l) a \<Longrightarrow>
    perform answer a w = Some (es, w') \<Longrightarrow> handle_run answer observable_of (l, w') q"
| machine: "handle_run answer observable_of (l, w) q \<Longrightarrow> machine_step w = Some (es, w') \<Longrightarrow>
    handle_run answer observable_of (l, w') q"

definition subscribed :: "linked \<Rightarrow> observable set" where
  "subscribed lw = {ob. link_forwarder (fst lw) \<in> live_observers (snd lw) ob}"

definition link_ok :: "(pointee \<Rightarrow> observable) \<Rightarrow> linked \<Rightarrow> pointee option \<Rightarrow> bool" where
  "link_ok observable_of lw q \<longleftrightarrow>
     link_forwarder (fst lw) \<in> strong (snd lw) \<and> subscribed lw = observable_of ` set_option q \<and>
     (q = None \<or> link_current (fst lw) = q) \<and> world_ok (snd lw)"

section \<open>The subscription\<close>

lemma drop_subscription_facts:
  assumes "link_ok observable_of (l, w) q" "user_turn w"
  shows "subscribed (l, drop_subscription observable_of (l, w)) = {}"
    "strong (drop_subscription observable_of (l, w)) = strong w" "world_ok (drop_subscription observable_of (l, w))"
    "user_turn (drop_subscription observable_of (l, w))"
proof -
  let ?f = "link_forwarder l" and ?w = "drop_subscription observable_of (l, w)"
  have f: "?f \<in> strong w" "world_ok w" using assms by (simp_all add: link_ok_def)
  then have a: "alive w ?f" by blast
  show "strong ?w = strong w" "user_turn ?w"
    using assms(2) by (auto simp: drop_subscription_def unregister_observer_def user_turn_def split: option.split)
  show "subscribed (l, ?w) = {}"
    using assms a
    by (cases "link_current l")
      (auto simp: drop_subscription_def subscribed_def link_ok_def live_observers_unregister [OF a] split: if_splits)
  show "world_ok ?w"
  proof (cases "link_current l")
    case (Some p)
    have "perform (\<lambda>_. True) (Unregister (observable_of p) ?f) w = Some ([], ?w)"
      using a by (simp add: drop_subscription_def Some)
    from world_ok_perform [OF this assms(2) f(2)] show ?thesis .
  qed (simp add: drop_subscription_def f)
qed

lemma link_ok_link_to:
  assumes "link_ok observable_of (l, w) q" "user_turn w"
  shows "link_ok observable_of (link_to answer observable_of p (l, w)) p \<and>
    user_turn (snd (link_to answer observable_of p (l, w)))"
proof -
  let ?f = "link_forwarder l" and ?w = "drop_subscription observable_of (l, w)"
  note d = drop_subscription_facts [OF assms]
  have f: "?f \<in> strong ?w" using assms(1) d(2) by (simp add: link_ok_def)
  then have a: "alive ?w ?f" by blast
  show ?thesis
  proof (cases p)
    case None
    then show ?thesis using d f by (simp add: link_to_def link_ok_def subscribed_def)
  next
    case (Some new)
    let ?v = "snd (register_observer answer (observable_of new) ?f ?w)"
    have "perform answer (Register (observable_of new) ?f) ?w = Some ([], ?v)" using a by simp
    from world_ok_perform [OF this d(4,3)] have "world_ok ?v" .
    moreover have "strong ?v = strong ?w" "frames ?v = frames ?w" by (simp_all add: register_observer_def Let_def)
    moreover have "subscribed (l, ?v) = {observable_of new}"
      using d(1) by (auto simp: subscribed_def live_observers_register [OF a])
    ultimately show ?thesis using Some f d(4) by (simp add: link_to_def link_ok_def subscribed_def user_turn_def)
  qed
qed

lemma link_ok_drop:
  assumes "link_ok observable_of (l, w) q" "user_turn w"
  shows "link_ok observable_of (link_weak observable_of p (l, w)) None"
    "link_ok observable_of (link_unregistered observable_of p (l, w)) None"
    "user_turn (snd (link_weak observable_of p (l, w)))"
  using drop_subscription_facts [OF assms] assms(1)
  by (auto simp: link_weak_def link_unregistered_def link_ok_def subscribed_def)

lemma link_ok_notify:
  assumes "link_ok observable_of (l, w) q" "user_turn w"
  shows "link_ok observable_of (snd (notify_link (l, w))) q"
proof -
  let ?v = "snd (notify_observers (link_observable l) w)"
  have "perform answer (Notify (link_observable l)) w = Some (fst (notify_observers (link_observable l) w), ?v)"
    for answer :: "observer \<Rightarrow> bool" by simp
  from world_ok_perform [OF this assms(2)] have "world_ok ?v" using assms(1) by (simp add: link_ok_def)
  moreover have "strong ?v = strong w" by (simp add: notify_observers_def Let_def)
  moreover have "alive ?v x = alive w x" for x
    by (auto simp: notify_observers_def Let_def live_entries_def alive_frames) (auto simp: alive_def [of w x])
  then have "live_observers ?v ob = live_observers w ob" for ob
    by (auto simp: live_observers_def) (auto simp: notify_observers_def Let_def live_entries_def split: if_splits)
  ultimately show ?thesis using assms(1) by (simp add: notify_link_def link_ok_def subscribed_def)
qed

lemma link_ok_relink:
  assumes "link_ok observable_of lw q" "user_turn (snd lw)" "relink answer observable_of r lw = (es, lw')"
  shows "link_ok observable_of lw' (case r of Relink_To p \<Rightarrow> Some p | _ \<Rightarrow> None)"
proof -
  obtain l w where lw: "lw = (l, w)" by (cases lw)
  note ok = assms(1,2)[unfolded lw snd_conv]
  have n: "link_ok observable_of (snd (notify_link v)) q'" if "link_ok observable_of v q'" "user_turn (snd v)" for v q'
    using link_ok_notify that by (cases v) auto
  show ?thesis
  proof (cases r)
    case (Relink_To p)
    then have "lw' = snd (notify_link (link_to answer observable_of (Some p) (l, w)))"
      using assms(3) by (simp add: lw relink_to_def)
    then show ?thesis using n link_ok_link_to [OF ok, of answer "Some p"] Relink_To by simp
  next
    case (Relink_Weak p)
    then have "lw' = snd (notify_link (link_weak observable_of p (l, w)))"
      using assms(3) by (simp add: lw relink_to_weak_def)
    then show ?thesis using n link_ok_drop [OF ok, of p] Relink_Weak by simp
  next
    case Relink_Reset
    then have "lw' = snd (notify_link (link_to answer observable_of None (l, w)))"
      using assms(3) by (simp add: lw relink_reset_def)
    then show ?thesis using n link_ok_link_to [OF ok, of answer None] Relink_Reset by simp
  qed
qed

lemma link_ok_new:
  assumes "run answer new_world es w" "user_turn w"
  shows "link_ok observable_of (link_new answer observable_of ob p w) p \<and>
    user_turn (snd (link_new answer observable_of ob p w))"
proof -
  let ?l = "\<lparr>link_current = None, link_weak_slot = None, link_observable = ob, link_forwarder = created w\<rparr>"
  let ?w = "w\<lparr>strong := insert (created w) (strong w), created := created w + 1\<rparr>"
  have ok: "world_ok w" using world_ok_run [OF assms(1) world_ok_new] .
  have "perform answer Create w = Some ([], ?w)" by simp
  from world_ok_perform [OF this assms(2) ok] have "world_ok ?w" .
  moreover have "created w \<notin> live_observers ?w ob'" for ob'
    using ok by (fastforce simp: world_ok_def registered_ok_def live_observers_def)
  ultimately have "link_ok observable_of (?l, ?w) None" "user_turn ?w"
    using assms(2) by (simp_all add: link_ok_def subscribed_def user_turn_def)
  from link_ok_link_to [OF this] show ?thesis by (simp add: link_new_def Let_def)
qed

lemma foreign_keeps:
  assumes "foreign f a" "perform answer a w = Some (es, w')" "f \<in> strong w"
  shows "f \<in> strong w'" "f \<in> live_observers w' ob \<longleftrightarrow> f \<in> live_observers w ob"
proof -
  show s: "f \<in> strong w'"
    using assms by (cases a) (auto simp: foreign_def operation_defs Let_def split: if_splits frame.splits list.splits)
  have a: "alive w f" "alive w' f" using s assms(3) by blast+
  have "f \<in> entry_observer ` set (registry w' ob) \<longleftrightarrow> f \<in> entry_observer ` set (registry w ob)"
    using assms(1,2) a(1)
    by (cases a) (auto simp: foreign_def operation_defs Let_def live_entries_def observer_entry_new_def
        split: if_splits frame.splits list.splits)
  then show "f \<in> live_observers w' ob \<longleftrightarrow> f \<in> live_observers w ob" using a by (simp add: live_observers_def)
qed

lemma machine_keeps:
  assumes "machine_step w = Some (es, w')"
  shows "strong w' = strong w" "registry w' = registry w"
  using assms by (cases rule: machine_cases; auto simp: defer_update_def drain_pending_def)+

lemma handle_run_ok: "handle_run answer observable_of lw q \<Longrightarrow> link_ok observable_of lw q"
proof (induction rule: handle_run.induct)
  case (fresh_empty es w ob)
  then show ?case using link_ok_new by (simp add: handle_empty_def)
next
  case (fresh es w ob p)
  then show ?case using link_ok_new by (simp add: handle_new_def)
next
  case (fresh_unregistered es w ob p)
  obtain l v where n: "link_new answer observable_of ob None w = (l, v)" by fastforce
  then show ?case
    using link_ok_new [OF fresh_unregistered, of observable_of ob None] link_ok_drop(2) [of observable_of l v None p]
    by (simp add: handle_new_unregistered_def)
next
  case (relinked lw q r es lw')
  then show ?case using link_ok_relink by blast
next
  case (other l w q a es w')
  then have "world_ok w'" using world_ok_perform [OF other(4,2)] by (simp add: link_ok_def)
  then show ?case using other foreign_keeps [OF other(3,4)] by (simp add: link_ok_def subscribed_def)
next
  case (machine l w q es w')
  have "alive w' (link_forwarder l)" "alive w (link_forwarder l)"
    using machine.IH machine_keeps [OF machine.hyps(2)] by (auto simp: link_ok_def)
  then show ?case
    using machine.IH machine_keeps [OF machine.hyps(2)] world_ok_machine [OF machine.hyps(2)]
    by (simp add: link_ok_def subscribed_def live_observers_def)
qed

section \<open>Properties\<close>

text \<open>C15. Relinking moves the subscription. Through any history of relinks, with other observers
  registering, dropping, notifying and panicking in between, a handle's forwarder is registered
  with the observable of the pointee it was last linked to, and with no other; it is registered
  nowhere while the handle is empty, weakly linked or built unregistered.\<close>

theorem relinking_moves_the_subscription:
  assumes "handle_run answer observable_of (l, w) q"
  shows "(link_forwarder l \<in> live_observers w ob \<longleftrightarrow> (\<exists>p. q = Some p \<and> ob = observable_of p)) \<and>
    (q \<noteq> None \<longrightarrow> current_link live l = q)"
proof -
  have ok: "link_ok observable_of (l, w) q" using handle_run_ok [OF assms] .
  then have "link_forwarder l \<in> live_observers w ob \<longleftrightarrow> ob \<in> observable_of ` set_option q"
    by (auto simp: link_ok_def subscribed_def)
  moreover have "current_link live l = q" if "q \<noteq> None"
    using ok that by (auto simp: link_ok_def current_link_def link_is_empty_def resolved_def)
  ultimately show ?thesis by (cases q) auto
qed

lemma relinking_moves_the_subscription_witness:
  "current_link {} (fst (snd (relink (\<lambda>_. True) (\<lambda>p. p + 1) (Relink_To 2) (handle_new (\<lambda>_. True) (\<lambda>p. p + 1) 0 1 new_world)))) = Some 2"
proof -
  let ?h = "handle_new (\<lambda>_. True) (\<lambda>p. p + 1) 0 1 new_world"
  obtain es l w where r: "relink (\<lambda>_. True) (\<lambda>p. p + 1) (Relink_To 2) ?h = (es, (l, w))" by (metis prod_cases3)
  have t: "user_turn new_world" by (simp add: user_turn_def new_world_def)
  have "user_turn (snd ?h)"
    using link_ok_new [OF run_nil t] by (simp add: handle_new_def)
  from handle_run.relinked [OF handle_run.fresh [OF run_nil t] this r]
  have "handle_run (\<lambda>_. True) (\<lambda>p. p + 1) (l, w) (Some 2)" by simp
  from relinking_moves_the_subscription [OF this, of _ "{}"] show ?thesis unfolding r fst_conv snd_conv by blast
qed

end
