(* ===== verification/Lazy_Object.thy ===== *)
theory Lazy_Object
  imports Prelude
begin

text \<open>
  \<open>patterns/lazyobject.rs\<close>: calculation on demand with a cached result. An operation is a function on
  the flags of the object; the boolean it returns says whether the caller goes on, that is whether
  the observers are notified, whether the computation runs, or whether the object was frozen.
  Notifying while the object's own flags are untouched is left to the caller, as the deferred
  operations of the code do it.
\<close>

section \<open>The code\<close>

record lazy_object =
  calculated :: bool
  frozen :: bool
  failed :: bool
  always_forward :: bool
  updating :: bool

definition lazy_new :: "bool \<Rightarrow> lazy_object" where
  "lazy_new forward =
     \<lparr>calculated = False, frozen = False, failed = False, always_forward = forward, updating = False\<rparr>"

definition is_calculated :: "lazy_object \<Rightarrow> bool" where
  "is_calculated lo = calculated lo"

definition forward_first_notification_only :: "lazy_object \<Rightarrow> lazy_object" where
  "forward_first_notification_only lo = lo\<lparr>always_forward := False\<rparr>"

definition always_forward_notifications :: "lazy_object \<Rightarrow> lazy_object" where
  "always_forward_notifications lo = lo\<lparr>always_forward := True\<rparr>"

text \<open>\<open>on_update\<close> holds the object mutably while its observers run, so that they cannot reach it; its
  guard clears \<open>updating\<close> on every exit, so the flag is clear afterwards.\<close>

definition on_update :: "lazy_object \<Rightarrow> bool \<times> lazy_object" where
  "on_update lo =
     (if updating lo then (False, lo)
      else let lo = lo\<lparr>updating := True\<rparr> in
        if calculated lo \<or> failed lo \<or> always_forward lo
        then let lo = lo\<lparr>calculated := False, failed := False\<rparr>
             in (\<not> frozen lo, lo\<lparr>updating := False\<rparr>)
        else (False, lo\<lparr>updating := False\<rparr>))"

text \<open>\<open>deferred_update\<close> hands back a guard (the result is \<open>True\<close>), which keeps \<open>updating\<close> set until it is
  dropped.\<close>

definition deferred_update :: "lazy_object \<Rightarrow> bool \<times> lazy_object" where
  "deferred_update lo =
     (if updating lo \<or> \<not> (calculated lo \<or> failed lo \<or> always_forward lo) then (False, lo)
      else let lo = lo\<lparr>updating := True, calculated := False, failed := False\<rparr> in
        if frozen lo then (False, lo\<lparr>updating := False\<rparr>) else (True, lo))"

definition drop_guard :: "lazy_object \<Rightarrow> lazy_object" where
  "drop_guard lo = lo\<lparr>updating := False\<rparr>"

definition mark_calculated :: "lazy_object \<Rightarrow> lazy_object" where
  "mark_calculated lo = lo\<lparr>calculated := True, failed := False\<rparr>"

definition invalidate_silently :: "lazy_object \<Rightarrow> lazy_object" where
  "invalidate_silently lo = lo\<lparr>calculated := False, failed := False\<rparr>"

definition start_calculation :: "lazy_object \<Rightarrow> bool \<times> lazy_object" where
  "start_calculation lo =
     (if calculated lo \<or> frozen lo then (False, lo) else (True, lo\<lparr>calculated := True\<rparr>))"

definition finish_calculation :: "'e + 'a \<Rightarrow> lazy_object \<Rightarrow> lazy_object" where
  "finish_calculation result lo = (case result of
     Inr _ \<Rightarrow> lo\<lparr>failed := False\<rparr>
   | Inl _ \<Rightarrow> lo\<lparr>calculated := False, failed := True\<rparr>)"

text \<open>\<open>calculate\<close> and \<open>recalculate\<close> with the outcome of the closure; the object is held mutably while
  the closure runs.\<close>

definition lazy_calculate :: "'e + unit \<Rightarrow> lazy_object \<Rightarrow> ('e + unit) \<times> lazy_object" where
  "lazy_calculate outcome lo =
     (let (run, lo) = start_calculation lo in
      if \<not> run then (Inr (), lo) else (outcome, finish_calculation outcome lo))"

definition start_recalculation :: "lazy_object \<Rightarrow> bool \<times> lazy_object" where
  "start_recalculation lo = (frozen lo, lo\<lparr>calculated := False, frozen := False, failed := False\<rparr>)"

definition finish_recalculation :: "bool \<Rightarrow> lazy_object \<Rightarrow> lazy_object" where
  "finish_recalculation was_frozen lo = lo\<lparr>frozen := was_frozen\<rparr>"

definition lazy_recalculate :: "'e + unit \<Rightarrow> lazy_object \<Rightarrow> ('e + unit) \<times> lazy_object" where
  "lazy_recalculate outcome lo =
     (let (was_frozen, lo) = start_recalculation lo; (result, lo) = lazy_calculate outcome lo
      in (result, finish_recalculation was_frozen lo))"

definition freeze :: "lazy_object \<Rightarrow> lazy_object" where
  "freeze lo = lo\<lparr>frozen := True\<rparr>"

definition deferred_unfreeze :: "lazy_object \<Rightarrow> bool \<times> lazy_object" where
  "deferred_unfreeze lo = (if frozen lo then (True, lo\<lparr>frozen := False\<rparr>) else (False, lo))"

section \<open>Histories\<close>

text \<open>The operations in the order a holder may call them; \<open>Finish_Calculation\<close> carries whether the
  computation succeeded.\<close>

datatype lazy_op =
  On_Update
| Deferred_Update
| Drop_Guard
| Mark_Calculated
| Invalidate_Silently
| Start_Calculation
| Finish_Calculation bool
| Start_Recalculation
| Finish_Recalculation bool
| Freeze
| Unfreeze
| Forward_First
| Forward_All

fun lazy_apply :: "lazy_op \<Rightarrow> lazy_object \<Rightarrow> bool \<times> lazy_object" where
  "lazy_apply On_Update lo = on_update lo"
| "lazy_apply Deferred_Update lo = deferred_update lo"
| "lazy_apply Drop_Guard lo = (False, drop_guard lo)"
| "lazy_apply Mark_Calculated lo = (False, mark_calculated lo)"
| "lazy_apply Invalidate_Silently lo = (False, invalidate_silently lo)"
| "lazy_apply Start_Calculation lo = start_calculation lo"
| "lazy_apply (Finish_Calculation ok) lo = (False, finish_calculation (if ok then Inr () else Inl ()) lo)"
| "lazy_apply Start_Recalculation lo = start_recalculation lo"
| "lazy_apply (Finish_Recalculation was_frozen) lo = (False, finish_recalculation was_frozen lo)"
| "lazy_apply Freeze lo = (False, freeze lo)"
| "lazy_apply Unfreeze lo = deferred_unfreeze lo"
| "lazy_apply Forward_First lo = (False, forward_first_notification_only lo)"
| "lazy_apply Forward_All lo = (False, always_forward_notifications lo)"

fun lazy_history :: "lazy_op list \<Rightarrow> lazy_object \<Rightarrow> (lazy_op \<times> bool) list \<times> lazy_object" where
  "lazy_history [] lo = ([], lo)"
| "lazy_history (op # ops) lo =
     (let (k, lo') = lazy_apply op lo; (log, lo'') = lazy_history ops lo' in ((op, k) # log, lo''))"

text \<open>What the entries of a log say.\<close>

definition computation_failed :: "lazy_op \<Rightarrow> bool" where
  "computation_failed op = (case op of Finish_Calculation ok \<Rightarrow> \<not> ok | _ \<Rightarrow> False)"

definition forwards_update :: "lazy_op \<times> bool \<Rightarrow> bool" where
  "forwards_update e \<longleftrightarrow> (fst e = On_Update \<or> fst e = Deferred_Update) \<and> snd e"

definition runs_computation :: "lazy_op \<times> bool \<Rightarrow> bool" where
  "runs_computation e \<longleftrightarrow> e = (Start_Calculation, True)"

definition invalidates :: "lazy_op \<times> bool \<Rightarrow> bool" where
  "invalidates e \<longleftrightarrow> fst e = On_Update \<or> fst e = Deferred_Update \<or> fst e = Invalidate_Silently \<or>
     fst e = Start_Recalculation \<or> computation_failed (fst e)"

definition arms :: "lazy_op \<times> bool \<Rightarrow> bool" where
  "arms e \<longleftrightarrow> e = (Start_Calculation, True) \<or> fst e = Mark_Calculated \<or> computation_failed (fst e)"

abbreviation occurrences :: "('a \<Rightarrow> bool) \<Rightarrow> 'a list \<Rightarrow> nat" where
  "occurrences P xs \<equiv> length (filter P xs)"

lemmas lazy_defs = on_update_def deferred_update_def drop_guard_def mark_calculated_def invalidate_silently_def
  start_calculation_def finish_calculation_def start_recalculation_def finish_recalculation_def freeze_def
  deferred_unfreeze_def forward_first_notification_only_def always_forward_notifications_def

lemmas log_defs = computation_failed_def forwards_update_def runs_computation_def invalidates_def arms_def

section \<open>Caching\<close>

lemma computation_bound_step:
  "lazy_apply op lo = (k, lo') \<Longrightarrow>
   of_bool (runs_computation (op, k)) + of_bool (\<not> calculated lo') \<le>
     (of_bool (\<not> calculated lo) + of_bool (invalidates (op, k)) :: nat)"
  by (cases op) (auto simp: lazy_defs log_defs Let_def split: if_splits sum.splits)

lemma computation_bound:
  "lazy_history ops lo = (log, lo') \<Longrightarrow>
   occurrences runs_computation log + of_bool (\<not> calculated lo') \<le>
     of_bool (\<not> calculated lo) + occurrences invalidates log"
proof (induction ops arbitrary: lo log)
  case (Cons op ops)
  then show ?case
    using computation_bound_step by (fastforce simp: Let_def split: prod.splits)
qed simp

lemma forwarding_bound_step:
  "lazy_apply op lo = (k, lo') \<Longrightarrow> \<not> always_forward lo \<Longrightarrow> op \<noteq> Forward_All \<Longrightarrow>
   \<not> always_forward lo' \<and>
   of_bool (forwards_update (op, k)) + of_bool (calculated lo' \<or> failed lo') \<le>
     (of_bool (calculated lo \<or> failed lo) + of_bool (arms (op, k)) :: nat)"
  by (cases op) (auto simp: lazy_defs log_defs Let_def split: if_splits sum.splits)

lemma forwarding_bound:
  "lazy_history ops lo = (log, lo') \<Longrightarrow> \<not> always_forward lo \<Longrightarrow> Forward_All \<notin> set ops \<Longrightarrow>
   occurrences forwards_update log \<le> of_bool (calculated lo \<or> failed lo) + occurrences arms log"
proof (induction ops arbitrary: lo log)
  case (Cons op ops)
  then show ?case
    using forwarding_bound_step by (fastforce simp: Let_def split: prod.splits)
qed simp

section \<open>Freezing and the recursion guard\<close>

fun thaws :: "lazy_op \<Rightarrow> bool" where
  "thaws Unfreeze = True"
| "thaws Start_Recalculation = True"
| "thaws (Finish_Recalculation was_frozen) = (\<not> was_frozen)"
| "thaws _ = False"

lemma frozen_step:
  "lazy_apply op lo = (k, lo') \<Longrightarrow> frozen lo \<Longrightarrow> \<not> thaws op \<Longrightarrow>
   frozen lo' \<and> \<not> forwards_update (op, k) \<and> \<not> runs_computation (op, k)"
  by (cases op) (auto simp: lazy_defs log_defs Let_def split: if_splits sum.splits)

lemma frozen_history:
  "lazy_history ops lo = (log, lo') \<Longrightarrow> frozen lo \<Longrightarrow> \<forall>op\<in>set ops. \<not> thaws op \<Longrightarrow>
   frozen lo' \<and> (\<forall>e\<in>set log. \<not> forwards_update e \<and> \<not> runs_computation e)"
proof (induction ops arbitrary: lo log)
  case (Cons op ops)
  then show ?case using frozen_step by (fastforce simp: Let_def split: prod.splits)
qed simp

lemma guarded_step:
  "lazy_apply op lo = (k, lo') \<Longrightarrow> updating lo \<Longrightarrow> op \<noteq> Drop_Guard \<Longrightarrow>
   updating lo' \<and> \<not> forwards_update (op, k) \<and> (op = On_Update \<or> op = Deferred_Update \<longrightarrow> lo' = lo)"
  by (cases op) (auto simp: lazy_defs log_defs Let_def split: if_splits sum.splits)

lemma guarded_history:
  "lazy_history ops lo = (log, lo') \<Longrightarrow> updating lo \<Longrightarrow> Drop_Guard \<notin> set ops \<Longrightarrow>
   updating lo' \<and> (\<forall>e\<in>set log. \<not> forwards_update e)"
proof (induction ops arbitrary: lo log)
  case (Cons op ops)
  then show ?case using guarded_step by (fastforce simp: Let_def split: prod.splits)
qed simp

section \<open>Properties\<close>

text \<open>Whatever the history of a lazy object, its computation runs at most once more than its result is
  invalidated (by an update, a silent invalidation, a forced recalculation or a failure), and, unless
  it forwards every notification, it forwards at most one update for each computation, direct mark
  or failure before it.\<close>

lemma computes_and_forwards_once:
  assumes "lazy_history ops (lazy_new False) = (log, lo)" "Forward_All \<notin> set ops"
  shows "occurrences runs_computation log \<le> 1 + occurrences invalidates log \<and>
    occurrences forwards_update log \<le> occurrences arms log"
  using computation_bound [OF assms(1)] forwarding_bound [OF assms(1) _ assms(2)]
  by (simp add: lazy_new_def)

text \<open>A frozen object neither computes nor forwards until it is unfrozen or recalculated, whatever it
  receives; and while a deferred notification is in progress no further update is forwarded, which
  breaks notification cycles.\<close>

lemma freezing_and_guard_silence:
  assumes "lazy_history ops lo = (log, lo')"
    and "frozen lo \<and> (\<forall>op\<in>set ops. \<not> thaws op) \<or> updating lo \<and> Drop_Guard \<notin> set ops"
  shows "(\<forall>e\<in>set log. \<not> forwards_update e) \<and>
    (frozen lo \<and> (\<forall>op\<in>set ops. \<not> thaws op) \<longrightarrow> (\<forall>e\<in>set log. \<not> runs_computation e))"
  using frozen_history [OF assms(1)] guarded_history [OF assms(1)] assms(2) by blast

end
