(* ===== verification/Instrument.thy ===== *)
theory Instrument
  imports Lazy_Object Dates
begin

text \<open>
  \<open>instrument.rs\<close>, on the traits of \<open>pricingengine.rs\<close>: the cached calculation of an instrument by its
  engine. The virtual methods of a concrete instrument and engine are the fields of a record, over
  the type \<open>'i\<close> of the market inputs they read, the type \<open>'e\<close> of the engine, and the types \<open>'v\<close> and \<open>'a\<close>
  of a price and of an additional result; \<open>'x\<close> is their error type. An engine may write back to an
  input the instrument observes, which then notifies the instrument in the middle of a calculation.
\<close>

section \<open>The code\<close>

datatype 'x instrument_error =
  Null_Pricing_Engine
| No_Results_Returned
| Not_Provided string
| Code_Error 'x

record ('v, 'a) instrument_results =
  res_value :: "'v option"
  res_error_estimate :: "'v option"
  res_valuation_date :: "date option"
  res_additional :: "string \<rightharpoonup> 'a"

definition results_reset :: "('v, 'a) instrument_results \<Rightarrow> ('v, 'a) instrument_results" where
  "results_reset r =
     r\<lparr>res_value := None, res_error_estimate := None, res_valuation_date := None, res_additional := Map.empty\<rparr>"

record ('i, 'e, 'v, 'a, 'x) instrument_code =
  code_is_expired :: "'i \<Rightarrow> 'x + bool"
  code_setup_arguments :: "'i \<Rightarrow> 'e \<Rightarrow> ('x + unit) \<times> 'e"
  engine_reset :: "'e \<Rightarrow> 'e"
  engine_validate :: "'e \<Rightarrow> 'x + unit"
  engine_calculate :: "'i \<Rightarrow> 'e \<Rightarrow> ('x + unit) \<times> 'e \<times> 'i option"
  engine_results :: "'e \<Rightarrow> ('v, 'a) instrument_results option"

record ('e, 'v, 'a) instrument_base =
  base_lazy :: lazy_object
  base_engine :: "'e option"
  base_results :: "('v, 'a) instrument_results"

definition empty_results :: "('v, 'a) instrument_results" where
  "empty_results = \<lparr>res_value = None, res_error_estimate = None, res_valuation_date = None, res_additional = Map.empty\<rparr>"

definition instrument_base_new :: "('e, 'v, 'a) instrument_base" where
  "instrument_base_new = \<lparr>base_lazy = lazy_new True, base_engine = None, base_results = empty_results\<rparr>"

text \<open>The observer half: the guard lives while the instrument's own observers run.\<close>

definition updater_update :: "('e, 'v, 'a) instrument_base \<Rightarrow> bool \<times> ('e, 'v, 'a) instrument_base" where
  "updater_update b =
     (let (notify, lo) = deferred_update (base_lazy b)
      in (notify, b\<lparr>base_lazy := (if notify then drop_guard lo else lo)\<rparr>))"

definition swap_engine :: "'e option \<Rightarrow> ('e, 'v, 'a) instrument_base \<Rightarrow> bool \<times> ('e, 'v, 'a) instrument_base" where
  "swap_engine e b = updater_update (b\<lparr>base_engine := e\<rparr>)"

definition set_pricing_engine :: "'e \<Rightarrow> ('e, 'v, 'a) instrument_base \<Rightarrow> bool \<times> ('e, 'v, 'a) instrument_base" where
  "set_pricing_engine e = swap_engine (Some e)"

definition detach_pricing_engine :: "('e, 'v, 'a) instrument_base \<Rightarrow> bool \<times> ('e, 'v, 'a) instrument_base" where
  "detach_pricing_engine = swap_engine None"

definition set_pricing_engine_silent :: "'e \<Rightarrow> ('e, 'v, 'a) instrument_base \<Rightarrow> ('e, 'v, 'a) instrument_base" where
  "set_pricing_engine_silent e b =
     b\<lparr>base_engine := Some e, base_lazy := invalidate_silently (base_lazy b)\<rparr>"

definition base_freeze :: "('e, 'v, 'a) instrument_base \<Rightarrow> ('e, 'v, 'a) instrument_base" where
  "base_freeze b = b\<lparr>base_lazy := freeze (base_lazy b)\<rparr>"

definition base_unfreeze :: "('e, 'v, 'a) instrument_base \<Rightarrow> bool \<times> ('e, 'v, 'a) instrument_base" where
  "base_unfreeze b = (let (notify, lo) = deferred_unfreeze (base_lazy b) in (notify, b\<lparr>base_lazy := lo\<rparr>))"

definition store_results ::
  "('v, 'a) instrument_results \<Rightarrow> ('e, 'v, 'a) instrument_base \<Rightarrow> ('e, 'v, 'a) instrument_base" where
  "store_results r b = b\<lparr>base_results := r\<rparr>"

definition setup_expired :: "('e, 'v::zero, 'a) instrument_base \<Rightarrow> ('e, 'v, 'a) instrument_base" where
  "setup_expired b = b\<lparr>base_results :=
     \<lparr>res_value = Some 0, res_error_estimate = Some 0, res_valuation_date = None, res_additional = Map.empty\<rparr>\<rparr>"

text \<open>A calculation works on the market inputs and the instrument.\<close>

type_synonym ('i, 'e, 'v, 'a) market = "'i \<times> ('e, 'v, 'a) instrument_base"

definition fetch_results ::
  "('i, 'e, 'v, 'a, 'x) instrument_code \<Rightarrow> 'e \<Rightarrow> ('e, 'v, 'a) instrument_base \<Rightarrow>
   ('x instrument_error + unit) \<times> ('e, 'v, 'a) instrument_base" where
  "fetch_results code e b = (case engine_results code e of
     None \<Rightarrow> (Inl No_Results_Returned, b)
   | Some r \<Rightarrow> (Inr (), store_results r b))"

definition perform_calculations ::
  "('i, 'e, 'v, 'a, 'x) instrument_code \<Rightarrow> ('i, 'e, 'v, 'a) market \<Rightarrow>
   ('x instrument_error + unit) \<times> ('i, 'e, 'v, 'a) market" where
  "perform_calculations code m = (case m of (i, b) \<Rightarrow> (case base_engine b of
     None \<Rightarrow> (Inl Null_Pricing_Engine, m)
   | Some e \<Rightarrow>
       (case code_setup_arguments code i (engine_reset code e) of
          (Inl x, e) \<Rightarrow> (Inl (Code_Error x), i, b\<lparr>base_engine := Some e\<rparr>)
        | (Inr _, e) \<Rightarrow>
           (case engine_validate code e of
              Inl x \<Rightarrow> (Inl (Code_Error x), i, b\<lparr>base_engine := Some e\<rparr>)
            | Inr _ \<Rightarrow>
               (case engine_calculate code i e of (outcome, e, written) \<Rightarrow>
                  let b = (case written of None \<Rightarrow> b | Some _ \<Rightarrow> snd (updater_update b));
                      i = (case written of None \<Rightarrow> i | Some i' \<Rightarrow> i');
                      b = b\<lparr>base_engine := Some e\<rparr>
                  in (case outcome of
                        Inl x \<Rightarrow> (Inl (Code_Error x), i, b)
                      | Inr _ \<Rightarrow> (case fetch_results code e b of (r, b) \<Rightarrow> (r, i, b))))))))"

definition instrument_calculate ::
  "('i, 'e, 'v::zero, 'a, 'x) instrument_code \<Rightarrow> ('i, 'e, 'v, 'a) market \<Rightarrow>
   ('x instrument_error + unit) \<times> ('i, 'e, 'v, 'a) market" where
  "instrument_calculate code m = (case m of (i, b) \<Rightarrow>
     if is_calculated (base_lazy b) then (Inr (), m)
     else (case code_is_expired code i of
       Inl x \<Rightarrow> (Inl (Code_Error x), m)
     | Inr expired \<Rightarrow>
         if expired
         then (Inr (), i, setup_expired (b\<lparr>base_lazy := mark_calculated (base_lazy b)\<rparr>))
         else (case start_calculation (base_lazy b) of (run, lo) \<Rightarrow>
           if \<not> run then (Inr (), m)
           else (case perform_calculations code (i, b\<lparr>base_lazy := lo\<rparr>) of (r, i, b) \<Rightarrow>
             (r, i, b\<lparr>base_lazy := finish_calculation r (base_lazy b)\<rparr>)))))"

text \<open>The notification of the observers at the end of \<open>recalculate\<close> is left to the caller.\<close>

definition instrument_recalculate ::
  "('i, 'e, 'v::zero, 'a, 'x) instrument_code \<Rightarrow> ('i, 'e, 'v, 'a) market \<Rightarrow>
   ('x instrument_error + unit) \<times> ('i, 'e, 'v, 'a) market" where
  "instrument_recalculate code m = (case m of (i, b) \<Rightarrow>
     (case start_recalculation (base_lazy b) of (was_frozen, lo) \<Rightarrow>
       (case instrument_calculate code (i, b\<lparr>base_lazy := lo\<rparr>) of (r, i, b) \<Rightarrow>
         (r, i, b\<lparr>base_lazy := finish_recalculation was_frozen (base_lazy b)\<rparr>))))"

definition read_result ::
  "(('v, 'a) instrument_results \<Rightarrow> 'b option) \<Rightarrow> string \<Rightarrow> ('i, 'e, 'v::zero, 'a, 'x) instrument_code \<Rightarrow>
   ('i, 'e, 'v, 'a) market \<Rightarrow> ('x instrument_error + 'b) \<times> ('i, 'e, 'v, 'a) market" where
  "read_result field what code m = (case instrument_calculate code m of
     (Inl x, m) \<Rightarrow> (Inl x, m)
   | (Inr _, m) \<Rightarrow> (case field (base_results (snd m)) of None \<Rightarrow> (Inl (Not_Provided what), m) | Some v \<Rightarrow> (Inr v, m)))"

definition npv ::
  "('i, 'e, 'v::zero, 'a, 'x) instrument_code \<Rightarrow> ('i, 'e, 'v, 'a) market \<Rightarrow>
   ('x instrument_error + 'v) \<times> ('i, 'e, 'v, 'a) market" where
  "npv = read_result res_value ''NPV''"

definition error_estimate ::
  "('i, 'e, 'v::zero, 'a, 'x) instrument_code \<Rightarrow> ('i, 'e, 'v, 'a) market \<Rightarrow>
   ('x instrument_error + 'v) \<times> ('i, 'e, 'v, 'a) market" where
  "error_estimate = read_result res_error_estimate ''error estimate''"

definition valuation_date ::
  "('i, 'e, 'v::zero, 'a, 'x) instrument_code \<Rightarrow> ('i, 'e, 'v, 'a) market \<Rightarrow>
   ('x instrument_error + date) \<times> ('i, 'e, 'v, 'a) market" where
  "valuation_date = read_result res_valuation_date ''valuation date''"

definition additional_result ::
  "string \<Rightarrow> ('i, 'e, 'v::zero, 'a, 'x) instrument_code \<Rightarrow> ('i, 'e, 'v, 'a) market \<Rightarrow>
   ('x instrument_error + 'a) \<times> ('i, 'e, 'v, 'a) market" where
  "additional_result tag = read_result (\<lambda>r. res_additional r tag) tag"

section \<open>The protocol\<close>

text \<open>What one pass of the engine protocol yields, as a function of the inputs.\<close>

definition protocol ::
  "('i, 'e, 'v, 'a, 'x) instrument_code \<Rightarrow> 'i \<Rightarrow> 'e \<Rightarrow> 'x instrument_error + ('v, 'a) instrument_results" where
  "protocol code i e = (case code_setup_arguments code i (engine_reset code e) of
     (Inl x, e) \<Rightarrow> Inl (Code_Error x)
   | (Inr _, e) \<Rightarrow> (case engine_validate code e of
       Inl x \<Rightarrow> Inl (Code_Error x)
     | Inr _ \<Rightarrow> (case engine_calculate code i e of
         (Inl x, e, _) \<Rightarrow> Inl (Code_Error x)
       | (Inr _, e, _) \<Rightarrow> (case engine_results code e of None \<Rightarrow> Inl No_Results_Returned | Some r \<Rightarrow> Inr r))))"

definition price_of :: "('v, 'a) instrument_results \<Rightarrow> 'x instrument_error + 'v" where
  "price_of r = (case res_value r of None \<Rightarrow> Inl (Not_Provided ''NPV'') | Some v \<Rightarrow> Inr v)"

definition fresh_price :: "('i, 'e, 'v::zero, 'a, 'x) instrument_code \<Rightarrow> 'i \<Rightarrow> 'e \<Rightarrow> 'x instrument_error + 'v" where
  "fresh_price code i e = (case code_is_expired code i of
     Inl x \<Rightarrow> Inl (Code_Error x)
   | Inr expired \<Rightarrow> if expired then Inr 0
       else (case protocol code i e of Inl x \<Rightarrow> Inl x | Inr r \<Rightarrow> price_of r))"

text \<open>An engine whose result depends on the inputs only, and that writes to none of them.\<close>

definition engine_regular :: "('i, 'e, 'v, 'a, 'x) instrument_code \<Rightarrow> bool" where
  "engine_regular code \<longleftrightarrow> (\<forall>i e e'. protocol code i e = protocol code i e') \<and>
     (\<forall>i e. snd (snd (engine_calculate code i e)) = None)"

text \<open>Whether the pass gets as far as a calculation that writes back.\<close>

definition writes_back :: "('i, 'e, 'v, 'a, 'x) instrument_code \<Rightarrow> 'i \<Rightarrow> 'e \<Rightarrow> bool" where
  "writes_back code i e = (case code_setup_arguments code i (engine_reset code e) of
     (Inl x, e) \<Rightarrow> False
   | (Inr _, e) \<Rightarrow> (case engine_validate code e of
       Inl x \<Rightarrow> False
     | Inr _ \<Rightarrow> snd (snd (engine_calculate code i e)) \<noteq> None))"

lemma regular_no_write: "engine_regular code \<Longrightarrow> \<not> writes_back code i e"
  by (simp add: engine_regular_def writes_back_def case_prod_unfold split: sum.split)

lemma perform_protocol:
  assumes "base_engine b = Some e"
  shows "\<exists>e' i'. perform_calculations code (i, b) =
    (let b' = (if writes_back code i e then snd (updater_update b) else b)\<lparr>base_engine := Some e'\<rparr> in
     case protocol code i e of
       Inl x \<Rightarrow> (Inl x, i', b')
     | Inr r \<Rightarrow> (Inr (), i', b'\<lparr>base_results := r\<rparr>)) \<and> (\<not> writes_back code i e \<longrightarrow> i' = i)"
proof -
  obtain s e1 where s: "code_setup_arguments code i (engine_reset code e) = (s, e1)" by fastforce
  obtain outcome e2 written where c: "engine_calculate code i e1 = (outcome, e2, written)" by (metis prod_cases3)
  show ?thesis
    using assms s c
    by (cases s; cases "engine_validate code e1"; cases outcome; cases "engine_results code e2"; cases written)
      (auto simp: perform_calculations_def protocol_def writes_back_def fetch_results_def store_results_def Let_def)
qed

text \<open>A live instrument: it has an engine, is not frozen and is not in the middle of a notification.\<close>

definition live :: "('e, 'v, 'a) instrument_base \<Rightarrow> bool" where
  "live b \<longleftrightarrow> base_engine b \<noteq> None \<and> \<not> frozen (base_lazy b) \<and> \<not> updating (base_lazy b) \<and>
     always_forward (base_lazy b)"

definition cache_ok ::
  "('i, 'e, 'v::zero, 'a, 'x) instrument_code \<Rightarrow> 'i \<Rightarrow> ('e, 'v, 'a) instrument_base \<Rightarrow> bool" where
  "cache_ok code i b \<longleftrightarrow> live b \<and>
     (calculated (base_lazy b) \<longrightarrow> (\<forall>e. fresh_price code i e = price_of (base_results b)))"

lemma live_update: "live b \<Longrightarrow> live (snd (updater_update b)) \<and> \<not> calculated (base_lazy (snd (updater_update b)))"
  by (auto simp: live_def updater_update_def deferred_update_def drop_guard_def Let_def)

lemma npv_fresh:
  assumes r: "engine_regular code" and c: "cache_ok code i b"
  shows "fst (npv code (i, b)) = fresh_price code i e \<and> fst (snd (npv code (i, b))) = i \<and>
    cache_ok code i (snd (snd (npv code (i, b))))"
proof -
  obtain e0 where e0: "base_engine b = Some e0" using c by (auto simp: cache_ok_def live_def)
  have p: "protocol code i e' = protocol code i e0" for e'
    using r unfolding engine_regular_def by blast
  have f: "fresh_price code i e' = fresh_price code i e0" for e'
    unfolding fresh_price_def p [of e'] ..
  show ?thesis
  proof (cases "calculated (base_lazy b)")
    case True
    then show ?thesis using c
      by (simp add: npv_def read_result_def instrument_calculate_def is_calculated_def cache_ok_def price_of_def
          split: option.splits)
  next
    case False
    define b1 where "b1 = b\<lparr>base_lazy := (base_lazy b)\<lparr>calculated := True\<rparr>\<rparr>"
    have e1: "base_engine b1 = Some e0" by (simp add: b1_def e0)
    obtain e' where pe: "perform_calculations code (i, b1) = (case protocol code i e0 of
        Inl x \<Rightarrow> (Inl x, i, b1\<lparr>base_engine := Some e'\<rparr>)
      | Inr r \<Rightarrow> (Inr (), i, b1\<lparr>base_engine := Some e', base_results := r\<rparr>))"
      using perform_protocol [OF e1, of code i] regular_no_write [OF r, of i e0] unfolding Let_def by auto
    note defs = npv_def read_result_def instrument_calculate_def is_calculated_def cache_ok_def live_def
    have "fst (npv code (i, b)) = fresh_price code i e0 \<and> fst (snd (npv code (i, b))) = i \<and>
      live (snd (snd (npv code (i, b)))) \<and> (calculated (base_lazy (snd (snd (npv code (i, b))))) \<longrightarrow>
        fresh_price code i e0 = price_of (base_results (snd (snd (npv code (i, b))))))"
    proof (cases "code_is_expired code i")
      case (Inl x)
      then show ?thesis using c False by (simp add: defs fresh_price_def)
    next
      case (Inr expired)
      show ?thesis
      proof (cases expired)
        case True
        then show ?thesis using c False Inr
          by (simp add: defs fresh_price_def setup_expired_def mark_calculated_def price_of_def)
      next
        case alive: False
        show ?thesis
          using c False Inr alive pe
          by (cases "protocol code i e0")
            (auto simp: defs fresh_price_def price_of_def start_calculation_def finish_calculation_def b1_def
              split: option.splits)
      qed
    qed
    then show ?thesis using f unfolding cache_ok_def by metis
  qed
qed

section \<open>Histories of a market\<close>

text \<open>Moving an input notifies the instrument, as every observable input does.\<close>

datatype 'i market_op = Move 'i | Price

fun market_run ::
  "('i, 'e, 'v::zero, 'a, 'x) instrument_code \<Rightarrow> 'i market_op list \<Rightarrow> ('i, 'e, 'v, 'a) market \<Rightarrow>
   ('x instrument_error + 'v) list" where
  "market_run code [] m = []"
| "market_run code (Move i # ops) m = market_run code ops (i, snd (updater_update (snd m)))"
| "market_run code (Price # ops) m = (let (v, m) = npv code m in v # market_run code ops m)"

text \<open>The reference: a fresh calculation on the current inputs each time.\<close>

fun reference_run ::
  "('i, 'e, 'v::zero, 'a, 'x) instrument_code \<Rightarrow> 'e \<Rightarrow> 'i market_op list \<Rightarrow> 'i \<Rightarrow> ('x instrument_error + 'v) list" where
  "reference_run code e [] i = []"
| "reference_run code e (Move i' # ops) i = reference_run code e ops i'"
| "reference_run code e (Price # ops) i = fresh_price code i e # reference_run code e ops i"

lemma market_run_fresh:
  "engine_regular code \<Longrightarrow> cache_ok code i b \<Longrightarrow> market_run code ops (i, b) = reference_run code e ops i"
proof (induction ops arbitrary: i b)
  case (Cons op ops)
  show ?case
  proof (cases op)
    case (Move i')
    have "cache_ok code i' (snd (updater_update b))"
      using live_update [of b] Cons.prems(2) by (simp add: cache_ok_def)
    then show ?thesis using Cons.IH [OF Cons.prems(1)] Move by simp
  next
    case Price
    obtain v i' b' where n: "npv code (i, b) = (v, i', b')" by (metis prod_cases3)
    have "v = fresh_price code i e" "i' = i" "cache_ok code i b'"
      using npv_fresh [OF Cons.prems, of e] by (simp_all add: n)
    then show ?thesis using Cons.IH [OF Cons.prems(1)] Price n by simp
  qed
qed simp

lemma fresh_engine_cache_ok: "cache_ok code i (snd (set_pricing_engine e instrument_base_new))"
  by (simp add: cache_ok_def live_def set_pricing_engine_def swap_engine_def updater_update_def instrument_base_new_def
      deferred_update_def lazy_new_def drop_guard_def Let_def)

text \<open>C16. The cache of an instrument is invisible: when every move of an input notifies it and its engine
  computes from the inputs alone, the prices it returns along any history of moves and readings are
  those of a fresh calculation at each reading, errors included.\<close>

theorem cached_prices_are_fresh:
  assumes "engine_regular code"
  shows "market_run code ops (i, snd (set_pricing_engine e instrument_base_new)) = reference_run code e ops i"
  using market_run_fresh [OF assms fresh_engine_cache_ok] .

text \<open>An engine that doubles a positive input and refuses any other.\<close>

definition doubling :: "(int, int \<times> int option, int, unit, unit) instrument_code" where
  "doubling = \<lparr>code_is_expired = (\<lambda>i. Inr (i = 0)), code_setup_arguments = (\<lambda>i e. (Inr (), (i, snd e))),
     engine_reset = (\<lambda>e. (fst e, None)), engine_validate = (\<lambda>e. if fst e > 0 then Inr () else Inl ()),
     engine_calculate = (\<lambda>i e. (Inr (), (fst e, Some (2 * fst e)), None)),
     engine_results = (\<lambda>e. Some (empty_results\<lparr>res_value := snd e\<rparr>))\<rparr>"

lemma cached_prices_are_fresh_witness:
  "market_run doubling [Price, Price, Move 7, Move (- 1), Price, Move 0, Price]
     (21, snd (set_pricing_engine (0, None) instrument_base_new)) =
   [Inr 42, Inr 42, Inl (Code_Error ()), Inr 0]"
proof -
  have "engine_regular doubling" by (simp add: engine_regular_def protocol_def doubling_def split: prod.splits)
  then show ?thesis
    unfolding cached_prices_are_fresh [OF \<open>engine_regular doubling\<close>]
    by (simp add: fresh_price_def protocol_def price_of_def doubling_def empty_results_def)
qed

text \<open>A notification that reaches an instrument in the middle of its own calculation, because the engine
  writes to an input the instrument observes, is not lost: when the calculation succeeds its result is
  cached exactly if there was none, so the next reading computes again; and a failed calculation
  leaves the previous results in place, marks the object failed and is tried again.\<close>

lemma notification_during_calculation_is_kept:
  assumes "live b" "\<not> calculated (base_lazy b)" "code_is_expired code i = Inr False" "base_engine b = Some e"
    and "instrument_calculate code (i, b) = (r, i', b')"
  shows "(case protocol code i e of
      Inr res \<Rightarrow> r = Inr () \<and> base_results b' = res \<and> (calculated (base_lazy b') \<longleftrightarrow> \<not> writes_back code i e)
    | Inl x \<Rightarrow> r = Inl x \<and> base_results b' = base_results b \<and> failed (base_lazy b') \<and>
        \<not> calculated (base_lazy b')) \<and> live b'"
proof -
  define b1 where "b1 = b\<lparr>base_lazy := (base_lazy b)\<lparr>calculated := True\<rparr>\<rparr>"
  define b2 where "b2 = (if writes_back code i e then snd (updater_update b1) else b1)"
  have "base_engine b1 = Some e" using assms(4) by (simp add: b1_def)
  from perform_protocol [OF this, of code i]
  obtain e' i2 where p: "perform_calculations code (i, b1) = (case protocol code i e of
      Inl x \<Rightarrow> (Inl x, i2, b2\<lparr>base_engine := Some e'\<rparr>)
    | Inr res \<Rightarrow> (Inr (), i2, b2\<lparr>base_engine := Some e', base_results := res\<rparr>))"
    unfolding Let_def b2_def by blast
  have b2: "base_results b2 = base_results b" "calculated (base_lazy b2) \<longleftrightarrow> \<not> writes_back code i e"
    "\<not> frozen (base_lazy b2)" "\<not> updating (base_lazy b2)" "always_forward (base_lazy b2)"
    using assms(1) by (auto simp: b2_def b1_def live_def updater_update_def deferred_update_def drop_guard_def Let_def)
  show ?thesis
    using assms p b2
    by (cases "protocol code i e")
      (auto simp: instrument_calculate_def is_calculated_def start_calculation_def live_def b1_def [symmetric]
        finish_calculation_def)
qed

end
