(* ===== verification/Floats.thy ===== *)
theory Floats
  imports Prelude "HOL-Library.Log_Nat"
begin

text \<open>
  The 64-bit floating-point numbers of IEEE 754 (\<open>f64\<close>, which the code calls \<open>Real\<close> and \<open>Time\<close>). A
  finite value is the rational it stands for; an operation is the exact one followed by \<open>rnd\<close>, the
  rounding to 53 bits with ties to even and gradual underflow, and by \<open>fl\<close>, which turns a result out
  of range into an infinity. The two zeros are one value here: no modelled computation divides by a
  zero whose sign could differ. The lemmas say that rounding is monotone, odd, leaves every
  representable number alone, and moves a number by at most one part in \<open>2 ^ 53\<close>.
\<close>

section \<open>Rounding\<close>

text \<open>The exponent \<open>e\<close> with \<open>2 powi e \<le> x < 2 powi (e + 1)\<close>.\<close>

definition binade :: "rat \<Rightarrow> int" where
  "binade x = (let (p, q) = quotient_of x; e = bitlen p - bitlen q
     in if x < 2 powi e then e - 1 else e)"

definition quantum :: "rat \<Rightarrow> rat" where
  "quantum x = 2 powi (max (binade x) (-1022) - 52)"

definition round_half_even :: "rat \<Rightarrow> int" where
  "round_half_even y = (let f = \<lfloor>y\<rfloor>; d = y - of_int f
     in if d < 1 / 2 then f else if d > 1 / 2 then f + 1 else if even f then f else f + 1)"

definition rnd :: "rat \<Rightarrow> rat" where
  "rnd x = (if x = 0 then 0
     else if x > 0 then of_int (round_half_even (x / quantum x)) * quantum x
     else - (of_int (round_half_even (- x / quantum (- x))) * quantum (- x)))"

section \<open>Values and operations\<close>

datatype f64 = Fin rat | Infinity | Neg_Infinity | Not_A_Number

definition fl :: "rat \<Rightarrow> f64" where
  "fl x = (let r = rnd x in if 2 ^ 1024 \<le> r then Infinity else if r \<le> - (2 ^ 1024) then Neg_Infinity else Fin r)"

fun f_neg :: "f64 \<Rightarrow> f64" where
  "f_neg (Fin x) = Fin (- x)"
| "f_neg Infinity = Neg_Infinity"
| "f_neg Neg_Infinity = Infinity"
| "f_neg Not_A_Number = Not_A_Number"

fun f_add :: "f64 \<Rightarrow> f64 \<Rightarrow> f64" where
  "f_add (Fin x) (Fin y) = fl (x + y)"
| "f_add Not_A_Number _ = Not_A_Number"
| "f_add _ Not_A_Number = Not_A_Number"
| "f_add Infinity Neg_Infinity = Not_A_Number"
| "f_add Neg_Infinity Infinity = Not_A_Number"
| "f_add (Fin _) y = y"
| "f_add x _ = x"

definition f_sub :: "f64 \<Rightarrow> f64 \<Rightarrow> f64" where
  "f_sub x y = f_add x (f_neg y)"

text \<open>The infinity of a sign, and the sign of a value.\<close>

definition signed_infinity :: "rat \<Rightarrow> f64" where
  "signed_infinity s = (if s > 0 then Infinity else if s < 0 then Neg_Infinity else Not_A_Number)"

fun f_sign :: "f64 \<Rightarrow> rat" where
  "f_sign (Fin x) = sgn x"
| "f_sign Infinity = 1"
| "f_sign Neg_Infinity = -1"
| "f_sign Not_A_Number = 0"

fun f_mul :: "f64 \<Rightarrow> f64 \<Rightarrow> f64" where
  "f_mul (Fin x) (Fin y) = fl (x * y)"
| "f_mul x y = signed_infinity (f_sign x * f_sign y)"

text \<open>Dividing by zero gives the infinity of the dividend's sign (the divisors here are positive zeros),
  and zero over zero is not a number.\<close>

fun f_div :: "f64 \<Rightarrow> f64 \<Rightarrow> f64" where
  "f_div (Fin x) (Fin y) = (if y = 0 then signed_infinity x else fl (x / y))"
| "f_div Not_A_Number _ = Not_A_Number"
| "f_div _ Not_A_Number = Not_A_Number"
| "f_div (Fin x) _ = Fin 0"
| "f_div x (Fin y) = signed_infinity (f_sign x * (if y < 0 then -1 else 1))"
| "f_div _ _ = Not_A_Number"

fun f_less :: "f64 \<Rightarrow> f64 \<Rightarrow> bool" where
  "f_less (Fin x) (Fin y) = (x < y)"
| "f_less (Fin _) Infinity = True"
| "f_less Neg_Infinity (Fin _) = True"
| "f_less Neg_Infinity Infinity = True"
| "f_less _ _ = False"

fun f_eq :: "f64 \<Rightarrow> f64 \<Rightarrow> bool" where
  "f_eq Not_A_Number _ = False"
| "f_eq x y = (x = y)"

definition f_le :: "f64 \<Rightarrow> f64 \<Rightarrow> bool" where
  "f_le x y = (f_less x y \<or> f_eq x y)"

fun f_abs :: "f64 \<Rightarrow> f64" where
  "f_abs (Fin x) = Fin \<bar>x\<bar>"
| "f_abs Neg_Infinity = Infinity"
| "f_abs x = x"

fun is_finite :: "f64 \<Rightarrow> bool" where
  "is_finite (Fin _) = True"
| "is_finite _ = False"

text \<open>The conversion of an integer, rounding half away from zero, and the saturating conversion to
  a 32-bit integer.\<close>

definition f_of_int :: "int \<Rightarrow> f64" where
  "f_of_int i = fl (of_int i)"

definition round_half_away :: "rat \<Rightarrow> int" where
  "round_half_away x = (if x \<ge> 0 then \<lfloor>x + 1 / 2\<rfloor> else - \<lfloor>1 / 2 - x\<rfloor>)"

fun f_round :: "f64 \<Rightarrow> f64" where
  "f_round (Fin x) = Fin (of_int (round_half_away x))"
| "f_round x = x"

fun f_to_i32 :: "f64 \<Rightarrow> int" where
  "f_to_i32 (Fin x) = max (- (2 ^ 31)) (min (2 ^ 31 - 1) (if x \<ge> 0 then \<lfloor>x\<rfloor> else \<lceil>x\<rceil>))"
| "f_to_i32 Infinity = 2 ^ 31 - 1"
| "f_to_i32 Neg_Infinity = - (2 ^ 31)"
| "f_to_i32 Not_A_Number = 0"

section \<open>Laws of rounding\<close>

lemma two_powi_pos [simp]: "(0::rat) < 2 powi e"
  by simp

lemma two_powi_mono: "d \<le> e \<Longrightarrow> (2::rat) powi d \<le> 2 powi e"
  by (rule power_int_increasing) simp_all

lemma two_powi_diff: "d \<le> e \<Longrightarrow> \<exists>n::int. (2::rat) powi e = of_int n * 2 powi d"
proof -
  assume "d \<le> e"
  then have "(2::rat) powi e = 2 powi (e - d) * 2 powi d" by (simp flip: power_int_add)
  moreover have "(2::rat) powi (e - d) = of_int (2 ^ nat (e - d))"
    using \<open>d \<le> e\<close> by (simp add: power_int_def)
  ultimately show ?thesis by metis
qed

lemma bitlen_powi: "0 < p \<Longrightarrow> (2::rat) powi (bitlen p - 1) \<le> of_int p \<and> of_int p < (2::rat) powi (bitlen p)"
proof -
  assume p: "0 < p"
  then have "2 ^ nat (bitlen p - 1) \<le> p" "p < 2 ^ nat (bitlen p)" using bitlen_bounds by blast+
  then have "(of_int (2 ^ nat (bitlen p - 1)) :: rat) \<le> of_int p" "(of_int p :: rat) < of_int (2 ^ nat (bitlen p))"
    by (simp_all only: of_int_le_iff of_int_less_iff)
  moreover have "0 \<le> bitlen p - 1" "0 \<le> bitlen p" using p by (simp_all add: bitlen_def floorlog_def)
  ultimately show ?thesis by (simp add: power_int_def)
qed

lemma binade: "0 < x \<Longrightarrow> 2 powi (binade x) \<le> x \<and> x < 2 powi (binade x + 1)"
proof -
  assume x: "0 < x"
  obtain p q where pq: "quotient_of x = (p, q)" by fastforce
  then have q: "0 < q" by (rule quotient_of_denom_pos)
  have xq: "x = of_int p / of_int q" using pq by (rule quotient_of_div)
  with x q have p: "0 < p" by (simp add: zero_less_divide_iff)
  let ?e = "bitlen p - bitlen q"
  have bp: "(2::rat) powi (bitlen p - 1) \<le> of_int p" "of_int p < (2::rat) powi (bitlen p)"
    and bq: "(2::rat) powi (bitlen q - 1) \<le> of_int q" "of_int q < (2::rat) powi (bitlen q)"
    using bitlen_powi p q by blast+
  have "2 powi (?e - 1) = (2::rat) powi (bitlen p - 1) / 2 powi (bitlen q)"
    by (simp add: algebra_simps flip: power_int_diff)
  also have "\<dots> \<le> x" unfolding xq using bp bq p q by (intro frac_le) simp_all
  finally have low: "2 powi (?e - 1) \<le> x" .
  have "x < (2::rat) powi (bitlen p) / 2 powi (bitlen q - 1)" unfolding xq using bp bq p
    by (intro frac_less) simp_all
  also have "\<dots> = 2 powi (?e + 1)" by (simp add: algebra_simps flip: power_int_diff)
  finally have "x < 2 powi (?e + 1)" .
  with low show ?thesis by (auto simp: binade_def pq not_less Let_def)
qed

lemma binade_unique: "0 < x \<Longrightarrow> x < 2 powi (e + 1) \<Longrightarrow> binade x \<le> e"
proof (rule ccontr)
  assume x: "0 < x" "x < 2 powi (e + 1)" and "\<not> binade x \<le> e"
  then have "(2::rat) powi (e + 1) \<le> 2 powi (binade x)" by (intro two_powi_mono) simp
  with binade [OF x(1)] x(2) show False by simp
qed

lemma quantum_pos [simp]: "0 < quantum x"
  by (simp add: quantum_def)

lemma quantum_neq_0 [simp]: "quantum x \<noteq> 0"
  using quantum_pos [of x] by linarith

lemma round_half_even_of_int [simp]: "round_half_even (of_int i) = i"
  by (simp add: round_half_even_def)

lemma round_half_even_error: "\<bar>of_int (round_half_even y) - y\<bar> \<le> 1 / 2"
proof -
  have f: "of_int \<lfloor>y\<rfloor> \<le> y" "y < of_int \<lfloor>y\<rfloor> + 1" by linarith+
  show ?thesis unfolding round_half_even_def Let_def using f by (auto simp: abs_le_iff)
qed

lemma round_half_even_mono: "x \<le> y \<Longrightarrow> round_half_even x \<le> round_half_even y"
proof -
  assume xy: "x \<le> y"
  show ?thesis
  proof (cases "\<lfloor>x\<rfloor> = \<lfloor>y\<rfloor>")
    case True
    then show ?thesis using xy by (auto simp: round_half_even_def Let_def)
  next
    case False
    with xy have "\<lfloor>x\<rfloor> + 1 \<le> \<lfloor>y\<rfloor>" using floor_mono [OF xy] by simp
    then show ?thesis by (simp add: round_half_even_def Let_def)
  qed
qed

lemma rnd_pos: "0 < x \<Longrightarrow> rnd x = of_int (round_half_even (x / quantum x)) * quantum x"
  by (simp add: rnd_def)

lemma rnd_0 [simp]: "rnd 0 = 0"
  by (simp add: rnd_def)

lemma rnd_minus [simp]: "rnd (- x) = - rnd x"
  by (simp add: rnd_def)

lemma rnd_nonneg: "0 \<le> x \<Longrightarrow> 0 \<le> rnd x"
proof -
  assume "0 \<le> x"
  then have "0 \<le> round_half_even (x / quantum x)"
    using round_half_even_mono [of 0 "x / quantum x"] round_half_even_of_int [of 0] quantum_pos [of x]
    by (simp add: divide_nonneg_pos)
  then show ?thesis using \<open>0 \<le> x\<close> using quantum_pos [of x]
    by (cases "x = 0") (simp_all add: rnd_pos less_imp_le)
qed

lemma rnd_mono_pos:
  assumes x: "0 < x" and xy: "x \<le> y"
  shows "rnd x \<le> rnd y"
proof (cases "quantum x = quantum y")
  case True
  have "x / quantum y \<le> y / quantum y" using xy by (rule divide_right_mono) (simp add: less_imp_le)
  with True x xy show ?thesis by (simp add: rnd_pos round_half_even_mono)
next
  case False
  have y: "0 < y" using x xy by simp
  note bx = binade [OF x] and bd = binade [OF y]
  let ?b = "binade y"
  have "binade x \<le> ?b"
    using binade_unique [OF x, of ?b] xy bd by simp
  moreover have "binade x \<noteq> ?b" "-1022 < ?b" using False \<open>binade x \<le> ?b\<close> by (auto simp: quantum_def max_def split: if_splits)
  ultimately have lt: "binade x < ?b" "-1022 < ?b" by simp_all
  let ?B = "(2::rat) powi ?b"
  have xB: "x \<le> ?B" using bx two_powi_mono [of "binade x + 1" ?b] lt by simp
  obtain n where n: "?B = of_int n * quantum x"
    using two_powi_diff [of "max (binade x) (-1022) - 52" ?b] lt unfolding quantum_def by fastforce
  obtain m where m: "?B = of_int m * quantum y"
    using two_powi_diff [of "max ?b (-1022) - 52" ?b] lt unfolding quantum_def by fastforce
  have "x / quantum x \<le> of_int n" using xB n by (simp add: pos_divide_le_eq)
  then have "round_half_even (x / quantum x) \<le> n" using round_half_even_mono [of _ "of_int n"] by simp
  then have "rnd x \<le> ?B" unfolding n rnd_pos [OF x] by simp
  also have "of_int m \<le> y / quantum y" using m bd by (simp add: pos_le_divide_eq)
  then have "m \<le> round_half_even (y / quantum y)" using round_half_even_mono [of "of_int m"] by simp
  then have "?B \<le> rnd y" unfolding m rnd_pos [OF y] by simp
  finally show ?thesis .
qed

lemma rnd_mono: "x \<le> y \<Longrightarrow> rnd x \<le> rnd y"
proof -
  assume xy: "x \<le> y"
  consider "0 < x" | "x \<le> 0" "0 \<le> y" | "y < 0" by linarith
  then show ?thesis
  proof cases
    case 1 then show ?thesis using xy by (rule rnd_mono_pos)
  next
    case 2 then show ?thesis using rnd_nonneg [of y] rnd_nonneg [of "- x"] by simp
  next
    case 3 then show ?thesis using rnd_mono_pos [of "- y" "- x"] xy by simp
  qed
qed

lemma rnd_representable_pos:
  assumes "x = of_int m * 2 powi e" "0 < x" "m < 2 ^ 53" "-1074 \<le> e"
  shows "rnd x = x"
proof -
  have m: "0 < m" using assms(1,2) two_powi_pos [of e] by (auto simp: zero_less_mult_iff)
  have "(of_int m :: rat) < of_int (2 ^ 53)" using assms(3) by (simp only: of_int_less_iff)
  then have "x < 2 ^ 53 * 2 powi e" unfolding assms(1) by (simp add: mult_strict_right_mono)
  also have "\<dots> = (2::rat) powi (e + 52 + 1)" by (simp add: power_int_add)
  finally have "binade x \<le> e + 52" using binade_unique assms(2) by blast
  then have "max (binade x) (-1022) - 52 \<le> e" using assms(4) by simp
  then obtain k where "(2::rat) powi e = of_int k * quantum x" unfolding quantum_def using two_powi_diff by blast
  then have "x / quantum x = of_int (m * k)" using assms(1) by (simp add: field_simps less_imp_neq [OF quantum_pos, symmetric])
  then have "of_int (round_half_even (x / quantum x)) = x / quantum x" by (simp only: round_half_even_of_int)
  then show ?thesis using assms(2) by (simp add: rnd_pos)
qed

lemma rnd_representable:
  assumes "x = of_int m * 2 powi e" "\<bar>m\<bar> < 2 ^ 53" "-1074 \<le> e"
  shows "rnd x = x"
proof (cases x "0::rat" rule: linorder_cases)
  case less
  then show ?thesis using rnd_representable_pos [of "- x" "- m" e] assms by simp
next
  case greater
  then show ?thesis using rnd_representable_pos [of x m e] assms by simp
qed simp

lemma rnd_of_int: "\<bar>i\<bar> < 2 ^ 53 \<Longrightarrow> rnd (of_int i) = of_int i"
  by (rule rnd_representable [of _ i 0]) simp_all

lemma rnd_error_pos:
  assumes "2 powi (-1022) \<le> x"
  shows "\<bar>rnd x - x\<bar> \<le> x / 2 ^ 53"
proof -
  have x: "0 < x" using assms two_powi_pos [of "-1022"] by linarith
  note b = binade [OF x]
  have "\<not> binade x + 1 \<le> -1022" using assms b two_powi_mono [of "binade x + 1" "-1022"] by (meson leD order.strict_trans1)
  then have q: "quantum x = 2 powi (binade x) / 2 ^ 52" by (simp add: quantum_def power_int_diff)
  have "rnd x - x = (of_int (round_half_even (x / quantum x)) - x / quantum x) * quantum x"
    using x quantum_pos [of x] by (simp add: rnd_pos field_simps)
  then have "\<bar>rnd x - x\<bar> = \<bar>of_int (round_half_even (x / quantum x)) - x / quantum x\<bar> * quantum x"
    using quantum_pos [of x] by (simp add: abs_mult less_imp_le)
  also have "\<dots> \<le> 1 / 2 * quantum x"
    by (rule mult_right_mono [OF round_half_even_error]) (simp add: less_imp_le)
  also have "\<dots> \<le> x / 2 ^ 53" using b by (simp add: q field_simps)
  finally show ?thesis .
qed

lemma rnd_error: "2 powi (-1022) \<le> \<bar>x\<bar> \<or> x = 0 \<Longrightarrow> \<bar>rnd x - x\<bar> \<le> \<bar>x\<bar> / 2 ^ 53"
  using rnd_error_pos [of x] rnd_error_pos [of "- x"] by (auto simp: abs_if split: if_splits)

text \<open>An absolute bound, for every value up to a power of two.\<close>

lemma rnd_error_bound_pos:
  assumes "0 < x" "x \<le> 2 ^ k"
  shows "\<bar>rnd x - x\<bar> \<le> 2 ^ k / 2 ^ 53"
proof -
  have "x < 2 powi (int k + 1)" using assms(2) by (rule order.strict_trans1) (simp add: power_int_def nat_add_distrib)
  then have "binade x \<le> int k" by (rule binade_unique [OF assms(1)])
  then have "quantum x \<le> 2 powi (int k - 52)" unfolding quantum_def by (intro two_powi_mono) simp
  also have "\<dots> = 2 ^ k / 2 ^ 52" by (simp add: power_int_diff)
  finally have q: "quantum x \<le> 2 ^ k / 2 ^ 52" .
  have "rnd x - x = (of_int (round_half_even (x / quantum x)) - x / quantum x) * quantum x"
    using assms(1) quantum_pos [of x] by (simp add: rnd_pos field_simps)
  then have "\<bar>rnd x - x\<bar> = \<bar>of_int (round_half_even (x / quantum x)) - x / quantum x\<bar> * quantum x"
    using quantum_pos [of x] by (simp add: abs_mult less_imp_le)
  also have "\<dots> \<le> 1 / 2 * quantum x"
    by (rule mult_right_mono [OF round_half_even_error]) (simp add: less_imp_le)
  finally show ?thesis using q by simp
qed

lemma rnd_error_bound: "\<bar>x\<bar> \<le> 2 ^ k \<Longrightarrow> \<bar>rnd x - x\<bar> \<le> 2 ^ k / 2 ^ 53"
  using rnd_error_bound_pos [of x k] rnd_error_bound_pos [of "- x" k]
  by (cases x "0::rat" rule: linorder_cases) (auto simp: abs_minus_commute)

text \<open>Rounding a value of the range of the modelled quantities never leaves the finite numbers.\<close>

lemma rnd_abs: "\<bar>rnd x\<bar> = rnd \<bar>x\<bar>"
  using rnd_nonneg [of x] rnd_nonneg [of "- x"] by (cases "0 \<le> x") (simp_all add: abs_if)

lemma fl_small: "\<bar>x\<bar> \<le> 2 ^ 1000 \<Longrightarrow> fl x = Fin (rnd x)"
proof -
  assume "\<bar>x\<bar> \<le> 2 ^ 1000"
  then have "\<bar>rnd x\<bar> \<le> rnd (2 ^ 1000)" unfolding rnd_abs by (rule rnd_mono)
  also have "rnd (2 ^ 1000) = 2 ^ 1000" by (rule rnd_representable [of _ 1 1000]) simp_all
  finally have "\<bar>rnd x\<bar> < 2 ^ 1024" by (rule order.strict_trans1) simp
  then show ?thesis by (simp add: fl_def Let_def abs_less_iff not_le)
qed

lemma f_of_int: "\<bar>i\<bar> < 2 ^ 53 \<Longrightarrow> f_of_int i = Fin (of_int i)"
proof -
  assume i: "\<bar>i\<bar> < 2 ^ 53"
  then have "\<bar>i\<bar> \<le> 2 ^ 1000" by (rule order.strict_implies_order [OF order.strict_trans2]) simp
  then have "\<bar>of_int i :: rat\<bar> \<le> 2 ^ 1000" by (metis of_int_abs of_int_le_iff of_int_numeral of_int_power)
  then show ?thesis using i by (simp add: f_of_int_def fl_small rnd_of_int)
qed

lemma rnd_eq_0_iff: "x = 0 \<or> 2 powi (-1022) \<le> \<bar>x\<bar> \<Longrightarrow> rnd x = 0 \<longleftrightarrow> x = 0"
  using rnd_error [of x] by (auto simp: field_simps)

end
