(* ===== verification/Xoshiro.thy ===== *)
theory Xoshiro
  imports Prelude "HOL-Library.Word"
begin

text \<open>
  \<open>math/randomnumbers/xoshiro256starstaruniformrng.rs\<close>: the SplitMix64 seed expansion and the
  xoshiro256** generator on 64-bit words. The conversion of an output to a floating-point deviate is
  not modelled; \<open>drawn\<close> is the seed the process-wide seed generator would hand out.
\<close>

unbundle bit_operations_syntax

section \<open>The code\<close>

type_synonym u64 = "64 word"

definition rotate_left :: "nat \<Rightarrow> u64 \<Rightarrow> u64" where
  "rotate_left k w = push_bit k w OR drop_bit (64 - k) w"

definition splitmix_next :: "u64 \<Rightarrow> u64 \<times> u64" where
  "splitmix_next x =
     (let x = x + 0x9e3779b97f4a7c15;
          z = x;
          z = (z XOR drop_bit 30 z) * 0xbf58476d1ce4e5b9;
          z = (z XOR drop_bit 27 z) * 0x94d049bb133111eb
      in (z XOR drop_bit 31 z, x))"

record xoshiro =
  s0 :: u64
  s1 :: u64
  s2 :: u64
  s3 :: u64
  xoshiro_seed :: "u64 option"

definition xoshiro_new :: "u64 \<Rightarrow> u64 \<Rightarrow> xoshiro" where
  "xoshiro_new drawn seed =
     (let seed = (if seed \<noteq> 0 then seed else drawn);
          (a, x) = splitmix_next seed;
          (b, x) = splitmix_next x;
          (c, x) = splitmix_next x;
          (d, x) = splitmix_next x
      in \<lparr>s0 = a, s1 = b, s2 = c, s3 = d, xoshiro_seed = Some seed\<rparr>)"

definition xoshiro_from_state :: "u64 \<Rightarrow> u64 \<Rightarrow> u64 \<Rightarrow> u64 \<Rightarrow> xoshiro" where
  "xoshiro_from_state a b c d = \<lparr>s0 = a, s1 = b, s2 = c, s3 = d, xoshiro_seed = None\<rparr>"

definition xoshiro_next :: "xoshiro \<Rightarrow> u64 \<times> xoshiro" where
  "xoshiro_next g =
     (let result = rotate_left 7 (s1 g * 5) * 9;
          t = push_bit 17 (s1 g);
          g = g\<lparr>s2 := s2 g XOR s0 g\<rparr>;
          g = g\<lparr>s3 := s3 g XOR s1 g\<rparr>;
          g = g\<lparr>s1 := s1 g XOR s2 g\<rparr>;
          g = g\<lparr>s0 := s0 g XOR s3 g\<rparr>;
          g = g\<lparr>s2 := s2 g XOR t\<rparr>;
          g = g\<lparr>s3 := rotate_left 45 (s3 g)\<rparr>
      in (result, g))"

text \<open>The 53 bits a deviate is made of.\<close>

definition xoshiro_next_53 :: "xoshiro \<Rightarrow> u64 \<times> xoshiro" where
  "xoshiro_next_53 g = (let (r, g) = xoshiro_next g in (drop_bit 11 r, g))"

fun xoshiro_after :: "nat \<Rightarrow> xoshiro \<Rightarrow> xoshiro" where
  "xoshiro_after 0 g = g"
| "xoshiro_after (Suc n) g = xoshiro_after n (snd (xoshiro_next g))"

section \<open>Shifts and multiplications undone\<close>

lemma xor_cancel [simp]: "(a::u64) XOR (a XOR b) = b"
  by (simp add: xor.assoc [symmetric])

lemma xor_eq_0: "(a::u64) XOR b = 0 \<longleftrightarrow> a = b"
  by (metis xor.right_neutral xor_cancel xor_self_eq)

lemma xor_cancel_right: "((a::u64) XOR b) XOR b = a"
  by (simp only: xor.assoc xor_self_eq xor.right_neutral)

lemma xor_right_inject: "(a::u64) XOR c = b XOR c \<Longrightarrow> a = b"
  by (metis xor_cancel_right)

lemma xor_swap:
  assumes "(a::u64) XOR b = c XOR d"
  shows "a XOR c = b XOR d"
proof -
  have "c = (a XOR b) XOR d" unfolding assms by (rule xor_cancel_right [symmetric])
  then have "a XOR c = a XOR (a XOR (b XOR d))" by (simp only: xor.assoc)
  then show ?thesis by (simp only: xor_cancel)
qed

lemma drop_bit_large: "64 \<le> n \<Longrightarrow> drop_bit n (w::u64) = 0"
  by (rule bit_word_eqI) (auto simp: bit_drop_bit_eq dest: bit_imp_le_length)

lemma xorshift_inverse:
  assumes "22 \<le> k"
  shows "(w XOR drop_bit k w) XOR drop_bit k (w XOR drop_bit k w) XOR drop_bit (2 * k) (w XOR drop_bit k w) = (w::u64)"
proof -
  define u v where "u = drop_bit k w" and "v = drop_bit (2 * k) w"
  have "drop_bit k (w XOR u) = u XOR v"
    unfolding u_def v_def drop_bit_xor drop_bit_drop_bit mult_2 ..
  moreover have "drop_bit (2 * k) (w XOR u) = v"
    unfolding u_def v_def drop_bit_xor drop_bit_drop_bit using assms by (simp add: drop_bit_large)
  moreover have "(w XOR u) XOR (u XOR v) XOR v = w"
    by (simp only: xor.assoc xor_cancel xor_self_eq xor.right_neutral)
  ultimately show ?thesis by (simp only: u_def [symmetric])
qed

lemma xorshift_inject: "22 \<le> k \<Longrightarrow> (a::u64) XOR drop_bit k a = b XOR drop_bit k b \<Longrightarrow> a = b"
  using xorshift_inverse [of k a] xorshift_inverse [of k b] by simp

lemma mult_inject:
  assumes "(c::u64) * d = 1" "a * c = b * c"
  shows "a = b"
proof -
  have "a = a * c * d" using assms(1) by (simp add: mult.assoc)
  also have "\<dots> = b" using assms(1) unfolding assms(2) by (simp add: mult.assoc)
  finally show ?thesis .
qed

lemma splitmix_inject:
  assumes "fst (splitmix_next a) = fst (splitmix_next b)"
  shows "a = b"
proof -
  define f where "f k w = w XOR drop_bit k w" for k and w :: u64
  define p q g :: u64 where "p = 0xbf58476d1ce4e5b9" and "q = 0x94d049bb133111eb" and "g = 0x9e3779b97f4a7c15"
  have f: "f k x = f k y \<Longrightarrow> x = y" if "22 \<le> k" for k x y
    unfolding f_def using that by (rule xorshift_inject)
  have p: "x * p = y * p \<Longrightarrow> x = y" for x y
    by (rule mult_inject [where c = p and d = "0x96de1b173f119089"]) (simp_all add: p_def)
  have q: "x * q = y * q \<Longrightarrow> x = y" for x y
    by (rule mult_inject [where c = q and d = "0x319642b2d24d8ec3"]) (simp_all add: q_def)
  have "fst (splitmix_next w) = f 31 (f 27 (f 30 (w + g) * p) * q)" for w
    by (simp add: splitmix_next_def Let_def f_def p_def q_def g_def)
  then have "f 31 (f 27 (f 30 (a + g) * p) * q) = f 31 (f 27 (f 30 (b + g) * p) * q)"
    using assms by simp
  from f [OF _ this] have "f 27 (f 30 (a + g) * p) * q = f 27 (f 30 (b + g) * p) * q" by simp
  from f [OF _ q [OF this]] have "f 30 (a + g) * p = f 30 (b + g) * p" by simp
  from f [OF _ p [OF this]] show ?thesis by simp
qed

lemma bit_rotate_left:
  assumes "0 < k" "k < 64" "n < 64"
  shows "bit (rotate_left k w) ((n + k) mod 64) = bit w n"
  using assms
  by (cases "n + k < 64")
    (auto simp: rotate_left_def bit_or_iff bit_push_bit_iff bit_drop_bit_eq mod_if dest: bit_imp_le_length)

lemma rotate_left_inject: "0 < k \<Longrightarrow> k < 64 \<Longrightarrow> rotate_left k v = rotate_left k w \<longleftrightarrow> v = w"
  by (auto intro!: bit_word_eqI) (metis bit_rotate_left)+

lemma rotate_left_eq_0: "0 < k \<Longrightarrow> k < 64 \<Longrightarrow> rotate_left k w = 0 \<longleftrightarrow> w = 0"
  using rotate_left_inject [of k w 0] by (simp add: rotate_left_def)

lemma shift_fixpoint:
  assumes w: "w = push_bit 17 (w::u64)"
  shows "w = 0"
proof (rule bit_word_eqI)
  fix n
  have "bit w m = (17 \<le> m \<and> m < 64 \<and> bit w (m - 17))" for m
    by (subst w) (auto simp: bit_push_bit_iff)
  then have "\<not> bit w m" for m
    by (induction m rule: less_induct) (metis diff_less zero_less_numeral less_le_trans)
  then show "bit w n = bit 0 n" by simp
qed

section \<open>The state is never zero\<close>

definition nonzero_state :: "xoshiro \<Rightarrow> bool" where
  "nonzero_state g \<longleftrightarrow> \<not> (s0 g = 0 \<and> s1 g = 0 \<and> s2 g = 0 \<and> s3 g = 0)"

lemma nonzero_next: "nonzero_state (snd (xoshiro_next g)) \<longleftrightarrow> nonzero_state g"
proof -
  obtain a b c d e where g: "g = \<lparr>s0 = a, s1 = b, s2 = c, s3 = d, xoshiro_seed = e\<rparr>" by (cases g)
  have "a = 0 \<and> b = 0 \<and> c = 0 \<and> d = 0"
    if "b XOR (c XOR a) = 0" "a XOR (d XOR b) = 0" "(c XOR a) XOR push_bit 17 b = 0" "d XOR b = 0"
  proof -
    have a: "a = 0" using that(2,4) by simp
    then have "b = c" using that(1) by (simp add: xor_eq_0)
    then have "b = push_bit 17 b" using that(3) a by (simp add: xor_eq_0)
    then have "b = 0" by (rule shift_fixpoint)
    then show ?thesis using a that(1,4) by (simp add: xor_eq_0)
  qed
  then show ?thesis
    by (auto simp: g nonzero_state_def xoshiro_next_def Let_def rotate_left_eq_0)
qed

lemma nonzero_new: "nonzero_state (xoshiro_new drawn seed)"
proof -
  define x where "x = (if seed \<noteq> 0 then seed else drawn)"
  have "s0 (xoshiro_new drawn seed) = fst (splitmix_next x)"
    "s1 (xoshiro_new drawn seed) = fst (splitmix_next (x + 0x9e3779b97f4a7c15))"
    by (simp_all add: xoshiro_new_def x_def Let_def case_prod_unfold) (simp_all add: splitmix_next_def Let_def)
  moreover have "x \<noteq> x + 0x9e3779b97f4a7c15" by simp
  ultimately show ?thesis using splitmix_inject unfolding nonzero_state_def by metis
qed

lemma nonzero_after: "nonzero_state (xoshiro_after n g) \<longleftrightarrow> nonzero_state g"
  by (induction n arbitrary: g) (simp_all add: nonzero_next)

text \<open>The transition is linear over the XOR of states, and only the zero state goes to zero.\<close>

definition same_state :: "xoshiro \<Rightarrow> xoshiro \<Rightarrow> bool" where
  "same_state g h \<longleftrightarrow> s0 g = s0 h \<and> s1 g = s1 h \<and> s2 g = s2 h \<and> s3 g = s3 h"

lemma xoshiro_next_inject:
  "same_state (snd (xoshiro_next g)) (snd (xoshiro_next h)) \<longleftrightarrow> same_state g h"
proof
  obtain a b c d e a' b' c' d' e' where g: "g = \<lparr>s0 = a, s1 = b, s2 = c, s3 = d, xoshiro_seed = e\<rparr>"
    "h = \<lparr>s0 = a', s1 = b', s2 = c', s3 = d', xoshiro_seed = e'\<rparr>"
    by (cases g; cases h)
  assume "same_state (snd (xoshiro_next g)) (snd (xoshiro_next h))"
  then have eq: "a XOR (d XOR b) = a' XOR (d' XOR b')" "b XOR (c XOR a) = b' XOR (c' XOR a')"
    "(c XOR a) XOR push_bit 17 b = (c' XOR a') XOR push_bit 17 b'" "d XOR b = d' XOR b'"
    by (simp_all (no_asm_use) add: g same_state_def xoshiro_next_def Let_def rotate_left_inject) blast+
  have a: "a = a'" using eq(1) unfolding eq(4) by (rule xor_right_inject)
  have "(b XOR c) XOR a = (b' XOR c') XOR a" using eq(2) a by (simp only: xor.assoc)
  then have "b XOR b' = c XOR c'" by (rule xor_swap [OF xor_right_inject])
  moreover have "(c XOR push_bit 17 b) XOR a = (c' XOR push_bit 17 b') XOR a"
    using eq(3) unfolding a
    by (simp only: xor.assoc xor.commute [of a' "push_bit 17 b"] xor.commute [of a' "push_bit 17 b'"])
  then have "c XOR c' = push_bit 17 b XOR push_bit 17 b'" by (rule xor_swap [OF xor_right_inject])
  ultimately have "b XOR b' = push_bit 17 (b XOR b')" unfolding push_bit_xor by (rule trans)
  then have "b = b'" using shift_fixpoint xor_eq_0 by blast
  then have "c = c'" "d = d'"
    using eq(4) \<open>b XOR b' = c XOR c'\<close> xor_right_inject [of d b d'] xor_eq_0 [of c c'] by simp_all
  then show "same_state g h" using a \<open>b = b'\<close> by (simp add: g same_state_def)
qed (simp add: same_state_def xoshiro_next_def Let_def)

lemma xoshiro_after_inject: "same_state (xoshiro_after n g) (xoshiro_after n h) \<longleftrightarrow> same_state g h"
  by (induction n arbitrary: g h) (simp_all add: xoshiro_next_inject)

section \<open>Properties\<close>

text \<open>The xoshiro256** generator never gets stuck: no seed leads to the all-zero state, the one state
  that repeats itself, at any point of its stream, because SplitMix64 is injective and the state
  transition a bijection; so two streams never merge.\<close>

lemma seeded_xoshiro_never_sticks:
  "\<not> (s0 (xoshiro_after n (xoshiro_new drawn seed)) = 0 \<and> s1 (xoshiro_after n (xoshiro_new drawn seed)) = 0 \<and>
      s2 (xoshiro_after n (xoshiro_new drawn seed)) = 0 \<and> s3 (xoshiro_after n (xoshiro_new drawn seed)) = 0) \<and>
   same_state (xoshiro_after n g) (xoshiro_after n h) = same_state g h"
  using nonzero_after [of n "xoshiro_new drawn seed"] nonzero_new xoshiro_after_inject
  unfolding nonzero_state_def by simp

text \<open>The first outputs for the state \<open>(1, 2, 3, 4)\<close>, as published with the generator.\<close>

lemma xoshiro_reference_outputs:
  "(let (a, g) = xoshiro_next (xoshiro_from_state 1 2 3 4); (b, g) = xoshiro_next g; (c, g) = xoshiro_next g
    in [a, b, c]) = [11520, 0, 1509978240]"
  by code_simp

end
