(* ===== verification/Ranlux.thy ===== *)
theory Ranlux
  imports Prelude "HOL-Library.Word"
begin

text \<open>
  \<open>math/randomnumbers/ranluxuniformrng.rs\<close>: the 48-bit subtract-with-carry engine with its linear
  congruential seeding, on 64-bit words, and the discard-block engine around it. The array is a
  list of 24 words read at indices below 24; the signed subtraction is on the integers it cannot
  leave. The scaling of an output to a floating-point deviate is not modelled.
\<close>

unbundle bit_operations_syntax

section \<open>The code\<close>

definition SHORT_LAG :: nat where "SHORT_LAG = 10"
definition LONG_LAG :: nat where "LONG_LAG = 24"
definition WORD_MASK :: "64 word" where "WORD_MASK = push_bit 48 1 - 1"

record subtract_with_carry =
  swc_x :: "64 word list"
  swc_carry :: "64 word"
  swc_k :: nat

definition next_lcg :: "64 word \<Rightarrow> 64 word" where
  "next_lcg lcg = (40014 * lcg) mod 2147483563"

fun fill_words :: "nat \<Rightarrow> 64 word \<Rightarrow> 64 word list" where
  "fill_words 0 lcg = []"
| "fill_words (Suc n) lcg =
     (let lo = next_lcg lcg; hi = next_lcg lo
      in ((lo + push_bit 32 hi) AND WORD_MASK) # fill_words n hi)"

definition swc_new :: "64 word \<Rightarrow> subtract_with_carry" where
  "swc_new seed =
     (let seed = (if seed = 0 then 19780503 else seed);
          lcg = max (seed mod 2147483563) 1;
          x = fill_words LONG_LAG lcg;
          carry = (if x ! (LONG_LAG - 1) = 0 then 1 else 0)
      in \<lparr>swc_x = x, swc_carry = carry, swc_k = 0\<rparr>)"

definition swc_next :: "subtract_with_carry \<Rightarrow> 64 word \<times> subtract_with_carry" where
  "swc_next g =
     (let short_index = (swc_k g + LONG_LAG - SHORT_LAG) mod LONG_LAG;
          y = sint (swc_x g ! short_index) - sint (swc_x g ! swc_k g) - sint (swc_carry g);
          carry = (if y < 0 then 1 else 0);
          y = (if y < 0 then y + 2 ^ 48 else y);
          w = word_of_int y
      in (w, \<lparr>swc_x = (swc_x g)[swc_k g := w], swc_carry = carry, swc_k = (swc_k g + 1) mod LONG_LAG\<rparr>))"

fun swc_after :: "nat \<Rightarrow> subtract_with_carry \<Rightarrow> subtract_with_carry" where
  "swc_after 0 g = g"
| "swc_after (Suc n) g = swc_after n (snd (swc_next g))"

record ranlux =
  ranlux_base :: subtract_with_carry
  ranlux_used :: nat

definition ranlux_new :: "64 word \<Rightarrow> ranlux" where
  "ranlux_new seed = \<lparr>ranlux_base = swc_new seed, ranlux_used = 0\<rparr>"

definition ranlux_default :: ranlux where
  "ranlux_default = ranlux_new 19780503"

text \<open>The block size \<open>P\<close> and the number \<open>R\<close> of values used per block are constants of the type.\<close>

definition ranlux_next :: "nat \<Rightarrow> nat \<Rightarrow> ranlux \<Rightarrow> 64 word \<times> ranlux" where
  "ranlux_next P R g =
     (let (base, used) = (if ranlux_used g \<ge> R then (swc_after (P - R) (ranlux_base g), 0)
                          else (ranlux_base g, ranlux_used g));
          (y, base) = swc_next base
      in (y, \<lparr>ranlux_base = base, ranlux_used = used + 1\<rparr>))"

definition ranlux3_next :: "ranlux \<Rightarrow> 64 word \<times> ranlux" where
  "ranlux3_next = ranlux_next 223 24"

definition ranlux4_next :: "ranlux \<Rightarrow> 64 word \<times> ranlux" where
  "ranlux4_next = ranlux_next 389 24"

fun ranlux_after :: "nat \<Rightarrow> nat \<Rightarrow> nat \<Rightarrow> ranlux \<Rightarrow> ranlux" where
  "ranlux_after P R 0 g = g"
| "ranlux_after P R (Suc n) g = ranlux_after P R n (snd (ranlux_next P R g))"

section \<open>The ring buffer\<close>

definition swc_ok :: "subtract_with_carry \<Rightarrow> bool" where
  "swc_ok g \<longleftrightarrow> length (swc_x g) = 24 \<and> swc_k g < 24 \<and> (\<forall>w\<in>set (swc_x g). uint w < 2 ^ 48) \<and>
     (swc_carry g = 0 \<or> swc_carry g = 1)"

text \<open>The last 24 outputs, oldest first.\<close>

definition swc_window :: "subtract_with_carry \<Rightarrow> 64 word list" where
  "swc_window g = drop (swc_k g) (swc_x g) @ take (swc_k g) (swc_x g)"

lemma sint_small:
  assumes "uint w < 2 ^ 48"
  shows "sint (w::64 word) = uint w"
proof -
  have "- (2 ^ 63) \<le> uint w" by (rule order_trans [OF _ uint_ge_0]) simp
  moreover have "uint w < 2 ^ 63" by (rule less_trans [OF assms]) simp
  ultimately show ?thesis by (simp add: sint_uint signed_take_bit_int_eq_self)
qed

lemma length_fill [simp]: "length (fill_words n lcg) = n"
  by (induction n arbitrary: lcg) (simp_all add: Let_def)

lemma mask_bound: "uint (w AND WORD_MASK) < 2 ^ 48"
proof -
  have "w AND WORD_MASK = take_bit 48 w"
    by (simp add: WORD_MASK_def take_bit_eq_mask mask_eq_exp_minus_1 push_bit_eq_mult)
  then show ?thesis using take_bit_int_less_exp [of 48 "uint w"] by (simp add: unsigned_take_bit_eq)
qed

lemma fill_bound: "w \<in> set (fill_words n lcg) \<Longrightarrow> uint w < 2 ^ 48"
  using mask_bound by (induction n arbitrary: lcg) (auto simp: Let_def)

lemma swc_ok_new: "swc_ok (swc_new seed)"
  using fill_bound by (simp add: swc_ok_def swc_new_def Let_def LONG_LAG_def)

lemma swc_window_facts:
  assumes "swc_ok g"
  shows "length (swc_window g) = 24" "hd (swc_window g) = swc_x g ! swc_k g"
    "swc_window g ! 14 = swc_x g ! ((swc_k g + 14) mod 24)"
proof -
  have l: "length (swc_x g) = 24" "swc_k g < 24" using assms by (simp_all add: swc_ok_def)
  show "length (swc_window g) = 24" using l by (simp add: swc_window_def)
  show "hd (swc_window g) = swc_x g ! swc_k g" using l by (simp add: swc_window_def hd_drop_conv_nth)
  show "swc_window g ! 14 = swc_x g ! ((swc_k g + 14) mod 24)"
    using l by (cases "swc_k g + 14 < 24") (auto simp: swc_window_def nth_append mod_if)
qed

lemma window_update:
  assumes "k < length xs"
  shows "drop ((k + 1) mod length xs) (xs[k := w]) @ take ((k + 1) mod length xs) (xs[k := w]) =
    tl (drop k xs @ take k xs) @ [w]"
proof -
  obtain a x b where xs: "xs = a @ x # b" "length a = k" using assms by (metis id_take_nth_drop length_take min.absorb4)
  show ?thesis unfolding xs(1) xs(2) [symmetric] by (cases "b = []") simp_all
qed

lemma swc_next_spec:
  assumes ok: "swc_ok g"
  defines "t \<equiv> uint (swc_window g ! 14) - uint (hd (swc_window g)) - uint (swc_carry g)"
  shows "uint (fst (swc_next g)) = t mod 2 ^ 48"
    "swc_carry (snd (swc_next g)) = of_bool (t < 0)"
    "swc_window (snd (swc_next g)) = tl (swc_window g) @ [fst (swc_next g)]"
    "swc_ok (snd (swc_next g))"
proof -
  have l: "length (swc_x g) = 24" "swc_k g < 24" "swc_carry g = 0 \<or> swc_carry g = 1"
    using ok by (simp_all add: swc_ok_def)
  have b: "0 \<le> uint (swc_x g ! i)" "uint (swc_x g ! i) < 2 ^ 48" if "i < 24" for i
    using ok l that by (simp_all add: swc_ok_def)
  let ?s = "swc_x g ! ((swc_k g + 14) mod 24)" and ?r = "swc_x g ! swc_k g"
  have t: "t = uint ?s - uint ?r - uint (swc_carry g)" using swc_window_facts [OF ok] by (simp add: t_def)
  have c: "uint (swc_carry g) = 0 \<or> uint (swc_carry g) = 1" using l(3) by auto
  have k: "(swc_k g + 14) mod 24 < 24" by simp
  have range: "- (2 ^ 48) \<le> t" "t < 2 ^ 48"
    using b [OF k] b [OF l(2)] c unfolding t by linarith+
  have "sint (swc_carry g) = uint (swc_carry g)" using c by (intro sint_small) auto
  then have st: "sint ?s - sint ?r - sint (swc_carry g) = t"
    using b [OF k] b [OF l(2)] by (simp add: t sint_small)
  have idx: "swc_k g + 24 - 10 = swc_k g + 14" by simp
  have n: "swc_next g = (let w = word_of_int (if t < 0 then t + 2 ^ 48 else t) in
      (w, \<lparr>swc_x = (swc_x g)[swc_k g := w], swc_carry = (if t < 0 then 1 else 0), swc_k = (swc_k g + 1) mod 24\<rparr>))"
    unfolding swc_next_def Let_def LONG_LAG_def SHORT_LAG_def idx st ..
  let ?w = "word_of_int (if t < 0 then t + 2 ^ 48 else t) :: 64 word"
  have "(if t < 0 then t + 2 ^ 48 else t) = t mod 2 ^ 48"
  proof (cases "t < 0")
    case True
    have "t mod 2 ^ 48 = (t + 2 ^ 48) mod 2 ^ 48" by simp
    also have "\<dots> = t + 2 ^ 48" using range True by (intro mod_pos_pos_trivial) linarith+
    finally show ?thesis using True by simp
  next
    case False
    then show ?thesis using range by (simp add: mod_pos_pos_trivial)
  qed
  then have w: "uint ?w = t mod 2 ^ 48" by (simp add: uint_word_of_int mod_mod_cancel take_bit_eq_mod)
  then show "uint (fst (swc_next g)) = t mod 2 ^ 48" by (simp add: n Let_def)
  show "swc_carry (snd (swc_next g)) = of_bool (t < 0)" by (simp add: n Let_def)
  show "swc_ok (snd (swc_next g))"
    using ok w by (auto simp: n Let_def swc_ok_def dest!: set_update_subset_insert [THEN subsetD])
  show "swc_window (snd (swc_next g)) = tl (swc_window g) @ [fst (swc_next g)]"
    using window_update [of "swc_k g" "swc_x g"] l by (simp add: n Let_def swc_window_def)
qed

section \<open>Streams\<close>

lemma swc_ok_after: "swc_ok g \<Longrightarrow> swc_ok (swc_after n g)"
  by (induction n arbitrary: g) (simp_all add: swc_next_spec(4))

lemma swc_after_add: "swc_after n (swc_after m g) = swc_after (m + n) g"
  by (induction m arbitrary: g) simp_all

definition swc_output :: "subtract_with_carry \<Rightarrow> nat \<Rightarrow> 64 word" where
  "swc_output g n = fst (swc_next (swc_after n g))"

lemma swc_after_Suc: "swc_after (Suc n) g = snd (swc_next (swc_after n g))"
  using swc_after_add [of 1 n g] by simp

lemma ranlux_after_Suc: "ranlux_after P R (Suc n) g = snd (ranlux_next P R (ranlux_after P R n g))"
  by (induction n arbitrary: g) simp_all

text \<open>Where a generator that has returned \<open>n\<close> values stands in the stream of its engine.\<close>

lemma ranlux_position:
  assumes "0 < R" "R \<le> P" "ranlux_used g = 0"
  shows "ranlux_base (ranlux_after P R n g) =
      swc_after (if n = 0 then 0 else (n - 1) div R * P + (n - 1) mod R + 1) (ranlux_base g) \<and>
    ranlux_used (ranlux_after P R n g) = (if n = 0 then 0 else (n - 1) mod R + 1)"
proof (induction n)
  case (Suc n)
  let ?h = "ranlux_after P R n g"
  have h: "ranlux_after P R (Suc n) g = snd (ranlux_next P R ?h)" by (rule ranlux_after_Suc)
  show ?case
  proof (cases "n = 0")
    case True
    then show ?thesis using assms by (simp add: ranlux_next_def Let_def case_prod_unfold)
  next
    case False
    then obtain m where m: "n = Suc m" by (cases n) auto
    have b: "ranlux_base ?h = swc_after (m div R * P + m mod R + 1) (ranlux_base g)" "ranlux_used ?h = m mod R + 1"
      using Suc m by simp_all
    show ?thesis
    proof (cases "m mod R + 1 = R")
      case True
      then have d: "n div R = m div R + 1" "n mod R = 0" using m by (simp_all add: div_Suc mod_Suc)
      have e: "(m div R * P + m mod R + 1) + (P - R) = n div R * P + n mod R" using d True assms(2) by simp
      have "swc_after (P - R) (ranlux_base ?h) = swc_after (n div R * P + n mod R) (ranlux_base g)"
        unfolding b(1) swc_after_add e ..
      moreover have "ranlux_next P R ?h = (fst (swc_next (swc_after (P - R) (ranlux_base ?h))),
          \<lparr>ranlux_base = snd (swc_next (swc_after (P - R) (ranlux_base ?h))), ranlux_used = 1\<rparr>)"
        using b(2) True by (simp add: ranlux_next_def Let_def case_prod_unfold)
      ultimately show ?thesis unfolding h using d(2) by (simp add: swc_after_Suc [symmetric] del: swc_after.simps)
    next
      case r: False
      then have "m mod R + 1 < R" using assms(1) by (metis Suc_eq_plus1 Suc_lessI mod_less_divisor)
      moreover have "n div R = m div R" "n mod R = m mod R + 1" using m r by (simp_all add: div_Suc mod_Suc)
      ultimately show ?thesis
        unfolding h using b by (simp add: ranlux_next_def Let_def case_prod_unfold swc_after_Suc [symmetric] del: swc_after.simps)
    qed
  qed
qed (simp add: assms)

lemma ranlux_output:
  assumes "0 < R" "R \<le> P" "ranlux_used g = 0"
  shows "fst (ranlux_next P R (ranlux_after P R n g)) = swc_output (ranlux_base g) (n div R * P + n mod R)"
proof -
  note p = ranlux_position [OF assms, of n]
  show ?thesis
  proof (cases "n = 0")
    case True
    then show ?thesis using assms by (simp add: ranlux_next_def Let_def case_prod_unfold swc_output_def)
  next
    case False
    then obtain m where m: "n = Suc m" by (cases n) auto
    have p: "ranlux_base (ranlux_after P R n g) = swc_after (m div R * P + m mod R + 1) (ranlux_base g)"
      "ranlux_used (ranlux_after P R n g) = m mod R + 1"
      using p m by simp_all
    show ?thesis
    proof (cases "m mod R + 1 = R")
      case True
      then have d: "n div R = m div R + 1" "n mod R = 0" using m by (simp_all add: div_Suc mod_Suc)
      have "(m div R * P + m mod R + 1) + (P - R) = n div R * P + n mod R" using d True assms(2) by simp
      then show ?thesis
        using p True by (simp add: ranlux_next_def Let_def case_prod_unfold swc_after_add swc_output_def del: swc_after.simps)
    next
      case r: False
      then have l: "m mod R + 1 < R" using assms(1) by (metis Suc_eq_plus1 Suc_lessI mod_less_divisor)
      have d: "n div R = m div R" "n mod R = m mod R + 1" using m r by (simp_all add: div_Suc mod_Suc)
      then show ?thesis
        using p l by (simp add: ranlux_next_def Let_def case_prod_unfold swc_output_def del: swc_after.simps)
    qed
  qed
qed

section \<open>Properties\<close>

text \<open>C20. The ring buffer of the engine is the sliding window of the last 24 outputs: every output is
  \<open>x(n - 10) - x(n - 24) - carry\<close> modulo \<open>2 ^ 48\<close>, the carry is the borrow of that subtraction, and
  the state stays in range, whatever the seed.\<close>

theorem ring_buffer_is_subtract_with_carry:
  "let g = swc_after n (swc_new seed); y = swc_output (swc_new seed) n in
    uint y = (uint (swc_window g ! 14) - uint (hd (swc_window g)) - uint (swc_carry g)) mod 2 ^ 48 \<and>
    (swc_carry (snd (swc_next g)) = 1) = (uint (swc_window g ! 14) < uint (hd (swc_window g)) + uint (swc_carry g)) \<and>
    swc_window (snd (swc_next g)) = tl (swc_window g) @ [y] \<and> length (swc_window g) = 24 \<and> uint y < 2 ^ 48"
proof -
  let ?g = "swc_after n (swc_new seed)"
  have ok: "swc_ok ?g" by (rule swc_ok_after [OF swc_ok_new])
  have o: "swc_output (swc_new seed) n = fst (swc_next ?g)" by (simp add: swc_output_def)
  show ?thesis
    using swc_next_spec(1-3) [OF ok] swc_window_facts(1) [OF ok] by (auto simp: o Let_def)
qed

text \<open>The luxury generators read their engine in blocks: the \<open>n\<close>-th value of a generator of block size
  \<open>P\<close> using \<open>R\<close> values per block is the value of the engine at position \<open>(n div R) * P + n mod R\<close>, that
  is, of every 223 (or 389) engine values the first 24 are used and the rest thrown away.\<close>

lemma luxury_discards_blocks:
  "fst (ranlux3_next (ranlux_after 223 24 n (ranlux_new seed))) =
     swc_output (swc_new seed) (n div 24 * 223 + n mod 24) \<and>
   fst (ranlux4_next (ranlux_after 389 24 n (ranlux_new seed))) =
     swc_output (swc_new seed) (n div 24 * 389 + n mod 24)"
  by (simp add: ranlux3_next_def ranlux4_next_def ranlux_output ranlux_new_def)

end
