(* ===== verification/Mersenne.thy ===== *)
theory Mersenne
  imports Prelude "HOL-Library.Word"
begin

text \<open>
  \<open>math/randomnumbers/mt19937uniformrng.rs\<close> and \<open>seedgenerator.rs\<close>: the Mersenne Twister on 32-bit
  words, and the process-wide seed generator built on it. The state array is a list of 624 words.
  The conversion of an output to a floating-point deviate is not modelled; the clock the seed
  generator reads is a parameter, and its mutex-guarded instance is passed as state.
\<close>

unbundle bit_operations_syntax

section \<open>The code\<close>

type_synonym u32 = "32 word"

definition N :: nat where "N = 624"
definition M :: nat where "M = 397"
definition MATRIX_A :: u32 where "MATRIX_A = 0x9908b0df"
definition UPPER_MASK :: u32 where "UPPER_MASK = 0x80000000"
definition LOWER_MASK :: u32 where "LOWER_MASK = 0x7fffffff"

record mersenne =
  mt :: "u32 list"
  mti :: nat
  mt_seed :: "u32 option"

fun fill_state :: "nat \<Rightarrow> nat \<Rightarrow> u32 \<Rightarrow> u32 list" where
  "fill_state 0 i previous = []"
| "fill_state (Suc k) i previous =
     (let w = 1812433253 * (previous XOR drop_bit 30 previous) + of_nat i in w # fill_state k (i + 1) w)"

definition mt_new :: "u32 \<Rightarrow> u32 \<Rightarrow> mersenne" where
  "mt_new drawn seed =
     (let s = (if seed \<noteq> 0 then seed else drawn)
      in \<lparr>mt = s # fill_state (N - 1) 1 s, mti = N, mt_seed = Some s\<rparr>)"

text \<open>The two mixing loops of \<open>from_seeds\<close>; the first argument counts the iterations left.\<close>

definition mix :: "u32 \<Rightarrow> u32 list \<Rightarrow> nat \<Rightarrow> u32" where
  "mix factor ws i = ws ! i XOR (ws ! (i - 1) XOR drop_bit 30 (ws ! (i - 1))) * factor"

definition wrap_index :: "u32 list \<Rightarrow> nat \<Rightarrow> u32 list \<times> nat" where
  "wrap_index ws i = (if i + 1 \<ge> N then (ws[0 := ws ! (N - 1)], 1) else (ws, i + 1))"

fun mix_seeds :: "nat \<Rightarrow> u32 list \<Rightarrow> u32 list \<Rightarrow> nat \<Rightarrow> nat \<Rightarrow> u32 list \<times> nat" where
  "mix_seeds 0 seeds ws i j = (ws, i)"
| "mix_seeds (Suc k) seeds ws i j =
     (let ws = ws[i := mix 1664525 ws i + seeds ! j + of_nat j];
          (ws, i) = wrap_index ws i
      in mix_seeds k seeds ws i (if j + 1 \<ge> length seeds then 0 else j + 1))"

fun mix_again :: "nat \<Rightarrow> u32 list \<Rightarrow> nat \<Rightarrow> u32 list" where
  "mix_again 0 ws i = ws"
| "mix_again (Suc k) ws i =
     (let ws = ws[i := mix 1566083941 ws i - of_nat i];
          (ws, i) = wrap_index ws i
      in mix_again k ws i)"

definition mt_from_seeds :: "u32 list \<Rightarrow> mersenne option" where
  "mt_from_seeds seeds = do {
     assert_that (seeds \<noteq> []);
     let ws = mt (mt_new 0 19650218);
     let (ws, i) = mix_seeds (max N (length seeds)) seeds ws 1 0;
     let ws = mix_again (N - 1) ws i;
     Some \<lparr>mt = ws[0 := UPPER_MASK], mti = N, mt_seed = None\<rparr>
   }"

text \<open>\<open>mag01[y & 1]\<close> is \<open>0\<close> or \<open>MATRIX_A\<close>.\<close>

definition twist_word :: "u32 \<Rightarrow> u32 \<Rightarrow> u32 \<Rightarrow> u32" where
  "twist_word far a b =
     (let y = (a AND UPPER_MASK) OR (b AND LOWER_MASK)
      in far XOR drop_bit 1 y XOR (if y AND 1 = 0 then 0 else MATRIX_A))"

definition twist :: "mersenne \<Rightarrow> mersenne" where
  "twist g =
     (let ws = mt g;
          ws = fold (\<lambda>kk ws. ws[kk := twist_word (ws ! (kk + M)) (ws ! kk) (ws ! (kk + 1))]) [0..<N - M] ws;
          ws = fold (\<lambda>kk ws. ws[kk := twist_word (ws ! (kk + M - N)) (ws ! kk) (ws ! (kk + 1))]) [N - M..<N - 1] ws;
          ws = ws[N - 1 := twist_word (ws ! (M - 1)) (ws ! (N - 1)) (ws ! 0)]
      in g\<lparr>mt := ws, mti := 0\<rparr>)"

definition temper :: "u32 \<Rightarrow> u32" where
  "temper y =
     (let y = y XOR drop_bit 11 y;
          y = y XOR (push_bit 7 y AND 0x9d2c5680);
          y = y XOR (push_bit 15 y AND 0xefc60000)
      in y XOR drop_bit 18 y)"

definition next_u32 :: "mersenne \<Rightarrow> u32 \<times> mersenne" where
  "next_u32 g =
     (let g = (if mti g = N then twist g else g)
      in (temper (mt g ! mti g), g\<lparr>mti := mti g + 1\<rparr>))"

fun mt_after :: "nat \<Rightarrow> mersenne \<Rightarrow> mersenne" where
  "mt_after 0 g = g"
| "mt_after (Suc n) g = mt_after n (snd (next_u32 g))"

text \<open>The process-wide generator, initialised from the seconds of the clock; a first seed or second
  seed of zero draws from the generator that is being initialised, which is the parameter \<open>drawn\<close>.\<close>

definition initialize :: "u32 \<Rightarrow> u32 \<Rightarrow> mersenne option" where
  "initialize drawn seconds = do {
     let first = mt_new drawn seconds;
     let (second_seed, first) = next_u32 first;
     let second = mt_new drawn second_seed;
     let (r, second) = next_u32 second;
     let skip = unat r mod 1000;
     let (a, second) = next_u32 second;
     let (b, second) = next_u32 second;
     let (c, second) = next_u32 second;
     let (d, second) = next_u32 second;
     rng \<leftarrow> mt_from_seeds [a, b, c, d];
     Some (mt_after skip rng)
   }"

text \<open>The redrawing loop ends only if the generator eventually returns something but zero.\<close>

partial_function (option) get_nonzero :: "mersenne \<Rightarrow> (u32 \<times> mersenne) option" where
  "get_nonzero g = (let (seed, g) = next_u32 g in if seed \<noteq> 0 then Some (seed, g) else get_nonzero g)"

declare get_nonzero.simps [code]

section \<open>The recurrence\<close>

text \<open>The sequence of the reference: \<open>x(k + 624)\<close> from \<open>x(k + 397)\<close> and the joined \<open>x(k)\<close>, \<open>x(k + 1)\<close>.\<close>

definition twisted :: "(nat \<Rightarrow> u32) \<Rightarrow> bool" where
  "twisted x \<longleftrightarrow> (\<forall>k. x (k + N) = twist_word (x (k + M)) (x k) (x (k + 1)))"

fun reference_word :: "u32 list \<Rightarrow> nat \<Rightarrow> u32" where
  "reference_word ws k =
     (if k < 624 then ws ! k
      else twist_word (reference_word ws (k - 227)) (reference_word ws (k - 624)) (reference_word ws (k - 623)))"

declare reference_word.simps [simp del]

lemma reference_twisted: "twisted (reference_word ws)"
proof -
  have "reference_word ws (k + 624) = twist_word (reference_word ws (k + 397)) (reference_word ws k) (reference_word ws (k + 1))" for k
    by (subst reference_word.simps) (simp add: add.commute)
  then show ?thesis by (simp add: twisted_def N_def M_def)
qed

definition window_at :: "(nat \<Rightarrow> u32) \<Rightarrow> nat \<Rightarrow> u32 list \<Rightarrow> bool" where
  "window_at x b ws \<longleftrightarrow> length ws = N \<and> (\<forall>i<N. ws ! i = x (b + i))"

text \<open>A twist that has reached index \<open>k\<close>.\<close>

definition twisting :: "(nat \<Rightarrow> u32) \<Rightarrow> nat \<Rightarrow> nat \<Rightarrow> u32 list \<Rightarrow> bool" where
  "twisting x b k ws \<longleftrightarrow> length ws = N \<and> (\<forall>i<N. ws ! i = (if i < k then x (b + N + i) else x (b + i)))"

lemma twisting_step:
  assumes x: "twisted x" and t: "twisting x b k ws" and k: "k < N"
    and s: "s = (if k + M < N then k + M else k + M - N)" and r: "r = (if k + 1 < N then k + 1 else 0)"
  shows "twisting x b (k + 1) (ws[k := twist_word (ws ! s) (ws ! k) (ws ! r)])"
proof -
  have ws: "ws ! i = (if i < k then x (b + N + i) else x (b + i))" if "i < N" for i
    using t that by (simp add: twisting_def)
  have "s < N" "b + k + M = (if s < k then b + N + s else b + s)"
    using k s by (auto simp: N_def M_def)
  then have "ws ! s = x (b + k + M)" using ws [of s] by simp
  moreover have "ws ! k = x (b + k)" using ws [of k] k by simp
  moreover have "ws ! r = x (b + k + 1)"
  proof -
    have "r < N" "b + k + 1 = (if r < k then b + N + r else b + r)" using k r by (auto simp: N_def)
    then show ?thesis using ws [of r] by simp
  qed
  moreover have "x (b + k + N) = twist_word (x (b + k + M)) (x (b + k)) (x (b + k + 1))"
    using x by (simp add: twisted_def)
  ultimately show ?thesis
    using t k by (auto simp: twisting_def nth_list_update less_Suc_eq add.commute add.left_commute)
qed

lemma twisting_fold:
  assumes x: "twisted x" and t: "twisting x b m ws" and n: "m \<le> n" "n < N"
    and s: "\<And>k. m \<le> k \<Longrightarrow> k < n \<Longrightarrow> s k = (if k + M < N then k + M else k + M - N)"
  shows "twisting x b n (fold (\<lambda>k ws. ws[k := twist_word (ws ! s k) (ws ! k) (ws ! (k + 1))]) [m..<n] ws)"
  using n s
proof (induction n rule: dec_induct)
  case (step n)
  have "twisting x b (n + 1) (ws'[n := twist_word (ws' ! s n) (ws' ! n) (ws' ! (n + 1))])"
    if "twisting x b n ws'" for ws'
    using twisting_step [OF x that, of "s n" "n + 1"] step by simp
  then show ?case using step by simp
qed (simp add: t)

lemma twist_window:
  assumes x: "twisted x" and w: "window_at x b (mt g)"
  shows "window_at x (b + N) (mt (twist g))"
proof -
  let ?f = "\<lambda>s k (ws :: u32 list). ws[k := twist_word (ws ! s k) (ws ! k) (ws ! (k + 1))]"
  define u where "u = fold (?f (\<lambda>k. k + M)) [0..<N - M] (mt g)"
  define v where "v = fold (?f (\<lambda>k. k + M - N)) [N - M..<N - 1] u"
  have "twisting x b 0 (mt g)" using w by (simp add: twisting_def window_at_def)
  then have "twisting x b (N - M) u" unfolding u_def by (rule twisting_fold [OF x]) (auto simp: N_def M_def)
  then have v: "twisting x b (N - 1) v" unfolding v_def by (rule twisting_fold [OF x]) (auto simp: N_def M_def)
  have i: "N - 1 < N" "M - 1 = (if N - 1 + M < N then N - 1 + M else N - 1 + M - N)"
    "0 = (if N - 1 + 1 < N then N - 1 + 1 else 0)" "N - 1 + 1 = N"
    by (simp_all add: N_def M_def)
  from twisting_step [OF x v i(1-3)]
  have "twisting x b N (v[N - 1 := twist_word (v ! (M - 1)) (v ! (N - 1)) (v ! 0)])" unfolding i(4) .
  moreover have "mt (twist g) = v[N - 1 := twist_word (v ! (M - 1)) (v ! (N - 1)) (v ! 0)]"
    unfolding twist_def Let_def u_def v_def by simp
  ultimately show ?thesis by (simp add: twisting_def window_at_def)
qed

lemma mt_position:
  assumes x: "twisted x" and w: "window_at x 0 (mt g)" "mti g = N"
  shows "\<exists>b. window_at x b (mt (mt_after n g)) \<and> b + mti (mt_after n g) = n + N \<and> mti (mt_after n g) \<le> N"
proof (induction n)
  case (Suc n)
  have h: "mt_after (Suc n) g = snd (next_u32 (mt_after n g))" by (induction n arbitrary: g) simp_all
  obtain b where b: "window_at x b (mt (mt_after n g))" "b + mti (mt_after n g) = n + N" "mti (mt_after n g) \<le> N"
    using Suc by blast
  show ?case
  proof (cases "mti (mt_after n g) = N")
    case True
    have "mti (twist g) = 0" for g by (simp add: twist_def Let_def)
    then show ?thesis
      unfolding h using twist_window [OF x b(1)] True b(2) by (intro exI [of _ "b + N"]) (simp add: next_u32_def Let_def N_def)
  next
    case False
    then show ?thesis unfolding h using b by (intro exI [of _ b]) (simp add: next_u32_def Let_def)
  qed
qed (use w in \<open>auto intro: exI [of _ 0]\<close>)

lemma mt_output:
  assumes x: "twisted x" and w: "window_at x 0 (mt g)" "mti g = N"
  shows "fst (next_u32 (mt_after n g)) = temper (x (n + N)) \<and> mti (mt_after n g) \<le> N \<and> length (mt (mt_after n g)) = N"
proof -
  obtain b where b: "window_at x b (mt (mt_after n g))" "b + mti (mt_after n g) = n + N" "mti (mt_after n g) \<le> N"
    using mt_position [OF x w] by blast
  have t: "mti (twist g) = 0" for g by (simp add: twist_def Let_def)
  have "fst (next_u32 (mt_after n g)) = temper (x (n + N))"
  proof (cases "mti (mt_after n g) = N")
    case True
    then show ?thesis using twist_window [OF x b(1)] b(2) t by (simp add: next_u32_def Let_def window_at_def N_def)
  next
    case False
    then show ?thesis using b by (simp add: next_u32_def Let_def window_at_def)
  qed
  then show ?thesis using b by (simp add: window_at_def)
qed

section \<open>Seeding\<close>

lemma length_fill_state [simp]: "length (fill_state k i w) = k"
  by (induction k arbitrary: i w) (simp_all add: Let_def)

lemma mt_new_ok: "length (mt (mt_new drawn seed)) = N" "mti (mt_new drawn seed) = N"
  by (simp_all add: mt_new_def Let_def N_def)

lemma wrap_index_ok:
  "length ws = N \<Longrightarrow> 1 \<le> i \<Longrightarrow> i < N \<Longrightarrow> wrap_index ws i = (ws', i') \<Longrightarrow> length ws' = N \<and> 1 \<le> i' \<and> i' < N"
  by (auto simp: wrap_index_def N_def split: if_splits)

lemma mix_seeds_ok:
  "length ws = N \<Longrightarrow> 1 \<le> i \<Longrightarrow> i < N \<Longrightarrow> mix_seeds k seeds ws i j = (ws', i') \<Longrightarrow>
   length ws' = N \<and> 1 \<le> i' \<and> i' < N"
proof (induction k arbitrary: ws i j)
  case (Suc k)
  obtain ws1 i1 where w: "wrap_index (ws[i := mix 1664525 ws i + seeds ! j + of_nat j]) i = (ws1, i1)" by fastforce
  have "length ws1 = N \<and> 1 \<le> i1 \<and> i1 < N" using wrap_index_ok [OF _ _ _ w] Suc.prems by simp
  then show ?case using Suc.IH [of ws1 i1 "if j + 1 \<ge> length seeds then 0 else j + 1"] Suc.prems w by (simp add: Let_def)
qed simp

lemma mix_again_ok: "length ws = N \<Longrightarrow> 1 \<le> i \<Longrightarrow> i < N \<Longrightarrow> length (mix_again k ws i) = N"
proof (induction k arbitrary: ws i)
  case (Suc k)
  obtain ws1 i1 where w: "wrap_index (ws[i := mix 1566083941 ws i - of_nat i]) i = (ws1, i1)" by fastforce
  have "length ws1 = N \<and> 1 \<le> i1 \<and> i1 < N" using wrap_index_ok [OF _ _ _ w] Suc.prems by simp
  then show ?case using Suc.IH [of ws1 i1] w by (simp add: Let_def)
qed simp

lemma mt_from_seeds_ok:
  assumes "mt_from_seeds seeds = Some g"
  shows "length (mt g) = N" "mti g = N" "mt g ! 0 = UPPER_MASK" "seeds \<noteq> []"
proof -
  obtain ws i where m: "mix_seeds (max N (length seeds)) seeds (mt (mt_new 0 19650218)) 1 0 = (ws, i)" by fastforce
  have "length ws = N \<and> 1 \<le> i \<and> i < N"
    using mix_seeds_ok [OF mt_new_ok(1) _ _ m] by (simp add: N_def)
  then have "length (mix_again (N - 1) ws i) = N" using mix_again_ok by blast
  moreover have "g = \<lparr>mt = (mix_again (N - 1) ws i)[0 := UPPER_MASK], mti = N, mt_seed = None\<rparr>" "seeds \<noteq> []"
    using assms m by (auto simp: mt_from_seeds_def Let_def bind_eq_Some_conv)
  ultimately show "length (mt g) = N" "mti g = N" "mt g ! 0 = UPPER_MASK" "seeds \<noteq> []"
    by (simp_all add: N_def)
qed

section \<open>Tempering\<close>

lemma xorshift_right_inject:
  assumes k: "0 < k" and e: "(a::u32) XOR drop_bit k a = b XOR drop_bit k b"
  shows "a = b"
proof (rule bit_word_eqI)
  have e': "(bit a n \<noteq> bit a (n + k)) = (bit b n \<noteq> bit b (n + k))" for n
    using arg_cong [OF e, of "\<lambda>w. bit w n"] by (simp add: bit_xor_iff bit_drop_bit_eq add.commute)
  fix n assume "n < LENGTH(32)"
  show "bit a n = bit b n"
  proof (induction "32 - n" arbitrary: n rule: less_induct)
    case less
    show ?case
    proof (cases "n < 32")
      case True
      then have "bit a (n + k) = bit b (n + k)" using less [of "n + k"] k by simp
      then show ?thesis using e' [of n] by blast
    next
      case False
      then show ?thesis by (auto dest: bit_imp_le_length)
    qed
  qed
qed

lemma xorshift_left_inject:
  assumes k: "0 < k" and e: "(a::u32) XOR (push_bit k a AND m) = b XOR (push_bit k b AND m)"
  shows "a = b"
proof (rule bit_word_eqI)
  fix n assume "n < LENGTH(32)"
  then show "bit a n = bit b n"
  proof (induction n rule: less_induct)
    case (less n)
    have "(bit a n \<noteq> (k \<le> n \<and> bit a (n - k) \<and> bit m n)) = (bit b n \<noteq> (k \<le> n \<and> bit b (n - k) \<and> bit m n))"
      using arg_cong [OF e, of "\<lambda>w. bit w n"] less.prems by (auto simp: bit_xor_iff bit_and_iff bit_push_bit_iff)
    then show ?case using less.IH [of "n - k"] less.prems k by (cases "k \<le> n") auto
  qed
qed

lemma temper_inject: "temper a = temper b \<longleftrightarrow> a = b"
proof
  define right where "right k w = w XOR drop_bit k w" for k and w :: u32
  define left where "left k m w = w XOR (push_bit k w AND m)" for k and m w :: u32
  have r: "right k v = right k w \<Longrightarrow> v = w" if "0 < k" for k v w
    unfolding right_def using that by (rule xorshift_right_inject)
  have l: "left k m v = left k m w \<Longrightarrow> v = w" if "0 < k" for k m v w
    unfolding left_def using that by (rule xorshift_left_inject)
  have t: "temper w = right 18 (left 15 0xefc60000 (left 7 0x9d2c5680 (right 11 w)))" for w
    by (simp add: temper_def Let_def right_def left_def)
  assume "temper a = temper b"
  from r [OF _ this [unfolded t]]
  have "left 15 0xefc60000 (left 7 0x9d2c5680 (right 11 a)) = left 15 0xefc60000 (left 7 0x9d2c5680 (right 11 b))"
    by simp
  from l [OF _ this] have "left 7 0x9d2c5680 (right 11 a) = left 7 0x9d2c5680 (right 11 b)" by simp
  from l [OF _ this] have "right 11 a = right 11 b" by simp
  from r [OF _ this] show "a = b" by simp
qed simp

lemma temper_0: "temper a = 0 \<longleftrightarrow> a = 0"
  using temper_inject [of a 0] by (simp add: temper_def)

section \<open>The generator does not die out\<close>

lemma twist_word_0: "twist_word 0 a b = 0 \<Longrightarrow> a AND UPPER_MASK = 0 \<and> b AND LOWER_MASK = 0"
proof -
  define y where "y = (a AND UPPER_MASK) OR (b AND LOWER_MASK)"
  assume "twist_word 0 a b = 0"
  then have y: "drop_bit 1 y XOR (if y AND 1 = 0 then 0 else MATRIX_A) = 0"
    by (simp add: twist_word_def y_def Let_def)
  have even: "y AND 1 = 0 \<longleftrightarrow> \<not> bit y 0" by (simp add: and_one_eq bit_0 even_iff_mod_2_eq_zero)
  have "y AND 1 = 0"
  proof (rule ccontr)
    assume "y AND 1 \<noteq> 0"
    then have "drop_bit 1 y XOR MATRIX_A = 0" using y by (simp only: if_False)
    then have "\<not> bit (drop_bit 1 y XOR MATRIX_A) 31" by (simp only: bit_0_eq bot_apply bot_bool_def simp_thms)
    moreover have "bit MATRIX_A 31" by (simp add: MATRIX_A_def)
    moreover have "\<not> bit (drop_bit 1 y) 31" by (auto simp: bit_drop_bit_eq dest: bit_imp_le_length)
    ultimately show False by (simp only: bit_xor_iff simp_thms)
  qed
  then have "drop_bit 1 y = 0" using y by (simp only: if_True xor.right_neutral refl)
  then have "\<not> bit (drop_bit 1 y) n" for n by (simp only: bit_0_eq bot_apply bot_bool_def simp_thms)
  then have "\<not> bit y (Suc n)" for n by (simp only: bit_drop_bit_eq comp_apply plus_1_eq_Suc simp_thms)
  moreover have "\<not> bit y 0" using even \<open>y AND 1 = 0\<close> by blast
  ultimately have "\<not> bit y n" for n by (cases n) simp_all
  then have "\<not> bit (a AND UPPER_MASK) n" "\<not> bit (b AND LOWER_MASK) n" for n
    by (auto simp: y_def bit_or_iff)
  then show ?thesis by (auto intro!: bit_word_eqI)
qed

text \<open>The 19937 bits of a state that the later words depend on are all zero.\<close>

definition dead_at :: "(nat \<Rightarrow> u32) \<Rightarrow> nat \<Rightarrow> bool" where
  "dead_at x b \<longleftrightarrow> x b AND UPPER_MASK = 0 \<and> (\<forall>i. 1 \<le> i \<and> i < N \<longrightarrow> x (b + i) = 0)"

lemma masks_cover: "(w::u32) AND UPPER_MASK = 0 \<Longrightarrow> w AND LOWER_MASK = 0 \<Longrightarrow> w = 0"
proof -
  assume "w AND UPPER_MASK = 0" "w AND LOWER_MASK = 0"
  moreover have "UPPER_MASK OR LOWER_MASK = - 1" by (simp add: UPPER_MASK_def LOWER_MASK_def)
  ultimately show ?thesis by (metis and.right_neutral bit.conj_disj_distrib or.left_neutral)
qed

lemma dead_back:
  assumes x: "twisted x" and d: "dead_at x (b + 1)"
  shows "dead_at x b"
proof -
  have z: "x (b + i) = 0" if "2 \<le> i" "i \<le> N" for i
    using d that unfolding dead_at_def by (auto dest!: spec [of _ "i - 1"] simp: N_def)
  have "x (b + N) = twist_word (x (b + M)) (x b) (x (b + 1))" using x by (simp add: twisted_def)
  then have "twist_word 0 (x b) (x (b + 1)) = 0" using z [of N] z [of M] by (simp add: N_def M_def)
  then have t: "x b AND UPPER_MASK = 0" "x (b + 1) AND LOWER_MASK = 0" using twist_word_0 by blast+
  then have "x (b + 1) = 0" using d masks_cover by (simp add: dead_at_def)
  then have "x (b + i) = 0" if "1 \<le> i" "i < N" for i using z [of i] that by (cases "i = 1") auto
  then show ?thesis using t(1) by (simp add: dead_at_def)
qed

lemma dead_start: "twisted x \<Longrightarrow> dead_at x b \<Longrightarrow> dead_at x 0"
  by (induction b) (use dead_back in fastforce)+

lemma fill_state_alive: "\<not> (fill_state (Suc (Suc k)) 1 s ! 0 = 0 \<and> fill_state (Suc (Suc k)) 1 s ! 1 = 0)"
  by (auto simp: Let_def)

lemma seeded_alive:
  assumes "mt_from_seeds seeds = Some g \<or> g = mt_new drawn seed"
  shows "\<not> dead_at (reference_word (mt g)) 0"
proof
  assume d: "dead_at (reference_word (mt g)) 0"
  have r: "reference_word (mt g) i = mt g ! i" if "i < N" for i
    using that by (subst reference_word.simps) (simp add: N_def)
  have z: "mt g ! 0 AND UPPER_MASK = 0" "mt g ! 1 = 0" "mt g ! 2 = 0"
    using d r [of 0] r [of 1] r [of 2] by (auto simp: dead_at_def N_def)
  from assms show False
  proof
    assume "mt_from_seeds seeds = Some g"
    from mt_from_seeds_ok(3) [OF this] show False using z(1) by (simp add: UPPER_MASK_def)
  next
    assume g: "g = mt_new drawn seed"
    have n: "N - 1 = Suc (Suc 621)" by (simp add: N_def)
    have "mt g = (if seed \<noteq> 0 then seed else drawn) # fill_state (Suc (Suc 621)) 1 (if seed \<noteq> 0 then seed else drawn)"
      unfolding g mt_new_def Let_def n by simp
    then show False
      using z(2,3) fill_state_alive [of 621 "if seed \<noteq> 0 then seed else drawn"]
      by (simp del: fill_state.simps add: numeral_2_eq_2)
  qed
qed

lemma seeded_window:
  assumes "mt_from_seeds seeds = Some g \<or> g = mt_new drawn seed"
  shows "window_at (reference_word (mt g)) 0 (mt g)" "mti g = N"
proof -
  have l: "length (mt g) = N" and "mti g = N"
    using assms mt_from_seeds_ok(1,2) mt_new_ok by auto
  moreover have "mt g ! i = reference_word (mt g) i" if "i < N" for i
    using that by (subst reference_word.simps) (simp add: N_def)
  ultimately show "window_at (reference_word (mt g)) 0 (mt g)" "mti g = N" by (simp_all add: window_at_def)
qed

lemma nonzero_ahead:
  assumes "mt_from_seeds seeds = Some g \<or> g = mt_new drawn seed"
  shows "\<exists>k<N. fst (next_u32 (mt_after (n + k) g)) \<noteq> 0"
proof (rule ccontr)
  let ?x = "reference_word (mt g)"
  assume "\<not> ?thesis"
  then have z: "?x (n + k + N) = 0" if "k < N" for k
    using that mt_output [OF reference_twisted seeded_window [OF assms], of "n + k"] by (simp add: temper_0)
  then have "?x (n + N + k) = 0" if "k < N" for k
    using z [OF that] by (simp add: add.assoc add.commute [of k])
  from this [of 0] this have "dead_at ?x (n + N)" by (simp add: dead_at_def N_def)
  then show False using dead_start [OF reference_twisted] seeded_alive [OF assms] by blast
qed

text \<open>The redrawing loop returns the first output that is not zero.\<close>

lemma get_nonzero_first:
  assumes "fst (next_u32 (mt_after k g)) \<noteq> 0" "\<And>i. i < k \<Longrightarrow> fst (next_u32 (mt_after i g)) = 0"
  shows "get_nonzero g = Some (next_u32 (mt_after k g))"
  using assms
proof (induction k arbitrary: g)
  case 0
  then show ?case by (subst get_nonzero.simps) (simp add: case_prod_unfold Let_def)
next
  case (Suc k)
  have "fst (next_u32 g) = 0" using Suc.prems(2) [of 0] by simp
  moreover have "get_nonzero (snd (next_u32 g)) = Some (next_u32 (mt_after k (snd (next_u32 g))))"
    using Suc.prems(2) [of "Suc _"] by (intro Suc.IH) (use Suc.prems(1) in auto)
  ultimately show ?case by (subst get_nonzero.simps) (simp add: case_prod_unfold Let_def)
qed

lemma mt_after_add: "mt_after k (mt_after n g) = mt_after (n + k) g"
  by (induction n arbitrary: g) simp_all

section \<open>Properties\<close>

text \<open>C21. The in-place generation of 624 words at a time is the reference recurrence of the Mersenne
  Twister: the \<open>n\<close>-th output of a seeded generator is the tempered word \<open>x(n + 624)\<close> of the sequence
  that starts with its state, and the array is never read out of range.\<close>

theorem mersenne_is_the_reference_recurrence:
  assumes "mt_from_seeds seeds = Some g \<or> g = mt_new drawn seed"
  shows "fst (next_u32 (mt_after n g)) = temper (reference_word (mt g) (n + 624)) \<and>
    length (mt (mt_after n g)) = 624 \<and> mti (mt_after n g) \<le> 624"
  using mt_output [OF reference_twisted seeded_window [OF assms], of n] by (simp add: N_def)

lemma mersenne_is_the_reference_recurrence_witness:
  "fst (next_u32 (mt_after 0 (mt_new 0 5489))) = temper (reference_word (mt (mt_new 0 5489)) 624)"
proof -
  have g: "mt_from_seeds [] = Some (mt_new 0 5489) \<or> mt_new 0 5489 = mt_new 0 5489" by simp
  from mersenne_is_the_reference_recurrence [OF g, of 0] show ?thesis by simp
qed

text \<open>The seed generator always finds a seed: at any point of the stream of a seeded Mersenne Twister
  one of the next 624 outputs is not zero, so the loop that redraws past zeros ends, and it returns
  the first output that is not zero.\<close>

lemma redrawing_terminates:
  assumes "mt_from_seeds seeds = Some g \<or> g = mt_new drawn seed"
  shows "\<exists>k<624. get_nonzero (mt_after n g) = Some (next_u32 (mt_after (n + k) g)) \<and>
    fst (next_u32 (mt_after (n + k) g)) \<noteq> 0"
proof -
  obtain j where j: "j < N" "fst (next_u32 (mt_after (n + j) g)) \<noteq> 0" using nonzero_ahead [OF assms] by blast
  define k where "k = (LEAST k. fst (next_u32 (mt_after (n + k) g)) \<noteq> 0)"
  have "fst (next_u32 (mt_after (n + k) g)) \<noteq> 0"
    unfolding k_def using j(2) by (rule LeastI [where P = "\<lambda>k. fst (next_u32 (mt_after (n + k) g)) \<noteq> 0"])
  moreover have "k \<le> j"
    unfolding k_def using j(2) by (rule Least_le [where P = "\<lambda>k. fst (next_u32 (mt_after (n + k) g)) \<noteq> 0"])
  moreover have "fst (next_u32 (mt_after (n + i) g)) = 0" if "i < k" for i
    using not_less_Least [OF that [unfolded k_def]] by blast
  ultimately show ?thesis
    using get_nonzero_first [of k "mt_after n g"] j(1) by (intro exI [of _ k]) (simp add: mt_after_add N_def)
qed

end
