(* ===== verification/Uniform_Reals.thy ===== *)
theory Uniform_Reals
  imports Floats Xoshiro Ranlux Mersenne
begin

text \<open>
  The uniform deviates the generators of \<open>math/randomnumbers\<close> make of their words, in floating point:
  \<open>(u + 0.5) / 2 ^ 32\<close> for the Mersenne Twister, \<open>u * 2 ^ -48\<close> for Ranlux and \<open>(u + 0.5) * 2 ^ -53\<close> for
  xoshiro256**. The first two are exact. In the third the sum needs 54 bits, so it is rounded, and the
  largest word is rounded up to the end of the interval.
\<close>

section \<open>The conversions\<close>

definition f64_of_u64 :: "64 word \<Rightarrow> f64" where
  "f64_of_u64 w = f_of_int (uint w)"

definition mt_next_real :: "mersenne \<Rightarrow> f64 \<times> mersenne" where
  "mt_next_real g = (let (u, g) = next_u32 g
     in (f_div (f_add (f_of_int (uint u)) (Fin (1 / 2))) (Fin 4294967296), g))"

definition ranlux_next_real :: "nat \<Rightarrow> nat \<Rightarrow> ranlux \<Rightarrow> f64 \<times> ranlux" where
  "ranlux_next_real P R g = (let (u, g) = ranlux_next P R g
     in (f_mul (f64_of_u64 u) (f_div (Fin 1) (f64_of_u64 (push_bit 48 1))), g))"

definition xoshiro_next_real :: "xoshiro \<Rightarrow> f64 \<times> xoshiro" where
  "xoshiro_next_real g = (let (u, g) = xoshiro_next g
     in (f_mul (f_add (f64_of_u64 (drop_bit 11 u)) (Fin (1 / 2))) (f_div (Fin 1) (f64_of_u64 (push_bit 53 1))), g))"

section \<open>Rounding them\<close>

lemma uint_push_bit_1: "n < 64 \<Longrightarrow> uint (push_bit n 1 :: 64 word) = 2 ^ n"
  unfolding unsigned_push_bit_eq
  using power_strict_increasing [of n 64 "2::int"] by (simp add: push_bit_eq_mult take_bit_eq_mod)

lemma rat_ge_power: "2 ^ k \<le> i \<Longrightarrow> (2::rat) ^ k \<le> of_int i"
  using of_int_le_iff [of "2 ^ k" i, where 'a = rat] by simp

lemma rat_le_power: "i \<le> 2 ^ k \<Longrightarrow> of_int i \<le> (2::rat) ^ k"
  using of_int_le_iff [of i "2 ^ k", where 'a = rat] by simp

lemma fl_scaled_int:
  assumes "\<bar>m\<bar> < 2 ^ 53" "-1074 \<le> e" "e \<le> 900"
  shows "fl (of_int m * 2 powi e) = Fin (of_int m * 2 powi e)"
proof -
  have "\<bar>of_int m :: rat\<bar> \<le> 2 ^ 53"
    using rat_le_power [of "\<bar>m\<bar>" 53] assms(1) by simp
  moreover have "(2::rat) powi e \<le> 2 ^ 900" using two_powi_mono [OF assms(3)] by (simp add: power_int_def)
  ultimately have "\<bar>of_int m * (2::rat) powi e\<bar> \<le> 2 ^ 53 * 2 ^ 900"
    unfolding abs_mult by (intro mult_mono) (simp_all add: less_imp_le)
  also have "\<dots> \<le> 2 ^ 1000" by simp
  finally show ?thesis by (simp add: fl_small rnd_representable [OF refl assms(1,2)])
qed

lemma half_exact:
  assumes "0 \<le> i" "i < 2 ^ 52"
  shows "f_add (f_of_int i) (Fin (1 / 2)) = Fin (of_int i + 1 / 2)"
proof -
  have "of_int i + 1 / 2 = (of_int (2 * i + 1) * 2 powi (-1) :: rat)" by simp
  moreover have "fl (of_int (2 * i + 1) * 2 powi (-1)) = Fin (of_int (2 * i + 1) * 2 powi (-1))"
    using assms by (intro fl_scaled_int) simp_all
  ultimately have "fl (of_int i + 1 / 2) = Fin (of_int i + 1 / 2)" by (simp only:)
  then show ?thesis using assms by (simp add: f_of_int)
qed

text \<open>From \<open>2 ^ 52\<close> on the half is rounded to the even neighbour.\<close>

lemma half_rounded:
  assumes "2 ^ 52 \<le> i" "i < 2 ^ 53"
  shows "f_add (f_of_int i) (Fin (1 / 2)) = Fin (of_int (if even i then i else i + 1))"
proof -
  let ?x = "of_int i + 1 / 2 :: rat"
  have low: "(2::rat) ^ 52 \<le> of_int i" by (rule rat_ge_power) (rule assms(1))
  have high: "of_int i + 1 \<le> (2::rat) ^ 53" using rat_le_power [of "i + 1" 53] assms(2) by simp
  have x: "0 < ?x" using assms(1) by (simp add: add_nonneg_pos)
  have "binade ?x \<le> 52" using x high by (intro binade_unique) (simp_all add: power_int_def)
  moreover have "52 \<le> binade ?x"
  proof (rule ccontr)
    assume "\<not> 52 \<le> binade ?x"
    then have "(2::rat) powi (binade ?x + 1) \<le> 2 powi 52" by (intro two_powi_mono) simp
    with binade [OF x] low show False by (simp add: power_int_def)
  qed
  ultimately have q: "quantum ?x = 1" by (simp add: quantum_def)
  have "\<lfloor>?x\<rfloor> = i" by (simp add: floor_eq_iff)
  then have "round_half_even ?x = (if even i then i else i + 1)" by (simp add: round_half_even_def)
  then have "rnd ?x = of_int (if even i then i else i + 1)" using x q by (simp add: rnd_pos)
  moreover have "\<bar>?x\<bar> \<le> 2 ^ 1000" using x high by simp
  ultimately show ?thesis using assms by (simp add: f_of_int fl_small)
qed

lemma scale_exact:
  assumes "\<bar>m\<bar> \<le> 2 ^ 53" "k \<le> 60"
  shows "fl (of_int m / 2 ^ k) = Fin (of_int m / 2 ^ k)"
proof (cases "\<bar>m\<bar> = 2 ^ 53")
  case True
  then have m: "m = 2 ^ 53 \<or> m = - (2 ^ 53)" by linarith
  have "\<exists>s. \<bar>s\<bar> < 2 ^ 53 \<and> (of_int m / 2 ^ k :: rat) = of_int s * 2 powi (53 - int k)"
    using m assms(2) by (auto simp: power_int_diff intro: exI [of _ 1] exI [of _ "-1"])
  then show ?thesis using fl_scaled_int [of _ "53 - int k"] assms(2) by auto
next
  case False
  then have "fl (of_int m * 2 powi (- int k)) = Fin (of_int m * 2 powi (- int k))"
    using assms by (intro fl_scaled_int) simp_all
  then show ?thesis by (simp add: power_int_minus divide_inverse)
qed

lemma half_scale_exact:
  assumes "\<bar>2 * i + 1\<bar> \<le> 2 ^ 53" "k < 60"
  shows "fl ((of_int i + 1 / 2) / 2 ^ k) = Fin ((of_int i + 1 / 2) / 2 ^ k)"
proof -
  have "(of_int i + 1 / 2) / 2 ^ k = (of_int (2 * i + 1) / 2 ^ Suc k :: rat)" by (simp add: field_simps)
  then show ?thesis using scale_exact [of "2 * i + 1" "Suc k"] assms by (simp only:)
qed

section \<open>The deviates\<close>

lemma mt_next_real:
  "fst (mt_next_real g) = Fin ((of_int (uint (fst (next_u32 g))) + 1 / 2) / 2 ^ 32)"
proof -
  obtain u g' where n: "next_u32 g = (u, g')" by fastforce
  have u: "0 \<le> uint u" "uint u < 2 ^ 32" using uint_bounded [of u] by simp_all
  have "fl ((of_int (uint u) + 1 / 2) / 2 ^ 32) = Fin ((of_int (uint u) + 1 / 2) / 2 ^ 32)"
    using u by (intro half_scale_exact) simp_all
  then show ?thesis using u by (simp add: mt_next_real_def n half_exact)
qed

lemma ranlux_word_bound: "uint (fst (ranlux_next P R (ranlux_after P R n (ranlux_new seed)))) < 2 ^ 48"
proof -
  have step: "swc_ok (ranlux_base (snd (ranlux_next P R g))) \<and> uint (fst (ranlux_next P R g)) < 2 ^ 48"
    if "swc_ok (ranlux_base g)" for g
  proof -
    have ok: "swc_ok (if R \<le> ranlux_used g then swc_after (P - R) (ranlux_base g) else ranlux_base g)"
      using that swc_ok_after by simp
    show ?thesis using swc_next_spec(1,4) [OF ok] by (auto simp: ranlux_next_def Let_def case_prod_unfold)
  qed
  have "swc_ok (ranlux_base (ranlux_after P R n g))" if "swc_ok (ranlux_base g)" for g
    using that step by (induction n arbitrary: g) simp_all
  moreover have "swc_ok (ranlux_base (ranlux_new seed))" using swc_ok_new by (simp add: ranlux_new_def)
  ultimately show ?thesis using step by blast
qed

lemma ranlux_next_real:
  assumes "uint (fst (ranlux_next P R g)) < 2 ^ 48"
  shows "fst (ranlux_next_real P R g) = Fin (of_int (uint (fst (ranlux_next P R g))) / 2 ^ 48)"
proof -
  obtain u g' where n: "ranlux_next P R g = (u, g')" by fastforce
  then have u: "0 \<le> uint u" "uint u < 2 ^ 48" using assms by simp_all
  have "f_div (Fin 1) (f64_of_u64 (push_bit 48 1)) = Fin (1 / 2 ^ 48)"
    using scale_exact [of 1 48] by (simp add: f64_of_u64_def uint_push_bit_1 f_of_int)
  then show ?thesis
    using u scale_exact [of "uint u" 48] by (simp add: ranlux_next_real_def n f64_of_u64_def f_of_int)
qed

lemma xoshiro_next_real:
  fixes g
  defines "u \<equiv> uint (drop_bit 11 (fst (xoshiro_next g)))"
  shows "fst (xoshiro_next_real g) = Fin ((if u < 2 ^ 52 then of_int u + 1 / 2 else if even u then of_int u else of_int u + 1) / 2 ^ 53)"
proof -
  obtain w g' where n: "xoshiro_next g = (w, g')" by fastforce
  have uw: "u = uint w div 2 ^ 11" unfolding u_def n fst_conv unsigned_drop_bit_eq using uint_bounded [of w] by (simp add: drop_bit_eq_div take_bit_int_eq_self)
  have u: "0 \<le> u" "u < 2 ^ 53" using uint_bounded [of w] uint_nonnegative [of w] unfolding uw by (simp_all add: pos_imp_zdiv_nonneg_iff del: uint_nonnegative)
  have scale: "f_div (Fin 1) (f64_of_u64 (push_bit 53 1)) = Fin (1 / 2 ^ 53)"
    using scale_exact [of 1 53] half_exact
    by (simp add: f64_of_u64_def uint_push_bit_1 f_of_int_def fl_scaled_int [of 1 53, simplified])
  let ?s = "if u < 2 ^ 52 then of_int u + 1 / 2 else if even u then of_int u else of_int u + 1 :: rat"
  have "f_add (f64_of_u64 (drop_bit 11 w)) (Fin (1 / 2)) = Fin ?s"
  proof (cases "u < 2 ^ 52")
    case True
    then show ?thesis using half_exact [of u] u(1) by (simp add: f64_of_u64_def u_def n)
  next
    case False
    then show ?thesis using half_rounded [of u] u(2) by (simp add: f64_of_u64_def u_def n)
  qed
  moreover have "fl (?s / 2 ^ 53) = Fin (?s / 2 ^ 53)"
  proof (cases "u < 2 ^ 52")
    case True
    then show ?thesis using u half_scale_exact [of u 53] by simp
  next
    case False
    then show ?thesis using u scale_exact [of u 53] scale_exact [of "u + 1" 53] by simp
  qed
  ultimately show ?thesis
    unfolding xoshiro_next_real_def n Let_def prod.case fst_conv scale
    by (simp only: f_mul.simps times_divide_eq_right mult_1_right)
qed

lemma rounded_range:
  assumes "0 \<le> i" "i < 2 ^ 53"
  defines "s \<equiv> (if i < 2 ^ 52 then of_int i + 1 / 2 else if even i then of_int i else of_int i + 1) / 2 ^ 53 :: rat"
  shows "0 < s \<and> s \<le> 1 \<and> (s = 1 \<longleftrightarrow> i = 2 ^ 53 - 1)"
proof -
  have high: "of_int i + 1 \<le> (2 ^ 53 :: rat)" using assms rat_le_power [of "i + 1" 53] by simp
  have low: "0 \<le> (of_int i :: rat)" using assms by simp
  have eq: "of_int i + 1 = (2 ^ 53 :: rat) \<longleftrightarrow> i = 2 ^ 53 - 1"
    using of_int_eq_iff [of "i + 1" "2 ^ 53", where 'a = rat] by auto
  show ?thesis
  proof (cases "i < 2 ^ 52")
    case True
    then have "of_int i + 1 \<le> (2 ^ 52 :: rat)" using rat_le_power [of "i + 1" 52] by simp
    then show ?thesis using True low by (simp add: s_def add_nonneg_pos)
  next
    case False
    then have one: "2 ^ 52 \<le> (of_int i :: rat)" by (intro rat_ge_power) simp
    show ?thesis
    proof (cases "even i")
      case True
      then have "i \<noteq> 2 ^ 53 - 1" by auto
      then show ?thesis using True False one high by (simp add: s_def)
    next
      case odd: False
      have s: "s = (of_int i + 1) / 2 ^ 53" using odd False by (simp add: s_def)
      have "s = 1 \<longleftrightarrow> of_int i + 1 = (2 ^ 53 :: rat)" unfolding s by (simp add: divide_eq_1_iff del: of_int_add)
      then have "s = 1 \<longleftrightarrow> i = 2 ^ 53 - 1" unfolding eq .
      moreover have "0 < s" "s \<le> 1" unfolding s using one high by simp_all
      ultimately show ?thesis by blast
    qed
  qed
qed

text \<open>The deviates of the Mersenne Twister and of Ranlux are exact: a 32-bit word \<open>u\<close> gives
  \<open>(u + 1/2) / 2 ^ 32\<close> without rounding, strictly inside the unit interval, and a word of Ranlux gives
  \<open>u / 2 ^ 48\<close> without rounding, which can be \<open>0\<close> and never \<open>1\<close>, at every point of every seeded stream.\<close>

lemma deviates_are_exact:
  "(let u = (of_int (uint (fst (next_u32 m))) + 1 / 2) / 2 ^ 32
    in fst (mt_next_real m) = Fin u \<and> 0 < u \<and> u < 1) \<and>
   (let g = ranlux_after 223 24 n (ranlux_new seed); v = of_int (uint (fst (ranlux_next 223 24 g))) / 2 ^ 48
    in fst (ranlux_next_real 223 24 g) = Fin v \<and> 0 \<le> v \<and> v < 1)"
proof -
  have low: "0 \<le> (of_int (uint w) :: rat)" for w :: "'a::len word" by (simp only: of_int_0_le_iff uint_nonnegative)
  have "uint (fst (next_u32 m)) < 2 ^ 32" using uint_bounded [of "fst (next_u32 m)"] by simp
  then have "(of_int (uint (fst (next_u32 m)) + 1) :: rat) \<le> of_int (2 ^ 32)" unfolding of_int_le_iff by linarith
  moreover note low [of "fst (next_u32 m)"] low [of "fst (ranlux_next 223 24 (ranlux_after 223 24 n (ranlux_new seed)))"]
  moreover
  have "uint (fst (ranlux_next 223 24 (ranlux_after 223 24 n (ranlux_new seed)))) < 2 ^ 48"
    by (rule ranlux_word_bound)
  moreover from this
  have "(of_int (uint (fst (ranlux_next 223 24 (ranlux_after 223 24 n (ranlux_new seed))))) :: rat) < of_int (2 ^ 48)"
    by (simp only: of_int_less_iff)
  ultimately show ?thesis unfolding Let_def mt_next_real
    by (intro conjI ranlux_next_real refl) (simp_all add: field_simps)
qed

text \<open>The deviates of xoshiro256** are positive, but the sum \<open>u + 0.5\<close> of the conversion needs 54
  bits and is rounded to even: the largest 53-bit word gives exactly \<open>1.0\<close>, every other word less, and
  there is a state from which the next deviate is \<open>1.0\<close>. The interval is open at \<open>0\<close> and closed at \<open>1\<close>.\<close>

lemma xoshiro_deviate_can_be_one:
  "(\<exists>r. fst (xoshiro_next_real g) = Fin r \<and> 0 < r \<and> r \<le> 1 \<and>
      (r = 1 \<longleftrightarrow> drop_bit 11 (fst (xoshiro_next g)) = mask 53)) \<and>
   fst (xoshiro_next_real (xoshiro_from_state 1 5748594724359139783 0 0)) = Fin 1"
proof -
  let ?u = "uint (drop_bit 11 (fst (xoshiro_next g)))"
  have "?u = uint (fst (xoshiro_next g)) div 2 ^ 11"
    unfolding unsigned_drop_bit_eq using uint_bounded [of "fst (xoshiro_next g)"] by (simp add: drop_bit_eq_div take_bit_int_eq_self)
  then have u: "0 \<le> ?u" "?u < 2 ^ 53" using uint_bounded [of "fst (xoshiro_next g)"] uint_nonnegative [of "fst (xoshiro_next g)"]
    by (simp_all add: pos_imp_zdiv_nonneg_iff del: uint_nonnegative)
  have m: "drop_bit 11 (fst (xoshiro_next g)) = mask 53 \<longleftrightarrow> ?u = 2 ^ 53 - 1"
  proof -
    have "uint (mask 53 :: 64 word) = 2 ^ 53 - 1" by (simp add: mask_eq_exp_minus_1)
    then show ?thesis unfolding word_uint_eq_iff by simp
  qed
  have one: "fst (xoshiro_next (xoshiro_from_state 1 5748594724359139783 0 0)) = - 1" by code_simp
  have "\<exists>r. fst (xoshiro_next_real g) = Fin r \<and> 0 < r \<and> r \<le> 1 \<and>
      (r = 1 \<longleftrightarrow> drop_bit 11 (fst (xoshiro_next g)) = mask 53)"
    unfolding m xoshiro_next_real using rounded_range [OF u] by blast
  moreover have "fst (xoshiro_next_real (xoshiro_from_state 1 5748594724359139783 0 0)) = Fin 1"
  proof -
    have "uint (drop_bit 11 (- 1 :: 64 word)) = 2 ^ 53 - 1" by code_simp
    then show ?thesis unfolding xoshiro_next_real one by simp
  qed
  ultimately show ?thesis by blast
qed

end
