(* ===== verification/Comparison.thy ===== *)
theory Comparison
  imports Floats
begin

text \<open>
  The proximity tests of \<open>math/comparison.rs\<close> on floating-point numbers.
\<close>

definition f64_epsilon :: f64 where
  "f64_epsilon = Fin (1 / 2 ^ 52)"

definition close_n :: "f64 \<Rightarrow> f64 \<Rightarrow> nat \<Rightarrow> bool" where
  "close_n x y n =
     (if f_eq x y then True
      else if \<not> is_finite x \<or> \<not> is_finite y then False
      else let diff = f_abs (f_sub x y); tolerance = f_mul (f_of_int (int n)) f64_epsilon in
        if f_eq x (Fin 0) \<or> f_eq y (Fin 0) then f_less diff (f_mul tolerance tolerance)
        else f_le diff (f_mul tolerance (f_abs x)) \<and> f_le diff (f_mul tolerance (f_abs y)))"

definition close_enough_n :: "f64 \<Rightarrow> f64 \<Rightarrow> nat \<Rightarrow> bool" where
  "close_enough_n x y n =
     (if f_eq x y then True
      else if \<not> is_finite x \<or> \<not> is_finite y then False
      else let diff = f_abs (f_sub x y); tolerance = f_mul (f_of_int (int n)) f64_epsilon in
        if f_eq x (Fin 0) \<or> f_eq y (Fin 0) then f_less diff (f_mul tolerance tolerance)
        else f_le diff (f_mul tolerance (f_abs x)) \<or> f_le diff (f_mul tolerance (f_abs y)))"

definition close :: "f64 \<Rightarrow> f64 \<Rightarrow> bool" where
  "close x y = close_n x y 42"

definition close_enough :: "f64 \<Rightarrow> f64 \<Rightarrow> bool" where
  "close_enough x y = close_enough_n x y 42"

definition sign :: "f64 \<Rightarrow> f64" where
  "sign x = (if f_less (Fin 0) x then Fin 1 else if f_less x (Fin 0) then Fin (-1) else Fin 0)"

section \<open>Laws\<close>

lemma fl_minus: "fl (- x) = f_neg (fl x)"
  by (auto simp: fl_def Let_def)

lemma f_neg_neg [simp]: "f_neg (f_neg x) = x"
  by (cases x) simp_all

lemma f_abs_neg [simp]: "f_abs (f_neg x) = f_abs x"
  by (cases x) simp_all

lemma abs_diff_commute: "f_abs (f_sub (Fin x) (Fin y)) = f_abs (f_sub (Fin y) (Fin x))"
proof -
  have "f_sub (Fin x) (Fin y) = f_neg (f_sub (Fin y) (Fin x))"
    unfolding f_sub_def using fl_minus [of "y - x"] by simp
  then show ?thesis by simp
qed

lemma f_eq_sym: "f_eq x y = f_eq y x"
  by (cases x; cases y) auto

lemma f_eq_refl [simp]: "f_eq (Fin x) (Fin y) \<longleftrightarrow> x = y"
  by simp

text \<open>The two proximity tests are symmetric, the strict one implies the loose one, every number is close
  to itself and no number that is not finite is close to a different one, nor what is not a number to anything.\<close>

lemma proximity_tests:
  "close_n x y n = close_n y x n \<and> close_enough_n x y n = close_enough_n y x n \<and>
   (close_n x y n \<longrightarrow> close_enough_n x y n) \<and>
   (close_enough_n x y n \<longrightarrow> x = y \<or> is_finite x \<and> is_finite y) \<and>
   (x \<noteq> Not_A_Number \<longrightarrow> close_n x x n) \<and> \<not> close_enough_n Not_A_Number y n"
proof (intro conjI)
  show "close_n x y n = close_n y x n"
    by (cases x; cases y) (auto simp: close_n_def Let_def abs_diff_commute)
  show "close_enough_n x y n = close_enough_n y x n"
    by (cases x; cases y) (auto simp: close_enough_n_def Let_def abs_diff_commute)
qed (cases x; cases y; auto simp: close_n_def close_enough_n_def Let_def split: if_splits)+

end
