(* ===== verification/Float_Functions.thy ===== *)
theory Float_Functions
  imports Comparison
begin

text \<open>
  The methods of \<open>f64\<close> the numerical code calls beyond the basic operations: \<open>max\<close> and \<open>min\<close>, which
  prefer a number to not-a-number, \<open>signum\<close>, and the correctly rounded \<open>sqrt\<close>; and what the
  proximity test of \<open>comparison.rs\<close> amounts to against zero.
\<close>

section \<open>Minimum, maximum, sign\<close>

definition f_max :: "f64 \<Rightarrow> f64 \<Rightarrow> f64" where
  "f_max x y = (if x = Not_A_Number then y else if f_less x y then y else x)"

definition f_min :: "f64 \<Rightarrow> f64 \<Rightarrow> f64" where
  "f_min x y = (if x = Not_A_Number then y else if f_less y x then y else x)"

text \<open>The code asks for the sign of non-zero values only.\<close>

fun f_signum :: "f64 \<Rightarrow> f64" where
  "f_signum (Fin x) = Fin (if x < 0 then -1 else 1)"
| "f_signum Infinity = Fin 1"
| "f_signum Neg_Infinity = Fin (-1)"
| "f_signum Not_A_Number = Not_A_Number"

section \<open>Square root\<close>

fun isqrt :: "nat \<Rightarrow> nat" where
  "isqrt n = (if n = 0 then 0 else let r = 2 * isqrt (n div 4) in if (r + 1) * (r + 1) \<le> n then r + 1 else r)"

declare isqrt.simps [simp del]

lemma isqrt: "isqrt n * isqrt n \<le> n \<and> n < (isqrt n + 1) * (isqrt n + 1)"
proof (induction n rule: isqrt.induct)
  case (1 n)
  show ?case
  proof (cases "n = 0")
    case True
    then show ?thesis by (simp add: isqrt.simps)
  next
    case False
    let ?r = "isqrt (n div 4)"
    have ih: "?r * ?r \<le> n div 4" "n div 4 < (?r + 1) * (?r + 1)" using 1 False by blast+
    have lo: "(2 * ?r) * (2 * ?r) \<le> n" using ih(1) by (simp add: less_eq_div_iff_mult_less_eq)
    have "n div 4 + 1 \<le> (?r + 1) * (?r + 1)" using ih(2) by simp
    then have "n < 4 * ((?r + 1) * (?r + 1))" by linarith
    then have hi: "n < (2 * ?r + 2) * (2 * ?r + 2)" by (simp add: algebra_simps)
    show ?thesis using False lo hi by (subst (1 2 3 4) isqrt.simps) (simp add: Let_def)
  qed
qed

lemma square_le_iff: "k * k \<le> n \<longleftrightarrow> k \<le> isqrt n"
proof
  assume "k \<le> isqrt n"
  then have "k * k \<le> isqrt n * isqrt n" by (rule mult_le_mono) (rule \<open>k \<le> isqrt n\<close>)
  then show "k * k \<le> n" using isqrt [of n] by simp
next
  assume k: "k * k \<le> n"
  show "k \<le> isqrt n"
  proof (rule ccontr)
    assume "\<not> k \<le> isqrt n"
    then have "isqrt n + 1 \<le> k" by simp
    then have "(isqrt n + 1) * (isqrt n + 1) \<le> k * k" by (rule mult_le_mono) (rule \<open>isqrt n + 1 \<le> k\<close>)
    then show False using isqrt [of n] k by simp
  qed
qed

text \<open>
  Enough bits of the root are computed on integers that rounding cannot see the rest: the scaled root
  has 56 bits, and a half stands for what is cut off.
\<close>

definition sqrt_near :: "rat \<Rightarrow> rat" where
  "sqrt_near x =
     (let s = 55 - binade x div 2; y = x * 4 powi s; m = isqrt (nat \<lfloor>y\<rfloor>)
      in (of_nat m + (if of_nat (m * m) = y then 0 else 1 / 2)) / 2 powi s)"

fun f_sqrt :: "f64 \<Rightarrow> f64" where
  "f_sqrt (Fin x) = (if x < 0 then Not_A_Number else if x = 0 then Fin 0 else fl (sqrt_near x))"
| "f_sqrt Infinity = Infinity"
| "f_sqrt _ = Not_A_Number"

text \<open>The approximation is on the same side of every multiple of the cut-off unit as the root.\<close>

lemma sqrt_near_cut:
  assumes "0 < x"
  shows "of_nat k / 2 powi (55 - binade x div 2) \<le> sqrt_near x \<longleftrightarrow>
    (of_nat k / 2 powi (55 - binade x div 2))\<^sup>2 \<le> x"
proof -
  define s where "s = 55 - binade x div 2"
  define y where "y = x * 4 powi s"
  define m where "m = isqrt (nat \<lfloor>y\<rfloor>)"
  have y: "0 \<le> y" using assms by (simp add: y_def)
  have four: "2 powi s * 2 powi s = (4::rat) powi s" by (simp flip: power_int_mult_distrib)
  have fl: "of_nat (nat \<lfloor>y\<rfloor>) \<le> y" "y < of_nat (nat \<lfloor>y\<rfloor>) + 1" using y by linarith+
  have sq: "of_nat k * of_nat k \<le> y \<longleftrightarrow> k * k \<le> nat \<lfloor>y\<rfloor>"
  proof
    assume "of_nat k * of_nat k \<le> y"
    then have "of_nat (k * k) < (of_nat (nat \<lfloor>y\<rfloor> + 1) :: rat)" using fl by simp
    then show "k * k \<le> nat \<lfloor>y\<rfloor>" unfolding of_nat_less_iff by simp
  next
    assume "k * k \<le> nat \<lfloor>y\<rfloor>"
    then have "of_nat (k * k) \<le> (of_nat (nat \<lfloor>y\<rfloor>) :: rat)" unfolding of_nat_le_iff .
    then show "of_nat k * of_nat k \<le> y" using fl by simp
  qed
  have "k * k \<le> nat \<lfloor>y\<rfloor> \<longleftrightarrow> k \<le> m"
    unfolding m_def by (rule square_le_iff)
  moreover have "of_nat k \<le> (of_nat m :: rat) + (if of_nat (m * m) = y then 0 else 1 / 2) \<longleftrightarrow> k \<le> m"
  proof
    assume "of_nat k \<le> (of_nat m :: rat) + (if of_nat (m * m) = y then 0 else 1 / 2)"
    then have "of_nat k < (of_nat (m + 1) :: rat)" by (auto split: if_splits)
    then show "k \<le> m" unfolding of_nat_less_iff by simp
  next
    assume "k \<le> m"
    then have "of_nat k \<le> (of_nat m :: rat)" unfolding of_nat_le_iff .
    then show "of_nat k \<le> (of_nat m :: rat) + (if of_nat (m * m) = y then 0 else 1 / 2)" by simp
  qed
  moreover have "(of_nat k / 2 powi s)\<^sup>2 \<le> x \<longleftrightarrow> of_nat k * of_nat k \<le> y"
    by (simp add: power2_eq_square pos_divide_le_eq y_def four)
  moreover have "sqrt_near x = (of_nat m + (if of_nat (m * m) = y then 0 else 1 / 2)) / 2 powi s"
    by (simp add: sqrt_near_def Let_def s_def y_def m_def)
  ultimately show ?thesis unfolding s_def [symmetric] using sq by (simp add: pos_le_divide_eq)
qed

section \<open>Nearness to zero\<close>

text \<open>\<open>close(v, 0)\<close> compares the magnitude with the rounded square of 42 epsilons.\<close>

definition epsilon_42 :: rat where
  "epsilon_42 = 42 / 2 ^ 52"

definition zero_tolerance :: rat where
  "zero_tolerance = epsilon_42 * epsilon_42"

lemma zero_tolerance_pos: "0 < zero_tolerance"
  by (simp add: zero_tolerance_def epsilon_42_def)

lemma fl_representable': "x = of_int m * 2 powi e \<Longrightarrow> \<bar>m\<bar> < 2 ^ 53 \<Longrightarrow> -1074 \<le> e \<Longrightarrow> \<bar>x\<bar> \<le> 1 \<Longrightarrow> fl x = Fin x"
proof -
  assume a: "x = of_int m * 2 powi e" "\<bar>m\<bar> < 2 ^ 53" "-1074 \<le> e" "\<bar>x\<bar> \<le> 1"
  have "\<bar>x\<bar> \<le> 2 ^ 1000" by (rule order_trans [OF a(4)]) simp
  then show ?thesis using rnd_representable [OF a(1-3)] by (simp add: fl_small)
qed

lemma f64_42_epsilon: "f_mul (f_of_int 42) f64_epsilon = Fin epsilon_42"
proof -
  have "f_mul (f_of_int 42) f64_epsilon = fl epsilon_42" by (simp add: f_of_int f64_epsilon_def epsilon_42_def)
  also have "\<dots> = Fin epsilon_42"
    by (rule fl_representable' [of _ 42 "- 52"]) (simp_all add: epsilon_42_def power_int_minus field_simps)
  finally show ?thesis .
qed

lemma f64_42_epsilon_squared: "f_mul (Fin epsilon_42) (Fin epsilon_42) = Fin zero_tolerance"
proof -
  have "fl zero_tolerance = Fin zero_tolerance"
    by (rule fl_representable' [of _ 1764 "- 104"]) (simp_all add: zero_tolerance_def epsilon_42_def power_int_minus field_simps)
  then show ?thesis by (simp add: zero_tolerance_def)
qed

definition representable :: "rat \<Rightarrow> bool" where
  "representable x \<longleftrightarrow> rnd x = x \<and> \<bar>x\<bar> < 2 ^ 1024"

lemma fl_representable: "representable x \<Longrightarrow> fl x = Fin x"
  by (auto simp: representable_def fl_def Let_def abs_less_iff)

lemma representable_minus [simp]: "representable (- x) = representable x"
  by (simp add: representable_def)

lemma representable_abs [simp]: "representable \<bar>x\<bar> = representable x"
  by (simp add: abs_if)

lemma representable_0 [simp]: "representable 0"
  by (simp add: representable_def)

lemma close_zero:
  assumes "representable v"
  shows "close (Fin v) (Fin 0) \<longleftrightarrow> \<bar>v\<bar> < zero_tolerance"
proof -
  have "f_sub (Fin v) (Fin 0) = Fin v" using assms by (simp add: f_sub_def fl_representable)
  then show ?thesis using zero_tolerance_pos
    by (simp add: close_def close_n_def Let_def f64_42_epsilon f64_42_epsilon_squared del: f_mul.simps)
qed

end
