(* ===== verification/Solver1D.thy ===== *)
theory Solver1D
  imports Float_Functions
begin

text \<open>
  \<open>math/solver1d.rs\<close>: the drivers every one-dimensional root finder shares. The objective is an
  \<open>FnMut\<close>: calling it returns a value and a new state of the closure, of a type left open, so that a
  law about the calls the solver makes is a law about that state. An evaluation count is a natural
  number: no run makes the \<open>2 ^ 64\<close> evaluations that would overflow the code's \<open>usize\<close>.
\<close>

section \<open>Objectives, errors and sequencing\<close>

type_synonym 's objective = "f64 \<Rightarrow> 's \<Rightarrow> f64 \<times> 's"

datatype solver_error =
    InvalidAccuracy
  | InvalidGuess
  | InvalidStep
  | InvalidEndpoints
  | FunctionValueNotFinite
  | DerivativeNotFinite
  | SecondDerivativeNotFinite
  | UnableToBracket
  | InvalidRange
  | BelowLowerBound
  | AboveUpperBound
  | RootNotBracketed
  | GuessBelowBracket
  | GuessAboveBracket
  | MaximumEvaluationsExceeded
  | UnusableDerivative
  | LeftTheBracket
  | UnreachableState

type_synonym ('s, 'a) outcome = "(solver_error + 'a) \<times> 's"

text \<open>The \<open>?\<close> operator: go on with the value, or return the error.\<close>

definition and_then :: "('s, 'a) outcome \<Rightarrow> ('a \<Rightarrow> 's \<Rightarrow> ('s, 'b) outcome) \<Rightarrow> ('s, 'b) outcome" where
  "and_then r k = (case r of (Inl e, s) \<Rightarrow> (Inl e, s) | (Inr v, s) \<Rightarrow> k v s)"

lemma and_then_simps [simp]:
  "and_then (Inl e, s) k = (Inl e, s)"
  "and_then (Inr v, s) k = k v s"
  by (simp_all add: and_then_def)

lemma and_then_cong [fundef_cong]:
  "r = r' \<Longrightarrow> (\<And>v s. r' = (Inr v, s) \<Longrightarrow> k v s = k' v s) \<Longrightarrow> and_then r k = and_then r' k'"
  by (auto simp: and_then_def split: prod.splits sum.splits)

lemma and_then_Inr_iff:
  "and_then r k = (Inr w, s') \<longleftrightarrow> (\<exists>v s. r = (Inr v, s) \<and> k v s = (Inr w, s'))"
  by (cases r; cases "fst r") auto

lemma and_then_Inl_iff:
  "and_then r k = (Inl e, s') \<longleftrightarrow> r = (Inl e, s') \<or> (\<exists>v s. r = (Inr v, s) \<and> k v s = (Inl e, s'))"
  by (cases r; cases "fst r") auto

text \<open>Functions with their derivatives, which share the closure's state.\<close>

record 's function1d =
  f_value :: "'s objective"
  f_derivative :: "'s objective"

record 's function2d = "'s function1d" +
  f_second_derivative :: "'s objective"

definition ensure_finite_function_value :: "f64 \<Rightarrow> f64 \<Rightarrow> solver_error + unit" where
  "ensure_finite_function_value x v = (if \<not> is_finite v then Inl FunctionValueNotFinite else Inr ())"

definition checked_value :: "'s objective \<Rightarrow> f64 \<Rightarrow> 's \<Rightarrow> ('s, f64) outcome" where
  "checked_value f x s =
     (let (v, s) = f x s in and_then (ensure_finite_function_value x v, s) (\<lambda>_ s. (Inr v, s)))"

definition checked_function_value :: "('s, 'z) function1d_scheme \<Rightarrow> f64 \<Rightarrow> 's \<Rightarrow> ('s, f64) outcome" where
  "checked_function_value g x s =
     (let (v, s) = f_value g x s in and_then (ensure_finite_function_value x v, s) (\<lambda>_ s. (Inr v, s)))"

definition checked_derivative :: "('s, 'z) function1d_scheme \<Rightarrow> f64 \<Rightarrow> 's \<Rightarrow> ('s, f64) outcome" where
  "checked_derivative g x s =
     (let (d, s) = f_derivative g x s in if \<not> is_finite d then (Inl DerivativeNotFinite, s) else (Inr d, s))"

definition checked_second_derivative :: "('s, 'z) function2d_scheme \<Rightarrow> f64 \<Rightarrow> 's \<Rightarrow> ('s, f64) outcome" where
  "checked_second_derivative g x s =
     (let (d, s) = f_second_derivative g x s in if \<not> is_finite d then (Inl SecondDerivativeNotFinite, s) else (Inr d, s))"

section \<open>Configuration and working state\<close>

record solver_config =
  max_evaluations :: nat
  lower_limit :: "f64 option"
  upper_limit :: "f64 option"

definition DEFAULT_MAX_EVALUATIONS :: nat where
  "DEFAULT_MAX_EVALUATIONS = 100"

definition solver_config_new :: solver_config where
  "solver_config_new = \<lparr>max_evaluations = DEFAULT_MAX_EVALUATIONS, lower_limit = None, upper_limit = None\<rparr>"

definition set_max_evaluations :: "nat \<Rightarrow> solver_config \<Rightarrow> solver_config" where
  "set_max_evaluations n cfg = cfg\<lparr>max_evaluations := n\<rparr>"

definition set_lower_bound :: "f64 \<Rightarrow> solver_config \<Rightarrow> solver_config" where
  "set_lower_bound b cfg = cfg\<lparr>lower_limit := Some b\<rparr>"

definition set_upper_bound :: "f64 \<Rightarrow> solver_config \<Rightarrow> solver_config" where
  "set_upper_bound b cfg = cfg\<lparr>upper_limit := Some b\<rparr>"

definition enforce_bounds :: "solver_config \<Rightarrow> f64 \<Rightarrow> f64" where
  "enforce_bounds cfg x =
     (case lower_limit cfg of
        Some lb \<Rightarrow> if f_less x lb then lb else (case upper_limit cfg of Some ub \<Rightarrow> if f_less ub x then ub else x | None \<Rightarrow> x)
      | None \<Rightarrow> (case upper_limit cfg of Some ub \<Rightarrow> if f_less ub x then ub else x | None \<Rightarrow> x))"

record solver_state =
  root :: f64
  x_min :: f64
  x_max :: f64
  fx_min :: f64
  fx_max :: f64
  evaluation_number :: nat

definition default_state :: solver_state where
  "default_state = \<lparr>root = Fin 0, x_min = Fin 0, x_max = Fin 0, fx_min = Fin 0, fx_max = Fin 0, evaluation_number = 0\<rparr>"

datatype bracketed = Root f64 | Ready solver_state

section \<open>Argument checks\<close>

definition check_stepping_args :: "f64 \<Rightarrow> f64 \<Rightarrow> f64 \<Rightarrow> solver_error + f64" where
  "check_stepping_args accuracy guess step =
     (if \<not> is_finite accuracy \<or> f_le accuracy (Fin 0) then Inl InvalidAccuracy
      else if \<not> is_finite guess then Inl InvalidGuess
      else if \<not> is_finite step then Inl InvalidStep
      else Inr (f_max accuracy f64_epsilon))"

definition check_bracket_args :: "f64 \<Rightarrow> f64 \<Rightarrow> f64 \<Rightarrow> f64 \<Rightarrow> solver_error + f64" where
  "check_bracket_args accuracy guess a b =
     (if \<not> is_finite accuracy \<or> f_le accuracy (Fin 0) then Inl InvalidAccuracy
      else if \<not> is_finite guess then Inl InvalidGuess
      else if \<not> is_finite a \<or> \<not> is_finite b then Inl InvalidEndpoints
      else Inr (f_max accuracy f64_epsilon))"

section \<open>Bracketing by stepping outwards\<close>

text \<open>The literal \<open>1.6\<close>.\<close>

definition growth_factor :: f64 where
  "growth_factor = fl (8 / 5)"

definition grow_down :: "solver_config \<Rightarrow> solver_state \<Rightarrow> f64" where
  "grow_down cfg st = enforce_bounds cfg (f_add (x_min st) (f_mul growth_factor (f_sub (x_min st) (x_max st))))"

definition grow_up :: "solver_config \<Rightarrow> solver_state \<Rightarrow> f64" where
  "grow_up cfg st = enforce_bounds cfg (f_add (x_max st) (f_mul growth_factor (f_sub (x_max st) (x_min st))))"

text \<open>What the loop does when the values at its ends do not differ in sign.\<close>

definition grow_bracket ::
    "solver_config \<Rightarrow> 's objective \<Rightarrow> int \<Rightarrow> solver_state \<Rightarrow> 's \<Rightarrow> ('s, int \<times> solver_state) outcome" where
  "grow_bracket cfg f flipflop st s =
     (if f_less (f_abs (fx_min st)) (f_abs (fx_max st)) then
        let x = grow_down cfg st in and_then (checked_value f x s) (\<lambda>v s. (Inr (flipflop, st\<lparr>x_min := x, fx_min := v\<rparr>), s))
      else if f_less (f_abs (fx_max st)) (f_abs (fx_min st)) then
        let x = grow_up cfg st in and_then (checked_value f x s) (\<lambda>v s. (Inr (flipflop, st\<lparr>x_max := x, fx_max := v\<rparr>), s))
      else if flipflop = -1 then
        let x = grow_down cfg st in and_then (checked_value f x s) (\<lambda>v s.
          (Inr (1, st\<lparr>x_min := x, fx_min := v, evaluation_number := evaluation_number st + 1\<rparr>), s))
      else if flipflop = 1 then
        let x = grow_up cfg st in and_then (checked_value f x s) (\<lambda>v s. (Inr (-1, st\<lparr>x_max := x, fx_max := v\<rparr>), s))
      else (Inr (flipflop, st), s))"

lemma grow_bracket_counts:
  "grow_bracket cfg f flipflop st s = (Inr (ff, st'), s') \<Longrightarrow> evaluation_number st \<le> evaluation_number st'"
  by (auto simp: grow_bracket_def and_then_Inr_iff Let_def split: if_splits)

function step_outwards ::
    "solver_config \<Rightarrow> 's objective \<Rightarrow> int \<Rightarrow> solver_state \<Rightarrow> 's \<Rightarrow> ('s, bracketed) outcome" where
  "step_outwards cfg f flipflop st s =
     (if max_evaluations cfg < evaluation_number st then (Inl UnableToBracket, s)
      else if f_le (f_mul (fx_min st) (fx_max st)) (Fin 0) then
        (if close (fx_min st) (Fin 0) then (Inr (Root (x_min st)), s)
         else if close (fx_max st) (Fin 0) then (Inr (Root (x_max st)), s)
         else (Inr (Ready (st\<lparr>root := f_div (f_add (x_max st) (x_min st)) (Fin 2)\<rparr>)), s))
      else and_then (grow_bracket cfg f flipflop st s) (\<lambda>(ff, st) s.
        step_outwards cfg f ff (st\<lparr>evaluation_number := evaluation_number st + 1\<rparr>) s))"
  by pat_completeness auto
termination
  by (relation "measure (\<lambda>(cfg, f, ff, st, s). max_evaluations cfg + 1 - evaluation_number st)")
    (auto dest: grow_bracket_counts)

declare step_outwards.simps [simp del]

definition bracket_by_stepping ::
    "solver_config \<Rightarrow> 's objective \<Rightarrow> f64 \<Rightarrow> f64 \<Rightarrow> 's \<Rightarrow> ('s, bracketed) outcome" where
  "bracket_by_stepping cfg f guess step s =
     (let st = default_state\<lparr>root := enforce_bounds cfg guess\<rparr> in
      and_then (checked_value f (root st) s) (\<lambda>v s.
        let st = st\<lparr>fx_max := v\<rparr> in
        if close (fx_max st) (Fin 0) then (Inr (Root (root st)), s)
        else and_then
          (if f_less (Fin 0) (fx_max st) then
             let x = enforce_bounds cfg (f_sub (root st) step) in
             and_then (checked_value f x s) (\<lambda>v s. (Inr (st\<lparr>x_min := x, fx_min := v, x_max := root st\<rparr>), s))
           else
             let x = enforce_bounds cfg (f_add (root st) step) in
             and_then (checked_value f x s) (\<lambda>v s.
               (Inr (st\<lparr>x_min := root st, fx_min := fx_max st, x_max := x, fx_max := v\<rparr>), s)))
          (\<lambda>st s. step_outwards cfg f (-1) (st\<lparr>evaluation_number := 2\<rparr>) s)))"

section \<open>A bracket from the caller\<close>

definition bracket_given ::
    "solver_config \<Rightarrow> 's objective \<Rightarrow> f64 \<Rightarrow> f64 \<Rightarrow> f64 \<Rightarrow> 's \<Rightarrow> ('s, bracketed) outcome" where
  "bracket_given cfg f guess a b s =
     (let st = default_state\<lparr>x_min := a, x_max := b\<rparr> in
      if f_le (x_max st) (x_min st) then (Inl InvalidRange, s)
      else if (case lower_limit cfg of Some lb \<Rightarrow> f_less (x_min st) lb | None \<Rightarrow> False) then (Inl BelowLowerBound, s)
      else if (case upper_limit cfg of Some ub \<Rightarrow> f_less ub (x_max st) | None \<Rightarrow> False) then (Inl AboveUpperBound, s)
      else and_then (checked_value f (x_min st) s) (\<lambda>v s.
        let st = st\<lparr>fx_min := v\<rparr> in
        if close (fx_min st) (Fin 0) then (Inr (Root (x_min st)), s)
        else and_then (checked_value f (x_max st) s) (\<lambda>v s.
          let st = st\<lparr>fx_max := v\<rparr> in
          if close (fx_max st) (Fin 0) then (Inr (Root (x_max st)), s)
          else
            let st = st\<lparr>evaluation_number := 2\<rparr> in
            if f_eq (f_signum (fx_min st)) (f_signum (fx_max st)) then (Inl RootNotBracketed, s)
            else if f_le guess (x_min st) then (Inl GuessBelowBracket, s)
            else if f_le (x_max st) guess then (Inl GuessAboveBracket, s)
            else (Inr (Ready (st\<lparr>root := guess\<rparr>)), s))))"

section \<open>The drivers\<close>

text \<open>The refinement of a concrete solver is an argument: from the accuracy, the state the driver
  prepared and the state of the closure, to the outcome.\<close>

type_synonym 's refinement = "f64 \<Rightarrow> solver_state \<Rightarrow> 's \<Rightarrow> ('s, f64) outcome"

definition solve :: "solver_config \<Rightarrow> 's objective \<Rightarrow> 's refinement \<Rightarrow> f64 \<Rightarrow> f64 \<Rightarrow> f64 \<Rightarrow> 's \<Rightarrow> ('s, f64) outcome" where
  "solve cfg f solve_impl accuracy guess step s =
     and_then (check_stepping_args accuracy guess step, s) (\<lambda>accuracy s.
       and_then (bracket_by_stepping cfg f guess step s) (\<lambda>b s.
         case b of Root x \<Rightarrow> (Inr x, s) | Ready st \<Rightarrow> solve_impl accuracy st s))"

definition solve_bracketed ::
    "solver_config \<Rightarrow> 's objective \<Rightarrow> 's refinement \<Rightarrow> f64 \<Rightarrow> f64 \<Rightarrow> f64 \<Rightarrow> f64 \<Rightarrow> 's \<Rightarrow> ('s, f64) outcome" where
  "solve_bracketed cfg f solve_impl accuracy guess a b s =
     and_then (check_bracket_args accuracy guess a b, s) (\<lambda>accuracy s.
       and_then (bracket_given cfg f guess a b s) (\<lambda>b s.
         case b of Root x \<Rightarrow> (Inr x, s) | Ready st \<Rightarrow> solve_impl accuracy st s))"

text \<open>The same two entry points of the solvers that use the derivative.\<close>

definition derivative_solve ::
    "solver_config \<Rightarrow> ('s, 'z) function1d_scheme \<Rightarrow> 's refinement \<Rightarrow> f64 \<Rightarrow> f64 \<Rightarrow> f64 \<Rightarrow> 's \<Rightarrow> ('s, f64) outcome" where
  "derivative_solve cfg g refine accuracy guess step s =
     and_then (check_stepping_args accuracy guess step, s) (\<lambda>accuracy s.
       and_then (bracket_by_stepping cfg (f_value g) guess step s) (\<lambda>b s.
         case b of Root x \<Rightarrow> (Inr x, s) | Ready st \<Rightarrow> refine accuracy st s))"

definition derivative_solve_bracketed ::
    "solver_config \<Rightarrow> ('s, 'z) function1d_scheme \<Rightarrow> 's refinement \<Rightarrow> f64 \<Rightarrow> f64 \<Rightarrow> f64 \<Rightarrow> f64 \<Rightarrow> 's \<Rightarrow> ('s, f64) outcome" where
  "derivative_solve_bracketed cfg g refine accuracy guess a b s =
     and_then (check_bracket_args accuracy guess a b, s) (\<lambda>accuracy s.
       and_then (bracket_given cfg (f_value g) guess a b s) (\<lambda>b s.
         case b of Root x \<Rightarrow> (Inr x, s) | Ready st \<Rightarrow> refine accuracy st s))"

end
