(* ===== verification/Root_Finders.thy ===== *)
theory Root_Finders
  imports Solver1D
begin

text \<open>
  \<open>math/solvers1d/\<close>: the refinements of the nine root finders, each a loop on the state the driver
  prepared, bounded by the evaluation cap. A solver is its configuration; its entry points are the
  drivers of the theory above with its refinement.
\<close>

text \<open>The builder methods, the same in every solver.\<close>

definition with_max_evaluations :: "solver_config \<Rightarrow> nat \<Rightarrow> solver_config" where
  "with_max_evaluations cfg n = cfg\<lparr>max_evaluations := n\<rparr>"

definition with_lower_bound :: "solver_config \<Rightarrow> f64 \<Rightarrow> solver_config" where
  "with_lower_bound cfg b = cfg\<lparr>lower_limit := Some b\<rparr>"

definition with_upper_bound :: "solver_config \<Rightarrow> f64 \<Rightarrow> solver_config" where
  "with_upper_bound cfg b = cfg\<lparr>upper_limit := Some b\<rparr>"

text \<open>The last call many solvers make, so that a stateful closure has seen the root last.\<close>

definition final_call :: "('s, f64) outcome \<Rightarrow> f64 \<Rightarrow> ('s, f64) outcome" where
  "final_call call r = and_then call (\<lambda>_ s. (Inr r, s))"

section \<open>Bisection\<close>

function bisection_loop ::
    "solver_config \<Rightarrow> 's objective \<Rightarrow> f64 \<Rightarrow> f64 \<Rightarrow> solver_state \<Rightarrow> 's \<Rightarrow> ('s, f64) outcome" where
  "bisection_loop cfg f acc dx st s =
     (if max_evaluations cfg < evaluation_number st then (Inl MaximumEvaluationsExceeded, s)
      else let dx = f_div dx (Fin 2); x_mid = f_add (root st) dx in
        and_then (checked_value f x_mid s) (\<lambda>f_mid s.
          let st = st\<lparr>evaluation_number := evaluation_number st + 1\<rparr>;
              st = (if f_le f_mid (Fin 0) then st\<lparr>root := x_mid\<rparr> else st) in
          if f_less (f_abs dx) acc \<or> close f_mid (Fin 0) then final_call (checked_value f (root st) s) (root st)
          else bisection_loop cfg f acc dx st s))"
  by pat_completeness auto
termination
  by (relation "measure (\<lambda>(cfg, f, acc, dx, st, s). max_evaluations cfg + 1 - evaluation_number st)")
    (auto split: if_splits)

declare bisection_loop.simps [simp del]

definition bisection :: "solver_config \<Rightarrow> 's objective \<Rightarrow> 's refinement" where
  "bisection cfg f acc st s =
     (if f_less (fx_min st) (Fin 0) then bisection_loop cfg f acc (f_sub (x_max st) (x_min st)) (st\<lparr>root := x_min st\<rparr>) s
      else bisection_loop cfg f acc (f_sub (x_min st) (x_max st)) (st\<lparr>root := x_max st\<rparr>) s)"

section \<open>False position\<close>

function false_position_loop ::
    "solver_config \<Rightarrow> 's objective \<Rightarrow> f64 \<Rightarrow> f64 \<times> f64 \<Rightarrow> f64 \<times> f64 \<Rightarrow> solver_state \<Rightarrow> 's \<Rightarrow> ('s, f64) outcome" where
  "false_position_loop cfg f acc (xl, fxl) (xh, fxh) st s =
     (if max_evaluations cfg < evaluation_number st then (Inl MaximumEvaluationsExceeded, s)
      else let st = st\<lparr>root := f_add xl (f_div (f_mul (f_sub xh xl) fxl) (f_sub fxl fxh))\<rparr> in
        and_then (checked_value f (root st) s) (\<lambda>froot s.
          let st = st\<lparr>evaluation_number := evaluation_number st + 1\<rparr>;
              (del, low, high) =
                (if f_less froot (Fin 0) then (f_sub xl (root st), (root st, froot), (xh, fxh))
                 else (f_sub xh (root st), (xl, fxl), (root st, froot))) in
          if f_less (f_abs del) acc \<or> close froot (Fin 0) then (Inr (root st), s)
          else false_position_loop cfg f acc low high st s))"
  by pat_completeness auto
termination
  by (relation "measure (\<lambda>(cfg, f, acc, l, h, st, s). max_evaluations cfg + 1 - evaluation_number st)")
    (auto split: if_splits)

declare false_position_loop.simps [simp del]

definition false_position :: "solver_config \<Rightarrow> 's objective \<Rightarrow> 's refinement" where
  "false_position cfg f acc st s =
     (if f_less (fx_min st) (Fin 0) then false_position_loop cfg f acc (x_min st, fx_min st) (x_max st, fx_max st) st s
      else false_position_loop cfg f acc (x_max st, fx_max st) (x_min st, fx_min st) st s)"

section \<open>Secant\<close>

function secant_loop ::
    "solver_config \<Rightarrow> 's objective \<Rightarrow> f64 \<Rightarrow> f64 \<Rightarrow> f64 \<Rightarrow> f64 \<Rightarrow> solver_state \<Rightarrow> 's \<Rightarrow> ('s, f64) outcome" where
  "secant_loop cfg f acc froot xl fxl st s =
     (if max_evaluations cfg < evaluation_number st then (Inl MaximumEvaluationsExceeded, s)
      else let dx = f_div (f_mul (f_sub xl (root st)) froot) (f_sub froot fxl);
               xl = root st; fxl = froot; st = st\<lparr>root := f_add (root st) dx\<rparr> in
        and_then (checked_value f (root st) s) (\<lambda>froot s.
          let st = st\<lparr>evaluation_number := evaluation_number st + 1\<rparr> in
          if f_less (f_abs dx) acc \<or> close froot (Fin 0) then (Inr (root st), s)
          else secant_loop cfg f acc froot xl fxl st s))"
  by pat_completeness auto
termination
  by (relation "measure (\<lambda>(cfg, f, acc, fr, xl, fxl, st, s). max_evaluations cfg + 1 - evaluation_number st)") auto

declare secant_loop.simps [simp del]

definition secant :: "solver_config \<Rightarrow> 's objective \<Rightarrow> 's refinement" where
  "secant cfg f acc st s =
     (if f_less (f_abs (fx_min st)) (f_abs (fx_max st))
      then secant_loop cfg f acc (fx_min st) (x_max st) (fx_max st) (st\<lparr>root := x_min st\<rparr>) s
      else secant_loop cfg f acc (fx_max st) (x_min st) (fx_min st) (st\<lparr>root := x_max st\<rparr>) s)"

section \<open>Brent\<close>

definition with_sign_of :: "f64 \<Rightarrow> f64 \<Rightarrow> f64" where
  "with_sign_of a b = (if f_le (Fin 0) b then f_abs a else f_neg (f_abs a))"

text \<open>One pass of the loop up to the convergence check: rename the points so that the root and \<open>x_max\<close>
  bracket, and the root is the better one.\<close>

definition brent_rename :: "f64 \<Rightarrow> f64 \<Rightarrow> f64 \<Rightarrow> solver_state \<Rightarrow> f64 \<times> f64 \<times> f64 \<times> solver_state" where
  "brent_rename froot d e st =
     (let (d, e, st) =
            (if (f_less (Fin 0) froot \<and> f_less (Fin 0) (fx_max st)) \<or> (f_less froot (Fin 0) \<and> f_less (fx_max st) (Fin 0))
             then let e = f_sub (root st) (x_min st) in (e, e, st\<lparr>x_max := x_min st, fx_max := fx_min st\<rparr>)
             else (d, e, st)) in
      if f_less (f_abs (fx_max st)) (f_abs froot) then
        (fx_max st, d, e, st\<lparr>x_min := root st, root := x_max st, x_max := root st, fx_min := froot, fx_max := froot\<rparr>)
      else (froot, d, e, st))"

text \<open>The next step and the one before it: inverse quadratic interpolation when it stays within bounds,
  bisection otherwise.\<close>

definition brent_step :: "f64 \<Rightarrow> f64 \<Rightarrow> f64 \<Rightarrow> f64 \<Rightarrow> f64 \<Rightarrow> solver_state \<Rightarrow> f64 \<times> f64" where
  "brent_step froot x_acc1 x_mid d e st =
     (if f_le x_acc1 (f_abs e) \<and> f_less (f_abs froot) (f_abs (fx_min st)) then
        let s = f_div froot (fx_min st);
            (p, q) =
              (if close (x_min st) (x_max st) then (f_mul (f_mul (Fin 2) x_mid) s, f_sub (Fin 1) s)
               else let qq = f_div (fx_min st) (fx_max st); r = f_div froot (fx_max st) in
                 (f_mul s (f_sub (f_mul (f_mul (f_mul (Fin 2) x_mid) qq) (f_sub qq r))
                                 (f_mul (f_sub (root st) (x_min st)) (f_sub r (Fin 1)))),
                  f_mul (f_mul (f_sub qq (Fin 1)) (f_sub r (Fin 1))) (f_sub s (Fin 1))));
            q = (if f_less (Fin 0) p then f_neg q else q);
            p = f_abs p;
            min1 = f_sub (f_mul (f_mul (Fin 3) x_mid) q) (f_abs (f_mul x_acc1 q));
            min2 = f_abs (f_mul e q) in
        if f_less (f_mul (Fin 2) p) (f_min min1 min2) then (f_div p q, d) else (x_mid, x_mid)
      else (x_mid, x_mid))"

definition brent_accuracy :: "f64 \<Rightarrow> f64 \<Rightarrow> f64" where
  "brent_accuracy acc r = f_add (f_mul (f_mul (Fin 2) f64_epsilon) (f_abs r)) (f_mul (Fin (1 / 2)) acc)"

function brent_loop ::
    "solver_config \<Rightarrow> 's objective \<Rightarrow> f64 \<Rightarrow> f64 \<Rightarrow> f64 \<Rightarrow> f64 \<Rightarrow> solver_state \<Rightarrow> 's \<Rightarrow> ('s, f64) outcome" where
  "brent_loop cfg f acc froot d e st s =
     (if max_evaluations cfg < evaluation_number st then (Inl MaximumEvaluationsExceeded, s)
      else let n = evaluation_number st;
               (froot, d, e, st) = brent_rename froot d e st;
               x_acc1 = brent_accuracy acc (root st);
               x_mid = f_div (f_sub (x_max st) (root st)) (Fin 2) in
        if f_le (f_abs x_mid) x_acc1 \<or> close froot (Fin 0) then final_call (checked_value f (root st) s) (root st)
        else
          let (d, e) = brent_step froot x_acc1 x_mid d e st;
              st = st\<lparr>x_min := root st, fx_min := froot\<rparr>;
              st = st\<lparr>root := f_add (root st) (if f_less x_acc1 (f_abs d) then d else with_sign_of x_acc1 x_mid)\<rparr> in
          and_then (checked_value f (root st) s) (\<lambda>froot s.
            brent_loop cfg f acc froot d e (st\<lparr>evaluation_number := n + 1\<rparr>) s))"
  by pat_completeness auto
termination
  by (relation "measure (\<lambda>(cfg, f, acc, fr, d, e, st, s). max_evaluations cfg + 1 - evaluation_number st)") auto

declare brent_loop.simps [simp del]

definition brent :: "solver_config \<Rightarrow> 's objective \<Rightarrow> 's refinement" where
  "brent cfg f acc st s =
     and_then (checked_value f (root st) s) (\<lambda>froot s.
       let st = st\<lparr>evaluation_number := evaluation_number st + 1\<rparr>;
           st = (if f_less (f_mul froot (fx_min st)) (Fin 0) then st\<lparr>x_max := x_min st, fx_max := fx_min st\<rparr>
                 else st\<lparr>x_min := x_max st, fx_min := fx_max st\<rparr>);
           d = f_sub (root st) (x_max st) in
       brent_loop cfg f acc froot d d st s)"

section \<open>Ridder\<close>

text \<open>\<open>Real::MIN\<close>, the least finite number.\<close>

definition f64_min_value :: f64 where
  "f64_min_value = Fin (- ((2 ^ 53 - 1) * 2 ^ 971))"

definition sign_differs :: "f64 \<Rightarrow> f64 \<Rightarrow> bool" where
  "sign_differs a b \<longleftrightarrow> (f_le (Fin 0) b \<and> f_less a (Fin 0)) \<or> (f_less b (Fin 0) \<and> f_less (Fin 0) a)"

definition ridder_point :: "solver_state \<Rightarrow> f64 \<Rightarrow> f64 \<Rightarrow> f64 \<Rightarrow> f64" where
  "ridder_point st x_mid fx_mid r =
     (let direction = (if f_le (fx_max st) (fx_min st) then Fin 1 else Fin (-1)) in
      f_add x_mid (f_mul (f_sub x_mid (x_min st)) (f_div (f_mul direction fx_mid) r)))"

definition ridder_rebracket :: "solver_state \<Rightarrow> f64 \<Rightarrow> f64 \<Rightarrow> f64 \<Rightarrow> solver_error + solver_state" where
  "ridder_rebracket st x_mid fx_mid froot =
     (if sign_differs fx_mid froot then Inr (st\<lparr>x_min := x_mid, fx_min := fx_mid, x_max := root st, fx_max := froot\<rparr>)
      else if sign_differs (fx_min st) froot then Inr (st\<lparr>x_max := root st, fx_max := froot\<rparr>)
      else if sign_differs (fx_max st) froot then Inr (st\<lparr>x_min := root st, fx_min := froot\<rparr>)
      else Inl UnreachableState)"

function ridder_loop ::
    "solver_config \<Rightarrow> 's objective \<Rightarrow> f64 \<Rightarrow> solver_state \<Rightarrow> 's \<Rightarrow> ('s, f64) outcome" where
  "ridder_loop cfg f acc st s =
     (if max_evaluations cfg < evaluation_number st then (Inl MaximumEvaluationsExceeded, s)
      else let n = evaluation_number st; x_mid = f_mul (Fin (1 / 2)) (f_add (x_min st) (x_max st)) in
        and_then (checked_value f x_mid s) (\<lambda>fx_mid s.
          let r = f_sqrt (f_sub (f_mul fx_mid fx_mid) (f_mul (fx_min st) (fx_max st))) in
          if close r (Fin 0) then final_call (checked_value f (root st) s) (root st)
          else let next_root = ridder_point st x_mid fx_mid r in
            if f_le (f_abs (f_sub next_root (root st))) acc then final_call (checked_value f (root st) s) (root st)
            else let st = st\<lparr>root := next_root\<rparr> in
              and_then (checked_value f (root st) s) (\<lambda>froot s.
                if close froot (Fin 0) then (Inr (root st), s)
                else and_then (ridder_rebracket st x_mid fx_mid froot, s) (\<lambda>st s.
                  if f_le (f_abs (f_sub (x_max st) (x_min st))) acc then final_call (checked_value f (root st) s) (root st)
                  else ridder_loop cfg f acc (st\<lparr>evaluation_number := n + 2\<rparr>) s))))"
  by pat_completeness auto
termination
  by (relation "measure (\<lambda>(cfg, f, acc, st, s). max_evaluations cfg + 1 - evaluation_number st)") auto

declare ridder_loop.simps [simp del]

definition ridder :: "solver_config \<Rightarrow> 's objective \<Rightarrow> 's refinement" where
  "ridder cfg f acc st s = ridder_loop cfg f (f_div acc (Fin 100)) (st\<lparr>root := f64_min_value\<rparr>) s"

end
