(* ===== verification/Derivative_Finders.thy ===== *)
theory Derivative_Finders
  imports Root_Finders
begin

text \<open>
  \<open>math/solvers1d/\<close>: the root finders that follow the derivative: Newton, its safe variant with a
  bisection fallback, the variant that estimates the derivative by differences, and Halley's method,
  which hands over to the safe one when it leaves the bracket.
\<close>

section \<open>Newton\<close>

definition unusable :: "f64 \<Rightarrow> bool" where
  "unusable d \<longleftrightarrow> f_eq d (Fin 0) \<or> \<not> is_finite d"

definition outside_bracket :: "solver_state \<Rightarrow> bool" where
  "outside_bracket st = f_less (f_mul (f_sub (x_min st) (root st)) (f_sub (root st) (x_max st))) (Fin 0)"

function newton_loop ::
    "solver_config \<Rightarrow> ('s, 'z) function1d_scheme \<Rightarrow> f64 \<Rightarrow> f64 \<Rightarrow> f64 \<Rightarrow> solver_state \<Rightarrow> 's \<Rightarrow> ('s, f64) outcome" where
  "newton_loop cfg g acc froot dfroot st s =
     (if max_evaluations cfg < evaluation_number st then (Inl MaximumEvaluationsExceeded, s)
      else if unusable dfroot then (Inl UnusableDerivative, s)
      else let dx = f_div froot dfroot; st = st\<lparr>root := f_sub (root st) dx\<rparr> in
        if outside_bracket st then (Inl LeftTheBracket, s)
        else if f_less (f_abs dx) acc then final_call (checked_function_value g (root st) s) (root st)
        else and_then (checked_function_value g (root st) s) (\<lambda>froot s.
          and_then (checked_derivative g (root st) s) (\<lambda>dfroot s.
            newton_loop cfg g acc froot dfroot (st\<lparr>evaluation_number := evaluation_number st + 1\<rparr>) s)))"
  by pat_completeness auto
termination
  by (relation "measure (\<lambda>(cfg, g, acc, fr, df, st, s). max_evaluations cfg + 1 - evaluation_number st)") auto

declare newton_loop.simps [simp del]

definition newton :: "solver_config \<Rightarrow> ('s, 'z) function1d_scheme \<Rightarrow> 's refinement" where
  "newton cfg g acc st s =
     and_then (checked_function_value g (root st) s) (\<lambda>froot s.
       and_then (checked_derivative g (root st) s) (\<lambda>dfroot s.
         newton_loop cfg g acc froot dfroot (st\<lparr>evaluation_number := evaluation_number st + 1\<rparr>) s))"

section \<open>Newton with a bisection fallback\<close>

text \<open>The Newton step would leave the bracket, or does not shrink it fast enough.\<close>

definition must_bisect :: "f64 \<Rightarrow> f64 \<Rightarrow> f64 \<Rightarrow> f64 \<Rightarrow> f64 \<Rightarrow> f64 \<Rightarrow> bool" where
  "must_bisect r xl xh froot dfroot dxold \<longleftrightarrow>
     f_less (Fin 0) (f_mul (f_sub (f_mul (f_sub r xh) dfroot) froot) (f_sub (f_mul (f_sub r xl) dfroot) froot)) \<or>
     f_less (f_abs (f_mul dxold dfroot)) (f_abs (f_mul (Fin 2) froot))"

function newton_safe_loop ::
    "solver_config \<Rightarrow> ('s, 'z) function1d_scheme \<Rightarrow> f64 \<Rightarrow> f64 \<Rightarrow> f64 \<Rightarrow> f64 \<Rightarrow> f64 \<Rightarrow> f64 \<Rightarrow> f64 \<Rightarrow>
     solver_state \<Rightarrow> 's \<Rightarrow> ('s, f64) outcome" where
  "newton_safe_loop cfg g acc xl xh dxold dx froot dfroot st s =
     (if max_evaluations cfg < evaluation_number st then (Inl MaximumEvaluationsExceeded, s)
      else
        let (dxold, dx, st) =
              (if must_bisect (root st) xl xh froot dfroot dxold
               then let d = f_mul (Fin (1 / 2)) (f_sub xh xl) in (dx, d, st\<lparr>root := f_add xl d\<rparr>)
               else let d = f_div froot dfroot in (dx, d, st\<lparr>root := f_sub (root st) d\<rparr>)) in
        if f_less (f_abs dx) acc then final_call (checked_function_value g (root st) s) (root st)
        else and_then (checked_function_value g (root st) s) (\<lambda>froot s.
          if close froot (Fin 0) then (Inr (root st), s)
          else and_then (checked_derivative g (root st) s) (\<lambda>dfroot s.
            newton_safe_loop cfg g acc (if f_less froot (Fin 0) then root st else xl)
              (if f_less froot (Fin 0) then xh else root st) dxold dx froot dfroot
              (st\<lparr>evaluation_number := evaluation_number st + 1\<rparr>) s)))"
  by pat_completeness auto
termination
  by (relation "measure (\<lambda>(cfg, g, acc, xl, xh, dxo, dx, fr, df, st, s). max_evaluations cfg + 1 - evaluation_number st)")
    (auto simp: Let_def split: if_splits)

declare newton_safe_loop.simps [simp del]

definition newton_safe :: "solver_config \<Rightarrow> ('s, 'z) function1d_scheme \<Rightarrow> 's refinement" where
  "newton_safe cfg g acc st s =
     (let (xl, xh) = (if f_less (fx_min st) (Fin 0) then (x_min st, x_max st) else (x_max st, x_min st));
          dxold = f_sub (x_max st) (x_min st) in
      and_then (checked_function_value g (root st) s) (\<lambda>froot s.
        if close froot (Fin 0) then (Inr (root st), s)
        else and_then (checked_derivative g (root st) s) (\<lambda>dfroot s.
          newton_safe_loop cfg g acc xl xh dxold dxold froot dfroot
            (st\<lparr>evaluation_number := evaluation_number st + 1\<rparr>) s)))"

section \<open>Newton with finite differences\<close>

function difference_loop ::
    "solver_config \<Rightarrow> 's objective \<Rightarrow> f64 \<Rightarrow> f64 \<Rightarrow> f64 \<Rightarrow> f64 \<Rightarrow> f64 \<Rightarrow> f64 \<Rightarrow> solver_state \<Rightarrow> 's \<Rightarrow> ('s, f64) outcome" where
  "difference_loop cfg f acc xl xh dx froot dfroot st s =
     (if max_evaluations cfg < evaluation_number st then (Inl MaximumEvaluationsExceeded, s)
      else and_then
        (if must_bisect (root st) xl xh froot dfroot dx then
           let d = f_mul (Fin (1 / 2)) (f_sub xh xl); r = f_add xl d in
           if close_n r (root st) 2500
           then and_then (checked_value f xh s) (\<lambda>frootold s. (Inr (d, r, xh, frootold), s))
           else (Inr (d, r, root st, froot), s)
         else let d = f_div froot dfroot in (Inr (d, f_sub (root st) d, root st, froot), s))
        (\<lambda>(dx, r, rootold, frootold) s.
          let st = st\<lparr>root := r\<rparr> in
          if f_less (f_abs dx) acc then (Inr (root st), s)
          else and_then (checked_value f (root st) s) (\<lambda>froot s.
            let dfroot = f_div (f_sub frootold froot) (f_sub rootold (root st)) in
            difference_loop cfg f acc (if f_less froot (Fin 0) then root st else xl)
              (if f_less froot (Fin 0) then xh else root st) dx froot dfroot
              (st\<lparr>evaluation_number := evaluation_number st + 1\<rparr>) s)))"
  by pat_completeness auto
termination
  by (relation "measure (\<lambda>(cfg, f, acc, xl, xh, dx, fr, df, st, s). max_evaluations cfg + 1 - evaluation_number st)") auto

declare difference_loop.simps [simp del]

definition finite_difference_newton_safe :: "solver_config \<Rightarrow> 's objective \<Rightarrow> 's refinement" where
  "finite_difference_newton_safe cfg f acc st s =
     (let (xl, xh) = (if f_less (fx_min st) (Fin 0) then (x_min st, x_max st) else (x_max st, x_min st)) in
      and_then (checked_value f (root st) s) (\<lambda>froot s.
        let st = st\<lparr>evaluation_number := evaluation_number st + 1\<rparr>;
            dfroot = (if f_less (f_sub (x_max st) (root st)) (f_sub (root st) (x_min st))
                      then f_div (f_sub (fx_max st) froot) (f_sub (x_max st) (root st))
                      else f_div (f_sub (fx_min st) froot) (f_sub (x_min st) (root st)));
            dx = f_sub (x_max st) (x_min st) in
        difference_loop cfg f acc xl xh dx froot dfroot st s))"

section \<open>Halley\<close>

definition halley_step :: "f64 \<Rightarrow> f64 \<Rightarrow> f64 \<Rightarrow> f64" where
  "halley_step fx f_prime f_second =
     (let lf = f_div (f_mul fx f_second) (f_mul f_prime f_prime) in
      f_div (f_mul (f_div (Fin 1) (f_sub (Fin 1) (f_mul (Fin (1 / 2)) lf))) fx) f_prime)"

text \<open>The rest of the budget, spent by the safe solver from a fresh configuration. The loop has passed its guard, so
  that the subtraction cannot underflow.\<close>

definition hand_over :: "solver_config \<Rightarrow> ('s, 'z) function1d_scheme \<Rightarrow> f64 \<Rightarrow> f64 \<Rightarrow> solver_state \<Rightarrow> 's \<Rightarrow> ('s, f64) outcome" where
  "hand_over cfg g acc guess st s =
     (let safe = with_max_evaluations solver_config_new (max_evaluations cfg - evaluation_number st) in
      derivative_solve_bracketed safe g (newton_safe safe g) acc guess (x_min st) (x_max st) s)"

function halley :: "solver_config \<Rightarrow> ('s, 'z) function2d_scheme \<Rightarrow> f64 \<Rightarrow> solver_state \<Rightarrow> 's \<Rightarrow> ('s, f64) outcome" where
  "halley cfg g acc st s =
     (let st = st\<lparr>evaluation_number := evaluation_number st + 1\<rparr> in
      if max_evaluations cfg < evaluation_number st then (Inl MaximumEvaluationsExceeded, s)
      else and_then (checked_function_value g (root st) s) (\<lambda>fx s.
        and_then (checked_derivative g (root st) s) (\<lambda>f_prime s.
          and_then (checked_second_derivative g (root st) s) (\<lambda>f_second s.
            let step = halley_step fx f_prime f_second in
            if \<not> is_finite step then hand_over cfg g acc (root st) st s
            else let st = st\<lparr>root := f_sub (root st) step\<rparr> in
              if outside_bracket st then hand_over cfg g acc (f_add (root st) step) st s
              else if f_less (f_abs step) acc then final_call (checked_function_value g (root st) s) (root st)
              else halley cfg g acc st s))))"
  by pat_completeness auto
termination
  by (relation "measure (\<lambda>(cfg, g, acc, st, s). max_evaluations cfg - evaluation_number st)") auto

declare halley.simps [simp del]

definition halley_solve ::
    "solver_config \<Rightarrow> ('s, 'z) function2d_scheme \<Rightarrow> f64 \<Rightarrow> f64 \<Rightarrow> f64 \<Rightarrow> 's \<Rightarrow> ('s, f64) outcome" where
  "halley_solve cfg g accuracy guess step s =
     and_then (check_stepping_args accuracy guess step, s) (\<lambda>accuracy s.
       and_then (bracket_by_stepping cfg (f_value g) guess step s) (\<lambda>b s.
         case b of Root x \<Rightarrow> (Inr x, s) | Ready st \<Rightarrow> halley cfg g accuracy st s))"

definition halley_solve_bracketed ::
    "solver_config \<Rightarrow> ('s, 'z) function2d_scheme \<Rightarrow> f64 \<Rightarrow> f64 \<Rightarrow> f64 \<Rightarrow> f64 \<Rightarrow> 's \<Rightarrow> ('s, f64) outcome" where
  "halley_solve_bracketed cfg g accuracy guess a b s =
     and_then (check_bracket_args accuracy guess a b, s) (\<lambda>accuracy s.
       and_then (bracket_given cfg (f_value g) guess a b s) (\<lambda>b s.
         case b of Root x \<Rightarrow> (Inr x, s) | Ready st \<Rightarrow> halley cfg g accuracy st s))"

end
