(* ===== verification/Solver_Laws.thy ===== *)
theory Solver_Laws
  imports Derivative_Finders
begin

text \<open>
  What the drivers promise: they sample the objective within the limits of the configuration only,
  within the evaluation budget, and they hand a refinement a bracket with a strict change of sign. The
  contract of a refinement, that it keeps to the budget and samples the root last, is a locale, and
  every refinement that keeps it is an interpretation.
\<close>

section \<open>Sampling within the limits\<close>

definition within_limits :: "solver_config \<Rightarrow> f64 \<Rightarrow> bool" where
  "within_limits cfg x \<longleftrightarrow> (\<forall>lb. lower_limit cfg = Some lb \<longrightarrow> \<not> f_less x lb) \<and>
     (\<forall>ub. upper_limit cfg = Some ub \<longrightarrow> \<not> f_less ub x)"

definition consistent_limits :: "solver_config \<Rightarrow> bool" where
  "consistent_limits cfg \<longleftrightarrow> (\<forall>lb ub. lower_limit cfg = Some lb \<longrightarrow> upper_limit cfg = Some ub \<longrightarrow> \<not> f_less ub lb)"

lemma f_less_irrefl [simp]: "\<not> f_less x x"
  by (cases x) simp_all

lemma f_less_asym: "f_less x y \<Longrightarrow> \<not> f_less y x"
  by (cases x; cases y) auto

lemma f_less_trans: "f_less x y \<Longrightarrow> f_less y z \<Longrightarrow> f_less x z"
  by (cases x; cases y; cases z) auto

lemma enforce_bounds_within: "consistent_limits cfg \<Longrightarrow> within_limits cfg (enforce_bounds cfg x)"
  by (auto simp: within_limits_def consistent_limits_def enforce_bounds_def split: option.splits dest: f_less_asym)

text \<open>A property of the closure's state that every permitted call keeps.\<close>

definition kept_by :: "(f64 \<Rightarrow> bool) \<Rightarrow> 's objective \<Rightarrow> ('s \<Rightarrow> bool) \<Rightarrow> bool" where
  "kept_by ok f I \<longleftrightarrow> (\<forall>x s. ok x \<longrightarrow> I s \<longrightarrow> I (snd (f x s)))"

lemma checked_value_eq:
  "checked_value f x s = (if is_finite (fst (f x s)) then Inr (fst (f x s)) else Inl FunctionValueNotFinite, snd (f x s))"
  by (simp add: checked_value_def ensure_finite_function_value_def split: prod.splits)

text \<open>The state a computation ends in, whatever its outcome, has a property.\<close>

definition ends_in :: "('s \<Rightarrow> bool) \<Rightarrow> ('s, 'a) outcome \<Rightarrow> bool" where
  "ends_in I r = I (snd r)"

lemma ends_in_pair [simp]: "ends_in I (v, s) = I s"
  by (simp add: ends_in_def)

lemma ends_in_and_then:
  "ends_in I r \<Longrightarrow> (\<And>v s. r = (Inr v, s) \<Longrightarrow> I s \<Longrightarrow> ends_in I (k v s)) \<Longrightarrow> ends_in I (and_then r k)"
  by (cases r; cases "fst r") (auto simp: ends_in_def)

lemma ends_in_checked_value: "kept_by ok f I \<Longrightarrow> ok x \<Longrightarrow> I s \<Longrightarrow> ends_in I (checked_value f x s)"
  by (simp add: ends_in_def kept_by_def checked_value_eq)

lemma ends_in_if: "(c \<Longrightarrow> ends_in I r) \<Longrightarrow> (\<not> c \<Longrightarrow> ends_in I r') \<Longrightarrow> ends_in I (if c then r else r')"
  by simp

lemma ends_in_let: "ends_in I (k v) \<Longrightarrow> ends_in I (Let v k)"
  by simp

lemmas ends_in_rules = ends_in_if ends_in_let ends_in_and_then

lemma ends_in_grow_bracket:
  assumes "kept_by (within_limits cfg) f I" "consistent_limits cfg" "I s"
  shows "ends_in I (grow_bracket cfg f ff st s)"
  unfolding grow_bracket_def grow_down_def grow_up_def
  by (intro ends_in_rules ends_in_checked_value [OF assms(1)] enforce_bounds_within assms(2,3)) (simp_all add: assms(3))

lemma ends_in_step_outwards:
  assumes "kept_by (within_limits cfg) f I" "consistent_limits cfg" "I s"
  shows "ends_in I (step_outwards cfg f ff st s)"
  using assms
proof (induction cfg f ff st s rule: step_outwards.induct)
  case (1 cfg f ff st s)
  show ?case unfolding step_outwards.simps [of cfg f ff st s]
    by (intro ends_in_rules ends_in_grow_bracket [OF 1(2-4)]; clarsimp simp: 1(4))
      (use 1(1) 1(2,3) in simp)
qed

lemma ends_in_bracket_by_stepping:
  assumes "kept_by (within_limits cfg) f I" "consistent_limits cfg" "I s"
  shows "ends_in I (bracket_by_stepping cfg f guess step s)"
  unfolding bracket_by_stepping_def
  by (simp add: Let_def)
    (intro ends_in_rules ends_in_checked_value [OF assms(1)] enforce_bounds_within assms(2,3)
      ends_in_step_outwards [OF assms(1)]; simp)

section \<open>Recorded evaluations\<close>

text \<open>The objective of a function without state, with a closure that records the points it is called at,
  last first.\<close>

definition recording :: "(f64 \<Rightarrow> f64) \<Rightarrow> f64 list objective" where
  "recording g x tr = (g x, x # tr)"

lemma checked_recording [simp]:
  "checked_value (recording g) x tr = (if is_finite (g x) then Inr (g x) else Inl FunctionValueNotFinite, x # tr)"
  by (simp add: checked_value_eq recording_def)

text \<open>The function returns doubles.\<close>

definition double_valued :: "(f64 \<Rightarrow> f64) \<Rightarrow> bool" where
  "double_valued g \<longleftrightarrow> (\<forall>x v. g x = Fin v \<longrightarrow> representable v)"

definition points_sampled :: "(f64 \<Rightarrow> f64) \<Rightarrow> solver_state \<Rightarrow> bool" where
  "points_sampled g st \<longleftrightarrow> fx_min st = g (x_min st) \<and> fx_max st = g (x_max st) \<and>
     is_finite (fx_min st) \<and> is_finite (fx_max st)"

text \<open>One value is positive and the other negative, neither of them close to zero.\<close>

definition opposite :: "f64 \<Rightarrow> f64 \<Rightarrow> bool" where
  "opposite a b \<longleftrightarrow> (f_less a (Fin 0) \<and> f_less (Fin 0) b) \<or> (f_less b (Fin 0) \<and> f_less (Fin 0) a)"

definition valid_bracket :: "(f64 \<Rightarrow> f64) \<Rightarrow> solver_state \<Rightarrow> bool" where
  "valid_bracket g st \<longleftrightarrow> points_sampled g st \<and> opposite (fx_min st) (fx_max st) \<and>
     \<not> close (fx_min st) (Fin 0) \<and> \<not> close (fx_max st) (Fin 0)"

lemma zero_tolerance_squared: "1 / 2 ^ 300 \<le> zero_tolerance * zero_tolerance"
  by (simp add: zero_tolerance_def epsilon_42_def)

lemma product_positive:
  assumes "zero_tolerance * zero_tolerance \<le> x"
  shows "\<not> f_le (fl x) (Fin 0)"
proof -
  have "1 / 2 ^ 300 \<le> x" using assms zero_tolerance_squared by (rule order_trans [rotated])
  then have "rnd (1 / 2 ^ 300) \<le> rnd x" by (rule rnd_mono)
  moreover have "rnd (1 / 2 ^ 300) = 1 / 2 ^ 300"
    by (rule rnd_representable [of _ 1 "- 300"]) (simp_all add: power_int_minus field_simps)
  ultimately have "0 < rnd x" by (metis less_le_trans zero_less_divide_1_iff zero_less_numeral zero_less_power)
  then show ?thesis by (auto simp: fl_def Let_def f_le_def)
qed

lemma nonpositive_product_is_opposite:
  assumes "representable u" "representable v" "\<not> close (Fin u) (Fin 0)" "\<not> close (Fin v) (Fin 0)"
    and "f_le (f_mul (Fin u) (Fin v)) (Fin 0)"
  shows "opposite (Fin u) (Fin v)"
proof (rule ccontr)
  have t: "zero_tolerance \<le> \<bar>u\<bar>" "zero_tolerance \<le> \<bar>v\<bar>" using assms(1-4) by (simp_all add: close_zero)
  assume "\<not> opposite (Fin u) (Fin v)"
  then have "u * v = \<bar>u\<bar> * \<bar>v\<bar>" using t zero_tolerance_pos
    by (cases "0 \<le> u"; cases "0 \<le> v") (auto simp: opposite_def)
  moreover have "zero_tolerance * zero_tolerance \<le> \<bar>u\<bar> * \<bar>v\<bar>"
    using t zero_tolerance_pos by (intro mult_mono) simp_all
  ultimately show False using product_positive [of "u * v"] assms(5) by simp
qed

lemma finite_Fin: "is_finite v \<longleftrightarrow> (\<exists>x. v = Fin x)"
  by (cases v) simp_all

lemma grow_bracket_samples:
  assumes "grow_bracket cfg (recording g) ff st tr = (Inr (ff', st'), tr')" "points_sampled g st"
  shows "points_sampled g st' \<and> evaluation_number st' \<le> evaluation_number st + 1 \<and>
    length tr' + evaluation_number st \<le> length tr + evaluation_number st' + 1"
  using assms by (auto simp: grow_bracket_def points_sampled_def Let_def and_then_Inr_iff split: if_splits)

text \<open>One end was sampled last, and the value at the other is not close to zero.\<close>

definition last_sample :: "solver_state \<Rightarrow> f64 list \<Rightarrow> bool" where
  "last_sample st tr \<longleftrightarrow> tr \<noteq> [] \<and>
     ((hd tr = x_min st \<and> \<not> close (fx_max st) (Fin 0)) \<or> (hd tr = x_max st \<and> \<not> close (fx_min st) (Fin 0)))"

lemma grow_bracket_last:
  assumes "grow_bracket cfg (recording g) ff st tr = (Inr (ff', st'), tr')" "points_sampled g st" "double_valued g"
    and "last_sample st tr"
  shows "last_sample st' tr'"
proof -
  obtain u v where uv: "fx_min st = Fin u" "fx_max st = Fin v" "representable u" "representable v"
    using assms(2,3) by (metis points_sampled_def double_valued_def finite_Fin)
  then show ?thesis using assms(1,4)
    by (auto simp: grow_bracket_def last_sample_def close_zero Let_def and_then_Inr_iff split: if_splits)
qed

lemma grow_bracket_fails:
  "grow_bracket cfg (recording g) ff st tr = (Inl e, tr') \<Longrightarrow> length tr' \<le> length tr + 1"
  by (auto simp: grow_bracket_def Let_def and_then_Inl_iff split: if_splits)

fun bracket_found :: "solver_config \<Rightarrow> (f64 \<Rightarrow> f64) \<Rightarrow> nat \<Rightarrow> (solver_error + bracketed) \<times> f64 list \<Rightarrow> bool" where
  "bracket_found cfg g n (Inr (Root x), tr) = (close (g x) (Fin 0) \<and> tr \<noteq> [] \<and> hd tr = x \<and> length tr \<le> n + max_evaluations cfg + 2)"
| "bracket_found cfg g n (Inr (Ready st), tr) = (valid_bracket g st \<and> length tr \<le> n + evaluation_number st)"
| "bracket_found cfg g n (Inl e, tr) = (length tr \<le> n + max_evaluations cfg + 2)"

lemma step_outwards_found:
  assumes "double_valued g" "points_sampled g st" "last_sample st tr"
    and "length tr \<le> n + evaluation_number st" "evaluation_number st \<le> max_evaluations cfg + 2"
  shows "bracket_found cfg g n (step_outwards cfg (recording g) ff st tr)"
  using assms
proof (induction cfg "recording g" ff st tr rule: step_outwards.induct)
  case (1 cfg ff st tr)
  obtain u v where uv: "fx_min st = Fin u" "fx_max st = Fin v" "representable u" "representable v"
    using 1(2,3) by (metis points_sampled_def double_valued_def finite_Fin)
  show ?case
  proof (cases "max_evaluations cfg < evaluation_number st \<or> f_le (f_mul (fx_min st) (fx_max st)) (Fin 0)")
    case True
    have "is_finite (g (x_min st))" "is_finite (g (x_max st))" using 1(3) by (auto simp: points_sampled_def)
    then show ?thesis using True 1(2-6) nonpositive_product_is_opposite [OF uv(3,4)]
      by (subst step_outwards.simps)
        (auto simp: points_sampled_def valid_bracket_def last_sample_def uv(1,2) simp del: f_mul.simps)
  next
    case False
    obtain r tr' where g: "grow_bracket cfg (recording g) ff st tr = (r, tr')" by fastforce
    show ?thesis
    proof (cases r)
      case (Inl e)
      then show ?thesis using g False 1(5) grow_bracket_fails [of cfg g ff st tr e tr']
        by (subst step_outwards.simps) simp
    next
      case (Inr p)
      obtain ff' st' where p: "p = (ff', st')" by (cases p)
      note s = grow_bracket_samples [OF g [unfolded Inr p] 1(3)] grow_bracket_last [OF g [unfolded Inr p] 1(3,2,4)]
      have "bracket_found cfg g n (step_outwards cfg (recording g) ff' (st'\<lparr>evaluation_number := evaluation_number st' + 1\<rparr>) tr')"
        using False s 1(2,5) by (intro 1(1) [OF _ _ g [unfolded Inr p] refl])
          (auto simp: points_sampled_def last_sample_def)
      then show ?thesis using False g Inr p by (subst step_outwards.simps) simp
    qed
  qed
qed

lemma bracket_by_stepping_found:
  assumes "double_valued g"
  shows "bracket_found cfg g (length tr) (bracket_by_stepping cfg (recording g) guess step tr)"
  unfolding bracket_by_stepping_def
  by (simp add: Let_def) (auto intro!: step_outwards_found [OF assms] simp: points_sampled_def last_sample_def)

lemma bracket_given_found:
  assumes "double_valued g"
  shows "bracket_found cfg g (length tr) (bracket_given cfg (recording g) guess a b tr)"
  using assms zero_tolerance_pos
  by (cases "g a"; cases "g b") (auto simp: bracket_given_def Let_def valid_bracket_def points_sampled_def
      opposite_def double_valued_def close_zero split: if_splits option.splits)

lemma bracket_given_ready:
  assumes "bracket_given cfg (recording g) guess a b tr = (Inr (Ready st), tr')"
  shows "x_min st = a \<and> x_max st = b \<and> root st = guess \<and> evaluation_number st = 2 \<and> tr' = b # a # tr"
  using assms by (auto simp: bracket_given_def Let_def split: if_splits)

lemma ready_within_cap:
  "bracket_by_stepping cfg f guess step s = (Inr (Ready st), s') \<Longrightarrow> evaluation_number st \<le> max_evaluations cfg"
proof -
  have step: "step_outwards cfg f ff st s = (Inr (Ready st'), s') \<Longrightarrow> evaluation_number st' \<le> max_evaluations cfg"
    for ff st s st' s'
  proof (induction cfg f ff st s rule: step_outwards.induct)
    case (1 cfg f ff st s)
    then show ?case
      by (subst (asm) (2) step_outwards.simps) (auto simp: and_then_Inr_iff split: if_splits)
  qed
  assume "bracket_by_stepping cfg f guess step s = (Inr (Ready st), s')"
  then show ?thesis using step by (auto simp: bracket_by_stepping_def Let_def and_then_Inr_iff split: if_splits)
qed

section \<open>The contract of a refinement\<close>

text \<open>
  A refinement of the recording objective: it samples at most \<open>calls\<close> times per count up to the cap and a constant
  number of times beyond.
\<close>

locale sampling_budget =
  fixes refine :: "solver_config \<Rightarrow> (f64 \<Rightarrow> f64) \<Rightarrow> f64 list refinement" and calls extra :: nat
  assumes calls_pos: "0 < calls"
    and within_budget: "refine cfg g acc st tr = (r, tr') \<Longrightarrow>
      length tr' \<le> length tr + calls * (max_evaluations cfg + 1 - evaluation_number st) + extra"
begin

text \<open>What the search for a bracket has counted is at most what it has sampled; the rest is the refinement's.\<close>

lemma rest_of_the_budget: "m \<le> n + 1 \<Longrightarrow> m + calls * (n + 1 - m) \<le> calls * (n + 1)"
proof -
  assume "m \<le> n + 1"
  then obtain k where k: "n + 1 = m + k" using le_Suc_ex by blast
  have "m \<le> calls * m" using calls_pos by simp
  then show ?thesis unfolding k by (simp add: distrib_left)
qed

lemma cap_le: "n + 1 \<le> calls * (n + 1)"
  using mult_le_mono1 [of 1 calls "n + 1"] calls_pos by simp

lemma solve_within_budget:
  assumes "double_valued g" "solve cfg (recording g) (refine cfg g) acc guess step tr = (r, tr')"
  shows "length tr' \<le> length tr + calls * (max_evaluations cfg + 1) + extra + 1"
proof (cases "check_stepping_args acc guess step")
  case (Inl e)
  then show ?thesis using assms(2) by (simp add: solve_def)
next
  case (Inr a)
  obtain b tb where b: "bracket_by_stepping cfg (recording g) guess step tr = (b, tb)" by fastforce
  note f = bracket_by_stepping_found [OF assms(1), of cfg tr guess step, unfolded b]
  consider e where "b = Inl e" | x where "b = Inr (Root x)" | st where "b = Inr (Ready st)"
    by (metis bracketed.exhaust sum.exhaust)
  then show ?thesis
  proof cases
    case 3
    then have "refine cfg g a st tb = (r, tr')" using assms(2) Inr b by (simp add: solve_def)
    then have "length tr' \<le> length tb + calls * (max_evaluations cfg + 1 - evaluation_number st) + extra" by (rule within_budget)
    moreover have "length tb \<le> length tr + evaluation_number st" using f 3 by simp
    moreover have "evaluation_number st + calls * (max_evaluations cfg + 1 - evaluation_number st) \<le> calls * (max_evaluations cfg + 1)"
      using ready_within_cap [OF b [unfolded 3]] by (intro rest_of_the_budget) simp
    ultimately show ?thesis by linarith
  qed (use assms(2) Inr b f cap_le [of "max_evaluations cfg"] in \<open>auto simp: solve_def\<close>)
qed

lemma solve_bracketed_within_budget:
  assumes "double_valued g" "solve_bracketed cfg (recording g) (refine cfg g) acc guess a b tr = (r, tr')"
  shows "length tr' \<le> length tr + calls * (max_evaluations cfg + 1) + extra + 1"
proof (cases "check_bracket_args acc guess a b")
  case (Inl e)
  then show ?thesis using assms(2) by (simp add: solve_bracketed_def)
next
  case (Inr c)
  obtain k tb where k: "bracket_given cfg (recording g) guess a b tr = (k, tb)" by fastforce
  note f = bracket_given_found [OF assms(1), of cfg tr guess a b, unfolded k]
  consider e where "k = Inl e" | x where "k = Inr (Root x)" | st where "k = Inr (Ready st)"
    by (metis bracketed.exhaust sum.exhaust)
  then show ?thesis
  proof cases
    case 3
    then have "refine cfg g c st tb = (r, tr')" using assms(2) Inr k by (simp add: solve_bracketed_def)
    then have "length tr' \<le> length tr + 2 + calls * (max_evaluations cfg + 1 - 2) + extra"
      using within_budget [of cfg g c st tb r tr'] bracket_given_ready [OF k [unfolded 3]] by simp
    moreover have "2 + calls * (max_evaluations cfg + 1 - 2) \<le> calls * (max_evaluations cfg + 1) + 1"
      using rest_of_the_budget [of 2 "max_evaluations cfg"] calls_pos by (cases "max_evaluations cfg") auto
    ultimately show ?thesis by linarith
  qed (use assms(2) Inr k f cap_le [of "max_evaluations cfg"] in \<open>auto simp: solve_bracketed_def\<close>)
qed

lemma entries_within_budget:
  assumes "double_valued g"
  shows "length (snd (solve cfg (recording g) (refine cfg g) acc guess step [])) \<le> calls * (max_evaluations cfg + 1) + extra + 1 \<and>
    length (snd (solve_bracketed cfg (recording g) (refine cfg g) acc guess a b [])) \<le> calls * (max_evaluations cfg + 1) + extra + 1"
  using solve_within_budget [OF assms, of cfg acc guess step "[]"] solve_bracketed_within_budget [OF assms, of cfg acc guess a b "[]"]
  by (metis add_0 list.size(3) prod.collapse)

end

text \<open>The full contract: one sample per count, and when the refinement succeeds the last point it sampled is the
  root it returns.\<close>

locale refinement_contract = sampling_budget refine 1 extra
  for refine :: "solver_config \<Rightarrow> (f64 \<Rightarrow> f64) \<Rightarrow> f64 list refinement" and extra :: nat +
  assumes root_sampled_last: "refine cfg g acc st tr = (Inr x, tr') \<Longrightarrow> tr' \<noteq> [] \<and> hd tr' = x"
begin

text \<open>A solver that succeeds has sampled the root: last of all.\<close>

lemma solve_samples_root:
  assumes "double_valued g" "solve cfg (recording g) (refine cfg g) acc guess step tr = (Inr x, tr')"
  shows "tr' \<noteq> [] \<and> hd tr' = x"
proof -
  obtain a b tb where a: "check_stepping_args acc guess step = Inr a"
    and b: "bracket_by_stepping cfg (recording g) guess step tr = (Inr b, tb)"
    and r: "(case b of Root x \<Rightarrow> (Inr x, tb) | Ready st \<Rightarrow> refine cfg g a st tb) = (Inr x, tr')"
    using assms(2) by (auto simp: solve_def and_then_Inr_iff)
  show ?thesis
  proof (cases b)
    case (Root y)
    then show ?thesis using r bracket_by_stepping_found [OF assms(1), of cfg tr guess step, unfolded b] by simp
  next
    case (Ready st)
    then show ?thesis using root_sampled_last [of cfg g a st tb x tr'] r by auto
  qed
qed

lemma solve_bracketed_samples_root:
  assumes "double_valued g" "solve_bracketed cfg (recording g) (refine cfg g) acc guess a b tr = (Inr x, tr')"
  shows "tr' \<noteq> [] \<and> hd tr' = x"
proof -
  obtain c k tb where "check_bracket_args acc guess a b = Inr c"
    and k: "bracket_given cfg (recording g) guess a b tr = (Inr k, tb)"
    and r: "(case k of Root x \<Rightarrow> (Inr x, tb) | Ready st \<Rightarrow> refine cfg g c st tb) = (Inr x, tr')"
    using assms(2) by (auto simp: solve_bracketed_def and_then_Inr_iff)
  show ?thesis
  proof (cases k)
    case (Root y)
    then show ?thesis using r k by (auto simp: bracket_given_def Let_def split: if_splits)
  next
    case (Ready st)
    then show ?thesis using root_sampled_last [of cfg g c st tb x tr'] r by auto
  qed
qed

end

end
