(* ===== verification/Solver_Contracts.thy ===== *)
theory Solver_Contracts
  imports Solver_Laws
begin

text \<open>
  Every refinement but the finite-difference one keeps the contract of the drivers, and that one keeps to twice
  the budget: the interpretations, one lemma on the loop of each, and what follows for the solvers.
\<close>

lemma checked_function_value_recording [simp]:
  "f_value g' = recording g \<Longrightarrow>
     checked_function_value g' x tr = (if is_finite (g x) then Inr (g x) else Inl FunctionValueNotFinite, x # tr)"
  by (simp add: checked_function_value_def recording_def ensure_finite_function_value_def)

definition silent :: "(f64 \<Rightarrow> f64) \<Rightarrow> f64 list objective" where
  "silent d x tr = (d x, tr)"

lemma checked_derivative_silent [simp]:
  "f_derivative g' = silent d \<Longrightarrow>
     checked_derivative g' x tr = (if is_finite (d x) then Inr (d x) else Inl DerivativeNotFinite, tr)"
  by (simp add: checked_derivative_def silent_def)

lemma checked_second_derivative_silent [simp]:
  "f_second_derivative g' = silent d \<Longrightarrow>
     checked_second_derivative g' x tr = (if is_finite (d x) then Inr (d x) else Inl SecondDerivativeNotFinite, tr)"
  by (simp add: checked_second_derivative_def silent_def)

text \<open>The outcome of a loop that may sample \<open>n\<close> more points, and returns the last one it sampled.\<close>

definition records_root :: "nat \<Rightarrow> f64 list \<Rightarrow> (solver_error + f64) \<times> f64 list \<Rightarrow> bool" where
  "records_root n tr r \<longleftrightarrow> length (snd r) \<le> length tr + n \<and> (\<forall>x. fst r = Inr x \<longrightarrow> snd r \<noteq> [] \<and> hd (snd r) = x)"

lemma records_root_Inl [simp]: "records_root n tr (Inl e, tr') \<longleftrightarrow> length tr' \<le> length tr + n"
  by (simp add: records_root_def)

lemma records_root_Inr [simp]:
  "records_root n tr (Inr x, tr') \<longleftrightarrow> length tr' \<le> length tr + n \<and> tr' \<noteq> [] \<and> hd tr' = x"
  by (auto simp: records_root_def)

lemma records_root_weaken: "records_root m (x # tr) r \<Longrightarrow> m + 1 \<le> n \<Longrightarrow> records_root n tr r"
  by (auto simp: records_root_def)

lemma records_root_pure:
  "(\<And>v. records_root n tr (k v s)) \<Longrightarrow> length s \<le> length tr + n \<Longrightarrow> records_root n tr (and_then (x, s) k)"
  by (cases x) simp_all

lemma bisection_loop_records:
  "records_root (max_evaluations cfg + 2 - evaluation_number st) tr (bisection_loop cfg (recording g) acc dx st tr)"
proof (induction "max_evaluations cfg + 1 - evaluation_number st" arbitrary: dx st tr rule: less_induct)
  case less
  show ?case
  proof (cases "max_evaluations cfg < evaluation_number st")
    case True
    then show ?thesis by (subst bisection_loop.simps) simp
  next
    case False
    then have cap: "Suc (Suc (length tr)) \<le> Suc (Suc (length tr + max_evaluations cfg)) - evaluation_number st"
      "Suc (length tr) \<le> Suc (Suc (length tr + max_evaluations cfg)) - evaluation_number st" by simp_all
    have step: "records_root (max_evaluations cfg + 2 - evaluation_number st) tr (bisection_loop cfg (recording g) acc dx' st' (x # tr))"
      if "evaluation_number st' = Suc (evaluation_number st)" for dx' st' x
      by (rule records_root_weaken [OF less(1)]) (use that False in simp_all)
    show ?thesis using False by (subst bisection_loop.simps) (simp add: Let_def final_call_def step [simplified] cap)
  qed
qed

lemma false_position_loop_records:
  "records_root (max_evaluations cfg + 1 - evaluation_number st) tr (false_position_loop cfg (recording g) acc l h st tr)"
proof (induction "max_evaluations cfg + 1 - evaluation_number st" arbitrary: l h st tr rule: less_induct)
  case less
  obtain xl fxl xh fxh where lh: "l = (xl, fxl)" "h = (xh, fxh)" by fastforce
  show ?case
  proof (cases "max_evaluations cfg < evaluation_number st")
    case True
    then show ?thesis unfolding lh by (subst false_position_loop.simps) simp
  next
    case False
    then have cap: "Suc (length tr) \<le> Suc (length tr + max_evaluations cfg) - evaluation_number st" by simp
    have step: "records_root (max_evaluations cfg + 1 - evaluation_number st) tr (false_position_loop cfg (recording g) acc l' h' st' (x # tr))"
      if "evaluation_number st' = Suc (evaluation_number st)" for l' h' st' x
      by (rule records_root_weaken [OF less(1)]) (use that False in simp_all)
    show ?thesis unfolding lh using False by (subst false_position_loop.simps) (simp add: Let_def step [simplified] cap)
  qed
qed

lemma secant_loop_records:
  "records_root (max_evaluations cfg + 1 - evaluation_number st) tr (secant_loop cfg (recording g) acc froot xl fxl st tr)"
proof (induction "max_evaluations cfg + 1 - evaluation_number st" arbitrary: froot xl fxl st tr rule: less_induct)
  case less
  show ?case
  proof (cases "max_evaluations cfg < evaluation_number st")
    case True
    then show ?thesis by (subst secant_loop.simps) simp
  next
    case False
    then have cap: "Suc (length tr) \<le> Suc (length tr + max_evaluations cfg) - evaluation_number st" by simp
    have step: "records_root (max_evaluations cfg + 1 - evaluation_number st) tr (secant_loop cfg (recording g) acc froot' xl' fxl' st' (x # tr))"
      if "evaluation_number st' = Suc (evaluation_number st)" for froot' xl' fxl' st' x
      by (rule records_root_weaken [OF less(1)]) (use that False in simp_all)
    show ?thesis using False by (subst secant_loop.simps) (simp add: Let_def step [simplified] cap)
  qed
qed

lemma brent_loop_records:
  "records_root (max_evaluations cfg + 1 - evaluation_number st) tr (brent_loop cfg (recording g) acc froot d e st tr)"
proof (induction "max_evaluations cfg + 1 - evaluation_number st" arbitrary: froot d e st tr rule: less_induct)
  case less
  show ?case
  proof (cases "max_evaluations cfg < evaluation_number st")
    case True
    then show ?thesis by (subst brent_loop.simps) simp
  next
    case False
    then have cap: "Suc (length tr) \<le> Suc (length tr + max_evaluations cfg) - evaluation_number st" by simp
    have step: "records_root (max_evaluations cfg + 1 - evaluation_number st) tr (brent_loop cfg (recording g) acc froot' d' e' st' (x # tr))"
      if "evaluation_number st' = Suc (evaluation_number st)" for froot' d' e' st' x
      by (rule records_root_weaken [OF less(1)]) (use that False in simp_all)
    show ?thesis using False
      by (subst brent_loop.simps) (simp add: Let_def final_call_def step [simplified] cap split: prod.splits)
  qed
qed

lemma ridder_loop_records:
  "records_root (max_evaluations cfg + 3 - evaluation_number st) tr (ridder_loop cfg (recording g) acc st tr)"
proof (induction "max_evaluations cfg + 1 - evaluation_number st" arbitrary: st tr rule: less_induct)
  case less
  show ?case
  proof (cases "max_evaluations cfg < evaluation_number st")
    case True
    then show ?thesis by (subst ridder_loop.simps) simp
  next
    case False
    then have cap: "Suc (length tr) \<le> length tr + (max_evaluations cfg + 3) - evaluation_number st"
      "Suc (Suc (length tr)) \<le> length tr + (max_evaluations cfg + 3) - evaluation_number st"
      "Suc (Suc (Suc (length tr))) \<le> length tr + (max_evaluations cfg + 3) - evaluation_number st" by simp_all
    have step: "records_root (max_evaluations cfg + 3 - evaluation_number st) tr (ridder_loop cfg (recording g) acc st' (x # y # tr))"
      if "evaluation_number st' = evaluation_number st + 2" for st' x y
      by (rule records_root_weaken [OF records_root_weaken [OF less(1) order_refl]]) (use that False in simp_all)
    show ?thesis using False
      by (subst ridder_loop.simps)
        (simp add: Let_def final_call_def step [simplified] cap, intro impI conjI records_root_pure;
          simp add: final_call_def step [simplified] cap)
  qed
qed

lemma newton_loop_records:
  assumes [simp]: "f_value g' = recording g" "f_derivative g' = silent d"
  shows "records_root (max_evaluations cfg + 1 - evaluation_number st) tr (newton_loop cfg g' acc froot dfroot st tr)"
proof (induction "max_evaluations cfg + 1 - evaluation_number st" arbitrary: froot dfroot st tr rule: less_induct)
  case less
  show ?case
  proof (cases "max_evaluations cfg < evaluation_number st")
    case True
    then show ?thesis by (subst newton_loop.simps) simp
  next
    case False
    then have cap: "Suc (length tr) \<le> Suc (length tr + max_evaluations cfg) - evaluation_number st"
      "length tr \<le> Suc (length tr + max_evaluations cfg) - evaluation_number st" by simp_all
    have step: "records_root (max_evaluations cfg + 1 - evaluation_number st) tr (newton_loop cfg g' acc froot' dfroot' st' (x # tr))"
      if "evaluation_number st' = Suc (evaluation_number st)" for froot' dfroot' st' x
      by (rule records_root_weaken [OF less(1)]) (use that False in simp_all)
    show ?thesis using False by (subst newton_loop.simps) (simp add: Let_def final_call_def step [simplified] cap)
  qed
qed

lemma newton_safe_loop_records:
  assumes [simp]: "f_value g' = recording g" "f_derivative g' = silent d"
  shows "records_root (max_evaluations cfg + 1 - evaluation_number st) tr
    (newton_safe_loop cfg g' acc xl xh dxold dx froot dfroot st tr)"
proof (induction "max_evaluations cfg + 1 - evaluation_number st" arbitrary: xl xh dxold dx froot dfroot st tr rule: less_induct)
  case less
  show ?case
  proof (cases "max_evaluations cfg < evaluation_number st")
    case True
    then show ?thesis by (subst newton_safe_loop.simps) simp
  next
    case False
    then have cap: "Suc (length tr) \<le> Suc (length tr + max_evaluations cfg) - evaluation_number st"
      "length tr \<le> Suc (length tr + max_evaluations cfg) - evaluation_number st" by simp_all
    have step: "records_root (max_evaluations cfg + 1 - evaluation_number st) tr
        (newton_safe_loop cfg g' acc xl' xh' dxold' dx' froot' dfroot' st' (x # tr))"
      if "evaluation_number st' = Suc (evaluation_number st)" for xl' xh' dxold' dx' froot' dfroot' st' x
      by (rule records_root_weaken [OF less(1)]) (use that False in simp_all)
    show ?thesis using False
      by (subst newton_safe_loop.simps) (simp add: Let_def final_call_def step [simplified] cap split: prod.splits)
  qed
qed

text \<open>The finite-difference solver samples the far end of its bracket in passes it counts once, and returns a root it
  has not sampled: it keeps only to twice the budget.\<close>

definition records_most :: "nat \<Rightarrow> f64 list \<Rightarrow> (solver_error + f64) \<times> f64 list \<Rightarrow> bool" where
  "records_most n tr r \<longleftrightarrow> length (snd r) \<le> length tr + n"

lemma records_most_pair [simp]: "records_most n tr (v, tr') \<longleftrightarrow> length tr' \<le> length tr + n"
  by (simp add: records_most_def)

lemma records_most_weaken: "records_most m tr' r \<Longrightarrow> length tr' + m \<le> length tr + n \<Longrightarrow> records_most n tr r"
  by (simp add: records_most_def)

lemma difference_loop_records:
  "records_most (2 * (max_evaluations cfg + 1 - evaluation_number st)) tr (difference_loop cfg (recording g) acc xl xh dx froot dfroot st tr)"
proof (induction "max_evaluations cfg + 1 - evaluation_number st" arbitrary: xl xh dx froot dfroot st tr rule: less_induct)
  case less
  show ?case
  proof (cases "max_evaluations cfg < evaluation_number st")
    case True
    then show ?thesis by (subst difference_loop.simps) simp
  next
    case False
    then have cap: "Suc (Suc (length tr)) \<le> length tr + 2 * (Suc (max_evaluations cfg) - evaluation_number st)"
      "Suc (length tr) \<le> length tr + 2 * (Suc (max_evaluations cfg) - evaluation_number st)" by simp_all
    have step: "records_most (2 * (max_evaluations cfg + 1 - evaluation_number st)) tr
        (difference_loop cfg (recording g) acc xl' xh' dx' froot' dfroot' st' tr')"
      if "evaluation_number st' = Suc (evaluation_number st)" "length tr' \<le> length tr + 2" for xl' xh' dx' froot' dfroot' st' tr'
      by (rule records_most_weaken [OF less(1)]) (use that False in simp_all)
    show ?thesis using False
      by (subst difference_loop.simps) (simp add: Let_def step [simplified] cap)
  qed
qed

section \<open>The contract, kept\<close>

lemma bisection_records:
  "records_root (max_evaluations cfg + 2 - evaluation_number st) tr (bisection cfg (recording g) acc st tr)"
  using bisection_loop_records [of cfg "st\<lparr>root := _\<rparr>" tr g acc] by (simp add: bisection_def)

lemma false_position_records:
  "records_root (max_evaluations cfg + 1 - evaluation_number st) tr (false_position cfg (recording g) acc st tr)"
  by (simp add: false_position_def false_position_loop_records [simplified])

lemma secant_records:
  "records_root (max_evaluations cfg + 1 - evaluation_number st) tr (secant cfg (recording g) acc st tr)"
  using secant_loop_records [of cfg "st\<lparr>root := _\<rparr>" tr g acc] by (simp add: secant_def)

lemma brent_records:
  "records_root (max_evaluations cfg + 1 - evaluation_number st + 1) tr (brent cfg (recording g) acc st tr)"
proof -
  have "records_root (max_evaluations cfg + 1 - evaluation_number st + 1) tr (brent_loop cfg (recording g) acc fr d e st' (x # tr))"
    if "evaluation_number st' = Suc (evaluation_number st)" for fr d e st' x
    by (rule records_root_weaken [OF brent_loop_records]) (use that in simp)
  then show ?thesis by (simp add: brent_def Let_def)
qed

lemma ridder_records:
  "records_root (max_evaluations cfg + 3 - evaluation_number st) tr (ridder cfg (recording g) acc st tr)"
  using ridder_loop_records [of cfg "st\<lparr>root := _\<rparr>" tr g] by (simp add: ridder_def)

lemma newton_records:
  assumes [simp]: "f_value g' = recording g" "f_derivative g' = silent d"
  shows "records_root (max_evaluations cfg + 1 - evaluation_number st + 1) tr (newton cfg g' acc st tr)"
proof -
  have "records_root (max_evaluations cfg + 1 - evaluation_number st + 1) tr (newton_loop cfg g' acc fr df st' (x # tr))"
    if "evaluation_number st' = Suc (evaluation_number st)" for fr df st' x
    by (rule records_root_weaken [OF newton_loop_records]) (use that in simp_all)
  then show ?thesis by (simp add: newton_def)
qed

lemma newton_safe_records:
  assumes [simp]: "f_value g' = recording g" "f_derivative g' = silent d"
  shows "records_root (max_evaluations cfg + 1 - evaluation_number st + 1) tr (newton_safe cfg g' acc st tr)"
proof -
  have "records_root (max_evaluations cfg + 1 - evaluation_number st + 1) tr
      (newton_safe_loop cfg g' acc xl xh dxo dx fr df st' (x # tr))"
    if "evaluation_number st' = Suc (evaluation_number st)" for xl xh dxo dx fr df st' x
    by (rule records_root_weaken [OF newton_safe_loop_records]) (use that in simp_all)
  then show ?thesis by (simp add: newton_safe_def Let_def)
qed

text \<open>Halley hands over to the safe solver with what is left of the budget; that samples the ends again.\<close>

lemma hand_over_records:
  assumes g: "f_value g' = recording g" "f_derivative g' = silent d" and n: "evaluation_number st \<le> max_evaluations cfg"
  shows "records_root (max_evaluations cfg + 3 - evaluation_number st) tr (hand_over cfg g' acc guess st tr)"
proof -
  let ?safe = "with_max_evaluations solver_config_new (max_evaluations cfg - evaluation_number st)"
  have safe: "records_root (max_evaluations cfg + 3 - evaluation_number st) tr (newton_safe ?safe g' a st' (x # y # tr))"
    if "evaluation_number st' = 2" for a st' x y
    by (rule records_root_weaken [OF records_root_weaken [OF newton_safe_records [OF g] order_refl]])
      (use that n in \<open>simp add: with_max_evaluations_def\<close>)
  have cap: "Suc (Suc (length tr)) \<le> length tr + (max_evaluations cfg + 3) - evaluation_number st"
    "Suc (length tr) \<le> length tr + (max_evaluations cfg + 3) - evaluation_number st"
    "length tr \<le> length tr + (max_evaluations cfg + 3) - evaluation_number st" using n by simp_all
  show ?thesis unfolding hand_over_def derivative_solve_bracketed_def bracket_given_def Let_def g
    by (rule records_root_pure) (use safe cap in \<open>simp_all add: Let_def\<close>)
qed

lemma halley_records:
  assumes g: "f_value g' = recording g" "f_derivative g' = silent d" "f_second_derivative g' = silent d2"
  shows "records_root (max_evaluations cfg + 3 - evaluation_number st) tr (halley cfg g' acc st tr)"
proof (induction "max_evaluations cfg - evaluation_number st" arbitrary: st tr rule: less_induct)
  case less
  show ?case
  proof (cases "evaluation_number st < max_evaluations cfg")
    case False
    then show ?thesis by (subst halley.simps) simp
  next
    case True
    then have cap: "Suc (Suc (length tr)) \<le> length tr + (max_evaluations cfg + 3) - evaluation_number st"
      "Suc (length tr) \<le> length tr + (max_evaluations cfg + 3) - evaluation_number st" by simp_all
    have step: "records_root (max_evaluations cfg + 3 - evaluation_number st) tr (halley cfg g' acc st' (x # tr))"
      if "evaluation_number st' = Suc (evaluation_number st)" for st' x
      by (rule records_root_weaken [OF less(1)]) (use that True in simp_all)
    have hand: "records_root (max_evaluations cfg + 3 - evaluation_number st) tr (hand_over cfg g' acc guess st' (x # tr))"
      if "evaluation_number st' = Suc (evaluation_number st)" for guess st' x
      by (rule records_root_weaken [OF hand_over_records [OF g(1,2)]]) (use that True in simp_all)
    show ?thesis using True
      by (subst halley.simps) (simp add: Let_def g final_call_def step [simplified] hand [simplified] cap)
  qed
qed

lemma records_root_contract:
  assumes "\<And>cfg g acc st tr. records_root (max_evaluations cfg + 1 - evaluation_number st + k) tr (refine cfg g acc st tr)"
  shows "refinement_contract refine k"
proof
  show "0 < (1::nat)" by simp
  fix cfg g acc st tr r tr' x
  show "refine cfg g acc st tr = (r, tr') \<Longrightarrow> length tr' \<le> length tr + 1 * (max_evaluations cfg + 1 - evaluation_number st) + k"
    using assms [of cfg st tr g acc] by (simp add: records_root_def)
  show "refine cfg g acc st tr = (Inr x, tr') \<Longrightarrow> tr' \<noteq> [] \<and> hd tr' = x"
    using assms [of cfg st tr g acc] by (simp add: records_root_def)
qed

lemma records_root_mono: "records_root m tr r \<Longrightarrow> m \<le> n \<Longrightarrow> records_root n tr r"
  by (auto simp: records_root_def)

interpretation bisection: refinement_contract "\<lambda>cfg g. bisection cfg (recording g)" 2
  by (rule records_root_contract) (rule records_root_mono [OF bisection_records], simp)

interpretation false_position: refinement_contract "\<lambda>cfg g. false_position cfg (recording g)" 2
  by (rule records_root_contract) (rule records_root_mono [OF false_position_records], simp)

interpretation secant: refinement_contract "\<lambda>cfg g. secant cfg (recording g)" 2
  by (rule records_root_contract) (rule records_root_mono [OF secant_records], simp)

interpretation brent: refinement_contract "\<lambda>cfg g. brent cfg (recording g)" 2
  by (rule records_root_contract) (rule records_root_mono [OF brent_records], simp)

interpretation ridder: refinement_contract "\<lambda>cfg g. ridder cfg (recording g)" 2
  by (rule records_root_contract) (rule records_root_mono [OF ridder_records], simp)

interpretation newton: refinement_contract "\<lambda>cfg g. newton cfg \<lparr>f_value = recording g, f_derivative = silent d\<rparr>" 2 for d
  by (rule records_root_contract) (rule records_root_mono [OF newton_records], simp_all)

interpretation newton_safe: refinement_contract "\<lambda>cfg g. newton_safe cfg \<lparr>f_value = recording g, f_derivative = silent d\<rparr>" 2 for d
  by (rule records_root_contract) (rule records_root_mono [OF newton_safe_records], simp_all)

interpretation halley: refinement_contract
  "\<lambda>cfg g. halley cfg \<lparr>f_value = recording g, f_derivative = silent d, f_second_derivative = silent d2\<rparr>" 2 for d d2
  by (rule records_root_contract) (rule records_root_mono [OF halley_records], simp_all)

interpretation finite_difference: sampling_budget "\<lambda>cfg g. finite_difference_newton_safe cfg (recording g)" 2 1
proof
  fix cfg g acc tr r tr' and st :: solver_state
  have loop: "records_most (2 * (max_evaluations cfg + 1 - evaluation_number st) + 1) tr
      (difference_loop cfg (recording g) acc xl xh dx fr df st' (x # tr))"
    if "evaluation_number st' = Suc (evaluation_number st)" for xl xh dx fr df st' x
    by (rule records_most_weaken [OF difference_loop_records]) (use that in simp)
  have "records_most (2 * (max_evaluations cfg + 1 - evaluation_number st) + 1) tr (finite_difference_newton_safe cfg (recording g) acc st tr)"
    by (simp add: finite_difference_newton_safe_def Let_def loop [simplified])
  then show "finite_difference_newton_safe cfg (recording g) acc st tr = (r, tr') \<Longrightarrow>
      length tr' \<le> length tr + 2 * (max_evaluations cfg + 1 - evaluation_number st) + 1"
    by (simp add: records_most_def)
qed simp

text \<open>The entry points of the solvers with derivatives search for the bracket in the same way.\<close>

lemma derivative_entries:
  "derivative_solve cfg h refine = solve cfg (f_value h) refine"
  "derivative_solve_bracketed cfg h refine = solve_bracketed cfg (f_value h) refine"
  "halley_solve cfg h2 = solve cfg (f_value h2) (halley cfg h2)"
  "halley_solve_bracketed cfg h2 = solve_bracketed cfg (f_value h2) (halley cfg h2)"
  by (simp_all add: fun_eq_iff derivative_solve_def solve_def derivative_solve_bracketed_def solve_bracketed_def
      halley_solve_def halley_solve_bracketed_def)

lemma contract_of_all:
  "refine \<in> {bisection, false_position, secant, brent, ridder} \<Longrightarrow> refinement_contract (\<lambda>cfg g. refine cfg (recording g)) 2"
  using bisection.refinement_contract_axioms false_position.refinement_contract_axioms
    secant.refinement_contract_axioms brent.refinement_contract_axioms ridder.refinement_contract_axioms by blast

end
