(* ===== verification/Bisection_Properties.thy ===== *)
theory Bisection_Properties
  imports Solver_Contracts
begin

text \<open>
  Bisection in floating point: the step is halved and the midpoint computed with rounding, and still the
  root it returns has a change of sign within the accuracy and the accumulated rounding errors; and
  with enough evaluations it always returns.
\<close>

section \<open>One step\<close>

lemma fl_double: "\<bar>x\<bar> \<le> 2 ^ k \<Longrightarrow> k \<le> 1000 \<Longrightarrow> fl x = Fin (rnd x) \<and> \<bar>rnd x - x\<bar> \<le> 2 ^ k / 2 ^ 53"
proof -
  assume x: "\<bar>x\<bar> \<le> 2 ^ k" "k \<le> 1000"
  have "\<bar>x\<bar> \<le> 2 ^ 1000" by (rule order_trans [OF x(1)]) (rule power_increasing [OF x(2)], simp)
  then show ?thesis using rnd_error_bound [OF x(1)] by (simp add: fl_small)
qed

text \<open>The halved step and the midpoint, with what they are off.\<close>

lemma bisection_step:
  assumes "\<bar>r\<bar> + \<bar>dx\<bar> \<le> 2 ^ K" "K \<le> 999"
  obtains dx' m where "f_div (Fin dx) (Fin 2) = Fin dx'" "dx' = rnd (dx / 2)" "f_add (Fin r) (Fin dx') = Fin m"
    "\<bar>dx' - dx / 2\<bar> \<le> 2 ^ K / 2 ^ 53" "\<bar>m - (r + dx')\<bar> \<le> 2 * 2 ^ K / 2 ^ 53"
proof
  have "\<bar>dx / 2\<bar> \<le> 2 ^ K" using assms(1) by (simp add: abs_if split: if_splits)
  then have d: "fl (dx / 2) = Fin (rnd (dx / 2))" "\<bar>rnd (dx / 2) - dx / 2\<bar> \<le> 2 ^ K / 2 ^ 53"
    using fl_double [of "dx / 2" K] assms(2) by simp_all
  then show "f_div (Fin dx) (Fin 2) = Fin (rnd (dx / 2))" "\<bar>rnd (dx / 2) - dx / 2\<bar> \<le> 2 ^ K / 2 ^ 53"
    "rnd (dx / 2) = rnd (dx / 2)" by simp_all
  have "(2::rat) ^ K / 2 ^ 53 \<le> 2 ^ K / 2" by (intro divide_left_mono) simp_all
  then have "\<bar>r + rnd (dx / 2)\<bar> \<le> 2 ^ (K + 1)" using d(2) assms(1) by (simp add: abs_if split: if_splits)
  from fl_double [OF this] assms(2)
  show "f_add (Fin r) (Fin (rnd (dx / 2))) = Fin (rnd (r + rnd (dx / 2)))"
    "\<bar>rnd (r + rnd (dx / 2)) - (r + rnd (dx / 2))\<bar> \<le> 2 * 2 ^ K / 2 ^ 53" by simp_all
qed

section \<open>Where the root is\<close>

text \<open>A change of sign near \<open>r\<close>: the function is not positive there, and positive at a point at most \<open>w\<close> away.\<close>

definition sign_change_near :: "(f64 \<Rightarrow> f64) \<Rightarrow> rat \<Rightarrow> rat \<Rightarrow> bool" where
  "sign_change_near g r w \<longleftrightarrow> f_le (g (Fin r)) (Fin 0) \<and> (\<exists>h. f_less (Fin 0) (g (Fin h)) \<and> \<bar>h - r\<bar> < w)"

text \<open>One pass of the loop, with the halved step and the midpoint named.\<close>

definition bisection_next :: "(f64 \<Rightarrow> f64) \<Rightarrow> rat \<Rightarrow> solver_state \<Rightarrow> solver_state" where
  "bisection_next g m st = (let st = st\<lparr>evaluation_number := evaluation_number st + 1\<rparr>
     in if f_le (g (Fin m)) (Fin 0) then st\<lparr>root := Fin m\<rparr> else st)"

lemma bisection_loop_pass:
  assumes "root st = Fin r" "f_div (Fin dx) (Fin 2) = Fin dx'" "f_add (Fin r) (Fin dx') = Fin m"
    and n: "\<not> max_evaluations cfg < evaluation_number st"
  shows "bisection_loop cfg (recording g) (Fin acc) (Fin dx) st tr =
    (if \<not> is_finite (g (Fin m)) then (Inl FunctionValueNotFinite, Fin m # tr)
     else if \<bar>dx'\<bar> < acc \<or> close (g (Fin m)) (Fin 0)
     then final_call (checked_value (recording g) (root (bisection_next g m st)) (Fin m # tr)) (root (bisection_next g m st))
     else bisection_loop cfg (recording g) (Fin acc) (Fin dx') (bisection_next g m st) (Fin m # tr))"
proof -
  have "bisection_loop cfg (recording g) (Fin acc) (Fin dx) st tr =
    and_then (checked_value (recording g) (Fin m) tr) (\<lambda>f_mid s.
      let st = st\<lparr>evaluation_number := evaluation_number st + 1\<rparr>;
          st = (if f_le f_mid (Fin 0) then st\<lparr>root := Fin m\<rparr> else st) in
      if f_less (f_abs (Fin dx')) (Fin acc) \<or> close f_mid (Fin 0) then final_call (checked_value (recording g) (root st) s) (root st)
      else bisection_loop cfg (recording g) (Fin acc) (Fin dx') st s)"
    by (subst bisection_loop.simps) (simp only: n if_False Let_def assms(1-3))
  then show ?thesis unfolding bisection_next_def Let_def by (cases "is_finite (g (Fin m))") simp_all
qed

text \<open>The pass keeps the invariant: not positive at the root, positive near the root plus the step.\<close>

definition straddles :: "(f64 \<Rightarrow> f64) \<Rightarrow> solver_state \<Rightarrow> rat \<Rightarrow> rat \<Rightarrow> rat \<Rightarrow> rat \<Rightarrow> bool" where
  "straddles g st r dx e B \<longleftrightarrow> root st = Fin r \<and> f_le (g (Fin r)) (Fin 0) \<and>
     (\<exists>h. f_less (Fin 0) (g (Fin h)) \<and> \<bar>h - (r + dx)\<bar> \<le> e) \<and> \<bar>r\<bar> + \<bar>dx\<bar> \<le> B"

lemma straddles_next:
  assumes "straddles g st r dx e B" "is_finite (g (Fin m))" "\<bar>dx' - dx / 2\<bar> \<le> d / 4" "\<bar>m - (r + dx')\<bar> \<le> d / 2"
  obtains r' where "straddles g (bisection_next g m st) r' dx' (e + d) (B + d)"
proof -
  obtain h where h: "f_less (Fin 0) (g (Fin h))" "\<bar>h - (r + dx)\<bar> \<le> e" using assms(1) by (auto simp: straddles_def)
  have B: "\<bar>r\<bar> + \<bar>dx\<bar> \<le> B" using assms(1) by (simp add: straddles_def)
  show ?thesis
  proof (cases "f_le (g (Fin m)) (Fin 0)")
    case True
    have near: "\<bar>h - (m + dx')\<bar> \<le> e + d" "\<bar>m\<bar> + \<bar>dx'\<bar> \<le> B + d"
      using h(2) B assms(3,4) by linarith+
    have "\<exists>h. f_less (Fin 0) (g (Fin h)) \<and> \<bar>h - (m + dx')\<bar> \<le> e + d" using h(1) near(1) by blast
    then show ?thesis using True near(2) by (intro that [of m]) (simp add: straddles_def bisection_next_def Let_def)
  next
    case False
    then have m: "f_less (Fin 0) (g (Fin m))" using assms(2) by (cases "g (Fin m)") (auto simp: f_le_def)
    have near: "\<bar>m - (r + dx')\<bar> \<le> e + d" "\<bar>r\<bar> + \<bar>dx'\<bar> \<le> B + d"
      using h(2) B assms(3,4) by linarith+
    have "\<exists>h. f_less (Fin 0) (g (Fin h)) \<and> \<bar>h - (r + dx')\<bar> \<le> e + d" using m near(1) by blast
    then show ?thesis using False near(2) assms(1) by (intro that [of r]) (simp add: straddles_def bisection_next_def Let_def)
  qed
qed

lemma evaluation_number_next [simp]: "evaluation_number (bisection_next g m st) = Suc (evaluation_number st)"
  by (simp add: bisection_next_def Let_def)

lemma straddles_near: "straddles g st r dx e B \<Longrightarrow> \<bar>dx\<bar> + e < w \<Longrightarrow> sign_change_near g r w"
  by (auto simp: straddles_def sign_change_near_def)

lemma bisection_pass:
  assumes "straddles g st r dx e B" "B \<le> 2 ^ K" "K \<le> 999" "evaluation_number st \<le> max_evaluations cfg"
  obtains dx' m where "dx' = rnd (dx / 2)"
    "bisection_loop cfg (recording g) (Fin acc) (Fin dx) st tr =
      (if \<not> is_finite (g (Fin m)) then (Inl FunctionValueNotFinite, Fin m # tr)
       else if \<bar>dx'\<bar> < acc \<or> close (g (Fin m)) (Fin 0)
       then final_call (checked_value (recording g) (root (bisection_next g m st)) (Fin m # tr)) (root (bisection_next g m st))
       else bisection_loop cfg (recording g) (Fin acc) (Fin dx') (bisection_next g m st) (Fin m # tr))"
    "is_finite (g (Fin m)) \<Longrightarrow> \<exists>r'. straddles g (bisection_next g m st) r' dx' (e + 2 ^ K / 2 ^ 51) (B + 2 ^ K / 2 ^ 51)"
proof -
  have r: "root st = Fin r" "\<bar>r\<bar> + \<bar>dx\<bar> \<le> 2 ^ K" using assms(1,2) by (auto simp: straddles_def)
  have d: "(2::rat) ^ K / 2 ^ 53 = 2 ^ K / 2 ^ 51 / 4" "(2::rat) * 2 ^ K / 2 ^ 53 = 2 ^ K / 2 ^ 51 / 2" by simp_all
  obtain dx' m where s: "f_div (Fin dx) (Fin 2) = Fin dx'" "f_add (Fin r) (Fin dx') = Fin m" "dx' = rnd (dx / 2)"
    and err: "\<bar>dx' - dx / 2\<bar> \<le> 2 ^ K / 2 ^ 51 / 4" "\<bar>m - (r + dx')\<bar> \<le> 2 ^ K / 2 ^ 51 / 2"
    using bisection_step [OF r(2) assms(3)] unfolding d by metis
  show ?thesis
  proof (rule that [OF s(3) bisection_loop_pass [OF r(1) s(1,2)]])
    show "\<not> max_evaluations cfg < evaluation_number st" using assms(4) by simp
    show "\<exists>r'. straddles g (bisection_next g m st) r' dx' (e + 2 ^ K / 2 ^ 51) (B + 2 ^ K / 2 ^ 51)"
      if "is_finite (g (Fin m))" using straddles_next [OF assms(1) that err] by blast
  qed
qed

lemma final_call_simps [simp]:
  "final_call (Inr v, s) x = (Inr x, s)"
  "final_call (Inl e, s) x = (Inl e, s)"
  by (simp_all add: final_call_def)

lemma final_call_recording_Inr:
  "final_call (checked_value (recording g) x tr) x = (Inr y, tr') \<Longrightarrow> y = x \<and> tr' = x # tr"
  by (auto simp: final_call_def split: if_splits)

lemma bisection_loop_localises:
  assumes "bisection_loop cfg (recording g) (Fin acc) (Fin dx) st tr = (Inr x, tr')" "straddles g st r dx e B"
    and "B + of_nat n * (2 ^ K / 2 ^ 51) \<le> 2 ^ K" "K \<le> 999" "max_evaluations cfg + 1 - evaluation_number st \<le> n"
  shows "\<exists>r'. x = Fin r' \<and> (sign_change_near g r' (acc + e + of_nat n * (2 ^ K / 2 ^ 51)) \<or>
    (\<exists>m\<in>set tr'. close (g m) (Fin 0)))"
  using assms
proof (induction n arbitrary: dx st tr r e B)
  case 0
  then show ?case by (subst (asm) bisection_loop.simps) simp
next
  case (Suc n)
  define d :: rat where "d = 2 ^ K / 2 ^ 51"
  note IH = Suc(1) [folded d_def]
  have nd: "0 \<le> d" "0 \<le> of_nat n * d" by (simp_all add: d_def)
  have room: "(B + d) + of_nat n * d \<le> 2 ^ K" using Suc(4) unfolding d_def [symmetric] by (simp add: algebra_simps)
  have n: "evaluation_number st \<le> max_evaluations cfg"
    using Suc(2) by (rule contrapos_pp) (subst bisection_loop.simps, simp)
  have "B \<le> 2 ^ K" using room nd by linarith
  then obtain dx' m where eq: "bisection_loop cfg (recording g) (Fin acc) (Fin dx) st tr =
      (if \<not> is_finite (g (Fin m)) then (Inl FunctionValueNotFinite, Fin m # tr)
       else if \<bar>dx'\<bar> < acc \<or> close (g (Fin m)) (Fin 0)
       then final_call (checked_value (recording g) (root (bisection_next g m st)) (Fin m # tr)) (root (bisection_next g m st))
       else bisection_loop cfg (recording g) (Fin acc) (Fin dx') (bisection_next g m st) (Fin m # tr))"
    and next_inv: "is_finite (g (Fin m)) \<Longrightarrow> \<exists>r'. straddles g (bisection_next g m st) r' dx' (e + d) (B + d)"
    using bisection_pass [OF Suc(3) _ Suc(5) n] unfolding d_def by metis
  note run = Suc(2) [unfolded eq]
  then have m: "is_finite (g (Fin m))" by (simp split: if_splits)
  then obtain r1 where inv: "straddles g (bisection_next g m st) r1 dx' (e + d) (B + d)" using next_inv by blast
  show ?case unfolding d_def [symmetric]
  proof (cases "\<bar>dx'\<bar> < acc \<or> close (g (Fin m)) (Fin 0)")
    case True
    then have "final_call (checked_value (recording g) (root (bisection_next g m st)) (Fin m # tr)) (root (bisection_next g m st)) = (Inr x, tr')"
      using run m by simp
    then have x: "x = Fin r1" "Fin m \<in> set tr'" using inv
      by (auto simp: straddles_def simp del: checked_recording dest!: final_call_recording_Inr)
    moreover have "sign_change_near g r1 (acc + e + of_nat (Suc n) * d)" if "\<bar>dx'\<bar> < acc"
      using inv by (rule straddles_near) (use that nd in \<open>simp only: of_nat_Suc distrib_right mult_1_left; linarith\<close>)
    ultimately show "\<exists>r'. x = Fin r' \<and> (sign_change_near g r' (acc + e + of_nat (Suc n) * d) \<or> (\<exists>m\<in>set tr'. close (g m) (Fin 0)))"
      using True by blast
  next
    case False
    have "\<exists>r'. x = Fin r' \<and> (sign_change_near g r' (acc + (e + d) + of_nat n * d) \<or> (\<exists>m\<in>set tr'. close (g m) (Fin 0)))"
      by (rule IH [OF _ inv room Suc(5)]) (use run False m Suc(6) in simp_all)
    then show "\<exists>r'. x = Fin r' \<and> (sign_change_near g r' (acc + e + of_nat (Suc n) * d) \<or> (\<exists>m\<in>set tr'. close (g m) (Fin 0)))"
      by (simp add: algebra_simps)
  qed
qed

section \<open>That it returns\<close>

lemma rnd_half_bound: "\<bar>x\<bar> \<le> 2 powi e \<Longrightarrow> -1073 \<le> e \<Longrightarrow> \<bar>rnd (x / 2)\<bar> \<le> 2 powi (e - 1)"
proof -
  assume x: "\<bar>x\<bar> \<le> 2 powi e" "-1073 \<le> e"
  have "\<bar>rnd (x / 2)\<bar> = rnd \<bar>x / 2\<bar>" by (rule rnd_abs)
  also have "\<dots> \<le> rnd (2 powi (e - 1))" by (rule rnd_mono) (use x in \<open>simp add: power_int_diff\<close>)
  also have "\<dots> = 2 powi (e - 1)" by (rule rnd_representable [of _ 1 "e - 1"]) (use x in simp_all)
  finally show ?thesis .
qed

lemma bisection_loop_converges:
  assumes "\<And>x. is_finite (g x)" "straddles g st r dx e B" "B + of_nat n * (2 ^ K / 2 ^ 51) \<le> 2 ^ K" "K \<le> 999"
    and "\<bar>dx\<bar> \<le> 2 powi (int n - 53)" "evaluation_number st + n \<le> max_evaluations cfg" "1 / 2 ^ 52 \<le> acc"
  shows "\<exists>x tr'. bisection_loop cfg (recording g) (Fin acc) (Fin dx) st tr = (Inr x, tr')"
  using assms
proof (induction n arbitrary: dx st tr r e B)
  case 0
  obtain dx' m where dx: "dx' = rnd (dx / 2)" and eq: "bisection_loop cfg (recording g) (Fin acc) (Fin dx) st tr =
      (if \<not> is_finite (g (Fin m)) then (Inl FunctionValueNotFinite, Fin m # tr)
       else if \<bar>dx'\<bar> < acc \<or> close (g (Fin m)) (Fin 0)
       then final_call (checked_value (recording g) (root (bisection_next g m st)) (Fin m # tr)) (root (bisection_next g m st))
       else bisection_loop cfg (recording g) (Fin acc) (Fin dx') (bisection_next g m st) (Fin m # tr))"
    using bisection_pass [OF 0(2) _ 0(4), of cfg acc tr] 0(3,6) unfolding of_nat_0 mult_zero_left add_0_right by metis
  have "\<bar>dx'\<bar> \<le> 2 powi (-53 - 1)" unfolding dx by (rule rnd_half_bound) (use 0(5) in simp_all)
  then have "\<bar>dx'\<bar> < acc" using 0(7) by (simp add: power_int_minus field_simps)
  then show ?case using eq 0(1) by simp
next
  case (Suc n)
  have half: "\<bar>rnd (dx / 2)\<bar> \<le> 2 powi (int n - 53)"
    using rnd_half_bound [of dx "int (Suc n) - 53"] Suc(6) by simp
  have "0 \<le> of_nat n * ((2::rat) ^ K / 2 ^ 51)" "0 \<le> (2::rat) ^ K / 2 ^ 51" by simp_all
  then have room: "(B + 2 ^ K / 2 ^ 51) + of_nat n * (2 ^ K / 2 ^ 51) \<le> 2 ^ K" "B \<le> 2 ^ K"
    using Suc(4) by (simp_all only: of_nat_Suc distrib_right mult_1_left)
  obtain dx' m where dx: "dx' = rnd (dx / 2)" and eq: "bisection_loop cfg (recording g) (Fin acc) (Fin dx) st tr =
      (if \<not> is_finite (g (Fin m)) then (Inl FunctionValueNotFinite, Fin m # tr)
       else if \<bar>dx'\<bar> < acc \<or> close (g (Fin m)) (Fin 0)
       then final_call (checked_value (recording g) (root (bisection_next g m st)) (Fin m # tr)) (root (bisection_next g m st))
       else bisection_loop cfg (recording g) (Fin acc) (Fin dx') (bisection_next g m st) (Fin m # tr))"
    and next_inv: "is_finite (g (Fin m)) \<Longrightarrow>
      \<exists>r'. straddles g (bisection_next g m st) r' dx' (e + 2 ^ K / 2 ^ 51) (B + 2 ^ K / 2 ^ 51)"
    using bisection_pass [OF Suc(3) room(2) Suc(5)] Suc(7) by (metis add_leD1)
  obtain r1 where "straddles g (bisection_next g m st) r1 dx' (e + 2 ^ K / 2 ^ 51) (B + 2 ^ K / 2 ^ 51)"
    using next_inv Suc(2) by blast
  then have "\<exists>x tr'. bisection_loop cfg (recording g) (Fin acc) (Fin dx') (bisection_next g m st) (Fin m # tr) = (Inr x, tr')"
    by (rule Suc(1) [OF Suc(2) _ room(1) Suc(5)]) (use half dx Suc(7,8) in simp_all)
  then show ?case using eq Suc(2) by auto
qed

section \<open>The solver\<close>

lemma f_max_epsilon: "f_max (Fin acc) f64_epsilon = Fin (max acc (1 / 2 ^ 52))"
  by (simp add: f_max_def f64_epsilon_def max_def)

text \<open>The loop starts at the end where the function is negative, with the step to the other end.\<close>

lemma bisection_starts:
  assumes "valid_bracket g st" "x_min st = Fin a" "x_max st = Fin b" "\<bar>a\<bar> \<le> 2 ^ k" "\<bar>b\<bar> \<le> 2 ^ k" "k \<le> 990"
  obtains dx r st' where "bisection cfg (recording g) acc st tr = bisection_loop cfg (recording g) acc (Fin dx) st' tr"
    "straddles g st' r dx (2 ^ k / 2 ^ 52) (3 * 2 ^ k)" "\<bar>dx\<bar> \<le> 2 powi (int k + 1)" "evaluation_number st' = evaluation_number st"
proof -
  have diff: "f_sub (Fin u) (Fin v) = Fin (rnd (u - v))" "\<bar>rnd (u - v) - (u - v)\<bar> \<le> 2 ^ k / 2 ^ 52"
    "\<bar>rnd (u - v)\<bar> \<le> 2 * 2 ^ k" if "\<bar>u\<bar> \<le> 2 ^ k" "\<bar>v\<bar> \<le> 2 ^ k" for u v
  proof -
    have uv: "\<bar>u - v\<bar> \<le> 2 ^ (k + 1)" using that by simp
    show "f_sub (Fin u) (Fin v) = Fin (rnd (u - v))" "\<bar>rnd (u - v) - (u - v)\<bar> \<le> 2 ^ k / 2 ^ 52"
      using fl_double [OF uv] assms(6) by (simp_all add: f_sub_def)
    have "rnd \<bar>u - v\<bar> \<le> rnd (2 ^ (k + 1))" by (rule rnd_mono [OF uv])
    also have "\<dots> = 2 ^ (k + 1)" by (rule rnd_representable [of _ 1 "int k + 1"]) (simp_all add: power_int_def nat_add_distrib)
    finally show "\<bar>rnd (u - v)\<bar> \<le> 2 * 2 ^ k" by (simp add: rnd_abs)
  qed
  have pow: "(2::rat) powi (int k + 1) = 2 * 2 ^ k" by (simp add: power_int_def nat_add_distrib)
  have v: "fx_min st = g (Fin a)" "fx_max st = g (Fin b)" "opposite (g (Fin a)) (g (Fin b))"
    using assms(1-3) by (auto simp: valid_bracket_def points_sampled_def)
  show ?thesis
  proof (cases "f_less (g (Fin a)) (Fin 0)")
    case True
    then have pos: "f_less (Fin 0) (g (Fin b))" using v(3) by (auto simp: opposite_def dest: f_less_asym)
    then have "straddles g (st\<lparr>root := Fin a\<rparr>) a (rnd (b - a)) (2 ^ k / 2 ^ 52) (3 * 2 ^ k)"
      using True diff [OF assms(5,4)] assms(4) unfolding straddles_def
      by (auto simp: f_le_def abs_minus_commute algebra_simps intro!: exI [of _ b])
    then show ?thesis using True diff [OF assms(5,4)] v(1)
      by (intro that [of "rnd (b - a)" "st\<lparr>root := Fin a\<rparr>" a]) (simp_all add: bisection_def assms(2,3) pow)
  next
    case False
    then have neg: "f_less (g (Fin b)) (Fin 0)" "f_less (Fin 0) (g (Fin a))" using v(3) by (auto simp: opposite_def)
    then have "straddles g (st\<lparr>root := Fin b\<rparr>) b (rnd (a - b)) (2 ^ k / 2 ^ 52) (3 * 2 ^ k)"
      using False diff [OF assms(4,5)] assms(5) unfolding straddles_def
      by (auto simp: f_le_def abs_minus_commute algebra_simps intro!: exI [of _ a])
    then show ?thesis using False diff [OF assms(4,5)] v(1)
      by (intro that [of "rnd (a - b)" "st\<lparr>root := Fin b\<rparr>" b]) (simp_all add: bisection_def assms(2,3) pow)
  qed
qed

text \<open>The bracket is accepted, or an end of it is a root already.\<close>

lemma bracket_accepted:
  assumes "double_valued g" "\<And>x. is_finite (g x)" "opposite (g (Fin a)) (g (Fin b))"
    and "f_less (Fin a) guess" "f_less guess (Fin b)" "within_limits cfg (Fin a)" "within_limits cfg (Fin b)"
  obtains x tr where "bracket_given cfg (recording g) guess (Fin a) (Fin b) [] = (Inr (Root (Fin x)), tr)"
      "close (g (Fin x)) (Fin 0)" "Fin x \<in> set tr"
    | st tr where "bracket_given cfg (recording g) guess (Fin a) (Fin b) [] = (Inr (Ready st), tr)" "valid_bracket g st"
      "x_min st = Fin a" "x_max st = Fin b" "evaluation_number st = 2"
proof -
  have "f_less (Fin a) (Fin b)" using assms(4,5) by (rule f_less_trans)
  moreover have "\<not> f_eq (f_signum (g (Fin a))) (f_signum (g (Fin b)))"
    using assms(2) [of "Fin a"] assms(2) [of "Fin b"] assms(3)
    by (cases "g (Fin a)"; cases "g (Fin b)") (auto simp: opposite_def)
  moreover have "\<not> f_le guess (Fin a)" "\<not> f_le (Fin b) guess"
    using assms(4,5) by (cases guess; auto simp: f_le_def)+
  moreover have "\<not> (case lower_limit cfg of Some lb \<Rightarrow> f_less (Fin a) lb | None \<Rightarrow> False)"
    "\<not> (case upper_limit cfg of Some ub \<Rightarrow> f_less ub (Fin b) | None \<Rightarrow> False)"
    using assms(6,7) by (auto simp: within_limits_def split: option.splits)
  ultimately have "\<exists>k tr. bracket_given cfg (recording g) guess (Fin a) (Fin b) [] = (Inr k, tr)"
    using assms(2) by (cases "lower_limit cfg"; cases "upper_limit cfg") (simp_all add: bracket_given_def Let_def f_le_def)
  then obtain k tr where k: "bracket_given cfg (recording g) guess (Fin a) (Fin b) [] = (Inr k, tr)" by blast
  note f = bracket_given_found [OF assms(1), of cfg "[]" guess "Fin a" "Fin b", unfolded k]
  show ?thesis
  proof (cases k)
    case (Root x)
    moreover have "x = Fin a \<or> x = Fin b" using k Root by (auto simp: bracket_given_def Let_def split: if_splits)
    ultimately show ?thesis using f k that(1) by (metis bracket_found.simps(1) list.set_sel(1))
  next
    case (Ready st)
    then show ?thesis using f k that(2) bracket_given_ready by simp
  qed
qed

end
