(* ===== verification/Bracketing_Properties.thy ===== *)
theory Bracketing_Properties
  imports Solver_Contracts
begin

text \<open>
  Brent's method and Ridder's keep a change of sign between their points, through every renaming:
  Brent's root has one within the tolerance of its stopping rule, and the state Ridder's method calls
  unreachable is.
\<close>

lemma opposite_sym: "opposite a b = opposite b a"
  by (auto simp: opposite_def)

lemma opposite_nonzero: "opposite a b \<Longrightarrow> \<not> f_less a (Fin 0) \<Longrightarrow> f_less (Fin 0) a"
  by (auto simp: opposite_def)

lemma close_zero_itself [simp]: "close (Fin 0) (Fin 0)"
  by (simp add: close_def close_n_def)

lemma not_close_nonzero: "\<not> close v (Fin 0) \<Longrightarrow> is_finite v \<Longrightarrow> f_less v (Fin 0) \<or> f_less (Fin 0) v"
  by (cases v) (auto simp: not_less order.order_iff_strict)

section \<open>Ridder\<close>

lemma sign_differs_opposite:
  "is_finite a \<Longrightarrow> is_finite b \<Longrightarrow> \<not> close b (Fin 0) \<Longrightarrow> sign_differs a b \<longleftrightarrow> opposite a b"
  using not_close_nonzero [of b]
  by (cases a; cases b) (auto simp: sign_differs_def opposite_def f_le_def)

lemma ridder_rebracket_keeps:
  assumes "opposite (fx_min st) (fx_max st)" "is_finite (fx_min st)" "is_finite (fx_max st)" "is_finite fm" "is_finite fr"
    and "\<not> close fr (Fin 0)"
  obtains st' where "ridder_rebracket st m fm fr = Inr st'" "opposite (fx_min st') (fx_max st')"
    "is_finite (fx_min st')" "is_finite (fx_max st')"
proof (cases "opposite fm fr")
  case True
  then show ?thesis using assms(4-6) by (intro that [of "st\<lparr>x_min := m, fx_min := fm, x_max := root st, fx_max := fr\<rparr>"])
      (simp_all add: ridder_rebracket_def sign_differs_opposite)
next
  case mid: False
  show ?thesis
  proof (cases "opposite (fx_min st) fr")
    case True
    then show ?thesis using mid assms by (intro that [of "st\<lparr>x_max := root st, fx_max := fr\<rparr>"])
        (simp_all add: ridder_rebracket_def sign_differs_opposite)
  next
    case False
    then have "opposite (fx_max st) fr"
      using assms(1) not_close_nonzero [OF assms(6,5)] by (auto simp: opposite_def)
    then show ?thesis using mid False assms by (intro that [of "st\<lparr>x_min := root st, fx_min := fr\<rparr>"])
        (simp_all add: ridder_rebracket_def sign_differs_opposite opposite_sym)
  qed
qed

lemma checked_value_Inr: "checked_value f x s = (Inr v, s') \<Longrightarrow> is_finite v"
  by (auto simp: checked_value_eq split: if_splits)

lemma final_call_error: "final_call (checked_value f x s) y = (Inl e, s') \<Longrightarrow> e = FunctionValueNotFinite"
  by (auto simp: final_call_def and_then_Inl_iff checked_value_eq split: if_splits)

lemma ridder_loop_reaches:
  assumes "opposite (fx_min st) (fx_max st)" "is_finite (fx_min st)" "is_finite (fx_max st)"
    and "ridder_loop cfg f acc st s = (Inl e, s')"
  shows "e \<noteq> UnreachableState"
  using assms
proof (induction "max_evaluations cfg + 1 - evaluation_number st" arbitrary: st s rule: less_induct)
  case less
  show ?case
  proof (cases "max_evaluations cfg < evaluation_number st")
    case True
    then show ?thesis using less(5) by (subst (asm) ridder_loop.simps) simp
  next
    case False
    have step: "e \<noteq> UnreachableState"
      if v: "is_finite fm" "is_finite fr" "\<not> close fr (Fin 0)"
        and r: "and_then (ridder_rebracket (st\<lparr>root := r\<rparr>) m fm fr, s1) (\<lambda>st' s.
           if f_le (f_abs (f_sub (x_max st') (x_min st'))) acc then final_call (checked_value f (root st') s) (root st')
           else ridder_loop cfg f acc (st'\<lparr>evaluation_number := evaluation_number st + 2\<rparr>) s) = (Inl e, s')"
      for fm fr r m s1
    proof -
      obtain st' where st': "ridder_rebracket (st\<lparr>root := r\<rparr>) m fm fr = Inr st'" "opposite (fx_min st') (fx_max st')"
        "is_finite (fx_min st')" "is_finite (fx_max st')"
        using ridder_rebracket_keeps [of "st\<lparr>root := r\<rparr>" fm fr m] less(2-4) v by auto
      then show ?thesis using r False less(1) [of "st'\<lparr>evaluation_number := evaluation_number st + 2\<rparr>" s1]
        by (auto split: if_splits dest: final_call_error)
    qed
    show ?thesis using less(5) False
      by (subst (asm) ridder_loop.simps)
        (auto simp: Let_def and_then_Inl_iff [of "checked_value _ _ _"] checked_value_eq final_call_def split: if_splits
          dest: step)
  qed
qed

lemma ridder_reaches: "valid_bracket g st \<Longrightarrow> ridder cfg f acc st s \<noteq> (Inl UnreachableState, s')"
  using ridder_loop_reaches [of "st\<lparr>root := f64_min_value\<rparr>" cfg f "f_div acc (Fin 100)" s UnreachableState s']
  by (auto simp: ridder_def valid_bracket_def points_sampled_def)

lemma driver_errors:
  "bracket_given cfg f guess a b s \<noteq> (Inl UnreachableState, s')"
  "check_bracket_args acc guess a b \<noteq> Inl UnreachableState"
  "check_stepping_args acc guess step \<noteq> Inl UnreachableState"
  by (auto simp: bracket_given_def Let_def check_bracket_args_def check_stepping_args_def and_then_Inl_iff checked_value_eq
      split: if_splits)

lemma grow_bracket_errors: "grow_bracket cfg f ff st s = (Inl e, s') \<Longrightarrow> e = FunctionValueNotFinite"
  by (auto simp: grow_bracket_def Let_def and_then_Inl_iff checked_value_eq split: if_splits)

lemma step_outwards_errors: "step_outwards cfg f ff st s \<noteq> (Inl UnreachableState, s')"
proof (induction cfg f ff st s rule: step_outwards.induct)
  case (1 cfg f ff st s)
  then show ?case
    by (subst step_outwards.simps) (auto simp: and_then_Inl_iff split: if_splits dest: grow_bracket_errors)
qed

lemma bracket_by_stepping_errors: "bracket_by_stepping cfg f guess step s \<noteq> (Inl UnreachableState, s')"
  by (auto simp: bracket_by_stepping_def Let_def and_then_Inl_iff checked_value_eq step_outwards_errors split: if_splits)

section \<open>Brent\<close>

text \<open>The invariant at the head of Brent's loop: the values are those at the points; and the change of sign is
  between \<open>x_min\<close> and \<open>x_max\<close>, or these coincide and it is between the root and them, or the root is as good.\<close>

definition brent_points :: "(f64 \<Rightarrow> f64) \<Rightarrow> f64 \<Rightarrow> solver_state \<Rightarrow> bool" where
  "brent_points g froot st \<longleftrightarrow> froot = g (root st) \<and> is_finite froot \<and> points_sampled g st"

definition brent_head :: "(f64 \<Rightarrow> f64) \<Rightarrow> f64 \<Rightarrow> solver_state \<Rightarrow> bool" where
  "brent_head g froot st \<longleftrightarrow> brent_points g froot st \<and>
     (opposite (fx_min st) (fx_max st) \<or> (x_max st = x_min st \<and> opposite froot (fx_max st)) \<or> close froot (Fin 0))"

definition brent_renamed :: "(f64 \<Rightarrow> f64) \<Rightarrow> f64 \<Rightarrow> solver_state \<Rightarrow> bool" where
  "brent_renamed g froot st \<longleftrightarrow> brent_points g froot st \<and> (opposite froot (fx_max st) \<or> close froot (Fin 0))"

lemma close_zero_smaller:
  assumes "double_valued g" "f_less (f_abs (g x)) (f_abs (g y))" "close (g y) (Fin 0)" "is_finite (g x)" "is_finite (g y)"
  shows "close (g x) (Fin 0)"
  using assms by (cases "g x"; cases "g y") (auto simp: double_valued_def close_zero)

text \<open>The first renaming makes the root and \<open>x_max\<close> bracket, the second exchanges them.\<close>

definition same_sign :: "f64 \<Rightarrow> f64 \<Rightarrow> bool" where
  "same_sign a b \<longleftrightarrow> (f_less (Fin 0) a \<and> f_less (Fin 0) b) \<or> (f_less a (Fin 0) \<and> f_less b (Fin 0))"

lemma opposite_not_same: "opposite a b \<Longrightarrow> \<not> same_sign a b"
  by (auto simp: opposite_def same_sign_def dest: f_less_asym)

lemma same_sign_opposite: "same_sign a b \<Longrightarrow> opposite c b \<Longrightarrow> opposite a c"
  by (auto simp: opposite_def same_sign_def dest: f_less_asym)

lemma not_same_opposite:
  "\<not> same_sign a b \<Longrightarrow> is_finite a \<Longrightarrow> \<not> close a (Fin 0) \<Longrightarrow> opposite c b \<or> opposite b c \<Longrightarrow> opposite a b"
  using not_close_nonzero [of a] by (auto simp: opposite_def same_sign_def)

lemma brent_rename_keeps:
  assumes "double_valued g" "brent_head g froot st" "brent_rename froot d e st = (fr, d', e', st')"
  shows "brent_renamed g fr st'"
proof -
  define st1 where "st1 = (if same_sign froot (fx_max st) then st\<lparr>x_max := x_min st, fx_max := fx_min st\<rparr> else st)"
  have st1: "brent_renamed g froot st1"
  proof (cases "same_sign froot (fx_max st)")
    case True
    then have "opposite froot (fx_min st) \<or> close froot (Fin 0)"
      using assms(2) by (auto simp: brent_head_def dest: same_sign_opposite opposite_not_same)
    then show ?thesis using True assms(2)
      by (auto simp: st1_def brent_renamed_def brent_head_def brent_points_def points_sampled_def)
  next
    case False
    then show ?thesis using assms(2) not_same_opposite [OF False, of "fx_min st"]
      by (auto simp: st1_def brent_renamed_def brent_head_def brent_points_def)
  qed
  have "fr = (if f_less (f_abs (fx_max st1)) (f_abs froot) then fx_max st1 else froot) \<and>
      st' = (if f_less (f_abs (fx_max st1)) (f_abs froot)
        then st1\<lparr>x_min := root st1, root := x_max st1, x_max := root st1, fx_min := froot, fx_max := froot\<rparr> else st1)"
    using assms(3) unfolding brent_rename_def same_sign_def [symmetric]
    by (auto simp: st1_def Let_def split: if_splits)
  then show ?thesis using st1 close_zero_smaller [OF assms(1), of "x_max st1" "root st1"]
    by (auto simp: brent_renamed_def brent_points_def points_sampled_def opposite_sym)
qed

text \<open>The answer of the loop: close to zero, or a point of the opposite sign within the tolerance.\<close>

definition brent_answer :: "(f64 \<Rightarrow> f64) \<Rightarrow> f64 \<Rightarrow> f64 \<Rightarrow> bool" where
  "brent_answer g acc x \<longleftrightarrow> close (g x) (Fin 0) \<or>
     (\<exists>h. opposite (g x) (g h) \<and> f_le (f_abs (f_div (f_sub h x) (Fin 2))) (brent_accuracy acc x))"

lemma brent_loop_answer:
  assumes "double_valued g" "brent_head g froot st" "brent_loop cfg (recording g) acc froot d e st tr = (Inr x, tr')"
  shows "brent_answer g acc x"
  using assms(2,3)
proof (induction "max_evaluations cfg + 1 - evaluation_number st" arbitrary: froot d e st tr rule: less_induct)
  case less
  obtain fr d1 e1 st1 where rn: "brent_rename froot d e st = (fr, d1, e1, st1)" by (metis prod_cases4)
  have inv: "brent_renamed g fr st1" by (rule brent_rename_keeps [OF assms(1) less(2) rn])
  have n: "\<not> max_evaluations cfg < evaluation_number st"
    using less(3) by (rule contrapos_pn) (subst brent_loop.simps, simp)
  let ?acc = "brent_accuracy acc (root st1)" and ?mid = "f_div (f_sub (x_max st1) (root st1)) (Fin 2)"
  obtain d2 e2 where bs: "brent_step fr ?acc ?mid d1 e1 st1 = (d2, e2)" by fastforce
  define r where "r = f_add (root st1) (if f_less ?acc (f_abs d2) then d2 else with_sign_of ?acc ?mid)"
  have run: "(if f_le (f_abs ?mid) ?acc \<or> close fr (Fin 0) then final_call (checked_value (recording g) (root st1) tr) (root st1)
      else and_then (checked_value (recording g) r tr) (\<lambda>froot s.
        brent_loop cfg (recording g) acc froot d2 e2
          (st1\<lparr>x_min := root st1, fx_min := fr, root := r, evaluation_number := evaluation_number st + 1\<rparr>) s)) = (Inr x, tr')"
    using less(3) by (subst (asm) brent_loop.simps) (simp add: n rn bs r_def Let_def del: checked_recording cong: if_cong split del: if_split)
  show ?case
  proof (cases "f_le (f_abs ?mid) ?acc \<or> close fr (Fin 0)")
    case True
    then have "x = root st1" using run by (auto simp: final_call_def split: if_splits)
    then show ?thesis using True inv
      by (auto simp: brent_answer_def brent_renamed_def brent_points_def points_sampled_def)
  next
    case False
    let ?st = "st1\<lparr>x_min := root st1, fx_min := fr, root := r, evaluation_number := evaluation_number st + 1\<rparr>"
    have "is_finite (g r)" and rest: "brent_loop cfg (recording g) acc (g r) d2 e2 ?st (r # tr) = (Inr x, tr')"
      using run False by (simp_all split: if_splits)
    then have head: "brent_head g (g r) ?st" using inv False
      by (auto simp: brent_head_def brent_renamed_def brent_points_def points_sampled_def)
    show ?thesis by (rule less(1) [OF _ head rest]) (use n in simp)
  qed
qed

text \<open>The sign of a rounded product.\<close>

lemma fl_negative: "f_less (fl x) (Fin 0) \<Longrightarrow> x < 0"
proof (rule ccontr)
  assume "f_less (fl x) (Fin 0)" "\<not> x < 0"
  then show False using rnd_nonneg [of x] by (auto simp: fl_def Let_def split: if_splits)
qed

lemma negative_product_is_opposite: "f_less (f_mul (Fin u) (Fin v)) (Fin 0) \<Longrightarrow> opposite (Fin u) (Fin v)"
  using fl_negative [of "u * v"] by (auto simp: opposite_def mult_less_0_iff)

lemma product_of_opposite:
  assumes "opposite (Fin u) (Fin v)" "representable u" "representable v" "\<not> close (Fin u) (Fin 0)" "\<not> close (Fin v) (Fin 0)"
  shows "f_less (f_mul (Fin u) (Fin v)) (Fin 0)"
proof -
  have t: "zero_tolerance \<le> \<bar>u\<bar>" "zero_tolerance \<le> \<bar>v\<bar>" using assms(2-5) by (simp_all add: close_zero)
  have "zero_tolerance * zero_tolerance \<le> \<bar>u\<bar> * \<bar>v\<bar>" using t zero_tolerance_pos by (intro mult_mono) simp_all
  moreover have "\<bar>u\<bar> * \<bar>v\<bar> = - (u * v)" using assms(1) by (auto simp: opposite_def)
  ultimately have "\<not> f_le (fl (- (u * v))) (Fin 0)" using product_positive by simp
  then show ?thesis by (cases "fl (u * v)") (auto simp: fl_minus f_le_def fl_def Let_def split: if_splits)
qed

lemma brent_starts:
  assumes g: "double_valued g" and v: "valid_bracket g st" and fin: "is_finite (g (root st))"
  shows "brent_head g (g (root st))
    (if f_less (f_mul (g (root st)) (fx_min st)) (Fin 0) then st\<lparr>x_max := x_min st, fx_max := fx_min st\<rparr>
     else st\<lparr>x_min := x_max st, fx_min := fx_max st\<rparr>)"
proof -
  have m: "is_finite (fx_min st)" "fx_min st = g (x_min st)" using v by (auto simp: valid_bracket_def points_sampled_def)
  obtain w where w: "g (root st) = Fin w" using fin by (cases "g (root st)") simp_all
  obtain u where u: "fx_min st = Fin u" using m(1) by (cases "fx_min st") simp_all
  have rep: "representable w" "representable u" using g w u m(2) unfolding double_valued_def by metis+
  have side: "f_less (f_mul (g (root st)) (fx_min st)) (Fin 0) \<Longrightarrow> opposite (g (root st)) (fx_min st)"
    unfolding u w by (rule negative_product_is_opposite)
  have "opposite (g (root st)) (fx_max st) \<or> close (g (root st)) (Fin 0)"
    if np: "\<not> f_less (f_mul (g (root st)) (fx_min st)) (Fin 0)"
  proof (rule disjCI)
    assume c: "\<not> close (g (root st)) (Fin 0)"
    have "\<not> close (fx_min st) (Fin 0)" using v by (simp add: valid_bracket_def)
    then have "\<not> opposite (g (root st)) (fx_min st)"
      using np c product_of_opposite [of w u] rep unfolding u w by blast
    then show "opposite (g (root st)) (fx_max st)"
      using v not_close_nonzero [OF c fin] by (auto simp: opposite_def valid_bracket_def)
  qed
  then show ?thesis using side v fin
    by (auto simp: brent_head_def brent_points_def valid_bracket_def points_sampled_def)
qed

lemma brent_answers:
  assumes "double_valued g" "valid_bracket g st" "brent cfg (recording g) acc st tr = (Inr x, tr')"
  shows "brent_answer g acc x"
proof -
  let ?st = "st\<lparr>evaluation_number := evaluation_number st + 1\<rparr>"
  have fin: "is_finite (g (root ?st))" using assms(3) by (auto simp: brent_def split: if_splits)
  have "valid_bracket g ?st" using assms(2) by (auto simp: valid_bracket_def points_sampled_def)
  note head = brent_starts [OF assms(1) this fin]
  define st2 where "st2 = (if f_less (f_mul (g (root ?st)) (fx_min ?st)) (Fin 0)
    then ?st\<lparr>x_max := x_min ?st, fx_max := fx_min ?st\<rparr> else ?st\<lparr>x_min := x_max ?st, fx_min := fx_max ?st\<rparr>)"
  have "brent_loop cfg (recording g) acc (g (root ?st)) (f_sub (root st2) (x_max st2)) (f_sub (root st2) (x_max st2)) st2
      (root st # tr) = (Inr x, tr')"
    using assms(3) fin unfolding st2_def by (simp add: brent_def Let_def cong: if_cong split del: if_split)
  with head show ?thesis unfolding st2_def by (rule brent_loop_answer [OF assms(1)])
qed

end
