(* ===== verification/Solver_Properties.thy ===== *)
theory Solver_Properties
  imports Bisection_Properties Bracketing_Properties Uniform_Reals
begin

text \<open>
  The properties of the root finders, each with a run that shows its hypotheses can hold, and three
  runs in which a solver does not do what its documentation says.
\<close>

section \<open>Runs: arithmetic on small dyadic numbers\<close>

lemma fl_dyadic: "\<bar>m\<bar> < 2 ^ 53 \<Longrightarrow> k \<le> 60 \<Longrightarrow> fl (of_int m / 2 ^ k) = Fin (of_int m / 2 ^ k)"
proof -
  assume m: "\<bar>m\<bar> < 2 ^ 53" and k: "k \<le> 60"
  have eq: "(of_int m / 2 ^ k :: rat) = of_int m * 2 powi (- int k)" by (simp add: power_int_minus field_simps)
  have "\<bar>of_int m :: rat\<bar> \<le> 2 ^ 53" using m by (metis less_imp_le of_int_abs of_int_le_iff of_int_numeral of_int_power)
  then have "\<bar>of_int m / 2 ^ k :: rat\<bar> \<le> 2 ^ 53 / 1" unfolding abs_divide by (intro frac_le) simp_all
  also have "\<dots> \<le> 2 ^ 1000" by simp
  finally show ?thesis unfolding eq using rnd_representable [OF refl m, of "- int k"] k by (simp add: fl_small)
qed

lemmas fl_values [simp] =
  fl_dyadic [of 0 0, simplified] fl_dyadic [of 1 0, simplified] fl_dyadic [of 2 0, simplified] fl_dyadic [of 4 0, simplified]
  fl_dyadic [of "-1" 0, simplified] fl_dyadic [of "-2" 0, simplified] fl_dyadic [of "-4" 0, simplified]
  fl_dyadic [of 1 1, simplified] fl_dyadic [of 3 1, simplified] fl_dyadic [of "-1" 1, simplified]

text \<open>A step: -1 below one, 1 from there on.\<close>

definition step_at_one :: "f64 \<Rightarrow> f64" where
  "step_at_one x = (if f_less x (Fin 1) then Fin (-1) else Fin 1)"

lemma representable_unit [simp]: "representable 1"
  using rnd_of_int [of 1] by (simp add: representable_def)

lemma step_at_one_doubles: "double_valued step_at_one" "is_finite (step_at_one x)"
  by (auto simp: double_valued_def step_at_one_def)

lemma zero_tolerance_small: "zero_tolerance < 1" 
  by (simp add: zero_tolerance_def epsilon_42_def)

lemma close_units [simp]: "\<not> close (Fin 1) (Fin 0)" "\<not> close (Fin (-1)) (Fin 0)"
  using zero_tolerance_small by (simp_all add: close_zero)

lemma default_config [simp]: "solver_config_new = \<lparr>max_evaluations = 100, lower_limit = None, upper_limit = None\<rparr>"
  by (simp add: solver_config_new_def DEFAULT_MAX_EVALUATIONS_def)

text \<open>Bisection on the step: the midpoints 2, 1 and 1/2, and the final call.\<close>

lemma accuracy_units [simp]: "max (1::rat) (1 / 2 ^ 52) = 1" "max (4::rat) (1 / 2 ^ 52) = 4"
  by simp_all

lemma bisection_run:
  "solve_bracketed solver_config_new (recording step_at_one) (bisection solver_config_new (recording step_at_one))
     (Fin 1) (Fin 1) (Fin 0) (Fin 4) [] = (Inr (Fin (1 / 2)), [Fin (1 / 2), Fin (1 / 2), Fin 1, Fin 2, Fin 4, Fin 0])"
  apply (simp add: solve_bracketed_def check_bracket_args_def bracket_given_def f_max_epsilon f_le_def Let_def
      step_at_one_def bisection_def f_sub_def default_state_def)
  apply (subst bisection_loop.simps, simp add: Let_def f_le_def step_at_one_def)
  apply (subst bisection_loop.simps, simp add: Let_def f_le_def step_at_one_def)
  apply (subst bisection_loop.simps, simp add: Let_def f_le_def step_at_one_def)
  done

lemmas fl_epsilons = fl_dyadic [of 1 51, simplified] fl_dyadic [of 1 50, simplified] fl_dyadic [of 2251799813685249 50, simplified]

lemma brent_run:
  "solve_bracketed solver_config_new (recording step_at_one) (brent solver_config_new (recording step_at_one))
     (Fin 4) (Fin 2) (Fin 0) (Fin 4) [] = (Inr (Fin 2), [Fin 2, Fin 2, Fin 4, Fin 0])"
  apply (simp add: solve_bracketed_def check_bracket_args_def bracket_given_def f_max_epsilon f_le_def Let_def
      step_at_one_def brent_def f_sub_def default_state_def)
  apply (subst brent_loop.simps, simp add: Let_def f_le_def step_at_one_def brent_rename_def brent_accuracy_def f_sub_def f64_epsilon_def fl_epsilons)
  done

section \<open>The properties\<close>

text \<open>C27. The limits of the configuration hold while a bracket is searched. If the limits are consistent, the
  search outwards from the guess calls the objective only at points that are not beyond them: whatever
  property of the closure's state the calls at such points keep, the search keeps.\<close>

theorem bracketing_stays_within_limits:
  assumes "consistent_limits cfg" "kept_by (within_limits cfg) f I" "I s"
  shows "I (snd (bracket_by_stepping cfg f guess step s))"
  using ends_in_bracket_by_stepping [OF assms(2,1,3)] by (simp add: ends_in_def)

text \<open>Recorded calls at a limit of five, from a guess beyond it.\<close>

lemma bracketing_stays_within_limits_witness:
  "list_all (\<lambda>x. \<not> f_less (Fin 5) x)
     (snd (bracket_by_stepping (set_upper_bound (Fin 5) solver_config_new) (recording step_at_one) (Fin 9) (Fin 1) []))"
  using bracketing_stays_within_limits [of "set_upper_bound (Fin 5) solver_config_new" "recording step_at_one"
      "list_all (\<lambda>x. \<not> f_less (Fin 5) x)" "[]" "Fin 9" "Fin 1"]
  by (simp add: consistent_limits_def within_limits_def kept_by_def recording_def set_upper_bound_def)

text \<open>C24. The final call is at the root. Bisection, false position, secant, Brent and Ridder, asked with or
  without a bracket about any function of doubles: when the solver succeeds, the last point it called the
  function at is the root it returns, so that a closure with state is left at the root.\<close>

theorem last_call_is_at_the_root:
  assumes "refine \<in> {bisection, false_position, secant, brent, ridder}" "double_valued g"
    and "solve cfg (recording g) (refine cfg (recording g)) acc guess step tr = (Inr x, tr') \<or>
         solve_bracketed cfg (recording g) (refine cfg (recording g)) acc guess a b tr = (Inr x, tr')"
  shows "tr' \<noteq> [] \<and> hd tr' = x"
  using assms(3) refinement_contract.solve_samples_root [OF contract_of_all [OF assms(1)] assms(2)]
    refinement_contract.solve_bracketed_samples_root [OF contract_of_all [OF assms(1)] assms(2)] by blast

lemma last_call_is_at_the_root_witness:
  "\<exists>tr. solve_bracketed solver_config_new (recording step_at_one) (bisection solver_config_new (recording step_at_one))
      (Fin 1) (Fin 1) (Fin 0) (Fin 4) [] = (Inr (Fin (1 / 2)), tr) \<and> tr \<noteq> [] \<and> hd tr = Fin (1 / 2)"
  using last_call_is_at_the_root [where refine = bisection, OF _ step_at_one_doubles(1) disjI2 [OF bisection_run]] bisection_run
  by blast

text \<open>C26. The evaluation budget, for every solver of the library. Whatever the function of doubles, its derivatives and
  the arguments, through either entry point, whether it succeeds or fails: bisection, false position, secant, Brent,
  Ridder, Newton, the safe Newton method and Halley call the function (its derivatives apart) at most as often as the
  evaluation cap and four times more, and the finite-difference Newton method, which can call twice in a pass it
  counts once, at most twice as often as the cap and four times more.\<close>

theorem solvers_stay_within_budget:
  assumes "double_valued g"
  shows "(\<forall>refine\<in>{bisection, false_position, secant, brent, ridder}.
      length (snd (solve cfg (recording g) (refine cfg (recording g)) acc guess step [])) \<le> max_evaluations cfg + 4 \<and>
      length (snd (solve_bracketed cfg (recording g) (refine cfg (recording g)) acc guess a b [])) \<le> max_evaluations cfg + 4) \<and>
    (\<forall>refine\<in>{newton, newton_safe}. \<forall>h. h = \<lparr>f_value = recording g, f_derivative = silent d\<rparr> \<longrightarrow>
      length (snd (derivative_solve cfg h (refine cfg h) acc guess step [])) \<le> max_evaluations cfg + 4 \<and>
      length (snd (derivative_solve_bracketed cfg h (refine cfg h) acc guess a b [])) \<le> max_evaluations cfg + 4) \<and>
    (\<forall>h. h = \<lparr>f_value = recording g, f_derivative = silent d, f_second_derivative = silent d2\<rparr> \<longrightarrow>
      length (snd (halley_solve cfg h acc guess step [])) \<le> max_evaluations cfg + 4 \<and>
      length (snd (halley_solve_bracketed cfg h acc guess a b [])) \<le> max_evaluations cfg + 4) \<and>
    length (snd (solve cfg (recording g) (finite_difference_newton_safe cfg (recording g)) acc guess step [])) \<le> 2 * max_evaluations cfg + 4 \<and>
    length (snd (solve_bracketed cfg (recording g) (finite_difference_newton_safe cfg (recording g)) acc guess a b [])) \<le> 2 * max_evaluations cfg + 4"
proof (intro conjI ballI)
  show "length (snd (solve cfg (recording g) (refine cfg (recording g)) acc guess step [])) \<le> max_evaluations cfg + 4"
    "length (snd (solve_bracketed cfg (recording g) (refine cfg (recording g)) acc guess a b [])) \<le> max_evaluations cfg + 4"
    if "refine \<in> {bisection, false_position, secant, brent, ridder}" for refine
    using sampling_budget.entries_within_budget [OF refinement_contract.axioms(1) [OF contract_of_all [OF that]] assms,
        of cfg acc guess step a b] by simp_all
  show "\<forall>h. h = \<lparr>f_value = recording g, f_derivative = silent d\<rparr> \<longrightarrow>
      length (snd (derivative_solve cfg h (refine cfg h) acc guess step [])) \<le> max_evaluations cfg + 4 \<and>
      length (snd (derivative_solve_bracketed cfg h (refine cfg h) acc guess a b [])) \<le> max_evaluations cfg + 4"
    if "refine \<in> {newton, newton_safe}" for refine
    using that newton.entries_within_budget [OF assms, of cfg d acc guess step a b]
      newton_safe.entries_within_budget [OF assms, of cfg d acc guess step a b] by (auto simp: derivative_entries)
qed (use halley.entries_within_budget [OF assms, of cfg d d2 acc guess step a b]
    finite_difference.entries_within_budget [OF assms, of cfg acc guess step a b] in \<open>auto simp: derivative_entries\<close>)

lemma solvers_stay_within_budget_witness:
  "length (snd (solve_bracketed solver_config_new (recording step_at_one) (bisection solver_config_new (recording step_at_one))
      (Fin 1) (Fin 1) (Fin 0) (Fin 4) [])) \<le> 100 + 4"
  using solvers_stay_within_budget [OF step_at_one_doubles(1), of solver_config_new "Fin 1" "Fin 1" "Fin 1" "Fin 0" "Fin 4"]
  by simp

text \<open>C22. Bisection is totally correct, in floating-point arithmetic. Given a function with finite double values, a
  bracket within \<open>2 ^ k\<close> whose ends have opposite signs, a guess inside and at least \<open>k + 56\<close> evaluations, it
  succeeds; and at the root it returns the function is not positive, with a positive value nearer than the
  accuracy plus the rounding errors of the search, unless it met a point where the function is close to zero.\<close>

theorem bisection_is_totally_correct:
  assumes "double_valued g" "\<And>x. is_finite (g x)" "opposite (g (Fin a)) (g (Fin b))" "0 < acc"
    and "f_less (Fin a) guess" "f_less guess (Fin b)" "within_limits cfg (Fin a)" "within_limits cfg (Fin b)"
    and "\<bar>a\<bar> \<le> 2 ^ k" "\<bar>b\<bar> \<le> 2 ^ k" "k \<le> 990" "k + 56 \<le> max_evaluations cfg" "max_evaluations cfg \<le> 2 ^ 49"
  shows "\<exists>r tr. solve_bracketed cfg (recording g) (bisection cfg (recording g)) (Fin acc) guess (Fin a) (Fin b) [] = (Inr (Fin r), tr) \<and>
    (sign_change_near g r (max acc (1 / 2 ^ 52) + (of_nat (max_evaluations cfg) + 1) * 2 ^ k / 2 ^ 49) \<or>
     (\<exists>m\<in>set tr. close (g m) (Fin 0)))"
proof -
  let ?acc = "max acc (1 / 2 ^ 52)" and ?n = "max_evaluations cfg"
  have args: "check_bracket_args (Fin acc) guess (Fin a) (Fin b) = Inr (Fin ?acc)"
    using assms(4-6) by (cases guess) (auto simp: check_bracket_args_def f_le_def f_max_epsilon)
  have n: "(of_nat ?n :: rat) \<le> 2 ^ 49" using assms(13) by (metis of_nat_le_iff of_nat_numeral of_nat_power)
  have room: "3 * 2 ^ k + of_nat m * (2 ^ (k + 2) / 2 ^ 51) \<le> (2::rat) ^ (k + 2)" if "m \<le> ?n" for m
  proof -
    have "of_nat m * (2::rat) ^ k \<le> 2 ^ 49 * 2 ^ k"
      using n that by (intro mult_right_mono) (simp_all add: order_trans [of _ "of_nat ?n"])
    then show ?thesis by simp
  qed
  from bracket_accepted [OF assms(1-3,5-8)] show ?thesis
  proof cases
    case (1 x tr)
    then show ?thesis using args by (auto simp: solve_bracketed_def)
  next
    case (2 st tr)
    obtain dx r st' where start: "bisection cfg (recording g) (Fin ?acc) st tr = bisection_loop cfg (recording g) (Fin ?acc) (Fin dx) st' tr"
      "straddles g st' r dx (2 ^ k / 2 ^ 52) (3 * 2 ^ k)" "\<bar>dx\<bar> \<le> 2 powi (int k + 1)" "evaluation_number st' = 2"
      using bisection_starts [OF 2(2-4) assms(9-11)] 2(5) by metis
    have "\<exists>x tr'. bisection_loop cfg (recording g) (Fin ?acc) (Fin dx) st' tr = (Inr x, tr')"
      by (rule bisection_loop_converges [OF assms(2) start(2) room [of "k + 54"]]) (use start(3,4) assms(11,12) in \<open>simp_all add: add.commute\<close>)
    then obtain x tr' where run: "bisection_loop cfg (recording g) (Fin ?acc) (Fin dx) st' tr = (Inr x, tr')" by blast
    obtain r' where r': "x = Fin r'" "sign_change_near g r' (?acc + 2 ^ k / 2 ^ 52 + of_nat ?n * (2 ^ (k + 2) / 2 ^ 51)) \<or>
        (\<exists>m\<in>set tr'. close (g m) (Fin 0))"
      using bisection_loop_localises [OF run start(2) room [of ?n]] start(4) assms(11) by auto
    have "?acc + 2 ^ k / 2 ^ 52 + of_nat ?n * (2 ^ (k + 2) / 2 ^ 51) \<le> ?acc + (of_nat ?n + 1) * 2 ^ k / 2 ^ 49"
      by (simp add: field_simps)
    then have "sign_change_near g r' (?acc + (of_nat ?n + 1) * 2 ^ k / 2 ^ 49) \<or> (\<exists>m\<in>set tr'. close (g m) (Fin 0))"
      using r'(2) unfolding sign_change_near_def by (meson order.strict_trans2)
    moreover have "solve_bracketed cfg (recording g) (bisection cfg (recording g)) (Fin acc) guess (Fin a) (Fin b) [] = (Inr (Fin r'), tr')"
      using run start(1) 2(1) args r'(1) by (simp add: solve_bracketed_def)
    ultimately show ?thesis by blast
  qed
qed

lemma bisection_is_totally_correct_witness:
  "\<exists>r tr. solve_bracketed solver_config_new (recording step_at_one) (bisection solver_config_new (recording step_at_one))
      (Fin 1) (Fin 1) (Fin 0) (Fin 4) [] = (Inr (Fin r), tr) \<and>
    (sign_change_near step_at_one r (max 1 (1 / 2 ^ 52) + (100 + 1) * 2 ^ 2 / 2 ^ 49) \<or> (\<exists>m\<in>set tr. close (step_at_one m) (Fin 0)))"
  using bisection_is_totally_correct [of step_at_one 0 4 1 "Fin 1" solver_config_new 2] step_at_one_doubles
  by (simp add: opposite_def within_limits_def) (simp add: step_at_one_def)

text \<open>C23. Brent's method returns a root. For any function of doubles and any arguments, asked with or without a bracket,
  when the solver succeeds the function is close to zero at the answer, or there is a point where it has the
  opposite sign, within the tolerance of the stopping rule: half the distance is at most two epsilons of the
  answer plus half the accuracy, as the entry point checked it.\<close>

theorem brent_localises_the_root:
  assumes "double_valued g"
    and "check_stepping_args acc guess step = Inr acc' \<and>
        solve cfg (recording g) (brent cfg (recording g)) acc guess step [] = (Inr x, tr) \<or>
      check_bracket_args acc guess a b = Inr acc' \<and>
        solve_bracketed cfg (recording g) (brent cfg (recording g)) acc guess a b [] = (Inr x, tr)"
  shows "brent_answer g acc' x"
proof -
  obtain k tb where k: "bracket_found cfg g 0 (Inr k, tb)"
    and r: "(case k of Root x \<Rightarrow> (Inr x, tb) | Ready st \<Rightarrow> brent cfg (recording g) acc' st tb) = (Inr x, tr)"
    using assms(2)
  proof (elim disjE conjE)
    assume "check_stepping_args acc guess step = Inr acc'"
      "solve cfg (recording g) (brent cfg (recording g)) acc guess step [] = (Inr x, tr)"
    then obtain k tb where "bracket_by_stepping cfg (recording g) guess step [] = (Inr k, tb)"
      "(case k of Root x \<Rightarrow> (Inr x, tb) | Ready st \<Rightarrow> brent cfg (recording g) acc' st tb) = (Inr x, tr)"
      by (auto simp: solve_def and_then_Inr_iff)
    then show thesis using that bracket_by_stepping_found [OF assms(1), of cfg "[]" guess step] by simp
  next
    assume "check_bracket_args acc guess a b = Inr acc'"
      "solve_bracketed cfg (recording g) (brent cfg (recording g)) acc guess a b [] = (Inr x, tr)"
    then obtain k tb where "bracket_given cfg (recording g) guess a b [] = (Inr k, tb)"
      "(case k of Root x \<Rightarrow> (Inr x, tb) | Ready st \<Rightarrow> brent cfg (recording g) acc' st tb) = (Inr x, tr)"
      by (auto simp: solve_bracketed_def and_then_Inr_iff)
    then show thesis using that bracket_given_found [OF assms(1), of cfg "[]" guess a b] by simp
  qed
  show ?thesis
  proof (cases k)
    case (Root y)
    then show ?thesis using k r by (auto simp: brent_answer_def)
  next
    case (Ready st)
    then show ?thesis using k r brent_answers [OF assms(1), of st cfg acc' tb x tr] by simp
  qed
qed

lemma brent_localises_the_root_witness: "brent_answer step_at_one (Fin 4) (Fin 2)"
proof -
  have "check_bracket_args (Fin 4) (Fin 2) (Fin 0) (Fin 4) = Inr (Fin 4)"
    by (simp add: check_bracket_args_def f_le_def f_max_epsilon)
  then show ?thesis using brent_localises_the_root [OF step_at_one_doubles(1) disjI2 [OF conjI [OF _ brent_run]]] by blast
qed

text \<open>C25. Ridder's method keeps its bracket: whatever the function of doubles, the arguments and the entry point,
  the solver never fails with the message that it reached an unreachable bracketing state.\<close>

theorem ridder_never_loses_the_bracket:
  "double_valued g \<Longrightarrow>
     fst (solve cfg (recording g) (ridder cfg (recording g)) acc guess step tr) \<noteq> Inl UnreachableState \<and>
     fst (solve_bracketed cfg (recording g) (ridder cfg (recording g)) acc guess a b tr) \<noteq> Inl UnreachableState"
proof
  assume g: "double_valued g"
  show "fst (solve cfg (recording g) (ridder cfg (recording g)) acc guess step tr) \<noteq> Inl UnreachableState"
  proof
    assume "fst (solve cfg (recording g) (ridder cfg (recording g)) acc guess step tr) = Inl UnreachableState"
    then obtain tr' where "solve cfg (recording g) (ridder cfg (recording g)) acc guess step tr = (Inl UnreachableState, tr')"
      by (metis prod.collapse)
    then obtain a' b tb where b: "bracket_by_stepping cfg (recording g) guess step tr = (Inr b, tb)"
      and r: "(case b of Root x \<Rightarrow> (Inr x, tb) | Ready st \<Rightarrow> ridder cfg (recording g) a' st tb) = (Inl UnreachableState, tr')"
      by (auto simp: solve_def and_then_Inl_iff driver_errors bracket_by_stepping_errors)
    show False using bracket_by_stepping_found [OF g, of cfg tr guess step, unfolded b] r
      by (cases b) (auto dest: ridder_reaches)
  qed
  show "fst (solve_bracketed cfg (recording g) (ridder cfg (recording g)) acc guess a b tr) \<noteq> Inl UnreachableState"
  proof
    assume "fst (solve_bracketed cfg (recording g) (ridder cfg (recording g)) acc guess a b tr) = Inl UnreachableState"
    then obtain tr' where "solve_bracketed cfg (recording g) (ridder cfg (recording g)) acc guess a b tr = (Inl UnreachableState, tr')"
      by (metis prod.collapse)
    then obtain a' k tb where k: "bracket_given cfg (recording g) guess a b tr = (Inr k, tb)"
      and r: "(case k of Root x \<Rightarrow> (Inr x, tb) | Ready st \<Rightarrow> ridder cfg (recording g) a' st tb) = (Inl UnreachableState, tr')"
      by (auto simp: solve_bracketed_def and_then_Inl_iff driver_errors)
    show False using bracket_given_found [OF g, of cfg tr guess a b, unfolded k] r
      by (cases k) (auto dest: ridder_reaches)
  qed
qed

lemma ridder_never_loses_the_bracket_witness:
  "fst (solve solver_config_new (recording step_at_one) (ridder solver_config_new (recording step_at_one)) (Fin 1) (Fin 0) (Fin 1) []) \<noteq> Inl UnreachableState"
  using ridder_never_loses_the_bracket [OF step_at_one_doubles(1), of solver_config_new] by blast

section \<open>Three divergences\<close>

text \<open>Bisection stops when the function is close to zero at the midpoint, but it returns the end where the
  function is not positive: if the value at the midpoint is positive, that is the far end of the step. Here the
  function is -5 at 0 and positive but negligible at 1, and the answer is 0, whatever the accuracy.\<close>

definition dips :: "f64 \<Rightarrow> f64" where
  "dips x = (if x = Fin 0 then Fin (-5) else if x = Fin 1 then Fin (1 / 2 ^ 100) else Fin 1)"

lemma representable_values: "representable (1 / 2 ^ 100)" "representable (- 5)" "representable 2"
proof -
  have "rnd (1 / 2 ^ 100) = 1 / 2 ^ 100"
    by (rule rnd_representable [of _ 1 "- 100"]) (simp_all add: power_int_minus field_simps)
  then show "representable (1 / 2 ^ 100)" by (simp add: representable_def)
  show "representable (- 5)" "representable 2" using rnd_of_int [of 5] rnd_of_int [of 2] by (simp_all add: representable_def)
qed

lemma close_values: "close (Fin (1 / 2 ^ 100)) (Fin 0)" "\<not> close (Fin (- 5)) (Fin 0)" "\<not> close (Fin 2) (Fin 0)"
  using representable_values by (simp_all add: close_zero zero_tolerance_def epsilon_42_def)

lemma bisection_returns_the_far_end:
  assumes "0 < acc"
  shows "solve_bracketed solver_config_new (recording dips) (bisection solver_config_new (recording dips))
     (Fin acc) (Fin 1) (Fin 0) (Fin 2) [] = (Inr (Fin 0), [Fin 0, Fin 1, Fin 2, Fin 0]) \<and>
    dips (Fin 0) = Fin (-5) \<and> close (dips (Fin 1)) (Fin 0)"
proof -
  note run_simps = close_values [simplified] dips_def
  show ?thesis using assms
    apply (simp add: solve_bracketed_def check_bracket_args_def bracket_given_def f_max_epsilon f_le_def Let_def
        run_simps bisection_def f_sub_def default_state_def)
    apply (subst bisection_loop.simps, simp add: Let_def f_le_def run_simps)
    done
qed

text \<open>The documentation of the limits says that the search never evaluates the function beyond them. The search for
  a bracket does not, but the secant method extrapolates from its last two points: with the limit 1 on a
  bracket from 0 to 1 it calls the function at 3/2, and can return that point.\<close>

definition zigzag :: "f64 \<Rightarrow> f64" where
  "zigzag x = (if x = Fin 0 then Fin (-1) else if x = Fin 1 then Fin 1 else if x = Fin (1 / 2) then Fin 2 else Fin 0)"

lemma secant_leaves_the_limits:
  "solve_bracketed (set_upper_bound (Fin 1) solver_config_new) (recording zigzag)
     (secant (set_upper_bound (Fin 1) solver_config_new) (recording zigzag)) (Fin (1 / 2 ^ 20)) (Fin (1 / 2)) (Fin 0) (Fin 1) []
   = (Inr (Fin (3 / 2)), [Fin (3 / 2), Fin (1 / 2), Fin 1, Fin 0])"
proof -
  have acc: "max (1 / 2 ^ 20 :: rat) (1 / 2 ^ 52) = 1 / 2 ^ 20" by simp
  note run_simps = close_values zigzag_def set_upper_bound_def
  show ?thesis
    apply (simp add: solve_bracketed_def check_bracket_args_def bracket_given_def f_max_epsilon acc f_le_def Let_def
        run_simps secant_def f_sub_def default_state_def)
    apply (subst secant_loop.simps, simp add: Let_def f_le_def f_sub_def run_simps)
    apply (subst secant_loop.simps, simp add: Let_def f_le_def f_sub_def run_simps)
    done
qed

text \<open>The evaluation cap is documented as one on function evaluations. The finite-difference method does not count the
  call at the far end of the bracket that it makes when the midpoint is close to the last root. On a step at \<open>2 ^ 52\<close>,
  where the doubles are whole numbers, every pass but the first makes both calls: from a cap of five on, a run that ends
  with the cap exceeded has called the function twice for every count, two calls apart.\<close>

definition ledge :: "f64 \<Rightarrow> f64" where
  "ledge x = (if f_le x (Fin 4503599627370496) then Fin (-1) else Fin 1)"

lemma fl_at_least_one: "1 \<le> x \<Longrightarrow> x \<le> 10000 \<Longrightarrow> \<exists>y. fl x = Fin y \<and> 1 \<le> y"
proof -
  assume x: "1 \<le> x" "x \<le> 10000"
  have "\<bar>x\<bar> \<le> 2 ^ 1000" by (rule order_trans [of _ 10000]) (use x in simp_all)
  then show ?thesis using rnd_mono [OF x(1)] rnd_of_int [of 1] by (simp add: fl_small)
qed

lemma fl_ledge [simp]:
  "fl 4503599627370496 = Fin 4503599627370496" "fl 4503599627370497 = Fin 4503599627370497"
  "fl 4503599627370498 = Fin 4503599627370498" "fl (-3) = Fin (-3)"
  using fl_dyadic [of 4503599627370496 0] fl_dyadic [of 4503599627370497 0] fl_dyadic [of 4503599627370498 0] fl_dyadic [of "-3" 0]
  by simp_all

lemma fl_ledge_half [simp]: "fl (9007199254740993 / 2) = Fin 4503599627370496"
  using half_rounded [of 4503599627370496] by (simp add: f_of_int)

lemma close_ledge:
  "close_n (Fin 4503599627370497) (Fin 4503599627370496) 2500" "close_n (Fin 4503599627370496) (Fin 4503599627370497) 2500"
proof -
  have "fl 2500 = Fin 2500" "fl (625 / 1125899906842624) = Fin (625 / 1125899906842624)"
    using fl_dyadic [of 2500 0] fl_dyadic [of 625 50] by simp_all
  moreover obtain y z where "fl (625 / 1125899906842624 * 4503599627370497) = Fin y" "1 \<le> y"
    "fl (625 / 1125899906842624 * 4503599627370496) = Fin z" "1 \<le> z"
    using fl_at_least_one [of "625 / 1125899906842624 * 4503599627370497"]
      fl_at_least_one [of "625 / 1125899906842624 * 4503599627370496"] by auto
  ultimately show "close_n (Fin 4503599627370497) (Fin 4503599627370496) 2500" "close_n (Fin 4503599627370496) (Fin 4503599627370497) 2500"
    by (auto simp: close_n_def f_of_int f64_epsilon_def f_sub_def f_le_def Let_def)
qed

lemma close_to_itself: "close_n (Fin x) (Fin x) n"
  by (simp add: close_n_def)

lemmas ledge_simps = close_to_itself ledge_def f_le_def f_sub_def must_bisect_def close_ledge Let_def

text \<open>Two calls for each count, at the two ends of the last bracket.\<close>

lemma ledge_passes:
  assumes "root st = Fin 4503599627370496"
  shows "\<exists>tr'. difference_loop cfg (recording ledge) (Fin (1 / 2)) (Fin 4503599627370496) (Fin 4503599627370497) (Fin (1 / 2))
      (Fin (-1)) (Fin 2) st tr = (Inl MaximumEvaluationsExceeded, tr') \<and>
    length tr' = length tr + 2 * (max_evaluations cfg + 1 - evaluation_number st)"
  using assms
proof (induction "max_evaluations cfg + 1 - evaluation_number st" arbitrary: st tr)
  case 0
  then show ?case by (subst difference_loop.simps) simp
next
  case (Suc k)
  let ?st = "st\<lparr>root := Fin 4503599627370496, evaluation_number := evaluation_number st + 1\<rparr>"
  let ?tr = "Fin 4503599627370496 # Fin 4503599627370497 # tr"
  have n: "\<not> max_evaluations cfg < evaluation_number st" using Suc.hyps(2) by simp
  have "difference_loop cfg (recording ledge) (Fin (1 / 2)) (Fin 4503599627370496) (Fin 4503599627370497) (Fin (1 / 2))
      (Fin (-1)) (Fin 2) st tr =
    difference_loop cfg (recording ledge) (Fin (1 / 2)) (Fin 4503599627370496) (Fin 4503599627370497) (Fin (1 / 2))
      (Fin (-1)) (Fin 2) ?st ?tr"
    using n Suc.prems by (subst difference_loop.simps) (simp add: ledge_simps)
  moreover have "k = max_evaluations cfg + 1 - evaluation_number ?st" using Suc.hyps(2) by simp
  ultimately show ?case using Suc.hyps(1) [of ?st ?tr] Suc.hyps(2) by auto
qed

lemma finite_differences_overrun_the_cap:
  assumes "5 \<le> n"
  defines "cfg \<equiv> with_max_evaluations solver_config_new n"
  shows "\<exists>tr. solve_bracketed cfg (recording ledge) (finite_difference_newton_safe cfg (recording ledge)) (Fin (1 / 2))
      (Fin 4503599627370497) (Fin 4503599627370496) (Fin 4503599627370498) [] = (Inl MaximumEvaluationsExceeded, tr) \<and>
    length tr = 2 * n - 2"
proof -
  note run_simps = ledge_simps solve_bracketed_def check_bracket_args_def bracket_given_def f_max_epsilon
    finite_difference_newton_safe_def default_state_def with_max_evaluations_def
  have acc: "max (1 / 2 :: rat) (1 / 2 ^ 52) = 1 / 2" by simp
  let ?rest = "\<lambda>st tr. difference_loop cfg (recording ledge) (Fin (1 / 2)) (Fin 4503599627370496) (Fin 4503599627370497)
      (Fin (1 / 2)) (Fin (-1)) (Fin 2) st tr"
  have "\<exists>st tr. solve_bracketed cfg (recording ledge) (finite_difference_newton_safe cfg (recording ledge)) (Fin (1 / 2))
      (Fin 4503599627370497) (Fin 4503599627370496) (Fin 4503599627370498) [] = ?rest st tr \<and>
    root st = Fin 4503599627370496 \<and> evaluation_number st = 6 \<and> length tr = 8"
    using assms unfolding cfg_def
    apply (simp add: run_simps acc)
    apply (subst difference_loop.simps, simp add: ledge_simps)
    apply (subst difference_loop.simps, simp add: ledge_simps)
    apply (subst difference_loop.simps, simp add: ledge_simps)
    apply (rule exI, rule exI, rule conjI, rule refl, simp)
    done
  then show ?thesis using ledge_passes [of _ cfg] assms(1) by (fastforce simp: cfg_def with_max_evaluations_def)
qed

end
