(* ===== verification/Day_Counters.thy ===== *)
theory Day_Counters
  imports Calendar Gregorian Markets_Americas Floats
begin

text \<open>
  The day counters of \<open>time/daycounter.rs\<close> and \<open>time/daycounters\<close>, but for Actual/Actual. The trait
  \<open>DayCounterImpl\<close> is a record of its three methods; a panic is \<open>None\<close>, and a year fraction is
  the floating-point number the code computes, operation by operation. The date differences and the
  day counts of supported dates stay far inside 32 bits, so they are plain integers.
\<close>

section \<open>The trait\<close>

record day_counter =
  dc_name :: string
  dc_day_count :: "date \<Rightarrow> date \<Rightarrow> int option"
  dc_year_fraction :: "date \<Rightarrow> date \<Rightarrow> date \<Rightarrow> date \<Rightarrow> f64 option"

text \<open>The provided method: the days between the dates.\<close>

definition default_day_count :: "date \<Rightarrow> date \<Rightarrow> int option" where
  "default_day_count d1 d2 = Some (date_diff d2 d1)"

definition day_count :: "day_counter \<Rightarrow> date \<Rightarrow> date \<Rightarrow> int option" where
  "day_count dc d1 d2 = dc_day_count dc d1 d2"

definition year_fraction :: "day_counter \<Rightarrow> date \<Rightarrow> date \<Rightarrow> f64 option" where
  "year_fraction dc d1 d2 = dc_year_fraction dc d1 d2 date_null date_null"

definition year_fraction_ref :: "day_counter \<Rightarrow> date \<Rightarrow> date \<Rightarrow> date \<Rightarrow> date \<Rightarrow> f64 option" where
  "year_fraction_ref dc d1 d2 ref_period_start ref_period_end =
     dc_year_fraction dc d1 d2 ref_period_start ref_period_end"

definition day_counter_name :: "day_counter \<Rightarrow> string" where
  "day_counter_name dc = dc_name dc"

definition day_counter_eq :: "day_counter \<Rightarrow> day_counter \<Rightarrow> bool" where
  "day_counter_eq a b \<longleftrightarrow> day_counter_name a = day_counter_name b"

section \<open>30/360\<close>

datatype thirty360_convention =
    Thirty360_USA | Thirty360_BondBasis | Thirty360_European | Thirty360_EurobondBasis
  | Thirty360_Italian | Thirty360_German | Thirty360_ISMA | Thirty360_ISDA | Thirty360_NASD

datatype thirty360_rule = Rule_Us | Rule_BondBasis | Rule_Eurobond | Rule_Italian | Rule_Isda | Rule_Nasd

fun thirty360_rule_of :: "thirty360_convention \<Rightarrow> thirty360_rule" where
  "thirty360_rule_of Thirty360_USA = Rule_Us"
| "thirty360_rule_of Thirty360_BondBasis = Rule_BondBasis"
| "thirty360_rule_of Thirty360_ISMA = Rule_BondBasis"
| "thirty360_rule_of Thirty360_European = Rule_Eurobond"
| "thirty360_rule_of Thirty360_EurobondBasis = Rule_Eurobond"
| "thirty360_rule_of Thirty360_Italian = Rule_Italian"
| "thirty360_rule_of Thirty360_German = Rule_Isda"
| "thirty360_rule_of Thirty360_ISDA = Rule_Isda"
| "thirty360_rule_of Thirty360_NASD = Rule_Nasd"

fun thirty360_name :: "thirty360_rule \<Rightarrow> string" where
  "thirty360_name Rule_Us = ''30/360 (US)''"
| "thirty360_name Rule_BondBasis = ''30/360 (Bond Basis)''"
| "thirty360_name Rule_Eurobond = ''30E/360 (Eurobond Basis)''"
| "thirty360_name Rule_Italian = ''30/360 (Italian)''"
| "thirty360_name Rule_Isda = ''30E/360 (ISDA)''"
| "thirty360_name Rule_Nasd = ''30/360 (NASD)''"

definition is_last_of_february :: "int \<Rightarrow> month \<Rightarrow> int \<Rightarrow> bool option" where
  "is_last_of_february d m y =
     (if m = February then do { leap \<leftarrow> is_leap y; Some (d = 28 + of_bool leap) } else Some False)"

definition thirty_360 :: "int \<Rightarrow> int \<Rightarrow> int \<Rightarrow> int \<Rightarrow> int \<Rightarrow> int \<Rightarrow> int" where
  "thirty_360 yy1 yy2 mm1 mm2 dd1 dd2 = 360 * (yy2 - yy1) + 30 * (mm2 - mm1) + (dd2 - dd1)"

text \<open>The adjustment of the two day numbers, and of the second month, by each rule.\<close>

fun thirty360_adjust ::
  "thirty360_rule \<Rightarrow> bool \<Rightarrow> int \<times> month \<times> int \<Rightarrow> int \<times> month \<times> int \<Rightarrow> (int \<times> int \<times> int) option" where
  "thirty360_adjust Rule_Us ends (dd1, mm1, yy1) (dd2, mm2, yy2) = do {
     last1 \<leftarrow> is_last_of_february dd1 mm1 yy1;
     last2 \<leftarrow> (if last1 then is_last_of_february dd2 mm2 yy2 else Some False);
     let dd2 = (if last1 \<and> last2 then 30 else dd2);
     let dd1 = (if last1 then 30 else dd1);
     let dd2 = (if dd2 = 31 \<and> dd1 \<ge> 30 then 30 else dd2);
     let dd1 = (if dd1 = 31 then 30 else dd1);
     Some (dd1, dd2, month_ordinal mm2)
   }"
| "thirty360_adjust Rule_BondBasis ends (dd1, mm1, yy1) (dd2, mm2, yy2) =
     (let dd1 = (if dd1 = 31 then 30 else dd1);
          dd2 = (if dd2 = 31 \<and> dd1 = 30 then 30 else dd2)
      in Some (dd1, dd2, month_ordinal mm2))"
| "thirty360_adjust Rule_Eurobond ends (dd1, mm1, yy1) (dd2, mm2, yy2) =
     (let dd1 = (if dd1 = 31 then 30 else dd1);
          dd2 = (if dd2 = 31 then 30 else dd2)
      in Some (dd1, dd2, month_ordinal mm2))"
| "thirty360_adjust Rule_Italian ends (dd1, mm1, yy1) (dd2, mm2, yy2) =
     (let dd1 = (if dd1 = 31 then 30 else dd1);
          dd2 = (if dd2 = 31 then 30 else dd2);
          dd1 = (if mm1 = February \<and> dd1 > 27 then 30 else dd1);
          dd2 = (if mm2 = February \<and> dd2 > 27 then 30 else dd2)
      in Some (dd1, dd2, month_ordinal mm2))"
| "thirty360_adjust Rule_Isda ends (dd1, mm1, yy1) (dd2, mm2, yy2) = do {
     let dd1 = (if dd1 = 31 then 30 else dd1);
     let dd2 = (if dd2 = 31 then 30 else dd2);
     last1 \<leftarrow> is_last_of_february dd1 mm1 yy1;
     let dd1 = (if last1 then 30 else dd1);
     last2 \<leftarrow> (if ends then Some False else is_last_of_february dd2 mm2 yy2);
     let dd2 = (if last2 then 30 else dd2);
     Some (dd1, dd2, month_ordinal mm2)
   }"
| "thirty360_adjust Rule_Nasd ends (dd1, mm1, yy1) (dd2, mm2, yy2) =
     (let dd1 = (if dd1 = 31 then 30 else dd1);
          dd2 = (if dd2 = 31 \<and> dd1 \<ge> 30 then 30 else dd2);
          om2 = (if dd2 = 31 \<and> dd1 < 30 then month_ordinal mm2 + 1 else month_ordinal mm2);
          dd2 = (if dd2 = 31 \<and> dd1 < 30 then 1 else dd2)
      in Some (dd1, dd2, om2))"

definition thirty360_day_count :: "thirty360_rule \<Rightarrow> date \<Rightarrow> date \<Rightarrow> date \<Rightarrow> int option" where
  "thirty360_day_count rule termination_date d1 d2 = do {
     dd1 \<leftarrow> date_day_of_month d1;
     dd2 \<leftarrow> date_day_of_month d2;
     mm1 \<leftarrow> date_month d1;
     mm2 \<leftarrow> date_month d2;
     yy1 \<leftarrow> date_year d1;
     yy2 \<leftarrow> date_year d2;
     (a1, a2, om2) \<leftarrow> thirty360_adjust rule (d2 = termination_date) (dd1, mm1, yy1) (dd2, mm2, yy2);
     Some (thirty_360 yy1 yy2 (month_ordinal mm1) om2 a1 a2)
   }"

text \<open>The quotient of a day count by the days of a year.\<close>

definition over_year :: "f64 \<Rightarrow> int option \<Rightarrow> f64 option" where
  "over_year days_per_year count = map_option (\<lambda>n. f_div (f_of_int n) days_per_year) count"

definition thirty360_with_termination :: "thirty360_convention \<Rightarrow> date \<Rightarrow> day_counter" where
  "thirty360_with_termination c termination_date =
     (let rule = thirty360_rule_of c
      in \<lparr>dc_name = thirty360_name rule,
          dc_day_count = thirty360_day_count rule termination_date,
          dc_year_fraction = (\<lambda>d1 d2 _ _. over_year (Fin 360) (thirty360_day_count rule termination_date d1 d2))\<rparr>)"

definition thirty360_with_convention :: "thirty360_convention \<Rightarrow> day_counter" where
  "thirty360_with_convention c = thirty360_with_termination c date_null"

section \<open>30/365\<close>

definition thirty365_day_count :: "date \<Rightarrow> date \<Rightarrow> int option" where
  "thirty365_day_count d1 d2 = do {
     dd1 \<leftarrow> date_day_of_month d1;
     dd2 \<leftarrow> date_day_of_month d2;
     mm1 \<leftarrow> date_month d1;
     mm2 \<leftarrow> date_month d2;
     yy1 \<leftarrow> date_year d1;
     yy2 \<leftarrow> date_year d2;
     let dd1 = (if dd1 = 31 then 30 else dd1);
     let dd2 = (if dd2 = 31 then 30 else dd2);
     Some (360 * (yy2 - yy1) + 30 * (month_ordinal mm2 - month_ordinal mm1) + (dd2 - dd1))
   }"

definition thirty365_new :: day_counter where
  "thirty365_new = \<lparr>dc_name = ''30/365'', dc_day_count = thirty365_day_count,
     dc_year_fraction = (\<lambda>d1 d2 _ _. over_year (Fin 365) (thirty365_day_count d1 d2))\<rparr>"

section \<open>Actual counters\<close>

text \<open>The days between two dates, with the last day when the flag says so.\<close>

definition inclusive_day_count :: "bool \<Rightarrow> date \<Rightarrow> date \<Rightarrow> int option" where
  "inclusive_day_count include_last_day d1 d2 = Some (date_diff d2 d1 + of_bool include_last_day)"

definition actual360_with_last_day :: "bool \<Rightarrow> day_counter" where
  "actual360_with_last_day incl =
     \<lparr>dc_name = (if incl then ''Actual/360 (inc)'' else ''Actual/360''),
      dc_day_count = inclusive_day_count incl,
      dc_year_fraction = (\<lambda>d1 d2 _ _. over_year (Fin 360) (inclusive_day_count incl d1 d2))\<rparr>"

definition actual360_new :: day_counter where
  "actual360_new = actual360_with_last_day False"

definition actual364_new :: day_counter where
  "actual364_new = \<lparr>dc_name = ''Actual/364'', dc_day_count = default_day_count,
     dc_year_fraction = (\<lambda>d1 d2 _ _. Some (f_div (f_of_int (date_diff d2 d1)) (Fin 364)))\<rparr>"

definition actual36525_with_last_day :: "bool \<Rightarrow> day_counter" where
  "actual36525_with_last_day incl =
     \<lparr>dc_name = (if incl then ''Actual/365.25 (inc)'' else ''Actual/365.25''),
      dc_day_count = inclusive_day_count incl,
      dc_year_fraction = (\<lambda>d1 d2 _ _. over_year (Fin (365 + 1 / 4)) (inclusive_day_count incl d1 d2))\<rparr>"

definition actual36525_new :: day_counter where
  "actual36525_new = actual36525_with_last_day False"

definition actual366_with_last_day :: "bool \<Rightarrow> day_counter" where
  "actual366_with_last_day incl =
     \<lparr>dc_name = (if incl then ''Actual/366 (inc)'' else ''Actual/366''),
      dc_day_count = inclusive_day_count incl,
      dc_year_fraction = (\<lambda>d1 d2 _ _. over_year (Fin 366) (inclusive_day_count incl d1 d2))\<rparr>"

definition actual366_new :: day_counter where
  "actual366_new = actual366_with_last_day False"

section \<open>Actual/365 (Fixed)\<close>

datatype actual365fixed_convention = Actual365_Standard | Actual365_Canadian | Actual365_NoLeap

definition actual365_standard :: day_counter where
  "actual365_standard = \<lparr>dc_name = ''Actual/365 (Fixed)'', dc_day_count = default_day_count,
     dc_year_fraction = (\<lambda>d1 d2 _ _. Some (f_div (f_of_int (date_diff d2 d1)) (Fin 365)))\<rparr>"

text \<open>The months in a reference period: \<open>(12.0 * days / 365.0).round() as Integer\<close>.\<close>

definition reference_months :: "f64 \<Rightarrow> int" where
  "reference_months days = f_to_i32 (f_round (f_div (f_mul (Fin 12) days) (Fin 365)))"

definition canadian_year_fraction :: "date \<Rightarrow> date \<Rightarrow> date \<Rightarrow> date \<Rightarrow> f64 option" where
  "canadian_year_fraction d1 d2 ref_start ref_end =
     (if d1 = d2 then Some (Fin 0)
      else do {
        assert_that (ref_start \<noteq> date_null);
        assert_that (ref_end \<noteq> date_null);
        assert_that (ref_end > ref_start);
        let dcs = f_of_int (date_diff d2 d1);
        let dcc = f_of_int (date_diff ref_end ref_start);
        let months = reference_months dcc;
        assert_that (months \<noteq> 0);
        let frequency = 12 sdiv months;
        assert_that (frequency \<noteq> 0);
        if f_less dcs (f_of_int (365 sdiv frequency))
        then Some (f_div dcs (Fin 365))
        else Some (f_sub (f_div (Fin 1) (f_of_int frequency)) (f_div (f_sub dcc dcs) (Fin 365)))
      })"

definition actual365_canadian :: day_counter where
  "actual365_canadian = \<lparr>dc_name = ''Actual/365 (Fixed) Canadian Bond'', dc_day_count = default_day_count,
     dc_year_fraction = canadian_year_fraction\<rparr>"

definition NO_LEAP_MONTH_OFFSET :: "int list" where
  "NO_LEAP_MONTH_OFFSET = [0, 31, 59, 90, 120, 151, 181, 212, 243, 273, 304, 334]"

definition no_leap_serial :: "date \<Rightarrow> int option" where
  "no_leap_serial d = do {
     dd \<leftarrow> date_day_of_month d;
     m \<leftarrow> date_month d;
     off \<leftarrow> tbl_get NO_LEAP_MONTH_OFFSET (month_ordinal m - 1);
     y \<leftarrow> date_year d;
     let s = dd + off + y * 365;
     Some (if m = February \<and> dd = 29 then s - 1 else s)
   }"

definition no_leap_day_count :: "date \<Rightarrow> date \<Rightarrow> int option" where
  "no_leap_day_count d1 d2 = do {
     s2 \<leftarrow> no_leap_serial d2;
     s1 \<leftarrow> no_leap_serial d1;
     Some (s2 - s1)
   }"

definition actual365_no_leap :: day_counter where
  "actual365_no_leap = \<lparr>dc_name = ''Actual/365 (No Leap)'', dc_day_count = no_leap_day_count,
     dc_year_fraction = (\<lambda>d1 d2 _ _. over_year (Fin 365) (no_leap_day_count d1 d2))\<rparr>"

fun actual365fixed_with_convention :: "actual365fixed_convention \<Rightarrow> day_counter" where
  "actual365fixed_with_convention Actual365_Standard = actual365_standard"
| "actual365fixed_with_convention Actual365_Canadian = actual365_canadian"
| "actual365fixed_with_convention Actual365_NoLeap = actual365_no_leap"

definition actual365fixed_new :: day_counter where
  "actual365fixed_new = actual365fixed_with_convention Actual365_Standard"

section \<open>One, simple and business-day counters\<close>

definition one_day_count :: "date \<Rightarrow> date \<Rightarrow> int option" where
  "one_day_count d1 d2 = Some (if d2 \<ge> d1 then 1 else -1)"

definition one_day_counter_new :: day_counter where
  "one_day_counter_new = \<lparr>dc_name = ''1/1'', dc_day_count = one_day_count,
     dc_year_fraction = (\<lambda>d1 d2 _ _. map_option f_of_int (one_day_count d1 d2))\<rparr>"

definition simple_year_fraction :: "day_counter \<Rightarrow> date \<Rightarrow> date \<Rightarrow> f64 option" where
  "simple_year_fraction fallback d1 d2 = do {
     dm1 \<leftarrow> date_day_of_month d1;
     dm2 \<leftarrow> date_day_of_month d2;
     whole \<leftarrow> (if dm1 = dm2 then Some True
               else if dm1 > dm2 then date_is_end_of_month d2
               else date_is_end_of_month d1);
     if whole then do {
       y1 \<leftarrow> date_year d1;
       y2 \<leftarrow> date_year d2;
       m1 \<leftarrow> date_month d1;
       m2 \<leftarrow> date_month d2;
       Some (f_add (f_of_int (y2 - y1)) (f_div (f_of_int (month_ordinal m2 - month_ordinal m1)) (Fin 12)))
     } else year_fraction fallback d1 d2
   }"

definition simple_day_counter_new :: day_counter where
  "simple_day_counter_new =
     (let fallback = thirty360_with_convention Thirty360_BondBasis
      in \<lparr>dc_name = ''Simple'', dc_day_count = day_count fallback,
          dc_year_fraction = (\<lambda>d1 d2 _ _. simple_year_fraction fallback d1 d2)\<rparr>)"

definition business252_day_count :: "calendar \<Rightarrow> date \<Rightarrow> date \<Rightarrow> int option" where
  "business252_day_count cal d1 d2 = business_days_between cal d1 d2 True False"

definition business252_with_calendar :: "calendar \<Rightarrow> day_counter" where
  "business252_with_calendar cal =
     \<lparr>dc_name = ''Business/252('' @ calendar_name cal @ '')'',
      dc_day_count = business252_day_count cal,
      dc_year_fraction = (\<lambda>d1 d2 _ _. over_year (Fin 252) (business252_day_count cal d1 d2))\<rparr>"

definition business252_new :: day_counter where
  "business252_new = business252_with_calendar (brazil_new Brazil_Settlement)"

end
