(* ===== verification/Day_Counter_Properties.thy ===== *)
theory Day_Counter_Properties
  imports Day_Counters
begin

text \<open>
  What the day counters compute: the 30/360 rules against the civil dates they adjust, the No-Leap
  counter against the actual days, the actual counters as strictly increasing functions of the end
  date in spite of rounding, and exactly when the Canadian counter refuses a reference period.
\<close>

section \<open>Rounding a quotient\<close>

text \<open>The number of months that a count of days is rounded to is computed without error: the exact
  quotient is never within \<open>1 / 730\<close> of a half.\<close>

lemma round_half_awayI:
  assumes "0 \<le> k" "of_int k - 1 / 2 \<le> x" "x < of_int k + 1 / 2" "0 \<le> x"
  shows "round_half_away x = k"
proof -
  have "\<lfloor>x + 1 / 2\<rfloor> = k" using assms by (intro floor_unique) simp_all
  then show ?thesis using assms by (simp add: round_half_away_def)
qed

lemma rnd_half_le:
  assumes "0 \<le> k" "k < 2 ^ 51" "of_int k - 1 / 2 \<le> x"
  shows "of_int k - 1 / 2 \<le> rnd x"
proof -
  have "(of_int k - 1 / 2 :: rat) = of_int (2 * k - 1) * 2 powi (-1)" by simp
  then have "rnd (of_int k - 1 / 2) = of_int k - 1 / 2"
    using assms(1,2) by (intro rnd_representable [of _ "2 * k - 1" "-1"]) simp_all
  then show ?thesis using rnd_mono [OF assms(3)] by simp
qed

lemma rnd_near:
  assumes "0 \<le> x" "x \<le> 2 ^ 20" "x = 0 \<or> 2 powi (-1022) \<le> x"
  shows "\<bar>rnd x - x\<bar> \<le> 1 / 2 ^ 33"
proof -
  have "\<bar>rnd x - x\<bar> \<le> \<bar>x\<bar> / 2 ^ 53" using assms by (intro rnd_error) auto
  also have "\<dots> \<le> 1 / 2 ^ 33" using assms by simp
  finally show ?thesis .
qed

lemma normal_quotient: "1 / 1000 \<le> x \<Longrightarrow> (2::rat) powi (-1022) \<le> x"
proof -
  assume "1 / 1000 \<le> x"
  moreover have "(2::rat) powi (-1022) \<le> 2 powi (-10)" by (rule two_powi_mono) simp
  moreover have "(2::rat) powi (-10) = 1 / 1024" by (simp add: power_int_def power_one_over)
  ultimately show ?thesis by linarith
qed

lemma int_quotient_normal:
  assumes "n \<noteq> 0" "0 < D" "D \<le> 1000"
  shows "(2::rat) powi (-1022) \<le> \<bar>of_int n / D\<bar>"
proof (rule normal_quotient)
  have "1 \<le> \<bar>n\<bar>" using assms by linarith
  then have "(1::rat) \<le> \<bar>of_int n\<bar>" by (metis of_int_1 of_int_abs of_int_le_iff)
  then have "1 / 1000 \<le> \<bar>of_int n\<bar> / D" using assms by (intro frac_le) simp_all
  then show "1 / 1000 \<le> \<bar>of_int n / D\<bar>" using assms by simp
qed

lemma reference_months_eq:
  assumes n: "0 \<le> n" "n \<le> 200000"
  shows "reference_months (f_of_int n) = (24 * n + 365) div 730"
proof -
  let ?x = "of_int (12 * n) / 365 :: rat" 
  define k where "k = (24 * n + 365) div 730"
  have k: "0 \<le> k" "k \<le> 6576" using n by (simp_all add: k_def pos_imp_zdiv_nonneg_iff)
  define r where "r = (24 * n + 365) mod 730"
  have dm: "24 * n + 365 = 730 * k + r" "0 \<le> r" "r < 730" by (simp_all add: r_def k_def)
  have "odd (24 * n + 365)" by simp
  then have "odd r" by (simp add: dm(1))
  then have "r \<noteq> 0" by (rule contrapos_nn) simp
  then have r: "1 \<le> r" "r \<le> 729" using dm(2,3) by simp_all
  have "730 * of_int k + of_int r = (24 * of_int n + 365 :: rat)"
    using arg_cong [OF dm(1), of "of_int :: int \<Rightarrow> rat"] by (simp del: of_int_div)
  moreover have "1 \<le> (of_int r :: rat)" "of_int r \<le> (729 :: rat)" using r by simp_all
  ultimately have lo: "of_int k - 1 / 2 \<le> ?x" and hi: "?x \<le> of_int k + 1 / 2 - 1 / 730" by (simp_all add: field_simps)
  have "12 * n \<le> 12 * 200000" using n by simp
  then have "(of_int (12 * n) :: rat) \<le> of_int (12 * 200000)" by (simp only: of_int_le_iff)
  then have x: "0 \<le> ?x" "?x \<le> 2 ^ 20" using n by simp_all
  have "?x = 0 \<or> 2 powi (-1022) \<le> ?x"
    using int_quotient_normal [of "12 * n" 365] x(1) by (cases "n = 0") simp_all
  then have "\<bar>rnd ?x - ?x\<bar> \<le> 1 / 2 ^ 33" by (rule rnd_near [OF x])
  then have "rnd ?x - ?x \<le> 1 / 2 ^ 33" by (rule abs_le_D1)
  moreover have "(1::rat) / 2 ^ 33 < 1 / 730" by simp
  ultimately have "rnd ?x < of_int k + 1 / 2" using hi by linarith
  moreover have "of_int k - 1 / 2 \<le> rnd ?x" using k lo by (intro rnd_half_le) simp_all
  ultimately have "round_half_away (rnd ?x) = k"
    using k(1) rnd_nonneg [OF x(1)] by (intro round_half_awayI)
  moreover have "f_mul (Fin 12) (f_of_int n) = Fin (of_int (12 * n))"
    using f_of_int [of "12 * n"] f_of_int [of n] n by (simp add: f_of_int_def)
  moreover have "fl ?x = Fin (rnd ?x)" using x by (intro fl_small) simp
  ultimately show ?thesis using k by (simp add: reference_months_def flip: k_def)
qed

section \<open>30/360\<close>

lemma is_last_of_february_eq:
  "1901 \<le> y \<Longrightarrow> y \<le> 2199 \<Longrightarrow> is_last_of_february d m y = Some (m = February \<and> d = mlen m (gregorian_leap y))"
  by (auto simp: is_last_of_february_def is_leap_closed)

text \<open>The day of a date on the calendar of twelve months of thirty days, as the rules that adjust each
  date by itself see it.\<close>

fun thirty_day :: "thirty360_rule \<Rightarrow> int \<Rightarrow> month \<Rightarrow> int \<Rightarrow> int" where
  "thirty_day Rule_Italian dd m y = (if m = February \<and> dd > 27 then 30 else min dd 30)"
| "thirty_day Rule_Isda dd m y = (if m = February \<and> dd = mlen m (gregorian_leap y) then 30 else min dd 30)"
| "thirty_day _ dd m y = min dd 30"

definition thirty_serial :: "thirty360_rule \<Rightarrow> int \<Rightarrow> month \<Rightarrow> int \<Rightarrow> int" where
  "thirty_serial rule dd m y = 360 * y + 30 * month_ordinal m + thirty_day rule dd m y"

lemma civil_facts:
  assumes "date_new dd m y = Some d"
  shows "date_day_of_month d = Some dd" "date_month d = Some m" "date_year d = Some y"
    "1901 \<le> y" "y \<le> 2199" "1 \<le> dd" "dd \<le> mlen m (gregorian_leap y)" "d \<noteq> date_null"
  using assms date_new_inspect [OF assms] date_new_valid [OF assms]
  by (auto simp: date_new_Some date_null_def valid_date_iff)

lemma each_side_count:
  assumes a: "date_new d1 m1 y1 = Some a" and b: "date_new d2 m2 y2 = Some b"
    and "rule = Rule_Eurobond \<or> rule = Rule_Italian \<or> rule = Rule_Isda"
  shows "thirty360_day_count rule date_null a b = Some (thirty_serial rule d2 m2 y2 - thirty_serial rule d1 m1 y1)"
proof -
  note f = civil_facts [OF a] civil_facts [OF b]
  have l: "is_last_of_february e m y = Some (m = February \<and> e = mlen m (gregorian_leap y))"
    if "y = y1 \<or> y = y2" for e m y using that f by (auto intro: is_last_of_february_eq)
  have "d1 \<le> 31" "d2 \<le> 31" using f mlen_bounds(2) order_trans by blast+
  then show ?thesis
    using assms(3) f by (auto simp: thirty360_day_count_def thirty_360_def thirty_serial_def l Let_def min_def)
qed

lemma thirty_serial_mono:
  assumes a: "date_new d1 m1 y1 = Some a" and b: "date_new d2 m2 y2 = Some b" and "a \<le> b"
  shows "thirty_serial rule d1 m1 y1 \<le> thirty_serial rule d2 m2 y2"
proof -
  note f = civil_facts [OF a] civil_facts [OF b]
  have "1 \<le> thirty_day rule d1 m1 y1" "thirty_day rule d1 m1 y1 \<le> 30"
    "1 \<le> thirty_day rule d2 m2 y2" "thirty_day rule d2 m2 y2 \<le> 30" using f by (cases rule; simp)+
  note bounds = this
  consider "a = b" | "a < b" using assms(3) by fastforce
  then show ?thesis
  proof cases
    case 1
    then show ?thesis using date_new_inject [OF a] b by auto
  next
    case 2
    then consider "y1 < y2" | "y1 = y2" "month_ordinal m1 < month_ordinal m2" | "y1 = y2" "m1 = m2" "d1 < d2"
      using date_less_civil [OF a b] by (auto simp: less_month_def)
    then show ?thesis
    proof cases
      case 1
      have "1 \<le> month_ordinal m2" "month_ordinal m1 \<le> 12" by (cases m2; simp)(cases m1; simp)
      then show ?thesis using 1 bounds by (simp add: thirty_serial_def)
    next
      case 2
      then show ?thesis using bounds by (simp add: thirty_serial_def)
    next
      case 3
      have "d2 \<le> 29" if "m2 = February" using f that by (simp split: if_splits)
      then show ?thesis using 3 f by (cases rule) (auto simp: thirty_serial_def min_def)
    qed
  qed
qed

text \<open>Under the conventions that adjust each date by itself (European, Italian, German and ISDA) the
  30/360 day count is additive and monotone: it is the difference of one serial number on the
  calendar of twelve months of thirty days, so the counts of two adjacent periods add up to the
  count of their union, and a period that does not run backwards never counts negatively.\<close>

lemma thirty360_european_counts_add_up:
  assumes "c \<in> {Thirty360_European, Thirty360_EurobondBasis, Thirty360_Italian, Thirty360_German, Thirty360_ISDA}"
    and "valid_date d1" "valid_date d2" "valid_date d3"
  shows "\<exists>n k. day_count (thirty360_with_convention c) d1 d2 = Some n \<and>
    day_count (thirty360_with_convention c) d2 d3 = Some k \<and>
    day_count (thirty360_with_convention c) d1 d3 = Some (n + k) \<and>
    day_count (thirty360_with_convention c) d2 d1 = Some (- n) \<and> (d1 \<le> d2 \<longrightarrow> 0 \<le> n)"
proof -
  obtain a1 m1 y1 a2 m2 y2 a3 m3 y3 where
    e: "date_new a1 m1 y1 = Some d1" "date_new a2 m2 y2 = Some d2" "date_new a3 m3 y3 = Some d3"
    using valid_date_new_ex assms(2-4) by metis
  have r: "thirty360_rule_of c = Rule_Eurobond \<or> thirty360_rule_of c = Rule_Italian \<or> thirty360_rule_of c = Rule_Isda"
    using assms(1) by auto
  show ?thesis
    using each_side_count [OF e(1,2) r] each_side_count [OF e(2,3) r] each_side_count [OF e(1,3) r]
      each_side_count [OF e(2,1) r] thirty_serial_mono [OF e(1,2)]
    by (simp add: day_count_def thirty360_with_convention_def thirty360_with_termination_def Let_def)
qed

text \<open>The other rules look at both dates, and their counts need not add up.\<close>

lemma thirty360_bond_basis_is_not_additive:
  assumes "date_new 10 January 2007 = Some a" "date_new 31 January 2007 = Some b" "date_new 1 February 2007 = Some c"
  shows "thirty360_day_count Rule_BondBasis t a b = Some 21" "thirty360_day_count Rule_BondBasis t b c = Some 1"
    "thirty360_day_count Rule_BondBasis t a c = Some 21"
  using assms [THEN date_new_inspect(1)] assms [THEN date_new_inspect(2)] assms [THEN date_new_inspect(3)]
  by (simp_all add: thirty360_day_count_def thirty_360_def)

lemma adjust_near:
  assumes l: "\<And>e. is_last_of_february e m1 y1 = Some (m1 = February \<and> e = L1)"
      "\<And>e. is_last_of_february e m2 y2 = Some (m2 = February \<and> e = L2)"
    and b: "L1 = 28 \<or> L1 = 29" "L2 = 28 \<or> L2 = 29" "m1 = February \<Longrightarrow> d1 \<le> 29" "m2 = February \<Longrightarrow> d2 \<le> 29"
      "d1 \<le> 31" "d2 \<le> 31"
  shows "\<exists>a1 a2 om2. thirty360_adjust rule t (d1, m1, y1) (d2, m2, y2) = Some (a1, a2, om2) \<and>
    -1 \<le> a1 - d1 \<and> a1 - d1 \<le> 2 \<and> -1 \<le> 30 * om2 + a2 - (30 * month_ordinal m2 + d2) \<and>
    30 * om2 + a2 - (30 * month_ordinal m2 + d2) \<le> 2 \<and>
    (d1 < 28 \<longrightarrow> a1 = d1) \<and> (d2 < 28 \<longrightarrow> a2 = d2 \<and> om2 = month_ordinal m2)"
  using b by (cases rule) (auto simp: l Let_def)

lemma thirty360_near:
  assumes a: "date_new d1 m1 y1 = Some a" and b: "date_new d2 m2 y2 = Some b"
  shows "\<exists>n. thirty360_day_count rule t a b = Some n \<and>
    \<bar>n - (360 * (y2 - y1) + 30 * (month_ordinal m2 - month_ordinal m1) + (d2 - d1))\<bar> \<le> 3 \<and>
    (d1 < 28 \<and> d2 < 28 \<longrightarrow> n = 360 * (y2 - y1) + 30 * (month_ordinal m2 - month_ordinal m1) + (d2 - d1))"
proof -
  note f = civil_facts [OF a] civil_facts [OF b]
  have l: "is_last_of_february e m y = Some (m = February \<and> e = mlen February (gregorian_leap y))"
    if "y = y1 \<or> y = y2" for e m y using that f is_last_of_february_eq [of y e m] by auto
  have "d1 \<le> 31" "d2 \<le> 31" using f mlen_bounds(2) order_trans by blast+
  moreover have "d1 \<le> 29" if "m1 = February" using f(7) that by (simp split: if_splits)
  moreover have "d2 \<le> 29" if "m2 = February" using f(15) that by (simp split: if_splits)
  moreover have "mlen February (gregorian_leap y) = 28 \<or> mlen February (gregorian_leap y) = 29" for y by simp
  ultimately obtain a1 a2 om2 where "thirty360_adjust rule (b = t) (d1, m1, y1) (d2, m2, y2) = Some (a1, a2, om2)"
    "-1 \<le> a1 - d1" "a1 - d1 \<le> 2" "-1 \<le> 30 * om2 + a2 - (30 * month_ordinal m2 + d2)"
    "30 * om2 + a2 - (30 * month_ordinal m2 + d2) \<le> 2" "d1 < 28 \<longrightarrow> a1 = d1" "d2 < 28 \<longrightarrow> a2 = d2 \<and> om2 = month_ordinal m2"
    using adjust_near [of m1 y1 "mlen February (gregorian_leap y1)" m2 y2 "mlen February (gregorian_leap y2)" d1 d2 rule "b = t"] l by auto
  then show ?thesis using f by (auto simp: thirty360_day_count_def thirty_360_def abs_le_iff)
qed

text \<open>Every 30/360 convention, with any termination date, counts two supported dates as
  \<open>360\<close> per year, \<open>30\<close> per month and \<open>1\<close> per day up to three days of end-of-month adjustment, and
  exactly so when neither date is after the 27th, where all the conventions agree; the year
  fraction is that count over 360 in floating point.\<close>

lemma thirty360_conventions_agree_inside_months:
  assumes "date_new dd1 m1 y1 = Some d1" "date_new dd2 m2 y2 = Some d2"
  shows "\<exists>n. day_count (thirty360_with_termination c t) d1 d2 = Some n \<and>
    year_fraction (thirty360_with_termination c t) d1 d2 = Some (f_div (f_of_int n) (Fin 360)) \<and>
    (let k = 360 * (y2 - y1) + 30 * (month_ordinal m2 - month_ordinal m1) + (dd2 - dd1)
     in \<bar>n - k\<bar> \<le> 3 \<and> (dd1 < 28 \<and> dd2 < 28 \<longrightarrow> n = k))"
  using thirty360_near [OF assms, of "thirty360_rule_of c" t]
  by (auto simp: day_count_def year_fraction_def over_year_def thirty360_with_termination_def Let_def)

section \<open>Actual counters\<close>

lemma int_quotient_near:
  assumes "\<bar>n\<bar> \<le> 2 ^ 20" "1 \<le> D" "D \<le> 1000"
  shows "f_div (f_of_int n) (Fin D) = Fin (rnd (of_int n / D))" "\<bar>rnd (of_int n / D) - of_int n / D\<bar> \<le> 1 / 2 ^ 33"
proof -
  have n: "\<bar>of_int n :: rat\<bar> \<le> 2 ^ 20" using assms(1) of_int_le_iff [of "\<bar>n\<bar>" "2 ^ 20", where 'a = rat] by simp
  have "\<bar>of_int n / D\<bar> = \<bar>of_int n\<bar> / D" using assms by simp
  also have "\<dots> \<le> \<bar>of_int n\<bar> / 1" using assms by (intro divide_left_mono) simp_all
  finally have q: "\<bar>of_int n / D\<bar> \<le> 2 ^ 20" using n by simp
  then have "\<bar>of_int n / D\<bar> \<le> 2 ^ 1000" by (rule order_trans) simp
  then show "f_div (f_of_int n) (Fin D) = Fin (rnd (of_int n / D))"
    using assms by (simp add: f_of_int fl_small)
  have "\<bar>rnd (of_int n / D) - of_int n / D\<bar> \<le> \<bar>of_int n / D\<bar> / 2 ^ 53"
    using int_quotient_normal [of n D] assms by (intro rnd_error) (cases "n = 0"; simp)
  also have "\<dots> \<le> 2 ^ 20 / 2 ^ 53" using q by (intro divide_right_mono) simp_all
  finally show "\<bar>rnd (of_int n / D) - of_int n / D\<bar> \<le> 1 / 2 ^ 33" by simp
qed

lemma quotient_strict_mono:
  assumes "\<bar>n\<bar> \<le> 2 ^ 20" "\<bar>k\<bar> \<le> 2 ^ 20" "1 \<le> D" "D \<le> 1000"
  shows "rnd (of_int n / D) < rnd (of_int k / D) \<longleftrightarrow> n < k"
proof
  assume "n < k"
  then have "of_int n + 1 \<le> (of_int k :: rat)" by (metis add1_zle_eq of_int_1 of_int_add of_int_le_iff)
  then have "(of_int n + 1) / D \<le> of_int k / D" using assms by (intro divide_right_mono) simp_all
  moreover have "1 / 1000 \<le> 1 / D" using assms by (intro frac_le) simp_all
  moreover have "(of_int n + 1) / D = of_int n / D + 1 / D" by (rule add_divide_distrib)
  moreover have "of_int k / D - rnd (of_int k / D) \<le> 1 / 2 ^ 33" "rnd (of_int n / D) - of_int n / D \<le> 1 / 2 ^ 33"
    using int_quotient_near(2) [OF assms(1,3,4)] int_quotient_near(2) [OF assms(2,3,4)] by (simp_all only: abs_le_iff minus_diff_eq)
  moreover have "1 / 2 ^ 33 + 1 / 2 ^ 33 < (1 / 1000 :: rat)" by simp
  ultimately show "rnd (of_int n / D) < rnd (of_int k / D)" by linarith
next
  assume less: "rnd (of_int n / D) < rnd (of_int k / D)"
  show "n < k"
  proof (rule ccontr)
    assume "\<not> n < k"
    then have "(of_int k :: rat) / D \<le> of_int n / D" using assms by (intro divide_right_mono) simp_all
    with less show False using rnd_mono by (meson not_le)
  qed
qed

lemma valid_diff: "valid_date d1 \<Longrightarrow> valid_date d2 \<Longrightarrow> \<bar>date_diff d2 d1\<bar> \<le> 2 ^ 20"
  by (simp add: valid_date_iff date_diff_def abs_le_iff)

text \<open>The year fractions of the counters that divide the actual days (Actual/360, Actual/364,
  Actual/365 (Fixed), Actual/365.25 and Actual/366) survive rounding: they are finite, antisymmetric,
  zero exactly on an empty period, and strictly increasing in the end date, so that no two end dates
  have the same fraction.\<close>

lemma actual_year_fractions_are_strictly_monotone:
  assumes "dc \<in> {actual360_new, actual364_new, actual365fixed_new, actual36525_new, actual366_new}"
    and "valid_date d1" "valid_date d2" "valid_date d3"
  shows "\<exists>x y. year_fraction dc d1 d2 = Some (Fin x) \<and> year_fraction dc d1 d3 = Some (Fin y) \<and>
    year_fraction dc d2 d1 = Some (Fin (- x)) \<and> (x < y \<longleftrightarrow> d2 < d3) \<and> (x = 0 \<longleftrightarrow> d1 = d2)"
proof -
  obtain D where D: "1 \<le> D" "D \<le> 1000"
    and yf: "year_fraction dc a b = Some (f_div (f_of_int (date_diff b a)) (Fin D))" for a b
    using assms(1) that [of 360] that [of 364] that [of 365] that [of "365 + 1 / 4"] that [of 366]
    by (auto simp: year_fraction_def actual360_new_def actual360_with_last_day_def actual364_new_def
        actual365fixed_new_def actual365_standard_def actual36525_new_def actual36525_with_last_day_def
        actual366_new_def actual366_with_last_day_def over_year_def inclusive_day_count_def)
  note b = valid_diff [OF assms(2,3)] valid_diff [OF assms(2,4)] valid_diff [OF assms(3,2)]
  note q = b [THEN int_quotient_near(1), OF D]
  have neg: "(of_int (date_diff d1 d2) / D) = - (of_int (date_diff d2 d1) / D)" by (simp add: date_diff_def minus_divide_left)
  have lt: "date_diff d2 d1 < date_diff d3 d1 \<longleftrightarrow> d2 < d3" by (auto simp: date_diff_def less_date_def)
  have zero: "rnd (of_int (date_diff d2 d1) / D) = 0 \<longleftrightarrow> d1 = d2"
    using quotient_strict_mono [OF b(1) _ D, of 0] quotient_strict_mono [OF _ b(1) D, of 0]
    by (cases d1; cases d2) (auto simp: date_diff_def)
  show ?thesis
    unfolding yf q using quotient_strict_mono [OF b(1,2) D] by (auto simp: neg lt zero)
qed

section \<open>The Canadian and No-Leap counters\<close>

text \<open>The Canadian counter panics exactly on a reference period it cannot read: for two different
  dates it returns a fraction if and only if the reference period is given, runs forward, and lasts
  from 16 to 380 days, which is what rounding its length to a positive number of months, at most
  twelve, comes to.\<close>

lemma canadian_counter_refuses:
  assumes "valid_date rs \<or> rs = date_null" "valid_date re \<or> re = date_null"
  shows "year_fraction_ref actual365_canadian d1 d2 rs re = None \<longleftrightarrow>
    d1 \<noteq> d2 \<and> (rs = date_null \<or> re = date_null \<or> date_diff re rs < 16 \<or> 380 < date_diff re rs)"
proof -
  let ?n = "date_diff re rs"
  have r: "rs < re \<longleftrightarrow> 0 < ?n" by (simp add: date_diff_def less_date_def)
  consider "d1 = d2" | "rs = date_null \<or> re = date_null" | "\<not> rs < re"
    | "d1 \<noteq> d2" "rs \<noteq> date_null" "re \<noteq> date_null" "rs < re" by blast
  then show ?thesis
  proof cases
    case 4
    then have n: "0 < ?n" "?n \<le> 200000" using assms r by (auto simp: valid_date_iff date_diff_def)
    then have m: "reference_months (f_of_int ?n) = (24 * ?n + 365) div 730" by (intro reference_months_eq) simp_all
    define m where "m = (24 * ?n + 365) div 730"
    have m0: "m = 0 \<longleftrightarrow> ?n < 16" "0 \<le> m" using n by (auto simp: m_def zdiv_eq_0_iff pos_imp_zdiv_nonneg_iff)
    have "730 * m + (24 * ?n + 365) mod 730 = 24 * ?n + 365" by (simp add: m_def)
    moreover have "0 \<le> (24 * ?n + 365) mod 730" "(24 * ?n + 365) mod 730 < 730" by simp_all
    ultimately have "12 < m \<longleftrightarrow> 380 < ?n" by linarith
    then have m12: "12 sdiv m = 0 \<longleftrightarrow> 380 < ?n" if "m \<noteq> 0"
      using m0(2) that sdiv_nonneg [of 12 m] by (simp add: zdiv_eq_0_iff)
    show ?thesis
      using 4 m0 m12 by (auto simp: year_fraction_ref_def actual365_canadian_def canadian_year_fraction_def m m_def [symmetric] Let_def
          assert_that_def split: if_splits)
  qed (auto simp: year_fraction_ref_def actual365_canadian_def canadian_year_fraction_def r assert_that_def)
qed

text \<open>The leap days after one date up to another, by looking at every date in between.\<close>

definition is_leap_day :: "int \<Rightarrow> bool" where
  "is_leap_day s \<longleftrightarrow> date_day_of_month (Date s) = Some 29 \<and> date_month (Date s) = Some February"

definition leap_days_between :: "date \<Rightarrow> date \<Rightarrow> int" where
  "leap_days_between a b = int (length (filter is_leap_day [serial_number a + 1..serial_number b]))"

lemma no_leap_serial_eq:
  assumes "date_new dd m y = Some d"
  shows "no_leap_serial d = Some (dd + moff m False + 365 * y - of_bool (m = February \<and> dd = 29))"
proof -
  have "tbl_get NO_LEAP_MONTH_OFFSET (month_ordinal m - 1) = Some (moff m False)"
    by (cases m) (simp_all add: NO_LEAP_MONTH_OFFSET_def)
  then show ?thesis using civil_facts [OF assms] by (simp add: no_leap_serial_def Let_def)
qed

lemma mlen_without_leap_day:
  "mlen m leap - of_bool (m = February \<and> mlen m leap = 29) = mlen m False"
  by (cases m) simp_all

lemma no_leap_serial_Suc:
  assumes "valid_date d" "d < date_max"
  obtains k where "no_leap_serial d = Some k"
    "no_leap_serial (Date (serial_number d + 1)) = Some (k + of_bool (\<not> is_leap_day (serial_number d + 1)))"
proof -
  obtain dd m y where d: "date_new dd m y = Some d" using valid_date_new_ex [OF assms(1)] by blast
  obtain dd' m' y' where n: "next_day (dd, m, y) = (dd', m', y')" by (metis prod_cases3)
  obtain d' where d': "date_add d 1 = Some d'" "date_new dd' m' y' = Some d'"
    using date_add_one_civil [OF d assms(2) n] by blast
  then have e: "d' = Date (serial_number d + 1)" using date_add_Some [OF assms(1)] by simp
  have leap: "is_leap_day (serial_number d + 1) \<longleftrightarrow> dd' = 29 \<and> m' = February"
    using civil_facts [OF d'(2)] by (simp add: is_leap_day_def e)
  note f = civil_facts(6,7) [OF d]
  have "dd' + moff m' False + 365 * y' - of_bool (m' = February \<and> dd' = 29) =
    dd + moff m False + 365 * y - of_bool (m = February \<and> dd = 29) + of_bool (\<not> (dd' = 29 \<and> m' = February))"
  proof (cases "dd < mlen m (gregorian_leap y)")
    case True
    then have "\<not> (m = February \<and> dd = 29)" by (auto split: if_splits)
    then show ?thesis using True n by auto
  next
    case False
    then have dd: "dd = mlen m (gregorian_leap y)" using f by simp
    show ?thesis
    proof (cases "m = December")
      case True
      then show ?thesis using n dd by auto
    next
      case m: False
      then have "dd' = 1" "m' = next_month m" "y' = y" using n False by auto
      moreover have "dd - of_bool (m = February \<and> dd = 29) = mlen m False" unfolding dd by (rule mlen_without_leap_day)
      ultimately show ?thesis using moff_next_month [OF m, of False] by simp
    qed
  qed
  then show thesis
    using that [OF no_leap_serial_eq [OF d]] no_leap_serial_eq [OF d'(2)] by (simp add: e leap)
qed

text \<open>C18. The No-Leap counter counts the actual days but for the leap days: between two supported dates
  in order it returns their distance less the number of 29 Februaries after the first and up to the
  second.\<close>

theorem no_leap_skips_leap_days:
  assumes "valid_date d1" "valid_date d2" "d1 \<le> d2"
  shows "day_count actual365_no_leap d1 d2 = Some (date_diff d2 d1 - leap_days_between d1 d2)"
proof -
  have "no_leap_day_count d1 (Date (serial_number d1 + int n)) =
      Some (int n - leap_days_between d1 (Date (serial_number d1 + int n)))"
    if "valid_date (Date (serial_number d1 + int n))" for n
    using that
  proof (induction n)
    case 0
    obtain k where "no_leap_serial d1 = Some k"
      using valid_date_new_ex [OF assms(1)] no_leap_serial_eq by blast
    then show ?case by (simp add: no_leap_day_count_def leap_days_between_def)
  next
    case (Suc n)
    let ?s = "serial_number d1 + int n"
    have v: "valid_date (Date ?s)" "Date ?s < date_max"
      using Suc.prems assms(1) by (simp_all add: valid_date_iff less_date_def date_max_def MAXIMUM_SERIAL_NUMBER_def)
    obtain k where k: "no_leap_serial (Date ?s) = Some k"
      "no_leap_serial (Date (?s + 1)) = Some (k + of_bool (\<not> is_leap_day (?s + 1)))"
      using no_leap_serial_Suc [OF v] by auto
    have "[serial_number d1 + 1..?s + 1] = [serial_number d1 + 1..?s] @ [?s + 1]"
      using upto_rec2 [of "serial_number d1 + 1" "?s + 1"] by simp
    then have "leap_days_between d1 (Date (?s + 1)) = leap_days_between d1 (Date ?s) + of_bool (is_leap_day (?s + 1))"
      by (simp add: leap_days_between_def)
    then show ?case
      using Suc.IH [OF v(1)] k by (auto simp: no_leap_day_count_def bind_eq_Some_conv add.assoc add.commute [of 1])
  qed
  from this [of "nat (date_diff d2 d1)"] show ?thesis
    using assms by (cases d2) (simp add: day_count_def actual365_no_leap_def date_diff_def less_eq_date_def)
qed

lemma no_leap_skips_leap_days_witness:
  "day_count actual365_no_leap (Date 40000) (Date 40700) = Some (700 - leap_days_between (Date 40000) (Date 40700))"
  using no_leap_skips_leap_days [of "Date 40000" "Date 40700"]
  by (simp add: valid_date_iff less_eq_date_def date_diff_def)

end
