(* ===== verification/Actual_Actual.thy ===== *)
theory Actual_Actual
  imports Day_Counter_Properties Schedule Date_Periods
begin

text \<open>
  The Actual/Actual day counters of \<open>time/daycounters/actualactual.rs\<close>: ISDA, AFB, and the two ISMA
  algorithms, one driven by a reference period and one by the coupon dates of a schedule. A panic is
  \<open>None\<close>. The reference-period algorithm calls itself; its recursion is bounded by fuel, which
  is more than any supported dates can use (Actual_Actual_Properties).
\<close>

datatype actual_actual_convention =
    ActualActual_ISMA | ActualActual_Bond | ActualActual_ISDA | ActualActual_Historical
  | ActualActual_Actual365 | ActualActual_AFB | ActualActual_Euro

definition days_between :: "date \<Rightarrow> date \<Rightarrow> f64" where
  "days_between d1 d2 = f_of_int (date_diff d2 d1)"

abbreviation one_year :: period where
  "one_year \<equiv> period_new 1 Years"

section \<open>ISDA\<close>

text \<open>The branch \<open>d1 > d2\<close> of each \<open>year_fraction\<close> calls it once with the dates exchanged, and negates.\<close>

definition isda_ordered :: "date \<Rightarrow> date \<Rightarrow> f64 option" where
  "isda_ordered d1 d2 = do {
     y1 \<leftarrow> date_year d1;
     y2 \<leftarrow> date_year d2;
     leap1 \<leftarrow> is_leap y1;
     let dib1 = Fin (if leap1 then 366 else 365);
     leap2 \<leftarrow> is_leap y2;
     let dib2 = Fin (if leap2 then 366 else 365);
     if y1 = y2 then Some (f_div (days_between d1 d2) dib1)
     else do {
       let acc = f_of_int (y2 - y1 - 1);
       next_new_year \<leftarrow> date_new 1 January (y1 + 1);
       let acc = f_add acc (f_div (days_between d1 next_new_year) dib1);
       last_new_year \<leftarrow> date_new 1 January y2;
       Some (f_add acc (f_div (days_between last_new_year d2) dib2))
     }
   }"

definition isda_year_fraction :: "date \<Rightarrow> date \<Rightarrow> f64 option" where
  "isda_year_fraction d1 d2 =
     (if d1 = d2 then Some (Fin 0)
      else if d1 > d2 then map_option f_neg (isda_ordered d2 d1)
      else isda_ordered d1 d2)"

section \<open>AFB\<close>

text \<open>One year before a date, moved from the 28th to the 29th of February in a leap year.\<close>

definition afb_year_before :: "date \<Rightarrow> date option" where
  "afb_year_before d = do {
     temp \<leftarrow> date_minus d one_year;
     dom \<leftarrow> date_day_of_month temp;
     m \<leftarrow> date_month temp;
     y \<leftarrow> date_year temp;
     leap \<leftarrow> (if dom = 28 \<and> m = February then is_leap y else Some False);
     if leap then date_add temp 1 else Some temp
   }"

lemma date_year_lower:
  assumes "date_year d = Some y" "1901 \<le> y" "y \<le> 2200"
  shows "days_before_year y < serial_number d"
proof -
  let ?s = "serial_number d" and ?z = "serial_number d sdiv 365 + 1900"
  obtain yo where yo: "year_offset ?z = Some yo" "y = (if ?s \<le> yo then ?z - 1 else ?z)"
    using assms(1) by (auto simp: date_year_def bind_eq_Some_conv Let_def)
  show ?thesis
  proof (cases "?s \<le> yo")
    case False
    then have "y = ?z" using yo by simp
    then show ?thesis using False yo(1) year_offset_closed [OF assms(2,3)] by simp
  next
    case True
    then have z: "?s sdiv 365 = y - 1899" using yo by simp
    have "0 \<le> ?s"
    proof (rule ccontr)
      assume "\<not> 0 \<le> ?s"
      then have "?s sdiv 365 \<le> 0" by (simp add: signed_divide_int_def sgn_if)
      then show False using z assms(2) by simp
    qed
    then have "?s div 365 = y - 1899" using z by (simp add: sdiv_nonneg)
    then have "365 * (y - 1899) \<le> ?s" using mult_div_mod_eq [of 365 ?s] pos_mod_sign [of 365 ?s] by simp
    then show ?thesis using days_before_year_bounds(2) [OF assms(2,3)] by simp
  qed
qed

lemma date_new_upper:
  assumes "date_new dd m y = Some d"
  shows "serial_number d \<le> days_before_year (y + 1)" "m = February \<Longrightarrow> serial_number d < days_before_year (y + 1)"
  using assms moff_bounds(2) [of m "gregorian_leap y"] days_before_year_Suc [of y]
  by (auto simp: date_new_Some split: if_splits)

lemma afb_year_before_less:
  assumes "afb_year_before d = Some t"
  shows "t < d"
proof -
  obtain temp where temp: "date_advance d (-1) Years = Some temp"
    using assms by (auto simp: afb_year_before_def date_minus_def bind_eq_Some_conv i32_range_def)
  then obtain y dd m where y: "date_year d = Some y" "date_new dd m (y - 1) = Some temp"
    by (auto simp: bind_eq_Some_conv)
  note new = y(2) [unfolded date_new_Some]
  have t: "t = temp \<or> (m = February \<and> t = Date (serial_number temp + 1))"
    using assms temp civil_facts [OF y(2)] date_new_valid [OF y(2)]
    by (auto simp: afb_year_before_def date_minus_def bind_eq_Some_conv i32_range_def date_add_Some split: if_splits)
  have "days_before_year y < serial_number d" using date_year_lower [OF y(1)] new by simp
  then show ?thesis using t date_new_upper [OF y(2)] by (auto simp: less_date_def)
qed

function afb_loop :: "date \<Rightarrow> date \<Rightarrow> date \<Rightarrow> f64 \<Rightarrow> (date \<times> f64) option" where
  "afb_loop d1 temp new_d2 acc =
     (if temp > d1 then do {
        temp \<leftarrow> afb_year_before new_d2;
        if temp \<ge> d1 then afb_loop d1 temp temp (f_add acc (Fin 1))
        else afb_loop d1 temp new_d2 acc
      } else Some (new_d2, acc))"
  by pat_completeness auto
termination
  by (relation "measures [\<lambda>(d1, temp, new_d2, acc). nat (serial_number new_d2 - serial_number d1),
      \<lambda>(d1, temp, new_d2, acc). if temp > d1 then 1 else 0]")
    (auto dest: afb_year_before_less simp: less_date_def less_eq_date_def)

declare afb_loop.simps [simp del]

definition afb_denominator :: "date \<Rightarrow> date \<Rightarrow> f64 option" where
  "afb_denominator d1 new_d2 = do {
     y2 \<leftarrow> date_year new_d2;
     leap2 \<leftarrow> is_leap y2;
     y1 \<leftarrow> date_year d1;
     leap1 \<leftarrow> is_leap y1;
     if leap2 then do {
       temp \<leftarrow> date_new 29 February y2;
       Some (if new_d2 > temp \<and> d1 \<le> temp then f_add (Fin 365) (Fin 1) else Fin 365)
     } else if leap1 then do {
       temp \<leftarrow> date_new 29 February y1;
       Some (if new_d2 > temp \<and> d1 \<le> temp then f_add (Fin 365) (Fin 1) else Fin 365)
     } else Some (Fin 365)
   }"

definition afb_ordered :: "date \<Rightarrow> date \<Rightarrow> f64 option" where
  "afb_ordered d1 d2 = do {
     (new_d2, acc) \<leftarrow> afb_loop d1 d2 d2 (Fin 0);
     den \<leftarrow> afb_denominator d1 new_d2;
     Some (f_add acc (f_div (days_between d1 new_d2) den))
   }"

definition afb_year_fraction :: "date \<Rightarrow> date \<Rightarrow> f64 option" where
  "afb_year_fraction d1 d2 =
     (if d1 = d2 then Some (Fin 0)
      else if d1 > d2 then map_option f_neg (afb_ordered d2 d1)
      else afb_ordered d1 d2)"

section \<open>ISMA with a reference period\<close>

text \<open>The reference period and its months: the whole years of a reference period of no months are
  replaced by the year that follows \<open>d1\<close>, and \<open>Inl\<close> is the early return in the last supported year.\<close>

definition isma_reference :: "date \<Rightarrow> date \<Rightarrow> date \<Rightarrow> date \<Rightarrow> (f64 + date \<times> date \<times> int) option" where
  "isma_reference d1 d2 ref_period_start ref_period_end = do {
     let ref_start = (if ref_period_start \<noteq> date_null then ref_period_start else d1);
     let ref_end = (if ref_period_end \<noteq> date_null then ref_period_end else d2);
     assert_that (ref_end > ref_start \<and> ref_end > d1);
     let months = reference_months (days_between ref_start ref_end);
     if months = 0 then do {
       y \<leftarrow> date_year d1;
       last_year \<leftarrow> date_year date_max;
       if y = last_year then Some (Inl (f_div (days_between d1 d2) (Fin 365)))
       else do { e \<leftarrow> date_plus d1 one_year; Some (Inr (d1, e, 12)) }
     } else Some (Inr (ref_start, ref_end, months))
   }"

text \<open>The whole regular periods after the reference period: the loop over \<open>i\<close>, whose product
  \<open>months * (i + 1)\<close> is checked.\<close>

function whole_periods :: "date \<Rightarrow> date \<Rightarrow> int \<Rightarrow> f64 \<Rightarrow> f64 \<Rightarrow> int \<Rightarrow> (f64 \<times> date \<times> date) option" where
  "whole_periods d2 ref_end months period acc i = do {
     n \<leftarrow> i32 (months * i);
     new_ref_start \<leftarrow> date_plus ref_end (period_new n Months);
     i1 \<leftarrow> i32 (i + 1);
     n1 \<leftarrow> i32 (months * i1);
     new_ref_end \<leftarrow> date_plus ref_end (period_new n1 Months);
     if d2 < new_ref_end then Some (acc, new_ref_start, new_ref_end)
     else whole_periods d2 ref_end months period (f_add acc period) i1
   }"
  by pat_completeness auto
termination
  by (relation "measure (\<lambda>(d2, ref_end, months, period, acc, i). nat (2147483648 - i))")
    (auto simp: i32_range_def)

declare whole_periods.simps [simp del]

fun isma_steps :: "nat \<Rightarrow> date \<Rightarrow> date \<Rightarrow> date \<Rightarrow> date \<Rightarrow> f64 option" where
  "isma_steps 0 _ _ _ _ = None"
| "isma_steps (Suc fuel) d1 d2 ref_period_start ref_period_end =
     (if d1 = d2 then Some (Fin 0)
      else if d1 > d2 then map_option f_neg (isma_steps fuel d2 d1 ref_period_start ref_period_end)
      else do {
        reference \<leftarrow> isma_reference d1 d2 ref_period_start ref_period_end;
        case reference of
          Inl x \<Rightarrow> Some x
        | Inr (ref_start, ref_end, months) \<Rightarrow>
            (let period = f_div (f_of_int months) (Fin 12)
             in if d2 \<le> ref_end then
                  (if d1 \<ge> ref_start then
                     Some (f_div (f_mul period (days_between d1 d2)) (days_between ref_start ref_end))
                   else do {
                     previous_ref \<leftarrow> date_minus ref_start (period_new months Months);
                     if d2 > ref_start then do {
                       x \<leftarrow> isma_steps fuel d1 ref_start previous_ref ref_start;
                       y \<leftarrow> isma_steps fuel ref_start d2 ref_start ref_end;
                       Some (f_add x y)
                     } else isma_steps fuel d1 d2 previous_ref ref_start
                   })
                else do {
                  assert_that (ref_start \<le> d1);
                  acc \<leftarrow> isma_steps fuel d1 ref_end ref_start ref_end;
                  (acc, new_ref_start, new_ref_end) \<leftarrow> whole_periods d2 ref_end months period acc 0;
                  x \<leftarrow> isma_steps fuel new_ref_start d2 new_ref_start new_ref_end;
                  Some (f_add acc x)
                })
      })"

text \<open>More steps than any recursion on supported dates takes.\<close>

definition isma_year_fraction :: "date \<Rightarrow> date \<Rightarrow> date \<Rightarrow> date \<Rightarrow> f64 option" where
  "isma_year_fraction = isma_steps 500000"

section \<open>Coupon dates of a schedule\<close>

definition schedule_advance :: "schedule \<Rightarrow> date \<Rightarrow> period \<Rightarrow> date option" where
  "schedule_advance s d p = do {
     eom \<leftarrow> schedule_end_of_month s;
     advance_by_period (sched_calendar s) d p (sched_convention s) eom
   }"

text \<open>A period of the schedule that is not known to be regular: \<open>!has_is_regular() || !is_regular_at(i)\<close>.\<close>

definition irregular_at :: "schedule \<Rightarrow> nat \<Rightarrow> bool option" where
  "irregular_at s i =
     (if schedule_has_is_regular s then map_option Not (schedule_is_regular_at s i) else Some True)"

definition set_at :: "nat \<Rightarrow> 'a \<Rightarrow> 'a list \<Rightarrow> 'a list option" where
  "set_at i x xs = (if i < length xs then Some (xs[i := x]) else None)"

definition quasi_first :: "schedule \<Rightarrow> date list \<Rightarrow> date list option" where
  "quasi_first s new_dates = do {
     issue_date \<leftarrow> schedule_date s 0;
     first_coupon \<leftarrow> schedule_date s 1;
     tenor \<leftarrow> schedule_tenor s;
     back \<leftarrow> period_neg tenor;
     notional_first_coupon \<leftarrow> schedule_advance s first_coupon back;
     new_dates \<leftarrow> set_at 0 notional_first_coupon new_dates;
     if notional_first_coupon > issue_date then do {
       prior_notional_coupon \<leftarrow> schedule_advance s notional_first_coupon back;
       Some (prior_notional_coupon # new_dates)
     } else Some new_dates
   }"

definition quasi_last :: "schedule \<Rightarrow> date list \<Rightarrow> date list option" where
  "quasi_last s new_dates = do {
     let size = schedule_len s;
     assert_that (2 \<le> size);
     before \<leftarrow> schedule_date s (size - 2);
     tenor \<leftarrow> schedule_tenor s;
     notional_last_coupon \<leftarrow> schedule_advance s before tenor;
     new_dates \<leftarrow> set_at (size - 1) notional_last_coupon new_dates;
     end_date \<leftarrow> schedule_end_date s;
     if notional_last_coupon < end_date then do {
       next_notional_coupon \<leftarrow> schedule_advance s notional_last_coupon tenor;
       Some (new_dates @ [next_notional_coupon])
     } else Some new_dates
   }"

definition period_dates_including_quasi_payments :: "schedule \<Rightarrow> date list option" where
  "period_dates_including_quasi_payments s = do {
     issue_date \<leftarrow> schedule_date s 0;
     let new_dates = sched_dates s;
     irregular \<leftarrow> irregular_at s 1;
     new_dates \<leftarrow> (if irregular then quasi_first s new_dates else Some new_dates);
     irregular \<leftarrow> irregular_at s (schedule_len s - 1);
     if irregular then quasi_last s new_dates else Some new_dates
   }"

text \<open>The coupons in a year: the quotient is infinite for a period of no months, and the conversion to
  an integer saturates.\<close>

definition coupons_per_year :: "date \<Rightarrow> date \<Rightarrow> int" where
  "coupons_per_year ref_start ref_end =
     (let months = reference_months (days_between ref_start ref_end)
      in f_to_i32 (f_round (f_div (Fin 12) (f_of_int months))))"

definition year_fraction_with_reference_dates :: "date \<Rightarrow> date \<Rightarrow> date \<Rightarrow> date \<Rightarrow> f64 option" where
  "year_fraction_with_reference_dates d1 d2 d3 d4 = do {
     assert_that (d1 \<le> d2);
     let reference_day_count = days_between d3 d4;
     (reference_day_count, coupons) \<leftarrow>
       (if f_less reference_day_count (Fin 16)
        then do { e \<leftarrow> date_plus d1 one_year; Some (days_between d1 e, 1) }
        else Some (reference_day_count, coupons_per_year d3 d4));
     Some (f_div (days_between d1 d2) (f_mul reference_day_count (f_of_int coupons)))
   }"

fun sum_reference_periods :: "date \<Rightarrow> date \<Rightarrow> f64 \<Rightarrow> date list \<Rightarrow> f64 option" where
  "sum_reference_periods d1 d2 acc (start_reference_period # end_reference_period # ds) =
     (if d1 < end_reference_period \<and> d2 > start_reference_period then do {
        x \<leftarrow> year_fraction_with_reference_dates (max d1 start_reference_period) (min d2 end_reference_period)
               start_reference_period end_reference_period;
        sum_reference_periods d1 d2 (f_add acc x) (end_reference_period # ds)
      } else sum_reference_periods d1 d2 acc (end_reference_period # ds))"
| "sum_reference_periods d1 d2 acc _ = Some acc"

definition schedule_isma_ordered :: "schedule \<Rightarrow> date \<Rightarrow> date \<Rightarrow> f64 option" where
  "schedule_isma_ordered s d1 d2 = do {
     coupon_dates \<leftarrow> period_dates_including_quasi_payments s;
     assert_that (coupon_dates \<noteq> []);
     assert_that (d1 \<ge> Min (set coupon_dates) \<and> d2 \<le> Max (set coupon_dates));
     sum_reference_periods d1 d2 (Fin 0) coupon_dates
   }"

definition schedule_isma_year_fraction :: "schedule \<Rightarrow> date \<Rightarrow> date \<Rightarrow> f64 option" where
  "schedule_isma_year_fraction s d1 d2 =
     (if d1 = d2 then Some (Fin 0)
      else if d2 < d1 then map_option f_neg (schedule_isma_ordered s d2 d1)
      else schedule_isma_ordered s d1 d2)"

section \<open>The counters\<close>

definition isda_impl :: day_counter where
  "isda_impl = \<lparr>dc_name = ''Actual/Actual (ISDA)'', dc_day_count = default_day_count,
     dc_year_fraction = (\<lambda>d1 d2 _ _. isda_year_fraction d1 d2)\<rparr>"

definition afb_impl :: day_counter where
  "afb_impl = \<lparr>dc_name = ''Actual/Actual (AFB)'', dc_day_count = default_day_count,
     dc_year_fraction = (\<lambda>d1 d2 _ _. afb_year_fraction d1 d2)\<rparr>"

definition isma_impl :: day_counter where
  "isma_impl = \<lparr>dc_name = ''Actual/Actual (ISMA)'', dc_day_count = default_day_count,
     dc_year_fraction = isma_year_fraction\<rparr>"

definition schedule_isma_impl :: "schedule \<Rightarrow> day_counter" where
  "schedule_isma_impl s = \<lparr>dc_name = ''Actual/Actual (ISMA)'', dc_day_count = default_day_count,
     dc_year_fraction = (\<lambda>d1 d2 _ _. schedule_isma_year_fraction s d1 d2)\<rparr>"

fun actual_actual_with_convention :: "actual_actual_convention \<Rightarrow> day_counter" where
  "actual_actual_with_convention ActualActual_ISMA = isma_impl"
| "actual_actual_with_convention ActualActual_Bond = isma_impl"
| "actual_actual_with_convention ActualActual_ISDA = isda_impl"
| "actual_actual_with_convention ActualActual_Historical = isda_impl"
| "actual_actual_with_convention ActualActual_Actual365 = isda_impl"
| "actual_actual_with_convention ActualActual_AFB = afb_impl"
| "actual_actual_with_convention ActualActual_Euro = afb_impl"

definition actual_actual_with_schedule :: "actual_actual_convention \<Rightarrow> schedule \<Rightarrow> day_counter" where
  "actual_actual_with_schedule c s =
     (if c \<in> {ActualActual_ISMA, ActualActual_Bond} \<and> \<not> schedule_is_empty s
      then schedule_isma_impl s else actual_actual_with_convention c)"

end
