(* ===== verification/Actual_Actual_Properties.thy ===== *)
theory Actual_Actual_Properties
  imports Actual_Actual
begin

text \<open>
  The Actual/Actual counters against their definitions: ISDA weights every day by the length of its
  own year, and AFB peels whole years off the far end, always stops, and ends within a year of the start.
\<close>

section \<open>ISDA\<close>

definition day_weight :: "int \<Rightarrow> rat" where
  "day_weight s = (case date_year (Date s) of
     Some y \<Rightarrow> 1 / (if gregorian_leap y then 366 else 365) | None \<Rightarrow> 0)"

definition weight_between :: "int \<Rightarrow> int \<Rightarrow> rat" where
  "weight_between a b = (\<Sum>s\<in>{a..<b}. day_weight s)"

definition year_days :: "int \<Rightarrow> rat" where
  "year_days y = (if gregorian_leap y then 366 else 365)"

lemma year_of_day:
  assumes "1901 \<le> y" "y \<le> 2199" "days_before_year y < s" "s \<le> days_before_year (y + 1)"
  shows "date_year (Date s) = Some y"
proof -
  have "days_before_year 1901 \<le> days_before_year y" "days_before_year (y + 1) \<le> days_before_year 2200"
    using days_before_year_mono [of 1901 y] days_before_year_mono [of y 2200] days_before_year_Suc [of 1901] assms(1,2)
    by (cases "y = 1901"; simp split: if_splits)+
  then have "valid_date (Date s)" using assms(3,4) days_before_year_ends by (simp add: valid_date_iff)
  then obtain z where z: "date_year (Date s) = Some z" "1901 \<le> z" "z \<le> 2199"
    "days_before_year z < s" "s \<le> days_before_year (z + 1)"
    using date_year_correct by fastforce
  then show ?thesis using date_year_unique [OF assms(1,2) z(2,3) assms(3,4)] by simp
qed

lemma weight_split: "a \<le> b \<Longrightarrow> b \<le> c \<Longrightarrow> weight_between a c = weight_between a b + weight_between b c"
  unfolding weight_between_def
  by (subst sum.union_disjoint [symmetric]) (auto simp: ivl_disj_un)

lemma weight_within_year:
  assumes "1901 \<le> y" "y \<le> 2199" "days_before_year y < a" "a \<le> b" "b \<le> days_before_year (y + 1) + 1"
  shows "weight_between a b = of_int (b - a) / year_days y"
proof -
  have "day_weight s = 1 / year_days y" if "s \<in> {a..<b}" for s
    using year_of_day [of y s] assms that by (simp add: day_weight_def year_days_def)
  then have "weight_between a b = (\<Sum>s\<in>{a..<b}. 1 / year_days y)" unfolding weight_between_def by (rule sum.cong [OF refl])
  also have "\<dots> = of_int (b - a) / year_days y" using assms(4) by simp
  finally show ?thesis .
qed

lemma new_year: "1901 \<le> y \<Longrightarrow> y \<le> 2199 \<Longrightarrow> date_new 1 January y = Some (Date (days_before_year y + 1))"
  by (simp add: date_new_Some)

lemma year_length: "1901 \<le> y \<Longrightarrow> y \<le> 2199 \<Longrightarrow> of_int (days_before_year (y + 1) - days_before_year y) = year_days y"
  using days_before_year_Suc [of y] by (simp add: year_days_def)

lemma weight_whole_years:
  assumes "1901 \<le> y" "y + int n \<le> 2200"
  shows "weight_between (days_before_year y + 1) (days_before_year (y + int n) + 1) = of_nat n \<and>
    days_before_year y \<le> days_before_year (y + int n)"
  using assms(2)
proof (induction n)
  case 0
  then show ?case by (simp add: weight_between_def)
next
  case (Suc n)
  let ?z = "y + int n"
  have z: "1901 \<le> ?z" "?z \<le> 2199" using Suc.prems assms(1) by simp_all
  have step: "days_before_year ?z \<le> days_before_year (?z + 1)" using days_before_year_Suc [of ?z] z by (simp split: if_splits)
  have "weight_between (days_before_year ?z + 1) (days_before_year (?z + 1) + 1) = 1"
    using weight_within_year [OF z, of "days_before_year ?z + 1" "days_before_year (?z + 1) + 1"] step
      year_length [OF z] by (simp add: year_days_def split: if_splits)
  then show ?case
    using Suc.IH Suc.prems step weight_split [of "days_before_year y + 1" "days_before_year ?z + 1" "days_before_year (?z + 1) + 1"]
    by (simp add: ac_simps)
qed

lemma quotient_near_2:
  assumes "0 \<le> n" "n \<le> 366"
  shows "\<exists>q. f_div (f_of_int n) (Fin (if leap then 366 else 365)) = Fin q \<and>
    \<bar>q - of_int n / (if leap then 366 else 365)\<bar> \<le> 2 / 2 ^ 53 \<and> 0 \<le> q \<and> q \<le> 2"
proof -
  let ?D = "if leap then 366 else 365 :: rat"
  have x: "0 \<le> of_int n / ?D" "of_int n / ?D \<le> 2" using assms by simp_all
  have "f_div (f_of_int n) (Fin ?D) = Fin (rnd (of_int n / ?D))"
    using assms by (intro int_quotient_near) simp_all
  moreover have "\<bar>rnd (of_int n / ?D) - of_int n / ?D\<bar> \<le> 2 ^ 1 / 2 ^ 53" using x by (intro rnd_error_bound) simp
  moreover have "rnd (of_int n / ?D) \<le> rnd (of_int 2)" using x by (intro rnd_mono) simp
  ultimately show ?thesis using rnd_nonneg [OF x(1)] rnd_of_int [of 2] by auto
qed

lemma f_add_near:
  assumes "\<bar>x + y\<bar> \<le> 2 ^ 9"
  shows "f_add (Fin x) (Fin y) = Fin (rnd (x + y))" "\<bar>rnd (x + y) - (x + y)\<bar> \<le> 2 ^ 9 / 2 ^ 53"
proof -
  have "\<bar>x + y\<bar> \<le> 2 ^ 1000" using assms by (rule order_trans) simp
  then show "f_add (Fin x) (Fin y) = Fin (rnd (x + y))" by (simp add: fl_small)
  show "\<bar>rnd (x + y) - (x + y)\<bar> \<le> 2 ^ 9 / 2 ^ 53" using assms by (rule rnd_error_bound)
qed

lemma isda_ordered_near:
  assumes "valid_date d1" "valid_date d2" "d1 < d2"
  shows "\<exists>r. isda_ordered d1 d2 = Some (Fin r) \<and>
    \<bar>r - weight_between (serial_number d1) (serial_number d2)\<bar> \<le> 1 / 2 ^ 42"
proof -
  obtain y1 where y1: "date_year d1 = Some y1" "1901 \<le> y1" "y1 \<le> 2199"
    "days_before_year y1 < serial_number d1" "serial_number d1 \<le> days_before_year (y1 + 1)"
    using date_year_correct [OF assms(1)] by blast
  obtain y2 where y2: "date_year d2 = Some y2" "1901 \<le> y2" "y2 \<le> 2199"
    "days_before_year y2 < serial_number d2" "serial_number d2 \<le> days_before_year (y2 + 1)"
    using date_year_correct [OF assms(2)] by blast
  note leap = is_leap_closed [of y1] is_leap_closed [of y2]
  have len1: "days_before_year (y1 + 1) \<le> days_before_year y1 + 366" using days_before_year_Suc [of y1] y1 by (simp split: if_splits)
  have len2: "days_before_year (y2 + 1) \<le> days_before_year y2 + 366" using days_before_year_Suc [of y2] y2 by (simp split: if_splits)
  have lt: "serial_number d1 < serial_number d2" using assms(3) by (simp add: less_date_def)
  show ?thesis
  proof (cases "y1 = y2")
    case True
    obtain q where q: "f_div (days_between d1 d2) (Fin (if gregorian_leap y1 then 366 else 365)) = Fin q"
      "\<bar>q - of_int (date_diff d2 d1) / (if gregorian_leap y1 then 366 else 365)\<bar> \<le> 2 / 2 ^ 53"
      using quotient_near_2 [of "date_diff d2 d1" "gregorian_leap y1"] lt y1 y2 len1 True
      by (auto simp: days_between_def date_diff_def)
    have "weight_between (serial_number d1) (serial_number d2) = of_int (date_diff d2 d1) / year_days y1"
      using weight_within_year [of y1 "serial_number d1" "serial_number d2"] y1 y2 lt True by (simp add: date_diff_def)
    moreover have "2 / 2 ^ 53 \<le> (1 / 2 ^ 42 :: rat)" by simp
    ultimately show ?thesis
      using q y1 y2 leap True by (auto simp: isda_ordered_def Let_def year_days_def intro: order_trans)
  next
    case False
    then have yy: "y1 < y2" using days_before_year_mono [of y2 y1] y1 y2 lt by (cases y1 y2 rule: linorder_cases) simp_all
    let ?n1 = "days_before_year (y1 + 1) + 1 - serial_number d1" and ?n2 = "serial_number d2 - (days_before_year y2 + 1)"
    let ?k = "y2 - y1 - 1"
    obtain q1 where q1: "f_div (f_of_int ?n1) (Fin (if gregorian_leap y1 then 366 else 365)) = Fin q1"
      "\<bar>q1 - of_int ?n1 / year_days y1\<bar> \<le> 2 / 2 ^ 53" "0 \<le> q1" "q1 \<le> 2"
      using quotient_near_2 [of ?n1 "gregorian_leap y1"] y1 len1 by (auto simp: year_days_def)
    obtain q2 where q2: "f_div (f_of_int ?n2) (Fin (if gregorian_leap y2 then 366 else 365)) = Fin q2"
      "\<bar>q2 - of_int ?n2 / year_days y2\<bar> \<le> 2 / 2 ^ 53" "0 \<le> q2" "q2 \<le> 2"
      using quotient_near_2 [of ?n2 "gregorian_leap y2"] y2 len2 by (auto simp: year_days_def)
    have k: "0 \<le> ?k" "?k \<le> 300" using yy y1 y2 by simp_all
    then have kr: "0 \<le> (of_int ?k :: rat)" "(of_int ?k :: rat) \<le> 300" by linarith+
    have fk: "f_of_int ?k = Fin (of_int ?k)" using k by (intro f_of_int) simp
    let ?s = "rnd (of_int ?k + q1)"
    have s: "f_add (f_of_int ?k) (Fin q1) = Fin ?s" "\<bar>?s - (of_int ?k + q1)\<bar> \<le> 2 ^ 9 / 2 ^ 53"
      using f_add_near [of "of_int ?k" q1] kr q1 unfolding fk by simp_all
    have "?s - (of_int ?k + q1) \<le> 2 ^ 9 / 2 ^ 53" using s(2) by (rule abs_le_D1)
    moreover have "2 ^ 9 / 2 ^ 53 \<le> (1 :: rat)" by simp
    ultimately have "?s \<le> of_int ?k + q1 + 1" by linarith
    moreover have "0 \<le> ?s" using kr q1 by (intro rnd_nonneg) simp
    ultimately have r: "f_add (Fin ?s) (Fin q2) = Fin (rnd (?s + q2))" "\<bar>rnd (?s + q2) - (?s + q2)\<bar> \<le> 2 ^ 9 / 2 ^ 53"
      using f_add_near [of ?s q2] kr q1 q2 by simp_all
    have w: "weight_between (serial_number d1) (serial_number d2) =
        of_int ?n1 / year_days y1 + of_int ?k + of_int ?n2 / year_days y2"
    proof -
      have m: "days_before_year (y1 + 1) \<le> days_before_year y2"
        "weight_between (days_before_year (y1 + 1) + 1) (days_before_year y2 + 1) = of_int ?k"
        using weight_whole_years [of "y1 + 1" "nat ?k"] k y1 y2 by simp_all
      have "weight_between (serial_number d1) (days_before_year (y1 + 1) + 1) = of_int ?n1 / year_days y1"
        using weight_within_year [of y1] y1 by simp
      moreover have "weight_between (days_before_year y2 + 1) (serial_number d2) = of_int ?n2 / year_days y2"
        using weight_within_year [of y2] y2 by simp
      ultimately show ?thesis
        using m weight_split [of "serial_number d1" "days_before_year (y1 + 1) + 1" "serial_number d2"]
          weight_split [of "days_before_year (y1 + 1) + 1" "days_before_year y2 + 1" "serial_number d2"] y1 y2 by simp
    qed
    have "\<bar>rnd (?s + q2) - weight_between (serial_number d1) (serial_number d2)\<bar> \<le>
        2 / 2 ^ 53 + 2 / 2 ^ 53 + 2 ^ 9 / 2 ^ 53 + 2 ^ 9 / 2 ^ 53"
      unfolding w using q1(2) q2(2) s(2) r(2) unfolding abs_le_iff by linarith
    also have "\<dots> \<le> (1 / 2 ^ 42 :: rat)" by simp
    finally have "\<bar>rnd (?s + q2) - weight_between (serial_number d1) (serial_number d2)\<bar> \<le> 1 / 2 ^ 42" .
    moreover have "isda_ordered d1 d2 = Some (Fin (rnd (?s + q2)))"
      using False yy y1 y2 leap s(1) r(1) q1(1) q2(1) new_year [of "y1 + 1"] new_year [of y2]
      by (simp add: isda_ordered_def Let_def days_between_def date_diff_def fk)
    ultimately show ?thesis by blast
  qed
qed

lemma weight_between_new_years:
  assumes "date_new 1 January y1 = Some d1" "date_new 1 January y2 = Some d2" "d1 \<le> d2"
  shows "weight_between (serial_number d1) (serial_number d2) = of_int (y2 - y1)"
proof -
  have y: "1901 \<le> y1" "y1 \<le> 2199" "1901 \<le> y2" "y2 \<le> 2199" and d: "d1 = Date (days_before_year y1 + 1)" "d2 = Date (days_before_year y2 + 1)"
    using assms(1,2) by (auto simp: date_new_Some)
  show ?thesis
  proof (cases "y1 \<le> y2")
    case True
    then show ?thesis using weight_whole_years [of y1 "nat (y2 - y1)"] y d by simp
  next
    case False
    then have "weight_between (days_before_year y2 + 1) (days_before_year y1 + 1) = of_int (y1 - y2)"
      "days_before_year y2 \<le> days_before_year y1"
      using weight_whole_years [of y2 "nat (y1 - y2)"] y by simp_all
    moreover have "days_before_year y1 \<le> days_before_year y2" using assms(3) d by (simp add: less_eq_date_def)
    ultimately show ?thesis using d False by (simp add: weight_between_def)
  qed
qed

text \<open>C19. The ISDA counter gives every day the weight of its own calendar year: between two supported
  dates in order the year fraction is finite and within \<open>2 ^ -42\<close> of the sum, over the days from the
  first to before the second, of one over the days in the year of that day, and exchanging the dates
  changes its sign. A period from one new year to another is exactly the number of years between them by that sum.\<close>

theorem isda_weights_days_by_their_year:
  assumes "valid_date d1" "valid_date d2" "d1 \<le> d2"
  shows "(\<exists>r. year_fraction (actual_actual_with_convention ActualActual_ISDA) d1 d2 = Some (Fin r) \<and>
      year_fraction (actual_actual_with_convention ActualActual_ISDA) d2 d1 = Some (Fin (- r)) \<and>
      \<bar>r - weight_between (serial_number d1) (serial_number d2)\<bar> \<le> 1 / 2 ^ 42) \<and>
    (\<forall>y1 y2. date_new 1 January y1 = Some d1 \<and> date_new 1 January y2 = Some d2 \<longrightarrow>
      weight_between (serial_number d1) (serial_number d2) = of_int (y2 - y1))"
proof (rule conjI)
  show "\<exists>r. year_fraction (actual_actual_with_convention ActualActual_ISDA) d1 d2 = Some (Fin r) \<and>
      year_fraction (actual_actual_with_convention ActualActual_ISDA) d2 d1 = Some (Fin (- r)) \<and>
      \<bar>r - weight_between (serial_number d1) (serial_number d2)\<bar> \<le> 1 / 2 ^ 42"
  proof (cases "d1 = d2")
    case True
    then show ?thesis by (simp add: year_fraction_def isda_impl_def isda_year_fraction_def weight_between_def)
  next
    case False
    then have "d1 < d2" using assms(3) by simp
    then show ?thesis using isda_ordered_near [OF assms(1,2)] False
      by (auto simp: year_fraction_def isda_impl_def isda_year_fraction_def)
  qed
qed (use weight_between_new_years assms(3) in blast)

lemma isda_weights_days_by_their_year_witness:
  "\<exists>r. year_fraction (actual_actual_with_convention ActualActual_ISDA) (Date 40000) (Date 40500) = Some (Fin r) \<and>
    \<bar>r - weight_between 40000 40500\<bar> \<le> 1 / 2 ^ 42"
  using isda_weights_days_by_their_year [of "Date 40000" "Date 40500"]
  by (auto simp: valid_date_iff less_eq_date_def)

section \<open>AFB\<close>

lemma february_29: "gregorian_leap y \<Longrightarrow> \<not> gregorian_leap (y - 1)"
proof
  assume "gregorian_leap y" "gregorian_leap (y - 1)"
  then have "4 dvd y" "4 dvd y - 1" by (simp_all add: gregorian_leap_def)
  then have "4 dvd y - (y - 1)" by (rule dvd_diff)
  then show False by simp
qed

lemma leap_shift:
  assumes "leap \<Longrightarrow> \<not> before" "dd \<le> mlen m leap"
  shows "dd + moff m leap - ((if (if dd = 29 \<and> m = February \<and> \<not> before then 28 else dd) = 28 \<and> m = February \<and> before
      then 29 else if dd = 29 \<and> m = February \<and> \<not> before then 28 else dd) + moff m before) +
    (if before then 366 else 365) \<le> 366"
  using assms by (cases m; cases leap; cases before) auto

lemma afb_year_before_Some:
  assumes d: "date_new dd m y = Some d" and y: "1902 \<le> y"
  shows "\<exists>t. afb_year_before d = Some t \<and> valid_date t \<and> date_year t = Some (y - 1) \<and> date_diff d t \<le> 366"
proof -
  note f = civil_facts [OF d]
  have leap: "is_leap (y - 1) = Some (gregorian_leap (y - 1))" using f y by (intro is_leap_closed) simp_all
  have yr: "i32_range (y - 1)" using f by (simp add: i32_range_def)
  let ?dd = "if dd = 29 \<and> m = February \<and> \<not> gregorian_leap (y - 1) then 28 else dd"
  have dd: "?dd \<le> mlen m (gregorian_leap (y - 1))" using f(7) by (cases m) (auto split: if_splits)
  then obtain temp where temp: "date_new ?dd m (y - 1) = Some temp" using f y by (auto simp: date_new_Some)
  have adv: "date_minus d one_year = Some temp"
    using f y temp leap yr by (simp add: date_minus_def i32_def i32_range_def)
  note g = civil_facts [OF temp]
  let ?leap = "?dd = 28 \<and> m = February \<and> gregorian_leap (y - 1)"
  let ?t = "if ?leap then Date (serial_number temp + 1) else temp"
  have new: "date_new (if ?leap then 29 else ?dd) m (y - 1) = Some ?t"
    using temp by (auto simp: date_new_Some)
  have "afb_year_before d = Some ?t"
  proof (cases ?leap)
    case True
    have "valid_date ?t" by (rule date_new_valid [OF new])
    then have "valid_date (Date (serial_number temp + 1))" unfolding if_P [OF True] .
    then have "date_add temp 1 = Some (Date (serial_number temp + 1))"
      using date_add_Some [OF date_new_valid [OF temp]] by simp
    then show ?thesis using True g leap by (simp add: afb_year_before_def adv)
  next
    case False
    then show ?thesis using g leap by (auto simp: afb_year_before_def adv)
  qed
  moreover have "date_diff d ?t \<le> 366"
    using d new days_before_year_Suc [of "y - 1"] y february_29 [of y]
    by (cases m) (auto simp: date_new_Some date_diff_def split: if_splits)
  ultimately show ?thesis using date_new_valid [OF new] civil_facts(3) [OF new] by blast
qed

lemma afb_loop_peels:
  assumes "valid_date d1" "date_year d1 = Some y1" "1902 \<le> y1"
    and "valid_date e" "d1 \<le> e" "date_year e = Some y" "0 \<le> k" "k + y \<le> 2 ^ 20"
  shows "\<exists>e' n. afb_loop d1 e e (Fin (of_int k)) = Some (e', Fin (of_int (k + n))) \<and> valid_date e' \<and>
    d1 \<le> e' \<and> e' \<le> e \<and> date_diff e' d1 \<le> 365 \<and> 0 \<le> n \<and> date_year e' = Some (y - n)"
  using assms(4-8)
proof (induction "nat (serial_number e)" arbitrary: e y k rule: less_induct)
  case less
  show ?case
  proof (cases "d1 = e")
    case True
    then have "afb_loop d1 e e (Fin (of_int k)) = Some (e, Fin (of_int k))" by (subst afb_loop.simps) simp
    then show ?thesis using True less.prems by (intro exI [of _ e] exI [of _ 0]) (simp add: date_diff_def)
  next
    case False
    then have lt: "d1 < e" using less.prems(2) by simp
    obtain dd m z where e: "date_new dd m z = Some e" using valid_date_new_ex [OF less.prems(1)] by blast
    have z: "z = y" using civil_facts(3) [OF e] less.prems(3) by simp
    obtain dd1 m1 z1 where d1: "date_new dd1 m1 z1 = Some d1" using valid_date_new_ex [OF assms(1)] by blast
    have y: "y1 \<le> y" using date_less_civil [OF d1 e] lt civil_facts(3) [OF d1] assms(2) z by auto
    obtain t where t: "afb_year_before e = Some t" "valid_date t" "date_year t = Some (y - 1)" "date_diff e t \<le> 366"
      using afb_year_before_Some [OF e] assms(3) y z by auto
    have te: "t < e" by (rule afb_year_before_less [OF t(1)])
    show ?thesis
    proof (cases "d1 \<le> t")
      case True
      have "k + 1 < 2 ^ 53" using less.prems(5) y assms(3) by simp
      then have acc: "fl (of_int k + 1) = Fin (of_int k + 1)"
        using f_of_int [of "k + 1"] less.prems(4) by (simp add: f_of_int_def)
      have "nat (serial_number t) < nat (serial_number e)"
        using te t(2) less.prems(1) by (simp add: less_date_def valid_date_iff)
      from less.hyps [OF this t(2) True t(3), of "k + 1"]
      obtain e' n where IH: "afb_loop d1 t t (Fin (of_int (k + 1))) = Some (e', Fin (of_int (k + 1 + n)))" "valid_date e'"
        "d1 \<le> e'" "e' \<le> t" "date_diff e' d1 \<le> 365" "0 \<le> n" "date_year e' = Some (y - 1 - n)"
        using less.prems by auto
      have "afb_loop d1 e e (Fin (of_int k)) = Some (e', Fin (of_int (k + (n + 1))))"
      proof -
        have "afb_loop d1 t t (Fin (of_int k + 1)) = Some (e', Fin (of_int k + (of_int n + 1)))"
          using IH(1) by (simp add: ac_simps)
        then show ?thesis by (subst afb_loop.simps) (simp add: lt t True acc)
      qed
      then show ?thesis using IH te by (intro exI [of _ e'] exI [of _ "n + 1"]) (auto simp: algebra_simps)
    next
      case False
      then have "\<not> d1 < t" by simp
      then have "afb_loop d1 t e (Fin (of_int k)) = Some (e, Fin (of_int k))" by (subst afb_loop.simps) simp
      then have "afb_loop d1 e e (Fin (of_int k)) = Some (e, Fin (of_int k))"
        by (subst afb_loop.simps) (simp add: lt t(1) False)
      moreover have "date_diff e d1 \<le> 365" using False t(4) by (simp add: date_diff_def less_eq_date_def)
      ultimately show ?thesis using less.prems by (intro exI [of _ e] exI [of _ 0]) simp
    qed
  qed
qed

lemma afb_denominator_Some:
  assumes "valid_date d1" "valid_date e"
  shows "\<exists>D. afb_denominator d1 e = Some (Fin D) \<and> 365 \<le> D \<and> D \<le> 366"
proof -
  obtain dd1 m1 y1 dd m y where d: "date_new dd1 m1 y1 = Some d1" "date_new dd m y = Some e"
    using assms valid_date_new_ex by meson
  note f = civil_facts [OF d(1)] civil_facts [OF d(2)]
  have "f_add (Fin 365) (Fin 1) = Fin 366" using f_of_int [of 366] by (simp add: f_of_int_def)
  moreover have "gregorian_leap z \<Longrightarrow> 1901 \<le> z \<Longrightarrow> z \<le> 2199 \<Longrightarrow> \<exists>t. date_new 29 February z = Some t" for z
    by (simp add: date_new_Some)
  ultimately show ?thesis
    using f is_leap_closed [of y1] is_leap_closed [of y] by (fastforce simp: afb_denominator_def)
qed

text \<open>The loop of the AFB counter ends and peels whole years off the far end: from a start date after
  1901 it stops at a date at or after the start and at most 365 days from it, having counted exactly
  the calendar years it went back, and the year fraction lies between that number of years and the
  next.\<close>

lemma afb_peels_whole_years:
  assumes "valid_date d1" "valid_date d2" "d1 \<le> d2" "date_year d1 = Some y1" "1901 < y1" "date_year d2 = Some y2"
  shows "\<exists>e n r. afb_loop d1 d2 d2 (Fin 0) = Some (e, Fin (of_int n)) \<and> d1 \<le> e \<and> e \<le> d2 \<and>
    date_diff e d1 \<le> 365 \<and> 0 \<le> n \<and> date_year e = Some (y2 - n) \<and>
    afb_ordered d1 d2 = Some (Fin r) \<and> of_int n \<le> r \<and> r \<le> of_int n + 1"
proof -
  obtain z2 where "date_year d2 = Some z2" "1901 \<le> z2" "z2 \<le> 2199" using date_year_correct [OF assms(2)] by blast
  then have y2: "1901 \<le> y2" "y2 \<le> 2199" using assms(6) by simp_all
  obtain e n where e: "afb_loop d1 d2 d2 (Fin 0) = Some (e, Fin (of_int n))" "valid_date e" "d1 \<le> e" "e \<le> d2"
    "date_diff e d1 \<le> 365" "0 \<le> n" "date_year e = Some (y2 - n)"
    using afb_loop_peels [OF assms(1,4) _ assms(2,3,6), of 0] assms(5) y2 by auto
  obtain z where "date_year e = Some z" "1901 \<le> z" using date_year_correct [OF e(2)] by blast
  then have n: "n \<le> 300" using e(7) y2 by simp
  obtain D where D: "afb_denominator d1 e = Some (Fin D)" "365 \<le> D" "D \<le> 366"
    using afb_denominator_Some [OF assms(1) e(2)] by blast
  have m: "0 \<le> date_diff e d1" "\<bar>date_diff e d1\<bar> \<le> 2 ^ 20" using e(3,5) by (simp_all add: date_diff_def less_eq_date_def)
  then have q: "f_div (days_between d1 e) (Fin D) = Fin (rnd (of_int (date_diff e d1) / D))"
    unfolding days_between_def using D by (intro int_quotient_near) simp_all
  have "of_int (date_diff e d1) \<le> (365 :: rat)" using e(5) by simp
  then have "of_int (date_diff e d1) / D \<le> 1" using D by simp
  then have q1: "rnd (of_int (date_diff e d1) / D) \<le> 1" using rnd_mono [of _ 1] rnd_of_int [of 1] by simp
  have q0: "0 \<le> rnd (of_int (date_diff e d1) / D)" using m D by (intro rnd_nonneg) simp
  let ?r = "rnd (of_int n + rnd (of_int (date_diff e d1) / D))"
  have nr: "0 \<le> (of_int n :: rat)" "of_int n \<le> (300 :: rat)" using e(6) n by simp_all
  then have "f_add (Fin (of_int n)) (Fin (rnd (of_int (date_diff e d1) / D))) = Fin ?r"
    using q0 q1 by (intro f_add_near(1)) simp
  then have "afb_ordered d1 d2 = Some (Fin ?r)" using e(1) D q by (simp add: afb_ordered_def)
  moreover have "of_int n \<le> ?r" "?r \<le> of_int n + 1"
    using rnd_mono [of "of_int n" "of_int n + rnd (of_int (date_diff e d1) / D)"]
      rnd_mono [of "of_int n + rnd (of_int (date_diff e d1) / D)" "of_int (n + 1)"]
      rnd_of_int [of n] rnd_of_int [of "n + 1"] q0 q1 e(6) n by simp_all
  ultimately show ?thesis using e by blast
qed

end
