(* ===== verification/Isma_Properties.thy ===== *)
theory Isma_Properties
  imports Actual_Actual
begin

text \<open>
  The two ISMA algorithms: a full coupon period of a schedule counts for exactly its share of the year,
  and the recursion of the reference-period counter stays within its fuel, by a measure of its
  arguments that every nested call decreases.
\<close>

section \<open>Coupon periods of a schedule\<close>

lemma month_start_long_span:
  assumes "first_month \<le> t" "t + int n \<le> last_month + 1"
  shows "30 * int n - 2 * ((t + int n + 10) div 12 - (t + 10) div 12) \<le> month_start (t + int n) - month_start t"
  using assms
proof (induction n)
  case (Suc n)
  let ?u = "t + int n"
  have s: "month_start (t + int (Suc n)) = month_start ?u + month_days ?u"
    using month_start_Suc [of ?u] Suc.prems by (simp add: ac_simps)
  have "30 \<le> month_days ?u + 2 * ((?u + 11) div 12 - (?u + 10) div 12)"
  proof (cases "?u mod 12 = 1")
    case True
    then obtain q where "?u = 12 * q + 1" by (metis mult_div_mod_eq)
    then have "?u + 11 = 12 * (q + 1)" "?u + 10 = 12 * q + 11" by simp_all
    then have "(?u + 11) div 12 = q + 1" "(?u + 10) div 12 = q" by simp_all
    then have "(?u + 11) div 12 = (?u + 10) div 12 + 1" by simp
    then show ?thesis using month_days_bounds(1) [of ?u] by simp
  next
    case False
    then have "index_month ?u \<noteq> February" by (simp add: index_month_cases)
    then have "30 \<le> month_days ?u" unfolding month_days_def by (cases "index_month ?u") simp_all
    moreover have "(?u + 10) div 12 \<le> (?u + 11) div 12" by (rule zdiv_mono1) simp_all
    ultimately show ?thesis by simp
  qed
  then show ?case using Suc.IH Suc.prems unfolding s by (simp add: algebra_simps)
qed simp

lemma month_span_days:
  assumes d3: "valid_date d3" and k: "1 \<le> k" "k \<le> 12" and d4: "date_plus d3 (period_new k Months) = Some d4"
  shows "30 * k - 5 \<le> date_diff d4 d3" "date_diff d4 d3 \<le> 31 * k"
proof -
  obtain dd m y where e: "date_new dd m y = Some d3" using valid_date_new_ex [OF d3] by blast
  let ?t = "month_index m y"
  have r: "i32_range (month_ordinal m + k)" using month_ordinal_range [of m] k by (simp add: i32_range_def)
  have f: "date_new (clip_day dd (index_month (?t + k)) ((?t + k) div 12)) (index_month (?t + k)) ((?t + k) div 12) = Some d4"
    using d4 date_advance_months [OF e r] by (simp add: date_plus_def Let_def split: if_splits)
  have mi: "month_index (index_month (?t + k)) ((?t + k) div 12) = ?t + k"
    by (simp add: month_index_def index_month_ordinal)
  have t: "first_month \<le> ?t" "dd \<le> month_days ?t" "serial_number d3 = month_start ?t + dd" "1 \<le> dd"
    using e by (auto simp: date_new_month_start)
  have u: "?t + k \<le> last_month" "serial_number d4 = month_start (?t + k) + clip_day dd (index_month (?t + k)) ((?t + k) div 12)"
    using f mi by (auto simp: date_new_month_start)
  have c: "clip_day dd (index_month (?t + k)) ((?t + k) div 12) = min dd (month_days (?t + k))"
    by (simp add: clip_day_def month_days_def)
  have b: "dd \<le> 31" "28 \<le> month_days (?t + k)" using t(2) month_days_bounds order_trans by blast+
  have "30 * k - 2 * ((?t + k + 10) div 12 - (?t + 10) div 12) \<le> month_start (?t + k) - month_start ?t"
    using month_start_long_span [of ?t "nat k"] t u k by simp
  moreover have "(?t + k + 10) div 12 - (?t + 10) div 12 \<le> 1"
  proof -
    have "(?t + k + 10) div 12 \<le> (?t + 10 + 12) div 12" using k by (intro zdiv_mono1) simp_all
    also have "\<dots> = (?t + 10) div 12 + 1" by simp
    finally show ?thesis by simp
  qed
  ultimately show "30 * k - 5 \<le> date_diff d4 d3" using t u c b by (simp add: date_diff_def)
  show "date_diff d4 d3 \<le> 31 * k"
    using month_start_less [of ?t "?t + k"] t u c k by (simp add: date_diff_def)
qed

lemma days_between_Fin: "\<bar>date_diff b a\<bar> \<le> 200000 \<Longrightarrow> days_between a b = Fin (of_int (date_diff b a))"
  by (simp add: days_between_def f_of_int)

lemma fl_of_int: "\<bar>i\<bar> < 2 ^ 53 \<Longrightarrow> fl (of_int i) = Fin (of_int i)"
  using f_of_int [of i] by (simp add: f_of_int_def)

lemma coupons_of_months:
  assumes "k \<in> {1, 2, 3, 4, 6, 12}" "reference_months (days_between d3 d4) = k"
  shows "coupons_per_year d3 d4 = 12 div k"
proof -
  have k: "f_of_int k = Fin (of_int k)" "12 / of_int k = (of_int (12 div k) :: rat)" "0 < 12 div k" "12 div k < 20"
    using assms(1) f_of_int [of k] by auto
  then have f: "fl (of_int (12 div k)) = Fin (of_int (12 div k))" by (intro fl_of_int) simp
  have r: "round_half_away (of_int (12 div k)) = 12 div k"
    using k(3) by (intro round_half_awayI) simp_all
  have "k \<noteq> 0" using assms(1) by auto
  then have "f_div (Fin 12) (Fin (of_int k)) = Fin (of_int (12 div k))" by (simp add: k(2) f del: of_int_div)
  then show ?thesis using k(3,4) by (simp add: coupons_per_year_def assms(2) Let_def k(1) r)
qed

text \<open>Over a schedule, a full coupon period of one, two, three, four, six or twelve months counts for
  exactly its share of the year: whatever days it has, its months are recognised, and its year
  fraction is the floating-point number nearest to the months over twelve.\<close>

lemma coupon_period_is_its_share_of_the_year:
  assumes "valid_date d3" "k \<in> {1, 2, 3, 4, 6, 12}" "date_plus d3 (period_new k Months) = Some d4"
  shows "year_fraction_with_reference_dates d3 d4 d3 d4 = Some (fl (of_int k / 12))"
proof -
  let ?n = "date_diff d4 d3"
  have k: "1 \<le> k" "k \<le> 12" using assms(2) by auto
  have n: "30 * k - 5 \<le> ?n" "?n \<le> 31 * k" by (rule month_span_days [OF assms(1) k assms(3)])+
  have "730 * k \<le> 24 * ?n + 365" "24 * ?n + 365 < 730 * (k + 1)" using n assms(2) by auto
  then have "(24 * ?n + 365) div 730 = k" by (intro div_eqI [of _ _ _ "24 * ?n + 365 - 730 * k"]) simp_all
  then have "reference_months (days_between d3 d4) = k"
    using reference_months_eq [of ?n] n k by (simp add: days_between_def)
  then have c: "coupons_per_year d3 d4 = 12 div k" by (rule coupons_of_months [OF assms(2)])
  have ord: "d3 \<le> d4" using n k by (simp add: date_diff_def less_eq_date_def)
  have fn: "days_between d3 d4 = Fin (of_int ?n)" using n k by (intro days_between_Fin) simp
  have fc: "f_of_int (12 div k) = Fin (of_int (12 div k))" using assms(2) by (intro f_of_int) auto
  have "?n * (12 div k) \<le> 400 * 12" using n k assms(2) by (intro mult_mono) auto
  then have fm: "fl (of_int (?n * (12 div k))) = Fin (of_int (?n * (12 div k)))"
    using n k assms(2) by (intro fl_of_int) (auto simp: abs_mult)
  have pos: "25 \<le> (of_int ?n :: rat)" using n k by simp
  have q: "of_int ?n / (of_int ?n * of_int (12 div k)) = (of_int k / 12 :: rat)" "(of_int (12 div k) :: rat) \<noteq> 0"
    using assms(2) pos by auto
  have d: "f_div (Fin (of_int ?n)) (f_mul (Fin (of_int ?n)) (Fin (of_int (12 div k)))) = fl (of_int k / 12)"
    using fm pos unfolding of_int_mult f_mul.simps by (simp only: f_div.simps q) (use q pos in \<open>simp\<close>)
  show ?thesis
    using ord pos d by (simp add: year_fraction_with_reference_dates_def fn c fc)
qed

text \<open>A reference period of more than two years and two weeks makes the number of coupons in a year zero, and
  the year fraction infinite.\<close>

lemma long_coupon_period_is_infinite:
  assumes "valid_date d1" "valid_date d2" "d1 < d2" "valid_date d3" "valid_date d4" "746 \<le> date_diff d4 d3"
  shows "year_fraction_with_reference_dates d1 d2 d3 d4 = Some Infinity"
proof -
  let ?n = "date_diff d4 d3"
  define m where "m = (24 * ?n + 365) div 730"
  have n: "?n \<le> 200000" using assms(4,5) by (simp add: valid_date_iff date_diff_def)
  have "730 * m + (24 * ?n + 365) mod 730 = 24 * ?n + 365" by (simp add: m_def)
  moreover have "0 \<le> (24 * ?n + 365) mod 730" "(24 * ?n + 365) mod 730 < 730" by simp_all
  ultimately have m: "25 \<le> m" "m \<le> 10000" using assms(6) n by linarith+
  have "reference_months (days_between d3 d4) = m"
    using reference_months_eq [of ?n] assms(6) n by (simp add: days_between_def m_def)
  moreover have fm: "f_of_int m = Fin (of_int m)" using m by (intro f_of_int) simp
  moreover have "round_half_away (rnd (12 / of_int m)) = 0"
  proof -
    have x: "12 / of_int m \<le> (31 / 64 :: rat)" "0 \<le> (12 / of_int m :: rat)" using m by (simp_all add: field_simps)
    have "rnd (31 / 64) = 31 / 64" by (rule rnd_representable [of _ 31 "-6"]) (simp_all add: power_int_def power_one_over)
    then have "rnd (12 / of_int m) \<le> 31 / 64" using rnd_mono [OF x(1)] by simp
    then show ?thesis using rnd_nonneg [OF x(2)] by (intro round_half_awayI) simp_all
  qed
  moreover have "fl (12 / of_int m) = Fin (rnd (12 / of_int m))"
  proof (rule fl_small)
    have "\<bar>12 / of_int m\<bar> \<le> (1 :: rat)" using m by simp
    then show "\<bar>12 / of_int m\<bar> \<le> (2 :: rat) ^ 1000" by (rule order_trans) simp
  qed
  ultimately have "coupons_per_year d3 d4 = 0" using m by (simp add: coupons_per_year_def)
  moreover have "days_between d3 d4 = Fin (of_int ?n)" using assms(6) n by (intro days_between_Fin) simp
  moreover have "days_between d1 d2 = Fin (of_int (date_diff d2 d1))"
    using assms(1,2) by (intro days_between_Fin) (auto simp: valid_date_iff date_diff_def)
  moreover have "0 < (of_int (date_diff d2 d1) :: rat)" using assms(3) by (simp add: date_diff_def less_date_def)
  moreover have "16 \<le> (of_int ?n :: rat)" using assms(6) by linarith
  ultimately show ?thesis
    using assms(3) fl_of_int [of 0] by (simp add: year_fraction_with_reference_dates_def f_of_int signed_infinity_def)
qed

section \<open>The recursion of the ISMA counter\<close>

lemma months_of_period:
  assumes "valid_date a" "valid_date b" "a < b"
  shows "reference_months (days_between a b) = (24 * date_diff b a + 365) div 730"
    "0 \<le> reference_months (days_between a b)" "reference_months (days_between a b) = 0 \<Longrightarrow> date_diff b a \<le> 15"
    "reference_months (days_between a b) \<le> 10000"
proof -
  have n: "0 \<le> date_diff b a" "date_diff b a \<le> 200000" using assms by (simp_all add: valid_date_iff date_diff_def less_date_def)
  show eq: "reference_months (days_between a b) = (24 * date_diff b a + 365) div 730"
    unfolding days_between_def by (rule reference_months_eq [OF n])
  show "0 \<le> reference_months (days_between a b)" unfolding eq using n by (simp add: pos_imp_zdiv_nonneg_iff)
  have "(24 * date_diff b a + 365) div 730 \<le> (24 * 200000 + 365) div 730" using n by (intro zdiv_mono1) simp_all
  then show "reference_months (days_between a b) \<le> 10000" unfolding eq by simp
  assume "reference_months (days_between a b) = 0"
  then show "date_diff b a \<le> 15" unfolding eq using n by (auto simp: zdiv_eq_0_iff)
qed

lemma year_later:
  assumes "valid_date d" "date_plus d one_year = Some e"
  shows "valid_date e" "d < e" "15 < date_diff e d"
proof -
  obtain dd m y where d: "date_new dd m y = Some d" using valid_date_new_ex [OF assms(1)] by blast
  have "i32_range (y + 1)" "i32_range (month_ordinal m + 12 * 1)" using civil_facts(4,5) [OF d] month_ordinal_range [of m] by (auto simp: i32_range_def)
  then have "date_plus d (period_new 12 Months) = Some e"
    using assms(2) date_advance_years_months [OF d, of 1] by (simp add: date_plus_def del: date_advance.simps)
  from month_span_days(1) [OF assms(1) _ _ this] show "15 < date_diff e d" by simp
  then show "d < e" by (simp add: date_diff_def less_date_def)
  show "valid_date e"
    using assms(2) date_advance_years [OF d \<open>i32_range (y + 1)\<close>] date_new_valid
    by (auto simp: date_plus_def simp del: date_advance.simps split: if_splits)
qed

lemma months_earlier:
  assumes "valid_date d" "1 \<le> k" "k \<le> 10000" "date_minus d (period_new k Months) = Some e"
  shows "valid_date e" "e < d"
proof -
  obtain dd m y where d: "date_new dd m y = Some d" using valid_date_new_ex [OF assms(1)] by blast
  have r: "i32_range (month_ordinal m + - k)" using month_ordinal_range [of m] assms(2,3) by (simp add: i32_range_def)
  let ?t = "month_index m y + - k"
  have e: "date_new (clip_day dd (index_month ?t) (?t div 12)) (index_month ?t) (?t div 12) = Some e"
    using assms(2-4) date_advance_months [OF d r]
    by (auto simp: date_minus_def bind_eq_Some_conv Let_def simp del: date_advance.simps split: if_splits)
  show "valid_date e" by (rule date_new_valid [OF e])
  have "month_index (index_month ?t) (?t div 12) = ?t" by (simp add: month_index_def index_month_ordinal)
  then show "e < d" using date_month_index_less [OF e d] assms(2) by simp
qed

lemma date_plus_months_valid:
  assumes "valid_date d" "date_plus d (period_new n Months) = Some e"
  shows "valid_date e"
proof -
  obtain dd m y where "date_new dd m y = Some e"
    using assms(2) by (auto simp: date_plus_def bind_eq_Some_conv Let_def case_prod_unfold)
  then show ?thesis by (rule date_new_valid)
qed

lemma whole_periods_bracket:
  assumes "whole_periods d2 ref_end months period acc i = Some (s, a, b)" "valid_date ref_end"
    and "\<And>n e. i32 (months * i) = Some n \<Longrightarrow> date_plus ref_end (period_new n Months) = Some e \<Longrightarrow> e \<le> d2"
  shows "valid_date a \<and> valid_date b \<and> a \<le> d2 \<and> d2 < b"
  using assms
proof (induction d2 ref_end months period acc i rule: whole_periods.induct)
  case (1 d2 ref_end months period acc i)
  obtain n nrs i1 n1 nre where s: "i32 (months * i) = Some n" "date_plus ref_end (period_new n Months) = Some nrs"
    "i32 (i + 1) = Some i1" "i32 (months * i1) = Some n1" "date_plus ref_end (period_new n1 Months) = Some nre"
    and r: "(if d2 < nre then Some (acc, nrs, nre) else whole_periods d2 ref_end months period (f_add acc period) i1) = Some (s, a, b)"
    using 1(2) by (subst (asm) whole_periods.simps) (auto simp: bind_eq_Some_conv simp del: i32_eq_Some)
  show ?case
  proof (cases "d2 < nre")
    case True
    then show ?thesis using r s 1(3,4) date_plus_months_valid [OF 1(3)] by auto
  next
    case False
    have "valid_date a \<and> valid_date b \<and> a \<le> d2 \<and> d2 < b"
      by (rule 1(1) [OF s(1-5) False _ 1(3)]) (use r False s in \<open>auto simp del: i32_eq_Some\<close>)
    then show ?thesis .
  qed
qed

text \<open>How much recursion the arguments can still cause: the distance of the start of the reference period
  beyond the first date, then whether the last date is beyond the reference period, then whether the
  dates are out of order.\<close>

definition isma_size :: "date \<Rightarrow> date \<Rightarrow> date \<Rightarrow> date \<Rightarrow> nat" where
  "isma_size d1 d2 rs re =
     4 * (if rs = date_null then 0 else nat (serial_number rs - serial_number (min d1 d2))) +
     (if re \<noteq> date_null \<and> re < max d1 d2 then 2 else 0) + (if d2 < d1 then 1 else 0)"

definition given_date :: "date \<Rightarrow> bool" where
  "given_date d \<longleftrightarrow> valid_date d \<or> d = date_null"

lemma valid_is_not_null: "valid_date d \<Longrightarrow> d \<noteq> date_null"
  by (auto simp: valid_date_iff date_null_def)

lemma isma_size_ordered:
  "d1 \<le> d2 \<Longrightarrow> isma_size d1 d2 p q =
     4 * (if p = date_null then 0 else nat (serial_number p - serial_number d1)) + (if q \<noteq> date_null \<and> q < d2 then 2 else 0)"
  by (simp add: isma_size_def min_absorb1 max_absorb2)

lemma isma_size_swap: "d2 < d1 \<Longrightarrow> isma_size d1 d2 p q = Suc (isma_size d2 d1 p q)"
  by (simp add: isma_size_def min.commute max.commute)

lemma isma_reference_cases:
  assumes "valid_date d1" "valid_date d2" "d1 < d2" "given_date rs" "given_date re"
    and "isma_reference d1 d2 rs re = Some (Inr (s, e, k))"
  shows "valid_date s" "valid_date e" "s < e" "d1 < e" "1 \<le> k" "k \<le> 10000"
    "d1 < s \<Longrightarrow> rs = s" "e < d2 \<Longrightarrow> 2 \<le> isma_size d1 d2 rs re"
proof -
  let ?s = "if rs \<noteq> date_null then rs else d1" and ?e = "if re \<noteq> date_null then re else d2"
  have v: "valid_date ?s" "valid_date ?e" using assms by (auto simp: given_date_def)
  have ord: "?s < ?e" "d1 < ?e" using assms(6) by (auto simp: isma_reference_def Let_def bind_eq_Some_conv)
  note m = months_of_period [OF v ord(1)]
  have "valid_date s \<and> valid_date e \<and> s < e \<and> d1 < e \<and> 1 \<le> k \<and> k \<le> 10000 \<and> (d1 < s \<longrightarrow> rs = s) \<and>
      (e < d2 \<longrightarrow> 2 \<le> isma_size d1 d2 rs re)"
  proof (cases "reference_months (days_between ?s ?e) = 0")
    case True
    then have e: "date_plus d1 one_year = Some e" "s = d1" "k = 12"
      using assms(6) by (auto simp: isma_reference_def Let_def bind_eq_Some_conv split: if_splits)
    have "2 \<le> isma_size d1 d2 rs re" if "e < d2"
    proof (cases "rs \<noteq> date_null \<and> d1 < rs")
      case True
      then have "1 \<le> nat (serial_number rs - serial_number d1)" unfolding less_date_def by linarith
      moreover have "min d1 d2 = d1" using assms(3) by simp
      ultimately show ?thesis using True by (simp add: isma_size_def)
    next
      case False
      then have "?s \<le> d1" by auto
      then have "date_diff ?e d1 \<le> 15" using m(3) [OF True] by (simp add: date_diff_def less_eq_date_def)
      then have "?e < e" using year_later(3) [OF assms(1) e(1)] by (simp add: date_diff_def less_date_def)
      then have "?e < d2" using that by simp
      then have "re \<noteq> date_null" "re < d2" by (auto split: if_splits)
      then show ?thesis using assms(3) by (simp add: isma_size_ordered)
    qed
    then show "valid_date s \<and> valid_date e \<and> s < e \<and> d1 < e \<and> 1 \<le> k \<and> k \<le> 10000 \<and> (d1 < s \<longrightarrow> rs = s) \<and>
      (e < d2 \<longrightarrow> 2 \<le> isma_size d1 d2 rs re)"
      using year_later [OF assms(1) e(1)] assms(1) e by simp
  next
    case False
    then have e: "s = ?s" "e = ?e" "k = reference_months (days_between ?s ?e)"
      using assms(6) by (auto simp: isma_reference_def Let_def bind_eq_Some_conv)
    have "2 \<le> isma_size d1 d2 rs re" if "e < d2"
      using that assms(3) unfolding e(2) by (auto simp: isma_size_def max_def split: if_splits)
    then show "valid_date s \<and> valid_date e \<and> s < e \<and> d1 < e \<and> 1 \<le> k \<and> k \<le> 10000 \<and> (d1 < s \<longrightarrow> rs = s) \<and>
      (e < d2 \<longrightarrow> 2 \<le> isma_size d1 d2 rs re)"
      using v ord m(2,4) False unfolding e by auto
  qed
  then show "valid_date s" "valid_date e" "s < e" "d1 < e" "1 \<le> k" "k \<le> 10000" "d1 < s \<Longrightarrow> rs = s"
    "e < d2 \<Longrightarrow> 2 \<le> isma_size d1 d2 rs re" by blast+
qed

text \<open>One step, given what the recursive calls return: it only calls itself on smaller arguments.\<close>

lemma isma_step_same:
  assumes v: "valid_date d1" "valid_date d2" and lt: "d1 < d2" and g: "given_date rs" "given_date re"
    and r: "isma_reference d1 d2 rs re = Some (Inr (s, e, k))"
    and same: "\<And>a b p q. isma_size a b p q < isma_size d1 d2 rs re \<Longrightarrow> valid_date a \<Longrightarrow> valid_date b \<Longrightarrow>
      valid_date p \<Longrightarrow> valid_date q \<Longrightarrow> isma_steps m a b p q = isma_steps n a b p q"
  shows "isma_steps (Suc m) d1 d2 rs re = isma_steps (Suc n) d1 d2 rs re"
proof -
  note c = isma_reference_cases [OF v lt g r]
  note nn = c(1,2) [THEN valid_is_not_null]
  note ne = less_not_sym [OF lt] less_imp_neq [OF lt]
  define Z where "Z = isma_size d1 d2 rs re"
  note same = same [folded Z_def]
  consider "d2 \<le> e" "s \<le> d1" | "d2 \<le> e" "\<not> s \<le> d1" "date_minus s (period_new k Months) = None"
    | p where "d2 \<le> e" "d1 < s" "date_minus s (period_new k Months) = Some p" | "\<not> d2 \<le> e" "\<not> s \<le> d1" | "e < d2" "s \<le> d1"
    by fastforce
  then show ?thesis
  proof cases
    case (3 p)
    note p = months_earlier [OF c(1,5,6) 3(3)]
    have size: "4 * nat (serial_number s - serial_number d1) \<le> Z"
      using c(7) [OF 3(2)] nn(1) lt by (simp add: isma_size_ordered Z_def)
    have "nat (serial_number p - serial_number d1) < nat (serial_number s - serial_number d1)"
      using p(2) 3(2) by (simp add: less_date_def)
    then have less: "4 * nat (serial_number p - serial_number d1) + 2 < Z" "0 < Z" using size by linarith+
    have "isma_steps m d1 s p s = isma_steps n d1 s p s"
      using size less 3(2) c(1) p v by (intro same) (simp_all add: isma_size_ordered)
    moreover have "isma_steps m s d2 s e = isma_steps n s d2 s e" if "s < d2"
      using size less 3(1) that c(1,2) v by (intro same) (simp_all add: isma_size_ordered not_less)
    moreover have "isma_steps m d1 d2 p s = isma_steps n d1 d2 p s"
      using size less lt c(1) p v by (intro same) (simp_all add: isma_size_ordered)
    ultimately show ?thesis using ne r 3 not_le [THEN iffD2, OF 3(2)] by simp
  next
    case 5
    note size = c(8) [OF 5(1), folded Z_def]
    have first: "isma_steps m d1 e s e = isma_steps n d1 e s e"
      using size 5(2) c(1,2) v by (intro same) (simp_all add: isma_size_ordered [OF less_imp_le [OF c(4)]] less_eq_date_def)
    have rest: "isma_steps m a d2 a b = isma_steps n a d2 a b"
      if "whole_periods d2 e k (f_div (f_of_int k) (Fin 12)) x 0 = Some (y, a, b)" for x y a b
    proof -
      have base: "e' \<le> d2" if "i32 (k * 0) = Some n" "date_plus e (period_new n Months) = Some e'" for n e'
      proof -
        obtain dd m y where d: "date_new dd m y = Some e" using valid_date_new_ex [OF c(2)] by blast
        have "e' = e" using that date_advance_months [OF d, of 0] month_ordinal_range [of m] d
          by (auto simp: date_plus_def Let_def i32_range_def clip_day_def date_new_Some min_def simp del: date_advance.simps split: if_splits)
        then show ?thesis using 5(1) by simp
      qed
      have "valid_date a \<and> valid_date b \<and> a \<le> d2 \<and> d2 < b"
        by (rule whole_periods_bracket [OF that c(2)]) (rule base)
      then have w: "valid_date a" "valid_date b" "a \<le> d2" "(b < d2) = False" by (auto dest: less_not_sym)
      show ?thesis using size v w(1-3) by (intro same) (simp_all add: isma_size_ordered w(4))
    qed
    show ?thesis
    proof (cases "isma_steps n d1 e s e")
      case None
      then show ?thesis using first ne r 5(2) not_le [THEN iffD2, OF 5(1)] by simp
    next
      case (Some x)
      show ?thesis
      proof (cases "whole_periods d2 e k (f_div (f_of_int k) (Fin 12)) x 0")
        case None
        then show ?thesis using first Some ne r 5(2) not_le [THEN iffD2, OF 5(1)] by simp
      next
        case w: (Some t)
        then obtain y a b where t: "whole_periods d2 e k (f_div (f_of_int k) (Fin 12)) x 0 = Some (y, a, b)" by (cases t) auto
        show ?thesis using first Some t rest [OF t] ne r 5(2) not_le [THEN iffD2, OF 5(1)] by simp
      qed
    qed
  qed (use ne r in simp_all)
qed

lemma isma_steps_enough:
  assumes "isma_size d1 d2 rs re < fuel" "valid_date d1" "valid_date d2" "given_date rs" "given_date re"
  shows "isma_steps (Suc fuel) d1 d2 rs re = isma_steps fuel d1 d2 rs re"
  using assms
proof (induction fuel arbitrary: d1 d2 rs re)
  case (Suc fuel)
  note v = Suc.prems(2,3) and g = Suc.prems(4,5)
  consider "d1 = d2" | "d2 < d1" | "d1 < d2" by fastforce
  then show ?case
  proof cases
    case 2
    then have "isma_size d2 d1 rs re < fuel" using Suc.prems(1) by (simp add: isma_size_swap)
    then have "isma_steps (Suc fuel) d2 d1 rs re = isma_steps fuel d2 d1 rs re" using v g by (intro Suc.IH)
    then show ?thesis using 2 by (simp only: isma_steps.simps) simp
  next
    case 3
    show ?thesis
    proof (cases "isma_reference d1 d2 rs re")
      case None
      then show ?thesis using 3 less_not_sym [OF 3] by simp
    next
      case (Some x)
      show ?thesis
      proof (cases x)
        case (Inl y)
        then show ?thesis using 3 less_not_sym [OF 3] Some by simp
      next
        case (Inr t)
        then obtain s e k where r: "isma_reference d1 d2 rs re = Some (Inr (s, e, k))" using Some by (cases t) auto
        have same: "isma_steps (Suc fuel) a b p q = isma_steps fuel a b p q"
          if "isma_size a b p q < isma_size d1 d2 rs re" "valid_date a" "valid_date b" "valid_date p" "valid_date q" for a b p q
          using that Suc.prems(1) by (intro Suc.IH) (simp_all add: given_date_def)
        show ?thesis
          by (rule isma_step_same [OF v 3 g r same])
      qed
    qed
  qed simp
qed simp

lemma if_bound: "x \<le> n \<Longrightarrow> (if b then 0 else x) \<le> n" for n :: nat
  by simp

lemma isma_size_bound:
  assumes "valid_date d1" "valid_date d2" "given_date rs"
  shows "isma_size d1 d2 rs re < 500000"
proof -
  have "367 \<le> serial_number (min d1 d2)" using assms(1,2) by (simp add: valid_date_iff min_def)
  moreover have "serial_number rs \<le> 109574" using assms(3) by (auto simp: given_date_def valid_date_iff date_null_def)
  ultimately have "nat (serial_number rs - serial_number (min d1 d2)) \<le> 109574" by linarith
  then have "(if rs = date_null then 0 else nat (serial_number rs - serial_number (min d1 d2))) \<le> 109574" by (rule if_bound)
  moreover have "(if b then 2 else 0) \<le> (2::nat)" "(if b then 1 else 0) \<le> (1::nat)" for b by simp_all
  note this(1) [of "re \<noteq> date_null \<and> re < max d1 d2"] this(2) [of "d2 < d1"]
  ultimately show ?thesis unfolding isma_size_def by linarith
qed

text \<open>The recursion of the reference-period ISMA counter ends: on supported dates, with a reference
  period that is given in full, in part or not at all, it makes fewer than 500000 nested calls, so
  more fuel never changes the result and the fuel of the model cannot run out.\<close>

lemma isma_recursion_ends:
  assumes "valid_date d1" "valid_date d2" "valid_date rs \<or> rs = date_null" "valid_date re \<or> re = date_null"
  shows "isma_steps (500000 + extra) d1 d2 rs re = isma_year_fraction d1 d2 rs re"
proof (induction extra)
  case 0
  then show ?case by (simp only: isma_year_fraction_def add_0_right)
next
  case (Suc extra)
  have "isma_steps (Suc (500000 + extra)) d1 d2 rs re = isma_steps (500000 + extra) d1 d2 rs re"
    using isma_size_bound [OF assms(1,2), of rs re] assms by (intro isma_steps_enough) (simp_all add: given_date_def)
  then show ?case using Suc.IH by (simp only: add_Suc_right)
qed

end
