(* ===== verification/Year_Fraction_To_Date.thy ===== *)
theory Year_Fraction_To_Date
  imports Day_Counter_Properties Actual_Actual Isma_Properties Comparison
begin

text \<open>
  The inverse of a day counter, \<open>time/daycounters/yearfractiontodate.rs\<close>: from a guess by calendar
  time, a search by whole years, months and days. The panics of the day counter are \<open>None\<close>; the
  direction of the search, \<open>1\<close> or \<open>-1\<close>, is a truth value.
\<close>

definition day_offset :: "f64 \<Rightarrow> int ql_result" where
  "day_offset x =
     (let days = f_round x
      in if f_le (f_of_int (- (2 ^ 31))) days \<and> f_le days (f_of_int (2 ^ 31 - 1)) then Inr (f_to_i32 days)
         else Inl OutsideSupportedRange)"

definition shifted_within_bounds :: "date \<Rightarrow> int \<Rightarrow> date option" where
  "shifted_within_bounds d days =
     date_from_serial (max (serial_number date_min) (min (serial_number date_max) (serial_number d + days)))"

fun worst_case_days :: "time_unit \<Rightarrow> int" where
  "worst_case_days Years = 366"
| "worst_case_days Months = 31"
| "worst_case_days _ = 1"

definition direction :: "bool \<Rightarrow> int" where
  "direction up = (if up then 1 else -1)"

definition step_within_bounds :: "date \<Rightarrow> bool \<Rightarrow> time_unit \<Rightarrow> date option option" where
  "step_within_bounds d up u =
     (let serial = serial_number d + direction up * worst_case_days u
      in if serial_number date_min \<le> serial \<and> serial \<le> serial_number date_max
         then map_option Some (date_plus d (period_new (direction up) u))
         else Some None)"

lemma step_moves:
  assumes "step_within_bounds d up u = Some (Some e)" "u = Years \<or> u = Months \<or> u = Days"
  shows "valid_date e \<and> (if up then d < e else e < d)"
proof -
  have p: "date_plus d (period_new (direction up) u) = Some e"
    and b: "367 \<le> serial_number d + direction up * worst_case_days u" "serial_number d + direction up * worst_case_days u \<le> 109574"
    using assms(1) by (auto simp: step_within_bounds_def Let_def date_min_def date_max_def MINIMUM_SERIAL_NUMBER_def
        MAXIMUM_SERIAL_NUMBER_def split: if_splits)
  have e: "valid_date e"
  proof -
    have "u = Days \<or> (\<exists>dd m y. date_new dd m y = Some e)"
      using p assms(2) by (auto simp: date_plus_def bind_eq_Some_conv Let_def case_prod_unfold)
    then show ?thesis using p date_new_valid by (auto simp: date_plus_def date_add_def bind_eq_Some_conv)
  qed
  moreover have "if up then d < e else e < d"
  proof (cases "valid_date d")
    case False
    then consider "serial_number d \<le> 366" up | "109574 < serial_number d" "\<not> up"
      using b by (cases u) (auto simp: valid_date_iff direction_def split: if_splits)
    then show ?thesis using e by cases (auto simp: valid_date_iff less_date_def)
  next
    case v: True
    consider "u = Days" | "u = Years" | "u = Months" using assms(2) by blast
    then show ?thesis
    proof cases
      case 1
      then show ?thesis using p by (auto simp: date_plus_def date_add_def bind_eq_Some_conv direction_def less_date_def split: if_splits)
    next
      case 2
      show ?thesis
      proof (cases up)
        case True
        then show ?thesis using year_later(2) [OF v] p 2 by (simp add: direction_def)
      next
        case False
        then obtain y dd m where y: "date_year d = Some y" "date_new dd m (y - 1) = Some e"
          using p 2 by (auto simp: date_plus_def bind_eq_Some_conv direction_def)
        have "1901 \<le> y" "y \<le> 2200" using y(2) by (auto simp: date_new_Some)
        then have "e < d" using date_year_lower [OF y(1)] date_new_upper(1) [OF y(2)] by (simp add: less_date_def)
        then show ?thesis using False by simp
      qed
    next
      case 3
      show ?thesis
      proof (cases up)
        case True
        then have "25 \<le> date_diff e d" using month_span_days(1) [OF v, of 1 e] p 3 by (simp add: direction_def)
        then show ?thesis using True by (simp add: date_diff_def less_date_def)
      next
        case False
        then have "date_minus d (period_new 1 Months) = Some e"
          using p 3 by (simp add: direction_def date_plus_def date_minus_def i32_def i32_range_def del: date_advance.simps)
        from months_earlier(2) [OF v _ _ this] show ?thesis using False by simp
      qed
    qed
  qed
  ultimately show ?thesis by blast
qed

section \<open>The search\<close>

definition still_short :: "bool \<Rightarrow> f64 \<Rightarrow> f64 \<Rightarrow> bool" where
  "still_short up fraction t = f_less (f_mul (f_of_int (direction up)) (f_sub fraction t)) (Fin 0)"

datatype search_unit = By_Years | By_Months | By_Days

fun unit_of :: "search_unit \<Rightarrow> time_unit" where
  "unit_of By_Years = Years"
| "unit_of By_Months = Months"
| "unit_of By_Days = Days"

lemma unit_of_cases: "unit_of u = Years \<or> unit_of u = Months \<or> unit_of u = Days"
  by (cases u) simp_all

function refine_guess :: "day_counter \<Rightarrow> date \<Rightarrow> f64 \<Rightarrow> bool \<Rightarrow> search_unit \<Rightarrow> date \<Rightarrow> date option" where
  "refine_guess dc reference_date t up u guess_date = do {
     next_guess \<leftarrow> step_within_bounds guess_date up (unit_of u);
     case next_guess of
       None \<Rightarrow> Some guess_date
     | Some next_guess \<Rightarrow> do {
         fraction \<leftarrow> year_fraction dc reference_date next_guess;
         if still_short up fraction t then refine_guess dc reference_date t up u next_guess
         else Some guess_date
       }
   }"
  by pat_completeness auto
termination
  by (relation "measure (\<lambda>(dc, r, t, up, u, d). nat (if up then 109574 - serial_number d else serial_number d))")
    (auto dest!: step_moves [OF _ unit_of_cases] simp: valid_date_iff less_date_def)

declare refine_guess.simps [simp del]

definition finish_search :: "day_counter \<Rightarrow> date \<Rightarrow> f64 \<Rightarrow> bool \<Rightarrow> date \<Rightarrow> (date ql_result) option" where
  "finish_search dc reference_date t up guess_date = do {
     guess_time \<leftarrow> year_fraction dc reference_date guess_date;
     next_guess \<leftarrow> step_within_bounds guess_date up Days;
     case next_guess of
       None \<Rightarrow>
         if close_enough guess_time t \<or> f_le (Fin 0) (f_mul (f_of_int (direction up)) (f_sub guess_time t))
         then Some (Inr guess_date) else Some (Inl OutsideSupportedRange)
     | Some next_guess \<Rightarrow> do {
         next_time \<leftarrow> year_fraction dc reference_date next_guess;
         if close_enough guess_time t \<or> f_less (f_abs (f_sub guess_time t)) (f_abs (f_sub next_time t))
         then Some (Inr guess_date) else Some (Inr next_guess)
       }
   }"

text \<open>\<open>1.0f64.copysign(t - guess_time)\<close>: the difference is not zero there, and not a number only if the day
  counter returned no number.\<close>

definition search_date :: "day_counter \<Rightarrow> date \<Rightarrow> f64 \<Rightarrow> f64 \<Rightarrow> date \<Rightarrow> (date ql_result) option" where
  "search_date dc reference_date t guess_time guess_date = do {
     let up = (\<not> f_less (f_sub t guess_time) (Fin 0));
     let t = f_add t (f_mul (f_mul (f_of_int (direction up)) (Fin 100)) f64_epsilon);
     guess_date \<leftarrow> refine_guess dc reference_date t up By_Years guess_date;
     guess_date \<leftarrow> refine_guess dc reference_date t up By_Months guess_date;
     guess_date \<leftarrow> refine_guess dc reference_date t up By_Days guess_date;
     finish_search dc reference_date t up guess_date
   }"

definition year_fraction_to_date :: "day_counter \<Rightarrow> date \<Rightarrow> f64 \<Rightarrow> (date ql_result) option" where
  "year_fraction_to_date dc reference_date t =
     (case day_offset (f_mul t (Fin (365 + 1 / 4))) of
        Inl e \<Rightarrow> Some (Inl e)
      | Inr days \<Rightarrow> do {
          guess_date \<leftarrow> shifted_within_bounds reference_date days;
          guess_time \<leftarrow> year_fraction dc reference_date guess_date;
          case day_offset (f_mul (f_sub t guess_time) (Fin (365 + 1 / 4))) of
            Inl e \<Rightarrow> Some (Inl e)
          | Inr days \<Rightarrow> do {
              guess_date \<leftarrow> shifted_within_bounds guess_date days;
              guess_time \<leftarrow> year_fraction dc reference_date guess_date;
              if close_enough guess_time t then Some (Inr guess_date)
              else search_date dc reference_date t guess_time guess_date
            }
        })"

section \<open>The inverse on the actual counters\<close>

lemma round_half_away_error: "\<bar>of_int (round_half_away x) - x\<bar> \<le> 1 / 2"
proof (cases "0 \<le> x")
  case True
  have "of_int \<lfloor>x + 1 / 2\<rfloor> \<le> x + 1 / 2" "x + 1 / 2 < of_int \<lfloor>x + 1 / 2\<rfloor> + 1" by linarith+
  then show ?thesis unfolding round_half_away_def if_P [OF True] abs_le_iff by linarith
next
  case False
  have "of_int \<lfloor>1 / 2 - x\<rfloor> \<le> 1 / 2 - x" "1 / 2 - x < of_int \<lfloor>1 / 2 - x\<rfloor> + 1" by linarith+
  then show ?thesis unfolding round_half_away_def if_not_P [OF False] abs_le_iff of_int_minus by linarith
qed

lemma round_half_away_near:
  assumes "\<bar>x - of_int k\<bar> < 1 / 2"
  shows "round_half_away x = k"
proof -
  have "\<bar>of_int (round_half_away x - k) :: rat\<bar> < 1"
    using round_half_away_error [of x] assms unfolding of_int_diff abs_le_iff abs_less_iff by linarith
  then show ?thesis by simp
qed

lemma day_offset_Fin:
  assumes "\<bar>x\<bar> \<le> 2 ^ 20"
  shows "day_offset (Fin x) = Inr (round_half_away x)"
proof -
  let ?r = "round_half_away x"
  have "\<bar>of_int ?r :: rat\<bar> \<le> of_int (2 ^ 21)"
    using round_half_away_error [of x] assms unfolding abs_le_iff by simp
  then have "\<bar>?r\<bar> \<le> 2 ^ 21" by (simp only: of_int_abs [symmetric] of_int_le_iff)
  then have r: "- 2147483648 < ?r" "?r < 2147483647" by simp_all
  then have "(of_int (- 2147483648) :: rat) < of_int ?r" "(of_int ?r :: rat) < of_int 2147483647"
    by (simp_all only: of_int_less_iff)
  moreover have "f_of_int (- 2147483648) = Fin (of_int (- 2147483648))" "f_of_int 2147483647 = Fin (of_int 2147483647)"
    by (intro f_of_int; simp)+
  ultimately show ?thesis using r by (simp add: day_offset_def Let_def f_le_def)
qed

lemma f_mul_near:
  assumes "\<bar>x * y\<bar> \<le> 2 ^ 20"
  shows "f_mul (Fin x) (Fin y) = Fin (rnd (x * y))" "\<bar>rnd (x * y) - x * y\<bar> \<le> 1 / 2 ^ 33"
proof -
  have "\<bar>x * y\<bar> \<le> 2 ^ 1000" using assms by (rule order_trans) simp
  then show "f_mul (Fin x) (Fin y) = Fin (rnd (x * y))" by (simp add: fl_small)
  show "\<bar>rnd (x * y) - x * y\<bar> \<le> 1 / 2 ^ 33" using rnd_error_bound [OF assms] by simp
qed

lemma f_sub_near:
  assumes "\<bar>x - y\<bar> \<le> 2 ^ 20"
  shows "f_sub (Fin x) (Fin y) = Fin (rnd (x - y))" "\<bar>rnd (x - y) - (x - y)\<bar> \<le> 1 / 2 ^ 33"
proof -
  have "\<bar>x - y\<bar> \<le> 2 ^ 1000" using assms by (rule order_trans) simp
  then show "f_sub (Fin x) (Fin y) = Fin (rnd (x - y))" by (simp add: f_sub_def fl_small)
  show "\<bar>rnd (x - y) - (x - y)\<bar> \<le> 1 / 2 ^ 33" using rnd_error_bound [OF assms] by simp
qed

lemma near_trans: "\<bar>a - b\<bar> \<le> e \<Longrightarrow> \<bar>b - c\<bar> \<le> f \<Longrightarrow> \<bar>a - c\<bar> \<le> f + e" for a :: rat
  by linarith

text \<open>Near enough to a quotient by the days of a year, the product by \<open>365.25\<close> is near the dividend.\<close>

lemma scaled_near:
  assumes D: "365 \<le> D" "D \<le> 366" and n: "\<bar>of_int n :: rat\<bar> \<le> N" and x: "\<bar>x - of_int n / D\<bar> \<le> 1 / 2 ^ 30"
    and N: "N \<le> 120000"
  shows "\<exists>y. f_mul (Fin x) (Fin (365 + 1 / 4)) = Fin y \<and> \<bar>y\<bar> \<le> 2 ^ 20 \<and> \<bar>y - of_int n\<bar> \<le> N * (3 / 1464) + 1 / 1000"
proof -
  let ?c = "365 + 1 / 4 :: rat"
  have c: "\<bar>?c / D - 1\<bar> \<le> 3 / 1464"
  proof (rule abs_leI)
    show "?c / D - 1 \<le> 3 / 1464" "- (?c / D - 1) \<le> 3 / 1464" using D by (simp_all add: field_simps)
  qed
  have "of_int n / D * ?c - of_int n = of_int n * (?c / D - 1)" using D by (simp add: field_simps)
  then have "\<bar>of_int n / D * ?c - of_int n\<bar> = \<bar>of_int n\<bar> * \<bar>?c / D - 1\<bar>" by (simp add: abs_mult)
  also have "\<dots> \<le> N * (3 / 1464)" using n c by (intro mult_mono) simp_all
  finally have a: "\<bar>of_int n / D * ?c - of_int n\<bar> \<le> N * (3 / 1464)" .
  have "x * ?c - of_int n / D * ?c = (x - of_int n / D) * ?c" by (rule left_diff_distrib [symmetric])
  then have "\<bar>x * ?c - of_int n / D * ?c\<bar> = \<bar>x - of_int n / D\<bar> * ?c" by (simp only: abs_mult)
  also have "\<dots> \<le> 1 / 2 ^ 30 * ?c" using x by (intro mult_right_mono) simp_all
  finally have b: "\<bar>x * ?c - of_int n / D * ?c\<bar> \<le> 1 / 2 ^ 30 * ?c" .
  have small: "1 / 2 ^ 30 * ?c + 1 / 2 ^ 33 \<le> 1 / 1000" by simp
  have xc: "\<bar>x * ?c - of_int n\<bar> \<le> N * (3 / 1464) + 1 / 2 ^ 30 * ?c" by (rule near_trans [OF b a])
  moreover have "1 / 2 ^ 30 * ?c \<le> 1 / 1000" by simp
  ultimately have "\<bar>x * ?c - of_int n\<bar> \<le> N * (3 / 1464) + 1 / 1000" by (meson add_left_mono order_trans)
  then have big: "\<bar>x * ?c\<bar> \<le> 200000" using n N by linarith
  then have "\<bar>x * ?c\<bar> \<le> 2 ^ 20" by (rule order_trans) simp
  note m = f_mul_near [OF this]
  have "\<bar>rnd (x * ?c) - of_int n\<bar> \<le> N * (3 / 1464) + 1 / 1000" using m(2) xc small by linarith
  moreover have "\<bar>rnd (x * ?c)\<bar> \<le> 2 ^ 20"
  proof -
    have "\<bar>rnd (x * ?c) - x * ?c\<bar> \<le> 1" using m(2) by (rule order_trans) simp
    then have "\<bar>rnd (x * ?c)\<bar> \<le> 200001" using big by linarith
    then show ?thesis by (rule order_trans) simp
  qed
  ultimately show ?thesis using m(1) by blast
qed

lemma shift_clamped:
  assumes "valid_date r"
  shows "\<exists>e. shifted_within_bounds r g = Some e \<and> valid_date e \<and>
    (\<forall>d. valid_date d \<longrightarrow> \<bar>date_diff d r - date_diff e r\<bar> \<le> \<bar>date_diff d r - g\<bar>)"
  using assms
  by (auto simp: shifted_within_bounds_def valid_date_iff date_min_def date_max_def MINIMUM_SERIAL_NUMBER_def
      MAXIMUM_SERIAL_NUMBER_def date_diff_def)

text \<open>C17. The search inverts the counters on 365, 365.25 and 366 days: the date found for the year fraction
  between two supported dates, in either order, is the second of them, exactly, for all the rounding in
  both directions; and the two guesses by calendar time already find it: the guess corrected once is that date, and
  its year fraction passes the check that ends the search before it refines by years, months and days.\<close>

theorem year_fraction_to_date_inverts:
  assumes "dc \<in> {actual365fixed_new, actual36525_new, actual366_new}"
    and "valid_date r" "valid_date d" "year_fraction dc r d = Some t"
  shows "year_fraction_to_date dc r t = Some (Inr d) \<and>
    (\<exists>first_days first_guess first_time more_days.
      day_offset (f_mul t (Fin (365 + 1 / 4))) = Inr first_days \<and>
      shifted_within_bounds r first_days = Some first_guess \<and>
      year_fraction dc r first_guess = Some first_time \<and>
      day_offset (f_mul (f_sub t first_time) (Fin (365 + 1 / 4))) = Inr more_days \<and>
      shifted_within_bounds first_guess more_days = Some d \<and> close_enough t t)"
proof -
  obtain D where D: "365 \<le> D" "D \<le> 366"
    and yf: "\<And>a b. year_fraction dc a b = Some (f_div (f_of_int (date_diff b a)) (Fin D))"
    using assms(1) that [of 365] that [of "365 + 1 / 4"] that [of 366]
    by (auto simp: year_fraction_def actual365fixed_new_def actual365_standard_def actual36525_new_def
        actual36525_with_last_day_def actual366_new_def actual366_with_last_day_def over_year_def inclusive_day_count_def)
  have D1: "1 \<le> D" "D \<le> 1000" using D by simp_all
  let ?n = "date_diff d r"
  note q = int_quotient_near [OF valid_diff D1]
  let ?t = "rnd (of_int ?n / D)"
  have t: "t = Fin ?t" using assms(4) q(1) [OF assms(2,3)] by (simp add: yf)
  have n: "\<bar>of_int ?n :: rat\<bar> \<le> 109207"
    using assms(2,3) of_int_le_iff [of "\<bar>?n\<bar>" 109207, where 'a = rat] by (simp add: valid_date_iff date_diff_def abs_le_iff)
  have w: "x \<le> 1 / 2 ^ 33 \<Longrightarrow> x \<le> 1 / 2 ^ 30" for x :: rat by (erule order_trans) simp
  obtain y where y: "f_mul t (Fin (365 + 1 / 4)) = Fin y" "\<bar>y\<bar> \<le> 2 ^ 20" "\<bar>y - of_int ?n\<bar> \<le> 109207 * (3 / 1464) + 1 / 1000"
    using scaled_near [OF D n w [OF q(2) [OF assms(2,3)]]] t by auto
  let ?g = "round_half_away y"
  obtain e where e: "shifted_within_bounds r ?g = Some e" "valid_date e" "\<bar>?n - date_diff e r\<bar> \<le> \<bar>?n - ?g\<bar>"
    using shift_clamped [OF assms(2)] assms(3) by blast
  have "\<bar>of_int (?n - ?g) :: rat\<bar> < 225"
    using y(3) round_half_away_error [of y] unfolding of_int_diff abs_le_iff abs_less_iff by linarith
  then have "\<bar>?n - ?g\<bar> < 225" using of_int_less_iff [of "\<bar>?n - ?g\<bar>" 225, where 'a = rat] by simp
  then have h: "\<bar>date_diff d e\<bar> \<le> 224" using e(3) by (simp add: date_diff_def)
  then have hr: "\<bar>of_int (date_diff d e) :: rat\<bar> \<le> 224" using of_int_le_iff [of "\<bar>date_diff d e\<bar>" 224, where 'a = rat] by simp
  let ?s = "rnd (of_int (date_diff e r) / D)"
  have s: "year_fraction dc r e = Some (Fin ?s)" using q(1) [OF assms(2) e(2)] by (simp add: yf)
  have diff: "of_int ?n / D - of_int (date_diff e r) / D = of_int (date_diff d e) / D"
    by (simp add: date_diff_def diff_divide_distrib)
  have "\<bar>of_int (date_diff d e) / D\<bar> \<le> 224"
  proof -
    have "\<bar>of_int (date_diff d e) / D\<bar> = \<bar>of_int (date_diff d e)\<bar> / D" using D by simp
    also have "\<dots> \<le> \<bar>of_int (date_diff d e)\<bar> / 1" using D by (intro divide_left_mono) simp_all
    finally show ?thesis using hr by simp
  qed
  moreover have "(1::rat) / 2 ^ 33 \<le> 1" by simp
  ultimately have "\<bar>?t - ?s\<bar> \<le> 300"
    using q(2) [OF assms(2,3)] q(2) [OF assms(2) e(2)] diff unfolding abs_le_iff by linarith
  then have "\<bar>?t - ?s\<bar> \<le> 2 ^ 20" by (rule order_trans) simp
  note sub = f_sub_near [OF this]
  have "\<bar>rnd (?t - ?s) - of_int (date_diff d e) / D\<bar> \<le> 1 / 2 ^ 33 + 1 / 2 ^ 33 + 1 / 2 ^ 33"
    using sub(2) q(2) [OF assms(2,3)] q(2) [OF assms(2) e(2)] diff unfolding abs_le_iff by linarith
  then have near: "\<bar>rnd (?t - ?s) - of_int (date_diff d e) / D\<bar> \<le> 1 / 2 ^ 30" by (rule order_trans) simp
  obtain z where z: "f_mul (Fin (rnd (?t - ?s))) (Fin (365 + 1 / 4)) = Fin z" "\<bar>z\<bar> \<le> 2 ^ 20"
    "\<bar>z - of_int (date_diff d e)\<bar> \<le> 224 * (3 / 1464) + 1 / 1000"
    using scaled_near [OF D hr near] by auto
  have "\<bar>z - of_int (date_diff d e)\<bar> < 1 / 2" by (rule order.strict_trans1 [OF z(3)]) simp
  then have g2: "round_half_away z = date_diff d e" by (rule round_half_away_near)
  have d: "shifted_within_bounds e (date_diff d e) = Some d"
    using assms(3) by (cases d) (simp add: shifted_within_bounds_def date_diff_def valid_date_iff date_min_def date_max_def
        MINIMUM_SERIAL_NUMBER_def MAXIMUM_SERIAL_NUMBER_def)
  have off: "day_offset (f_mul t (Fin (365 + 1 / 4))) = Inr ?g" unfolding y(1) by (rule day_offset_Fin [OF y(2)])
  have off2: "day_offset (f_mul (f_sub t (Fin ?s)) (Fin (365 + 1 / 4))) = Inr (date_diff d e)"
    unfolding t sub(1) z(1) day_offset_Fin [OF z(2)] g2 ..
  have c: "close_enough t t" by (simp add: t close_enough_def close_enough_n_def)
  then have "year_fraction_to_date dc r t = Some (Inr d)"
    unfolding year_fraction_to_date_def
    by (simp only: off sum.case e(1) Option.bind.bind_lunit s off2 d assms(4) if_True)
  then show ?thesis using off e(1) s off2 d c by blast
qed

lemma year_fraction_to_date_inverts_witness:
  "\<exists>t. year_fraction actual366_new (Date 40000) (Date 61000) = Some t \<and>
    year_fraction_to_date actual366_new (Date 40000) t = Some (Inr (Date 61000))"
proof -
  obtain t where t: "year_fraction actual366_new (Date 40000) (Date 61000) = Some t"
    by (auto simp: year_fraction_def actual366_new_def actual366_with_last_day_def over_year_def inclusive_day_count_def)
  from year_fraction_to_date_inverts [OF _ _ _ t] t show ?thesis by (auto simp: valid_date_iff)
qed

end
