(* ===== verification/Markets_Japan.thy ===== *)
theory Markets_Japan
  imports Market_Rules Floats
begin

text \<open>
  \<open>time/calendars/japan.rs\<close>: the Japanese calendar. Its equinox holidays are computed in floating
  point from the equinox of 2000, the drift of a year and a count of leap years; every other clause is
  one of the predicate. The market is shown to answer on every supported date and to close on weekends,
  and its equinoxes to be those of the same formula in exact arithmetic.
\<close>

section \<open>The equinoxes\<close>

definition japan_exact_vernal_equinox_time :: f64 where
  "japan_exact_vernal_equinox_time = fl (2069115 / 100000)"

definition japan_exact_autumnal_equinox_time :: f64 where
  "japan_exact_autumnal_equinox_time = fl (2309 / 100)"

definition japan_diff_per_year :: f64 where
  "japan_diff_per_year = fl (242194 / 1000000)"

definition japan_moving_amount :: "int \<Rightarrow> f64" where
  "japan_moving_amount y = f_mul (f_of_int (y - 2000)) japan_diff_per_year"

definition japan_number_of_leap_years :: "int \<Rightarrow> int" where
  "japan_number_of_leap_years y = (y - 2000) sdiv 4 + (y - 2000) sdiv 100 - (y - 2000) sdiv 400"

definition japan_equinox :: "f64 \<Rightarrow> int \<Rightarrow> int" where
  "japan_equinox exact_time y =
     f_to_i32 (f_sub (f_add exact_time (japan_moving_amount y)) (f_of_int (japan_number_of_leap_years y)))"

section \<open>The market\<close>

definition japan_closed :: "weekday \<Rightarrow> int \<Rightarrow> month \<Rightarrow> int \<Rightarrow> int \<Rightarrow> int \<Rightarrow> bool" where
  "japan_closed w d m y ve ae \<longleftrightarrow>
     is_weekend_sat_sun(w)
       \<or> (d = 1 \<and> m = January)
       \<or> (d = 2 \<and> m = January)
       \<or> (d = 3 \<and> m = January)
       \<or> (w = Monday \<and> (d \<ge> 8 \<and> d \<le> 14) \<and> m = January \<and> y \<ge> 2000)
       \<or> ((d = 15 \<or> (d = 16 \<and> w = Monday)) \<and> m = January \<and> y < 2000)
       \<or> ((d = 11 \<or> (d = 12 \<and> w = Monday)) \<and> m = February)
       \<or> ((d = 23 \<or> (d = 24 \<and> w = Monday)) \<and> m = February \<and> y \<ge> 2020)
       \<or> ((d = 23 \<or> (d = 24 \<and> w = Monday)) \<and> m = December \<and> (y \<ge> 1989 \<and> y < 2019))
       \<or> ((d = ve \<or> (d = ve + 1 \<and> w = Monday)) \<and> m = March)
       \<or> ((d = 29 \<or> (d = 30 \<and> w = Monday)) \<and> m = April)
       \<or> (d = 3 \<and> m = May)
       \<or> (d = 4 \<and> m = May)
       \<or> (d = 5 \<and> m = May)
       \<or> (d = 6 \<and> m = May \<and> (w = Monday \<or> w = Tuesday \<or> w = Wednesday))
       \<or> (w = Monday \<and> (d \<ge> 15 \<and> d \<le> 21) \<and> m = July \<and> ((y \<ge> 2003 \<and> y < 2020) \<or> y \<ge> 2022))
       \<or> ((d = 20 \<or> (d = 21 \<and> w = Monday)) \<and> m = July \<and> y \<ge> 1996 \<and> y < 2003)
       \<or> (d = 23 \<and> m = July \<and> y = 2020)
       \<or> (d = 22 \<and> m = July \<and> y = 2021)
       \<or> ((d = 11 \<or> (d = 12 \<and> w = Monday)) \<and> m = August \<and> ((y \<ge> 2016 \<and> y < 2020) \<or> y \<ge> 2022))
       \<or> (d = 10 \<and> m = August \<and> y = 2020)
       \<or> (d = 9 \<and> m = August \<and> y = 2021)
       \<or> (w = Monday \<and> (d \<ge> 15 \<and> d \<le> 21) \<and> m = September \<and> y \<ge> 2003)
       \<or> ((d = 15 \<or> (d = 16 \<and> w = Monday)) \<and> m = September \<and> y < 2003)
       \<or> (w = Tuesday \<and> d + 1 = ae \<and> d \<ge> 16 \<and> d \<le> 22 \<and> m = September \<and> y \<ge> 2003)
       \<or> ((d = ae \<or> (d = ae + 1 \<and> w = Monday)) \<and> m = September)
       \<or> (w = Monday \<and> (d \<ge> 8 \<and> d \<le> 14) \<and> m = October \<and> ((y \<ge> 2000 \<and> y < 2020) \<or> y \<ge> 2022))
       \<or> ((d = 10 \<or> (d = 11 \<and> w = Monday)) \<and> m = October \<and> y < 2000)
       \<or> (d = 24 \<and> m = July \<and> y = 2020)
       \<or> (d = 23 \<and> m = July \<and> y = 2021)
       \<or> ((d = 3 \<or> (d = 4 \<and> w = Monday)) \<and> m = November)
       \<or> ((d = 23 \<or> (d = 24 \<and> w = Monday)) \<and> m = November)
       \<or> (d = 31 \<and> m = December)
       \<or> (d = 10 \<and> m = April \<and> y = 1959)
       \<or> (d = 24 \<and> m = February \<and> y = 1989)
       \<or> (d = 12 \<and> m = November \<and> y = 1990)
       \<or> (d = 9 \<and> m = June \<and> y = 1993)
       \<or> (d = 30 \<and> m = April \<and> y = 2019)
       \<or> (d = 1 \<and> m = May \<and> y = 2019)
       \<or> (d = 2 \<and> m = May \<and> y = 2019)
       \<or> (d = 22 \<and> m = October \<and> y = 2019)"

text \<open>The sums \<open>ve + 1\<close>, \<open>ae + 1\<close> and \<open>d + 1\<close> stay far inside \<open>i32\<close>, by \<open>equinox_range\<close> below.\<close>

definition japan_is_business_day :: "date \<Rightarrow> bool option" where
  "japan_is_business_day date = do {
     w \<leftarrow> date_weekday date;
     d \<leftarrow> date_day_of_month date;
     m \<leftarrow> date_month date;
     y \<leftarrow> date_year date;
     Some (\<not> japan_closed w d m y
       (japan_equinox japan_exact_vernal_equinox_time y) (japan_equinox japan_exact_autumnal_equinox_time y))
   }"

definition japan_impl :: calendar_impl where
  "japan_impl = calendar_impl_new ''Japan''
     japan_is_business_day is_weekend_sat_sun"

definition japan_new :: calendar where
  "japan_new = calendar_from_impl japan_impl"

lemma japan_is_business_day_total [total_rules]: "valid_date date \<Longrightarrow> japan_is_business_day date \<noteq> None"
  unfolding japan_is_business_day_def by (rule total_rules | assumption | (simp add: civil_ok_def; fail))+

lemma japan_is_business_day_weekend:
  assumes "valid_date date" "date_weekday date = Some w" "is_weekend_sat_sun w"
  shows "japan_is_business_day date = Some False"
  using assms(1)
  by (rule date_fields) (use assms(2,3) in \<open>simp add: japan_is_business_day_def japan_closed_def\<close>)

interpretation japan: weekend_market japan_impl
  by (rule weekend_marketI [where f = is_weekend_sat_sun]) (simp_all add: japan_impl_def japan_is_business_day_total japan_is_business_day_weekend)

section \<open>The equinoxes in exact arithmetic\<close>

text \<open>The same formula over the rationals, in millionths of a day from a time of 2000.\<close>

definition equinox_micros :: "int \<Rightarrow> int \<Rightarrow> int" where
  "equinox_micros base y = base + 242194 * (y - 2000) - 1000000 * japan_number_of_leap_years y"

definition equinox_ok :: "int \<Rightarrow> int \<Rightarrow> bool" where
  "equinox_ok base y \<longleftrightarrow> 18000001 \<le> equinox_micros base y \<and> equinox_micros base y < 24000000 \<and> equinox_micros base y mod 1000000 \<noteq> 0
     \<and> equinox_micros base y mod 1000000 \<noteq> 999999 \<and> \<bar>japan_number_of_leap_years y\<bar> \<le> 60"

lemma equinox_table: "all_upto 1901 2199 (\<lambda>y. equinox_ok 20691150 y \<and> equinox_ok 23090000 y)"
  by code_simp

text \<open>Rounding a value of at most 256 moves it by less than a billionth.\<close>

lemma fl_near:
  fixes x :: rat
  assumes "\<bar>x\<bar> \<le> 256"
  obtains e where "fl x = Fin (x + e)" "\<bar>e\<bar> \<le> 1 / 1000000000"
proof -
  have "\<bar>rnd x - x\<bar> \<le> 1 / 1000000000" using rnd_error_bound [of x 8] assms by simp
  then show ?thesis using that [of "rnd x - x"] fl_small [of x] assms by simp
qed

lemma equinox_near:
  assumes "1901 \<le> y" "y \<le> 2199" "exact_time = fl (of_int base / 1000000)" "0 \<le> base" "base \<le> 24000000"
    and "equinox_ok base y"
  shows "\<exists>v. f_sub (f_add exact_time (japan_moving_amount y)) (f_of_int (japan_number_of_leap_years y)) = Fin v
    \<and> \<bar>v - of_int (equinox_micros base y) / 1000000\<bar> < 1 / 1000000"
proof -
  define n :: rat where "n = of_int (y - 2000)"
  define l :: rat where "l = of_int (japan_number_of_leap_years y)"
  have n: "\<bar>n\<bar> \<le> 199" using assms(1,2) by (simp add: n_def abs_le_iff)
  have l: "\<bar>l\<bar> \<le> 60" using assms(6) unfolding equinox_ok_def l_def by linarith
  obtain e1 where e1: "japan_diff_per_year = Fin (242194 / 1000000 + e1)" "\<bar>e1\<bar> \<le> 1 / 1000000000"
    unfolding japan_diff_per_year_def by (rule fl_near [of "242194 / 1000000"]) simp
  have ne: "\<bar>n * e1\<bar> \<le> 199 / 1000000000"
    using mult_mono [OF n e1(2)] by (simp add: abs_mult)
  then have ne1: "\<bar>n * e1\<bar> \<le> 1 / 4000000" by (rule order_trans) simp
  have "\<bar>n * (242194 / 1000000 + e1)\<bar> \<le> 256" using n ne1 unfolding distrib_left by linarith
  then obtain e2 where e2: "japan_moving_amount y = Fin (n * (242194 / 1000000 + e1) + e2)" "\<bar>e2\<bar> \<le> 1 / 1000000000"
    using assms(1,2) fl_near by (auto simp: japan_moving_amount_def f_of_int e1(1) n_def)
  obtain e3 where e3: "exact_time = Fin (of_int base / 1000000 + e3)" "\<bar>e3\<bar> \<le> 1 / 1000000000"
    using fl_near [of "of_int base / 1000000"] assms(3-5) by auto
  define v where "v = of_int base / 1000000 + e3 + (n * (242194 / 1000000 + e1) + e2)"
  have "\<bar>v\<bar> \<le> 256" using n ne1 e2(2) e3(2) assms(4,5) unfolding v_def distrib_left by linarith
  then obtain e4 where e4: "f_add exact_time (japan_moving_amount y) = Fin (v + e4)" "\<bar>e4\<bar> \<le> 1 / 1000000000"
    using fl_near [of v] by (auto simp: e2(1) e3(1) v_def)
  have eq: "of_int (equinox_micros base y) / 1000000 = of_int base / 1000000 + n * (242194 / 1000000) - l"
    by (simp add: equinox_micros_def n_def l_def field_simps)
  have "of_int (equinox_micros base y) < (24000000 :: rat)" "18000001 \<le> (of_int (equinox_micros base y) :: rat)"
    using assms(6) unfolding equinox_ok_def by simp_all
  moreover have near: "\<bar>v + e4 - l - of_int (equinox_micros base y) / 1000000\<bar> \<le> 1 / 3000000"
    using ne1 e2(2) e3(2) e4(2) unfolding eq v_def distrib_left by linarith
  ultimately have "\<bar>v + e4 - l\<bar> \<le> 256" by linarith
  then obtain e5 where "fl (v + e4 - l) = Fin (v + e4 - l + e5)" "\<bar>e5\<bar> \<le> 1 / 1000000000" by (rule fl_near)
  moreover have "f_of_int (japan_number_of_leap_years y) = Fin l" using assms(6) by (simp add: equinox_ok_def f_of_int l_def)
  moreover have "\<bar>v + e4 - l + e5 - of_int (equinox_micros base y) / 1000000\<bar> < 1 / 1000000"
    using near \<open>\<bar>e5\<bar> \<le> 1 / 1000000000\<close> by linarith
  ultimately show ?thesis by (simp add: f_sub_def e4(1))
qed

text \<open>So the truncation meets the exact day: the value is not within a millionth of a whole number.\<close>

lemma truncation_of_near:
  fixes v :: rat
  assumes "\<bar>v - of_int m / 1000000\<bar> < 1 / 1000000" "m mod 1000000 \<noteq> 0" "m mod 1000000 \<noteq> 999999" "0 < m" "m < 1000000000"
  shows "f_to_i32 (Fin v) = m div 1000000"
proof -
  have m: "(of_int m :: rat) = 1000000 * of_int (m div 1000000) + of_int (m mod 1000000)"
    by (metis mult_div_mod_eq of_int_add of_int_mult of_int_numeral)
  have "1 \<le> m mod 1000000" "m mod 1000000 \<le> 999998" using assms(2,3) pos_mod_bound [of 1000000 m] pos_mod_sign [of 1000000 m] by linarith+
  then have r: "1 \<le> (of_int (m mod 1000000) :: rat)" "(of_int (m mod 1000000) :: rat) \<le> 999998" by simp_all
  have "of_int (m div 1000000) \<le> v" "v < of_int (m div 1000000) + 1" using assms(1) r unfolding m add_divide_distrib by linarith+
  then have "\<lfloor>v\<rfloor> = m div 1000000" by (simp add: floor_eq_iff)
  moreover have "0 \<le> m div 1000000" "m div 1000000 < 1000" using assms(4,5) by auto
  moreover from this have "0 \<le> v" by (metis calculation(1) zero_le_floor)
  ultimately show ?thesis by simp
qed

lemma equinox_day:
  assumes "1901 \<le> y" "y \<le> 2199"
  shows "japan_equinox japan_exact_vernal_equinox_time y = equinox_micros 20691150 y div 1000000"
    and "japan_equinox japan_exact_autumnal_equinox_time y = equinox_micros 23090000 y div 1000000"
proof -
  have ok: "equinox_ok 20691150 y" "equinox_ok 23090000 y" using all_uptoD [OF equinox_table assms] by blast+
  have "japan_equinox time y = equinox_micros base y div 1000000"
    if "time = fl (of_int base / 1000000)" "0 \<le> base" "base \<le> 24000000" "equinox_ok base y" for time base
    using equinox_near [OF assms that] truncation_of_near that(4)
    by (fastforce simp: japan_equinox_def equinox_ok_def simp del: f_to_i32.simps)
  from this [of _ 20691150] this [of _ 23090000]
  show "japan_equinox japan_exact_vernal_equinox_time y = equinox_micros 20691150 y div 1000000"
    "japan_equinox japan_exact_autumnal_equinox_time y = equinox_micros 23090000 y div 1000000"
    using ok by (simp_all add: japan_exact_vernal_equinox_time_def japan_exact_autumnal_equinox_time_def)
qed

text \<open>In every supported year the floating-point equinoxes of the Japanese calendar are those of the same
  formula in exact decimal arithmetic: no rounding error moves an equinox holiday to another day.\<close>

lemma equinoxes_are_exact:
  assumes "1901 \<le> y" "y \<le> 2199"
  shows "japan_equinox japan_exact_vernal_equinox_time y = equinox_micros 20691150 y div 1000000 \<and>
    japan_equinox japan_exact_autumnal_equinox_time y = equinox_micros 23090000 y div 1000000"
  using equinox_day [OF assms] by simp

text \<open>From 2000 to 2091 they fall on 20 or 21 March and on 22 or 23 September. Before 2000 and after 2099 the count of leap years
  is off, since the division truncates towards zero before 2000 and the terms of the centuries have each other's
  sign: the equinox of 1997 is given as the 19th of March, and that of 2104 as the 18th.\<close>

lemma equinoxes_of_our_time:
  assumes "2000 \<le> y" "y \<le> 2091"
  shows "japan_equinox japan_exact_vernal_equinox_time y \<in> {20, 21}" "japan_equinox japan_exact_autumnal_equinox_time y \<in> {22, 23}"
proof -
  have "all_upto 2000 2091 (\<lambda>y. equinox_micros 20691150 y div 1000000 \<in> {20, 21} \<and> equinox_micros 23090000 y div 1000000 \<in> {22, 23})"
    by code_simp
  from all_uptoD [OF this assms]
  show "japan_equinox japan_exact_vernal_equinox_time y \<in> {20, 21}" "japan_equinox japan_exact_autumnal_equinox_time y \<in> {22, 23}"
    using equinox_day [of y] assms by auto
qed

lemma equinoxes_before_and_after:
  "japan_equinox japan_exact_vernal_equinox_time 1997 = 19" "japan_equinox japan_exact_vernal_equinox_time 2104 = 18"
  by (simp_all add: equinox_day equinox_micros_def japan_number_of_leap_years_def signed_divide_int_def)

end
