(* ===== verification/Date_Text.thy ===== *)
theory Date_Text
  imports Date_Periods Ascii Floats
begin

text \<open>
  Dates and periods as text and as numbers: the output formats of \<open>date.rs\<close> (\<open>Display\<close> and the module
  \<open>io\<close>), the ordinal of \<open>dataformatters.rs\<close>, and the conversions of a period into years, months, weeks
  and days (\<open>period.rs\<close>), whose results are floating-point numbers.
\<close>

section \<open>Dates\<close>

definition null_date_text :: string where
  "null_date_text = ''null date''"

definition date_display :: "date \<Rightarrow> string option" where
  "date_display d =
     (if d = date_null then Some null_date_text
      else do {
        y \<leftarrow> date_year d;
        m \<leftarrow> date_month d;
        dd \<leftarrow> date_day_of_month d;
        Some (pad_dec 4 y @ ''-'' @ pad_dec 2 (month_ordinal m) @ ''-'' @ pad_dec 2 dd)
      })"

definition iso_date_display :: "date \<Rightarrow> string option" where
  "iso_date_display d =
     (if d = date_null then Some null_date_text
      else do {
        y \<leftarrow> date_year d;
        m \<leftarrow> date_month d;
        dd \<leftarrow> date_day_of_month d;
        Some (pad_dec 4 y @ ''-'' @ pad_dec 2 (month_ordinal m) @ ''-'' @ pad_dec 2 dd)
      })"

definition short_date_display :: "date \<Rightarrow> string option" where
  "short_date_display d =
     (if d = date_null then Some null_date_text
      else do {
        m \<leftarrow> date_month d;
        dd \<leftarrow> date_day_of_month d;
        y \<leftarrow> date_year d;
        Some (pad_dec 2 (month_ordinal m) @ ''/'' @ pad_dec 2 dd @ ''/'' @ show_int y)
      })"

definition ordinal_suffix :: "int \<Rightarrow> string" where
  "ordinal_suffix n =
     (if 11 \<le> n \<and> n \<le> 13 then ''th''
      else if n smod 10 = 1 then ''st''
      else if n smod 10 = 2 then ''nd''
      else if n smod 10 = 3 then ''rd''
      else ''th'')"

definition long_date_display :: "date \<Rightarrow> string option" where
  "long_date_display d =
     (if d = date_null then Some null_date_text
      else do {
        day \<leftarrow> date_day_of_month d;
        m \<leftarrow> date_month d;
        y \<leftarrow> date_year d;
        Some (month_name m @ '' '' @ show_int day @ ordinal_suffix day @ '', '' @ show_int y)
      })"

text \<open>The ordinal of a count (\<open>dataformatters.rs\<close>); counts are not negative.\<close>

definition ordinal :: "nat \<Rightarrow> string" where
  "ordinal n =
     (let suffix = (if (n mod 10, n mod 100) \<in> {(1, 11), (2, 12), (3, 13)} then ''th''
                    else if n mod 10 = 1 then ''st''
                    else if n mod 10 = 2 then ''nd''
                    else if n mod 10 = 3 then ''rd''
                    else ''th'')
      in show_dec (int n) @ suffix)"

section \<open>The lengths of a period\<close>

definition years :: "period \<Rightarrow> f64 ql_result" where
  "years p =
     (if period_length p = 0 then Inr (Fin 0)
      else case period_units p of
        Months \<Rightarrow> Inr (f_div (f_of_int (period_length p)) (Fin 12))
      | Years \<Rightarrow> Inr (f_of_int (period_length p))
      | _ \<Rightarrow> Inl CannotConvertPeriod)"

definition months :: "period \<Rightarrow> f64 ql_result" where
  "months p =
     (if period_length p = 0 then Inr (Fin 0)
      else case period_units p of
        Months \<Rightarrow> Inr (f_of_int (period_length p))
      | Years \<Rightarrow> Inr (f_mul (f_of_int (period_length p)) (Fin 12))
      | _ \<Rightarrow> Inl CannotConvertPeriod)"

definition weeks :: "period \<Rightarrow> f64 ql_result" where
  "weeks p =
     (if period_length p = 0 then Inr (Fin 0)
      else case period_units p of
        Days \<Rightarrow> Inr (f_div (f_of_int (period_length p)) (Fin 7))
      | Weeks \<Rightarrow> Inr (f_of_int (period_length p))
      | _ \<Rightarrow> Inl CannotConvertPeriod)"

definition days :: "period \<Rightarrow> f64 ql_result" where
  "days p =
     (if period_length p = 0 then Inr (Fin 0)
      else case period_units p of
        Days \<Rightarrow> Inr (f_of_int (period_length p))
      | Weeks \<Rightarrow> Inr (f_mul (f_of_int (period_length p)) (Fin 7))
      | _ \<Rightarrow> Inl CannotConvertPeriod)"

text \<open>On an \<open>i32\<close> length the conversions to the smaller unit are exact, and they fail on the other kind of period.\<close>

lemma i32_length_small: "i32_range n \<Longrightarrow> \<bar>n\<bar> < 2 ^ 53 \<and> \<bar>n * 12\<bar> < 2 ^ 53 \<and> \<bar>n * 7\<bar> < 2 ^ 53"
  by (auto simp: i32_range_def abs_less_iff)

lemma fl_int: "\<bar>i\<bar> < 2 ^ 53 \<Longrightarrow> fl (of_int i) = Fin (of_int i)"
  using f_of_int [of i] by (simp add: f_of_int_def)

lemma small_units_exact:
  assumes "i32_range (period_length p)" "period_length p \<noteq> 0"
  shows "months p = (case period_value p of Some (InMonths, n) \<Rightarrow> Inr (Fin (of_int n)) | _ \<Rightarrow> Inl CannotConvertPeriod)"
    and "days p = (case period_value p of Some (InDays, n) \<Rightarrow> Inr (Fin (of_int n)) | _ \<Rightarrow> Inl CannotConvertPeriod)"
  using assms i32_length_small [OF assms(1)] fl_int [of "period_length p * 12"] fl_int [of "period_length p * 7"]
  by (auto simp: months_def days_def period_value_def f_of_int mult.commute split: time_unit.splits)

lemma big_units_exact:
  assumes "i32_range (period_length p)" "period_length p \<noteq> 0"
  shows "years p = (case period_value p of Some (InMonths, n) \<Rightarrow> Inr (fl (of_int n / 12)) | _ \<Rightarrow> Inl CannotConvertPeriod)"
    and "weeks p = (case period_value p of Some (InDays, n) \<Rightarrow> Inr (fl (of_int n / 7)) | _ \<Rightarrow> Inl CannotConvertPeriod)"
  using assms i32_length_small [OF assms(1)]
  by (auto simp: years_def weeks_def period_value_def f_of_int fl_int split: time_unit.splits)

end
