(* ===== verification/Text_Properties.thy ===== *)
theory Text_Properties
  imports Data_Parsers
begin

text \<open>
  What reading and writing dates and periods guarantees: the parsers invert the output formats, a
  compound period is the sum of its members, and reading a date never panics.
\<close>

section \<open>Periods\<close>

text \<open>A period in days, weeks, months or years, written with its display format and parsed again, is the same
  period, at every length an \<open>i32\<close> holds.\<close>

lemma period_text_round_trip:
  assumes "readable p"
  shows "parse_period (period_display p) = Some (Inr p)"
  using parse_periods [of p "[]"] assms by (simp add: periods_text_def)

text \<open>The kind and the size of a period: its number of months or of days.\<close>

definition of_kind :: "measure_kind \<Rightarrow> period \<Rightarrow> bool" where
  "of_kind k p \<longleftrightarrow> map_option fst (period_value p) = Some k"

definition size_in :: "period \<Rightarrow> int" where
  "size_in p = (case period_value p of Some (k, n) \<Rightarrow> n | None \<Rightarrow> 0)"

lemma of_kind_value: "of_kind k p \<longleftrightarrow> period_value p = Some (k, size_in p)"
  by (auto simp: of_kind_def size_in_def split: option.splits)

lemma same_kind_summable: "of_kind k p \<Longrightarrow> of_kind k q \<Longrightarrow> is_summable p q"
  by (auto simp: of_kind_def is_summable_def period_value_def split: time_unit.splits)

lemma period_add_within:
  assumes "of_kind k p" "of_kind k q" "\<bar>size_in p\<bar> + \<bar>size_in q\<bar> \<le> 2147483647"
  shows "\<exists>r. period_add p q = Some r \<and> of_kind k r \<and> size_in r = size_in p + size_in q"
proof -
  have fits: "i32_range x" if "\<bar>x\<bar> \<le> \<bar>size_in p\<bar> + \<bar>size_in q\<bar>" for x
    using that assms(3) by (auto simp: i32_range_def abs_le_iff)
  have sizes: "size_in p = (if k = InMonths then if period_units p = Years then 12 * period_length p else period_length p
      else if period_units p = Weeks then 7 * period_length p else period_length p)"
    "size_in q = (if k = InMonths then if period_units q = Years then 12 * period_length q else period_length q
      else if period_units q = Weeks then 7 * period_length q else period_length q)"
    and units: "period_units p \<in> (if k = InMonths then {Months, Years} else {Days, Weeks})"
    "period_units q \<in> (if k = InMonths then {Months, Years} else {Days, Weeks})"
    using assms(1,2) by (auto simp: of_kind_def size_in_def period_value_def split: time_unit.splits)
  have "i32_range (size_in p)" "i32_range (size_in q)" "i32_range (size_in p + size_in q)" "i32_range (period_length p + period_length q)"
    if "k = k" using fits sizes by (simp_all add: abs_triangle_ineq split: if_splits)
  then have "period_add p q \<noteq> None"
    using units by (cases k) (auto simp: period_add_def sizes mult.commute add.commute i32_in_range)
  then obtain r where "period_add p q = Some r" by blast
  moreover from this have "period_value r = Some (k, size_in p + size_in q)"
    using period_add_value assms(1,2) by (auto simp: of_kind_value)
  ultimately show ?thesis by (auto simp: of_kind_def size_in_def)
qed

lemma add_periods_within:
  "of_kind k r \<Longrightarrow> list_all (of_kind k) ps \<Longrightarrow> \<bar>size_in r\<bar> + (\<Sum>p\<leftarrow>ps. \<bar>size_in p\<bar>) \<le> 2147483647 \<Longrightarrow>
    \<exists>t. add_periods r ps = Some (Inr t) \<and> of_kind k t \<and> size_in t = size_in r + (\<Sum>p\<leftarrow>ps. size_in p)"
proof (induction ps arbitrary: r)
  case (Cons p ps)
  have "0 \<le> (\<Sum>p\<leftarrow>ps. \<bar>size_in p\<bar>)" by (induction ps) auto
  then have "\<bar>size_in r\<bar> + \<bar>size_in p\<bar> \<le> 2147483647" using Cons.prems(3) by simp
  moreover have k: "of_kind k p" "list_all (of_kind k) ps" using Cons.prems(2) by simp_all
  ultimately obtain q where q: "period_add r p = Some q" "of_kind k q" "size_in q = size_in r + size_in p"
    using period_add_within Cons.prems(1) by blast
  have "\<bar>size_in q\<bar> + (\<Sum>p\<leftarrow>ps. \<bar>size_in p\<bar>) \<le> 2147483647" using Cons.prems(3) q(3) by simp
  from Cons.IH [OF q(2) k(2) this] show ?case
    using q(1,3) same_kind_summable [OF Cons.prems(1) k(1)] by (simp add: add.assoc)
qed simp

text \<open>Compound periods add up. Periods of one kind (months and years, or days and weeks), written one after the
  other, parse to a single period of that kind whose size in months or days is the sum of theirs, as long
  as their sizes together fit an \<open>i32\<close>.\<close>

lemma compound_periods_add_up:
  assumes "list_all readable (p # ps)" "list_all (of_kind k) (p # ps)" "(\<Sum>q\<leftarrow>p # ps. \<bar>size_in q\<bar>) \<le> 2147483647"
  shows "\<exists>t. parse_period (periods_text (p # ps)) = Some (Inr t) \<and> of_kind k t \<and> size_in t = (\<Sum>q\<leftarrow>p # ps. size_in q)"
  using parse_periods [OF assms(1)] add_periods_within [of k p ps] assms(2,3) by simp

text \<open>Two periods of different kinds, neither empty, are refused; and a sum that leaves the range panics, although
  the parser promises an error for whatever it cannot add.\<close>

lemma mixed_kinds_are_refused:
  assumes "readable p" "readable q" "of_kind InMonths p = of_kind InDays q" "period_length p \<noteq> 0" "period_length q \<noteq> 0"
  shows "parse_period (periods_text [p, q]) = Some (Inl ImpossibleAddition)"
  using parse_periods [of p "[q]"] assms
  by (auto simp: readable_def parsable_unit_def of_kind_def period_value_def is_summable_def)

lemma parse_period_overflows: "parse_period ''2147483647M1M'' = None"
  by code_simp

section \<open>Dates\<close>

lemma show_dec_length:
  "0 \<le> n \<Longrightarrow> n < 10 \<Longrightarrow> length (show_dec n) = 1"
  "10 \<le> n \<Longrightarrow> n < 100 \<Longrightarrow> length (show_dec n) = 2"
  "1000 \<le> n \<Longrightarrow> n < 10000 \<Longrightarrow> length (show_dec n) = 4"
proof -
  show "0 \<le> n \<Longrightarrow> n < 10 \<Longrightarrow> length (show_dec n) = 1" by (subst show_dec.simps) simp
  show "10 \<le> n \<Longrightarrow> n < 100 \<Longrightarrow> length (show_dec n) = 2" by (simp add: show_dec.simps [of n] show_dec.simps [of "n div 10"])
  assume n: "1000 \<le> n" "n < 10000"
  define t where "t = n div 10 div 10"
  have "\<not> n < 10" "100 \<le> n div 10" "10 \<le> t" "t div 10 < 10" using n by (auto simp: t_def)
  then show "length (show_dec n) = 4"
    by (simp add: show_dec.simps [of n] show_dec.simps [of "n div 10"] show_dec.simps [of t] show_dec.simps [of "t div 10"] t_def [symmetric])
qed

lemma pad_dec_length: "1000 \<le> n \<Longrightarrow> n < 10000 \<Longrightarrow> length (pad_dec 4 n) = 4" "0 \<le> k \<Longrightarrow> k < 100 \<Longrightarrow> length (pad_dec 2 k) = 2"
  using show_dec_length(1,2) [of k] show_dec_length(3) [of n] by (cases "k < 10"; simp add: pad_dec_def Let_def)+

lemma parse_pad_dec:
  assumes "0 \<le> n" "i32_range n"
  shows "parse_i32 (pad_dec w n) = Some n"
proof -
  have "list_all is_ascii_digit (pad_dec w n)"
    using show_dec_digits [OF assms(1)] by (auto simp: pad_dec_def Let_def list_all_iff is_ascii_digit_def byte_def)
  moreover have "parse_digits 0 (pad_dec w n) = Some n"
    using parse_digits_show_dec [OF assms(1)] by (simp add: pad_dec_def Let_def parse_digits_zeros)
  ultimately show ?thesis using parse_i32_digits(1) assms(2) by (simp add: pad_dec_def Let_def)
qed

lemma iso_fields:
  assumes "length a = 4" "length b = 2" "length c = 2"
  shows "length (a @ ''-'' @ b @ ''-'' @ c) = 10" "(a @ ''-'' @ b @ ''-'' @ c) ! 4 = CHR ''-''" "(a @ ''-'' @ b @ ''-'' @ c) ! 7 = CHR ''-''"
    "take 4 (a @ ''-'' @ b @ ''-'' @ c) = a" "drop 5 (take 7 (a @ ''-'' @ b @ ''-'' @ c)) = b"
    "drop 8 (take 10 (a @ ''-'' @ b @ ''-'' @ c)) = c"
  using assms by (simp_all add: nth_append take_Cons' drop_Cons')

text \<open>What the parser makes of three numbers.\<close>

lemma parse_iso_numbers:
  assumes "length s = 10" "s ! 4 = CHR ''-''" "s ! 7 = CHR ''-''"
    and "parse_i32 (take 4 s) = Some y" "parse_i32 (drop 5 (take 7 s)) = Some mm" "parse_i32 (drop 8 (take 10 s)) = Some dd"
  shows "parse_iso_date s = Some (case month_from_ordinal mm of None \<Rightarrow> Inl InvalidDateFormat
    | Some m \<Rightarrow> (case date_new dd m y of None \<Rightarrow> Inl InvalidDateFormat | Some d \<Rightarrow> Inr d))"
proof (cases "1901 \<le> y \<and> y \<le> 2199 \<and> 1 \<le> mm \<and> mm \<le> 12")
  case True
  then obtain m where m: "month_from_ordinal mm = Some m" using month_from_ordinal_total by blast
  have l: "1 \<le> mlen m (gregorian_leap y)" using mlen_bounds [of m "gregorian_leap y"] by simp
  then obtain f where f: "date_new 1 m y = Some f" using True by (simp add: date_new_Some)
  obtain e where e: "date_new (mlen m (gregorian_leap y)) m y = Some e" using True l by (simp add: date_new_Some)
  have "date_end_of_month f = Some e" "date_day_of_month e = Some (mlen m (gregorian_leap y))"
    using date_end_of_month_eq [OF f] e date_new_inspect(3) [OF e] by simp_all
  moreover have "date_new dd m y = None \<longleftrightarrow> \<not> (1 \<le> dd \<and> dd \<le> mlen m (gregorian_leap y))"
    using True date_new_Some [of dd m y "Date (dd + moff m (gregorian_leap y) + days_before_year y)"]
    by (cases "date_new dd m y") (auto simp: date_new_Some)
  ultimately show ?thesis
    using assms True m f by (cases "date_new dd m y") (simp_all add: parse_iso_date_def)
next
  case False
  have "month_from_ordinal mm = Some m \<Longrightarrow> date_new dd m y = None" for m
    using False month_ordinal_range [of m] by (cases "date_new dd m y") (auto simp: month_from_ordinal_Some date_new_Some)
  then show ?thesis using False assms by (auto simp: parse_iso_date_def split: option.splits)
qed

text \<open>C28. Every supported date, written by its display or by the ISO format, is read back by the ISO parser.\<close>

theorem iso_date_round_trip:
  assumes "valid_date d"
  shows "\<exists>s. date_display d = Some s \<and> iso_date_display d = Some s \<and> parse_iso_date s = Some (Inr d)"
proof -
  obtain dd m y where i: "date_year d = Some y" "date_month d = Some m" "date_day_of_month d = Some dd" "date_new dd m y = Some d"
    using date_inspect [OF assms] by metis
  have y: "1901 \<le> y" "y \<le> 2199" and dd: "1 \<le> dd" "dd \<le> 31"
    using i(4) mlen_bounds [of m "gregorian_leap y"] by (auto simp: date_new_Some)
  have m: "1 \<le> month_ordinal m" "month_ordinal m \<le> 12" using month_ordinal_range [of m] by simp_all
  have nn: "d \<noteq> date_null" using assms by (auto simp: valid_date_iff date_null_def)
  define s where "s = pad_dec 4 y @ ''-'' @ pad_dec 2 (month_ordinal m) @ ''-'' @ pad_dec 2 dd"
  have "length (pad_dec 4 y) = 4" "length (pad_dec 2 (month_ordinal m)) = 2" "length (pad_dec 2 dd) = 2"
    using y dd m by (simp_all add: pad_dec_length)
  note fields = iso_fields [OF this, folded s_def]
  have "parse_iso_date s = Some (Inr d)"
    using parse_iso_numbers [OF fields(1-3)] fields(4-6) i(4) y dd m by (simp add: parse_pad_dec i32_range_def)
  then show ?thesis using i nn by (simp add: date_display_def iso_date_display_def s_def)
qed

lemma iso_date_round_trip_witness: "\<exists>s. date_display (Date 38732) = Some s \<and> iso_date_display (Date 38732) = Some s \<and> parse_iso_date s = Some (Inr (Date 38732))"
  by (rule iso_date_round_trip) (simp add: valid_date_iff)

text \<open>The ISO parser is safe on untrusted text: whatever the bytes it returns, without a panic, either an error or
  a supported date.\<close>

lemma iso_parser_never_panics:
  "\<exists>r. parse_iso_date s = Some r \<and> (case r of Inl e \<Rightarrow> e = InvalidDateFormat | Inr d \<Rightarrow> valid_date d)"
proof (cases "length s = 10 \<and> s ! 4 = CHR ''-'' \<and> s ! 7 = CHR ''-''")
  case True
  show ?thesis
  proof (cases "parse_i32 (take 4 s) = None \<or> parse_i32 (drop 5 (take 7 s)) = None \<or> parse_i32 (drop 8 (take 10 s)) = None")
    case True
    then show ?thesis by (auto simp: parse_iso_date_def split: option.splits)
  next
    case False
    then show ?thesis
      using parse_iso_numbers \<open>length s = 10 \<and> _\<close> by (auto split: option.splits intro: valid_intros)
  qed
qed (simp add: parse_iso_date_def)

text \<open>The fields go through the integer parser, which takes a sign: the format is wider than four, two and two digits.\<close>

lemma iso_parser_takes_signs: "parse_iso_date ''2006-+1-+5'' = parse_iso_date ''2006-01-05''"
  by code_simp

end
