(* ===== verification/Ordered_Tables.thy ===== *)
theory Ordered_Tables
  imports Prelude
begin

text \<open>
  The ordered collections of the standard library: a \<open>BTreeMap\<close> is the list of its entries in ascending
  order of keys, a \<open>BTreeSet\<close> the ascending list of its members. Insertion and removal keep the order, and
  are those of maps and sets.
\<close>

fun btree_insert :: "'k::linorder \<Rightarrow> 'v \<Rightarrow> ('k \<times> 'v) list \<Rightarrow> ('k \<times> 'v) list" where
  "btree_insert k v [] = [(k, v)]"
| "btree_insert k v ((j, w) # es) =
     (if k < j then (k, v) # (j, w) # es
      else if k = j then (k, v) # es
      else (j, w) # btree_insert k v es)"

fun btree_add :: "'k::linorder \<Rightarrow> 'k list \<Rightarrow> 'k list" where
  "btree_add k [] = [k]"
| "btree_add k (j # js) = (if k < j then k # j # js else if k = j then j # js else j # btree_add k js)"

definition btree_remove :: "'k::linorder \<Rightarrow> 'k list \<Rightarrow> 'k list" where
  "btree_remove k js = filter (\<lambda>j. j \<noteq> k) js"

definition last_opt :: "'a list \<Rightarrow> 'a option" where
  "last_opt xs = (if xs = [] then None else Some (last xs))"

definition head_opt :: "'a list \<Rightarrow> 'a option" where
  "head_opt xs = (case xs of [] \<Rightarrow> None | x # _ \<Rightarrow> Some x)"

definition ascending :: "'k::linorder list \<Rightarrow> bool" where
  "ascending ks \<longleftrightarrow> sorted_wrt (<) ks"

lemma set_btree_add [simp]: "set (btree_add k js) = insert k (set js)"
  by (induction k js rule: btree_add.induct) auto

lemma ascending_btree_add: "ascending js \<Longrightarrow> ascending (btree_add k js)"
  unfolding ascending_def by (induction k js rule: btree_add.induct) auto

lemma set_btree_remove [simp]: "set (btree_remove k js) = set js - {k}"
  by (auto simp: btree_remove_def)

lemma ascending_btree_remove: "ascending js \<Longrightarrow> ascending (btree_remove k js)"
  unfolding ascending_def btree_remove_def by (rule sorted_wrt_filter)

lemma keys_btree_insert [simp]: "fst ` set (btree_insert k v es) = insert k (fst ` set es)"
  by (induction k v es rule: btree_insert.induct) auto

lemma ascending_btree_insert: "ascending (map fst es) \<Longrightarrow> ascending (map fst (btree_insert k v es))"
proof (induction k v es rule: btree_insert.induct)
  case (2 k v j w es)
  have "\<forall>x \<in> fst ` set (btree_insert k v es). j < x" if "j < k" "\<forall>x \<in> fst ` set es. j < x"
    using that by simp
  then show ?case using 2 by (fastforce simp: ascending_def)
qed (simp add: ascending_def)

lemma map_of_btree_insert: "ascending (map fst es) \<Longrightarrow> map_of (btree_insert k v es) = (map_of es)(k \<mapsto> v)"
proof (induction k v es rule: btree_insert.induct)
  case (2 k v j w es)
  have "map_of es k = None" if "k < j" using 2(2) that by (force simp: ascending_def map_of_eq_None_iff)
  then show ?case using 2 by (auto simp: ascending_def fun_eq_iff)
qed simp

text \<open>In an ascending list the first member that passes a test is the least one.\<close>

lemma head_filter_least:
  assumes "ascending js"
  shows "head_opt (filter p js) = Some k \<longleftrightarrow> k \<in> set js \<and> p k \<and> (\<forall>j \<in> set js. p j \<longrightarrow> k \<le> j)"
  using assms
proof (induction js)
  case (Cons j js)
  then show ?case by (cases "p j") (fastforce simp: ascending_def head_opt_def)+
qed (simp add: head_opt_def)

lemma ascending_ends: "sorted_wrt (<) ks \<Longrightarrow> ks \<noteq> [] \<Longrightarrow> hd ks = Min (set ks) \<and> last ks = Max (set ks)"
  for ks :: "'k::linorder list"
proof (induction ks)
  case (Cons k ks)
  then show ?case by (cases "ks = []") (auto simp: min_def max_def less_imp_le dest: less_trans)
qed simp

lemma head_opt_None [simp]: "head_opt xs = None \<longleftrightarrow> xs = []"
  by (simp add: head_opt_def split: list.splits)

end
