(* ===== verification/Time_Series.thy ===== *)
theory Time_Series
  imports Ordered_Tables Date_Periods
begin

text \<open>
  \<open>time/timeseries.rs\<close>: values by date, in ascending order of dates. A series refines the finite map of the
  last value written at each date.
\<close>

record 'a time_series =
  ts_values :: "(date \<times> 'a) list"

definition time_series_new :: "'a time_series" where
  "time_series_new = \<lparr>ts_values = []\<rparr>"

definition ts_get :: "'a time_series \<Rightarrow> date \<Rightarrow> 'a option" where
  "ts_get s d = map_of (ts_values s) d"

text \<open>\<open>insert\<close> returns the value it replaces, with the updated series.\<close>

definition ts_insert :: "date \<Rightarrow> 'a \<Rightarrow> 'a time_series \<Rightarrow> ql_error + ('a option \<times> 'a time_series)" where
  "ts_insert d v s =
     (if serial_number d = 0 then Inl NullTimeSeriesDate
      else Inr (ts_get s d, s\<lparr>ts_values := btree_insert d v (ts_values s)\<rparr>))"

fun insert_pairs :: "(date \<times> 'a) list \<Rightarrow> 'a time_series \<Rightarrow> 'a time_series ql_result" where
  "insert_pairs [] s = Inr s"
| "insert_pairs ((d, v) # ps) s = (case ts_insert d v s of Inl e \<Rightarrow> Inl e | Inr (_, s') \<Rightarrow> insert_pairs ps s')"

definition ts_from_pairs :: "(date \<times> 'a) list \<Rightarrow> 'a time_series ql_result" where
  "ts_from_pairs ps = insert_pairs ps time_series_new"

definition ts_len :: "'a time_series \<Rightarrow> nat" where
  "ts_len s = length (ts_values s)"

definition ts_is_empty :: "'a time_series \<Rightarrow> bool" where
  "ts_is_empty s \<longleftrightarrow> ts_values s = []"

definition ts_first_date :: "'a time_series \<Rightarrow> date option" where
  "ts_first_date s = map_option fst (head_opt (ts_values s))"

definition ts_last_date :: "'a time_series \<Rightarrow> date option" where
  "ts_last_date s = map_option fst (last_opt (ts_values s))"

definition ts_iter :: "'a time_series \<Rightarrow> (date \<times> 'a) list" where
  "ts_iter s = ts_values s"

text \<open>The closure of \<open>map_values\<close> may have state; it sees the values in ascending order of dates.\<close>

fun map_entries :: "('a \<Rightarrow> 's \<Rightarrow> 'b \<times> 's) \<Rightarrow> (date \<times> 'a) list \<Rightarrow> 's \<Rightarrow> (date \<times> 'b) list \<times> 's" where
  "map_entries f [] s = ([], s)"
| "map_entries f ((d, v) # es) s = (let (w, s') = f v s; (r, s'') = map_entries f es s' in ((d, w) # r, s''))"

definition ts_map_values :: "('a \<Rightarrow> 's \<Rightarrow> 'b \<times> 's) \<Rightarrow> 'a time_series \<Rightarrow> 's \<Rightarrow> 'b time_series \<times> 's" where
  "ts_map_values f t s = (let (es, s') = map_entries f (ts_values t) s in (\<lparr>ts_values = es\<rparr>, s'))"

section \<open>The map a series refines\<close>

definition series_ok :: "'a time_series \<Rightarrow> bool" where
  "series_ok s \<longleftrightarrow> ascending (map fst (ts_values s)) \<and> date_null \<notin> fst ` set (ts_values s)"

lemma null_serial: "serial_number d = 0 \<longleftrightarrow> d = date_null"
  by (cases d) (simp add: date_null_def)

lemma series_ok_new [simp]: "series_ok time_series_new"
  by (simp add: series_ok_def time_series_new_def ascending_def)

lemma ts_insert_ok:
  assumes "series_ok s" "ts_insert d v s = Inr (old, s')"
  shows "series_ok s' \<and> ts_get s' = (ts_get s)(d \<mapsto> v) \<and> old = ts_get s d \<and> d \<noteq> date_null"
proof -
  have d: "d \<noteq> date_null" "old = ts_get s d" "s' = s\<lparr>ts_values := btree_insert d v (ts_values s)\<rparr>"
    using assms(2) by (simp_all add: ts_insert_def null_serial split: if_splits)
  then show ?thesis
    using assms(1) by (simp add: series_ok_def ts_get_def [abs_def] ascending_btree_insert map_of_btree_insert)
qed

lemma insert_pairs_map:
  "series_ok s \<Longrightarrow> date_null \<notin> fst ` set ps \<Longrightarrow>
     \<exists>t. insert_pairs ps s = Inr t \<and> series_ok t \<and> ts_get t = ts_get s ++ map_of (rev ps)"
proof (induction ps s rule: insert_pairs.induct)
  case (2 d v ps s)
  then obtain s' where s': "ts_insert d v s = Inr (ts_get s d, s')" by (auto simp: ts_insert_def null_serial)
  note ok = ts_insert_ok [OF 2(2) s']
  have "(ts_get s)(d \<mapsto> v) ++ map_of (rev ps) = ts_get s ++ map_of (rev ((d, v) # ps))"
    by (simp add: map_add_assoc flip: map_add_upd [of "ts_get s" Map.empty])
  moreover obtain t where t: "insert_pairs ps s' = Inr t" "series_ok t" "ts_get t = ts_get s' ++ map_of (rev ps)"
    using 2(1) [OF s' refl conjunct1 [OF ok]] 2(3) by fastforce
  ultimately have "ts_get t = ts_get s ++ map_of (rev ((d, v) # ps))" using ok by simp
  with t(1,2) show ?case by (simp add: s')
qed auto

lemma insert_pairs_null: "date_null \<in> fst ` set ps \<Longrightarrow> insert_pairs ps s = Inl NullTimeSeriesDate"
proof (induction ps s rule: insert_pairs.induct)
  case (2 d v ps s)
  then show ?case by (cases "d = date_null") (auto simp: ts_insert_def null_serial)
qed simp

text \<open>A time series is the map of its last writes. Building it from any pairs fails exactly when one of the dates is
  null; otherwise looking up a date gives the last value paired with it, the entries are in strictly
  ascending order of dates, and the first and the last date are the least and the greatest one.\<close>

lemma series_is_last_write_map:
  "case ts_from_pairs ps of
     Inl e \<Rightarrow> e = NullTimeSeriesDate \<and> date_null \<in> fst ` set ps
   | Inr s \<Rightarrow> date_null \<notin> fst ` set ps \<and> ts_get s = map_of (rev ps) \<and> sorted_wrt (<) (map fst (ts_iter s))
       \<and> ts_len s = card (fst ` set ps)
       \<and> (ts_is_empty s = (ps = []))
       \<and> (ps = [] \<or> (ts_first_date s = Some (Min (fst ` set ps)) \<and> ts_last_date s = Some (Max (fst ` set ps))))"
proof (cases "date_null \<in> fst ` set ps")
  case True
  then show ?thesis by (simp add: ts_from_pairs_def insert_pairs_null)
next
  case False
  obtain s where s: "ts_from_pairs ps = Inr s" "series_ok s" "ts_get s = map_of (rev ps)"
    using insert_pairs_map [OF series_ok_new False] by (auto simp: ts_from_pairs_def ts_get_def [abs_def] time_series_new_def)
  define ks where "ks = map fst (ts_values s)"
  have ks: "sorted_wrt (<) ks" using s(2) by (simp add: series_ok_def ascending_def ks_def)
  have keys: "set ks = fst ` set ps"
    using s(3) dom_map_of_conv_image_fst [of "ts_values s"] dom_map_of_conv_image_fst [of "rev ps"]
    by (simp add: ts_get_def [abs_def] ks_def)
  have "length ks = card (fst ` set ps)"
    using ks keys distinct_card [of ks] by (simp add: strict_sorted_iff)
  moreover have "hd ks = Min (set ks) \<and> last ks = Max (set ks)" if "ks \<noteq> []"
    using ks that by (rule ascending_ends)
  moreover have "ks = [] \<longleftrightarrow> ps = []" using keys by (metis image_is_empty set_empty)
  ultimately show ?thesis
    using s(1,3) False ks keys
    by (auto simp: ts_iter_def ts_len_def ts_is_empty_def ts_first_date_def ts_last_date_def head_opt_def last_opt_def ks_def
        hd_map last_map split: list.splits) (metis prod.collapse)
qed

text \<open>\<open>map_values\<close> keeps the dates.\<close>

lemma map_entries_keys: "map fst (fst (map_entries f es s)) = map fst es"
  by (induction f es s rule: map_entries.induct) (auto simp: Let_def split: prod.splits)

lemma map_values_keeps_dates: "map fst (ts_iter (fst (ts_map_values f t s))) = map fst (ts_iter t)"
  using map_entries_keys [of f "ts_values t" s]
  by (cases "map_entries f (ts_values t) s") (simp add: ts_map_values_def ts_iter_def)

end
