(* ===== verification/Ecb_Dates.thy ===== *)
theory Ecb_Dates
  imports Ordered_Tables Ascii Date_Periods
begin

text \<open>
  \<open>time/ecb.rs\<close>: the start dates of the reserve maintenance periods of the European Central Bank. An
  \<open>Ecb\<close> owns an ordered set of dates; codes are a month name and two digits of a year. The next date is
  the least later one, whatever was added and removed, and codes name dates uniquely within a century.
\<close>

section \<open>Codes\<close>

definition MONTH_NAMES :: "string list" where
  "MONTH_NAMES = [''JAN'', ''FEB'', ''MAR'', ''APR'', ''MAY'', ''JUN'', ''JUL'', ''AUG'', ''SEP'', ''OCT'', ''NOV'', ''DEC'']"

definition month_from_code :: "string \<Rightarrow> month option option" where
  "month_from_code code =
     (let upper = map to_ascii_uppercase (take 3 code) in
      case position (\<lambda>name. name = upper) MONTH_NAMES of
        None \<Rightarrow> Some None
      | Some index \<Rightarrow> do { m \<leftarrow> month_from_ordinal (int index + 1); Some (Some m) })"

definition is_ecb_code :: "string \<Rightarrow> bool option" where
  "is_ecb_code code =
     (if length code \<noteq> 5 then Some False
      else do {
        m \<leftarrow> month_from_code (take 3 code);
        Some (m \<noteq> None \<and> is_ascii_digit (code ! 3) \<and> is_ascii_digit (code ! 4))
      })"

definition two_digits :: "string \<Rightarrow> int" where
  "two_digits code = digit_value (code ! 3) * 10 + digit_value (code ! 4)"

definition next_code_from_code :: "string \<Rightarrow> string ql_result option" where
  "next_code_from_code ecb_code = do {
     ok \<leftarrow> is_ecb_code ecb_code;
     if \<not> ok then Some (Inl InvalidEcbCode)
     else do {
       om \<leftarrow> month_from_code (take 3 ecb_code);
       case om of
         None \<Rightarrow> Some (Inl InvalidEcbCode)
       | Some m \<Rightarrow>
           if m \<noteq> December then do {
             name \<leftarrow> tbl_get MONTH_NAMES (month_ordinal m);
             Some (Inr (name @ [ecb_code ! 3, ecb_code ! 4]))
           }
           else Some (Inr (''JAN'' @ pad_dec 2 ((two_digits ecb_code + 1) smod 100)))
     }
   }"

section \<open>The set of dates\<close>

definition KNOWN_DATE_SERIALS :: "int list" where
  "KNOWN_DATE_SERIALS =
     [38371, 38391, 38420, 38455, 38483, 38511, 38546, 38574, 38602, 38637, 38665, 38692, 38735,
      38756, 38784, 38819, 38847, 38883, 38910, 38938, 38966, 39001, 39029, 39064, 39099, 39127,
      39155, 39190, 39217, 39246, 39274, 39302, 39337, 39365, 39400, 39428, 39463, 39491, 39519,
      39554, 39582, 39610, 39638, 39673, 39701, 39729, 39764, 39792, 39834, 39855, 39883, 39911,
      39946, 39974, 40002, 40037, 40065, 40100, 40128, 40155, 40198, 40219, 40247, 40282, 40310,
      40345, 40373, 40401, 40429, 40464, 40492, 40520, 40562, 40583, 40611, 40646, 40674, 40709,
      40737, 40765, 40800, 40828, 40856, 40891, 40926, 40954, 40982, 41010, 41038, 41073, 41101,
      41129, 41164, 41192, 41227, 41255, 41290, 41318, 41346, 41374, 41402, 41437, 41465, 41493,
      41528, 41556, 41591, 41619, 41654, 41682, 41710, 41738, 41773, 41801, 41829, 41864, 41892,
      41920, 41955, 41983, 42032, 42074, 42116, 42165, 42207, 42256, 42305, 42347, 42396, 42445,
      42487, 42529, 42578, 42627, 42669, 42718, 42760, 42809, 42858, 42900, 42942, 42991, 43040,
      43089, 43131, 43167, 43216, 43265, 43307, 43356, 43398, 43447, 43495, 43537, 43572, 43628,
      43677, 43726, 43768, 43817, 43859, 43908, 43957, 43992, 44034, 44090, 44139, 44181, 44223,
      44272, 44314, 44363, 44405, 44454, 44503, 44552, 44601, 44636, 44671, 44727, 44769, 44818,
      44867, 44916, 44965, 45007, 45056, 45098, 45140, 45189, 45231, 45280, 45322, 45364, 45399,
      45455, 45497, 45553, 45588, 45644]"

record ecb =
  known_dates :: "date list"

fun collect_serials :: "int list \<Rightarrow> date list option" where
  "collect_serials [] = Some []"
| "collect_serials (s # ss) = do { d \<leftarrow> date_from_serial s; ds \<leftarrow> collect_serials ss; Some (btree_add d ds) }"

definition ecb_new :: "ecb option" where
  "ecb_new = do { ds \<leftarrow> collect_serials KNOWN_DATE_SERIALS; Some \<lparr>known_dates = ds\<rparr> }"

definition add_date :: "date \<Rightarrow> ecb \<Rightarrow> ecb" where
  "add_date d e = e\<lparr>known_dates := btree_add d (known_dates e)\<rparr>"

definition remove_date :: "date \<Rightarrow> ecb \<Rightarrow> ecb" where
  "remove_date d e = e\<lparr>known_dates := btree_remove d (known_dates e)\<rparr>"

definition none_known :: "ecb \<Rightarrow> ql_error" where
  "none_known e = (case last_opt (known_dates e) of Some _ \<Rightarrow> EcbDatesUnknown | None \<Rightarrow> NoKnownEcbDates)"

text \<open>\<open>first_known_date\<close> over the range that a test on dates, true from some date on, describes.\<close>

definition first_known_date :: "(date \<Rightarrow> bool) \<Rightarrow> ecb \<Rightarrow> date ql_result" where
  "first_known_date in_range e =
     (case head_opt (filter in_range (known_dates e)) of Some d \<Rightarrow> Inr d | None \<Rightarrow> Inl (none_known e))"

definition next_ecb_date :: "ecb \<Rightarrow> date \<Rightarrow> date ql_result" where
  "next_ecb_date e d = first_known_date (\<lambda>x. d < x) e"

definition date_from_month_year :: "ecb \<Rightarrow> month \<Rightarrow> int \<Rightarrow> date ql_result option" where
  "date_from_month_year e m y = do {
     lo \<leftarrow> date_year date_min;
     hi \<leftarrow> date_year date_max;
     if \<not> (lo \<le> y \<and> y \<le> hi) then Some (Inl OutsideSupportedRange)
     else do {
       first \<leftarrow> date_new 1 m y;
       Some (first_known_date (\<lambda>x. first \<le> x) e)
     }
   }"

definition ecb_date :: "ecb \<Rightarrow> string \<Rightarrow> date \<Rightarrow> date ql_result option" where
  "ecb_date e ecb_code reference_date = do {
     ok \<leftarrow> is_ecb_code ecb_code;
     if \<not> ok then Some (Inl InvalidEcbCode)
     else do {
       om \<leftarrow> month_from_code (take 3 ecb_code);
       case om of
         None \<Rightarrow> Some (Inl InvalidEcbCode)
       | Some m \<Rightarrow> do {
           ry \<leftarrow> date_year reference_date;
           let y = two_digits ecb_code + (ry - ry smod 100);
           lo \<leftarrow> date_year date_min;
           if y < lo then Some (next_ecb_date e date_min)
           else do {
             first \<leftarrow> date_new 1 m y;
             Some (first_known_date (\<lambda>x. first \<le> x) e)
           }
         }
     }
   }"

definition is_ecb_date :: "ecb \<Rightarrow> date \<Rightarrow> bool" where
  "is_ecb_date e d \<longleftrightarrow> d \<in> set (known_dates e)"

definition ecb_code :: "ecb \<Rightarrow> date \<Rightarrow> string ql_result option" where
  "ecb_code e d =
     (if \<not> is_ecb_date e d then Some (Inl NotAnEcbDate)
      else do {
        m \<leftarrow> date_month d;
        name \<leftarrow> tbl_get MONTH_NAMES (month_ordinal m - 1);
        y \<leftarrow> date_year d;
        Some (Inr (name @ pad_dec 2 (y smod 100)))
      })"

definition next_date_from_code :: "ecb \<Rightarrow> string \<Rightarrow> date \<Rightarrow> date ql_result option" where
  "next_date_from_code e c reference_date = do {
     r \<leftarrow> ecb_date e c reference_date;
     Some (case r of Inl x \<Rightarrow> Inl x | Inr d \<Rightarrow> next_ecb_date e d)
   }"

definition next_dates :: "ecb \<Rightarrow> date \<Rightarrow> date list ql_result" where
  "next_dates e d =
     (let dates = filter (\<lambda>x. d < x) (known_dates e) in
      if dates = [] then Inl (none_known e) else Inr dates)"

definition next_dates_from_code :: "ecb \<Rightarrow> string \<Rightarrow> date \<Rightarrow> date list ql_result option" where
  "next_dates_from_code e c reference_date = do {
     r \<leftarrow> ecb_date e c reference_date;
     Some (case r of Inl x \<Rightarrow> Inl x | Inr d \<Rightarrow> next_dates e d)
   }"

definition next_code :: "ecb \<Rightarrow> date \<Rightarrow> string ql_result option" where
  "next_code e d = (case next_ecb_date e d of Inl x \<Rightarrow> Some (Inl x) | Inr d' \<Rightarrow> ecb_code e d')"

section \<open>Histories of the set\<close>

definition ecb_ok :: "ecb \<Rightarrow> bool" where
  "ecb_ok e \<longleftrightarrow> ascending (known_dates e)"

datatype edit = Add date | Remove date

fun apply_edit :: "edit \<Rightarrow> ecb \<Rightarrow> ecb" where
  "apply_edit (Add d) = add_date d"
| "apply_edit (Remove d) = remove_date d"

text \<open>What a history leaves in a set: the last edit of a date decides.\<close>

fun edit_set :: "edit \<Rightarrow> date set \<Rightarrow> date set" where
  "edit_set (Add d) ds = insert d ds"
| "edit_set (Remove d) ds = ds - {d}"

lemma ecb_ok_edits: "ecb_ok e \<Longrightarrow> ecb_ok (fold apply_edit es e) \<and> set (known_dates (fold apply_edit es e)) = fold edit_set es (set (known_dates e))"
proof (induction es arbitrary: e)
  case (Cons x es)
  then have "ecb_ok (apply_edit x e) \<and> set (known_dates (apply_edit x e)) = edit_set x (set (known_dates e))"
    by (cases x) (auto simp: ecb_ok_def add_date_def remove_date_def ascending_btree_add ascending_btree_remove)
  with Cons.IH show ?case by simp
qed simp

lemma collect_serials_Some:
  assumes "collect_serials ss = Some ds"
  shows "ascending ds \<and> set ds = Date ` set ss \<and> list_all (\<lambda>s. valid_date (Date s)) ss"
  using assms
proof (induction ss arbitrary: ds)
  case (Cons x ss)
  then show ?case by (auto simp: ascending_btree_add bind_eq_Some_conv)
qed (simp add: ascending_def)

lemma collect_serials_total: "list_all (\<lambda>s. valid_date (Date s)) ss \<Longrightarrow> \<exists>ds. collect_serials ss = Some ds"
  by (induction ss) (auto simp: bind_eq_Some_conv)

lemma serials_valid: "list_all (\<lambda>s. valid_date (Date s)) KNOWN_DATE_SERIALS"
  by code_simp

lemma ecb_new_published: "\<exists>e. ecb_new = Some e \<and> ecb_ok e \<and> set (known_dates e) = Date ` set KNOWN_DATE_SERIALS"
  using collect_serials_total [OF serials_valid] collect_serials_Some by (auto simp: ecb_new_def ecb_ok_def)

text \<open>The next date of the bank. After any history of additions and removals on the published dates, the set holds
  what the history says; the next date after a given one is the least known date after it, the list of next dates
  is all the later ones in order, and both fail exactly when there is none.\<close>

lemma next_ecb_date_is_least:
  assumes "ecb_new = Some e0" "e = fold apply_edit es e0"
  shows "set (known_dates e) = fold edit_set es (Date ` set KNOWN_DATE_SERIALS) \<and>
    (case next_ecb_date e d of
       Inr x \<Rightarrow> x \<in> {x \<in> set (known_dates e). d < x} \<and> x = Min {x \<in> set (known_dates e). d < x}
         \<and> next_dates e d = Inr (sorted_list_of_set {x \<in> set (known_dates e). d < x})
     | Inl err \<Rightarrow> {x \<in> set (known_dates e). d < x} = {} \<and> next_dates e d = Inl err
         \<and> err = (if set (known_dates e) = {} then NoKnownEcbDates else EcbDatesUnknown))"
proof -
  have e0: "ecb_ok e0" "set (known_dates e0) = Date ` set KNOWN_DATE_SERIALS"
    using ecb_new_published unfolding assms(1) by simp_all
  have e: "ecb_ok e" "set (known_dates e) = fold edit_set es (Date ` set KNOWN_DATE_SERIALS)"
    using ecb_ok_edits [OF e0(1), of es] e0(2) assms(2) by simp_all
  define later where "later = filter (\<lambda>x. d < x) (known_dates e)"
  have later: "sorted_wrt (<) later" "set later = {x \<in> set (known_dates e). d < x}"
    using e(1) by (auto simp: later_def ecb_ok_def ascending_def intro: sorted_wrt_filter)
  have list: "sorted_list_of_set {x \<in> set (known_dates e). d < x} = later"
    using later by (metis sorted_list_of_set.idem_if_sorted_distinct strict_sorted_iff)
  show ?thesis
  proof (cases later)
    case Nil
    then show ?thesis using later(2)
      by (intro conjI e(2)) (simp add: next_ecb_date_def first_known_date_def next_dates_def none_known_def head_opt_def last_opt_def flip: later_def)
  next
    case (Cons x xs)
    then have "Min {x \<in> set (known_dates e). d < x} = x" "x \<in> {x \<in> set (known_dates e). d < x}"
      using ascending_ends [OF later(1)] later(2) by auto
    then show ?thesis using list Cons
      by (intro conjI e(2)) (simp add: next_ecb_date_def first_known_date_def next_dates_def head_opt_def flip: later_def)
  qed
qed

section \<open>Codes of dates\<close>

definition ecb_text :: "month \<Rightarrow> int \<Rightarrow> string" where
  "ecb_text m k = MONTH_NAMES ! nat (month_ordinal m - 1) @ pad_dec 2 k"

lemma pad_two:
  assumes "0 \<le> k" "k < 100"
  shows "pad_dec 2 k = [digit_char (k div 10), digit_char (k mod 10)]"
proof -
  have "k div 10 < 10" "digit_char 0 = CHR ''0''" using assms by simp code_simp
  then show ?thesis using assms by (simp add: pad_dec_def Let_def show_dec.simps [of k] show_dec.simps [of "k div 10"])
qed

lemma month_name_code: "length (MONTH_NAMES ! nat (month_ordinal m - 1)) = 3"
    "tbl_get MONTH_NAMES (month_ordinal m - 1) = Some (MONTH_NAMES ! nat (month_ordinal m - 1))"
    "m \<noteq> December \<Longrightarrow> tbl_get MONTH_NAMES (month_ordinal m) = Some (MONTH_NAMES ! nat (month_ordinal (next_month m) - 1))"
  by (cases m; simp add: MONTH_NAMES_def tbl_get.simps next_month_ordinal)+

lemma month_code: "month_from_code (MONTH_NAMES ! nat (month_ordinal m - 1)) = Some (Some m)"
  by (cases m) (simp_all add: MONTH_NAMES_def month_from_code_def to_ascii_uppercase_def byte_def month_from_ordinal_def)

lemma ecb_text_facts:
  assumes "0 \<le> k" "k < 100"
  shows "is_ecb_code (ecb_text m k) = Some True" "month_from_code (take 3 (ecb_text m k)) = Some (Some m)"
    "two_digits (ecb_text m k) = k" "ecb_text m k ! 3 = digit_char (k div 10)" "ecb_text m k ! 4 = digit_char (k mod 10)"
proof -
  let ?n = "MONTH_NAMES ! nat (month_ordinal m - 1)"
  have t: "ecb_text m k = ?n @ [digit_char (k div 10), digit_char (k mod 10)]" using assms by (simp add: ecb_text_def pad_two)
  have k: "0 \<le> k div 10" "k div 10 \<le> 9" "0 \<le> k mod 10" "k mod 10 \<le> 9" using assms by auto
  show i: "ecb_text m k ! 3 = digit_char (k div 10)" "ecb_text m k ! 4 = digit_char (k mod 10)"
    and n: "month_from_code (take 3 (ecb_text m k)) = Some (Some m)"
    using month_name_code(1) [of m] by (simp_all add: t nth_append month_code)
  show "is_ecb_code (ecb_text m k) = Some True" "two_digits (ecb_text m k) = k"
    using month_name_code(1) [of m] digit_char_digit k by (simp_all add: is_ecb_code_def two_digits_def i n) (simp add: t)
qed

text \<open>The known dates of the month of a date are those from its first day on, as long as they are before it.\<close>

lemma month_before:
  assumes "date_new dd m y = Some d" "date_new 1 m y = Some first" "first \<le> x" "x \<le> d"
  shows "date_month x = Some m \<and> date_year x = Some y"
proof -
  obtain s where s: "x = Date s" by (cases x)
  have "date_new (s - moff m (gregorian_leap y) - days_before_year y) m y = Some x"
    using assms by (auto simp: date_new_Some s date_le_iff)
  then show ?thesis using date_new_inspect by blast
qed

text \<open>Codes name dates. The code of a known date, looked up with a reference date of its century, is that date
  again, if it is the first known date of its month.\<close>

lemma ecb_code_round_trip:
  assumes "ecb_ok e" "is_ecb_date e d" "valid_date d"
    and "\<And>x. is_ecb_date e x \<Longrightarrow> date_month x = date_month d \<Longrightarrow> date_year x = date_year d \<Longrightarrow> d \<le> x"
    and "date_year reference = Some ry" "date_year d = Some y" "ry div 100 = y div 100" "valid_date reference"
  shows "\<exists>c. ecb_code e d = Some (Inr c) \<and> ecb_date e c reference = Some (Inr d)"
proof -
  obtain dd m where i: "date_month d = Some m" "date_new dd m y = Some d"
    using date_inspect [OF assms(3)] assms(6) by (metis option.inject)
  have y: "1901 \<le> y" "y \<le> 2199" "1901 \<le> ry" using date_year_range assms(3,5,6,8) by blast+
  then have k: "0 \<le> y mod 100" "y mod 100 < 100" "y smod 100 = y mod 100" "ry smod 100 = ry mod 100" by (simp_all add: smod_nonneg)
  note tx = ecb_text_facts [OF k(1,2)]
  have code: "ecb_code e d = Some (Inr (ecb_text m (y mod 100)))"
    using assms(2,6) i(1) month_name_code(2) k(3) by (simp add: ecb_code_def ecb_text_def)
  obtain first where first: "date_new 1 m y = Some first" "first \<le> d"
    using i(2) mlen_bounds [of m "gregorian_leap y"] by (auto simp: date_new_Some date_le_iff)
  have "d \<le> x" if "x \<in> set (known_dates e)" "first \<le> x" for x
    using month_before [OF i(2) first(1) that(2)] assms(4) [of x] that(1) i(1) assms(6) by (cases "x \<le> d") (auto simp: is_ecb_date_def)
  then have "first_known_date (\<lambda>x. first \<le> x) e = Inr d"
    using assms(1,2) first(2) head_filter_least [of "known_dates e" "\<lambda>x. first \<le> x" d]
    by (simp add: first_known_date_def ecb_ok_def is_ecb_date_def)
  moreover have "y mod 100 + (ry - ry mod 100) = y"
    using assms(7) by (metis add.commute add_diff_cancel_left' mod_mult_div_eq mult_div_mod_eq add_diff_cancel_right')
  moreover have "date_year date_min = Some 1901" by code_simp
  ultimately have "ecb_date e (ecb_text m (y mod 100)) reference = Some (Inr d)"
    using assms(5) tx y(1) first(1) k(4) by (simp add: ecb_date_def Let_def)
  with code show ?thesis by blast
qed

text \<open>The published dates lie in different months, so that it applies to each of them.\<close>

text \<open>The code after a code is that of the next month, from the end of a century to its beginning.\<close>

lemma next_code_is_next_month:
  assumes "0 \<le> k" "k < 100"
  shows "next_code_from_code (ecb_text m k) = Some (Inr (ecb_text (next_month m) (if m = December then (k + 1) mod 100 else k)))"
proof (cases "m = December")
  case True
  then show ?thesis using assms ecb_text_facts [OF assms, of m]
    by (simp add: next_code_from_code_def next_month_December ecb_text_def MONTH_NAMES_def smod_nonneg)
next
  case False
  then show ?thesis using assms ecb_text_facts [OF assms, of m] month_name_code(3) [OF False]
    by (simp add: next_code_from_code_def ecb_text_def [of "next_month m"] pad_two)
qed

end
