(* ===== verification/Sobol.thy ===== *)
theory Sobol
  imports Mersenne Floats
begin

text \<open>
  \<open>math/randomnumbers/sobol/\<close>: the Sobol low-discrepancy generator and its private copy of the Mersenne
  Twister. The code keeps the direction integers by bit and dimension, \<open>directions[j][k]\<close>; here they are
  kept by dimension, a column of 32 words for each, since the dimensions never meet. The published
  tables, tens of thousands of literals, are an argument. \<open>skip_to\<close> finds the number of bits of an index from
  the quotient of two floating-point logarithms, truncated: that quotient is the argument \<open>log2_trunc\<close>.
\<close>

section \<open>The private Mersenne Twister\<close>

definition private_mt_new :: "64 word \<Rightarrow> mersenne" where
  "private_mt_new seed = (let s = ucast seed in \<lparr>mt = s # fill_state (N - 1) 1 s, mti = N, mt_seed = None\<rparr>)"

definition private_twist :: "mersenne \<Rightarrow> mersenne" where
  "private_twist g =
     g\<lparr>mt := fold (\<lambda>kk ws. ws[kk := twist_word (ws ! ((kk + M) mod N)) (ws ! kk) (ws ! ((kk + 1) mod N))]) [0..<N] (mt g), mti := 0\<rparr>"

definition private_next_u32 :: "mersenne \<Rightarrow> u32 \<times> mersenne" where
  "private_next_u32 g =
     (let g = (if mti g = N then private_twist g else g)
      in (temper (mt g ! mti g), g\<lparr>mti := mti g + 1\<rparr>))"

definition private_next_real :: "mersenne \<Rightarrow> f64 \<times> mersenne" where
  "private_next_real g =
     (let (x, g) = private_next_u32 g in (f_div (f_add (f_of_int (uint x)) (Fin (1 / 2))) (Fin 4294967296), g))"

section \<open>Tables\<close>

datatype direction_integers =
  Unit | Jaeckel | SobolLevitan | SobolLevitanLemieux | JoeKuoD5 | JoeKuoD6 | JoeKuoD7 | Kuo | Kuo2 | Kuo3

record sobol_tables =
  ppmt_max_dim :: nat
  max_alt_polynomials :: nat
  primitive_polynomials :: "u32 list list"
  alt_primitive_polynomials :: "u32 list list"
  table_offsets :: "direction_integers \<Rightarrow> nat list"
  table_parts :: "direction_integers \<Rightarrow> u32 list list"

definition nth_opt :: "'a list \<Rightarrow> nat \<Rightarrow> 'a option" where
  "nth_opt xs i = (if i < length xs then Some (xs ! i) else None)"

fun find_part :: "u32 list list \<Rightarrow> nat \<Rightarrow> nat \<Rightarrow> u32 list option" where
  "find_part [] start len = None"
| "find_part (part # parts) start len =
     (if start < length part then (if start + len \<le> length part then Some (take len (drop start part)) else None)
      else find_part parts (start - length part) len)"

definition table_entry :: "nat list \<Rightarrow> u32 list list \<Rightarrow> nat \<Rightarrow> u32 list option" where
  "table_entry offsets parts k = do {
     start \<leftarrow> nth_opt offsets k;
     stop \<leftarrow> nth_opt offsets (k + 1);
     assert_that (start \<le> stop);
     find_part parts start (stop - start)
   }"

text \<open>The polynomial at the cursor, a degree and an index, moving to the next degree at the end of a row.\<close>

definition next_polynomial :: "u32 list list \<Rightarrow> nat \<times> nat \<Rightarrow> (u32 \<times> nat \<times> nat) option" where
  "next_polynomial table cursor =
     (case cursor of (current_degree, index) \<Rightarrow> do {
        row \<leftarrow> nth_opt table (current_degree - 1);
        let (current_degree, index) = (if index \<ge> length row then (current_degree + 1, 0) else (current_degree, index));
        row \<leftarrow> nth_opt table (current_degree - 1);
        polynomial \<leftarrow> nth_opt row index;
        Some (polynomial, current_degree, index + 1)
      })"

fun take_polynomials :: "u32 list list \<Rightarrow> nat \<Rightarrow> nat \<times> nat \<Rightarrow> ((u32 \<times> nat) list \<times> nat \<times> nat) option" where
  "take_polynomials table 0 cursor = Some ([], cursor)"
| "take_polynomials table (Suc k) cursor = do {
     (polynomial, degree, index) \<leftarrow> next_polynomial table cursor;
     (rest, cursor) \<leftarrow> take_polynomials table k (degree, index);
     Some ((polynomial, degree) # rest, cursor)
   }"

definition use_alt_polynomials :: "direction_integers \<Rightarrow> bool" where
  "use_alt_polynomials d \<longleftrightarrow> d \<in> {Kuo, Kuo2, Kuo3, SobolLevitan, SobolLevitanLemieux}"

text \<open>The polynomial and the degree of each dimension; the first has none.\<close>

definition assign_polynomials :: "sobol_tables \<Rightarrow> direction_integers \<Rightarrow> nat \<Rightarrow> (u32 \<times> nat) list option" where
  "assign_polynomials tables d dimensionality = do {
     let alt_limit = (if use_alt_polynomials d then max_alt_polynomials tables else 0);
     let alternatives = min dimensionality alt_limit - 1;
     (first, cursor) \<leftarrow> take_polynomials (alt_primitive_polynomials tables) alternatives (1, 0);
     (second, cursor) \<leftarrow> take_polynomials (primitive_polynomials tables) (dimensionality - 1 - alternatives) cursor;
     Some ((0, 0) # first @ second)
   }"

section \<open>Direction integers\<close>

type_synonym column = "u32 list"

definition zero_column :: column where
  "zero_column = replicate 32 0"

definition first_column :: column where
  "first_column = map (\<lambda>j. push_bit (31 - j) 1) [0..<32]"

definition unit_column :: "nat \<Rightarrow> column option" where
  "unit_column degree = do {
     assert_that (degree \<le> 32);
     Some (fold (\<lambda>l col. col[l - 1 := push_bit (32 - l) 1]) [1..<degree + 1] zero_column)
   }"

definition tabulated_column :: "u32 list \<Rightarrow> column option" where
  "tabulated_column coefficients = do {
     assert_that (length coefficients \<le> 32);
     Some (fold (\<lambda>j col. col[j := push_bit (32 - j - 1) (coefficients ! j)]) [0..<length coefficients] zero_column)
   }"

text \<open>\<open>as u32\<close> of a non-negative double.\<close>

fun to_u32 :: "f64 \<Rightarrow> u32" where
  "to_u32 (Fin x) = word_of_int (max 0 (min 4294967295 \<lfloor>x\<rfloor>))"
| "to_u32 Infinity = 4294967295"
| "to_u32 _ = 0"

text \<open>Drawing until the lowest bit is set. That the loop ends depends on the generator: not returning is \<open>None\<close>.\<close>

partial_function (option) draw_odd :: "nat \<Rightarrow> mersenne \<Rightarrow> (u32 \<times> mersenne) option" where
  "draw_odd l rng =
     (let (u, rng) = private_next_real rng; drawn = to_u32 (f_mul u (f_of_int (2 ^ l)))
      in if drawn AND 1 \<noteq> 0 then Some (drawn, rng) else draw_odd l rng)"

declare draw_odd.simps [code]

text \<open>The loop over \<open>l\<close> for one dimension, from \<open>l\<close> for \<open>k\<close> passes, and the loop over the dimensions.\<close>

fun draw_column :: "nat \<Rightarrow> nat \<Rightarrow> column \<Rightarrow> mersenne \<Rightarrow> (column \<times> mersenne) option" where
  "draw_column 0 l col rng = Some (col, rng)"
| "draw_column (Suc k) l col rng = do {
     assert_that (l \<le> 31);
     (drawn, rng) \<leftarrow> draw_odd l rng;
     draw_column k (l + 1) (col[l - 1 := push_bit (32 - l) drawn]) rng
   }"

fun draw_columns :: "nat list \<Rightarrow> mersenne \<Rightarrow> column list option" where
  "draw_columns [] rng = Some []"
| "draw_columns (degree # degrees) rng = do {
     (col, rng) \<leftarrow> draw_column degree 1 zero_column rng;
     cols \<leftarrow> draw_columns degrees rng;
     Some (col # cols)
   }"

fun map_opt :: "('a \<Rightarrow> 'b option) \<Rightarrow> 'a list \<Rightarrow> 'b list option" where
  "map_opt f [] = Some []"
| "map_opt f (x # xs) = do { y \<leftarrow> f x; ys \<leftarrow> map_opt f xs; Some (y # ys) }"

text \<open>The initial columns of all dimensions: unit, tabulated, or drawn beyond the table.\<close>

definition initial_columns :: "sobol_tables \<Rightarrow> direction_integers \<Rightarrow> nat list \<Rightarrow> 64 word \<Rightarrow> column list option" where
  "initial_columns tables d degrees seed =
     (if d = Unit then do { cols \<leftarrow> map_opt unit_column (tl degrees); Some (first_column # cols) }
      else do {
        let offsets = table_offsets tables d;
        assert_that (0 < length offsets);
        let max_tabulated = length offsets - 1 + 1;
        cols \<leftarrow> map_opt (\<lambda>k. do { row \<leftarrow> table_entry offsets (table_parts tables d) (k - 1); tabulated_column row })
                  [1..<min (length degrees) max_tabulated];
        more \<leftarrow> (if length degrees > max_tabulated then draw_columns (drop max_tabulated degrees) (private_mt_new seed) else Some []);
        Some (first_column # cols @ more)
      })"

text \<open>The recurrence of the primitive polynomial, for \<open>l\<close> from the degree to 31.\<close>

definition direction_step :: "u32 \<Rightarrow> nat \<Rightarrow> nat \<Rightarrow> column \<Rightarrow> u32" where
  "direction_step polynomial gk l col =
     fold (\<lambda>j n. if drop_bit (gk - j - 1) polynomial AND 1 \<noteq> 0 then n XOR col ! (l - j) else n) [1..<gk] (drop_bit gk (col ! (l - gk)))
       XOR col ! (l - gk)"

definition extend_column :: "u32 \<Rightarrow> nat \<Rightarrow> column \<Rightarrow> column" where
  "extend_column polynomial gk col = fold (\<lambda>l col. col[l := direction_step polynomial gk l col]) [gk..<32] col"

section \<open>The generator\<close>

record sobol =
  dimensionality :: nat
  sequence_counter :: u32
  first_draw :: bool
  sequence :: "f64 list"
  integer_sequence :: "u32 list"
  directions :: "column list"
  use_gray_code :: bool

definition sobol_with_gray_code :: "sobol_tables \<Rightarrow> nat \<Rightarrow> 64 word \<Rightarrow> direction_integers \<Rightarrow> bool \<Rightarrow> sobol option" where
  "sobol_with_gray_code tables dims seed d gray = do {
     assert_that (dims > 0);
     assert_that (dims \<le> ppmt_max_dim tables);
     polynomials \<leftarrow> assign_polynomials tables d dims;
     initial \<leftarrow> initial_columns tables d (map snd polynomials) seed;
     let cols = hd initial # map (\<lambda>((p, gk), col). extend_column p gk col) (zip (tl polynomials) (tl initial));
     Some \<lparr>dimensionality = dims, sequence_counter = 0, first_draw = True, sequence = replicate dims (Fin 0),
       integer_sequence = (if gray then map (\<lambda>col. col ! 0) cols else replicate dims 0),
       directions = cols, use_gray_code = gray\<rparr>
   }"

definition sobol_new :: "sobol_tables \<Rightarrow> nat \<Rightarrow> 64 word \<Rightarrow> direction_integers \<Rightarrow> sobol option" where
  "sobol_new tables dims seed d = sobol_with_gray_code tables dims seed d True"

text \<open>The direction integers a pattern of bits selects, among the first \<open>ops\<close>.\<close>

definition select :: "u32 \<Rightarrow> nat \<Rightarrow> column \<Rightarrow> u32" where
  "select pattern ops col = fold (\<lambda>index value. if drop_bit index pattern AND 1 \<noteq> 0 then value XOR col ! index else value) [0..<ops] 0"

definition skip_to :: "(u32 \<Rightarrow> nat) \<Rightarrow> u32 \<Rightarrow> sobol \<Rightarrow> sobol option" where
  "skip_to log2_trunc skip g = do {
     assert_that (skip \<noteq> 4294967295);
     let n = skip + 1;
     values \<leftarrow> (if use_gray_code g then do {
         let ops = log2_trunc n + 1;
         assert_that (ops \<le> 32);
         Some (map (select (n XOR drop_bit 1 n) ops) (directions g))
       } else Some (map (select n 32) (directions g)));
     Some (g\<lparr>integer_sequence := values, sequence_counter := skip\<rparr>)
   }"

function trailing_ones :: "u32 \<Rightarrow> nat" where
  "trailing_ones n = (if n AND 1 \<noteq> 0 then Suc (trailing_ones (drop_bit 1 n)) else 0)"
  by pat_completeness auto
termination
proof (relation "measure unat")
  fix n :: u32
  assume "n AND 1 \<noteq> 0"
  then have "n \<noteq> 0" by auto
  then have "unat n \<noteq> 0" by (simp add: unat_eq_zero)
  moreover have "unat (drop_bit 1 n) = unat n div 2" unfolding unat_drop_bit_eq by (simp add: drop_bit_eq_div)
  ultimately show "(drop_bit 1 n, n) \<in> measure unat" by simp
qed simp

declare trailing_ones.simps [simp del]

definition advance_counter :: "sobol \<Rightarrow> sobol option" where
  "advance_counter g = do {
     assert_that (sequence_counter g \<noteq> 4294967295);
     Some (g\<lparr>sequence_counter := sequence_counter g + 1\<rparr>)
   }"

definition next_int32_sequence :: "(u32 \<Rightarrow> nat) \<Rightarrow> sobol \<Rightarrow> sobol option" where
  "next_int32_sequence log2_trunc g =
     (if \<not> use_gray_code g then do {
        g \<leftarrow> skip_to log2_trunc (sequence_counter g) g;
        if first_draw g then Some (g\<lparr>first_draw := False\<rparr>) else advance_counter g
      }
      else if first_draw g then Some (g\<lparr>first_draw := False\<rparr>)
      else do {
        g \<leftarrow> advance_counter g;
        let j = trailing_ones (sequence_counter g);
        assert_that (j < 32);
        Some (g\<lparr>integer_sequence := map (\<lambda>(value, col). value XOR col ! j) (zip (integer_sequence g) (directions g))\<rparr>)
      })"

definition next_sequence :: "(u32 \<Rightarrow> nat) \<Rightarrow> sobol \<Rightarrow> sobol option" where
  "next_sequence log2_trunc g = do {
     g \<leftarrow> next_int32_sequence log2_trunc g;
     Some (g\<lparr>sequence := map (\<lambda>i. f_mul (f_of_int (uint i)) (f_div (Fin (1 / 2)) (Fin 2147483648))) (integer_sequence g)\<rparr>)
   }"

end
