(* ===== verification/Sobol_Properties.thy ===== *)
theory Sobol_Properties
  imports Sobol Uniform_Reals "HOL-Library.Log_Nat"
begin

text \<open>
  What the Sobol generator computes. Every column of direction integers is triangular, so that the numbers a
  pattern of bits selects determine the pattern; the Gray-code counter visits the closed form of the sequence;
  skipping is the same as drawing; and no coordinate repeats within the period.
\<close>

section \<open>The private twister is the public one\<close>

lemma private_twist: "private_twist g = twist g"
proof -
  let ?step = "\<lambda>kk ws. ws[kk := twist_word (ws ! ((kk + M) mod N)) (ws ! kk) (ws ! ((kk + 1) mod N))]"
  have order: "N - M \<le> N - 1" "1 \<le> N" "M \<le> N" "0 < M" by (simp_all add: N_def M_def)
  have "[0..<N] = [0..<N - M] @ [N - M..<N]" using upt_add_eq_append [of 0 "N - M" M] order by simp
  moreover have "[N - M..<N] = [N - M..<N - 1] @ [N - 1]" using upt_Suc_append [of "N - M" "N - 1"] order by simp
  ultimately have parts: "[0..<N] = [0..<N - M] @ [N - M..<N - 1] @ [N - 1]" by simp
  have first: "fold ?step [0..<N - M] ws = fold (\<lambda>kk ws. ws[kk := twist_word (ws ! (kk + M)) (ws ! kk) (ws ! (kk + 1))]) [0..<N - M] ws" for ws
  proof (rule fold_cong)
    fix kk assume "kk \<in> set [0..<N - M]"
    then have "(kk + M) mod N = kk + M" "(kk + 1) mod N = kk + 1" using order by simp_all
    then show "?step kk = (\<lambda>ws. ws[kk := twist_word (ws ! (kk + M)) (ws ! kk) (ws ! (kk + 1))])" by (simp only:)
  qed simp_all
  have second: "fold ?step [N - M..<N - 1] ws =
    fold (\<lambda>kk ws. ws[kk := twist_word (ws ! (kk + M - N)) (ws ! kk) (ws ! (kk + 1))]) [N - M..<N - 1] ws" for ws
  proof (rule fold_cong)
    fix kk assume "kk \<in> set [N - M..<N - 1]"
    then have kk: "N - M \<le> kk" "kk < N - 1" by simp_all
    then have "N \<le> kk + M" "kk + M - N < N" "kk + 1 < N" using order by linarith+
    then have "N \<le> kk + M" "kk + M - N < N" "(kk + 1) mod N = kk + 1" by simp_all
    moreover from this(1,2) have "(kk + M) mod N = kk + M - N" by (simp add: le_mod_geq)
    ultimately show "?step kk = (\<lambda>ws. ws[kk := twist_word (ws ! (kk + M - N)) (ws ! kk) (ws ! (kk + 1))])" by (simp only:)
  qed simp_all
  have "(N - 1 + M) mod N = M - 1" "(N - 1 + 1) mod N = 0" by (simp_all add: N_def M_def)
  then show ?thesis
    unfolding private_twist_def twist_def parts fold_append comp_apply first second Let_def by simp
qed

section \<open>Selecting direction integers\<close>

definition xor_where :: "(nat \<Rightarrow> bool) \<Rightarrow> nat \<Rightarrow> column \<Rightarrow> u32" where
  "xor_where P m col = fold (\<lambda>i v. if P i then v XOR col ! i else v) [0..<m] 0"

lemma xor_where_0 [simp]: "xor_where P 0 col = 0"
  by (simp add: xor_where_def)

lemma xor_where_Suc: "xor_where P (Suc m) col = (if P m then xor_where P m col XOR col ! m else xor_where P m col)"
  by (simp add: xor_where_def)

lemma xor_where_xor: "xor_where P m col XOR xor_where Q m col = xor_where (\<lambda>i. P i \<noteq> Q i) m col"
  by (induction m) (auto simp: xor_where_Suc bit_eq_iff bit_xor_iff)

lemma xor_where_cong: "(\<And>i. i < m \<Longrightarrow> P i = Q i) \<Longrightarrow> xor_where P m col = xor_where Q m col"
  by (induction m) (simp_all add: xor_where_Suc)

lemma xor_where_none: "(\<And>i. i < m \<Longrightarrow> \<not> P i) \<Longrightarrow> xor_where P m col = 0"
  by (induction m) (simp_all add: xor_where_Suc)

lemma xor_where_single: "j < m \<Longrightarrow> xor_where (\<lambda>i. i = j) m col = col ! j"
proof (induction m)
  case (Suc m)
  have "xor_where (\<lambda>i. i = m) m col = 0" by (subst xor_where_none) simp_all
  with Suc show ?case by (cases "j = m") (simp_all add: xor_where_Suc)
qed simp

lemma bit_test: "(drop_bit i p AND 1 \<noteq> 0) = bit p i" for p :: u32
  by (simp add: and_one_eq bit_iff_odd_drop_bit odd_iff_mod_2_eq_one)

lemma select_xor: "select p ops col = xor_where (bit p) ops col"
  by (simp add: select_def xor_where_def bit_test)

text \<open>Bits above the highest one set make no difference.\<close>

lemma xor_where_enough: "(\<And>i. ops \<le> i \<Longrightarrow> i < m \<Longrightarrow> \<not> P i) \<Longrightarrow> ops \<le> m \<Longrightarrow> xor_where P m col = xor_where P ops col"
proof (induction m)
  case (Suc m)
  then show ?case by (cases "ops = Suc m") (auto simp: xor_where_Suc)
qed simp

section \<open>Triangular columns\<close>

text \<open>The integer of bit \<open>l\<close> has its lowest one at position \<open>31 - l\<close>.\<close>

definition lowest_at :: "nat \<Rightarrow> u32 \<Rightarrow> bool" where
  "lowest_at l w \<longleftrightarrow> bit w (31 - l) \<and> (\<forall>i < 31 - l. \<not> bit w i)"

definition triangular :: "column \<Rightarrow> bool" where
  "triangular col \<longleftrightarrow> length col = 32 \<and> (\<forall>l < 32. lowest_at l (col ! l))"

lemma xor_where_above:
  assumes "triangular col" "m \<le> 32" "i < 32 - m"
  shows "\<not> bit (xor_where P m col) i"
  using assms(2,3)
proof (induction m)
  case (Suc m)
  then have "\<not> bit (col ! m) i" using assms(1) by (auto simp: triangular_def lowest_at_def)
  with Suc show ?case by (simp add: xor_where_Suc bit_xor_iff)
qed simp

lemma xor_where_zero:
  assumes "triangular col" "m \<le> 32" "xor_where P m col = 0"
  shows "i < m \<Longrightarrow> \<not> P i"
  using assms(2,3)
proof (induction m arbitrary: i)
  case (Suc m)
  have "\<not> bit (xor_where P m col) (31 - m)" using xor_where_above [OF assms(1), of m "31 - m"] Suc.prems(2) by simp
  moreover have "bit (col ! m) (31 - m)" using assms(1) Suc.prems(2) by (auto simp: triangular_def lowest_at_def)
  moreover have "\<not> bit (xor_where P (Suc m) col) (31 - m)" using Suc.prems(3) by simp
  ultimately have "\<not> P m" by (auto simp: xor_where_Suc bit_xor_iff)
  then show ?case using Suc by (cases "i = m") (simp_all add: xor_where_Suc)
qed simp

text \<open>So the pattern can be read off the number it selects.\<close>

lemma xor_where_inject:
  assumes "triangular col" "xor_where P 32 col = xor_where Q 32 col" "i < 32"
  shows "P i = Q i"
proof -
  have "xor_where (\<lambda>i. P i \<noteq> Q i) 32 col = 0" unfolding xor_where_xor [symmetric] assms(2) by simp
  from xor_where_zero [OF assms(1) _ this assms(3)] show ?thesis by simp
qed

section \<open>The Gray code\<close>

definition gray :: "u32 \<Rightarrow> u32" where
  "gray n = n XOR drop_bit 1 n"

lemma bit_gray: "bit (gray n) i = (bit n i \<noteq> bit n (Suc i))"
  by (simp add: gray_def bit_xor_iff bit_drop_bit_eq)

lemma gray_inject:
  assumes "\<And>i. i < 32 \<Longrightarrow> bit (gray a) i = bit (gray b) i"
  shows "a = b"
proof -
  have "bit a (32 - k) = bit b (32 - k)" if "k \<le> 32" for k
    using that
  proof (induction k)
    case (Suc k)
    moreover have "Suc (32 - Suc k) = 32 - k" using Suc.prems by simp
    ultimately have "bit a (Suc (32 - Suc k)) = bit b (Suc (32 - Suc k))" by simp
    with assms [of "32 - Suc k"] Suc.prems show ?case by (auto simp: bit_gray)
  qed (use bit_imp_le_length [of a 32] bit_imp_le_length [of b 32] in auto)
  then have "bit a i = bit b i" if "i < 32" for i using that by (metis diff_diff_cancel less_imp_le diff_le_self)
  then show ?thesis by (intro bit_word_eqI) simp
qed

text \<open>Adding one flips the trailing ones and the zero after them, and the Gray code there only.\<close>

lemma trailing_ones_bits: "i < trailing_ones n \<Longrightarrow> bit n i" "\<not> bit n (trailing_ones n)"
proof -
  have "(\<forall>i < trailing_ones n. bit n i) \<and> \<not> bit n (trailing_ones n)"
  proof (induction n rule: trailing_ones.induct)
    case (1 n)
    show ?case
    proof (cases "n AND 1 \<noteq> 0")
      case True
      then have "bit n 0" using bit_test [of 0 n] by simp
      with 1 [OF True] True show ?thesis
        by (subst (1 2) trailing_ones.simps) (auto simp: bit_drop_bit_eq less_Suc_eq_0_disj)
    next
      case False
      then show ?thesis using bit_test [of 0 n] by (simp add: trailing_ones.simps [of n])
    qed
  qed
  then show "i < trailing_ones n \<Longrightarrow> bit n i" "\<not> bit n (trailing_ones n)" by auto
qed

lemma bit_Suc_carry:
  fixes x :: nat
  assumes "\<And>j. j < t \<Longrightarrow> bit x j" "\<not> bit x t"
  shows "bit (Suc x) i = (if i < t then False else i = t \<or> bit x i)"
  using assms
proof (induction t arbitrary: x i)
  case 0
  then have "even x" by (simp add: bit_0)
  then show ?case by (cases i) (simp_all add: bit_0 bit_Suc)
next
  case (Suc t)
  have "odd x" using Suc.prems(1) [of 0] by (simp add: bit_0)
  moreover have "bit (x div 2) j" if "j < t" for j using Suc.prems(1) [of "Suc j"] that by (simp add: bit_Suc)
  moreover have "\<not> bit (x div 2) t" using Suc.prems(2) by (simp add: bit_Suc)
  ultimately show ?case using Suc.IH [of "x div 2"] by (cases i) (simp_all add: bit_0 bit_Suc)
qed

lemma max_minus_one: "(4294967295 :: u32) = - 1"
  by simp

lemma bit_plus_one:
  fixes n :: u32
  assumes "n \<noteq> 4294967295"
  shows "bit (n + 1) i = (if i < trailing_ones n then False else i = trailing_ones n \<or> bit n i)" and "trailing_ones n < 32"
proof -
  have bits: "bit w i = bit (unat w) i" for w :: u32 and i by (simp add: bit_unsigned_iff)
  have "unat (n + 1) = Suc (unat n)" using unatSuc [of n] assms by (metis add.commute eq_neg_iff_add_eq_0 max_minus_one)
  then show "bit (n + 1) i = (if i < trailing_ones n then False else i = trailing_ones n \<or> bit n i)"
    using bit_Suc_carry [of "trailing_ones n" "unat n" i] trailing_ones_bits(1) [of _ n] trailing_ones_bits(2) [of n] by (simp add: bits)
  show "trailing_ones n < 32"
  proof (rule ccontr)
    assume "\<not> trailing_ones n < 32"
    then have "n = -1" using trailing_ones_bits(1) [of _ n] by (intro bit_word_eqI) simp
    with assms show False by simp
  qed
qed

lemma gray_step:
  assumes "n \<noteq> 4294967295"
  shows "(bit (gray n) i \<noteq> bit (gray (n + 1)) i) = (i = trailing_ones n)"
  using trailing_ones_bits(1) [of i n] trailing_ones_bits(2) [of n] trailing_ones_bits(1) [of "Suc i" n]
  by (cases "Suc i = trailing_ones n"; cases i "trailing_ones n" rule: linorder_cases) (auto simp: bit_gray bit_plus_one [OF assms])

section \<open>The sequence\<close>

text \<open>The number of index \<open>n\<close> in one dimension, with the Gray code or without.\<close>

definition point :: "bool \<Rightarrow> u32 \<Rightarrow> column \<Rightarrow> u32" where
  "point use_gray n col = xor_where (bit (if use_gray then gray n else n)) 32 col"

lemma point_next:
  assumes "n \<noteq> 4294967295"
  shows "point True n col XOR col ! trailing_ones n = point True (n + 1) col"
proof -
  have "xor_where (\<lambda>i. bit (gray n) i \<noteq> bit (gray (n + 1)) i) 32 col = col ! trailing_ones n"
    unfolding gray_step [OF assms] by (rule xor_where_single [OF bit_plus_one(2) [OF assms]])
  then have "col ! trailing_ones n = point True n col XOR point True (n + 1) col" by (simp add: point_def xor_where_xor)
  then show ?thesis by (simp flip: xor.assoc)
qed

lemma point_inject:
  assumes "triangular col" "point b m col = point b n col"
  shows "m = n"
proof -
  have "bit (if b then gray m else m) i = bit (if b then gray n else n) i" if "i < 32" for i
    using xor_where_inject [OF assms(1) _ that] assms(2) by (simp add: point_def)
  then show ?thesis using gray_inject [of m n] by (cases b) (auto intro: bit_word_eqI)
qed

text \<open>What the code assumes of the logarithms: their truncated quotient is the integer part of the binary logarithm.\<close>

definition log2_ok :: "(u32 \<Rightarrow> nat) \<Rightarrow> bool" where
  "log2_ok log2_trunc \<longleftrightarrow> (\<forall>n. n \<noteq> 0 \<longrightarrow> log2_trunc n < 32 \<and> (\<forall>i. bit n i \<longrightarrow> i \<le> log2_trunc n))"

text \<open>The state after the number of index \<open>n\<close> was drawn, or skipped to.\<close>

definition stands_at :: "u32 \<Rightarrow> sobol \<Rightarrow> bool" where
  "stands_at n g \<longleftrightarrow> integer_sequence g = map (point (use_gray_code g) n) (directions g) \<and> sequence_counter g = n - 1 \<and> n \<noteq> 0"

lemma skip_to_stands:
  assumes "log2_ok log2_trunc" "skip \<noteq> 4294967295"
  shows "\<exists>g'. skip_to log2_trunc skip g = Some g' \<and> stands_at (skip + 1) g' \<and> directions g' = directions g
    \<and> use_gray_code g' = use_gray_code g \<and> first_draw g' = first_draw g"
proof -
  have n: "skip + 1 \<noteq> 0" using assms(2) by (metis eq_neg_iff_add_eq_0 max_minus_one)
  then have ops: "log2_trunc (skip + 1) < 32" "\<And>i. bit (skip + 1) i \<Longrightarrow> i \<le> log2_trunc (skip + 1)"
    using assms(1) by (auto simp: log2_ok_def)
  have "xor_where (bit (gray (skip + 1))) 32 col = xor_where (bit (gray (skip + 1))) (log2_trunc (skip + 1) + 1) col" for col
    using ops by (intro xor_where_enough) (fastforce simp: bit_gray)+
  then have "select (skip + 1 XOR drop_bit 1 (skip + 1)) (log2_trunc (skip + 1) + 1) col = point True (skip + 1) col" for col
    by (simp add: select_xor point_def gray_def)
  moreover have "select (skip + 1) 32 col = point False (skip + 1) col" for col by (simp add: select_xor point_def)
  ultimately have "skip_to log2_trunc skip g =
      Some (g\<lparr>integer_sequence := map (point (use_gray_code g) (skip + 1)) (directions g), sequence_counter := skip\<rparr>)"
    using assms(2) ops(1) by (cases "use_gray_code g") (simp_all add: skip_to_def Let_def)
  then show ?thesis using n by (simp add: stands_at_def)
qed

lemma next_gray_stands:
  assumes "stands_at n g" "use_gray_code g" "\<not> first_draw g" "n \<noteq> 4294967295"
  shows "\<exists>g'. next_int32_sequence log2_trunc g = Some g' \<and> stands_at (n + 1) g' \<and> directions g' = directions g \<and> use_gray_code g' \<and> \<not> first_draw g'"
proof -
  have c: "sequence_counter g = n - 1" "n - 1 \<noteq> 4294967295" using assms(1) by (simp_all add: stands_at_def max_minus_one)
  have "map (\<lambda>(value, col). value XOR col ! trailing_ones n) (zip (integer_sequence g) (directions g)) = map (point True (n + 1)) (directions g)"
    using assms(1,2) point_next [OF assms(4)] by (auto simp: stands_at_def map_zip_map zip_map1 zip_same_conv_map)
  moreover have "n + 1 \<noteq> 0" using assms(4) by (metis eq_neg_iff_add_eq_0 max_minus_one)
  ultimately show ?thesis
    using assms(2,3) c bit_plus_one(2) [OF assms(4)]
    by (simp add: next_int32_sequence_def advance_counter_def stands_at_def)
qed

section \<open>The columns of the constructor are triangular\<close>

definition started :: "nat \<Rightarrow> column \<Rightarrow> bool" where
  "started m col \<longleftrightarrow> length col = 32 \<and> (\<forall>l < m. lowest_at l (col ! l))"

lemma lowest_at_push: "l < 32 \<Longrightarrow> bit w 0 \<Longrightarrow> lowest_at l (push_bit (31 - l) w)"
  by (auto simp: lowest_at_def bit_push_bit_iff)

lemma lowest_at_xor:
  assumes "lowest_at l a" "lowest_at m b" "m < l" "l < 32"
  shows "lowest_at l (a XOR b)"
proof -
  have "\<not> bit b i" if "i \<le> 31 - l" for i using assms(2-4) that by (auto simp: lowest_at_def)
  then show ?thesis using assms(1) by (simp add: lowest_at_def bit_xor_iff)
qed

lemma direction_step_lowest:
  assumes "started l col" "1 \<le> gk" "gk \<le> l" "l < 32"
  shows "lowest_at l (direction_step p gk l col)"
proof -
  have row: "lowest_at (l - j) (col ! (l - j))" if "1 \<le> j" "j \<le> l" for j using assms(1) that by (simp add: started_def)
  have base: "lowest_at l (drop_bit gk (col ! (l - gk)))"
  proof -
    have e: "31 - (l - gk) = gk + (31 - l)" using assms(3,4) by simp
    show ?thesis using row [OF assms(2,3)] unfolding lowest_at_def e by (simp add: bit_drop_bit_eq)
  qed
  have "lowest_at l (fold (\<lambda>j n. if drop_bit (gk - j - 1) p AND 1 \<noteq> 0 then n XOR col ! (l - j) else n) js n)"
    if "lowest_at l n" "set js \<subseteq> {1..<gk}" for js n
    using that
  proof (induction js arbitrary: n)
    case (Cons j js)
    then have j: "1 \<le> j" "j \<le> l" using assms(3) by auto
    have "lowest_at l (n XOR col ! (l - j))" by (rule lowest_at_xor [OF Cons.prems(1) row [OF j]]) (use j assms(4) in auto)
    with Cons show ?case by simp
  qed simp
  from this [OF base, of "[1..<gk]"] show ?thesis
    unfolding direction_step_def using assms(2-4) by (intro lowest_at_xor [OF _ row [OF assms(2,3)]]) auto
qed

lemma extend_column_triangular:
  assumes "started gk col" "1 \<le> gk" "gk \<le> 32"
  shows "triangular (extend_column p gk col)"
proof -
  have "started (gk + k) (fold (\<lambda>l col. col[l := direction_step p gk l col]) [gk..<gk + k] col)" if "gk + k \<le> 32" for k
    using that
  proof (induction k)
    case (Suc k)
    define c where "c = fold (\<lambda>l col. col[l := direction_step p gk l col]) [gk..<gk + k] col"
    have c: "started (gk + k) c" using Suc by (simp add: c_def)
    then have "lowest_at (gk + k) (direction_step p gk (gk + k) c)"
      using direction_step_lowest [OF c assms(2), of p] Suc.prems by simp
    then have "started (gk + Suc k) (c[gk + k := direction_step p gk (gk + k) c])"
      using c Suc.prems by (auto simp: started_def less_Suc_eq nth_list_update)
    then show ?case by (simp add: c_def)
  qed (simp add: assms(1))
  from this [of "32 - gk"] assms(3) show ?thesis by (simp add: extend_column_def triangular_def started_def)
qed

lemma first_column_triangular: "triangular first_column"
  using lowest_at_push [of _ 1] by (simp add: triangular_def first_column_def)

lemma fold_column_started:
  assumes "\<And>j. j < m \<Longrightarrow> lowest_at j (f j)" "m \<le> 32"
  shows "started m (fold (\<lambda>j col. col[j := f j]) [0..<m] zero_column)"
proof -
  have "length (fold (\<lambda>j col. col[j := f j]) [0..<k] zero_column) = 32 \<and>
      (\<forall>j < k. fold (\<lambda>j col. col[j := f j]) [0..<k] zero_column ! j = f j)" if "k \<le> 32" for k
    using that by (induction k) (auto simp: zero_column_def nth_list_update less_Suc_eq)
  then show ?thesis using assms by (simp add: started_def)
qed

lemma tabulated_column_started:
  assumes "tabulated_column row = Some col" "list_all (\<lambda>c. bit c 0) row"
  shows "started (length row) col"
proof -
  have l: "length row \<le> 32" and col: "col = fold (\<lambda>j col. col[j := push_bit (32 - j - 1) (row ! j)]) [0..<length row] zero_column"
    using assms(1) by (auto simp: tabulated_column_def bind_eq_Some_conv)
  show ?thesis unfolding col
    using assms(2) l lowest_at_push by (intro fold_column_started) (auto simp: list_all_length)
qed

lemma unit_column_started:
  assumes "unit_column degree = Some col"
  shows "started degree col"
proof -
  have d: "degree \<le> 32" and col: "col = fold (\<lambda>l col. col[l - 1 := push_bit (32 - l) 1]) [1..<degree + 1] zero_column"
    using assms by (cases "degree \<le> 32"; simp add: unit_column_def del: upt_Suc)+
  have "fold (\<lambda>l col. col[l - 1 := push_bit (32 - l) 1]) [1..<degree + 1] c = fold (\<lambda>j col. col[j := push_bit (31 - j) 1]) [0..<degree] c" for c :: column
    by (simp add: fold_map comp_def flip: map_Suc_upt del: upt_Suc)
  with fold_column_started [of degree "\<lambda>j. push_bit (31 - j) 1"] d show ?thesis
    using lowest_at_push [of _ 1] by (simp add: col del: upt_Suc)
qed

lemma draw_odd_odd:
  assumes "draw_odd l rng = Some r"
  shows "bit (fst r) 0"
proof (rule draw_odd.raw_induct [where P = "\<lambda>l rng r. bit (fst r) 0", OF _ assms])
  fix f l rng r
  assume IH: "\<And>l rng r. f l rng = Some r \<Longrightarrow> bit (fst r) 0"
    and step: "(let (u, rng) = private_next_real rng; drawn = to_u32 (f_mul u (f_of_int (2 ^ l)))
      in if drawn AND 1 \<noteq> 0 then Some (drawn, rng) else f l rng) = Some r"
  then show "bit (fst r) 0" using bit_test [of 0] by (auto simp: Let_def split: prod.splits if_splits)
qed

lemma draw_column_started:
  "draw_column k l col rng = Some (col', rng') \<Longrightarrow> started (l - 1) col \<Longrightarrow> 1 \<le> l \<Longrightarrow> started (l - 1 + k) col'"
proof (induction k l col rng arbitrary: col' rng' rule: draw_column.induct)
  case (2 k l col rng)
  then obtain drawn rng1 where d: "l \<le> 31" "draw_odd l rng = Some (drawn, rng1)"
    and r: "draw_column k (l + 1) (col[l - 1 := push_bit (32 - l) drawn]) rng1 = Some (col', rng')"
    by (auto simp: bind_eq_Some_conv split: prod.splits)
  have "push_bit (32 - l) drawn = push_bit (31 - (l - 1)) drawn" using 2(4) d(1) by (simp add: Suc_diff_le)
  then have "started (l + 1 - 1) (col[l - 1 := push_bit (32 - l) drawn])"
    using 2(3,4) d(1) draw_odd_odd [OF d(2), simplified] lowest_at_push [of "l - 1" drawn]
    by (auto simp: started_def nth_list_update less_Suc_eq)
  from 2(1) [OF _ d(2) refl r this] d(1) 2(4) show ?case by (simp add: add.commute)
qed simp

text \<open>Tables fit for a dimensionality: degrees between 1 and 31, and for each tabulated dimension a row of as many
  odd coefficients as the degree. The published tables are of this form.\<close>

definition row_ok :: "nat \<Rightarrow> u32 list \<Rightarrow> bool" where
  "row_ok degree row \<longleftrightarrow> length row = degree \<and> list_all (\<lambda>c. bit c 0) row"

definition tables_ok :: "sobol_tables \<Rightarrow> direction_integers \<Rightarrow> nat \<Rightarrow> bool" where
  "tables_ok tables d dims =
     (case assign_polynomials tables d dims of
        None \<Rightarrow> False
      | Some ps \<Rightarrow> list_all (\<lambda>(p, gk). 1 \<le> gk \<and> gk \<le> 31) (tl ps) \<and>
          (d = Unit \<or> (0 < length (table_offsets tables d) \<and>
             list_all (\<lambda>k. case table_entry (table_offsets tables d) (table_parts tables d) (k - 1) of
                None \<Rightarrow> False | Some row \<Rightarrow> row_ok (snd (ps ! k)) row) [1..<min dims (length (table_offsets tables d))])))"

lemma map_opt_list_all2: "map_opt f xs = Some ys \<Longrightarrow> list_all2 (\<lambda>x y. f x = Some y) xs ys"
  by (induction xs arbitrary: ys) (auto simp: bind_eq_Some_conv)

lemma draw_columns_started: "draw_columns degrees rng = Some cols \<Longrightarrow> list_all2 started degrees cols"
proof (induction degrees rng arbitrary: cols rule: draw_columns.induct)
  case (2 degree degrees rng)
  then obtain col rng1 rest where d: "draw_column degree 1 zero_column rng = Some (col, rng1)"
    "draw_columns degrees rng1 = Some rest" "cols = col # rest"
    by (auto simp: bind_eq_Some_conv split: prod.splits)
  have "started degree col"
    using draw_column_started [OF d(1)] by (simp add: started_def zero_column_def)
  with 2(1) [OF d(1) refl d(2)] d(3) show ?case by simp
qed simp

lemma take_polynomials_length: "take_polynomials table k cursor = Some (ps, cursor') \<Longrightarrow> length ps = k"
  by (induction table k cursor arbitrary: ps rule: take_polynomials.induct) (auto simp: bind_eq_Some_conv split: prod.splits)

lemma assign_polynomials_length: "assign_polynomials tables d dims = Some ps \<Longrightarrow> 0 < dims \<Longrightarrow> length ps = dims"
  by (auto simp: assign_polynomials_def Let_def bind_eq_Some_conv dest!: take_polynomials_length)

lemma tabulated_started:
  assumes "tables_ok tables d dims" "assign_polynomials tables d dims = Some ps" "d \<noteq> Unit" "0 < dims"
    and "map_opt (\<lambda>k. do { row \<leftarrow> table_entry (table_offsets tables d) (table_parts tables d) (k - 1); tabulated_column row })
      [1..<min dims (length (table_offsets tables d))] = Some cols"
  shows "list_all2 started (take (min dims (length (table_offsets tables d)) - 1) (tl (map snd ps))) cols"
proof -
  define m where "m = min dims (length (table_offsets tables d))"
  have l: "length ps = dims" using assign_polynomials_length [OF assms(2,4)] .
  have cols: "list_all2 (\<lambda>k col. do { row \<leftarrow> table_entry (table_offsets tables d) (table_parts tables d) (k - 1); tabulated_column row } = Some col)
      [1..<m] cols" using map_opt_list_all2 [OF assms(5)] unfolding m_def .
  then have len: "length cols = m - 1" by (auto dest: list_all2_lengthD)
  have "started (snd (ps ! Suc i)) (cols ! i)" if i: "i < m - 1" for i
  proof -
    have "Suc i < m" using i by simp
    then have "Suc i \<in> set [1..<m]" by simp
    moreover have "\<forall>k \<in> set [1..<m]. case table_entry (table_offsets tables d) (table_parts tables d) (k - 1) of
        None \<Rightarrow> False | Some row \<Rightarrow> row_ok (snd (ps ! k)) row"
      using assms(1-3) unfolding tables_ok_def list_all_iff m_def by simp
    ultimately have "case table_entry (table_offsets tables d) (table_parts tables d) (Suc i - 1) of
        None \<Rightarrow> False | Some row \<Rightarrow> row_ok (snd (ps ! Suc i)) row" by blast
    then obtain row where row: "table_entry (table_offsets tables d) (table_parts tables d) i = Some row" "row_ok (snd (ps ! Suc i)) row"
      by (auto split: option.splits)
    have "do { row \<leftarrow> table_entry (table_offsets tables d) (table_parts tables d) ([1..<m] ! i - 1); tabulated_column row } = Some (cols ! i)"
      using list_all2_nthD2 [OF cols] i len by simp
    then have "tabulated_column row = Some (cols ! i)" using row(1) i by simp
    with row(2) show ?thesis using tabulated_column_started [of row "cols ! i"] by (simp add: row_ok_def)
  qed
  then show ?thesis unfolding m_def [symmetric] using len l
    by (auto simp: list_all2_conv_all_nth nth_tl m_def)
qed

lemma initial_columns_started:
  assumes "tables_ok tables d dims" "assign_polynomials tables d dims = Some ps" "0 < dims"
    and "initial_columns tables d (map snd ps) seed = Some cols"
  shows "hd cols = first_column \<and> list_all2 started (tl (map snd ps)) (tl cols)"
proof (cases "d = Unit")
  case True
  then obtain rest where "cols = first_column # rest" "map_opt unit_column (tl (map snd ps)) = Some rest"
    using assms(4) by (auto simp: initial_columns_def bind_eq_Some_conv)
  then show ?thesis using list_all2_mono [OF map_opt_list_all2 unit_column_started] by simp
next
  case False
  define m where "m = length (table_offsets tables d)"
  have l: "length ps = dims" using assign_polynomials_length [OF assms(2,3)] .
  have m: "0 < m" using assms(1,2) False by (simp add: tables_ok_def m_def)
  obtain first more where c: "cols = first_column # first @ more"
    and first: "map_opt (\<lambda>k. do { row \<leftarrow> table_entry (table_offsets tables d) (table_parts tables d) (k - 1); tabulated_column row })
      [1..<min dims m] = Some first"
    and more: "(if dims > m then draw_columns (drop m (map snd ps)) (private_mt_new seed) else Some []) = Some more"
    using assms(4) False m l by (auto simp: initial_columns_def Let_def bind_eq_Some_conv simp flip: m_def cong: if_cong)
  have a: "list_all2 started (take (min dims m - 1) (tl (map snd ps))) first"
    using tabulated_started [OF assms(1,2) False assms(3)] first by (simp add: m_def)
  have "drop (min dims m - 1) (tl (map snd ps)) = drop m (map snd ps)" if "m < dims"
    using m that by (cases m) (simp_all add: drop_Suc)
  moreover have "drop (min dims m - 1) (tl (map snd ps)) = []" if "\<not> m < dims" using that l by simp
  ultimately have b: "list_all2 started (drop (min dims m - 1) (tl (map snd ps))) more"
    using more draw_columns_started by (cases "m < dims") auto
  have "list_all2 started (tl (map snd ps)) (first @ more)"
    using list_all2_appendI [OF a b] by (simp only: append_take_drop_id)
  then show ?thesis by (simp add: c)
qed

lemma sobol_columns:
  assumes "tables_ok tables d dims" "sobol_with_gray_code tables dims seed d b = Some g"
  shows "list_all triangular (directions g)" and "length (directions g) = dims"
    and "use_gray_code g = b" "first_draw g" "sequence_counter g = 0"
    and "integer_sequence g = (if b then map (point True 1) (directions g) else replicate dims 0)"
proof -
  obtain ps cols where dims: "0 < dims" and ps: "assign_polynomials tables d dims = Some ps"
    and cols: "initial_columns tables d (map snd ps) seed = Some cols"
    and g: "g = \<lparr>dimensionality = dims, sequence_counter = 0, first_draw = True, sequence = replicate dims (Fin 0),
       integer_sequence = (if b then map (\<lambda>col. col ! 0) (hd cols # map (\<lambda>((p, gk), col). extend_column p gk col) (zip (tl ps) (tl cols)))
         else replicate dims 0),
       directions = hd cols # map (\<lambda>((p, gk), col). extend_column p gk col) (zip (tl ps) (tl cols)), use_gray_code = b\<rparr>"
    using assms(2) by (auto simp: sobol_with_gray_code_def Let_def bind_eq_Some_conv)
  note init = initial_columns_started [OF assms(1) ps dims cols]
  have degrees: "list_all (\<lambda>(p, gk). 1 \<le> gk \<and> gk \<le> 31) (tl ps)" using assms(1) ps by (simp add: tables_ok_def)
  have lens: "length (tl ps) = length (tl cols)" using init by (auto dest: list_all2_lengthD)
  have tri: "triangular (extend_column p gk col)" if "((p, gk), col) \<in> set (zip (tl ps) (tl cols))" for p gk col
  proof -
    from that have "1 \<le> gk" "gk \<le> 31" using degrees by (auto simp: list_all_iff dest!: set_zip_leftD)
    moreover have "list_all2 (\<lambda>(p, gk) col. started gk col) (tl ps) (tl cols)"
      using init by (auto simp: list_all2_conv_all_nth nth_tl split: prod.splits)
    then have "started gk col" using that by (auto simp: list_all2_iff)
    ultimately show ?thesis using extend_column_triangular by simp
  qed
  show all: "list_all triangular (directions g)" using init tri first_column_triangular by (auto simp: g list_all_iff)
  show "length (directions g) = dims" using lens assign_polynomials_length [OF ps dims] dims by (simp add: g)
  have "point True 1 col = col ! 0" for col
  proof -
    have "bit (gray 1) = (\<lambda>i. i = 0)" by (rule ext) (auto simp: bit_gray bit_1_iff)
    then show ?thesis using xor_where_single [of 0 32 col] by (simp add: point_def)
  qed
  then show "use_gray_code g = b" "first_draw g" "sequence_counter g = 0"
    "integer_sequence g = (if b then map (point True 1) (directions g) else replicate dims 0)"
    by (auto simp: g)
qed

section \<open>Properties\<close>

text \<open>Drawing \<open>k\<close> times.\<close>

fun draw :: "(u32 \<Rightarrow> nat) \<Rightarrow> nat \<Rightarrow> sobol \<Rightarrow> sobol option" where
  "draw log2_trunc 0 g = Some g"
| "draw log2_trunc (Suc k) g = do { g \<leftarrow> draw log2_trunc k g; next_int32_sequence log2_trunc g }"

lemma gray_draws:
  assumes "tables_ok tables d dims" "sobol_with_gray_code tables dims seed d True = Some g" "k < 2 ^ 32 - 1"
  shows "\<exists>g'. draw log2_trunc (Suc k) g = Some g' \<and> stands_at (of_nat (Suc k)) g' \<and> directions g' = directions g
    \<and> use_gray_code g' \<and> \<not> first_draw g'"
  using assms(3)
proof (induction k)
  case 0
  note c = sobol_columns [OF assms(1,2)]
  then show ?case by (simp add: next_int32_sequence_def stands_at_def)
next
  case (Suc k)
  then obtain g1 where g1: "draw log2_trunc (Suc k) g = Some g1" "stands_at (of_nat (Suc k)) g1" "directions g1 = directions g"
    "use_gray_code g1" "\<not> first_draw g1" by auto
  have "(of_nat (Suc k) :: u32) \<noteq> 4294967295"
  proof
    assume "(of_nat (Suc k) :: u32) = 4294967295"
    then have "unat (of_nat (Suc k) :: u32) = 4294967295" by simp
    then show False using Suc.prems by (simp add: unat_of_nat del: of_nat_Suc)
  qed
  then obtain g2 where "next_int32_sequence log2_trunc g1 = Some g2" "stands_at (of_nat (Suc k) + 1) g2" "directions g2 = directions g1"
    "use_gray_code g2" "\<not> first_draw g2" using next_gray_stands [OF g1(2,4,5)] by blast
  then show ?case using g1 by (simp add: add.commute)
qed

lemma of_nat_word_eq: "j < 2 ^ 32 \<Longrightarrow> k < 2 ^ 32 \<Longrightarrow> (of_nat j :: u32) = of_nat k \<longleftrightarrow> j = k"
  by (auto dest!: arg_cong [where f = unat] simp: unat_of_nat)

text \<open>C29. Drawing is the closed form, and skipping is drawing. For well-formed tables, whatever the seed and the dimensionality, the
  \<open>k\<close>-th draw of a fresh Gray-code generator exclusive-ors, in each dimension, the direction integers at the ones of
  the Gray code of \<open>k\<close>; and skipping to sample \<open>k - 1\<close>, from any state drawing can reach, puts the generator at
  the same integers and counter.\<close>

theorem sobol_draws_the_gray_sequence:
  assumes "tables_ok tables d dims" "sobol_with_gray_code tables dims seed d True = Some g" "log2_ok log2_trunc"
    and "1 \<le> k" "k < 2 ^ 32" "j < 2 ^ 32"
  shows "\<exists>gj gk h. draw log2_trunc j g = Some gj \<and> draw log2_trunc k g = Some gk \<and> skip_to log2_trunc (of_nat (k - 1)) gj = Some h \<and>
    integer_sequence gk = map (\<lambda>col. xor_where (bit (gray (of_nat k))) 32 col) (directions g) \<and>
    integer_sequence h = integer_sequence gk \<and> sequence_counter h = sequence_counter gk"
proof -
  obtain k' where k': "k = Suc k'" "k' < 2 ^ 32 - 1" using assms(4,5) by (cases k) auto
  obtain gk where gk: "draw log2_trunc k g = Some gk" "stands_at (of_nat k) gk" "directions gk = directions g" "use_gray_code gk"
    using gray_draws [OF assms(1,2) k'(2)] k'(1) by blast
  obtain gj where gj: "draw log2_trunc j g = Some gj" "directions gj = directions g" "use_gray_code gj"
  proof (cases j)
    case 0
    then show ?thesis using that sobol_columns(3) [OF assms(1,2)] by simp
  next
    case (Suc j')
    then have "j' < 2 ^ 32 - 1" using assms(6) by simp
    then show ?thesis using gray_draws [OF assms(1,2)] Suc that by blast
  qed
  have "(of_nat (k - 1) :: u32) \<noteq> 4294967295" using of_nat_word_eq [of "k - 1" 4294967295] k' by simp
  moreover have "(of_nat (k - 1) :: u32) + 1 = of_nat k" using assms(4) by (simp add: of_nat_diff)
  ultimately obtain h where h: "skip_to log2_trunc (of_nat (k - 1)) gj = Some h" "stands_at (of_nat k) h" "directions h = directions gj"
    "use_gray_code h = use_gray_code gj" using skip_to_stands [OF assms(3)] by metis
  show ?thesis using gk gj h by (intro exI [of _ gj] exI [of _ gk] exI [of _ h]) (simp add: stands_at_def point_def [abs_def])
qed

definition sample_tables :: sobol_tables where
  "sample_tables = \<lparr>ppmt_max_dim = 4, max_alt_polynomials = 2, primitive_polynomials = [[0], [1], [1, 2]],
     alt_primitive_polynomials = [[0], [1]], table_offsets = (\<lambda>_. [0, 1, 3]), table_parts = (\<lambda>_. [[1], [1, 3]])\<rparr>"

definition sample_sobol :: sobol where
  "sample_sobol = the (sobol_with_gray_code sample_tables 2 0 Jaeckel True)"

lemma sample_tables_ok: "tables_ok sample_tables Jaeckel 2"
  by code_simp

lemma sample_sobol: "sobol_with_gray_code sample_tables 2 0 Jaeckel True = Some sample_sobol"
proof -
  have "assign_polynomials sample_tables Jaeckel 2 = Some [(0, 0), (0, 1)]" by code_simp
  moreover have "initial_columns sample_tables Jaeckel [0, 1] 0 \<noteq> None" by code_simp
  ultimately have "sobol_with_gray_code sample_tables 2 0 Jaeckel True \<noteq> None"
    by (auto simp: sobol_with_gray_code_def sample_tables_def assert_that_def)
  then show ?thesis by (simp add: sample_sobol_def)
qed

definition floor_log2 :: "u32 \<Rightarrow> nat" where
  "floor_log2 n = floorlog 2 (unat n) - 1"

lemma floor_log2_ok: "log2_ok floor_log2"
proof -
  have "i \<le> floor_log2 n" if "bit n i" for n i
  proof -
    have "bit (unat n) i" using that by (simp add: bit_unsigned_iff)
    then have "unat n div 2 ^ i \<noteq> 0" by (metis bit_iff_odd even_zero)
    then have "2 ^ i \<le> unat n" by (simp add: div_eq_0_iff)
    then show ?thesis using floorlog_ge_SucI [of 2 i "unat n"] by (simp add: floor_log2_def)
  qed
  moreover have "floor_log2 n < 32" if "n \<noteq> 0" for n
  proof -
    have "unat n < 2 ^ 32" using unsigned_less [of n, where ?'a = nat] by simp
    then have "floorlog 2 (unat n) \<le> 32" by (intro floorlog_leI) simp_all
    then show ?thesis by (simp add: floor_log2_def)
  qed
  ultimately show ?thesis by (simp add: log2_ok_def)
qed

theorem sobol_draws_the_gray_sequence_witness:
  "\<exists>gj gk h. draw floor_log2 1 sample_sobol = Some gj \<and> draw floor_log2 3 sample_sobol = Some gk \<and>
    skip_to floor_log2 2 gj = Some h \<and> integer_sequence h = integer_sequence gk"
proof -
  have "(of_nat (3 - 1) :: u32) = 2" by simp
  then show ?thesis using sobol_draws_the_gray_sequence [OF sample_tables_ok sample_sobol floor_log2_ok, of 3 1] by fastforce
qed

text \<open>Drawing \<open>k\<close> times as doubles.\<close>

fun sample_reals :: "(u32 \<Rightarrow> nat) \<Rightarrow> nat \<Rightarrow> sobol \<Rightarrow> sobol option" where
  "sample_reals log2_trunc 0 g = Some g"
| "sample_reals log2_trunc (Suc k) g = do { g \<leftarrow> sample_reals log2_trunc k g; next_sequence log2_trunc g }"

lemma next_sequence_scales:
  assumes "use_gray_code g" "next_int32_sequence log2_trunc g = Some h"
  shows "\<exists>rs. next_sequence log2_trunc (g\<lparr>sequence := qs\<rparr>) = Some (h\<lparr>sequence := rs\<rparr>) \<and>
    rs = map (\<lambda>i. f_mul (f_of_int (uint i)) (f_div (Fin (1 / 2)) (Fin 2147483648))) (integer_sequence h)"
  using assms
  by (auto simp: next_sequence_def next_int32_sequence_def advance_counter_def Let_def bind_eq_Some_conv assert_that_def
      split: if_splits)

text \<open>The integers do not depend on the doubles.\<close>

lemma sample_reals_draws:
  assumes "tables_ok tables d dims" "sobol_with_gray_code tables dims seed d True = Some g" "k < 2 ^ 32 - 1"
  shows "\<exists>h. draw log2_trunc (Suc k) g = Some h \<and> sample_reals log2_trunc (Suc k) g = Some (h\<lparr>sequence :=
    map (\<lambda>i. f_mul (f_of_int (uint i)) (f_div (Fin (1 / 2)) (Fin 2147483648))) (integer_sequence h)\<rparr>)"
  using assms(3)
proof (induction k)
  case 0
  obtain h where h: "next_int32_sequence log2_trunc g = Some h" using gray_draws [OF assms(1,2) 0, of log2_trunc] by auto
  show ?case using next_sequence_scales [OF sobol_columns(3) [OF assms(1,2), unfolded eq_True] h, of "sequence g"] h by simp
next
  case (Suc k)
  then obtain h where h: "draw log2_trunc (Suc k) g = Some h"
    and s: "\<exists>qs. sample_reals log2_trunc (Suc k) g = Some (h\<lparr>sequence := qs\<rparr>)" by (meson Suc_lessD)
  have gray: "use_gray_code h" using gray_draws [OF assms(1,2), of k log2_trunc] h Suc.prems by auto
  obtain h' where h': "draw log2_trunc (Suc (Suc k)) g = Some h'" using gray_draws [OF assms(1,2) Suc.prems, of log2_trunc] by blast
  then have "next_int32_sequence log2_trunc h = Some h'"
    by (simp only: draw.simps(2) [of _ "Suc k"] h Option.bind.bind_lunit)
  then show ?case using next_sequence_scales [OF gray] s h' by fastforce
qed

text \<open>A coordinate is the integer over \<open>2 ^ 32\<close>, exactly, and inside the unit interval.\<close>

definition unit_coordinate :: "sobol \<Rightarrow> nat \<Rightarrow> bool" where
  "unit_coordinate g i \<longleftrightarrow> (\<exists>x. sequence g ! i = Fin x \<and> x = of_int (uint (integer_sequence g ! i)) / 2 ^ 32 \<and> 0 < x \<and> x < 1)"

lemma unit_coordinate_scaled:
  assumes "i < length (integer_sequence g)" "integer_sequence g ! i \<noteq> 0"
  shows "unit_coordinate (g\<lparr>sequence := map (\<lambda>i. f_mul (f_of_int (uint i)) (f_div (Fin (1 / 2)) (Fin 2147483648))) (integer_sequence g)\<rparr>) i"
proof -
  let ?w = "integer_sequence g ! i"
  have "uint ?w \<noteq> 0" using assms(2) by (simp add: uint_0_iff)
  then have w: "0 < uint ?w" "uint ?w < 2 ^ 32" using uint_ge_0 [of ?w] uint_bounded [of ?w] by (linarith, simp)
  then have "0 < (of_int (uint ?w) :: rat)" "(of_int (uint ?w) :: rat) < of_int (2 ^ 32)" by (simp only: of_int_0_less_iff, simp only: of_int_less_iff)
  then have r: "0 < of_int (uint ?w) / (2 ^ 32 :: rat)" "of_int (uint ?w) / (2 ^ 32 :: rat) < 1" by (simp_all only: of_int_power of_int_numeral divide_less_eq_1_pos zero_less_divide_iff zero_less_power zero_less_numeral simp_thms)
  have "fl (1 / 4294967296) = Fin (1 / 4294967296)" using fl_scaled_int [of 1 "- 32"] by (simp add: power_int_minus)
  moreover have "fl (of_int (uint ?w) / 4294967296) = Fin (of_int (uint ?w) / 4294967296)"
    using fl_scaled_int [of "uint ?w" "- 32"] w by (simp add: power_int_minus field_simps)
  ultimately have "f_mul (f_of_int (uint ?w)) (f_div (Fin (1 / 2)) (Fin 2147483648)) = Fin (of_int (uint ?w) / 2 ^ 32)"
    using w f_of_int [of "uint ?w"] by simp
  then show ?thesis unfolding unit_coordinate_def using r assms(1)
    by (intro exI [of _ "of_int (uint ?w) / 2 ^ 32"]) simp
qed

lemma drawn_integers:
  assumes "tables_ok tables d dims" "sobol_with_gray_code tables dims seed d True = Some g"
    and "1 \<le> n" "n < 2 ^ 32" "draw log2_trunc n g = Some h"
  shows "integer_sequence h = map (point True (of_nat n)) (directions g)" "length (integer_sequence h) = dims"
    "i < dims \<Longrightarrow> integer_sequence h ! i \<noteq> 0"
proof -
  note cols = sobol_columns [OF assms(1,2)]
  obtain m where "n = Suc m" "m < 2 ^ 32 - 1" using assms(3,4) by (cases n) auto
  then have "stands_at (of_nat n) h" "directions h = directions g" "use_gray_code h"
    using gray_draws [OF assms(1,2), of m log2_trunc] assms(5) by auto
  then show h: "integer_sequence h = map (point True (of_nat n)) (directions g)" by (simp add: stands_at_def)
  then show "length (integer_sequence h) = dims" using cols(2) by simp
  show "integer_sequence h ! i \<noteq> 0" if i: "i < dims"
  proof
    assume "integer_sequence h ! i = 0"
    then have "point True (of_nat n) (directions g ! i) = point True 0 (directions g ! i)"
      using h i cols(2) xor_where_none [of 32 "bit (gray 0)"] by (simp add: point_def bit_gray)
    moreover have "triangular (directions g ! i)" using cols(1,2) i by (simp add: list_all_length)
    ultimately show False using point_inject of_nat_word_eq [of n 0] assms(3,4) by fastforce
  qed
qed

text \<open>C30. No coordinate repeats. In a generator built from well-formed tables for the Gray code, any two of the \<open>2 ^ 32 - 1\<close> draws
  of the period differ in every dimension, whether drawn as integers (\<open>next_int32_sequence\<close>) or as doubles
  (\<open>next_sequence\<close>), which draw the same integers; and every coordinate \<open>next_sequence\<close> stores, from the first draw
  on, is exactly the integer over \<open>2 ^ 32\<close> and lies strictly between 0 and 1. None of these draws panics.\<close>

theorem sobol_coordinates_never_repeat:
  assumes "tables_ok tables d dims" "sobol_with_gray_code tables dims seed d True = Some g"
    and "1 \<le> j" "j < k" "k < 2 ^ 32"
  shows "\<exists>gj gk hj hk. draw log2_trunc j g = Some gj \<and> draw log2_trunc k g = Some gk \<and>
    sample_reals log2_trunc j g = Some hj \<and> sample_reals log2_trunc k g = Some hk \<and>
    integer_sequence hj = integer_sequence gj \<and> integer_sequence hk = integer_sequence gk \<and>
    (\<forall>i<dims. integer_sequence gj ! i \<noteq> integer_sequence gk ! i \<and> sequence hj ! i \<noteq> sequence hk ! i \<and>
      unit_coordinate hj i \<and> unit_coordinate hk i)"
proof -
  note cols = sobol_columns [OF assms(1,2)]
  let ?scale = "\<lambda>h. h\<lparr>sequence := map (\<lambda>i. f_mul (f_of_int (uint i)) (f_div (Fin (1 / 2)) (Fin 2147483648))) (integer_sequence h)\<rparr>"
  have drawn: "\<exists>h. draw log2_trunc n g = Some h \<and> sample_reals log2_trunc n g = Some (?scale h)" if "1 \<le> n" "n < 2 ^ 32" for n
    using sample_reals_draws [OF assms(1,2), of "n - 1" log2_trunc] that by (cases n) auto
  obtain gj where gj: "draw log2_trunc j g = Some gj" "sample_reals log2_trunc j g = Some (?scale gj)" using drawn [of j] assms(3-5) by auto
  obtain gk where gk: "draw log2_trunc k g = Some gk" "sample_reals log2_trunc k g = Some (?scale gk)" using drawn [of k] assms(3-5) by auto
  have jk: "j < 2 ^ 32" "1 \<le> k" using assms(3-5) by simp_all
  note ij = drawn_integers [OF assms(1,2,3) jk(1) gj(1)] and ik = drawn_integers [OF assms(1,2) jk(2) assms(5) gk(1)]
  have apart: "integer_sequence gj ! i \<noteq> integer_sequence gk ! i" if i: "i < dims" for i
  proof -
    have "triangular (directions g ! i)" using cols(1,2) i by (simp add: list_all_length)
    then show ?thesis using ij(1) ik(1) i cols(2) point_inject [of "directions g ! i"] of_nat_word_eq [OF jk(1) assms(5)] assms(4) by auto
  qed
  have units: "unit_coordinate (?scale gj) i" "unit_coordinate (?scale gk) i" if "i < dims" for i
    using unit_coordinate_scaled ij(2,3) ik(2,3) that by simp_all
  have "sequence (?scale gj) ! i \<noteq> sequence (?scale gk) ! i" if i: "i < dims" for i
    using units [OF i] apart [OF i] by (auto simp: unit_coordinate_def dest: unsigned_word_eqI)
  then show ?thesis using gj gk apart units
    by (intro exI [of _ gj] exI [of _ gk] exI [of _ "?scale gj"] exI [of _ "?scale gk"]) (simp del: draw.simps sample_reals.simps)
qed

theorem sobol_coordinates_never_repeat_witness:
  "\<exists>gj gk. sample_reals floor_log2 1 sample_sobol = Some gj \<and> sample_reals floor_log2 3 sample_sobol = Some gk \<and>
     sequence gj ! 1 \<noteq> sequence gk ! 1 \<and> unit_coordinate gj 1"
proof -
  have "(1::nat) \<le> 1" "(1::nat) < 3" "(3::nat) < 2 ^ 32" by simp_all
  from sobol_coordinates_never_repeat [OF sample_tables_ok sample_sobol this] show ?thesis by fastforce
qed

text \<open>Without the Gray code the first sample comes twice: the first draw does not advance the counter, and the second one
  reads it before it does.\<close>

lemma plain_mode_repeats_the_first_sample:
  assumes "tables_ok tables d dims" "sobol_with_gray_code tables dims seed d False = Some g" "log2_ok log2_trunc"
  shows "\<exists>g1 g2. draw log2_trunc 1 g = Some g1 \<and> draw log2_trunc 2 g = Some g2 \<and> integer_sequence g2 = integer_sequence g1"
proof -
  note c = sobol_columns [OF assms(1,2)]
  obtain h where h: "skip_to log2_trunc 0 g = Some h" "integer_sequence h = map (point False 1) (directions g)" "directions h = directions g"
    "\<not> use_gray_code h" "first_draw h" "sequence_counter h = 0"
    using skip_to_stands [OF assms(3), of 0 g] c(3,4) by (auto simp: stands_at_def)
  obtain h2 where h2: "skip_to log2_trunc 0 (h\<lparr>first_draw := False\<rparr>) = Some h2" "integer_sequence h2 = map (point False 1) (directions g)"
    "\<not> first_draw h2" "sequence_counter h2 = 0"
    using skip_to_stands [OF assms(3), of 0 "h\<lparr>first_draw := False\<rparr>"] h by (auto simp: stands_at_def)
  show ?thesis
    unfolding One_nat_def numeral_2_eq_2 draw.simps
    using h h2 c(3,5) by (simp add: next_int32_sequence_def advance_counter_def)
qed

end
