(* ===== verification/Float_Order.thy ===== *)
theory Float_Order
  imports Float_Functions
begin

text \<open>
  Numbers that rounding leaves alone, for computing with the model on concrete values: small whole numbers and
  binary fractions, and the square root of the machine epsilon.
\<close>

lemma fl_numeral: "(numeral n :: int) < 2 ^ 53 \<Longrightarrow> fl (numeral n) = Fin (numeral n)"
  using f_of_int [of "numeral n"] by (simp add: f_of_int_def)

lemma fl_one: "fl 1 = Fin 1"
  using f_of_int [of 1] by (simp add: f_of_int_def)

lemma fl_zero: "fl 0 = Fin 0"
  using f_of_int [of 0] by (simp add: f_of_int_def)

lemma fl_minus_Fin: "fl x = Fin y \<Longrightarrow> fl (- x) = Fin (- y)"
  by (auto simp: fl_def Let_def split: if_splits)

lemma fl_binary_fraction:
  assumes "0 \<le> m" "m \<le> 2 ^ j" "m < 2 ^ 53" "j \<le> 1000"
  shows "fl (of_int m / 2 ^ j) = Fin (of_int m / 2 ^ j)"
proof (rule fl_representable')
  show "of_int m / 2 ^ j = of_int m * (2 :: rat) powi (- int j)" by (simp add: power_int_minus divide_inverse)
  have "(of_int m :: rat) \<le> of_int (2 ^ j)" using assms(2) by (simp only: of_int_le_iff)
  then show "\<bar>of_int m / 2 ^ j\<bar> \<le> (1 :: rat)" using assms(1) by simp
qed (use assms in auto)

lemma fl_half: "fl (1 / 2) = Fin (1 / 2)"
  using fl_binary_fraction [of 1 1] by simp

lemma binade_eq: "2 powi e \<le> x \<Longrightarrow> x < 2 powi (e + 1) \<Longrightarrow> binade x = e"
proof -
  assume x: "2 powi e \<le> x" "x < 2 powi (e + 1)"
  then have pos: "0 < x" using two_powi_pos [of e] by linarith
  have "\<not> binade x + 1 \<le> e"
    using binade [OF pos] x(1) two_powi_mono [of "binade x + 1" e] by linarith
  then show "binade x = e" using binade_unique [OF pos x(2)] by simp
qed

lemma isqrt_square: "isqrt (m * m) = m"
proof (rule antisym)
  show "m \<le> isqrt (m * m)" using square_le_iff [of m "m * m"] by simp
  have "isqrt (m * m) * isqrt (m * m) \<le> m * m" using isqrt [of "m * m"] by blast
  then show "isqrt (m * m) \<le> m" by (metis power2_eq_square power2_nat_le_eq_le)
qed

lemma f_sqrt_epsilon: "f_sqrt (Fin (1 / 2 ^ 52)) = Fin (1 / 2 ^ 26)"
proof -
  have "binade (1 / 2 ^ 52) = - 52" by (rule binade_eq) (simp_all add: power_int_minus)
  moreover have "isqrt (nat \<lfloor>1 / 2 ^ 52 * 4 powi 81 :: rat\<rfloor>) = 2 ^ 55"
    using isqrt_square [of "2 ^ 55"] by simp
  ultimately have "sqrt_near (1 / 2 ^ 52) = 1 / 2 ^ 26" by (simp add: sqrt_near_def Let_def)
  moreover have "\<not> (1 / 2 ^ 52 :: rat) < 0" "(1 / 2 ^ 52 :: rat) \<noteq> 0" by simp_all
  ultimately show ?thesis using fl_binary_fraction [of 1 26] by (simp only: f_sqrt.simps if_False of_int_1) simp
qed

text \<open>
  The total order of \<open>f64::total_cmp\<close> on the values of the model: the negative infinity, the finite numbers, the
  infinity, and not-a-number last (of either sign bit: the model has one). Sorting a \<open>Vec\<close> with it is \<open>sort\<close>.
  And \<open>Vec::dedup_by\<close>, which drops an element the given test relates to the last one kept.
\<close>

fun f_level :: "f64 \<Rightarrow> int" where
  "f_level Neg_Infinity = 0"
| "f_level (Fin _) = 1"
| "f_level Infinity = 2"
| "f_level Not_A_Number = 3"

fun f_rat :: "f64 \<Rightarrow> rat" where
  "f_rat (Fin x) = x"
| "f_rat _ = 0"

instantiation f64 :: linorder
begin

definition less_eq_f64 :: "f64 \<Rightarrow> f64 \<Rightarrow> bool" where
  "less_eq_f64 x y \<longleftrightarrow> f_level x < f_level y \<or> f_level x = f_level y \<and> f_rat x \<le> f_rat y"

definition less_f64 :: "f64 \<Rightarrow> f64 \<Rightarrow> bool" where
  "less_f64 x y \<longleftrightarrow> f_level x < f_level y \<or> f_level x = f_level y \<and> f_rat x < f_rat y"

instance
proof
  fix x y z :: f64
  show "x < y \<longleftrightarrow> x \<le> y \<and> \<not> y \<le> x" "x \<le> x" "x \<le> y \<or> y \<le> x"
    by (auto simp: less_eq_f64_def less_f64_def)
  show "x \<le> y \<Longrightarrow> y \<le> z \<Longrightarrow> x \<le> z" by (auto simp: less_eq_f64_def)
  show "x \<le> y \<Longrightarrow> y \<le> x \<Longrightarrow> x = y" by (cases x; cases y) (auto simp: less_eq_f64_def)
qed

end

text \<open>On numbers it is the comparison of the code.\<close>

lemma total_order_finite [simp]: "Fin x \<le> Fin y \<longleftrightarrow> x \<le> y" "Fin x < Fin y \<longleftrightarrow> x < y"
  by (simp_all add: less_eq_f64_def less_f64_def)

lemma f_less_order: "x \<noteq> Not_A_Number \<Longrightarrow> y \<noteq> Not_A_Number \<Longrightarrow> f_less x y \<longleftrightarrow> x < y"
  by (cases x; cases y) (simp_all add: less_f64_def)

lemma f_le_order: "x \<noteq> Not_A_Number \<Longrightarrow> y \<noteq> Not_A_Number \<Longrightarrow> f_le x y \<longleftrightarrow> x \<le> y"
  by (cases x; cases y) (auto simp: f_le_def less_eq_f64_def)

lemma f_eq_order: "x \<noteq> Not_A_Number \<Longrightarrow> f_eq x y \<longleftrightarrow> x = y"
  by (cases x) simp_all

section \<open>Removing duplicates\<close>

fun dedup_from :: "('a \<Rightarrow> 'a \<Rightarrow> bool) \<Rightarrow> 'a \<Rightarrow> 'a list \<Rightarrow> 'a list" where
  "dedup_from same kept [] = []"
| "dedup_from same kept (x # xs) = (if same x kept then dedup_from same kept xs else x # dedup_from same x xs)"

fun dedup_by :: "('a \<Rightarrow> 'a \<Rightarrow> bool) \<Rightarrow> 'a list \<Rightarrow> 'a list" where
  "dedup_by same [] = []"
| "dedup_by same (x # xs) = x # dedup_from same x xs"

lemma set_dedup_from: "set (dedup_from same kept xs) \<subseteq> set xs"
  by (induction xs arbitrary: kept) auto

lemma set_dedup_by: "set (dedup_by same xs) \<subseteq> set xs"
  using set_dedup_from by (cases xs) fastforce+

lemma sorted_dedup_from: "sorted (kept # xs) \<Longrightarrow> sorted (kept # dedup_from same kept xs)"
proof (induction xs arbitrary: kept)
  case (Cons x xs)
  then have "sorted (x # dedup_from same x xs)" "sorted (kept # dedup_from same kept xs)" by auto
  then show ?case using Cons.prems by (auto intro: order_trans)
qed simp

lemma sorted_dedup_by: "sorted xs \<Longrightarrow> sorted (dedup_by same xs)"
  using sorted_dedup_from by (cases xs) auto

text \<open>With equality on a sorted list, every value stays once.\<close>

lemma dedup_from_eq: "sorted (kept # xs) \<Longrightarrow> sorted_wrt (<) (kept # dedup_from (=) kept xs) \<and> insert kept (set (dedup_from (=) kept xs)) = insert kept (set xs)"
proof (induction xs arbitrary: kept)
  case (Cons x xs)
  have x: "sorted (x # xs)" "sorted (kept # xs)" "kept \<le> x" using Cons.prems by auto
  show ?case
  proof (cases "x = kept")
    case True
    then show ?thesis using Cons.IH [OF x(2)] by simp
  next
    case False
    then have "kept < x" using x(3) by simp
    moreover have "\<And>y. y \<in> set (dedup_from (=) x xs) \<Longrightarrow> x \<le> y" using Cons.IH [OF x(1)] by auto
    ultimately show ?thesis using False Cons.IH [OF x(1)] by fastforce
  qed
qed simp

lemma dedup_by_eq: "sorted xs \<Longrightarrow> sorted_wrt (<) (dedup_by (=) xs) \<and> set (dedup_by (=) xs) = set xs"
  using dedup_from_eq by (cases xs) auto

lemma dedup_from_cong:
  "\<forall>x \<in> insert kept (set xs). \<forall>y \<in> insert kept (set xs). same x y = same' x y \<Longrightarrow> dedup_from same kept xs = dedup_from same' kept xs"
  by (induction xs arbitrary: kept) auto

lemma dedup_by_cong:
  "\<forall>x \<in> set xs. \<forall>y \<in> set xs. same x y = same' x y \<Longrightarrow> dedup_by same xs = dedup_by same' xs"
  using dedup_from_cong [of _ _ same same'] by (cases xs) simp_all

end
