(* ===== verification/Money.thy ===== *)
theory Money
  imports Float_Order
begin

text \<open>
  \<open>currency.rs\<close>, \<open>money.rs\<close> and \<open>exchangerate.rs\<close>: currencies with the presets of the code, amounts of money with their
  checked arithmetic, and exchange rates, given or derived by chaining two others. Texts are lists of the
  bytes of their UTF-8 encoding. A derived rate owns its two children, so a rate is a tree.
\<close>

section \<open>Currencies\<close>

record currency =
  currency_name :: string
  currency_code :: string
  numeric_code :: int
  symbol :: string
  fraction_symbol :: string
  fractions_per_unit :: int

definition currency_new :: "string \<Rightarrow> string \<Rightarrow> int \<Rightarrow> string \<Rightarrow> string \<Rightarrow> int \<Rightarrow> currency" where
  "currency_new name code numeric sgn_text fraction units =
     \<lparr>currency_name = name, currency_code = code, numeric_code = numeric, symbol = sgn_text, fraction_symbol = fraction, fractions_per_unit = units\<rparr>"

text \<open>Equality is by name.\<close>

definition currency_eq :: "currency \<Rightarrow> currency \<Rightarrow> bool" where
  "currency_eq a b \<longleftrightarrow> currency_name a = currency_name b"

definition currency_display :: "currency \<Rightarrow> string" where
  "currency_display c = currency_code c"

definition eur :: currency where "eur = currency_new ''European Euro'' ''EUR'' 978 '''' '''' 100"
definition usd :: currency where "usd = currency_new ''U.S. dollar'' ''USD'' 840 ''$'' [CHR 0xC2, CHR 0xA2] 100"
definition aud :: currency where "aud = currency_new ''Australian dollar'' ''AUD'' 36 ''A$'' '''' 100"
definition gbp :: currency where "gbp = currency_new ''British pound sterling'' ''GBP'' 826 [CHR 0xC2, CHR 0xA3] ''p'' 100"
definition jpy :: currency where "jpy = currency_new ''Japanese yen'' ''JPY'' 392 [CHR 0xC2, CHR 0xA5] '''' 100"
definition twd :: currency where "twd = currency_new ''Taiwan dollar'' ''TWD'' 901 ''NT$'' '''' 100"
definition chf :: currency where "chf = currency_new ''Swiss franc'' ''CHF'' 756 ''SwF'' '''' 100"
definition cad :: currency where "cad = currency_new ''Canadian dollar'' ''CAD'' 124 ''Can$'' '''' 100"
definition sek :: currency where "sek = currency_new ''Swedish krona'' ''SEK'' 752 ''kr'' '''' 100"
definition nok :: currency where "nok = currency_new ''Norwegian krone'' ''NOK'' 578 ''NKr'' '''' 100"
definition dkk :: currency where "dkk = currency_new ''Danish krone'' ''DKK'' 208 ''Dkr'' '''' 100"
definition nzd :: currency where "nzd = currency_new ''New Zealand dollar'' ''NZD'' 554 ''NZ$'' '''' 100"
definition hkd :: currency where "hkd = currency_new ''Hong Kong dollar'' ''HKD'' 344 ''HK$'' '''' 100"
definition sgd :: currency where "sgd = currency_new ''Singapore dollar'' ''SGD'' 702 ''S$'' '''' 100"
definition cny :: currency where "cny = currency_new ''Chinese yuan'' ''CNY'' 156 ''Y'' '''' 100"
definition krw :: currency where "krw = currency_new ''South-Korean won'' ''KRW'' 410 ''W'' '''' 100"
definition inr :: currency where "inr = currency_new ''Indian rupee'' ''INR'' 356 ''Rs'' '''' 100"
definition brl :: currency where "brl = currency_new ''Brazilian real'' ''BRL'' 986 ''R$'' '''' 100"
definition mxn :: currency where "mxn = currency_new ''Mexican peso'' ''MXN'' 484 ''Mex$'' '''' 100"
definition zar :: currency where "zar = currency_new ''South-African rand'' ''ZAR'' 710 ''R'' '''' 100"
definition pln :: currency where "pln = currency_new ''Polish zloty'' ''PLN'' 985 ''zl'' '''' 100"
definition czk :: currency where "czk = currency_new ''Czech koruna'' ''CZK'' 203 ''Kc'' '''' 100"
definition huf :: currency where "huf = currency_new ''Hungarian forint'' ''HUF'' 348 ''Ft'' '''' 1"
definition try_lira :: currency where "try_lira = currency_new ''New Turkish lira'' ''TRY'' 949 ''YTL'' '''' 100"

section \<open>Money\<close>

datatype money_error =
  NonFiniteAmount | CurrencyMismatch | NonFiniteOperand | BadDivisor | BadExchangeRate | NotChainable | NotApplicable

type_synonym 'a money_result = "money_error + 'a"

record money =
  money_currency :: currency
  money_value :: f64

definition money_new :: "currency \<Rightarrow> f64 \<Rightarrow> money" where
  "money_new c v = \<lparr>money_currency = c, money_value = v\<rparr>"

definition money_checked_new :: "currency \<Rightarrow> f64 \<Rightarrow> money money_result" where
  "money_checked_new c v = (if \<not> is_finite v then Inl NonFiniteAmount else Inr (money_new c v))"

definition money_eq :: "money \<Rightarrow> money \<Rightarrow> bool" where
  "money_eq a b \<longleftrightarrow> currency_eq (money_currency a) (money_currency b) \<and> f_eq (money_value a) (money_value b)"

definition checked_add :: "money \<Rightarrow> money \<Rightarrow> money money_result" where
  "checked_add a b =
     (if \<not> currency_eq (money_currency a) (money_currency b) then Inl CurrencyMismatch
      else if \<not> (is_finite (money_value a) \<and> is_finite (money_value b)) then Inl NonFiniteAmount
      else money_checked_new (money_currency a) (f_add (money_value a) (money_value b)))"

definition checked_mul :: "money \<Rightarrow> f64 \<Rightarrow> money money_result" where
  "checked_mul a x =
     (if \<not> (is_finite (money_value a) \<and> is_finite x) then Inl NonFiniteOperand
      else money_checked_new (money_currency a) (f_mul (money_value a) x))"

definition checked_div :: "money \<Rightarrow> f64 \<Rightarrow> money money_result" where
  "checked_div a x =
     (if \<not> (is_finite x \<and> \<not> f_eq x (Fin 0)) then Inl BadDivisor
      else if \<not> is_finite (money_value a) then Inl NonFiniteAmount
      else money_checked_new (money_currency a) (f_div (money_value a) x))"

definition checked_ratio :: "money \<Rightarrow> money \<Rightarrow> f64 money_result" where
  "checked_ratio a b =
     (if \<not> currency_eq (money_currency a) (money_currency b) then Inl CurrencyMismatch
      else case checked_div a (money_value b) of Inl e \<Rightarrow> Inl e | Inr m \<Rightarrow> Inr (money_value m))"

definition money_neg :: "money \<Rightarrow> money" where
  "money_neg a = money_new (money_currency a) (f_neg (money_value a))"

definition checked_sub :: "money \<Rightarrow> money \<Rightarrow> money money_result" where
  "checked_sub a b = checked_add a (money_new (money_currency b) (f_neg (money_value b)))"

definition money_mul :: "money \<Rightarrow> f64 \<Rightarrow> money" where
  "money_mul a x = money_new (money_currency a) (f_mul (money_value a) x)"

text \<open>The unchecked quotient, for a divisor that is not a negative zero.\<close>

definition money_div :: "money \<Rightarrow> f64 \<Rightarrow> money" where
  "money_div a x = money_new (money_currency a) (f_div (money_value a) x)"

section \<open>Exchange rates\<close>

datatype exchange_rate_type = Direct | Derived

datatype exchange_rate = Exchange_Rate
  (rate_source: currency) (rate_target: currency) (rate_value: f64) (rate_chain: "(exchange_rate \<times> exchange_rate) option")

definition rate_new :: "currency \<Rightarrow> currency \<Rightarrow> f64 \<Rightarrow> exchange_rate" where
  "rate_new s t r = Exchange_Rate s t r None"

definition rate_ok :: "f64 \<Rightarrow> bool" where
  "rate_ok r \<longleftrightarrow> is_finite r \<and> f_less (Fin 0) r"

definition rate_checked_new :: "currency \<Rightarrow> currency \<Rightarrow> f64 \<Rightarrow> exchange_rate money_result" where
  "rate_checked_new s t r = (if \<not> rate_ok r then Inl BadExchangeRate else Inr (rate_new s t r))"

definition rate_type :: "exchange_rate \<Rightarrow> exchange_rate_type" where
  "rate_type r = (if rate_chain r \<noteq> None then Derived else Direct)"

text \<open>The ends of the derived rate and its value, by the first orientation that matches.\<close>

definition chained_ends :: "exchange_rate \<Rightarrow> exchange_rate \<Rightarrow> (currency \<times> currency \<times> f64) option" where
  "chained_ends a b =
     (if currency_eq (rate_source a) (rate_source b) then Some (rate_target a, rate_target b, f_div (rate_value b) (rate_value a))
      else if currency_eq (rate_source a) (rate_target b) then
        Some (rate_target a, rate_source b, f_div (Fin 1) (f_mul (rate_value a) (rate_value b)))
      else if currency_eq (rate_target a) (rate_source b) then Some (rate_source a, rate_target b, f_mul (rate_value a) (rate_value b))
      else if currency_eq (rate_target a) (rate_target b) then Some (rate_source a, rate_source b, f_div (rate_value a) (rate_value b))
      else None)"

definition chain_rates :: "exchange_rate \<Rightarrow> exchange_rate \<Rightarrow> exchange_rate money_result" where
  "chain_rates a b =
     (if \<not> (rate_ok (rate_value a) \<and> rate_ok (rate_value b)) then Inl BadExchangeRate
      else case chained_ends a b of
        None \<Rightarrow> Inl NotChainable
      | Some (s, t, r) \<Rightarrow>
          (case rate_checked_new s t r of Inl e \<Rightarrow> Inl e | Inr _ \<Rightarrow> Inr (Exchange_Rate s t r (Some (a, b)))))"

fun exchange :: "exchange_rate \<Rightarrow> money \<Rightarrow> money money_result" where
  "exchange (Exchange_Rate s t r (Some (a, b))) m =
     (if \<not> rate_ok r then Inl BadExchangeRate
      else if \<not> is_finite (money_value m) then Inl NonFiniteAmount
      else if currency_eq (money_currency m) (rate_source a) \<or> currency_eq (money_currency m) (rate_target a) then
        (case exchange a m of Inl e \<Rightarrow> Inl e | Inr m' \<Rightarrow> exchange b m')
      else if currency_eq (money_currency m) (rate_source b) \<or> currency_eq (money_currency m) (rate_target b) then
        (case exchange b m of Inl e \<Rightarrow> Inl e | Inr m' \<Rightarrow> exchange a m')
      else Inl NotApplicable)"
| "exchange (Exchange_Rate s t r None) m =
     (if \<not> rate_ok r then Inl BadExchangeRate
      else if \<not> is_finite (money_value m) then Inl NonFiniteAmount
      else if currency_eq (money_currency m) s then money_checked_new t (f_mul (money_value m) r)
      else if currency_eq (money_currency m) t then money_checked_new s (f_div (money_value m) r)
      else Inl NotApplicable)"

text \<open>
  What conversions of money guarantee: amounts never change currency behind the caller's back, a rate converts
  between its two ends only, whatever the tree of rates behind it, and the sign of the amount is kept.
\<close>

section \<open>Currency and amount\<close>

lemma currency_eq_refl [simp]: "currency_eq c c"
  by (simp add: currency_eq_def)

lemma currency_eq_sym: "currency_eq a b \<Longrightarrow> currency_eq b a"
  by (simp add: currency_eq_def)

lemma currency_eq_trans: "currency_eq a b \<Longrightarrow> currency_eq b c \<Longrightarrow> currency_eq a c"
  by (simp add: currency_eq_def)

lemma checked_new_Inr: "money_checked_new c v = Inr m \<longleftrightarrow> is_finite v \<and> m = money_new c v"
  by (auto simp: money_checked_new_def)

lemma checked_new_Inl: "money_checked_new c v = Inl e \<Longrightarrow> e = NonFiniteAmount"
  by (simp add: money_checked_new_def split: if_splits)

lemma money_new_simps [simp]: "money_currency (money_new c v) = c" "money_value (money_new c v) = v"
  by (simp_all add: money_new_def)

text \<open>The sign of a product or quotient by a positive number survives rounding, unless the result vanishes.\<close>

definition not_opposite :: "f64 \<Rightarrow> f64 \<Rightarrow> bool" where
  "not_opposite x y \<longleftrightarrow> (f_le (Fin 0) x \<longrightarrow> f_le (Fin 0) y) \<and> (f_le x (Fin 0) \<longrightarrow> f_le y (Fin 0))"

lemma fl_sign: "(0 \<le> x \<longrightarrow> f_le (Fin 0) (fl x)) \<and> (x \<le> 0 \<longrightarrow> f_le (fl x) (Fin 0))"
  using rnd_nonneg [of x] rnd_nonneg [of "- x"] by (auto simp: fl_def Let_def f_le_def)

lemma not_opposite_trans: "not_opposite x y \<Longrightarrow> not_opposite y z \<Longrightarrow> not_opposite x z"
  by (simp add: not_opposite_def)

lemma scaled_sign:
  assumes "rate_ok r" "is_finite v"
  shows "not_opposite v (f_mul v r)" "not_opposite v (f_div v r)"
proof -
  obtain q x where q: "r = Fin q" "0 < q" "v = Fin x" using assms by (cases r; cases v) (auto simp: rate_ok_def)
  then show "not_opposite v (f_mul v r)" "not_opposite v (f_div v r)"
    using fl_sign [of "x * q"] fl_sign [of "x / q"]
    by (auto simp: not_opposite_def f_le_def zero_le_mult_iff mult_le_0_iff zero_le_divide_iff divide_le_0_iff)
qed

section \<open>Rates with two ends\<close>

text \<open>The rates a program builds, each between two different currencies.\<close>

inductive two_sided :: "exchange_rate \<Rightarrow> bool" where
  given: "\<not> currency_eq s t \<Longrightarrow> two_sided (rate_new s t r)"
| derived: "two_sided a \<Longrightarrow> two_sided b \<Longrightarrow> chain_rates a b = Inr r \<Longrightarrow> \<not> currency_eq (rate_source r) (rate_target r) \<Longrightarrow> two_sided r"

lemma two_sided_ends: "two_sided r \<Longrightarrow> \<not> currency_eq (rate_source r) (rate_target r)"
  by (erule two_sided.cases) (simp_all add: rate_new_def)

text \<open>\<open>at_end c x\<close>: a currency equal to an end of a rate, and \<open>far_end\<close> the other end.\<close>

definition far_end :: "exchange_rate \<Rightarrow> currency \<Rightarrow> currency option" where
  "far_end r c =
     (if currency_eq c (rate_source r) then Some (rate_target r) else if currency_eq c (rate_target r) then Some (rate_source r) else None)"

text \<open>A chained rate leads where its two children lead, one after the other.\<close>

lemma chain_rates_Inr:
  assumes "chain_rates a b = Inr r"
  obtains s t v where "r = Exchange_Rate s t v (Some (a, b))" "chained_ends a b = Some (s, t, v)" "rate_ok v"
    "rate_ok (rate_value a)" "rate_ok (rate_value b)"
proof -
  obtain s t v where "chained_ends a b = Some (s, t, v)" "rate_ok v" "r = Exchange_Rate s t v (Some (a, b))"
    using assms by (auto simp: chain_rates_def rate_checked_new_def split: if_splits option.splits prod.splits)
  moreover have "rate_ok (rate_value a)" "rate_ok (rate_value b)" using assms by (simp_all add: chain_rates_def split: if_splits)
  ultimately show ?thesis using that by blast
qed

text \<open>The children of a chained rate share a currency, and its ends are the two others.\<close>

lemma chained_ends_middle:
  assumes "chained_ends a b = Some (s, t, v)" "\<not> currency_eq (rate_source a) (rate_target a)"
    "\<not> currency_eq (rate_source b) (rate_target b)"
  obtains m n where "currency_eq m n" "\<not> currency_eq s m" "\<not> currency_eq t n" "far_end a m = Some s" "far_end b n = Some t" "far_end a s = Some m" "far_end b t = Some n"
    "\<And>c. far_end a c \<noteq> None \<longleftrightarrow> currency_eq c s \<or> currency_eq c m" "\<And>c. far_end b c \<noteq> None \<longleftrightarrow> currency_eq c t \<or> currency_eq c n"
  using assms unfolding chained_ends_def
  by (auto simp: far_end_def currency_eq_def split: if_splits)

text \<open>The routing of a derived exchange.\<close>

definition routed :: "exchange_rate \<Rightarrow> money \<Rightarrow> money money_result \<Rightarrow> bool" where
  "routed r m result \<longleftrightarrow>
     (case far_end r (money_currency m) of
        None \<Rightarrow> (\<exists>e. result = Inl e)
      | Some c \<Rightarrow> (case result of
          Inr m' \<Rightarrow> money_currency m' = c \<and> is_finite (money_value m') \<and> not_opposite (money_value m) (money_value m')
        | Inl e \<Rightarrow> rate_ok (rate_value r) \<and> is_finite (money_value m) \<longrightarrow> e = NonFiniteAmount))"

lemma far_end_cong: "currency_eq c d \<Longrightarrow> far_end r c = far_end r d"
  by (simp add: far_end_def currency_eq_def)

lemma far_end_None: "far_end r c = None \<longleftrightarrow> \<not> (currency_eq c (rate_source r) \<or> currency_eq c (rate_target r))"
  by (simp add: far_end_def)

lemma given_routed:
  assumes "\<not> currency_eq s t"
  shows "routed (rate_new s t r) m (exchange (rate_new s t r) m)"
  using scaled_sign [of r "money_value m"] assms
  by (auto simp: routed_def rate_new_def far_end_def money_checked_new_def currency_eq_def split: if_splits)

text \<open>Two conversions in a row: the second starts where the first arrived.\<close>

lemma routed_twice:
  assumes "routed a m (exchange a m)" "\<And>m'. routed b m' (exchange b m')" "far_end a (money_currency m) = Some x"
    and "rate_ok (rate_value a)" "rate_ok (rate_value b)"
  shows "case (case exchange a m of Inl e \<Rightarrow> Inl e | Inr m' \<Rightarrow> exchange b m') of
      Inr m' \<Rightarrow> far_end b x = Some (money_currency m') \<and> is_finite (money_value m') \<and> not_opposite (money_value m) (money_value m')
    | Inl e \<Rightarrow> far_end b x \<noteq> None \<and> is_finite (money_value m) \<longrightarrow> e = NonFiniteAmount"
proof (cases "exchange a m")
  case (Inl e)
  then show ?thesis using assms(1,3,4) by (simp add: routed_def)
next
  case (Inr m')
  then have m': "money_currency m' = x" "is_finite (money_value m')" "not_opposite (money_value m) (money_value m')"
    using assms(1,3) by (simp_all add: routed_def)
  show ?thesis using assms(2) [of m'] m' assms(5) Inr
    by (cases "exchange b m'"; cases "far_end b x") (auto simp: routed_def intro: not_opposite_trans)
qed

lemma derived_routed:
  assumes "chain_rates a b = Inr r" "two_sided a" "two_sided b" "\<not> currency_eq (rate_source r) (rate_target r)"
    and a: "\<And>m. routed a m (exchange a m)" and b: "\<And>m. routed b m (exchange b m)"
  shows "routed r m (exchange r m)"
proof -
  obtain s t v where r: "r = Exchange_Rate s t v (Some (a, b))" "chained_ends a b = Some (s, t, v)" "rate_ok v"
    and ok: "rate_ok (rate_value a)" "rate_ok (rate_value b)" using chain_rates_Inr [OF assms(1)] by metis
  obtain p q where pq: "currency_eq p q" "\<not> currency_eq s p" "\<not> currency_eq t q" "far_end a p = Some s" "far_end b q = Some t"
    "far_end a s = Some p" "far_end b t = Some q" "\<And>c. far_end a c \<noteq> None \<longleftrightarrow> currency_eq c s \<or> currency_eq c p"
    "\<And>c. far_end b c \<noteq> None \<longleftrightarrow> currency_eq c t \<or> currency_eq c q"
    using chained_ends_middle [OF r(2) two_sided_ends [OF assms(2)] two_sided_ends [OF assms(3)]] by metis
  let ?c = "money_currency m"
  have st: "\<not> currency_eq s t" using assms(4) r(1) by simp
  have ends: "far_end (Exchange_Rate s t v (Some (a, b))) ?c = (if currency_eq ?c s then Some t else if currency_eq ?c t then Some s else None)"
    by (simp add: far_end_def)
  consider (bad) "\<not> is_finite (money_value m)" | (source) "is_finite (money_value m)" "currency_eq ?c s"
    | (middle) "is_finite (money_value m)" "currency_eq ?c p" "\<not> currency_eq ?c s"
    | (target) "is_finite (money_value m)" "currency_eq ?c t" "far_end a ?c = None"
    | (outside) "is_finite (money_value m)" "far_end a ?c = None" "far_end b ?c = None"
    using pq(1) pq(8) [of ?c] pq(9) [of ?c]
    by (cases "currency_eq ?c s"; cases "currency_eq ?c p"; cases "is_finite (money_value m)") (auto simp: currency_eq_def)
  then show ?thesis
  proof cases
    case bad
    then show ?thesis using r(1,3) by (simp add: routed_def split: option.split)
  next
    case source
    have "far_end a ?c = Some p" "far_end b p = Some t" using far_end_cong [OF source(2)] pq(5,6) far_end_cong [OF pq(1)] by simp_all
    moreover have e: "exchange r m = (case exchange a m of Inl e \<Rightarrow> Inl e | Inr m' \<Rightarrow> exchange b m')" and f: "far_end r ?c = Some t"
      using source calculation far_end_None [of a ?c] r(1,3) by (simp_all add: ends)
    ultimately show ?thesis unfolding routed_def e f
      using routed_twice [where a = a and b = b and m = m and x = p, OF a b _ ok] source(1) by (auto split: sum.splits)
  next
    case middle
    have "far_end a ?c = Some s" using far_end_cong [OF middle(2)] pq(4) by simp
    moreover have "far_end b s = None" "\<not> currency_eq ?c t"
      using pq(1-3) pq(9) [of s] st middle(2) by (auto simp: currency_eq_def)
    moreover have e: "exchange r m = (case exchange a m of Inl e \<Rightarrow> Inl e | Inr m' \<Rightarrow> exchange b m')" and f: "far_end r ?c = None"
      using middle calculation far_end_None [of a ?c] r(1,3) by (simp_all add: ends)
    ultimately show ?thesis unfolding routed_def e f
      using routed_twice [where a = a and b = b and m = m and x = s, OF a b _ ok] by (auto split: sum.splits)
  next
    case target
    have "far_end b ?c = Some q" "far_end a q = Some s" using far_end_cong [OF target(2)] pq(4,7) far_end_cong [OF pq(1)] by simp_all
    moreover have "\<not> currency_eq ?c s" using target(3) pq(8) [of ?c] by auto
    moreover have e: "exchange r m = (case exchange b m of Inl e \<Rightarrow> Inl e | Inr m' \<Rightarrow> exchange a m')" and f: "far_end r ?c = Some s"
      using target calculation far_end_None [of a ?c] far_end_None [of b ?c] r(1,3) by (simp_all add: ends)
    ultimately show ?thesis unfolding routed_def e f
      using routed_twice [where a = b and b = a and m = m and x = q, OF b a _ ok(2,1)] target(1) by (auto split: sum.splits)
  next
    case outside
    then have "\<not> currency_eq ?c s" "\<not> currency_eq ?c t" using pq(8) [of ?c] pq(9) [of ?c] by auto
    then show ?thesis using outside r(1,3) far_end_None [of a ?c] far_end_None [of b ?c] by (simp add: routed_def ends)
  qed
qed

lemma exchange_routed: "two_sided r \<Longrightarrow> routed r m (exchange r m)"
proof (induction arbitrary: m rule: two_sided.induct)
  case (given s t r)
  then show ?case by (rule given_routed)
next
  case (derived a b r)
  show ?case by (rule derived_routed [OF derived.hyps(3,1,2,4) derived.IH])
qed

text \<open>C31. Exchange rates are type-safe. Take a rate built from given rates by any number of chainings, in which every
  rate, given or derived, joins two different currencies. Exchanging an amount either fails or gives a finite amount of exactly
  the other currency, of the same sign; an amount in any other currency, even one the tree goes through, is
  refused; and a positive finite rate refuses a finite amount of one of its ends only because the result overflows.\<close>

theorem exchange_respects_currencies:
  assumes "two_sided r"
  shows "case exchange r m of
      Inr m' \<Rightarrow> (currency_eq (money_currency m) (rate_source r) \<and> money_currency m' = rate_target r \<or>
                currency_eq (money_currency m) (rate_target r) \<and> money_currency m' = rate_source r) \<and>
        is_finite (money_value m') \<and> not_opposite (money_value m) (money_value m')
    | Inl e \<Rightarrow> e = NonFiniteAmount \<or> \<not> rate_ok (rate_value r) \<or> \<not> is_finite (money_value m) \<or>
        \<not> currency_eq (money_currency m) (rate_source r) \<and> \<not> currency_eq (money_currency m) (rate_target r)"
  using exchange_routed [OF assms, of m]
  by (cases "exchange r m") (auto simp: routed_def far_end_def split: if_splits)

definition eur_usd :: exchange_rate where "eur_usd = rate_new eur usd (Fin 2)"
definition eur_jpy :: exchange_rate where "eur_jpy = rate_new eur jpy (Fin 100)"
definition usd_jpy :: exchange_rate where "usd_jpy = Exchange_Rate usd jpy (Fin 50) (Some (eur_usd, eur_jpy))"

lemmas sample_rates = eur_usd_def eur_jpy_def usd_jpy_def rate_new_def chain_rates_def chained_ends_def rate_checked_new_def rate_ok_def
  currency_eq_def eur_def usd_def jpy_def currency_new_def money_checked_new_def fl_numeral fl_one

lemma usd_jpy: "two_sided usd_jpy"
proof (rule derived)
  show "two_sided eur_usd" "two_sided eur_jpy"
    unfolding eur_usd_def eur_jpy_def by (rule given, simp add: sample_rates)+
  show "chain_rates eur_usd eur_jpy = Inr usd_jpy" "\<not> currency_eq (rate_source usd_jpy) (rate_target usd_jpy)"
    by (simp_all add: sample_rates)
qed

theorem exchange_respects_currencies_witness:
  "exchange usd_jpy (money_new usd (Fin 4)) = Inr (money_new jpy (Fin 200)) \<and>
    not_opposite (Fin 4) (Fin 200) \<and> (\<exists>e. exchange usd_jpy (money_new eur (Fin 4)) = Inl e)"
proof -
  have "exchange usd_jpy (money_new usd (Fin 4)) = Inr (money_new jpy (Fin 200))" by (simp add: sample_rates)
  moreover have "\<not> currency_eq eur (rate_source usd_jpy)" "\<not> currency_eq eur (rate_target usd_jpy)" by (simp_all add: sample_rates)
  ultimately show ?thesis
    using exchange_respects_currencies [OF usd_jpy, of "money_new usd (Fin 4)"]
      exchange_respects_currencies [OF usd_jpy, of "money_new eur (Fin 4)"] by (auto split: sum.splits)
qed

text \<open>A rate between a currency and itself breaks the routing: chained after a rate into its currency, the derived rate
  converts from its source but not back.\<close>

lemma self_rate_is_one_way:
  "\<exists>r. chain_rates eur_usd (rate_new usd usd (Fin 1)) = Inr r \<and>
     exchange r (money_new eur (Fin 1)) = Inr (money_new usd (Fin 2)) \<and> exchange r (money_new usd (Fin 2)) = Inl NotApplicable"
proof -
  let ?r = "Exchange_Rate eur usd (Fin 2) (Some (eur_usd, rate_new usd usd (Fin 1)))"
  have "chain_rates eur_usd (rate_new usd usd (Fin 1)) = Inr ?r" by (simp add: sample_rates)
  moreover have "exchange ?r (money_new eur (Fin 1)) = Inr (money_new usd (Fin 2))" by (simp add: sample_rates)
  moreover have "exchange ?r (money_new usd (Fin 2)) = Inl NotApplicable" by (simp add: sample_rates)
  ultimately show ?thesis by blast
qed

end
