(* ===== verification/Grid_Layout.thy ===== *)
theory Grid_Layout
  imports Prelude
begin

text \<open>
  \<open>methods/finitedifferences/operators/fdmlinearoplayout.rs\<close> and \<open>fdmlinearopiterator.rs\<close>: the index space of a
  finite-difference grid of any number of dimensions. \<open>Size\<close> is \<open>usize\<close>, 64 bits, with its overflow and underflow
  checks; the reflection computes in \<open>i64\<close>.
\<close>

section \<open>Sizes\<close>

definition usize :: "nat \<Rightarrow> nat option" where
  "usize n = (if n < 2 ^ 64 then Some n else None)"

definition usize_sub :: "nat \<Rightarrow> nat \<Rightarrow> nat option" where
  "usize_sub a b = (if b \<le> a then Some (a - b) else None)"

definition as_i64 :: "nat \<Rightarrow> int" where
  "as_i64 n = (if n < 2 ^ 63 then int n else int n - 2 ^ 64)"

definition i64 :: "int \<Rightarrow> int option" where
  "i64 n = (if - (2 ^ 63) \<le> n \<and> n < 2 ^ 63 then Some n else None)"

definition as_usize :: "int \<Rightarrow> nat" where
  "as_usize n = nat (n mod 2 ^ 64)"

section \<open>Positions\<close>

record position =
  grid_index :: nat
  grid_dim :: "nat list"
  coordinates :: "nat list"

definition position_new :: "nat list \<Rightarrow> position" where
  "position_new extents = \<lparr>grid_index = 0, grid_dim = extents, coordinates = replicate (length extents) 0\<rparr>"

definition with_coordinates :: "nat list \<Rightarrow> nat list \<Rightarrow> nat \<Rightarrow> position" where
  "with_coordinates extents cs i = \<lparr>grid_index = i, grid_dim = extents, coordinates = cs\<rparr>"

text \<open>The loop of \<open>advance\<close>: the coordinates from the current dimension on.\<close>

fun carry :: "nat list \<Rightarrow> nat list \<Rightarrow> nat list option" where
  "carry [] cs = Some cs"
| "carry (d # ds) [] = None"
| "carry (d # ds) (c # cs) = do {
     c \<leftarrow> usize (c + 1);
     if c = d then do { cs \<leftarrow> carry ds cs; Some (0 # cs) } else Some (c # cs)
   }"

definition step_position :: "position \<Rightarrow> position option" where
  "step_position p = do {
     i \<leftarrow> usize (grid_index p + 1);
     cs \<leftarrow> carry (grid_dim p) (coordinates p);
     Some (p\<lparr>grid_index := i, coordinates := cs\<rparr>)
   }"

section \<open>The layout\<close>

record layout =
  layout_size :: nat
  layout_dim :: "nat list"
  spacing :: "nat list"

fun strides :: "nat list \<Rightarrow> nat \<Rightarrow> (nat list \<times> nat) option" where
  "strides [] stride = Some ([], stride)"
| "strides (extent # extents) stride = do {
     following \<leftarrow> usize (stride * extent);
     (rest, final) \<leftarrow> strides extents following;
     Some (stride # rest, final)
   }"

definition layout_new :: "nat list \<Rightarrow> layout option" where
  "layout_new extents = do {
     assert_that (extents \<noteq> []);
     (sp, final) \<leftarrow> strides extents 1;
     Some \<lparr>layout_size = final, layout_dim = extents, spacing = sp\<rparr>
   }"

fun sum_products :: "(nat \<times> nat) list \<Rightarrow> nat \<Rightarrow> nat option" where
  "sum_products [] acc = Some acc"
| "sum_products ((c, s) # cs) acc = do { p \<leftarrow> usize (c * s); acc \<leftarrow> usize (acc + p); sum_products cs acc }"

definition layout_index :: "layout \<Rightarrow> nat list \<Rightarrow> nat option" where
  "layout_index l cs = do {
     assert_that (length cs = length (layout_dim l));
     sum_products (zip cs (spacing l)) 0
   }"

definition layout_begin :: "layout \<Rightarrow> position" where
  "layout_begin l = position_new (layout_dim l)"

text \<open>The positions the iterator gives, from a current one.\<close>

function walk :: "nat \<Rightarrow> position \<Rightarrow> position list option" where
  "walk n p = (if n \<le> grid_index p then Some [] else do { q \<leftarrow> step_position p; ps \<leftarrow> walk n q; Some (p # ps) })"
  by pat_completeness auto
termination
  by (relation "measure (\<lambda>(n, p). n - grid_index p)")
    (auto simp: step_position_def usize_def bind_eq_Some_conv split: if_splits)

declare walk.simps [simp del]

definition layout_iter :: "layout \<Rightarrow> position list option" where
  "layout_iter l = walk (layout_size l) (layout_begin l)"

text \<open>A coordinate stepped over an end comes back once.\<close>

definition reflect :: "layout \<Rightarrow> position \<Rightarrow> nat \<Rightarrow> int \<Rightarrow> nat option" where
  "reflect l p direction offset = do {
     e \<leftarrow> tbl_get (layout_dim l) (int direction);
     c \<leftarrow> tbl_get (coordinates p) (int direction);
     let extent = as_i64 e;
     coordinate \<leftarrow> i64 (as_i64 c + offset);
     coordinate \<leftarrow> (if coordinate < 0 then i64 (- coordinate)
                   else if coordinate \<ge> extent then do { m \<leftarrow> i64 (extent - 1); m \<leftarrow> i64 (2 * m); i64 (m - coordinate) }
                   else Some coordinate);
     Some (as_usize coordinate)
   }"

definition neighbourhood :: "layout \<Rightarrow> position \<Rightarrow> nat \<Rightarrow> int \<Rightarrow> nat option" where
  "neighbourhood l p direction offset = do {
     c \<leftarrow> tbl_get (coordinates p) (int direction);
     s \<leftarrow> tbl_get (spacing l) (int direction);
     own \<leftarrow> usize (c * s);
     base \<leftarrow> usize_sub (grid_index p) own;
     r \<leftarrow> reflect l p direction offset;
     new \<leftarrow> usize (r * s);
     usize (base + new)
   }"

definition neighbourhood2 :: "layout \<Rightarrow> position \<Rightarrow> nat \<Rightarrow> int \<Rightarrow> nat \<Rightarrow> int \<Rightarrow> nat option" where
  "neighbourhood2 l p direction1 offset1 direction2 offset2 = do {
     c1 \<leftarrow> tbl_get (coordinates p) (int direction1);
     s1 \<leftarrow> tbl_get (spacing l) (int direction1);
     own1 \<leftarrow> usize (c1 * s1);
     base \<leftarrow> usize_sub (grid_index p) own1;
     c2 \<leftarrow> tbl_get (coordinates p) (int direction2);
     s2 \<leftarrow> tbl_get (spacing l) (int direction2);
     own2 \<leftarrow> usize (c2 * s2);
     base \<leftarrow> usize_sub base own2;
     r1 \<leftarrow> reflect l p direction1 offset1;
     new1 \<leftarrow> usize (r1 * s1);
     base \<leftarrow> usize (base + new1);
     r2 \<leftarrow> reflect l p direction2 offset2;
     new2 \<leftarrow> usize (r2 * s2);
     usize (base + new2)
   }"

definition iter_neighbourhood :: "layout \<Rightarrow> position \<Rightarrow> nat \<Rightarrow> int \<Rightarrow> position option" where
  "iter_neighbourhood l p direction offset = do {
     r \<leftarrow> reflect l p direction offset;
     assert_that (direction < length (coordinates p));
     let cs = (coordinates p)[direction := r];
     i \<leftarrow> layout_index l cs;
     Some (with_coordinates (layout_dim l) cs i)
   }"

end
