(* ===== verification/Grid_Properties.thy ===== *)
theory Grid_Properties
  imports Grid_Layout
begin

text \<open>
  The grid is a mixed-radix number system: a flat index is the number whose digits are the coordinates. Walking
  counts, and the neighbours reflect at the boundaries and stay on the grid.
\<close>

section \<open>Digits\<close>

fun digits :: "nat list \<Rightarrow> nat \<Rightarrow> nat list" where
  "digits [] n = []"
| "digits (d # ds) n = n mod d # digits ds (n div d)"

fun number :: "nat list \<Rightarrow> nat list \<Rightarrow> nat" where
  "number (d # ds) (c # cs) = c + d * number ds cs"
| "number _ _ = 0"

text \<open>The points of the grid.\<close>

definition on_grid :: "nat list \<Rightarrow> nat list \<Rightarrow> bool" where
  "on_grid ds cs \<longleftrightarrow> list_all2 (\<lambda>c d. c < d) cs ds"

lemma on_grid_Cons [simp]: "on_grid (d # ds) (c # cs) \<longleftrightarrow> c < d \<and> on_grid ds cs"
  by (simp add: on_grid_def)

lemma on_grid_Nil [simp]: "on_grid [] cs \<longleftrightarrow> cs = []"
  by (simp add: on_grid_def)

lemma on_grid_length: "on_grid ds cs \<Longrightarrow> length cs = length ds"
  by (simp add: on_grid_def list_all2_lengthD)

lemma on_grid_nth: "on_grid ds cs \<Longrightarrow> i < length ds \<Longrightarrow> cs ! i < ds ! i"
  by (simp add: on_grid_def list_all2_conv_all_nth)

lemma on_grid_update: "on_grid ds cs \<Longrightarrow> i < length ds \<Longrightarrow> c < ds ! i \<Longrightarrow> on_grid ds (cs[i := c])"
  by (auto simp: on_grid_def list_all2_conv_all_nth nth_list_update)

lemma length_digits [simp]: "length (digits ds n) = length ds"
  by (induction ds arbitrary: n) simp_all

lemma digits_0: "digits ds 0 = replicate (length ds) 0"
  by (induction ds) simp_all

lemma below_product: "n < d * m \<Longrightarrow> n mod d < d \<and> n div d < m" for d :: nat
  by (cases "d = 0") (simp_all add: less_mult_imp_div_less mult.commute)

lemma digits_on_grid: "n < prod_list ds \<Longrightarrow> on_grid ds (digits ds n)"
  by (induction ds arbitrary: n) (auto dest: below_product)

lemma number_digits: "n < prod_list ds \<Longrightarrow> number ds (digits ds n) = n"
  by (induction ds arbitrary: n) (simp_all add: less_mult_imp_div_less mult.commute)

lemma number_less: "on_grid ds cs \<Longrightarrow> number ds cs < prod_list ds"
proof (induction ds cs rule: number.induct)
  case (1 d ds c cs)
  then have "number ds cs + 1 \<le> prod_list ds" "c < d" by auto
  then have "d * (number ds cs + 1) \<le> d * prod_list ds" by (intro mult_le_mono2)
  with \<open>c < d\<close> show ?case by (simp add: algebra_simps)
qed (auto simp: on_grid_def)

lemma digits_number: "on_grid ds cs \<Longrightarrow> digits ds (number ds cs) = cs"
  by (induction ds cs rule: number.induct) (auto simp: on_grid_def)

text \<open>So the grid points are exactly the digits of the numbers below the product of the extents.\<close>

lemma grid_points: "digits ds ` {..<prod_list ds} = {cs. on_grid ds cs}"
proof
  show "{cs. on_grid ds cs} \<subseteq> digits ds ` {..<prod_list ds}"
    using digits_number number_less by (metis (mono_tags, lifting) image_eqI lessThan_iff mem_Collect_eq subsetI)
qed (auto simp: digits_on_grid)

lemma digits_inj: "inj_on (digits ds) {..<prod_list ds}"
  by (metis inj_onI lessThan_iff number_digits)

section \<open>Counting\<close>

lemma carry_digits:
  assumes "n < prod_list ds" "list_all (\<lambda>d. d < 2 ^ 64) ds"
  shows "carry ds (digits ds n) = Some (digits ds (n + 1))"
  using assms
proof (induction ds arbitrary: n)
  case (Cons d ds)
  then have d: "0 < d" "n mod d < d" and n: "n div d < prod_list ds" using below_product [of n d "prod_list ds"] by auto
  then have u: "usize (n mod d + 1) = Some (n mod d + 1)" using Cons.prems(2) by (simp add: usize_def)
  show ?case
  proof (cases "n mod d + 1 = d")
    case True
    then have "(n + 1) mod d = 0" "(n + 1) div d = n div d + 1"
      by (simp_all add: mod_Suc div_Suc)
    then show ?thesis using True u Cons.IH [OF n] Cons.prems(2) by simp
  next
    case False
    then have "(n + 1) mod d = n mod d + 1" "(n + 1) div d = n div d"
      using d by (simp_all add: mod_Suc div_Suc)
    then show ?thesis using False u by simp
  qed
qed simp

definition point_at :: "nat list \<Rightarrow> nat \<Rightarrow> position" where
  "point_at ds n = \<lparr>grid_index = n, grid_dim = ds, coordinates = digits ds n\<rparr>"

lemma step_point:
  assumes "n < prod_list ds" "prod_list ds < 2 ^ 64" "list_all (\<lambda>d. d < 2 ^ 64) ds"
  shows "step_position (point_at ds n) = Some (point_at ds (n + 1))"
  using carry_digits [OF assms(1,3)] assms(1,2) by (simp add: step_position_def point_at_def usize_def)

lemma walk_points:
  assumes "prod_list ds < 2 ^ 64" "list_all (\<lambda>d. d < 2 ^ 64) ds" "n \<le> prod_list ds"
  shows "walk (prod_list ds) (point_at ds n) = Some (map (point_at ds) [n..<prod_list ds])"
  using assms(3)
proof (induction n rule: inc_induct)
  case base
  then show ?case by (simp add: walk.simps point_at_def)
next
  case (step n)
  then show ?case using step_point [OF step(2) assms(1,2)]
    by (subst walk.simps) (simp add: point_at_def upt_conv_Cons)
qed

section \<open>Layouts\<close>

text \<open>The strides are the products of the extents before each dimension.\<close>

fun products :: "nat list \<Rightarrow> nat \<Rightarrow> nat list" where
  "products [] stride = []"
| "products (d # ds) stride = stride # products ds (stride * d)"

lemma length_products [simp]: "length (products ds s) = length ds"
  by (induction ds arbitrary: s) simp_all

lemma strides_Some: "strides ds s = Some (sp, final) \<Longrightarrow> s < 2 ^ 64 \<Longrightarrow> sp = products ds s \<and> final = s * prod_list ds \<and> final < 2 ^ 64"
  by (induction ds arbitrary: s sp final) (fastforce simp: bind_eq_Some_conv usize_def mult.assoc split: if_splits)+

lemma layout_new_Some:
  assumes "layout_new ds = Some l"
  shows "layout_size l = prod_list ds" "layout_dim l = ds" "spacing l = products ds 1" "prod_list ds < 2 ^ 64"
  using assms strides_Some [of ds 1] by (auto simp: layout_new_def bind_eq_Some_conv)

text \<open>An extent of zero leaves nothing to bound; otherwise every extent is below the size.\<close>

lemma extents_bounded: "prod_list ds < 2 ^ 64 \<Longrightarrow> 0 < prod_list ds \<Longrightarrow> list_all (\<lambda>d. d < 2 ^ 64) ds" for ds :: "nat list"
proof (induction ds)
  case (Cons d ds)
  then have "0 < d" "0 < prod_list ds" by (auto intro: Nat.gr0I)
  then have "d \<le> d * prod_list ds" "prod_list ds \<le> d * prod_list ds" by simp_all
  with Cons.prems(1) have "d < 2 ^ 64" "prod_list ds < 2 ^ 64" unfolding prod_list.Cons by linarith+
  then show ?case using Cons.IH \<open>0 < prod_list ds\<close> by simp
qed simp

lemma sum_products_number:
  assumes "on_grid ds cs" "acc + s * number ds cs < 2 ^ 64"
  shows "sum_products (zip cs (products ds s)) acc = Some (acc + s * number ds cs)"
  using assms
proof (induction ds cs arbitrary: s acc rule: number.induct)
  case (1 d ds c cs)
  have "acc + s * c + s * d * number ds cs = acc + s * (c + d * number ds cs)" by (simp add: algebra_simps)
  with 1 have "acc + s * c + s * d * number ds cs < 2 ^ 64" by simp
  moreover from this have "acc + c * s < 2 ^ 64" "c * s < 2 ^ 64" by (simp_all add: mult.commute)
  ultimately show ?case using 1 by (simp add: usize_def algebra_simps)
qed (auto simp: on_grid_def)

lemma layout_index_number:
  assumes "layout_new ds = Some l" "on_grid ds cs"
  shows "layout_index l cs = Some (number ds cs)"
  using sum_products_number [OF assms(2), of 0 1] number_less [OF assms(2)] layout_new_Some [OF assms(1)] on_grid_length [OF assms(2)]
  by (simp add: layout_index_def)

text \<open>C32. Walking the grid visits every point once, in the order of its index. For every layout that can be built, the
  iterator ends after as many positions as the grid has points; the \<open>n\<close>-th carries the index \<open>n\<close>, which is
  what the layout computes from its coordinates; no point comes twice, and every point of the grid comes.\<close>

theorem grid_walk_is_a_bijection:
  assumes "layout_new ds = Some l"
  shows "\<exists>ps. layout_iter l = Some ps \<and> layout_size l = prod_list ds \<and> map grid_index ps = [0..<prod_list ds] \<and>
    map (layout_index l) (map coordinates ps) = map Some [0..<prod_list ds] \<and>
    distinct (map coordinates ps) \<and> set (map coordinates ps) = {cs. list_all2 (<) cs ds}"
proof -
  let ?n = "prod_list ds" and ?ps = "map (point_at ds) [0..<prod_list ds]"
  note l = layout_new_Some [OF assms]
  have "layout_iter l = Some ?ps"
  proof (cases "?n = 0")
    case False
    then show ?thesis using walk_points [OF l(4) extents_bounded [OF l(4)], of 0] l(1,2)
      by (simp add: layout_iter_def layout_begin_def position_new_def point_at_def digits_0)
  qed (simp add: layout_iter_def l(1) walk.simps)
  moreover have "map grid_index ?ps = [0..<?n]" by (simp add: point_at_def comp_def)
  moreover have cs: "map coordinates ?ps = map (digits ds) [0..<?n]" by (simp add: point_at_def)
  moreover have "map (layout_index l) (map (digits ds) [0..<?n]) = map Some [0..<?n]"
    using layout_index_number [OF assms digits_on_grid] number_digits by simp
  moreover have "distinct (map (digits ds) [0..<?n])" using digits_inj by (simp add: distinct_map atLeast0LessThan)
  moreover have "set (map (digits ds) [0..<?n]) = {cs. list_all2 (<) cs ds}"
    using grid_points [of ds] by (simp add: atLeast0LessThan on_grid_def [abs_def])
  ultimately show ?thesis using l(1) unfolding cs [symmetric] by blast
qed

theorem grid_walk_is_a_bijection_witness:
  "\<exists>l ps. layout_new [5, 7, 8] = Some l \<and> layout_iter l = Some ps \<and> layout_size l = 280 \<and> distinct (map coordinates ps)"
proof -
  obtain l where l: "layout_new [5, 7, 8] = Some l" by (simp add: layout_new_def usize_def assert_that_def)
  show ?thesis using grid_walk_is_a_bijection [OF l] l by auto
qed

section \<open>Neighbours\<close>

text \<open>The reflection the code means: once, at either boundary.\<close>

definition mirror :: "nat \<Rightarrow> int \<Rightarrow> int" where
  "mirror extent c = (if c < 0 then - c else if c \<ge> int extent then 2 * (int extent - 1) - c else c)"

lemma mirror_range: "\<bar>offset\<bar> < int extent \<Longrightarrow> c < extent \<Longrightarrow> 0 \<le> mirror extent (int c + offset) \<and> mirror extent (int c + offset) < int extent"
  by (auto simp: mirror_def)

lemma number_update:
  assumes "length cs = length ds" "d < length ds"
  shows "s * number ds (cs[d := c]) + cs ! d * (products ds s ! d) = s * number ds cs + c * (products ds s ! d)"
  using assms
proof (induction ds cs arbitrary: d s rule: number.induct)
  case (1 e ds c' cs)
  show ?case
  proof (cases d)
    case 0
    then show ?thesis by (simp add: algebra_simps)
  next
    case (Suc d')
    then show ?thesis using "1.IH" [of d' "s * e"] "1.prems" by (simp add: algebra_simps)
  qed
qed auto

lemma number_update_at:
  assumes "on_grid ds cs" "d < length ds"
  shows "number ds (cs[d := c]) = number ds cs - cs ! d * (products ds 1 ! d) + c * (products ds 1 ! d)"
    and "cs ! d * (products ds 1 ! d) \<le> number ds cs"
proof -
  note len = on_grid_length [OF assms(1)]
  show "cs ! d * (products ds 1 ! d) \<le> number ds cs" using number_update [OF len assms(2), of 1 0] by linarith
  then show "number ds (cs[d := c]) = number ds cs - cs ! d * (products ds 1 ! d) + c * (products ds 1 ! d)"
    using number_update [OF len assms(2), of 1 c] by linarith
qed

lemma extent_le_size: "on_grid ds cs \<Longrightarrow> d < length ds \<Longrightarrow> ds ! d \<le> prod_list ds"
proof (induction ds cs arbitrary: d rule: number.induct)
  case (1 e ds c cs)
  then have "0 < e" "0 < prod_list ds" using number_less [of ds cs] by auto
  then have "e \<le> e * prod_list ds" "prod_list ds \<le> e * prod_list ds" by simp_all
  moreover have "ds ! (d - 1) \<le> prod_list ds" if "d \<noteq> 0" using 1 that by auto
  ultimately show ?case by (cases d) (auto intro: order_trans)
qed (auto simp: on_grid_def)

text \<open>A position of the walk.\<close>

definition grid_position :: "layout \<Rightarrow> nat list \<Rightarrow> position" where
  "grid_position l cs = with_coordinates (layout_dim l) cs (number (layout_dim l) cs)"

lemma grid_position_simps [simp]:
  "coordinates (grid_position l cs) = cs" "grid_dim (grid_position l cs) = layout_dim l"
  "grid_index (grid_position l cs) = number (layout_dim l) cs"
  by (simp_all add: grid_position_def with_coordinates_def)

lemma reflect_mirror:
  assumes "layout_new ds = Some l" "prod_list ds \<le> 2 ^ 62" "on_grid ds (coordinates p)" "d < length ds" "\<bar>offset\<bar> < int (ds ! d)"
  shows "reflect l p d offset = Some (nat (mirror (ds ! d) (int (coordinates p ! d) + offset)))"
proof -
  let ?e = "ds ! d" and ?c = "coordinates p ! d"
  have e: "int ?e \<le> 2 ^ 62" using le_trans [OF extent_le_size [OF assms(3,4)] assms(2)] by simp
  have c: "?c < ?e" by (rule on_grid_nth [OF assms(3,4)])
  have "d < length (coordinates p)" using on_grid_length [OF assms(3)] assms(4) by simp
  then show ?thesis using e c assms(4,5) layout_new_Some(2) [OF assms(1)]
    by (auto simp: reflect_def tbl_get_nth as_i64_def i64_def as_usize_def mirror_def)
qed

text \<open>One step along a dimension, in both forms of the code.\<close>

lemma neighbour_step:
  assumes "layout_new ds = Some l" "prod_list ds \<le> 2 ^ 62" "on_grid ds cs" "d < length ds" "\<bar>offset\<bar> < int (ds ! d)"
  defines "cs' \<equiv> cs[d := nat (mirror (ds ! d) (int (cs ! d) + offset))]"
  shows "on_grid ds cs'" "neighbourhood l (grid_position l cs) d offset = Some (number ds cs')"
    and "iter_neighbourhood l (grid_position l cs) d offset = Some (grid_position l cs')"
proof -
  note l = layout_new_Some [OF assms(1)]
  let ?c = "nat (mirror (ds ! d) (int (cs ! d) + offset))" and ?s = "products ds 1 ! d"
  have c: "?c < ds ! d" using mirror_range [OF assms(5) on_grid_nth [OF assms(3,4)]] by auto
  then show on: "on_grid ds cs'" unfolding cs'_def by (rule on_grid_update [OF assms(3,4)])
  have r: "reflect l (grid_position l cs) d offset = Some ?c" using reflect_mirror [OF assms(1,2) _ assms(4,5)] assms(3) by simp
  have "number ds cs < 2 ^ 64" "number ds cs' < 2 ^ 64" using number_less [OF assms(3)] number_less [OF on] l(4) by linarith+
  moreover note up = number_update_at(1) [OF assms(3,4), of ?c, folded cs'_def] number_update_at(2) [OF assms(3,4)]
  ultimately have "?c * ?s < 2 ^ 64" "cs ! d * ?s < 2 ^ 64" "number ds cs - cs ! d * ?s + ?c * ?s < 2 ^ 64" by linarith+
  then show "neighbourhood l (grid_position l cs) d offset = Some (number ds cs')"
    using r up l on_grid_length [OF assms(3)] assms(4) by (simp add: neighbourhood_def tbl_get_nth usize_def usize_sub_def)
  show "iter_neighbourhood l (grid_position l cs) d offset = Some (grid_position l cs')"
    using r layout_index_number [OF assms(1) on] l(2) on_grid_length [OF assms(3)] assms(4)
    by (simp add: iter_neighbourhood_def Let_def cs'_def) (simp add: grid_position_def)
qed

lemma update_apart: "d1 \<noteq> d2 \<Longrightarrow> cs[d1 := a] ! d2 = cs ! d2"
  by simp

text \<open>A move along two different dimensions at once, at the position of a point.\<close>

lemma two_steps_at_once:
  assumes "layout_new ds = Some l" "prod_list ds \<le> 2 ^ 62" and on: "on_grid ds cs"
    and d: "d1 < length ds" "d2 < length ds" "d1 \<noteq> d2" "\<bar>o1\<bar> < int (ds ! d1)" "\<bar>o2\<bar> < int (ds ! d2)"
  defines "p \<equiv> grid_position l cs"
    and "q1 \<equiv> grid_position l (cs[d1 := nat (mirror (ds ! d1) (int (cs ! d1) + o1))])"
  shows "\<exists>q2. iter_neighbourhood l q1 d2 o2 = Some q2 \<and> neighbourhood2 l p d1 o1 d2 o2 = Some (grid_index q2)"
proof -
  note l = layout_new_Some [OF assms(1)] and len = on_grid_length [OF on]
  let ?c1 = "nat (mirror (ds ! d1) (int (cs ! d1) + o1))" and ?c2 = "nat (mirror (ds ! d2) (int (cs ! d2) + o2))"
  let ?cs1 = "cs[d1 := ?c1]" and ?s1 = "products ds 1 ! d1" and ?s2 = "products ds 1 ! d2"
  note one = neighbour_step [OF assms(1,2) on d(1,4)]
  note two = neighbour_step [OF assms(1,2) one(1) d(2,5), unfolded update_apart [OF d(3)]]
  have r: "reflect l p d1 o1 = Some ?c1" "reflect l p d2 o2 = Some ?c2"
    using reflect_mirror [OF assms(1,2) _ d(1,4), of p] reflect_mirror [OF assms(1,2) _ d(2,5), of p] on
    by (simp_all add: p_def)
  have zero: "on_grid ds (cs[d1 := 0])" using on_grid_update [OF on d(1)] on_grid_nth [OF on d(1)] by auto
  have n1: "number ds (cs[d1 := 0]) = number ds cs - cs ! d1 * ?s1" "cs ! d1 * ?s1 \<le> number ds cs"
    "number ds ?cs1 = number ds cs - cs ! d1 * ?s1 + ?c1 * ?s1"
    using number_update_at [OF on d(1)] by simp_all
  have n2: "cs ! d2 * ?s2 \<le> number ds (cs[d1 := 0])" "number ds (?cs1[d2 := ?c2]) = number ds ?cs1 - cs ! d2 * ?s2 + ?c2 * ?s2"
    using number_update_at(2) [OF zero d(2)] number_update_at(1) [OF one(1) d(2), of ?c2] d(3) by simp_all
  have "number ds cs < 2 ^ 64" "number ds ?cs1 < 2 ^ 64" "number ds (?cs1[d2 := ?c2]) < 2 ^ 64"
    using number_less [OF on] number_less [OF one(1)] number_less [OF two(1)] l(4) by linarith+
  then have small: "cs ! d1 * ?s1 < 2 ^ 64" "cs ! d2 * ?s2 < 2 ^ 64" "?c1 * ?s1 < 2 ^ 64" "?c2 * ?s2 < 2 ^ 64"
    "number ds cs - cs ! d1 * ?s1 - cs ! d2 * ?s2 + ?c1 * ?s1 < 2 ^ 64"
    "number ds cs - cs ! d1 * ?s1 - cs ! d2 * ?s2 + ?c1 * ?s1 + ?c2 * ?s2 = number ds (?cs1[d2 := ?c2])"
    using n1 n2 by linarith+
  have "neighbourhood2 l p d1 o1 d2 o2 = Some (number ds (?cs1[d2 := ?c2]))"
    using r small n1 n2 l len d(1,2) \<open>number ds (?cs1[d2 := ?c2]) < 2 ^ 64\<close>
    by (simp add: neighbourhood2_def p_def tbl_get_nth usize_def usize_sub_def)
  then show ?thesis using two(3) l(2) by (simp add: q1_def)
qed

text \<open>C33. Neighbours reflect at the boundary and stay on the grid. On a layout of at most \<open>2 ^ 62\<close> points with any number of
  dimensions, moving a point along a dimension by less than its extent never panics: the point moves to the
  reflected coordinate, which is inside the grid, its other coordinates stay, and the two forms of the code agree
  on its index. Where there is a second dimension, moving along both at once by less than their extents does
  not panic either, and is moving along the one and then along the other.\<close>

theorem neighbours_reflect:
  assumes "layout_new ds = Some l" "prod_list ds \<le> 2 ^ 62" "layout_index l cs = Some i" "list_all2 (<) cs ds"
    and "d1 < length ds" "\<bar>o1\<bar> < int (ds ! d1)"
  defines "p \<equiv> with_coordinates ds cs i"
  shows "\<exists>q1. iter_neighbourhood l p d1 o1 = Some q1 \<and>
    coordinates q1 = cs[d1 := nat (mirror (ds ! d1) (int (cs ! d1) + o1))] \<and> list_all2 (<) (coordinates q1) ds \<and>
    layout_index l (coordinates q1) = Some (grid_index q1) \<and> neighbourhood l p d1 o1 = Some (grid_index q1) \<and>
    (\<forall>d2 o2. d2 < length ds \<and> d2 \<noteq> d1 \<and> \<bar>o2\<bar> < int (ds ! d2) \<longrightarrow>
      (\<exists>q2. iter_neighbourhood l q1 d2 o2 = Some q2 \<and> neighbourhood2 l p d1 o1 d2 o2 = Some (grid_index q2)))"
proof -
  have on: "on_grid ds cs" using assms(4) by (simp add: on_grid_def)
  note l = layout_new_Some [OF assms(1)] and one = neighbour_step [OF assms(1,2) on assms(5,6)]
  have p: "p = grid_position l cs" using layout_index_number [OF assms(1) on] assms(3) l(2) by (simp add: p_def grid_position_def)
  let ?cs1 = "cs[d1 := nat (mirror (ds ! d1) (int (cs ! d1) + o1))]"
  have two: "\<forall>d2 o2. d2 < length ds \<and> d2 \<noteq> d1 \<and> \<bar>o2\<bar> < int (ds ! d2) \<longrightarrow>
      (\<exists>q2. iter_neighbourhood l (grid_position l ?cs1) d2 o2 = Some q2 \<and>
        neighbourhood2 l (grid_position l cs) d1 o1 d2 o2 = Some (grid_index q2))"
    using two_steps_at_once [OF assms(1,2) on assms(5) _ _ assms(6)] by simp
  have "layout_index l ?cs1 = Some (number ds ?cs1)" "list_all2 (<) ?cs1 ds"
    using layout_index_number [OF assms(1) one(1)] one(1) by (simp_all add: on_grid_def)
  then show ?thesis unfolding p using one(2,3) two l(2) by (intro exI [of _ "grid_position l ?cs1"]) simp
qed

theorem neighbours_reflect_witness:
  "\<exists>l q1 q2. layout_new [5, 7, 8] = Some l \<and>
     iter_neighbourhood l (with_coordinates [5, 7, 8] [1, 0, 7] 246) 1 (- 2) = Some q1 \<and>
     iter_neighbourhood l q1 2 3 = Some q2 \<and> coordinates q1 = [1, 2, 7] \<and>
     neighbourhood2 l (with_coordinates [5, 7, 8] [1, 0, 7] 246) 1 (- 2) 2 3 = Some (grid_index q2)"
proof -
  obtain l where l: "layout_new [5, 7, 8] = Some l" "layout_index l [1, 0, 7] = Some 246"
    by (simp add: layout_new_def layout_index_def usize_def assert_that_def)
  show ?thesis
    using neighbours_reflect [OF l(1) _ l(2), of 1 "- 2"] l(1) by (fastforce simp: mirror_def)
qed

end
