(* ===== verification/Halton.thy ===== *)
theory Halton
  imports Float_Order
begin

text \<open>
  \<open>math/randomnumbers/haltonrsg.rs\<close>: the Halton low-discrepancy generator, one prime base for each dimension. \<open>u64\<close> has
  its overflow check. The loop over the digits of the counter does not return for a base of one and divides by
  zero for a base of zero: both are \<open>None\<close>.
\<close>

definition u64 :: "nat \<Rightarrow> nat option" where
  "u64 n = (if n < 2 ^ 64 then Some n else None)"

section \<open>The bases\<close>

text \<open>The loop of \<open>is_prime\<close>, from the divisor \<open>d\<close>.\<close>

function trial_division :: "nat \<Rightarrow> nat \<Rightarrow> bool option" where
  "trial_division n d = do {
     sq \<leftarrow> u64 (d * d);
     if sq \<le> n then (if d dvd n then Some False else do { d \<leftarrow> u64 (d + 1); trial_division n d }) else Some True
   }"
  by pat_completeness auto
termination
proof (relation "measure (\<lambda>(n, d). n + 1 - d)")
  fix n d sq d' :: nat
  assume "u64 (d * d) = Some sq" "sq \<le> n" "u64 (d + 1) = Some d'"
  then have "d * d \<le> n" "d' = d + 1" by (simp_all add: u64_def split: if_splits)
  moreover from this(1) have "d \<le> n" by (meson le_square le_trans)
  ultimately show "((n, d'), (n, d)) \<in> measure (\<lambda>(n, d). n + 1 - d)" by simp
qed simp

declare trial_division.simps [simp del]

definition is_prime :: "nat \<Rightarrow> bool option" where
  "is_prime n = (if n < 2 then Some False else trial_division n 2)"

function collect_primes :: "nat \<Rightarrow> nat list \<Rightarrow> nat \<Rightarrow> nat list option" where
  "collect_primes n primes candidate =
     (if length primes < n then do {
        candidate \<leftarrow> u64 (candidate + 1);
        prime \<leftarrow> is_prime candidate;
        collect_primes n (if prime then primes @ [candidate] else primes) candidate
      } else Some primes)"
  by pat_completeness auto
termination
  by (relation "measure (\<lambda>(n, primes, candidate). 2 ^ 64 - candidate)") (auto simp: u64_def split: if_splits)

declare collect_primes.simps [simp del]

definition first_primes :: "nat \<Rightarrow> nat list option" where
  "first_primes n = collect_primes n [] 1"

section \<open>The generator\<close>

record halton =
  halton_dimensionality :: nat
  halton_counter :: nat
  bases :: "nat list"
  halton_sequence :: "f64 list"

datatype halton_error = ZeroDimensionality

definition halton_new :: "nat \<Rightarrow> (halton_error + halton) option" where
  "halton_new n =
     (if \<not> n > 0 then Some (Inl ZeroDimensionality)
      else do {
        primes \<leftarrow> first_primes n;
        Some (Inr \<lparr>halton_dimensionality = n, halton_counter = 0, bases = primes, halton_sequence = replicate n (Fin 0)\<rparr>)
      })"

text \<open>The loop over the digits of \<open>k\<close>, with the sum \<open>h\<close> and the weight \<open>f\<close>.\<close>

function add_digits :: "nat \<Rightarrow> nat \<Rightarrow> f64 \<Rightarrow> f64 \<Rightarrow> f64 option" where
  "add_digits b k h f =
     (if k = 0 then Some h
      else if b < 2 then None
      else let f = f_div f (f_of_int (int b));
               h = f_add h (f_mul (f_of_int (int (k mod b))) f)
           in add_digits b (k div b) h f)"
  by pat_completeness auto
termination
  by (relation "measure (\<lambda>(b, k, h, f). k)") auto

declare add_digits.simps [simp del]

fun all_some :: "'a option list \<Rightarrow> 'a list option" where
  "all_some [] = Some []"
| "all_some (x # xs) = do { x \<leftarrow> x; xs \<leftarrow> all_some xs; Some (x # xs) }"

definition halton_next :: "halton \<Rightarrow> halton option" where
  "halton_next g = do {
     counter \<leftarrow> u64 (halton_counter g + 1);
     point \<leftarrow> all_some (map (\<lambda>b. add_digits b counter (Fin 0) (Fin 1)) (bases g));
     Some (g\<lparr>halton_counter := counter, halton_sequence := point\<rparr>)
   }"

text \<open>
  The bases are the first primes, and a coordinate is the radical inverse of the counter in its base: exactly
  for base two, so that the first coordinate never repeats, and up to a bounded rounding error for the others.
\<close>

section \<open>Primes\<close>

definition prime_number :: "nat \<Rightarrow> bool" where
  "prime_number p \<longleftrightarrow> 1 < p \<and> (\<forall>d. d dvd p \<longrightarrow> d = 1 \<or> d = p)"

lemma small_divisor:
  assumes "1 < n" "\<not> prime_number n"
  obtains d where "1 < d" "d * d \<le> n" "d dvd n"
proof -
  obtain d where d: "d dvd n" "d \<noteq> 1" "d \<noteq> n" using assms by (auto simp: prime_number_def)
  then obtain e where e: "n = d * e" by blast
  have "d \<noteq> 0" "e \<noteq> 0" "e \<noteq> 1" using assms(1) e d(3) by (auto intro: Nat.gr0I)
  then have de: "1 < d" "1 < e" using d(2) by linarith+
  show ?thesis
  proof (cases "d \<le> e")
    case True
    then show ?thesis using that [of d] de d(1) e by simp
  next
    case False
    then show ?thesis using that [of e] de e by simp
  qed
qed

lemma no_small_divisor: "prime_number n \<Longrightarrow> 1 < d \<Longrightarrow> d * d \<le> n \<Longrightarrow> \<not> d dvd n"
  by (auto simp: prime_number_def)

lemma trial_division:
  assumes "1 < n" "n < 2 ^ 32 * 2 ^ 31" "2 \<le> d" "\<And>c. 1 < c \<Longrightarrow> c < d \<Longrightarrow> \<not> c dvd n" "d \<le> 2 ^ 32 - 1"
  shows "trial_division n d = Some (prime_number n)"
  using assms
proof (induction n d rule: trial_division.induct)
  case (1 n d)
  have "d * d \<le> (2 ^ 32 - 1) * (2 ^ 32 - 1)" by (rule mult_mono [OF "1.prems"(5) "1.prems"(5)]) simp_all
  then have sq: "u64 (d * d) = Some (d * d)" by (simp add: u64_def)
  show ?case
  proof (cases "d * d \<le> n")
    case False
    have "prime_number n"
    proof (rule ccontr)
      assume "\<not> prime_number n"
      then obtain c where c: "1 < c" "c * c \<le> n" "c dvd n" using small_divisor [OF "1.prems"(1)] by blast
      then have "c < d" using False by (metis leI le_trans mult_le_mono)
      then show False using "1.prems"(4) c by blast
    qed
    then show ?thesis using False sq by (simp add: trial_division.simps [of n d])
  next
    case True
    show ?thesis
    proof (cases "d dvd n")
      case True
      then have "\<not> prime_number n" using no_small_divisor [of n d] \<open>d * d \<le> n\<close> "1.prems"(3) by auto
      then show ?thesis using True \<open>d * d \<le> n\<close> sq by (simp add: trial_division.simps [of n d])
    next
      case False
      have "d * d < 2 ^ 32 * 2 ^ 31" using \<open>d * d \<le> n\<close> "1.prems"(2) by linarith
      then have "\<not> 2 ^ 32 - 1 \<le> d" using mult_le_mono [of "2 ^ 32 - 1" d "2 ^ 32 - 1" d] by auto
      then have "u64 (d + 1) = Some (d + 1)" "d + 1 \<le> 2 ^ 32 - 1" by (simp_all add: u64_def)
      moreover have "\<And>c. 1 < c \<Longrightarrow> c < d + 1 \<Longrightarrow> \<not> c dvd n" using "1.prems"(4) False less_Suc_eq by auto
      ultimately have "trial_division n (d + 1) = Some (prime_number n)"
        using "1.IH" [OF sq \<open>d * d \<le> n\<close> False] "1.prems" by simp
      then show ?thesis using sq True False \<open>u64 (d + 1) = Some (d + 1)\<close> by (simp add: trial_division.simps [of n d])
    qed
  qed
qed

lemma is_prime: "n < 2 ^ 63 \<Longrightarrow> is_prime n = Some (prime_number n)"
  using trial_division [of n 2] by (auto simp: is_prime_def prime_number_def)

text \<open>The list collected so far is the primes up to the candidate.\<close>

definition primes_upto :: "nat \<Rightarrow> nat list" where
  "primes_upto c = filter prime_number [0..<c + 1]"

lemma primes_upto_Suc: "primes_upto (c + 1) = (if prime_number (c + 1) then primes_upto c @ [c + 1] else primes_upto c)"
  by (simp add: primes_upto_def)

lemma collect_primes_upto:
  assumes "length (primes_upto c) \<le> n" "n \<le> length (primes_upto (2 ^ 63 - 1))" "c < 2 ^ 63"
  shows "\<exists>c'. collect_primes n (primes_upto c) c = Some (primes_upto c') \<and> length (primes_upto c') = n"
  using assms
proof (induction n "primes_upto c" c rule: collect_primes.induct)
  case (1 n c)
  show ?case
  proof (cases "length (primes_upto c) < n")
    case True
    then have "c \<noteq> 2 ^ 63 - 1" using "1.prems"(2) by auto
    then have c: "u64 (c + 1) = Some (c + 1)" "c + 1 < 2 ^ 63" using "1.prems"(3) by (simp_all add: u64_def)
    moreover have "length (primes_upto (c + 1)) \<le> n" using True unfolding primes_upto_Suc by simp
    moreover have "collect_primes n (primes_upto c) c = collect_primes n (primes_upto (c + 1)) (c + 1)"
      using True c is_prime [OF c(2)] unfolding primes_upto_Suc by (subst collect_primes.simps) simp
    ultimately show ?thesis
      using "1.hyps" [OF True c(1) is_prime [OF c(2)] primes_upto_Suc [symmetric]] "1.prems"(2) by simp
  next
    case False
    then show ?thesis using "1.prems"(1) by (auto simp: collect_primes.simps [of n "primes_upto c"] intro!: exI [of _ c])
  qed
qed

lemma finite_primes: "finite {p. prime_number p \<and> p < c}"
  by (rule finite_subset [of _ "{..<c}"]) auto

text \<open>The bases are the first primes. As long as there are enough primes below \<open>2 ^ 63\<close>, the search returns, without an
  overflow, as many numbers as asked for, in ascending order: all of them primes, and no prime below the last is missing.\<close>

lemma first_primes_are_the_primes:
  assumes "n \<le> card {p. prime_number p \<and> p < 2 ^ 63}"
  shows "\<exists>ps c. first_primes n = Some ps \<and> length ps = n \<and> sorted_wrt (<) ps \<and> set ps = {p. prime_number p \<and> p \<le> c}"
proof -
  have "set (primes_upto (2 ^ 63 - 1)) = {p. prime_number p \<and> p < 2 ^ 63}" by (auto simp: primes_upto_def)
  moreover have "distinct (primes_upto c)" for c by (simp add: primes_upto_def)
  ultimately have "n \<le> length (primes_upto (2 ^ 63 - 1))" using assms by (metis distinct_card)
  moreover have "primes_upto 1 = []" by (auto simp: primes_upto_def prime_number_def filter_empty_conv)
  ultimately obtain c where "first_primes n = Some (primes_upto c)" "length (primes_upto c) = n"
    using collect_primes_upto [of 1 n] by (auto simp: first_primes_def)
  moreover have "sorted_wrt (<) (primes_upto c)" unfolding primes_upto_def by (intro sorted_wrt_filter) (rule sorted_wrt_upt)
  moreover have "set (primes_upto c) = {p. prime_number p \<and> p \<le> c}" by (auto simp: primes_upto_def less_Suc_eq_le simp del: upt_Suc)
  ultimately show ?thesis by blast
qed

lemma primes_below_six: "prime_number p" if "p \<in> {2, 3, 5}" for p
proof -
  have "d = 1 \<or> d = p" if "d dvd p" for d
  proof -
    have "d \<le> p" "0 < d" using that \<open>p \<in> {2, 3, 5}\<close> by (auto intro: dvd_imp_le Nat.gr0I)
    then have "d \<in> {1, 2, 3, 4, 5}" using \<open>p \<in> {2, 3, 5}\<close> by auto
    then show ?thesis using that \<open>p \<in> {2, 3, 5}\<close> by auto
  qed
  then show ?thesis using that by (auto simp: prime_number_def)
qed

section \<open>The radical inverse\<close>

text \<open>The digits of \<open>k\<close> in base \<open>b\<close>, mirrored at the point.\<close>

function radical_inverse :: "nat \<Rightarrow> nat \<Rightarrow> rat" where
  "radical_inverse b k = (if k = 0 \<or> b < 2 then 0 else (of_nat (k mod b) + radical_inverse b (k div b)) / of_nat b)"
  by pat_completeness auto
termination
  by (relation "measure snd") auto

declare radical_inverse.simps [simp del]

lemma radical_inverse_0 [simp]: "radical_inverse b 0 = 0"
  by (simp add: radical_inverse.simps)

lemma radical_inverse_digit: "2 \<le> b \<Longrightarrow> radical_inverse b k = (of_nat (k mod b) + radical_inverse b (k div b)) / of_nat b"
  by (cases "k = 0") (simp_all add: radical_inverse.simps [of b k])

lemma radical_inverse_range: "0 \<le> radical_inverse b k \<and> radical_inverse b k < 1"
proof (induction b k rule: radical_inverse.induct)
  case (1 b k)
  show ?case
  proof (cases "k = 0 \<or> b < 2")
    case False
    then have "k mod b + 1 \<le> b" by (simp add: Suc_le_eq)
    then have "(of_nat (k mod b) :: rat) + 1 \<le> of_nat b" by (metis of_nat_1 of_nat_add of_nat_le_iff)
    then show ?thesis using False "1.IH" by (simp add: radical_inverse_digit [of b k] field_simps)
  qed (simp add: radical_inverse.simps)
qed

lemma radical_inverse_pos: "2 \<le> b \<Longrightarrow> 0 < k \<Longrightarrow> 0 < radical_inverse b k"
proof (induction b k rule: radical_inverse.induct)
  case (1 b k)
  have "0 < of_nat (k mod b) + radical_inverse b (k div b)"
  proof (cases "k mod b = 0")
    case True
    then have "0 < k div b" using "1.prems" by (metis add_0_right bot_nat_0.not_eq_extremum div_mult_mod_eq mult_0)
    then show ?thesis using "1.IH" "1.prems" True by simp
  next
    case False
    then show ?thesis using radical_inverse_range [of b "k div b"] by (simp add: add_pos_nonneg)
  qed
  then show ?case using "1.prems" by (simp add: radical_inverse_digit [of b k])
qed

text \<open>The inverse of the whole counter gives the counter back.\<close>

lemma radical_inverse_inject: "2 \<le> b \<Longrightarrow> radical_inverse b j = radical_inverse b k \<Longrightarrow> j = k"
proof (induction b j arbitrary: k rule: radical_inverse.induct)
  case (1 b j)
  have b: "(0 :: rat) < of_nat b" using "1.prems"(1) by simp
  have eq: "of_nat (j mod b) + radical_inverse b (j div b) = of_nat (k mod b) + radical_inverse b (k div b)"
    using "1.prems" b by (simp add: radical_inverse_digit [of b j] radical_inverse_digit [of b k])
  then have "\<lfloor>of_nat (j mod b) + radical_inverse b (j div b)\<rfloor> = \<lfloor>of_nat (k mod b) + radical_inverse b (k div b)\<rfloor>" by simp
  moreover have "\<lfloor>of_nat m + radical_inverse b n\<rfloor> = int m" for m n using radical_inverse_range [of b n] by (intro floor_unique) auto
  ultimately have mods: "j mod b = k mod b" by simp
  show ?case
  proof (cases "j = 0")
    case False
    then have "j div b = k div b" using "1.IH" [of "k div b"] "1.prems"(1) eq mods by simp
    then show ?thesis using mods by (metis div_mult_mod_eq)
  next
    case True
    then show ?thesis using radical_inverse_pos [OF "1.prems"(1), of k] "1.prems"(2) by (cases "k = 0") simp_all
  qed
qed

section \<open>The digits loop\<close>

text \<open>In base two nothing is rounded: every partial sum is a multiple of the weight below one.\<close>

lemma add_digits_step:
  "k \<noteq> 0 \<Longrightarrow> 2 \<le> b \<Longrightarrow> f_div f (f_of_int (int b)) = f' \<Longrightarrow> f_add h (f_mul (f_of_int (int (k mod b))) f') = h' \<Longrightarrow>
   add_digits b k h f = add_digits b (k div b) h' f'"
  by (simp add: add_digits.simps [of b k h f] Let_def del: of_nat_mod)

lemma add_digits_two:
  assumes "k * 2 ^ i < 2 ^ 53" "0 \<le> m" "m < 2 ^ i" "i \<le> 53"
  shows "add_digits 2 k (Fin (of_int m / 2 ^ i)) (Fin (1 / 2 ^ i)) = Some (Fin ((of_int m + radical_inverse 2 k) / 2 ^ i))"
  using assms
proof (induction k arbitrary: i m rule: less_induct)
  case (less k)
  show ?case
  proof (cases "k = 0")
    case True
    then show ?thesis by (simp add: add_digits.simps)
  next
    case False
    have "2 ^ i \<le> k * 2 ^ i" using False by simp
    then have "(2 :: nat) ^ i < 2 ^ 53" using less.prems(1) by linarith
    then have i: "i < 53" by (simp only: power_strict_increasing_iff)
    then have big: "(2 :: int) ^ Suc i \<le> 2 ^ 53" by (intro power_increasing) simp_all
    let ?d = "int (k mod 2)"
    have d: "0 \<le> ?d" "?d \<le> 1" by simp_all
    have m: "0 \<le> 2 * m + ?d" "2 * m + ?d < 2 ^ Suc i" using less.prems(2,3) d by simp_all
    have f: "f_div (Fin (1 / 2 ^ i)) (f_of_int (int 2)) = Fin (1 / 2 ^ Suc i)"
      using fl_binary_fraction [of 1 "Suc i"] i one_le_power [of "2 :: int" "Suc i"] by (simp add: f_of_int mult.commute)
    have t: "f_mul (f_of_int ?d) (Fin (1 / 2 ^ Suc i)) = Fin (of_int ?d / 2 ^ Suc i)"
      using fl_binary_fraction [of ?d "Suc i"] i d one_le_power [of "2 :: int" "Suc i"] by (simp add: f_of_int)
    have h: "f_add (Fin (of_int m / 2 ^ i)) (Fin (of_int ?d / 2 ^ Suc i)) = Fin (of_int (2 * m + ?d) / 2 ^ Suc i)"
    proof -
      have "of_int m / 2 ^ i + of_int ?d / 2 ^ Suc i = (of_int (2 * m + ?d) / 2 ^ Suc i :: rat)" by (simp add: field_simps)
      then show ?thesis using fl_binary_fraction [of "2 * m + ?d" "Suc i"] i m big by simp
    qed
    have "k div 2 * 2 ^ Suc i \<le> k * 2 ^ i" by (simp add: mult.assoc [symmetric])
    then have k: "k div 2 * 2 ^ Suc i < 2 ^ 53" using less.prems(1) by linarith
    have "add_digits 2 k (Fin (of_int m / 2 ^ i)) (Fin (1 / 2 ^ i)) =
      add_digits 2 (k div 2) (Fin (of_int (2 * m + ?d) / 2 ^ Suc i)) (Fin (1 / 2 ^ Suc i))"
      by (rule add_digits_step [OF False _ f]) (simp_all only: t h)
    also have "\<dots> = Some (Fin ((of_int (2 * m + ?d) + radical_inverse 2 (k div 2)) / 2 ^ Suc i))"
      using less.IH [of "k div 2" "Suc i" "2 * m + ?d"] k m i False by simp
    also have "\<dots> = Some (Fin ((of_int m + radical_inverse 2 k) / 2 ^ i))"
      by (simp add: radical_inverse_digit [of 2 k] field_simps)
    finally show ?thesis .
  qed
qed

text \<open>In the other bases each digit adds a bounded error. With \<open>u\<close> the unit roundoff, the weight of digit \<open>i\<close> is off by
  \<open>i\<close> roundings, and the sum by three times two units a digit.\<close>

definition roundoff :: rat where
  "roundoff = 1 / 2 ^ 53"

definition tiny :: rat where
  "tiny = 2 powi (-1022)"

lemma rnd_within: "tiny \<le> \<bar>x\<bar> \<or> x = 0 \<Longrightarrow> \<bar>rnd x - x\<bar> \<le> \<bar>x\<bar> * roundoff"
  using rnd_error [of x] by (simp add: roundoff_def tiny_def)

lemma rnd_near_two: "\<bar>x\<bar> \<le> 2 \<Longrightarrow> \<bar>rnd x - x\<bar> \<le> 2 * roundoff"
  using rnd_error_bound [of x 1] by (simp add: roundoff_def)

lemma roundoff_small: "0 < roundoff" "roundoff * 1000 \<le> 1 / 8" "0 < tiny" "tiny \<le> roundoff * roundoff / 4"
proof -
  have "2 powi (-1022) \<le> (2 :: rat) powi (- 108)" by (rule two_powi_mono) simp
  then show "tiny \<le> roundoff * roundoff / 4" by (simp add: roundoff_def tiny_def power_int_minus)
qed (simp_all add: roundoff_def tiny_def del: power_int_numeral_neg_numeral)

lemma weight_step:
  fixes F B b :: rat
  assumes "\<bar>F * B - 1\<bar> \<le> of_nat i * (2 * roundoff)" "i \<le> 53" "1 \<le> B" "B \<le> 2 ^ 53" "2 \<le> b" "b \<le> 2 ^ 53"
  shows "\<bar>rnd (F / b) * (B * b) - 1\<bar> \<le> of_nat (Suc i) * (2 * roundoff)" "tiny \<le> rnd (F / b)" "0 \<le> F / b" "F / b \<le> 2"
proof -
  note r = roundoff_small
  have "of_nat i * (2 * roundoff) \<le> 106 * roundoff"
    using assms(2) r(1) mult_right_mono [of "of_nat i" "53 :: rat" "2 * roundoff"] by simp
  then have G: "1 / 2 \<le> F * B" "F * B \<le> 3 / 2" using abs_le_D1 [OF assms(1)] abs_le_D2 [OF assms(1)] r(1,2) by linarith+
  have B: "1 \<le> B * b" "B * b \<le> 2 ^ 53 * 2 ^ 53" using assms(3-6) mult_mono [of 1 B 1 b] mult_mono [of B "2 ^ 53" b "2 ^ 53"] by simp_all
  have F: "F / b = F * B / (B * b)" using assms(3) by simp
  have "1 / 2 / (2 ^ 53 * 2 ^ 53) \<le> F / b" unfolding F using G(1) B by (intro frac_le) simp_all
  then have low: "roundoff * roundoff / 2 \<le> F / b" by (simp add: roundoff_def)
  have "F / b \<le> 3 / 2 / 1" unfolding F using G B by (intro frac_le) simp_all
  then show "F / b \<le> 2" "0 \<le> F / b" using low r(1) mult_pos_pos [OF r(1) r(1)] by linarith+
  then have "tiny \<le> F / b" using low r(4) mult_pos_pos [OF r(1) r(1)] by linarith
  then have near: "\<bar>rnd (F / b) - F / b\<bar> \<le> F / b * roundoff" using rnd_within [of "F / b"] \<open>0 \<le> F / b\<close> by (simp only: abs_of_nonneg simp_thms)
  have "F / b * roundoff \<le> F / b * (1 / 2)" using r \<open>0 \<le> F / b\<close> by (intro mult_left_mono) simp_all
  moreover have "tiny \<le> z" if "y * c \<le> y * (1 / 2)" "e / 2 \<le> y" "tiny \<le> e / 4" "- (z - y) \<le> y * c" for y z c e :: rat
    using that by linarith
  ultimately show "tiny \<le> rnd (F / b)" using low r(4) abs_le_D2 [OF near] by blast
  have "rnd (F / b) * (B * b) - 1 = (rnd (F / b) - F / b) * (B * b) + (F * B - 1)"
    using B(1) assms(3,5) by (simp add: field_simps)
  moreover have "\<bar>(rnd (F / b) - F / b) * (B * b)\<bar> \<le> F / b * roundoff * (B * b)"
  proof -
    have "0 \<le> B * b" using B(1) by linarith
    from mult_right_mono [OF near this] abs_mult_pos [OF this, of "rnd (F / b) - F / b"] show ?thesis by (simp only:)
  qed
  moreover have "F / b * roundoff * (B * b) = F * B * roundoff" using assms(3,5) by simp
  moreover have "F * B * roundoff \<le> 2 * roundoff" using G(2) r(1) by (intro mult_right_mono) simp_all
  ultimately show "\<bar>rnd (F / b) * (B * b) - 1\<bar> \<le> of_nat (Suc i) * (2 * roundoff)"
    using assms(1) by (simp add: abs_le_iff algebra_simps)
qed

lemma digit_step:
  fixes F q B H Hx d :: rat
  assumes "\<bar>F * B - 1\<bar> \<le> of_nat (Suc i) * (2 * roundoff)" "tiny \<le> F" "i < 53" "0 < B" "q = d / B" "d = 0 \<or> 1 \<le> d"
    and "q * 2 ^ i \<le> 1" "\<bar>H - Hx\<bar> \<le> of_nat i * (6 * roundoff)" "0 \<le> Hx" "Hx + q \<le> 1"
  shows "\<bar>rnd (H + rnd (d * F)) - (Hx + q)\<bar> \<le> of_nat (Suc i) * (6 * roundoff)" "\<bar>d * F\<bar> \<le> 2" "\<bar>H + rnd (d * F)\<bar> \<le> 2"
proof -
  note r = roundoff_small
  let ?e = "of_nat (Suc i) * (2 * roundoff)"
  have e: "?e \<le> 106 * roundoff" "of_nat i * (6 * roundoff) \<le> 318 * roundoff"
    using assms(3) r(1) mult_right_mono [of "of_nat (Suc i)" "53 :: rat" "2 * roundoff"] mult_right_mono [of "of_nat i" "53 :: rat" "6 * roundoff"]
    by simp_all
  have "0 \<le> q" using assms(4-6) by auto
  with assms(9,10) have q: "0 \<le> q" "q \<le> 1" by linarith+
  have dF: "d * F = q * (F * B)" using assms(4,5) by simp
  have FB: "0 \<le> F * B" "F * B \<le> 2" using abs_le_D1 [OF assms(1)] abs_le_D2 [OF assms(1)] e r by linarith+
  have "0 \<le> d * F" "d * F \<le> q * 2" unfolding dF using q FB by (simp_all add: mult_left_mono)
  then show small: "\<bar>d * F\<bar> \<le> 2" using q by simp
  have "\<bar>d * F - q\<bar> = q * \<bar>F * B - 1\<bar>" unfolding dF using q by (metis abs_mult abs_of_nonneg mult.right_neutral right_diff_distrib)
  also have "\<dots> \<le> q * ?e" using assms(1) q by (intro mult_left_mono)
  finally have one: "\<bar>d * F - q\<bar> \<le> q * ?e" .
  have "d = 0 \<or> tiny \<le> \<bar>d * F\<bar>"
  proof (cases "d = 0")
    case False
    then have "1 * F \<le> d * F" using assms(2,6) r(3) by (intro mult_right_mono) auto
    then show ?thesis using assms(2) abs_ge_self [of "d * F"] by linarith
  qed simp
  then have "\<bar>rnd (d * F) - d * F\<bar> \<le> \<bar>d * F\<bar> * roundoff" by (intro rnd_within) auto
  also have "\<dots> \<le> q * 2 * roundoff" using \<open>0 \<le> d * F\<close> \<open>d * F \<le> q * 2\<close> r(1) by (intro mult_right_mono) simp_all
  finally have "\<bar>rnd (d * F) - q\<bar> \<le> q * 2 * roundoff + q * ?e" using one by linarith
  also have "\<dots> = q * of_nat (i + 2) * (2 * roundoff)" by (simp add: algebra_simps)
  also have "\<dots> \<le> 2 * (2 * roundoff)"
  proof (rule mult_right_mono)
    have "i + 2 \<le> 2 * 2 ^ i" by (induction i) simp_all
    then have "(of_nat (i + 2) :: rat) \<le> of_nat (2 * 2 ^ i)" by (simp only: of_nat_le_iff)
    then have "q * of_nat (i + 2) \<le> q * of_nat (2 * 2 ^ i)" using q by (intro mult_left_mono)
    then show "q * of_nat (i + 2) \<le> 2" using assms(7) by simp
  qed (use r in simp)
  finally have t: "\<bar>rnd (d * F) - q\<bar> \<le> 4 * roundoff" by simp
  note bounds = abs_le_D1 [OF t] abs_le_D2 [OF t] abs_le_D1 [OF assms(8)] abs_le_D2 [OF assms(8)]
  show sum: "\<bar>H + rnd (d * F)\<bar> \<le> 2" using bounds assms(9,10) e(2) q r(1,2) by (intro abs_leI) linarith+
  show "\<bar>rnd (H + rnd (d * F)) - (Hx + q)\<bar> \<le> of_nat (Suc i) * (6 * roundoff)"
    using rnd_near_two [OF sum] t assms(8) by (simp add: abs_le_iff algebra_simps)
qed

text \<open>The whole loop, from digit \<open>i\<close>.\<close>

lemma add_digits_near:
  assumes "2 \<le> b" "b < 2 ^ 53" "k * b ^ i < 2 ^ 53" "i \<le> 53"
    and "\<bar>F * of_nat (b ^ i) - 1\<bar> \<le> of_nat i * (2 * roundoff)" "\<bar>H - Hx\<bar> \<le> of_nat i * (6 * roundoff)" "0 \<le> Hx" "Hx + 1 / of_nat (b ^ i) \<le> 1"
  shows "\<exists>R. add_digits b k (Fin H) (Fin F) = Some (Fin R) \<and> \<bar>R - (Hx + radical_inverse b k / of_nat (b ^ i))\<bar> \<le> 318 * roundoff"
  using assms(3-8)
proof (induction k arbitrary: i F H Hx rule: less_induct)
  case (less k)
  show ?case
  proof (cases "k = 0")
    case True
    have "of_nat i * (6 * roundoff) \<le> 318 * roundoff"
      using less.prems(2) roundoff_small(1) mult_right_mono [of "of_nat i" "53 :: rat" "6 * roundoff"] by simp
    then have "\<bar>H - Hx\<bar> \<le> 318 * roundoff" using less.prems(4) by linarith
    then show ?thesis using True by (simp add: add_digits.simps)
  next
    case False
    let ?B = "of_nat (b ^ i) :: rat" and ?b = "of_nat b :: rat" and ?d = "of_nat (k mod b) :: rat"
    let ?F = "rnd (F / ?b)" and ?q = "?d / of_nat (b ^ Suc i)"
    have "b ^ i \<le> k * b ^ i" using False by simp
    then have Bn: "b ^ i < 2 ^ 53" using less.prems(1) by linarith
    have two: "(2 :: nat) ^ i \<le> b ^ i" using assms(1) by (rule power_mono) simp
    then have "(2 :: nat) ^ i < 2 ^ 53" using Bn by linarith
    then have i: "i < 53" by (simp only: power_strict_increasing_iff)
    have "1 \<le> b ^ i" using assms(1) by simp
    then have B: "1 \<le> ?B" "?B \<le> 2 ^ 53" using Bn by (metis of_nat_1 of_nat_le_iff, metis less_imp_le of_nat_le_iff of_nat_numeral of_nat_power)
    have b: "2 \<le> ?b" "?b \<le> 2 ^ 53" using assms(1,2) by (metis of_nat_le_iff of_nat_numeral, metis less_imp_le of_nat_le_iff of_nat_numeral of_nat_power)
    note w = weight_step [OF less.prems(3) less.prems(2) B b]
    have d: "k mod b < b" using assms(1) by simp
    then have "?d + 1 \<le> ?b" by (metis Suc_eq_plus1 Suc_leI of_nat_1 of_nat_add of_nat_le_iff)
    then have "(?d + 1) * ?B \<le> ?b * ?B" using B by (intro mult_right_mono) simp_all
    then have q: "?q + 1 / of_nat (b ^ Suc i) \<le> 1 / ?B" using B b by (simp add: field_simps)
    have Hq: "Hx + ?q + 1 / of_nat (b ^ Suc i) \<le> 1" using q less.prems(6) by linarith
    have "0 \<le> 1 / (of_nat (b ^ Suc i) :: rat)" by simp
    with Hq have Hq1: "Hx + ?q \<le> 1" by linarith
    have "?q \<le> 1 / ?B" using q \<open>0 \<le> 1 / of_nat (b ^ Suc i)\<close> by linarith
    also have "\<dots> \<le> 1 / 2 ^ i" using two assms(1) by (intro divide_left_mono) (simp_all add: of_nat_le_iff [of "2 ^ i" "b ^ i", where ?'a = rat, simplified])
    finally have qi: "?q * 2 ^ i \<le> 1" by (simp add: field_simps)
    have B': "?B * ?b = of_nat (b ^ Suc i)" by (simp add: mult.commute)
    have "0 < (of_nat (b ^ Suc i) :: rat)" using assms(1) by simp
    note s = digit_step [OF w(1) [unfolded B'] w(2) i this refl _ qi less.prems(4,5) Hq1]
    have d01: "?d = 0 \<or> 1 \<le> ?d" by (cases "k mod b") simp_all
    have fb: "f_of_int (int b) = Fin ?b" using f_of_int [of "int b"] assms(2) by simp
    have "k mod b < 2 ^ 53" using d assms(2) by linarith
    then have fd: "f_of_int (int (k mod b)) = Fin ?d" using f_of_int [of "int (k mod b)"] by simp
    have f: "f_div (Fin F) (f_of_int (int b)) = Fin ?F"
      using fl_small [of "F / ?b"] w(3,4) b(1) order_trans [of _ 2 "2 ^ 1000"] by (simp add: fb)
    have h: "f_add (Fin H) (f_mul (f_of_int (int (k mod b))) (Fin ?F)) = Fin (rnd (H + rnd (?d * ?F)))"
      using fl_small [of "?d * ?F"] fl_small [of "H + rnd (?d * ?F)"] s(2,3) d01 order_trans [of _ 2 "2 ^ 1000"] by (simp add: fd)
    have "k div b * b ^ Suc i \<le> k * b ^ i" by (simp add: mult.assoc [symmetric])
    then have k: "k div b * b ^ Suc i < 2 ^ 53" using less.prems(1) by linarith
    obtain R where R: "add_digits b (k div b) (Fin (rnd (H + rnd (?d * ?F)))) (Fin ?F) = Some (Fin R)"
      "\<bar>R - (Hx + ?q + radical_inverse b (k div b) / of_nat (b ^ Suc i))\<bar> \<le> 318 * roundoff"
      using less.IH [OF _ k _ w(1) [unfolded B'] s(1) _ Hq] d01 i False assms(1) less.prems(5) by fastforce
    moreover have "?q + radical_inverse b (k div b) / of_nat (b ^ Suc i) = radical_inverse b k / ?B"
      using B b assms(1) by (simp add: radical_inverse_digit [of b k] add_divide_distrib mult.commute)
    ultimately show ?thesis using add_digits_step [OF False assms(1) f h] by (auto simp: add.assoc)
  qed
qed

section \<open>The points\<close>

fun draw_points :: "nat \<Rightarrow> halton \<Rightarrow> halton option" where
  "draw_points 0 g = Some g"
| "draw_points (Suc k) g = do { g \<leftarrow> draw_points k g; halton_next g }"

lemma all_some_map: "(\<And>x. x \<in> set xs \<Longrightarrow> \<exists>y. f x = Some y) \<Longrightarrow> all_some (map f xs) = Some (map (\<lambda>x. the (f x)) xs)"
proof (induction xs)
  case (Cons x xs)
  moreover obtain y where "f x = Some y" using Cons.prems [of x] by auto
  ultimately show ?case by simp
qed simp

lemma first_digit_loop:
  assumes "2 \<le> b" "b < 2 ^ 53" "k < 2 ^ 53"
  shows "\<exists>R. add_digits b k (Fin 0) (Fin 1) = Some (Fin R) \<and> \<bar>R - radical_inverse b k\<bar> \<le> 318 * roundoff"
  using add_digits_near [of b k 0 1 0 0] assms by simp

lemma draw_points_counter:
  assumes "list_all (\<lambda>b. 2 \<le> b \<and> b < 2 ^ 53) (bases g)" "halton_counter g = 0" "k < 2 ^ 53"
  shows "\<exists>g'. draw_points k g = Some g' \<and> halton_counter g' = k \<and> bases g' = bases g \<and>
    (0 < k \<longrightarrow> halton_sequence g' = map (\<lambda>b. the (add_digits b k (Fin 0) (Fin 1))) (bases g))"
  using assms(3)
proof (induction k)
  case (Suc k)
  then obtain g' where g': "draw_points k g = Some g'" "halton_counter g' = k" "bases g' = bases g" by auto
  have "\<exists>y. add_digits b (Suc k) (Fin 0) (Fin 1) = Some y" if "b \<in> set (bases g)" for b
    using first_digit_loop [of b "Suc k"] assms(1) Suc.prems that by (auto simp: list_all_iff)
  then have "all_some (map (\<lambda>b. add_digits b (Suc k) (Fin 0) (Fin 1)) (bases g)) =
    Some (map (\<lambda>b. the (add_digits b (Suc k) (Fin 0) (Fin 1))) (bases g))" by (rule all_some_map)
  then show ?case using g' Suc.prems by (simp add: halton_next_def u64_def)
qed (simp add: assms(2))

lemma first_primes_bases:
  assumes "1 \<le> n" "n \<le> card {p. prime_number p \<and> p < 2 ^ 53}"
  shows "\<exists>ps. first_primes n = Some ps \<and> length ps = n \<and> list_all (\<lambda>b. 2 \<le> b \<and> b < 2 ^ 53) ps \<and> ps ! 0 = 2"
proof -
  let ?P = "{p. prime_number p \<and> p < 2 ^ 53}"
  have "card ?P \<le> card {p. prime_number p \<and> p < 2 ^ 63}" by (rule card_mono [OF finite_primes]) auto
  then obtain ps c where ps: "first_primes n = Some ps" "length ps = n" "sorted_wrt (<) ps" "set ps = {p. prime_number p \<and> p \<le> c}"
    using first_primes_are_the_primes [of n] assms(2) by (meson le_trans)
  have n: "card (set ps) = n" using ps(2,3) distinct_card strict_sorted_iff by blast
  have "b < 2 ^ 53" if "b \<in> set ps" for b
  proof (rule ccontr)
    assume "\<not> b < 2 ^ 53"
    moreover have b: "prime_number b" "b \<le> c" using that unfolding ps(4) by simp_all
    ultimately have "p \<le> c" if "p < 2 ^ 53" for p using that by linarith
    then have "insert b ?P \<subseteq> set ps" unfolding ps(4) using b by blast
    then have "card (insert b ?P) \<le> n" unfolding n [symmetric] by (rule card_mono [rotated]) simp
    moreover have "card (insert b ?P) = Suc (card ?P)" using \<open>\<not> b < 2 ^ 53\<close> by (intro card_insert_disjoint [OF finite_primes]) simp
    ultimately show False using assms(2) by simp
  qed
  moreover have big: "2 \<le> b" if "b \<in> set ps" for b using that ps(4) by (simp add: prime_number_def)
  moreover have "ps ! 0 = 2"
  proof -
    have "ps ! 0 \<in> set ps" using ps(2) assms(1) by simp
    then have "2 \<in> set ps" using big [of "ps ! 0"] ps(4) primes_below_six [of 2] by auto
    then obtain i where i: "i < length ps" "ps ! i = 2" by (auto simp: in_set_conv_nth)
    then have "ps ! 0 \<le> 2" using sorted_wrt_nth_less [OF ps(3), of 0 i] by (cases "i = 0") auto
    then show ?thesis using big [OF \<open>ps ! 0 \<in> set ps\<close>] by simp
  qed
  ultimately show ?thesis using ps(1,2) by (auto simp: list_all_iff)
qed

text \<open>C34. Halton points are radical inverses. For a number of dimensions with enough primes below \<open>2 ^ 53\<close>, the
  generator can be built, and each of its first \<open>2 ^ 53 - 1\<close> draws returns a point of that many coordinates: the \<open>k\<close>-th has as first
  coordinate the binary digits of \<open>k\<close> mirrored at the point, exactly, so that it lies strictly between 0 and 1 and
  never repeats, and as every other coordinate the radical inverse of \<open>k\<close> in the base of the dimension up to 318 units of \<open>2 ^ -53\<close>.\<close>

theorem halton_points_are_radical_inverses:
  assumes "1 \<le> n" "n \<le> card {p. prime_number p \<and> p < 2 ^ 53}" "1 \<le> k" "k < 2 ^ 53"
  shows "\<exists>g g'. halton_new n = Some (Inr g) \<and> draw_points k g = Some g' \<and> length (halton_sequence g') = n \<and>
    halton_sequence g' ! 0 = Fin (radical_inverse 2 k) \<and> 0 < radical_inverse 2 k \<and> radical_inverse 2 k < 1 \<and> {j. radical_inverse 2 j = radical_inverse 2 k} = {k} \<and>
    list_all2 (\<lambda>b x. \<exists>R. x = Fin R \<and> \<bar>R - radical_inverse b k\<bar> \<le> 318 / 2 ^ 53) (bases g) (halton_sequence g')"
proof -
  obtain ps where ps: "first_primes n = Some ps" "length ps = n" "list_all (\<lambda>b. 2 \<le> b \<and> b < 2 ^ 53) ps" "ps ! 0 = 2"
    using first_primes_bases [OF assms(1,2)] by blast
  let ?g = "\<lparr>halton_dimensionality = n, halton_counter = 0, bases = ps, halton_sequence = replicate n (Fin 0)\<rparr>"
  have g: "halton_new n = Some (Inr ?g)" using ps(1) assms(1) by (simp add: halton_new_def)
  obtain g' where g': "draw_points k ?g = Some g'" "halton_sequence g' = map (\<lambda>b. the (add_digits b k (Fin 0) (Fin 1))) ps"
    using draw_points_counter [of ?g k] ps(3) assms(3,4) by auto
  have "add_digits 2 k (Fin 0) (Fin 1) = Some (Fin (radical_inverse 2 k))" using add_digits_two [of k 0 0] assms(4) by simp
  then have "halton_sequence g' ! 0 = Fin (radical_inverse 2 k)" using g'(2) ps(2,4) assms(1) by simp
  moreover have "list_all2 (\<lambda>b x. \<exists>R. x = Fin R \<and> \<bar>R - radical_inverse b k\<bar> \<le> 318 / 2 ^ 53) ps (halton_sequence g')"
    unfolding list_all2_conv_all_nth
  proof (intro conjI allI impI)
    fix i assume "i < length ps"
    then have "2 \<le> ps ! i" "ps ! i < 2 ^ 53" using ps(3) by (simp_all add: list_all_length)
    from first_digit_loop [OF this assms(4)] show "\<exists>R. halton_sequence g' ! i = Fin R \<and> \<bar>R - radical_inverse (ps ! i) k\<bar> \<le> 318 / 2 ^ 53"
      using g'(2) \<open>i < length ps\<close> by (auto simp: roundoff_def)
  qed (simp add: g'(2))
  moreover have "0 < radical_inverse 2 k" "radical_inverse 2 k < 1"
    using radical_inverse_pos [of 2 k] radical_inverse_range [of 2 k] assms(3) by simp_all
  moreover have "{j. radical_inverse 2 j = radical_inverse 2 k} = {k}" using radical_inverse_inject [of 2 _ k] by auto
  ultimately show ?thesis using g g' ps(2) by (intro exI [of _ ?g] exI [of _ g']) simp
qed

theorem halton_points_are_radical_inverses_witness:
  "\<exists>g g'. halton_new 3 = Some (Inr g) \<and> draw_points 6 g = Some g' \<and> length (halton_sequence g') = 3 \<and> halton_sequence g' ! 0 = Fin (3 / 8)"
proof -
  have "card {2, 3, 5 :: nat} \<le> card {p. prime_number p \<and> p < 2 ^ 53}" using primes_below_six by (intro card_mono [OF finite_primes]) auto
  then have "3 \<le> card {p. prime_number p \<and> p < 2 ^ 53}" by simp
  moreover have "radical_inverse 2 6 = 3 / 8" by (simp add: radical_inverse.simps)
  ultimately show ?thesis using halton_points_are_radical_inverses [of 3 6] by fastforce
qed

end
