(* ===== verification/Rollback.thy ===== *)
theory Rollback
  imports Float_Order
begin

text \<open>
  \<open>methods/finitedifferences/finitedifferencemodel.rs\<close> and the driver of
  \<open>solvers/fdmbackwardsolver.rs\<close>: rolling a grid of values back in time. A scheme and a step condition are
  trait objects with state of their own; here they act on one world that holds them and the grid.
  A failed step leaves the world as it left it.
\<close>

section \<open>Schemes and conditions\<close>

record ('w, 'e) scheme =
  set_step :: "f64 \<Rightarrow> 'w \<Rightarrow> 'w"
  take_step :: "f64 \<Rightarrow> 'w \<Rightarrow> 'e option \<times> 'w"

type_synonym 'w condition = "(f64 \<Rightarrow> 'w \<Rightarrow> 'w) option"

definition apply_condition :: "'w condition \<Rightarrow> f64 \<Rightarrow> 'w \<Rightarrow> 'w" where
  "apply_condition c t w = (case c of None \<Rightarrow> w | Some apply_to \<Rightarrow> apply_to t w)"

datatype 'e rollback_error = WrongOrder | SchemeFailed 'e

section \<open>The model\<close>

record ('w, 'e) fd_model =
  evolver :: "('w, 'e) scheme"
  stopping_times :: "f64 list"

definition fd_model_new :: "('w, 'e) scheme \<Rightarrow> f64 list \<Rightarrow> ('w, 'e) fd_model" where
  "fd_model_new s ts = \<lparr>evolver = s, stopping_times = dedup_by f_eq (sort ts)\<rparr>"

text \<open>The step from \<open>now\<close>, then the condition at \<open>t\<close>.\<close>

definition step_and_apply :: "('w, 'e) scheme \<Rightarrow> 'w condition \<Rightarrow> f64 \<Rightarrow> f64 \<Rightarrow> 'w \<Rightarrow> 'e option \<times> 'w" where
  "step_and_apply s c now t w =
     (case take_step s now w of (Some e, w) \<Rightarrow> (Some e, w) | (None, w) \<Rightarrow> (None, apply_condition c t w))"

text \<open>The loop over the stopping times, latest first.\<close>

fun stop_loop :: "('w, 'e) scheme \<Rightarrow> 'w condition \<Rightarrow> f64 \<Rightarrow> f64 list \<Rightarrow> f64 \<Rightarrow> bool \<Rightarrow> 'w \<Rightarrow> ('e + f64 \<times> bool) \<times> 'w" where
  "stop_loop s c nxt [] now hit w = (Inr (now, hit), w)"
| "stop_loop s c nxt (stop # stops) now hit w =
     (if f_le nxt stop \<and> f_less stop now then
        (case step_and_apply s c now stop (set_step s (f_sub now stop) w) of
           (Some e, w) \<Rightarrow> (Inl e, w)
         | (None, w) \<Rightarrow> stop_loop s c nxt stops stop True w)
      else stop_loop s c nxt stops now hit w)"

definition sqrt_epsilon :: f64 where
  "sqrt_epsilon = f_sqrt f64_epsilon"

definition step_target :: "f64 \<Rightarrow> f64 \<Rightarrow> nat \<Rightarrow> nat \<Rightarrow> f64 \<Rightarrow> f64" where
  "step_target dt to steps i t =
     (let nxt = (if i < steps - 1 then f_sub t dt else to)
      in if f_less (f_abs (f_sub to nxt)) sqrt_epsilon then to else nxt)"

text \<open>The body of the loop over the steps.\<close>

definition roll_step :: "('w, 'e) scheme \<Rightarrow> 'w condition \<Rightarrow> f64 list \<Rightarrow> f64 \<Rightarrow> f64 \<Rightarrow> f64 \<Rightarrow> 'w \<Rightarrow> 'e option \<times> 'w" where
  "roll_step s c stops dt now nxt w =
     (case stop_loop s c nxt (rev stops) now False w of
        (Inl e, w) \<Rightarrow> (Some e, w)
      | (Inr (now, hit), w) \<Rightarrow>
          if hit then
            (case (if f_less nxt now then step_and_apply s c now nxt (set_step s (f_sub now nxt) w) else (None, w)) of
               (Some e, w) \<Rightarrow> (Some e, w)
             | (None, w) \<Rightarrow> (None, set_step s dt w))
          else step_and_apply s c now nxt w)"

fun roll_loop :: "('w, 'e) scheme \<Rightarrow> 'w condition \<Rightarrow> f64 list \<Rightarrow> f64 \<Rightarrow> f64 \<Rightarrow> nat \<Rightarrow> nat list \<Rightarrow> f64 \<Rightarrow> 'w \<Rightarrow> 'e option \<times> 'w" where
  "roll_loop s c stops dt to steps [] t w = (None, w)"
| "roll_loop s c stops dt to steps (i # is) t w =
     (case roll_step s c stops dt t (step_target dt to steps i t) w of
        (Some e, w) \<Rightarrow> (Some e, w)
      | (None, w) \<Rightarrow> roll_loop s c stops dt to steps is (f_sub t dt) w)"

definition fd_rollback :: "('w, 'e) fd_model \<Rightarrow> f64 \<Rightarrow> f64 \<Rightarrow> nat \<Rightarrow> 'w condition \<Rightarrow> 'w \<Rightarrow> 'e rollback_error option \<times> 'w" where
  "fd_rollback m from_t to steps c w =
     (if \<not> f_le to from_t then (Some WrongOrder, w)
      else
        let s = evolver m;
            stops = stopping_times m;
            dt = f_div (f_sub from_t to) (f_of_int (int steps));
            w = set_step s dt w;
            w = (if stops \<noteq> [] \<and> f_eq (last stops) from_t then apply_condition c from_t w else w)
        in (case roll_loop s c stops dt to steps [0..<steps] from_t w of
              (Some e, w) \<Rightarrow> (Some (SchemeFailed e), w)
            | (None, w) \<Rightarrow> (None, w)))"

section \<open>The backward solver\<close>

text \<open>The schemes are built from the operator and the boundary conditions the solver holds: a function of the kind.\<close>

datatype fdm_scheme_type =
  Hundsdorfer | Douglas | CraigSneyd | ModifiedCraigSneyd | ImplicitEuler | ExplicitEuler | MethodOfLines | TrBDF2 | CrankNicolson

record ('w, 'e) backward_solver =
  schemes :: "fdm_scheme_type \<Rightarrow> ('w, 'e) scheme"
  scheme_type :: fdm_scheme_type
  solver_stopping_times :: "f64 list"
  solver_condition :: "f64 \<Rightarrow> 'w \<Rightarrow> 'w"

definition damping_end :: "f64 \<Rightarrow> f64 \<Rightarrow> nat \<Rightarrow> nat \<Rightarrow> f64" where
  "damping_end from_t to steps damping_steps =
     f_sub from_t (f_div (f_mul (f_sub from_t to) (f_of_int (int damping_steps))) (f_of_int (int (steps + damping_steps))))"

definition backward_rollback :: "('w, 'e) backward_solver \<Rightarrow> f64 \<Rightarrow> f64 \<Rightarrow> nat \<Rightarrow> nat \<Rightarrow> 'w \<Rightarrow> 'e rollback_error option \<times> 'w" where
  "backward_rollback b from_t to steps damping_steps w =
     (let damping_to = damping_end from_t to steps damping_steps;
          model = (\<lambda>kind. fd_model_new (schemes b kind) (solver_stopping_times b));
          c = Some (solver_condition b)
      in case (if damping_steps \<noteq> 0 \<and> scheme_type b \<noteq> ImplicitEuler
               then fd_rollback (model ImplicitEuler) from_t damping_to damping_steps c w else (None, w)) of
           (Some e, w) \<Rightarrow> (Some e, w)
         | (None, w) \<Rightarrow>
             (if scheme_type b = ImplicitEuler then fd_rollback (model ImplicitEuler) from_t to (steps + damping_steps) c w
              else fd_rollback (model (scheme_type b)) damping_to to steps c w))"

text \<open>
  A rollback is a sequence of calls to the scheme and to the condition that does not depend on what they do. The
  times it stops at are the uniform grid merged with the stopping times, each once and in descending order.
\<close>

section \<open>The calls of a rollback\<close>

datatype event = Set_Step f64 | Take_Step f64 | Apply f64

fun run_events :: "('w, 'e) scheme \<Rightarrow> 'w condition \<Rightarrow> event list \<Rightarrow> 'w \<Rightarrow> 'e option \<times> 'w" where
  "run_events s c [] w = (None, w)"
| "run_events s c (Set_Step d # es) w = run_events s c es (set_step s d w)"
| "run_events s c (Take_Step t # es) w = (case take_step s t w of (Some e, w) \<Rightarrow> (Some e, w) | (None, w) \<Rightarrow> run_events s c es w)"
| "run_events s c (Apply t # es) w = run_events s c es (apply_condition c t w)"

lemma run_events_append:
  "run_events s c (es @ fs) w = (case run_events s c es w of (Some e, w) \<Rightarrow> (Some e, w) | (None, w) \<Rightarrow> run_events s c fs w)"
  by (induction s c es w rule: run_events.induct) (auto split: prod.splits option.splits)

text \<open>The times the condition is applied at, and where each step started with the length set for it.\<close>

fun applied :: "event list \<Rightarrow> f64 list" where
  "applied [] = []"
| "applied (Apply t # es) = t # applied es"
| "applied (_ # es) = applied es"

fun legs :: "f64 \<Rightarrow> event list \<Rightarrow> (f64 \<times> f64) list" where
  "legs d [] = []"
| "legs d (Set_Step d' # es) = legs d' es"
| "legs d (Take_Step t # es) = (t, d) # legs d es"
| "legs d (Apply t # es) = legs d es"

fun step_after :: "f64 \<Rightarrow> event list \<Rightarrow> f64" where
  "step_after d [] = d"
| "step_after d (Set_Step d' # es) = step_after d' es"
| "step_after d (_ # es) = step_after d es"

lemma applied_append [simp]: "applied (es @ fs) = applied es @ applied fs"
  by (induction es rule: applied.induct) simp_all

lemma legs_append [simp]: "legs d (es @ fs) = legs d es @ legs (step_after d es) fs"
  by (induction d es rule: legs.induct) simp_all

lemma step_after_append [simp]: "step_after d (es @ fs) = step_after (step_after d es) fs"
  by (induction d es rule: step_after.induct) simp_all

section \<open>One step of the grid\<close>

text \<open>Cutting at each of a list of times.\<close>

fun cut_at :: "f64 \<Rightarrow> f64 list \<Rightarrow> event list" where
  "cut_at now [] = []"
| "cut_at now (t # ts) = [Set_Step (f_sub now t), Take_Step now, Apply t] @ cut_at t ts"

lemma applied_cut_at [simp]: "applied (cut_at now ts) = ts"
  by (induction now ts rule: cut_at.induct) simp_all

text \<open>\<open>chained\<close>: steps that start where the last one ended, each of the distance to its end, or of the uniform length
  between two points of the grid.\<close>

definition chained :: "f64 \<Rightarrow> f64 set \<Rightarrow> f64 \<Rightarrow> (f64 \<times> f64) list \<Rightarrow> f64 list \<Rightarrow> bool" where
  "chained dt grid now ls ts \<longleftrightarrow> map fst ls = butlast (now # ts) \<and>
     list_all2 (\<lambda>(x, d) y. d = f_sub x y \<or> d = dt \<and> x \<in> grid \<and> y \<in> grid) ls ts"

lemma chained_append:
  assumes "chained dt grid now ls ts" "chained dt grid (last (now # ts)) ls' ts'"
  shows "chained dt grid now (ls @ ls') (ts @ ts')"
  unfolding chained_def
proof
  show "map fst (ls @ ls') = butlast (now # ts @ ts')"
    using assms by (cases ts rule: rev_cases) (simp_all add: chained_def butlast_append)
  show "list_all2 (\<lambda>(x, d) y. d = f_sub x y \<or> d = dt \<and> x \<in> grid \<and> y \<in> grid) (ls @ ls') (ts @ ts')"
    using assms unfolding chained_def by (intro list_all2_appendI) (elim conjE, assumption)+
qed

lemma chained_cut_at: "chained dt grid now (legs d (cut_at now ts)) ts"
  by (induction now ts arbitrary: d rule: cut_at.induct) (auto simp: chained_def)

definition stops_in :: "f64 \<Rightarrow> f64 \<Rightarrow> f64 list \<Rightarrow> f64 list" where
  "stops_in nxt now stops = filter (\<lambda>s. nxt \<le> s \<and> s < now) (rev stops)"

lemma stop_loop_events:
  assumes "sorted_wrt (>) stops" "Not_A_Number \<notin> set stops" "nxt \<noteq> Not_A_Number" "now \<noteq> Not_A_Number"
  shows "stop_loop s c nxt stops now hit w =
    (let hits = filter (\<lambda>t. nxt \<le> t \<and> t < now) stops in
     case run_events s c (cut_at now hits) w of
       (Some e, w) \<Rightarrow> (Inl e, w)
     | (None, w) \<Rightarrow> (Inr (last (now # hits), hit \<or> hits \<noteq> []), w))"
  using assms
proof (induction stops arbitrary: now hit w)
  case (Cons stop stops)
  have nan: "stop \<noteq> Not_A_Number" using Cons.prems(2) by auto
  show ?case
  proof (cases "nxt \<le> stop \<and> stop < now")
    case True
    have "filter (\<lambda>t. nxt \<le> t \<and> t < now) stops = filter (\<lambda>t. nxt \<le> t \<and> t < stop) stops"
      using Cons.prems(1) True by (intro filter_cong) auto
    then show ?thesis using True Cons.IH [of stop] Cons.prems nan
      by (auto simp: f_le_order f_less_order step_and_apply_def Let_def split: prod.splits option.splits)
  next
    case False
    then show ?thesis using Cons.IH [of now] Cons.prems nan by (auto simp: f_le_order f_less_order)
  qed
qed simp

text \<open>The targets of a step: the stopping times it spans and its end, in descending order.\<close>

definition targets :: "f64 list \<Rightarrow> f64 \<Rightarrow> f64 \<Rightarrow> f64 list" where
  "targets stops now nxt =
     (let hits = stops_in nxt now stops in if hits \<noteq> [] \<and> last hits = nxt then hits else hits @ [nxt])"

definition step_events :: "f64 list \<Rightarrow> f64 \<Rightarrow> f64 \<Rightarrow> f64 \<Rightarrow> event list" where
  "step_events stops dt now nxt =
     (if stops_in nxt now stops = [] then [Take_Step now, Apply nxt] else cut_at now (targets stops now nxt) @ [Set_Step dt])"

lemma cut_at_append: "cut_at now (ts @ us) = cut_at now ts @ cut_at (last (now # ts)) us"
  by (induction now ts rule: cut_at.induct) auto

lemma roll_step_events:
  assumes "sorted_wrt (<) stops" "Not_A_Number \<notin> set stops" "nxt \<noteq> Not_A_Number" "now \<noteq> Not_A_Number"
  shows "roll_step s c stops dt now nxt w = run_events s c (step_events stops dt now nxt) w"
proof -
  let ?hits = "stops_in nxt now stops"
  have "sorted_wrt (>) (rev stops)" "Not_A_Number \<notin> set (rev stops)" using assms(1,2) by (simp_all add: sorted_wrt_rev)
  note loop = stop_loop_events [OF this assms(3,4), folded stops_in_def, where s = s and c = c and hit = False and w = w, unfolded Let_def]
  show ?thesis
  proof (cases "?hits = []")
    case True
    then show ?thesis using loop by (simp add: roll_step_def step_events_def step_and_apply_def split: prod.splits option.splits)
  next
    case False
    then have "last ?hits \<in> set ?hits" by simp
    then have l: "nxt \<le> last ?hits" "last ?hits \<noteq> Not_A_Number" using assms(2) by (auto simp: stops_in_def)
    show ?thesis
    proof (cases "last ?hits = nxt")
      case True
      then show ?thesis using loop False assms(3)
        by (auto simp: roll_step_def step_events_def targets_def run_events_append f_less_order split: prod.splits option.splits)
    next
      case False
      then have "f_less nxt (last ?hits)" using l assms(3) by (simp add: f_less_order)
      then show ?thesis using loop False \<open>?hits \<noteq> []\<close>
        by (auto simp: roll_step_def step_events_def targets_def run_events_append cut_at_append step_and_apply_def split: prod.splits option.splits)
    qed
  qed
qed

lemma targets_sorted:
  assumes "sorted_wrt (<) stops" "nxt < now"
  shows "sorted_wrt (>) (targets stops now nxt)" "set (targets stops now nxt) = {t \<in> set stops. nxt \<le> t \<and> t < now} \<union> {nxt}"
    "targets stops now nxt \<noteq> []" "last (targets stops now nxt) = nxt"
proof -
  have d: "sorted_wrt (>) (stops_in nxt now stops)" unfolding stops_in_def using assms(1) by (intro sorted_wrt_filter) (simp add: sorted_wrt_rev)
  have set: "set (stops_in nxt now stops) = {t \<in> set stops. nxt \<le> t \<and> t < now}" by (auto simp: stops_in_def)
  have least: "nxt < t" if "last (stops_in nxt now stops) \<noteq> nxt" "t \<in> set (stops_in nxt now stops)" for t
  proof (rule ccontr)
    assume "\<not> nxt < t"
    then have "t = nxt" using that(2) set by auto
    moreover have "last (stops_in nxt now stops) \<le> t" using that(2) d
      by (cases "stops_in nxt now stops" rule: rev_cases) (auto simp: sorted_wrt_append)
    moreover have "last (stops_in nxt now stops) \<in> set (stops_in nxt now stops)" using that(2) by (intro last_in_set) auto
    ultimately show False using that(1) set by auto
  qed
  show "sorted_wrt (>) (targets stops now nxt)" using d least by (auto simp: targets_def Let_def sorted_wrt_append)
  show "set (targets stops now nxt) = {t \<in> set stops. nxt \<le> t \<and> t < now} \<union> {nxt}"
  proof (cases "stops_in nxt now stops \<noteq> [] \<and> last (stops_in nxt now stops) = nxt")
    case True
    then have "last (stops_in nxt now stops) \<in> set (stops_in nxt now stops)" by (intro last_in_set) simp
    then have "nxt \<in> set (stops_in nxt now stops)" using True by simp
    moreover have "targets stops now nxt = stops_in nxt now stops" unfolding targets_def Let_def using True by (rule if_P)
    ultimately show ?thesis unfolding set [symmetric] by (simp add: insert_absorb)
  next
    case False
    then have "targets stops now nxt = stops_in nxt now stops @ [nxt]" by (auto simp: targets_def)
    then show ?thesis using set by simp
  qed
  show "targets stops now nxt \<noteq> []" "last (targets stops now nxt) = nxt" by (auto simp: targets_def Let_def)
qed

lemma step_events_calls:
  assumes "now \<in> grid" "nxt \<in> grid"
  shows "applied (step_events stops dt now nxt) = targets stops now nxt" "step_after dt (step_events stops dt now nxt) = dt"
    "chained dt grid now (legs dt (step_events stops dt now nxt)) (targets stops now nxt)"
proof -
  show "applied (step_events stops dt now nxt) = targets stops now nxt"
    by (cases "stops_in nxt now stops = []") (simp_all add: step_events_def targets_def Let_def)
  show "step_after dt (step_events stops dt now nxt) = dt" by (simp add: step_events_def)
  show "chained dt grid now (legs dt (step_events stops dt now nxt)) (targets stops now nxt)"
  proof (cases "stops_in nxt now stops = []")
    case True
    then show ?thesis using assms by (simp add: step_events_def targets_def chained_def)
  next
    case False
    then show ?thesis using chained_cut_at [of dt grid now dt "targets stops now nxt"] by (simp add: step_events_def)
  qed
qed

section \<open>The whole rollback\<close>

text \<open>The points the loop passes through, the last of them \<open>to\<close>.\<close>

fun grid_from :: "f64 \<Rightarrow> f64 \<Rightarrow> nat \<Rightarrow> f64 \<Rightarrow> f64 list" where
  "grid_from dt to 0 t = []"
| "grid_from dt to (Suc 0) t = [to]"
| "grid_from dt to (Suc (Suc n)) t = f_sub t dt # grid_from dt to (Suc n) (f_sub t dt)"

definition uniform_step :: "f64 \<Rightarrow> f64 \<Rightarrow> nat \<Rightarrow> f64" where
  "uniform_step from_t to steps = f_div (f_sub from_t to) (f_of_int (int steps))"

text \<open>The usual case: finite points that descend strictly, none of the inner ones so close to the end that it snaps.\<close>

definition regular_grid :: "f64 \<Rightarrow> f64 \<Rightarrow> nat \<Rightarrow> bool" where
  "regular_grid from_t to steps \<longleftrightarrow>
     (let g = from_t # grid_from (uniform_step from_t to steps) to steps from_t
      in list_all is_finite g \<and> sorted_wrt (>) g \<and> list_all (\<lambda>t. t = to \<or> \<not> f_less (f_abs (f_sub to t)) sqrt_epsilon) (tl g))"

fun loop_events :: "f64 list \<Rightarrow> f64 \<Rightarrow> f64 \<Rightarrow> f64 list \<Rightarrow> event list" where
  "loop_events stops dt t [] = []"
| "loop_events stops dt t (u # us) = step_events stops dt t u @ loop_events stops dt u us"

lemma roll_loop_events:
  assumes "sorted_wrt (<) stops" "Not_A_Number \<notin> set stops"
    and "list_all is_finite (t # grid_from dt to n t)" "list_all (\<lambda>t. t = to \<or> \<not> f_less (f_abs (f_sub to t)) sqrt_epsilon) (grid_from dt to n t)"
  shows "roll_loop s c stops dt to (k + n) [k..<k + n] t w = run_events s c (loop_events stops dt t (grid_from dt to n t)) w"
  using assms(3,4)
proof (induction dt to n t arbitrary: k w rule: grid_from.induct)
  case (2 dt to t)
  have fin: "t \<noteq> Not_A_Number" "to \<noteq> Not_A_Number" using "2.prems"(1) by auto
  have "step_target dt to (k + Suc 0) k t = to" by (simp add: step_target_def Let_def)
  then show ?case
    by (simp add: roll_step_events [OF assms(1,2) fin(2,1)] run_events_append split: prod.split option.split)
next
  case (3 dt to n t)
  let ?u = "f_sub t dt"
  have fin: "t \<noteq> Not_A_Number" "?u \<noteq> Not_A_Number" using "3.prems"(1) by auto
  have "step_target dt to (k + Suc (Suc n)) k t = ?u" using "3.prems"(2) by (auto simp: step_target_def Let_def)
  moreover have "[k..<k + Suc (Suc n)] = k # [Suc k..<Suc k + Suc n]" by (simp add: upt_conv_Cons)
  moreover have "roll_loop s c stops dt to (Suc k + Suc n) [Suc k..<Suc k + Suc n] ?u w' =
    run_events s c (loop_events stops dt ?u (grid_from dt to (Suc n) ?u)) w'" for w'
    using "3.IH" [of "Suc k" w'] "3.prems" by simp
  ultimately show ?case
    by (simp add: roll_step_events [OF assms(1,2) fin(2,1)] run_events_append split: prod.split option.split del: upt_Suc)
qed simp

lemma loop_events_calls:
  assumes "sorted_wrt (<) stops" "sorted_wrt (>) (t # us)" "set (t # us) \<subseteq> grid"
  shows "sorted_wrt (>) (t # applied (loop_events stops dt t us)) \<and>
    set (applied (loop_events stops dt t us)) = {s \<in> set stops. last (t # us) \<le> s \<and> s < t} \<union> set us \<and>
    chained dt grid t (legs dt (loop_events stops dt t us)) (applied (loop_events stops dt t us))"
  using assms(2,3)
proof (induction us arbitrary: t)
  case (Cons u us)
  have ut: "u < t" using Cons.prems(1) by simp
  note one = targets_sorted [OF assms(1) ut] and calls = step_events_calls [where now = t and nxt = u and grid = grid and stops = stops and dt = dt]
  let ?A = "targets stops t u" and ?B = "applied (loop_events stops dt u us)"
  have "sorted_wrt (>) (u # us)" "set (u # us) \<subseteq> grid" using Cons.prems by simp_all
  note step = Cons.IH [OF this]
  have IH: "sorted_wrt (>) (u # ?B)" "set ?B = {s \<in> set stops. last (u # us) \<le> s \<and> s < u} \<union> set us"
    "chained dt grid u (legs dt (loop_events stops dt u us)) ?B"
    using step by blast+
  have grid: "t \<in> grid" "u \<in> grid" using Cons.prems(2) by auto
  have below: "last (u # us) \<le> u" using Cons.prems(1) last_in_set [of us] by (cases us) (auto intro: less_imp_le)
  have applied: "applied (loop_events stops dt t (u # us)) = ?A @ ?B" using calls(1) [OF grid] by simp
  have "\<forall>x \<in> set ?A. u \<le> x \<and> x < t" using one(2) ut by auto
  moreover have "\<forall>y \<in> set ?B. y < u" using IH(1) by auto
  ultimately have "sorted_wrt (>) (t # ?A @ ?B)" using one(1) IH(1) ut by (fastforce simp: sorted_wrt_append)
  moreover have "set (?A @ ?B) = {s \<in> set stops. last (t # u # us) \<le> s \<and> s < t} \<union> set (u # us)"
    using one(2) IH(2) below ut by auto
  moreover have "chained dt grid t (legs dt (loop_events stops dt t (u # us))) (?A @ ?B)"
    using chained_append [OF calls(3) [OF grid]] IH(3) calls(2) [OF grid] one(3,4) by simp
  ultimately show ?case unfolding applied by blast
qed (auto simp: chained_def)

lemma last_grid_from: "1 \<le> n \<Longrightarrow> grid_from dt to n t \<noteq> [] \<and> last (grid_from dt to n t) = to"
  by (induction dt to n t rule: grid_from.induct) auto

text \<open>The stopping times of a model: the given ones, each once, in ascending order.\<close>

lemma stopping_times_new:
  assumes "list_all is_finite ts"
  shows "sorted_wrt (<) (dedup_by f_eq (sort ts))" "set (dedup_by f_eq (sort ts)) = set ts"
proof -
  have "f_eq x y \<longleftrightarrow> x = y" if "x \<in> set ts" for x y
  proof -
    have "is_finite x" using assms that by (simp add: list_all_iff)
    then show ?thesis by (cases x) simp_all
  qed
  then have "dedup_by f_eq (sort ts) = dedup_by (=) (sort ts)" by (intro dedup_by_cong) simp
  then show "sorted_wrt (<) (dedup_by f_eq (sort ts))" "set (dedup_by f_eq (sort ts)) = set ts"
    using dedup_by_eq [of "sort ts"] by simp_all
qed

text \<open>C35. A rollback stops at every stopping time. On a regular grid, whatever the scheme and the condition do, a rollback is one
  fixed sequence of calls, abandoned at the first step that fails. The condition is applied at the uniform
  points and at the stopping times from the end on and before the start, each exactly once and in descending order
  (and first at the start, if that is the last stopping time); every step starts where the one before ended and has the
  length to its own end, or the uniform length if it joins two points of the grid.\<close>

theorem rollback_stops_at_every_time:
  assumes "regular_grid from_t to steps" "1 \<le> steps" "list_all is_finite stops"
  shows "\<exists>es ts. (\<forall>(s :: ('w, 'e) scheme) c w. fd_rollback (fd_model_new s stops) from_t to steps c w =
      (case run_events s c es w of (e, w) \<Rightarrow> (map_option SchemeFailed e, w))) \<and>
    applied es = (if stops \<noteq> [] \<and> Max (set stops) = from_t then [from_t] else []) @ ts \<and> sorted_wrt (>) (from_t # ts) \<and>
    set ts = {t \<in> set stops. to \<le> t \<and> t < from_t} \<union> set (grid_from (uniform_step from_t to steps) to steps from_t) \<and>
    chained (uniform_step from_t to steps) (set (from_t # grid_from (uniform_step from_t to steps) to steps from_t)) from_t
      (legs (Fin 0) es) ts"
proof -
  let ?dt = "uniform_step from_t to steps"
  let ?us = "grid_from ?dt to steps from_t" and ?stops = "dedup_by f_eq (sort stops)"
  note st = stopping_times_new [OF assms(3)]
  have nan: "Not_A_Number \<notin> set ?stops" using assms(3) st(2) by (auto simp: list_all_iff)
  have reg: "list_all is_finite (from_t # ?us)" "sorted_wrt (>) (from_t # ?us)"
    "list_all (\<lambda>t. t = to \<or> \<not> f_less (f_abs (f_sub to t)) sqrt_epsilon) ?us"
    using assms(1) unfolding regular_grid_def Let_def by simp_all
  have us: "?us \<noteq> []" "last ?us = to" using last_grid_from [OF assms(2)] by blast+
  have "to \<in> set ?us" using us last_in_set by metis
  then have to: "to < from_t" "is_finite to" "is_finite from_t" using reg(1,2) by (auto simp: list_all_iff)
  then have le: "f_le to from_t" by (cases to; cases from_t) (simp_all add: f_le_def)
  have max: "(?stops \<noteq> [] \<and> f_eq (last ?stops) from_t) = (stops \<noteq> [] \<and> Max (set stops) = from_t)"
  proof (cases "?stops = []")
    case True
    then show ?thesis using st(2) by simp
  next
    case False
    then have "last ?stops \<in> set ?stops" by simp
    moreover have "Max (set ?stops) = last ?stops" using st(1) False
      by (intro Max_eqI) (cases ?stops rule: rev_cases; auto simp: sorted_wrt_append less_imp_le)+
    ultimately show ?thesis using st(2) False nan by (metis f_eq_order list.set_intros(1) neq_Nil_conv empty_iff list.set(1))
  qed
  let ?start = "if stops \<noteq> [] \<and> Max (set stops) = from_t then [Apply from_t] else []"
  let ?es = "Set_Step ?dt # ?start @ loop_events ?stops ?dt from_t ?us"
  have "fd_rollback (fd_model_new s stops) from_t to steps c w = (case run_events s c ?es w of (e, w) \<Rightarrow> (map_option SchemeFailed e, w))"
    for s :: "('w, 'e) scheme" and c w
    using roll_loop_events [OF st(1) nan reg(1,3), where k = 0 and s = s and c = c] max le
    by (auto simp: fd_rollback_def fd_model_new_def uniform_step_def [symmetric] Let_def split: prod.split option.split)
  moreover have "applied ?es = (if stops \<noteq> [] \<and> Max (set stops) = from_t then [from_t] else []) @ applied (loop_events ?stops ?dt from_t ?us)"
    "legs (Fin 0) ?es = legs ?dt (loop_events ?stops ?dt from_t ?us)" by simp_all
  moreover note calls = loop_events_calls [OF st(1) reg(2) subset_refl, of ?dt]
  moreover have "last (from_t # ?us) = to" using us by simp
  ultimately show ?thesis unfolding st(2)
    by (intro exI [of _ ?es] exI [of _ "applied (loop_events ?stops ?dt from_t ?us)"]) (simp only:, blast)
qed

lemma sqrt_epsilon: "sqrt_epsilon = Fin (1 / 2 ^ 26)"
  using f_sqrt_epsilon by (simp add: sqrt_epsilon_def f64_epsilon_def)

lemmas sample_times = f_sub_def f_of_int_def fl_one fl_zero fl_half fl_numeral fl_minus_Fin [OF fl_one] fl_minus_Fin [OF fl_half] sqrt_epsilon f_le_def

theorem rollback_stops_at_every_time_witness:
  "\<exists>es ts. applied es = Fin 1 # ts \<and> sorted_wrt (>) ts \<and> set ts = {Fin (3 / 4), Fin (1 / 2), Fin (1 / 4), Fin 0}"
proof -
  let ?stops = "[Fin (1 / 4), Fin (3 / 4), Fin 1, Fin (1 / 4)]"
  have grid: "regular_grid (Fin 1) (Fin 0) 2"
    by (simp add: regular_grid_def uniform_step_def sample_times eval_nat_numeral)
  have "set (grid_from (uniform_step (Fin 1) (Fin 0) 2) (Fin 0) 2 (Fin 1)) = {Fin (1 / 2), Fin 0}"
    by (auto simp: uniform_step_def sample_times eval_nat_numeral)
  moreover have "{t \<in> set ?stops. Fin 0 \<le> t \<and> t < Fin 1} = {Fin (1 / 4), Fin (3 / 4)}" by auto
  moreover have "Max (set ?stops) = Fin 1" by (simp add: max_def)
  ultimately show ?thesis
    using rollback_stops_at_every_time [where ?'w = unit and ?'e = unit, OF grid, of ?stops] by fastforce
qed

text \<open>The backward solver rolls over two segments with the same stopping times. When the last stopping time is the boundary
  between them, the first segment applies the condition at its end and the second again at its start.\<close>

lemma damping_boundary_is_applied_twice:
  "backward_rollback \<lparr>schemes = (\<lambda>_. \<lparr>set_step = (\<lambda>d w. w), take_step = (\<lambda>t w. (None :: unit option, w))\<rparr>), scheme_type = Douglas,
       solver_stopping_times = [Fin (1 / 2)], solver_condition = (\<lambda>t w. w @ [t])\<rparr> (Fin 1) (Fin 0) 1 1 [] =
     (None, [Fin (1 / 2), Fin (1 / 2), Fin 0])"
  by (simp add: backward_rollback_def damping_end_def fd_rollback_def fd_model_new_def roll_step_def step_and_apply_def apply_condition_def
      step_target_def Let_def sample_times)

end
