(* ===== verification/Time_Grid.thy ===== *)
theory Time_Grid
  imports Float_Order Schedule_Laws
begin

text \<open>
  \<open>math/timegrid.rs\<close>: grids of times starting at zero, regular or through given times, and the search of the node for a
  time. The search is the standard library's \<open>partition_point\<close>, as in \<open>Schedule\<close>.
\<close>

section \<open>Construction\<close>

datatype grid_error =
  EmptyTimes | InvalidGridTime | NoPositiveEnd | NegativeTimes | NoSteps | NotEnoughPoints | InadequateGrid

record time_grid =
  grid_times :: "f64 list"
  grid_dt :: "f64 list"
  grid_mandatory :: "f64 list"

definition time_grid_default :: time_grid where
  "time_grid_default = \<lparr>grid_times = [], grid_dt = [], grid_mandatory = []\<rparr>"

fun differences :: "f64 list \<Rightarrow> f64 list" where
  "differences (x # y # zs) = f_sub y x # differences (y # zs)"
| "differences _ = []"

definition from_mandatory_times :: "f64 list \<Rightarrow> grid_error + time_grid" where
  "from_mandatory_times ts =
     (if ts = [] then Inl EmptyTimes
      else if \<not> list_all (\<lambda>t. is_finite t \<and> f_le (Fin 0) t) ts then Inl InvalidGridTime
      else let mandatory = dedup_by close_enough (sort ts) in
        if \<not> f_less (Fin 0) (last mandatory) then Inl NoPositiveEnd
        else let nodes = (if f_less (Fin 0) (hd mandatory) then Fin 0 # mandatory else mandatory)
          in Inr \<lparr>grid_times = nodes, grid_dt = differences nodes, grid_mandatory = mandatory\<rparr>)"

definition time_grid_new :: "f64 \<Rightarrow> nat \<Rightarrow> grid_error + time_grid" where
  "time_grid_new end_t steps =
     (if \<not> f_less (Fin 0) end_t then Inl NegativeTimes
      else if \<not> 0 < steps then Inl NoSteps
      else let dt = f_div end_t (f_of_int (int steps))
        in Inr \<lparr>grid_times = map (\<lambda>i. f_mul dt (f_of_int (int i))) [0..<steps + 1], grid_dt = replicate steps dt, grid_mandatory = [end_t]\<rparr>)"

text \<open>\<open>sort_by\<close> with \<open>partial_cmp\<close> panics when it compares a not-a-number, which it does unless that is alone.\<close>

definition sort_by_partial_cmp :: "f64 list \<Rightarrow> f64 list option" where
  "sort_by_partial_cmp ts = (if 2 \<le> length ts \<and> Not_A_Number \<in> set ts then None else Some (sort ts))"

text \<open>\<open>as Size\<close> of a double, saturating.\<close>

fun f_to_usize :: "f64 \<Rightarrow> nat" where
  "f_to_usize (Fin x) = nat (max 0 (min (2 ^ 64 - 1) \<lfloor>x\<rfloor>))"
| "f_to_usize Infinity = 2 ^ 64 - 1"
| "f_to_usize _ = 0"

definition grid_spacing :: "f64 list \<Rightarrow> nat \<Rightarrow> grid_error + f64" where
  "grid_spacing mandatory steps =
     (if steps = 0 then
        let diff = hd mandatory # differences mandatory;
            diff = (if f_eq (hd diff) (Fin 0) then tl diff else diff)
        in if diff = [] then Inl NotEnoughPoints else Inr (fold (\<lambda>x acc. f_min acc x) diff Infinity)
      else Inr (f_div (last mandatory) (f_of_int (int steps))))"

text \<open>The points between consecutive given times.\<close>

fun fill_periods :: "f64 \<Rightarrow> f64 \<Rightarrow> f64 list \<Rightarrow> f64 list" where
  "fill_periods dt_max period_begin [] = []"
| "fill_periods dt_max period_begin (period_end # rest) =
     (if \<not> f_eq period_end (Fin 0) then
        let n_steps = f_to_usize (f_max (f_round (f_div (f_sub period_end period_begin) dt_max)) (Fin 1));
            dt = f_div (f_sub period_end period_begin) (f_of_int (int n_steps))
        in map (\<lambda>n. f_add period_begin (f_mul (f_of_int (int n)) dt)) [1..<n_steps + 1]
      else []) @ fill_periods dt_max period_end rest"

definition with_mandatory_times :: "f64 list \<Rightarrow> nat \<Rightarrow> (grid_error + time_grid) option" where
  "with_mandatory_times ts steps =
     (if ts = [] then Some (Inl EmptyTimes)
      else do {
        mandatory \<leftarrow> sort_by_partial_cmp ts;
        if \<not> f_le (Fin 0) (hd mandatory) then Some (Inl NegativeTimes)
        else let mandatory = dedup_by close_enough mandatory in
          (case grid_spacing mandatory steps of
             Inl e \<Rightarrow> Some (Inl e)
           | Inr dt_max \<Rightarrow>
               let nodes = Fin 0 # fill_periods dt_max (Fin 0) mandatory
               in Some (Inr \<lparr>grid_times = nodes, grid_dt = differences nodes, grid_mandatory = mandatory\<rparr>))
      })"

section \<open>Queries\<close>

definition grid_dt_at :: "time_grid \<Rightarrow> nat \<Rightarrow> f64 option" where
  "grid_dt_at g i = (if i < length (grid_dt g) then Some (grid_dt g ! i) else None)"

definition grid_size :: "time_grid \<Rightarrow> nat" where
  "grid_size g = length (grid_times g)"

definition grid_empty :: "time_grid \<Rightarrow> bool" where
  "grid_empty g \<longleftrightarrow> grid_times g = []"

text \<open>\<open>at\<close>, and the indexing that panics out of range.\<close>

definition grid_at :: "time_grid \<Rightarrow> nat \<Rightarrow> f64 option" where
  "grid_at g i = (if i < length (grid_times g) then Some (grid_times g ! i) else None)"

definition closest_index :: "time_grid \<Rightarrow> f64 \<Rightarrow> nat" where
  "closest_index g t =
     (let result = partition_point (\<lambda>x. f_less x t) (grid_times g) in
      if result = 0 then 0
      else if result = length (grid_times g) then length (grid_times g) - 1
      else let dt1 = f_sub (grid_times g ! result) t; dt2 = f_sub t (grid_times g ! (result - 1))
        in if f_less dt1 dt2 then result else result - 1)"

definition closest_time :: "time_grid \<Rightarrow> f64 \<Rightarrow> f64 option" where
  "closest_time g t = grid_at g (closest_index g t)"

definition node_index :: "time_grid \<Rightarrow> f64 \<Rightarrow> (grid_error + nat) option" where
  "node_index g t = do {
     let i = closest_index g t;
     node \<leftarrow> grid_at g i;
     Some (if close_enough t node then Inr i else Inl InadequateGrid)
   }"

definition grid_front :: "time_grid \<Rightarrow> f64 option" where
  "grid_front g = (case grid_times g of [] \<Rightarrow> None | t # _ \<Rightarrow> Some t)"

definition grid_back :: "time_grid \<Rightarrow> f64 option" where
  "grid_back g = (if grid_times g = [] then None else Some (last (grid_times g)))"

text \<open>
  A grid through given times resolves its own nodes, and the search finds a node at the least rounded distance.
\<close>

section \<open>Lists of nodes\<close>

lemma dedup_from_apart: "successively (\<lambda>a b. \<not> same b a) (kept # dedup_from same kept xs)"
  by (induction xs arbitrary: kept) auto

lemma dedup_by_apart: "successively (\<lambda>a b. \<not> same b a) (dedup_by same xs)"
  using dedup_from_apart by (cases xs) auto

lemma dedup_from_covers:
  "\<forall>x \<in> set xs. same x x \<Longrightarrow> x \<in> set xs \<Longrightarrow> \<exists>y \<in> insert kept (set (dedup_from same kept xs)). same x y"
  by (induction xs arbitrary: kept) (auto split: if_splits)

lemma dedup_by_covers: "\<forall>x \<in> set xs. same x x \<Longrightarrow> x \<in> set xs \<Longrightarrow> \<exists>y \<in> set (dedup_by same xs). same x y"
  using dedup_from_covers [of _ same] by (cases xs) fastforce+

lemma dedup_by_not_empty: "xs \<noteq> [] \<Longrightarrow> dedup_by same xs \<noteq> []"
  by (cases xs) simp_all

lemma sort_eq_Nil [simp]: "sort xs = [] \<longleftrightarrow> xs = []"
  by (metis length_0_conv length_sort)

lemma differences_all: "successively (\<lambda>a b. P (f_sub b a)) xs \<Longrightarrow> d \<in> set (differences xs) \<Longrightarrow> P d"
  by (induction xs rule: differences.induct) auto

lemma length_differences: "length (differences xs) = length xs - 1"
  by (induction xs rule: differences.induct) auto

text \<open>A rising difference is a rising pair, so steps that are all positive make a strictly ascending list.\<close>

definition rising :: "f64 list \<Rightarrow> bool" where
  "rising xs \<longleftrightarrow> list_all is_finite xs \<and> successively (\<lambda>a b. f_less (Fin 0) (f_sub b a)) xs"

lemma fl_nonneg: "0 \<le> x \<Longrightarrow> fl x = Infinity \<or> (\<exists>y. 0 \<le> y \<and> fl x = Fin y)"
  using rnd_nonneg [of x] by (auto simp: fl_def Let_def)

lemma positive_difference: "f_less (Fin 0) (f_sub (Fin y) (Fin x)) \<Longrightarrow> x < y"
proof (rule ccontr)
  assume a: "f_less (Fin 0) (f_sub (Fin y) (Fin x))" "\<not> x < y"
  then have "0 \<le> x - y" by simp
  from fl_nonneg [OF this] have "f_neg (fl (x - y)) = Neg_Infinity \<or> (\<exists>z. 0 \<le> z \<and> f_neg (fl (x - y)) = Fin (- z))" by auto
  moreover have "f_sub (Fin y) (Fin x) = f_neg (fl (x - y))" using fl_minus [of "x - y"] by (simp add: f_sub_def)
  ultimately show False using a(1) by auto
qed

lemma rising_step: "is_finite a \<Longrightarrow> is_finite b \<Longrightarrow> f_less (Fin 0) (f_sub b a) \<Longrightarrow> a < b"
  using positive_difference by (cases a; cases b) auto

lemma rising_Cons: "rising (a # b # xs) \<longleftrightarrow> is_finite a \<and> f_less (Fin 0) (f_sub b a) \<and> rising (b # xs)"
  by (auto simp: rising_def)

lemma rising_sorted: "rising xs \<Longrightarrow> sorted_wrt (<) xs"
proof (induction xs rule: differences.induct)
  case (1 x y zs)
  then have "sorted_wrt (<) (y # zs)" "x < y" "rising (y # zs)"
    using rising_step [of x y] by (auto simp: rising_Cons) (auto simp: rising_def)
  then show ?case by (auto intro: less_trans)
qed auto

lemma rising_differences: "rising xs \<Longrightarrow> d \<in> set (differences xs) \<Longrightarrow> f_less (Fin 0) d"
  unfolding rising_def using differences_all [of "f_less (Fin 0)"] by blast

section \<open>Times that are not close\<close>

lemma close_enough_refl [simp]: "close_enough (Fin x) (Fin x)"
  by (simp add: close_enough_def close_enough_n_def)

lemma apart_rises:
  assumes "x \<le> y" "\<not> close_enough (Fin y) (Fin x)"
  shows "f_less (Fin 0) (f_sub (Fin y) (Fin x))"
proof (rule ccontr)
  assume n: "\<not> ?thesis"
  have "f_sub (Fin y) (Fin x) = fl (y - x)" by (simp add: f_sub_def)
  then have d: "f_sub (Fin y) (Fin x) = Fin 0" using n fl_nonneg [of "y - x"] assms(1) by auto
  have "f_le (Fin 0) (f_mul (Fin epsilon_42) (f_abs (Fin v)))" for v
    using fl_nonneg [of "epsilon_42 * \<bar>v\<bar>"] by (auto simp: f_le_def epsilon_42_def)
  then have "close_enough (Fin y) (Fin x)"
    using zero_tolerance_pos
    by (simp add: close_enough_def close_enough_n_def Let_def d f64_42_epsilon f64_42_epsilon_squared del: f_mul.simps)
  then show False using assms(2) by simp
qed

lemma apart_rising:
  "list_all is_finite xs \<Longrightarrow> sorted xs \<Longrightarrow> successively (\<lambda>a b. \<not> close_enough b a) xs \<Longrightarrow> rising xs"
proof (induction xs rule: differences.induct)
  case (1 x y zs)
  from 1(2) obtain u v where "x = Fin u" "y = Fin v" by (cases x; cases y) auto
  then show ?case using 1 apart_rises [of u v] by (auto simp: rising_Cons)
qed (auto simp: rising_def)

section \<open>The search\<close>

lemma search_splits:
  assumes "sorted_wrt (<) xs" "list_all is_finite xs" "is_finite t"
  shows "partition_point (\<lambda>x. f_less x t) xs \<le> length xs \<and>
    (\<forall>i < length xs. xs ! i < t \<longleftrightarrow> i < partition_point (\<lambda>x. f_less x t) xs)"
proof -
  have eq: "\<forall>i < length xs. f_less (xs ! i) t \<longleftrightarrow> xs ! i < t"
    using assms(2,3) f_less_order by (metis is_finite.simps(4) list_all_length)
  then have "partitioned (\<lambda>x. f_less x t) xs"
    using sorted_partitioned [OF assms(1), of t] by (auto simp: partitioned_def)
  from partition_point_spec [OF this] show ?thesis using eq by auto
qed

lemma close_enough_refl': "is_finite t \<Longrightarrow> close_enough t t"
  by (cases t) auto

lemma node_resolves:
  assumes r: "rising (grid_times g)" and i: "i < length (grid_times g)"
  shows "node_index g (grid_times g ! i) = Some (Inr i)"
proof -
  let ?xs = "grid_times g" let ?t = "?xs ! i"
  have fin: "list_all is_finite ?xs" using r by (simp add: rising_def)
  then have t: "is_finite ?t" using i by (simp add: list_all_length)
  note s = rising_sorted [OF r]
  let ?p = "partition_point (\<lambda>x. f_less x ?t) ?xs"
  have below: "j < ?p \<longleftrightarrow> j < i" if "j < length ?xs" for j
  proof -
    have "j < ?p \<longleftrightarrow> ?xs ! j < ?t" using search_splits [OF s fin t] that by blast
    also have "\<dots> \<longleftrightarrow> j < i"
      using s that i by (metis less_asym less_irrefl linorder_cases sorted_wrt_iff_nth_less)
    finally show ?thesis .
  qed
  have p: "?p = i" using below [of i] below [of ?p] i by linarith
  have "closest_index g ?t = i"
  proof (cases i)
    case (Suc k)
    have "f_less (Fin 0) (f_sub ?t (?xs ! k))"
      using r i Suc by (simp add: rising_def successively_conv_nth)
    moreover have "f_sub ?t ?t = Fin 0" using t by (cases ?t) (simp_all add: f_sub_def fl_zero)
    ultimately show ?thesis using p i Suc by (simp add: closest_index_def Let_def)
  qed (use p in \<open>simp add: closest_index_def Let_def\<close>)
  then show ?thesis using i close_enough_refl' [OF t] by (simp add: node_index_def Let_def grid_at_def)
qed

section \<open>Grids\<close>

lemma grid_of_mandatory_times:
  assumes "from_mandatory_times ts = Inr g"
  shows "list_all (\<lambda>t. is_finite t \<and> f_le (Fin 0) t) ts \<and> ts \<noteq> [] \<and>
    (let m = dedup_by close_enough (sort ts) in
       grid_mandatory g = m \<and> grid_dt g = differences (grid_times g) \<and>
       grid_times g = (if f_less (Fin 0) (hd m) then Fin 0 # m else m))"
  using assms by (auto simp: from_mandatory_times_def Let_def split: if_splits)

lemma rising_zero:
  assumes r: "rising (x # xs)" and x: "f_less (Fin 0) x" "\<And>v. x = Fin v \<Longrightarrow> fl v = Fin v"
  shows "rising (Fin 0 # x # xs)"
proof -
  obtain v where v: "x = Fin v" using r by (cases x) (auto simp: rising_def)
  then have "f_sub x (Fin 0) = x" using x(2) by (simp add: f_sub_def)
  then show ?thesis using r x(1) by (simp add: rising_Cons)
qed

text \<open>C36. The grid through given times, each a finite double that is not negative, starts at zero and has positive steps,
  as many as its points less one, so that its points strictly ascend; every given time is close to one of the
  points; and looking up a point gives its own position, however near to it its neighbours are.\<close>

theorem mandatory_grid_resolves_its_nodes:
  assumes "from_mandatory_times ts = Inr g" and "\<And>v. Fin v \<in> set ts \<Longrightarrow> fl v = Fin v"
  shows "grid_front g = Some (Fin 0) \<and> sorted_wrt (<) (grid_times g) \<and>
    length (grid_dt g) + 1 = grid_size g \<and> (\<forall>d \<in> set (grid_dt g). f_less (Fin 0) d) \<and>
    (\<forall>t \<in> set ts. \<exists>node \<in> set (grid_times g). close_enough t node) \<and>
    (\<forall>i < grid_size g. node_index g (grid_times g ! i) = Some (Inr i))"
proof -
  let ?m = "dedup_by close_enough (sort ts)" and ?xs = "grid_times g"
  from grid_of_mandatory_times [OF assms(1)]
  have ok: "list_all (\<lambda>t. is_finite t \<and> f_le (Fin 0) t) ts" "ts \<noteq> []" and dt: "grid_dt g = differences ?xs"
    and nodes: "?xs = (if f_less (Fin 0) (hd ?m) then Fin 0 # ?m else ?m)" by (simp_all add: Let_def)
  have sub: "set ?m \<subseteq> set ts" using set_dedup_by [of close_enough "sort ts"] by simp
  have fin: "list_all is_finite ?m" using ok(1) sub by (auto simp: list_all_iff)
  then have m: "rising ?m" using apart_rising sorted_dedup_by dedup_by_apart sorted_sort by blast
  obtain x xs where x: "?m = x # xs" using dedup_by_not_empty [of "sort ts"] ok(2) by (cases ?m) auto
  then have "x \<in> set ts" using sub by auto
  moreover from this have "is_finite x \<and> f_le (Fin 0) x" using ok(1) by (simp add: list_all_iff)
  moreover from this obtain v where "x = Fin v" by (metis is_finite.elims(2))
  ultimately have v: "x = Fin v" "0 \<le> v" "fl v = Fin v" using assms(2) by (auto simp: f_le_def)
  have "rising ?xs \<and> hd ?xs = Fin 0 \<and> ?xs \<noteq> []"
  proof (cases "f_less (Fin 0) x")
    case True
    then have "?xs = Fin 0 # x # xs" using nodes x by simp
    then show ?thesis using m True rising_zero [of x xs] v x by auto
  next
    case False
    then have "x = Fin 0" "?xs = x # xs" using nodes x v by simp_all
    then show ?thesis using m x by simp
  qed
  then have r: "rising ?xs" and first: "grid_front g = Some (Fin 0)" and ne: "?xs \<noteq> []"
    by (cases ?xs; simp add: grid_front_def)+
  have "\<exists>node \<in> set ?xs. close_enough t node" if "t \<in> set ts" for t
  proof -
    have "\<exists>y \<in> set ?m. close_enough t y"
      using dedup_by_covers [of "sort ts" close_enough t] ok(1) that close_enough_refl' by (auto simp: list_all_iff)
    then show ?thesis using nodes by auto
  qed
  moreover have "length (grid_dt g) + 1 = grid_size g"
    using ne dt by (cases ?xs) (simp_all add: grid_size_def length_differences)
  moreover have "\<forall>d \<in> set (grid_dt g). f_less (Fin 0) d" using rising_differences [OF r] dt by simp
  ultimately show ?thesis using first rising_sorted [OF r] node_resolves [OF r] unfolding grid_size_def by blast
qed

lemma mandatory_grid_resolves_its_nodes_witness:
  "grid_front \<lparr>grid_times = [Fin 0, Fin 1, Fin 2], grid_dt = [Fin 1, Fin 1], grid_mandatory = [Fin 1, Fin 2]\<rparr> = Some (Fin 0) \<and>
   node_index \<lparr>grid_times = [Fin 0, Fin 1, Fin 2], grid_dt = [Fin 1, Fin 1], grid_mandatory = [Fin 1, Fin 2]\<rparr> (Fin 2) = Some (Inr 2)"
proof -
  let ?g = "\<lparr>grid_times = [Fin 0, Fin 1, Fin 2], grid_dt = [Fin 1, Fin 1], grid_mandatory = [Fin 1, Fin 2]\<rparr>"
  have "fl (42 / 2 ^ 52) = Fin (42 / 2 ^ 52)" "fl (84 / 2 ^ 52) = Fin (84 / 2 ^ 52)"
    using fl_binary_fraction [of 42 52] fl_binary_fraction [of 84 52] by simp_all
  then have apart: "\<not> close_enough (Fin 2) (Fin 1)"
    by (simp add: close_enough_def close_enough_n_def f_of_int f64_epsilon_def f_sub_def fl_one f_le_def)
  have "sort [Fin 2, Fin 1, Fin 2] = [Fin 1, Fin 2, Fin 2]" by (simp add: sort_key_def)
  then have g: "from_mandatory_times [Fin 2, Fin 1, Fin 2] = Inr ?g"
    by (simp add: from_mandatory_times_def f_le_def Let_def apart f_sub_def fl_one)
  have "fl v = Fin v" if "Fin v \<in> set [Fin 2, Fin 1, Fin 2]" for v
    using that fl_one fl_numeral [of "num.Bit0 num.One"] by auto
  from mandatory_grid_resolves_its_nodes [OF g this] show ?thesis by (auto simp: grid_size_def)
qed

section \<open>The nearest node\<close>

lemma fl_mono: "x \<le> y \<Longrightarrow> f_le (fl x) (fl y)"
  using rnd_mono [of x y] by (auto simp: fl_def Let_def f_le_def)

lemma fl_total: "f_less (fl x) (fl y) \<or> f_le (fl y) (fl x)"
  by (auto simp: fl_def Let_def f_le_def)

lemma f_less_le: "f_less x y \<Longrightarrow> f_le x y"
  by (simp add: f_le_def)

lemma f_abs_fl: "f_abs (fl x) = fl \<bar>x\<bar>"
proof (cases "0 \<le> x")
  case True
  with fl_nonneg [of x] show ?thesis by auto
next
  case False
  then have "f_neg (fl x) = Infinity \<or> (\<exists>y. 0 \<le> y \<and> f_neg (fl x) = Fin y)" using fl_nonneg [of "- x"] fl_minus [of x] by simp
  then show ?thesis using False fl_minus [of x] by (cases "fl x") auto
qed

lemma distance: "f_abs (f_sub (Fin t) (Fin x)) = fl \<bar>t - x\<bar>"
  by (simp add: f_sub_def f_abs_fl)

lemma f_le_trans: "f_le x y \<Longrightarrow> f_le y z \<Longrightarrow> f_le x z"
  by (cases x; cases y; cases z) (auto simp: f_le_def)

lemma ascending_nth: "sorted_wrt (<) xs \<Longrightarrow> a \<le> b \<Longrightarrow> b < length xs \<Longrightarrow> xs ! a \<le> xs ! b" for xs :: "'a :: linorder list"
  using sorted_nth_mono strict_sorted_imp_sorted by blast

text \<open>Of two neighbours on either side of the time, the one chosen is at the least rounded distance.\<close>

lemma nearer_side:
  assumes "\<And>j. j < length qs \<Longrightarrow> qs ! j < (t :: rat) \<longleftrightarrow> j < p" "sorted_wrt (<) qs" "0 < p" "p < length qs" "j < length qs"
  defines "k \<equiv> if f_less (fl \<bar>t - qs ! p\<bar>) (fl \<bar>t - qs ! (p - 1)\<bar>) then p else p - 1"
  shows "f_le (fl \<bar>t - qs ! k\<bar>) (fl \<bar>t - qs ! j\<bar>)"
proof -
  note mono = ascending_nth [OF assms(2)]
  have low: "qs ! (p - 1) < t" and high: "t \<le> qs ! p"
    using assms(1) [of "p - 1"] assms(1) [of p] assms(3,4) by auto
  have k: "f_le (fl \<bar>t - qs ! k\<bar>) (fl \<bar>t - qs ! p\<bar>)" "f_le (fl \<bar>t - qs ! k\<bar>) (fl \<bar>t - qs ! (p - 1)\<bar>)"
    using fl_total [of "\<bar>t - qs ! p\<bar>" "\<bar>t - qs ! (p - 1)\<bar>"] f_less_le fl_mono [of "\<bar>t - qs ! k\<bar>" "\<bar>t - qs ! k\<bar>"]
    by (auto simp: k_def)
  show ?thesis
  proof (cases "j < p")
    case True
    then have "qs ! j \<le> qs ! (p - 1)" using mono [of j "p - 1"] assms(3,4) by auto
    then have "\<bar>t - qs ! (p - 1)\<bar> \<le> \<bar>t - qs ! j\<bar>" using low by linarith
    then show ?thesis using k(2) fl_mono f_le_trans by blast
  next
    case False
    then have "qs ! p \<le> qs ! j" using mono [of p j] assms(5) by auto
    then have "\<bar>t - qs ! p\<bar> \<le> \<bar>t - qs ! j\<bar>" using high by linarith
    then show ?thesis using k(1) fl_mono f_le_trans by blast
  qed
qed

lemma finite_list: "list_all is_finite xs \<Longrightarrow> xs = map Fin (map f_rat xs)"
  by (induction xs) (auto elim: is_finite.elims)

text \<open>On a grid of ascending finite points the search always returns a position on the grid, and no point of the
  grid is nearer to the given time in the rounded distance than the point at that position.\<close>

lemma closest_node_is_nearest:
  assumes "sorted_wrt (<) (grid_times g)" "list_all is_finite (grid_times g)" "is_finite t" "j < grid_size g"
  shows "closest_index g t < grid_size g \<and>
    f_le (f_abs (f_sub t (grid_times g ! closest_index g t))) (f_abs (f_sub t (grid_times g ! j)))"
proof -
  define qs where "qs = map f_rat (grid_times g)"
  obtain u where u: "t = Fin u" using assms(3) by (metis is_finite.elims(2))
  have xs: "grid_times g = map Fin qs" unfolding qs_def by (rule finite_list [OF assms(2)])
  then have at: "grid_times g ! i = Fin (qs ! i)" if "i < length qs" for i using that by simp
  have sorted: "sorted_wrt (<) qs" using assms(1) unfolding xs by (simp add: sorted_wrt_map)
  have len: "grid_size g = length qs" by (simp add: grid_size_def xs)
  define p where "p = partition_point (\<lambda>x. f_less x t) (grid_times g)"
  have p: "p \<le> length qs" "\<And>i. i < length qs \<Longrightarrow> qs ! i < u \<longleftrightarrow> i < p"
    using search_splits [OF assms(1-3)] at unfolding p_def [symmetric] by (auto simp: xs u)
  note le = ascending_nth [OF sorted]
  have closest: "closest_index g t = (if p = 0 then 0 else if p = length qs then length qs - 1
      else if f_less (f_sub (grid_times g ! p) t) (f_sub t (grid_times g ! (p - 1))) then p else p - 1)"
    unfolding closest_index_def p_def [symmetric] Let_def by (simp add: xs)
  consider "p = 0" | "p = length qs" "0 < p" | "0 < p" "p < length qs" using p(1) by linarith
  then have "closest_index g t < length qs \<and>
    f_le (fl \<bar>u - qs ! closest_index g t\<bar>) (fl \<bar>u - qs ! j\<bar>)"
  proof cases
    case 1
    then have "u \<le> qs ! 0" "qs ! 0 \<le> qs ! j" using p(2) [of 0] le [of 0 j] assms(4) len by (cases "qs = []"; simp)+
    then have "\<bar>u - qs ! 0\<bar> \<le> \<bar>u - qs ! j\<bar>" by linarith
    moreover have "closest_index g t = 0" using 1 closest by simp
    ultimately show ?thesis using fl_mono assms(4) len by auto
  next
    case 2
    then have "qs ! (p - 1) < u" "qs ! j \<le> qs ! (p - 1)" using p(2) [of "p - 1"] le [of j "p - 1"] assms(4) len by auto
    then have "\<bar>u - qs ! (p - 1)\<bar> \<le> \<bar>u - qs ! j\<bar>" by linarith
    moreover have "closest_index g t = p - 1" using 2 closest by simp
    ultimately show ?thesis using fl_mono 2 by auto
  next
    case 3
    have "f_sub (Fin (qs ! p)) t = fl \<bar>u - qs ! p\<bar>" "f_sub t (Fin (qs ! (p - 1))) = fl \<bar>u - qs ! (p - 1)\<bar>"
      using p(2) [of p] p(2) [of "p - 1"] 3 less_imp_diff_less [OF 3(2), of 1] by (auto simp: u f_sub_def abs_if)
    then have "closest_index g t = (if f_less (fl \<bar>u - qs ! p\<bar>) (fl \<bar>u - qs ! (p - 1)\<bar>) then p else p - 1)"
      using 3 closest at by simp
    then show ?thesis using nearer_side [OF p(2) sorted 3, of j] assms(4) len 3 by auto
  qed
  then show ?thesis using at assms(4) by (simp add: len u distance)
qed

section \<open>Where the regular grid ends\<close>

lemma round_half_even_near: "\<bar>y - of_int i\<bar> < 1 / 2 \<Longrightarrow> round_half_even y = i"
proof -
  assume a: "\<bar>y - of_int i\<bar> < 1 / 2"
  have "\<bar>of_int (round_half_even y) - of_int i\<bar> < (1 :: rat)" using a round_half_even_error [of y] by linarith
  then have "\<bar>round_half_even y - i\<bar> < 1" by (simp flip: of_int_diff of_int_abs)
  then show "round_half_even y = i" by simp
qed

text \<open>The last point of a regular grid is a rounded product and need not be its end.\<close>

lemma regular_grid_misses_its_end:
  "\<exists>g. time_grid_new (Fin 1) 49 = Inr g \<and> grid_back g = Some (Fin (1 - 1 / 2 ^ 53)) \<and> grid_mandatory g = [Fin 1]"
proof -
  have "binade (1 / 49) = - 6" by (rule binade_eq) (simp_all add: power_int_minus)
  then have q: "fl (1 / 49) = Fin (of_int (round_half_even (2 ^ 58 / 49)) / 2 ^ 58)"
    by (simp add: fl_small rnd_pos quantum_def power_int_minus field_simps)
  have "round_half_even (2 ^ 58 / 49) = 5882252574524729" by (rule round_half_even_near) simp
  then have dt: "fl (1 / 49) = Fin (5882252574524729 / 2 ^ 58)" using q by simp
  have "binade (5882252574524729 / 2 ^ 58 * 49) = - 1" by (rule binade_eq) (simp_all add: power_int_minus)
  then have "fl (5882252574524729 / 2 ^ 58 * 49) =
      Fin (of_int (round_half_even (5882252574524729 / 2 ^ 58 * 49 * 2 ^ 53)) / 2 ^ 53)"
    by (simp add: fl_small rnd_pos quantum_def power_int_minus field_simps)
  moreover have "round_half_even (5882252574524729 / 2 ^ 58 * 49 * 2 ^ 53) = 2 ^ 53 - 1"
    by (rule round_half_even_near) simp
  ultimately have last: "f_mul (fl (1 / 49)) (Fin 49) = Fin (1 - 1 / 2 ^ 53)" by (simp add: dt)
  have "f_of_int 49 = Fin 49" using f_of_int [of 49] by simp
  then show ?thesis using last by (simp add: time_grid_new_def Let_def grid_back_def last_map)
qed

end
