(* ===== verification/Trees.thy ===== *)
theory Trees
  imports Grid_Layout Time_Grid
begin

text \<open>
  \<open>methods/lattices\<close>: the \<open>Tree\<close> trait (\<open>tree.rs\<close>) and its implementations, the recombining trinomial tree
  (\<open>trinomialtree.rs\<close>), the binomial tree of Cox, Ross and Rubinstein (\<open>binomialtree.rs\<close>) and the product of two
  trinomial trees (\<open>treelattice2d.rs\<close>). A stochastic process is a trait object: a record of its methods.
  Indices and conversions are those of the code: \<open>i32\<close> with its overflow check, \<open>usize\<close>, and the casts between them.
\<close>

section \<open>The trait\<close>

record tree =
  branches :: nat
  tree_columns :: nat
  nodes :: "nat \<Rightarrow> nat option"
  node_value :: "nat \<Rightarrow> nat \<Rightarrow> f64 option"
  descendant :: "nat \<Rightarrow> nat \<Rightarrow> nat \<Rightarrow> nat option"
  probability :: "nat \<Rightarrow> nat \<Rightarrow> nat \<Rightarrow> f64 option"

datatype tree_error =
  NullTimeSteps | NegativeProbability | DifferentColumns | NoTreeSteps | NonPositiveMaturity | NonPositiveVolatility |
  ProbabilityOutOfRange | ProcessFailed

type_synonym 'a attempt = "(tree_error + 'a) option"

text \<open>The \<open>?\<close> operator, and the element of a vector at an index.\<close>

definition question :: "('e + 'a) option \<Rightarrow> ('a \<Rightarrow> ('e + 'b) option) \<Rightarrow> ('e + 'b) option" where
  "question r f = (case r of None \<Rightarrow> None | Some (Inl e) \<Rightarrow> Some (Inl e) | Some (Inr x) \<Rightarrow> f x)"

definition slot :: "'a list \<Rightarrow> nat \<Rightarrow> 'a option" where
  "slot xs i = (if i < length xs then Some (xs ! i) else None)"

definition as_i32 :: "nat \<Rightarrow> int" where
  "as_i32 n = (let m = int n mod 2 ^ 32 in if m < 2 ^ 31 then m else m - 2 ^ 32)"

fun f_floor :: "f64 \<Rightarrow> f64" where
  "f_floor (Fin x) = Fin (of_int \<lfloor>x\<rfloor>)"
| "f_floor x = x"

section \<open>Branchings of a trinomial slice\<close>

record branching =
  centres :: "int list"
  weights :: "f64 list list"
  k_min :: int
  j_min :: int
  k_max :: int
  j_max :: int

definition branching_new :: branching where
  "branching_new = \<lparr>centres = [], weights = [[], [], []], k_min = 2147483647, j_min = 2147483647,
     k_max = - 2147483648, j_max = - 2147483648\<rparr>"

definition branching_descendant :: "branching \<Rightarrow> nat \<Rightarrow> nat \<Rightarrow> nat option" where
  "branching_descendant b i branch = do {
     k \<leftarrow> slot (centres b) i;
     k \<leftarrow> i32 (k - j_min b);
     k \<leftarrow> i32 (k - 1);
     k \<leftarrow> i32 (k + as_i32 branch);
     Some (as_usize k)
   }"

definition branching_probability :: "branching \<Rightarrow> nat \<Rightarrow> nat \<Rightarrow> f64 option" where
  "branching_probability b i branch = do {
     row \<leftarrow> slot (weights b) branch;
     slot row i
   }"

definition branching_size :: "branching \<Rightarrow> nat option" where
  "branching_size b = do {
     n \<leftarrow> i32 (j_max b - j_min b);
     n \<leftarrow> i32 (n + 1);
     Some (as_usize n)
   }"

definition branching_add :: "branching \<Rightarrow> int \<Rightarrow> f64 \<Rightarrow> f64 \<Rightarrow> f64 \<Rightarrow> branching option" where
  "branching_add b k p1 p2 p3 = do {
     let lo = min (k_min b) k; hi = max (k_max b) k in do {
       j_lo \<leftarrow> i32 (lo - 1);
       j_hi \<leftarrow> i32 (hi + 1);
       Some \<lparr>centres = centres b @ [k], weights = map2 (\<lambda>row p. row @ [p]) (weights b) [p1, p2, p3],
         k_min = lo, j_min = j_lo, k_max = hi, j_max = j_hi\<rparr>
     }
   }"

section \<open>Building the trinomial tree\<close>

record tree_process =
  process_x0 :: "f64 attempt"
  process_expectation :: "f64 \<Rightarrow> f64 \<Rightarrow> f64 \<Rightarrow> f64 attempt"
  process_variance :: "f64 \<Rightarrow> f64 \<Rightarrow> f64 \<Rightarrow> f64 attempt"

record trinomial =
  branchings :: "branching list"
  root_value :: f64
  spacings :: "f64 list"
  tree_grid :: time_grid
  slices :: nat

definition floor_threshold :: f64 where
  "floor_threshold = fl (1 / 100)"

definition spacing_step :: "f64 \<Rightarrow> f64 \<Rightarrow> f64 \<Rightarrow> f64 \<Rightarrow> f64 \<times> bool" where
  "spacing_step dt_max dx_floor dt v2 =
     (let natural = f_mul (f_sqrt v2) (f_sqrt (Fin 3));
          dx_next = (if f_less dt (f_mul floor_threshold dt_max) then f_max natural dx_floor else natural)
      in (dx_next, f_less natural dx_next))"

definition dx_schedule :: "f64 list \<Rightarrow> f64 list \<Rightarrow> (f64 list \<times> bool list) option" where
  "dx_schedule dts v2s =
     (let dt_max = fold (\<lambda>x acc. f_max acc x) dts (Fin 0);
          dx_floor = f_sqrt (f_mul (Fin 3) (fold (\<lambda>x acc. f_max acc x) v2s (Fin 0)));
          steps = map2 (spacing_step dt_max dx_floor) dts v2s
      in if length v2s < length dts then None else Some (Fin 0 # map fst steps, map snd steps))"

text \<open>The bump that keeps the underlying positive; it stops, at the latest, on an overflow.\<close>

function bump_up :: "f64 \<Rightarrow> f64 \<Rightarrow> int \<Rightarrow> bool \<Rightarrow> (int \<times> bool) option" where
  "bump_up x0 dx k bumped =
     (if \<not> i32_range (k - 1) then None
      else if f_le (f_add x0 (f_mul (f_of_int (k - 1)) dx)) (Fin 0) then
        (if \<not> i32_range (k + 1) then None else bump_up x0 dx (k + 1) True)
      else Some (k, bumped))"
  by pat_completeness auto
termination
  by (relation "measure (\<lambda>(x0, dx, k, bumped). nat (2 ^ 31 - k))") (auto simp: i32_range_def)

declare bump_up.simps [simp del]

record slice_data =
  slice_time :: f64
  slice_dt :: f64
  slice_variance :: f64
  slice_dx :: f64
  next_dx :: f64
  next_floored :: bool

text \<open>The weights of the two regimes.\<close>

definition floored_weights :: "f64 \<Rightarrow> f64 \<Rightarrow> f64 \<Rightarrow> f64 \<times> f64 \<times> f64" where
  "floored_weights v2 e dx_next =
     (let dx2 = f_mul dx_next dx_next; e2 = f_mul e e
      in (f_div (f_sub (f_add v2 e2) (f_mul e dx_next)) (f_mul (Fin 2) dx2),
          f_sub (Fin 1) (f_div (f_add v2 e2) dx2),
          f_div (f_add (f_add v2 e2) (f_mul e dx_next)) (f_mul (Fin 2) dx2)))"

definition classical_weights :: "f64 \<Rightarrow> f64 \<Rightarrow> f64 \<Rightarrow> f64 \<times> f64 \<times> f64" where
  "classical_weights v2 v e =
     (let e2 = f_mul e e; e3 = f_mul e (f_sqrt (Fin 3))
      in (f_div (f_sub (f_add (Fin 1) (f_div e2 v2)) (f_div e3 v)) (Fin 6),
          f_div (f_sub (Fin 2) (f_div e2 v2)) (Fin 3),
          f_div (f_add (f_add (Fin 1) (f_div e2 v2)) (f_div e3 v)) (Fin 6)))"

definition branch_node :: "tree_process \<Rightarrow> bool \<Rightarrow> f64 \<Rightarrow> slice_data \<Rightarrow> int \<Rightarrow> (int \<times> f64 \<times> f64 \<times> f64) attempt" where
  "branch_node p is_positive x0 s j =
     (let v2 = slice_variance s; x = f_add x0 (f_mul (f_of_int j) (slice_dx s))
      in question (process_expectation p (slice_time s) x (slice_dt s)) (\<lambda>m.
        let k = f_to_i32 (f_floor (f_add (f_div (f_sub m x0) (next_dx s)) (Fin (1 / 2))))
        in case (if is_positive then bump_up x0 (next_dx s) k False else Some (k, False)) of
             None \<Rightarrow> None
           | Some (k, bumped) \<Rightarrow>
               let e = f_sub m (f_add x0 (f_mul (f_of_int k) (next_dx s)));
                   (p1, p2, p3) = (if next_floored s then floored_weights v2 e (next_dx s)
                                   else classical_weights v2 (f_sqrt v2) e)
               in if \<not> next_floored s \<and> \<not> bumped \<and> \<not> (f_le (Fin 0) p1 \<and> f_le (Fin 0) p2 \<and> f_le (Fin 0) p3)
                  then Some (Inl NegativeProbability)
                  else Some (Inr (k, p1, p2, p3))))"

fun branch_nodes :: "tree_process \<Rightarrow> bool \<Rightarrow> f64 \<Rightarrow> slice_data \<Rightarrow> int list \<Rightarrow> branching \<Rightarrow> branching attempt" where
  "branch_nodes p is_positive x0 s [] b = Some (Inr b)"
| "branch_nodes p is_positive x0 s (j # js) b =
     question (branch_node p is_positive x0 s j) (\<lambda>(k, p1, p2, p3).
       case branching_add b k p1 p2 p3 of None \<Rightarrow> None | Some b \<Rightarrow> branch_nodes p is_positive x0 s js b)"

fun branch_slices :: "tree_process \<Rightarrow> bool \<Rightarrow> f64 \<Rightarrow> slice_data list \<Rightarrow> int \<Rightarrow> int \<Rightarrow> branching list attempt" where
  "branch_slices p is_positive x0 [] lo hi = Some (Inr [])"
| "branch_slices p is_positive x0 (s # ss) lo hi =
     question (branch_nodes p is_positive x0 s [lo..hi] branching_new) (\<lambda>b.
       question (branch_slices p is_positive x0 ss (j_min b) (j_max b)) (\<lambda>bs. Some (Inr (b # bs))))"

text \<open>The steps and variances of the grid.\<close>

fun step_variances :: "tree_process \<Rightarrow> time_grid \<Rightarrow> nat list \<Rightarrow> (f64 \<times> f64) list attempt" where
  "step_variances p g [] = Some (Inr [])"
| "step_variances p g (i # is) =
     (case (grid_dt_at g i, grid_at g i) of
        (Some dt, Some t) \<Rightarrow>
          question (process_variance p t (Fin 0) dt) (\<lambda>v2.
            question (step_variances p g is) (\<lambda>rest. Some (Inr ((dt, v2) # rest))))
      | _ \<Rightarrow> None)"

definition slice_list :: "time_grid \<Rightarrow> (f64 \<times> f64) list \<Rightarrow> f64 list \<Rightarrow> bool list \<Rightarrow> slice_data list" where
  "slice_list g steps dx floored =
     map (\<lambda>i. \<lparr>slice_time = grid_times g ! i, slice_dt = fst (steps ! i), slice_variance = snd (steps ! i),
                slice_dx = dx ! i, next_dx = dx ! (i + 1), next_floored = floored ! i\<rparr>) [0..<length steps]"

definition trinomial_from :: "tree_process \<Rightarrow> time_grid \<Rightarrow> bool \<Rightarrow> f64 \<Rightarrow> (f64 \<times> f64) list \<Rightarrow> trinomial attempt" where
  "trinomial_from p g is_positive x0 steps =
     (case dx_schedule (map fst steps) (map snd steps) of
        None \<Rightarrow> None
      | Some (dx, floored) \<Rightarrow>
          question (branch_slices p is_positive x0 (slice_list g steps dx floored) 0 0) (\<lambda>bs.
            Some (Inr \<lparr>branchings = bs, root_value = x0, spacings = dx, tree_grid = g, slices = grid_size g\<rparr>)))"

definition trinomial_new :: "tree_process \<Rightarrow> time_grid \<Rightarrow> bool \<Rightarrow> trinomial attempt" where
  "trinomial_new p g is_positive =
     question (process_x0 p) (\<lambda>x0.
       case usize_sub (grid_size g) 1 of
         None \<Rightarrow> None
       | Some n \<Rightarrow>
           if n = 0 then Some (Inl NullTimeSteps)
           else question (step_variances p g [0..<n]) (trinomial_from p g is_positive x0))"

definition trinomial_size :: "trinomial \<Rightarrow> nat \<Rightarrow> nat option" where
  "trinomial_size t i = (if i = 0 then Some 1 else do { b \<leftarrow> slot (branchings t) (i - 1); branching_size b })"

definition trinomial_value :: "trinomial \<Rightarrow> nat \<Rightarrow> nat \<Rightarrow> f64 option" where
  "trinomial_value t i j =
     (if i = 0 then Some (root_value t)
      else do {
        b \<leftarrow> slot (branchings t) (i - 1);
        dx \<leftarrow> slot (spacings t) i;
        Some (f_add (root_value t) (f_mul (f_add (f_of_int (j_min b)) (f_of_int (int j))) dx))
      })"

definition trinomial_tree :: "trinomial \<Rightarrow> tree" where
  "trinomial_tree t = \<lparr>branches = 3, tree_columns = slices t, nodes = trinomial_size t, node_value = trinomial_value t,
     descendant = (\<lambda>i j branch. do { b \<leftarrow> slot (branchings t) i; branching_descendant b j branch }),
     probability = (\<lambda>i j branch. do { b \<leftarrow> slot (branchings t) i; branching_probability b j branch })\<rparr>"

section \<open>The binomial tree\<close>

record crr =
  crr_x0 :: f64
  crr_dx :: f64
  crr_pu :: f64
  crr_pd :: f64
  crr_columns :: nat

definition crr_new :: "f64 \<Rightarrow> f64 \<Rightarrow> f64 \<Rightarrow> f64 \<Rightarrow> f64 \<Rightarrow> nat \<Rightarrow> crr attempt" where
  "crr_new x0 r q sigma end_t steps =
     (if \<not> 0 < steps then Some (Inl NoTreeSteps)
      else if \<not> f_less (Fin 0) end_t then Some (Inl NonPositiveMaturity)
      else if \<not> f_less (Fin 0) sigma then Some (Inl NonPositiveVolatility)
      else let dt = f_div end_t (f_of_int (int steps));
               drift = f_mul (f_sub (f_sub r q) (f_mul (f_mul (Fin (1 / 2)) sigma) sigma)) dt;
               dx = f_mul sigma (f_sqrt dt);
               pu = f_add (Fin (1 / 2)) (f_div (f_mul (Fin (1 / 2)) drift) dx)
        in if \<not> (f_le (Fin 0) pu \<and> f_le pu (Fin 1)) then Some (Inl ProbabilityOutOfRange)
           else case usize (steps + 1) of
                  None \<Rightarrow> None
                | Some n \<Rightarrow> Some (Inr \<lparr>crr_x0 = x0, crr_dx = dx, crr_pu = pu, crr_pd = f_sub (Fin 1) pu, crr_columns = n\<rparr>))"

text \<open>The exponential is the platform's: a parameter.\<close>

definition crr_value :: "(f64 \<Rightarrow> f64) \<Rightarrow> crr \<Rightarrow> nat \<Rightarrow> nat \<Rightarrow> f64 option" where
  "crr_value f_exp t i j = do {
     jumps \<leftarrow> i64 (2 * as_i64 j);
     jumps \<leftarrow> i64 (jumps - as_i64 i);
     Some (f_mul (crr_x0 t) (f_exp (f_mul (f_of_int jumps) (crr_dx t))))
   }"

definition crr_tree :: "(f64 \<Rightarrow> f64) \<Rightarrow> crr \<Rightarrow> tree" where
  "crr_tree f_exp t = \<lparr>branches = 2, tree_columns = crr_columns t, nodes = (\<lambda>i. usize (i + 1)), node_value = crr_value f_exp t,
     descendant = (\<lambda>i j branch. usize (j + branch)),
     probability = (\<lambda>i j branch. Some (if branch = 1 then crr_pu t else crr_pd t))\<rparr>"

section \<open>The product of two trinomial trees\<close>

record two_factor =
  factor1 :: trinomial
  factor2 :: trinomial
  factor_rho :: f64
  factor_m :: "f64 list list"

definition two_factor_new :: "trinomial \<Rightarrow> trinomial \<Rightarrow> f64 \<Rightarrow> tree_error + two_factor" where
  "two_factor_new t1 t2 correlation =
     (if slices t1 \<noteq> slices t2 then Inl DifferentColumns
      else Inr \<lparr>factor1 = t1, factor2 = t2, factor_rho = f_abs correlation,
        factor_m = (if f_less correlation (Fin 0)
          then [[Fin (-1), Fin (-4), Fin 5], [Fin (-4), Fin 8, Fin (-4)], [Fin 5, Fin (-4), Fin (-1)]]
          else [[Fin 5, Fin (-4), Fin (-1)], [Fin (-4), Fin 8, Fin (-4)], [Fin (-1), Fin (-4), Fin 5]])\<rparr>)"

text \<open>The remainder and the quotient panic on an empty slice.\<close>

definition split_index :: "two_factor \<Rightarrow> nat \<Rightarrow> nat \<Rightarrow> (nat \<times> nat) option" where
  "split_index t i j = do {
     modulo \<leftarrow> trinomial_size (factor1 t) i;
     if modulo = 0 then None else Some (j mod modulo, j div modulo)
   }"

definition two_factor_state :: "two_factor \<Rightarrow> nat \<Rightarrow> nat \<Rightarrow> (f64 \<times> f64) option" where
  "two_factor_state t i j = do {
     (j1, j2) \<leftarrow> split_index t i j;
     x \<leftarrow> trinomial_value (factor1 t) i j1;
     y \<leftarrow> trinomial_value (factor2 t) i j2;
     Some (x, y)
   }"

definition two_factor_size :: "two_factor \<Rightarrow> nat \<Rightarrow> nat option" where
  "two_factor_size t i = do {
     n1 \<leftarrow> trinomial_size (factor1 t) i;
     n2 \<leftarrow> trinomial_size (factor2 t) i;
     usize (n1 * n2)
   }"

definition two_factor_descendant :: "two_factor \<Rightarrow> nat \<Rightarrow> nat \<Rightarrow> nat \<Rightarrow> nat option" where
  "two_factor_descendant t i j branch = do {
     (j1, j2) \<leftarrow> split_index t i j;
     stride \<leftarrow> trinomial_size (factor1 t) (i + 1);
     d1 \<leftarrow> descendant (trinomial_tree (factor1 t)) i j1 (branch mod 3);
     d2 \<leftarrow> descendant (trinomial_tree (factor2 t)) i j2 (branch div 3);
     offset \<leftarrow> usize (d2 * stride);
     usize (d1 + offset)
   }"

definition two_factor_probability :: "two_factor \<Rightarrow> nat \<Rightarrow> nat \<Rightarrow> nat \<Rightarrow> f64 option" where
  "two_factor_probability t i j branch = do {
     (j1, j2) \<leftarrow> split_index t i j;
     p1 \<leftarrow> probability (trinomial_tree (factor1 t)) i j1 (branch mod 3);
     p2 \<leftarrow> probability (trinomial_tree (factor2 t)) i j2 (branch div 3);
     row \<leftarrow> slot (factor_m t) (branch mod 3);
     m \<leftarrow> slot row (branch div 3);
     Some (f_add (f_mul p1 p2) (f_div (f_mul (factor_rho t) m) (Fin 36)))
   }"

definition two_factor_tree :: "two_factor \<Rightarrow> tree" where
  "two_factor_tree t = \<lparr>branches = 9, tree_columns = slices (factor1 t), nodes = two_factor_size t,
     node_value = (\<lambda>i j. Some (Fin 0)), descendant = two_factor_descendant t, probability = two_factor_probability t\<rparr>"

text \<open>
  The contract a lattice needs of its tree, as a locale: a root of one node, and from every node of a slice
  descendants that lie on the next slice. The three trees of the library keep it.
\<close>

section \<open>The contract\<close>

locale tree_contract =
  fixes built :: "tree \<Rightarrow> bool"
  assumes root: "built t \<Longrightarrow> nodes t 0 = Some 1"
    and down: "built t \<Longrightarrow> i + 1 < tree_columns t \<Longrightarrow> nodes t i = Some m \<Longrightarrow> nodes t (i + 1) = Some n \<Longrightarrow>
      j < m \<Longrightarrow> branch < branches t \<Longrightarrow>
      (\<exists>d < n. descendant t i j branch = Some d) \<and> (\<exists>p. probability t i j branch = Some p)"

section \<open>Conversions\<close>

lemma as_usize_nat [simp]: "0 \<le> n \<Longrightarrow> n < 2 ^ 64 \<Longrightarrow> as_usize n = nat n"
  by (simp add: as_usize_def)

lemma as_i32_small [simp]: "n < 2 ^ 31 \<Longrightarrow> as_i32 n = int n"
proof -
  assume "n < 2 ^ 31"
  then have "int n < 2 ^ 31" by (metis of_nat_less_numeral_power_cancel_iff)
  then show ?thesis by (simp add: as_i32_def)
qed

lemma question_Some: "question r f = Some (Inr y) \<longleftrightarrow> (\<exists>x. r = Some (Inr x) \<and> f x = Some (Inr y))"
  by (auto simp: question_def split: option.splits sum.splits)

lemma slot_Some [simp]: "slot xs i = Some x \<longleftrightarrow> i < length xs \<and> x = xs ! i"
  by (auto simp: slot_def)

section \<open>Branchings\<close>

definition branching_ok :: "branching \<Rightarrow> bool" where
  "branching_ok b \<longleftrightarrow>
     (\<forall>k \<in> set (centres b). k_min b \<le> k \<and> k \<le> k_max b) \<and>
     (centres b \<noteq> [] \<longrightarrow> j_min b = k_min b - 1 \<and> j_max b = k_max b + 1) \<and>
     length (weights b) = 3 \<and> (\<forall>row \<in> set (weights b). length row = length (centres b))"

lemma branching_new_ok: "branching_ok branching_new"
  by (simp add: branching_ok_def branching_new_def)

lemma branching_add_ok:
  assumes "branching_ok b" "branching_add b k p1 p2 p3 = Some b'"
  shows "branching_ok b' \<and> length (centres b') = length (centres b) + 1"
proof -
  have "length (weights b) = 3" using assms(1) by (simp add: branching_ok_def)
  then obtain r1 r2 r3 where r: "weights b = [r1, r2, r3]" by (auto simp: numeral_3_eq_3 length_Suc_conv)
  show ?thesis using assms r
    by (auto simp: branching_add_def branching_ok_def Let_def min.coboundedI1 max.coboundedI1 split: option.splits bind_splits)
qed

lemma branch_nodes_ok:
  assumes "branch_nodes p pos x0 s js b = Some (Inr b')" "branching_ok b"
  shows "branching_ok b' \<and> length (centres b') = length (centres b) + length js"
  using assms
proof (induction js arbitrary: b)
  case (Cons j js)
  then obtain k p1 p2 p3 c where
    "branching_add b k p1 p2 p3 = Some c" "branch_nodes p pos x0 s js c = Some (Inr b')"
    by (auto simp: question_Some split: option.splits)
  then show ?case using Cons.IH [of c] branching_add_ok [of b k p1 p2 p3 c] Cons.prems(2) by simp
qed simp

lemma branching_size_width:
  "branching_size b = Some n \<Longrightarrow> j_min b \<le> j_max b \<Longrightarrow> int n = j_max b - j_min b + 1"
  by (auto simp: branching_size_def i32_range_def split: bind_splits)

text \<open>From a centre the three branches go to the nodes around it.\<close>

lemma branching_down:
  assumes ok: "branching_ok b" and n: "branching_size b = Some n" and j: "j < length (centres b)" and branch: "branch < 3"
  shows "\<exists>d < n. branching_descendant b j branch = Some d" "\<exists>p. branching_probability b j branch = Some p"
proof -
  let ?k = "centres b ! j"
  have k: "j_min b + 1 \<le> ?k" "?k + 1 \<le> j_max b" using ok j by (auto simp: branching_ok_def)
  then have w: "int n = j_max b - j_min b + 1" using branching_size_width [OF n] by simp
  have range: "i32_range (j_max b - j_min b + 1)" using n by (auto simp: branching_size_def split: bind_splits)
  let ?d = "?k - j_min b - 1 + int branch"
  have d: "0 \<le> ?d" "?d < int n" using k w branch by auto
  have "branching_descendant b j branch = Some (nat ?d)"
    using j k range branch d by (auto simp: branching_descendant_def i32_range_def i32_def slot_def)
  then show "\<exists>d < n. branching_descendant b j branch = Some d" using d by auto
  have "length (weights b) = 3" "\<forall>row \<in> set (weights b). length row = length (centres b)"
    using ok by (simp_all add: branching_ok_def)
  then show "\<exists>p. branching_probability b j branch = Some p"
    using j branch by (simp add: branching_probability_def slot_def)
qed

section \<open>Trinomial trees\<close>

text \<open>The branchings of consecutive slices: each has as many centres as the one before has nodes.\<close>

fun linked :: "nat \<Rightarrow> branching list \<Rightarrow> bool" where
  "linked n [] = True"
| "linked n (b # bs) = (branching_ok b \<and> length (centres b) = n \<and> linked (nat (j_max b - j_min b + 1)) bs)"

lemma branch_slices_linked:
  "branch_slices p pos x0 ss lo hi = Some (Inr bs) \<Longrightarrow> linked (nat (hi - lo + 1)) bs \<and> length bs = length ss"
proof (induction ss arbitrary: lo hi bs)
  case (Cons s ss)
  then obtain b bs' where b: "branch_nodes p pos x0 s [lo..hi] branching_new = Some (Inr b)"
      "branch_slices p pos x0 ss (j_min b) (j_max b) = Some (Inr bs')" "bs = b # bs'"
    by (auto simp: question_Some)
  then show ?case using Cons.IH branch_nodes_ok [OF b(1) branching_new_ok] by (simp add: branching_new_def)
qed simp

lemma linked_nth:
  assumes "linked n bs" "i < length bs" "0 < n"
  shows "branching_ok (bs ! i) \<and> j_min (bs ! i) \<le> j_max (bs ! i) \<and>
    length (centres (bs ! i)) = (if i = 0 then n else nat (j_max (bs ! (i - 1)) - j_min (bs ! (i - 1)) + 1))"
  using assms
proof (induction bs arbitrary: n i)
  case (Cons b bs)
  then have "centres b \<noteq> []" "branching_ok b" by auto
  moreover from this obtain k where "k \<in> set (centres b)" by (metis list.set_sel(1))
  ultimately have w: "j_min b \<le> j_max b" by (fastforce simp: branching_ok_def)
  show ?case
  proof (cases i)
    case (Suc k)
    then show ?thesis using Cons.IH [of "nat (j_max b - j_min b + 1)" k] Cons.prems w by (cases k) auto
  qed (use Cons.prems w in simp)
qed simp

definition trinomial_built :: "tree \<Rightarrow> bool" where
  "trinomial_built t \<longleftrightarrow> (\<exists>p g pos tri. trinomial_new p g pos = Some (Inr tri) \<and> t = trinomial_tree tri)"

lemma step_variances_length: "step_variances p g is = Some (Inr xs) \<Longrightarrow> length xs = length is"
  by (induction "is" arbitrary: xs) (auto simp: question_Some split: option.splits)

lemma trinomial_new_linked:
  assumes "trinomial_new p g pos = Some (Inr tri)"
  shows "linked 1 (branchings tri) \<and> length (branchings tri) + 1 = slices tri"
proof -
  from assms obtain x0 n steps where n: "usize_sub (grid_size g) 1 = Some n"
      "step_variances p g [0..<n] = Some (Inr steps)" "trinomial_from p g pos x0 steps = Some (Inr tri)"
    unfolding trinomial_new_def by (auto simp: question_Some split: option.split_asm if_split_asm)
  from n(3) obtain dx floored bs where b: "branch_slices p pos x0 (slice_list g steps dx floored) 0 0 = Some (Inr bs)"
      "tri = \<lparr>branchings = bs, root_value = x0, spacings = dx, tree_grid = g, slices = grid_size g\<rparr>"
    unfolding trinomial_from_def by (auto simp: question_Some split: option.split_asm)
  have "length steps = n" using step_variances_length [OF n(2)] by simp
  moreover have "grid_size g = n + 1" using n(1) by (auto simp: usize_sub_def split: if_splits)
  ultimately show ?thesis using branch_slices_linked [OF b(1)] b(2) by (simp add: slice_list_def)
qed

lemma trinomial_size_centres:
  assumes "linked 1 (branchings tri)" "i < length (branchings tri)" "trinomial_size tri i = Some m"
  shows "length (centres (branchings tri ! i)) = m"
proof (cases "i = 0")
  case False
  let ?b = "branchings tri ! (i - 1)"
  have "i - 1 < length (branchings tri)" using assms(2) by simp
  then have "branching_size ?b = Some m" using assms(3) False by (auto simp: trinomial_size_def split: bind_splits)
  moreover have "j_min ?b \<le> j_max ?b" using linked_nth [OF assms(1), of "i - 1"] assms(2) by simp
  ultimately have "int m = j_max ?b - j_min ?b + 1" by (rule branching_size_width)
  then show ?thesis using linked_nth [OF assms(1,2)] False by simp
qed (use assms linked_nth [OF assms(1,2)] in \<open>simp add: trinomial_size_def\<close>)

lemma trinomial_down:
  assumes "linked 1 (branchings tri)" "i < length (branchings tri)"
    "trinomial_size tri i = Some m" "trinomial_size tri (i + 1) = Some n" "j < m" "branch < 3"
  shows "(\<exists>d < n. descendant (trinomial_tree tri) i j branch = Some d) \<and>
    (\<exists>p. probability (trinomial_tree tri) i j branch = Some p)"
proof -
  let ?b = "branchings tri ! i"
  have "branching_ok ?b" using linked_nth [OF assms(1,2)] by simp
  moreover have "branching_size ?b = Some n" using assms(2,4) by (auto simp: trinomial_size_def slot_def)
  moreover have "j < length (centres ?b)" using trinomial_size_centres [OF assms(1-3)] assms(5) by simp
  ultimately show ?thesis using branching_down [of ?b n j branch] assms(2,6) by (auto simp: trinomial_tree_def slot_def)
qed

interpretation trinomial: tree_contract trinomial_built
proof
  fix t i m n j branch
  assume "trinomial_built t"
  then obtain p g pos tri where tri: "trinomial_new p g pos = Some (Inr tri)" and t: "t = trinomial_tree tri"
    unfolding trinomial_built_def by blast
  show "nodes t 0 = Some 1" by (simp add: t trinomial_tree_def trinomial_size_def)
  note l = trinomial_new_linked [OF tri]
  assume "i + 1 < tree_columns t" "nodes t i = Some m" "nodes t (i + 1) = Some n" "j < m" "branch < branches t"
  then show "(\<exists>d < n. descendant t i j branch = Some d) \<and> (\<exists>p. probability t i j branch = Some p)"
    using trinomial_down [of tri i m n j branch] l unfolding t by (simp add: trinomial_tree_def)
qed

section \<open>The binomial tree\<close>

definition crr_built :: "tree \<Rightarrow> bool" where
  "crr_built t \<longleftrightarrow> (\<exists>f_exp x0 r q sigma end_t steps c. crr_new x0 r q sigma end_t steps = Some (Inr c) \<and> t = crr_tree f_exp c)"

interpretation binomial: tree_contract crr_built
  by unfold_locales (auto simp: crr_built_def crr_tree_def usize_def split: if_splits)

section \<open>The product tree\<close>

definition product_built :: "tree \<Rightarrow> bool" where
  "product_built t \<longleftrightarrow> (\<exists>p1 g1 pos1 t1 p2 g2 pos2 t2 rho tf.
     trinomial_new p1 g1 pos1 = Some (Inr t1) \<and> trinomial_new p2 g2 pos2 = Some (Inr t2) \<and>
     two_factor_new t1 t2 rho = Inr tf \<and> t = two_factor_tree tf)"

lemma two_factor_new_fields:
  assumes "two_factor_new t1 t2 rho = Inr tf"
  shows "factor1 tf = t1 \<and> factor2 tf = t2 \<and> slices t1 = slices t2 \<and>
    length (factor_m tf) = 3 \<and> (\<forall>row \<in> set (factor_m tf). length row = 3)"
  using assms by (auto simp: two_factor_new_def split: if_splits)

lemma joint_index: "j < m1 * m2 \<Longrightarrow> 0 < m1 \<and> j mod m1 < m1 \<and> j div m1 < m2" for j m1 m2 :: nat
  by (cases "m1 = 0") (simp_all add: less_mult_imp_div_less mult.commute)

lemma joint_bound: "d1 < n1 \<Longrightarrow> d2 < n2 \<Longrightarrow> d1 + d2 * n1 < n1 * n2" for d1 d2 n1 n2 :: nat
proof -
  assume a: "d1 < n1" "d2 < n2"
  then have "(d2 + 1) * n1 \<le> n2 * n1" by (intro mult_le_mono1) simp
  then show ?thesis using a(1) by (simp add: mult.commute)
qed

text \<open>A joint branch takes each factor along a branch of its own.\<close>

lemma product_down:
  assumes t1: "linked 1 (branchings t1)" "i < length (branchings t1)"
    and t2: "linked 1 (branchings t2)" "i < length (branchings t2)" and tf: "two_factor_new t1 t2 rho = Inr tf"
    and m: "two_factor_size tf i = Some m" and n: "two_factor_size tf (i + 1) = Some n" and "j < m" "branch < 9"
  shows "\<exists>d d1 d2. two_factor_descendant tf i j branch = Some d \<and> d < n \<and> split_index tf (i + 1) d = Some (d1, d2) \<and>
      (\<exists>j1 j2. split_index tf i j = Some (j1, j2) \<and>
        descendant (trinomial_tree t1) i j1 (branch mod 3) = Some d1 \<and>
        descendant (trinomial_tree t2) i j2 (branch div 3) = Some d2)"
    and "\<exists>p. two_factor_probability tf i j branch = Some p"
proof -
  note f = two_factor_new_fields [OF tf]
  obtain m1 m2 where ms: "trinomial_size t1 i = Some m1" "trinomial_size t2 i = Some m2" "m = m1 * m2"
    using m f by (auto simp: two_factor_size_def usize_def split: bind_splits if_splits)
  obtain n1 n2 where ns: "trinomial_size t1 (i + 1) = Some n1" "trinomial_size t2 (i + 1) = Some n2"
      "n = n1 * n2" "n1 * n2 < 2 ^ 64"
    using n f by (auto simp: two_factor_size_def usize_def split: bind_splits if_splits)
  have j: "0 < m1" "j mod m1 < m1" "j div m1 < m2" using joint_index [of j m1 m2] \<open>j < m\<close> ms by simp_all
  have b: "branch mod 3 < 3" "branch div 3 < 3" using \<open>branch < 9\<close> by auto
  have split: "split_index tf i j = Some (j mod m1, j div m1)" using f ms j by (simp add: split_index_def)
  obtain d1 p1 where d1: "d1 < n1" "descendant (trinomial_tree t1) i (j mod m1) (branch mod 3) = Some d1"
      "probability (trinomial_tree t1) i (j mod m1) (branch mod 3) = Some p1"
    using trinomial_down [OF t1 ms(1) ns(1) j(2) b(1)] by blast
  obtain d2 p2 where d2: "d2 < n2" "descendant (trinomial_tree t2) i (j div m1) (branch div 3) = Some d2"
      "probability (trinomial_tree t2) i (j div m1) (branch div 3) = Some p2"
    using trinomial_down [OF t2 ms(2) ns(2) j(3) b(2)] by blast
  have bound: "d1 + d2 * n1 < n1 * n2" by (rule joint_bound [OF d1(1) d2(1)])
  then have d: "two_factor_descendant tf i j branch = Some (d1 + d2 * n1)"
    using f ns d1(2) d2(2) by (simp add: two_factor_descendant_def split usize_def)
  have "split_index tf (i + 1) (d1 + d2 * n1) = Some (d1, d2)" using f ns d1(1) by (simp add: split_index_def)
  then show "\<exists>d d1 d2. two_factor_descendant tf i j branch = Some d \<and> d < n \<and> split_index tf (i + 1) d = Some (d1, d2) \<and>
      (\<exists>j1 j2. split_index tf i j = Some (j1, j2) \<and>
        descendant (trinomial_tree t1) i j1 (branch mod 3) = Some d1 \<and>
        descendant (trinomial_tree t2) i j2 (branch div 3) = Some d2)"
    using d bound ns(3) split d1(2) d2(2) by blast
  show "\<exists>p. two_factor_probability tf i j branch = Some p"
    using f b by (simp add: two_factor_probability_def split d1(3) d2(3) slot_def)
qed

interpretation product: tree_contract product_built
proof
  fix t i m n j branch
  assume "product_built t"
  then obtain p1 g1 pos1 t1 p2 g2 pos2 t2 rho tf where
    tri: "trinomial_new p1 g1 pos1 = Some (Inr t1)" "trinomial_new p2 g2 pos2 = Some (Inr t2)"
    and tf: "two_factor_new t1 t2 rho = Inr tf" and t: "t = two_factor_tree tf"
    unfolding product_built_def by blast
  note f = two_factor_new_fields [OF tf]
  show "nodes t 0 = Some 1" by (simp add: t two_factor_tree_def two_factor_size_def trinomial_size_def usize_def)
  note l1 = trinomial_new_linked [OF tri(1)] and l2 = trinomial_new_linked [OF tri(2)]
  assume "i + 1 < tree_columns t" "nodes t i = Some m" "nodes t (i + 1) = Some n" "j < m" "branch < branches t"
  then show "(\<exists>d < n. descendant t i j branch = Some d) \<and> (\<exists>p. probability t i j branch = Some p)"
    using product_down [OF _ _ _ _ tf, of i m n j branch] l1 l2 f unfolding t by (simp add: two_factor_tree_def) blast
qed

end
