(* ===== verification/Tree_Lattice.thy ===== *)
theory Tree_Lattice
  imports Trees
begin

text \<open>
  \<open>methods/lattices/treelattice.rs\<close> and \<open>discretizedasset.rs\<close>: a tree lattice, which keeps the Arrow-Debreu state
  prices it has computed, and the assets it rolls back. A discretized asset is a trait object: a record of the
  required methods, over a state of its own, from which the provided methods are defined. An asset knows its lattice by
  address; the store of lattices is an argument. The underlying of an option is part of it: what another holder of the
  same underlying does to it is not modelled. A failed call returns its error alone.
\<close>

section \<open>The lattice\<close>

record lattice_impl =
  impl_tree :: tree
  impl_discount :: "nat \<Rightarrow> nat \<Rightarrow> f64 option"

record tree_lattice =
  lattice_code :: lattice_impl
  lattice_grid :: time_grid
  state_cache :: "f64 list list"
  state_limit :: nat

datatype lattice_error = NoBranches | OffGrid grid_error | CannotRollBack | NotInitialized | DifferentMethods

definition lattice_new :: "lattice_impl \<Rightarrow> time_grid \<Rightarrow> lattice_error + tree_lattice" where
  "lattice_new c g =
     (if \<not> 0 < branches (impl_tree c) then Inl NoBranches
      else Inr \<lparr>lattice_code = c, lattice_grid = g, state_cache = [[Fin 1]], state_limit = 0\<rparr>)"

text \<open>Each node feeds its descendants on the next slice, which is the last one of the vector.\<close>

fun feed_branches :: "lattice_impl \<Rightarrow> nat \<Rightarrow> nat \<Rightarrow> f64 \<Rightarrow> nat list \<Rightarrow> f64 list \<Rightarrow> f64 list option" where
  "feed_branches c i j flow [] prices = Some prices"
| "feed_branches c i j flow (branch # rest) prices = do {
     d \<leftarrow> descendant (impl_tree c) i j branch;
     p \<leftarrow> probability (impl_tree c) i j branch;
     old \<leftarrow> slot prices d;
     feed_branches c i j flow rest (prices[d := f_add old (f_mul flow p)])
   }"

fun feed_nodes :: "lattice_impl \<Rightarrow> nat \<Rightarrow> f64 list \<Rightarrow> nat list \<Rightarrow> f64 list \<Rightarrow> f64 list option" where
  "feed_nodes c i here [] prices = Some prices"
| "feed_nodes c i here (j # js) prices = do {
     discount \<leftarrow> impl_discount c i j;
     price \<leftarrow> slot here j;
     prices \<leftarrow> feed_branches c i j (f_mul price discount) [0..<branches (impl_tree c)] prices;
     feed_nodes c i here js prices
   }"

definition next_prices :: "lattice_impl \<Rightarrow> nat \<Rightarrow> f64 list \<Rightarrow> f64 list option" where
  "next_prices c i here = do {
     n \<leftarrow> nodes (impl_tree c) (i + 1);
     m \<leftarrow> nodes (impl_tree c) i;
     feed_nodes c i here [0..<m] (replicate n (Fin 0))
   }"

fun extend_prices :: "lattice_impl \<Rightarrow> nat list \<Rightarrow> f64 list list \<Rightarrow> f64 list list option" where
  "extend_prices c [] cache = Some cache"
| "extend_prices c (i # is) cache = do {
     here \<leftarrow> slot cache i;
     there \<leftarrow> next_prices c i here;
     extend_prices c is (cache @ [there])
   }"

definition compute_state_prices :: "nat \<Rightarrow> tree_lattice \<Rightarrow> tree_lattice option" where
  "compute_state_prices until l = do {
     cache \<leftarrow> extend_prices (lattice_code l) [state_limit l..<until] (state_cache l);
     Some (l\<lparr>state_cache := cache, state_limit := until\<rparr>)
   }"

definition state_prices :: "nat \<Rightarrow> tree_lattice \<Rightarrow> (f64 list \<times> tree_lattice) option" where
  "state_prices i l = do {
     l \<leftarrow> (if state_limit l < i then compute_state_prices i l else Some l);
     prices \<leftarrow> slot (state_cache l) i;
     Some (prices, l)
   }"

text \<open>One step back.\<close>

fun expected :: "tree \<Rightarrow> nat \<Rightarrow> nat \<Rightarrow> f64 list \<Rightarrow> nat list \<Rightarrow> f64 \<Rightarrow> f64 option" where
  "expected t i j vs [] acc = Some acc"
| "expected t i j vs (branch # rest) acc = do {
     p \<leftarrow> probability t i j branch;
     d \<leftarrow> descendant t i j branch;
     v \<leftarrow> slot vs d;
     expected t i j vs rest (f_add acc (f_mul p v))
   }"

definition stepback :: "lattice_impl \<Rightarrow> nat \<Rightarrow> f64 list \<Rightarrow> f64 list option" where
  "stepback c i vs = do {
     m \<leftarrow> nodes (impl_tree c) i;
     those (map (\<lambda>j. do {
       v \<leftarrow> expected (impl_tree c) i j vs [0..<branches (impl_tree c)] (Fin 0);
       discount \<leftarrow> impl_discount c i j;
       Some (f_mul v discount)
     }) [0..<m])
   }"

section \<open>Discretized assets\<close>

record asset_base =
  asset_time :: f64
  latest_pre_adjustment :: f64
  latest_post_adjustment :: f64
  asset_values :: "f64 list"
  asset_method :: "nat option"

definition f64_max :: f64 where
  "f64_max = Fin ((2 ^ 53 - 1) * 2 ^ 971)"

definition asset_base_default :: asset_base where
  "asset_base_default = \<lparr>asset_time = Fin 0, latest_pre_adjustment = f64_max, latest_post_adjustment = f64_max,
     asset_values = [], asset_method = None\<rparr>"

type_synonym lattices = "nat \<Rightarrow> tree_lattice"
type_synonym 'a rolled = "(lattice_error + 'a) option"

record 'a asset_hooks =
  get_base :: "'a \<Rightarrow> asset_base"
  put_base :: "(asset_base \<Rightarrow> asset_base) \<Rightarrow> 'a \<Rightarrow> 'a"
  pre_adjust_impl :: "lattices \<Rightarrow> 'a \<Rightarrow> 'a rolled"
  post_adjust_impl :: "lattices \<Rightarrow> 'a \<Rightarrow> 'a rolled"

record 'a asset_kind = "'a asset_hooks" +
  reset_values :: "lattices \<Rightarrow> nat \<Rightarrow> 'a \<Rightarrow> 'a rolled"
  mandatory_times :: "'a \<Rightarrow> f64 list"

definition time_of :: "('a, 'm) asset_hooks_scheme \<Rightarrow> 'a \<Rightarrow> f64" where
  "time_of k a = asset_time (get_base k a)"

definition values_of :: "('a, 'm) asset_hooks_scheme \<Rightarrow> 'a \<Rightarrow> f64 list" where
  "values_of k a = asset_values (get_base k a)"

definition pre_adjust :: "('a, 'm) asset_hooks_scheme \<Rightarrow> lattices \<Rightarrow> 'a \<Rightarrow> 'a rolled" where
  "pre_adjust k ls a =
     (if \<not> close_enough (time_of k a) (latest_pre_adjustment (get_base k a)) then
        question (pre_adjust_impl k ls a) (\<lambda>a. Some (Inr (put_base k (\<lambda>b. b\<lparr>latest_pre_adjustment := asset_time b\<rparr>) a)))
      else Some (Inr a))"

definition post_adjust :: "('a, 'm) asset_hooks_scheme \<Rightarrow> lattices \<Rightarrow> 'a \<Rightarrow> 'a rolled" where
  "post_adjust k ls a =
     (if \<not> close_enough (time_of k a) (latest_post_adjustment (get_base k a)) then
        question (post_adjust_impl k ls a) (\<lambda>a. Some (Inr (put_base k (\<lambda>b. b\<lparr>latest_post_adjustment := asset_time b\<rparr>) a)))
      else Some (Inr a))"

definition adjust :: "('a, 'm) asset_hooks_scheme \<Rightarrow> lattices \<Rightarrow> 'a \<Rightarrow> 'a rolled" where
  "adjust k ls a = question (pre_adjust k ls a) (post_adjust k ls)"

section \<open>Rolling back\<close>

definition off_grid :: "(grid_error + nat) option \<Rightarrow> (lattice_error + nat) option" where
  "off_grid r = map_option (map_sum OffGrid id) r"

fun roll_slices :: "('a, 'm) asset_hooks_scheme \<Rightarrow> lattices \<Rightarrow> tree_lattice \<Rightarrow> nat \<Rightarrow> nat list \<Rightarrow> 'a \<Rightarrow> 'a rolled" where
  "roll_slices k ls l i_to [] a = Some (Inr a)"
| "roll_slices k ls l i_to (i # is) a =
     (case stepback (lattice_code l) i (values_of k a) of None \<Rightarrow> None
      | Some vs \<Rightarrow>
        (case grid_at (lattice_grid l) i of None \<Rightarrow> None
         | Some t \<Rightarrow>
             let a = put_base k (\<lambda>b. b\<lparr>asset_time := t, asset_values := vs\<rparr>) a
             in question (if i \<noteq> i_to then adjust k ls a else Some (Inr a)) (roll_slices k ls l i_to is)))"

definition lattice_partial_rollback ::
    "('a, 'm) asset_hooks_scheme \<Rightarrow> lattices \<Rightarrow> tree_lattice \<Rightarrow> f64 \<Rightarrow> 'a \<Rightarrow> 'a rolled" where
  "lattice_partial_rollback k ls l to a =
     (if close (time_of k a) to then Some (Inr a)
      else if \<not> f_less to (time_of k a) then Some (Inl CannotRollBack)
      else question (off_grid (node_index (lattice_grid l) (time_of k a))) (\<lambda>i_from.
        question (off_grid (node_index (lattice_grid l) to)) (\<lambda>i_to.
          roll_slices k ls l i_to (rev [i_to..<i_from]) a)))"

definition lattice_rollback ::
    "('a, 'm) asset_hooks_scheme \<Rightarrow> lattices \<Rightarrow> tree_lattice \<Rightarrow> f64 \<Rightarrow> 'a \<Rightarrow> 'a rolled" where
  "lattice_rollback k ls l to a = question (lattice_partial_rollback k ls l to a) (adjust k ls)"

definition lattice_initialize :: "('a, 'm) asset_kind_scheme \<Rightarrow> lattices \<Rightarrow> tree_lattice \<Rightarrow> f64 \<Rightarrow> 'a \<Rightarrow> 'a rolled" where
  "lattice_initialize k ls l t a =
     question (off_grid (node_index (lattice_grid l) t)) (\<lambda>i.
       case nodes (impl_tree (lattice_code l)) i of None \<Rightarrow> None
       | Some n \<Rightarrow> reset_values k ls n (put_base k (\<lambda>b. b\<lparr>asset_time := t\<rparr>) a))"

definition dot :: "f64 list \<Rightarrow> f64 list \<Rightarrow> f64 option" where
  "dot xs ys = (if length xs = length ys then Some (fold (\<lambda>(x, y) acc. f_add acc (f_mul x y)) (zip xs ys) (Fin 0)) else None)"

definition lattice_present_value ::
    "('a, 'm) asset_hooks_scheme \<Rightarrow> tree_lattice \<Rightarrow> 'a \<Rightarrow> (lattice_error + f64 \<times> tree_lattice) option" where
  "lattice_present_value k l a =
     question (off_grid (node_index (lattice_grid l) (time_of k a))) (\<lambda>i. do {
       (prices, l) \<leftarrow> state_prices i l;
       v \<leftarrow> dot (values_of k a) prices;
       Some (Inr (v, l))
     })"

text \<open>The values of the underlying on a slice of a one-dimensional lattice.\<close>

definition lattice_slice :: "tree_lattice \<Rightarrow> f64 \<Rightarrow> (lattice_error + f64 list) option" where
  "lattice_slice l t =
     question (off_grid (node_index (lattice_grid l) t)) (\<lambda>i. do {
       n \<leftarrow> nodes (impl_tree (lattice_code l)) i;
       xs \<leftarrow> those (map (node_value (impl_tree (lattice_code l)) i) [0..<n]);
       Some (Inr xs)
     })"

section \<open>Calls through the asset\<close>

definition asset_initialize :: "('a, 'm) asset_kind_scheme \<Rightarrow> lattices \<Rightarrow> nat \<Rightarrow> f64 \<Rightarrow> 'a \<Rightarrow> 'a rolled" where
  "asset_initialize k ls m t a = lattice_initialize k ls (ls m) t (put_base k (\<lambda>b. b\<lparr>asset_method := Some m\<rparr>) a)"

definition require_method :: "('a, 'm) asset_hooks_scheme \<Rightarrow> 'a \<Rightarrow> lattice_error + nat" where
  "require_method k a = (case asset_method (get_base k a) of None \<Rightarrow> Inl NotInitialized | Some m \<Rightarrow> Inr m)"

definition asset_rollback :: "('a, 'm) asset_hooks_scheme \<Rightarrow> lattices \<Rightarrow> f64 \<Rightarrow> 'a \<Rightarrow> 'a rolled" where
  "asset_rollback k ls to a = question (Some (require_method k a)) (\<lambda>m. lattice_rollback k ls (ls m) to a)"

definition asset_partial_rollback :: "('a, 'm) asset_hooks_scheme \<Rightarrow> lattices \<Rightarrow> f64 \<Rightarrow> 'a \<Rightarrow> 'a rolled" where
  "asset_partial_rollback k ls to a = question (Some (require_method k a)) (\<lambda>m. lattice_partial_rollback k ls (ls m) to a)"

definition asset_present_value ::
    "('a, 'm) asset_hooks_scheme \<Rightarrow> lattices \<Rightarrow> 'a \<Rightarrow> (lattice_error + f64 \<times> lattices) option" where
  "asset_present_value k ls a =
     question (Some (require_method k a)) (\<lambda>m.
       question (lattice_present_value k (ls m) a) (\<lambda>(v, l). Some (Inr (v, ls(m := l)))))"

text \<open>The nearest node, by a scan of its own.\<close>

fun nearest_scan :: "f64 list \<Rightarrow> f64 \<Rightarrow> nat list \<Rightarrow> nat \<Rightarrow> nat" where
  "nearest_scan ts t [] best = best"
| "nearest_scan ts t (i # is) best =
     nearest_scan ts t is (if f_less (f_abs (f_sub (ts ! i) t)) (f_abs (f_sub (ts ! best) t)) then i else best)"

definition is_on_time :: "('a, 'm) asset_hooks_scheme \<Rightarrow> lattices \<Rightarrow> f64 \<Rightarrow> 'a \<Rightarrow> bool option" where
  "is_on_time k ls t a = do {
     m \<leftarrow> asset_method (get_base k a);
     let ts = grid_times (lattice_grid (ls m)) in do {
       node \<leftarrow> slot ts (nearest_scan ts t [1..<length ts] 0);
       Some (close_enough node (time_of k a))
     }
   }"

section \<open>Discount bonds\<close>

definition bond_kind :: "asset_base asset_kind" where
  "bond_kind = \<lparr>get_base = (\<lambda>b. b), put_base = (\<lambda>f. f), pre_adjust_impl = (\<lambda>ls b. Some (Inr b)),
     post_adjust_impl = (\<lambda>ls b. Some (Inr b)),
     reset_values = (\<lambda>ls n b. Some (Inr (b\<lparr>asset_values := replicate n (Fin 1)\<rparr>))), mandatory_times = (\<lambda>b. [])\<rparr>"

section \<open>Options\<close>

datatype exercise_type = American | Bermudan | European

record 'u discretized_option =
  option_base :: asset_base
  option_underlying :: 'u
  option_exercise :: exercise_type
  exercise_times :: "f64 list"

definition option_new :: "'u \<Rightarrow> exercise_type \<Rightarrow> f64 list \<Rightarrow> 'u discretized_option" where
  "option_new u e ts = \<lparr>option_base = asset_base_default, option_underlying = u, option_exercise = e, exercise_times = ts\<rparr>"

definition apply_exercise :: "('u, 'm) asset_hooks_scheme \<Rightarrow> 'u discretized_option \<Rightarrow> 'u discretized_option option" where
  "apply_exercise k a =
     (let vs = asset_values (option_base a); us = values_of k (option_underlying a)
      in if length vs \<le> length us
         then Some (a\<lparr>option_base := (option_base a)\<lparr>asset_values := map2 f_max vs us\<rparr>\<rparr>) else None)"

definition option_on_time :: "lattices \<Rightarrow> f64 \<Rightarrow> 'u discretized_option \<Rightarrow> bool option" where
  "option_on_time ls t a = is_on_time bond_kind ls t (option_base a)"

fun exercise_loop :: "('u, 'm) asset_hooks_scheme \<Rightarrow> lattices \<Rightarrow> f64 list \<Rightarrow> 'u discretized_option \<Rightarrow> 'u discretized_option option" where
  "exercise_loop k ls [] a = Some a"
| "exercise_loop k ls (et # ets) a = do {
     hit \<leftarrow> (if f_le (Fin 0) et then option_on_time ls et a else Some False);
     a \<leftarrow> (if hit then apply_exercise k a else Some a);
     exercise_loop k ls ets a
   }"

definition exercise :: "('u, 'm) asset_hooks_scheme \<Rightarrow> lattices \<Rightarrow> 'u discretized_option \<Rightarrow> 'u discretized_option option" where
  "exercise k ls a =
     (let t = asset_time (option_base a) in
      case option_exercise a of
        American \<Rightarrow> do {
          first \<leftarrow> slot (exercise_times a) 0;
          inside \<leftarrow> (if f_le first t then do { last \<leftarrow> slot (exercise_times a) 1; Some (f_le t last) } else Some False);
          if inside then apply_exercise k a else Some a
        }
      | _ \<Rightarrow> exercise_loop k ls (exercise_times a) a)"

definition option_post_adjust ::
    "('u, 'm) asset_hooks_scheme \<Rightarrow> lattices \<Rightarrow> 'u discretized_option \<Rightarrow> 'u discretized_option rolled" where
  "option_post_adjust k ls a =
     question (asset_partial_rollback k ls (asset_time (option_base a)) (option_underlying a)) (\<lambda>u.
       question (pre_adjust k ls u) (\<lambda>u.
         case exercise k ls (a\<lparr>option_underlying := u\<rparr>) of None \<Rightarrow> None
         | Some a \<Rightarrow>
             question (post_adjust k ls (option_underlying a)) (\<lambda>u. Some (Inr (a\<lparr>option_underlying := u\<rparr>)))))"

definition option_hooks :: "('u, 'm) asset_hooks_scheme \<Rightarrow> 'u discretized_option asset_hooks" where
  "option_hooks k = \<lparr>get_base = option_base, put_base = (\<lambda>f a. a\<lparr>option_base := f (option_base a)\<rparr>),
     pre_adjust_impl = (\<lambda>ls a. Some (Inr a)), post_adjust_impl = option_post_adjust k\<rparr>"

definition option_reset ::
    "('u, 'm) asset_hooks_scheme \<Rightarrow> lattices \<Rightarrow> nat \<Rightarrow> 'u discretized_option \<Rightarrow> 'u discretized_option rolled" where
  "option_reset k ls n a =
     (let own = asset_method (option_base a); other = asset_method (get_base k (option_underlying a)) in
      if own = None \<or> other = None \<or> own \<noteq> other then Some (Inl DifferentMethods)
      else adjust (option_hooks k) ls (a\<lparr>option_base := (option_base a)\<lparr>asset_values := replicate n (Fin 0)\<rparr>\<rparr>))"

definition option_kind :: "('u, 'm) asset_kind_scheme \<Rightarrow> 'u discretized_option asset_kind" where
  "option_kind k = asset_hooks.extend (option_hooks k)
     \<lparr>reset_values = option_reset k,
      mandatory_times = (\<lambda>a. mandatory_times k (option_underlying a) @ dropWhile (\<lambda>t. \<not> f_le (Fin 0) t) (exercise_times a))\<rparr>"

end
