(* ===== verification/Lattice_Laws.thy ===== *)
theory Lattice_Laws
  imports Tree_Lattice
begin

text \<open>
  What a lattice promises of its state prices over any tree that keeps the contract, and what it promises of an asset
  whose adjustments change its values alone, a second contract, which bonds and options keep.
\<close>

section \<open>State prices\<close>

text \<open>The specification: each slice from the one before, with no cache.\<close>

primrec forward :: "lattice_impl \<Rightarrow> nat \<Rightarrow> f64 list option" where
  "forward c 0 = Some [Fin 1]"
| "forward c (Suc i) = forward c i \<bind> next_prices c i"

fun query_all :: "nat list \<Rightarrow> tree_lattice \<Rightarrow> (f64 list list \<times> tree_lattice) option" where
  "query_all [] l = Some ([], l)"
| "query_all (i # is) l = do {
     (row, l) \<leftarrow> state_prices i l;
     (rows, l) \<leftarrow> query_all is l;
     Some (row # rows, l)
   }"

definition cache_ok :: "tree_lattice \<Rightarrow> bool" where
  "cache_ok l \<longleftrightarrow> length (state_cache l) = state_limit l + 1 \<and>
     (\<forall>i \<le> state_limit l. forward (lattice_code l) i = Some (state_cache l ! i))"

lemma extend_prices_forward:
  assumes "forward c (n + k) = Some row" "length cache = n + 1" "\<forall>i \<le> n. forward c i = Some (cache ! i)"
  shows "\<exists>cache'. extend_prices c [n..<n + k] cache = Some cache' \<and> length cache' = n + k + 1 \<and>
    (\<forall>i \<le> n + k. forward c i = Some (cache' ! i))"
  using assms
proof (induction k arbitrary: n cache)
  case (Suc k)
  have "\<exists>there. forward c (Suc n) = Some there"
  proof (rule ccontr)
    assume "\<nexists>there. forward c (Suc n) = Some there"
    then have "forward c (Suc n + j) = None" for j by (induction j) auto
    then show False using Suc.prems(1) [folded add_Suc_shift] by simp
  qed
  then obtain there where there: "forward c (Suc n) = Some there" by blast
  then have step: "next_prices c n (cache ! n) = Some there" using Suc.prems(3) by simp
  have "forward c i = Some ((cache @ [there]) ! i)" if "i \<le> Suc n" for i
    using that Suc.prems(2,3) there by (cases "i = Suc n") (auto simp: nth_append)
  moreover have "forward c (Suc n + k) = Some row" using Suc.prems(1) by simp
  ultimately have "\<exists>cache'. extend_prices c [Suc n..<Suc n + k] (cache @ [there]) = Some cache' \<and>
      length cache' = Suc n + k + 1 \<and> (\<forall>i \<le> Suc n + k. forward c i = Some (cache' ! i))"
    using Suc.IH [of "Suc n" "cache @ [there]"] Suc.prems(2) by simp
  moreover have "[n..<n + Suc k] = n # [Suc n..<Suc n + k]" by (simp add: upt_conv_Cons)
  ultimately show ?case using step Suc.prems(2) by (simp add: slot_def)
qed simp

lemma state_prices_forward:
  assumes ok: "cache_ok l" and row: "forward (lattice_code l) i = Some row"
  shows "\<exists>l'. state_prices i l = Some (row, l') \<and> cache_ok l' \<and> lattice_code l' = lattice_code l"
proof (cases "state_limit l < i")
  case True
  define k where "k = i - state_limit l"
  then have k: "i = state_limit l + k" using True by simp
  from extend_prices_forward [of "lattice_code l" "state_limit l" k row "state_cache l"] ok row
  obtain cache where cache: "extend_prices (lattice_code l) [state_limit l..<i] (state_cache l) = Some cache"
      "length cache = i + 1" "\<forall>j \<le> i. forward (lattice_code l) j = Some (cache ! j)"
    unfolding k cache_ok_def by auto
  then have "cache ! i = row" using row by simp
  then show ?thesis using True cache
    by (simp add: state_prices_def compute_state_prices_def cache_ok_def slot_def)
next
  case False
  then show ?thesis using ok row by (auto simp: state_prices_def cache_ok_def slot_def)
qed

lemma query_all_forward:
  assumes "cache_ok l" "\<And>i. i \<in> set qs \<Longrightarrow> \<exists>row. forward (lattice_code l) i = Some row"
  shows "\<exists>rows l'. query_all qs l = Some (rows, l') \<and> map Some rows = map (forward (lattice_code l)) qs"
  using assms
proof (induction qs arbitrary: l)
  case (Cons i qs)
  then obtain row where row: "forward (lattice_code l) i = Some row" by fastforce
  from state_prices_forward [OF Cons.prems(1) row] obtain l' where
    l': "state_prices i l = Some (row, l')" "cache_ok l'" "lattice_code l' = lattice_code l" by blast
  then show ?case using Cons.IH [OF l'(2)] Cons.prems(2) row by fastforce
qed simp

section \<open>On a tree that keeps the contract\<close>

lemma feed_branches_total:
  assumes "\<And>branch. branch \<in> set bs \<Longrightarrow>
    (\<exists>d < length prices. descendant (impl_tree c) i j branch = Some d) \<and> (\<exists>p. probability (impl_tree c) i j branch = Some p)"
  shows "\<exists>ps. feed_branches c i j flow bs prices = Some ps \<and> length ps = length prices"
  using assms
proof (induction bs arbitrary: prices)
  case (Cons b bs)
  from Cons.prems [of b] obtain d p where
    "d < length prices" "descendant (impl_tree c) i j b = Some d" "probability (impl_tree c) i j b = Some p" by auto
  then show ?case using Cons.IH [of "prices[d := f_add (prices ! d) (f_mul flow p)]"] Cons.prems by (simp add: slot_def)
qed simp

lemma feed_nodes_total:
  assumes "\<And>j branch. j \<in> set js \<Longrightarrow> branch < branches (impl_tree c) \<Longrightarrow>
    (\<exists>d < length prices. descendant (impl_tree c) i j branch = Some d) \<and> (\<exists>p. probability (impl_tree c) i j branch = Some p)"
    "\<And>j. j \<in> set js \<Longrightarrow> j < length here \<and> (\<exists>x. impl_discount c i j = Some x)"
  shows "\<exists>ps. feed_nodes c i here js prices = Some ps \<and> length ps = length prices"
  using assms
proof (induction js arbitrary: prices)
  case (Cons j js)
  from Cons.prems(2) [of j] obtain x where x: "impl_discount c i j = Some x" "j < length here" by auto
  have "\<exists>ps. feed_branches c i j (f_mul (here ! j) x) [0..<branches (impl_tree c)] prices = Some ps \<and> length ps = length prices"
    using Cons.prems(1) [of j] by (intro feed_branches_total) auto
  then obtain ps where ps: "feed_branches c i j (f_mul (here ! j) x) [0..<branches (impl_tree c)] prices = Some ps"
      "length ps = length prices" by blast
  have "\<exists>qs. feed_nodes c i here js ps = Some qs \<and> length qs = length ps"
    using Cons.prems ps(2) by (intro Cons.IH) simp_all
  then show ?case using x ps by (simp add: slot_def)
qed simp

definition answers :: "lattice_impl \<Rightarrow> bool" where
  "answers c \<longleftrightarrow> (\<forall>i < tree_columns (impl_tree c). nodes (impl_tree c) i \<noteq> None) \<and> (\<forall>i j. impl_discount c i j \<noteq> None)"

context tree_contract
begin

lemma forward_total:
  assumes "built (impl_tree c)" "answers c" "i < tree_columns (impl_tree c)"
  shows "\<exists>row. forward c i = Some row \<and> nodes (impl_tree c) i = Some (length row)"
  using assms(3)
proof (induction i)
  case 0
  then show ?case using root [OF assms(1)] by simp
next
  case (Suc i)
  let ?t = "impl_tree c"
  obtain row where row: "forward c i = Some row" "nodes ?t i = Some (length row)" using Suc by auto
  obtain n where n: "nodes ?t (Suc i) = Some n" using assms(2) Suc.prems unfolding answers_def by blast
  have "\<exists>ps. feed_nodes c i row [0..<length row] (replicate n (Fin 0)) = Some ps \<and> length ps = length (replicate n (Fin 0))"
  proof (rule feed_nodes_total)
    fix j branch
    assume "j \<in> set [0..<length row]" "branch < branches ?t"
    then show "(\<exists>d < length (replicate n (Fin 0)). descendant ?t i j branch = Some d) \<and> (\<exists>p. probability ?t i j branch = Some p)"
      using down [OF assms(1) _ row(2), of n j branch] n Suc.prems by simp
  next
    fix j
    assume "j \<in> set [0..<length row]"
    then show "j < length row \<and> (\<exists>x. impl_discount c i j = Some x)" using assms(2) unfolding answers_def by auto
  qed
  then show ?case using row n by (auto simp: next_prices_def)
qed

lemma queries_answered:
  assumes "built (impl_tree c)" "answers c" "lattice_new c g = Inr l" "set qs \<subseteq> {..<tree_columns (impl_tree c)}"
  shows "\<exists>rows l'. query_all qs l = Some (rows, l') \<and> map Some rows = map (forward c) qs \<and>
    map (\<lambda>row. Some (length row)) rows = map (nodes (impl_tree c)) qs"
proof -
  have l: "lattice_code l = c" "cache_ok l" using assms(3) by (auto simp: lattice_new_def cache_ok_def split: if_splits)
  have total: "\<exists>row. forward c i = Some row \<and> nodes (impl_tree c) i = Some (length row)" if "i \<in> set qs" for i
    using forward_total [OF assms(1,2)] assms(4) that by auto
  then obtain rows l' where r: "query_all qs l = Some (rows, l')" "map Some rows = map (forward c) qs"
    using query_all_forward [OF l(2), of qs] l(1) by metis
  then have len: "length rows = length qs" and at: "\<And>k. k < length qs \<Longrightarrow> forward c (qs ! k) = Some (rows ! k)"
    by (metis length_map, metis length_map nth_map)
  have "Some (length (rows ! k)) = nodes (impl_tree c) (qs ! k)" if "k < length qs" for k
    using total [of "qs ! k"] at that by auto
  then have "map (\<lambda>row. Some (length row)) rows = map (nodes (impl_tree c)) qs" using len by (auto intro!: nth_equalityI)
  then show ?thesis using r by blast
qed

end

section \<open>The contract of an asset\<close>

locale asset =
  fixes k :: "('a, 'm) asset_hooks_scheme"
  assumes get_put: "get_base k (put_base k f a) = f (get_base k a)"
    and pre_values: "pre_adjust_impl k ls a = Some (Inr b) \<Longrightarrow> \<exists>vs. get_base k b = get_base k a\<lparr>asset_values := vs\<rparr>"
    and post_values: "post_adjust_impl k ls a = Some (Inr b) \<Longrightarrow> \<exists>vs. get_base k b = get_base k a\<lparr>asset_values := vs\<rparr>"

lemma question_assoc: "question (question r f) g = question r (\<lambda>x. question (f x) g)"
  by (auto simp: question_def split: option.splits sum.splits)

lemma question_Inr [simp]: "question (Some (Inr x)) f = f x"
  by (simp add: question_def)

lemma question_cong: "(\<And>x. r = Some (Inr x) \<Longrightarrow> f x = g x) \<Longrightarrow> question r f = question r g"
  by (auto simp: question_def split: option.splits sum.splits)

lemma question_None [simp]: "question None f = None" "question (Some (Inl e)) f = Some (Inl e)"
  by (simp_all add: question_def)

lemma close_enough_self: "t \<noteq> Not_A_Number \<Longrightarrow> close_enough t t"
  by (cases t) (simp_all add: close_enough_def close_enough_n_def)

lemma base_self: "\<exists>vs. b = b\<lparr>asset_values := vs\<rparr>" "\<exists>vs. b = b\<lparr>latest_pre_adjustment := latest_pre_adjustment b, asset_values := vs\<rparr>"
    "\<exists>vs. b = b\<lparr>latest_post_adjustment := latest_post_adjustment b, asset_values := vs\<rparr>" for b :: asset_base
  by (rule exI [of _ "asset_values b"]; simp)+

lemma question_unit [simp]: "question r (\<lambda>x. Some (Inr x)) = r"
  by (auto simp: question_def split: option.splits sum.splits)

lemma roll_slices_Nil: "roll_slices k ls l i_to [] = (\<lambda>a. Some (Inr a))"
  by (rule ext) simp

context asset
begin

lemma pre_adjust_base:
  "pre_adjust k ls a = Some (Inr b) \<Longrightarrow>
    \<exists>vs. get_base k b = get_base k a\<lparr>latest_pre_adjustment := latest_pre_adjustment (get_base k b), asset_values := vs\<rparr> \<and>
      (close_enough (time_of k a) (latest_pre_adjustment (get_base k a)) \<longrightarrow> b = a) \<and>
      (\<not> close_enough (time_of k a) (latest_pre_adjustment (get_base k a)) \<longrightarrow> latest_pre_adjustment (get_base k b) = time_of k a)"
proof (cases "close_enough (time_of k a) (latest_pre_adjustment (get_base k a))")
  case False
  assume "pre_adjust k ls a = Some (Inr b)"
  with False obtain c where c: "pre_adjust_impl k ls a = Some (Inr c)"
      "b = put_base k (\<lambda>b. b\<lparr>latest_pre_adjustment := asset_time b\<rparr>) c"
    by (auto simp: pre_adjust_def question_Some)
  from pre_values [OF c(1)] obtain vs where "get_base k c = get_base k a\<lparr>asset_values := vs\<rparr>" by blast
  then show ?thesis using False c(2) by (auto simp: get_put time_of_def intro!: exI [of _ vs])
qed (auto simp: pre_adjust_def intro: base_self)

lemma post_adjust_base:
  "post_adjust k ls a = Some (Inr b) \<Longrightarrow>
    \<exists>vs. get_base k b = get_base k a\<lparr>latest_post_adjustment := latest_post_adjustment (get_base k b), asset_values := vs\<rparr> \<and>
      (close_enough (time_of k a) (latest_post_adjustment (get_base k a)) \<longrightarrow> b = a) \<and>
      (\<not> close_enough (time_of k a) (latest_post_adjustment (get_base k a)) \<longrightarrow> latest_post_adjustment (get_base k b) = time_of k a)"
proof (cases "close_enough (time_of k a) (latest_post_adjustment (get_base k a))")
  case False
  assume "post_adjust k ls a = Some (Inr b)"
  with False obtain c where c: "post_adjust_impl k ls a = Some (Inr c)"
      "b = put_base k (\<lambda>b. b\<lparr>latest_post_adjustment := asset_time b\<rparr>) c"
    by (auto simp: post_adjust_def question_Some)
  from post_values [OF c(1)] obtain vs where "get_base k c = get_base k a\<lparr>asset_values := vs\<rparr>" by blast
  then show ?thesis using False c(2) by (auto simp: get_put time_of_def intro!: exI [of _ vs])
qed (auto simp: post_adjust_def intro: base_self)

lemma adjust_base:
  assumes "adjust k ls a = Some (Inr b)"
  shows "time_of k b = time_of k a \<and> asset_method (get_base k b) = asset_method (get_base k a) \<and>
    (time_of k a \<noteq> Not_A_Number \<longrightarrow>
      close_enough (time_of k b) (latest_pre_adjustment (get_base k b)) \<and>
      close_enough (time_of k b) (latest_post_adjustment (get_base k b)))"
proof -
  from assms obtain c where c: "pre_adjust k ls a = Some (Inr c)" "post_adjust k ls c = Some (Inr b)"
    by (auto simp: adjust_def question_Some)
  from pre_adjust_base [OF c(1)] obtain us where
    u: "get_base k c = get_base k a\<lparr>latest_pre_adjustment := latest_pre_adjustment (get_base k c), asset_values := us\<rparr>" by blast
  from post_adjust_base [OF c(2)] obtain vs where
    v: "get_base k b = get_base k c\<lparr>latest_post_adjustment := latest_post_adjustment (get_base k b), asset_values := vs\<rparr>" by blast
  have t: "time_of k c = time_of k a" "asset_method (get_base k c) = asset_method (get_base k a)"
    unfolding time_of_def by (subst u; simp)+
  have w: "time_of k b = time_of k c" "asset_method (get_base k b) = asset_method (get_base k c)"
      "latest_pre_adjustment (get_base k b) = latest_pre_adjustment (get_base k c)"
    unfolding time_of_def by (subst v; simp)+
  show ?thesis
    using pre_adjust_base [OF c(1)] post_adjust_base [OF c(2)] t w close_enough_self [of "time_of k a"] by auto
qed

text \<open>Adjusting again at the same time does nothing.\<close>

lemma adjust_once:
  assumes "adjust k ls a = Some (Inr b)" "time_of k a \<noteq> Not_A_Number"
  shows "adjust k ls b = Some (Inr b)"
proof -
  have "close_enough (time_of k b) (latest_pre_adjustment (get_base k b))"
    "close_enough (time_of k b) (latest_post_adjustment (get_base k b))"
    using adjust_base [OF assms(1)] assms(2) by blast+
  then show ?thesis by (simp add: adjust_def pre_adjust_def post_adjust_def)
qed

section \<open>Rolling back in legs\<close>

lemma roll_slices_append:
  "roll_slices k ls l i_to (xs @ ys) a = question (roll_slices k ls l i_to xs a) (roll_slices k ls l i_to ys)"
proof (induction xs arbitrary: a)
  case (Cons x xs)
  then show ?case by (auto simp: question_assoc Let_def split: option.splits intro!: question_cong)
qed simp

lemma roll_slices_cong:
  "p \<notin> set xs \<Longrightarrow> q \<notin> set xs \<Longrightarrow> roll_slices k ls l p xs a = roll_slices k ls l q xs a"
proof (induction xs arbitrary: a)
  case (Cons x xs)
  then show ?case by (auto simp: Let_def split: option.splits intro!: question_cong)
qed simp

text \<open>A leg that ends at a node leaves the asset at the node's time, on the same lattice.\<close>

lemma roll_slices_base:
  "roll_slices k ls l i_to xs a = Some (Inr b) \<Longrightarrow>
    asset_method (get_base k b) = asset_method (get_base k a) \<and>
    (xs \<noteq> [] \<longrightarrow> grid_at (lattice_grid l) (last xs) = Some (time_of k b))"
proof (induction xs arbitrary: a)
  case (Cons x xs)
  from Cons.prems obtain vs t where vt: "stepback (lattice_code l) x (values_of k a) = Some vs"
      "grid_at (lattice_grid l) x = Some t" by (auto split: option.splits)
  define c where "c = put_base k (\<lambda>b. b\<lparr>asset_time := t, asset_values := vs\<rparr>) a"
  from Cons.prems vt obtain d where d: "(if x \<noteq> i_to then adjust k ls c else Some (Inr c)) = Some (Inr d)"
      "roll_slices k ls l i_to xs d = Some (Inr b)"
    by (auto simp: question_Some Let_def c_def [symmetric])
  have "time_of k c = t" "asset_method (get_base k c) = asset_method (get_base k a)"
    by (simp_all add: c_def time_of_def get_put)
  then have "time_of k d = t" "asset_method (get_base k d) = asset_method (get_base k a)"
    using d(1) adjust_base [of ls c d] by (auto split: if_splits)
  then show ?case using Cons.IH [OF d(2)] d(2) vt(2) by auto
qed simp

lemma lattice_rollback_method:
  assumes "lattice_rollback k ls l to a = Some (Inr b)"
  shows "asset_method (get_base k b) = asset_method (get_base k a)"
proof -
  from assms obtain c where c: "lattice_partial_rollback k ls l to a = Some (Inr c)" "adjust k ls c = Some (Inr b)"
    by (auto simp: lattice_rollback_def question_Some)
  then have "asset_method (get_base k c) = asset_method (get_base k a)"
    using roll_slices_base by (auto simp: lattice_partial_rollback_def question_Some split: if_splits)
  then show ?thesis using adjust_base [OF c(2)] by simp
qed

lemma roll_slices_leg:
  assumes "t < m" "m < f"
  shows "roll_slices k ls l t (rev [m..<f]) a = question (roll_slices k ls l m (rev [m..<f]) a) (adjust k ls)"
proof -
  have split: "rev [m..<f] = rev [Suc m..<f] @ [m]" using assms by (simp add: upt_conv_Cons)
  have "roll_slices k ls l t (rev [Suc m..<f]) a = roll_slices k ls l m (rev [Suc m..<f]) a"
    using assms by (intro roll_slices_cong) auto
  then show ?thesis unfolding split roll_slices_append question_assoc
    using assms(1) by (auto simp: Let_def roll_slices_Nil split: option.splits intro!: question_cong)
qed

lemma rollback_in_legs:
  assumes r: "rising (grid_times (lattice_grid l))" and i: "t < m" "m < f" "f < length (grid_times (lattice_grid l))"
    and a: "time_of k a = grid_times (lattice_grid l) ! f"
    and apart: "\<And>p q. {p, q} \<subseteq> {t, m, f} \<Longrightarrow> p < q \<Longrightarrow> \<not> close (grid_times (lattice_grid l) ! q) (grid_times (lattice_grid l) ! p)"
  shows "lattice_rollback k ls l (grid_times (lattice_grid l) ! t) a =
    question (lattice_rollback k ls l (grid_times (lattice_grid l) ! m) a) (lattice_rollback k ls l (grid_times (lattice_grid l) ! t))"
proof -
  let ?xs = "grid_times (lattice_grid l)"
  have less: "f_less (?xs ! p) (?xs ! q)" if "p < q" "q < length ?xs" for p q
  proof -
    have "?xs ! p < ?xs ! q" using rising_sorted [OF r] that by (simp add: sorted_wrt_iff_nth_less)
    moreover have "is_finite (?xs ! p)" "is_finite (?xs ! q)" using r that by (auto simp: rising_def list_all_length)
    ultimately show ?thesis using f_less_order by (metis is_finite.simps(4))
  qed
  have partial: "lattice_partial_rollback k ls l (?xs ! p) b = roll_slices k ls l p (rev [p..<q]) b"
    if "p < q" "q < length ?xs" "{p, q} \<subseteq> {t, m, f}" "time_of k b = ?xs ! q" for p q b
    using that less [OF that(1,2)] apart [OF that(3,1)] node_resolves [OF r]
    by (simp add: lattice_partial_rollback_def off_grid_def)
  have "rev [t..<f] = rev [m..<f] @ rev [t..<m]"
    using i(1,2) upt_add_eq_append [of t m "f - m"] by simp
  then have "lattice_partial_rollback k ls l (?xs ! t) a =
      question (lattice_rollback k ls l (?xs ! m) a) (roll_slices k ls l t (rev [t..<m]))"
    using i a by (simp add: partial [of _ f] lattice_rollback_def roll_slices_append roll_slices_leg question_assoc)
  also have "\<dots> = question (lattice_rollback k ls l (?xs ! m) a) (lattice_partial_rollback k ls l (?xs ! t))"
  proof (rule question_cong)
    fix c
    assume "lattice_rollback k ls l (?xs ! m) a = Some (Inr c)"
    then obtain b where b: "roll_slices k ls l m (rev [m..<f]) a = Some (Inr b)" "adjust k ls b = Some (Inr c)"
      using i a by (auto simp: lattice_rollback_def partial [of m f] question_Some)
    have "last (rev [m..<f]) = m" using i(2) by (simp add: last_rev)
    then have "grid_at (lattice_grid l) m = Some (time_of k b)" using roll_slices_base [OF b(1)] i(2) by simp
    then have "time_of k c = ?xs ! m" using adjust_base [OF b(2)] i by (simp add: grid_at_def)
    then show "roll_slices k ls l t (rev [t..<m]) c = lattice_partial_rollback k ls l (?xs ! t) c"
      using i by (simp add: partial [of t m])
  qed
  finally have legs: "lattice_partial_rollback k ls l (?xs ! t) a =
    question (lattice_rollback k ls l (?xs ! m) a) (lattice_partial_rollback k ls l (?xs ! t))" .
  have "lattice_rollback k ls l (?xs ! t) = (\<lambda>x. question (lattice_partial_rollback k ls l (?xs ! t) x) (adjust k ls))"
    by (rule ext) (simp add: lattice_rollback_def)
  then show ?thesis by (simp only: legs question_assoc)
qed

end

section \<open>Bonds and options keep it\<close>

interpretation bond: asset bond_kind
  by unfold_locales (auto simp: bond_kind_def intro: base_self)

lemma apply_exercise_values:
  "apply_exercise k a = Some b \<Longrightarrow> \<exists>vs. option_base b = (option_base a)\<lparr>asset_values := vs\<rparr>"
  by (auto simp: apply_exercise_def Let_def split: if_splits)

lemma exercise_loop_values:
  "exercise_loop k ls ets a = Some b \<Longrightarrow> \<exists>vs. option_base b = (option_base a)\<lparr>asset_values := vs\<rparr>"
proof (induction ets arbitrary: a)
  case Nil
  then have "option_base b = (option_base a)\<lparr>asset_values := asset_values (option_base a)\<rparr>" by simp
  then show ?case by blast
next
  case (Cons et ets)
  then obtain c hit where c: "(if hit then apply_exercise k a else Some a) = Some c" "exercise_loop k ls ets c = Some b"
    by (auto split: bind_splits)
  have "\<exists>vs. option_base c = (option_base a)\<lparr>asset_values := vs\<rparr>"
    using c(1) apply_exercise_values [of k a c] by (cases hit) (auto intro: base_self)
  then show ?case using Cons.IH [OF c(2)] by auto
qed

lemma exercise_values:
  assumes "exercise k ls a = Some b"
  shows "\<exists>vs. option_base b = (option_base a)\<lparr>asset_values := vs\<rparr>"
proof (cases "option_exercise a")
  case American
  then obtain inside where "(if inside then apply_exercise k a else Some a) = Some b"
    using assms by (auto simp: exercise_def Let_def split: bind_splits)
  then show ?thesis
    using apply_exercise_values [of k a b] by (cases inside) (auto intro: base_self)
qed (use assms exercise_loop_values in \<open>auto simp: exercise_def Let_def\<close>)

lemma option_post_values:
  assumes "option_post_adjust k ls a = Some (Inr b)"
  shows "\<exists>vs. option_base b = (option_base a)\<lparr>asset_values := vs\<rparr>"
proof -
  from assms obtain u c v where "exercise k ls (a\<lparr>option_underlying := u\<rparr>) = Some c" "b = c\<lparr>option_underlying := v\<rparr>"
    by (auto simp: option_post_adjust_def question_Some split: option.splits)
  then show ?thesis using exercise_values by fastforce
qed

interpretation option: asset "option_hooks k" for k
proof
  fix f a ls b
  show "get_base (option_hooks k) (put_base (option_hooks k) f a) = f (get_base (option_hooks k) a)"
    by (simp add: option_hooks_def)
  show "pre_adjust_impl (option_hooks k) ls a = Some (Inr b) \<Longrightarrow> \<exists>vs. get_base (option_hooks k) b = get_base (option_hooks k) a\<lparr>asset_values := vs\<rparr>"
    by (auto simp: option_hooks_def intro: base_self)
  show "post_adjust_impl (option_hooks k) ls a = Some (Inr b) \<Longrightarrow> \<exists>vs. get_base (option_hooks k) b = get_base (option_hooks k) a\<lparr>asset_values := vs\<rparr>"
    using option_post_values [of k ls a b] by (simp add: option_hooks_def)
qed

end
