(* ===== verification/Lattice_Properties.thy ===== *)
theory Lattice_Properties
  imports Lattice_Laws
begin

text \<open>
  State prices do not depend on the history of queries, rolling back in legs is rolling back at once, adjustments fire
  once at a time, and the product of two trinomial trees moves its factors independently.
\<close>

section \<open>A one-step tree\<close>

definition sample_process :: tree_process where
  "sample_process = \<lparr>process_x0 = Some (Inr (Fin 0)), process_expectation = (\<lambda>t x dt. Some (Inr x)),
     process_variance = (\<lambda>t x dt. Some (Inr (Fin 1)))\<rparr>"

definition sample_grid :: time_grid where
  "sample_grid = \<lparr>grid_times = [Fin 0, Fin 1], grid_dt = [Fin 1], grid_mandatory = [Fin 1]\<rparr>"

lemma f_sqrt_one: "f_sqrt (Fin 1) = Fin 1"
proof -
  have "binade 1 = 0" by (rule binade_eq) simp_all
  moreover have "isqrt (nat \<lfloor>4 powi 55 :: rat\<rfloor>) = 2 ^ 55" using isqrt_square [of "2 ^ 55"] by simp
  ultimately have "sqrt_near 1 = 1" by (simp add: sqrt_near_def Let_def)
  then show ?thesis by (simp add: fl_one)
qed

lemma fl_between: "1 \<le> x \<Longrightarrow> x \<le> 2 \<Longrightarrow> \<exists>y. fl x = Fin y \<and> 1 \<le> y \<and> y \<le> 2"
proof -
  assume x: "1 \<le> x" "x \<le> 2"
  have "rnd 1 = 1" "rnd 2 = 2" using rnd_of_int [of 1] rnd_of_int [of 2] by simp_all
  then have "1 \<le> rnd x" "rnd x \<le> 2" using rnd_mono [OF x(1)] rnd_mono [OF x(2)] by simp_all
  moreover have "fl x = Fin (rnd x)" by (rule fl_small) (use x in \<open>simp add: abs_if\<close>)
  ultimately show ?thesis by blast
qed

lemma f_sqrt_three: "\<exists>s. f_sqrt (Fin 3) = Fin s \<and> 1 \<le> s \<and> s \<le> 2"
proof -
  have b: "binade 3 = 1" by (rule binade_eq) simp_all
  have "1 \<le> sqrt_near 3" using sqrt_near_cut [of 3 "2 ^ 55"] by (simp add: b power2_eq_square)
  moreover have "sqrt_near 3 \<le> 2" using sqrt_near_cut [of 3 "2 * 2 ^ 55"] by (simp add: b power2_eq_square)
  ultimately show ?thesis using fl_between [of "sqrt_near 3"] by auto
qed

lemma fl_sixths: "f_le (Fin 0) (fl (1 / 6))" "f_le (Fin 0) (fl (2 / 3))"
  using fl_nonneg [of "1 / 6"] fl_nonneg [of "2 / 3"] by (auto simp: f_le_def)

lemma threshold_step: "\<not> f_less (Fin 1) (f_mul floor_threshold (Fin 1))"
proof -
  have r: "rnd (1 / 100) \<le> 1" using rnd_mono [of "1 / 100" 1] rnd_of_int [of 1] by simp
  have "0 \<le> rnd (1 / 100)" by (simp add: rnd_nonneg)
  then have "fl (rnd (1 / 100)) = Fin (rnd (rnd (1 / 100)))" "fl (1 / 100) = Fin (rnd (1 / 100))"
    using r by (simp_all add: fl_small abs_if)
  moreover have "rnd (rnd (1 / 100)) \<le> 1" using rnd_mono [OF r] rnd_of_int [of 1] by simp
  ultimately show ?thesis by (simp add: floor_threshold_def)
qed

lemma sample_spacing: "\<exists>dx. spacing_step (Fin 1) dx_floor (Fin 1) (Fin 1) = (Fin dx, False) \<and> 1 \<le> dx"
proof -
  obtain s where s: "f_sqrt (Fin 3) = Fin s" "1 \<le> s" "s \<le> 2" using f_sqrt_three by blast
  obtain dx where "fl s = Fin dx" "1 \<le> dx" using fl_between [OF s(2,3)] by blast
  then show ?thesis using s(1) threshold_step by (simp add: spacing_step_def f_sqrt_one Let_def del: f_sqrt.simps)
qed

lemma floor_half: "\<lfloor>1 / 2 :: rat\<rfloor> = 0"
  by (simp add: floor_eq_iff)

definition sample_branching :: branching where
  "sample_branching = \<lparr>centres = [0], weights = [[fl (1 / 6)], [fl (2 / 3)], [fl (1 / 6)]], k_min = 0, j_min = -1, k_max = 0, j_max = 1\<rparr>"

lemma sample_trinomial:
  "\<exists>dx. trinomial_new sample_process sample_grid False = Some (Inr
     \<lparr>branchings = [sample_branching], root_value = Fin 0, spacings = [Fin 0, dx], tree_grid = sample_grid, slices = 2\<rparr>)"
proof -
  obtain dx where dx: "spacing_step (Fin 1) (f_sqrt (f_mul (Fin 3) (Fin 1))) (Fin 1) (Fin 1) = (Fin dx, False)" "1 \<le> dx"
    using sample_spacing by blast
  have steps: "step_variances sample_process sample_grid [0..<1] = Some (Inr [(Fin 1, Fin 1)])"
    by (simp add: sample_process_def sample_grid_def grid_dt_at_def grid_at_def question_Inr)
  have "f_max (Fin 0) (Fin 1) = Fin 1" by (simp add: f_max_def)
  then have schedule: "dx_schedule [Fin 1] [Fin 1] = Some ([Fin 0, Fin dx], [False])"
    using dx(1) by (simp add: dx_schedule_def Let_def f_max_def del: f_sqrt.simps f_mul.simps)
  let ?s = "\<lparr>slice_time = Fin 0, slice_dt = Fin 1, slice_variance = Fin 1, slice_dx = Fin 0, next_dx = Fin dx, next_floored = False\<rparr>"
  have list: "slice_list sample_grid [(Fin 1, Fin 1)] [Fin 0, Fin dx] [False] = [?s]"
    by (simp add: slice_list_def sample_grid_def)
  have "f_of_int 0 = Fin 0" by (simp add: f_of_int_def fl_zero)
  moreover have "dx \<noteq> 0" using dx(2) by simp
  ultimately have "branch_node sample_process False (Fin 0) ?s 0 = Some (Inr (0, fl (1 / 6), fl (2 / 3), fl (1 / 6)))"
    using f_sqrt_three fl_half fl_numeral [of "num.Bit0 num.One"] fl_sixths floor_half
    by (auto simp: branch_node_def sample_process_def question_Inr Let_def f_sub_def fl_zero fl_one f_sqrt_one
      classical_weights_def simp del: f_sqrt.simps)
  then have "branch_slices sample_process False (Fin 0) [?s] 0 0 = Some (Inr [sample_branching])"
    by (simp add: branching_add_def branching_new_def sample_branching_def Let_def i32_def i32_range_def question_Inr)
  then show ?thesis using steps schedule list
    by (auto simp: trinomial_new_def trinomial_from_def usize_sub_def grid_size_def sample_process_def sample_grid_def
      simp del: branch_slices.simps step_variances.simps)
qed

lemma sample_size: "branching_size sample_branching = Some 3"
  by (simp add: branching_size_def sample_branching_def i32_def i32_range_def)

section \<open>State prices\<close>

text \<open>C37. On a lattice over a trinomial tree whose slices have sizes in range, every sequence of queries for state prices,
  of slices in any order and any number of times, is answered without a panic; each answer is the forward induction from
  the root to that slice and has one price for each of its nodes. The cache shows in nothing.\<close>

theorem state_prices_do_not_depend_on_history:
  assumes "trinomial_new p g pos = Some (Inr tri)" and "\<And>i. i < slices tri \<Longrightarrow> trinomial_size tri i \<noteq> None"
    and l: "lattice_new \<lparr>impl_tree = trinomial_tree tri, impl_discount = (\<lambda>i j. Some (discount i j))\<rparr> grid = Inr l"
    and "set qs \<subseteq> {..<slices tri}"
  shows "\<exists>rows l'. query_all qs l = Some (rows, l') \<and> map Some rows = map (forward (lattice_code l)) qs \<and>
    map (\<lambda>row. Some (length row)) rows = map (trinomial_size tri) qs"
proof -
  let ?c = "\<lparr>impl_tree = trinomial_tree tri, impl_discount = (\<lambda>i j. Some (discount i j))\<rparr>"
  have "trinomial_built (impl_tree ?c)" using assms(1) by (auto simp: trinomial_built_def)
  moreover have "answers ?c" using assms(2) by (simp add: answers_def trinomial_tree_def)
  moreover have "set qs \<subseteq> {..<tree_columns (impl_tree ?c)}" using assms(4) by (simp add: trinomial_tree_def)
  moreover have "lattice_code l = ?c" using l by (auto simp: lattice_new_def split: if_splits)
  ultimately show ?thesis using trinomial.queries_answered [OF _ _ l, of qs] by (simp add: trinomial_tree_def)
qed

lemma state_prices_do_not_depend_on_history_witness:
  "\<exists>tri l rows l'. trinomial_new sample_process sample_grid False = Some (Inr tri) \<and>
    lattice_new \<lparr>impl_tree = trinomial_tree tri, impl_discount = (\<lambda>i j. Some (Fin 1))\<rparr> sample_grid = Inr l \<and>
    query_all [1, 0, 1] l = Some (rows, l') \<and> map length rows = [3, 1, 3]"
proof -
  obtain dx where tri: "trinomial_new sample_process sample_grid False = Some (Inr
     \<lparr>branchings = [sample_branching], root_value = Fin 0, spacings = [Fin 0, dx], tree_grid = sample_grid, slices = 2\<rparr>)"
    using sample_trinomial by blast
  let ?tri = "\<lparr>branchings = [sample_branching], root_value = Fin 0, spacings = [Fin 0, dx], tree_grid = sample_grid, slices = 2\<rparr>"
  let ?c = "\<lparr>impl_tree = trinomial_tree ?tri, impl_discount = (\<lambda>i j. Some (Fin 1))\<rparr>"
  have size: "trinomial_size ?tri 0 = Some 1" "trinomial_size ?tri 1 = Some 3"
    by (simp_all add: trinomial_size_def slot_def sample_size)
  have all: "trinomial_size ?tri i \<noteq> None" if "i < slices ?tri" for i
    using that size by (cases "i = 0") (auto simp: less_2_cases_iff)
  obtain l where l: "lattice_new ?c sample_grid = Inr l" by (simp add: lattice_new_def trinomial_tree_def)
  have "set [1, 0, 1] \<subseteq> {..<slices ?tri}" by simp
  from state_prices_do_not_depend_on_history [OF tri all l this] obtain rows l' where
    r: "query_all [1, 0, 1] l = Some (rows, l')" "map (\<lambda>row. Some (length row)) rows = map (trinomial_size ?tri) [1, 0, 1]" by blast
  then have "map Some (map length rows) = map Some [3, 1, 3]" using size by (simp add: comp_def)
  then have "map length rows = [3, 1, 3]" by (auto simp: map_eq_Cons_conv)
  then show ?thesis using tri l r(1) by (intro exI conjI)
qed

section \<open>The product of two trees\<close>

text \<open>C38. In the product of two trinomial trees every branch of every node leads to a node of the next slice; taking the
  joint index apart again gives the two nodes to which the factors' own branches lead, and the weight exists.\<close>

theorem product_tree_moves_its_factors:
  assumes "trinomial_new p1 g1 pos1 = Some (Inr t1)" "trinomial_new p2 g2 pos2 = Some (Inr t2)"
    "two_factor_new t1 t2 rho = Inr tf" "i + 1 < slices t1"
    "two_factor_size tf i = Some m" "two_factor_size tf (i + 1) = Some n" "j < m" "branch < 9"
  shows "(\<exists>d d1 d2 j1 j2. two_factor_descendant tf i j branch = Some d \<and> d < n \<and>
      split_index tf (i + 1) d = Some (d1, d2) \<and> split_index tf i j = Some (j1, j2) \<and>
      descendant (trinomial_tree t1) i j1 (branch mod 3) = Some d1 \<and>
      descendant (trinomial_tree t2) i j2 (branch div 3) = Some d2) \<and>
    (\<exists>p. two_factor_probability tf i j branch = Some p)"
proof -
  note l1 = trinomial_new_linked [OF assms(1)] and l2 = trinomial_new_linked [OF assms(2)]
  have "slices t1 = slices t2" using two_factor_new_fields [OF assms(3)] by blast
  then have "i < length (branchings t1)" "i < length (branchings t2)" using l1 l2 assms(4) by simp_all
  then show ?thesis using product_down [OF _ _ _ _ assms(3,5-8)] l1 l2 by blast
qed

lemma product_tree_moves_its_factors_witness:
  "\<exists>tri tf d. trinomial_new sample_process sample_grid False = Some (Inr tri) \<and> two_factor_new tri tri (Fin 1) = Inr tf \<and>
    two_factor_descendant tf 0 0 8 = Some d \<and> d < 9"
proof -
  obtain dx where tri: "trinomial_new sample_process sample_grid False = Some (Inr
     \<lparr>branchings = [sample_branching], root_value = Fin 0, spacings = [Fin 0, dx], tree_grid = sample_grid, slices = 2\<rparr>)"
    using sample_trinomial by blast
  let ?tri = "\<lparr>branchings = [sample_branching], root_value = Fin 0, spacings = [Fin 0, dx], tree_grid = sample_grid, slices = 2\<rparr>"
  have size: "trinomial_size ?tri 0 = Some 1" "trinomial_size ?tri (0 + 1) = Some 3"
    by (simp_all add: trinomial_size_def slot_def sample_size)
  obtain tf where tf: "two_factor_new ?tri ?tri (Fin 1) = Inr tf" by (simp add: two_factor_new_def)
  have "factor1 tf = ?tri" "factor2 tf = ?tri" using two_factor_new_fields [OF tf] by simp_all
  then have "two_factor_size tf 0 = Some 1" "two_factor_size tf (0 + 1) = Some 9"
    using size by (simp_all add: two_factor_size_def usize_def)
  from product_tree_moves_its_factors [OF tri tri tf _ this, of 0 8] show ?thesis using tri tf by auto
qed

section \<open>Adjustments and rolling back\<close>

text \<open>C39. The adjustments of an option, on an underlying of any kind, fire once at a time: adjusting an adjusted option
  again, at a time that is a number, changes nothing, in the option or in its underlying.\<close>

theorem adjustments_fire_once:
  assumes "adjust (option_hooks k) ls a = Some (Inr b)" "asset_time (option_base a) \<noteq> Not_A_Number"
  shows "adjust (option_hooks k) ls b = Some (Inr b)"
  using option.adjust_once [OF assms(1)] assms(2) by (simp add: time_of_def option_hooks_def)

text \<open>C40. Rolling an option back over a grid that resolves its nodes, to a node and from there to an earlier one, is
  rolling it back to the earlier node at once, whatever its underlying: the same values, the same adjustments at
  the same times and the same failure, if any. The three nodes must not be close to one another.\<close>

theorem rolling_back_in_legs:
  assumes "asset_method (option_base a) = Some addr" "grid_times (lattice_grid (ls addr)) = ts"
    "list_all is_finite ts" "successively (\<lambda>s t. f_less (Fin 0) (f_sub t s)) ts"
    "to < mid" "mid < from" "from < length ts" "asset_time (option_base a) = ts ! from"
    "\<not> close (ts ! from) (ts ! mid)" "\<not> close (ts ! from) (ts ! to)" "\<not> close (ts ! mid) (ts ! to)"
  shows "asset_rollback (option_hooks k) ls (ts ! to) a =
    question (asset_rollback (option_hooks k) ls (ts ! mid) a) (asset_rollback (option_hooks k) ls (ts ! to))"
proof -
  let ?l = "ls addr" and ?k = "option_hooks k"
  have r: "rising (grid_times (lattice_grid ?l))" using assms(2-4) by (simp add: rising_def)
  have "\<not> close (ts ! q) (ts ! p)" if "{p, q} \<subseteq> {to, mid, from}" "p < q" for p q
    using that assms(5,6,9-11) by auto
  then have legs: "lattice_rollback ?k ls ?l (ts ! to) a =
      question (lattice_rollback ?k ls ?l (ts ! mid) a) (lattice_rollback ?k ls ?l (ts ! to))"
    using option.rollback_in_legs [OF r assms(5,6)] assms(2,7,8) by (simp add: time_of_def option_hooks_def)
  have call: "asset_rollback ?k ls t c = lattice_rollback ?k ls ?l t c" if "asset_method (option_base c) = Some addr" for t c
    using that by (simp add: asset_rollback_def require_method_def option_hooks_def)
  have "asset_method (option_base c) = Some addr" if "lattice_rollback ?k ls ?l (ts ! mid) a = Some (Inr c)" for c
    using option.lattice_rollback_method [OF that] assms(1) by (simp add: option_hooks_def)
  then show ?thesis unfolding call [OF assms(1)] legs by (intro question_cong) (simp add: call)
qed

section \<open>A sample option\<close>

definition sample_lattice :: tree_lattice where
  "sample_lattice = \<lparr>lattice_code = \<lparr>impl_tree = crr_tree (\<lambda>x. x) \<lparr>crr_x0 = Fin 1, crr_dx = Fin 1, crr_pu = Fin (1 / 2),
       crr_pd = Fin (1 / 2), crr_columns = 3\<rparr>, impl_discount = (\<lambda>i j. Some (Fin 1))\<rparr>,
     lattice_grid = \<lparr>grid_times = [Fin 0, Fin 1, Fin 2], grid_dt = [Fin 1, Fin 1], grid_mandatory = [Fin 1, Fin 2]\<rparr>,
     state_cache = [[Fin 1]], state_limit = 0\<rparr>"

definition sample_base :: "f64 \<Rightarrow> f64 list \<Rightarrow> asset_base" where
  "sample_base t vs = \<lparr>asset_time = t, latest_pre_adjustment = Fin 5, latest_post_adjustment = Fin 5, asset_values = vs,
     asset_method = Some 0\<rparr>"

definition sample_option :: "f64 \<Rightarrow> f64 list \<Rightarrow> f64 list \<Rightarrow> asset_base discretized_option" where
  "sample_option t vs us = \<lparr>option_base = sample_base t vs, option_underlying = sample_base t us,
     option_exercise = American, exercise_times = [Fin 0, Fin 5]\<rparr>"

lemma scaled_tolerance: "fl (42 / 2 ^ 52) = Fin (42 / 2 ^ 52)" "fl (84 / 2 ^ 52) = Fin (84 / 2 ^ 52)" "fl (210 / 2 ^ 52) = Fin (210 / 2 ^ 52)"
  using fl_binary_fraction [of 42 52] fl_binary_fraction [of 84 52] fl_binary_fraction [of 210 52] by simp_all

lemma nodes_apart: "\<not> close (Fin 2) (Fin 1)" "\<not> close (Fin 2) (Fin 0)" "\<not> close (Fin 1) (Fin 0)"
proof -
  show "\<not> close (Fin 2) (Fin 1)"
    using scaled_tolerance by (simp add: close_def close_n_def f_of_int f64_epsilon_def f_sub_def fl_one f_le_def)
  have "\<not> close (Fin v) (Fin 0)" if "fl v = Fin v" "1 \<le> v" for v
  proof -
    have "zero_tolerance \<le> 1" by (simp add: zero_tolerance_def epsilon_42_def)
    then show ?thesis using that
      by (simp add: close_def close_n_def Let_def f64_42_epsilon f64_42_epsilon_squared f_sub_def del: f_mul.simps)
  qed
  then show "\<not> close (Fin 2) (Fin 0)" "\<not> close (Fin 1) (Fin 0)"
    using fl_one fl_numeral [of "num.Bit0 num.One"] by simp_all
qed

lemma not_yet_adjusted: "\<not> close_enough (Fin 1) (Fin 5)" "close_enough (Fin 1) (Fin 1)" "close (Fin 1) (Fin 1)"
proof -
  have "fl (- 4) = Fin (- 4)" using fl_minus_Fin [OF fl_numeral [of "num.Bit0 (num.Bit0 num.One)"]] by simp
  then show "\<not> close_enough (Fin 1) (Fin 5)"
    using scaled_tolerance by (simp add: close_enough_def close_enough_n_def f_of_int f64_epsilon_def f_sub_def f_le_def)
qed (simp_all add: close_enough_def close_enough_n_def close_def close_n_def)

lemma sample_adjusted:
  "\<exists>b. adjust (option_hooks bond_kind) ls (sample_option (Fin 1) [Fin 2, Fin 4] [Fin 3, Fin 3]) = Some (Inr b) \<and>
    asset_values (option_base b) = [Fin 3, Fin 4]"
  by (simp add: adjust_def pre_adjust_def post_adjust_def time_of_def values_of_def option_hooks_def bond_kind_def
    sample_option_def sample_base_def not_yet_adjusted option_post_adjust_def asset_partial_rollback_def
    require_method_def lattice_partial_rollback_def exercise_def apply_exercise_def slot_def f_le_def f_max_def Let_def)

lemma adjustments_fire_once_witness:
  "\<exists>b. adjust (option_hooks bond_kind) (\<lambda>_. sample_lattice) b = Some (Inr b) \<and> asset_values (option_base b) = [Fin 3, Fin 4]"
proof -
  obtain b where b: "adjust (option_hooks bond_kind) (\<lambda>_. sample_lattice) (sample_option (Fin 1) [Fin 2, Fin 4] [Fin 3, Fin 3]) = Some (Inr b)"
      "asset_values (option_base b) = [Fin 3, Fin 4]"
    using sample_adjusted by blast
  have "asset_time (option_base (sample_option (Fin 1) [Fin 2, Fin 4] [Fin 3, Fin 3])) \<noteq> Not_A_Number"
    by (simp add: sample_option_def sample_base_def)
  from adjustments_fire_once [OF b(1) this] show ?thesis using b(2) by blast
qed

lemma rolling_back_in_legs_witness:
  "asset_rollback (option_hooks bond_kind) (\<lambda>_. sample_lattice) (Fin 0) (sample_option (Fin 2) [Fin 1, Fin 2, Fin 4] [Fin 1, Fin 1, Fin 1]) =
    question (asset_rollback (option_hooks bond_kind) (\<lambda>_. sample_lattice) (Fin 1) (sample_option (Fin 2) [Fin 1, Fin 2, Fin 4] [Fin 1, Fin 1, Fin 1]))
      (asset_rollback (option_hooks bond_kind) (\<lambda>_. sample_lattice) (Fin 0))"
  using rolling_back_in_legs [of "sample_option (Fin 2) [Fin 1, Fin 2, Fin 4] [Fin 1, Fin 1, Fin 1]" 0 "\<lambda>_. sample_lattice"
      "[Fin 0, Fin 1, Fin 2]" 0 1 2 bond_kind] nodes_apart
  by (simp add: sample_option_def sample_base_def sample_lattice_def f_sub_def fl_one)

end
