(* ===== verification/Spec2Isabelle.thy ===== *)
theory Spec2Isabelle
  imports Date_Properties Calendar_Properties Market_Properties Schedule_Properties Composite_Calendars Markets_Plain Markets_West Markets_North Markets_East
    Markets_Americas Markets_China Markets_Asia Markets_Korea Markets_South Futures_Dates Observable_Properties Handles Instrument
    Uniform_Reals Solver_Properties Day_Counter_Properties Actual_Actual_Properties Isma_Properties Year_Fraction_To_Date Markets_Japan
    Text_Properties Time_Series Ecb_Dates Sobol_Properties Money Grid_Properties Halton
    Rollback Lattice_Properties
begin

text \<open>
  libitofin is a Rust port of QuantLib: dates and calendars, payment schedules, day counters, an
  observer framework with lazy and cached recalculation, random number generators, and on top of
  these the instruments, engines and numerical methods of quantitative finance. This development
  models the discrete core of the crate \<open>crates/libitofin\<close>, the part everything else counts days,
  rolls dates, notifies and draws numbers with, and proves it correct. File names below are relative
  to \<open>crates/libitofin/src\<close>.

  \<^bold>\<open>How Rust reads in HOL.\<close> \<open>Prelude\<close> fixes the conventions. A panic (a failed assertion, an index out of
  range, an arithmetic overflow as the debug profile checks it) is \<open>None\<close>; a \<open>QlResult\<close> is
  \<open>ql_error + 'a\<close>; a function that can do both returns \<open>(ql_error + 'a) option\<close>. \<open>i32\<close> values are
  integers, and every operation of the source that could leave their range goes through \<open>i32\<close>, which
  is \<open>None\<close> outside it; \<open>/\<close> and \<open>%\<close> truncate as Rust's do. Where the code wraps around or works bitwise
  (the random number generators, the weekend mask of a bespoke calendar) values are \<open>w word\<close>. A byte
  string is a list of 8-bit words (\<open>Ascii\<close>). An \<open>f64\<close> is a value of the datatype of \<open>Floats\<close>: a
  rational, one of the infinities or not-a-number, and each operation rounds its exact result to the nearest
  double, ties to even, with gradual underflow and overflow to infinity. The model has one zero, the positive one:
  the code modelled here tells the two apart only where it divides by one, as \<open>money_div\<close> and a tree of zero variance can. A struct is a record, an enum a datatype. A trait
  object is a record of its methods, or parameters of the operations that call it.
  A loop is a recursive function with a proof of termination; where a body is unknown (an observer's
  \<open>update\<close>) execution is a step relation with an explicit call stack.

  \<^bold>\<open>Time\<close> (\<open>time/\<close>).
  \<^item> \<open>Time_Enums\<close>: the enumerations (\<open>weekday.rs\<close>, \<open>timeunit.rs\<close>, \<open>frequency.rs\<close>,
    \<open>businessdayconvention.rs\<close>, \<open>dategenerationrule.rs\<close>) with their discriminants and conversions.
  \<^item> \<open>Periods\<close> (\<open>period.rs\<close>): construction, normalisation, the conversion of frequencies,
    arithmetic, the partial order by day bounds, and display.
  \<^item> \<open>Dates\<close> and \<open>Date_Periods\<close> (\<open>date.rs\<close>): dates as serial numbers, the tables, constructors,
    inspectors, and arithmetic. \<open>Gregorian\<close> proves the tables are the Gregorian calendar and construction
    and inspection are inverse; \<open>Date_Properties\<close> states what a reader of \<open>Date\<close> relies on.
  \<^item> \<open>Calendar\<close> (\<open>calendar.rs\<close>): a calendar is a market (a record of the trait's methods) with two
    override sets; rolling, adjusting, advancing, counting and listing days. \<open>Business_Days\<close> holds the
    contract between a market and these loops as a locale, and what follows from it;
    \<open>Calendar_Laws\<close> discharges it for well-formed calendars and gives each operation its
    closed form; \<open>Calendar_Properties\<close> states the results. \<open>Live_Markets\<close> refines the contract to markets that
    always have a business day within a fixed horizon, so that adjusting cannot run off the calendar.
  \<^item> \<open>Market_Rules\<close>, \<open>Markets_Plain\<close>, \<open>Markets_West\<close>, \<open>Markets_North\<close>, \<open>Markets_East\<close>, \<open>Markets_Americas\<close>,
    \<open>Markets_China\<close>, \<open>Markets_Asia\<close>, \<open>Markets_Korea\<close>, \<open>Markets_South\<close> (\<open>calendars/\<close>): every market of
    every national calendar, clause by clause, and \<open>Markets_Japan\<close>, whose equinoxes are computed in \<open>Floats\<close> as the code
    does and proved to be the calendar's in our time; each interprets the market locales. \<open>Easter\<close> has the two
    tables of \<open>calendar.rs\<close>; \<open>Market_Properties\<close> proves them to be the computus and states what the markets
    guarantee. \<open>Composite_Calendars\<close>: the bespoke and the joint calendar.
  \<^item> \<open>Schedule\<close> (\<open>schedule.rs\<close>): generation under every rule, accessors, truncation, the builder.
    \<open>Schedule_Laws\<close>, \<open>Schedule_Order\<close> and \<open>Schedule_Cuts\<close> prove the flag invariant, that dates
    generated without an end-of-month flag increase, and what look-up and truncation compute; \<open>Schedule_Properties\<close> states them.
  \<^item> \<open>Futures_Dates\<close> (\<open>imm.rs\<close>, \<open>asx.rs\<close>): both modules; the next date is the least, codes round-trip.
    \<open>Ecb_Dates\<close> (\<open>ecb.rs\<close>): the published dates and their edits, codes and queries. \<open>Time_Series\<close>
    (\<open>timeseries.rs\<close>): observations by date. Both keep a standard ordered collection, which \<open>Ordered_Tables\<close> models as
    an ascending list; its laws give the refinement to a finite map or set.
  \<^item> \<open>Date_Text\<close> and \<open>Data_Parsers\<close> (the formats of \<open>date.rs\<close>, \<open>utilities/dataformatters.rs\<close>,
    \<open>utilities/dataparsers.rs\<close>): text formats and the parsers of periods and dates; \<open>Text_Properties\<close> proves the round trips
    and which input is refused. \<open>Date_Text\<close> also has the lengths of a period as floating-point numbers.
  \<^item> \<open>Day_Counters\<close>, \<open>Actual_Actual\<close> (\<open>daycounter.rs\<close>, \<open>daycounters/\<close>): every counter with its year
    fraction in \<open>Floats\<close>. \<open>Day_Counter_Properties\<close>, \<open>Actual_Actual_Properties\<close> and \<open>Isma_Properties\<close> prove
    them against the market definitions in spite of rounding, and that the recursions end. The recursion of the
    reference-period counter carries 500000 units of fuel; a measure of its arguments, in days
    of the supported range, shows that it never needs more.
    \<open>Year_Fraction_To_Date\<close>: the search that inverts a counter.

  \<^bold>\<open>Patterns\<close> (\<open>patterns/\<close>, \<open>handle.rs\<close>, \<open>instrument.rs\<close>).
  \<^item> \<open>Observable\<close>: registries of weak pointers, notification rounds, the pending list and its drain, with the
    \<open>RefCell\<close> borrows and strong counts explicit. The update of an observer is arbitrary: a machine step
    may register, unregister, drop or notify. \<open>Observable_Laws\<close> proves the invariant by rule induction over the
    steps; \<open>Observable_Properties\<close> states delivery, the guards and the refinement to a set of live observers.
  \<^item> \<open>Handles\<close>: links, their forwarder and relinking. \<open>Lazy_Object\<close>: calculation on demand.
    \<open>Instrument\<close>: the cached calculation over virtual methods of instrument and engine, as parameters.

  \<^bold>\<open>Mathematics\<close> (\<open>math/\<close>).
  \<^item> \<open>Floats\<close> is the number model and its laws: monotone rounding, exactness on representable numbers, error
    bounds. \<open>Comparison\<close> (\<open>comparison.rs\<close>): the proximity tests.
  \<^item> \<open>Xoshiro\<close>, \<open>Ranlux\<close>, \<open>Mersenne\<close> (\<open>randomnumbers/\<close>): the three word generators, their seeding and the
    seed generator; \<open>Uniform_Reals\<close>: the deviates they make of their words.
  \<^item> \<open>Sobol\<close> (\<open>randomnumbers/sobol/\<close>): the low-discrepancy generator over any tables of polynomials and initial
    numbers, which are arguments; \<open>Sobol_Properties\<close> proves the closed form of the sequence, that skipping is drawing, and
    that no coordinate repeats within the period. \<open>Halton\<close> (\<open>haltonrsg.rs\<close>): its bases are the first primes and its
    points the radical inverses of the counter, up to rounding.
  \<^item> \<open>Money\<close> (\<open>currency.rs\<close>, \<open>money.rs\<close>, \<open>exchangerate.rs\<close>): amounts and chained exchange rates;
    a conversion answers in the other currency of the rate or refuses.
  \<^item> \<open>Float_Order\<close>: numbers that rounding keeps, the total order of \<open>total_cmp\<close>, and \<open>dedup_by\<close>.
    \<open>Time_Grid\<close> (\<open>timegrid.rs\<close>): the three constructors and the search. A grid through given times resolves
    its own nodes, and the search finds a nearest one.
  \<^item> \<open>Trees\<close> and \<open>Tree_Lattice\<close> (\<open>methods/lattices/\<close>, \<open>discretizedasset.rs\<close>): the trinomial, binomial and
    two-factor trees over any process, the lattice with its cache of state prices, and the discretized assets it rolls
    back, as records of the trait's methods. Branches stay on the tree; \<open>Lattice_Laws\<close> has the
    laws of the cache and of rolling back, and \<open>Lattice_Properties\<close> states the results.
  \<^item> \<open>Grid_Layout\<close> and \<open>Rollback\<close> (\<open>methods/finitedifferences/\<close>): the index space of a finite-difference grid,
    with its reflecting boundaries (\<open>Grid_Properties\<close>), and the stepping over stopping times, for any scheme.
  \<^item> \<open>Solver1D\<close>, \<open>Root_Finders\<close>, \<open>Derivative_Finders\<close> (\<open>solver1d.rs\<close>, \<open>solvers1d/\<close>): the search for a bracket,
    both entry points and all nine methods over a closure with state, its errors in the order of the code.
    \<open>Solver_Laws\<close> states what the entry points need of a refinement as a locale, \<open>Solver_Contracts\<close> discharges it
    for eight methods and the budget for the ninth, \<open>Bisection_Properties\<close> and \<open>Bracketing_Properties\<close> follow the bracket through the loops, and
    \<open>Solver_Properties\<close> states termination within the budget, correctness and the failures that cannot occur.
    Every loop ends by its evaluation counter, so no fuel is needed.
  \<^bold>\<open>Interfaces.\<close> Each contract between parts of the program is a locale, interpreted on the code's own definitions.
  \<open>market_days\<close> (\<open>Business_Days\<close>) is what the rolling and counting loops need of a market: its calls return, and
  business days recur. \<open>market\<close> and \<open>live_market\<close> (\<open>Live_Markets\<close>) are markets that never panic, and that also have a
  business day within a fixed horizon; \<open>weekend_market\<close> (\<open>Market_Rules\<close>) adds a fixed weekend. They are interpreted on
  the markets of \<open>Markets_*\<close>. \<open>refinement_contract\<close> (\<open>Solver_Laws\<close>) is what the drivers of the root finders need of a
  method: it samples at most once per count, and the root last. It extends \<open>sampling_budget\<close>, which allows several
  samples per count; \<open>Solver_Contracts\<close> interprets it on eight methods and that one on the finite-difference method.
  \<open>tree_contract\<close> (\<open>Trees\<close>) is what a lattice needs of a tree: one root, and descendants on the next slice; it is
  interpreted on the trees of all three kinds that their constructors return. \<open>asset\<close> (\<open>Lattice_Laws\<close>) is what it needs
  of an asset: adjustments that change the values alone; it is interpreted on bonds and on options over any underlying.
  \<^bold>\<open>Not modelled.\<close> The percentage formats of \<open>dataformatters.rs\<close> print floating-point numbers in decimal and are left out; the
  quotient of logarithms in the skipping of \<open>Sobol\<close> is an argument. The rest of the
  numerical library (linear algebra, integration, interpolation, optimisation, finite-difference schemes, Monte Carlo) and
  the pricing layer built on it (instruments, engines, models, term structures, cash flows) approximate real analysis:
  the properties that matter there are error estimates, not statements about discrete state.
  Bindings (\<open>libitofin-ffi\<close>, \<open>itofin-py\<close>) and the portfolio optimiser are outside the crate.
\<close>

end
